(* ===== verification/Prelude.thy ===== *)
theory Prelude
  imports Complex_Main "HOL-Library.Word" "HOL-Library.Char_ord" "HOL-Library.List_Lexorder"
begin

unbundle bit_operations_syntax

text \<open>
  Shared vocabulary of the development: Python exceptions as values, the result type and its
  sequencing operator, bytes, the little-endian and bit-packing encodings the packed corpus uses,
  decimal formatting of file indices, and the list lemmas several components need.

  Strings are character lists; a character is a code point below 256.
\<close>

section \<open>Errors as values\<close>

text \<open>
  One constructor per exception class the modelled code raises. The string is the constant part
  of the message, so that every \<^verbatim>\<open>raise\<close> of the source is a distinct value.
\<close>

datatype exn =
    ValueError string
  | TypeError string
  | IOError string
  | RuntimeError string
  | AssertionError string
  | IndexError string
  | KeyError string
  | FileExistsError string
  | FileNotFoundError string
  | AttributeError string
  | ChatFormatError string
  | SFTPreparationError string
  | FloatingPointError string
  | CurationError string
  | IntegrityError string
  | StopIteration

type_synonym 'a res = "exn + 'a"

definition rbind :: "'a res \<Rightarrow> ('a \<Rightarrow> 'b res) \<Rightarrow> 'b res" where
  "rbind r f = (case r of Inl e \<Rightarrow> Inl e | Inr x \<Rightarrow> f x)"

fun mapM :: "('a \<Rightarrow> 'b res) \<Rightarrow> 'a list \<Rightarrow> 'b list res" where
  "mapM f [] = Inr []"
| "mapM f (x # xs) = rbind (f x) (\<lambda>y. rbind (mapM f xs) (\<lambda>ys. Inr (y # ys)))"

fun foldM :: "('s \<Rightarrow> 'a \<Rightarrow> 's res) \<Rightarrow> 's \<Rightarrow> 'a list \<Rightarrow> 's res" where
  "foldM f s [] = Inr s"
| "foldM f s (x # xs) = rbind (f s x) (\<lambda>s'. foldM f s' xs)"

named_theorems res_simps "success of a sequence of checks, as a conjunction"

lemma rbind_Inr [simp]: "rbind (Inr x) f = f x"
  by (simp add: rbind_def)

lemma rbind_Inl [simp]: "rbind (Inl e) f = Inl e"
  by (simp add: rbind_def)

lemma rbind_eq_Inr [res_simps]: "rbind r f = Inr y \<longleftrightarrow> (\<exists>x. r = Inr x \<and> f x = Inr y)"
  by (auto simp: rbind_def split: sum.splits)

lemma check_eq_Inr [res_simps]: "(if b then Inl e else r) = Inr y \<longleftrightarrow> \<not> b \<and> r = Inr y"
  by auto

lemma uncheck_eq_Inr [res_simps]: "(if b then r else Inl e) = Inr y \<longleftrightarrow> b \<and> r = Inr y"
  by auto

lemma rbind_cong [fundef_cong]:
  "r = r' \<Longrightarrow> (\<And>x. r' = Inr x \<Longrightarrow> f x = f' x) \<Longrightarrow> rbind r f = rbind r' f'"
  by (auto simp: rbind_def split: sum.splits)

lemma mapM_eq_Inr [res_simps]:
  "mapM f xs = Inr ys \<longleftrightarrow> list_all2 (\<lambda>x y. f x = Inr y) xs ys"
  by (induction xs arbitrary: ys) (auto simp: rbind_eq_Inr list_all2_Cons1)

lemma mapM_Inr_map: "(\<And>x. x \<in> set xs \<Longrightarrow> f x = Inr (g x)) \<Longrightarrow> mapM f xs = Inr (map g xs)"
  by (induction xs) auto

lemma foldM_append: "foldM f s (xs @ ys) = rbind (foldM f s xs) (\<lambda>s'. foldM f s' ys)"
proof (induction xs arbitrary: s)
  case (Cons x xs)
  then show ?case by (cases "f s x") auto
qed simp

lemma foldM_invariant:
  assumes "foldM f s xs = Inr t" and "P s"
    and "\<And>s x t. x \<in> set xs \<Longrightarrow> P s \<Longrightarrow> f s x = Inr t \<Longrightarrow> P t"
  shows "P t"
  using assms
proof (induction xs arbitrary: s)
  case (Cons x xs)
  from Cons.prems(1) obtain s' where "f s x = Inr s'" and s': "foldM f s' xs = Inr t"
    by (auto simp: rbind_eq_Inr)
  then have "P s'" using Cons.prems(2) Cons.prems(3) [of x s s'] by simp
  with s' Cons.prems(3) show ?case by (intro Cons.IH) auto
qed simp

section \<open>Bytes\<close>

type_synonym byte = "8 word"

text \<open>\<^verbatim>\<open>math.ceil(n / 8)\<close> for a non-negative integer.\<close>

definition ceil8 :: "nat \<Rightarrow> nat" where
  "ceil8 n = (n + 7) div 8"

text \<open>One \<^verbatim>\<open>"<u2"\<close> element: two bytes, the low one first.\<close>

definition u16_le :: "nat \<Rightarrow> byte list" where
  "u16_le t = [of_nat (t mod 256), of_nat (t div 256)]"

definition u16_of_le :: "byte list \<Rightarrow> nat" where
  "u16_of_le bs = unat (bs ! 0) + 256 * unat (bs ! 1)"

text \<open>
  \<^verbatim>\<open>numpy.packbits(row, bitorder="little")\<close>: eight flags per byte, the first flag in bit 0,
  the last byte padded with zero bits; and \<^verbatim>\<open>numpy.unpackbits(bytes, count=n)\<close>.
\<close>

definition byte_of_bits :: "bool list \<Rightarrow> byte" where
  "byte_of_bits bs = horner_sum of_bool 2 (take 8 bs)"

fun packbits :: "bool list \<Rightarrow> byte list" where
  "packbits [] = []"
| "packbits (b # bs) = byte_of_bits (b # bs) # packbits (drop 7 bs)"

definition bits_of_byte :: "byte \<Rightarrow> bool list" where
  "bits_of_byte b = map (bit b) [0..<8]"

definition unpackbits :: "nat \<Rightarrow> byte list \<Rightarrow> bool list" where
  "unpackbits n bs = take n (concat (map bits_of_byte bs))"

text \<open>\<^verbatim>\<open>_BYTE_POPCOUNT[value]\<close>.\<close>

definition popcount :: "byte \<Rightarrow> nat" where
  "popcount b = length (filter (\<lambda>x. x) (bits_of_byte b))"

named_theorems byte_simps "lengths and round trips of the byte encodings"

lemma unat_byte_less [simp]: "unat (b :: byte) < 256"
  using unsigned_less [of b] by simp

lemma length_u16_le [simp]: "length (u16_le t) = 2"
  by (simp add: u16_le_def)

lemma u16_round_trip [byte_simps]: "t < 65536 \<Longrightarrow> u16_of_le (u16_le t) = t"
proof -
  assume "t < 65536"
  then have "t div 256 < 256" by simp
  then show ?thesis
    by (simp add: u16_of_le_def u16_le_def unat_of_nat)
qed

lemma length_bits_of_byte [simp]: "length (bits_of_byte b) = 8"
  by (simp add: bits_of_byte_def)

lemma bits_of_byte_of_bits:
  "bits_of_byte (byte_of_bits bs) = take 8 bs @ replicate (8 - length bs) False"
proof (rule nth_equalityI)
  fix i assume "i < length (bits_of_byte (byte_of_bits bs))"
  then have i: "i < 8" by simp
  then have "bits_of_byte (byte_of_bits bs) ! i = (i < length bs \<and> take 8 bs ! i)"
    by (simp add: bits_of_byte_def byte_of_bits_def bit_horner_sum_bit_word_iff)
  then show "bits_of_byte (byte_of_bits bs) ! i = (take 8 bs @ replicate (8 - length bs) False) ! i"
    using i by (auto simp: nth_append)
qed auto

lemma length_packbits [simp, byte_simps]: "length (packbits bs) = ceil8 (length bs)"
proof (induction bs rule: packbits.induct)
  case (2 b bs)
  then show ?case by (simp add: ceil8_def)
qed (simp add: ceil8_def)

text \<open>All bits a packed row expands to: the row, then the zero padding of its last byte.\<close>

lemma concat_packbits:
  "concat (map bits_of_byte (packbits bs)) = bs @ replicate (8 * ceil8 (length bs) - length bs) False"
proof (induction bs rule: packbits.induct)
  case (2 b bs)
  show ?case
  proof (cases "length bs < 7")
    case True
    then have "ceil8 (Suc (length bs)) = 1" by (simp add: ceil8_def)
    with True show ?thesis by (simp add: bits_of_byte_of_bits)
  next
    case False
    then have pad: "8 * ceil8 (length bs - 7) - (length bs - 7)
        = 8 * ceil8 (Suc (length bs)) - Suc (length bs)"
      using False by (simp add: ceil8_def)
    have "concat (map bits_of_byte (packbits (b # bs)))
        = take 8 (b # bs) @ drop 7 bs @ replicate (8 * ceil8 (length bs - 7) - (length bs - 7)) False"
      using 2 False by (simp add: bits_of_byte_of_bits)
    also have "\<dots> = (b # bs) @ replicate (8 * ceil8 (length bs - 7) - (length bs - 7)) False"
      by (simp add: take_Cons')
    finally show ?thesis unfolding pad by simp
  qed
qed (simp add: ceil8_def)

lemma unpack_pack [byte_simps]: "unpackbits (length bs) (packbits bs) = bs"
  by (simp add: unpackbits_def concat_packbits)

lemma popcount_packbits:
  "sum_list (map popcount (packbits bs)) = length (filter (\<lambda>x. x) bs)"
proof -
  have "sum_list (map popcount ys) = length (filter (\<lambda>x. x) (concat (map bits_of_byte ys)))" for ys
    by (induction ys) (auto simp: popcount_def)
  then show ?thesis by (simp add: concat_packbits)
qed

section \<open>Decimal file indices\<close>

definition digit_char :: "nat \<Rightarrow> char" where
  "digit_char d = char_of (48 + d)"

fun dec :: "nat \<Rightarrow> string" where
  "dec n = (if n < 10 then [digit_char n] else dec (n div 10) @ [digit_char (n mod 10)])"

declare dec.simps [simp del]

text \<open>The format \<^verbatim>\<open>{n:06d}\<close>.\<close>

definition fmt06d :: "nat \<Rightarrow> string" where
  "fmt06d n = (let s = dec n in replicate (6 - length s) (CHR ''0'') @ s)"

definition is_digit :: "char \<Rightarrow> bool" where
  "is_digit c \<longleftrightarrow> 48 \<le> (of_char c :: nat) \<and> (of_char c :: nat) \<le> 57"

definition digits_val :: "string \<Rightarrow> nat" where
  "digits_val s = foldl (\<lambda>a c. 10 * a + (of_char c - 48)) 0 s"

lemma digit_char_props [simp]:
  "d < 10 \<Longrightarrow> is_digit (digit_char d)" "d < 10 \<Longrightarrow> of_char (digit_char d) = 48 + d"
  by (simp_all add: is_digit_def digit_char_def)

lemma digits_val_append [simp]: "digits_val (s @ [c]) = 10 * digits_val s + (of_char c - 48)"
  by (simp add: digits_val_def)

lemma digits_val_zeros [simp]: "digits_val (replicate k (CHR ''0'') @ s) = digits_val s"
  by (induction k) (simp_all add: digits_val_def)

lemma digits_val_dec [simp]: "digits_val (dec n) = n"
proof (induction n rule: dec.induct)
  case (1 n)
  show ?case
  proof (cases "n < 10")
    case True
    then show ?thesis by (simp add: dec.simps digits_val_def)
  next
    case False
    with 1 have "digits_val (dec (n div 10)) = n div 10" by simp
    with False show ?thesis by (simp add: dec.simps [of n] del: of_char_mod_256)
  qed
qed

lemma digits_val_fmt06d [simp]: "digits_val (fmt06d n) = n"
  by (simp add: fmt06d_def Let_def)

lemma fmt06d_inject [simp]: "fmt06d m = fmt06d n \<longleftrightarrow> m = n"
  by (metis digits_val_fmt06d)

lemma all_digits_dec: "list_all is_digit (dec n)"
proof (induction n rule: dec.induct)
  case (1 n)
  then show ?case by (cases "n < 10") (simp_all add: dec.simps [of n])
qed

lemma length_dec_le: "n < 10 ^ k \<Longrightarrow> 0 < k \<Longrightarrow> length (dec n) \<le> k"
proof (induction k arbitrary: n)
  case (Suc k)
  show ?case
  proof (cases "n < 10")
    case True
    then show ?thesis by (simp add: dec.simps)
  next
    case False
    with Suc.prems have "0 < k" by (cases k) auto
    moreover have "n div 10 < 10 ^ k" using Suc.prems by (simp add: less_mult_imp_div_less mult.commute)
    ultimately show ?thesis using Suc.IH [of "n div 10"] False by (simp add: dec.simps [of n])
  qed
qed simp

lemma fmt06d_six: "n < 1000000 \<Longrightarrow> length (fmt06d n) = 6 \<and> list_all is_digit (fmt06d n)"
  using length_dec_le [of n 6] all_digits_dec [of n]
  by (auto simp: fmt06d_def Let_def list_all_iff is_digit_def)

section \<open>Lists\<close>

text \<open>Element blocks of a list cut into pieces of equal width: random access into a file.\<close>

definition segment :: "nat \<Rightarrow> nat \<Rightarrow> 'a list \<Rightarrow> 'a list" where
  "segment i n xs = take n (drop i xs)"

lemma length_segment [simp]: "length (segment i n xs) = min n (length xs - i)"
  by (simp add: segment_def)

lemma length_concat_const:
  "(\<And>x. x \<in> set xs \<Longrightarrow> length x = w) \<Longrightarrow> length (concat xs) = length xs * w"
  by (induction xs) auto

lemma segment_concat_const:
  assumes "\<And>x. x \<in> set xs \<Longrightarrow> length x = w" and "i < length xs"
  shows "segment (i * w) w (concat xs) = xs ! i"
  using assms
proof (induction xs arbitrary: i)
  case (Cons x xs)
  show ?case
  proof (cases i)
    case 0
    with Cons.prems(1) show ?thesis by (simp add: segment_def)
  next
    case (Suc j)
    then have "segment (i * w) w (concat (x # xs)) = segment (j * w) w (concat xs)"
      using Cons.prems(1) by (simp add: segment_def)
    also have "\<dots> = xs ! j" using Cons Suc by simp
    finally show ?thesis using Suc by simp
  qed
qed simp

lemma map_nth_upt_segment:
  "a \<le> b \<Longrightarrow> b \<le> length xs \<Longrightarrow> map ((!) xs) [a..<b] = segment a (b - a) xs"
  by (rule nth_equalityI) (auto simp: segment_def)

lemma sum_list_replicate_nat [simp]: "sum_list (replicate n (c::nat)) = n * c"
  by (simp add: sum_list_replicate)

end
