(* ===== verification/Sha256.thy ===== *)
theory Sha256
  imports Prelude
begin

text \<open>
  \<^verbatim>\<open>hashlib.sha256\<close> of the Python standard library (FIPS 180-4), over byte lists and
  32-bit words, with \<^verbatim>\<open>hexdigest\<close> and the big-endian integer the code reads from a digest
  prefix, and the UTF-8 encoding of a string. The components see the digest through the locale
  \<^verbatim>\<open>hex_digest\<close> only: what they rely on is that a digest is 64 lowercase hexadecimal
  characters.
\<close>

type_synonym w32 = "32 word"

text \<open>
  The constants of the standard: the first 32 fractional bits of the cube roots of the first 64
  primes, and of the square roots of the first eight.
\<close>

definition root_floor :: "nat \<Rightarrow> nat \<Rightarrow> nat" where
  "root_floor k n = foldl (\<lambda>r i. if (r + 2 ^ i) ^ k \<le> n then r + 2 ^ i else r) 0 (rev [0..<40])"

definition sha_primes :: "nat list" where
  "sha_primes = filter (\<lambda>p. list_all (\<lambda>d. p mod d \<noteq> 0) [2..<p]) [2..<312]"

definition sha_k :: "w32 list" where
  "sha_k = map (\<lambda>p. of_nat (root_floor 3 (p * 2 ^ 96))) sha_primes"

definition sha_init :: "w32 list" where
  "sha_init = map (\<lambda>p. of_nat (root_floor 2 (p * 2 ^ 64))) [2, 3, 5, 7, 11, 13, 17, 19]"

definition rotr :: "nat \<Rightarrow> w32 \<Rightarrow> w32" where
  "rotr n x = drop_bit n x OR push_bit (32 - n) x"

definition be32 :: "w32 \<Rightarrow> byte list" where
  "be32 x = [ucast (drop_bit 24 x), ucast (drop_bit 16 x), ucast (drop_bit 8 x), ucast x]"

definition be32_word :: "byte list \<Rightarrow> w32" where
  "be32_word bs = foldl (\<lambda>a b. push_bit 8 a OR ucast b) 0 bs"

definition be64 :: "nat \<Rightarrow> byte list" where
  "be64 n = map (\<lambda>i. of_nat (n div 256 ^ i)) [7, 6, 5, 4, 3, 2, 1, 0]"

definition sha_pad :: "byte list \<Rightarrow> byte list" where
  "sha_pad m = m @ [0x80] @ replicate ((119 - length m mod 64) mod 64) 0 @ be64 (8 * length m)"

fun chunks_of :: "nat \<Rightarrow> 'a list \<Rightarrow> 'a list list" where
  "chunks_of n xs = (if n = 0 \<or> xs = [] then [] else take n xs # chunks_of n (drop n xs))"

declare chunks_of.simps [simp del]

definition sha_schedule :: "byte list \<Rightarrow> w32 list" where
  "sha_schedule blk = foldl
     (\<lambda>w t. w @ [(let x = w ! (t - 2) in rotr 17 x XOR rotr 19 x XOR drop_bit 10 x) + w ! (t - 7)
        + (let x = w ! (t - 15) in rotr 7 x XOR rotr 18 x XOR drop_bit 3 x) + w ! (t - 16)])
     (map be32_word (chunks_of 4 blk)) [16..<64]"

definition sha_round :: "w32 list \<Rightarrow> w32 \<Rightarrow> w32 list" where
  "sha_round s kw =
     (let a = s ! 0; b = s ! 1; c = s ! 2; e = s ! 4; f = s ! 5; g = s ! 6;
          t1 = s ! 7 + (rotr 6 e XOR rotr 11 e XOR rotr 25 e) + ((e AND f) XOR (NOT e AND g)) + kw;
          t2 = (rotr 2 a XOR rotr 13 a XOR rotr 22 a) + ((a AND b) XOR (a AND c) XOR (b AND c))
      in [t1 + t2, a, b, c, s ! 3 + t1, e, f, g])"

definition sha_compress :: "w32 list \<Rightarrow> byte list \<Rightarrow> w32 list" where
  "sha_compress h blk =
     map2 (+) h (foldl sha_round h (map2 (+) sha_k (sha_schedule blk)))"

definition sha256_digest :: "byte list \<Rightarrow> byte list" where
  "sha256_digest m = concat (map be32 (foldl sha_compress sha_init (chunks_of 64 (sha_pad m))))"

definition hex_char :: "nat \<Rightarrow> char" where
  "hex_char d = ''0123456789abcdef'' ! d"

definition hex_of_bytes :: "byte list \<Rightarrow> string" where
  "hex_of_bytes bs = concat (map (\<lambda>b. [hex_char (unat b div 16), hex_char (unat b mod 16)]) bs)"

definition sha256 :: "byte list \<Rightarrow> string" where
  "sha256 m = hex_of_bytes (sha256_digest m)"

text \<open>\<^verbatim>\<open>int.from_bytes(value, "big")\<close>.\<close>

definition int_from_bytes :: "byte list \<Rightarrow> nat" where
  "int_from_bytes bs = foldl (\<lambda>a b. 256 * a + unat b) 0 bs"

definition utf8_char :: "char \<Rightarrow> byte list" where
  "utf8_char c = (let n = of_char c :: nat in
     if n < 128 then [of_nat n] else [of_nat (192 + n div 64), of_nat (128 + n mod 64)])"

definition utf8 :: "string \<Rightarrow> byte list" where
  "utf8 s = concat (map utf8_char s)"

section \<open>What the components rely on\<close>

definition lower_hex :: "string" where
  "lower_hex = ''0123456789abcdef''"

definition is_sha256 :: "string \<Rightarrow> bool" where
  "is_sha256 s \<longleftrightarrow> length s = 64 \<and> list_all (\<lambda>c. c \<in> set lower_hex) s"

locale hex_digest =
  fixes digest :: "byte list \<Rightarrow> string"
  assumes digest_hex: "is_sha256 (digest m)"
begin

lemma digest_length: "length (digest m) = 64"
  using digest_hex [of m] by (simp add: is_sha256_def)

lemma digest_nonempty: "digest m \<noteq> []"
  using digest_length [of m] by auto

end

lemma hex_char_lower: "d < 16 \<Longrightarrow> hex_char d \<in> set lower_hex"
  unfolding hex_char_def lower_hex_def by (rule nth_mem) simp

lemma length_sha_compress: "length h = 8 \<Longrightarrow> length (sha_compress h b) = 8"
proof -
  assume h: "length h = 8"
  have "length (foldl sha_round s kws) = 8" if "length s = 8" for s kws
    using that by (induction kws arbitrary: s) (simp_all add: sha_round_def Let_def)
  with h show ?thesis by (simp add: sha_compress_def)
qed

lemma length_sha256_digest: "length (sha256_digest m) = 32"
proof -
  have "length (foldl sha_compress h bs) = 8" if "length h = 8" for h bs
    using that by (induction bs arbitrary: h) (simp_all add: length_sha_compress)
  then have "length (foldl sha_compress sha_init (chunks_of 64 (sha_pad m))) = 8"
    by (simp add: sha_init_def)
  moreover have "length (concat (map be32 ws)) = 4 * length ws" for ws
    by (induction ws) (simp_all add: be32_def)
  ultimately show ?thesis by (simp add: sha256_digest_def)
qed

lemma hex_of_bytes_props:
  "length (hex_of_bytes bs) = 2 * length bs" "set (hex_of_bytes bs) \<subseteq> set lower_hex"
proof -
  show "length (hex_of_bytes bs) = 2 * length bs"
    by (induction bs) (simp_all add: hex_of_bytes_def)
  have "unat b div 16 < 16" for b :: byte
    by (rule less_mult_imp_div_less) simp
  then show "set (hex_of_bytes bs) \<subseteq> set lower_hex"
    by (auto simp: hex_of_bytes_def hex_char_lower)
qed

lemma is_sha256_sha256: "is_sha256 (sha256 m)"
  using hex_of_bytes_props [of "sha256_digest m"]
  by (auto simp: is_sha256_def sha256_def length_sha256_digest list_all_iff)

interpretation sha: hex_digest sha256
  by unfold_locales (rule is_sha256_sha256)

end
