(* ===== verification/Json.thy ===== *)
theory Json
  imports Sha256
begin

text \<open>
  JSON values as \<^verbatim>\<open>json.loads\<close> of the code returns them (finite numbers only: every reader of
  the code rejects NaN and the infinities, and duplicate keys), the dictionary lookups and type
  tests the validators use, Python's equality across \<^verbatim>\<open>bool\<close>, \<^verbatim>\<open>int\<close> and
  \<^verbatim>\<open>float\<close>, and the field checks shared by the manifests of \<^verbatim>\<open>pretrain/data.py\<close>.
\<close>

datatype json =
    JNull
  | JBool bool
  | JInt int
  | JFloat rat
  | JStr string
  | JList "json list"
  | JObj "(string \<times> json) list"

text \<open>\<^verbatim>\<open>value.get(key)\<close>: \<^verbatim>\<open>None\<close> for a missing key.\<close>

definition jfield :: "(string \<times> json) list \<Rightarrow> string \<Rightarrow> json" where
  "jfield kvs k = (case map_of kvs k of None \<Rightarrow> JNull | Some v \<Rightarrow> v)"

fun jget :: "json \<Rightarrow> string \<Rightarrow> json" where
  "jget (JObj kvs) k = jfield kvs k"
| "jget _ k = JNull"

fun jkeys :: "json \<Rightarrow> string list" where
  "jkeys (JObj kvs) = map fst kvs"
| "jkeys _ = []"

text \<open>\<^verbatim>\<open>type(v) is int\<close>, \<^verbatim>\<open>isinstance(v, str)\<close>, \<^verbatim>\<open>isinstance(v, dict)\<close>, \dots\<close>

fun is_jint :: "json \<Rightarrow> bool" where
  "is_jint (JInt _) = True" | "is_jint _ = False"

fun is_jstr :: "json \<Rightarrow> bool" where
  "is_jstr (JStr _) = True" | "is_jstr _ = False"

fun is_jbool :: "json \<Rightarrow> bool" where
  "is_jbool (JBool _) = True" | "is_jbool _ = False"

fun is_jobj :: "json \<Rightarrow> bool" where
  "is_jobj (JObj _) = True" | "is_jobj _ = False"

fun is_jlist :: "json \<Rightarrow> bool" where
  "is_jlist (JList _) = True" | "is_jlist _ = False"

text \<open>The Python number a value is, \<^verbatim>\<open>True\<close> and \<^verbatim>\<open>False\<close> being 1 and 0.\<close>

fun jnum :: "json \<Rightarrow> rat option" where
  "jnum (JBool b) = Some (of_bool b)"
| "jnum (JInt i) = Some (of_int i)"
| "jnum (JFloat r) = Some r"
| "jnum _ = None"

fun jint_of :: "json \<Rightarrow> int" where
  "jint_of (JBool b) = of_bool b"
| "jint_of (JInt i) = i"
| "jint_of _ = 0"

fun jstr_of :: "json \<Rightarrow> string" where
  "jstr_of (JStr s) = s"
| "jstr_of _ = []"

fun jlist_of :: "json \<Rightarrow> json list" where
  "jlist_of (JList xs) = xs"
| "jlist_of _ = []"

lemma size_zip_json: "(x, y) \<in> set (zip xs ys) \<Longrightarrow> size x < Suc (size_list size xs)"
  by (meson le_imp_less_Suc set_zip_leftD size_list_estimation' order_refl)

lemma size_assoc_json:
  "(k, v) \<in> set m \<Longrightarrow> size v < Suc (size_list (size_prod (\<lambda>_. 0) size) m)"
  by (induction m) auto

text \<open>Python's \<^verbatim>\<open>==\<close> on these values.\<close>

function (sequential) py_eq :: "json \<Rightarrow> json \<Rightarrow> bool" where
  "py_eq (JStr s) b = (case b of JStr t \<Rightarrow> s = t | _ \<Rightarrow> False)"
| "py_eq JNull b = (b = JNull)"
| "py_eq (JList xs) b = (case b of JList ys \<Rightarrow>
      length xs = length ys \<and> list_all (\<lambda>(x, y). py_eq x y) (zip xs ys) | _ \<Rightarrow> False)"
| "py_eq (JObj m) b = (case b of JObj n \<Rightarrow>
      length m = length n \<and>
      list_all (\<lambda>(k, v). case map_of n k of None \<Rightarrow> False | Some w \<Rightarrow> py_eq v w) m | _ \<Rightarrow> False)"
| "py_eq a b = (case jnum b of Some y \<Rightarrow> jnum a = Some y | None \<Rightarrow> False)"
  by pat_completeness auto

termination
  by (relation "measure (\<lambda>(a, b). size a)")
    (auto dest: size_zip_json size_assoc_json)

lemma py_eq_JStr [simp]: "py_eq v (JStr s) \<longleftrightarrow> v = JStr s"
  by (cases v) auto

lemma py_eq_JNull [simp]: "py_eq v JNull \<longleftrightarrow> v = JNull"
  by (cases v) auto

lemma py_eq_JInt_JInt [simp]: "py_eq (JInt i) (JInt j) \<longleftrightarrow> i = j"
  by auto

lemma py_eq_JInt_is_jint: "is_jint v \<Longrightarrow> py_eq v (JInt j) \<longleftrightarrow> v = JInt j"
  by (cases v) auto

text \<open>A dictionary read from a file has no duplicate keys, at any depth.\<close>

function json_wf :: "json \<Rightarrow> bool" where
  "json_wf (JObj m) = (distinct (map fst m) \<and> list_all (\<lambda>(k, v). json_wf v) m)"
| "json_wf (JList xs) = list_all json_wf xs"
| "json_wf JNull = True"
| "json_wf (JBool b) = True"
| "json_wf (JInt i) = True"
| "json_wf (JFloat r) = True"
| "json_wf (JStr s) = True"
  by pat_completeness auto
termination
  by (relation "measure size")
    (auto dest: size_assoc_json simp: le_imp_less_Suc size_list_estimation')

lemma py_eq_refl: "json_wf v \<Longrightarrow> py_eq v v"
proof (induction v rule: json_wf.induct)
  case (1 m)
  have "case map_of m k of None \<Rightarrow> False | Some w \<Rightarrow> py_eq v w" if kv: "(k, v) \<in> set m" for k v
  proof -
    from 1(2) have "distinct (map fst m)" and "json_wf v"
      using kv by (auto simp: list_all_iff)
    moreover from this kv have "map_of m k = Some v"
      by (intro map_of_is_SomeI) auto
    moreover have "py_eq v v"
      using 1(1) [OF kv refl] \<open>json_wf v\<close> by blast
    ultimately show ?thesis by simp
  qed
  then show ?case by (auto simp: list_all_iff)
next
  case (2 xs)
  have "py_eq x y" if "(x, y) \<in> set (zip xs xs)" for x y
  proof -
    from that have "x = y" and "y \<in> set xs" by (auto simp: in_set_zip)
    with 2 show ?thesis by (auto simp: list_all_iff)
  qed
  then show ?case by (auto simp: list_all_iff)
qed auto

section \<open>Field checks\<close>

text \<open>\<^verbatim>\<open>_require_sha256\<close> and \<^verbatim>\<open>_optional_sha256\<close>.\<close>

definition require_sha256 :: "json \<Rightarrow> string res" where
  "require_sha256 value =
     (if \<not> is_jstr value \<or> length (jstr_of value) \<noteq> 64
         \<or> list_ex (\<lambda>c. c \<notin> set lower_hex) (jstr_of value)
      then Inl (ValueError ''expected a 64-character lowercase hex SHA-256'')
      else Inr (jstr_of value))"

definition optional_sha256 :: "json \<Rightarrow> string option res" where
  "optional_sha256 value =
     (if value = JNull then Inr None else rbind (require_sha256 value) (\<lambda>s. Inr (Some s)))"

lemma require_sha256_Inr [res_simps]:
  "require_sha256 v = Inr s \<longleftrightarrow> v = JStr s \<and> is_sha256 s"
  by (cases v) (auto simp: require_sha256_def is_sha256_def list_all_iff list_ex_iff)

lemma require_sha256_JStr [simp]: "is_sha256 s \<Longrightarrow> require_sha256 (JStr s) = Inr s"
  by (simp add: require_sha256_Inr)

text \<open>
  \<^verbatim>\<open>_canonical_json_mapping\<close>: a cursor must be a mapping; the copy that comes back from
  \<^verbatim>\<open>json.loads(json.dumps(value, sort_keys=True))\<close> has its keys in code-point order at every
  level. Keys are strings and numbers finite by the type.
\<close>

function sort_keys :: "json \<Rightarrow> json" where
  "sort_keys (JObj m) = JObj (sort_key fst (map (\<lambda>(k, v). (k, sort_keys v)) m))"
| "sort_keys (JList xs) = JList (map sort_keys xs)"
| "sort_keys JNull = JNull"
| "sort_keys (JBool b) = JBool b"
| "sort_keys (JInt i) = JInt i"
| "sort_keys (JFloat r) = JFloat r"
| "sort_keys (JStr s) = JStr s"
  by pat_completeness auto
termination
  by (relation "measure size")
    (auto dest: size_assoc_json simp: le_imp_less_Suc size_list_estimation')

definition canonical_json_mapping :: "json \<Rightarrow> json res" where
  "canonical_json_mapping value =
     (if \<not> is_jobj value then Inl (TypeError ''must be a mapping'') else Inr (sort_keys value))"

lemma insort_key_first: "\<forall>y\<in>set ys. f x \<le> f y \<Longrightarrow> insort_key f x ys = x # ys"
  by (cases ys) auto

lemma sort_key_id: "sorted (map f xs) \<Longrightarrow> sort_key f xs = xs"
  by (induction xs) (simp_all add: insort_key_first)

lemma sort_key_idem: "sort_key f (sort_key f xs) = sort_key f xs"
  by (rule sort_key_id) simp

lemma sort_keys_idem: "sort_keys (sort_keys v) = sort_keys v"
proof (induction v rule: sort_keys.induct)
  case (1 m)
  let ?s = "sort_key fst (map (\<lambda>(k, v). (k, sort_keys v)) m)"
  have "(case p of (k, v) \<Rightarrow> (k, sort_keys v)) = p" if "p \<in> set ?s" for p
  proof -
    from that obtain k v where kv: "(k, v) \<in> set m" and p: "p = (k, sort_keys v)"
      by auto
    have "sort_keys (sort_keys v) = sort_keys v"
      by (rule 1 [OF kv refl])
    with p show ?thesis by simp
  qed
  then have "map (\<lambda>(k, v). (k, sort_keys v)) ?s = ?s"
    by (rule map_idI)
  then show ?case by (simp add: sort_key_idem)
next
  case (2 xs)
  then show ?case by simp
qed simp_all

lemma canonical_Inr: "canonical_json_mapping v = Inr c \<Longrightarrow> is_jobj c \<and> canonical_json_mapping c = Inr c"
  by (cases v) (auto simp: canonical_json_mapping_def sort_keys_idem [of "JObj _", simplified] split: if_splits)

end
