(* ===== verification/PackedFormat.thy ===== *)
theory PackedFormat
  imports Json "HOL-Library.AList"
begin

text \<open>
  The on-disk vocabulary of \<^verbatim>\<open>pretrain/data.py\<close>: the construction identity of a packed
  shard directory, file names and their parser, the directory itself, and the byte images of a
  packed row. A directory is an association list from file names to contents; JSON files are kept
  as the value they hold.
\<close>

section \<open>Construction identity\<close>

record wconfig =
  c_domain :: string
  c_split :: string
  c_sequence_length :: nat
  c_vocab_size :: nat
  c_eos_token_id :: nat
  c_rows_per_shard :: nat
  c_tokenizer_manifest_sha256 :: string
  c_construction_seed :: "int option"
  c_curation_policy_sha256 :: "string option"
  c_selection_manifest_sha256 :: "string option"

definition domain_order :: "string list" where
  "domain_order = [''python'', ''other_code'', ''english'']"

definition c_tokens_per_row :: "wconfig \<Rightarrow> nat" where
  "c_tokens_per_row c = c_sequence_length c + 1"

definition c_starts_bytes_per_row :: "wconfig \<Rightarrow> nat" where
  "c_starts_bytes_per_row c = ceil8 (c_tokens_per_row c)"

text \<open>The argument checks of \<^verbatim>\<open>PackedShardWriter.__init__\<close>, in their order.\<close>

definition make_config ::
  "string \<Rightarrow> string \<Rightarrow> int \<Rightarrow> int \<Rightarrow> int \<Rightarrow> json \<Rightarrow> int \<Rightarrow> int option \<Rightarrow> json \<Rightarrow> json \<Rightarrow> wconfig res" where
  "make_config domain split sequence_length vocab_size eos_token_id tokenizer_manifest_sha256
     rows_per_shard construction_seed curation_policy_sha256 selection_manifest_sha256 =
   rbind (require_sha256 tokenizer_manifest_sha256) (\<lambda>tok.
   rbind (optional_sha256 curation_policy_sha256) (\<lambda>cur.
   rbind (optional_sha256 selection_manifest_sha256) (\<lambda>sel.
     if domain \<notin> set domain_order then Inl (ValueError ''Unsupported domain'')
     else if split = [] then Inl (ValueError ''split must not be empty'')
     else if sequence_length < 2 then Inl (ValueError ''sequence_length must be at least 2'')
     else if \<not> (1 \<le> vocab_size \<and> vocab_size \<le> 65536)
     then Inl (ValueError ''vocab_size must fit in uint16'')
     else if \<not> (0 \<le> eos_token_id \<and> eos_token_id < vocab_size)
     then Inl (ValueError ''eos_token_id must be inside the vocabulary'')
     else if rows_per_shard < 1 then Inl (ValueError ''rows_per_shard must be positive'')
     else Inr \<lparr>c_domain = domain, c_split = split, c_sequence_length = nat sequence_length,
       c_vocab_size = nat vocab_size, c_eos_token_id = nat eos_token_id,
       c_rows_per_shard = nat rows_per_shard, c_tokenizer_manifest_sha256 = tok,
       c_construction_seed = construction_seed, c_curation_policy_sha256 = cur,
       c_selection_manifest_sha256 = sel\<rparr>)))"

text \<open>What a configuration that passed the checks satisfies.\<close>

definition wf_config :: "wconfig \<Rightarrow> bool" where
  "wf_config c \<longleftrightarrow>
     c_domain c \<in> set domain_order \<and> c_split c \<noteq> [] \<and> 2 \<le> c_sequence_length c \<and>
     1 \<le> c_vocab_size c \<and> c_vocab_size c \<le> 65536 \<and> c_eos_token_id c < c_vocab_size c \<and>
     1 \<le> c_rows_per_shard c \<and> is_sha256 (c_tokenizer_manifest_sha256 c) \<and>
     (case c_curation_policy_sha256 c of None \<Rightarrow> True | Some s \<Rightarrow> is_sha256 s) \<and>
     (case c_selection_manifest_sha256 c of None \<Rightarrow> True | Some s \<Rightarrow> is_sha256 s)"

lemma optional_sha256_Inr [res_simps]:
  "optional_sha256 v = Inr s \<longleftrightarrow>
     v = JNull \<and> s = None \<or> (\<exists>t. v = JStr t \<and> is_sha256 t \<and> s = Some t)"
  by (auto simp: optional_sha256_def res_simps)

lemma make_config_wf: "make_config d sp T V eos tok rps seed cur sel = Inr c \<Longrightarrow> wf_config c"
  by (auto simp: make_config_def res_simps wf_config_def nat_less_iff le_nat_iff)

definition json_opt_str :: "string option \<Rightarrow> json" where
  "json_opt_str s = (case s of None \<Rightarrow> JNull | Some t \<Rightarrow> JStr t)"

definition json_opt_int :: "int option \<Rightarrow> json" where
  "json_opt_int s = (case s of None \<Rightarrow> JNull | Some i \<Rightarrow> JInt i)"

definition identity :: "wconfig \<Rightarrow> json" where
  "identity c = JObj [
     (''output_format_version'', JInt 2),
     (''domain'', JStr (c_domain c)),
     (''split'', JStr (c_split c)),
     (''sequence_length'', JInt (int (c_sequence_length c))),
     (''vocab_size'', JInt (int (c_vocab_size c))),
     (''eos_token_id'', JInt (int (c_eos_token_id c))),
     (''rows_per_shard'', JInt (int (c_rows_per_shard c))),
     (''tokenizer_manifest_sha256'', JStr (c_tokenizer_manifest_sha256 c)),
     (''curation_policy_sha256'', json_opt_str (c_curation_policy_sha256 c)),
     (''selection_manifest_sha256'', json_opt_str (c_selection_manifest_sha256 c)),
     (''construction_seed'', json_opt_int (c_construction_seed c))]"

lemma json_wf_opt [simp]: "json_wf (json_opt_str s)" "json_wf (json_opt_int i)"
  by (auto simp: json_opt_str_def json_opt_int_def split: option.splits)

lemma json_wf_identity [simp]: "json_wf (identity c)"
  by (simp add: identity_def)

section \<open>Files\<close>

datatype kind = Tokens | Starts

fun kind_name :: "kind \<Rightarrow> string" where
  "kind_name Tokens = ''tokens''"
| "kind_name Starts = ''starts''"

datatype content = Bytes "byte list" | JsonFile json

type_synonym dir = "(string \<times> content) list"

definition file_exists :: "dir \<Rightarrow> string \<Rightarrow> bool" where
  "file_exists d p \<longleftrightarrow> map_of d p \<noteq> None"

text \<open>The bytes of a data file; a JSON file holds none that the code reads as bytes.\<close>

definition file_bytes :: "dir \<Rightarrow> string \<Rightarrow> byte list" where
  "file_bytes d p = (case map_of d p of Some (Bytes b) \<Rightarrow> b | _ \<Rightarrow> [])"

definition append_file :: "string \<Rightarrow> byte list \<Rightarrow> dir \<Rightarrow> dir" where
  "append_file p b d = AList.update p (Bytes (file_bytes d p @ b)) d"

text \<open>\<^verbatim>\<open>os.replace(old, new)\<close>.\<close>

definition replace_file :: "string \<Rightarrow> string \<Rightarrow> dir \<Rightarrow> dir" where
  "replace_file old new d = (case map_of d old of
       None \<Rightarrow> d
     | Some c \<Rightarrow> AList.update new c (AList.delete old d))"

definition unlink_file :: "string \<Rightarrow> dir \<Rightarrow> dir" where
  "unlink_file p d = AList.delete p d"

definition journal_name :: "string" where
  "journal_name = ''.packing-journal.json''"

definition manifest_name :: "string" where
  "manifest_name = ''manifest.json''"

text \<open>\<^verbatim>\<open>f"shard-{index:06d}.{kind}.bin"\<close> and the name it has while being written.\<close>

definition shard_name :: "nat \<Rightarrow> kind \<Rightarrow> string" where
  "shard_name i k = ''shard-'' @ fmt06d i @ ''.'' @ kind_name k @ ''.bin''"

definition part_name :: "nat \<Rightarrow> kind \<Rightarrow> string" where
  "part_name i k = ''.'' @ shard_name i k @ ''.part''"

text \<open>\<^verbatim>\<open>_generated_shard\<close>: the two full-match patterns, six decimal digits exactly.\<close>

definition match_final :: "string \<Rightarrow> (nat \<times> kind) option" where
  "match_final s =
     (let d = segment 6 6 s; r = drop 12 s in
      if take 6 s = ''shard-'' \<and> length d = 6 \<and> list_all is_digit d
      then if r = ''.tokens.bin'' then Some (digits_val d, Tokens)
           else if r = ''.starts.bin'' then Some (digits_val d, Starts)
           else None
      else None)"

definition generated_shard :: "string \<Rightarrow> (nat \<times> kind \<times> bool) option" where
  "generated_shard s = (case match_final s of
       Some (i, k) \<Rightarrow> Some (i, k, True)
     | None \<Rightarrow>
         if 6 \<le> length s \<and> take 1 s = ''.'' \<and> drop (length s - 5) s = ''.part''
         then (case match_final (take (length s - 6) (drop 1 s)) of
                 Some (i, k) \<Rightarrow> Some (i, k, False)
               | None \<Rightarrow> None)
         else None)"

named_theorems file_simps "what file operations do to the contents of a directory"

lemma file_exists_iff [file_simps]: "file_exists d p \<longleftrightarrow> (\<exists>c. map_of d p = Some c)"
  by (auto simp: file_exists_def)

lemma map_of_append_file [file_simps]:
  "map_of (append_file p b d) = (map_of d)(p \<mapsto> Bytes (file_bytes d p @ b))"
  by (simp add: append_file_def update_conv')

lemma map_of_replace_file [file_simps]:
  "map_of d old = Some c \<Longrightarrow> old \<noteq> new \<Longrightarrow>
   map_of (replace_file old new d) = (map_of d)(old := None, new \<mapsto> c)"
  by (auto simp: replace_file_def update_conv' delete_conv' fun_eq_iff)

lemma map_of_unlink_file [file_simps]: "map_of (unlink_file p d) = (map_of d)(p := None)"
  by (simp add: unlink_file_def delete_conv')

lemma map_of_set_file [file_simps]: "map_of (AList.update p c d) = (map_of d)(p \<mapsto> c)"
  by (simp add: update_conv')

lemma file_bytes_Some [simp]: "map_of d p = Some (Bytes b) \<Longrightarrow> file_bytes d p = b"
  by (simp add: file_bytes_def)

lemma not_Tokens [simp]: "k \<noteq> Tokens \<longleftrightarrow> k = Starts"
  by (cases k) auto

lemma kind_name_inject [simp]: "kind_name k = kind_name l \<longleftrightarrow> k = l"
  by (cases k; cases l) auto

lemma kind_name_no_dot: "CHR ''.'' \<notin> set (kind_name k)"
  by (cases k) auto

lemma digit_not_dot: "list_all is_digit s \<Longrightarrow> CHR ''.'' \<notin> set s"
  by (auto simp: list_all_iff is_digit_def)

lemma all_digits_fmt06d: "list_all is_digit (fmt06d n)"
  using all_digits_dec [of n] by (auto simp: fmt06d_def Let_def list_all_iff is_digit_def)

lemma split_at_sep:
  "x \<notin> set as \<Longrightarrow> x \<notin> set bs \<Longrightarrow> as @ x # xs = bs @ x # ys \<longleftrightarrow> as = bs \<and> xs = ys"
proof (induction as arbitrary: bs)
  case Nil
  then show ?case by (cases bs) auto
next
  case (Cons a as)
  then show ?case by (cases bs) auto
qed

lemma shard_name_inject [simp]: "shard_name i k = shard_name j l \<longleftrightarrow> i = j \<and> k = l"
proof -
  have "shard_name i k = shard_name j l \<longleftrightarrow>
      fmt06d i @ CHR ''.'' # (kind_name k @ ''.bin'') = fmt06d j @ CHR ''.'' # (kind_name l @ ''.bin'')"
    by (simp add: shard_name_def)
  also have "\<dots> \<longleftrightarrow> fmt06d i = fmt06d j \<and> kind_name k @ ''.bin'' = kind_name l @ ''.bin''"
    by (intro split_at_sep digit_not_dot all_digits_fmt06d)
  finally show ?thesis by simp
qed

lemma part_name_inject [simp]: "part_name i k = part_name j l \<longleftrightarrow> i = j \<and> k = l"
  by (simp add: part_name_def)

lemma names_distinct [simp]:
  "shard_name i k \<noteq> part_name j l" "part_name j l \<noteq> shard_name i k"
  "shard_name i k \<noteq> journal_name" "journal_name \<noteq> shard_name i k"
  "part_name i k \<noteq> journal_name" "journal_name \<noteq> part_name i k"
  "shard_name i k \<noteq> manifest_name" "manifest_name \<noteq> shard_name i k"
  "part_name i k \<noteq> manifest_name" "manifest_name \<noteq> part_name i k"
  "journal_name \<noteq> manifest_name" "manifest_name \<noteq> journal_name"
  by (simp_all add: shard_name_def part_name_def journal_name_def manifest_name_def)

lemma match_final_shard_name [simp]: "i < 1000000 \<Longrightarrow> match_final (shard_name i k) = Some (i, k)"
  using fmt06d_six [of i]
  by (cases k) (simp_all add: match_final_def shard_name_def segment_def Let_def)

lemma generated_shard_name [simp]:
  "i < 1000000 \<Longrightarrow> generated_shard (shard_name i k) = Some (i, k, True)"
  by (simp add: generated_shard_def)

lemma generated_part_name [simp]:
  "i < 1000000 \<Longrightarrow> generated_shard (part_name i k) = Some (i, k, False)"
proof -
  assume i: "i < 1000000"
  have "match_final (part_name i k) = None"
    by (simp add: match_final_def part_name_def Let_def)
  moreover have "take (length (part_name i k) - 6) (drop 1 (part_name i k)) = shard_name i k"
    by (simp add: part_name_def)
  moreover have "drop (length (part_name i k) - 5) (part_name i k) = ''.part''"
    by (simp add: part_name_def)
  moreover have "6 \<le> length (part_name i k)" and "take 1 (part_name i k) = ''.''"
    by (simp_all add: part_name_def)
  ultimately show ?thesis using i by (simp add: generated_shard_def)
qed

lemma generated_other [simp]:
  "generated_shard journal_name = None" "generated_shard manifest_name = None"
  by (simp_all add: generated_shard_def journal_name_def manifest_name_def match_final_def
      segment_def Let_def)

section \<open>Packed rows\<close>

text \<open>
  Row \<open>r\<close> of a token stream: the \<open>T + 1\<close> tokens from position \<open>r * T\<close>, so that consecutive
  rows share one look-ahead token. The first start flag of every row is set.
\<close>

definition row_tokens :: "nat \<Rightarrow> nat list \<Rightarrow> nat \<Rightarrow> nat list" where
  "row_tokens T S r = segment (r * T) (T + 1) S"

definition row_starts :: "nat \<Rightarrow> bool list \<Rightarrow> nat \<Rightarrow> bool list" where
  "row_starts T B r = (segment (r * T) (T + 1) B)[0 := True]"

definition token_row_bytes :: "nat list \<Rightarrow> byte list" where
  "token_row_bytes ts = concat (map u16_le ts)"

lemma length_token_row_bytes [simp]: "length (token_row_bytes ts) = 2 * length ts"
  by (induction ts) (simp_all add: token_row_bytes_def)

definition rows_token_bytes :: "nat \<Rightarrow> nat list \<Rightarrow> nat \<Rightarrow> nat \<Rightarrow> byte list" where
  "rows_token_bytes T S a b = concat (map (\<lambda>r. token_row_bytes (row_tokens T S r)) [a..<b])"

definition rows_start_bytes :: "nat \<Rightarrow> bool list \<Rightarrow> nat \<Rightarrow> nat \<Rightarrow> byte list" where
  "rows_start_bytes T B a b = concat (map (\<lambda>r. packbits (row_starts T B r)) [a..<b])"

text \<open>Labels masked at a document boundary: the start flags of a row past its first.\<close>

definition row_masked :: "bool list \<Rightarrow> nat" where
  "row_masked bs = length (filter (\<lambda>x. x) (tl bs))"

lemma length_row_tokens: "r * T + T < length S \<Longrightarrow> length (row_tokens T S r) = T + 1"
  by (simp add: row_tokens_def)

lemma length_row_starts: "r * T + T < length B \<Longrightarrow> length (row_starts T B r) = T + 1"
  by (simp add: row_starts_def)

lemma row_masked_le: "length bs = T + 1 \<Longrightarrow> row_masked bs \<le> T"
proof -
  assume "length bs = T + 1"
  have "row_masked bs \<le> length (tl bs)" unfolding row_masked_def by (rule length_filter_le)
  with \<open>length bs = T + 1\<close> show ?thesis by simp
qed

lemma segment_append_left: "i + n \<le> length xs \<Longrightarrow> segment i n (xs @ ys) = segment i n xs"
  by (simp add: segment_def)

lemma segment_segment: "i + n \<le> m \<Longrightarrow> segment i n (segment s m xs) = segment (s + i) n xs"
  by (simp add: segment_def drop_take min_def add.commute)

lemma row_tokens_append: "r * T + T < length S \<Longrightarrow> row_tokens T (S @ S') r = row_tokens T S r"
  by (simp add: row_tokens_def segment_append_left)

lemma row_starts_append: "r * T + T < length B \<Longrightarrow> row_starts T (B @ B') r = row_starts T B r"
  by (simp add: row_starts_def segment_append_left)

lemma row_in_prefix: "r < n \<Longrightarrow> n * T < (l::nat) \<Longrightarrow> r * T + T < l"
proof -
  assume "r < n" and l: "n * T < l"
  then have "Suc r * T \<le> n * T" by (intro mult_le_mono1) simp
  with l show ?thesis by simp
qed

lemma rows_bytes_append:
  assumes "n * T < length S"
  shows "b \<le> n \<Longrightarrow> rows_token_bytes T (S @ S') a b = rows_token_bytes T S a b"
  using assms unfolding rows_token_bytes_def
  by (intro arg_cong [where f = concat] map_cong refl)
    (simp add: row_tokens_append row_in_prefix [of _ n])

lemma rows_start_append:
  assumes "n * T < length B"
  shows "b \<le> n \<Longrightarrow> rows_start_bytes T (B @ B') a b = rows_start_bytes T B a b"
  using assms unfolding rows_start_bytes_def
  by (intro arg_cong [where f = concat] map_cong refl)
    (simp add: row_starts_append row_in_prefix [of _ n])

lemma length_rows_token_bytes:
  assumes "b * T < length S"
  shows "length (rows_token_bytes T S a b) = (b - a) * (T + 1) * 2"
  using assms unfolding rows_token_bytes_def
  by (subst length_concat_const [where w = "2 * (T + 1)"])
    (auto simp: length_row_tokens row_in_prefix)

lemma length_rows_start_bytes:
  assumes "b * T < length B"
  shows "length (rows_start_bytes T B a b) = (b - a) * ceil8 (T + 1)"
  using assms unfolding rows_start_bytes_def
  by (subst length_concat_const [where w = "ceil8 (T + 1)"])
    (auto simp: length_row_starts row_in_prefix)

lemma rows_bytes_split:
  assumes "a \<le> b" "b \<le> c"
  shows "rows_token_bytes T S a b @ rows_token_bytes T S b c = rows_token_bytes T S a c"
    and "rows_start_bytes T B a b @ rows_start_bytes T B b c = rows_start_bytes T B a c"
proof -
  have "[a..<c] = [a..<b] @ [b..<c]"
    using assms by (metis le_add_diff_inverse upt_add_eq_append)
  then show "rows_token_bytes T S a b @ rows_token_bytes T S b c = rows_token_bytes T S a c"
    and "rows_start_bytes T B a b @ rows_start_bytes T B b c = rows_start_bytes T B a c"
    by (simp_all add: rows_token_bytes_def rows_start_bytes_def)
qed

end
