(* ===== verification/PackedWriter.thy ===== *)
theory PackedWriter
  imports PackedFormat
begin

text \<open>
  \<^verbatim>\<open>PackedShardWriter\<close> of \<^verbatim>\<open>pretrain/data.py\<close>: the state of a writer, the row drain, the
  journal, \<^verbatim>\<open>add_document\<close>, \<^verbatim>\<open>checkpoint\<close> and \<^verbatim>\<open>finish\<close>. The abstract specification is
  a pure function of the document sequence: the stream is every document followed by one EOS
  token, and row \<open>r\<close> is cut from it (theory PackedFormat). The invariant \<open>writer_inv\<close> relates a
  writer to a stream, and every operation is shown to keep it.

  A file handle is the name it is open for; a running digest is the bytes it was fed.
\<close>

section \<open>State\<close>

record writer =
  w_cfg :: wconfig
  w_tokens :: "nat list"
  w_starts :: "bool list"
  w_buffer_offset :: nat
  w_documents :: nat
  w_source_content_tokens :: nat
  w_rows :: nat
  w_valid_loss_tokens :: nat
  w_masked_boundary_labels :: nat
  w_shards :: "json list"
  w_tokens_handle :: "string option"
  w_starts_handle :: "string option"
  w_temporary_tokens :: "string option"
  w_temporary_starts :: "string option"
  w_rows_in_open_shard :: nat
  w_tokens_digest :: "byte list option"
  w_starts_digest :: "byte list option"
  w_open_shard_dirty :: bool
  w_source_cursor :: "json option"
  w_finished :: bool
  w_resumed :: bool
  w_dir :: dir

definition drain_batch_rows :: nat where
  "drain_batch_rows = 256"

section \<open>Journal\<close>

definition payload_entry :: "string \<Rightarrow> nat \<Rightarrow> string \<Rightarrow> json" where
  "payload_entry path bytes sha = JObj [
     (''path'', JStr path), (''bytes'', JInt (int bytes)), (''sha256'', JStr sha)]"

definition shard_entry :: "nat \<Rightarrow> nat \<Rightarrow> json \<Rightarrow> json \<Rightarrow> json" where
  "shard_entry index rows tokens starts = JObj [
     (''index'', JInt (int index)), (''rows'', JInt (int rows)),
     (''tokens'', tokens), (''starts'', starts)]"

definition json_opt :: "json option \<Rightarrow> json" where
  "json_opt c = (case c of None \<Rightarrow> JNull | Some v \<Rightarrow> v)"

text \<open>The open shard as the journal records it, or the assertion that guards it.\<close>

definition open_shard_json :: "writer \<Rightarrow> json res" where
  "open_shard_json w =
     (if w_rows_in_open_shard w = 0 then Inr JNull
      else (case (w_temporary_tokens w, w_temporary_starts w, w_tokens_digest w, w_starts_digest w) of
          (Some tt, Some ts, Some dt, Some ds) \<Rightarrow>
            Inr (shard_entry (length (w_shards w)) (w_rows_in_open_shard w)
              (payload_entry tt
                 (w_rows_in_open_shard w * c_tokens_per_row (w_cfg w) * 2) (sha256 dt))
              (payload_entry ts
                 (w_rows_in_open_shard w * c_starts_bytes_per_row (w_cfg w)) (sha256 ds)))
        | _ \<Rightarrow> Inl (AssertionError ''Open packing shard state is incomplete'')))"

definition journal_payload :: "json option \<Rightarrow> writer \<Rightarrow> json res" where
  "journal_payload cursor w =
     rbind (open_shard_json w) (\<lambda>open_shard. Inr (JObj [
       (''format'', JStr ''packed-shard-construction-journal''),
       (''format_version'', JInt 1),
       (''identity'', identity (w_cfg w)),
       (''state'', JObj [
         (''source_cursor'', json_opt cursor),
         (''documents'', JInt (int (w_documents w))),
         (''source_content_tokens'', JInt (int (w_source_content_tokens w))),
         (''rows'', JInt (int (w_rows w))),
         (''valid_loss_tokens'', JInt (int (w_valid_loss_tokens w))),
         (''masked_boundary_labels'', JInt (int (w_masked_boundary_labels w))),
         (''carry_tokens'',
            JList (map (\<lambda>t. JInt (int t)) (drop (w_buffer_offset w) (w_tokens w)))),
         (''carry_starts'', JList (map JBool (drop (w_buffer_offset w) (w_starts w)))),
         (''completed_shards'', JList (w_shards w)),
         (''open_shard'', open_shard)])]))"

definition sync_open_shard :: "writer \<Rightarrow> writer" where
  "sync_open_shard w = (if w_open_shard_dirty w then w\<lparr>w_open_shard_dirty := False\<rparr> else w)"

definition write_journal :: "json option \<Rightarrow> writer \<Rightarrow> writer res" where
  "write_journal cursor w =
     (let w1 = sync_open_shard w in
      rbind (journal_payload cursor w1) (\<lambda>j.
        Inr (w1\<lparr>w_dir := AList.update journal_name (JsonFile j) (w_dir w1),
                w_source_cursor := cursor\<rparr>)))"

definition checkpoint :: "json \<Rightarrow> writer \<Rightarrow> writer res" where
  "checkpoint source_cursor w =
     (if w_finished w then Inl (RuntimeError ''Cannot checkpoint after finish()'')
      else rbind (canonical_json_mapping source_cursor) (\<lambda>normalized.
        write_journal (Some normalized) w))"

section \<open>Draining full rows\<close>

definition open_shard :: "writer \<Rightarrow> writer res" where
  "open_shard w =
     (if w_tokens_handle w \<noteq> None then Inr w
      else
        let i = length (w_shards w); tn = part_name i Tokens; sn = part_name i Starts in
        if file_exists (w_dir w) tn then Inl (FileExistsError tn)
        else if file_exists (w_dir w) sn then Inl (FileExistsError sn)
        else Inr (w\<lparr>w_temporary_tokens := Some tn, w_temporary_starts := Some sn,
               w_tokens_handle := Some tn, w_starts_handle := Some sn,
               w_tokens_digest := Some [], w_starts_digest := Some [],
               w_rows_in_open_shard := 0, w_open_shard_dirty := False,
               w_dir := append_file sn [] (append_file tn [] (w_dir w))\<rparr>))"

definition finalize_open_shard :: "writer \<Rightarrow> writer res" where
  "finalize_open_shard w =
     (case (w_tokens_handle w, w_starts_handle w) of
        (Some _, Some _) \<Rightarrow>
          if w_rows_in_open_shard w < 1 then Inl (AssertionError ''Cannot finalize an empty shard'')
          else (case (w_temporary_tokens w, w_temporary_starts w) of
            (Some tt, Some ts) \<Rightarrow>
              let i = length (w_shards w);
                  tn = shard_name i Tokens; sn = shard_name i Starts;
                  d = replace_file ts sn (replace_file tt tn (w_dir w));
                  token_bytes = w_rows_in_open_shard w * c_tokens_per_row (w_cfg w) * 2;
                  start_bytes = w_rows_in_open_shard w * c_starts_bytes_per_row (w_cfg w)
              in if length (file_bytes d tn) \<noteq> token_bytes
                 then Inl (IOError ''Incorrect token shard size'')
                 else if length (file_bytes d sn) \<noteq> start_bytes
                 then Inl (IOError ''Incorrect starts shard size'')
                 else (case (w_tokens_digest w, w_starts_digest w) of
                   (Some dt, Some ds) \<Rightarrow>
                     Inr (w\<lparr>w_tokens_handle := None, w_starts_handle := None,
                       w_open_shard_dirty := False, w_dir := d,
                       w_shards := w_shards w @
                         [shard_entry i (w_rows_in_open_shard w)
                            (payload_entry tn token_bytes (sha256 dt))
                            (payload_entry sn start_bytes (sha256 ds))],
                       w_rows_in_open_shard := 0,
                       w_temporary_tokens := None, w_temporary_starts := None,
                       w_tokens_digest := None, w_starts_digest := None\<rparr>)
                 | _ \<Rightarrow> Inl (AssertionError ''Open packing shard digest state is missing''))
          | _ \<Rightarrow> Inl (AssertionError ''temporary shard paths''))
      | _ \<Rightarrow> Inr w)"

text \<open>
  One iteration of the loop of \<^verbatim>\<open>_drain_rows\<close>: at most 256 rows, at most the rest of the open
  shard, cut from one contiguous span of the buffer.
\<close>

definition batch_rows :: "writer \<Rightarrow> nat" where
  "batch_rows w =
     (let available = length (w_tokens w) - w_buffer_offset w;
          available_rows = (available - 1) div c_sequence_length (w_cfg w);
          shard_rows = c_rows_per_shard (w_cfg w) - w_rows_in_open_shard w
      in min available_rows (min shard_rows drain_batch_rows))"

definition append_rows :: "nat \<Rightarrow> writer \<Rightarrow> writer" where
  "append_rows n w =
     (let T = c_sequence_length (w_cfg w);
          start = w_buffer_offset w;
          span = n * T + 1;
          stream_tokens = segment start span (w_tokens w);
          stream_starts = segment start span (w_starts w);
          row_toks = map (\<lambda>r. segment (r * T) (T + 1) stream_tokens) [0..<n];
          row_flags = map (\<lambda>r. (segment (r * T) (T + 1) stream_starts)[0 := True]) [0..<n];
          token_bytes = concat (map token_row_bytes row_toks);
          start_bytes = concat (map packbits row_flags);
          masked = sum_list (map row_masked row_flags)
      in w\<lparr>
         w_dir := append_file (the (w_starts_handle w)) start_bytes
           (append_file (the (w_tokens_handle w)) token_bytes (w_dir w)),
         w_tokens_digest := map_option (\<lambda>d. d @ token_bytes) (w_tokens_digest w),
         w_starts_digest := map_option (\<lambda>d. d @ start_bytes) (w_starts_digest w),
         w_open_shard_dirty := True,
         w_masked_boundary_labels := w_masked_boundary_labels w + masked,
         w_valid_loss_tokens := w_valid_loss_tokens w + (n * T - masked),
         w_rows := w_rows w + n,
         w_rows_in_open_shard := w_rows_in_open_shard w + n,
         w_buffer_offset := start + n * T\<rparr>)"

definition compact_buffer :: "writer \<Rightarrow> writer" where
  "compact_buffer w =
     (if c_sequence_length (w_cfg w) * 256 \<le> w_buffer_offset w
      then w\<lparr>w_tokens := drop (w_buffer_offset w) (w_tokens w),
             w_starts := drop (w_buffer_offset w) (w_starts w),
             w_buffer_offset := 0\<rparr>
      else w)"

definition drain_step :: "writer \<Rightarrow> writer res" where
  "drain_step w0 = rbind (open_shard w0) (\<lambda>w.
     if batch_rows w < 1 then Inl (AssertionError ''Packed row drain made no progress'')
     else let w1 = append_rows (batch_rows w) w in
       rbind (if w_rows_in_open_shard w1 = c_rows_per_shard (w_cfg w1)
              then finalize_open_shard w1 else Inr w1)
         (\<lambda>w2. Inr (compact_buffer w2)))"

text \<open>Every iteration that does not raise shortens the unread part of the buffer.\<close>

lemma open_shard_frame:
  "open_shard w = Inr w' \<Longrightarrow> w_cfg w' = w_cfg w \<and> w_tokens w' = w_tokens w \<and>
     w_starts w' = w_starts w \<and> w_buffer_offset w' = w_buffer_offset w"
  by (auto simp: open_shard_def Let_def split: if_splits)

lemma finalize_open_shard_frame:
  "finalize_open_shard w = Inr w' \<Longrightarrow> w_cfg w' = w_cfg w \<and> w_tokens w' = w_tokens w \<and>
     w_starts w' = w_starts w \<and> w_buffer_offset w' = w_buffer_offset w"
  by (auto simp: finalize_open_shard_def Let_def res_simps split: option.splits prod.splits if_splits)

lemma append_rows_frame:
  "w_cfg (append_rows n w) = w_cfg w" "w_tokens (append_rows n w) = w_tokens w"
  "w_starts (append_rows n w) = w_starts w"
  "w_buffer_offset (append_rows n w) = w_buffer_offset w + n * c_sequence_length (w_cfg w)"
  by (simp_all add: append_rows_def Let_def)

lemma drain_step_progress:
  assumes "drain_step w = Inr w'" and "c_tokens_per_row (w_cfg w) \<le> length (w_tokens w) - w_buffer_offset w"
  shows "length (w_tokens w') - w_buffer_offset w' < length (w_tokens w) - w_buffer_offset w"
proof -
  let ?T = "c_sequence_length (w_cfg w)" and ?l = "length (w_tokens w) - w_buffer_offset w"
  from assms(1) obtain w1 w2 where o: "open_shard w = Inr w1" and n: "1 \<le> batch_rows w1"
    and w2: "(if w_rows_in_open_shard (append_rows (batch_rows w1) w1)
            = c_rows_per_shard (w_cfg (append_rows (batch_rows w1) w1))
          then finalize_open_shard (append_rows (batch_rows w1) w1)
          else Inr (append_rows (batch_rows w1) w1)) = Inr w2"
    and w': "w' = compact_buffer w2"
    unfolding drain_step_def Let_def res_simps by auto
  note f1 = open_shard_frame [OF o]
  have f2: "w_cfg w2 = w_cfg w" "w_tokens w2 = w_tokens w"
    "w_buffer_offset w2 = w_buffer_offset w + batch_rows w1 * ?T"
    using w2 f1 finalize_open_shard_frame [of "append_rows (batch_rows w1) w1" w2]
    by (auto simp: append_rows_frame split: if_splits)
  have "batch_rows w1 \<le> (?l - 1) div ?T"
    using f1 by (simp add: batch_rows_def Let_def)
  with n have "0 < ?T" by (cases "?T = 0") auto
  with n have P: "0 < batch_rows w1 * ?T" by simp
  have l: "0 < ?l" using assms(2) by (simp add: c_tokens_per_row_def)
  have "length (w_tokens w') - w_buffer_offset w'
      = length (w_tokens w) - (w_buffer_offset w + batch_rows w1 * ?T)"
    using w' f2 by (simp add: compact_buffer_def)
  also have "\<dots> < ?l" using P l by linarith
  finally show ?thesis .
qed

function (sequential) drain_rows :: "writer \<Rightarrow> writer res" where
  "drain_rows w =
     (if c_tokens_per_row (w_cfg w) \<le> length (w_tokens w) - w_buffer_offset w
      then rbind (drain_step w) drain_rows else Inr w)"
  by pat_completeness auto
termination
  by (relation "measure (\<lambda>w. length (w_tokens w) - w_buffer_offset w)")
    (auto dest: drain_step_progress)

declare drain_rows.simps [simp del]

section \<open>Documents\<close>

fun check_token :: "nat \<Rightarrow> json \<Rightarrow> nat res" where
  "check_token vocab (JInt i) =
     (if 0 \<le> i \<and> i < int vocab then Inr (nat i) else Inl (ValueError ''Token ID is outside''))"
| "check_token vocab (JBool b) =
     (if of_bool b < (int vocab) then Inr (of_bool b) else Inl (ValueError ''Token ID is outside''))"
| "check_token vocab _ = Inl (TypeError ''Token ID must be an integer'')"

definition add_document :: "json list \<Rightarrow> json option \<Rightarrow> writer \<Rightarrow> writer res" where
  "add_document token_ids source_cursor w =
     (if w_finished w then Inl (RuntimeError ''Cannot add documents after finish()'')
      else if token_ids = [] then Inl (ValueError ''Empty documents are not packable'')
      else rbind (mapM (check_token (c_vocab_size (w_cfg w))) token_ids) (\<lambda>values.
        let w1 = w\<lparr>
              w_tokens := w_tokens w @ values @ [c_eos_token_id (w_cfg w)],
              w_starts := w_starts w @ ([True] @ replicate (length values - 1) False) @ [False],
              w_documents := w_documents w + 1,
              w_source_content_tokens := w_source_content_tokens w + length values\<rparr>
        in rbind (drain_rows w1) (\<lambda>w2.
          case source_cursor of None \<Rightarrow> Inr w2 | Some c \<Rightarrow> checkpoint c w2)))"

definition manifest_json :: "writer \<Rightarrow> json" where
  "manifest_json w =
     (let c = w_cfg w; T = c_sequence_length c;
          stream_tokens = int (w_source_content_tokens w) + int (w_documents w);
          unused = stream_tokens - int (w_rows w * T);
          stored = (if w_rows w \<noteq> 0 then int (w_rows w * T) + 1 else 0);
          unstored = stream_tokens - stored
      in JObj [
        (''format'', JStr ''packed-document-causal''),
        (''format_version'', JInt 2),
        (''domain'', JStr (c_domain c)),
        (''split'', JStr (c_split c)),
        (''sequence_length'', JInt (int T)),
        (''tokens_per_row'', JInt (int (c_tokens_per_row c))),
        (''token_dtype'', JStr ''<u2''),
        (''starts_encoding'', JStr ''numpy-packbits-little''),
        (''starts_bytes_per_row'', JInt (int (c_starts_bytes_per_row c))),
        (''vocab_size'', JInt (int (c_vocab_size c))),
        (''eos_token_id'', JInt (int (c_eos_token_id c))),
        (''rows_per_shard'', JInt (int (c_rows_per_shard c))),
        (''rows'', JInt (int (w_rows w))),
        (''input_tokens'', JInt (int (w_rows w * T))),
        (''valid_loss_tokens'', JInt (int (w_valid_loss_tokens w))),
        (''masked_boundary_labels'', JInt (int (w_masked_boundary_labels w))),
        (''documents'', JInt (int (w_documents w))),
        (''source_content_tokens'', JInt (int (w_source_content_tokens w))),
        (''stream_tokens'', JInt stream_tokens),
        (''unused_as_input_tail_tokens'', JInt unused),
        (''unstored_tail_tokens'', JInt unstored),
        (''tokenizer_manifest_sha256'', JStr (c_tokenizer_manifest_sha256 c)),
        (''curation_policy_sha256'', json_opt_str (c_curation_policy_sha256 c)),
        (''selection_manifest_sha256'', json_opt_str (c_selection_manifest_sha256 c)),
        (''construction_seed'', json_opt_int (c_construction_seed c)),
        (''construction_last_source_cursor'', json_opt (w_source_cursor w)),
        (''shards'', JList (w_shards w))])"

definition finish :: "json option \<Rightarrow> writer \<Rightarrow> (json \<times> writer) res" where
  "finish source_cursor w =
     (if w_finished w
      then (case map_of (w_dir w) manifest_name of
              Some (JsonFile m) \<Rightarrow> Inr (m, w)
            | _ \<Rightarrow> Inl (IOError ''manifest.json''))
      else rbind (case source_cursor of None \<Rightarrow> Inr w | Some c \<Rightarrow> checkpoint c w) (\<lambda>w1.
        rbind (drain_rows w1) (\<lambda>w2.
        rbind (finalize_open_shard w2) (\<lambda>w3.
          let m = manifest_json w3 in
          Inr (m, w3\<lparr>w_dir := unlink_file journal_name
                        (AList.update manifest_name (JsonFile m) (w_dir w3)),
                     w_finished := True\<rparr>)))))"

text \<open>A writer on an empty output directory: the fresh state, then its first journal.\<close>

definition fresh_writer :: "wconfig \<Rightarrow> writer" where
  "fresh_writer c = \<lparr>w_cfg = c, w_tokens = [], w_starts = [], w_buffer_offset = 0,
     w_documents = 0, w_source_content_tokens = 0, w_rows = 0, w_valid_loss_tokens = 0,
     w_masked_boundary_labels = 0, w_shards = [], w_tokens_handle = None, w_starts_handle = None,
     w_temporary_tokens = None, w_temporary_starts = None, w_rows_in_open_shard = 0,
     w_tokens_digest = None, w_starts_digest = None, w_open_shard_dirty = False,
     w_source_cursor = None, w_finished = False, w_resumed = False, w_dir = []\<rparr>"

definition create_writer :: "wconfig \<Rightarrow> writer res" where
  "create_writer c = write_journal None (fresh_writer c)"

end
