(* ===== verification/PackedWriterInv.thy ===== *)
theory PackedWriterInv
  imports PackedWriter
begin

text \<open>
  The invariant of a packed-shard writer against the token stream of the documents it was fed,
  and its preservation by the row drain, \<^verbatim>\<open>add_document\<close>, \<^verbatim>\<open>checkpoint\<close> and
  \<^verbatim>\<open>finish\<close>. None of these operations raises on documents whose tokens are inside the
  vocabulary.
\<close>

section \<open>The abstract stream\<close>

definition stream_tokens :: "nat \<Rightarrow> nat list list \<Rightarrow> nat list" where
  "stream_tokens eos docs = concat (map (\<lambda>d. d @ [eos]) docs)"

definition stream_starts :: "nat list list \<Rightarrow> bool list" where
  "stream_starts docs = concat (map (\<lambda>d. ([True] @ replicate (length d - 1) False) @ [False]) docs)"

definition docs_ok :: "nat \<Rightarrow> nat list list \<Rightarrow> bool" where
  "docs_ok vocab docs \<longleftrightarrow> (\<forall>d\<in>set docs. d \<noteq> [] \<and> (\<forall>t\<in>set d. t < vocab))"

lemma stream_snoc:
  "stream_tokens eos (docs @ [d]) = stream_tokens eos docs @ d @ [eos]"
  "stream_starts (docs @ [d]) = stream_starts docs @ ([True] @ replicate (length d - 1) False) @ [False]"
  by (simp_all add: stream_tokens_def stream_starts_def)

lemma length_stream_starts:
  "docs_ok v docs \<Longrightarrow> length (stream_starts docs) = length (stream_tokens eos docs)"
  by (induction docs) (auto simp: stream_starts_def stream_tokens_def docs_ok_def Suc_leI)

lemma length_stream_tokens:
  "length (stream_tokens eos docs) = sum_list (map length docs) + length docs"
  by (induction docs) (auto simp: stream_tokens_def)

section \<open>The invariant\<close>

definition shard_json :: "wconfig \<Rightarrow> nat list \<Rightarrow> bool list \<Rightarrow> nat \<Rightarrow> nat \<Rightarrow> nat \<Rightarrow> json" where
  "shard_json c S B i a b =
     shard_entry i (b - a)
       (payload_entry (shard_name i Tokens) ((b - a) * c_tokens_per_row c * 2)
          (sha256 (rows_token_bytes (c_sequence_length c) S a b)))
       (payload_entry (shard_name i Starts) ((b - a) * c_starts_bytes_per_row c)
          (sha256 (rows_start_bytes (c_sequence_length c) B a b)))"

definition buffer_inv :: "nat list \<Rightarrow> bool list \<Rightarrow> writer \<Rightarrow> bool" where
  "buffer_inv S B w \<longleftrightarrow>
     length B = length S \<and> length (w_starts w) = length (w_tokens w) \<and>
     w_buffer_offset w \<le> length (w_tokens w) \<and>
     drop (w_buffer_offset w) (w_tokens w) = drop (w_rows w * c_sequence_length (w_cfg w)) S \<and>
     drop (w_buffer_offset w) (w_starts w) = drop (w_rows w * c_sequence_length (w_cfg w)) B \<and>
     (w_rows w = 0 \<or> w_rows w * c_sequence_length (w_cfg w) < length S)"

definition masked_count :: "nat \<Rightarrow> bool list \<Rightarrow> nat \<Rightarrow> nat" where
  "masked_count T B R = sum_list (map (\<lambda>r. row_masked (row_starts T B r)) [0..<R])"

definition count_inv :: "nat list \<Rightarrow> bool list \<Rightarrow> writer \<Rightarrow> bool" where
  "count_inv S B w \<longleftrightarrow>
     w_source_content_tokens w + w_documents w = length S \<and>
     w_masked_boundary_labels w = masked_count (c_sequence_length (w_cfg w)) B (w_rows w) \<and>
     w_valid_loss_tokens w + w_masked_boundary_labels w = w_rows w * c_sequence_length (w_cfg w)"

definition file_is :: "dir \<Rightarrow> wconfig \<Rightarrow> nat list \<Rightarrow> bool list \<Rightarrow> (kind \<Rightarrow> string) \<Rightarrow> nat \<Rightarrow> nat \<Rightarrow> bool" where
  "file_is d c S B name a b \<longleftrightarrow>
     map_of d (name Tokens) = Some (Bytes (rows_token_bytes (c_sequence_length c) S a b)) \<and>
     map_of d (name Starts) = Some (Bytes (rows_start_bytes (c_sequence_length c) B a b))"

definition shards_inv :: "nat list \<Rightarrow> bool list \<Rightarrow> writer \<Rightarrow> bool" where
  "shards_inv S B w \<longleftrightarrow>
     (let c = w_cfg w; k = length (w_shards w); n = c_rows_per_shard c in
      w_rows w = k * n + w_rows_in_open_shard w \<and>
      w_shards w = map (\<lambda>i. shard_json c S B i (i * n) (Suc i * n)) [0..<k] \<and>
      (\<forall>i<k. file_is (w_dir w) c S B (shard_name i) (i * n) (Suc i * n)))"

definition names_inv :: "writer \<Rightarrow> bool" where
  "names_inv w \<longleftrightarrow> distinct (map fst (w_dir w)) \<and>
     (\<forall>p. map_of (w_dir w) p \<noteq> None \<longrightarrow>
        p = journal_name \<or>
        (\<exists>i<length (w_shards w). \<exists>k. p = shard_name i k) \<or>
        (w_tokens_handle w \<noteq> None \<and> (\<exists>k. p = part_name (length (w_shards w)) k)))"

definition part_open :: "nat list \<Rightarrow> bool list \<Rightarrow> writer \<Rightarrow> bool" where
  "part_open S B w \<longleftrightarrow>
     (let c = w_cfg w; k = length (w_shards w); a = k * c_rows_per_shard c; T = c_sequence_length c in
      w_tokens_handle w = Some (part_name k Tokens) \<and> w_starts_handle w = Some (part_name k Starts) \<and>
      w_temporary_tokens w = Some (part_name k Tokens) \<and>
      w_temporary_starts w = Some (part_name k Starts) \<and>
      w_tokens_digest w = Some (rows_token_bytes T S a (w_rows w)) \<and>
      w_starts_digest w = Some (rows_start_bytes T B a (w_rows w)) \<and>
      file_is (w_dir w) c S B (part_name k) a (w_rows w))"

definition part_closed :: "writer \<Rightarrow> bool" where
  "part_closed w \<longleftrightarrow>
     w_rows_in_open_shard w = 0 \<and> w_tokens_handle w = None \<and> w_starts_handle w = None \<and>
     w_temporary_tokens w = None \<and> w_temporary_starts w = None \<and>
     w_tokens_digest w = None \<and> w_starts_digest w = None"

definition base_inv :: "nat list \<Rightarrow> bool list \<Rightarrow> writer \<Rightarrow> bool" where
  "base_inv S B w \<longleftrightarrow>
     wf_config (w_cfg w) \<and> \<not> w_finished w \<and>
     buffer_inv S B w \<and> count_inv S B w \<and> shards_inv S B w \<and> names_inv w"

definition writer_inv :: "nat list \<Rightarrow> bool list \<Rightarrow> writer \<Rightarrow> bool" where
  "writer_inv S B w \<longleftrightarrow>
     base_inv S B w \<and> w_rows_in_open_shard w < c_rows_per_shard (w_cfg w) \<and>
     (if w_rows_in_open_shard w = 0 then part_closed w else part_open S B w)"

text \<open>No complete row is left in the buffer: what every public operation ends with.\<close>

definition drained :: "writer \<Rightarrow> bool" where
  "drained w \<longleftrightarrow> length (w_tokens w) - w_buffer_offset w \<le> c_sequence_length (w_cfg w)"

named_theorems writer_defs "the parts of the writer invariant"

declare base_inv_def [writer_defs] buffer_inv_def [writer_defs] count_inv_def [writer_defs]
  shards_inv_def [writer_defs] names_inv_def [writer_defs] part_open_def [writer_defs]
  part_closed_def [writer_defs] file_is_def [writer_defs]

lemma distinct_keys_append_file: "distinct (map fst d) \<Longrightarrow> distinct (map fst (append_file p b d))"
  by (simp add: append_file_def distinct_update)

lemma distinct_keys_replace_file:
  "distinct (map fst d) \<Longrightarrow> distinct (map fst (replace_file p q d))"
  by (auto simp: replace_file_def distinct_update distinct_delete split: option.splits)

lemma rows_bytes_empty [simp]: "rows_token_bytes T S a a = []" "rows_start_bytes T B a a = []"
  by (simp_all add: rows_token_bytes_def rows_start_bytes_def)

lemma names_invD:
  "names_inv w \<Longrightarrow> map_of (w_dir w) p = Some c \<Longrightarrow>
     p = journal_name \<or> (\<exists>i<length (w_shards w). \<exists>k. p = shard_name i k) \<or>
     (w_tokens_handle w \<noteq> None \<and> (\<exists>k. p = part_name (length (w_shards w)) k))"
  unfolding names_inv_def by blast

lemma names_invI:
  assumes "distinct (map fst (w_dir w))"
    and "\<And>p c. map_of (w_dir w) p = Some c \<Longrightarrow>
     p = journal_name \<or> (\<exists>i<length (w_shards w). \<exists>k. p = shard_name i k) \<or>
     (w_tokens_handle w \<noteq> None \<and> (\<exists>k. p = part_name (length (w_shards w)) k))"
  shows "names_inv w"
  unfolding names_inv_def using assms by blast

lemma closed_no_parts:
  assumes "names_inv w" and "w_tokens_handle w = None"
  shows "map_of (w_dir w) (part_name j k) = None"
proof (cases "map_of (w_dir w) (part_name j k)")
  case (Some c)
  from names_invD [OF assms(1) Some] assms(2) show ?thesis by auto
qed

section \<open>Opening and closing a shard\<close>

text \<open>What the drain leaves alone.\<close>

definition same_docs :: "writer \<Rightarrow> writer \<Rightarrow> bool" where
  "same_docs w w' \<longleftrightarrow> w_cfg w' = w_cfg w \<and> w_documents w' = w_documents w \<and>
     w_source_content_tokens w' = w_source_content_tokens w \<and>
     w_source_cursor w' = w_source_cursor w \<and> w_finished w' = w_finished w"

lemma same_docs_refl [simp]: "same_docs w w"
  by (simp add: same_docs_def)

lemma same_docs_trans: "same_docs w1 w2 \<Longrightarrow> same_docs w2 w3 \<Longrightarrow> same_docs w1 w3"
  by (simp add: same_docs_def)

lemma same_docs_cfg: "same_docs w w' \<Longrightarrow> w_cfg w' = w_cfg w"
  by (simp add: same_docs_def)

lemma open_shard_inv:
  assumes "writer_inv S B w"
  obtains w' where "open_shard w = Inr w'" "base_inv S B w'" "part_open S B w'"
    "w_tokens w' = w_tokens w" "w_buffer_offset w' = w_buffer_offset w" "w_rows w' = w_rows w"
    "w_rows_in_open_shard w' = w_rows_in_open_shard w" "same_docs w w'"
proof (cases "w_rows_in_open_shard w = 0")
  case False
  with assms have "open_shard w = Inr w" "base_inv S B w" "part_open S B w"
    by (auto simp: writer_inv_def open_shard_def part_open_def Let_def)
  then show thesis by (intro that) auto
next
  case True
  with assms have b: "base_inv S B w" and p: "part_closed w" by (auto simp: writer_inv_def)
  let ?i = "length (w_shards w)"
  let ?t = "part_name ?i Tokens" and ?s = "part_name ?i Starts"
  have no_files: "map_of (w_dir w) ?t = None" "map_of (w_dir w) ?s = None"
    using b p by (simp_all add: base_inv_def part_closed_def closed_no_parts)
  define w' where "w' = w\<lparr>w_temporary_tokens := Some ?t, w_temporary_starts := Some ?s,
               w_tokens_handle := Some ?t, w_starts_handle := Some ?s,
               w_tokens_digest := Some [], w_starts_digest := Some [],
               w_rows_in_open_shard := 0, w_open_shard_dirty := False,
               w_dir := append_file ?s [] (append_file ?t [] (w_dir w))\<rparr>"
  have w': "open_shard w = Inr w'"
    using p no_files by (simp add: open_shard_def part_closed_def file_exists_def w'_def Let_def)
  have files: "map_of (w_dir w') = (map_of (w_dir w))(?t \<mapsto> Bytes [], ?s \<mapsto> Bytes [])"
    using no_files by (auto simp: w'_def file_simps file_bytes_def)
  have rows: "w_rows w = ?i * c_rows_per_shard (w_cfg w)"
    using b True by (simp add: base_inv_def shards_inv_def Let_def)
  have "names_inv w'"
  proof (rule names_invI)
    show "distinct (map fst (w_dir w'))"
      using b by (auto simp: w'_def base_inv_def names_inv_def intro!: distinct_keys_append_file)
  next
    fix p c assume "map_of (w_dir w') p = Some c"
    with files b names_invD [of w p] show "p = journal_name \<or>
        (\<exists>i<length (w_shards w'). \<exists>k. p = shard_name i k) \<or>
        (w_tokens_handle w' \<noteq> None \<and> (\<exists>k. p = part_name (length (w_shards w')) k))"
      using closed_no_parts [of w] p
      by (auto simp: w'_def base_inv_def part_closed_def split: if_splits)
  qed
  moreover have "shards_inv S B w'"
    using b files True by (simp add: base_inv_def shards_inv_def w'_def file_is_def Let_def)
  moreover have "buffer_inv S B w'" "count_inv S B w'" "\<not> w_finished w'" "wf_config (w_cfg w')"
    using b by (simp_all add: base_inv_def buffer_inv_def count_inv_def w'_def)
  ultimately have "base_inv S B w'" by (simp add: base_inv_def)
  moreover have "part_open S B w'"
    using files rows by (simp add: part_open_def w'_def file_is_def Let_def)
  ultimately show thesis by (rule that [OF w']) (use True in \<open>simp_all add: w'_def same_docs_def\<close>)
qed

lemma finalize_inv:
  assumes b: "base_inv S B w" and p: "part_open S B w"
    and pos: "1 \<le> w_rows_in_open_shard w"
  obtains w' where "finalize_open_shard w = Inr w'" "part_closed w'" "same_docs w w'"
    "w_tokens w' = w_tokens w" "w_starts w' = w_starts w" "w_buffer_offset w' = w_buffer_offset w"
    "w_rows w' = w_rows w" "w_valid_loss_tokens w' = w_valid_loss_tokens w"
    "w_masked_boundary_labels w' = w_masked_boundary_labels w"
    "w_shards w' = w_shards w @ [shard_json (w_cfg w) S B (length (w_shards w))
        (length (w_shards w) * c_rows_per_shard (w_cfg w)) (w_rows w)]"
    "map_of (w_dir w') = (map_of (w_dir w))
        (part_name (length (w_shards w)) Tokens := None,
         shard_name (length (w_shards w)) Tokens := map_of (w_dir w) (part_name (length (w_shards w)) Tokens),
         part_name (length (w_shards w)) Starts := None,
         shard_name (length (w_shards w)) Starts := map_of (w_dir w) (part_name (length (w_shards w)) Starts))"
    "distinct (map fst (w_dir w'))"
proof -
  let ?c = "w_cfg w" and ?i = "length (w_shards w)" and ?n = "c_rows_per_shard (w_cfg w)"
  let ?T = "c_sequence_length (w_cfg w)"
  let ?tb = "rows_token_bytes ?T S (?i * ?n) (w_rows w)"
  let ?sb = "rows_start_bytes ?T B (?i * ?n) (w_rows w)"
  have rows: "w_rows w - ?i * ?n = w_rows_in_open_shard w"
    using b by (simp add: base_inv_def shards_inv_def Let_def)
  have ltS: "w_rows w * ?T < length S" and ltB: "w_rows w * ?T < length B"
    using b rows pos by (auto simp: base_inv_def buffer_inv_def)
  have len: "length ?tb = w_rows_in_open_shard w * c_tokens_per_row ?c * 2"
     "length ?sb = w_rows_in_open_shard w * c_starts_bytes_per_row ?c"
    using length_rows_token_bytes [OF ltS] length_rows_start_bytes [OF ltB] rows
    by (simp_all add: c_tokens_per_row_def c_starts_bytes_per_row_def)
  let ?d1 = "replace_file (part_name ?i Tokens) (shard_name ?i Tokens) (w_dir w)"
  let ?d2 = "replace_file (part_name ?i Starts) (shard_name ?i Starts) ?d1"
  have f: "map_of (w_dir w) (part_name ?i Tokens) = Some (Bytes ?tb)"
      "map_of (w_dir w) (part_name ?i Starts) = Some (Bytes ?sb)"
    using p by (simp_all add: part_open_def file_is_def Let_def)
  have d1: "map_of ?d1 = (map_of (w_dir w))(part_name ?i Tokens := None, shard_name ?i Tokens \<mapsto> Bytes ?tb)"
    using f by (simp add: file_simps)
  have d2: "map_of ?d2 = (map_of ?d1)(part_name ?i Starts := None, shard_name ?i Starts \<mapsto> Bytes ?sb)"
    using f d1 by (intro map_of_replace_file) auto
  have bytes: "file_bytes ?d2 (shard_name ?i Tokens) = ?tb" "file_bytes ?d2 (shard_name ?i Starts) = ?sb"
    using d1 d2 by (simp_all add: file_bytes_def)
  have dist: "distinct (map fst ?d2)"
    using b by (intro distinct_keys_replace_file) (simp add: base_inv_def names_inv_def)
  define w' where "w' = w\<lparr>w_tokens_handle := None, w_starts_handle := None,
      w_open_shard_dirty := False, w_dir := ?d2,
      w_shards := w_shards w @ [shard_json ?c S B ?i (?i * ?n) (w_rows w)],
      w_rows_in_open_shard := 0, w_temporary_tokens := None, w_temporary_starts := None,
      w_tokens_digest := None, w_starts_digest := None\<rparr>"
  have fin: "finalize_open_shard w = Inr w'"
    using p pos by (simp add: finalize_open_shard_def part_open_def bytes len Let_def
        shard_json_def rows w'_def)
  have dir: "map_of (w_dir w') = (map_of (w_dir w))
        (part_name ?i Tokens := None, shard_name ?i Tokens := map_of (w_dir w) (part_name ?i Tokens),
         part_name ?i Starts := None, shard_name ?i Starts := map_of (w_dir w) (part_name ?i Starts))"
    using d1 d2 f by (simp add: w'_def)
  show thesis
    by (rule that [OF fin _ _ _ _ _ _ _ _ _ dir])
      (simp_all add: part_closed_def w'_def dist same_docs_def)
qed

lemma finalize_full_inv:
  assumes b: "base_inv S B w" and p: "part_open S B w"
    and full: "w_rows_in_open_shard w = c_rows_per_shard (w_cfg w)"
  obtains w' where "finalize_open_shard w = Inr w'" "base_inv S B w'" "part_closed w'"
    "same_docs w w'" "w_tokens w' = w_tokens w" "w_buffer_offset w' = w_buffer_offset w"
proof -
  let ?n = "c_rows_per_shard (w_cfg w)" and ?i = "length (w_shards w)"
  have "1 \<le> w_rows_in_open_shard w" using b full by (simp add: base_inv_def wf_config_def)
  with b p obtain w' where w': "finalize_open_shard w = Inr w'" "part_closed w'" "same_docs w w'"
    "w_tokens w' = w_tokens w" "w_starts w' = w_starts w" "w_buffer_offset w' = w_buffer_offset w"
    "w_rows w' = w_rows w" "w_valid_loss_tokens w' = w_valid_loss_tokens w"
    "w_masked_boundary_labels w' = w_masked_boundary_labels w"
    and sh: "w_shards w' = w_shards w @ [shard_json (w_cfg w) S B ?i (?i * ?n) (w_rows w)]"
    and fs: "map_of (w_dir w') = (map_of (w_dir w))
        (part_name ?i Tokens := None,
         shard_name ?i Tokens := map_of (w_dir w) (part_name ?i Tokens),
         part_name ?i Starts := None,
         shard_name ?i Starts := map_of (w_dir w) (part_name ?i Starts))"
    and ds: "distinct (map fst (w_dir w'))"
    using finalize_inv by blast
  have rows: "w_rows w = Suc ?i * ?n"
    using b full by (simp add: base_inv_def shards_inv_def Let_def)
  have old: "file_is (w_dir w) (w_cfg w) S B (shard_name i) (i * ?n) (Suc i * ?n)" if "i < ?i" for i
    using b that by (simp add: base_inv_def shards_inv_def Let_def)
  have new: "file_is (w_dir w') (w_cfg w) S B (shard_name i) (i * ?n) (Suc i * ?n)"
    if "i < Suc ?i" for i
    using that old [of i] p rows
    by (cases "i = ?i") (auto simp: file_is_def fs part_open_def Let_def)
  have "w_shards w = map (\<lambda>i. shard_json (w_cfg w) S B i (i * ?n) (Suc i * ?n)) [0..<?i]"
    using b by (simp add: base_inv_def shards_inv_def Let_def)
  then have "w_shards w' = map (\<lambda>i. shard_json (w_cfg w) S B i (i * ?n) (Suc i * ?n)) [0..<Suc ?i]"
    unfolding sh rows by simp
  moreover have "length (w_shards w') = Suc ?i" using sh by simp
  moreover have "w_rows w' = Suc ?i * ?n + w_rows_in_open_shard w'"
    using w' rows by (simp add: part_closed_def)
  ultimately have "shards_inv S B w'"
    unfolding shards_inv_def Let_def using new w' by (simp add: same_docs_def)
  moreover have "names_inv w'"
  proof (rule names_invI)
    show "distinct (map fst (w_dir w'))" by (rule ds)
  next
    fix p c assume "map_of (w_dir w') p = Some c"
    with fs b p names_invD [of w p] show "p = journal_name \<or>
        (\<exists>i<length (w_shards w'). \<exists>k. p = shard_name i k) \<or>
        (w_tokens_handle w' \<noteq> None \<and> (\<exists>k. p = part_name (length (w_shards w')) k))"
      by (auto simp: sh base_inv_def less_Suc_eq split: if_splits)
  qed
  moreover have "buffer_inv S B w'" "count_inv S B w'" "\<not> w_finished w'" "wf_config (w_cfg w')"
    using b w' by (simp_all add: base_inv_def buffer_inv_def count_inv_def same_docs_def)
  ultimately have "base_inv S B w'" by (simp add: base_inv_def)
  from that [OF w'(1) this w'(2,3,4,6)] show thesis .
qed

section \<open>Appending rows\<close>

lemma segment_of_buffer:
  assumes "drop off xs = drop p ys" and "i + n \<le> m"
  shows "segment i n (segment off m xs) = segment (p + i) n ys"
proof -
  have "segment off m xs = segment p m ys" using assms(1) by (simp add: segment_def)
  with assms(2) show ?thesis by (simp add: segment_segment add.commute)
qed

lemma upt_shift: "map (\<lambda>r. R + r) [0..<n] = [R..<R + n]"
proof -
  have "map (\<lambda>r. R + r) [0..<n] = map (\<lambda>r. r + R) [0..<n]" by (rule map_cong) auto
  also have "\<dots> = [R..<R + n]" by (simp add: map_add_upt add.commute [of n R])
  finally show ?thesis .
qed

lemma masked_count_add:
  "masked_count T B (R + n) = masked_count T B R + sum_list (map (\<lambda>r. row_masked (row_starts T B (R + r))) [0..<n])"
proof -
  have "[0..<R + n] = [0..<R] @ map (\<lambda>r. R + r) [0..<n]"
    unfolding upt_shift using upt_add_eq_append [of 0 R n] by simp
  then show ?thesis by (simp add: masked_count_def o_def)
qed

lemma rows_bytes_add:
  "rows_token_bytes T S R (R + n) = concat (map (\<lambda>r. token_row_bytes (row_tokens T S (R + r))) [0..<n])"
  "rows_start_bytes T B R (R + n) = concat (map (\<lambda>r. packbits (row_starts T B (R + r))) [0..<n])"
proof -
  have "[R..<R + n] = map (\<lambda>r. R + r) [0..<n]" by (rule upt_shift [symmetric])
  then show "rows_token_bytes T S R (R + n) = concat (map (\<lambda>r. token_row_bytes (row_tokens T S (R + r))) [0..<n])"
    and "rows_start_bytes T B R (R + n) = concat (map (\<lambda>r. packbits (row_starts T B (R + r))) [0..<n])"
    by (simp_all add: rows_token_bytes_def rows_start_bytes_def o_def)
qed

lemma masked_rows_le:
  assumes "(R + n) * T < length B"
  shows "sum_list (map (\<lambda>r. row_masked (row_starts T B (R + r))) [0..<n]) \<le> n * T"
proof -
  have "sum_list (map (\<lambda>r. row_masked (row_starts T B (R + r))) [0..<n]) \<le> sum_list (map (\<lambda>r. T) [0..<n])"
    using assms by (intro sum_list_mono row_masked_le length_row_starts row_in_prefix [of _ "R + n"]) auto
  then show ?thesis by (simp add: map_replicate_const)
qed

text \<open>The batch the drain cuts from its buffer span is the next \<open>n\<close> rows of the stream.\<close>

lemma append_rows_eq:
  assumes "buffer_inv S B w" and "n * c_sequence_length (w_cfg w) < length (w_tokens w) - w_buffer_offset w"
  defines "T \<equiv> c_sequence_length (w_cfg w)" and "R \<equiv> w_rows w"
  shows "append_rows n w = w\<lparr>
         w_dir := append_file (the (w_starts_handle w)) (rows_start_bytes T B R (R + n))
           (append_file (the (w_tokens_handle w)) (rows_token_bytes T S R (R + n)) (w_dir w)),
         w_tokens_digest := map_option (\<lambda>d. d @ rows_token_bytes T S R (R + n)) (w_tokens_digest w),
         w_starts_digest := map_option (\<lambda>d. d @ rows_start_bytes T B R (R + n)) (w_starts_digest w),
         w_open_shard_dirty := True,
         w_masked_boundary_labels := w_masked_boundary_labels w
            + sum_list (map (\<lambda>r. row_masked (row_starts T B (R + r))) [0..<n]),
         w_valid_loss_tokens := w_valid_loss_tokens w
            + (n * T - sum_list (map (\<lambda>r. row_masked (row_starts T B (R + r))) [0..<n])),
         w_rows := R + n,
         w_rows_in_open_shard := w_rows_in_open_shard w + n,
         w_buffer_offset := w_buffer_offset w + n * T\<rparr>"
proof -
  have tok: "segment (r * T) (T + 1) (segment (w_buffer_offset w) (n * T + 1) (w_tokens w))
        = row_tokens T S (R + r)"
    and st: "segment (r * T) (T + 1) (segment (w_buffer_offset w) (n * T + 1) (w_starts w))
        = segment ((R + r) * T) (T + 1) B" if "r < n" for r
  proof -
    have le: "r * T + (T + 1) \<le> n * T + 1"
      using mult_le_mono1 [of "Suc r" n T] that by simp
    show "segment (r * T) (T + 1) (segment (w_buffer_offset w) (n * T + 1) (w_tokens w))
        = row_tokens T S (R + r)"
      using assms(1) le unfolding row_tokens_def
      by (subst segment_of_buffer [where p = "R * T" and ys = S])
        (auto simp: buffer_inv_def T_def R_def add_mult_distrib)
    show "segment (r * T) (T + 1) (segment (w_buffer_offset w) (n * T + 1) (w_starts w))
        = segment ((R + r) * T) (T + 1) B"
      using assms(1) le
      by (subst segment_of_buffer [where p = "R * T" and ys = B])
        (auto simp: buffer_inv_def T_def R_def add_mult_distrib)
  qed
  have toks: "map (\<lambda>r. segment (r * T) (T + 1) (segment (w_buffer_offset w) (n * T + 1) (w_tokens w))) [0..<n]
      = map (\<lambda>r. row_tokens T S (R + r)) [0..<n]"
    using tok by (intro map_cong) auto
  have sts: "map (\<lambda>r. (segment (r * T) (T + 1) (segment (w_buffer_offset w) (n * T + 1) (w_starts w)))[0 := True]) [0..<n]
      = map (\<lambda>r. row_starts T B (R + r)) [0..<n]"
    using st by (intro map_cong) (auto simp: row_starts_def)
  show ?thesis
    unfolding append_rows_def Let_def toks [unfolded T_def R_def] sts [unfolded T_def R_def] rows_bytes_add
    by (simp add: T_def R_def o_def)
qed

lemma append_rows_inv:
  assumes b: "base_inv S B w" and p: "part_open S B w"
    and n: "n * c_sequence_length (w_cfg w) < length (w_tokens w) - w_buffer_offset w"
  shows "base_inv S B (append_rows n w)" and "part_open S B (append_rows n w)"
proof -
  define T where "T = c_sequence_length (w_cfg w)"
  define R where "R = w_rows w"
  let ?k = "length (w_shards w)" and ?w = "append_rows n w"
  let ?a = "length (w_shards w) * c_rows_per_shard (w_cfg w)"
  have buf: "buffer_inv S B w" using b by (simp add: base_inv_def)
  note eq = append_rows_eq [OF buf n, folded T_def R_def]
  have aR: "?a \<le> R" using b by (simp add: base_inv_def shards_inv_def R_def Let_def)
  have lens: "length (w_tokens w) - w_buffer_offset w = length S - R * T"
    using buf unfolding buffer_inv_def R_def T_def by (metis length_drop)
  have RS: "(R + n) * T < length S"
    using n lens unfolding T_def [symmetric] by (simp add: add_mult_distrib)
  then have RB: "(R + n) * T < length B" using buf by (simp add: buffer_inv_def)
  note m = masked_rows_le [OF RB]
  have f: "map_of (w_dir w) (part_name ?k Tokens) = Some (Bytes (rows_token_bytes T S ?a R))"
      "map_of (w_dir w) (part_name ?k Starts) = Some (Bytes (rows_start_bytes T B ?a R))"
    using p by (simp_all add: part_open_def file_is_def Let_def T_def R_def)
  have d: "map_of (w_dir ?w) = (map_of (w_dir w))
      (part_name ?k Tokens \<mapsto> Bytes (rows_token_bytes T S ?a (R + n)),
       part_name ?k Starts \<mapsto> Bytes (rows_start_bytes T B ?a (R + n)))"
    using p f aR rows_bytes_split [of ?a R "R + n"]
    by (simp add: eq part_open_def Let_def file_simps file_bytes_def)
  show "part_open S B ?w"
    using p aR d rows_bytes_split [of ?a R "R + n"]
    by (simp add: part_open_def file_is_def Let_def eq T_def R_def)
  have drops: "drop (w_buffer_offset w + n * T) xs = drop ((R + n) * T) ys"
    if "drop (w_buffer_offset w) xs = drop (R * T) ys" for xs ys :: "'a list"
    using that by (metis add.commute add_mult_distrib drop_drop)
  have "drop (w_buffer_offset w + n * T) (w_tokens w) = drop ((R + n) * T) S"
    and "drop (w_buffer_offset w + n * T) (w_starts w) = drop ((R + n) * T) B"
    using buf by (auto simp: buffer_inv_def T_def R_def intro!: drops [unfolded T_def R_def])
  then have "buffer_inv S B ?w"
    using buf n RS by (auto simp: buffer_inv_def eq T_def)
  moreover have "count_inv S B ?w"
    using b m by (simp add: base_inv_def count_inv_def eq masked_count_add T_def R_def add_mult_distrib)
  moreover have "shards_inv S B ?w"
    using b d by (simp add: base_inv_def shards_inv_def file_is_def eq Let_def R_def)
  moreover have "names_inv ?w"
  proof (rule names_invI)
    show "distinct (map fst (w_dir ?w))"
      using b by (auto simp: eq base_inv_def names_inv_def intro!: distinct_keys_append_file)
  next
    fix q c assume "map_of (w_dir ?w) q = Some c"
    with d b p names_invD [of w q] show "q = journal_name \<or>
        (\<exists>i<length (w_shards ?w). \<exists>k. q = shard_name i k) \<or>
        (w_tokens_handle ?w \<noteq> None \<and> (\<exists>k. q = part_name (length (w_shards ?w)) k))"
      by (auto simp: eq base_inv_def part_open_def Let_def split: if_splits)
  qed
  ultimately show "base_inv S B ?w"
    using b by (simp add: base_inv_def eq)
qed

section \<open>The drain loop\<close>

lemma compact_buffer_inv:
  assumes "writer_inv S B w"
  shows "writer_inv S B (compact_buffer w)" and "same_docs w (compact_buffer w)"
  using assms
  by (auto simp: compact_buffer_def writer_inv_def base_inv_def buffer_inv_def count_inv_def
      shards_inv_def names_inv_def part_open_def part_closed_def same_docs_def Let_def)

lemma batch_rows_props:
  assumes "base_inv S B w" and "w_rows_in_open_shard w < c_rows_per_shard (w_cfg w)"
    and "c_tokens_per_row (w_cfg w) \<le> length (w_tokens w) - w_buffer_offset w"
  shows "1 \<le> batch_rows w"
    and "batch_rows w * c_sequence_length (w_cfg w) < length (w_tokens w) - w_buffer_offset w"
    and "w_rows_in_open_shard w + batch_rows w \<le> c_rows_per_shard (w_cfg w)"
proof -
  let ?T = "c_sequence_length (w_cfg w)" and ?l = "length (w_tokens w) - w_buffer_offset w"
  have T: "0 < ?T" using assms(1) by (simp add: base_inv_def wf_config_def)
  have l: "?T + 1 \<le> ?l" using assms(3) by (simp add: c_tokens_per_row_def)
  then have "1 \<le> (?l - 1) div ?T" using T by (simp add: div_greater_zero_iff Suc_le_eq)
  then show "1 \<le> batch_rows w" using assms(2) by (simp add: batch_rows_def drain_batch_rows_def Let_def)
  have "batch_rows w * ?T \<le> (?l - 1) div ?T * ?T"
    by (intro mult_le_mono1) (simp add: batch_rows_def Let_def)
  also have "\<dots> \<le> ?l - 1" by (rule div_times_less_eq_dividend)
  finally show "batch_rows w * ?T < ?l" using l by linarith
  show "w_rows_in_open_shard w + batch_rows w \<le> c_rows_per_shard (w_cfg w)"
    using assms(2) by (simp add: batch_rows_def Let_def)
qed

lemma drain_step_inv:
  assumes inv: "writer_inv S B w"
    and avail: "c_tokens_per_row (w_cfg w) \<le> length (w_tokens w) - w_buffer_offset w"
  obtains w' where "drain_step w = Inr w'" "writer_inv S B w'" "same_docs w w'"
proof -
  from inv obtain w1 where o: "open_shard w = Inr w1" and b: "base_inv S B w1" and p: "part_open S B w1"
    and fr: "w_tokens w1 = w_tokens w" "w_buffer_offset w1 = w_buffer_offset w"
      "w_rows_in_open_shard w1 = w_rows_in_open_shard w" and sd: "same_docs w w1"
    by (rule open_shard_inv) blast
  let ?n = "batch_rows w1" and ?w2 = "append_rows (batch_rows w1) w1"
  have cfg: "w_cfg w1 = w_cfg w" by (rule same_docs_cfg [OF sd])
  have lt: "w_rows_in_open_shard w1 < c_rows_per_shard (w_cfg w1)"
    using inv fr cfg by (simp add: writer_inv_def)
  note n = batch_rows_props [OF b lt avail [folded fr cfg]]
  note w2 = append_rows_inv [OF b p n(2)]
  have sd2: "same_docs w1 ?w2"
    by (simp add: same_docs_def append_rows_def Let_def)
  have rio: "w_rows_in_open_shard ?w2 = w_rows_in_open_shard w1 + ?n" "w_cfg ?w2 = w_cfg w1"
    by (simp_all add: append_rows_def Let_def)
  obtain w3 where w3: "(if w_rows_in_open_shard ?w2 = c_rows_per_shard (w_cfg ?w2)
        then finalize_open_shard ?w2 else Inr ?w2) = Inr w3"
    and i3: "writer_inv S B w3" and sd3: "same_docs ?w2 w3"
  proof (cases "w_rows_in_open_shard ?w2 = c_rows_per_shard (w_cfg ?w2)")
    case True
    with w2 obtain w3 where w3: "finalize_open_shard ?w2 = Inr w3" "base_inv S B w3" "part_closed w3"
      "same_docs ?w2 w3"
      using finalize_full_inv by blast
    then have "writer_inv S B w3"
      by (simp add: writer_inv_def part_closed_def base_inv_def wf_config_def)
    with w3 True show thesis by (intro that [of w3]) simp_all
  next
    case False
    with w2 n rio have "writer_inv S B ?w2" by (simp add: writer_inv_def)
    with False show thesis by (intro that [of ?w2]) simp_all
  qed
  have "drain_step w = Inr (compact_buffer w3)"
    using o n(1) w3 by (simp add: drain_step_def Let_def)
  moreover note compact_buffer_inv [OF i3]
  ultimately show thesis
    using sd sd2 sd3 by (intro that) (blast intro: same_docs_trans)+
qed

text \<open>The drain never raises, keeps the invariant and leaves less than a row behind.\<close>

lemma drain_rows_total:
  assumes "writer_inv S B w"
  shows "\<exists>w'. drain_rows w = Inr w' \<and> writer_inv S B w' \<and> same_docs w w' \<and> drained w'"
  using assms
proof (induction w rule: drain_rows.induct)
  case (1 w)
  show ?case
  proof (cases "c_tokens_per_row (w_cfg w) \<le> length (w_tokens w) - w_buffer_offset w")
    case True
    with 1(2) obtain w1 where w1: "drain_step w = Inr w1" "writer_inv S B w1" "same_docs w w1"
      by (rule drain_step_inv)
    from 1(1) [OF True w1(1,2)] obtain w' where
      "drain_rows w1 = Inr w'" "writer_inv S B w'" "same_docs w1 w'" "drained w'" by blast
    with w1 True show ?thesis
      by (auto simp: drain_rows.simps [of w] intro: same_docs_trans)
  next
    case False
    then show ?thesis
      using 1(2) by (auto simp: drain_rows.simps [of w] drained_def c_tokens_per_row_def)
  qed
qed

section \<open>Documents, checkpoints, completion\<close>

definition as_json_tokens :: "nat list \<Rightarrow> json list" where
  "as_json_tokens d = map (\<lambda>t. JInt (int t)) d"

lemma check_tokens_ok:
  "\<forall>t\<in>set d. t < v \<Longrightarrow> mapM (check_token v) (as_json_tokens d) = Inr d"
  by (induction d) (auto simp: as_json_tokens_def)

lemma writer_inv_extend:
  assumes inv: "writer_inv S B w" and len: "length bs = length ts"
    and cnt: "dd + cc = length ts"
  shows "writer_inv (S @ ts) (B @ bs) (w\<lparr>w_tokens := w_tokens w @ ts, w_starts := w_starts w @ bs,
      w_documents := w_documents w + dd, w_source_content_tokens := w_source_content_tokens w + cc\<rparr>)"
proof -
  let ?T = "c_sequence_length (w_cfg w)" and ?R = "w_rows w" and ?n = "c_rows_per_shard (w_cfg w)"
  let ?k = "length (w_shards w)"
  have b: "base_inv S B w" using inv by (simp add: writer_inv_def)
  have buf: "buffer_inv S B w" and rows: "?R = ?k * ?n + w_rows_in_open_shard w"
    using b by (simp_all add: base_inv_def shards_inv_def Let_def)
  have leS: "?R * ?T \<le> length S" and leB: "?R * ?T \<le> length B"
    using buf by (auto simp: buffer_inv_def)
  have same: "rows_token_bytes ?T (S @ ts) x y = rows_token_bytes ?T S x y"
      "rows_start_bytes ?T (B @ bs) x y = rows_start_bytes ?T B x y" if "y \<le> ?R" for x y
  proof -
    have *: "?R * ?T < length S \<or> x \<ge> y" using buf that by (auto simp: buffer_inv_def)
    then show "rows_token_bytes ?T (S @ ts) x y = rows_token_bytes ?T S x y"
      using rows_bytes_append [of ?R ?T S y] that by (auto simp: rows_token_bytes_def)
    show "rows_start_bytes ?T (B @ bs) x y = rows_start_bytes ?T B x y"
      using * rows_start_append [of ?R ?T B y] that buf
      by (auto simp: rows_start_bytes_def buffer_inv_def)
  qed
  have complete: "Suc i * ?n \<le> ?R" if "i < ?k" for i
    using rows mult_le_mono1 [of "Suc i" ?k ?n] that by simp
  have mc: "masked_count ?T (B @ bs) ?R = masked_count ?T B ?R"
  proof (cases "?R = 0")
    case False
    then have "?R * ?T < length B" using buf by (auto simp: buffer_inv_def)
    then show ?thesis unfolding masked_count_def
      by (intro arg_cong [where f = sum_list] map_cong refl)
        (simp add: row_starts_append row_in_prefix [of _ ?R])
  qed (simp add: masked_count_def)
  have fis: "file_is d (w_cfg w) (S @ ts) (B @ bs) nm x y = file_is d (w_cfg w) S B nm x y"
    if "y \<le> ?R" for d nm x y
    using same [OF that] by (simp add: file_is_def)
  have sj: "shard_json (w_cfg w) (S @ ts) (B @ bs) i x y = shard_json (w_cfg w) S B i x y"
    if "y \<le> ?R" for i x y
    using same [OF that] by (simp add: shard_json_def)
  let ?w = "w\<lparr>w_tokens := w_tokens w @ ts, w_starts := w_starts w @ bs,
      w_documents := w_documents w + dd, w_source_content_tokens := w_source_content_tokens w + cc\<rparr>"
  have "buffer_inv (S @ ts) (B @ bs) ?w"
    using buf len leS leB by (auto simp: buffer_inv_def)
  moreover have "count_inv (S @ ts) (B @ bs) ?w"
    using b cnt mc by (simp add: base_inv_def count_inv_def)
  moreover have "shards_inv (S @ ts) (B @ bs) ?w"
  proof -
    have *: "shards_inv S B w" using b by (simp add: base_inv_def)
    have "map (\<lambda>i. shard_json (w_cfg w) (S @ ts) (B @ bs) i (i * ?n) (Suc i * ?n)) [0..<?k]
        = map (\<lambda>i. shard_json (w_cfg w) S B i (i * ?n) (Suc i * ?n)) [0..<?k]"
      by (intro map_cong refl sj complete) simp
    also have "\<dots> = w_shards w" using * unfolding shards_inv_def Let_def by (elim conjE) (erule sym)
    finally have sh: "w_shards w =
        map (\<lambda>i. shard_json (w_cfg w) (S @ ts) (B @ bs) i (i * ?n) (Suc i * ?n)) [0..<?k]" ..
    have "file_is d (w_cfg w) (S @ ts) (B @ bs) (shard_name i) (i * ?n) (Suc i * ?n)
        = file_is d (w_cfg w) S B (shard_name i) (i * ?n) (Suc i * ?n)" if "i < ?k" for d i
      by (intro fis complete that)
    with * have "\<forall>i<?k. file_is (w_dir w) (w_cfg w) (S @ ts) (B @ bs) (shard_name i) (i * ?n) (Suc i * ?n)"
      unfolding shards_inv_def Let_def by blast
    with sh rows have "shards_inv (S @ ts) (B @ bs) w" unfolding shards_inv_def Let_def by blast
    then show ?thesis by (simp add: shards_inv_def)
  qed
  moreover have "names_inv ?w" using b by (simp add: base_inv_def names_inv_def)
  ultimately have "base_inv (S @ ts) (B @ bs) ?w" using b by (simp add: base_inv_def)
  moreover have "part_open S B w \<Longrightarrow> part_open (S @ ts) (B @ bs) ?w"
    using same [OF order_refl] fis [OF order_refl] by (simp add: part_open_def Let_def)
  ultimately show ?thesis
    using inv by (auto simp: writer_inv_def part_closed_def)
qed

lemma writer_inv_fresh: "wf_config c \<Longrightarrow> writer_inv [] [] (fresh_writer c)"
  by (simp add: writer_inv_def base_inv_def fresh_writer_def buffer_inv_def count_inv_def
      shards_inv_def names_inv_def part_closed_def wf_config_def masked_count_def)

lemma open_shard_json_inv:
  assumes "writer_inv S B w"
  shows "open_shard_json w = Inr (if w_rows_in_open_shard w = 0 then JNull
      else shard_entry (length (w_shards w)) (w_rows_in_open_shard w)
        (payload_entry (part_name (length (w_shards w)) Tokens)
          (w_rows_in_open_shard w * c_tokens_per_row (w_cfg w) * 2)
          (sha256 (rows_token_bytes (c_sequence_length (w_cfg w)) S
             (length (w_shards w) * c_rows_per_shard (w_cfg w)) (w_rows w))))
        (payload_entry (part_name (length (w_shards w)) Starts)
          (w_rows_in_open_shard w * c_starts_bytes_per_row (w_cfg w))
          (sha256 (rows_start_bytes (c_sequence_length (w_cfg w)) B
             (length (w_shards w) * c_rows_per_shard (w_cfg w)) (w_rows w)))))"
  using assms by (auto simp: writer_inv_def open_shard_json_def part_open_def Let_def)

lemma write_journal_inv:
  assumes inv: "writer_inv S B w"
  shows "\<exists>w' j. write_journal cur w = Inr w' \<and> writer_inv S B w' \<and>
     journal_payload cur w = Inr j \<and> map_of (w_dir w') journal_name = Some (JsonFile j) \<and>
     w' = w\<lparr>w_open_shard_dirty := False, w_source_cursor := cur,
            w_dir := AList.update journal_name (JsonFile j) (w_dir w)\<rparr>"
proof -
  have sync: "sync_open_shard w = w\<lparr>w_open_shard_dirty := False\<rparr>"
    by (simp add: sync_open_shard_def)
  have same: "journal_payload cur (w\<lparr>w_open_shard_dirty := False\<rparr>) = journal_payload cur w"
    by (auto simp: journal_payload_def open_shard_json_def split: option.split)
  obtain j where j: "journal_payload cur w = Inr j"
    using open_shard_json_inv [OF inv] by (simp add: journal_payload_def)
  let ?w = "w\<lparr>w_open_shard_dirty := False, w_source_cursor := cur,
            w_dir := AList.update journal_name (JsonFile j) (w_dir w)\<rparr>"
  have "write_journal cur w = Inr ?w"
    by (simp add: write_journal_def sync same j Let_def)
  moreover have "names_inv ?w"
  proof (rule names_invI)
    show "distinct (map fst (w_dir ?w))"
      using inv by (simp add: writer_inv_def base_inv_def names_inv_def distinct_update)
  next
    fix p c assume "map_of (w_dir ?w) p = Some c"
    with inv names_invD [of w p] show "p = journal_name \<or>
        (\<exists>i<length (w_shards ?w). \<exists>k. p = shard_name i k) \<or>
        (w_tokens_handle ?w \<noteq> None \<and> (\<exists>k. p = part_name (length (w_shards ?w)) k))"
      by (auto simp: writer_inv_def base_inv_def file_simps split: if_splits)
  qed
  ultimately show ?thesis
    using inv j by (auto simp: writer_inv_def base_inv_def buffer_inv_def count_inv_def shards_inv_def
        part_open_def part_closed_def file_is_def file_simps Let_def)
qed

lemma drained_journal [simp]:
  "drained (w\<lparr>w_open_shard_dirty := x, w_source_cursor := cur, w_dir := d\<rparr>) = drained w"
  by (simp add: drained_def)

lemma checkpoint_inv:
  assumes "writer_inv S B w" and "is_jobj cur"
  shows "\<exists>w' j. checkpoint cur w = Inr w' \<and> writer_inv S B w' \<and>
     journal_payload (Some (sort_keys cur)) w = Inr j \<and>
     map_of (w_dir w') journal_name = Some (JsonFile j) \<and>
     w' = w\<lparr>w_open_shard_dirty := False, w_source_cursor := Some (sort_keys cur),
            w_dir := AList.update journal_name (JsonFile j) (w_dir w)\<rparr>"
  using write_journal_inv [OF assms(1), of "Some (sort_keys cur)"] assms
  by (simp add: checkpoint_def canonical_json_mapping_def writer_inv_def base_inv_def)

text \<open>A writer that has been fed the documents \<open>docs\<close>.\<close>

definition fed :: "wconfig \<Rightarrow> nat list list \<Rightarrow> writer \<Rightarrow> bool" where
  "fed c docs w \<longleftrightarrow> w_cfg w = c \<and> docs_ok (c_vocab_size c) docs \<and>
     w_documents w = length docs \<and>
     writer_inv (stream_tokens (c_eos_token_id c) docs) (stream_starts docs) w \<and> drained w"

lemma create_writer_fed:
  assumes "wf_config c"
  shows "\<exists>w. create_writer c = Inr w \<and> fed c [] w"
  using write_journal_inv [OF writer_inv_fresh [OF assms], of None]
  by (auto simp: create_writer_def fed_def docs_ok_def stream_tokens_def stream_starts_def
      fresh_writer_def drained_def)

lemma add_document_fed:
  assumes fed: "fed c docs w" and d: "d \<noteq> []" "\<forall>t\<in>set d. t < c_vocab_size c"
    and cur: "case cursor of None \<Rightarrow> True | Some v \<Rightarrow> is_jobj v"
  shows "\<exists>w'. add_document (as_json_tokens d) cursor w = Inr w' \<and> fed c (docs @ [d]) w' \<and>
     w_source_cursor w' = (case cursor of None \<Rightarrow> w_source_cursor w | Some v \<Rightarrow> Some (sort_keys v))"
proof -
  let ?S = "stream_tokens (c_eos_token_id c) docs" and ?B = "stream_starts docs"
  let ?S' = "stream_tokens (c_eos_token_id c) (docs @ [d])" and ?B' = "stream_starts (docs @ [d])"
  let ?ts = "d @ [c_eos_token_id c]" and ?bs = "([True] @ replicate (length d - 1) False) @ [False]"
  let ?w1 = "w\<lparr>w_tokens := w_tokens w @ ?ts, w_starts := w_starts w @ ?bs,
      w_documents := w_documents w + 1,
      w_source_content_tokens := w_source_content_tokens w + length d\<rparr>"
  have c: "w_cfg w = c" and nf: "\<not> w_finished w"
    using fed by (simp_all add: fed_def writer_inv_def base_inv_def)
  have "length ?bs = length ?ts" using d(1) by (cases d) auto
  then have inv1: "writer_inv ?S' ?B' ?w1"
    unfolding stream_snoc using fed
    by (intro writer_inv_extend) (auto simp: fed_def)
  from drain_rows_total [OF this] obtain w2 where
    w2: "drain_rows ?w1 = Inr w2" "writer_inv ?S' ?B' w2" "same_docs ?w1 w2" "drained w2" by blast
  have ok: "docs_ok (c_vocab_size c) (docs @ [d])"
    using fed d by (auto simp: fed_def docs_ok_def)
  have fed2: "fed c (docs @ [d]) w2"
    using fed w2 ok c by (simp add: fed_def same_docs_def)
  have add: "add_document (as_json_tokens d) cursor w =
      (case cursor of None \<Rightarrow> Inr w2 | Some v \<Rightarrow> checkpoint v w2)"
    using d nf c w2(1) check_tokens_ok [OF d(2)]
    by (simp add: add_document_def as_json_tokens_def Let_def)
  show ?thesis
  proof (cases cursor)
    case None
    then show ?thesis using add fed2 w2(3) by (simp add: same_docs_def)
  next
    case (Some v)
    with cur have "is_jobj v" by simp
    from checkpoint_inv [OF w2(2) this] Some add fed2 show ?thesis by (auto simp: fed_def)
  qed
qed

end
