(* ===== verification/PackedFinish.thy ===== *)
theory PackedFinish
  imports PackedWriterInv
begin

text \<open>
  The finished directory as a pure function of the configuration, the documents and the last
  source cursor (\<open>packed_dir\<close>), and the proof that feeding the documents to a writer and calling
  \<^verbatim>\<open>finish\<close> leaves exactly that directory.
\<close>

section \<open>The specification\<close>

definition packed_rows :: "wconfig \<Rightarrow> nat list \<Rightarrow> nat" where
  "packed_rows c S = (length S - 1) div c_sequence_length c"

definition shard_count :: "nat \<Rightarrow> nat \<Rightarrow> nat" where
  "shard_count n R = (R + n - 1) div n"

definition packed_shards :: "wconfig \<Rightarrow> nat list \<Rightarrow> bool list \<Rightarrow> nat \<Rightarrow> json list" where
  "packed_shards c S B R =
     (let n = c_rows_per_shard c in
      map (\<lambda>i. shard_json c S B i (i * n) (min (Suc i * n) R)) [0..<shard_count n R])"

definition packed_state :: "wconfig \<Rightarrow> nat list list \<Rightarrow> json option \<Rightarrow> writer" where
  "packed_state c docs cursor =
     (let S = stream_tokens (c_eos_token_id c) docs; B = stream_starts docs;
          R = packed_rows c S; M = masked_count (c_sequence_length c) B R in
      (fresh_writer c)\<lparr>w_documents := length docs,
         w_source_content_tokens := sum_list (map length docs), w_rows := R,
         w_masked_boundary_labels := M, w_valid_loss_tokens := R * c_sequence_length c - M,
         w_shards := packed_shards c S B R, w_source_cursor := cursor\<rparr>)"

definition packed_manifest :: "wconfig \<Rightarrow> nat list list \<Rightarrow> json option \<Rightarrow> json" where
  "packed_manifest c docs cursor = manifest_json (packed_state c docs cursor)"

definition shard_files :: "wconfig \<Rightarrow> nat list \<Rightarrow> bool list \<Rightarrow> nat \<Rightarrow> nat \<Rightarrow> dir" where
  "shard_files c S B R i =
     (let n = c_rows_per_shard c; a = i * n; b = min (Suc i * n) R; T = c_sequence_length c in
      [(shard_name i Tokens, Bytes (rows_token_bytes T S a b)),
       (shard_name i Starts, Bytes (rows_start_bytes T B a b))])"

definition packed_dir :: "wconfig \<Rightarrow> nat list list \<Rightarrow> json option \<Rightarrow> dir" where
  "packed_dir c docs cursor =
     (let S = stream_tokens (c_eos_token_id c) docs; B = stream_starts docs; R = packed_rows c S in
      (manifest_name, JsonFile (packed_manifest c docs cursor)) #
      concat (map (shard_files c S B R) [0..<shard_count (c_rows_per_shard c) R]))"

section \<open>Shard bounds\<close>

lemma shard_count_full: "1 \<le> n \<Longrightarrow> shard_count n (k * n) = k"
proof -
  assume n: "1 \<le> n"
  then have "(k * n + n - 1) div n = (n - 1 + k * n) div n" by (simp add: algebra_simps)
  also have "\<dots> = k + (n - 1) div n" using n by (intro div_mult_self1) simp
  finally show ?thesis using n by (simp add: shard_count_def)
qed

lemma shard_count_partial: "1 \<le> r \<Longrightarrow> r \<le> n \<Longrightarrow> shard_count n (k * n + r) = Suc k"
proof -
  assume r: "1 \<le> r" "r \<le> n"
  then have "k * n + r + n - 1 = (r - 1) + Suc k * n" by (simp add: algebra_simps)
  then have "(k * n + r + n - 1) div n = Suc k + (r - 1) div n"
    using r by (metis One_nat_def div_mult_self1 not_one_le_zero order_trans)
  with r show ?thesis by (simp add: shard_count_def)
qed

lemma shard_start_less: "1 \<le> n \<Longrightarrow> i < shard_count n R \<Longrightarrow> i * n < R"
proof -
  assume n: "1 \<le> n" and i: "i < shard_count n R"
  then have "Suc i \<le> (R + n - 1) div n" by (simp add: shard_count_def)
  then have "Suc i * n \<le> R + n - 1" using n
    by (metis div_times_less_eq_dividend le_trans mult_le_mono1)
  with n show ?thesis by simp
qed

lemma rows_of_drained:
  assumes "buffer_inv S B w" and "drained w" and "0 < c_sequence_length (w_cfg w)"
  shows "w_rows w = packed_rows (w_cfg w) S"
proof -
  let ?T = "c_sequence_length (w_cfg w)" and ?R = "w_rows w"
  have "length (w_tokens w) - w_buffer_offset w = length S - ?R * ?T"
    using assms(1) unfolding buffer_inv_def by (metis length_drop)
  with assms(2) have le: "length S - ?R * ?T \<le> ?T" by (simp add: drained_def)
  have "(length S - 1) div ?T = ?R"
  proof (cases "?R = 0")
    case True
    with le assms(3) show ?thesis by simp
  next
    case False
    with assms(1) have "?R * ?T < length S" by (simp add: buffer_inv_def)
    with le assms(3) show ?thesis
      by (intro div_nat_eqI) (simp_all add: mult.commute)
  qed
  then show ?thesis by (simp add: packed_rows_def)
qed

section \<open>Looking a file up in the specified directory\<close>

lemma map_of_concat_shards:
  "map_of (concat (map (shard_files c S B R) [0..<K])) (shard_name i k) =
     (if i < K then map_of (shard_files c S B R i) (shard_name i k) else None)"
proof (induction K)
  case (Suc K)
  have other: "map_of (shard_files c S B R j) (shard_name i k) = None" if "i \<noteq> j" for j
    using that by (simp add: shard_files_def Let_def)
  show ?case
  proof (cases "i = K")
    case True
    with Suc show ?thesis by (auto simp: map_add_def split: option.splits)
  next
    case False
    with Suc other [of K] show ?thesis by (auto simp: map_add_def less_Suc_eq split: option.splits)
  qed
qed simp

lemma map_of_concat_other:
  "(\<And>i k. p \<noteq> shard_name i k) \<Longrightarrow> map_of (concat (map (shard_files c S B R) [0..<K])) p = None"
  by (induction K) (simp_all add: shard_files_def Let_def map_add_def)

lemma map_of_shard_files:
  "map_of (shard_files c S B R i) (shard_name i Tokens) = Some (Bytes (rows_token_bytes
     (c_sequence_length c) S (i * c_rows_per_shard c) (min (Suc i * c_rows_per_shard c) R)))"
  "map_of (shard_files c S B R i) (shard_name i Starts) = Some (Bytes (rows_start_bytes
     (c_sequence_length c) B (i * c_rows_per_shard c) (min (Suc i * c_rows_per_shard c) R)))"
  by (simp_all add: shard_files_def Let_def)

section \<open>Completion\<close>

text \<open>Closing the last shard leaves the shards of the specification and nothing else.\<close>

lemma finalize_last:
  assumes inv: "writer_inv S B w"
  obtains w' where "finalize_open_shard w = Inr w'" "same_docs w w'" "part_closed w'"
    "w_rows w' = w_rows w" "w_valid_loss_tokens w' = w_valid_loss_tokens w"
    "w_masked_boundary_labels w' = w_masked_boundary_labels w"
    "w_shards w' = packed_shards (w_cfg w) S B (w_rows w)"
    "\<And>i. i < shard_count (c_rows_per_shard (w_cfg w)) (w_rows w) \<Longrightarrow>
       file_is (w_dir w') (w_cfg w) S B (shard_name i) (i * c_rows_per_shard (w_cfg w))
         (min (Suc i * c_rows_per_shard (w_cfg w)) (w_rows w))"
    "\<And>p x. map_of (w_dir w') p = Some x \<Longrightarrow> p = journal_name \<or>
       (\<exists>i < shard_count (c_rows_per_shard (w_cfg w)) (w_rows w). \<exists>k. p = shard_name i k)"
proof -
  let ?c = "w_cfg w" and ?n = "c_rows_per_shard (w_cfg w)" and ?k = "length (w_shards w)"
  let ?R = "w_rows w" and ?r = "w_rows_in_open_shard w"
  have b: "base_inv S B w" and r: "?r < ?n" using inv by (simp_all add: writer_inv_def)
  then have R: "?R = ?k * ?n + ?r" by (simp add: base_inv_def shards_inv_def Let_def)
  have full: "min (Suc i * ?n) ?R = Suc i * ?n" if "i < ?k" for i
    using R mult_le_mono1 [of "Suc i" ?k ?n] that by simp
  have old: "w_shards w = map (\<lambda>i. shard_json ?c S B i (i * ?n) (min (Suc i * ?n) ?R)) [0..<?k]"
  proof -
    have "w_shards w = map (\<lambda>i. shard_json ?c S B i (i * ?n) (Suc i * ?n)) [0..<?k]"
      using b unfolding base_inv_def shards_inv_def Let_def by (elim conjE)
    also have "\<dots> = map (\<lambda>i. shard_json ?c S B i (i * ?n) (min (Suc i * ?n) ?R)) [0..<?k]"
      by (intro map_cong refl) (simp only: full set_upt atLeastLessThan_iff)
    finally show ?thesis .
  qed
  have files: "file_is (w_dir w) ?c S B (shard_name i) (i * ?n) (min (Suc i * ?n) ?R)" if "i < ?k" for i
    unfolding full [OF that] using b that by (simp add: base_inv_def shards_inv_def Let_def)
  show thesis
  proof (cases "?r = 0")
    case True
    with inv have closed: "part_closed w" by (simp add: writer_inv_def)
    have K: "shard_count ?n ?R = ?k" using R True r shard_count_full [of ?n ?k] by simp
    show thesis
    proof (rule that [of w])
      show "finalize_open_shard w = Inr w"
        using closed by (simp add: finalize_open_shard_def part_closed_def)
      show "w_shards w = packed_shards ?c S B ?R"
        using old K by (simp only: packed_shards_def Let_def)
    next
      fix p x assume "map_of (w_dir w) p = Some x"
      then show "p = journal_name \<or> (\<exists>i < shard_count ?n ?R. \<exists>k. p = shard_name i k)"
        using names_invD [of w p x] b closed K by (auto simp: base_inv_def part_closed_def)
    qed (use closed files K in simp_all)
  next
    case False
    then have pos: "1 \<le> ?r" by simp
    from False inv have p: "part_open S B w" by (simp add: writer_inv_def)
    have K: "shard_count ?n ?R = Suc ?k" using R pos r shard_count_partial [of ?r ?n ?k] by simp
    have last: "min (Suc ?k * ?n) ?R = ?R" using R r by simp
    from p have part: "map_of (w_dir w) (part_name ?k Tokens)
          = Some (Bytes (rows_token_bytes (c_sequence_length ?c) S (?k * ?n) ?R))"
        "map_of (w_dir w) (part_name ?k Starts)
          = Some (Bytes (rows_start_bytes (c_sequence_length ?c) B (?k * ?n) ?R))"
      by (simp_all add: part_open_def file_is_def Let_def)
    from b p pos obtain w' where w': "finalize_open_shard w = Inr w'" "part_closed w'" "same_docs w w'"
      "w_rows w' = w_rows w" "w_valid_loss_tokens w' = w_valid_loss_tokens w"
      "w_masked_boundary_labels w' = w_masked_boundary_labels w"
      and sh: "w_shards w' = w_shards w @ [shard_json ?c S B ?k (?k * ?n) ?R]"
      and d: "map_of (w_dir w') = (map_of (w_dir w))
        (part_name ?k Tokens := None,
         shard_name ?k Tokens := map_of (w_dir w) (part_name ?k Tokens),
         part_name ?k Starts := None,
         shard_name ?k Starts := map_of (w_dir w) (part_name ?k Starts))"
      by (rule finalize_inv)
    show thesis
    proof (rule that [OF w'(1) w'(3) w'(2) w'(4-6)])
      show "w_shards w' = packed_shards ?c S B ?R"
        unfolding sh packed_shards_def Let_def K upt_Suc_append [OF le0] map_append
        by (simp only: old [symmetric] list.map last)
    next
      fix i assume "i < shard_count ?n ?R"
      then consider "i < ?k" | "i = ?k" unfolding K by linarith
      then show "file_is (w_dir w') ?c S B (shard_name i) (i * ?n) (min (Suc i * ?n) ?R)"
      proof cases
        case 1
        with files [OF 1] d show ?thesis by (simp add: file_is_def)
      next
        case 2
        with d part last show ?thesis by (simp add: file_is_def)
      qed
    next
      fix p x assume "map_of (w_dir w') p = Some x"
      then show "p = journal_name \<or> (\<exists>i < shard_count ?n ?R. \<exists>k. p = shard_name i k)"
        using names_invD [of w p x] b d part unfolding K base_inv_def
        by (auto simp: less_Suc_eq kind.nchotomy split: if_splits)
    qed
  qed
qed

text \<open>What a finished writer is: the state of the specification, and its directory.\<close>

definition cursor_after :: "json option \<Rightarrow> writer \<Rightarrow> json option" where
  "cursor_after cursor w =
     (case cursor of None \<Rightarrow> w_source_cursor w | Some v \<Rightarrow> Some (sort_keys v))"

definition cursor_ok :: "json option \<Rightarrow> bool" where
  "cursor_ok cursor \<longleftrightarrow> (case cursor of None \<Rightarrow> True | Some v \<Rightarrow> is_jobj v)"

lemma is_jobj_sort_keys [simp]: "is_jobj (sort_keys v) \<longleftrightarrow> is_jobj v"
  by (cases v) auto

lemma manifest_json_cong:
  assumes "w_cfg v = w_cfg w" "w_documents v = w_documents w"
    "w_source_content_tokens v = w_source_content_tokens w" "w_rows v = w_rows w"
    "w_valid_loss_tokens v = w_valid_loss_tokens w"
    "w_masked_boundary_labels v = w_masked_boundary_labels w" "w_source_cursor v = w_source_cursor w"
    "w_shards v = w_shards w"
  shows "manifest_json v = manifest_json w"
  using assms by (simp add: manifest_json_def Let_def)

lemma packed_dir_lookup:
  assumes f: "\<And>i. i < shard_count (c_rows_per_shard c) R \<Longrightarrow>
        file_is d c S B (shard_name i) (i * c_rows_per_shard c) (min (Suc i * c_rows_per_shard c) R)"
    and o: "\<And>p x. map_of d p = Some x \<Longrightarrow> p = journal_name \<or>
        (\<exists>i < shard_count (c_rows_per_shard c) R. \<exists>k. p = shard_name i k)"
  shows "(map_of d)(manifest_name \<mapsto> m, journal_name := None) =
     map_of ((manifest_name, m) #
       concat (map (shard_files c S B R) [0..<shard_count (c_rows_per_shard c) R]))" (is "?l = ?r")
proof
  fix p
  let ?K = "shard_count (c_rows_per_shard c) R"
  consider "p = manifest_name" | "p = journal_name"
    | i k where "p = shard_name i k" | "\<And>i k. p \<noteq> shard_name i k" "p \<noteq> manifest_name" "p \<noteq> journal_name"
    by blast
  then show "?l p = ?r p"
  proof cases
    case 3
    show ?thesis
    proof (cases "i < ?K")
      case True
      with 3 f [OF True] show ?thesis
        by (cases k) (simp_all add: map_of_concat_shards map_of_shard_files file_is_def)
    next
      case False
      with o [of p] 3 have "map_of d p = None" by (cases "map_of d p") auto
      with False 3 show ?thesis by (simp add: map_of_concat_shards)
    qed
  next
    case 4
    with o [of p] have "map_of d p = None" by (cases "map_of d p") auto
    with 4 show ?thesis by (simp add: map_of_concat_other)
  qed (simp_all add: map_of_concat_other)
qed

lemma finish_fed:
  assumes fed: "fed c docs w" and cur: "cursor_ok cursor"
  shows "\<exists>w'. finish cursor w = Inr (packed_manifest c docs (cursor_after cursor w), w') \<and>
     map_of (w_dir w') = map_of (packed_dir c docs (cursor_after cursor w)) \<and> w_finished w'"
proof -
  let ?S = "stream_tokens (c_eos_token_id c) docs" and ?B = "stream_starts docs"
  let ?cur = "cursor_after cursor w"
  from fed have inv: "writer_inv ?S ?B w" and dr: "drained w" and cfg: "w_cfg w = c"
    and docs: "docs_ok (c_vocab_size c) docs" "w_documents w = length docs"
    by (simp_all add: fed_def)
  obtain w1 where w1: "(case cursor of None \<Rightarrow> Inr w | Some v \<Rightarrow> checkpoint v w) = Inr w1"
    and inv1: "writer_inv ?S ?B w1" and dr1: "drained w1" and cfg1: "w_cfg w1 = c"
    and doc1: "w_documents w1 = length docs" and cur1: "w_source_cursor w1 = ?cur"
  proof (cases cursor)
    case None
    with inv dr cfg docs show thesis by (intro that [of w]) (simp_all add: cursor_after_def)
  next
    case (Some v)
    with checkpoint_inv [OF inv, of v] cur dr cfg docs show thesis
      by (auto simp: cursor_ok_def cursor_after_def intro!: that)
  qed
  have drain: "drain_rows w1 = Inr w1"
    using dr1 by (simp add: drain_rows.simps [of w1] drained_def c_tokens_per_row_def not_le less_Suc_eq_le)
  from inv1 have b1: "base_inv ?S ?B w1" by (simp add: writer_inv_def)
  have T: "0 < c_sequence_length (w_cfg w1)" using b1 by (simp add: base_inv_def wf_config_def)
  have R: "w_rows w1 = packed_rows c ?S"
    using b1 dr1 T rows_of_drained [of ?S ?B w1] cfg1 by (simp add: base_inv_def)
  from inv1 obtain w' where f: "finalize_open_shard w1 = Inr w'" and sd: "same_docs w1 w'"
    and ctr: "w_rows w' = w_rows w1" "w_valid_loss_tokens w' = w_valid_loss_tokens w1"
      "w_masked_boundary_labels w' = w_masked_boundary_labels w1"
    and sh: "w_shards w' = packed_shards (w_cfg w1) ?S ?B (w_rows w1)"
    and files: "\<And>i. i < shard_count (c_rows_per_shard (w_cfg w1)) (w_rows w1) \<Longrightarrow>
       file_is (w_dir w') (w_cfg w1) ?S ?B (shard_name i) (i * c_rows_per_shard (w_cfg w1))
         (min (Suc i * c_rows_per_shard (w_cfg w1)) (w_rows w1))"
    and names: "\<And>p x. map_of (w_dir w') p = Some x \<Longrightarrow> p = journal_name \<or>
       (\<exists>i < shard_count (c_rows_per_shard (w_cfg w1)) (w_rows w1). \<exists>k. p = shard_name i k)"
    by (rule finalize_last) blast
  have counts: "w_source_content_tokens w1 = sum_list (map length docs)"
      "w_masked_boundary_labels w1 = masked_count (c_sequence_length c) ?B (packed_rows c ?S)"
      "w_valid_loss_tokens w1 = packed_rows c ?S * c_sequence_length c
         - masked_count (c_sequence_length c) ?B (packed_rows c ?S)"
    using b1 cfg1 doc1 R by (auto simp: base_inv_def count_inv_def length_stream_tokens)
  have man: "manifest_json w' = packed_manifest c docs ?cur"
    unfolding packed_manifest_def packed_state_def Let_def
    by (rule manifest_json_cong)
      (use sd cfg1 doc1 cur1 ctr counts R sh in \<open>simp_all add: same_docs_def fresh_writer_def\<close>)
  let ?w = "w'\<lparr>w_dir := unlink_file journal_name
      (AList.update manifest_name (JsonFile (manifest_json w')) (w_dir w')), w_finished := True\<rparr>"
  have "finish cursor w = Inr (manifest_json w', ?w)"
    using inv by (simp add: finish_def writer_inv_def base_inv_def w1 drain f Let_def)
  moreover have "map_of (w_dir ?w) = map_of (packed_dir c docs ?cur)"
    using packed_dir_lookup [OF files names, where m = "JsonFile (manifest_json w')"]
    unfolding packed_dir_def Let_def man R cfg1
    by (simp add: file_simps)
  ultimately show ?thesis unfolding man by auto
qed

text \<open>The whole construction: create, add every document with its cursor, finish.\<close>

definition pack_documents ::
  "wconfig \<Rightarrow> (nat list \<times> json option) list \<Rightarrow> (json \<times> writer) res" where
  "pack_documents c items =
     rbind (create_writer c) (\<lambda>w0.
     rbind (foldM (\<lambda>w (d, cursor). add_document (as_json_tokens d) cursor w) w0 items) (\<lambda>w.
       finish None w))"

fun last_cursor :: "json option \<Rightarrow> (nat list \<times> json option) list \<Rightarrow> json option" where
  "last_cursor a [] = a"
| "last_cursor a ((d, cursor) # items) =
     last_cursor (case cursor of None \<Rightarrow> a | Some v \<Rightarrow> Some (sort_keys v)) items"

lemma add_documents_fed:
  assumes "fed c docs w" and "docs_ok (c_vocab_size c) (map fst items)"
    and "\<forall>(d, cursor)\<in>set items. cursor_ok cursor"
  shows "\<exists>w'. foldM (\<lambda>w (d, cursor). add_document (as_json_tokens d) cursor w) w items = Inr w' \<and>
     fed c (docs @ map fst items) w' \<and> w_source_cursor w' = last_cursor (w_source_cursor w) items"
  using assms
proof (induction items arbitrary: docs w)
  case (Cons item items)
  obtain d cursor where item: "item = (d, cursor)" by (cases item)
  from Cons.prems(2,3) have d: "d \<noteq> []" "\<forall>t\<in>set d. t < c_vocab_size c"
    and cur: "case cursor of None \<Rightarrow> True | Some v \<Rightarrow> is_jobj v"
    by (simp_all add: item docs_ok_def cursor_ok_def)
  from add_document_fed [OF Cons.prems(1) d cur] obtain w1 where
    w1: "add_document (as_json_tokens d) cursor w = Inr w1" "fed c (docs @ [d]) w1"
    "w_source_cursor w1 = (case cursor of None \<Rightarrow> w_source_cursor w | Some v \<Rightarrow> Some (sort_keys v))"
    by blast
  from Cons.IH [OF w1(2)] Cons.prems(2,3) w1(1,3) show ?case
    by (auto simp: item docs_ok_def)
qed (simp add: fed_def)

lemma pack_documents_correct:
  assumes "wf_config c" and "docs_ok (c_vocab_size c) (map fst items)"
    and "\<forall>(d, cursor)\<in>set items. cursor_ok cursor"
  shows "\<exists>w. pack_documents c items
       = Inr (packed_manifest c (map fst items) (last_cursor None items), w) \<and>
     map_of (w_dir w) = map_of (packed_dir c (map fst items) (last_cursor None items))"
proof -
  from create_writer_fed [OF assms(1)] obtain w0 where w0: "create_writer c = Inr w0" "fed c [] w0"
    by blast
  have cur0: "w_source_cursor w0 = None"
    using w0(1) by (auto simp: create_writer_def write_journal_def sync_open_shard_def
        fresh_writer_def Let_def res_simps)
  from add_documents_fed [OF w0(2) assms(2,3)] obtain w where
    w: "foldM (\<lambda>w (d, cursor). add_document (as_json_tokens d) cursor w) w0 items = Inr w"
    "fed c (map fst items) w" "w_source_cursor w = last_cursor None items"
    using cur0 by auto
  from finish_fed [OF w(2), of None] w(1,3) w0(1) show ?thesis
    by (auto simp: pack_documents_def cursor_ok_def cursor_after_def)
qed

end
