(* ===== verification/PackedManifest.thy ===== *)
theory PackedManifest
  imports PackedFinish
begin

text \<open>
  The readers' side of the packed format: \<^verbatim>\<open>_parse_packed_manifest\<close> and
  \<^verbatim>\<open>validate_packed_manifest\<close> of \<^verbatim>\<open>pretrain/data.py\<close>, and the proof that every
  directory a writer finishes passes both. Symbolic links are outside the model: every name of a
  directory is a regular file, and a data file is one whose content is \<open>Bytes\<close>.
\<close>

section \<open>Parsing\<close>

record shard =
  sh_index :: nat
  sh_rows :: nat
  sh_tokens_path :: string
  sh_starts_path :: string
  sh_tokens_sha256 :: string
  sh_starts_sha256 :: string

definition load_json :: "dir \<Rightarrow> string \<Rightarrow> json res" where
  "load_json d p = (case map_of d p of
       None \<Rightarrow> Inl (IOError ''not a regular file'')
     | Some (Bytes _) \<Rightarrow> Inl (ValueError ''not JSON'')
     | Some (JsonFile v) \<Rightarrow>
         if is_jobj v then Inr v else Inl (ValueError ''Expected a JSON object''))"

definition required_nonnegative :: "string list" where
  "required_nonnegative = [''sequence_length'', ''tokens_per_row'', ''starts_bytes_per_row'',
     ''vocab_size'', ''rows'', ''input_tokens'', ''valid_loss_tokens'',
     ''masked_boundary_labels'', ''documents'', ''source_content_tokens'', ''stream_tokens'',
     ''unused_as_input_tail_tokens'', ''unstored_tail_tokens'']"

definition nonnegative_int :: "json \<Rightarrow> bool" where
  "nonnegative_int v \<longleftrightarrow> is_jint v \<and> 0 \<le> jint_of v"

text \<open>\<^verbatim>\<open>isinstance(v, int) and not isinstance(v, bool) and v >= 1\<close>.\<close>

definition positive_int :: "json \<Rightarrow> bool" where
  "positive_int v \<longleftrightarrow> is_jint v \<and> 1 \<le> jint_of v"

text \<open>The checks on row geometry, encodings and vocabulary.\<close>

definition parse_layout :: "json \<Rightarrow> unit res" where
  "parse_layout m =
     (let num = (\<lambda>k. jint_of (jget m k)); T = num ''sequence_length'' in
      if \<not> py_eq (jget m ''format'') (JStr ''packed-document-causal'')
      then Inl (ValueError ''Unsupported packed format'')
      else if \<not> py_eq (jget m ''format_version'') (JInt 2)
      then Inl (ValueError ''Unsupported packed format version'')
      else if \<not> list_all (\<lambda>k. nonnegative_int (jget m k)) required_nonnegative
      then Inl (ValueError ''Invalid count'')
      else if T < 2 \<or> num ''tokens_per_row'' \<noteq> T + 1 then Inl (ValueError ''Invalid row width'')
      else if num ''starts_bytes_per_row'' \<noteq> int (ceil8 (nat (T + 1)))
      then Inl (ValueError ''Invalid starts width'')
      else if \<not> py_eq (jget m ''token_dtype'') (JStr ''<u2'')
      then Inl (ValueError ''Unsupported token dtype'')
      else if \<not> py_eq (jget m ''starts_encoding'') (JStr ''numpy-packbits-little'')
      then Inl (ValueError ''Unsupported segment-start encoding'')
      else if \<not> list_ex (\<lambda>s. py_eq (jget m ''domain'') (JStr s)) domain_order
      then Inl (ValueError ''Invalid domain'')
      else if \<not> is_jstr (jget m ''split'') \<or> jstr_of (jget m ''split'') = []
      then Inl (ValueError ''Invalid split'')
      else if \<not> positive_int (jget m ''rows_per_shard'')
      then Inl (ValueError ''Invalid rows_per_shard'')
      else if \<not> (1 \<le> num ''vocab_size'' \<and> num ''vocab_size'' \<le> 65536)
      then Inl (ValueError ''Invalid vocabulary size'')
      else if \<not> (is_jint (jget m ''eos_token_id'') \<or> is_jbool (jget m ''eos_token_id''))
           \<or> \<not> (0 \<le> num ''eos_token_id'' \<and> num ''eos_token_id'' < num ''vocab_size'')
      then Inl (ValueError ''Invalid EOS token ID'')
      else Inr ())"

text \<open>The counter equations, then the digests and the cursor.\<close>

definition parse_counters :: "json \<Rightarrow> unit res" where
  "parse_counters m =
     (let num = (\<lambda>k. jint_of (jget m k)); T = num ''sequence_length'';
          unused = num ''stream_tokens'' - num ''input_tokens'';
          stored = (if num ''rows'' \<noteq> 0 then num ''input_tokens'' + 1 else 0) in
      if num ''input_tokens'' \<noteq> num ''rows'' * T then Inl (ValueError ''Invalid input token count'')
      else if num ''valid_loss_tokens'' + num ''masked_boundary_labels'' \<noteq> num ''input_tokens''
      then Inl (ValueError ''Loss-token counters are inconsistent'')
      else if num ''stream_tokens'' \<noteq> num ''source_content_tokens'' + num ''documents''
      then Inl (ValueError ''Source/EOS stream counters are inconsistent'')
      else if unused < 0 \<or> T < unused \<or> num ''unused_as_input_tail_tokens'' \<noteq> unused
      then Inl (ValueError ''Invalid unused input tail count'')
      else if num ''unstored_tail_tokens'' \<noteq> num ''stream_tokens'' - stored
      then Inl (ValueError ''Invalid unstored tail count'')
      else rbind (require_sha256 (jget m ''tokenizer_manifest_sha256'')) (\<lambda>_.
           rbind (optional_sha256 (jget m ''curation_policy_sha256'')) (\<lambda>_.
           rbind (optional_sha256 (jget m ''selection_manifest_sha256'')) (\<lambda>_.
           if jget m ''construction_last_source_cursor'' = JNull then Inr ()
           else rbind (canonical_json_mapping (jget m ''construction_last_source_cursor''))
                  (\<lambda>_. Inr ())))))"

text \<open>One entry of the shard list.\<close>

definition parse_shard :: "json \<Rightarrow> nat \<Rightarrow> nat \<Rightarrow> json \<Rightarrow> shard res" where
  "parse_shard m count expected_index payload =
     (let rps = jint_of (jget m ''rows_per_shard''); rows = jint_of (jget payload ''rows'');
          tokens = jget payload ''tokens''; starts = jget payload ''starts'';
          tn = shard_name expected_index Tokens; sn = shard_name expected_index Starts in
      if \<not> is_jobj payload then Inl (ValueError ''Invalid shard entry'')
      else if \<not> py_eq (jget payload ''index'') (JInt (int expected_index))
      then Inl (ValueError ''Non-contiguous shard index'')
      else if \<not> (is_jint (jget payload ''rows'') \<and> 0 < rows \<and> rows \<le> rps)
      then Inl (ValueError ''Invalid shard row count'')
      else if expected_index + 1 < count \<and> rows \<noteq> rps
      then Inl (ValueError ''Only the final shard may be partial'')
      else if \<not> is_jobj tokens \<or> \<not> is_jobj starts
      then Inl (ValueError ''Invalid shard payload metadata'')
      else if \<not> py_eq (jget tokens ''path'') (JStr tn)
      then Inl (ValueError ''Non-canonical token shard path'')
      else if \<not> py_eq (jget starts ''path'') (JStr sn)
      then Inl (ValueError ''Non-canonical starts shard path'')
      else if \<not> py_eq (jget tokens ''bytes'') (JInt (rows * jint_of (jget m ''tokens_per_row'') * 2))
      then Inl (ValueError ''Invalid recorded token shard size'')
      else if \<not> py_eq (jget starts ''bytes'') (JInt (rows * jint_of (jget m ''starts_bytes_per_row'')))
      then Inl (ValueError ''Invalid recorded starts shard size'')
      else rbind (require_sha256 (jget tokens ''sha256'')) (\<lambda>th.
           rbind (require_sha256 (jget starts ''sha256'')) (\<lambda>sh.
           Inr \<lparr>sh_index = expected_index, sh_rows = nat rows, sh_tokens_path = tn,
                sh_starts_path = sn, sh_tokens_sha256 = th, sh_starts_sha256 = sh\<rparr>)))"

definition parse_packed_manifest :: "json \<Rightarrow> shard list res" where
  "parse_packed_manifest m =
     rbind (parse_layout m) (\<lambda>_. rbind (parse_counters m) (\<lambda>_.
     if \<not> is_jlist (jget m ''shards'') then Inl (ValueError ''Invalid shard list'')
     else let payloads = jlist_of (jget m ''shards'') in
       rbind (mapM (\<lambda>(i, p). parse_shard m (length payloads) i p) (enumerate 0 payloads)) (\<lambda>shards.
       if int (sum_list (map sh_rows shards)) \<noteq> jint_of (jget m ''rows'')
       then Inl (ValueError ''Shard rows do not sum to manifest rows'')
       else Inr shards)))"

section \<open>Payload semantics\<close>

text \<open>Row \<open>r\<close> of the two memory maps: \<open>n\<close> two-byte tokens, \<open>w\<close> start bytes.\<close>

definition map_tokens :: "nat \<Rightarrow> byte list \<Rightarrow> nat \<Rightarrow> nat list" where
  "map_tokens n bs r = map (\<lambda>j. u16_of_le (segment (2 * (r * n + j)) 2 bs)) [0..<n]"

definition map_starts :: "nat \<Rightarrow> byte list \<Rightarrow> nat \<Rightarrow> byte list" where
  "map_starts w bs r = segment (r * w) w bs"

definition unused_high_bits_mask :: "nat \<Rightarrow> byte" where
  "unused_high_bits_mask n = (if n mod 8 = 0 then 0 else push_bit (n mod 8) 255)"

text \<open>The checks of one chunk of rows, then what the chunk adds to the two counters.\<close>

definition check_chunk :: "nat \<Rightarrow> nat \<Rightarrow> nat \<Rightarrow> (nat list \<times> byte list) list \<Rightarrow> int res" where
  "check_chunk vocab n eos chunk =
     (if list_ex (\<lambda>(ts, bs). list_ex (\<lambda>t. vocab \<le> t) ts) chunk
      then Inl (ValueError ''Token ID is outside the vocabulary'')
      else if list_ex (\<lambda>(ts, bs). bs ! 0 AND 1 = 0) chunk
      then Inl (ValueError ''Packed row does not begin an attention segment'')
      else if unused_high_bits_mask n \<noteq> 0
           \<and> list_ex (\<lambda>(ts, bs). last bs AND unused_high_bits_mask n \<noteq> 0) chunk
      then Inl (ValueError ''Unused high start bits are nonzero'')
      else if list_ex (\<lambda>(ts, bs).
                list_ex (\<lambda>(start, t). start \<and> t \<noteq> eos) (zip (tl (unpackbits n bs)) (butlast ts))) chunk
      then Inl (ValueError ''Segment start is not preceded by EOS'')
      else Inr (int (sum_list (map (\<lambda>(ts, bs). sum_list (map popcount bs)) chunk)) - int (length chunk)))"

definition semantic_chunk_rows :: nat where
  "semantic_chunk_rows = 4096"

text \<open>The chunks of one shard, in order; the two counters are valid and masked labels.\<close>

definition chunk_step ::
  "nat \<Rightarrow> nat \<Rightarrow> nat \<Rightarrow> int \<times> int \<Rightarrow> (nat list \<times> byte list) list \<Rightarrow> (int \<times> int) res" where
  "chunk_step vocab T eos acc chunk =
     rbind (check_chunk vocab (T + 1) eos chunk) (\<lambda>chunk_masked.
       Inr (fst acc + (int (length chunk * T) - chunk_masked), snd acc + chunk_masked))"

definition semantic_pass ::
  "nat \<Rightarrow> nat \<Rightarrow> nat \<Rightarrow> int \<times> int \<Rightarrow> (nat list \<times> byte list) list \<Rightarrow> (int \<times> int) res" where
  "semantic_pass vocab T eos acc rows =
     foldM (chunk_step vocab T eos) acc (chunks_of semantic_chunk_rows rows)"

definition check_payload :: "dir \<Rightarrow> string \<Rightarrow> nat \<Rightarrow> json \<Rightarrow> byte list res" where
  "check_payload d path expected recorded =
     (case map_of d path of
        Some (Bytes b) \<Rightarrow>
          if length b \<noteq> expected \<or> \<not> py_eq recorded (JInt (int expected))
          then Inl (IOError ''Size mismatch'') else Inr b
      | _ \<Rightarrow> Inl (IOError ''Packed payload must be a regular non-symlink file''))"

definition validate_shard ::
  "bool \<Rightarrow> dir \<Rightarrow> json \<Rightarrow> int \<times> int \<Rightarrow> shard \<times> json \<Rightarrow> (int \<times> int) res" where
  "validate_shard verify_checksums d m acc entry =
     (let shard = fst entry; payload = snd entry; num = (\<lambda>k. nat (jint_of (jget m k)));
          n = num ''tokens_per_row''; w = num ''starts_bytes_per_row'' in
      rbind (check_payload d (sh_tokens_path shard) (sh_rows shard * (n * 2))
               (jget (jget payload ''tokens'') ''bytes'')) (\<lambda>tb.
      rbind (check_payload d (sh_starts_path shard) (sh_rows shard * w)
               (jget (jget payload ''starts'') ''bytes'')) (\<lambda>sb.
      if verify_checksums \<and> sha256 tb \<noteq> sh_tokens_sha256 shard
      then Inl (IOError ''Checksum mismatch for tokens'')
      else if verify_checksums \<and> sha256 sb \<noteq> sh_starts_sha256 shard
      then Inl (IOError ''Checksum mismatch for starts'')
      else semantic_pass (num ''vocab_size'') (n - 1) (num ''eos_token_id'') acc
             (map (\<lambda>r. (map_tokens n tb r, map_starts w sb r)) [0..<sh_rows shard]))))"

definition validate_packed_manifest :: "bool \<Rightarrow> dir \<Rightarrow> json res" where
  "validate_packed_manifest verify_checksums d =
     rbind (load_json d manifest_name) (\<lambda>m.
     rbind (parse_packed_manifest m) (\<lambda>shards.
     let expected = manifest_name # concat (map (\<lambda>s. [sh_tokens_path s, sh_starts_path s]) shards) in
     if list_ex (\<lambda>(name, _). name \<notin> set expected) d
     then Inl (ValueError ''Packed directory contains unknown files'')
     else rbind (foldM (validate_shard verify_checksums d m) (0, 0)
                   (zip shards (jlist_of (jget m ''shards'')))) (\<lambda>(valid, masked).
       if \<not> py_eq (jget m ''valid_loss_tokens'') (JInt valid)
       then Inl (ValueError ''Manifest valid_loss_tokens mismatch'')
       else if \<not> py_eq (jget m ''masked_boundary_labels'') (JInt masked)
       then Inl (ValueError ''Manifest masked_boundary_labels mismatch'')
       else Inr m)))"

section \<open>Fixed-width records\<close>

text \<open>
  What the readers rely on: a file of records encoded at one width can be read at any index. The
  provider promises the width and that decoding inverts encoding on the values it accepts.
\<close>

locale fixed_codec =
  fixes enc :: "'a \<Rightarrow> byte list"
    and dec :: "byte list \<Rightarrow> 'a"
    and width :: nat
    and ok :: "'a \<Rightarrow> bool"
  assumes enc_width: "ok x \<Longrightarrow> length (enc x) = width"
    and dec_enc: "ok x \<Longrightarrow> dec (enc x) = x"
begin

lemma segment_record:
  assumes "\<forall>x\<in>set xs. ok x" and "i < length xs"
  shows "segment (i * width) width (concat (map enc xs)) = enc (xs ! i)"
proof -
  have "segment (i * width) width (concat (map enc xs)) = map enc xs ! i"
    using assms enc_width by (intro segment_concat_const) auto
  with assms(2) show ?thesis by simp
qed

lemma random_access:
  assumes "\<forall>x\<in>set xs. ok x" and "i < length xs"
  shows "dec (segment (i * width) width (concat (map enc xs))) = xs ! i"
  using segment_record [OF assms] dec_enc assms by simp

lemma length_records: "\<forall>x\<in>set xs. ok x \<Longrightarrow> length (concat (map enc xs)) = length xs * width"
  using length_concat_const [of "map enc xs" width] enc_width by auto

end

interpretation u16: fixed_codec u16_le u16_of_le 2 "\<lambda>t. t < 65536"
  by unfold_locales (simp_all add: byte_simps)

interpretation bits: fixed_codec packbits "unpackbits n" "ceil8 n" "\<lambda>bs. length bs = n" for n
  by unfold_locales (auto simp: byte_simps)

lemma concat_token_rows:
  "concat (map token_row_bytes rows) = concat (map u16_le (concat rows))"
  by (induction rows) (simp_all add: token_row_bytes_def)

lemma map_tokens_rows:
  assumes "\<And>ts. ts \<in> set rows \<Longrightarrow> length ts = n \<and> (\<forall>t\<in>set ts. t < 65536)" and "r < length rows"
  shows "map_tokens n (concat (map token_row_bytes rows)) r = rows ! r"
proof (rule nth_equalityI)
  from assms have len: "length (rows ! r) = n" by simp
  then show "length (map_tokens n (concat (map token_row_bytes rows)) r) = length (rows ! r)"
    by (simp add: map_tokens_def)
  fix j assume "j < length (map_tokens n (concat (map token_row_bytes rows)) r)"
  then have j: "j < n" by (simp add: map_tokens_def)
  have total: "length (concat rows) = length rows * n"
    using assms(1) by (intro length_concat_const) simp
  have "Suc r * n \<le> length rows * n" using assms(2) by (intro mult_le_mono1) simp
  with j total have idx: "r * n + j < length (concat rows)" by simp
  have "map_tokens n (concat (map token_row_bytes rows)) r ! j
      = u16_of_le (segment ((r * n + j) * 2) 2 (concat (map u16_le (concat rows))))"
    using j by (simp add: map_tokens_def concat_token_rows mult.commute [of 2])
  also have "\<dots> = concat rows ! (r * n + j)"
    using assms(1) idx by (intro u16.random_access) auto
  also have "\<dots> = segment (r * n) n (concat rows) ! j"
    using j idx by (simp add: segment_def)
  also have "segment (r * n) n (concat rows) = rows ! r"
    using assms by (intro segment_concat_const) auto
  finally show "map_tokens n (concat (map token_row_bytes rows)) r ! j = rows ! r ! j" .
qed

lemma map_starts_rows:
  assumes "\<And>bs. bs \<in> set rows \<Longrightarrow> length bs = n" and "r < length rows"
  shows "map_starts (ceil8 n) (concat (map packbits rows)) r = packbits (rows ! r)"
  unfolding map_starts_def using assms by (intro bits.segment_record) auto

section \<open>What a packed start row satisfies\<close>

lemma packbits_bit:
  assumes "i < ceil8 (length bs)" and "j < 8"
  shows "bit (packbits bs ! i) j = (i * 8 + j < length bs \<and> bs ! (i * 8 + j))"
proof -
  let ?pad = "bs @ replicate (8 * ceil8 (length bs) - length bs) False"
  have le: "Suc i * 8 \<le> ceil8 (length bs) * 8" using assms(1) by (intro mult_le_mono1) simp
  have "bits_of_byte (packbits bs ! i) = segment (i * 8) 8 (concat (map bits_of_byte (packbits bs)))"
    using assms(1) by (subst segment_concat_const) auto
  then have "bits_of_byte (packbits bs ! i) = segment (i * 8) 8 ?pad"
    by (simp add: concat_packbits)
  then have "bits_of_byte (packbits bs ! i) ! j = segment (i * 8) 8 ?pad ! j" by simp
  moreover have "bits_of_byte (packbits bs ! i) ! j = bit (packbits bs ! i) j"
    using assms(2) by (simp add: bits_of_byte_def)
  ultimately show ?thesis
    using assms(2) le by (auto simp: segment_def nth_append)
qed

lemma packbits_first:
  assumes "bs \<noteq> []" and "bs ! 0"
  shows "packbits bs ! 0 AND 1 \<noteq> 0"
proof -
  have "0 < ceil8 (length bs)" using assms(1) by (cases bs) (simp_all add: ceil8_def)
  then have "bit (packbits bs ! 0) 0" using packbits_bit [of 0 bs 0] assms by simp
  then show ?thesis by (simp add: and_one_eq bit_0 odd_iff_mod_2_eq_one)
qed

lemma packbits_padding:
  assumes "bs \<noteq> []" and "unused_high_bits_mask (length bs) \<noteq> 0"
  shows "last (packbits bs) AND unused_high_bits_mask (length bs) = 0"
proof -
  let ?n = "length bs" and ?m = "ceil8 (length bs)"
  have m: "0 < ?m" using assms(1) by (cases bs) (simp_all add: ceil8_def)
  then have "packbits bs \<noteq> []" using length_packbits [of bs] by fastforce
  then have last: "last (packbits bs) = packbits bs ! (?m - 1)"
    by (simp add: last_conv_nth)
  have k: "?n mod 8 \<noteq> 0" using assms(2) by (cases "?n mod 8 = 0") (simp_all add: unused_high_bits_mask_def)
  then have "(?n + 7) div 8 = Suc (?n div 8)" by presburger
  then have "(?m - 1) * 8 + ?n mod 8 = ?n"
    using m by (simp add: ceil8_def)
  then have "\<not> bit (packbits bs ! (?m - 1)) j" if "?n mod 8 \<le> j" "j < 8" for j
    using packbits_bit [of "?m - 1" bs j] m that by simp
  then show ?thesis
    unfolding last unused_high_bits_mask_def using k
    by (auto intro!: bit_word_eqI simp: bit_and_iff bit_push_bit_iff)
qed

lemma sum_popcount_row:
  assumes "bs \<noteq> []" and "bs ! 0"
  shows "sum_list (map popcount (packbits bs)) = Suc (row_masked bs)"
  unfolding popcount_packbits using assms by (cases bs) (simp_all add: row_masked_def)

section \<open>The stream respects the boundaries\<close>

lemma stream_tokens_bound:
  "docs_ok vocab docs \<Longrightarrow> eos < vocab \<Longrightarrow> \<forall>t\<in>set (stream_tokens eos docs). t < vocab"
  by (auto simp: stream_tokens_def docs_ok_def)

lemma start_after_eos:
  assumes "docs_ok vocab docs" and "p + 1 < length (stream_starts docs)"
    and "stream_starts docs ! (p + 1)"
  shows "stream_tokens eos docs ! p = eos"
  using assms
proof (induction docs rule: rev_induct)
  case (snoc d docs)
  let ?S = "stream_tokens eos docs" and ?B = "stream_starts docs"
  have ok: "docs_ok vocab docs" and d: "d \<noteq> []" using snoc.prems(1) by (auto simp: docs_ok_def)
  have len: "length ?B = length ?S" by (rule length_stream_starts [OF ok])
  show ?case
  proof (cases "p + 1 < length ?B")
    case True
    with snoc.IH [OF ok] snoc.prems(3) len show ?thesis
      by (simp add: stream_snoc nth_append)
  next
    case False
    let ?q = "p + 1 - length ?B"
    let ?piece = "([True] @ replicate (length d - 1) False) @ [False]"
    from snoc.prems(2) False have q: "?q < length ?piece" by (auto simp: stream_snoc)
    have "?piece ! ?q" using snoc.prems(3) False unfolding stream_snoc nth_append by simp
    with q have "?q = 0"
      by (cases ?q) (auto simp: nth_append nth_Cons split: if_splits nat.splits)
    with False have p: "p + 1 = length ?S" using len by simp
    then have "?S \<noteq> []" by auto
    then have "docs \<noteq> []" by (auto simp: stream_tokens_def)
    then obtain ds d' where "docs = ds @ [d']" by (metis rev_exhaust)
    then have "last ?S = eos" by (simp add: stream_snoc)
    with p \<open>?S \<noteq> []\<close> have "?S ! p = eos" by (metis add_diff_cancel_right' last_conv_nth)
    with p show ?thesis by (simp add: stream_snoc nth_append)
  qed
qed (simp add: stream_starts_def)

text \<open>A row of a stream whose start flags follow EOS tokens, as the semantic pass reads it.\<close>

definition stored_row :: "nat \<Rightarrow> nat list \<Rightarrow> bool list \<Rightarrow> nat \<Rightarrow> nat list \<times> byte list" where
  "stored_row T S B r = (row_tokens T S r, packbits (row_starts T B r))"

definition eos_stream :: "nat \<Rightarrow> nat \<Rightarrow> nat list \<Rightarrow> bool list \<Rightarrow> bool" where
  "eos_stream vocab eos S B \<longleftrightarrow> length B = length S \<and> (\<forall>t\<in>set S. t < vocab) \<and>
     (\<forall>p. p + 1 < length B \<longrightarrow> B ! (p + 1) \<longrightarrow> S ! p = eos)"

lemma eos_stream_docs:
  "docs_ok vocab docs \<Longrightarrow> eos < vocab \<Longrightarrow>
     eos_stream vocab eos (stream_tokens eos docs) (stream_starts docs)"
  using start_after_eos [of vocab docs _ eos]
  by (simp add: eos_stream_def length_stream_starts stream_tokens_bound)

lemma row_boundaries:
  assumes st: "eos_stream vocab eos S B" and r: "r * T + T < length S"
  shows "\<forall>(start, t)\<in>set (zip (tl (row_starts T B r)) (butlast (row_tokens T S r))). start \<longrightarrow> t = eos"
proof clarify
  fix start t
  assume "(start, t) \<in> set (zip (tl (row_starts T B r)) (butlast (row_tokens T S r)))" and start: start
  then obtain j where j: "j < T" "tl (row_starts T B r) ! j = start" "butlast (row_tokens T S r) ! j = t"
    using r st by (auto simp: set_zip length_row_tokens length_row_starts eos_stream_def)
  have "start = B ! (r * T + j + 1)"
    using j r st unfolding row_starts_def
    by (simp add: nth_tl segment_def eos_stream_def add.assoc)
  moreover have "t = S ! (r * T + j)"
    using j r by (simp add: nth_butlast row_tokens_def segment_def)
  ultimately show "t = eos" using st start j r by (simp add: eos_stream_def)
qed

lemma check_chunk_rows:
  assumes st: "eos_stream vocab eos S B" and T: "0 < T"
    and rs: "\<forall>r\<in>set rs. r * T + T < length S"
  shows "check_chunk vocab (T + 1) eos (map (stored_row T S B) rs)
     = Inr (int (sum_list (map (\<lambda>r. row_masked (row_starts T B r)) rs)))"
proof -
  have len: "length (row_starts T B r) = T + 1" "row_starts T B r \<noteq> []" "row_starts T B r ! 0"
    if "r \<in> set rs" for r
  proof -
    show l: "length (row_starts T B r) = T + 1"
      using rs st that by (intro length_row_starts) (simp add: eos_stream_def)
    then show "row_starts T B r \<noteq> []" by auto
    with l show "row_starts T B r ! 0" by (simp add: row_starts_def)
  qed
  have unpack: "unpackbits (Suc T) (packbits (row_starts T B r)) = row_starts T B r" if "r \<in> set rs" for r
    using unpack_pack [of "row_starts T B r"] len(1) [OF that] by simp
  have toks: "t < vocab" if "r \<in> set rs" "t \<in> set (row_tokens T S r)" for r t
    using st that unfolding eos_stream_def row_tokens_def segment_def
    by (meson in_set_dropD in_set_takeD)
  have pad: "last (packbits (row_starts T B r)) AND unused_high_bits_mask (Suc T) = 0"
    if "r \<in> set rs" "unused_high_bits_mask (Suc T) \<noteq> 0" for r
    using packbits_padding [of "row_starts T B r"] len [OF that(1)] that(2) by simp
  have bounds: "\<not> (start \<and> t \<noteq> eos)"
    if "r \<in> set rs" "(start, t) \<in> set (zip (tl (row_starts T B r)) (butlast (row_tokens T S r)))" for r start t
    using row_boundaries [OF st] rs that by blast
  have sum: "sum_list (map (\<lambda>(ts, bs). sum_list (map popcount bs)) (map (stored_row T S B) xs))
      = sum_list (map (\<lambda>r. row_masked (row_starts T B r)) xs) + length xs" if "set xs \<subseteq> set rs" for xs
    using that
  proof (induction xs)
    case (Cons x xs)
    with sum_popcount_row [OF len(2,3)] show ?case by (simp add: stored_row_def)
  qed simp
  have c1: "\<not> list_ex (\<lambda>(ts, bs). list_ex (\<lambda>t. vocab \<le> t) ts) (map (stored_row T S B) rs)"
    using toks by (fastforce simp: list_ex_iff stored_row_def)
  have c2: "\<not> list_ex (\<lambda>(ts, bs). bs ! 0 AND 1 = 0) (map (stored_row T S B) rs)"
    using packbits_first [OF len(2,3)] by (auto simp: list_ex_iff stored_row_def)
  have c3: "\<not> (unused_high_bits_mask (T + 1) \<noteq> 0 \<and>
      list_ex (\<lambda>(ts, bs). last bs AND unused_high_bits_mask (T + 1) \<noteq> 0) (map (stored_row T S B) rs))"
    using pad by (auto simp: list_ex_iff stored_row_def)
  have c4: "\<not> list_ex (\<lambda>(ts, bs). list_ex (\<lambda>(start, t). start \<and> t \<noteq> eos)
      (zip (tl (unpackbits (T + 1) bs)) (butlast ts))) (map (stored_row T S B) rs)"
    using unpack bounds by (auto simp: list_ex_iff stored_row_def)
  show ?thesis
    using c1 c2 c3 c4 sum [OF order_refl] by (simp only: check_chunk_def if_False length_map) simp
qed

lemma chunks_of_Nil [simp]: "chunks_of n [] = []"
  by (simp add: chunks_of.simps)

lemma chunks_of_step: "0 < n \<Longrightarrow> xs \<noteq> [] \<Longrightarrow> chunks_of n xs = take n xs # chunks_of n (drop n xs)"
  by (simp add: chunks_of.simps)

lemma semantic_pass_rows:
  assumes "eos_stream vocab eos S B" and "0 < T"
  shows "\<forall>r\<in>set rs. r * T + T < length S \<Longrightarrow>
     semantic_pass vocab T eos acc (map (stored_row T S B) rs)
       = (let k = sum_list (map (\<lambda>r. row_masked (row_starts T B r)) rs) in
          Inr (fst acc + (int (length rs * T) - int k), snd acc + int k))"
proof (induction rs arbitrary: acc rule: length_induct)
  case (1 rs)
  let ?N = semantic_chunk_rows
  show ?case
  proof (cases "rs = []")
    case False
    let ?k = "\<lambda>xs. int (sum_list (map (\<lambda>r. row_masked (row_starts T B r)) xs))"
    have N: "0 < ?N" by (simp add: semantic_chunk_rows_def)
    let ?acc = "(fst acc + (int (length (take ?N rs) * T) - ?k (take ?N rs)), snd acc + ?k (take ?N rs))"
    have "check_chunk vocab (T + 1) eos (map (stored_row T S B) (take ?N rs)) = Inr (?k (take ?N rs))"
      using assms 1(2) by (intro check_chunk_rows) (auto dest: in_set_takeD)
    then have step: "chunk_step vocab T eos acc (map (stored_row T S B) (take ?N rs)) = Inr ?acc"
      by (simp add: chunk_step_def)
    have "semantic_pass vocab T eos acc (map (stored_row T S B) rs)
        = semantic_pass vocab T eos ?acc (map (stored_row T S B) (drop ?N rs))"
      unfolding semantic_pass_def using False N
      by (subst chunks_of_step) (simp_all add: take_map drop_map step)
    also have "\<dots> = (let k = sum_list (map (\<lambda>r. row_masked (row_starts T B r)) (drop ?N rs)) in
          Inr (fst ?acc + (int (length (drop ?N rs) * T) - int k), snd ?acc + int k))"
      by (rule 1(1) [rule_format]) (use 1(2) N False in \<open>auto dest: in_set_dropD\<close>)
    also have "\<dots> = (let k = sum_list (map (\<lambda>r. row_masked (row_starts T B r)) rs) in
          Inr (fst acc + (int (length rs * T) - int k), snd acc + int k))"
    proof -
      have "?k (take ?N rs) + ?k (drop ?N rs) = ?k rs"
        by (metis append_take_drop_id map_append of_nat_add sum_list_append)
      moreover have "int (length (take ?N rs) * T) + int (length (drop ?N rs) * T) = int (length rs * T)"
        by (metis append_take_drop_id distrib_right length_append of_nat_add)
      ultimately show ?thesis by (simp add: Let_def)
    qed
    finally show ?thesis .
  qed (simp add: semantic_pass_def)
qed

section \<open>A finished directory is valid\<close>

lemma manifest_header_fields:
  "jget (manifest_json w) ''format'' = JStr ''packed-document-causal''"
  "jget (manifest_json w) ''format_version'' = JInt 2"
  "jget (manifest_json w) ''domain'' = JStr (c_domain (w_cfg w))"
  "jget (manifest_json w) ''split'' = JStr (c_split (w_cfg w))"
  "jget (manifest_json w) ''sequence_length'' = JInt (int (c_sequence_length (w_cfg w)))"
  "jget (manifest_json w) ''tokens_per_row'' = JInt (int (c_tokens_per_row (w_cfg w)))"
  "jget (manifest_json w) ''token_dtype'' = JStr ''<u2''"
  "jget (manifest_json w) ''starts_encoding'' = JStr ''numpy-packbits-little''"
  "jget (manifest_json w) ''starts_bytes_per_row'' = JInt (int (c_starts_bytes_per_row (w_cfg w)))"
  "jget (manifest_json w) ''vocab_size'' = JInt (int (c_vocab_size (w_cfg w)))"
  "jget (manifest_json w) ''eos_token_id'' = JInt (int (c_eos_token_id (w_cfg w)))"
  "jget (manifest_json w) ''rows_per_shard'' = JInt (int (c_rows_per_shard (w_cfg w)))"
  by (simp_all add: manifest_json_def Let_def jfield_def)

lemma manifest_counter_fields:
  "jget (manifest_json w) ''rows'' = JInt (int (w_rows w))"
  "jget (manifest_json w) ''input_tokens'' = JInt (int (w_rows w * c_sequence_length (w_cfg w)))"
  "jget (manifest_json w) ''valid_loss_tokens'' = JInt (int (w_valid_loss_tokens w))"
  "jget (manifest_json w) ''masked_boundary_labels'' = JInt (int (w_masked_boundary_labels w))"
  "jget (manifest_json w) ''documents'' = JInt (int (w_documents w))"
  "jget (manifest_json w) ''source_content_tokens'' = JInt (int (w_source_content_tokens w))"
  "jget (manifest_json w) ''stream_tokens''
     = JInt (int (w_source_content_tokens w) + int (w_documents w))"
  "jget (manifest_json w) ''unused_as_input_tail_tokens'' = JInt (int (w_source_content_tokens w)
     + int (w_documents w) - int (w_rows w * c_sequence_length (w_cfg w)))"
  "jget (manifest_json w) ''unstored_tail_tokens'' = JInt (int (w_source_content_tokens w)
     + int (w_documents w) -
     (if w_rows w \<noteq> 0 then int (w_rows w * c_sequence_length (w_cfg w)) + 1 else 0))"
  by (simp_all add: manifest_json_def Let_def jfield_def)

lemma manifest_identity_fields:
  "jget (manifest_json w) ''tokenizer_manifest_sha256'' = JStr (c_tokenizer_manifest_sha256 (w_cfg w))"
  "jget (manifest_json w) ''curation_policy_sha256'' = json_opt_str (c_curation_policy_sha256 (w_cfg w))"
  "jget (manifest_json w) ''selection_manifest_sha256''
     = json_opt_str (c_selection_manifest_sha256 (w_cfg w))"
  "jget (manifest_json w) ''construction_seed'' = json_opt_int (c_construction_seed (w_cfg w))"
  "jget (manifest_json w) ''construction_last_source_cursor'' = json_opt (w_source_cursor w)"
  "jget (manifest_json w) ''shards'' = JList (w_shards w)"
  "is_jobj (manifest_json w)"
  by (simp_all add: manifest_json_def Let_def jfield_def)

lemmas manifest_fields =
  manifest_header_fields manifest_counter_fields manifest_identity_fields

lemma parse_layout_manifest:
  assumes "wf_config (w_cfg w)"
    and "int (w_rows w * c_sequence_length (w_cfg w))
       \<le> int (w_source_content_tokens w) + int (w_documents w)"
    and "w_rows w \<noteq> 0 \<Longrightarrow> int (w_rows w * c_sequence_length (w_cfg w)) + 1
       \<le> int (w_source_content_tokens w) + int (w_documents w)"
  shows "parse_layout (manifest_json w) = Inr ()"
proof -
  have req: "list_all (\<lambda>k. nonnegative_int (jget (manifest_json w) k)) required_nonnegative"
    using assms(2,3) by (simp add: required_nonnegative_def nonnegative_int_def manifest_fields)
  show ?thesis
    using assms(1) req
    unfolding parse_layout_def Let_def
    by (simp add: manifest_fields c_tokens_per_row_def c_starts_bytes_per_row_def wf_config_def
        positive_int_def domain_order_def nat_add_distrib)
qed

lemma parse_counters_manifest:
  assumes "wf_config (w_cfg w)"
    and "w_valid_loss_tokens w + w_masked_boundary_labels w = w_rows w * c_sequence_length (w_cfg w)"
    and "w_rows w * c_sequence_length (w_cfg w) \<le> w_source_content_tokens w + w_documents w"
    and "w_source_content_tokens w + w_documents w
       \<le> w_rows w * c_sequence_length (w_cfg w) + c_sequence_length (w_cfg w)"
    and "case w_source_cursor w of None \<Rightarrow> True | Some v \<Rightarrow> is_jobj v"
  shows "parse_counters (manifest_json w) = Inr ()"
proof -
  have "rbind (optional_sha256 (json_opt_str s)) f = f s"
    if "case s of None \<Rightarrow> True | Some t \<Rightarrow> is_sha256 t" for s and f :: "string option \<Rightarrow> unit res"
    using that by (cases s) (simp_all add: json_opt_str_def optional_sha256_def)
  then show ?thesis
    using assms unfolding parse_counters_def Let_def
    by (cases "w_source_cursor w") (auto simp: manifest_fields wf_config_def json_opt_def
        canonical_json_mapping_def of_nat_add [symmetric] of_nat_mult [symmetric]
        simp del: of_nat_add of_nat_mult)
qed

end
