(* ===== verification/PackedValid.thy ===== *)
theory PackedValid
  imports PackedManifest
begin

text \<open>
  Every directory a writer finishes is accepted by \<^verbatim>\<open>_parse_packed_manifest\<close> and by
  \<^verbatim>\<open>validate_packed_manifest\<close>, with and without checksums, and the recorded label counters
  are the ones the validator recomputes from the payload.
\<close>

section \<open>Parsing the writer's manifest\<close>

lemma enumerate_map: "enumerate 0 (map f [0..<k]) = map (\<lambda>i. (i, f i)) [0..<k]"
  by (rule nth_equalityI) (simp_all add: nth_enumerate_eq)

text \<open>The parsed form of shard \<open>i\<close> of the specification.\<close>

definition spec_shard :: "wconfig \<Rightarrow> nat list \<Rightarrow> bool list \<Rightarrow> nat \<Rightarrow> nat \<Rightarrow> shard" where
  "spec_shard c S B R i =
     (let n = c_rows_per_shard c; a = i * n; b = min (Suc i * n) R; T = c_sequence_length c in
      \<lparr>sh_index = i, sh_rows = b - a, sh_tokens_path = shard_name i Tokens,
       sh_starts_path = shard_name i Starts,
       sh_tokens_sha256 = sha256 (rows_token_bytes T S a b),
       sh_starts_sha256 = sha256 (rows_start_bytes T B a b)\<rparr>)"

lemma shard_json_fields:
  "is_jobj (shard_json c S B i a b)"
  "jget (shard_json c S B i a b) ''index'' = JInt (int i)"
  "jget (shard_json c S B i a b) ''rows'' = JInt (int (b - a))"
  "is_jobj (jget (shard_json c S B i a b) ''tokens'')"
  "is_jobj (jget (shard_json c S B i a b) ''starts'')"
  "jget (jget (shard_json c S B i a b) ''tokens'') ''path'' = JStr (shard_name i Tokens)"
  "jget (jget (shard_json c S B i a b) ''starts'') ''path'' = JStr (shard_name i Starts)"
  "jget (jget (shard_json c S B i a b) ''tokens'') ''bytes''
     = JInt (int ((b - a) * c_tokens_per_row c * 2))"
  "jget (jget (shard_json c S B i a b) ''starts'') ''bytes''
     = JInt (int ((b - a) * c_starts_bytes_per_row c))"
  "jget (jget (shard_json c S B i a b) ''tokens'') ''sha256''
     = JStr (sha256 (rows_token_bytes (c_sequence_length c) S a b))"
  "jget (jget (shard_json c S B i a b) ''starts'') ''sha256''
     = JStr (sha256 (rows_start_bytes (c_sequence_length c) B a b))"
  by (simp_all add: shard_json_def shard_entry_def payload_entry_def jfield_def)

lemma shard_bounds:
  assumes "1 \<le> n" and "i < shard_count n R"
  shows "1 \<le> min (Suc i * n) R - i * n" "min (Suc i * n) R - i * n \<le> n"
    "i + 1 < shard_count n R \<Longrightarrow> min (Suc i * n) R - i * n = n"
  using shard_start_less [OF assms] shard_start_less [OF assms(1), of "Suc i" R] assms(1)
  by (auto simp: min_def)

lemma parse_shard_json:
  assumes "w_cfg w = c" and "1 \<le> b - a" and "b - a \<le> c_rows_per_shard c"
    and "i + 1 < count \<Longrightarrow> b - a = c_rows_per_shard c"
  shows "parse_shard (manifest_json w) count i (shard_json c S B i a b)
     = Inr \<lparr>sh_index = i, sh_rows = b - a, sh_tokens_path = shard_name i Tokens,
       sh_starts_path = shard_name i Starts,
       sh_tokens_sha256 = sha256 (rows_token_bytes (c_sequence_length c) S a b),
       sh_starts_sha256 = sha256 (rows_start_bytes (c_sequence_length c) B a b)\<rparr>"
proof -
  obtain k where k: "b - a = k" by simp
  show ?thesis
    using assms unfolding parse_shard_def Let_def shard_json_fields manifest_fields k
    by (auto simp: is_sha256_sha256 shard_json_fields)
qed

lemma parse_shard_spec:
  assumes "wf_config (w_cfg w)" and "i < shard_count (c_rows_per_shard (w_cfg w)) R"
  shows "parse_shard (manifest_json w) (shard_count (c_rows_per_shard (w_cfg w)) R) i
      (shard_json (w_cfg w) S B i (i * c_rows_per_shard (w_cfg w))
         (min (Suc i * c_rows_per_shard (w_cfg w)) R))
     = Inr (spec_shard (w_cfg w) S B R i)"
proof -
  have "1 \<le> c_rows_per_shard (w_cfg w)" using assms(1) by (simp add: wf_config_def)
  note bd = shard_bounds [OF this assms(2)]
  show ?thesis unfolding spec_shard_def Let_def by (rule parse_shard_json [OF refl bd])
qed

lemma upt_split: "a \<le> b \<Longrightarrow> b \<le> c \<Longrightarrow> [a..<c] = [a..<b] @ [b..<c]"
  by (metis le_add_diff_inverse upt_add_eq_append)

text \<open>The bounds of the shards partition the rows.\<close>

lemma shard_upt_concat:
  assumes "1 \<le> n"
  shows "concat (map (\<lambda>i. [i * n..<min (Suc i * n) R]) [0..<k]) = [0..<min (k * n) R]"
proof (induction k)
  case (Suc k)
  have "[0..<min (Suc k * n) R] = [0..<min (k * n) R] @ [min (k * n) R..<min (Suc k * n) R]"
    by (rule upt_split) auto
  moreover have "[min (k * n) R..<min (Suc k * n) R] = [k * n..<min (Suc k * n) R]"
    by (cases "k * n \<le> R") (auto simp: min_def)
  ultimately show ?case using Suc by simp
qed simp

lemma shard_count_covers: "1 \<le> n \<Longrightarrow> R \<le> shard_count n R * n"
proof -
  assume "1 \<le> n"
  then have "R + n - 1 < n + ((R + n - 1) div n) * n"
    by (intro dividend_less_div_times) simp
  then have "R \<le> ((R + n - 1) div n) * n" by linarith
  then show ?thesis by (simp add: shard_count_def)
qed

lemma shard_rows_concat:
  "1 \<le> n \<Longrightarrow> concat (map (\<lambda>i. [i * n..<min (Suc i * n) R]) [0..<shard_count n R]) = [0..<R]"
  using shard_upt_concat [of n R "shard_count n R"] shard_count_covers [of n R] by (simp add: min_def)

lemma sum_shard_rows:
  assumes "1 \<le> c_rows_per_shard c"
  shows "sum_list (map sh_rows (map (spec_shard c S B R) [0..<shard_count (c_rows_per_shard c) R])) = R"
proof -
  have "sum_list (map sh_rows (map (spec_shard c S B R) xs))
      = length (concat (map (\<lambda>i. [i * c_rows_per_shard c..<min (Suc i * c_rows_per_shard c) R]) xs))" for xs
    by (induction xs) (simp_all add: spec_shard_def Let_def)
  then show ?thesis using shard_rows_concat [OF assms, of R] by simp
qed

lemma masked_count_le:
  assumes "\<And>r. r < R \<Longrightarrow> r * T + T < length B"
  shows "masked_count T B R \<le> R * T"
proof -
  have "sum_list (map (\<lambda>r. row_masked (row_starts T B r)) xs) \<le> length xs * T"
    if "set xs \<subseteq> {..<R}" for xs
    using that
  proof (induction xs)
    case (Cons r xs)
    then have "row_masked (row_starts T B r) \<le> T"
      using assms by (intro row_masked_le length_row_starts) simp
    with Cons show ?case by simp
  qed simp
  from this [of "[0..<R]"] show ?thesis by (simp add: masked_count_def atLeast0LessThan)
qed

lemma packed_row_in_stream: "0 < T \<Longrightarrow> r < (L - 1) div T \<Longrightarrow> r * T + T < (L::nat)"
proof -
  assume T: "0 < T" and r: "r < (L - 1) div T"
  then have "Suc r * T \<le> (L - 1) div T * T" by (intro mult_le_mono1) simp
  also have "\<dots> \<le> L - 1" by (rule div_times_less_eq_dividend)
  finally have "Suc r * T \<le> L - 1" .
  moreover have "0 < L - 1" using r by (cases "L - 1 = 0") auto
  ultimately show ?thesis by simp
qed

lemma packed_state_counts:
  fixes cursor
  assumes c: "wf_config c" and docs: "docs_ok (c_vocab_size c) docs"
  defines "w \<equiv> packed_state c docs cursor" and "T \<equiv> c_sequence_length c"
  shows "w_cfg w = c" "w_source_cursor w = cursor"
    "w_source_content_tokens w + w_documents w = length (stream_tokens (c_eos_token_id c) docs)"
    "w_valid_loss_tokens w + w_masked_boundary_labels w = w_rows w * T"
    "w_rows w * T \<le> w_source_content_tokens w + w_documents w"
    "w_rows w \<noteq> 0 \<Longrightarrow> w_rows w * T + 1 \<le> w_source_content_tokens w + w_documents w"
    "w_source_content_tokens w + w_documents w \<le> w_rows w * T + T"
proof -
  let ?S = "stream_tokens (c_eos_token_id c) docs" and ?B = "stream_starts docs"
  have T: "0 < T" using c by (simp add: T_def wf_config_def)
  show len: "w_source_content_tokens w + w_documents w = length ?S"
    by (simp add: w_def packed_state_def Let_def length_stream_tokens)
  have R: "w_rows w = (length ?S - 1) div T"
    by (simp add: w_def packed_state_def Let_def packed_rows_def T_def)
  show "w_cfg w = c" "w_source_cursor w = cursor"
    by (simp_all add: w_def packed_state_def Let_def fresh_writer_def)
  have "masked_count T ?B (w_rows w) \<le> w_rows w * T"
    using T R length_stream_starts [OF docs, of "c_eos_token_id c"]
    by (intro masked_count_le) (simp add: packed_row_in_stream)
  then show "w_valid_loss_tokens w + w_masked_boundary_labels w = w_rows w * T"
    by (simp add: w_def packed_state_def Let_def packed_rows_def T_def)
  have le: "w_rows w * T \<le> length ?S - 1" unfolding R by (rule div_times_less_eq_dividend)
  then show "w_rows w * T \<le> w_source_content_tokens w + w_documents w" unfolding len by linarith
  show "w_rows w * T + 1 \<le> w_source_content_tokens w + w_documents w" if "w_rows w \<noteq> 0"
  proof -
    from that T have "0 < w_rows w * T" by simp
    with le show ?thesis unfolding len by linarith
  qed
  have "length ?S - 1 < T + (length ?S - 1) div T * T" by (rule dividend_less_div_times [OF T])
  then show "w_source_content_tokens w + w_documents w \<le> w_rows w * T + T"
    unfolding len R by linarith
qed

lemma parse_packed_manifest_spec:
  assumes c: "wf_config c" and docs: "docs_ok (c_vocab_size c) docs"
    and cur: "case cursor of None \<Rightarrow> True | Some v \<Rightarrow> is_jobj v"
  shows "parse_packed_manifest (packed_manifest c docs cursor) =
     (let S = stream_tokens (c_eos_token_id c) docs; R = packed_rows c S in
      Inr (map (spec_shard c S (stream_starts docs) R) [0..<shard_count (c_rows_per_shard c) R]))"
proof -
  let ?w = "packed_state c docs cursor" and ?S = "stream_tokens (c_eos_token_id c) docs"
  let ?R = "packed_rows c ?S" and ?B = "stream_starts docs"
  let ?K = "shard_count (c_rows_per_shard c) ?R" and ?n = "c_rows_per_shard c"
  note ct = packed_state_counts [OF c docs, of cursor]
  have rows: "w_rows ?w = ?R" and shards: "w_shards ?w
      = map (\<lambda>i. shard_json c ?S ?B i (i * ?n) (min (Suc i * ?n) ?R)) [0..<?K]"
    by (simp_all add: packed_state_def packed_shards_def Let_def)
  have layout: "parse_layout (manifest_json ?w) = Inr ()"
    using c ct by (intro parse_layout_manifest) (simp_all del: of_nat_mult of_nat_add add: of_nat_add [symmetric])
  have counters: "parse_counters (manifest_json ?w) = Inr ()"
    using c ct cur by (intro parse_counters_manifest) simp_all
  have "mapM (\<lambda>(i, p). parse_shard (manifest_json ?w) ?K i p)
      (map (\<lambda>i. (i, shard_json c ?S ?B i (i * ?n) (min (Suc i * ?n) ?R))) [0..<?K])
      = Inr (map (\<lambda>(i, p). spec_shard c ?S ?B ?R i)
          (map (\<lambda>i. (i, shard_json c ?S ?B i (i * ?n) (min (Suc i * ?n) ?R))) [0..<?K]))"
    using parse_shard_spec [of ?w _ ?R ?S ?B] c ct(1) by (intro mapM_Inr_map) auto
  then have entries: "mapM (\<lambda>(i, p). parse_shard (manifest_json ?w) (length (w_shards ?w)) i p)
      (enumerate 0 (w_shards ?w)) = Inr (map (spec_shard c ?S ?B ?R) [0..<?K])"
    unfolding shards enumerate_map by (simp add: comp_def)
  have "sum_list (map sh_rows (map (spec_shard c ?S ?B ?R) [0..<?K])) = ?R"
    using c by (intro sum_shard_rows) (simp add: wf_config_def)
  then show ?thesis
    unfolding parse_packed_manifest_def packed_manifest_def Let_def
    by (simp only: layout counters rbind_Inr manifest_fields jlist_of.simps is_jlist.simps entries
        rows jint_of.simps simp_thms if_False not_True_eq_False)
qed

section \<open>Validating the writer's directory\<close>

lemma token_row_bound:
  assumes "eos_stream vocab eos S B" and "vocab \<le> 65536" and "r * T + T < length S"
  shows "length (row_tokens T S r) = T + 1 \<and> (\<forall>t\<in>set (row_tokens T S r). t < 65536)"
proof
  show "length (row_tokens T S r) = T + 1" using assms(3) by (rule length_row_tokens)
  have "t \<in> set S" if "t \<in> set (row_tokens T S r)" for t
    using that unfolding row_tokens_def segment_def by (meson in_set_dropD in_set_takeD)
  with assms(1,2) show "\<forall>t\<in>set (row_tokens T S r). t < 65536"
    unfolding eos_stream_def by (meson less_le_trans)
qed

lemma read_stored_rows:
  assumes st: "eos_stream vocab eos S B" and v: "vocab \<le> 65536"
    and rs: "\<forall>r\<in>{a..<b}. r * T + T < length S"
  shows "map (\<lambda>r. (map_tokens (T + 1) (rows_token_bytes T S a b) r,
                map_starts (ceil8 (T + 1)) (rows_start_bytes T B a b) r)) [0..<b - a]
     = map (stored_row T S B) [a..<b]"
proof (rule nth_equalityI)
  fix i assume "i < length (map (\<lambda>r. (map_tokens (T + 1) (rows_token_bytes T S a b) r,
                map_starts (ceil8 (T + 1)) (rows_start_bytes T B a b) r)) [0..<b - a])"
  then have i: "i < b - a" by simp
  have "map_tokens (T + 1) (concat (map token_row_bytes (map (row_tokens T S) [a..<b]))) i
      = map (row_tokens T S) [a..<b] ! i"
    using i token_row_bound [OF st v] rs by (intro map_tokens_rows) auto
  moreover have "map_starts (ceil8 (T + 1)) (concat (map packbits (map (row_starts T B) [a..<b]))) i
      = packbits (map (row_starts T B) [a..<b] ! i)"
    using i rs st by (intro map_starts_rows) (auto simp: length_row_starts eos_stream_def)
  ultimately show "map (\<lambda>r. (map_tokens (T + 1) (rows_token_bytes T S a b) r,
        map_starts (ceil8 (T + 1)) (rows_start_bytes T B a b) r)) [0..<b - a] ! i
      = map (stored_row T S B) [a..<b] ! i"
    using i by (simp add: rows_token_bytes_def rows_start_bytes_def stored_row_def comp_def)
qed simp

lemma validate_shard_spec:
  assumes c: "wf_config c" and w: "w_cfg w = c"
    and st: "eos_stream (c_vocab_size c) (c_eos_token_id c) S B"
    and rs: "\<forall>r < R. r * c_sequence_length c + c_sequence_length c < length S"
    and i: "i < shard_count (c_rows_per_shard c) R"
    and f: "file_is d c S B (shard_name i) (i * c_rows_per_shard c) (min (Suc i * c_rows_per_shard c) R)"
  shows "validate_shard verify d (manifest_json w) acc
      (spec_shard c S B R i, shard_json c S B i (i * c_rows_per_shard c) (min (Suc i * c_rows_per_shard c) R))
    = (let rs = [i * c_rows_per_shard c..<min (Suc i * c_rows_per_shard c) R];
           k = sum_list (map (\<lambda>r. row_masked (row_starts (c_sequence_length c) B r)) rs) in
       Inr (fst acc + (int (length rs * c_sequence_length c) - int k), snd acc + int k))"
proof -
  let ?T = "c_sequence_length c" and ?a = "i * c_rows_per_shard c" and ?b = "min (Suc i * c_rows_per_shard c) R"
  have n: "1 \<le> c_rows_per_shard c" and T: "0 < ?T" and v: "c_vocab_size c \<le> 65536"
    using c by (simp_all add: wf_config_def)
  have in_range: "\<forall>r\<in>{?a..<?b}. r * ?T + ?T < length S" using rs by simp
  have "?a < R" by (rule shard_start_less [OF n i])
  then have "?b \<noteq> 0" using n by auto
  then obtain b' where b': "?b = Suc b'" by (cases ?b) auto
  then have "b' < R" by linarith
  with rs have "b' * ?T + ?T < length S" by blast
  then have last: "?b * ?T < length S" unfolding b' by simp
  then have lastB: "?b * ?T < length B" using st by (simp add: eos_stream_def)
  have payload: "check_payload d (shard_name i Tokens) ((?b - ?a) * (c_tokens_per_row c * 2))
        (JInt (int ((?b - ?a) * c_tokens_per_row c * 2))) = Inr (rows_token_bytes ?T S ?a ?b)"
      "check_payload d (shard_name i Starts) ((?b - ?a) * c_starts_bytes_per_row c)
        (JInt (int ((?b - ?a) * c_starts_bytes_per_row c))) = Inr (rows_start_bytes ?T B ?a ?b)"
    using f length_rows_token_bytes [OF last, of ?a] length_rows_start_bytes [OF lastB, of ?a]
    by (simp_all add: check_payload_def file_is_def c_tokens_per_row_def c_starts_bytes_per_row_def
        mult.assoc)
  have geometry: "c_tokens_per_row c = ?T + 1" "c_starts_bytes_per_row c = ceil8 (?T + 1)"
    by (simp_all add: c_tokens_per_row_def c_starts_bytes_per_row_def)
  have sem: "semantic_pass (c_vocab_size c) ?T (c_eos_token_id c) acc
      (map (\<lambda>r. (map_tokens (?T + 1) (rows_token_bytes ?T S ?a ?b) r,
                map_starts (ceil8 (?T + 1)) (rows_start_bytes ?T B ?a ?b) r)) [0..<?b - ?a])
    = (let k = sum_list (map (\<lambda>r. row_masked (row_starts ?T B r)) [?a..<?b]) in
       Inr (fst acc + (int (length [?a..<?b] * ?T) - int k), snd acc + int k))"
    unfolding read_stored_rows [OF st v in_range]
    using in_range by (intro semantic_pass_rows [OF st T]) simp
  show ?thesis
    unfolding validate_shard_def Let_def fst_conv snd_conv spec_shard_def shard.simps shard_json_fields
      manifest_fields w jint_of.simps nat_int payload rbind_Inr
    using sem by (simp only: geometry add_diff_cancel_right' Let_def simp_thms if_False)
qed

lemma validate_shards_spec:
  assumes c: "wf_config c" and w: "w_cfg w = c"
    and st: "eos_stream (c_vocab_size c) (c_eos_token_id c) S B"
    and rs: "\<forall>r < R. r * c_sequence_length c + c_sequence_length c < length S"
    and f: "\<And>i. i < shard_count (c_rows_per_shard c) R \<Longrightarrow>
       file_is d c S B (shard_name i) (i * c_rows_per_shard c) (min (Suc i * c_rows_per_shard c) R)"
    and xs: "set xs \<subseteq> {..<shard_count (c_rows_per_shard c) R}"
  shows "foldM (validate_shard verify d (manifest_json w)) acc (map (\<lambda>i. (spec_shard c S B R i,
      shard_json c S B i (i * c_rows_per_shard c) (min (Suc i * c_rows_per_shard c) R))) xs)
    = (let rs = concat (map (\<lambda>i. [i * c_rows_per_shard c..<min (Suc i * c_rows_per_shard c) R]) xs);
           k = sum_list (map (\<lambda>r. row_masked (row_starts (c_sequence_length c) B r)) rs) in
       Inr (fst acc + (int (length rs * c_sequence_length c) - int k), snd acc + int k))"
  using xs
proof (induction xs arbitrary: acc)
  case (Cons i xs)
  then have i: "i < shard_count (c_rows_per_shard c) R" by simp
  from Cons.prems have "set xs \<subseteq> {..<shard_count (c_rows_per_shard c) R}" by simp
  note IH = Cons.IH [OF this]
  show ?case
    unfolding list.map foldM.simps validate_shard_spec [OF c w st rs i f [OF i]] Let_def rbind_Inr IH
    by (simp add: algebra_simps)
qed simp

lemma unknown_files_none:
  assumes "map_of d = map_of (packed_dir c docs cursor)"
  shows "\<not> list_ex (\<lambda>(name, _). name \<notin> set (manifest_name # concat (map (\<lambda>s. [sh_tokens_path s, sh_starts_path s])
      (map (spec_shard c S B R) [0..<shard_count (c_rows_per_shard c)
        (packed_rows c (stream_tokens (c_eos_token_id c) docs))])))) d"
proof -
  let ?K = "shard_count (c_rows_per_shard c) (packed_rows c (stream_tokens (c_eos_token_id c) docs))"
  have "name = manifest_name \<or> (\<exists>i < ?K. \<exists>k. name = shard_name i k)" if "name \<in> fst ` set d" for name
  proof (rule ccontr)
    assume *: "\<not> ?thesis"
    consider i k where "name = shard_name i k" | "\<And>i k. name \<noteq> shard_name i k" by blast
    then have "map_of d name = None"
      using * unfolding assms
      by cases (auto simp: packed_dir_def Let_def map_of_concat_shards map_of_concat_other)
    with that show False by (simp add: map_of_eq_None_iff)
  qed
  moreover have "shard_name i k \<in> set (concat (map (\<lambda>s. [sh_tokens_path s, sh_starts_path s])
      (map (spec_shard c S B R) [0..<?K])))" if "i < ?K" for i k
    using that by (cases k) (force simp: spec_shard_def Let_def)+
  ultimately show ?thesis by (fastforce simp: list_ex_iff)
qed

lemma validate_packed_dir:
  assumes c: "wf_config c" and docs: "docs_ok (c_vocab_size c) docs"
    and cur: "cursor_ok cursor"
    and d: "map_of d = map_of (packed_dir c docs cursor)"
  shows "validate_packed_manifest verify d = Inr (packed_manifest c docs cursor)"
proof -
  let ?S = "stream_tokens (c_eos_token_id c) docs" and ?B = "stream_starts docs"
  let ?R = "packed_rows c ?S" and ?n = "c_rows_per_shard c" and ?T = "c_sequence_length c"
  let ?w = "packed_state c docs cursor" and ?K = "shard_count ?n ?R"
  have n: "1 \<le> ?n" and T: "0 < ?T" and eos: "c_eos_token_id c < c_vocab_size c"
    using c by (simp_all add: wf_config_def)
  have load: "load_json d manifest_name = Inr (packed_manifest c docs cursor)"
    by (simp add: load_json_def d packed_dir_def Let_def packed_manifest_def manifest_fields)
  have files: "file_is d c ?S ?B (shard_name i) (i * ?n) (min (Suc i * ?n) ?R)" if "i < ?K" for i
    using that by (simp add: file_is_def d packed_dir_def Let_def map_of_concat_shards map_of_shard_files)
  have rows: "\<forall>r < ?R. r * ?T + ?T < length ?S"
    using T by (simp add: packed_rows_def packed_row_in_stream)
  note ct = packed_state_counts [OF c docs, of cursor]
  have fold: "foldM (validate_shard verify d (manifest_json ?w)) (0, 0)
      (zip (map (spec_shard c ?S ?B ?R) [0..<?K]) (w_shards ?w))
    = Inr (int (?R * ?T) - int (masked_count ?T ?B ?R), int (masked_count ?T ?B ?R))"
  proof -
    have "w_shards ?w = map (\<lambda>i. shard_json c ?S ?B i (i * ?n) (min (Suc i * ?n) ?R)) [0..<?K]"
      by (simp add: packed_state_def packed_shards_def Let_def)
    then have z: "zip (map (spec_shard c ?S ?B ?R) [0..<?K]) (w_shards ?w) = map (\<lambda>i.
        (spec_shard c ?S ?B ?R i, shard_json c ?S ?B i (i * ?n) (min (Suc i * ?n) ?R))) [0..<?K]"
      by (simp add: zip_map1 zip_map2 zip_same_conv_map comp_def)
    have "set [0..<?K] \<subseteq> {..<?K}" by auto
    from validate_shards_spec [OF c ct(1) eos_stream_docs [OF docs eos] rows files this,
        of verify "(0, 0)"] show ?thesis
      unfolding z shard_rows_concat [OF n] Let_def masked_count_def by simp
  qed
  have valid: "w_valid_loss_tokens ?w = ?R * ?T - masked_count ?T ?B ?R"
      "w_masked_boundary_labels ?w = masked_count ?T ?B ?R" "w_rows ?w = ?R"
    by (simp_all add: packed_state_def Let_def)
  have parse: "parse_packed_manifest (manifest_json ?w) = Inr (map (spec_shard c ?S ?B ?R) [0..<?K])"
    using parse_packed_manifest_spec [OF c docs, of cursor] cur
    by (simp add: packed_manifest_def cursor_ok_def Let_def)
  have counters: "int (w_valid_loss_tokens ?w) = int (?R * ?T) - int (masked_count ?T ?B ?R)"
    using ct(4) valid by simp
  show ?thesis
    unfolding validate_packed_manifest_def load rbind_Inr packed_manifest_def parse Let_def
    using unknown_files_none [OF d, of ?S ?B ?R] fold counters valid(2)
    by (simp only: if_False manifest_fields jlist_of.simps rbind_Inr prod.case py_eq_JInt_JInt
        simp_thms)
qed

end
