(* ===== verification/PackedResume.thy ===== *)
theory PackedResume
  imports PackedValid
begin

text \<open>
  Opening a writer on a directory that is not empty (\<^verbatim>\<open>PackedShardWriter.__init__\<close> with
  \<^verbatim>\<open>resume\<close>): \<^verbatim>\<open>_remove_stale_journal_temporaries\<close>,
  \<^verbatim>\<open>_resume_finished_manifest\<close> and \<^verbatim>\<open>_resume_from_journal\<close>. The journal is read back
  field by field, committed shards are checked against their sizes and digests, the open shard is
  rolled back to its journalled prefix, and every other generated file is deleted.
\<close>

section \<open>Committed state\<close>

definition stale_prefix :: "string" where
  "stale_prefix = ''.'' @ journal_name @ ''.''"

definition is_stale :: "string \<Rightarrow> bool" where
  "is_stale p \<longleftrightarrow> take (length stale_prefix) p = stale_prefix"

definition remove_stale :: "dir \<Rightarrow> dir" where
  "remove_stale d = filter (\<lambda>(p, _). \<not> is_stale p) d"

definition row_width :: "wconfig \<Rightarrow> kind \<Rightarrow> nat" where
  "row_width c k = (case k of Tokens \<Rightarrow> c_tokens_per_row c * 2 | Starts \<Rightarrow> c_starts_bytes_per_row c)"

text \<open>\<^verbatim>\<open>path.is_file() and path.stat().st_size == expected\<close>, for a data file.\<close>

definition sized_file :: "dir \<Rightarrow> string \<Rightarrow> nat \<Rightarrow> bool" where
  "sized_file d p n \<longleftrightarrow> (case map_of d p of Some (Bytes b) \<Rightarrow> length b = n | _ \<Rightarrow> False)"

text \<open>One payload of a completed shard in the journal, and one completed shard.\<close>

definition resume_payload :: "wconfig \<Rightarrow> dir \<Rightarrow> nat \<Rightarrow> json \<Rightarrow> kind \<Rightarrow> unit res" where
  "resume_payload c d i shard k =
     (let payload = jget shard (kind_name k); name = shard_name i k;
          expected_bytes = c_rows_per_shard c * row_width c k in
      if \<not> is_jobj payload \<or> \<not> py_eq (jget payload ''path'') (JStr name)
      then Inl (ValueError ''Invalid shard path in packing journal'')
      else if \<not> py_eq (jget payload ''bytes'') (JInt (int expected_bytes))
      then Inl (ValueError ''Invalid shard byte count in packing journal'')
      else rbind (require_sha256 (jget payload ''sha256'')) (\<lambda>expected_hash.
        if \<not> sized_file d name expected_bytes
        then Inl (IOError ''Missing or truncated committed packing shard'')
        else if sha256 (file_bytes d name) \<noteq> expected_hash
        then Inl (IOError ''Committed packing shard checksum mismatch'')
        else Inr ()))"

definition resume_shard :: "wconfig \<Rightarrow> dir \<Rightarrow> nat \<times> json \<Rightarrow> json res" where
  "resume_shard c d entry = (let i = fst entry; shard = snd entry in
     if \<not> is_jobj shard \<or> \<not> py_eq (jget shard ''index'') (JInt (int i))
     then Inl (ValueError ''Packing journal shard indices must be contiguous'')
     else if \<not> py_eq (jget shard ''rows'') (JInt (int (c_rows_per_shard c)))
     then Inl (ValueError ''Only full completed shards may appear in a packing journal'')
     else rbind (resume_payload c d i shard Tokens) (\<lambda>_.
          rbind (resume_payload c d i shard Starts) (\<lambda>_. Inr shard)))"

text \<open>\<^verbatim>\<open>_state_integer\<close>.\<close>

definition state_integer :: "json \<Rightarrow> string \<Rightarrow> nat res" where
  "state_integer state key =
     (let v = jget state key in
      if \<not> is_jint v \<or> jint_of v < 0
      then Inl (ValueError ''Invalid non-negative integer in packing journal'')
      else Inr (nat (jint_of v)))"

definition carry_token_ok :: "wconfig \<Rightarrow> json \<Rightarrow> bool" where
  "carry_token_ok c v \<longleftrightarrow> is_jint v \<and> 0 \<le> jint_of v \<and> jint_of v < int (c_vocab_size c)"

fun jbool_of :: "json \<Rightarrow> bool" where
  "jbool_of (JBool b) = b"
| "jbool_of _ = False"

definition optional_cursor :: "json \<Rightarrow> json option res" where
  "optional_cursor v =
     (if v = JNull then Inr None else rbind (canonical_json_mapping v) (\<lambda>c. Inr (Some c)))"

text \<open>The journal's header: format, identity, and the state it carries.\<close>

definition journal_state :: "wconfig \<Rightarrow> dir \<Rightarrow> json res" where
  "journal_state c d = rbind (load_json d journal_name) (\<lambda>journal.
     if \<not> py_eq (jget journal ''format'') (JStr ''packed-shard-construction-journal'')
     then Inl (ValueError ''Unsupported packing journal format'')
     else if \<not> py_eq (jget journal ''format_version'') (JInt 1)
     then Inl (ValueError ''Unsupported packing journal version'')
     else if \<not> py_eq (jget journal ''identity'') (identity c)
     then Inl (ValueError ''Packed construction identity mismatch'')
     else if \<not> is_jobj (jget journal ''state'') then Inl (ValueError ''Invalid state'')
     else Inr (jget journal ''state''))"

definition resume_shards :: "wconfig \<Rightarrow> dir \<Rightarrow> json \<Rightarrow> json list res" where
  "resume_shards c d state =
     (if \<not> is_jlist (jget state ''completed_shards'')
      then Inl (ValueError ''Invalid completed_shards'')
      else mapM (resume_shard c d) (enumerate 0 (jlist_of (jget state ''completed_shards''))))"

text \<open>Counters, carry buffers and cursor, on a fresh writer.\<close>

definition resume_counters :: "wconfig \<Rightarrow> json \<Rightarrow> writer \<Rightarrow> writer res" where
  "resume_counters c state w =
     rbind (state_integer state ''documents'') (\<lambda>documents.
     rbind (state_integer state ''source_content_tokens'') (\<lambda>content.
     rbind (state_integer state ''rows'') (\<lambda>rws.
     rbind (state_integer state ''valid_loss_tokens'') (\<lambda>valid.
     rbind (state_integer state ''masked_boundary_labels'') (\<lambda>masked.
     if valid + masked \<noteq> rws * c_sequence_length c
     then Inl (ValueError ''Packing journal loss counters are inconsistent'')
     else let ct = jget state ''carry_tokens''; cs = jget state ''carry_starts'';
              tl = jlist_of ct; sl = jlist_of cs in
     if \<not> is_jlist ct \<or> \<not> is_jlist cs then Inl (ValueError ''Invalid carry buffers'')
     else if length tl \<noteq> length sl \<or> c_sequence_length c < length tl
     then Inl (ValueError ''Packing journal carry buffers have inconsistent lengths'')
     else if \<not> list_all (carry_token_ok c) tl
     then Inl (ValueError ''Packing journal contains an invalid carry token'')
     else if \<not> list_all is_jbool sl
     then Inl (ValueError ''Packing journal contains an invalid carry start bit'')
     else if content + documents \<noteq> rws * c_sequence_length c + length tl
     then Inl (ValueError ''Packing journal stream counters do not match its carry'')
     else rbind (optional_cursor (jget state ''source_cursor'')) (\<lambda>cursor.
       Inr (w\<lparr>w_documents := documents, w_source_content_tokens := content, w_rows := rws,
              w_valid_loss_tokens := valid, w_masked_boundary_labels := masked,
              w_tokens := map (\<lambda>v. nat (jint_of v)) tl, w_starts := map jbool_of sl,
              w_buffer_offset := 0, w_source_cursor := cursor\<rparr>)))))))"

text \<open>The generated files of the directory by identity; any other name but the journal stops.\<close>

definition scan_step ::
  "(nat \<times> kind \<times> bool) list \<Rightarrow> string \<times> content \<Rightarrow> (nat \<times> kind \<times> bool) list res" where
  "scan_step generated entry = (case generated_shard (fst entry) of
       None \<Rightarrow> if fst entry \<noteq> journal_name
               then Inl (FileExistsError ''Unknown file prevents fail-closed packing resume'')
               else Inr generated
     | Some parsed \<Rightarrow> if parsed \<in> set generated
               then Inl (ValueError ''Duplicate generated packing path identity'')
               else Inr (parsed # generated))"

definition check_committed :: "(nat \<times> kind \<times> bool) list \<Rightarrow> nat \<times> kind \<Rightarrow> unit res" where
  "check_committed generated ik =
     (if (fst ik, snd ik, True) \<notin> set generated
      then Inl (IOError ''Committed packing shard file is missing'')
      else if (fst ik, snd ik, False) \<in> set generated
      then Inl (ValueError ''Committed packing shard also has a temporary part'')
      else Inr ())"

text \<open>The open shard: the one file that has it is rolled back to its committed prefix.\<close>

definition recover_part ::
  "wconfig \<Rightarrow> nat \<Rightarrow> nat \<Rightarrow> json \<Rightarrow> kind \<Rightarrow> dir \<Rightarrow> (byte list \<times> dir) res" where
  "recover_part c i rws open_state k d =
     (let payload = jget open_state (kind_name k); expected_bytes = rws * row_width c k;
          part = part_name i k; final = shard_name i k in
      if \<not> is_jobj payload \<or> \<not> py_eq (jget payload ''path'') (JStr part)
      then Inl (ValueError ''Invalid open path in packing journal'')
      else if \<not> py_eq (jget payload ''bytes'') (JInt (int expected_bytes))
      then Inl (ValueError ''Invalid open byte count in packing journal'')
      else rbind (require_sha256 (jget payload ''sha256'')) (\<lambda>expected_hash.
        case filter (file_exists d) [part, final] of
          [candidate] \<Rightarrow>
            let b = file_bytes d candidate; prefix = take expected_bytes b in
            if length b < expected_bytes
            then Inl (IOError ''Recoverable packing shard is truncated'')
            else if sha256 prefix \<noteq> expected_hash
            then Inl (IOError ''Open packing shard checksum mismatch'')
            else Inr (prefix, AList.update part (Bytes prefix)
                   (if candidate \<noteq> part then replace_file candidate part d else d))
        | _ \<Rightarrow> Inl (IOError ''Expected exactly one recoverable open shard'')))"

definition resume_open :: "wconfig \<Rightarrow> json \<Rightarrow> writer \<Rightarrow> writer res" where
  "resume_open c open_state w =
     (let i = length (w_shards w); v = jget open_state ''rows'' in
      if \<not> is_jobj open_state then Inl (ValueError ''Invalid open_shard in packing journal'')
      else if \<not> py_eq (jget open_state ''index'') (JInt (int i))
      then Inl (ValueError ''Open packing shard index is not contiguous'')
      else if \<not> (is_jint v \<and> 1 \<le> jint_of v \<and> jint_of v < int (c_rows_per_shard c))
      then Inl (ValueError ''Invalid open packing shard row count'')
      else let rws = nat (jint_of v) in
      if w_rows w \<noteq> i * c_rows_per_shard c + rws
      then Inl (ValueError ''Open packing shard rows disagree with total row counter'')
      else rbind (recover_part c i rws open_state Tokens (w_dir w)) (\<lambda>(dt, d1).
           rbind (recover_part c i rws open_state Starts d1) (\<lambda>(ds, d2).
           Inr (w\<lparr>w_rows_in_open_shard := rws, w_dir := d2,
                  w_temporary_tokens := Some (part_name i Tokens),
                  w_temporary_starts := Some (part_name i Starts),
                  w_tokens_handle := Some (part_name i Tokens),
                  w_starts_handle := Some (part_name i Starts),
                  w_tokens_digest := Some dt, w_starts_digest := Some ds,
                  w_open_shard_dirty := False\<rparr>))))"

definition shard_paths :: "json \<Rightarrow> string list" where
  "shard_paths shard = map (\<lambda>k. jstr_of (jget (jget shard (kind_name k)) ''path'')) [Tokens, Starts]"

definition remove_uncommitted :: "string list \<Rightarrow> dir \<Rightarrow> dir" where
  "remove_uncommitted keep d = filter (\<lambda>(p, _). generated_shard p = None \<or> p \<in> set keep) d"

definition resume_from_journal :: "wconfig \<Rightarrow> dir \<Rightarrow> writer res" where
  "resume_from_journal c d =
     rbind (journal_state c d) (\<lambda>state.
     rbind (resume_shards c d state) (\<lambda>shards.
     rbind (resume_counters c state ((fresh_writer c)\<lparr>w_shards := shards, w_dir := d\<rparr>)) (\<lambda>w.
     rbind (foldM scan_step [] d) (\<lambda>generated.
     rbind (mapM (check_committed generated)
              (concat (map (\<lambda>i. [(i, Tokens), (i, Starts)]) [0..<length shards]))) (\<lambda>_.
     let committed = concat (map shard_paths shards); i = length shards in
     rbind (if jget state ''open_shard'' = JNull
            then if w_rows w \<noteq> length shards * c_rows_per_shard c
                 then Inl (ValueError ''Packing journal total rows disagree with completed shards'')
                 else Inr (w, committed)
            else rbind (resume_open c (jget state ''open_shard'') w) (\<lambda>w'.
                 Inr (w', committed @ [part_name i Tokens, part_name i Starts]))) (\<lambda>(w', keep).
     Inr (w'\<lparr>w_dir := remove_uncommitted keep (w_dir w')\<rparr>)))))))"

section \<open>A finished directory\<close>

definition found_identity :: "json \<Rightarrow> json" where
  "found_identity m = JObj [
     (''output_format_version'', jget m ''format_version''),
     (''domain'', jget m ''domain''), (''split'', jget m ''split''),
     (''sequence_length'', jget m ''sequence_length''),
     (''vocab_size'', jget m ''vocab_size''), (''eos_token_id'', jget m ''eos_token_id''),
     (''rows_per_shard'', jget m ''rows_per_shard''),
     (''tokenizer_manifest_sha256'', jget m ''tokenizer_manifest_sha256''),
     (''curation_policy_sha256'', jget m ''curation_policy_sha256''),
     (''selection_manifest_sha256'', jget m ''selection_manifest_sha256''),
     (''construction_seed'', jget m ''construction_seed'')]"

definition check_finished_shard :: "wconfig \<Rightarrow> dir \<Rightarrow> shard \<times> json \<Rightarrow> unit res" where
  "check_finished_shard c d entry =
     (let shard = fst entry; payload = snd entry;
          check = (\<lambda>path k.
            let expected_bytes = sh_rows shard * row_width c k in
            if \<not> py_eq (jget (jget payload (kind_name k)) ''bytes'') (JInt (int expected_bytes))
            then Inl (ValueError ''Invalid completed byte count'')
            else if \<not> sized_file d path expected_bytes
            then Inl (IOError ''Missing or truncated completed packing shard'')
            else Inr ()) in
      rbind (check (sh_tokens_path shard) Tokens) (\<lambda>_. check (sh_starts_path shard) Starts))"

definition resume_finished :: "wconfig \<Rightarrow> dir \<Rightarrow> writer res" where
  "resume_finished c d =
     rbind (load_json d manifest_name) (\<lambda>m.
     rbind (parse_packed_manifest m) (\<lambda>parsed.
     if \<not> py_eq (found_identity m) (identity c)
     then Inl (ValueError ''Packed construction identity mismatch for completed output'')
     else let payloads = jlist_of (jget m ''shards'');
              allowed = manifest_name # journal_name #
                concat (map (\<lambda>s. [sh_tokens_path s, sh_starts_path s]) parsed);
              num = (\<lambda>k. nat (jint_of (jget m k))) in
     rbind (mapM (check_finished_shard c d) (zip parsed payloads)) (\<lambda>_.
     if list_ex (\<lambda>(p, _). p \<notin> set allowed) d
     then Inl (ValueError ''Completed packed output contains unknown files'')
     else rbind (optional_cursor (jget m ''construction_last_source_cursor'')) (\<lambda>cursor.
       Inr ((fresh_writer c)\<lparr>w_shards := payloads, w_documents := num ''documents'',
         w_source_content_tokens := num ''source_content_tokens'', w_rows := num ''rows'',
         w_valid_loss_tokens := num ''valid_loss_tokens'',
         w_masked_boundary_labels := num ''masked_boundary_labels'',
         w_source_cursor := cursor, w_finished := True, w_resumed := True,
         w_dir := unlink_file journal_name d\<rparr>)))))"

section \<open>The constructor\<close>

definition open_writer :: "bool \<Rightarrow> wconfig \<Rightarrow> dir \<Rightarrow> writer res" where
  "open_writer resume c d0 =
     (let d = (if resume then remove_stale d0 else d0) in
      if file_exists d manifest_name
      then if \<not> resume then Inl (FileExistsError ''already complete'') else resume_finished c d
      else if d \<noteq> []
      then if \<not> resume \<or> \<not> file_exists d journal_name
           then Inl (FileExistsError ''Refusing to write into non-empty packed-shard directory'')
           else rbind (resume_from_journal c d) (\<lambda>w. Inr (w\<lparr>w_resumed := True\<rparr>))
      else write_journal None (fresh_writer c))"

lemma open_writer_empty: "open_writer resume c [] = create_writer c"
  by (simp add: open_writer_def create_writer_def remove_stale_def file_exists_def)

section \<open>Leaving the writer\<close>

text \<open>
  \<^verbatim>\<open>_close_temporary_shard\<close> and \<^verbatim>\<open>__exit__\<close>: on an exception the handles are closed and the
  bytes on disk stay as they are; otherwise the construction is finished.
\<close>

definition close_temporary_shard :: "bool \<Rightarrow> writer \<Rightarrow> writer" where
  "close_temporary_shard remove w =
     (let unlink = (\<lambda>p d. case p of None \<Rightarrow> d | Some q \<Rightarrow> unlink_file q d) in
      w\<lparr>w_tokens_handle := None, w_starts_handle := None,
        w_dir := (if remove then unlink (w_temporary_starts w) (unlink (w_temporary_tokens w) (w_dir w))
                  else w_dir w)\<rparr>)"

definition exit_writer :: "bool \<Rightarrow> writer \<Rightarrow> writer res" where
  "exit_writer raised w =
     (if \<not> raised \<and> \<not> w_finished w then rbind (finish None w) (\<lambda>(m, w'). Inr w')
      else if raised then Inr (close_temporary_shard False w)
      else Inr w)"

section \<open>What a crash leaves behind\<close>

text \<open>
  After a journal was written with \<open>k\<close> shards completed, the writer touches only data files of
  index \<open>k\<close> and above (it appends to the part file of a shard that has no final file yet,
  possibly tearing the write, and renames a part file to its final name) and the temporaries of later journals. A crash leaves the directory in
  any state these steps reach.
\<close>

inductive disk_step :: "nat \<Rightarrow> dir \<Rightarrow> dir \<Rightarrow> bool" for k :: nat where
  append: "k \<le> i \<Longrightarrow> i < 1000000 \<Longrightarrow> map_of d (shard_name i kd) = None \<Longrightarrow>
    disk_step k d (append_file (part_name i kd) b d)"
| rename: "k \<le> i \<Longrightarrow> i < 1000000 \<Longrightarrow>
    disk_step k d (replace_file (part_name i kd) (shard_name i kd) d)"
| journal_temporary: "is_stale p \<Longrightarrow> disk_step k d (AList.update p c d)"

inductive_cases disk_stepE: "disk_step k d d'"

end
