(* ===== verification/PackedRecovery.thy ===== *)
theory PackedRecovery
  imports PackedResume
begin

text \<open>
  Crash consistency of the writer. A directory that held a committed journal and then went
  through any sequence of disk steps (theory PackedResume) still holds the committed state
  (\<open>committed\<close>, an invariant of the step relation), and opening a writer on it yields the writer
  of the checkpoint, buffer compacted, with every later byte rolled back.
\<close>

section \<open>Directories that still hold a checkpoint\<close>

text \<open>A writer whose state is the one its journal records.\<close>

definition checkpointed :: "wconfig \<Rightarrow> nat list list \<Rightarrow> writer \<Rightarrow> bool" where
  "checkpointed c docs w \<longleftrightarrow> fed c docs w \<and> length (w_shards w) < 1000000 \<and>
     \<not> w_open_shard_dirty w \<and>
     (\<exists>j. map_of (w_dir w) journal_name = Some (JsonFile j) \<and>
        journal_payload (w_source_cursor w) w = Inr j) \<and>
     (case w_source_cursor w of None \<Rightarrow> True | Some v \<Rightarrow> is_jobj v \<and> sort_keys v = v)"

definition recoverable :: "writer \<Rightarrow> dir \<Rightarrow> kind \<Rightarrow> bool" where
  "recoverable w d kd \<longleftrightarrow> (let k = length (w_shards w) in
     \<exists>b rest. map_of (w_dir w) (part_name k kd) = Some (Bytes b) \<and>
       (map_of d (part_name k kd) = Some (Bytes (b @ rest)) \<and> map_of d (shard_name k kd) = None \<or>
        map_of d (shard_name k kd) = Some (Bytes (b @ rest)) \<and> map_of d (part_name k kd) = None))"

definition known_name :: "nat \<Rightarrow> string \<Rightarrow> bool" where
  "known_name k p \<longleftrightarrow> p = journal_name \<or> is_stale p \<or>
     (\<exists>i kd. i < 1000000 \<and> (p = shard_name i kd \<or> p = part_name i kd \<and> k \<le> i))"

definition committed :: "writer \<Rightarrow> dir \<Rightarrow> bool" where
  "committed w d \<longleftrightarrow>
     map_of d journal_name = map_of (w_dir w) journal_name \<and> distinct (map fst d) \<and>
     (\<forall>i<length (w_shards w). \<forall>kd. map_of d (shard_name i kd) = map_of (w_dir w) (shard_name i kd)) \<and>
     (0 < w_rows_in_open_shard w \<longrightarrow> (\<forall>kd. recoverable w d kd)) \<and>
     (\<forall>p x. map_of d p = Some x \<longrightarrow> known_name (length (w_shards w)) p)"

lemma not_stale [simp]:
  "\<not> is_stale journal_name" "\<not> is_stale manifest_name" "\<not> is_stale (shard_name i k)"
  "\<not> is_stale (part_name i k)"
  by (simp_all add: is_stale_def stale_prefix_def journal_name_def manifest_name_def shard_name_def
      part_name_def)

lemma known_nameI [simp]:
  "known_name k journal_name" "is_stale p \<Longrightarrow> known_name k p"
  "i < 1000000 \<Longrightarrow> known_name k (shard_name i kd)"
  "k \<le> i \<Longrightarrow> i < 1000000 \<Longrightarrow> known_name k (part_name i kd)"
  unfolding known_name_def by blast+

lemma recoverable_cong:
  assumes "\<And>p. p \<in> {part_name (length (w_shards w)) kd, shard_name (length (w_shards w)) kd} \<Longrightarrow>
      map_of d' p = map_of d p"
  shows "recoverable w d' kd = recoverable w d kd"
  using assms by (simp add: recoverable_def Let_def)

lemma map_of_replace_missing: "map_of d p = None \<Longrightarrow> replace_file p q d = d"
  by (simp add: replace_file_def)

lemma committed_append:
  assumes c: "committed w d" and i: "length (w_shards w) \<le> i" "i < 1000000"
    and none: "map_of d (shard_name i kd) = None"
  shows "committed w (append_file (part_name i kd) b d)"
proof -
  let ?d = "append_file (part_name i kd) b d" and ?k = "length (w_shards w)"
  have m: "map_of ?d = (map_of d)(part_name i kd \<mapsto> Bytes (file_bytes d (part_name i kd) @ b))"
    by (rule map_of_append_file)
  have "recoverable w ?d kd'" if pos: "0 < w_rows_in_open_shard w" for kd'
  proof -
    have rec: "recoverable w d kd'" using c pos by (simp add: committed_def)
    show ?thesis
    proof (cases "i = ?k \<and> kd' = kd")
      case True
      then have k: "?k = i" and kd: "kd' = kd" by simp_all
      from rec none obtain b0 rest where "map_of (w_dir w) (part_name i kd) = Some (Bytes b0)"
        "map_of d (part_name i kd) = Some (Bytes (b0 @ rest))"
        unfolding recoverable_def Let_def k kd by auto
      then show ?thesis using none unfolding recoverable_def Let_def k kd m
        by (intro exI [of _ b0] exI [of _ "rest @ b"]) simp
    next
      case False
      then show ?thesis using rec by (subst recoverable_cong) (auto simp: m)
    qed
  qed
  then show ?thesis
    using c i distinct_keys_append_file [of d "part_name i kd" b]
    unfolding committed_def m by auto
qed

lemma committed_rename:
  assumes c: "committed w d" and i: "length (w_shards w) \<le> i" "i < 1000000"
  shows "committed w (replace_file (part_name i kd) (shard_name i kd) d)"
proof (cases "map_of d (part_name i kd)")
  case None
  with c show ?thesis by (simp add: map_of_replace_missing)
next
  case (Some x)
  let ?d = "replace_file (part_name i kd) (shard_name i kd) d" and ?k = "length (w_shards w)"
  have m: "map_of ?d = (map_of d)(part_name i kd := None, shard_name i kd \<mapsto> x)"
    using Some by (simp add: map_of_replace_file)
  have "recoverable w ?d kd'" if pos: "0 < w_rows_in_open_shard w" for kd'
  proof -
    have rec: "recoverable w d kd'" using c pos by (simp add: committed_def)
    show ?thesis
    proof (cases "i = ?k \<and> kd' = kd")
      case True
      then have k: "?k = i" and kd: "kd' = kd" by simp_all
      from rec Some show ?thesis unfolding recoverable_def Let_def k kd m by auto
    next
      case False
      then show ?thesis using rec by (subst recoverable_cong) (auto simp: m)
    qed
  qed
  then show ?thesis
    using c i distinct_keys_replace_file [of d "part_name i kd" "shard_name i kd"]
    unfolding committed_def m by auto
qed

lemma committed_step: "disk_step (length (w_shards w)) d d' \<Longrightarrow> committed w d \<Longrightarrow> committed w d'"
proof (induction rule: disk_step.induct)
  case (journal_temporary p d c)
  have m: "map_of (AList.update p c d) = (map_of d)(p \<mapsto> c)" by (rule map_of_set_file)
  have ne: "p \<noteq> journal_name" "p \<noteq> shard_name i kd" "p \<noteq> part_name i kd" for i kd
    using journal_temporary(1) by auto
  then have "recoverable w (AList.update p c d) kd = recoverable w d kd" for kd
    by (intro recoverable_cong) (auto simp: m)
  then show ?case
    using journal_temporary ne distinct_update [of d p c]
    unfolding committed_def m by auto
qed (auto intro: committed_append committed_rename)

lemma committed_reachable:
  assumes "(disk_step (length (w_shards w)))\<^sup>*\<^sup>* d d'" and "committed w d"
  shows "committed w d'"
  using assms by (induction rule: rtranclp_induct) (auto intro: committed_step)

lemma checkpointed_committed:
  assumes "checkpointed c docs w"
  shows "committed w (w_dir w)"
proof -
  from assms have inv: "writer_inv (stream_tokens (c_eos_token_id c) docs) (stream_starts docs) w"
    and k: "length (w_shards w) < 1000000" by (simp_all add: checkpointed_def fed_def)
  then have names: "names_inv w" by (simp add: writer_inv_def base_inv_def)
  have "recoverable w (w_dir w) kd" if "0 < w_rows_in_open_shard w" for kd
  proof -
    let ?k = "length (w_shards w)"
    from inv that have "part_open (stream_tokens (c_eos_token_id c) docs) (stream_starts docs) w"
      by (simp add: writer_inv_def)
    then obtain b where b: "map_of (w_dir w) (part_name ?k kd) = Some (Bytes b)"
      by (cases kd) (auto simp: part_open_def file_is_def Let_def)
    have "map_of (w_dir w) (shard_name ?k kd) = None"
      using names_invD [OF names, of "shard_name ?k kd"] by (cases "map_of (w_dir w) (shard_name ?k kd)") auto
    with b show ?thesis unfolding recoverable_def Let_def
      by (intro exI [of _ b] exI [of _ "[]"]) simp
  qed
  moreover have "known_name (length (w_shards w)) p" if "map_of (w_dir w) p = Some x" for p x
    using names_invD [OF names that] k by auto
  ultimately show ?thesis using names by (auto simp: committed_def names_inv_def)
qed

section \<open>Reading the journal back\<close>

lemma journal_fields:
  assumes inv: "writer_inv S B w" and j: "journal_payload cur w = Inr j"
  shows "is_jobj j" "jget j ''format'' = JStr ''packed-shard-construction-journal''"
    "jget j ''format_version'' = JInt 1" "jget j ''identity'' = identity (w_cfg w)"
    "is_jobj (jget j ''state'')"
    "jget (jget j ''state'') ''source_cursor'' = json_opt cur"
    "jget (jget j ''state'') ''documents'' = JInt (int (w_documents w))"
    "jget (jget j ''state'') ''source_content_tokens'' = JInt (int (w_source_content_tokens w))"
    "jget (jget j ''state'') ''rows'' = JInt (int (w_rows w))"
    "jget (jget j ''state'') ''valid_loss_tokens'' = JInt (int (w_valid_loss_tokens w))"
    "jget (jget j ''state'') ''masked_boundary_labels'' = JInt (int (w_masked_boundary_labels w))"
    "jget (jget j ''state'') ''carry_tokens''
       = JList (map (\<lambda>t. JInt (int t)) (drop (w_buffer_offset w) (w_tokens w)))"
    "jget (jget j ''state'') ''carry_starts'' = JList (map JBool (drop (w_buffer_offset w) (w_starts w)))"
    "jget (jget j ''state'') ''completed_shards'' = JList (w_shards w)"
  using j by (auto simp: journal_payload_def open_shard_json_inv [OF inv] jfield_def)

lemma journal_open_shard:
  assumes inv: "writer_inv S B w" and j: "journal_payload cur w = Inr j"
  shows "open_shard_json w = Inr (jget (jget j ''state'') ''open_shard'')"
  using j by (auto simp: journal_payload_def open_shard_json_inv [OF inv] jfield_def)

lemma map_of_filter_name: "map_of (filter (\<lambda>(p, _). P p) d) p = (if P p then map_of d p else None)"
  by (induction d) auto

lemma map_of_remove_stale: "map_of (remove_stale d) p = (if is_stale p then None else map_of d p)"
  unfolding remove_stale_def by (simp add: map_of_filter_name)

lemma distinct_filter_names: "distinct (map fst d) \<Longrightarrow> distinct (map fst (filter P d))"
  by (induction d) auto

text \<open>The directory after stale temporaries are gone, with the facts the recovery reads.\<close>

lemma state_integer_int [simp]:
  "jget v key = JInt (int n) \<Longrightarrow> state_integer v key = Inr n"
  by (simp add: state_integer_def)

lemma resume_shards_ok:
  assumes inv: "writer_inv S B w" and cfg: "w_cfg w = c"
    and files: "\<And>i kd. i < length (w_shards w) \<Longrightarrow>
       map_of d (shard_name i kd) = map_of (w_dir w) (shard_name i kd)"
    and state: "jget state ''completed_shards'' = JList (w_shards w)"
  shows "resume_shards c d state = Inr (w_shards w)"
proof -
  let ?n = "c_rows_per_shard c" and ?k = "length (w_shards w)" and ?T = "c_sequence_length c"
  let ?sh = "\<lambda>i. shard_json c S B i (i * ?n) (Suc i * ?n)"
  have b: "base_inv S B w" using inv by (simp add: writer_inv_def)
  then have shards: "w_shards w = map ?sh [0..<?k]"
    unfolding base_inv_def shards_inv_def Let_def cfg by (elim conjE)
  have rows: "w_rows w = ?k * ?n + w_rows_in_open_shard w"
    using b cfg by (simp add: base_inv_def shards_inv_def Let_def)
  have n: "1 \<le> ?n" using b cfg by (simp add: base_inv_def wf_config_def)
  have one: "resume_shard c d (i, ?sh i) = Inr (?sh i)" if i: "i < ?k" for i
  proof -
    have le: "Suc i * ?n \<le> w_rows w" using rows mult_le_mono1 [of "Suc i" ?k ?n] i by simp
    moreover have "w_rows w * ?T < length S" "length B = length S"
      using b cfg le n by (auto simp: base_inv_def buffer_inv_def)
    ultimately have lt: "(Suc i * ?n) * ?T < length S" "(Suc i * ?n) * ?T < length B"
      by (metis le_less_trans mult_le_mono1)+
    have "file_is (w_dir w) c S B (shard_name i) (i * ?n) (Suc i * ?n)"
      using b i cfg by (simp add: base_inv_def shards_inv_def Let_def)
    then have f: "map_of d (shard_name i Tokens) = Some (Bytes (rows_token_bytes ?T S (i * ?n) (Suc i * ?n)))"
        "map_of d (shard_name i Starts) = Some (Bytes (rows_start_bytes ?T B (i * ?n) (Suc i * ?n)))"
      using files [OF i] by (simp_all add: file_is_def)
    have len: "length (rows_token_bytes ?T S (i * ?n) (Suc i * ?n)) = ?n * row_width c Tokens"
        "length (rows_start_bytes ?T B (i * ?n) (Suc i * ?n)) = ?n * row_width c Starts"
      using length_rows_token_bytes [OF lt(1), of "i * ?n"] length_rows_start_bytes [OF lt(2), of "i * ?n"]
      by (simp_all add: row_width_def c_tokens_per_row_def c_starts_bytes_per_row_def mult.assoc)
    have diff: "Suc i * ?n - i * ?n = ?n" by simp
    have p: "resume_payload c d i (?sh i) kd = Inr ()" for kd
      using f len is_sha256_sha256
      by (cases kd) (simp_all add: resume_payload_def Let_def shard_json_fields diff sized_file_def
          row_width_def mult.assoc del: mult_Suc)
    show ?thesis
      by (simp add: resume_shard_def shard_json_fields p diff del: mult_Suc)
  qed
  have "mapM (resume_shard c d) (map (\<lambda>i. (i, ?sh i)) [0..<?k])
      = Inr (map snd (map (\<lambda>i. (i, ?sh i)) [0..<?k]))"
    using one by (intro mapM_Inr_map) auto
  also have "map snd (map (\<lambda>i. (i, ?sh i)) [0..<?k]) = w_shards w"
    using shards by (simp add: comp_def)
  finally have "mapM (resume_shard c d) (map (\<lambda>i. (i, ?sh i)) [0..<?k]) = Inr (w_shards w)" .
  moreover have "enumerate 0 (w_shards w) = map (\<lambda>i. (i, ?sh i)) [0..<?k]"
    using arg_cong [OF shards, of "enumerate 0"] unfolding enumerate_map .
  ultimately show ?thesis by (simp add: resume_shards_def state)
qed

lemma resume_counters_ok:
  assumes fed: "fed c docs w" and cfg: "wf_config c"
    and j: "journal_payload (w_source_cursor w) w = Inr j"
    and cur: "case w_source_cursor w of None \<Rightarrow> True | Some v \<Rightarrow> is_jobj v \<and> sort_keys v = v"
  shows "resume_counters c (jget j ''state'') v = Inr (v\<lparr>w_documents := w_documents w,
      w_source_content_tokens := w_source_content_tokens w, w_rows := w_rows w,
      w_valid_loss_tokens := w_valid_loss_tokens w,
      w_masked_boundary_labels := w_masked_boundary_labels w,
      w_tokens := drop (w_buffer_offset w) (w_tokens w),
      w_starts := drop (w_buffer_offset w) (w_starts w),
      w_buffer_offset := 0, w_source_cursor := w_source_cursor w\<rparr>)"
proof -
  let ?S = "stream_tokens (c_eos_token_id c) docs" and ?B = "stream_starts docs"
  from fed have inv: "writer_inv ?S ?B w" and dr: "drained w" and wc: "w_cfg w = c"
    and docs: "docs_ok (c_vocab_size c) docs" by (simp_all add: fed_def)
  note jf = journal_fields [OF inv j]
  have b: "base_inv ?S ?B w" using inv by (simp add: writer_inv_def)
  have len: "length (w_starts w) = length (w_tokens w)" and off: "w_buffer_offset w \<le> length (w_tokens w)"
    and suffix: "drop (w_buffer_offset w) (w_tokens w) = drop (w_rows w * c_sequence_length c) ?S"
    and rowsle: "w_rows w * c_sequence_length c \<le> length ?S"
    using b wc by (auto simp: base_inv_def buffer_inv_def)
  have short: "length (drop (w_buffer_offset w) (w_tokens w)) \<le> c_sequence_length c"
    using dr wc by (simp add: drained_def)
  have "set (drop (w_buffer_offset w) (w_tokens w)) \<subseteq> set ?S"
    unfolding suffix by (rule set_drop_subset)
  moreover have "\<forall>t\<in>set ?S. t < c_vocab_size c"
    using docs cfg by (intro stream_tokens_bound) (simp_all add: wf_config_def)
  ultimately have toks: "list_all (carry_token_ok c)
      (map (\<lambda>t. JInt (int t)) (drop (w_buffer_offset w) (w_tokens w)))"
    by (auto simp: list_all_iff carry_token_ok_def)
  have bools: "list_all is_jbool (map JBool bs)" for bs by (induction bs) auto
  have bmap: "map jbool_of (map JBool bs) = bs" for bs by (induction bs) auto
  have tmap: "map (\<lambda>v. nat (jint_of v)) (map (\<lambda>t. JInt (int t)) ts) = ts" for ts
    by (induction ts) auto
  have cnt: "w_source_content_tokens w + w_documents w = length ?S"
      "w_valid_loss_tokens w + w_masked_boundary_labels w = w_rows w * c_sequence_length c"
    using b wc by (simp_all add: base_inv_def count_inv_def)
  have "length (drop (w_buffer_offset w) (w_tokens w)) = length ?S - w_rows w * c_sequence_length c"
    unfolding suffix by simp
  with cnt(1) rowsle have str: "w_source_content_tokens w + w_documents w
      = w_rows w * c_sequence_length c + length (drop (w_buffer_offset w) (w_tokens w))" by linarith
  have cursor: "optional_cursor (json_opt (w_source_cursor w)) = Inr (w_source_cursor w)"
    using cur by (cases "w_source_cursor w")
      (auto simp: optional_cursor_def json_opt_def canonical_json_mapping_def)
  show ?thesis
    unfolding resume_counters_def
    using len off short str cnt(2) toks
    by (simp add: jf bools bmap tmap cursor Let_def length_map del: map_map)
qed

section \<open>Scanning the directory\<close>

fun shard_file :: "nat \<times> kind \<times> bool \<Rightarrow> string" where
  "shard_file (i, kd, final) = (if final then shard_name i kd else part_name i kd)"

lemma generated_shard_file:
  "fst q < 1000000 \<Longrightarrow> generated_shard (shard_file q) = Some q"
  by (cases q) (auto split: if_splits)

lemma scan_ok:
  assumes "\<forall>p\<in>fst ` set d. p = journal_name \<or> (\<exists>q. fst q < 1000000 \<and> p = shard_file q)"
    and "distinct (map fst d)" and "\<forall>q\<in>set acc. shard_file q \<notin> fst ` set d"
  shows "\<exists>g. foldM scan_step acc d = Inr g \<and>
     set g = set acc \<union> {q. fst q < 1000000 \<and> shard_file q \<in> fst ` set d}"
  using assms
proof (induction d arbitrary: acc)
  case (Cons e d)
  obtain p x where e: "e = (p, x)" by (cases e)
  from Cons.prems(1) e consider "p = journal_name" | q where "fst q < 1000000" "p = shard_file q"
    by auto
  then show ?case
  proof cases
    case 1
    have "shard_file q \<noteq> journal_name" for q by (cases q) auto
    moreover have "scan_step acc e = Inr acc" using 1 e by (simp add: scan_step_def)
    ultimately show ?thesis using Cons.IH [of acc] Cons.prems 1 e by auto
  next
    case 2
    from 2(1) have g: "generated_shard p = Some q" unfolding 2(2) by (rule generated_shard_file)
    have inj: "q' = q" if "shard_file q' = p" "fst q' < 1000000" for q'
      using g generated_shard_file [OF that(2)] that(1) by simp
    have "q \<notin> set acc" using Cons.prems(3) 2 e by auto
    with g e have step: "scan_step acc e = Inr (q # acc)" by (simp add: scan_step_def)
    have "p \<notin> fst ` set d" using Cons.prems(2) e by auto
    then have "\<forall>q'\<in>set (q # acc). shard_file q' \<notin> fst ` set d" using Cons.prems(3) 2 e by auto
    with Cons.IH [of "q # acc"] Cons.prems obtain g' where
      g': "foldM scan_step (q # acc) d = Inr g'"
      "set g' = set (q # acc) \<union> {q. fst q < 1000000 \<and> shard_file q \<in> fst ` set d}" by auto
    have "set g' = set acc \<union> {q. fst q < 1000000 \<and> shard_file q \<in> fst ` set (e # d)}"
    proof (rule set_eqI)
      fix q'
      show "q' \<in> set g' \<longleftrightarrow> q' \<in> set acc \<union> {q. fst q < 1000000 \<and> shard_file q \<in> fst ` set (e # d)}"
        unfolding g'(2) using inj [of q'] 2(1) 2(2) [symmetric] e
        by (cases "shard_file q' = p") auto
    qed
    with g'(1) step show ?thesis by simp
  qed
qed simp

lemma in_names_iff: "p \<in> fst ` set d \<longleftrightarrow> map_of d p \<noteq> None"
  by (metis map_of_eq_None_iff)

lemma check_committed_ok:
  assumes g: "set g = {q. fst q < 1000000 \<and> shard_file q \<in> fst ` set d}" and k: "k \<le> 1000000"
    and d: "\<And>i kd. i < k \<Longrightarrow> map_of d (shard_name i kd) \<noteq> None \<and> map_of d (part_name i kd) = None"
  shows "\<exists>u. mapM (check_committed g) (concat (map (\<lambda>i. [(i, Tokens), (i, Starts)]) [0..<k])) = Inr u"
proof -
  have "check_committed g (i, kd) = Inr ()" if "i < k" for i kd
    using d [OF that, of kd] that k unfolding check_committed_def g by (auto simp: in_names_iff)
  then have "mapM (check_committed g) (concat (map (\<lambda>i. [(i, Tokens), (i, Starts)]) [0..<k]))
      = Inr (map (\<lambda>_. ()) (concat (map (\<lambda>i. [(i, Tokens), (i, Starts)]) [0..<k])))"
    by (intro mapM_Inr_map) auto
  then show ?thesis by blast
qed

section \<open>Rolling the open shard back\<close>

lemma recover_part_ok:
  assumes rec: "map_of d (part_name i kd) = Some (Bytes (b @ rest)) \<and> map_of d (shard_name i kd) = None \<or>
        map_of d (shard_name i kd) = Some (Bytes (b @ rest)) \<and> map_of d (part_name i kd) = None"
    and len: "length b = n * row_width c kd"
    and js: "jget os (kind_name kd) = payload_entry (part_name i kd) (n * row_width c kd) (sha256 b)"
  shows "\<exists>d'. recover_part c i n os kd d = Inr (b, d') \<and>
     map_of d' = (map_of d)(shard_name i kd := None, part_name i kd \<mapsto> Bytes b)"
proof -
  have fields: "is_jobj (payload_entry p m h)" "jget (payload_entry p m h) ''path'' = JStr p"
      "jget (payload_entry p m h) ''bytes'' = JInt (int m)" "jget (payload_entry p m h) ''sha256'' = JStr h"
    for p m h by (simp_all add: payload_entry_def jfield_def)
  from rec show ?thesis
    using len is_sha256_sha256
    by (elim disjE conjE) (simp_all add: recover_part_def Let_def js fields file_exists_def
        map_of_set_file map_of_replace_file fun_upd_twist fun_upd_idem)
qed

lemma recoverable_prefix:
  assumes "recoverable w d kd" and "map_of (w_dir w) (part_name (length (w_shards w)) kd) = Some (Bytes b)"
  shows "\<exists>rest. map_of d (part_name (length (w_shards w)) kd) = Some (Bytes (b @ rest)) \<and>
         map_of d (shard_name (length (w_shards w)) kd) = None \<or>
       map_of d (shard_name (length (w_shards w)) kd) = Some (Bytes (b @ rest)) \<and>
         map_of d (part_name (length (w_shards w)) kd) = None"
  using assms by (simp add: recoverable_def Let_def)

lemma map_of_remove_uncommitted:
  "map_of (remove_uncommitted keep d) p
     = (if generated_shard p = None \<or> p \<in> set keep then map_of d p else None)"
  unfolding remove_uncommitted_def by (simp add: map_of_filter_name)

lemma shard_paths_shard_json: "shard_paths (shard_json c S B i a b) = [shard_name i Tokens, shard_name i Starts]"
  by (simp add: shard_paths_def shard_json_fields)

lemma resume_open_ok:
  assumes inv: "writer_inv S B w" and cfg: "w_cfg w = c" and pos: "0 < w_rows_in_open_shard w"
    and rec: "\<forall>kd. recoverable w d kd"
    and j: "open_shard_json w = Inr os"
    and v: "w_shards v = w_shards w" "w_rows v = w_rows w" "w_dir v = d"
  shows "\<exists>d'. resume_open c os v = Inr (v\<lparr>w_rows_in_open_shard := w_rows_in_open_shard w,
       w_temporary_tokens := w_temporary_tokens w, w_temporary_starts := w_temporary_starts w,
       w_tokens_handle := w_tokens_handle w, w_starts_handle := w_starts_handle w,
       w_tokens_digest := w_tokens_digest w, w_starts_digest := w_starts_digest w,
       w_open_shard_dirty := False, w_dir := d'\<rparr>) \<and>
     (let k = length (w_shards w) in \<forall>p. map_of d' p =
        (if \<exists>kd. p = part_name k kd then map_of (w_dir w) p
         else if \<exists>kd. p = shard_name k kd then None else map_of d p))"
proof -
  let ?k = "length (w_shards w)" and ?n = "w_rows_in_open_shard w" and ?T = "c_sequence_length c"
  let ?a = "?k * c_rows_per_shard c"
  let ?tb = "rows_token_bytes ?T S ?a (w_rows w)" and ?sb = "rows_start_bytes ?T B ?a (w_rows w)"
  have b: "base_inv S B w" and po: "part_open S B w" and lt: "?n < c_rows_per_shard c"
    using inv pos cfg by (simp_all add: writer_inv_def)
  have rows: "w_rows w = ?a + ?n" using b cfg by (simp add: base_inv_def shards_inv_def Let_def)
  have po': "w_tokens_handle w = Some (part_name ?k Tokens)" "w_starts_handle w = Some (part_name ?k Starts)"
      "w_temporary_tokens w = Some (part_name ?k Tokens)" "w_temporary_starts w = Some (part_name ?k Starts)"
      "w_tokens_digest w = Some ?tb" "w_starts_digest w = Some ?sb"
      "map_of (w_dir w) (part_name ?k Tokens) = Some (Bytes ?tb)"
      "map_of (w_dir w) (part_name ?k Starts) = Some (Bytes ?sb)"
    using po cfg by (simp_all add: part_open_def file_is_def Let_def)
  have lts: "w_rows w * ?T < length S" "w_rows w * ?T < length B"
    using b cfg pos rows by (auto simp: base_inv_def buffer_inv_def)
  have len: "length ?tb = ?n * row_width c Tokens" "length ?sb = ?n * row_width c Starts"
    using length_rows_token_bytes [OF lts(1), of ?a] length_rows_start_bytes [OF lts(2), of ?a] rows
    by (simp_all add: row_width_def c_tokens_per_row_def c_starts_bytes_per_row_def mult.assoc)
  have os: "os = shard_entry ?k ?n
      (payload_entry (part_name ?k Tokens) (?n * row_width c Tokens) (sha256 ?tb))
      (payload_entry (part_name ?k Starts) (?n * row_width c Starts) (sha256 ?sb))"
    using j pos cfg unfolding open_shard_json_inv [OF inv] by (simp add: row_width_def mult.assoc)
  have osf: "is_jobj os" "jget os ''index'' = JInt (int ?k)" "jget os ''rows'' = JInt (int ?n)"
    "jget os (kind_name Tokens) = payload_entry (part_name ?k Tokens) (?n * row_width c Tokens) (sha256 ?tb)"
    "jget os (kind_name Starts) = payload_entry (part_name ?k Starts) (?n * row_width c Starts) (sha256 ?sb)"
    by (simp_all add: os shard_entry_def jfield_def)
  from rec obtain rt where rt:
      "map_of d (part_name ?k Tokens) = Some (Bytes (?tb @ rt)) \<and> map_of d (shard_name ?k Tokens) = None \<or>
       map_of d (shard_name ?k Tokens) = Some (Bytes (?tb @ rt)) \<and> map_of d (part_name ?k Tokens) = None"
    using recoverable_prefix [OF _ po'(7)] by blast
  from rec obtain rs where rs:
      "map_of d (part_name ?k Starts) = Some (Bytes (?sb @ rs)) \<and> map_of d (shard_name ?k Starts) = None \<or>
       map_of d (shard_name ?k Starts) = Some (Bytes (?sb @ rs)) \<and> map_of d (part_name ?k Starts) = None"
    using recoverable_prefix [OF _ po'(8)] by blast
  from recover_part_ok [OF rt len(1) osf(4)] obtain d1 where
    d1: "recover_part c ?k ?n os Tokens d = Inr (?tb, d1)"
    "map_of d1 = (map_of d)(shard_name ?k Tokens := None, part_name ?k Tokens \<mapsto> Bytes ?tb)" by blast
  from rs have rs1:
      "map_of d1 (part_name ?k Starts) = Some (Bytes (?sb @ rs)) \<and> map_of d1 (shard_name ?k Starts) = None \<or>
       map_of d1 (shard_name ?k Starts) = Some (Bytes (?sb @ rs)) \<and> map_of d1 (part_name ?k Starts) = None"
    by (simp add: d1(2))
  from recover_part_ok [OF rs1 len(2) osf(5)] obtain d2 where
    d2: "recover_part c ?k ?n os Starts d1 = Inr (?sb, d2)"
    "map_of d2 = (map_of d1)(shard_name ?k Starts := None, part_name ?k Starts \<mapsto> Bytes ?sb)" by blast
  have "resume_open c os v = Inr (v\<lparr>w_rows_in_open_shard := ?n, w_dir := d2,
       w_temporary_tokens := Some (part_name ?k Tokens), w_temporary_starts := Some (part_name ?k Starts),
       w_tokens_handle := Some (part_name ?k Tokens), w_starts_handle := Some (part_name ?k Starts),
       w_tokens_digest := Some ?tb, w_starts_digest := Some ?sb, w_open_shard_dirty := False\<rparr>)"
    using pos lt rows by (simp add: resume_open_def v osf(1-3) d1(1) d2(1) Let_def)
  moreover have "map_of d2 p = (if \<exists>kd. p = part_name ?k kd then map_of (w_dir w) p
         else if \<exists>kd. p = shard_name ?k kd then None else map_of d p)" for p
  proof (cases "\<exists>kd. p = part_name ?k kd \<or> p = shard_name ?k kd")
    case True
    then obtain kd where "p = part_name ?k kd \<or> p = shard_name ?k kd" by blast
    then show ?thesis using po'(7,8) by (cases kd) (auto simp: d2(2) d1(2))
  next
    case False
    then show ?thesis by (auto simp: d2(2) d1(2))
  qed
  ultimately show ?thesis unfolding po'(1-6) Let_def by (intro exI [of _ d2]) simp
qed

section \<open>The whole recovery\<close>

lemma recover_part_distinct:
  "recover_part c i n os k d = Inr (b, d') \<Longrightarrow> distinct (map fst d) \<Longrightarrow> distinct (map fst d')"
  by (cases "file_exists d (part_name i k)"; cases "file_exists d (shard_name i k)")
    (auto simp: recover_part_def Let_def res_simps distinct_update distinct_keys_replace_file)

lemma resume_open_distinct:
  "resume_open c os v = Inr v' \<Longrightarrow> distinct (map fst (w_dir v)) \<Longrightarrow> distinct (map fst (w_dir v'))"
  by (auto simp: resume_open_def Let_def res_simps dest!: recover_part_distinct)

text \<open>The files a checkpointed writer has, and those a later directory may have.\<close>

lemma writer_files:
  assumes "names_inv w" and "i \<ge> length (w_shards w)"
  shows "map_of (w_dir w) (shard_name i kd) = None"
    and "i \<noteq> length (w_shards w) \<or> w_tokens_handle w = None \<Longrightarrow>
      map_of (w_dir w) (part_name i kd) = None"
proof -
  show "map_of (w_dir w) (shard_name i kd) = None"
    using names_invD [OF assms(1), of "shard_name i kd"] assms(2)
    by (cases "map_of (w_dir w) (shard_name i kd)") auto
  show "map_of (w_dir w) (part_name i kd) = None" if "i \<noteq> length (w_shards w) \<or> w_tokens_handle w = None"
    using names_invD [OF assms(1), of "part_name i kd"] that
    by (cases "map_of (w_dir w) (part_name i kd)") auto
qed

lemma other_files:
  assumes "names_inv w" and "p \<noteq> journal_name" "\<And>i kd. p \<noteq> shard_name i kd" "\<And>i kd. p \<noteq> part_name i kd"
  shows "map_of (w_dir w) p = None"
  using names_invD [OF assms(1), of p] assms(2-) by (cases "map_of (w_dir w) p") auto

lemma unknown_file:
  assumes "committed w d" and "\<not> known_name (length (w_shards w)) p"
  shows "map_of d p = None"
  using assms by (cases "map_of d p") (auto simp: committed_def)

lemma part_known:
  "known_name k (part_name i kd) \<longleftrightarrow> i < 1000000 \<and> k \<le> i"
  "known_name k (shard_name i kd) \<longleftrightarrow> i < 1000000"
  by (auto simp: known_name_def)

definition rolled_back :: "writer \<Rightarrow> dir \<Rightarrow> writer" where
  "rolled_back w d = w\<lparr>w_tokens := drop (w_buffer_offset w) (w_tokens w),
      w_starts := drop (w_buffer_offset w) (w_starts w), w_buffer_offset := 0,
      w_resumed := True, w_dir := d\<rparr>"

text \<open>The last two steps of the resume: the open shard, then the removal of every other file.\<close>

lemma rollback_dir:
  assumes com: "committed w d" and inv: "writer_inv S B w" and k: "length (w_shards w) < 1000000"
    and d2: "\<And>p. map_of d2 p = (if 0 < w_rows_in_open_shard w \<and> (\<exists>kd. p = part_name (length (w_shards w)) kd)
          then map_of (w_dir w) p
         else if 0 < w_rows_in_open_shard w \<and> (\<exists>kd. p = shard_name (length (w_shards w)) kd) then None
         else map_of (remove_stale d) p)"
    and keep: "set keep = {p. \<exists>i<length (w_shards w). \<exists>kd. p = shard_name i kd} \<union>
       (if 0 < w_rows_in_open_shard w then {p. \<exists>kd. p = part_name (length (w_shards w)) kd} else {})"
  shows "map_of (remove_uncommitted keep d2) = map_of (w_dir w)"
proof
  fix p
  let ?k = "length (w_shards w)"
  have names: "names_inv w" using inv by (simp add: writer_inv_def base_inv_def)
  have closed: "w_tokens_handle w = None" if "\<not> 0 < w_rows_in_open_shard w"
    using inv that by (simp add: writer_inv_def part_closed_def)
  note rm = map_of_remove_uncommitted
  consider "p = journal_name" | i kd where "p = shard_name i kd" | i kd where "p = part_name i kd"
    | "p \<noteq> journal_name" "\<And>i kd. p \<noteq> shard_name i kd" "\<And>i kd. p \<noteq> part_name i kd" by blast
  then show "map_of (remove_uncommitted keep d2) p = map_of (w_dir w) p"
  proof cases
    case 1
    then show ?thesis using com by (simp add: rm d2 map_of_remove_stale committed_def)
  next
    case 2
    show ?thesis
    proof (cases "i < ?k")
      case True
      then have "p \<in> set keep" using 2 unfolding keep by blast
      moreover have "map_of d p = map_of (w_dir w) p" using com True 2 by (simp add: committed_def)
      ultimately show ?thesis using True 2 by (auto simp: rm d2 map_of_remove_stale)
    next
      case False
      then have w: "map_of (w_dir w) p = None" using writer_files(1) [OF names] 2 by simp
      show ?thesis
      proof (cases "i < 1000000")
        case True
        with False 2 have "p \<notin> set keep" by (auto simp: keep)
        with True 2 w show ?thesis by (simp add: rm)
      next
        case False
        with k unknown_file [OF com, of p] 2 w show ?thesis
          by (auto simp: rm d2 map_of_remove_stale part_known)
      qed
    qed
  next
    case 3
    show ?thesis
    proof (cases "i = ?k \<and> 0 < w_rows_in_open_shard w")
      case True
      then have "p \<in> set keep" using 3 unfolding keep by auto
      with True 3 show ?thesis by (auto simp: rm d2)
    next
      case False
      then have "i \<noteq> ?k \<or> w_tokens_handle w = None" using False closed by auto
      then have w: "map_of (w_dir w) p = None" if "?k \<le> i"
        using writer_files(2) [OF names that, of kd] 3 by blast
      have w': "map_of (w_dir w) p = None"
      proof (cases "?k \<le> i")
        case False
        with names_invD [OF names, of p] 3 show ?thesis by (cases "map_of (w_dir w) p") auto
      qed (rule w)
      show ?thesis
      proof (cases "i < 1000000")
        case True
        have "p \<notin> set keep" using 3 False by (auto simp: keep)
        with True 3 w' show ?thesis by (simp add: rm)
      next
        case big: False
        with unknown_file [OF com, of p] 3 w' False show ?thesis
          by (auto simp: rm d2 map_of_remove_stale part_known)
      qed
    qed
  next
    case 4
    have "map_of (remove_stale d) p = None"
      using unknown_file [OF com, of p] 4 by (auto simp: map_of_remove_stale known_name_def)
    moreover have "map_of (w_dir w) p = None" using other_files [OF names] 4 by blast
    ultimately show ?thesis using 4 by (simp add: rm d2)
  qed
qed

lemma committed_no_parts:
  assumes com: "committed w d" and inv: "writer_inv S B w" and i: "i < length (w_shards w)"
  shows "map_of (remove_stale d) (shard_name i kd) \<noteq> None" "map_of (remove_stale d) (part_name i kd) = None"
proof -
  have "map_of (w_dir w) (shard_name i kd) \<noteq> None"
    using inv i by (cases kd) (simp_all add: writer_inv_def base_inv_def shards_inv_def Let_def file_is_def)
  then show "map_of (remove_stale d) (shard_name i kd) \<noteq> None"
    using com i by (simp add: map_of_remove_stale committed_def)
  show "map_of (remove_stale d) (part_name i kd) = None"
    using unknown_file [OF com, of "part_name i kd"] i by (simp add: map_of_remove_stale part_known)
qed

lemma scan_committed:
  assumes com: "committed w d" and inv: "writer_inv S B w" and k: "length (w_shards w) < 1000000"
  shows "\<exists>g u. foldM scan_step [] (remove_stale d) = Inr g \<and>
     mapM (check_committed g) (concat (map (\<lambda>i. [(i, Tokens), (i, Starts)]) [0..<length (w_shards w)])) = Inr u"
proof -
  let ?d = "remove_stale d"
  have "p = journal_name \<or> (\<exists>q. fst q < 1000000 \<and> p = shard_file q)" if "p \<in> fst ` set ?d" for p
  proof -
    from that have "map_of ?d p \<noteq> None" by (simp add: in_names_iff)
    then have "\<not> is_stale p" "map_of d p \<noteq> None" by (auto simp: map_of_remove_stale split: if_splits)
    then have "known_name (length (w_shards w)) p" using unknown_file [OF com, of p] by argo
    then show ?thesis unfolding known_name_def
    proof (elim disjE exE conjE)
      assume "is_stale p"
      with \<open>\<not> is_stale p\<close> show ?thesis by simp
    next
      fix i kd assume "i < 1000000" "p = shard_name i kd"
      then have "fst (i, kd, True) < 1000000 \<and> p = shard_file (i, kd, True)" by simp
      then show ?thesis by blast
    next
      fix i kd assume "i < 1000000" "p = part_name i kd"
      then have "fst (i, kd, False) < 1000000 \<and> p = shard_file (i, kd, False)" by simp
      then show ?thesis by blast
    qed simp
  qed
  moreover have "distinct (map fst ?d)"
    using com by (simp add: remove_stale_def committed_def distinct_filter_names)
  ultimately obtain g where g: "foldM scan_step [] ?d = Inr g"
      "set g = {q. fst q < 1000000 \<and> shard_file q \<in> fst ` set ?d}"
    using scan_ok [of ?d "[]"] by auto
  from check_committed_ok [OF g(2)] k committed_no_parts [OF com inv]
  obtain u where "mapM (check_committed g)
      (concat (map (\<lambda>i. [(i, Tokens), (i, Starts)]) [0..<length (w_shards w)])) = Inr u" by fastforce
  with g(1) show ?thesis by blast
qed

lemma ex_kind: "(\<exists>kd. P kd) \<longleftrightarrow> P Tokens \<or> P Starts"
  by (metis kind.exhaust)

lemma keep_committed:
  assumes "writer_inv S B w"
  shows "set (concat (map shard_paths (w_shards w)))
     = {p. \<exists>i<length (w_shards w). \<exists>kd. p = shard_name i kd}"
proof -
  let ?c = "w_cfg w" and ?n = "c_rows_per_shard (w_cfg w)"
  have "w_shards w = map (\<lambda>i. shard_json ?c S B i (i * ?n) (Suc i * ?n)) [0..<length (w_shards w)]"
    using assms unfolding writer_inv_def base_inv_def shards_inv_def Let_def by (elim conjE)
  then have "map shard_paths (w_shards w) = map shard_paths
      (map (\<lambda>i. shard_json ?c S B i (i * ?n) (Suc i * ?n)) [0..<length (w_shards w)])"
    by (rule arg_cong)
  also have "\<dots> = map (\<lambda>i. [shard_name i Tokens, shard_name i Starts]) [0..<length (w_shards w)]"
    by (simp add: shard_paths_shard_json)
  finally have "set (concat (map shard_paths (w_shards w)))
      = (\<Union>i\<in>{0..<length (w_shards w)}. {shard_name i Tokens, shard_name i Starts})" by simp
  also have "\<dots> = {p. \<exists>i<length (w_shards w). \<exists>kd. p = shard_name i kd}"
    by (auto simp: ex_kind)
  finally show ?thesis .
qed

lemma fed_rolled_back:
  assumes fed: "fed c docs w" and m: "map_of d = map_of (w_dir w)" and dist: "distinct (map fst d)"
  shows "fed c docs (rolled_back w d)"
proof -
  let ?S = "stream_tokens (c_eos_token_id c) docs" and ?B = "stream_starts docs"
  let ?w = "rolled_back w d"
  have inv: "writer_inv ?S ?B w" using fed by (simp add: fed_def)
  have "names_inv ?w"
    using inv dist m by (simp add: writer_inv_def base_inv_def names_inv_def rolled_back_def)
  moreover have "buffer_inv ?S ?B ?w" "count_inv ?S ?B ?w" "shards_inv ?S ?B ?w"
    using inv m by (simp_all add: writer_inv_def base_inv_def buffer_inv_def count_inv_def
        shards_inv_def file_is_def rolled_back_def)
  moreover have "part_open ?S ?B ?w = part_open ?S ?B w" "part_closed ?w = part_closed w"
    using m by (simp_all add: part_open_def part_closed_def file_is_def rolled_back_def)
  ultimately show ?thesis
    using fed by (auto simp: fed_def writer_inv_def base_inv_def drained_def rolled_back_def split: if_splits)
qed

lemma recovery:
  assumes cp: "checkpointed c docs w" and com: "committed w d"
  shows "\<exists>d'. open_writer True c d = Inr (rolled_back w d') \<and>
     map_of d' = map_of (w_dir w) \<and> distinct (map fst d')"
proof -
  let ?S = "stream_tokens (c_eos_token_id c) docs" and ?B = "stream_starts docs"
  let ?k = "length (w_shards w)" and ?d = "remove_stale d"
  from cp have fed: "fed c docs w" and k: "?k < 1000000" and clean: "\<not> w_open_shard_dirty w"
    and cur: "case w_source_cursor w of None \<Rightarrow> True | Some v \<Rightarrow> is_jobj v \<and> sort_keys v = v"
    by (simp_all add: checkpointed_def)
  from cp obtain j where jm: "map_of (w_dir w) journal_name = Some (JsonFile j)"
    and j: "journal_payload (w_source_cursor w) w = Inr j" by (auto simp: checkpointed_def)
  from fed have inv: "writer_inv ?S ?B w" and cfg: "w_cfg w = c" by (simp_all add: fed_def)
  have wf: "wf_config c" and nf: "\<not> w_finished w" and R: "w_rows w = ?k * c_rows_per_shard c + w_rows_in_open_shard w"
    using inv cfg by (auto simp: writer_inv_def base_inv_def shards_inv_def Let_def)
  note jf = journal_fields [OF inv j]
  let ?st = "jget j ''state''" and ?os = "jget (jget j ''state'') ''open_shard''"
  have jd: "map_of ?d journal_name = Some (JsonFile j)"
    using com jm by (simp add: map_of_remove_stale committed_def)
  have distd: "distinct (map fst ?d)"
    using com by (simp add: remove_stale_def committed_def distinct_filter_names)
  have state: "journal_state c ?d = Inr ?st"
    using jf cfg by (simp add: journal_state_def load_json_def jd py_eq_refl)
  have shards: "resume_shards c ?d ?st = Inr (w_shards w)"
    using com by (intro resume_shards_ok [OF inv cfg _ jf(14)]) (simp add: map_of_remove_stale committed_def)
  let ?v = "(fresh_writer c)\<lparr>w_shards := w_shards w, w_dir := ?d\<rparr>"
  define v where "v = ?v\<lparr>w_documents := w_documents w,
      w_source_content_tokens := w_source_content_tokens w, w_rows := w_rows w,
      w_valid_loss_tokens := w_valid_loss_tokens w,
      w_masked_boundary_labels := w_masked_boundary_labels w,
      w_tokens := drop (w_buffer_offset w) (w_tokens w),
      w_starts := drop (w_buffer_offset w) (w_starts w),
      w_buffer_offset := 0, w_source_cursor := w_source_cursor w\<rparr>"
  have counters: "resume_counters c ?st ?v = Inr v"
    unfolding v_def by (rule resume_counters_ok [OF fed wf j cur])
  obtain g u where g: "foldM scan_step [] ?d = Inr g"
      "mapM (check_committed g) (concat (map (\<lambda>i. [(i, Tokens), (i, Starts)]) [0..<?k])) = Inr u"
    using scan_committed [OF com inv k] by blast
  note os = journal_open_shard [OF inv j]
  have pos_rec: "\<forall>kd. recoverable w ?d kd" if "0 < w_rows_in_open_shard w"
  proof
    fix kd
    have "recoverable w ?d kd = recoverable w d kd"
      by (intro recoverable_cong) (auto simp: map_of_remove_stale)
    with com that show "recoverable w ?d kd" by (simp add: committed_def)
  qed
  let ?committed = "concat (map shard_paths (w_shards w))"
  obtain w2 keep where w2: "(if ?os = JNull
            then if w_rows v \<noteq> ?k * c_rows_per_shard c
                 then Inl (ValueError ''Packing journal total rows disagree with completed shards'')
                 else Inr (v, ?committed)
            else rbind (resume_open c ?os v) (\<lambda>w'.
                 Inr (w', ?committed @ [part_name ?k Tokens, part_name ?k Starts]))) = Inr (w2, keep)"
    and eq: "w2\<lparr>w_resumed := True\<rparr> = rolled_back w (w_dir w2)" and dist2: "distinct (map fst (w_dir w2))"
    and keep: "set keep = {p. \<exists>i<?k. \<exists>kd. p = shard_name i kd} \<union>
       (if 0 < w_rows_in_open_shard w then {p. \<exists>kd. p = part_name ?k kd} else {})"
    and d2: "\<And>p. map_of (w_dir w2) p = (if 0 < w_rows_in_open_shard w \<and> (\<exists>kd. p = part_name ?k kd)
          then map_of (w_dir w) p
         else if 0 < w_rows_in_open_shard w \<and> (\<exists>kd. p = shard_name ?k kd) then None
         else map_of ?d p)"
  proof (cases "w_rows_in_open_shard w = 0")
    case True
    have closed: "part_closed w" using inv True by (simp add: writer_inv_def)
    have "?os = JNull" using os True unfolding open_shard_json_inv [OF inv] by simp
    moreover have "v\<lparr>w_resumed := True\<rparr> = rolled_back w (w_dir v)"
      using closed nf clean cfg True
      by (simp add: v_def rolled_back_def fresh_writer_def part_closed_def)
    ultimately show thesis
      using True R distd keep_committed [OF inv] by (intro that [of v ?committed]) (simp_all add: v_def)
  next
    case False
    then have pos: "0 < w_rows_in_open_shard w" by simp
    have "?os \<noteq> JNull" using os pos unfolding open_shard_json_inv [OF inv] by (auto simp: shard_entry_def)
    moreover from resume_open_ok [OF inv cfg pos pos_rec [OF pos] os, of v] obtain d' where
      d': "resume_open c ?os v = Inr (v\<lparr>w_rows_in_open_shard := w_rows_in_open_shard w,
       w_temporary_tokens := w_temporary_tokens w, w_temporary_starts := w_temporary_starts w,
       w_tokens_handle := w_tokens_handle w, w_starts_handle := w_starts_handle w,
       w_tokens_digest := w_tokens_digest w, w_starts_digest := w_starts_digest w,
       w_open_shard_dirty := False, w_dir := d'\<rparr>)"
      "\<And>p. map_of d' p = (if \<exists>kd. p = part_name ?k kd then map_of (w_dir w) p
         else if \<exists>kd. p = shard_name ?k kd then None else map_of ?d p)"
      by (auto simp: v_def Let_def)
    let ?w2 = "v\<lparr>w_rows_in_open_shard := w_rows_in_open_shard w,
       w_temporary_tokens := w_temporary_tokens w, w_temporary_starts := w_temporary_starts w,
       w_tokens_handle := w_tokens_handle w, w_starts_handle := w_starts_handle w,
       w_tokens_digest := w_tokens_digest w, w_starts_digest := w_starts_digest w,
       w_open_shard_dirty := False, w_dir := d'\<rparr>"
    have "distinct (map fst (w_dir ?w2))"
      using resume_open_distinct [OF d'(1)] distd by (simp add: v_def)
    moreover have "?w2\<lparr>w_resumed := True\<rparr> = rolled_back w (w_dir ?w2)"
      using nf clean cfg by (simp add: v_def rolled_back_def fresh_writer_def)
    moreover have "set (?committed @ [part_name ?k Tokens, part_name ?k Starts])
        = {p. \<exists>i<?k. \<exists>kd. p = shard_name i kd} \<union> {p. \<exists>kd. p = part_name ?k kd}"
      unfolding set_append keep_committed [OF inv] by (auto simp: ex_kind)
    ultimately show thesis
      using d' pos by (intro that [of ?w2 "?committed @ [part_name ?k Tokens, part_name ?k Starts]"]) simp_all
  qed
  let ?d' = "remove_uncommitted keep (w_dir w2)"
  have rj: "resume_from_journal c ?d = Inr (w2\<lparr>w_dir := ?d'\<rparr>)"
    unfolding resume_from_journal_def state shards counters g rbind_Inr Let_def w2 by simp
  have "\<not> file_exists ?d manifest_name"
    using unknown_file [OF com, of manifest_name] by (auto simp: known_name_def file_exists_def map_of_remove_stale)
  moreover have "?d \<noteq> []" "file_exists ?d journal_name" using jd by (auto simp: file_exists_def)
  ultimately have "open_writer True c d = Inr (w2\<lparr>w_dir := ?d', w_resumed := True\<rparr>)"
    by (simp add: open_writer_def rj)
  also have "w2\<lparr>w_dir := ?d', w_resumed := True\<rparr> = (w2\<lparr>w_resumed := True\<rparr>)\<lparr>w_dir := ?d'\<rparr>" by simp
  also have "\<dots> = rolled_back w ?d'" unfolding eq by (simp add: rolled_back_def)
  finally have "open_writer True c d = Inr (rolled_back w ?d')" .
  moreover have "map_of ?d' = map_of (w_dir w)" by (rule rollback_dir [OF com inv k d2 keep])
  moreover have "distinct (map fst ?d')" using dist2 by (simp add: remove_uncommitted_def distinct_filter_names)
  ultimately show ?thesis by blast
qed

end
