(* ===== verification/PackedCrash.thy ===== *)
theory PackedCrash
  imports PackedRecovery
begin

text \<open>
  The writer's own operations between two journals are disk steps, so a crash anywhere in them
  leaves a directory \<^verbatim>\<open>resume\<close> accepts; resuming, feeding the remaining documents and
  finishing gives the directory of an uninterrupted run.
\<close>

lemma no_final:
  "names_inv w \<Longrightarrow> map_of (w_dir w) (shard_name (length (w_shards w)) kd) = None"
  by (rule writer_files) simp_all

lemma append_two_disk:
  assumes "k \<le> i" and "i < 1000000" and "map_of d (shard_name i Tokens) = None"
    and "map_of d (shard_name i Starts) = None"
  shows "(disk_step k)\<^sup>*\<^sup>* d (append_file (part_name i Starts) y (append_file (part_name i Tokens) x d))"
proof -
  let ?d = "append_file (part_name i Tokens) x d"
  have "disk_step k d ?d" using assms by (intro disk_step.append)
  moreover have "map_of ?d (shard_name i Starts) = None" using assms(4) by (simp add: map_of_append_file)
  then have "disk_step k ?d (append_file (part_name i Starts) y ?d)"
    using assms by (intro disk_step.append)
  ultimately show ?thesis by auto
qed

lemma open_shard_disk:
  assumes "writer_inv S B w" and "open_shard w = Inr w'"
    and "k \<le> length (w_shards w)" and "length (w_shards w) < 1000000"
  shows "(disk_step k)\<^sup>*\<^sup>* (w_dir w) (w_dir w') \<and> w_shards w' = w_shards w"
proof -
  have names: "names_inv w" using assms(1) by (simp add: writer_inv_def base_inv_def)
  show ?thesis
    using assms(2) append_two_disk [OF assms(3,4) no_final [OF names] no_final [OF names]]
    by (auto simp: open_shard_def Let_def split: if_splits)
qed

lemma append_rows_disk:
  assumes "base_inv S B w" and "part_open S B w"
    and "k \<le> length (w_shards w)" and "length (w_shards w) < 1000000"
  shows "(disk_step k)\<^sup>*\<^sup>* (w_dir w) (w_dir (append_rows n w)) \<and> w_shards (append_rows n w) = w_shards w"
proof -
  have names: "names_inv w" using assms(1) by (simp add: base_inv_def)
  have "w_tokens_handle w = Some (part_name (length (w_shards w)) Tokens)"
      "w_starts_handle w = Some (part_name (length (w_shards w)) Starts)"
    using assms(2) by (simp_all add: part_open_def Let_def)
  then show ?thesis
    using append_two_disk [OF assms(3,4) no_final [OF names] no_final [OF names]]
    by (simp add: append_rows_def Let_def)
qed

lemma finalize_disk:
  assumes "part_open S B w" and "finalize_open_shard w = Inr w'"
    and "k \<le> length (w_shards w)" and "length (w_shards w) < 1000000"
  shows "(disk_step k)\<^sup>*\<^sup>* (w_dir w) (w_dir w') \<and> length (w_shards w') = Suc (length (w_shards w)) \<or>
    w' = w"
proof -
  let ?i = "length (w_shards w)"
  let ?d1 = "replace_file (part_name ?i Tokens) (shard_name ?i Tokens) (w_dir w)"
  let ?d2 = "replace_file (part_name ?i Starts) (shard_name ?i Starts) ?d1"
  have "disk_step k (w_dir w) ?d1" "disk_step k ?d1 ?d2"
    by (rule disk_step.rename [OF assms(3,4)])+
  then have "(disk_step k)\<^sup>*\<^sup>* (w_dir w) ?d2" by auto
  moreover have "w_temporary_tokens w = Some (part_name ?i Tokens)"
      "w_temporary_starts w = Some (part_name ?i Starts)"
    using assms(1) by (simp_all add: part_open_def Let_def)
  ultimately show ?thesis
    using assms(2) by (auto simp: finalize_open_shard_def Let_def split: option.splits if_splits)
qed

lemma compact_buffer_disk [simp]:
  "w_dir (compact_buffer w) = w_dir w" "w_shards (compact_buffer w) = w_shards w"
  by (simp_all add: compact_buffer_def)

lemma drain_step_shards:
  assumes "drain_step w = Inr w'"
  shows "length (w_shards w) \<le> length (w_shards w')"
  using assms
  by (auto simp: drain_step_def open_shard_def finalize_open_shard_def append_rows_def Let_def res_simps
      split: if_splits option.splits)

lemma drain_rows_shards:
  "drain_rows w = Inr w' \<Longrightarrow> length (w_shards w) \<le> length (w_shards w')"
proof (induction w rule: drain_rows.induct)
  case (1 w)
  show ?case
  proof (cases "c_tokens_per_row (w_cfg w) \<le> length (w_tokens w) - w_buffer_offset w")
    case True
    with 1(2) obtain w1 where w1: "drain_step w = Inr w1" "drain_rows w1 = Inr w'"
      by (auto simp: drain_rows.simps [of w] res_simps)
    with 1(1) [OF True] drain_step_shards [OF w1(1)] show ?thesis by fastforce
  next
    case False
    with 1(2) show ?thesis by (simp add: drain_rows.simps [of w])
  qed
qed

lemma drain_step_disk:
  assumes inv: "writer_inv S B w" and step: "drain_step w = Inr w'"
    and avail: "c_tokens_per_row (w_cfg w) \<le> length (w_tokens w) - w_buffer_offset w"
    and k: "k \<le> length (w_shards w)" and lt: "length (w_shards w) < 1000000"
  shows "(disk_step k)\<^sup>*\<^sup>* (w_dir w) (w_dir w')"
proof -
  from inv obtain w1 where o: "open_shard w = Inr w1" and b: "base_inv S B w1" and p: "part_open S B w1"
    and fr: "w_tokens w1 = w_tokens w" "w_buffer_offset w1 = w_buffer_offset w"
      "w_rows_in_open_shard w1 = w_rows_in_open_shard w" and sd: "same_docs w w1"
    by (rule open_shard_inv) blast
  note cfg = same_docs_cfg [OF sd]
  have lt1: "w_rows_in_open_shard w1 < c_rows_per_shard (w_cfg w1)"
    using inv fr cfg by (simp add: writer_inv_def)
  note n = batch_rows_props [OF b lt1 avail [folded fr cfg]]
  let ?w2 = "append_rows (batch_rows w1) w1"
  have d1: "(disk_step k)\<^sup>*\<^sup>* (w_dir w) (w_dir w1)" and s1: "w_shards w1 = w_shards w"
    using open_shard_disk [OF inv o k lt] by simp_all
  have d2: "(disk_step k)\<^sup>*\<^sup>* (w_dir w1) (w_dir ?w2)" and s2: "w_shards ?w2 = w_shards w1"
    using append_rows_disk [OF b p] k lt s1 by simp_all
  have p2: "part_open S B ?w2" using append_rows_inv [OF b p n(2)] by blast
  from step o n(1) obtain w3 where w3: "(if w_rows_in_open_shard ?w2 = c_rows_per_shard (w_cfg ?w2)
        then finalize_open_shard ?w2 else Inr ?w2) = Inr w3" and w': "w' = compact_buffer w3"
    unfolding drain_step_def Let_def by (auto simp: res_simps)
  have "(disk_step k)\<^sup>*\<^sup>* (w_dir ?w2) (w_dir w3)"
    using finalize_disk [OF p2, of w3 k] w3 k lt s1 s2 by (auto split: if_splits)
  with d1 d2 w' show ?thesis by (metis compact_buffer_disk(1) rtranclp_trans)
qed

lemma drain_rows_disk:
  assumes "writer_inv S B w" and "drain_rows w = Inr w'"
    and "k \<le> length (w_shards w)" and "length (w_shards w') < 1000000"
  shows "(disk_step k)\<^sup>*\<^sup>* (w_dir w) (w_dir w')"
  using assms
proof (induction w rule: drain_rows.induct)
  case (1 w)
  show ?case
  proof (cases "c_tokens_per_row (w_cfg w) \<le> length (w_tokens w) - w_buffer_offset w")
    case True
    with 1(3) obtain w1 where w1: "drain_step w = Inr w1" "drain_rows w1 = Inr w'"
      by (auto simp: drain_rows.simps [of w] res_simps)
    have inv1: "writer_inv S B w1"
      using drain_step_inv [OF 1(2) True] w1(1) by (metis sum.inject(2))
    have mono: "length (w_shards w) \<le> length (w_shards w1)" "length (w_shards w1) \<le> length (w_shards w')"
      by (rule drain_step_shards [OF w1(1)], rule drain_rows_shards [OF w1(2)])
    have "(disk_step k)\<^sup>*\<^sup>* (w_dir w) (w_dir w1)"
      using mono 1(4,5) by (intro drain_step_disk [OF 1(2) w1(1) True]) linarith+
    moreover have "(disk_step k)\<^sup>*\<^sup>* (w_dir w1) (w_dir w')"
      using mono 1(4,5) by (intro 1(1) [OF True w1(1) inv1 w1(2)]) linarith+
    ultimately show ?thesis by (rule rtranclp_trans)
  next
    case False
    with 1(3) show ?thesis by (simp add: drain_rows.simps [of w])
  qed
qed

text \<open>Adding a document without a cursor.\<close>

lemma as_json_tokens_Nil [simp]: "as_json_tokens d = [] \<longleftrightarrow> d = []"
  by (simp add: as_json_tokens_def)

lemma rbind_Inr_right [simp]: "rbind r Inr = r"
  by (cases r) simp_all

lemma add_document_disk:
  assumes fed: "fed c docs w" and d: "d \<noteq> []" "\<forall>t\<in>set d. t < c_vocab_size c"
    and add: "add_document (as_json_tokens d) None w = Inr w'"
    and k: "k \<le> length (w_shards w)" and lt: "length (w_shards w') < 1000000"
  shows "(disk_step k)\<^sup>*\<^sup>* (w_dir w) (w_dir w') \<and> k \<le> length (w_shards w')"
proof -
  let ?S = "stream_tokens (c_eos_token_id c) (docs @ [d])" and ?B = "stream_starts (docs @ [d])"
  let ?w1 = "w\<lparr>w_tokens := w_tokens w @ d @ [c_eos_token_id c],
      w_starts := w_starts w @ ([True] @ replicate (length d - 1) False) @ [False],
      w_documents := w_documents w + 1,
      w_source_content_tokens := w_source_content_tokens w + length d\<rparr>"
  have c: "w_cfg w = c" and nf: "\<not> w_finished w"
    using fed by (simp_all add: fed_def writer_inv_def base_inv_def)
  have "length (([True] @ replicate (length d - 1) False) @ [False]) = length (d @ [c_eos_token_id c])"
    using d(1) by (cases d) auto
  then have inv: "writer_inv ?S ?B ?w1"
    unfolding stream_snoc using fed by (intro writer_inv_extend) (auto simp: fed_def)
  have dr: "drain_rows ?w1 = Inr w'"
    using add d nf c check_tokens_ok [OF d(2)]
    by (simp add: add_document_def Let_def)
  from drain_rows_disk [OF inv dr] k lt have "(disk_step k)\<^sup>*\<^sup>* (w_dir w) (w_dir w')" by simp
  moreover have "length (w_shards w) \<le> length (w_shards w')"
    using drain_rows_shards [OF dr] by simp
  ultimately show ?thesis using k by simp
qed

lemma add_document_shards:
  assumes "fed c docs w" and "d \<noteq> []" and "\<forall>t\<in>set d. t < c_vocab_size c"
    and add: "add_document (as_json_tokens d) None w = Inr w'"
  shows "length (w_shards w) \<le> length (w_shards w')"
  using add assms(2) check_tokens_ok [OF assms(3)] assms(1)
  by (auto simp: add_document_def as_json_tokens_def Let_def res_simps fed_def dest!: drain_rows_shards
      split: if_splits)

lemma add_documents_disk:
  assumes "fed c docs w" and "docs_ok (c_vocab_size c) later"
    and "foldM (\<lambda>w d. add_document (as_json_tokens d) None w) w later = Inr w'"
    and "k \<le> length (w_shards w)" and "length (w_shards w') < 1000000"
  shows "(disk_step k)\<^sup>*\<^sup>* (w_dir w) (w_dir w') \<and> fed c (docs @ later) w' \<and>
     length (w_shards w) \<le> length (w_shards w')"
  using assms
proof (induction later arbitrary: docs w)
  case (Cons d later)
  from Cons.prems(2) have d: "d \<noteq> []" "\<forall>t\<in>set d. t < c_vocab_size c"
    and later: "docs_ok (c_vocab_size c) later" by (simp_all add: docs_ok_def)
  from add_document_fed [OF Cons.prems(1) d, of None] obtain w1 where
    w1: "add_document (as_json_tokens d) None w = Inr w1" "fed c (docs @ [d]) w1" by auto
  from Cons.prems(3) w1(1) have rest: "foldM (\<lambda>w d. add_document (as_json_tokens d) None w) w1 later = Inr w'"
    by simp
  have le: "length (w_shards w) \<le> length (w_shards w1)"
    by (rule add_document_shards [OF Cons.prems(1) d w1(1)])
  from Cons.IH [OF w1(2) later rest] le Cons.prems(4,5)
  have IH: "(disk_step k)\<^sup>*\<^sup>* (w_dir w1) (w_dir w')" "fed c ((docs @ [d]) @ later) w'"
      "length (w_shards w1) \<le> length (w_shards w')" by auto
  have "(disk_step k)\<^sup>*\<^sup>* (w_dir w) (w_dir w1)"
    using add_document_disk [OF Cons.prems(1) d w1(1)] IH(3) Cons.prems(4,5) by simp
  with IH le show ?case by auto
qed simp

text \<open>A checkpoint gives a checkpointed writer.\<close>

lemma checkpoint_checkpointed:
  assumes fed: "fed c docs w" and v: "is_jobj v" and lt: "length (w_shards w) < 1000000"
    and cp: "checkpoint v w = Inr w'"
  shows "checkpointed c docs w'"
proof -
  from fed have inv: "writer_inv (stream_tokens (c_eos_token_id c) docs) (stream_starts docs) w"
    by (simp add: fed_def)
  from checkpoint_inv [OF inv v] cp obtain j where
    j: "writer_inv (stream_tokens (c_eos_token_id c) docs) (stream_starts docs) w'"
    "journal_payload (Some (sort_keys v)) w = Inr j"
    "map_of (w_dir w') journal_name = Some (JsonFile j)"
    "w' = w\<lparr>w_open_shard_dirty := False, w_source_cursor := Some (sort_keys v),
            w_dir := AList.update journal_name (JsonFile j) (w_dir w)\<rparr>" by auto
  have "journal_payload (Some (sort_keys v)) w' = journal_payload (Some (sort_keys v)) w"
    unfolding j(4) by (auto simp: journal_payload_def open_shard_json_def split: option.split)
  with j fed v lt show ?thesis
    by (auto simp: checkpointed_def fed_def sort_keys_idem)
qed

lemma resume_equals_uninterrupted:
  assumes cp: "checkpointed c docs w" and lost: "docs_ok (c_vocab_size c) lost"
    and run: "foldM (\<lambda>w d. add_document (as_json_tokens d) None w) w lost = Inr w1"
    and lt: "length (w_shards w1) < 1000000"
    and crash: "(disk_step (length (w_shards w)))\<^sup>*\<^sup>* (w_dir w1) d"
    and rest: "docs_ok (c_vocab_size c) (map fst rest)" "\<forall>(d, cursor)\<in>set rest. cursor_ok cursor"
  shows "\<exists>w2 w3 w4. open_writer True c d = Inr w2 \<and> w_source_cursor w2 = w_source_cursor w \<and>
     foldM (\<lambda>w (d, cursor). add_document (as_json_tokens d) cursor w) w2 rest = Inr w3 \<and>
     finish None w3 = Inr (packed_manifest c (docs @ map fst rest) (last_cursor (w_source_cursor w) rest), w4) \<and>
     map_of (w_dir w4) = map_of (packed_dir c (docs @ map fst rest) (last_cursor (w_source_cursor w) rest))"
proof -
  from cp have fed: "fed c docs w" by (simp add: checkpointed_def)
  have "(disk_step (length (w_shards w)))\<^sup>*\<^sup>* (w_dir w) (w_dir w1)"
    using add_documents_disk [OF fed lost run order_refl lt] by blast
  from this crash have "(disk_step (length (w_shards w)))\<^sup>*\<^sup>* (w_dir w) d" by (rule rtranclp_trans)
  then have "committed w d" by (rule committed_reachable [OF _ checkpointed_committed [OF cp]])
  from recovery [OF cp this] obtain d' where d': "open_writer True c d = Inr (rolled_back w d')"
    "map_of d' = map_of (w_dir w)" "distinct (map fst d')" by blast
  let ?w2 = "rolled_back w d'"
  have fed2: "fed c docs ?w2" by (rule fed_rolled_back [OF fed d'(2,3)])
  have cur2: "w_source_cursor ?w2 = w_source_cursor w" by (simp add: rolled_back_def)
  from add_documents_fed [OF fed2 rest] obtain w3 where
    w3: "foldM (\<lambda>w (d, cursor). add_document (as_json_tokens d) cursor w) ?w2 rest = Inr w3"
    "fed c (docs @ map fst rest) w3" "w_source_cursor w3 = last_cursor (w_source_cursor w) rest"
    using cur2 by auto
  from finish_fed [OF w3(2), of None] w3(3) obtain w4 where
    "finish None w3 = Inr (packed_manifest c (docs @ map fst rest) (last_cursor (w_source_cursor w) rest), w4)"
    "map_of (w_dir w4) = map_of (packed_dir c (docs @ map fst rest) (last_cursor (w_source_cursor w) rest))"
    by (auto simp: cursor_ok_def cursor_after_def)
  with d'(1) cur2 w3(1) show ?thesis by blast
qed

section \<open>A crash between the manifest and the removal of the journal\<close>

lemma spec_shard_fields:
  "sh_tokens_path (spec_shard c S B R i) = shard_name i Tokens"
  "sh_starts_path (spec_shard c S B R i) = shard_name i Starts"
  "sh_rows (spec_shard c S B R i) = min (Suc i * c_rows_per_shard c) R - i * c_rows_per_shard c"
  by (simp_all add: spec_shard_def Let_def)

lemma check_finished_spec:
  assumes n: "1 \<le> c_rows_per_shard c" and i: "i < shard_count (c_rows_per_shard c) R"
    and rs: "\<forall>r < R. r * c_sequence_length c + c_sequence_length c < length S" and len: "length B = length S"
    and f: "file_is d c S B (shard_name i) (i * c_rows_per_shard c) (min (Suc i * c_rows_per_shard c) R)"
  shows "check_finished_shard c d (spec_shard c S B R i,
      shard_json c S B i (i * c_rows_per_shard c) (min (Suc i * c_rows_per_shard c) R)) = Inr ()"
proof -
  let ?T = "c_sequence_length c" and ?a = "i * c_rows_per_shard c" and ?b = "min (Suc i * c_rows_per_shard c) R"
  have "?a < R" by (rule shard_start_less [OF n i])
  then have "?b \<noteq> 0" using n by auto
  then obtain b' where b': "?b = Suc b'" by (cases ?b) auto
  then have "b' < R" by linarith
  with rs have "b' * ?T + ?T < length S" by blast
  then have last: "?b * ?T < length S" "?b * ?T < length B" unfolding b' len by simp_all
  have sizes: "length (rows_token_bytes ?T S ?a ?b) = (?b - ?a) * row_width c Tokens"
      "length (rows_start_bytes ?T B ?a ?b) = (?b - ?a) * row_width c Starts"
    using length_rows_token_bytes [OF last(1), of ?a] length_rows_start_bytes [OF last(2), of ?a]
    by (simp_all add: row_width_def c_tokens_per_row_def c_starts_bytes_per_row_def mult.assoc)
  have "sized_file d (shard_name i Tokens) ((?b - ?a) * row_width c Tokens)"
      "sized_file d (shard_name i Starts) ((?b - ?a) * row_width c Starts)"
    using f sizes by (simp_all add: file_is_def sized_file_def)
  then show ?thesis
    by (simp add: check_finished_shard_def Let_def spec_shard_fields shard_json_fields
        row_width_def mult.assoc del: mult_Suc of_nat_mult)
qed

lemma reopen_finished:
  assumes c: "wf_config c" and docs: "docs_ok (c_vocab_size c) docs"
    and cur: "case cursor of None \<Rightarrow> True | Some v \<Rightarrow> is_jobj v \<and> sort_keys v = v"
    and d: "\<And>p. p \<noteq> journal_name \<Longrightarrow> map_of (remove_stale d) p = map_of (packed_dir c docs cursor) p"
  shows "\<exists>w. open_writer True c d = Inr w \<and> w_finished w \<and> w_source_cursor w = cursor \<and>
     w_documents w = length docs \<and> w_shards w = w_shards (packed_state c docs cursor) \<and>
     map_of (w_dir w) = map_of (packed_dir c docs cursor) \<and>
     finish final w = Inr (packed_manifest c docs cursor, w)"
proof -
  let ?S = "stream_tokens (c_eos_token_id c) docs" and ?B = "stream_starts docs"
  let ?R = "packed_rows c ?S" and ?n = "c_rows_per_shard c" and ?T = "c_sequence_length c"
  let ?w = "packed_state c docs cursor" and ?d = "remove_stale d" and ?m = "packed_manifest c docs cursor"
  let ?K = "shard_count ?n ?R"
  have n: "1 \<le> ?n" and T: "0 < ?T" using c by (simp_all add: wf_config_def)
  note ct = packed_state_counts [OF c docs, of cursor]
  have mf: "map_of ?d manifest_name = Some (JsonFile ?m)"
    by (simp add: d packed_dir_def Let_def)
  have load: "load_json ?d manifest_name = Inr ?m"
    by (simp add: load_json_def mf packed_manifest_def manifest_fields)
  have obj: "cursor_ok cursor" using cur by (cases cursor) (simp_all add: cursor_ok_def)
  then have parse: "parse_packed_manifest ?m = Inr (map (spec_shard c ?S ?B ?R) [0..<?K])"
    using parse_packed_manifest_spec [OF c docs, of cursor] by (simp add: cursor_ok_def Let_def)
  have ident: "found_identity ?m = identity c"
    by (simp add: found_identity_def packed_manifest_def manifest_fields ct(1) identity_def)
  have shards: "w_shards ?w = map (\<lambda>i. shard_json c ?S ?B i (i * ?n) (min (Suc i * ?n) ?R)) [0..<?K]"
    by (simp add: packed_state_def packed_shards_def Let_def)
  then have z: "zip (map (spec_shard c ?S ?B ?R) [0..<?K]) (w_shards ?w) = map (\<lambda>i.
        (spec_shard c ?S ?B ?R i, shard_json c ?S ?B i (i * ?n) (min (Suc i * ?n) ?R))) [0..<?K]"
    by (simp add: zip_map1 zip_map2 zip_same_conv_map comp_def)
  have rows: "\<forall>r < ?R. r * ?T + ?T < length ?S"
    using T by (simp add: packed_rows_def packed_row_in_stream)
  have "file_is ?d c ?S ?B (shard_name i) (i * ?n) (min (Suc i * ?n) ?R)" if "i < ?K" for i
    using that by (simp add: file_is_def d packed_dir_def Let_def map_of_concat_shards map_of_shard_files)
  then have chk: "mapM (check_finished_shard c ?d) (zip (map (spec_shard c ?S ?B ?R) [0..<?K]) (w_shards ?w))
      = Inr (map (\<lambda>_. ()) (zip (map (spec_shard c ?S ?B ?R) [0..<?K]) (w_shards ?w)))"
    unfolding z using check_finished_spec [OF n _ rows length_stream_starts [OF docs]]
    by (intro mapM_Inr_map) auto
  have known: "\<not> list_ex (\<lambda>(p, _). p \<notin> set (manifest_name # journal_name #
      concat (map (\<lambda>s. [sh_tokens_path s, sh_starts_path s]) (map (spec_shard c ?S ?B ?R) [0..<?K])))) ?d"
  proof -
    have "map_of (unlink_file journal_name ?d) = map_of (packed_dir c docs cursor)"
      by (rule ext) (simp add: map_of_unlink_file d packed_dir_def Let_def map_of_concat_other)
    from unknown_files_none [OF this, of ?S ?B ?R] show ?thesis
      by (fastforce simp: list_ex_iff unlink_file_def AList.delete_eq)
  qed
  have opt: "optional_cursor (json_opt cursor) = Inr cursor"
    using cur by (cases cursor) (auto simp: optional_cursor_def json_opt_def canonical_json_mapping_def)
  have ex: "file_exists ?d manifest_name" using mf by (simp add: file_exists_def)
  let ?v = "(fresh_writer c)\<lparr>w_shards := w_shards ?w, w_documents := length docs,
         w_source_content_tokens := w_source_content_tokens ?w, w_rows := w_rows ?w,
         w_valid_loss_tokens := w_valid_loss_tokens ?w,
         w_masked_boundary_labels := w_masked_boundary_labels ?w,
         w_source_cursor := cursor, w_finished := True, w_resumed := True,
         w_dir := unlink_file journal_name ?d\<rparr>"
  have fin: "resume_finished c ?d = Inr ?v"
    unfolding resume_finished_def load rbind_Inr parse Let_def
    using chk known ident ct(2)
    by (simp only: py_eq_refl [OF json_wf_identity] simp_thms if_False rbind_Inr packed_manifest_def
        manifest_fields jlist_of.simps jint_of.simps nat_int opt)
      (simp add: packed_state_def Let_def)
  then have "open_writer True c d = Inr ?v" using ex by (simp add: open_writer_def)
  moreover have dirs: "map_of (w_dir ?v) = map_of (packed_dir c docs cursor)"
    by (rule ext) (simp add: map_of_unlink_file d packed_dir_def Let_def map_of_concat_other)
  moreover have "finish final ?v = Inr (?m, ?v)"
    using mf by (simp add: finish_def map_of_unlink_file)
  ultimately show ?thesis by (intro exI [of _ ?v]) simp
qed

section \<open>Runs\<close>

text \<open>A run up to a checkpoint, in the terms of the operations alone.\<close>

definition checkpointed_run ::
  "wconfig \<Rightarrow> (nat list \<times> json option) list \<Rightarrow> json \<Rightarrow> writer res" where
  "checkpointed_run c items v =
     rbind (create_writer c) (\<lambda>w0.
     rbind (foldM (\<lambda>w (d, cursor). add_document (as_json_tokens d) cursor w) w0 items) (\<lambda>w.
       checkpoint v w))"

lemma fed_shards_bound:
  assumes "fed c docs w"
  shows "length (w_shards w) \<le> length (stream_tokens (c_eos_token_id c) docs)"
proof -
  let ?S = "stream_tokens (c_eos_token_id c) docs"
  from assms have b: "base_inv ?S (stream_starts docs) w" and cfg: "w_cfg w = c"
    by (simp_all add: fed_def writer_inv_def)
  then have n: "1 \<le> c_rows_per_shard c" and T: "1 \<le> c_sequence_length c"
    and R: "length (w_shards w) * c_rows_per_shard c \<le> w_rows w"
    and S: "w_rows w * c_sequence_length c \<le> length ?S"
    by (auto simp: base_inv_def wf_config_def shards_inv_def buffer_inv_def Let_def)
  have "length (w_shards w) \<le> length (w_shards w) * c_rows_per_shard c" using n by simp
  also have "\<dots> \<le> w_rows w * 1" using R by simp
  also have "\<dots> \<le> w_rows w * c_sequence_length c" using T by (intro mult_le_mono2)
  finally show ?thesis using S by linarith
qed

lemma checkpointed_run_ok:
  assumes "wf_config c" and "docs_ok (c_vocab_size c) (map fst items)"
    and "\<forall>(d, cursor)\<in>set items. cursor_ok cursor" and "is_jobj v"
  shows "\<exists>w. checkpointed_run c items v = Inr w"
    and "checkpointed_run c items v = Inr w \<Longrightarrow> length (w_shards w) < 1000000 \<Longrightarrow>
      checkpointed c (map fst items) w \<and> w_source_cursor w = Some (sort_keys v)"
    and "checkpointed_run c items v = Inr w \<Longrightarrow> fed c (map fst items) w"
proof -
  from create_writer_fed [OF assms(1)] obtain w0 where w0: "create_writer c = Inr w0" "fed c [] w0"
    by blast
  from add_documents_fed [OF w0(2) assms(2,3)] obtain w1 where
    w1: "foldM (\<lambda>w (d, cursor). add_document (as_json_tokens d) cursor w) w0 items = Inr w1"
    "fed c (map fst items) w1" by auto
  then have "writer_inv (stream_tokens (c_eos_token_id c) (map fst items)) (stream_starts (map fst items)) w1"
    by (simp add: fed_def)
  from checkpoint_inv [OF this assms(4)] obtain w2 j where
    w2: "checkpoint v w1 = Inr w2" "w2 = w1\<lparr>w_open_shard_dirty := False, w_source_cursor := Some (sort_keys v),
            w_dir := AList.update journal_name (JsonFile j) (w_dir w1)\<rparr>"
      "writer_inv (stream_tokens (c_eos_token_id c) (map fst items)) (stream_starts (map fst items)) w2"
    by auto
  have run: "checkpointed_run c items v = Inr w2"
    using w0(1) w1(1) w2(1) by (simp add: checkpointed_run_def)
  then show "\<exists>w. checkpointed_run c items v = Inr w" by blast
  have cp: "checkpointed c (map fst items) w2" if "length (w_shards w2) < 1000000"
    using checkpoint_checkpointed [OF w1(2) assms(4) _ w2(1)] that w2(2) by simp
  with run w2(2) show "checkpointed_run c items v = Inr w \<Longrightarrow> length (w_shards w) < 1000000 \<Longrightarrow>
      checkpointed c (map fst items) w \<and> w_source_cursor w = Some (sort_keys v)" by auto
  have "fed c (map fst items) w2" using w1(2) w2(2,3) by (simp add: fed_def)
  with run show "checkpointed_run c items v = Inr w \<Longrightarrow> fed c (map fst items) w" by simp
qed

lemma add_documents_none_fed:
  assumes "fed c docs w" and "docs_ok (c_vocab_size c) later"
  shows "\<exists>w'. foldM (\<lambda>w d. add_document (as_json_tokens d) None w) w later = Inr w' \<and> fed c (docs @ later) w'"
  using assms
proof (induction later arbitrary: docs w)
  case (Cons d later)
  from Cons.prems(2) have d: "d \<noteq> []" "\<forall>t\<in>set d. t < c_vocab_size c"
    and later: "docs_ok (c_vocab_size c) later" by (simp_all add: docs_ok_def)
  from add_document_fed [OF Cons.prems(1) d, of None] obtain w1 where
    "add_document (as_json_tokens d) None w = Inr w1" "fed c (docs @ [d]) w1" by auto
  with Cons.IH [OF this(2) later] show ?case by simp
qed simp

lemma crash_committed:
  assumes cp: "checkpointed c docs w" and lost: "docs_ok (c_vocab_size c) lost"
    and run: "foldM (\<lambda>w d. add_document (as_json_tokens d) None w) w lost = Inr w1"
    and lt: "length (w_shards w1) < 1000000"
    and crash: "(disk_step (length (w_shards w)))\<^sup>*\<^sup>* (w_dir w1) d"
  shows "committed w d"
proof -
  from cp have fed: "fed c docs w" by (simp add: checkpointed_def)
  have "(disk_step (length (w_shards w)))\<^sup>*\<^sup>* (w_dir w) (w_dir w1)"
    using add_documents_disk [OF fed lost run order_refl lt] by blast
  from this crash have "(disk_step (length (w_shards w)))\<^sup>*\<^sup>* (w_dir w) d" by (rule rtranclp_trans)
  then show ?thesis by (rule committed_reachable [OF _ checkpointed_committed [OF cp]])
qed

end
