(* ===== verification/Search.thy ===== *)
theory Search
  imports Prelude
begin

text \<open>
  Binary search. \<open>first_false\<close> is the loop of \<^verbatim>\<open>bisect.bisect_right\<close> (CPython) and of
  every hand-written bisection of the code: it keeps an interval and halves it on a test. The
  locale states what the test must satisfy and what the result then is.
\<close>

function first_false :: "(nat \<Rightarrow> bool) \<Rightarrow> nat \<Rightarrow> nat \<Rightarrow> nat" where
  "first_false Q lo hi =
     (if lo < hi
      then let mid = (lo + hi) div 2 in
           if Q mid then first_false Q (mid + 1) hi else first_false Q lo mid
      else lo)"
  by pat_completeness auto
termination by (relation "measure (\<lambda>(Q, lo, hi). hi - lo)") auto

declare first_false.simps [simp del]

locale antitone_test =
  fixes Q :: "nat \<Rightarrow> bool" and n :: nat
  assumes antitone: "i \<le> j \<Longrightarrow> j < n \<Longrightarrow> Q j \<Longrightarrow> Q i"
begin

text \<open>The loop keeps: the test holds below \<open>lo\<close> and fails from \<open>hi\<close> on.\<close>

lemma first_false_bounds:
  assumes "lo \<le> hi" and "hi \<le> n" and "\<forall>i<lo. Q i" and "\<forall>i. hi \<le> i \<longrightarrow> i < n \<longrightarrow> \<not> Q i"
  shows "first_false Q lo hi \<le> hi \<and> (\<forall>i<first_false Q lo hi. Q i) \<and>
     (\<forall>i. first_false Q lo hi \<le> i \<longrightarrow> i < n \<longrightarrow> \<not> Q i)"
  using assms
proof (induction "hi - lo" arbitrary: lo hi rule: less_induct)
  case less
  show ?case
  proof (cases "lo < hi")
    case False
    then have "first_false Q lo hi = lo" by (simp add: first_false.simps [of Q lo hi])
    with less.prems False show ?thesis by auto
  next
    case True
    let ?mid = "(lo + hi) div 2"
    have m: "lo \<le> ?mid" "?mid < hi" "?mid < n" using True less.prems(2) by auto
    show ?thesis
    proof (cases "Q ?mid")
      case True
      have step: "first_false Q lo hi = first_false Q (?mid + 1) hi"
        by (subst first_false.simps) (simp only: Let_def True \<open>lo < hi\<close> if_True)
      have "\<forall>i<?mid + 1. Q i" using antitone [OF _ m(3) True] by auto
      then show ?thesis
        unfolding step using less.prems(2,4) m by (intro less.hyps) auto
    next
      case False
      then have upper: "\<forall>i. ?mid \<le> i \<longrightarrow> i < n \<longrightarrow> \<not> Q i" using antitone by blast
      have step: "first_false Q lo hi = first_false Q lo ?mid"
        by (subst first_false.simps) (simp only: Let_def False \<open>lo < hi\<close> if_True if_False)
      have "?mid - lo < hi - lo" "?mid \<le> n" using m \<open>lo < hi\<close> by linarith+
      then have "first_false Q lo ?mid \<le> ?mid \<and> (\<forall>i<first_false Q lo ?mid. Q i) \<and>
          (\<forall>i. first_false Q lo ?mid \<le> i \<longrightarrow> i < n \<longrightarrow> \<not> Q i)"
        using m(1) less.prems(3) upper by (intro less.hyps)
      then show ?thesis unfolding step using m(2) by (meson less_imp_le_nat order_trans)
    qed
  qed
qed

text \<open>Over the whole range: the number of indices that pass the test.\<close>

lemma first_false_correct:
  "first_false Q 0 n \<le> n" "i < first_false Q 0 n \<Longrightarrow> Q i"
  "first_false Q 0 n \<le> i \<Longrightarrow> i < n \<Longrightarrow> \<not> Q i"
  using first_false_bounds [of 0 n] by auto

lemma first_false_unique:
  assumes "k \<le> n" and "\<And>i. i < k \<Longrightarrow> Q i" and "k < n \<Longrightarrow> \<not> Q k"
  shows "first_false Q 0 n = k"
proof (rule linorder_cases [of "first_false Q 0 n" k])
  assume "first_false Q 0 n < k"
  with assms first_false_correct(3) [OF order_refl] show ?thesis by force
next
  assume "k < first_false Q 0 n"
  with first_false_correct(1,2) assms(3) show ?thesis by force
qed

end

text \<open>\<^verbatim>\<open>bisect.bisect_right(xs, x)\<close>.\<close>

definition bisect_right :: "nat list \<Rightarrow> nat \<Rightarrow> nat" where
  "bisect_right xs x = first_false (\<lambda>i. xs ! i \<le> x) 0 (length xs)"

text \<open>
  Running totals, as the readers accumulate shard ends: a sorted list, so bisection on it finds
  the segment an index falls in.
\<close>

fun running_totals :: "nat \<Rightarrow> nat list \<Rightarrow> nat list" where
  "running_totals t [] = []"
| "running_totals t (x # xs) = (t + x) # running_totals (t + x) xs"

lemma length_running_totals [simp]: "length (running_totals t xs) = length xs"
  by (induction xs arbitrary: t) auto

lemma nth_running_totals: "i < length xs \<Longrightarrow> running_totals t xs ! i = t + sum_list (take (Suc i) xs)"
proof (induction xs arbitrary: t i)
  case (Cons x xs)
  then show ?case by (cases i) auto
qed simp

lemma sum_take_mono: "i \<le> j \<Longrightarrow> sum_list (take i xs) \<le> sum_list (take j (xs :: nat list))"
  by (metis le_add_diff_inverse le_add1 sum_list_append take_add)

interpretation totals: antitone_test "\<lambda>i. running_totals t xs ! i \<le> x" "length (running_totals t xs)" for t xs x
proof unfold_locales
  fix i j assume "i \<le> j" "j < length (running_totals t xs)" "running_totals t xs ! j \<le> x"
  with sum_take_mono [of "Suc i" "Suc j" xs] show "running_totals t xs ! i \<le> x"
    by (simp add: nth_running_totals)
qed

lemma bisect_running_totals:
  assumes "k < length xs" and "sum_list (take k xs) \<le> x" and "x < sum_list (take (Suc k) xs)"
  shows "bisect_right (running_totals 0 xs) x = k"
  unfolding bisect_right_def
proof (rule totals.first_false_unique)
  show "k \<le> length (running_totals 0 xs)" using assms(1) by simp
  show "running_totals 0 xs ! i \<le> x" if "i < k" for i
    using that assms(1,2) sum_take_mono [of "Suc i" k xs] by (simp add: nth_running_totals)
  show "\<not> running_totals 0 xs ! k \<le> x"
    using assms(1,3) by (simp add: nth_running_totals)
qed

end
