(* ===== verification/PackedReader.thy ===== *)
theory PackedReader
  imports PackedCrash Search
begin

text \<open>
  Reading packed rows back: sample references, \<^verbatim>\<open>PackedShardDataset\<close>,
  \<^verbatim>\<open>DomainMixtureDataset\<close>, \<^verbatim>\<open>PackedBatchCollator\<close> and the supervised-token audit
  \<^verbatim>\<open>_count_supervised_tokens_for_references\<close>. A memory map is the file's bytes; opening
  one again is the same value, so the cache of open maps is not part of the state.
\<close>

section \<open>Sample references\<close>

definition row_bits :: nat where "row_bits = 56"

definition encode_reference :: "int \<Rightarrow> int \<Rightarrow> 64 word res" where
  "encode_reference domain_id row_id =
     (if \<not> (0 \<le> domain_id \<and> domain_id < 256) then Inl (ValueError ''domain_id is out of range'')
      else if \<not> (0 \<le> row_id \<and> row_id \<le> 2 ^ row_bits - 1) then Inl (ValueError ''row_id is out of range'')
      else Inr (push_bit row_bits (word_of_int domain_id) OR word_of_int row_id))"

definition decode_reference :: "64 word \<Rightarrow> nat \<times> nat" where
  "decode_reference w = (unat (drop_bit row_bits w), unat (take_bit row_bits w))"

lemma bit_below: "n < 2 ^ k \<Longrightarrow> bit (n::nat) i \<Longrightarrow> i < k"
proof -
  assume "n < 2 ^ k" and b: "bit n i"
  then have "take_bit k n = n" by (simp add: take_bit_nat_eq_self)
  then have "bit (take_bit k n) i" using b by simp
  then show "i < k" by (simp add: bit_take_bit_iff)
qed

lemma encode_decode:
  assumes d: "d < 256" and r: "r < 2 ^ row_bits"
  shows "encode_reference (int d) (int r)
       = Inr (push_bit row_bits (word_of_nat d) OR word_of_nat r)"
    and "decode_reference (push_bit row_bits (word_of_nat d) OR word_of_nat r) = (d, r)"
proof -
  have "int r \<le> 2 ^ row_bits - 1" using r by (simp add: row_bits_def)
  then show "encode_reference (int d) (int r) = Inr (push_bit row_bits (word_of_nat d) OR word_of_nat r)"
    using d by (simp add: encode_reference_def)
  let ?w = "push_bit row_bits (word_of_nat d) OR word_of_nat r :: 64 word"
  have d8: "bit d i \<Longrightarrow> i < 8" for i using bit_below [of d 8 i] d by simp
  have hi: "drop_bit row_bits ?w = word_of_nat d"
  proof (rule bit_word_eqI)
    fix i :: nat assume i: "i < LENGTH(64)"
    have r0: "\<not> bit r (row_bits + i)" using bit_below [OF r, of "row_bits + i"] by auto
    show "bit (drop_bit row_bits ?w) i = bit (word_of_nat d :: 64 word) i"
    proof (cases "row_bits + i < 64")
      case True
      with r0 i show ?thesis by (simp add: bit_drop_bit_eq bit_or_iff bit_push_bit_iff bit_of_nat_iff)
    next
      case False
      then have "\<not> bit d i" using d8 [of i] by (auto simp: row_bits_def)
      with False i show ?thesis by (auto simp: bit_drop_bit_eq bit_or_iff bit_push_bit_iff bit_of_nat_iff)
    qed
  qed
  have lo: "take_bit row_bits ?w = word_of_nat r"
  proof (rule bit_word_eqI)
    fix i :: nat assume i: "i < LENGTH(64)"
    have "\<not> bit r i" if "row_bits \<le> i" using bit_below [OF r, of i] that by auto
    then show "bit (take_bit row_bits ?w) i = bit (word_of_nat r :: 64 word) i"
      using i by (auto simp: bit_take_bit_iff bit_or_iff bit_push_bit_iff bit_of_nat_iff)
  qed
  have "d < 2 ^ LENGTH(64)" "r < 2 ^ LENGTH(64)"
    using d r by (simp_all add: row_bits_def)
  then show "decode_reference ?w = (d, r)"
    unfolding decode_reference_def hi lo by (simp add: unat_of_nat)
qed

section \<open>One packed directory\<close>

record dataset =
  ds_manifest :: json
  ds_shards :: "shard list"
  ds_ends :: "nat list"
  ds_files :: dir

record packed_row =
  r_tokens :: "int list"
  r_starts :: "int list"
  r_row_id :: nat

definition ds_num :: "dataset \<Rightarrow> string \<Rightarrow> nat" where
  "ds_num ds k = nat (jint_of (jget (ds_manifest ds) k))"

definition require_exact_shard_files :: "dir \<Rightarrow> nat \<Rightarrow> nat \<Rightarrow> shard \<Rightarrow> unit res" where
  "require_exact_shard_files d tokens_per_row starts_bytes_per_row shard =
     (if \<not> sized_file d (sh_tokens_path shard) (sh_rows shard * tokens_per_row * 2)
      then Inl (IOError ''Packed payload missing or of the wrong size'')
      else if \<not> sized_file d (sh_starts_path shard) (sh_rows shard * starts_bytes_per_row)
      then Inl (IOError ''Packed payload missing or of the wrong size'')
      else Inr ())"

definition open_dataset :: "bool \<Rightarrow> dir \<Rightarrow> dataset res" where
  "open_dataset verify_checksums d =
     rbind (if verify_checksums then validate_packed_manifest True d else Inr JNull) (\<lambda>_.
     rbind (load_json d manifest_name) (\<lambda>m.
     rbind (parse_packed_manifest m) (\<lambda>shards.
     rbind (mapM (require_exact_shard_files d (nat (jint_of (jget m ''tokens_per_row'')))
              (nat (jint_of (jget m ''starts_bytes_per_row'')))) shards) (\<lambda>_.
     Inr \<lparr>ds_manifest = m, ds_shards = shards,
          ds_ends = running_totals 0 (map sh_rows shards), ds_files = d\<rparr>))))"

definition ds_len :: "dataset \<Rightarrow> int" where
  "ds_len ds = jint_of (jget (ds_manifest ds) ''rows'')"

text \<open>\<^verbatim>\<open>__getitem__\<close>: Python's negative index, then bisection on the shard ends.\<close>

definition get_row :: "dataset \<Rightarrow> int \<Rightarrow> packed_row res" where
  "get_row ds row_id0 =
     (let row_id = (if row_id0 < 0 then row_id0 + ds_len ds else row_id0) in
      if \<not> (0 \<le> row_id \<and> row_id < ds_len ds) then Inl (IndexError ''row_id'')
      else let r = nat row_id;
               shard_index = bisect_right (ds_ends ds) r;
               shard_start = (if shard_index = 0 then 0 else ds_ends ds ! (shard_index - 1));
               local_row = r - shard_start;
               shard = ds_shards ds ! shard_index;
               n = ds_num ds ''tokens_per_row''; w = ds_num ds ''starts_bytes_per_row'' in
      if length (ds_shards ds) \<le> shard_index then Inl (IndexError ''shard'')
      else rbind (require_exact_shard_files (ds_files ds) n w shard) (\<lambda>_.
        Inr \<lparr>r_tokens = map int (map_tokens n (file_bytes (ds_files ds) (sh_tokens_path shard)) local_row),
             r_starts = map uint (map_starts w (file_bytes (ds_files ds) (sh_starts_path shard)) local_row),
             r_row_id = r\<rparr>))"

section \<open>The domain mixture\<close>

record mixed_row = packed_row +
  r_domain_id :: nat
  r_reference :: "64 word"

definition mixture_keys :: "string list" where
  "mixture_keys = [''sequence_length'', ''tokens_per_row'', ''vocab_size'', ''eos_token_id'',
     ''split'', ''tokenizer_manifest_sha256'']"

definition open_mixture :: "bool \<Rightarrow> (string \<times> dir) list \<Rightarrow> dataset list res" where
  "open_mixture verify_checksums manifests =
     (if set (map fst manifests) \<noteq> set domain_order
      then Inl (ValueError ''Expected exactly the domains'')
      else rbind (mapM (\<lambda>name. open_dataset verify_checksums (the (map_of manifests name))) domain_order)
        (\<lambda>datasets.
        let first = ds_manifest (datasets ! 0) in
        rbind (mapM (\<lambda>(ds, name).
            if \<not> py_eq (jget (ds_manifest ds) ''domain'') (JStr name)
            then Inl (ValueError ''Manifest declares another domain'')
            else if \<not> list_all (\<lambda>k. py_eq (jget (ds_manifest ds) k) (jget first k)) mixture_keys
            then Inl (ValueError ''All domain manifests must agree'')
            else Inr ()) (zip datasets domain_order)) (\<lambda>_. Inr datasets)))"

definition mixture_len :: "dataset list \<Rightarrow> int" where
  "mixture_len datasets = sum_list (map ds_len datasets)"

definition get_reference :: "dataset list \<Rightarrow> 64 word \<Rightarrow> mixed_row res" where
  "get_reference datasets reference =
     (let (domain_id, row_id) = decode_reference reference in
      if \<not> domain_id < length datasets then Inl (IndexError ''Unknown encoded domain ID'')
      else rbind (get_row (datasets ! domain_id) (int row_id)) (\<lambda>row.
        Inr \<lparr>r_tokens = r_tokens row, r_starts = r_starts row, r_row_id = r_row_id row,
             r_domain_id = domain_id, r_reference = reference\<rparr>))"

section \<open>The collator\<close>

definition ignore_index :: int where
  "ignore_index = - 100"

record collator =
  k_sequence_length :: nat
  k_vocab_size :: "int option"
  k_eos_token_id :: "int option"

definition json_int_opt :: "json \<Rightarrow> int option" where
  "json_int_opt v = (if v = JNull then None else Some (jint_of v))"

definition make_collator :: "json \<Rightarrow> json \<Rightarrow> json \<Rightarrow> collator res" where
  "make_collator sequence_length vocab_size eos_token_id =
     (if \<not> is_jint sequence_length then Inl (TypeError ''sequence_length must be an integer'')
      else if jint_of sequence_length < 2
      then Inl (ValueError ''sequence_length must be at least 2'')
      else if (vocab_size = JNull) \<noteq> (eos_token_id = JNull)
      then Inl (ValueError ''vocab_size and eos_token_id must be supplied together'')
      else if list_ex (\<lambda>v. v \<noteq> JNull \<and> \<not> is_jint v) [vocab_size, eos_token_id]
      then Inl (TypeError ''must be an integer'')
      else if vocab_size \<noteq> JNull \<and> \<not> (1 \<le> jint_of vocab_size \<and> jint_of vocab_size \<le> 65536)
      then Inl (ValueError ''vocab_size must fit in uint16'')
      else if vocab_size \<noteq> JNull \<and>
          \<not> (0 \<le> jint_of eos_token_id \<and> jint_of eos_token_id < jint_of vocab_size)
      then Inl (ValueError ''eos_token_id must be inside the vocabulary'')
      else Inr \<lparr>k_sequence_length = nat (jint_of sequence_length),
             k_vocab_size = json_int_opt vocab_size, k_eos_token_id = json_int_opt eos_token_id\<rparr>)"

text \<open>\<^verbatim>\<open>np.maximum.accumulate(np.where(starts, indices, 0))\<close> and the running count.\<close>

fun accumulate_max :: "nat \<Rightarrow> nat list \<Rightarrow> nat list" where
  "accumulate_max m [] = []"
| "accumulate_max m (x # xs) = max m x # accumulate_max (max m x) xs"

definition last_starts :: "bool list \<Rightarrow> nat list" where
  "last_starts fl = accumulate_max 0 (map (\<lambda>(i, s). if s then i else 0) (enumerate 0 fl))"

definition row_positions :: "bool list \<Rightarrow> int list" where
  "row_positions fl = map (\<lambda>(i, l). int i - int l) (enumerate 0 (last_starts fl))"

definition row_document_ids :: "bool list \<Rightarrow> int list" where
  "row_document_ids fl = map (\<lambda>n. int n - 1) (running_totals 0 (map of_bool fl))"

definition row_labels :: "bool list \<Rightarrow> int list \<Rightarrow> int list" where
  "row_labels fl toks = map (\<lambda>(s, t). if s then ignore_index else t) (zip fl toks)"

record batch =
  b_input_ids :: "int list list"
  b_labels :: "int list list"
  b_position_ids :: "int list list"
  b_document_ids :: "int list list"
  b_domain_ids :: "nat list"
  b_row_ids :: "nat list"
  b_references :: "64 word list"
  b_num_loss_tokens :: nat

definition byte_row :: "int list \<Rightarrow> byte list" where
  "byte_row bs = map word_of_int bs"

text \<open>The checks of a batch, then the tensors.\<close>

definition check_batch :: "collator \<Rightarrow> mixed_row list \<Rightarrow> unit res" where
  "check_batch k rws =
     (let T = k_sequence_length k; n = T + 1 in
      if rws = [] then Inl (ValueError ''Cannot collate an empty batch'')
      else if \<not> list_all (\<lambda>r. length (r_tokens r) = n) rws
      then Inl (ValueError ''Expected token batch shape'')
      else if \<not> list_all (\<lambda>r. length (r_starts r) = ceil8 n) rws
      then Inl (ValueError ''Expected starts batch shape'')
      else if list_ex (\<lambda>r. list_ex (\<lambda>b. b < 0 \<or> 255 < b) (r_starts r)) rws
      then Inl (ValueError ''Packed segment-start values must fit in one byte'')
      else if (case k_vocab_size k of None \<Rightarrow> False
           | Some v \<Rightarrow> list_ex (\<lambda>r. list_ex (\<lambda>t. t < 0 \<or> v \<le> t) (r_tokens r)) rws)
      then Inl (ValueError ''Packed batch contains a token outside the vocabulary'')
      else if unused_high_bits_mask n \<noteq> 0 \<and>
          list_ex (\<lambda>r. last (byte_row (r_starts r)) AND unused_high_bits_mask n \<noteq> 0) rws
      then Inl (ValueError ''Packed batch has nonzero unused segment-start bits'')
      else if \<not> list_all (\<lambda>r. unpackbits n (byte_row (r_starts r)) ! 0) rws
      then Inl (ValueError ''Every packed row must begin a new attention segment'')
      else if (case k_eos_token_id k of None \<Rightarrow> False
           | Some eos \<Rightarrow> list_ex (\<lambda>r. list_ex (\<lambda>(s, t). s \<and> t \<noteq> eos)
               (zip (tl (unpackbits n (byte_row (r_starts r)))) (butlast (r_tokens r)))) rws)
      then Inl (ValueError ''Packed batch has a segment start not preceded by EOS'')
      else Inr ())"

definition collate :: "collator \<Rightarrow> mixed_row list \<Rightarrow> batch res" where
  "collate k rws = rbind (check_batch k rws) (\<lambda>_.
     let T = k_sequence_length k;
         starts = (\<lambda>r. unpackbits (T + 1) (byte_row (r_starts r)));
         labels = map (\<lambda>r. row_labels (tl (starts r)) (tl (r_tokens r))) rws in
     Inr \<lparr>b_input_ids = map (\<lambda>r. take T (r_tokens r)) rws, b_labels = labels,
          b_position_ids = map (\<lambda>r. row_positions (take T (starts r))) rws,
          b_document_ids = map (\<lambda>r. row_document_ids (take T (starts r))) rws,
          b_domain_ids = map r_domain_id rws, b_row_ids = map r_row_id rws,
          b_references = map r_reference rws,
          b_num_loss_tokens = sum_list (map (\<lambda>l. length (filter (\<lambda>t. t \<noteq> ignore_index) l)) labels)\<rparr>)"

section \<open>The supervised-token audit\<close>

definition supervised_of_starts :: "nat \<Rightarrow> byte list \<Rightarrow> nat res" where
  "supervised_of_starts T starts =
     (if starts ! 0 AND 1 = 0
      then Inl (ValueError ''Packed row does not begin an attention segment'')
      else if unused_high_bits_mask (T + 1) \<noteq> 0 \<and> last starts AND unused_high_bits_mask (T + 1) \<noteq> 0
      then Inl (ValueError ''Packed row has nonzero unused start bits'')
      else let supervised = int T - (int (sum_list (map popcount starts)) - 1) in
        if \<not> (0 \<le> supervised \<and> supervised \<le> int T)
        then Inl (ValueError ''Invalid segment-start payload'')
        else Inr (nat supervised))"

definition count_step ::
  "(string \<Rightarrow> dir) \<Rightarrow> nat \<Rightarrow> nat list \<Rightarrow> 64 word \<Rightarrow> nat list res" where
  "count_step manifests T counts reference =
     (let (domain_id, row_id) = decode_reference reference in
      if \<not> domain_id < length domain_order then Inl (ValueError ''Order contains invalid domain ID'')
      else rbind (open_dataset False (manifests (domain_order ! domain_id))) (\<lambda>ds.
        if ds_num ds ''sequence_length'' \<noteq> T
        then Inl (ValueError ''Packed dataset sequence length changed during order build'')
        else rbind (get_row ds (int row_id)) (\<lambda>row.
          rbind (supervised_of_starts T (byte_row (r_starts row))) (\<lambda>supervised.
            Inr (counts[domain_id := counts ! domain_id + supervised])))))"

definition count_supervised ::
  "(string \<Rightarrow> dir) \<Rightarrow> nat \<Rightarrow> 64 word list \<Rightarrow> nat list res" where
  "count_supervised manifests T references =
     foldM (count_step manifests T) (replicate (length domain_order) 0) references"

end
