(* ===== verification/PackedRead.thy ===== *)
theory PackedRead
  imports PackedReader "HOL-Library.Multiset"
begin

text \<open>
  What the readers return on a directory a writer finished: row \<open>r\<close> of the dataset is row \<open>r\<close> of
  the stream, the collator's inputs and labels are the stream itself with the labels at document
  starts masked, positions and document ids restart at document starts, and the supervised-token
  audit agrees with the manifest.
\<close>

section \<open>Opening a finished directory\<close>

definition packed_dataset :: "wconfig \<Rightarrow> nat list list \<Rightarrow> json option \<Rightarrow> dir \<Rightarrow> dataset" where
  "packed_dataset c docs cursor d =
     (let S = stream_tokens (c_eos_token_id c) docs; R = packed_rows c S;
          shards = map (spec_shard c S (stream_starts docs) R) [0..<shard_count (c_rows_per_shard c) R] in
      \<lparr>ds_manifest = packed_manifest c docs cursor, ds_shards = shards,
       ds_ends = running_totals 0 (map sh_rows shards), ds_files = d\<rparr>)"

lemma spec_shard_files_ok:
  assumes n: "1 \<le> c_rows_per_shard c" and i: "i < shard_count (c_rows_per_shard c) R"
    and rs: "\<forall>r < R. r * c_sequence_length c + c_sequence_length c < length S" and len: "length B = length S"
    and f: "file_is d c S B (shard_name i) (i * c_rows_per_shard c) (min (Suc i * c_rows_per_shard c) R)"
  shows "require_exact_shard_files d (c_tokens_per_row c) (c_starts_bytes_per_row c) (spec_shard c S B R i) = Inr ()"
proof -
  let ?T = "c_sequence_length c" and ?a = "i * c_rows_per_shard c" and ?b = "min (Suc i * c_rows_per_shard c) R"
  have "?a < R" by (rule shard_start_less [OF n i])
  then have "?b \<noteq> 0" using n by auto
  then obtain b' where b': "?b = Suc b'" by (cases ?b) auto
  then have "b' < R" by linarith
  with rs have "b' * ?T + ?T < length S" by blast
  then have last: "?b * ?T < length S" "?b * ?T < length B" unfolding b' len by simp_all
  have "sized_file d (shard_name i Tokens) ((?b - ?a) * c_tokens_per_row c * 2)"
      "sized_file d (shard_name i Starts) ((?b - ?a) * c_starts_bytes_per_row c)"
    using f length_rows_token_bytes [OF last(1), of ?a] length_rows_start_bytes [OF last(2), of ?a]
    by (simp_all add: file_is_def sized_file_def c_tokens_per_row_def c_starts_bytes_per_row_def)
  then show ?thesis by (simp add: require_exact_shard_files_def spec_shard_fields del: mult_Suc)
qed

lemma packed_files:
  assumes "map_of d = map_of (packed_dir c docs cursor)"
    and "i < shard_count (c_rows_per_shard c) (packed_rows c (stream_tokens (c_eos_token_id c) docs))"
  shows "file_is d c (stream_tokens (c_eos_token_id c) docs) (stream_starts docs) (shard_name i)
     (i * c_rows_per_shard c)
     (min (Suc i * c_rows_per_shard c) (packed_rows c (stream_tokens (c_eos_token_id c) docs)))"
  using assms by (simp add: file_is_def packed_dir_def Let_def map_of_concat_shards map_of_shard_files)

lemma packed_row_bound:
  assumes "wf_config c"
  shows "\<forall>r < packed_rows c S. r * c_sequence_length c + c_sequence_length c < length S"
  using assms by (simp add: packed_rows_def packed_row_in_stream wf_config_def)

lemma open_packed_dataset:
  assumes c: "wf_config c" and docs: "docs_ok (c_vocab_size c) docs" and cur: "cursor_ok cursor"
    and d: "map_of d = map_of (packed_dir c docs cursor)"
  shows "open_dataset verify d = Inr (packed_dataset c docs cursor d)"
proof -
  let ?S = "stream_tokens (c_eos_token_id c) docs" and ?B = "stream_starts docs"
  let ?R = "packed_rows c ?S" and ?K = "shard_count (c_rows_per_shard c) (packed_rows c ?S)"
  have n: "1 \<le> c_rows_per_shard c" using c by (simp add: wf_config_def)
  have load: "load_json d manifest_name = Inr (packed_manifest c docs cursor)"
    by (simp add: load_json_def d packed_dir_def Let_def packed_manifest_def manifest_fields)
  have cfg: "w_cfg (packed_state c docs cursor) = c" by (rule packed_state_counts(1) [OF c docs])
  have parse: "parse_packed_manifest (packed_manifest c docs cursor) = Inr (map (spec_shard c ?S ?B ?R) [0..<?K])"
    using parse_packed_manifest_spec [OF c docs, of cursor] cur by (simp add: cursor_ok_def Let_def)
  have "require_exact_shard_files d (c_tokens_per_row c) (c_starts_bytes_per_row c)
      (spec_shard c ?S ?B ?R i) = Inr ()" if "i < ?K" for i
    by (rule spec_shard_files_ok [OF n that packed_row_bound [OF c] length_stream_starts [OF docs]
          packed_files [OF d that]])
  then have files: "mapM (require_exact_shard_files d (c_tokens_per_row c) (c_starts_bytes_per_row c))
      (map (spec_shard c ?S ?B ?R) [0..<?K]) = Inr (map (\<lambda>_. ()) (map (spec_shard c ?S ?B ?R) [0..<?K]))"
    by (intro mapM_Inr_map) auto
  have num: "nat (jint_of (jget (packed_manifest c docs cursor) ''tokens_per_row'')) = c_tokens_per_row c"
      "nat (jint_of (jget (packed_manifest c docs cursor) ''starts_bytes_per_row'')) = c_starts_bytes_per_row c"
    by (simp_all add: packed_manifest_def manifest_fields cfg)
  show ?thesis
    by (simp add: open_dataset_def validate_packed_dir [OF c docs cur d] load parse num files
        packed_dataset_def Let_def del: map_map)
qed

lemma sum_shard_rows_take:
  assumes "1 \<le> c_rows_per_shard c"
  shows "sum_list (take k (map sh_rows (map (spec_shard c S B R) [0..<K])))
     = min (min k K * c_rows_per_shard c) R"
proof -
  have "sum_list (map sh_rows (map (spec_shard c S B R) xs))
      = length (concat (map (\<lambda>i. [i * c_rows_per_shard c..<min (Suc i * c_rows_per_shard c) R]) xs))" for xs
    by (induction xs) (simp_all add: spec_shard_def Let_def)
  then have "sum_list (map sh_rows (map (spec_shard c S B R) [0..<min k K])) = min (min k K * c_rows_per_shard c) R"
    using shard_upt_concat [OF assms, of R "min k K"] by simp
  then show ?thesis by (cases "k \<le> K") (simp_all add: take_map take_upt)
qed

lemma map_upt_nth:
  assumes "i < b - a"
  shows "map f [0..<b - a] ! i = f i" and "map g [a..<b] ! i = g (a + i)"
  using assms by simp_all

text \<open>Row \<open>r\<close> of the dataset is row \<open>r\<close> of the stream.\<close>

lemma get_row_packed:
  fixes cursor d
  assumes c: "wf_config c" and docs: "docs_ok (c_vocab_size c) docs" and cur: "cursor_ok cursor"
    and d: "map_of d = map_of (packed_dir c docs cursor)"
  defines "S \<equiv> stream_tokens (c_eos_token_id c) docs" and "B \<equiv> stream_starts docs"
    and "T \<equiv> c_sequence_length c"
  assumes r: "r < packed_rows c S"
  shows "get_row (packed_dataset c docs cursor d) (int r)
     = Inr \<lparr>r_tokens = map int (row_tokens T S r), r_starts = map uint (packbits (row_starts T B r)),
            r_row_id = r\<rparr>"
proof -
  let ?R = "packed_rows c S" and ?n = "c_rows_per_shard c"
  let ?K = "shard_count ?n ?R" and ?k = "r div ?n" and ?ds = "packed_dataset c docs cursor d"
  let ?a = "?k * ?n" and ?b = "min (Suc ?k * ?n) ?R"
  have n: "1 \<le> ?n" and T: "0 < T" and v: "c_vocab_size c \<le> 65536" and eos: "c_eos_token_id c < c_vocab_size c"
    using c by (simp_all add: wf_config_def T_def)
  have kr: "?a \<le> r" "r < Suc ?k * ?n" using n by (simp, metis dividend_less_div_times less_le_trans mult_Suc zero_less_one)
  then have rb: "r < ?b" using r by simp
  have K: "?k < ?K"
  proof (rule ccontr)
    assume "\<not> ?k < ?K"
    then have "?K * ?n \<le> ?a" by simp
    with shard_count_covers [OF n, of ?R] kr(1) r show False by linarith
  qed
  have cfg: "w_cfg (packed_state c docs cursor) = c" by (rule packed_state_counts(1) [OF c docs])
  have man: "ds_manifest ?ds = packed_manifest c docs cursor" "ds_files ?ds = d"
      "ds_shards ?ds = map (spec_shard c S B ?R) [0..<?K]"
      "ds_ends ?ds = running_totals 0 (map sh_rows (map (spec_shard c S B ?R) [0..<?K]))"
    by (simp_all add: packed_dataset_def Let_def S_def B_def)
  have num: "ds_num ?ds ''tokens_per_row'' = T + 1" "ds_num ?ds ''starts_bytes_per_row'' = ceil8 (T + 1)"
    by (simp_all add: ds_num_def man packed_manifest_def manifest_fields cfg T_def
        c_tokens_per_row_def c_starts_bytes_per_row_def nat_add_distrib)
  have rlen: "ds_len ?ds = int ?R"
    by (simp add: ds_len_def man packed_manifest_def manifest_fields S_def packed_state_def Let_def)
  have len: "length (ds_shards ?ds) = ?K" by (simp add: man)
  have bis: "bisect_right (ds_ends ?ds) r = ?k"
    unfolding man using K kr rb n
    by (intro bisect_running_totals) (simp_all add: sum_shard_rows_take [OF n] min_le_iff_disj del: map_map)
  have start: "(if ?k = 0 then 0 else ds_ends ?ds ! (?k - 1)) = ?a"
  proof (cases ?k)
    case (Suc k')
    then have "ds_ends ?ds ! k' = sum_list (take (Suc k') (map sh_rows (map (spec_shard c S B ?R) [0..<?K])))"
      unfolding man using K by (simp add: nth_running_totals del: map_map)
    also have "\<dots> = min (Suc k' * ?n) ?R" using K Suc by (simp add: sum_shard_rows_take [OF n] min_def del: map_map)
    also have "\<dots> = ?a" using Suc kr(1) r by simp
    finally show ?thesis using Suc by simp
  qed simp
  have shard: "ds_shards ?ds ! ?k = spec_shard c S B ?R ?k" using K by (simp add: man)
  have f: "file_is d c S B (shard_name ?k) ?a ?b"
    using packed_files [OF d] K unfolding S_def B_def by blast
  have rs: "\<forall>r < ?R. r * T + T < length S" unfolding T_def by (rule packed_row_bound [OF c])
  have lenB: "length B = length S" unfolding B_def S_def by (rule length_stream_starts [OF docs])
  have exact: "require_exact_shard_files d (T + 1) (ceil8 (T + 1)) (spec_shard c S B ?R ?k) = Inr ()"
    using spec_shard_files_ok [OF n K _ lenB f] rs
    by (simp add: c_tokens_per_row_def c_starts_bytes_per_row_def T_def)
  have bytes: "file_bytes d (sh_tokens_path (spec_shard c S B ?R ?k)) = rows_token_bytes T S ?a ?b"
      "file_bytes d (sh_starts_path (spec_shard c S B ?R ?k)) = rows_start_bytes T B ?a ?b"
    using f by (simp_all add: spec_shard_fields file_is_def T_def del: mult_Suc)
  have st: "eos_stream (c_vocab_size c) (c_eos_token_id c) S B"
    unfolding S_def B_def by (rule eos_stream_docs [OF docs eos])
  have "\<forall>r\<in>{?a..<?b}. r * T + T < length S" using rs by simp
  note eq = arg_cong [OF read_stored_rows [OF st v this], of "\<lambda>xs. xs ! (r - ?a)"]
  have lt: "r - ?a < ?b - ?a" and idx: "?a + (r - ?a) = r" using kr(1) rb by linarith+
  note nth = map_upt_nth [OF lt]
  with eq have "(map_tokens (T + 1) (rows_token_bytes T S ?a ?b) (r - ?a),
      map_starts (ceil8 (T + 1)) (rows_start_bytes T B ?a ?b) (r - ?a)) = stored_row T S B r"
    unfolding nth idx by simp
  then have read: "map_tokens (T + 1) (rows_token_bytes T S ?a ?b) (r - ?a) = row_tokens T S r"
      "map_starts (ceil8 (T + 1)) (rows_start_bytes T B ?a ?b) (r - ?a) = packbits (row_starts T B r)"
    by (simp_all add: stored_row_def)
  have pos: "(if int r < 0 then x else int r) = int r" for x by simp
  show ?thesis
    unfolding get_row_def Let_def num rlen pos nat_int bis start len shard man(2) nat_int
    using r K exact read by (simp add: bytes del: mult_Suc)
qed

section \<open>Positions and document ids\<close>

lemma length_accumulate_max [simp]: "length (accumulate_max m xs) = length xs"
  by (induction xs arbitrary: m) auto

lemma accumulate_max_0: "xs \<noteq> [] \<Longrightarrow> accumulate_max m xs ! 0 = max m (xs ! 0)"
  by (cases xs) auto

lemma accumulate_max_Suc:
  "Suc i < length xs \<Longrightarrow> accumulate_max m xs ! Suc i = max (accumulate_max m xs ! i) (xs ! Suc i)"
proof (induction xs arbitrary: m i)
  case (Cons x xs)
  then show ?case by (cases i; cases xs) auto
qed simp

lemma length_last_starts [simp]: "length (last_starts fl) = length fl"
  by (simp add: last_starts_def)

text \<open>The last start at or before an index, for a row that begins a segment.\<close>

lemma last_starts_spec:
  assumes "i < length fl" and "fl ! 0"
  shows "last_starts fl ! i \<le> i \<and> fl ! (last_starts fl ! i) \<and>
     (\<forall>j. last_starts fl ! i < j \<longrightarrow> j \<le> i \<longrightarrow> \<not> fl ! j)"
  using assms(1)
proof (induction i)
  case 0
  then have "last_starts fl ! 0 = 0" by (cases fl) (simp_all add: last_starts_def)
  with assms(2) show ?case by simp
next
  case (Suc i)
  have "last_starts fl ! Suc i = max (last_starts fl ! i) (if fl ! Suc i then Suc i else 0)"
    using Suc.prems by (simp add: last_starts_def accumulate_max_Suc nth_enumerate_eq)
  with Suc show ?case by (auto simp: le_Suc_eq max_def)
qed

lemma row_positions_spec:
  assumes "i < length fl" and "fl ! 0"
  shows "\<exists>l\<le>i. fl ! l \<and> (\<forall>j. l < j \<longrightarrow> j \<le> i \<longrightarrow> \<not> fl ! j) \<and> row_positions fl ! i = int (i - l)"
  using last_starts_spec [OF assms] assms(1)
  by (intro exI [of _ "last_starts fl ! i"])
    (simp add: row_positions_def nth_enumerate_eq of_nat_diff)

definition starts_in :: "bool list \<Rightarrow> nat \<Rightarrow> nat \<Rightarrow> nat" where
  "starts_in fl i j = length (filter (\<lambda>x. x) (segment (Suc i) (j - i) fl))"

lemma sum_list_of_bool: "sum_list (map of_bool xs) = length (filter (\<lambda>x. x) xs)"
  by (induction xs) auto

lemma row_document_ids_spec:
  assumes "i \<le> j" and "j < length fl"
  shows "row_document_ids fl ! j - row_document_ids fl ! i = int (starts_in fl i j)"
proof -
  have "take (Suc j) fl = take (Suc i) fl @ segment (Suc i) (j - i) fl"
    using assms by (simp add: segment_def take_add [symmetric] del: take_Suc)
  moreover have "row_document_ids fl ! k = int (sum_list (map of_bool (take (Suc k) fl))) - 1"
    if "k < length fl" for k
    using that by (simp add: row_document_ids_def nth_running_totals take_map)
  ultimately show ?thesis
    using assms unfolding starts_in_def sum_list_of_bool by simp
qed

lemma starts_in_0: "j < length fl \<Longrightarrow> starts_in fl i j = 0 \<longleftrightarrow> (\<forall>k. i < k \<longrightarrow> k \<le> j \<longrightarrow> \<not> fl ! k)"
proof -
  assume j: "j < length fl"
  have "starts_in fl i j = 0 \<longleftrightarrow> (\<forall>m < j - i. \<not> fl ! (Suc i + m))"
    using j by (auto simp: starts_in_def filter_empty_conv segment_def in_set_conv_nth)
  also have "\<dots> \<longleftrightarrow> (\<forall>k. i < k \<longrightarrow> k \<le> j \<longrightarrow> \<not> fl ! k)"
  proof safe
    fix k assume "\<forall>m < j - i. \<not> fl ! (Suc i + m)" "i < k" "k \<le> j" "fl ! k"
    then show False by (auto dest: spec [of _ "k - Suc i"])
  next
    fix m assume "\<forall>k. i < k \<longrightarrow> k \<le> j \<longrightarrow> \<not> fl ! k" "m < j - i" "fl ! (Suc i + m)"
    then show False by auto
  qed
  finally show ?thesis .
qed

section \<open>Collating stored rows\<close>

text \<open>A mixed row that carries row \<open>r\<close> of a stream.\<close>

definition carries :: "nat \<Rightarrow> nat list \<Rightarrow> bool list \<Rightarrow> nat \<Rightarrow> mixed_row \<Rightarrow> bool" where
  "carries T S B r row \<longleftrightarrow> r_tokens row = map int (row_tokens T S r) \<and>
     r_starts row = map uint (packbits (row_starts T B r)) \<and> r_row_id row = r"

lemma byte_row_uint [simp]: "byte_row (map uint bs) = bs"
  by (induction bs) (simp_all add: byte_row_def)

lemma row_labels_count:
  assumes "length fl = length ts" and "\<forall>t\<in>set ts. t \<noteq> ignore_index"
  shows "length (filter (\<lambda>t. t \<noteq> ignore_index) (row_labels fl ts)) + length (filter (\<lambda>x. x) fl) = length ts"
  using assms
proof (induction fl ts rule: list_induct2)
  case (Cons f fl t ts)
  then show ?case by (simp add: row_labels_def)
qed (simp add: row_labels_def)

text \<open>The labels of a stored row: the next token, unless it begins a document.\<close>

definition stream_labels :: "nat \<Rightarrow> nat list \<Rightarrow> bool list \<Rightarrow> nat \<Rightarrow> int list" where
  "stream_labels T S B r = map (\<lambda>j. if B ! (r * T + Suc j) then ignore_index
     else int (S ! (r * T + Suc j))) [0..<T]"

lemma row_labels_stream:
  assumes r: "r * T + T < length S" and len: "length B = length S"
  shows "row_labels (tl (row_starts T B r)) (tl (map int (row_tokens T S r))) = stream_labels T S B r"
proof (rule nth_equalityI)
  have lt: "length (row_tokens T S r) = T + 1" "length (row_starts T B r) = T + 1"
    using r len by (simp_all add: length_row_tokens length_row_starts)
  then show "length (row_labels (tl (row_starts T B r)) (tl (map int (row_tokens T S r))))
      = length (stream_labels T S B r)" by (simp add: row_labels_def stream_labels_def)
  fix j assume "j < length (row_labels (tl (row_starts T B r)) (tl (map int (row_tokens T S r))))"
  then have j: "j < T" using lt by (simp add: row_labels_def)
  have "tl (row_starts T B r) ! j = B ! (r * T + Suc j)"
    using j r len lt by (simp add: nth_tl row_starts_def segment_def)
  moreover have "tl (map int (row_tokens T S r)) ! j = int (S ! (r * T + Suc j))"
    using j r lt by (simp add: nth_tl row_tokens_def segment_def)
  ultimately show "row_labels (tl (row_starts T B r)) (tl (map int (row_tokens T S r))) ! j
      = stream_labels T S B r ! j"
    using j lt by (simp add: row_labels_def stream_labels_def)
qed

lemma stored_row_props:
  assumes st: "eos_stream vocab eos S B" and T: "0 < T" and r: "r * T + T < length S"
  shows "length (row_tokens T S r) = T + 1" "length (row_starts T B r) = T + 1"
    "row_starts T B r \<noteq> []" "row_starts T B r ! 0"
    "unpackbits (T + 1) (packbits (row_starts T B r)) = row_starts T B r"
    "t \<in> set (row_tokens T S r) \<Longrightarrow> t < vocab"
    "unused_high_bits_mask (T + 1) \<noteq> 0 \<Longrightarrow>
       last (packbits (row_starts T B r)) AND unused_high_bits_mask (T + 1) = 0"
proof -
  show "length (row_tokens T S r) = T + 1" using r by (rule length_row_tokens)
  show l: "length (row_starts T B r) = T + 1"
    using r st by (intro length_row_starts) (simp add: eos_stream_def)
  then show ne: "row_starts T B r \<noteq> []" by auto
  from l show "row_starts T B r ! 0" by (simp add: row_starts_def)
  show "unpackbits (T + 1) (packbits (row_starts T B r)) = row_starts T B r"
    using unpack_pack [of "row_starts T B r"] l by simp
  show "t \<in> set (row_tokens T S r) \<Longrightarrow> t < vocab"
    using st unfolding eos_stream_def row_tokens_def segment_def by (meson in_set_dropD in_set_takeD)
  show "unused_high_bits_mask (T + 1) \<noteq> 0 \<Longrightarrow>
      last (packbits (row_starts T B r)) AND unused_high_bits_mask (T + 1) = 0"
    using packbits_padding [OF ne] l by simp
qed

definition collator_for :: "nat \<Rightarrow> nat \<Rightarrow> nat \<Rightarrow> collator" where
  "collator_for T vocab eos =
     \<lparr>k_sequence_length = T, k_vocab_size = Some (int vocab), k_eos_token_id = Some (int eos)\<rparr>"

text \<open>A stored row: the stream it comes from, its start bits, its index. The rows of a batch may
  come from different streams.\<close>

type_synonym stored = "nat list \<times> bool list \<times> nat"

definition carries_stored :: "nat \<Rightarrow> nat \<Rightarrow> nat \<Rightarrow> mixed_row \<Rightarrow> stored \<Rightarrow> bool" where
  "carries_stored T vocab eos row = (\<lambda>(S, B, r). eos_stream vocab eos S B \<and> carries T S B r row \<and>
     r * T + T < length S)"

lemma check_batch_stored:
  assumes T: "0 < T" and ne: "rws \<noteq> []" and rws: "\<forall>row\<in>set rws. \<exists>x. carries_stored T vocab eos row x"
  shows "check_batch (collator_for T vocab eos) rws = Inr ()"
proof -
  have row: "length (r_tokens row) = T + 1 \<and> length (r_starts row) = ceil8 (T + 1) \<and>
      (\<forall>b\<in>set (r_starts row). 0 \<le> b \<and> b \<le> 255) \<and>
      (\<forall>t\<in>set (r_tokens row). 0 \<le> t \<and> t < int vocab) \<and>
      (unused_high_bits_mask (T + 1) = 0 \<or>
        last (byte_row (r_starts row)) AND unused_high_bits_mask (T + 1) = 0) \<and>
      unpackbits (T + 1) (byte_row (r_starts row)) ! 0 \<and>
      (\<forall>(s, t)\<in>set (zip (tl (unpackbits (T + 1) (byte_row (r_starts row)))) (butlast (r_tokens row))).
         s \<longrightarrow> t = int eos)" if "row \<in> set rws" for row
  proof -
    from rws that obtain S B r where st: "eos_stream vocab eos S B" and c: "carries T S B r row"
      and r: "r * T + T < length S" by (auto simp: carries_stored_def)
    note p = stored_row_props [OF st T r]
    have b: "uint (b :: byte) \<le> 255" for b using uint_bounded [of b] by simp
    have bt: "butlast (map int (row_tokens T S r)) = map int (butlast (row_tokens T S r))"
      by (simp add: map_butlast)
    have "(s, t) \<in> set (zip (tl (row_starts T B r)) (map int (butlast (row_tokens T S r)))) \<Longrightarrow> s \<Longrightarrow> t = int eos"
      for s t using row_boundaries [OF st r] by (auto simp: zip_map2)
    then show ?thesis
      using c p b unfolding carries_def by (auto simp: bt simp del: One_nat_def)
  qed
  have c1: "list_all (\<lambda>r. length (r_tokens r) = T + 1) rws" and c2: "list_all (\<lambda>r. length (r_starts r) = ceil8 (T + 1)) rws"
    and c3: "\<not> list_ex (\<lambda>r. list_ex (\<lambda>b. b < 0 \<or> 255 < b) (r_starts r)) rws"
    and c4: "\<not> list_ex (\<lambda>r. list_ex (\<lambda>t. t < 0 \<or> int vocab \<le> t) (r_tokens r)) rws"
    and c5: "\<not> (unused_high_bits_mask (T + 1) \<noteq> 0 \<and>
          list_ex (\<lambda>r. last (byte_row (r_starts r)) AND unused_high_bits_mask (T + 1) \<noteq> 0) rws)"
    and c6: "list_all (\<lambda>r. unpackbits (T + 1) (byte_row (r_starts r)) ! 0) rws"
    and c7: "\<not> list_ex (\<lambda>r. list_ex (\<lambda>(s, t). s \<and> t \<noteq> int eos)
               (zip (tl (unpackbits (T + 1) (byte_row (r_starts r)))) (butlast (r_tokens r)))) rws"
    using row by (force simp: list_all_iff list_ex_iff)+
  show ?thesis
    unfolding check_batch_def Let_def collator_for_def collator.simps option.case
    using ne c1 c2 c3 c4 c5 c6 c7 by (simp only: if_False if_True simp_thms)
qed

lemma collate_stored:
  assumes T: "0 < T" and ne: "rws \<noteq> []" and rws: "list_all2 (carries_stored T vocab eos) rws xs"
  shows "\<exists>b. collate (collator_for T vocab eos) rws = Inr b \<and>
     b_input_ids b = map (\<lambda>(S, B, r). map int (segment (r * T) T S)) xs \<and>
     b_labels b = map (\<lambda>(S, B, r). stream_labels T S B r) xs \<and>
     b_position_ids b = map (\<lambda>(S, B, r). row_positions (take T (row_starts T B r))) xs \<and>
     b_document_ids b = map (\<lambda>(S, B, r). row_document_ids (take T (row_starts T B r))) xs \<and>
     b_row_ids b = map (\<lambda>(S, B, r). r) xs \<and> b_references b = map r_reference rws \<and>
     b_num_loss_tokens b + sum_list (map (\<lambda>(S, B, r). row_masked (row_starts T B r)) xs) = length xs * T"
proof -
  have "\<forall>row\<in>set rws. \<exists>x. carries_stored T vocab eos row x"
    using rws by (induction rws xs rule: list_all2_induct) auto
  note chk = check_batch_stored [OF T ne this]
  have maps: "map f rws = map g xs" if "\<And>row S B r. carries_stored T vocab eos row (S, B, r) \<Longrightarrow> f row = g (S, B, r)"
    for f :: "mixed_row \<Rightarrow> 'z" and g
    using rws that by (induction rws xs rule: list_all2_induct) auto
  let ?st = "\<lambda>row. unpackbits (T + 1) (byte_row (r_starts row))"
  have starts: "?st row = row_starts T B r" if "carries_stored T vocab eos row (S, B, r)" for row S B r
    using that stored_row_props(5) [of vocab eos S B T r] T by (simp add: carries_stored_def carries_def)
  have labels: "map (\<lambda>row. row_labels (tl (?st row)) (tl (r_tokens row))) rws
      = map (\<lambda>(S, B, r). stream_labels T S B r) xs"
    by (rule maps) (use starts in \<open>auto simp: carries_stored_def carries_def eos_stream_def row_labels_stream\<close>)
  have inputs: "map (\<lambda>row. take T (r_tokens row)) rws = map (\<lambda>(S, B, r). map int (segment (r * T) T S)) xs"
    by (rule maps) (simp add: carries_stored_def carries_def row_tokens_def segment_def take_map min_def)
  have pos: "map (\<lambda>row. row_positions (take T (?st row))) rws
      = map (\<lambda>(S, B, r). row_positions (take T (row_starts T B r))) xs"
    by (rule maps) (use starts in simp)
  have ids: "map (\<lambda>row. row_document_ids (take T (?st row))) rws
      = map (\<lambda>(S, B, r). row_document_ids (take T (row_starts T B r))) xs"
    by (rule maps) (use starts in simp)
  have rid: "map r_row_id rws = map (\<lambda>(S, B, r). r) xs"
    by (rule maps) (simp add: carries_stored_def carries_def)
  have one: "length (filter (\<lambda>t. t \<noteq> ignore_index) (stream_labels T S B r)) + row_masked (row_starts T B r) = T"
    if st: "eos_stream vocab eos S B" and r: "r * T + T < length S" for S B r
  proof -
    note p = stored_row_props [OF st T r]
    have "length (filter (\<lambda>t. t \<noteq> ignore_index) (row_labels (tl (row_starts T B r)) (tl (map int (row_tokens T S r)))))
        + length (filter (\<lambda>x. x) (tl (row_starts T B r))) = length (tl (map int (row_tokens T S r)))"
      using p(1,2) by (intro row_labels_count) (auto simp: ignore_index_def map_tl [symmetric])
    then show ?thesis
      using p(1) r st by (simp add: row_labels_stream eos_stream_def row_masked_def)
  qed
  have "\<forall>(S, B, r)\<in>set xs. eos_stream vocab eos S B \<and> r * T + T < length S"
    using rws by (induction rws xs rule: list_all2_induct) (auto simp: carries_stored_def)
  then have count: "sum_list (map (\<lambda>l. length (filter (\<lambda>t. t \<noteq> ignore_index) l))
        (map (\<lambda>(S, B, r). stream_labels T S B r) xs))
      + sum_list (map (\<lambda>(S, B, r). row_masked (row_starts T B r)) xs) = length xs * T"
  proof (induction xs)
    case (Cons x xs)
    obtain S B r where "x = (S, B, r)" by (cases x)
    with Cons one [of S B r] show ?case by simp
  qed simp
  show ?thesis
    unfolding collate_def chk rbind_Inr Let_def
    unfolding collator_for_def collator.simps labels inputs pos ids rid
    using count by simp
qed

section \<open>The audit\<close>

definition reference_of :: "nat \<Rightarrow> nat \<Rightarrow> 64 word" where
  "reference_of domain_id row_id = push_bit row_bits (word_of_nat domain_id) OR word_of_nat row_id"

lemma decode_reference_of:
  "d < 256 \<Longrightarrow> r < 2 ^ row_bits \<Longrightarrow> decode_reference (reference_of d r) = (d, r)"
  unfolding reference_of_def by (rule encode_decode)

lemma supervised_of_stored:
  assumes "eos_stream vocab eos S B" and "0 < T" and "r * T + T < length S"
  shows "supervised_of_starts T (packbits (row_starts T B r)) = Inr (T - row_masked (row_starts T B r))"
proof -
  note p = stored_row_props [OF assms]
  have "row_masked (row_starts T B r) \<le> T" using p(2) by (intro row_masked_le) simp
  then show ?thesis
    using packbits_first [OF p(3,4)] sum_popcount_row [OF p(3,4)] p(7)
    by (auto simp: supervised_of_starts_def Let_def nat_diff_distrib')
qed

lemma count_step_packed:
  assumes c: "wf_config c" and docs: "docs_ok (c_vocab_size c) docs" and cur: "cursor_ok cursor"
    and d: "map_of (manifests (domain_order ! k)) = map_of (packed_dir c docs cursor)"
    and k: "k < length domain_order"
    and r: "r < packed_rows c (stream_tokens (c_eos_token_id c) docs)" "r < 2 ^ row_bits"
  shows "count_step manifests (c_sequence_length c) counts (reference_of k r)
     = Inr (counts[k := counts ! k +
         (c_sequence_length c - row_masked (row_starts (c_sequence_length c) (stream_starts docs) r))])"
proof -
  let ?S = "stream_tokens (c_eos_token_id c) docs" and ?B = "stream_starts docs" and ?T = "c_sequence_length c"
  have "k < 256" using k by (simp add: domain_order_def)
  note dec = decode_reference_of [OF this r(2)]
  have eos: "c_eos_token_id c < c_vocab_size c" and T: "0 < ?T" using c by (simp_all add: wf_config_def)
  have num: "ds_num (packed_dataset c docs cursor dd) ''sequence_length'' = ?T" for dd
    by (simp add: ds_num_def packed_dataset_def Let_def packed_manifest_def manifest_fields
        packed_state_counts(1) [OF c docs])
  have lt: "r * ?T + ?T < length ?S" using packed_row_bound [OF c] r(1) by blast
  show ?thesis
    using k supervised_of_stored [OF eos_stream_docs [OF docs eos] T lt]
    by (simp add: count_step_def dec open_packed_dataset [OF c docs cur d] num
        get_row_packed [OF c docs cur d r(1)])
qed

lemma count_supervised_domain:
  assumes c: "wf_config c" and docs: "docs_ok (c_vocab_size c) docs" and cur: "cursor_ok cursor"
    and d: "map_of (manifests (domain_order ! k)) = map_of (packed_dir c docs cursor)"
    and k: "k < length domain_order"
    and rs: "\<forall>r\<in>set rs. r < packed_rows c (stream_tokens (c_eos_token_id c) docs) \<and> r < 2 ^ row_bits"
  shows "foldM (count_step manifests (c_sequence_length c)) counts (map (reference_of k) rs)
     = Inr (if rs = [] then counts else counts[k := counts ! k + sum_list (map (\<lambda>r. c_sequence_length c -
         row_masked (row_starts (c_sequence_length c) (stream_starts docs) r)) rs)])"
  using rs
proof (induction rs arbitrary: counts)
  case (Cons r rs)
  then have r: "r < packed_rows c (stream_tokens (c_eos_token_id c) docs)" "r < 2 ^ row_bits" by auto
  note step = count_step_packed [where manifests = manifests and k = k, OF c docs cur d k r, of counts]
  show ?case
  proof (cases "k < length counts")
    case True
    with Cons step show ?thesis by (cases "rs = []") (simp_all add: add.assoc)
  next
    case False
    with Cons step show ?thesis by (simp add: list_update_beyond)
  qed
qed simp

text \<open>Auditing every row of a domain once, in any order, gives the manifest's counter.\<close>

lemma audit_all_rows:
  assumes c: "wf_config c" and docs: "docs_ok (c_vocab_size c) docs" and cur: "cursor_ok cursor"
    and d: "map_of (manifests (domain_order ! k)) = map_of (packed_dir c docs cursor)"
    and k: "k < length domain_order"
    and rs: "mset rs = mset [0..<packed_rows c (stream_tokens (c_eos_token_id c) docs)]"
    and small: "packed_rows c (stream_tokens (c_eos_token_id c) docs) \<le> 2 ^ row_bits"
  shows "count_supervised manifests (c_sequence_length c) (map (reference_of k) rs)
     = Inr ((replicate (length domain_order) 0)[k := w_valid_loss_tokens (packed_state c docs cursor)])"
proof -
  let ?S = "stream_tokens (c_eos_token_id c) docs" and ?B = "stream_starts docs" and ?T = "c_sequence_length c"
  let ?R = "packed_rows c ?S" and ?m = "\<lambda>r. row_masked (row_starts ?T ?B r)"
  have set: "set rs = {..<?R}"
    unfolding mset_eq_setD [OF rs] by (simp only: set_upt atLeast0LessThan)
  have le: "?m r \<le> ?T" if "r < ?R" for r
  proof -
    have "r * ?T + ?T < length ?B"
      using packed_row_bound [OF c, of ?S] that unfolding length_stream_starts [OF docs, of "c_eos_token_id c"]
      by blast
    then show ?thesis by (intro row_masked_le length_row_starts)
  qed
  have "sum_list (map (\<lambda>r. ?T - ?m r) rs) = sum_list (map (\<lambda>r. ?T - ?m r) [0..<?R])"
    using arg_cong [OF rs, of "\<lambda>M. sum_mset (image_mset (\<lambda>r. ?T - ?m r) M)"]
    by (simp only: mset_map [symmetric] sum_mset_sum_list)
  also have "\<dots> = w_valid_loss_tokens (packed_state c docs cursor)"
  proof -
    have "sum_list (map (\<lambda>r. ?T - ?m r) xs) + sum_list (map ?m xs) = length xs * ?T" if "set xs \<subseteq> {..<?R}" for xs
      using that
    proof (induction xs)
      case (Cons x xs)
      then have "?m x \<le> ?T" using le by simp
      with Cons show ?case by simp
    qed simp
    from this [of "[0..<?R]"] have "sum_list (map (\<lambda>r. ?T - ?m r) [0..<?R]) + masked_count ?T ?B ?R = ?R * ?T"
      by (simp add: masked_count_def atLeast0LessThan)
    then show ?thesis by (simp add: packed_state_def Let_def)
  qed
  finally have sum: "sum_list (map (\<lambda>r. ?T - ?m r) rs) = w_valid_loss_tokens (packed_state c docs cursor)" .
  have "\<forall>r\<in>set rs. r < ?R \<and> r < 2 ^ row_bits" using set small by auto
  from count_supervised_domain [where manifests = manifests and k = k, OF c docs cur d k this, of "replicate (length domain_order) 0"]
  have "count_supervised manifests ?T (map (reference_of k) rs)
      = Inr (if rs = [] then replicate (length domain_order) 0
         else (replicate (length domain_order) 0)[k := w_valid_loss_tokens (packed_state c docs cursor)])"
    using k by (simp add: count_supervised_def sum)
  moreover have "(replicate (length domain_order) (0 :: nat))[k := 0] = replicate (length domain_order) 0"
    using k by (simp add: list_update_same_conv)
  ultimately show ?thesis
    using k sum by (cases "rs = []") (simp_all add: count_supervised_def)
qed

end
