(* ===== verification/PyFloat.thy ===== *)
theory PyFloat
  imports Json
begin

text \<open>
  Python's \<^verbatim>\<open>float\<close> as the code uses it: a float is the rational it denotes, an arithmetic
  operation is the exact result rounded to 53 significant bits (to nearest, ties to even), and
  \<^verbatim>\<open>Fraction(str(x))\<close> is the shortest decimal that rounds back to \<open>x\<close>. Subnormal and
  overflowing results are outside the model: the code's weights, counts and ratios stay far from
  both ends of the range.
\<close>

fun ilog2 :: "nat \<Rightarrow> nat" where
  "ilog2 n = (if n < 2 then 0 else Suc (ilog2 (n div 2)))"

declare ilog2.simps [simp del]

definition pow2 :: "int \<Rightarrow> rat" where
  "pow2 e = (if 0 \<le> e then 2 ^ nat e else 1 / 2 ^ nat (- e))"

text \<open>The exponent \<open>e\<close> with \<open>2 ^ e \<le> x < 2 ^ (e + 1)\<close>, for a positive rational.\<close>

definition exponent2 :: "rat \<Rightarrow> int" where
  "exponent2 x = (let (n, d) = quotient_of x; k = int (ilog2 (nat n)) - int (ilog2 (nat d)) in
     if pow2 k \<le> x then k else k - 1)"

definition round_half_even :: "rat \<Rightarrow> int" where
  "round_half_even q = (let f = \<lfloor>q\<rfloor>; r = q - of_int f in
     if r < 1 / 2 then f else if 1 / 2 < r then f + 1 else if even f then f else f + 1)"

definition fl :: "rat \<Rightarrow> rat" where
  "fl x = (if x = 0 then 0
     else let u = pow2 (exponent2 \<bar>x\<bar> - 52) in sgn x * of_int (round_half_even (\<bar>x\<bar> / u)) * u)"

definition py_div :: "rat \<Rightarrow> rat \<Rightarrow> rat" where "py_div x y = fl (x / y)"
definition py_mul :: "rat \<Rightarrow> rat \<Rightarrow> rat" where "py_mul x y = fl (x * y)"
definition py_sub :: "rat \<Rightarrow> rat \<Rightarrow> rat" where "py_sub x y = fl (x - y)"
definition py_add :: "rat \<Rightarrow> rat \<Rightarrow> rat" where "py_add x y = fl (x + y)"

text \<open>
  \<^verbatim>\<open>sum(values)\<close> of floats, as CPython 3.12 (the version the repository's checks run) computes
  it: left to right with Neumaier's compensation, the accumulated error added at the end.
\<close>

definition csum_step :: "rat \<times> rat \<Rightarrow> rat \<Rightarrow> rat \<times> rat" where
  "csum_step acc x = (let (s, c) = acc; t = py_add s x in
     (t, py_add c (if \<bar>x\<bar> \<le> \<bar>s\<bar> then py_add (py_sub s t) x else py_add (py_sub x t) s)))"

definition py_sum :: "rat list \<Rightarrow> rat" where
  "py_sum xs = (let (s, c) = foldl csum_step (0, 0) xs in if c = 0 then s else py_add s c)"

text \<open>The decimal with \<open>k\<close> significant digits nearest to \<open>x\<close>.\<close>

fun ilog10 :: "nat \<Rightarrow> nat" where
  "ilog10 n = (if n < 10 then 0 else Suc (ilog10 (n div 10)))"

declare ilog10.simps [simp del]

definition pow10 :: "int \<Rightarrow> rat" where
  "pow10 e = (if 0 \<le> e then 10 ^ nat e else 1 / 10 ^ nat (- e))"

definition exponent10 :: "rat \<Rightarrow> int" where
  "exponent10 x = (if 1 \<le> x then int (ilog10 (nat \<lfloor>x\<rfloor>))
     else (case find (\<lambda>j. 1 \<le> x * 10 ^ j) [1..<400] of None \<Rightarrow> - 400 | Some j \<Rightarrow> - int j))"

definition decimal_round :: "nat \<Rightarrow> rat \<Rightarrow> rat" where
  "decimal_round k x = (let u = pow10 (exponent10 x - int k + 1) in of_int (round_half_even (x / u)) * u)"

definition repr_fraction :: "rat \<Rightarrow> rat" where
  "repr_fraction x = (if x = 0 then 0
     else sgn x * (case find (\<lambda>k. fl (decimal_round k \<bar>x\<bar>) = \<bar>x\<bar>) [1..<18] of
         None \<Rightarrow> \<bar>x\<bar> | Some k \<Rightarrow> decimal_round k \<bar>x\<bar>))"

section \<open>\<open>float\<close> of a JSON value\<close>

text \<open>
  Digits with single underscores between them: their value, their number, the rest. The words for
  infinities and NaN are errors here as the text that is no number is: the code rejects both.
\<close>

fun scan_digits :: "nat \<Rightarrow> nat \<Rightarrow> string \<Rightarrow> nat \<times> nat \<times> string" where
  "scan_digits v n (c # s) =
     (if CHR ''0'' \<le> c \<and> c \<le> CHR ''9'' then scan_digits (10 * v + of_char c - 48) (Suc n) s
      else if c = CHR ''_'' \<and> 0 < n \<and> s \<noteq> [] \<and> CHR ''0'' \<le> hd s \<and> hd s \<le> CHR ''9''
      then scan_digits v n s
      else (v, n, c # s))"
| "scan_digits v n [] = (v, n, [])"

text \<open>\<^verbatim>\<open>str.isspace\<close> for one character.\<close>

definition is_py_space :: "char \<Rightarrow> bool" where
  "is_py_space c \<longleftrightarrow> (let n = of_char c :: nat in
     9 \<le> n \<and> n \<le> 13 \<or> 28 \<le> n \<and> n \<le> 32 \<or> n = 133 \<or> n = 160)"

definition py_strip :: "string \<Rightarrow> string" where
  "py_strip s = rev (dropWhile is_py_space (rev (dropWhile is_py_space s)))"

definition scan_sign :: "string \<Rightarrow> bool \<times> string" where
  "scan_sign s = (case s of [] \<Rightarrow> (False, [])
     | c # r \<Rightarrow> if c = CHR ''-'' then (True, r) else if c = CHR ''+'' then (False, r) else (False, s))"

definition float_of_string :: "string \<Rightarrow> rat res" where
  "float_of_string s0 =
     (let (neg, s) = scan_sign (py_strip s0);
          (v1, n1, r1) = scan_digits 0 0 s;
          (v2, n2, r2) = (if r1 \<noteq> [] \<and> hd r1 = CHR ''.'' then
             (let (v, n, r) = scan_digits 0 0 (tl r1) in (v1 * 10 ^ n + v, n, r)) else (v1, 0, r1));
          (e, ok, r3) = (if r2 \<noteq> [] \<and> (hd r2 = CHR ''e'' \<or> hd r2 = CHR ''E'') then
             (let (eneg, r) = scan_sign (tl r2); (ev, en, r') = scan_digits 0 0 r in
              (if eneg then - int ev else int ev, 0 < en, r')) else (0, True, r2)) in
      if 0 < n1 + n2 \<and> ok \<and> r3 = []
      then Inr ((if neg then - 1 else 1) * fl (of_nat v2 * pow10 (e - int n2)))
      else Inl (ValueError ''could not convert string to float''))"

definition float_of :: "json \<Rightarrow> rat res" where
  "float_of v = (case v of
       JFloat r \<Rightarrow> Inr r | JInt i \<Rightarrow> Inr (fl (of_int i)) | JBool b \<Rightarrow> Inr (of_bool b)
     | JStr s \<Rightarrow> float_of_string s
     | _ \<Rightarrow> Inl (TypeError ''float() argument must be a string or a real number''))"

text \<open>\<^verbatim>\<open>math.isclose(a, b, rel_tol=0.0, abs_tol=1e-15)\<close>.\<close>

definition is_close :: "rat \<Rightarrow> rat \<Rightarrow> bool" where
  "is_close a b \<longleftrightarrow> a = b \<or> \<bar>py_sub b a\<bar> \<le> fl (1 / 10 ^ 15)"

lemma pow2_pos [simp]: "0 < pow2 e"
  by (simp add: pow2_def)

lemma pow10_pos [simp]: "0 < pow10 e"
  by (simp add: pow10_def)

lemma round_half_even_nonneg: "0 \<le> q \<Longrightarrow> 0 \<le> round_half_even q"
  by (simp add: round_half_even_def Let_def)

lemma fl_0 [simp]: "fl 0 = 0"
  by (simp add: fl_def)

lemma fl_nonneg: "0 \<le> x \<Longrightarrow> 0 \<le> fl x"
proof -
  assume x: "0 \<le> x"
  let ?u = "pow2 (exponent2 x - 52)"
  have u: "0 \<le> ?u" by (rule less_imp_le) simp
  with x have "0 \<le> of_int (round_half_even (x / ?u)) * ?u"
    by (intro mult_nonneg_nonneg) (simp_all add: round_half_even_nonneg)
  with x show ?thesis by (simp add: fl_def Let_def sgn_if)
qed

lemma decimal_round_nonneg: "0 \<le> x \<Longrightarrow> 0 \<le> decimal_round k x"
proof -
  assume x: "0 \<le> x"
  let ?u = "pow10 (exponent10 x - int k + 1)"
  have u: "0 \<le> ?u" by (rule less_imp_le) simp
  with x have "0 \<le> of_int (round_half_even (x / ?u)) * ?u"
    by (intro mult_nonneg_nonneg) (simp_all add: round_half_even_nonneg)
  then show ?thesis by (simp add: decimal_round_def Let_def)
qed

lemma repr_fraction_nonneg: "0 \<le> x \<Longrightarrow> 0 \<le> repr_fraction x"
  using decimal_round_nonneg [of x] by (auto simp: repr_fraction_def sgn_if split: option.splits)

end
