(* ===== verification/OrderBuild.thy ===== *)
theory OrderBuild
  imports PackedRead PyFloat "HOL-Library.Product_Lexorder"
begin

text \<open>
  \<^verbatim>\<open>build_training_order\<close> of \<^verbatim>\<open>pretrain/data.py\<close> and what it calls: weight
  normalisation, the largest-remainder allocation of rows to domains, the seeded selection and
  shuffle, and the accounting of selected, surplus, consumed and dropped rows and tokens.

  \<open>shuffle seed xs\<close> stands for \<^verbatim>\<open>numpy.random.Generator(PCG64(seed)).shuffle\<close>; its only
  documented law, that it permutes its argument, is a hypothesis where it is needed. PCG64 refuses
  a negative seed; only the all-rows branch passes the caller's seed to it directly. Per-domain
  dictionaries are lists in the order of \<^verbatim>\<open>DOMAIN_ORDER\<close>.
\<close>

section \<open>Weights\<close>

definition normalize_domain_weights :: "(string \<times> rat) list \<Rightarrow> rat list res" where
  "normalize_domain_weights weights =
     (if set (map fst weights) \<noteq> set domain_order
      then Inl (ValueError ''Expected weights must contain exactly the domains'')
      else let values = map (\<lambda>d. the (map_of weights d)) domain_order in
      if list_ex (\<lambda>v. v < 0) values
      then Inl (ValueError ''Expected weights must be finite and non-negative'')
      else let total = py_sum values in
      if total \<le> 0 then Inl (ValueError ''Expected weights must have positive total weight'')
      else Inr (map (\<lambda>v. py_div v total) values))"

definition validate_row_mixture :: "nat list \<Rightarrow> rat list \<Rightarrow> unit res" where
  "validate_row_mixture counts weights =
     (let total_rows = sum_list counts in
      if list_ex (\<lambda>(n, w). 1 < \<bar>py_sub (of_nat n) (py_mul (of_nat total_rows) w)\<bar>) (zip counts weights)
      then Inl (ValueError ''Packed row mixture is wrong'') else Inr ())"

text \<open>Largest remainder with ties to the earlier domain.\<close>

definition exact_shares :: "nat \<Rightarrow> rat list \<Rightarrow> rat list" where
  "exact_shares total_rows fractions =
     map (\<lambda>f. of_nat total_rows * f / sum_list fractions) fractions"

definition allocate_rows :: "nat \<Rightarrow> rat list \<Rightarrow> nat list" where
  "allocate_rows total_rows fractions =
     (let exact = exact_shares total_rows fractions;
          counts = map (\<lambda>x. nat \<lfloor>x\<rfloor>) exact;
          remainder = total_rows - sum_list counts;
          ranked = sort_key (\<lambda>i. (- (exact ! i - of_nat (counts ! i)), i)) [0..<length fractions];
          bumped = take remainder ranked in
      map (\<lambda>i. counts ! i + (if i \<in> set bumped then 1 else 0)) [0..<length fractions])"

definition strict_weighted_row_counts :: "int \<Rightarrow> rat list \<Rightarrow> nat list res" where
  "strict_weighted_row_counts total_rows weights =
     (if total_rows < 1 then Inl (ValueError ''A weighted order must contain at least one row'')
      else let counts = allocate_rows (nat total_rows) (map repr_fraction weights) in
      rbind (validate_row_mixture counts weights) (\<lambda>_. Inr counts))"

section \<open>The seeded permutations\<close>

definition decimal_of_int :: "int \<Rightarrow> string" where
  "decimal_of_int i = (if i < 0 then ''-'' @ dec (nat (- i)) else dec (nat i))"

definition derived_seed :: "int \<Rightarrow> string \<Rightarrow> int" where
  "derived_seed seed namespace =
     int (int_from_bytes (take 16 (sha256_digest (utf8 (decimal_of_int seed @ [CHR 0x00] @ namespace)))))"

definition encoded_domain_references :: "nat \<Rightarrow> 64 word list \<Rightarrow> 64 word list" where
  "encoded_domain_references domain_id row_ids =
     map (\<lambda>w. w OR word_of_nat (domain_id * 2 ^ row_bits)) row_ids"

definition arange :: "nat \<Rightarrow> 64 word list" where
  "arange n = map word_of_nat [0..<n]"

type_synonym shuffler = "int \<Rightarrow> 64 word list \<Rightarrow> 64 word list"

definition domain_permutation :: "shuffler \<Rightarrow> int \<Rightarrow> nat \<Rightarrow> nat \<Rightarrow> 64 word list" where
  "domain_permutation shuffle seed domain_id available =
     shuffle (derived_seed seed (''domain:'' @ domain_order ! domain_id)) (arange available)"

definition capped_references ::
  "shuffler \<Rightarrow> int \<Rightarrow> nat list \<Rightarrow> nat list \<Rightarrow> 64 word list \<times> 64 word list" where
  "capped_references shuffle seed available selected =
     (let chunk = (\<lambda>f. concat (map (\<lambda>k. encoded_domain_references k
            (f (selected ! k) (domain_permutation shuffle seed k (available ! k))))
            [0..<length domain_order])) in
      (shuffle (derived_seed seed ''global:selected'') (chunk take), chunk drop))"

definition all_references :: "shuffler \<Rightarrow> int \<Rightarrow> nat list \<Rightarrow> 64 word list" where
  "all_references shuffle seed selected =
     shuffle seed (concat (map (\<lambda>k. encoded_domain_references k (arange (selected ! k)))
       [0..<length domain_order]))"

section \<open>Inputs\<close>

definition common_keys :: "string list" where
  "common_keys = [''split'', ''sequence_length'', ''vocab_size'', ''eos_token_id'',
     ''tokenizer_manifest_sha256'']"

definition load_order_input :: "dir \<Rightarrow> string \<Rightarrow> json option \<Rightarrow> json res" where
  "load_order_input d domain common =
     rbind (load_json d manifest_name) (\<lambda>m.
     rbind (parse_packed_manifest m) (\<lambda>_.
     if \<not> py_eq (jget m ''domain'') (JStr domain)
     then Inl (ValueError ''manifest declares another domain'')
     else (case common of
         Some c \<Rightarrow> if \<not> list_all (\<lambda>k. py_eq (jget m k) (jget c k)) common_keys
                   then Inl (ValueError ''All manifests must agree'') else Inr m
       | None \<Rightarrow> Inr m)))"

definition load_order_inputs :: "(string \<Rightarrow> dir) \<Rightarrow> json list res" where
  "load_order_inputs manifests =
     foldM (\<lambda>loaded domain.
        rbind (load_order_input (manifests domain) domain
                 (case loaded of [] \<Rightarrow> None | c # _ \<Rightarrow> Some c)) (\<lambda>m. Inr (loaded @ [m])))
       [] domain_order"

definition manifest_num :: "string \<Rightarrow> json \<Rightarrow> nat" where
  "manifest_num k m = nat (jint_of (jget m k))"

section \<open>Row selection\<close>

record selection =
  s_capped :: bool
  s_rows_per_domain :: "nat list"
  s_total_rows :: nat
  s_delta :: "int option"
  s_tolerance :: json

text \<open>The strict cap: the largest whole number of rows, or of updates, at or below the target.\<close>

definition select_capped ::
  "nat list \<Rightarrow> nat \<Rightarrow> rat list option \<Rightarrow> json \<Rightarrow> json \<Rightarrow> nat option \<Rightarrow> selection res" where
  "select_capped available T weights expected_total tolerance update_rows =
     (case weights of
        None \<Rightarrow> Inl (ValueError ''expected_total_input_tokens requires expected_weights'')
      | Some w \<Rightarrow>
        if \<not> positive_int expected_total
        then Inl (ValueError ''expected_total_input_tokens must be a positive integer'')
        else let target = nat (jint_of expected_total); maximum_rows = target div T;
                 total = (case update_rows of None \<Rightarrow> maximum_rows | Some u \<Rightarrow> maximum_rows div u * u) in
        if total < 1 then Inl (ValueError ''Input-token target is smaller than one selectable row/update'')
        else rbind (strict_weighted_row_counts (int total) w) (\<lambda>selected.
          if list_ex (\<lambda>(s, a). a < s) (zip selected available)
          then Inl (ValueError ''Insufficient packed rows for strict weighted cap'')
          else let tol = (if tolerance = JNull
                 then JInt (case update_rows of None \<Rightarrow> int T - 1 | Some u \<Rightarrow> int (u * T) - 1)
                 else tolerance);
               delta = int (total * T) - int target in
          if \<not> (is_jint tol \<or> is_jbool tol) \<or> jint_of tol < 0
          then Inl (ValueError ''input_token_tolerance must be a non-negative integer'')
          else if 0 < delta \<or> delta < - jint_of tol
          then Inl (ValueError ''Packed input-token budget is wrong'')
          else Inr \<lparr>s_capped = True, s_rows_per_domain = selected, s_total_rows = total,
                 s_delta = Some delta, s_tolerance = tol\<rparr>))"

definition select_all :: "nat list \<Rightarrow> rat list option \<Rightarrow> json \<Rightarrow> selection res" where
  "select_all available weights tolerance =
     (if tolerance \<noteq> JNull
      then Inl (ValueError ''input_token_tolerance requires expected_total_input_tokens'')
      else rbind (case weights of None \<Rightarrow> Inr () | Some w \<Rightarrow> validate_row_mixture available w) (\<lambda>_.
        Inr \<lparr>s_capped = False, s_rows_per_domain = available, s_total_rows = sum_list available,
             s_delta = None, s_tolerance = JNull\<rparr>))"

section \<open>Accounting\<close>

definition sub_lists :: "int list \<Rightarrow> int list \<Rightarrow> int list" where
  "sub_lists xs ys = map (\<lambda>(x, y). x - y) (zip xs ys)"

text \<open>Supervised tokens of the selection, counted on its smaller side.\<close>

definition selected_supervised ::
  "(string \<Rightarrow> dir) \<Rightarrow> nat \<Rightarrow> selection \<Rightarrow> nat list \<Rightarrow> nat list \<Rightarrow> 64 word list \<Rightarrow> 64 word list \<Rightarrow>
     int list res" where
  "selected_supervised manifests T sel available_rows available_supervised references surplus =
     rbind (if \<not> s_capped sel then Inr (map int available_supervised)
            else if sum_list available_rows - sum_list (s_rows_per_domain sel) \<le> s_total_rows sel
            then rbind (count_supervised manifests T surplus) (\<lambda>c.
                   Inr (sub_lists (map int available_supervised) (map int c)))
            else rbind (count_supervised manifests T references) (\<lambda>c. Inr (map int c)))
       (\<lambda>selected.
        if list_ex (\<lambda>v. v < 0) (sub_lists (map int available_supervised) selected)
        then Inl (ValueError ''Selected supervised tokens exceed packed availability'')
        else Inr selected)"

record consumption =
  u_gmr :: nat
  u_ga :: nat
  u_update_rows :: nat
  u_updates :: nat
  u_rows :: nat
  u_dropped_rows :: nat
  u_available_microbatches :: nat
  u_consumed_microbatches :: nat
  u_dropped_microbatches :: int
  u_dropped_partial_rows :: nat
  u_rows_per_domain :: "nat list"
  u_dropped_rows_per_domain :: "int list"
  u_supervised_per_domain :: "int list"
  u_dropped_supervised_per_domain :: "int list"

definition consumption_of ::
  "(string \<Rightarrow> dir) \<Rightarrow> nat \<Rightarrow> selection \<Rightarrow> 64 word list \<Rightarrow> int list \<Rightarrow> nat \<Rightarrow> nat \<Rightarrow> consumption res" where
  "consumption_of manifests T sel references supervised gmr ga =
     (let update_rows = gmr * ga; updates = s_total_rows sel div update_rows in
      if updates < 1
      then Inl (ValueError ''frozen optimizer-update geometry is larger than the order'')
      else let consumed = updates * update_rows;
               rows_per_domain = map (\<lambda>k. length (filter (\<lambda>w. fst (decode_reference w) = k)
                   (take consumed references))) [0..<length domain_order] in
      rbind (count_supervised manifests T (drop consumed references)) (\<lambda>dropped.
        Inr \<lparr>u_gmr = gmr, u_ga = ga, u_update_rows = update_rows, u_updates = updates,
             u_rows = consumed, u_dropped_rows = s_total_rows sel - consumed,
             u_available_microbatches = s_total_rows sel div gmr,
             u_consumed_microbatches = updates * ga,
             u_dropped_microbatches = int (s_total_rows sel div gmr) - int (updates * ga),
             u_dropped_partial_rows = s_total_rows sel mod gmr,
             u_rows_per_domain = rows_per_domain,
             u_dropped_rows_per_domain =
               sub_lists (map int (s_rows_per_domain sel)) (map int rows_per_domain),
             u_supervised_per_domain = sub_lists supervised (map int dropped),
             u_dropped_supervised_per_domain = map int dropped\<rparr>))"

record order_plan =
  o_inputs :: "json list"
  o_sequence_length :: nat
  o_available_rows :: "nat list"
  o_available_supervised :: "nat list"
  o_weights :: "rat list option"
  o_selection :: selection
  o_references :: "64 word list"
  o_surplus :: "64 word list"
  o_supervised :: "int list"
  o_consumption :: "consumption option"

definition frozen_value_ok :: "json \<Rightarrow> bool" where
  "frozen_value_ok v \<longleftrightarrow> v = JNull \<or> positive_int v"

definition plan_training_order ::
  "shuffler \<Rightarrow> (string \<Rightarrow> dir) \<Rightarrow> int \<Rightarrow> (string \<times> rat) list option \<Rightarrow> json \<Rightarrow> json \<Rightarrow> json \<Rightarrow> json \<Rightarrow>
     order_plan res" where
  "plan_training_order shuffle manifests seed expected_weights expected_total tolerance frozen_gmr frozen_ga =
     (if (frozen_gmr = JNull) \<noteq> (frozen_ga = JNull)
      then Inl (ValueError ''frozen geometry must be supplied together'')
      else if \<not> (frozen_value_ok frozen_gmr \<and> frozen_value_ok frozen_ga)
      then Inl (ValueError ''frozen geometry must be a positive integer'')
      else rbind (load_order_inputs manifests) (\<lambda>inputs.
      let T = manifest_num ''sequence_length'' (hd inputs);
          available = map (manifest_num ''rows'') inputs;
          available_supervised = map (manifest_num ''valid_loss_tokens'') inputs;
          gmr = nat (jint_of frozen_gmr); ga = nat (jint_of frozen_ga);
          update_rows = (if frozen_gmr = JNull then None else Some (gmr * ga)) in
      if sum_list available < 1 then Inl (ValueError ''Cannot build an empty training order'')
      else if list_ex (\<lambda>n. 2 ^ row_bits - 1 < n) available
      then Inl (ValueError ''A packed domain contains too many addressable rows'')
      else rbind (case expected_weights of None \<Rightarrow> Inr None
                  | Some w \<Rightarrow> rbind (normalize_domain_weights w) (\<lambda>v. Inr (Some v))) (\<lambda>weights.
      rbind (if expected_total \<noteq> JNull
             then select_capped available T weights expected_total tolerance update_rows
             else select_all available weights tolerance) (\<lambda>sel.
      if \<not> s_capped sel \<and> seed < 0 then Inl (ValueError ''expected non-negative integer'')
      else let (references, surplus) = (if s_capped sel
             then capped_references shuffle seed available (s_rows_per_domain sel)
             else (all_references shuffle seed (s_rows_per_domain sel), [])) in
      rbind (selected_supervised manifests T sel available available_supervised references surplus)
        (\<lambda>supervised.
      rbind (if frozen_gmr = JNull then Inr None
             else rbind (consumption_of manifests T sel references supervised gmr ga) (\<lambda>u. Inr (Some u)))
        (\<lambda>consumption.
      Inr \<lparr>o_inputs = inputs, o_sequence_length = T, o_available_rows = available,
           o_available_supervised = available_supervised, o_weights = weights, o_selection = sel,
           o_references = references, o_surplus = surplus, o_supervised = supervised,
           o_consumption = consumption\<rparr>))))))"

section \<open>The order file and its manifest\<close>

definition u64_le :: "64 word \<Rightarrow> byte list" where
  "u64_le w = map (\<lambda>i. ucast (drop_bit (8 * i) w)) [0..<8]"

definition u64_of_le :: "byte list \<Rightarrow> 64 word" where
  "u64_of_le bs = fold (\<lambda>b a. push_bit 8 a OR ucast b) (rev bs) 0"

definition order_bytes :: "64 word list \<Rightarrow> byte list" where
  "order_bytes references = concat (map u64_le references)"

definition per_domain :: "('a \<Rightarrow> json) \<Rightarrow> 'a list \<Rightarrow> json" where
  "per_domain f xs = JObj (zip domain_order (map f xs))"

definition jnat :: "nat \<Rightarrow> json" where "jnat n = JInt (int n)"

text \<open>\<^verbatim>\<open>value / total\<close>, or \<^verbatim>\<open>0.0\<close> for an empty total.\<close>

definition ratio_json :: "int \<Rightarrow> int \<Rightarrow> json" where
  "ratio_json whole v = JFloat (if whole = 0 then 0 else py_div (of_int v) (of_int whole))"

definition consumption_json :: "order_plan \<Rightarrow> json" where
  "consumption_json p =
     (let sel = o_selection p; T = o_sequence_length p; total = s_total_rows sel;
          opt = (\<lambda>f. case o_consumption p of None \<Rightarrow> JNull | Some u \<Rightarrow> f u) in
      JObj [
        (''policy'', JStr (case o_consumption p of
            None \<Rightarrow> ''runtime-training-geometry-not-frozen''
          | Some _ \<Rightarrow> ''complete-frozen-optimizer-updates-no-padding'')),
        (''frozen_global_microbatch_rows'', opt (jnat \<circ> u_gmr)),
        (''frozen_gradient_accumulation_steps'', opt (jnat \<circ> u_ga)),
        (''frozen_optimizer_update_rows'', opt (jnat \<circ> u_update_rows)),
        (''order_rows'', jnat total),
        (''consumed_rows'', opt (jnat \<circ> u_rows)),
        (''dropped_tail_rows'', opt (jnat \<circ> u_dropped_rows)),
        (''available_global_microbatches'', opt (jnat \<circ> u_available_microbatches)),
        (''consumed_global_microbatches'', opt (jnat \<circ> u_consumed_microbatches)),
        (''dropped_global_microbatches'', opt (JInt \<circ> u_dropped_microbatches)),
        (''dropped_partial_microbatch_rows'', opt (jnat \<circ> u_dropped_partial_rows)),
        (''optimizer_updates'', opt (jnat \<circ> u_updates)),
        (''available_input_tokens'', jnat (total * T)),
        (''available_supervised_tokens'', JInt (sum_list (o_supervised p))),
        (''consumed_input_tokens'', opt (\<lambda>u. jnat (u_rows u * T))),
        (''dropped_input_tokens'', opt (\<lambda>u. jnat (u_dropped_rows u * T))),
        (''consumed_supervised_tokens'', opt (\<lambda>u. JInt (sum_list (u_supervised_per_domain u)))),
        (''dropped_supervised_tokens'', opt (\<lambda>u. JInt (sum_list (u_dropped_supervised_per_domain u)))),
        (''consumed_rows_per_domain'', opt (\<lambda>u. per_domain jnat (u_rows_per_domain u))),
        (''consumed_input_tokens_per_domain'',
           opt (\<lambda>u. per_domain (\<lambda>n. jnat (n * T)) (u_rows_per_domain u))),
        (''consumed_supervised_tokens_per_domain'',
           opt (\<lambda>u. per_domain JInt (u_supervised_per_domain u))),
        (''realized_consumed_input_token_weights'',
           opt (\<lambda>u. per_domain (\<lambda>n. ratio_json (int (u_rows u)) (int n)) (u_rows_per_domain u))),
        (''realized_consumed_supervised_token_weights'',
           opt (\<lambda>u. per_domain (ratio_json (sum_list (u_supervised_per_domain u)))
             (u_supervised_per_domain u))),
        (''dropped_rows_per_domain'', opt (\<lambda>u. per_domain JInt (u_dropped_rows_per_domain u))),
        (''dropped_input_tokens_per_domain'',
           opt (\<lambda>u. per_domain (\<lambda>n. JInt (n * int T)) (u_dropped_rows_per_domain u))),
        (''dropped_supervised_tokens_per_domain'',
           opt (\<lambda>u. per_domain JInt (u_dropped_supervised_per_domain u)))])"

definition budget_json :: "json \<Rightarrow> order_plan \<Rightarrow> json" where
  "budget_json expected_total p =
     (let sel = o_selection p; T = o_sequence_length p; total = s_total_rows sel;
          surplus = sum_list (o_available_rows p) - sum_list (s_rows_per_domain sel) in
      JObj [
        (''policy'', JStr ''packed_model_inputs_including_eos_excluding_lookahead_duplicates''),
        (''direction'', JStr ''at_or_below''),
        (''expected_total'', expected_total),
        (''actual_total'', jnat (case o_consumption p of None \<Rightarrow> total * T | Some u \<Rightarrow> u_rows u * T)),
        (''available_total'', jnat (total * T)),
        (''packed_available_total'', jnat (sum_list (o_available_rows p) * T)),
        (''packed_surplus_total'', jnat (surplus * T)),
        (''accounting'', JStr (case o_consumption p of
            None \<Rightarrow> ''available-order-inputs''
          | Some _ \<Rightarrow> ''consumed-complete-optimizer-update-inputs'')),
        (''delta'', json_opt_int (s_delta sel)),
        (''tolerance'', s_tolerance sel)])"

text \<open>
  The manifest. The digests and relative paths of the three packed manifests and the NumPy
  version come from outside: the digest of a JSON file is over its serialised bytes, which the
  directory model does not keep.
\<close>

definition order_manifest ::
  "json \<Rightarrow> int \<Rightarrow> string \<Rightarrow> (string \<times> string) list \<Rightarrow> order_plan \<Rightarrow> json" where
  "order_manifest expected_total seed numpy_version dataset_files p =
     (let sel = o_selection p; T = o_sequence_length p; common = hd (o_inputs p);
          available = o_available_rows p; rws = s_rows_per_domain sel; total = s_total_rows sel;
          surplus = map (\<lambda>(a, s). a - s) (zip available rws);
          available_sup = map int (o_available_supervised p); sup = o_supervised p;
          bytes = order_bytes (o_references p) in
      JObj [
        (''format'', JStr ''global-packed-row-order''),
        (''format_version'', JInt 4),
        (''reference_dtype'', JStr ''<u8''),
        (''encoding'', JObj [(''domain_bits'', JInt 8), (''row_bits'', JInt 56)]),
        (''domain_order'', JList (map JStr domain_order)),
        (''rows_per_domain'', per_domain jnat rws),
        (''rows'', jnat total),
        (''packed_available_rows'', jnat (sum_list available)),
        (''packed_available_rows_per_domain'', per_domain jnat available),
        (''packed_available_input_tokens'', jnat (sum_list available * T)),
        (''packed_available_input_tokens_per_domain'', per_domain (\<lambda>n. jnat (n * T)) available),
        (''packed_available_supervised_tokens'', JInt (sum_list available_sup)),
        (''packed_available_supervised_tokens_per_domain'', per_domain JInt available_sup),
        (''packed_surplus_rows'', jnat (sum_list surplus)),
        (''packed_surplus_rows_per_domain'', per_domain jnat surplus),
        (''packed_surplus_input_tokens'', jnat (sum_list surplus * T)),
        (''packed_surplus_input_tokens_per_domain'', per_domain (\<lambda>n. jnat (n * T)) surplus),
        (''packed_surplus_supervised_tokens'', JInt (sum_list (sub_lists available_sup sup))),
        (''packed_surplus_supervised_tokens_per_domain'', per_domain JInt (sub_lists available_sup sup)),
        (''split'', jget common ''split''),
        (''sequence_length'', jnat T),
        (''vocab_size'', jget common ''vocab_size''),
        (''eos_token_id'', jget common ''eos_token_id''),
        (''seed'', JInt seed),
        (''rng'', JStr ''numpy.random.PCG64''),
        (''seed_derivation'', if s_capped sel
           then JStr ''sha256(seed-nul-namespace)-first-128-bits-big-endian'' else JNull),
        (''numpy_version'', JStr numpy_version),
        (''shuffle'', JStr (if s_capped sel
           then ''independent-full-domain-permutations-select-prefix-then-global-uniform-permutation-without-replacement''
           else ''full-uniform-permutation-without-replacement'')),
        (''row_selection'', JStr (if s_capped sel then ''strict-weighted-token-cap'' else ''all-packed-rows'')),
        (''tokenizer_manifest_sha256'', jget common ''tokenizer_manifest_sha256''),
        (''expected_input_token_weights'', case o_weights p of None \<Rightarrow> JNull | Some w \<Rightarrow> per_domain JFloat w),
        (''input_tokens_per_domain'', per_domain (\<lambda>n. jnat (n * T)) rws),
        (''realized_input_token_weights'', per_domain (\<lambda>n. ratio_json (int total) (int n)) rws),
        (''valid_loss_tokens_per_domain'', per_domain JInt sup),
        (''realized_valid_loss_token_weights'', per_domain (ratio_json (sum_list sup)) sup),
        (''training_consumption'', consumption_json p),
        (''input_token_budget'', budget_json expected_total p),
        (''dataset_manifests'', JObj (zip domain_order
           (map (\<lambda>(path, sha). JObj [(''path'', JStr path), (''sha256'', JStr sha)]) dataset_files))),
        (''order'', JObj [(''path'', JStr ''order.bin''), (''bytes'', jnat (length bytes)),
           (''sha256'', JStr (sha256 bytes))])])"

text \<open>
  \<^verbatim>\<open>build_training_order\<close>: the whole function, on an output directory. The three manifests are
  given as a mapping; their relative paths and digests as \<open>dataset_files\<close>.
\<close>

definition order_name :: string where "order_name = ''order.bin''"

definition order_part_name :: string where "order_part_name = ''.order.bin.part''"

definition build_training_order ::
  "shuffler \<Rightarrow> string \<Rightarrow> (string \<times> string) list \<Rightarrow> (string \<times> dir) list \<Rightarrow> dir \<Rightarrow> int \<Rightarrow>
     (string \<times> rat) list option \<Rightarrow> json \<Rightarrow> json \<Rightarrow> json \<Rightarrow> json \<Rightarrow> (json \<times> dir) res" where
  "build_training_order shuffle numpy_version dataset_files manifests output seed expected_weights
     expected_total tolerance frozen_gmr frozen_ga =
     (if output \<noteq> [] then Inl (FileExistsError ''Refusing to write into non-empty order directory'')
      else if set (map fst manifests) \<noteq> set domain_order
      then Inl (ValueError ''Expected exactly the domains'')
      else rbind (plan_training_order shuffle (\<lambda>domain. the (map_of manifests domain)) seed expected_weights
                    expected_total tolerance frozen_gmr frozen_ga) (\<lambda>p.
      let payload = Bytes (order_bytes (o_references p));
          written = AList.update order_part_name payload output;
          renamed = AList.update order_name payload (AList.delete order_part_name written);
          m = order_manifest expected_total seed numpy_version dataset_files p in
      Inr (m, AList.update manifest_name (JsonFile m) renamed)))"

end
