(* ===== verification/OrderAlloc.thy ===== *)
theory OrderAlloc
  imports OrderBuild
begin

text \<open>
  The largest-remainder allocation: it distributes exactly the requested rows, gives every domain
  its exact share rounded down or up, and rounds up the largest remainders first, ties to the
  earlier domain.
\<close>

definition share_floor :: "nat \<Rightarrow> rat list \<Rightarrow> nat \<Rightarrow> nat" where
  "share_floor n fs i = nat \<lfloor>exact_shares n fs ! i\<rfloor>"

definition share_rest :: "nat \<Rightarrow> rat list \<Rightarrow> nat \<Rightarrow> rat" where
  "share_rest n fs i = exact_shares n fs ! i - of_nat (share_floor n fs i)"

definition share_rank :: "nat \<Rightarrow> rat list \<Rightarrow> nat list" where
  "share_rank n fs = sort_key (\<lambda>i. (- share_rest n fs i, i)) [0..<length fs]"

definition share_extra :: "nat \<Rightarrow> rat list \<Rightarrow> nat" where
  "share_extra n fs = n - sum_list (map (share_floor n fs) [0..<length fs])"

definition weights_ok :: "rat list \<Rightarrow> bool" where
  "weights_ok fs \<longleftrightarrow> (\<forall>f\<in>set fs. 0 \<le> f) \<and> 0 < sum_list fs"

lemma length_exact_shares [simp]: "length (exact_shares n fs) = length fs"
  by (simp add: exact_shares_def)

lemma insort_key_cong_on:
  "f x = g x \<Longrightarrow> (\<And>y. y \<in> set ys \<Longrightarrow> f y = g y) \<Longrightarrow> insort_key f x ys = insort_key g x ys"
  by (induction ys) auto

lemma sort_key_cong_on:
  "(\<And>x. x \<in> set xs \<Longrightarrow> f x = g x) \<Longrightarrow> sort_key f xs = sort_key g xs"
proof (induction xs)
  case (Cons x xs)
  then have "sort_key f xs = sort_key g xs" by simp
  with Cons.prems show ?case by (simp, intro insort_key_cong_on) auto
qed simp

lemma nth_allocate_rows:
  assumes "i < length fs"
  shows "allocate_rows n fs ! i = share_floor n fs i +
     (if i \<in> set (take (share_extra n fs) (share_rank n fs)) then 1 else 0)"
proof -
  have cnt: "map (\<lambda>x. nat \<lfloor>x\<rfloor>) (exact_shares n fs) = map (share_floor n fs) [0..<length fs]"
    by (rule nth_equalityI) (simp_all add: share_floor_def)
  have rank: "sort_key (\<lambda>i. (- (exact_shares n fs ! i -
        of_nat (map (share_floor n fs) [0..<length fs] ! i)), i)) [0..<length fs] = share_rank n fs"
    unfolding share_rank_def by (rule sort_key_cong_on) (simp add: share_rest_def)
  show ?thesis
    unfolding allocate_rows_def Let_def cnt rank using assms by (simp add: share_extra_def)
qed

lemma length_allocate_rows [simp]: "length (allocate_rows n fs) = length fs"
  by (simp add: allocate_rows_def Let_def)

lemma share_rank_perm:
  "set (share_rank n fs) = {0..<length fs}" "distinct (share_rank n fs)" "length (share_rank n fs) = length fs"
  by (simp_all add: share_rank_def)

lemma exact_share_nonneg:
  assumes "weights_ok fs" and "i < length fs"
  shows "0 \<le> exact_shares n fs ! i"
  using assms by (auto simp: exact_shares_def weights_ok_def intro!: divide_nonneg_pos mult_nonneg_nonneg)

lemma share_rest_bounds:
  assumes "weights_ok fs" and "i < length fs"
  shows "0 \<le> share_rest n fs i" and "share_rest n fs i < 1"
  using exact_share_nonneg [OF assms, of n] floor_correct [of "exact_shares n fs ! i"]
  by (simp_all add: share_rest_def share_floor_def)

lemma sum_list_scaled: "sum_list (map (\<lambda>x. a * x / b) xs) = a * sum_list xs / (b :: rat)"
  by (induction xs) (simp_all add: ring_distribs add_divide_distrib)

lemma sum_exact_shares: "weights_ok fs \<Longrightarrow> sum_list (exact_shares n fs) = of_nat n"
  by (simp add: exact_shares_def sum_list_scaled weights_ok_def)

lemma sum_shares:
  assumes "weights_ok fs"
  shows "of_nat (sum_list (map (share_floor n fs) [0..<length fs])) +
     (\<Sum>i<length fs. share_rest n fs i) = of_nat n"
proof -
  have "sum_list (exact_shares n fs) = (\<Sum>i<length fs. exact_shares n fs ! i)"
    by (simp add: sum_list_sum_nth atLeast0LessThan)
  also have "\<dots> = (\<Sum>i<length fs. of_nat (share_floor n fs i) + share_rest n fs i)"
    by (simp add: share_rest_def)
  also have "\<dots> = of_nat (\<Sum>i<length fs. share_floor n fs i) + (\<Sum>i<length fs. share_rest n fs i)"
    by (simp add: sum.distrib)
  finally show ?thesis
    using sum_exact_shares [OF assms] by (simp add: interv_sum_list_conv_sum_set_nat atLeast0LessThan)
qed

lemma share_extra_rest:
  assumes "weights_ok fs"
  shows "of_nat (share_extra n fs) = (\<Sum>i<length fs. share_rest n fs i)"
    and "sum_list (map (share_floor n fs) [0..<length fs]) \<le> n"
proof -
  let ?f = "sum_list (map (share_floor n fs) [0..<length fs])"
  have "0 \<le> (\<Sum>i<length fs. share_rest n fs i)"
    using share_rest_bounds [OF assms] by (intro sum_nonneg) auto
  with sum_shares [OF assms, of n] have "of_nat ?f \<le> (of_nat n :: rat)" by linarith
  then show le: "?f \<le> n" by (simp only: of_nat_le_iff)
  from sum_shares [OF assms, of n] show "of_nat (share_extra n fs) = (\<Sum>i<length fs. share_rest n fs i)"
    by (simp add: share_extra_def of_nat_diff [OF le])
qed

text \<open>There are at least as many positive remainders as rows left to hand out.\<close>

lemma share_extra_le_positive:
  assumes "weights_ok fs"
  shows "share_extra n fs \<le> card {i. i < length fs \<and> 0 < share_rest n fs i}"
proof -
  let ?P = "{i. i < length fs \<and> 0 < share_rest n fs i}"
  have fin: "finite ?P" by simp
  have "(\<Sum>i<length fs. share_rest n fs i) = (\<Sum>i\<in>?P. share_rest n fs i)"
    using share_rest_bounds(1) [OF assms, of _ n]
    by (intro sum.mono_neutral_right) (auto simp: less_le)
  also have "\<dots> \<le> (\<Sum>i\<in>?P. 1)"
    using share_rest_bounds(2) [OF assms, of _ n] by (intro sum_mono less_imp_le) auto
  finally have "(of_nat (share_extra n fs) :: rat) \<le> of_nat (card ?P)"
    using share_extra_rest(1) [OF assms, of n] by simp
  then show ?thesis by (simp only: of_nat_le_iff)
qed

lemma share_extra_le_length: "weights_ok fs \<Longrightarrow> share_extra n fs \<le> length fs"
  using share_extra_le_positive [of fs n]
    card_mono [of "{0..<length fs}" "{i. i < length fs \<and> 0 < share_rest n fs i}"]
  by (simp add: subset_iff)

lemma share_rank_order:
  assumes "p < q" and "q < length fs"
  shows "share_rest n fs (share_rank n fs ! q) < share_rest n fs (share_rank n fs ! p) \<or>
     share_rest n fs (share_rank n fs ! q) = share_rest n fs (share_rank n fs ! p) \<and>
     share_rank n fs ! p < share_rank n fs ! q"
proof -
  let ?r = "share_rank n fs" and ?k = "\<lambda>i. (- share_rest n fs i, i)"
  have "sorted (map ?k ?r)" by (simp add: share_rank_def)
  then have "?k (?r ! p) \<le> ?k (?r ! q)"
    using assms sorted_nth_mono [of "map ?k ?r" p q] by (simp add: share_rank_perm)
  moreover have "?r ! p \<noteq> ?r ! q"
    using assms nth_eq_iff_index_eq [OF share_rank_perm(2), of p n fs q] by (simp add: share_rank_perm)
  ultimately show ?thesis by (auto simp: less_eq_prod_def)
qed

text \<open>Who gets a row of the remainder, against who does not.\<close>

definition bumped :: "nat \<Rightarrow> rat list \<Rightarrow> nat set" where
  "bumped n fs = set (take (share_extra n fs) (share_rank n fs))"

lemma bumped_before:
  assumes "i \<in> bumped n fs" and "j < length fs" and "j \<notin> bumped n fs"
  shows "share_rest n fs j < share_rest n fs i \<or> share_rest n fs j = share_rest n fs i \<and> i < j"
proof -
  let ?r = "share_rank n fs" and ?e = "share_extra n fs"
  from assms(1) obtain p where p: "p < length fs" "p < ?e" "?r ! p = i"
    by (auto simp: bumped_def in_set_conv_nth share_rank_perm)
  from assms(2) have "j \<in> set ?r" by (simp add: share_rank_perm)
  then obtain q where q: "q < length fs" "?r ! q = j"
    unfolding in_set_conv_nth share_rank_perm(3) by blast
  have "\<not> q < ?e"
  proof
    assume "q < ?e"
    then have "j \<in> set (take ?e ?r)" using q by (auto simp: in_set_conv_nth share_rank_perm intro!: exI [of _ q])
    with assms(3) show False by (simp add: bumped_def)
  qed
  with p(2) have "p < q" by simp
  from share_rank_order [OF this q(1), of n] show ?thesis unfolding p(3) q(2) .
qed

lemma bumped_positive:
  assumes ok: "weights_ok fs" and i: "i \<in> bumped n fs"
  shows "0 < share_rest n fs i"
proof (rule ccontr)
  assume npos: "\<not> 0 < share_rest n fs i"
  let ?P = "{i. i < length fs \<and> 0 < share_rest n fs i}"
  have "i < length fs" using i set_take_subset [of "share_extra n fs" "share_rank n fs"]
    by (auto simp: bumped_def share_rank_perm)
  have sub: "?P \<subseteq> bumped n fs - {i}"
    using bumped_before [OF i] npos by fastforce
  have fin: "finite (bumped n fs)" by (simp add: bumped_def)
  have "card ?P \<le> card (bumped n fs - {i})" by (rule card_mono) (use fin sub in auto)
  also have "\<dots> < card (bumped n fs)" using fin i by (rule card_Diff1_less)
  also have "\<dots> \<le> share_extra n fs"
    using distinct_card [OF distinct_take [OF share_rank_perm(2), of "share_extra n fs" n fs]]
    by (simp add: bumped_def)
  finally show False using share_extra_le_positive [OF ok, of n] by simp
qed

lemma card_bumped: "weights_ok fs \<Longrightarrow> card (bumped n fs) = share_extra n fs"
  using distinct_card [OF distinct_take [OF share_rank_perm(2), of "share_extra n fs" n fs]]
    share_extra_le_length [of fs n]
  by (simp add: bumped_def share_rank_perm)

lemma sum_allocate_rows:
  assumes ok: "weights_ok fs"
  shows "sum_list (allocate_rows n fs) = n"
proof -
  have B: "{i. i < length fs \<and> i \<in> bumped n fs} = bumped n fs"
    using set_take_subset [of "share_extra n fs" "share_rank n fs"] by (auto simp: bumped_def share_rank_perm)
  have "sum_list (allocate_rows n fs) = (\<Sum>i\<in>{0..<length fs}. allocate_rows n fs ! i)"
    by (simp add: sum_list_sum_nth)
  also have "\<dots> = (\<Sum>i\<in>{0..<length fs}. share_floor n fs i + (if i \<in> bumped n fs then 1 else 0))"
    by (rule sum.cong) (simp_all add: nth_allocate_rows bumped_def)
  also have "\<dots> = sum_list (map (share_floor n fs) [0..<length fs]) + card (bumped n fs)"
    by (simp add: sum.distrib interv_sum_list_conv_sum_set_nat sum.If_cases B Int_def)
  finally show ?thesis
    using share_extra_rest(2) [OF ok, of n] by (simp add: card_bumped [OF ok] share_extra_def)
qed

text \<open>Every domain is within one row of its exact share, on either side.\<close>

lemma allocate_rows_quota:
  assumes ok: "weights_ok fs" and i: "i < length fs"
  shows "\<bar>of_nat (allocate_rows n fs ! i) - exact_shares n fs ! i\<bar> < 1"
    and "allocate_rows n fs ! i = nat \<lfloor>exact_shares n fs ! i\<rfloor> \<or>
         allocate_rows n fs ! i = nat \<lceil>exact_shares n fs ! i\<rceil>"
proof -
  let ?x = "exact_shares n fs ! i"
  have x: "?x = of_nat (share_floor n fs i) + share_rest n fs i" by (simp add: share_rest_def)
  note b = share_rest_bounds [OF ok i, of n]
  have cnt: "allocate_rows n fs ! i = share_floor n fs i + (if i \<in> bumped n fs then 1 else 0)"
    by (simp add: nth_allocate_rows [OF i] bumped_def)
  show "\<bar>of_nat (allocate_rows n fs ! i) - ?x\<bar> < 1"
    using b bumped_positive [OF ok, of i n] unfolding cnt x by auto
  show "allocate_rows n fs ! i = nat \<lfloor>?x\<rfloor> \<or> allocate_rows n fs ! i = nat \<lceil>?x\<rceil>"
  proof (cases "i \<in> bumped n fs")
    case True
    have "\<lceil>?x\<rceil> = int (share_floor n fs i) + 1"
      using b bumped_positive [OF ok True] unfolding x by (intro ceiling_unique) auto
    with True show ?thesis by (simp add: cnt nat_add_distrib)
  qed (simp add: cnt share_floor_def)
qed

end
