(* ===== verification/OrderFacts.thy ===== *)
theory OrderFacts
  imports OrderAlloc
begin

text \<open>
  What \<^verbatim>\<open>build_training_order\<close> selects. Weights that pass normalisation give shares the
  allocation can distribute; the references and the surplus together are every packed row once;
  every domain has exactly its allocated rows; the cap is the largest one the target allows.
\<close>

section \<open>Positive floats\<close>

lemma ilog2_bounds: "0 < n \<Longrightarrow> 2 ^ ilog2 n \<le> n \<and> n < 2 ^ Suc (ilog2 n)"
proof (induction n rule: ilog2.induct)
  case (1 n)
  show ?case
  proof (cases "n < 2")
    case True
    with 1 show ?thesis by (simp add: ilog2.simps [of n])
  next
    case False
    with 1 have "2 ^ ilog2 (n div 2) \<le> n div 2 \<and> n div 2 < 2 ^ Suc (ilog2 (n div 2))" by simp
    then have "2 * 2 ^ ilog2 (n div 2) \<le> n" "n < 2 * (2 * 2 ^ ilog2 (n div 2))" by auto
    with False show ?thesis by (simp add: ilog2.simps [of n])
  qed
qed

lemma pow2_diff: "pow2 (int a - int b) = 2 ^ a / 2 ^ b"
proof (cases "b \<le> a")
  case True
  then show ?thesis by (simp add: pow2_def nat_diff_distrib' power_diff)
next
  case False
  then have "nat (int b - int a) = b - a" by simp
  with False show ?thesis by (simp add: pow2_def power_diff)
qed

lemma pow2_exponent2_le:
  assumes "0 < x"
  shows "pow2 (exponent2 x) \<le> x"
proof -
  obtain n d where q: "quotient_of x = (n, d)" by force
  have d: "0 < d" by (rule quotient_of_denom_pos [OF q])
  have x: "x = of_int n / of_int d" by (rule quotient_of_div [OF q])
  with assms d have n: "0 < n" by (simp add: zero_less_divide_iff)
  let ?a = "ilog2 (nat n)" and ?b = "ilog2 (nat d)"
  have a: "2 ^ ?a \<le> nat n" and b: "nat d < 2 ^ Suc ?b"
    using ilog2_bounds [of "nat n"] ilog2_bounds [of "nat d"] n d by simp_all
  from a n have "int (2 ^ ?a) \<le> n" by (simp only: nat_le_iff le_nat_iff)
  then have a': "(2 ^ ?a :: rat) \<le> of_int n"
    by (metis of_int_le_iff of_int_of_nat_eq of_nat_numeral of_nat_power)
  from b d have "d \<le> int (2 ^ Suc ?b)" by (simp add: nat_less_iff)
  then have b': "(of_int d :: rat) \<le> 2 ^ Suc ?b"
    by (metis of_int_le_iff of_int_of_nat_eq of_nat_numeral of_nat_power)
  have "pow2 (int ?a - int (Suc ?b)) \<le> of_int n / of_int d"
    unfolding pow2_diff using a' b' d n by (intro frac_le) auto
  then have "pow2 (int ?a - int ?b - 1) \<le> x" unfolding x by (simp add: algebra_simps)
  then show ?thesis unfolding exponent2_def q by (simp add: Let_def)
qed

lemma round_half_even_pos: "1 \<le> q \<Longrightarrow> 1 \<le> round_half_even q"
proof -
  assume "1 \<le> q"
  then have "1 \<le> \<lfloor>q\<rfloor>" by (simp add: le_floor_iff)
  then show ?thesis by (simp add: round_half_even_def Let_def)
qed

lemma pow2_minus_52: "pow2 (e - 52) \<le> pow2 e"
proof -
  have "pow2 e = pow2 (int (nat e) - int (nat (- e)))" "pow2 (e - 52) = pow2 (int (nat e) - int (nat (- e) + 52))"
    by (simp_all add: algebra_simps)
  then have "pow2 e = 2 ^ nat e / 2 ^ nat (- e)" "pow2 (e - 52) = 2 ^ nat e / 2 ^ (nat (- e) + 52)"
    by (simp_all only: pow2_diff)
  moreover have "(2 :: rat) ^ nat e / 2 ^ (nat (- e) + 52) \<le> 2 ^ nat e / 2 ^ nat (- e)"
    by (rule divide_left_mono) simp_all
  ultimately show ?thesis by simp
qed

lemma fl_pos:
  assumes "0 < x"
  shows "0 < fl x"
proof -
  let ?u = "pow2 (exponent2 x - 52)"
  have "?u \<le> x" using pow2_minus_52 [of "exponent2 x"] pow2_exponent2_le [OF assms] by (rule order_trans)
  then have "1 \<le> x / ?u" by simp
  then have "(0 :: rat) < of_int (round_half_even (x / ?u))"
    using round_half_even_pos [of "x / ?u"] by simp
  with assms show ?thesis by (simp add: fl_def Let_def)
qed

lemma repr_fraction_pos:
  assumes "0 < x"
  shows "0 < repr_fraction x"
proof -
  have "decimal_round k x > 0" if "find (\<lambda>k. fl (decimal_round k x) = x) ks = Some k" for k ks
  proof -
    from that have "fl (decimal_round k x) = x" by (auto simp: find_Some_iff)
    moreover have "0 \<le> decimal_round k x" using assms by (intro decimal_round_nonneg) simp
    ultimately show ?thesis using assms by (cases "decimal_round k x = 0") auto
  qed
  with assms show ?thesis by (auto simp: repr_fraction_def split: option.split)
qed

section \<open>Normalised weights\<close>

lemma csum_zeros: "list_all (\<lambda>x. x = 0) xs \<Longrightarrow> foldl csum_step (0, 0) xs = (0, 0)"
  by (induction xs) (simp_all add: csum_step_def py_add_def py_sub_def)

lemma py_sum_zeros: "list_all (\<lambda>x. x = 0) xs \<Longrightarrow> py_sum xs = 0"
  by (simp add: py_sum_def csum_zeros)

lemma member_le_sum_list_nonneg: "\<forall>f\<in>set fs. 0 \<le> f \<Longrightarrow> x \<in> set fs \<Longrightarrow> x \<le> sum_list (fs :: rat list)"
proof (induction fs)
  case (Cons f fs)
  have "0 \<le> sum_list fs" using Cons.prems(1) by (intro sum_list_nonneg) simp
  with Cons show ?case by (auto simp: add_increasing)
qed simp

lemma weights_okI:
  assumes "\<forall>f\<in>set fs. 0 \<le> f" and "\<exists>f\<in>set fs. 0 < f"
  shows "weights_ok fs"
proof -
  from assms(2) obtain f where f: "f \<in> set fs" "0 < f" by blast
  from assms(1) f(1) have "f \<le> sum_list fs" by (rule member_le_sum_list_nonneg)
  with f(2) assms(1) show ?thesis by (simp add: weights_ok_def)
qed

lemma normalize_weights_ok:
  assumes "normalize_domain_weights ws = Inr w"
  shows "length w = length domain_order" and "weights_ok w" and "weights_ok (map repr_fraction w)"
proof -
  let ?v = "map (\<lambda>d. the (map_of ws d)) domain_order"
  from assms have nn: "\<forall>v\<in>set ?v. 0 \<le> v" and pos: "0 < py_sum ?v"
    and w: "w = map (\<lambda>v. py_div v (py_sum ?v)) ?v"
    by (auto simp: normalize_domain_weights_def Let_def res_simps list_ex_iff not_less not_le)
  show "length w = length domain_order" by (simp add: w)
  have "\<exists>v\<in>set ?v. v \<noteq> 0"
  proof (rule ccontr)
    assume "\<not> (\<exists>v\<in>set ?v. v \<noteq> 0)"
    then have "py_sum ?v = 0" by (intro py_sum_zeros) (auto simp: list_all_iff)
    with pos show False by simp
  qed
  then obtain v where v: "v \<in> set ?v" "0 < v" using nn by force
  have nn': "\<forall>f\<in>set w. 0 \<le> f"
    unfolding w using nn pos by (auto simp: py_div_def intro!: fl_nonneg divide_nonneg_pos)
  have pos': "py_div v (py_sum ?v) \<in> set w" "0 < py_div v (py_sum ?v)"
    unfolding w using v pos by (auto simp: py_div_def intro!: fl_pos)
  show "weights_ok w" using nn' pos' by (intro weights_okI) blast+
  show "weights_ok (map repr_fraction w)"
    using nn' pos' repr_fraction_nonneg repr_fraction_pos by (intro weights_okI) auto
qed

lemma strict_counts:
  assumes "normalize_domain_weights ws = Inr w" and "strict_weighted_row_counts n w = Inr cs"
  shows "1 \<le> n" "length cs = length domain_order" "int (sum_list cs) = n"
    "cs = allocate_rows (nat n) (map repr_fraction w)"
proof -
  from assms(2) show n: "1 \<le> n" and cs: "cs = allocate_rows (nat n) (map repr_fraction w)"
    by (auto simp: strict_weighted_row_counts_def Let_def res_simps)
  show "length cs = length domain_order" by (simp add: cs normalize_weights_ok(1) [OF assms(1)])
  show "int (sum_list cs) = n"
    using n by (simp add: cs sum_allocate_rows [OF normalize_weights_ok(3) [OF assms(1)]])
qed

section \<open>References\<close>

definition permutes_rows :: "shuffler \<Rightarrow> bool" where
  "permutes_rows shuffle \<longleftrightarrow> (\<forall>seed xs. mset (shuffle seed xs) = mset xs)"

text \<open>Every row of every domain, as references.\<close>

definition every_row :: "nat list \<Rightarrow> 64 word list" where
  "every_row available =
     concat (map (\<lambda>k. map (reference_of k) [0..<available ! k]) [0..<length domain_order])"

lemma reference_of_alt: "reference_of k r = word_of_nat r OR word_of_nat (k * 2 ^ row_bits)"
  by (simp add: reference_of_def push_bit_eq_mult or.commute)

lemma encoded_references: "encoded_domain_references k (map word_of_nat rs) = map (reference_of k) rs"
  by (simp add: encoded_domain_references_def reference_of_alt)

definition permuted_rows :: "shuffler \<Rightarrow> int \<Rightarrow> nat \<Rightarrow> nat \<Rightarrow> nat list" where
  "permuted_rows shuffle seed k n = map unat (domain_permutation shuffle seed k n)"

lemma domain_permutation_rows:
  "domain_permutation shuffle seed k n = map word_of_nat (permuted_rows shuffle seed k n)"
  by (simp add: permuted_rows_def o_def)

lemma mset_permuted_rows:
  assumes "permutes_rows shuffle" and "n \<le> 2 ^ row_bits"
  shows "mset (permuted_rows shuffle seed k n) = mset [0..<n]"
proof -
  have "mset (permuted_rows shuffle seed k n) = mset (map unat (arange n))"
    using assms(1) by (simp add: permuted_rows_def domain_permutation_def permutes_rows_def)
  also have "map unat (arange n) = [0..<n]"
    by (rule nth_equalityI) (use assms(2) in \<open>simp_all add: arange_def unat_of_nat row_bits_def\<close>)
  finally show ?thesis .
qed

lemma capped_references_rows:
  assumes "capped_references shuffle seed available selected = (references, surplus)"
    and "permutes_rows shuffle"
  shows "mset references = mset (concat (map (\<lambda>k. map (reference_of k)
           (take (selected ! k) (permuted_rows shuffle seed k (available ! k)))) [0..<length domain_order]))"
    and "surplus = concat (map (\<lambda>k. map (reference_of k)
           (drop (selected ! k) (permuted_rows shuffle seed k (available ! k)))) [0..<length domain_order])"
  using assms by (auto simp: capped_references_def Let_def domain_permutation_rows take_map drop_map
      encoded_references permutes_rows_def)

lemma mset_concat_split:
  "mset (concat (map f xs)) + mset (concat (map g xs)) = mset (concat (map (\<lambda>x. f x @ g x) xs))"
  by (induction xs) (simp_all add: ac_simps)

lemma mset_concat_cong:
  "(\<And>x. x \<in> set xs \<Longrightarrow> mset (f x) = mset (g x)) \<Longrightarrow> mset (concat (map f xs)) = mset (concat (map g xs))"
  by (induction xs) simp_all

lemma capped_every_row:
  assumes "capped_references shuffle seed available selected = (references, surplus)"
    and "permutes_rows shuffle" and "\<forall>k < length domain_order. available ! k \<le> 2 ^ row_bits"
  shows "mset references + mset surplus = mset (every_row available)"
proof -
  let ?p = "\<lambda>k. permuted_rows shuffle seed k (available ! k)"
  have "mset references + mset surplus
      = mset (concat (map (\<lambda>k. map (reference_of k) (take (selected ! k) (?p k)) @
          map (reference_of k) (drop (selected ! k) (?p k))) [0..<length domain_order]))"
    unfolding capped_references_rows [OF assms(1,2)] by (rule mset_concat_split)
  also have "\<dots> = mset (every_row available)"
    unfolding every_row_def map_append [symmetric] append_take_drop_id
    by (rule mset_concat_cong) (use mset_permuted_rows [OF assms(2)] assms(3) in simp)
  finally show ?thesis .
qed

lemma all_references_every_row:
  assumes "permutes_rows shuffle"
  shows "mset (all_references shuffle seed selected) = mset (every_row selected)"
  using assms by (simp add: all_references_def permutes_rows_def every_row_def arange_def encoded_references)

lemma every_row_decoded:
  assumes "\<forall>k < length domain_order. available ! k \<le> 2 ^ row_bits"
  shows "map decode_reference (every_row available)
       = concat (map (\<lambda>k. map (Pair k) [0..<available ! k]) [0..<length domain_order])"
proof -
  have "decode_reference (reference_of k r) = (k, r)" if "k < length domain_order" "r < available ! k" for k r
    using that assms by (intro decode_reference_of) (auto simp: domain_order_def)
  then show ?thesis
    unfolding every_row_def map_concat map_map by (intro arg_cong [where f = concat] map_cong) auto
qed

lemma distinct_domain_rows: "distinct (concat (map (\<lambda>k. map (Pair k) [0..<(av :: nat list) ! k]) [0..<n]))"
  by (induction n) (auto simp: distinct_map inj_on_def)

lemma distinct_every_row:
  assumes "\<forall>k < length domain_order. available ! k \<le> 2 ^ row_bits"
  shows "distinct (every_row available)"
  using distinct_domain_rows [of available "length domain_order"]
  by (simp add: every_row_decoded [OF assms, symmetric] distinct_map)

end
