(* ===== verification/OrderPlan.thy ===== *)
theory OrderPlan
  imports OrderFacts
begin

text \<open>
  A successful \<^verbatim>\<open>build_training_order\<close>, read off its checks: which rows it selected, how large
  the cap is, what the frozen geometry consumes and drops, and that the order file holds the
  references.
\<close>

section \<open>The checks of a successful plan\<close>

lemma foldM_snoc_length:
  "foldM (\<lambda>loaded x. rbind (g loaded x) (\<lambda>m. Inr (loaded @ [m]))) acc xs = Inr r \<Longrightarrow>
     length r = length acc + length xs"
  by (induction xs arbitrary: acc) (auto simp: res_simps)

lemma load_order_inputs_length: "load_order_inputs manifests = Inr ms \<Longrightarrow> length ms = length domain_order"
  unfolding load_order_inputs_def by (drule foldM_snoc_length) simp

definition frozen_update_rows :: "json \<Rightarrow> json \<Rightarrow> nat option" where
  "frozen_update_rows gmr ga =
     (if gmr = JNull then None else Some (nat (jint_of gmr) * nat (jint_of ga)))"

lemma let_pair_Inr: "(case r of (x, y) \<Rightarrow> f x y) = Inr z \<longleftrightarrow> f (fst r) (snd r) = Inr z"
  by (cases r) simp

lemma plan_success:
  assumes "plan_training_order shuffle manifests seed weights expected tol gmr ga = Inr p"
  shows "(gmr = JNull) = (ga = JNull) \<and> frozen_value_ok gmr \<and> frozen_value_ok ga \<and>
     load_order_inputs manifests = Inr (o_inputs p) \<and>
     o_sequence_length p = manifest_num ''sequence_length'' (hd (o_inputs p)) \<and>
     o_available_rows p = map (manifest_num ''rows'') (o_inputs p) \<and>
     o_available_supervised p = map (manifest_num ''valid_loss_tokens'') (o_inputs p) \<and>
     1 \<le> sum_list (o_available_rows p) \<and>
     \<not> (\<exists>n\<in>set (o_available_rows p). 2 ^ row_bits - 1 < n) \<and>
     (case weights of None \<Rightarrow> Inr None
        | Some w \<Rightarrow> rbind (normalize_domain_weights w) (\<lambda>v. Inr (Some v))) = Inr (o_weights p) \<and>
     (if expected \<noteq> JNull
      then select_capped (o_available_rows p) (o_sequence_length p) (o_weights p) expected tol
             (frozen_update_rows gmr ga)
      else select_all (o_available_rows p) (o_weights p) tol) = Inr (o_selection p) \<and>
     (s_capped (o_selection p) \<or> 0 \<le> seed) \<and>
     (if s_capped (o_selection p)
      then capped_references shuffle seed (o_available_rows p) (s_rows_per_domain (o_selection p))
      else (all_references shuffle seed (s_rows_per_domain (o_selection p)), []))
       = (o_references p, o_surplus p) \<and>
     selected_supervised manifests (o_sequence_length p) (o_selection p) (o_available_rows p)
       (o_available_supervised p) (o_references p) (o_surplus p) = Inr (o_supervised p) \<and>
     (if gmr = JNull then Inr None
      else rbind (consumption_of manifests (o_sequence_length p) (o_selection p) (o_references p)
             (o_supervised p) (nat (jint_of gmr)) (nat (jint_of ga))) (\<lambda>u. Inr (Some u)))
       = Inr (o_consumption p)"
  using assms
  unfolding plan_training_order_def Let_def rbind_eq_Inr check_eq_Inr let_pair_Inr
    list_ex_iff frozen_update_rows_def [symmetric]
  apply (elim conjE exE)
  apply (drule sum.inject(2) [THEN iffD1])
  apply hypsubst
  apply (simp only: order_plan.simps prod.collapse simp_thms not_less not_not de_Morgan_conj de_Morgan_disj)
  done

text \<open>The numbers a selection is made of.\<close>

definition cap_rows :: "nat \<Rightarrow> nat \<Rightarrow> nat option \<Rightarrow> nat" where
  "cap_rows target T update_rows =
     (case update_rows of None \<Rightarrow> target div T | Some u \<Rightarrow> target div T div u * u)"

lemma select_capped_facts:
  assumes "select_capped available T weights expected tol update_rows = Inr sel"
    and "weights = Some w" and "normalize_domain_weights ws = Inr w"
    and len: "length available = length domain_order"
  shows "positive_int expected" "s_capped sel"
    and "s_total_rows sel = cap_rows (nat (jint_of expected)) T update_rows" "1 \<le> s_total_rows sel"
    and "s_rows_per_domain sel = allocate_rows (s_total_rows sel) (map repr_fraction w)"
    and "length (s_rows_per_domain sel) = length domain_order"
    and "sum_list (s_rows_per_domain sel) = s_total_rows sel"
    and "\<forall>k < length domain_order. s_rows_per_domain sel ! k \<le> available ! k"
    and "s_delta sel = Some (int (s_total_rows sel * T) - jint_of expected)"
    and "int (s_total_rows sel * T) \<le> jint_of expected"
    and "jint_of expected - int (s_total_rows sel * T) \<le> jint_of (s_tolerance sel)"
proof -
  let ?n = "cap_rows (nat (jint_of expected)) T update_rows"
  have Inr_eq: "(Inr a = Inr b) = (b = a)" for a b :: selection by auto
  have "\<exists>cs. strict_weighted_row_counts (int ?n) w = Inr cs \<and> positive_int expected \<and> \<not> ?n < 1 \<and>
      \<not> list_ex (\<lambda>(s, a). a < s) (zip cs available) \<and> s_capped sel \<and> s_rows_per_domain sel = cs \<and>
      s_total_rows sel = ?n \<and> s_delta sel = Some (int (?n * T) - int (nat (jint_of expected))) \<and>
      \<not> (0 < int (?n * T) - int (nat (jint_of expected)) \<or>
        int (?n * T) - int (nat (jint_of expected)) < - jint_of (s_tolerance sel))"
    using assms(1)
    unfolding select_capped_def Let_def cap_rows_def [symmetric] assms(2) option.case(2) rbind_eq_Inr
      check_eq_Inr Inr_eq not_not
    by (elim conjE exE, hypsubst_thin, intro exI conjI) (assumption | simp only: selection.simps)+
  then obtain cs where pos: "positive_int expected" and n: "\<not> ?n < 1"
    and cs: "strict_weighted_row_counts (int ?n) w = Inr cs"
    and le: "\<not> list_ex (\<lambda>(s, a). a < s) (zip cs available)"
    and sel: "s_capped sel" "s_rows_per_domain sel = cs" "s_total_rows sel = ?n"
      "s_delta sel = Some (int (?n * T) - int (nat (jint_of expected)))"
    and tol: "\<not> (0 < int (?n * T) - int (nat (jint_of expected)) \<or>
        int (?n * T) - int (nat (jint_of expected)) < - jint_of (s_tolerance sel))"
    by blast
  note st = strict_counts [OF assms(3) cs]
  from pos have e: "int (nat (jint_of expected)) = jint_of expected"
    by (cases expected) (simp_all add: positive_int_def)
  show "positive_int expected" "s_capped sel" by (rule pos, rule sel)
  show "s_total_rows sel = ?n" "1 \<le> s_total_rows sel" using n by (simp_all add: sel)
  show "s_rows_per_domain sel = allocate_rows (s_total_rows sel) (map repr_fraction w)"
    using st(4) by (simp add: sel)
  show "length (s_rows_per_domain sel) = length domain_order" using st(2) by (simp add: sel)
  show "sum_list (s_rows_per_domain sel) = s_total_rows sel"
    using st(3) by (simp only: sel of_nat_eq_iff)
  show "\<forall>k < length domain_order. s_rows_per_domain sel ! k \<le> available ! k"
  proof (intro allI impI)
    fix k assume "k < length domain_order"
    then have "(cs ! k, available ! k) \<in> set (zip cs available)"
      using st(2) len by (auto simp: in_set_zip)
    with le show "s_rows_per_domain sel ! k \<le> available ! k" by (auto simp: sel list_ex_iff not_less)
  qed
  show "s_delta sel = Some (int (s_total_rows sel * T) - jint_of expected)" by (simp only: sel e)
  show "int (s_total_rows sel * T) \<le> jint_of expected"
    "jint_of expected - int (s_total_rows sel * T) \<le> jint_of (s_tolerance sel)"
    using tol by (simp_all only: sel e) linarith+
qed

lemma select_all_facts:
  assumes "select_all available weights tol = Inr sel"
  shows "\<not> s_capped sel" "s_rows_per_domain sel = available" "s_total_rows sel = sum_list available"
  using assms by (auto simp: select_all_def res_simps)

lemma plan_weights_Some:
  assumes "(case weights of None \<Rightarrow> Inr None
        | Some w \<Rightarrow> rbind (normalize_domain_weights w) (\<lambda>v. Inr (Some v))) = Inr (Some w)"
  obtains ws where "weights = Some ws" "normalize_domain_weights ws = Inr w"
  using assms by (auto simp: res_simps split: option.splits)

lemma select_capped_weights:
  assumes "select_capped available T weights expected tol update_rows = Inr sel"
  obtains w where "weights = Some w"
  using assms by (cases weights) (auto simp: select_capped_def)

text \<open>However the rows were selected, the per-domain counts add up and are available.\<close>

lemma plan_rows:
  assumes p: "plan_training_order shuffle manifests seed weights expected tol gmr ga = Inr p"
  shows "length (o_available_rows p) = length domain_order"
    and "length (s_rows_per_domain (o_selection p)) = length domain_order"
    and "sum_list (s_rows_per_domain (o_selection p)) = s_total_rows (o_selection p)"
    and "\<forall>k < length domain_order. s_rows_per_domain (o_selection p) ! k \<le> o_available_rows p ! k"
    and "\<forall>k < length domain_order. o_available_rows p ! k < 2 ^ row_bits"
proof -
  note s = plan_success [OF p]
  from s have len: "length (o_available_rows p) = length domain_order"
    by (elim conjE) (simp add: load_order_inputs_length)
  then show "length (o_available_rows p) = length domain_order" .
  from s have w: "(case weights of None \<Rightarrow> Inr None
        | Some w \<Rightarrow> rbind (normalize_domain_weights w) (\<lambda>v. Inr (Some v))) = Inr (o_weights p)"
    and sel: "(if expected \<noteq> JNull
      then select_capped (o_available_rows p) (o_sequence_length p) (o_weights p) expected tol
             (frozen_update_rows gmr ga)
      else select_all (o_available_rows p) (o_weights p) tol) = Inr (o_selection p)"
    and big: "\<not> (\<exists>n\<in>set (o_available_rows p). 2 ^ row_bits - 1 < n)"
    by blast+
  from big show "\<forall>k < length domain_order. o_available_rows p ! k < 2 ^ row_bits"
    using len by (metis Suc_pred' nat_zero_less_power_iff not_less_eq nth_mem pos2)
  have "length (s_rows_per_domain (o_selection p)) = length domain_order \<and>
      sum_list (s_rows_per_domain (o_selection p)) = s_total_rows (o_selection p) \<and>
      (\<forall>k < length domain_order. s_rows_per_domain (o_selection p) ! k \<le> o_available_rows p ! k)"
  proof (cases "expected = JNull")
    case True
    with sel have "select_all (o_available_rows p) (o_weights p) tol = Inr (o_selection p)" by simp
    from select_all_facts [OF this] len show ?thesis by simp
  next
    case False
    with sel have c: "select_capped (o_available_rows p) (o_sequence_length p) (o_weights p) expected tol
             (frozen_update_rows gmr ga) = Inr (o_selection p)" by simp
    from select_capped_weights [OF this] obtain v where v: "o_weights p = Some v" .
    from w obtain ws where "normalize_domain_weights ws = Inr v" unfolding v by (rule plan_weights_Some)
    from select_capped_facts [OF c v this len] show ?thesis by blast
  qed
  then show "length (s_rows_per_domain (o_selection p)) = length domain_order"
    "sum_list (s_rows_per_domain (o_selection p)) = s_total_rows (o_selection p)"
    "\<forall>k < length domain_order. s_rows_per_domain (o_selection p) ! k \<le> o_available_rows p ! k" by auto
qed

section \<open>Which rows\<close>

lemma every_row_bound: "\<forall>k < n. (av :: nat list) ! k < b \<Longrightarrow> \<forall>k < n. av ! k \<le> b"
  by (auto intro: less_imp_le)

lemma filter_domain_rows:
  assumes "k < n"
  shows "filter (\<lambda>w. fst w = k) (concat (map (\<lambda>j. map (Pair j) (f j)) [0..<n])) = map (Pair k) (f k)"
proof -
  have "concat (map (\<lambda>j. filter (\<lambda>w. fst w = k) (map (Pair j) (f j))) [0..<n]) = map (Pair k) (f k)"
    using assms
  proof (induction n)
    case (Suc n)
    have "filter (\<lambda>w. fst w = k) (map (Pair j) (f j)) = (if j = k then map (Pair k) (f k) else [])" for j
      by (auto simp: filter_map o_def)
    moreover have "concat (map (\<lambda>j. if j = k then map (Pair k) (f k) else []) [0..<k]) = []"
      by (auto simp: concat_eq_Nil_conv)
    ultimately show ?case using Suc by (cases "k = n") (auto simp: less_Suc_eq)
  qed simp
  then show ?thesis by (simp add: filter_concat o_def)
qed

lemma plan_capped_references:
  assumes "plan_training_order shuffle manifests seed weights expected tol gmr ga = Inr p"
  shows "s_capped (o_selection p) \<Longrightarrow> capped_references shuffle seed (o_available_rows p)
       (s_rows_per_domain (o_selection p)) = (o_references p, o_surplus p)"
    and "\<not> s_capped (o_selection p) \<Longrightarrow> o_surplus p = [] \<and>
       o_references p = all_references shuffle seed (s_rows_per_domain (o_selection p)) \<and>
       s_rows_per_domain (o_selection p) = o_available_rows p"
proof -
  have refs: "(if s_capped (o_selection p)
      then capped_references shuffle seed (o_available_rows p) (s_rows_per_domain (o_selection p))
      else (all_references shuffle seed (s_rows_per_domain (o_selection p)), []))
       = (o_references p, o_surplus p)"
    and sel: "(if expected \<noteq> JNull
      then select_capped (o_available_rows p) (o_sequence_length p) (o_weights p) expected tol
             (frozen_update_rows gmr ga)
      else select_all (o_available_rows p) (o_weights p) tol) = Inr (o_selection p)"
    and w: "(case weights of None \<Rightarrow> Inr None
        | Some w \<Rightarrow> rbind (normalize_domain_weights w) (\<lambda>v. Inr (Some v))) = Inr (o_weights p)"
    using plan_success [OF assms] by blast+
  from refs show "s_capped (o_selection p) \<Longrightarrow> capped_references shuffle seed (o_available_rows p)
       (s_rows_per_domain (o_selection p)) = (o_references p, o_surplus p)" by simp
  assume no: "\<not> s_capped (o_selection p)"
  have "expected = JNull"
  proof (rule ccontr)
    assume "expected \<noteq> JNull"
    with sel have c: "select_capped (o_available_rows p) (o_sequence_length p) (o_weights p) expected tol
             (frozen_update_rows gmr ga) = Inr (o_selection p)" by simp
    from select_capped_weights [OF this] obtain v where v: "o_weights p = Some v" .
    from w obtain ws where "normalize_domain_weights ws = Inr v" unfolding v by (rule plan_weights_Some)
    from select_capped_facts(2) [OF c v this plan_rows(1) [OF assms]] no show False by simp
  qed
  with sel have "select_all (o_available_rows p) (o_weights p) tol = Inr (o_selection p)" by simp
  from select_all_facts(2) [OF this] refs no
  show "o_surplus p = [] \<and> o_references p = all_references shuffle seed (s_rows_per_domain (o_selection p)) \<and>
       s_rows_per_domain (o_selection p) = o_available_rows p" by simp
qed

text \<open>References and surplus are every packed row exactly once.\<close>

text \<open>Without a token cap everything is selected and nothing is left over.\<close>

lemma plan_uncapped:
  assumes "plan_training_order shuffle manifests seed weights JNull tol gmr ga = Inr p"
  shows "o_surplus p = [] \<and> s_rows_per_domain (o_selection p) = o_available_rows p"
proof -
  from plan_success [OF assms] have a: "select_all (o_available_rows p) (o_weights p) tol = Inr (o_selection p)"
    and r: "(if s_capped (o_selection p)
      then capped_references shuffle seed (o_available_rows p) (s_rows_per_domain (o_selection p))
      else (all_references shuffle seed (s_rows_per_domain (o_selection p)), [])) = (o_references p, o_surplus p)"
    by auto
  from select_all_facts [OF a] r show ?thesis by simp
qed

lemma plan_every_row:
  assumes p: "plan_training_order shuffle manifests seed weights expected tol gmr ga = Inr p"
    and perm: "permutes_rows shuffle"
  shows "mset (o_references p) + mset (o_surplus p) = mset (every_row (o_available_rows p))"
    and "distinct (o_references p @ o_surplus p)"
proof -
  note le = every_row_bound [OF plan_rows(5) [OF p]]
  show m: "mset (o_references p) + mset (o_surplus p) = mset (every_row (o_available_rows p))"
  proof (cases "s_capped (o_selection p)")
    case True
    from capped_every_row [OF plan_capped_references(1) [OF p this] perm le] show ?thesis .
  next
    case False
    from plan_capped_references(2) [OF p this] all_references_every_row [OF perm] show ?thesis by simp
  qed
  then have "mset (o_references p @ o_surplus p) = mset (every_row (o_available_rows p))" by simp
  from mset_eq_imp_distinct_iff [OF this] distinct_every_row [OF le]
  show "distinct (o_references p @ o_surplus p)" by simp
qed

lemma every_row_domain_count:
  assumes "k < length domain_order" and "\<forall>k < length domain_order. available ! k \<le> 2 ^ row_bits"
  shows "length (filter (\<lambda>w. fst (decode_reference w) = k) (every_row available)) = available ! k"
proof -
  have "length (filter (\<lambda>w. fst (decode_reference w) = k) (every_row available))
      = length (filter (\<lambda>w. fst w = k) (map decode_reference (every_row available)))"
    by (simp add: filter_map o_def)
  also have "\<dots> = available ! k"
    unfolding every_row_decoded [OF assms(2)] filter_domain_rows [OF assms(1)] by simp
  finally show ?thesis .
qed

lemma count_mset: "mset xs = mset ys \<Longrightarrow> length (filter P xs) = length (filter P ys)"
  by (metis mset_filter size_mset)

lemma plan_domain_counts:
  assumes p: "plan_training_order shuffle manifests seed weights expected tol gmr ga = Inr p"
    and perm: "permutes_rows shuffle" and k: "k < length domain_order"
  shows "length (filter (\<lambda>w. fst (decode_reference w) = k) (o_references p))
       = s_rows_per_domain (o_selection p) ! k"
proof (cases "s_capped (o_selection p)")
  case True
  note r = capped_references_rows(1) [OF plan_capped_references(1) [OF p this] perm]
  let ?f = "\<lambda>j. take (s_rows_per_domain (o_selection p) ! j)
      (permuted_rows shuffle seed j (o_available_rows p ! j))"
  note le = every_row_bound [OF plan_rows(5) [OF p]]
  have in_dom: "r < 2 ^ row_bits" if "j < length domain_order" "r \<in> set (?f j)" for j r
  proof -
    from that(2) have "r \<in> set (permuted_rows shuffle seed j (o_available_rows p ! j))" by (rule in_set_takeD)
    then have "r \<in> set [0..<o_available_rows p ! j]"
      using mset_permuted_rows [OF perm, of "o_available_rows p ! j" seed j] le that(1)
      by (metis set_mset_mset)
    with plan_rows(5) [OF p] that(1) show ?thesis by auto
  qed
  have "decode_reference (reference_of j r) = (j, r)" if "j < length domain_order" "r \<in> set (?f j)" for j r
    using that in_dom by (intro decode_reference_of) (auto simp: domain_order_def)
  then have dec: "map decode_reference (concat (map (\<lambda>j. map (reference_of j) (?f j)) [0..<length domain_order]))
      = concat (map (\<lambda>j. map (Pair j) (?f j)) [0..<length domain_order])"
    unfolding map_concat map_map by (intro arg_cong [where f = concat] map_cong) auto
  have "length (filter (\<lambda>w. fst (decode_reference w) = k) (o_references p))
      = length (filter (\<lambda>w. fst w = k)
          (map decode_reference (concat (map (\<lambda>j. map (reference_of j) (?f j)) [0..<length domain_order]))))"
    unfolding count_mset [OF r] by (simp add: filter_map o_def)
  also have "\<dots> = length (?f k)" unfolding dec filter_domain_rows [OF k] by simp
  also have "\<dots> = s_rows_per_domain (o_selection p) ! k"
    using mset_permuted_rows [OF perm, of "o_available_rows p ! k" seed k] le k plan_rows(4) [OF p]
    by (metis length_take length_upt min.absorb2 minus_nat.diff_0 size_mset)
  finally show ?thesis .
next
  case False
  note u = plan_capped_references(2) [OF p False]
  have "mset (o_references p) = mset (every_row (s_rows_per_domain (o_selection p)))"
    using u all_references_every_row [OF perm] by simp
  from count_mset [OF this] u every_row_domain_count [OF k every_row_bound [OF plan_rows(5) [OF p]]]
  show ?thesis by simp
qed

lemma sum_domain_counts:
  "list_all (\<lambda>w. fst (decode_reference w) < n) ws \<Longrightarrow>
     (\<Sum>k<n. length (filter (\<lambda>w. fst (decode_reference w) = k) ws)) = length ws"
proof (induction ws)
  case (Cons w ws)
  have "(\<Sum>k<n. length (filter (\<lambda>w. fst (decode_reference w) = k) (w # ws)))
      = (\<Sum>k<n. (if fst (decode_reference w) = k then 1 else 0) +
          length (filter (\<lambda>w. fst (decode_reference w) = k) ws))"
    by (rule sum.cong) auto
  with Cons show ?case by (simp add: sum.distrib)
qed simp

lemma plan_reference_domains:
  assumes p: "plan_training_order shuffle manifests seed weights expected tol gmr ga = Inr p"
    and perm: "permutes_rows shuffle"
  shows "list_all (\<lambda>w. fst (decode_reference w) < length domain_order \<and>
      snd (decode_reference w) < o_available_rows p ! fst (decode_reference w)) (o_references p @ o_surplus p)"
proof -
  note le = every_row_bound [OF plan_rows(5) [OF p]]
  have "set (o_references p @ o_surplus p) = set (every_row (o_available_rows p))"
    using plan_every_row(1) [OF p perm] by (metis mset_append set_mset_mset)
  moreover have "fst d < length domain_order \<and> snd d < o_available_rows p ! fst d"
    if "d \<in> set (map decode_reference (every_row (o_available_rows p)))" for d
    using that unfolding every_row_decoded [OF le] by auto
  ultimately show ?thesis by (auto simp: list_all_iff)
qed

lemma plan_references_length:
  assumes p: "plan_training_order shuffle manifests seed weights expected tol gmr ga = Inr p"
    and perm: "permutes_rows shuffle"
  shows "length (o_references p) = s_total_rows (o_selection p)"
proof -
  have "list_all (\<lambda>w. fst (decode_reference w) < length domain_order) (o_references p)"
    using plan_reference_domains [OF p perm] by (auto simp: list_all_iff)
  from sum_domain_counts [OF this] plan_domain_counts [OF p perm]
  have "(\<Sum>k<length domain_order. s_rows_per_domain (o_selection p) ! k) = length (o_references p)" by simp
  with plan_rows(2,3) [OF p] show ?thesis by (simp add: sum_list_sum_nth atLeast0LessThan)
qed

section \<open>What the frozen geometry consumes\<close>

lemma consumption_fields:
  assumes "consumption_of manifests T sel references supervised gmr ga = Inr u"
  shows "u_gmr u = gmr" "u_ga u = ga" "u_update_rows u = gmr * ga"
    "u_updates u = s_total_rows sel div (gmr * ga)" "1 \<le> u_updates u"
    "u_rows u = u_updates u * (gmr * ga)" "u_dropped_rows u = s_total_rows sel - u_rows u"
    "u_available_microbatches u = s_total_rows sel div gmr" "u_consumed_microbatches u = u_updates u * ga"
    "u_dropped_microbatches u = int (s_total_rows sel div gmr) - int (u_updates u * ga)"
    "u_dropped_partial_rows u = s_total_rows sel mod gmr"
    "u_rows_per_domain u = map (\<lambda>k. length (filter (\<lambda>w. fst (decode_reference w) = k)
       (take (u_rows u) references))) [0..<length domain_order]"
    "u_dropped_rows_per_domain u = sub_lists (map int (s_rows_per_domain sel)) (map int (u_rows_per_domain u))"
    "\<exists>dropped. count_supervised manifests T (drop (u_rows u) references) = Inr dropped \<and>
       u_dropped_supervised_per_domain u = map int dropped \<and>
       u_supervised_per_domain u = sub_lists supervised (map int dropped)"
  using assms by (auto simp: consumption_of_def Let_def res_simps)

text \<open>Whole updates are consumed, less than one update is dropped, and the drop is whole
  microbatches plus a partial one.\<close>

lemma consumption_geometry:
  assumes u: "consumption_of manifests T sel references supervised gmr ga = Inr u"
    and pos: "0 < gmr" "0 < ga"
  shows "u_rows u + u_dropped_rows u = s_total_rows sel" "u_dropped_rows u < gmr * ga"
    "0 \<le> u_dropped_microbatches u" "u_dropped_microbatches u < int ga"
    "int (u_dropped_rows u) = u_dropped_microbatches u * int gmr + int (u_dropped_partial_rows u)"
proof -
  note f = consumption_fields [OF u]
  let ?N = "s_total_rows sel"
  have le: "u_rows u \<le> ?N" unfolding f(6,4) by (simp add: div_times_less_eq_dividend)
  then show "u_rows u + u_dropped_rows u = ?N" unfolding f(7) by simp
  have "?N mod (gmr * ga) < gmr * ga" using pos by simp
  moreover have dr: "u_dropped_rows u = ?N mod (gmr * ga)"
    unfolding f(7,6,4) by (simp add: minus_div_mult_eq_mod)
  ultimately show "u_dropped_rows u < gmr * ga" by simp
  have q: "?N div gmr = u_updates u * ga + ?N div gmr mod ga"
    unfolding f(4) by (simp add: div_mult2_eq)
  then have m: "u_dropped_microbatches u = int (?N div gmr mod ga)"
    unfolding f(10) by (metis add_diff_cancel_left' of_nat_add)
  show "0 \<le> u_dropped_microbatches u" "u_dropped_microbatches u < int ga" using pos by (simp_all add: m)
  have "?N mod (gmr * ga) = ?N div gmr mod ga * gmr + ?N mod gmr"
    by (simp only: mod_mult2_eq mult.commute [of gmr "_ mod ga"])
  then show "int (u_dropped_rows u) = u_dropped_microbatches u * int gmr + int (u_dropped_partial_rows u)"
    unfolding dr m f(11) by (simp flip: of_nat_mult of_nat_add)
qed

lemma nth_sub_lists: "i < length xs \<Longrightarrow> i < length ys \<Longrightarrow> sub_lists xs ys ! i = xs ! i - ys ! i"
  by (simp add: sub_lists_def)

lemma length_sub_lists [simp]: "length (sub_lists xs ys) = min (length xs) (length ys)"
  by (simp add: sub_lists_def)

lemma plan_consumption_domains:
  assumes p: "plan_training_order shuffle manifests seed weights expected tol gmr ga = Inr p"
    and perm: "permutes_rows shuffle" and u: "o_consumption p = Some u"
  shows "0 < u_gmr u" "0 < u_ga u" "frozen_update_rows gmr ga = Some (u_gmr u * u_ga u)"
    and "consumption_of manifests (o_sequence_length p) (o_selection p) (o_references p)
       (o_supervised p) (u_gmr u) (u_ga u) = Inr u"
    and "sum_list (u_rows_per_domain u) = u_rows u"
    and "\<And>k. k < length domain_order \<Longrightarrow> u_dropped_rows_per_domain u ! k =
       int (length (filter (\<lambda>w. fst (decode_reference w) = k) (drop (u_rows u) (o_references p))))"
proof -
  from plan_success [OF p] have fr: "(gmr = JNull) = (ga = JNull)" "frozen_value_ok gmr" "frozen_value_ok ga"
    and c: "(if gmr = JNull then Inr None
      else rbind (consumption_of manifests (o_sequence_length p) (o_selection p) (o_references p)
             (o_supervised p) (nat (jint_of gmr)) (nat (jint_of ga))) (\<lambda>u. Inr (Some u))) = Inr (Some u)"
    unfolding u by blast+
  from c have n: "gmr \<noteq> JNull" and cu: "consumption_of manifests (o_sequence_length p) (o_selection p)
      (o_references p) (o_supervised p) (nat (jint_of gmr)) (nat (jint_of ga)) = Inr u"
    by (auto simp: res_simps split: if_splits)
  note f = consumption_fields [OF cu]
  have "positive_int gmr" "positive_int ga" using fr n by (auto simp: frozen_value_ok_def)
  moreover have "positive_int v \<Longrightarrow> 0 < nat (jint_of v)" for v
    by (cases v) (simp_all add: positive_int_def)
  ultimately show pos: "0 < u_gmr u" "0 < u_ga u" unfolding f(1,2) by blast+
  show "frozen_update_rows gmr ga = Some (u_gmr u * u_ga u)" using n by (simp add: frozen_update_rows_def f(1,2))
  show cu': "consumption_of manifests (o_sequence_length p) (o_selection p) (o_references p)
       (o_supervised p) (u_gmr u) (u_ga u) = Inr u" using cu by (simp add: f(1,2))
  have dom: "list_all (\<lambda>w. fst (decode_reference w) < length domain_order) (take (u_rows u) (o_references p))"
    using plan_reference_domains [OF p perm] by (auto simp: list_all_iff dest!: in_set_takeD)
  have le: "u_rows u \<le> length (o_references p)"
    using consumption_geometry(1) [OF cu' pos] plan_references_length [OF p perm] by simp
  show "sum_list (u_rows_per_domain u) = u_rows u"
    using sum_domain_counts [OF dom] le
    unfolding f(12) by (simp add: interv_sum_list_conv_sum_set_nat atLeast0LessThan min_def)
  fix k assume k: "k < length domain_order"
  have "length (filter (\<lambda>w. fst (decode_reference w) = k) (take (u_rows u) (o_references p))) +
      length (filter (\<lambda>w. fst (decode_reference w) = k) (drop (u_rows u) (o_references p)))
      = s_rows_per_domain (o_selection p) ! k"
    using plan_domain_counts [OF p perm k]
    by (metis append_take_drop_id filter_append length_append)
  then show "u_dropped_rows_per_domain u ! k =
       int (length (filter (\<lambda>w. fst (decode_reference w) = k) (drop (u_rows u) (o_references p))))"
    unfolding f(13) using k plan_rows(2) [OF p] by (simp add: f(12) nth_sub_lists del: upt_Suc)
qed

section \<open>The largest cap\<close>

text \<open>A capped order is the largest one at or below the target; with a frozen geometry, the
  largest whole number of updates, so nothing is dropped.\<close>

lemma cap_rows_le: "cap_rows target T ur * T \<le> target"
proof -
  have a: "target div T * T \<le> target" by (rule div_times_less_eq_dividend)
  have "target div T div u * u * T \<le> target" for u
    using mult_le_mono1 [OF div_times_less_eq_dividend [of "target div T" u], of T] a by linarith
  with a show ?thesis by (auto simp: cap_rows_def split: option.split)
qed

lemma cap_rows_greatest:
  assumes "0 < T" and "m * T \<le> target" and "case ur of None \<Rightarrow> True | Some u \<Rightarrow> u dvd m"
  shows "m \<le> cap_rows target T ur"
proof (cases ur)
  case None
  from div_le_mono [OF assms(2), of T] assms(1) None show ?thesis by (simp add: cap_rows_def)
next
  case (Some u)
  with assms(3) obtain q where m: "m = q * u"
    by (metis dvdE mult.commute option.simps(5))
  show ?thesis
  proof (cases "u = 0")
    case False
    have "q * u \<le> target div T" using div_le_mono [OF assms(2), of T] assms(1) by (simp add: m)
    then have "q \<le> target div T div u" using False by (simp add: less_eq_div_iff_mult_less_eq)
    then show ?thesis by (simp add: m cap_rows_def Some)
  qed (simp add: m)
qed

lemma plan_cap:
  assumes p: "plan_training_order shuffle manifests seed weights expected tol gmr ga = Inr p"
    and "expected \<noteq> JNull"
  shows "s_total_rows (o_selection p) = cap_rows (nat (jint_of expected)) (o_sequence_length p)
       (frozen_update_rows gmr ga)"
    and "1 \<le> s_total_rows (o_selection p)" "positive_int expected" "s_capped (o_selection p)"
    and "\<exists>w. o_weights p = Some w \<and> weights_ok (map repr_fraction w) \<and>
       s_rows_per_domain (o_selection p) = allocate_rows (s_total_rows (o_selection p)) (map repr_fraction w)"
    and "jint_of expected - int (s_total_rows (o_selection p) * o_sequence_length p)
       \<le> jint_of (s_tolerance (o_selection p))"
proof -
  from plan_success [OF p] have w: "(case weights of None \<Rightarrow> Inr None
        | Some w \<Rightarrow> rbind (normalize_domain_weights w) (\<lambda>v. Inr (Some v))) = Inr (o_weights p)"
    and sel: "(if expected \<noteq> JNull
      then select_capped (o_available_rows p) (o_sequence_length p) (o_weights p) expected tol
             (frozen_update_rows gmr ga)
      else select_all (o_available_rows p) (o_weights p) tol) = Inr (o_selection p)"
    by blast+
  from sel assms(2) have c: "select_capped (o_available_rows p) (o_sequence_length p) (o_weights p) expected tol
             (frozen_update_rows gmr ga) = Inr (o_selection p)" by simp
  from select_capped_weights [OF this] obtain v where v: "o_weights p = Some v" .
  from w obtain ws where ws: "normalize_domain_weights ws = Inr v" unfolding v by (rule plan_weights_Some)
  note f = select_capped_facts [OF c v ws plan_rows(1) [OF p]]
  show "s_total_rows (o_selection p) = cap_rows (nat (jint_of expected)) (o_sequence_length p)
       (frozen_update_rows gmr ga)" "1 \<le> s_total_rows (o_selection p)" "positive_int expected"
    "s_capped (o_selection p)" by (rule f)+
  show "\<exists>w. o_weights p = Some w \<and> weights_ok (map repr_fraction w) \<and>
       s_rows_per_domain (o_selection p) = allocate_rows (s_total_rows (o_selection p)) (map repr_fraction w)"
    using v normalize_weights_ok(3) [OF ws] f(5) by blast
  show "jint_of expected - int (s_total_rows (o_selection p) * o_sequence_length p)
       \<le> jint_of (s_tolerance (o_selection p))" by (rule f(11))
qed

end
