(* ===== verification/OrderAudit.thy ===== *)
theory OrderAudit
  imports OrderPlan
begin

text \<open>
  Orders over packed directories a writer finished. The supervised-token accounting, which counts
  the smaller of two complementary sides and subtracts, equals a direct count of the selected and
  of the consumed rows; and building an order over all rows always succeeds.
\<close>

section \<open>Three packed corpora\<close>

type_synonym corpus = "wconfig \<times> nat list list \<times> json option"

fun corpus_rows :: "corpus \<Rightarrow> nat" where
  "corpus_rows (c, docs, cursor) = packed_rows c (stream_tokens (c_eos_token_id c) docs)"

fun corpus_valid :: "corpus \<Rightarrow> nat" where
  "corpus_valid (c, docs, cursor) = w_valid_loss_tokens (packed_state c docs cursor)"

fun corpus_manifest :: "corpus \<Rightarrow> json" where
  "corpus_manifest (c, docs, cursor) = packed_manifest c docs cursor"

fun corpus_cfg :: "corpus \<Rightarrow> wconfig" where
  "corpus_cfg (c, docs, cursor) = c"

text \<open>Supervised labels of one stored row.\<close>

fun row_supervised :: "corpus \<Rightarrow> nat \<Rightarrow> nat" where
  "row_supervised (c, docs, cursor) r =
     c_sequence_length c - row_masked (row_starts (c_sequence_length c) (stream_starts docs) r)"

fun corpus_ok :: "dir \<Rightarrow> string \<Rightarrow> corpus \<Rightarrow> bool" where
  "corpus_ok d domain (c, docs, cursor) \<longleftrightarrow> wf_config c \<and> docs_ok (c_vocab_size c) docs \<and>
     cursor_ok cursor \<and> map_of d = map_of (packed_dir c docs cursor) \<and> c_domain c = domain \<and>
     packed_rows c (stream_tokens (c_eos_token_id c) docs) < 2 ^ row_bits"

definition same_format :: "wconfig \<Rightarrow> wconfig \<Rightarrow> bool" where
  "same_format a b \<longleftrightarrow> c_split a = c_split b \<and> c_sequence_length a = c_sequence_length b \<and>
     c_vocab_size a = c_vocab_size b \<and> c_eos_token_id a = c_eos_token_id b \<and>
     c_tokenizer_manifest_sha256 a = c_tokenizer_manifest_sha256 b"

definition packed_corpora :: "(string \<Rightarrow> dir) \<Rightarrow> corpus list \<Rightarrow> bool" where
  "packed_corpora manifests cs \<longleftrightarrow> length cs = length domain_order \<and>
     (\<forall>k < length domain_order. corpus_ok (manifests (domain_order ! k)) (domain_order ! k) (cs ! k) \<and>
        same_format (corpus_cfg (cs ! k)) (corpus_cfg (cs ! 0)))"

lemma packed_load:
  assumes "wf_config c" "docs_ok (c_vocab_size c) docs" "cursor_ok cursor"
    and "map_of d = map_of (packed_dir c docs cursor)"
  shows "load_json d manifest_name = Inr (packed_manifest c docs cursor)"
    and "\<exists>shards. parse_packed_manifest (packed_manifest c docs cursor) = Inr shards"
    and "jget (packed_manifest c docs cursor) ''domain'' = JStr (c_domain c)"
    and "jget (packed_manifest c docs cursor) ''split'' = JStr (c_split c)"
    and "jget (packed_manifest c docs cursor) ''sequence_length'' = JInt (int (c_sequence_length c))"
    and "jget (packed_manifest c docs cursor) ''vocab_size'' = JInt (int (c_vocab_size c))"
    and "jget (packed_manifest c docs cursor) ''eos_token_id'' = JInt (int (c_eos_token_id c))"
    and "jget (packed_manifest c docs cursor) ''tokenizer_manifest_sha256'' = JStr (c_tokenizer_manifest_sha256 c)"
    and "jget (packed_manifest c docs cursor) ''rows''
       = JInt (int (packed_rows c (stream_tokens (c_eos_token_id c) docs)))"
    and "jget (packed_manifest c docs cursor) ''valid_loss_tokens''
       = JInt (int (w_valid_loss_tokens (packed_state c docs cursor)))"
proof -
  note cfg = packed_state_counts(1) [OF assms(1,2), of cursor]
  show "load_json d manifest_name = Inr (packed_manifest c docs cursor)"
    by (simp add: load_json_def assms(4) packed_dir_def Let_def packed_manifest_def manifest_fields)
  show "\<exists>shards. parse_packed_manifest (packed_manifest c docs cursor) = Inr shards"
    using parse_packed_manifest_spec [OF assms(1,2), of cursor] assms(3)
    by (simp add: cursor_ok_def Let_def)
  have "w_rows (packed_state c docs cursor) = packed_rows c (stream_tokens (c_eos_token_id c) docs)"
    by (simp add: packed_state_def Let_def)
  then show "jget (packed_manifest c docs cursor) ''rows''
       = JInt (int (packed_rows c (stream_tokens (c_eos_token_id c) docs)))"
    by (simp add: packed_manifest_def manifest_fields)
qed (simp_all add: packed_manifest_def manifest_fields packed_state_counts(1) [OF assms(1,2), of cursor])

lemma load_order_input_packed:
  assumes "corpus_ok d domain x" and "case common of None \<Rightarrow> True
    | Some m \<Rightarrow> (\<exists>y d' e. m = corpus_manifest y \<and> corpus_ok d' e y \<and> same_format (corpus_cfg x) (corpus_cfg y))"
  shows "load_order_input d domain common = Inr (corpus_manifest x)"
proof -
  obtain c docs cursor where x: "x = (c, docs, cursor)" by (cases x)
  note a = assms(1) [unfolded x corpus_ok.simps]
  from a have ok: "wf_config c" "docs_ok (c_vocab_size c) docs" "cursor_ok cursor"
    "map_of d = map_of (packed_dir c docs cursor)" "c_domain c = domain" by auto
  note f = packed_load [OF ok(1-4)]
  from f(2) obtain shards where parse: "parse_packed_manifest (packed_manifest c docs cursor) = Inr shards" ..
  show ?thesis
  proof (cases common)
    case None
    then show ?thesis by (simp add: x load_order_input_def f(1,3) parse ok(5))
  next
    case (Some m)
    with assms(2) obtain z d' e where z: "m = corpus_manifest z" "corpus_ok d' e z"
      "same_format c (corpus_cfg z)" by (auto simp: x)
    obtain c' docs' cursor' where z': "z = (c', docs', cursor')" by (cases z)
    with z have y: "m = packed_manifest c' docs' cursor'" "corpus_ok d' e (c', docs', cursor')"
      "same_format c c'" by auto
    from y(2) have ok': "wf_config c'" "docs_ok (c_vocab_size c') docs'" "cursor_ok cursor'"
      "map_of d' = map_of (packed_dir c' docs' cursor')" by auto
    note g = packed_load [OF ok']
    have "list_all (\<lambda>k. py_eq (jget (packed_manifest c docs cursor) k) (jget m k)) common_keys"
      using y(3) by (simp add: common_keys_def y(1) f(4-8) g(4-8) same_format_def)
    then show ?thesis by (simp add: x load_order_input_def f(1,3) parse ok(5) Some)
  qed
qed

lemma load_order_inputs_packed:
  assumes "packed_corpora manifests cs"
  shows "load_order_inputs manifests = Inr (map corpus_manifest cs)"
proof -
  let ?n = "length domain_order"
  have len: "length cs = ?n" and ok: "\<And>k. k < ?n \<Longrightarrow> corpus_ok (manifests (domain_order ! k)) (domain_order ! k) (cs ! k)"
    and same: "\<And>k. k < ?n \<Longrightarrow> same_format (corpus_cfg (cs ! k)) (corpus_cfg (cs ! 0))"
    using assms by (auto simp: packed_corpora_def)
  let ?step = "\<lambda>loaded domain. rbind (load_order_input (manifests domain) domain
      (case loaded of [] \<Rightarrow> None | c # _ \<Rightarrow> Some c)) (\<lambda>m. Inr (loaded @ [m]))"
  have "foldM ?step [] (take k domain_order) = Inr (map corpus_manifest (take k cs))" if "k \<le> ?n" for k
    using that
  proof (induction k)
    case (Suc k)
    then have k: "k < ?n" by simp
    have z: "0 < ?n" by (simp add: domain_order_def)
    have first: "case (case map corpus_manifest (take k cs) of [] \<Rightarrow> None | c # _ \<Rightarrow> Some c) of None \<Rightarrow> True
      | Some m \<Rightarrow> (\<exists>y d' e. m = corpus_manifest y \<and> corpus_ok d' e y \<and>
          same_format (corpus_cfg (cs ! k)) (corpus_cfg y))"
    proof (cases k)
      case (Suc j)
      then have "take k cs = cs ! 0 # take j (tl cs)" using k len by (cases cs) auto
      then show ?thesis using ok [OF z] same [OF k] by (simp del: corpus_ok.simps split_paired_Ex) blast
    qed simp
    from load_order_input_packed [OF ok [OF k] first] Suc k len show ?case
      by (simp add: take_Suc_conv_app_nth foldM_append)
  qed simp
  from this [of ?n] len show ?thesis by (simp add: load_order_inputs_def)
qed

lemma corpus_ok_rows: "corpus_ok d domain x \<Longrightarrow> corpus_rows x < 2 ^ row_bits"
  by (cases x) simp

lemma corpus_numbers:
  assumes "corpus_ok d domain x"
  shows "manifest_num ''rows'' (corpus_manifest x) = corpus_rows x"
    and "manifest_num ''valid_loss_tokens'' (corpus_manifest x) = corpus_valid x"
    and "manifest_num ''sequence_length'' (corpus_manifest x) = c_sequence_length (corpus_cfg x)"
proof -
  obtain c docs cursor where x: "x = (c, docs, cursor)" by (cases x)
  with assms have ok: "wf_config c" "docs_ok (c_vocab_size c) docs" "cursor_ok cursor"
    "map_of d = map_of (packed_dir c docs cursor)" by auto
  from packed_load [OF ok] show "manifest_num ''rows'' (corpus_manifest x) = corpus_rows x"
    "manifest_num ''valid_loss_tokens'' (corpus_manifest x) = corpus_valid x"
    "manifest_num ''sequence_length'' (corpus_manifest x) = c_sequence_length (corpus_cfg x)"
    by (simp_all add: x manifest_num_def)
qed

section \<open>Counting any selection of rows\<close>

definition row_in :: "corpus list \<Rightarrow> 64 word \<Rightarrow> bool" where
  "row_in cs w \<longleftrightarrow> fst (decode_reference w) < length domain_order \<and>
     snd (decode_reference w) < corpus_rows (cs ! fst (decode_reference w))"

text \<open>Supervised labels of the rows of domain \<open>k\<close> among the references.\<close>

definition supervised_in :: "corpus list \<Rightarrow> 64 word list \<Rightarrow> nat \<Rightarrow> nat" where
  "supervised_in cs ws k = sum_list (map (\<lambda>w. row_supervised (cs ! k) (snd (decode_reference w)))
     (filter (\<lambda>w. fst (decode_reference w) = k) ws))"

lemma supervised_in_simps [simp]:
  "supervised_in cs [] k = 0"
  "supervised_in cs (w # ws) k = (if fst (decode_reference w) = k
     then row_supervised (cs ! k) (snd (decode_reference w)) else 0) + supervised_in cs ws k"
  "supervised_in cs (ws @ vs) k = supervised_in cs ws k + supervised_in cs vs k"
  by (simp_all add: supervised_in_def)

lemma supervised_in_mset:
  assumes "mset ws = mset vs"
  shows "supervised_in cs ws k = supervised_in cs vs k"
proof -
  from assms have "mset (filter (\<lambda>w. fst (decode_reference w) = k) ws)
      = mset (filter (\<lambda>w. fst (decode_reference w) = k) vs)" by (simp only: mset_filter)
  from arg_cong [OF this, of "\<lambda>M. sum_mset (image_mset (\<lambda>w. row_supervised (cs ! k) (snd (decode_reference w))) M)"]
  show ?thesis unfolding supervised_in_def by (simp only: mset_map [symmetric] sum_mset_sum_list)
qed

lemma count_step_row:
  assumes cs: "packed_corpora manifests cs" and w: "row_in cs w"
    and T: "T = c_sequence_length (corpus_cfg (cs ! 0))"
  shows "count_step manifests T counts w = Inr (counts[fst (decode_reference w) :=
     counts ! fst (decode_reference w) +
     row_supervised (cs ! fst (decode_reference w)) (snd (decode_reference w))])"
proof -
  obtain k r where dec: "decode_reference w = (k, r)" by force
  obtain c docs cursor where x: "cs ! k = (c, docs, cursor)" by (cases "cs ! k")
  from w dec x have k: "k < length domain_order" and r: "r < packed_rows c (stream_tokens (c_eos_token_id c) docs)"
    by (auto simp: row_in_def)
  from cs k have "corpus_ok (manifests (domain_order ! k)) (domain_order ! k) (cs ! k)"
    and sf: "same_format (corpus_cfg (cs ! k)) (corpus_cfg (cs ! 0))" by (auto simp: packed_corpora_def)
  then have ok: "wf_config c" "docs_ok (c_vocab_size c) docs" "cursor_ok cursor"
    "map_of (manifests (domain_order ! k)) = map_of (packed_dir c docs cursor)"
    "r < 2 ^ row_bits" using r by (auto simp: x)
  have "k < 256" using k by (simp add: domain_order_def)
  from decode_reference_of [OF this ok(5)] dec
  have "count_step manifests T counts w = count_step manifests T counts (reference_of k r)"
    by (simp add: count_step_def)
  also have "T = c_sequence_length c" using sf by (simp add: T x same_format_def)
  finally show ?thesis
    using count_step_packed [where manifests = manifests and k = k, OF ok(1-4) k r ok(5)]
    by (simp add: dec x \<open>T = c_sequence_length c\<close>)
qed

lemma count_supervised_rows:
  assumes cs: "packed_corpora manifests cs" and ws: "list_all (row_in cs) ws"
    and T: "T = c_sequence_length (corpus_cfg (cs ! 0))"
  shows "count_supervised manifests T ws = Inr (map (supervised_in cs ws) [0..<length domain_order])"
proof -
  have "foldM (count_step manifests T) counts ws
      = Inr (map (\<lambda>k. counts ! k + supervised_in cs ws k) [0..<length domain_order])"
    if "length counts = length domain_order" for counts
    using ws that
  proof (induction ws arbitrary: counts)
    case Nil
    then show ?case using map_nth [of counts] by simp
  next
    case (Cons w ws)
    let ?k = "fst (decode_reference w)"
    let ?c = "counts[?k := counts ! ?k + row_supervised (cs ! ?k) (snd (decode_reference w))]"
    from Cons.prems have w: "row_in cs w" by simp
    have "map (\<lambda>k. ?c ! k + supervised_in cs ws k) [0..<length domain_order]
        = map (\<lambda>k. counts ! k + supervised_in cs (w # ws) k) [0..<length domain_order]"
      using Cons.prems(2) by (intro map_cong) (auto simp: nth_list_update)
    with Cons.IH [of ?c] Cons.prems count_step_row [OF cs w T, of counts] show ?case by simp
  qed
  from this [of "replicate (length domain_order) 0"] show ?thesis
    by (simp add: count_supervised_def cong: map_cong)
qed

text \<open>All rows of a domain: the counter its manifest records.\<close>

lemma supervised_every_row:
  assumes cs: "packed_corpora manifests cs" and k: "k < length domain_order"
  shows "supervised_in cs (every_row (map corpus_rows cs)) k = corpus_valid (cs ! k)"
proof -
  obtain c docs cursor where x: "cs ! k = (c, docs, cursor)" by (cases "cs ! k")
  have len: "length cs = length domain_order" using cs by (simp add: packed_corpora_def)
  let ?R = "packed_rows c (stream_tokens (c_eos_token_id c) docs)"
  let ?T = "c_sequence_length (corpus_cfg (cs ! 0))"
  from cs k have "corpus_ok (manifests (domain_order ! k)) (domain_order ! k) (cs ! k)"
    and sf: "same_format (corpus_cfg (cs ! k)) (corpus_cfg (cs ! 0))" by (auto simp: packed_corpora_def)
  then have ok: "wf_config c" "docs_ok (c_vocab_size c) docs" "cursor_ok cursor"
    "map_of (manifests (domain_order ! k)) = map_of (packed_dir c docs cursor)" "?R < 2 ^ row_bits"
    by (auto simp: x)
  have T: "?T = c_sequence_length c" using sf by (simp add: x same_format_def)
  have k256: "k < 256" using k by (simp add: domain_order_def)
  let ?ws = "map (reference_of k) [0..<?R]"
  have "list_all (row_in cs) ?ws"
    using k decode_reference_of [OF k256] ok(5) by (auto simp: list_all_iff row_in_def x)
  from count_supervised_rows [OF cs this refl]
    audit_all_rows [where manifests = manifests and k = k and rs = "[0..<?R]", OF ok(1-4) k refl] ok(5)
  have "map (supervised_in cs ?ws) [0..<length domain_order]
      = (replicate (length domain_order) 0)[k := corpus_valid (cs ! k)]" by (simp add: T x)
  from arg_cong [OF this, of "\<lambda>l. l ! k"] k
  have own: "supervised_in cs ?ws k = corpus_valid (cs ! k)" by simp
  have rows: "\<forall>j < length domain_order. map corpus_rows cs ! j \<le> 2 ^ row_bits"
  proof (intro allI impI)
    fix j assume "j < length domain_order"
    with cs len show "map corpus_rows cs ! j \<le> 2 ^ row_bits"
      using corpus_ok_rows [of "manifests (domain_order ! j)" "domain_order ! j" "cs ! j"]
      by (simp add: packed_corpora_def)
  qed
  have "filter (\<lambda>w. fst (decode_reference w) = k) (every_row (map corpus_rows cs)) = ?ws"
  proof -
    have "filter (\<lambda>w. fst (decode_reference w) = k) (map (reference_of j) [0..<map corpus_rows cs ! j])
        = (if j = k then ?ws else [])" if j: "j < length domain_order" for j
    proof -
      have "fst (decode_reference (reference_of j r)) = j" if "r < map corpus_rows cs ! j" for r
        using that rows j by (subst decode_reference_of) (auto simp: domain_order_def)
      then show ?thesis
        using k len by (auto simp: filter_map o_def x nth_map intro!: filter_True filter_False)
    qed
    then have "filter (\<lambda>w. fst (decode_reference w) = k) (every_row (map corpus_rows cs))
        = concat (map (\<lambda>j. if j = k then ?ws else []) [0..<length domain_order])"
      unfolding every_row_def filter_concat map_map o_def
      by (intro arg_cong [where f = concat] map_cong) auto
    also have "\<dots> = ?ws" using k by (auto simp: domain_order_def less_Suc_eq numeral_eq_Suc)
    finally show ?thesis .
  qed
  moreover have "filter (\<lambda>w. fst (decode_reference w) = k) ?ws = ?ws"
    using decode_reference_of [OF k256] ok(5) by (intro filter_True) auto
  ultimately show ?thesis using own by (simp add: supervised_in_def)
qed

section \<open>The accounting of an order\<close>

lemma plan_packed:
  assumes p: "plan_training_order shuffle manifests seed weights expected tol gmr ga = Inr p"
    and cs: "packed_corpora manifests cs"
  shows "o_inputs p = map corpus_manifest cs"
    and "o_sequence_length p = c_sequence_length (corpus_cfg (cs ! 0))"
    and "o_available_rows p = map corpus_rows cs"
    and "o_available_supervised p = map corpus_valid cs"
proof -
  have ok: "corpus_ok (manifests (domain_order ! k)) (domain_order ! k) (cs ! k)" if "k < length cs" for k
    using cs that by (simp add: packed_corpora_def)
  have ne: "0 < length cs" using cs by (simp add: packed_corpora_def domain_order_def)
  from plan_success [OF p] have i: "load_order_inputs manifests = Inr (o_inputs p)"
    "o_sequence_length p = manifest_num ''sequence_length'' (hd (o_inputs p))"
    "o_available_rows p = map (manifest_num ''rows'') (o_inputs p)"
    "o_available_supervised p = map (manifest_num ''valid_loss_tokens'') (o_inputs p)" by blast+
  from i(1) show inp: "o_inputs p = map corpus_manifest cs" by (simp add: load_order_inputs_packed [OF cs])
  show "o_sequence_length p = c_sequence_length (corpus_cfg (cs ! 0))"
    using ne corpus_numbers(3) [OF ok [OF ne]] by (simp add: i(2) inp hd_map hd_conv_nth)
  show "o_available_rows p = map corpus_rows cs" "o_available_supervised p = map corpus_valid cs"
    unfolding i(3,4) inp by (rule nth_equalityI; simp add: corpus_numbers [OF ok])+
qed

lemma plan_rows_in:
  assumes p: "plan_training_order shuffle manifests seed weights expected tol gmr ga = Inr p"
    and cs: "packed_corpora manifests cs" and perm: "permutes_rows shuffle"
  shows "list_all (row_in cs) (o_references p @ o_surplus p)"
proof -
  have "row_in cs w" if "w \<in> set (o_references p @ o_surplus p)" for w
  proof -
    from plan_reference_domains [OF p perm] that have d: "fst (decode_reference w) < length domain_order"
      "snd (decode_reference w) < o_available_rows p ! fst (decode_reference w)"
      unfolding list_all_iff by blast+
    moreover have "length cs = length domain_order" using cs by (simp add: packed_corpora_def)
    ultimately show ?thesis by (simp add: row_in_def plan_packed(3) [OF p cs])
  qed
  then show ?thesis by (auto simp: list_all_iff)
qed

lemma nth_equality_upt: "length xs = n \<Longrightarrow> (\<And>k. k < n \<Longrightarrow> xs ! k = f k) \<Longrightarrow> xs = map f [0..<n]"
  by (rule nth_equalityI) auto

text \<open>Selected supervised tokens, whichever side was counted.\<close>

lemma plan_supervised_direct:
  assumes p: "plan_training_order shuffle manifests seed weights expected tol gmr ga = Inr p"
    and cs: "packed_corpora manifests cs" and perm: "permutes_rows shuffle"
  shows "o_supervised p = map (\<lambda>k. int (supervised_in cs (o_references p) k)) [0..<length domain_order]"
    and "count_supervised manifests (o_sequence_length p) (o_references p)
       = Inr (map (supervised_in cs (o_references p)) [0..<length domain_order])"
proof -
  note rin = plan_rows_in [OF p cs perm]
  then have r: "list_all (row_in cs) (o_references p)" "list_all (row_in cs) (o_surplus p)" by auto
  note cnt = count_supervised_rows [OF cs _ plan_packed(2) [OF p cs]]
  show "count_supervised manifests (o_sequence_length p) (o_references p)
       = Inr (map (supervised_in cs (o_references p)) [0..<length domain_order])" by (rule cnt [OF r(1)])
  from plan_success [OF p] have sup: "selected_supervised manifests (o_sequence_length p) (o_selection p)
       (o_available_rows p) (o_available_supervised p) (o_references p) (o_surplus p) = Inr (o_supervised p)"
    by blast
  have len: "length cs = length domain_order" using cs by (simp add: packed_corpora_def)
  have total: "supervised_in cs (o_references p) k + supervised_in cs (o_surplus p) k = corpus_valid (cs ! k)"
    if k: "k < length domain_order" for k
  proof -
    have "mset (o_references p @ o_surplus p) = mset (every_row (map corpus_rows cs))"
      using plan_every_row(1) [OF p perm] by (simp add: plan_packed(3) [OF p cs])
    from supervised_in_mset [OF this, of cs k] supervised_every_row [OF cs k] show ?thesis by simp
  qed
  have whole: "map int (o_available_supervised p) = map (\<lambda>k. int (supervised_in cs (o_references p) k)
      + int (supervised_in cs (o_surplus p) k)) [0..<length domain_order]"
    using len total by (intro nth_equality_upt) (simp_all add: plan_packed(4) [OF p cs] flip: of_nat_add)
  show "o_supervised p = map (\<lambda>k. int (supervised_in cs (o_references p) k)) [0..<length domain_order]"
  proof (cases "s_capped (o_selection p)")
    case True
    have "sub_lists (map int (o_available_supervised p))
        (map int (map (supervised_in cs (o_surplus p)) [0..<length domain_order]))
        = map (\<lambda>k. int (supervised_in cs (o_references p) k)) [0..<length domain_order]"
      unfolding whole by (intro nth_equality_upt) (simp_all add: nth_sub_lists)
    with sup True show ?thesis
      by (auto simp: selected_supervised_def Let_def res_simps cnt [OF r(1)] cnt [OF r(2)] o_def
          split: if_splits)
  next
    case False
    from plan_capped_references(2) [OF p False] have "o_surplus p = []" by simp
    with sup False whole show ?thesis by (auto simp: selected_supervised_def res_simps)
  qed
qed

text \<open>Consumed supervised tokens, counted on the dropped suffix.\<close>

lemma plan_consumed_direct:
  assumes p: "plan_training_order shuffle manifests seed weights expected tol gmr ga = Inr p"
    and cs: "packed_corpora manifests cs" and perm: "permutes_rows shuffle"
    and u: "o_consumption p = Some u"
  shows "u_supervised_per_domain u
       = map (\<lambda>k. int (supervised_in cs (take (u_rows u) (o_references p)) k)) [0..<length domain_order]"
    and "count_supervised manifests (o_sequence_length p) (take (u_rows u) (o_references p))
       = Inr (map (supervised_in cs (take (u_rows u) (o_references p))) [0..<length domain_order])"
proof -
  note cnt = count_supervised_rows [OF cs _ plan_packed(2) [OF p cs]]
  have r: "list_all (row_in cs) (take n (o_references p))" "list_all (row_in cs) (drop n (o_references p))" for n
    using plan_rows_in [OF p cs perm] by (auto simp: list_all_iff dest: in_set_takeD in_set_dropD)
  show "count_supervised manifests (o_sequence_length p) (take (u_rows u) (o_references p))
       = Inr (map (supervised_in cs (take (u_rows u) (o_references p))) [0..<length domain_order])"
    by (rule cnt [OF r(1)])
  have split: "supervised_in cs (o_references p) k = supervised_in cs (take (u_rows u) (o_references p)) k
      + supervised_in cs (drop (u_rows u) (o_references p)) k" for k
    unfolding supervised_in_simps(3) [symmetric] append_take_drop_id ..
  from consumption_fields(14) [OF plan_consumption_domains(4) [OF p perm u]] cnt [OF r(2)]
  have "u_supervised_per_domain u = sub_lists (o_supervised p)
      (map int (map (supervised_in cs (drop (u_rows u) (o_references p))) [0..<length domain_order]))" by auto
  also have "\<dots> = map (\<lambda>k. int (supervised_in cs (take (u_rows u) (o_references p)) k)) [0..<length domain_order]"
    unfolding plan_supervised_direct(1) [OF p cs perm]
    by (intro nth_equality_upt) (simp_all add: nth_sub_lists split)
  finally show "u_supervised_per_domain u
       = map (\<lambda>k. int (supervised_in cs (take (u_rows u) (o_references p)) k)) [0..<length domain_order]" .
qed

section \<open>An order over all rows is always built\<close>

lemma plan_all_rows:
  assumes cs: "packed_corpora manifests cs" and perm: "permutes_rows shuffle" and seed: "0 \<le> seed"
    and some: "1 \<le> sum_list (map corpus_rows cs)"
    and frozen: "gmr = JNull \<and> ga = JNull \<or> positive_int gmr \<and> positive_int ga \<and>
      nat (jint_of gmr) * nat (jint_of ga) \<le> sum_list (map corpus_rows cs)"
  shows "\<exists>p. plan_training_order shuffle manifests seed None JNull JNull gmr ga = Inr p \<and>
     o_references p = all_references shuffle seed (map corpus_rows cs) \<and>
     s_total_rows (o_selection p) = sum_list (map corpus_rows cs) \<and>
     (o_consumption p = None) = (gmr = JNull)"
proof -
  let ?T = "c_sequence_length (corpus_cfg (cs ! 0))" and ?n = "sum_list (map corpus_rows cs)"
  have len: "length cs = length domain_order" using cs by (simp add: packed_corpora_def)
  have ok: "corpus_ok (manifests (domain_order ! k)) (domain_order ! k) (cs ! k)" if "k < length cs" for k
    using cs that by (simp add: packed_corpora_def)
  have ne: "cs \<noteq> []" using len by (auto simp: domain_order_def)
  have T: "manifest_num ''sequence_length'' (hd (map corpus_manifest cs)) = ?T"
    using ne corpus_numbers(3) [OF ok, of 0] by (simp add: hd_map hd_conv_nth)
  have rows: "map (manifest_num ''rows'') (map corpus_manifest cs) = map corpus_rows cs"
    and valid: "map (manifest_num ''valid_loss_tokens'') (map corpus_manifest cs) = map corpus_valid cs"
    by (rule nth_equalityI; simp add: corpus_numbers [OF ok])+
  have bound: "\<forall>k < length domain_order. map corpus_rows cs ! k < 2 ^ row_bits"
    using corpus_ok_rows [OF ok] len by simp
  then have big: "\<not> list_ex (\<lambda>n. 2 ^ row_bits - 1 < n) (map corpus_rows cs)"
    using len by (fastforce simp: list_ex_length)
  have fr: "(gmr = JNull) = (ga = JNull)" "frozen_value_ok gmr" "frozen_value_ok ga"
    using frozen by (auto simp: frozen_value_ok_def positive_int_def)
  let ?sel = "\<lparr>s_capped = False, s_rows_per_domain = map corpus_rows cs, s_total_rows = ?n,
    s_delta = None, s_tolerance = JNull\<rparr>"
  let ?refs = "all_references shuffle seed (map corpus_rows cs)" and ?sup = "map int (map corpus_valid cs)"
  have sel: "select_all (map corpus_rows cs) None JNull = Inr ?sel" by (simp add: select_all_def)
  have zeros: "sub_lists xs xs = map (\<lambda>_. 0) xs" for xs :: "int list"
    by (rule nth_equalityI) (simp_all add: nth_sub_lists)
  have sup: "selected_supervised manifests ?T ?sel (map corpus_rows cs) (map corpus_valid cs) ?refs [] = Inr ?sup"
    unfolding selected_supervised_def by (simp add: zeros list_ex_iff del: map_map)
  have "set ?refs = set (every_row (map corpus_rows cs))"
    by (rule mset_eq_setD [OF all_references_every_row [OF perm]])
  moreover have "list_all (row_in cs) (every_row (map corpus_rows cs))"
  proof -
    have "fst d < length domain_order \<and> snd d < corpus_rows (cs ! fst d)"
      if "d \<in> set (map decode_reference (every_row (map corpus_rows cs)))" for d
      using that len unfolding every_row_decoded [OF every_row_bound [OF bound]] by auto
    then show ?thesis by (auto simp: list_all_iff row_in_def)
  qed
  ultimately have "list_all (row_in cs) ?refs" unfolding list_all_iff by simp
  then have "list_all (row_in cs) (drop n ?refs)" for n by (auto simp: list_all_iff dest: in_set_dropD)
  from count_supervised_rows [OF cs this refl]
  have cons: "\<exists>u. consumption_of manifests ?T ?sel ?refs ?sup g a = Inr u" if "g * a \<le> ?n" "0 < g * a" for g a
    using that by (simp add: consumption_of_def Let_def div_greater_zero_iff less_eq_Suc_le [symmetric] not_less)
  have pn: "positive_int v \<Longrightarrow> v \<noteq> JNull \<and> 0 < nat (jint_of v)" for v
    by (cases v) (simp_all add: positive_int_def)
  have "\<exists>u. (if gmr = JNull then Inr None
      else rbind (consumption_of manifests ?T ?sel ?refs ?sup (nat (jint_of gmr)) (nat (jint_of ga)))
        (\<lambda>u. Inr (Some u))) = Inr u \<and> (u = None) = (gmr = JNull)"
    using frozen
  proof
    assume f: "positive_int gmr \<and> positive_int ga \<and> nat (jint_of gmr) * nat (jint_of ga) \<le> ?n"
    with pn have "0 < nat (jint_of gmr) * nat (jint_of ga)" "gmr \<noteq> JNull" by auto
    with cons f show ?thesis by fastforce
  qed auto
  then obtain u where u: "(if gmr = JNull then Inr None
      else rbind (consumption_of manifests ?T ?sel ?refs ?sup (nat (jint_of gmr)) (nat (jint_of ga)))
        (\<lambda>u. Inr (Some u))) = Inr u" "(u = None) = (gmr = JNull)" by blast
  have "plan_training_order shuffle manifests seed None JNull JNull gmr ga = Inr
     \<lparr>o_inputs = map corpus_manifest cs, o_sequence_length = ?T, o_available_rows = map corpus_rows cs,
      o_available_supervised = map corpus_valid cs, o_weights = None, o_selection = ?sel,
      o_references = ?refs, o_surplus = [], o_supervised = ?sup, o_consumption = u\<rparr>"
  proof -
    have n1: "\<not> ?n < 1" using some by (simp only: not_less)
    have n: "((gmr = JNull) \<noteq> (ga = JNull)) = False"
      "(frozen_value_ok gmr \<and> frozen_value_ok ga) = True" "(\<not> False \<and> seed < 0) = False"
      using fr seed by simp_all
    show ?thesis
      unfolding plan_training_order_def load_order_inputs_packed [OF cs] rbind_Inr Let_def T rows valid
      by (simp only: n1 n big if_False if_True not_True_eq_False not_False_eq_True simp_thms option.case
          rbind_Inr sel selection.simps prod.case sup u(1)) (use fr(1) seed in simp)
  qed
  with u(2) show ?thesis by simp
qed

end
