(* ===== verification/OrderLoad.thy ===== *)
theory OrderLoad
  imports OrderAudit
begin

text \<open>
  \<^verbatim>\<open>_load_order_manifest\<close> of \<^verbatim>\<open>pretrain/data.py\<close>: the fail-closed reader of an order
  directory. One definition per block of checks, in their order; the manifest and the bytes of
  \<^verbatim>\<open>order.bin\<close> come back.
\<close>

section \<open>Shared tests\<close>

text \<open>\<^verbatim>\<open>isinstance(v, int)\<close>, which a boolean passes.\<close>

definition int_like :: "json \<Rightarrow> bool" where
  "int_like v \<longleftrightarrow> is_jint v \<or> is_jbool v"

text \<open>A dictionary with exactly the three domains.\<close>

definition domain_dict :: "json \<Rightarrow> bool" where
  "domain_dict v \<longleftrightarrow> is_jobj v \<and> set (jkeys v) = set domain_order"

text \<open>\dots and plain non-negative integers in it; its values in domain order.\<close>

definition domain_counts :: "json \<Rightarrow> bool" where
  "domain_counts v \<longleftrightarrow> domain_dict v \<and> list_all (\<lambda>d. nonnegative_int (jget v d)) domain_order"

definition domain_ints :: "json \<Rightarrow> int list" where
  "domain_ints v = map (\<lambda>d. jint_of (jget v d)) domain_order"

definition eq_int :: "json \<Rightarrow> int \<Rightarrow> bool" where
  "eq_int v i \<longleftrightarrow> py_eq v (JInt i)"

text \<open>Equality with a dictionary of integers per domain.\<close>

definition eq_domains :: "json \<Rightarrow> int list \<Rightarrow> bool" where
  "eq_domains v xs \<longleftrightarrow> py_eq v (per_domain JInt xs)"

section \<open>The header\<close>

definition order_numpy :: "json \<Rightarrow> unit res" where
  "order_numpy m =
     (if \<not> is_jstr (jget m ''numpy_version'') \<or> jstr_of (jget m ''numpy_version'') = []
      then Inl (ValueError ''Invalid order NumPy version'') else Inr ())"

definition order_header :: "json \<Rightarrow> unit res" where
  "order_header m =
     (if \<not> py_eq (jget m ''format'') (JStr ''global-packed-row-order'')
      then Inl (ValueError ''Unsupported order format'')
      else if \<not> eq_int (jget m ''format_version'') 4
      then Inl (ValueError ''Unsupported order format version'')
      else if \<not> py_eq (jget m ''domain_order'') (JList (map JStr domain_order))
      then Inl (ValueError ''Order domain mapping differs'')
      else if \<not> py_eq (jget m ''reference_dtype'') (JStr ''<u8'')
      then Inl (ValueError ''Unsupported order reference dtype'')
      else if \<not> py_eq (jget m ''encoding'') (JObj [(''domain_bits'', JInt 8), (''row_bits'', JInt 56)])
      then Inl (ValueError ''Unsupported order reference bit allocation'')
      else rbind (require_sha256 (jget m ''tokenizer_manifest_sha256'')) (\<lambda>_.
      if \<not> positive_int (jget m ''rows'') then Inl (ValueError ''Invalid order row count'')
      else if \<not> is_jstr (jget m ''split'') \<or> jstr_of (jget m ''split'') = []
      then Inl (ValueError ''Invalid order split'')
      else if \<not> int_like (jget m ''sequence_length'') \<or> jint_of (jget m ''sequence_length'') < 2
      then Inl (ValueError ''Invalid order sequence length'')
      else let vocab_size = jint_of (jget m ''vocab_size''); eos = jint_of (jget m ''eos_token_id'') in
      if \<not> int_like (jget m ''vocab_size'') \<or> \<not> (1 \<le> vocab_size \<and> vocab_size \<le> 65536)
      then Inl (ValueError ''Invalid order vocabulary size'')
      else if \<not> int_like (jget m ''eos_token_id'') \<or> \<not> (0 \<le> eos \<and> eos < vocab_size)
      then Inl (ValueError ''Invalid order EOS token ID'')
      else if \<not> nonnegative_int (jget m ''seed'') then Inl (ValueError ''Invalid order construction seed'')
      else if \<not> py_eq (jget m ''rng'') (JStr ''numpy.random.PCG64'')
      then Inl (ValueError ''Unsupported order RNG'')
      else if py_eq (jget m ''row_selection'') (JStr ''all-packed-rows'')
      then if \<not> py_eq (jget m ''shuffle'') (JStr ''full-uniform-permutation-without-replacement'')
              \<or> jget m ''seed_derivation'' \<noteq> JNull
           then Inl (ValueError ''All-row order shuffle identity is invalid'')
           else order_numpy m
      else if py_eq (jget m ''row_selection'') (JStr ''strict-weighted-token-cap'')
      then if \<not> py_eq (jget m ''shuffle'') (JStr
                ''independent-full-domain-permutations-select-prefix-then-global-uniform-permutation-without-replacement'')
              \<or> \<not> py_eq (jget m ''seed_derivation'') (JStr ''sha256(seed-nul-namespace)-first-128-bits-big-endian'')
           then Inl (ValueError ''Capped order shuffle identity is invalid'')
           else order_numpy m
      else Inl (ValueError ''Order row-selection policy is invalid'')))"

section \<open>Rows and packed surplus\<close>

definition order_rows :: "json \<Rightarrow> unit res" where
  "order_rows m =
     (let rows = jint_of (jget m ''rows''); T = jint_of (jget m ''sequence_length'');
          counts = jget m ''rows_per_domain''; available = jget m ''packed_available_rows_per_domain'';
          surplus = jget m ''packed_surplus_rows_per_domain'';
          sel = domain_ints counts; av = domain_ints available; su = domain_ints surplus in
      if \<not> domain_dict counts then Inl (ValueError ''Order manifest has an invalid rows_per_domain mapping'')
      else if \<not> domain_counts counts then Inl (ValueError ''Order manifest has invalid per-domain row counts'')
      else if sum_list sel \<noteq> rows then Inl (ValueError ''Order per-domain row counts do not sum'')
      else if \<not> domain_counts available \<or> \<not> domain_counts surplus
      then Inl (ValueError ''Order packed row mapping is invalid'')
      else if list_ex (\<lambda>(a, s, u). a \<noteq> s + u) (zip av (zip sel su))
      then Inl (ValueError ''Packed selected/available/surplus row counts are inconsistent'')
      else if \<not> eq_int (jget m ''packed_available_rows'') (sum_list av)
          \<or> \<not> eq_int (jget m ''packed_surplus_rows'') (sum_list su) \<or> sum_list av \<noteq> rows + sum_list su
      then Inl (ValueError ''Packed global row counts are inconsistent'')
      else if \<not> eq_domains (jget m ''packed_available_input_tokens_per_domain'') (map (\<lambda>n. n * T) av)
          \<or> \<not> eq_domains (jget m ''packed_surplus_input_tokens_per_domain'') (map (\<lambda>n. n * T) su)
          \<or> \<not> eq_int (jget m ''packed_available_input_tokens'') (sum_list (map (\<lambda>n. n * T) av))
          \<or> \<not> eq_int (jget m ''packed_surplus_input_tokens'') (sum_list (map (\<lambda>n. n * T) su))
      then Inl (ValueError ''Packed input-token accounting is inconsistent'')
      else Inr ())"

section \<open>Packed manifests and supervised tokens\<close>

definition order_dataset :: "json \<Rightarrow> string \<Rightarrow> unit res" where
  "order_dataset m domain =
     (let payload = jget (jget m ''dataset_manifests'') domain in
      if \<not> is_jobj payload then Inl (ValueError ''Invalid packed-manifest identity'')
      else if \<not> is_jstr (jget payload ''path'') \<or> jstr_of (jget payload ''path'') = []
      then Inl (ValueError ''Invalid packed-manifest path'')
      else rbind (require_sha256 (jget payload ''sha256'')) (\<lambda>_. Inr ()))"

definition order_datasets :: "json \<Rightarrow> unit res" where
  "order_datasets m =
     (if \<not> domain_dict (jget m ''dataset_manifests'')
      then Inl (ValueError ''Order manifest has an invalid dataset_manifests mapping'')
      else rbind (mapM (order_dataset m) domain_order) (\<lambda>_. Inr ()))"

definition order_supervised :: "json \<Rightarrow> unit res" where
  "order_supervised m =
     (let valid = jget m ''valid_loss_tokens_per_domain'';
          available = jget m ''packed_available_supervised_tokens_per_domain'';
          surplus = jget m ''packed_surplus_supervised_tokens_per_domain'';
          va = domain_ints valid; av = domain_ints available; su = domain_ints surplus in
      if \<not> domain_counts valid then Inl (ValueError ''Order valid-loss-token counts are invalid'')
      else if \<not> domain_counts available \<or> \<not> domain_counts surplus
      then Inl (ValueError ''Order packed supervised mapping is invalid'')
      else if list_ex (\<lambda>(a, v, u). a \<noteq> v + u) (zip av (zip va su))
      then Inl (ValueError ''Packed supervised-token accounting is inconsistent'')
      else if \<not> eq_int (jget m ''packed_available_supervised_tokens'') (sum_list av)
          \<or> \<not> eq_int (jget m ''packed_surplus_supervised_tokens'') (sum_list su)
      then Inl (ValueError ''Packed supervised-token totals are inconsistent'')
      else Inr ())"

section \<open>The training consumption\<close>

definition nullable_fields :: "string list" where
  "nullable_fields = [''consumed_rows'', ''dropped_tail_rows'', ''available_global_microbatches'',
     ''consumed_global_microbatches'', ''dropped_global_microbatches'',
     ''dropped_partial_microbatch_rows'', ''optimizer_updates'', ''consumed_input_tokens'',
     ''dropped_input_tokens'', ''consumed_supervised_tokens'', ''dropped_supervised_tokens'',
     ''consumed_rows_per_domain'', ''consumed_input_tokens_per_domain'',
     ''consumed_supervised_tokens_per_domain'', ''realized_consumed_input_token_weights'',
     ''realized_consumed_supervised_token_weights'', ''dropped_rows_per_domain'',
     ''dropped_input_tokens_per_domain'', ''dropped_supervised_tokens_per_domain'']"

definition order_unfrozen :: "json \<Rightarrow> unit res" where
  "order_unfrozen c =
     (if jget c ''frozen_optimizer_update_rows'' \<noteq> JNull
      then Inl (ValueError ''Unfrozen training consumption declares update rows'')
      else if \<not> py_eq (jget c ''policy'') (JStr ''runtime-training-geometry-not-frozen'')
      then Inl (ValueError ''Unfrozen training-consumption policy is invalid'')
      else if list_ex (\<lambda>k. jget c k \<noteq> JNull) nullable_fields
      then Inl (ValueError ''Unfrozen training consumption declares frozen counters'')
      else Inr ())"

text \<open>The whole-update geometry recomputed from the row count.\<close>

definition frozen_scalars :: "int \<Rightarrow> int \<Rightarrow> int \<Rightarrow> int \<Rightarrow> (string \<times> int) list" where
  "frozen_scalars rows T gmr ga =
     (let updates = rows div (gmr * ga); consumed = updates * (gmr * ga) in
      [(''available_global_microbatches'', rows div gmr), (''consumed_global_microbatches'', updates * ga),
       (''dropped_global_microbatches'', rows div gmr - updates * ga),
       (''dropped_partial_microbatch_rows'', rows mod gmr), (''optimizer_updates'', updates),
       (''consumed_rows'', consumed), (''dropped_tail_rows'', rows - consumed),
       (''consumed_input_tokens'', consumed * T), (''dropped_input_tokens'', (rows - consumed) * T)])"

definition consumption_maps :: "string list" where
  "consumption_maps = [''consumed_rows_per_domain'', ''consumed_input_tokens_per_domain'',
     ''consumed_supervised_tokens_per_domain'', ''realized_consumed_input_token_weights'',
     ''realized_consumed_supervised_token_weights'', ''dropped_rows_per_domain'',
     ''dropped_input_tokens_per_domain'', ''dropped_supervised_tokens_per_domain'']"

text \<open>One domain of the frozen consumption.\<close>

definition frozen_domain :: "json \<Rightarrow> json \<Rightarrow> int \<Rightarrow> int \<Rightarrow> string \<Rightarrow> unit res" where
  "frozen_domain m c consumed_rows total_supervised domain =
     (let get = (\<lambda>k. jget (jget c k) domain); T = jint_of (jget m ''sequence_length'');
          selected = jint_of (jget (jget m ''rows_per_domain'') domain);
          cc = get ''consumed_rows_per_domain''; n = jint_of cc; dropped = selected - n;
          cs = get ''consumed_supervised_tokens_per_domain'';
          ds = get ''dropped_supervised_tokens_per_domain'' in
      if \<not> is_jint cc \<or> \<not> (0 \<le> n \<and> n \<le> selected)
      then Inl (ValueError ''Training-consumption per-domain row count is invalid'')
      else if \<not> eq_int (get ''consumed_input_tokens_per_domain'') (n * T)
      then Inl (ValueError ''Training-consumption per-domain token count is invalid'')
      else if \<not> eq_int (get ''dropped_rows_per_domain'') dropped
      then Inl (ValueError ''Training-consumption dropped per-domain count is invalid'')
      else if \<not> eq_int (get ''dropped_input_tokens_per_domain'') (dropped * T)
      then Inl (ValueError ''Training-consumption dropped token count is invalid'')
      else if \<not> nonnegative_int cs \<or> \<not> nonnegative_int ds
      then Inl (ValueError ''Training-consumption per-domain supervised count is invalid'')
      else if jint_of cs + jint_of ds \<noteq> jint_of (jget (jget m ''valid_loss_tokens_per_domain'') domain)
      then Inl (ValueError ''Training-consumption per-domain supervised count is inconsistent'')
      else rbind (float_of (get ''realized_consumed_input_token_weights'')) (\<lambda>w.
      if \<not> is_close w (py_div (of_int n) (of_int consumed_rows))
      then Inl (ValueError ''Training-consumption per-domain weight is invalid'')
      else rbind (float_of (get ''realized_consumed_supervised_token_weights'')) (\<lambda>sw.
      if \<not> is_close sw (if total_supervised = 0 then 0 else py_div (of_int (jint_of cs)) (of_int total_supervised))
      then Inl (ValueError ''Training-consumption per-domain supervised weight is invalid'')
      else Inr ())))"

definition order_frozen :: "json \<Rightarrow> json \<Rightarrow> unit res" where
  "order_frozen m c =
     (let rows = jint_of (jget m ''rows''); T = jint_of (jget m ''sequence_length'');
          g = jget c ''frozen_global_microbatch_rows''; a = jget c ''frozen_gradient_accumulation_steps'';
          gmr = jint_of g; ga = jint_of a;
          consumed = rows div (gmr * ga) * (gmr * ga);
          ts = jget c ''consumed_supervised_tokens''; td = jget c ''dropped_supervised_tokens'';
          available_supervised = sum_list (domain_ints (jget m ''valid_loss_tokens_per_domain'')) in
      if \<not> positive_int g \<or> \<not> positive_int a then Inl (ValueError ''Invalid frozen training geometry'')
      else if \<not> eq_int (jget c ''frozen_optimizer_update_rows'') (gmr * ga)
      then Inl (ValueError ''Frozen optimizer-update row count is inconsistent'')
      else if \<not> py_eq (jget c ''policy'') (JStr ''complete-frozen-optimizer-updates-no-padding'')
      then Inl (ValueError ''Frozen training-consumption policy is invalid'')
      else if rows div (gmr * ga) < 1
      then Inl (ValueError ''Frozen optimizer update is larger than the order'')
      else if list_ex (\<lambda>(k, v). \<not> eq_int (jget c k) v) (frozen_scalars rows T gmr ga)
      then Inl (ValueError ''Training-consumption counter is inconsistent'')
      else if \<not> list_all (\<lambda>k. domain_dict (jget c k)) consumption_maps
      then Inl (ValueError ''Training-consumption mapping is invalid'')
      else if \<not> nonnegative_int ts \<or> \<not> nonnegative_int td \<or> jint_of ts + jint_of td \<noteq> available_supervised
      then Inl (ValueError ''Training-consumption supervised-token totals are invalid'')
      else rbind (mapM (frozen_domain m c consumed (jint_of ts)) domain_order) (\<lambda>_.
      if sum_list (domain_ints (jget c ''consumed_rows_per_domain'')) \<noteq> consumed
      then Inl (ValueError ''Training-consumption per-domain rows do not sum'')
      else if sum_list (domain_ints (jget c ''consumed_supervised_tokens_per_domain'')) \<noteq> jint_of ts
      then Inl (ValueError ''Training-consumption supervised tokens do not sum'')
      else if sum_list (domain_ints (jget c ''dropped_supervised_tokens_per_domain'')) \<noteq> jint_of td
      then Inl (ValueError ''Training-consumption dropped supervised tokens do not sum'')
      else Inr ()))"

definition order_consumption :: "json \<Rightarrow> unit res" where
  "order_consumption m =
     (let c = jget m ''training_consumption''; rows = jint_of (jget m ''rows'');
          T = jint_of (jget m ''sequence_length'');
          g = jget c ''frozen_global_microbatch_rows''; a = jget c ''frozen_gradient_accumulation_steps'' in
      if \<not> is_jobj c then Inl (ValueError ''Order manifest is missing training_consumption'')
      else if \<not> eq_int (jget c ''order_rows'') rows
      then Inl (ValueError ''Training-consumption order row count is inconsistent'')
      else if \<not> eq_int (jget c ''available_input_tokens'') (rows * T)
      then Inl (ValueError ''Training-consumption available token count is inconsistent'')
      else if \<not> eq_int (jget c ''available_supervised_tokens'')
                 (sum_list (domain_ints (jget m ''valid_loss_tokens_per_domain'')))
      then Inl (ValueError ''Training-consumption available supervised tokens are inconsistent'')
      else if (g = JNull) \<noteq> (a = JNull)
      then Inl (ValueError ''Frozen training geometry is only partially declared'')
      else if g = JNull then order_unfrozen c else order_frozen m c)"

section \<open>The token budget\<close>

text \<open>\<^verbatim>\<open>_normalize_domain_weights\<close> on the JSON value the manifest holds.\<close>

definition json_weights :: "json \<Rightarrow> rat list res" where
  "json_weights v =
     (if \<not> is_jobj v then Inl (TypeError ''weights must be a mapping'')
      else if set (jkeys v) \<noteq> set domain_order
      then Inl (ValueError ''Expected weights must contain exactly the domains'')
      else rbind (mapM (\<lambda>d. float_of (jget v d)) domain_order) (\<lambda>ws.
        normalize_domain_weights (zip domain_order ws)))"

text \<open>\<^verbatim>\<open>mapping[key]\<close>.\<close>

definition jitem :: "json \<Rightarrow> string \<Rightarrow> json res" where
  "jitem v k = (if k \<in> set (jkeys v) then Inr (jget v k) else Inl (KeyError k))"

definition targeted_budget :: "json \<Rightarrow> json \<Rightarrow> json \<Rightarrow> int \<Rightarrow> unit res" where
  "targeted_budget m c budget accounted =
     (let target = jget budget ''expected_total''; tolerance = jget budget ''tolerance'';
          rows = jint_of (jget m ''rows''); T = jint_of (jget m ''sequence_length'') in
      if \<not> py_eq (jget m ''row_selection'') (JStr ''strict-weighted-token-cap'') \<or> \<not> positive_int target
          \<or> \<not> nonnegative_int tolerance \<or> jget m ''expected_input_token_weights'' = JNull
      then Inl (ValueError ''Targeted order selection/budget is invalid'')
      else rbind (json_weights (jget m ''expected_input_token_weights'')) (\<lambda>weights.
      rbind (jitem c ''frozen_optimizer_update_rows'') (\<lambda>u.
      let maximum_rows = jint_of target div T; update_rows = nat \<lfloor>the (jnum u)\<rfloor>;
          selected = (if u = JNull then maximum_rows else maximum_rows div int update_rows * int update_rows) in
      if rows \<noteq> selected then Inl (ValueError ''Targeted order row allocation is invalid'')
      else if u \<noteq> JNull \<and> \<not> int_like u
      then Inl (TypeError ''both arguments should be Rational instances'')
      else rbind (strict_weighted_row_counts selected weights) (\<lambda>counts.
      if domain_ints (jget m ''rows_per_domain'') \<noteq> map int counts
      then Inl (ValueError ''Targeted order row allocation is invalid'')
      else let delta = accounted - jint_of target in
      if \<not> eq_int (jget budget ''delta'') delta \<or> 0 < delta \<or> delta < - jint_of tolerance
      then Inl (ValueError ''Targeted order token delta is invalid'')
      else Inr ()))))"

definition order_budget :: "json \<Rightarrow> unit res" where
  "order_budget m =
     (let c = jget m ''training_consumption''; budget = jget m ''input_token_budget'';
          rows = jint_of (jget m ''rows''); T = jint_of (jget m ''sequence_length'');
          av = domain_ints (jget m ''packed_available_rows_per_domain'');
          su = domain_ints (jget m ''packed_surplus_rows_per_domain'');
          g = jget c ''frozen_global_microbatch_rows'';
          update_rows = jint_of g * jint_of (jget c ''frozen_gradient_accumulation_steps'');
          accounted = (if g = JNull then rows * T else rows div update_rows * update_rows * T) in
      if \<not> is_jobj budget
          \<or> \<not> py_eq (jget budget ''policy'')
               (JStr ''packed_model_inputs_including_eos_excluding_lookahead_duplicates'')
          \<or> \<not> py_eq (jget budget ''direction'') (JStr ''at_or_below'')
          \<or> \<not> eq_int (jget budget ''available_total'') (rows * T)
          \<or> \<not> eq_int (jget budget ''packed_available_total'') (sum_list (map (\<lambda>n. n * T) av))
          \<or> \<not> eq_int (jget budget ''packed_surplus_total'') (sum_list (map (\<lambda>n. n * T) su))
      then Inl (ValueError ''Order input-token budget schema is invalid'')
      else if \<not> py_eq (jget budget ''accounting'') (JStr (if g = JNull then ''available-order-inputs''
               else ''consumed-complete-optimizer-update-inputs''))
          \<or> \<not> eq_int (jget budget ''actual_total'') accounted
      then Inl (ValueError ''Order input-token budget accounting is invalid'')
      else if jget budget ''expected_total'' = JNull
      then if \<not> py_eq (jget m ''row_selection'') (JStr ''all-packed-rows'')
              \<or> jget budget ''delta'' \<noteq> JNull \<or> jget budget ''tolerance'' \<noteq> JNull \<or> sum_list su \<noteq> 0
           then Inl (ValueError ''Untargeted order selection/budget is invalid'') else Inr ()
      else targeted_budget m c budget accounted)"

section \<open>The payload, and the whole reader\<close>

definition order_payload :: "bool \<Rightarrow> dir \<Rightarrow> json \<Rightarrow> byte list res" where
  "order_payload verify_checksum d m =
     (let payload = jget m ''order''; expected_bytes = 8 * nat (jint_of (jget m ''rows'')) in
      if \<not> is_jobj payload then Inl (ValueError ''Order payload metadata is invalid'')
      else if \<not> py_eq (jget payload ''path'') (JStr order_name)
      then Inl (ValueError ''Order payload path must be the canonical order.bin'')
      else rbind (require_sha256 (jget payload ''sha256'')) (\<lambda>expected_sha256.
      if \<not> sized_file d order_name expected_bytes then Inl (IOError ''Order file size mismatch'')
      else if \<not> eq_int (jget payload ''bytes'') (int expected_bytes)
      then Inl (ValueError ''Recorded order byte count is inconsistent'')
      else if verify_checksum \<and> sha256 (file_bytes d order_name) \<noteq> expected_sha256
      then Inl (IOError ''Order checksum mismatch'')
      else Inr (file_bytes d order_name)))"

definition load_order_manifest :: "bool \<Rightarrow> dir \<Rightarrow> (json \<times> byte list) res" where
  "load_order_manifest verify_checksum d =
     rbind (load_json d manifest_name) (\<lambda>m.
     rbind (order_header m) (\<lambda>_.
     rbind (order_rows m) (\<lambda>_.
     rbind (order_datasets m) (\<lambda>_.
     rbind (order_supervised m) (\<lambda>_.
     rbind (order_consumption m) (\<lambda>_.
     rbind (order_budget m) (\<lambda>_.
     rbind (order_payload verify_checksum d m) (\<lambda>payload. Inr (m, payload)))))))))"

text \<open>\<^verbatim>\<open>np.memmap(order_path, dtype="<u8", shape=(rows,))\<close>.\<close>

definition map_order :: "byte list \<Rightarrow> 64 word list" where
  "map_order bs = map (\<lambda>i. u64_of_le (take 8 (drop (8 * i) bs))) [0..<length bs div 8]"

end
