(* ===== verification/OrderTrip.thy ===== *)
theory OrderTrip
  imports OrderLoad
begin

text \<open>
  Round trips of the training order: \<^verbatim>\<open>order.bin\<close> holds the references, eight little-endian bytes
  each, and the manifest \<^verbatim>\<open>build_training_order\<close> writes passes \<^verbatim>\<open>_load_order_manifest\<close>.
\<close>

section \<open>The order file\<close>

lemma length_u64_le [simp]: "length (u64_le w) = 8"
  by (simp add: u64_le_def)

lemma u64_bytes_nth: "i < 8 \<Longrightarrow> u64_le w ! i = ucast (drop_bit (8 * i) w)"
  by (simp add: u64_le_def)

lemma u64_bit:
  assumes "i < 8" and "j < 8"
  shows "bit (u64_le w ! i) j = bit w (8 * i + j)"
  using assms by (simp add: u64_bytes_nth bit_ucast_iff bit_drop_bit_eq)

text \<open>Reading from the last byte down shifts every byte to its place.\<close>

lemma u64_round_trip: "u64_of_le (u64_le w) = w"
proof (rule bit_word_eqI)
  fix n :: nat assume "n < LENGTH(64)"
  then have n: "n < 64" by simp
  have bs: "u64_le w = map (\<lambda>i. u64_le w ! i) [0..<8]"
    by (rule nth_equalityI) simp_all
  have ub: "bit (ucast (b :: byte) :: 64 word) k = (k < 8 \<and> bit b k)" for b k
    by (auto simp: bit_ucast_iff dest: bit_imp_le_length)
  let ?q = "n div 8" and ?r = "n mod 8"
  have nqr: "n = 8 * ?q + ?r" and r: "?r < 8" and q: "?q < 8" using n by auto
  have "bit (u64_of_le (u64_le w)) n = bit (u64_le w ! ?q) ?r"
  proof -
    have q8: "?q = 0 \<or> ?q = 1 \<or> ?q = 2 \<or> ?q = 3 \<or> ?q = 4 \<or> ?q = 5 \<or> ?q = 6 \<or> ?q = 7" using q by auto
    have up: "[0..<8] = [0, 1, 2, 3, 4, 5, 6, 7 :: nat]" by (simp add: upt_rec numeral_eq_Suc)
    have ex: "u64_of_le (u64_le w) = push_bit 8 (push_bit 8 (push_bit 8 (push_bit 8 (push_bit 8 (push_bit 8
       (push_bit 8 (push_bit 8 0 OR ucast (u64_le w ! 7)) OR ucast (u64_le w ! 6)) OR ucast (u64_le w ! 5))
       OR ucast (u64_le w ! 4)) OR ucast (u64_le w ! 3)) OR ucast (u64_le w ! 2)) OR ucast (u64_le w ! 1))
       OR ucast (u64_le w ! 0)"
      by (subst bs) (simp add: u64_of_le_def up)
    have all: "bit (u64_of_le (u64_le w)) (8 * j + m) = bit (u64_le w ! j) m"
      if "m < 8" "j \<in> {0, 1, 2, 3, 4, 5, 6, 7}" for j m :: nat
      using that(2) unfolding ex insert_iff empty_iff
      by (elim disjE FalseE; hypsubst) (use that(1) in \<open>auto simp: bit_or_iff bit_push_bit_iff ub\<close>)
    have "?q \<in> {0, 1, 2, 3, 4, 5, 6, 7}" using q8 by simp
    from all [OF r this] nqr show ?thesis by simp
  qed
  also have "\<dots> = bit w n" using u64_bit [OF q r] nqr by simp
  finally show "bit (u64_of_le (u64_le w)) n = bit w n" .
qed

lemma length_order_bytes [simp]: "length (order_bytes ws) = 8 * length ws"
  by (induction ws) (simp_all add: order_bytes_def)

lemma order_bytes_chunk:
  "i < length ws \<Longrightarrow> take 8 (drop (8 * i) (order_bytes ws)) = u64_le (ws ! i)"
proof (induction ws arbitrary: i)
  case (Cons w ws)
  then show ?case by (cases i) (simp_all add: order_bytes_def)
qed simp

lemma map_order_bytes: "map_order (order_bytes ws) = ws"
  unfolding map_order_def
  by (rule nth_equalityI) (simp_all add: order_bytes_chunk u64_round_trip)

section \<open>Per-domain dictionaries\<close>

lemma domain_order_distinct: "distinct domain_order" "length domain_order = 3"
  by (simp_all add: domain_order_def)

lemma per_domain_not_null [simp]: "per_domain f xs \<noteq> JNull"
  by (simp add: per_domain_def)

lemma jget_per_domain:
  assumes "length xs = length domain_order" and "k < length domain_order"
  shows "jget (per_domain f xs) (domain_order ! k) = f (xs ! k)"
proof -
  have "map_of (zip domain_order (map f xs)) (domain_order ! k) = Some (map f xs ! k)"
    using assms domain_order_distinct(1) by (intro map_of_zip_nth) simp_all
  then show ?thesis using assms by (simp add: per_domain_def jfield_def)
qed

lemma all_domains: "(\<forall>d\<in>set domain_order. P d) \<longleftrightarrow> (\<forall>k < length domain_order. P (domain_order ! k))"
  by (rule all_set_conv_all_nth)

lemma domain_dict_per_domain: "length xs = length domain_order \<Longrightarrow> domain_dict (per_domain f xs)"
  by (simp add: domain_dict_def per_domain_def)

lemma domain_ints_per_domain: "length xs = length domain_order \<Longrightarrow> domain_ints (per_domain JInt xs) = xs"
  unfolding domain_ints_def by (rule nth_equalityI) (simp_all add: jget_per_domain)

lemma domain_counts_per_domain:
  "length xs = length domain_order \<Longrightarrow> \<forall>x\<in>set xs. 0 \<le> x \<Longrightarrow> domain_counts (per_domain JInt xs)"
  by (simp add: domain_counts_def domain_dict_per_domain list_all_iff all_domains jget_per_domain
      nonnegative_int_def)

lemma eq_domains_per_domain: "length xs = length domain_order \<Longrightarrow> eq_domains (per_domain JInt xs) xs"
  unfolding eq_domains_def
  by (rule py_eq_refl)
    (use domain_order_distinct(1) in \<open>auto simp: per_domain_def list_all_iff dest!: set_zip_rightD\<close>)

lemma per_domain_nat:
  "per_domain jnat ns = per_domain JInt (map int ns)"
  "per_domain (\<lambda>n. jnat (n * T)) ns = per_domain JInt (map (\<lambda>n. n * int T) (map int ns))"
  "per_domain (\<lambda>n. JInt (n * i)) xs = per_domain JInt (map (\<lambda>n. n * i) xs)"
  by (simp_all add: per_domain_def o_def jnat_def [abs_def])

lemma eq_int_JInt [simp]: "eq_int (JInt i) j \<longleftrightarrow> i = j"
  by (simp add: eq_int_def)

lemma eq_int_jnat [simp]: "eq_int (jnat n) j \<longleftrightarrow> int n = j"
  by (simp add: jnat_def)

lemma is_close_refl [simp]: "is_close a a"
  by (simp add: is_close_def)

section \<open>The fields of the manifest\<close>

definition surplus_rows :: "order_plan \<Rightarrow> nat list" where
  "surplus_rows p = map (\<lambda>(a, s). a - s) (zip (o_available_rows p) (s_rows_per_domain (o_selection p)))"

lemma order_manifest_fields:
  fixes p :: order_plan
  defines "sel \<equiv> o_selection p" and "T \<equiv> o_sequence_length p" and "av \<equiv> o_available_rows p"
    and "asup \<equiv> map int (o_available_supervised p)" and "chosen \<equiv> o_supervised p"
  shows "jget (order_manifest e seed np files p) ''format'' = JStr ''global-packed-row-order''"
    "jget (order_manifest e seed np files p) ''format_version'' = JInt 4"
    "jget (order_manifest e seed np files p) ''reference_dtype'' = JStr ''<u8''"
    "jget (order_manifest e seed np files p) ''encoding'' = JObj [(''domain_bits'', JInt 8), (''row_bits'', JInt 56)]"
    "jget (order_manifest e seed np files p) ''domain_order'' = JList (map JStr domain_order)"
    "jget (order_manifest e seed np files p) ''rows_per_domain'' = per_domain jnat (s_rows_per_domain sel)"
    "jget (order_manifest e seed np files p) ''rows'' = jnat (s_total_rows sel)"
    "jget (order_manifest e seed np files p) ''packed_available_rows'' = jnat (sum_list av)"
    "jget (order_manifest e seed np files p) ''packed_available_rows_per_domain'' = per_domain jnat av"
    "jget (order_manifest e seed np files p) ''packed_available_input_tokens'' = jnat (sum_list av * T)"
    "jget (order_manifest e seed np files p) ''packed_available_input_tokens_per_domain''
       = per_domain (\<lambda>n. jnat (n * T)) av"
    "jget (order_manifest e seed np files p) ''packed_available_supervised_tokens'' = JInt (sum_list asup)"
    "jget (order_manifest e seed np files p) ''packed_available_supervised_tokens_per_domain'' = per_domain JInt asup"
    "jget (order_manifest e seed np files p) ''packed_surplus_rows'' = jnat (sum_list (surplus_rows p))"
    "jget (order_manifest e seed np files p) ''packed_surplus_rows_per_domain'' = per_domain jnat (surplus_rows p)"
    "jget (order_manifest e seed np files p) ''packed_surplus_input_tokens'' = jnat (sum_list (surplus_rows p) * T)"
    "jget (order_manifest e seed np files p) ''packed_surplus_input_tokens_per_domain''
       = per_domain (\<lambda>n. jnat (n * T)) (surplus_rows p)"
    "jget (order_manifest e seed np files p) ''packed_surplus_supervised_tokens'' = JInt (sum_list (sub_lists asup chosen))"
    "jget (order_manifest e seed np files p) ''packed_surplus_supervised_tokens_per_domain''
       = per_domain JInt (sub_lists asup chosen)"
    "jget (order_manifest e seed np files p) ''split'' = jget (hd (o_inputs p)) ''split''"
    "jget (order_manifest e seed np files p) ''sequence_length'' = jnat T"
    "jget (order_manifest e seed np files p) ''vocab_size'' = jget (hd (o_inputs p)) ''vocab_size''"
    "jget (order_manifest e seed np files p) ''eos_token_id'' = jget (hd (o_inputs p)) ''eos_token_id''"
    "jget (order_manifest e seed np files p) ''seed'' = JInt seed"
    "jget (order_manifest e seed np files p) ''rng'' = JStr ''numpy.random.PCG64''"
    "jget (order_manifest e seed np files p) ''numpy_version'' = JStr np"
    "jget (order_manifest e seed np files p) ''tokenizer_manifest_sha256''
       = jget (hd (o_inputs p)) ''tokenizer_manifest_sha256''"
    "jget (order_manifest e seed np files p) ''valid_loss_tokens_per_domain'' = per_domain JInt chosen"
    "jget (order_manifest e seed np files p) ''training_consumption'' = consumption_json p"
    "jget (order_manifest e seed np files p) ''input_token_budget'' = budget_json e p"
    "jget (order_manifest e seed np files p) ''expected_input_token_weights''
       = (case o_weights p of None \<Rightarrow> JNull | Some w \<Rightarrow> per_domain JFloat w)"
    "jget (order_manifest e seed np files p) ''dataset_manifests'' = JObj (zip domain_order
        (map (\<lambda>(path, sha). JObj [(''path'', JStr path), (''sha256'', JStr sha)]) files))"
    "jget (order_manifest e seed np files p) ''order'' = JObj [(''path'', JStr ''order.bin''),
        (''bytes'', jnat (8 * length (o_references p))), (''sha256'', JStr (sha256 (order_bytes (o_references p))))]"
    "is_jobj (order_manifest e seed np files p)"
  by (simp_all add: order_manifest_def Let_def jfield_def surplus_rows_def sel_def T_def av_def asup_def chosen_def)

lemma order_manifest_policy:
  "jget (order_manifest e seed np files p) ''seed_derivation'' = (if s_capped (o_selection p)
     then JStr ''sha256(seed-nul-namespace)-first-128-bits-big-endian'' else JNull)"
  "jget (order_manifest e seed np files p) ''shuffle'' = JStr (if s_capped (o_selection p)
     then ''independent-full-domain-permutations-select-prefix-then-global-uniform-permutation-without-replacement''
     else ''full-uniform-permutation-without-replacement'')"
  "jget (order_manifest e seed np files p) ''row_selection''
     = JStr (if s_capped (o_selection p) then ''strict-weighted-token-cap'' else ''all-packed-rows'')"
  by (simp_all add: order_manifest_def Let_def jfield_def)

lemma consumption_unfrozen_fields:
  fixes p :: order_plan
  assumes "o_consumption p = None"
  shows "jget (consumption_json p) ''policy'' = JStr ''runtime-training-geometry-not-frozen''"
    "jget (consumption_json p) ''frozen_global_microbatch_rows'' = JNull"
    "jget (consumption_json p) ''frozen_gradient_accumulation_steps'' = JNull"
    "jget (consumption_json p) ''frozen_optimizer_update_rows'' = JNull"
    "jitem (consumption_json p) ''frozen_optimizer_update_rows'' = Inr JNull"
    "list_all (\<lambda>k. jget (consumption_json p) k = JNull) nullable_fields"
  using assms by (simp_all add: consumption_json_def Let_def jfield_def nullable_fields_def jitem_def)

lemma consumption_common_fields:
  "is_jobj (consumption_json p)"
  "jget (consumption_json p) ''order_rows'' = jnat (s_total_rows (o_selection p))"
  "jget (consumption_json p) ''available_input_tokens'' = jnat (s_total_rows (o_selection p) * o_sequence_length p)"
  "jget (consumption_json p) ''available_supervised_tokens'' = JInt (sum_list (o_supervised p))"
  by (simp_all add: consumption_json_def Let_def jfield_def)

lemma consumption_frozen_fields:
  fixes p :: order_plan and u :: consumption
  assumes "o_consumption p = Some u"
  defines "T \<equiv> o_sequence_length p"
  shows "jget (consumption_json p) ''policy'' = JStr ''complete-frozen-optimizer-updates-no-padding''"
    "jget (consumption_json p) ''frozen_global_microbatch_rows'' = jnat (u_gmr u)"
    "jget (consumption_json p) ''frozen_gradient_accumulation_steps'' = jnat (u_ga u)"
    "jget (consumption_json p) ''frozen_optimizer_update_rows'' = jnat (u_update_rows u)"
    "jitem (consumption_json p) ''frozen_optimizer_update_rows'' = Inr (jnat (u_update_rows u))"
    "jget (consumption_json p) ''consumed_rows'' = jnat (u_rows u)"
    "jget (consumption_json p) ''dropped_tail_rows'' = jnat (u_dropped_rows u)"
    "jget (consumption_json p) ''available_global_microbatches'' = jnat (u_available_microbatches u)"
    "jget (consumption_json p) ''consumed_global_microbatches'' = jnat (u_consumed_microbatches u)"
    "jget (consumption_json p) ''dropped_global_microbatches'' = JInt (u_dropped_microbatches u)"
    "jget (consumption_json p) ''dropped_partial_microbatch_rows'' = jnat (u_dropped_partial_rows u)"
    "jget (consumption_json p) ''optimizer_updates'' = jnat (u_updates u)"
    "jget (consumption_json p) ''consumed_input_tokens'' = jnat (u_rows u * T)"
    "jget (consumption_json p) ''dropped_input_tokens'' = jnat (u_dropped_rows u * T)"
    "jget (consumption_json p) ''consumed_supervised_tokens'' = JInt (sum_list (u_supervised_per_domain u))"
    "jget (consumption_json p) ''dropped_supervised_tokens'' = JInt (sum_list (u_dropped_supervised_per_domain u))"
    "jget (consumption_json p) ''consumed_rows_per_domain'' = per_domain jnat (u_rows_per_domain u)"
    "jget (consumption_json p) ''consumed_input_tokens_per_domain''
       = per_domain (\<lambda>n. jnat (n * T)) (u_rows_per_domain u)"
    "jget (consumption_json p) ''consumed_supervised_tokens_per_domain'' = per_domain JInt (u_supervised_per_domain u)"
    "jget (consumption_json p) ''realized_consumed_input_token_weights''
       = per_domain (\<lambda>n. ratio_json (int (u_rows u)) (int n)) (u_rows_per_domain u)"
    "jget (consumption_json p) ''realized_consumed_supervised_token_weights''
       = per_domain (ratio_json (sum_list (u_supervised_per_domain u))) (u_supervised_per_domain u)"
    "jget (consumption_json p) ''dropped_rows_per_domain'' = per_domain JInt (u_dropped_rows_per_domain u)"
    "jget (consumption_json p) ''dropped_input_tokens_per_domain''
       = per_domain (\<lambda>n. JInt (n * int T)) (u_dropped_rows_per_domain u)"
    "jget (consumption_json p) ''dropped_supervised_tokens_per_domain''
       = per_domain JInt (u_dropped_supervised_per_domain u)"
  using assms(1) by (simp_all add: consumption_json_def Let_def jfield_def jitem_def T_def)

lemma budget_fields:
  "is_jobj (budget_json e p)"
  "jget (budget_json e p) ''policy'' = JStr ''packed_model_inputs_including_eos_excluding_lookahead_duplicates''"
  "jget (budget_json e p) ''direction'' = JStr ''at_or_below''"
  "jget (budget_json e p) ''expected_total'' = e"
  "jget (budget_json e p) ''actual_total'' = jnat (case o_consumption p of
     None \<Rightarrow> s_total_rows (o_selection p) * o_sequence_length p | Some u \<Rightarrow> u_rows u * o_sequence_length p)"
  "jget (budget_json e p) ''available_total'' = jnat (s_total_rows (o_selection p) * o_sequence_length p)"
  "jget (budget_json e p) ''packed_available_total'' = jnat (sum_list (o_available_rows p) * o_sequence_length p)"
  "jget (budget_json e p) ''packed_surplus_total'' = jnat ((sum_list (o_available_rows p) -
     sum_list (s_rows_per_domain (o_selection p))) * o_sequence_length p)"
  "jget (budget_json e p) ''accounting'' = JStr (case o_consumption p of
     None \<Rightarrow> ''available-order-inputs'' | Some _ \<Rightarrow> ''consumed-complete-optimizer-update-inputs'')"
  "jget (budget_json e p) ''delta'' = json_opt_int (s_delta (o_selection p))"
  "jget (budget_json e p) ''tolerance'' = s_tolerance (o_selection p)"
  by (simp_all add: budget_json_def Let_def jfield_def)

section \<open>The manifest loads\<close>

lemma jint_of_jnat [simp]: "jint_of (jnat n) = int n"
  by (simp add: jnat_def)

lemma is_jint_jnat [simp]: "is_jint (jnat n)"
  by (simp add: jnat_def)

lemma positive_int_jnat [simp]: "positive_int (jnat n) \<longleftrightarrow> 1 \<le> n"
  by (simp add: jnat_def positive_int_def)

lemma nonnegative_int_simps [simp]: "nonnegative_int (jnat n)" "nonnegative_int (JInt i) \<longleftrightarrow> 0 \<le> i"
  by (simp_all add: jnat_def nonnegative_int_def)

lemma jnat_not_null [simp]: "jnat n \<noteq> JNull"
  by (simp add: jnat_def)

lemma list_ex_zip3:
  assumes "length xs = n" "length ys = n" "length zs = n" and "\<And>k. k < n \<Longrightarrow> \<not> P (xs ! k, ys ! k, zs ! k)"
  shows "\<not> list_ex P (zip xs (zip ys zs))"
  using assms by (auto simp: list_ex_iff in_set_zip)

lemma sum_list_int: "sum_list (map int xs) = int (sum_list xs)"
  by (induction xs) simp_all

lemma sum_list_mult: "sum_list (map (\<lambda>n. n * i) xs) = sum_list xs * (i :: int)"
  by (induction xs) (simp_all add: algebra_simps)

lemma surplus_rows_facts:
  assumes p: "plan_training_order shuffle manifests seed weights expected tol gmr ga = Inr p"
  shows "length (surplus_rows p) = length domain_order"
    and "\<And>k. k < length domain_order \<Longrightarrow> o_available_rows p ! k
       = s_rows_per_domain (o_selection p) ! k + surplus_rows p ! k"
    and "sum_list (o_available_rows p) = s_total_rows (o_selection p) + sum_list (surplus_rows p)"
proof -
  note r = plan_rows [OF p]
  show len: "length (surplus_rows p) = length domain_order" using r(1,2) by (simp add: surplus_rows_def)
  show nth: "o_available_rows p ! k = s_rows_per_domain (o_selection p) ! k + surplus_rows p ! k"
    if "k < length domain_order" for k using r(1,2,4) that by (simp add: surplus_rows_def)
  have "(\<Sum>k<length domain_order. o_available_rows p ! k)
      = (\<Sum>k<length domain_order. s_rows_per_domain (o_selection p) ! k + surplus_rows p ! k)"
    by (rule sum.cong) (simp_all add: nth)
  then show "sum_list (o_available_rows p) = s_total_rows (o_selection p) + sum_list (surplus_rows p)"
    unfolding r(3) [symmetric] using r(1,2) len
    by (simp add: sum_list_sum_nth atLeast0LessThan sum.distrib)
qed

lemma order_rows_built:
  assumes p: "plan_training_order shuffle manifests seed weights expected tol gmr ga = Inr p"
  shows "order_rows (order_manifest e seed np files p) = Inr ()"
proof -
  note r = plan_rows [OF p] and s = surplus_rows_facts [OF p] and f = order_manifest_fields
  have "\<not> list_ex (\<lambda>(a, s, u). a \<noteq> s + u) (zip (map int (o_available_rows p))
      (zip (map int (s_rows_per_domain (o_selection p))) (map int (surplus_rows p))))"
    using r(1,2) s(1,2) by (intro list_ex_zip3 [where n = "length domain_order"]) simp_all
  then show ?thesis
    using r(1,2,3) s(1,3)
    by (simp add: order_rows_def Let_def f per_domain_nat domain_dict_per_domain domain_counts_per_domain
        domain_ints_per_domain eq_domains_per_domain sum_list_int sum_list_mult del: map_map)
qed

lemma order_supervised_built:
  assumes p: "plan_training_order shuffle manifests seed weights expected tol gmr ga = Inr p"
    and cs: "packed_corpora manifests cs" and perm: "permutes_rows shuffle"
  shows "order_supervised (order_manifest e seed np files p) = Inr ()"
proof -
  note f = order_manifest_fields
  let ?a = "map int (o_available_supervised p)" and ?c = "o_supervised p"
  have lens: "length ?a = length domain_order" "length ?c = length domain_order"
    using cs by (simp_all add: plan_packed(4) [OF p cs] plan_supervised_direct(1) [OF p cs perm] packed_corpora_def)
  have c0: "\<forall>x\<in>set ?c. 0 \<le> x" by (simp add: plan_supervised_direct(1) [OF p cs perm])
  from plan_success [OF p] have "selected_supervised manifests (o_sequence_length p) (o_selection p)
       (o_available_rows p) (o_available_supervised p) (o_references p) (o_surplus p) = Inr ?c" by blast
  then have s0: "\<forall>x\<in>set (sub_lists ?a ?c). 0 \<le> x"
    by (auto simp: selected_supervised_def Let_def res_simps list_ex_iff not_less split: if_splits)
  have "\<not> list_ex (\<lambda>(a, v, u). a \<noteq> v + u) (zip ?a (zip ?c (sub_lists ?a ?c)))"
    using lens by (intro list_ex_zip3 [where n = "length domain_order"]) (simp_all add: nth_sub_lists)
  then show ?thesis
    using lens c0 s0
    by (simp add: order_supervised_def Let_def f domain_counts_per_domain domain_ints_per_domain)
qed

lemma ratio_float:
  "float_of (ratio_json whole v) = Inr (if whole = 0 then 0 else py_div (of_int v) (of_int whole))"
  by (simp add: ratio_json_def float_of_def)

lemma order_frozen_built:
  assumes p: "plan_training_order shuffle manifests seed weights expected tol gmr ga = Inr p"
    and cs: "packed_corpora manifests cs" and perm: "permutes_rows shuffle" and u: "o_consumption p = Some u"
  shows "order_frozen (order_manifest e seed np files p) (consumption_json p) = Inr ()"
proof -
  note m = order_manifest_fields and c = consumption_frozen_fields [OF u] and r = plan_rows [OF p]
  note pu = plan_consumption_domains [OF p perm u]
  note g = consumption_geometry [OF pu(4,1,2)] and f = consumption_fields [OF pu(4)]
  let ?N = "s_total_rows (o_selection p)" and ?T = "o_sequence_length p" and ?n = "length domain_order"
  let ?cr = "u_rows_per_domain u" and ?dr = "u_dropped_rows_per_domain u"
  let ?csu = "u_supervised_per_domain u" and ?dsu = "u_dropped_supervised_per_domain u"
  have lens: "length ?cr = ?n" "length ?dr = ?n" using r(2) by (simp_all add: f(12,13))
  have d1: "?csu = map (\<lambda>k. int (supervised_in cs (take (u_rows u) (o_references p)) k)) [0..<?n]"
    by (rule plan_consumed_direct(1) [OF p cs perm u])
  have sup: "o_supervised p = map (\<lambda>k. int (supervised_in cs (o_references p) k)) [0..<?n]"
    by (rule plan_supervised_direct(1) [OF p cs perm])
  then have lsup: "length (o_supervised p) = ?n" by simp
  from f(14) obtain dropped where dd: "?dsu = map int dropped" "?csu = sub_lists (o_supervised p) ?dsu" by auto
  have "list_all (row_in cs) (drop (u_rows u) (o_references p))"
    using plan_rows_in [OF p cs perm] by (auto simp: list_all_iff dest: in_set_dropD)
  from f(14) count_supervised_rows [OF cs this plan_packed(2) [OF p cs]]
  have d2: "?dsu = map (\<lambda>k. int (supervised_in cs (drop (u_rows u) (o_references p)) k)) [0..<?n]" by auto
  have l2: "length ?csu = ?n" "length ?dsu = ?n" by (simp_all add: d1 d2)
  have pos: "\<forall>x\<in>set ?csu. 0 \<le> x" "\<forall>x\<in>set ?dsu. 0 \<le> x" by (simp_all add: d1 d2)
  have split: "o_supervised p ! k = ?csu ! k + ?dsu ! k" if "k < ?n" for k
    using that l2 unfolding dd(2) by (simp add: nth_sub_lists sup)
  have total: "sum_list (o_supervised p) = sum_list ?csu + sum_list ?dsu"
  proof -
    have "o_supervised p = map (\<lambda>k. ?csu ! k + ?dsu ! k) [0..<?n]"
      using split by (intro nth_equality_upt) (simp_all add: sup)
    then have "sum_list (o_supervised p) = (\<Sum>k<?n. ?csu ! k + ?dsu ! k)"
      by (simp add: interv_sum_list_conv_sum_set_nat atLeast0LessThan)
    then show ?thesis using l2 by (simp add: sum.distrib sum_list_sum_nth atLeast0LessThan)
  qed
  have cap: "?cr ! k \<le> s_rows_per_domain (o_selection p) ! k" if "k < ?n" for k
  proof -
    have "?cr ! k = length (filter (\<lambda>w. fst (decode_reference w) = k) (take (u_rows u) (o_references p)))"
      using that by (simp add: f(12))
    also have "\<dots> \<le> length (filter (\<lambda>w. fst (decode_reference w) = k) (o_references p))"
      by (metis append_take_drop_id filter_append le_add1 length_append)
    finally show ?thesis using plan_domain_counts [OF p perm that] by simp
  qed
  have drop_nth: "?dr ! k = int (s_rows_per_domain (o_selection p) ! k) - int (?cr ! k)" if "k < ?n" for k
    using that r(2) by (simp add: f(13) nth_sub_lists lens)
  have urows: "u_rows u \<noteq> 0" using f(5,6) pu(1,2) by simp
  have dom: "frozen_domain (order_manifest e seed np files p) (consumption_json p) (int (u_rows u))
      (sum_list ?csu) (domain_order ! k) = Inr ()" if k: "k < ?n" for k
  proof -
    have nonneg: "0 \<le> ?csu ! k" "0 \<le> ?dsu ! k" using pos l2 k by simp_all
    show ?thesis
      using lens l2 r(2) k cap [OF k] nonneg urows
      by (simp add: frozen_domain_def Let_def c m jget_per_domain drop_nth [OF k] split [OF k] ratio_float
          lsup jnat_def)
  qed
  have doms: "mapM (frozen_domain (order_manifest e seed np files p) (consumption_json p) (int (u_rows u))
      (sum_list ?csu)) domain_order = Inr (map (\<lambda>_. ()) domain_order)"
    using dom by (intro mapM_Inr_map) (auto simp: in_set_conv_nth)
  have int_rows: "int ?N div (int (u_gmr u) * int (u_ga u)) = int (u_updates u)"
    "int (u_updates u) * (int (u_gmr u) * int (u_ga u)) = int (u_rows u)"
    unfolding f(4,6) by (simp_all add: zdiv_int)
  have dm: "int (u_dropped_rows u) = int ?N - int (u_rows u)" using g(1) by linarith
  have scal: "\<not> list_ex (\<lambda>(k, v). \<not> eq_int (jget (consumption_json p) k) v)
      (frozen_scalars (int ?N) (int ?T) (int (u_gmr u)) (int (u_ga u)))"
    by (simp add: frozen_scalars_def Let_def c int_rows f(8,9,10,11) zdiv_int zmod_int dm)
  have maps: "list_all (\<lambda>k. domain_dict (jget (consumption_json p) k)) consumption_maps"
    using lens l2 by (simp add: consumption_maps_def c domain_dict_per_domain)
  have sums: "sum_list (map int ?cr) = int (u_rows u)"
    using pu(5) by (simp add: sum_list_int)
  have s0: "0 \<le> sum_list ?csu" "0 \<le> sum_list ?dsu" using pos by (auto intro!: sum_list_nonneg)
  show ?thesis
    unfolding order_frozen_def Let_def c m jint_of_jnat jint_of.simps per_domain_nat(1) int_rows
    using pu(1,2) f(3,5) scal maps s0 total doms sums lens l2
    by (simp add: domain_ints_per_domain lsup)
qed

lemma order_consumption_built:
  assumes p: "plan_training_order shuffle manifests seed weights expected tol gmr ga = Inr p"
    and cs: "packed_corpora manifests cs" and perm: "permutes_rows shuffle"
  shows "order_consumption (order_manifest e seed np files p) = Inr ()"
proof -
  note m = order_manifest_fields and cc = consumption_common_fields [of p]
  have sup: "length (o_supervised p) = length domain_order"
    by (simp add: plan_supervised_direct(1) [OF p cs perm])
  show ?thesis
  proof (cases "o_consumption p")
    case None
    note c = consumption_unfrozen_fields [OF None]
    have n: "\<not> list_ex (\<lambda>k. jget (consumption_json p) k \<noteq> JNull) nullable_fields"
      using c(6) by (auto simp: list_ex_iff list_all_iff)
    then have "order_unfrozen (consumption_json p) = Inr ()"
      by (simp only: order_unfrozen_def c py_eq_JStr simp_thms if_False)
    then show ?thesis
      unfolding order_consumption_def Let_def m c
      using sup by (simp add: cc domain_ints_per_domain)
  next
    case (Some u)
    note c = consumption_frozen_fields [OF Some]
    show ?thesis
      unfolding order_consumption_def Let_def m c
      using sup by (simp add: cc domain_ints_per_domain order_frozen_built [OF p cs perm Some])
  qed
qed

section \<open>Budget and header\<close>

lemma select_capped_strict:
  assumes "select_capped available T (Some w) expected tol update_rows = Inr sel"
  shows "strict_weighted_row_counts (int (s_total_rows sel)) w = Inr (s_rows_per_domain sel)"
    and "tol \<noteq> JNull \<Longrightarrow> s_tolerance sel = tol" "tol = JNull \<Longrightarrow> is_jint (s_tolerance sel)"
    and "int_like (s_tolerance sel)" "0 \<le> jint_of (s_tolerance sel)"
  using assms by (auto simp: select_capped_def Let_def res_simps int_like_def split: if_splits)

lemma select_all_budget:
  assumes "select_all available weights tol = Inr sel"
  shows "s_delta sel = None" "s_tolerance sel = JNull"
  using assms by (auto simp: select_all_def res_simps)

lemma int_cap_rows:
  "int (cap_rows target T update_rows) = (case update_rows of None \<Rightarrow> int target div int T
     | Some u \<Rightarrow> int target div int T div int u * int u)"
  by (simp add: cap_rows_def zdiv_int split: option.split)

text \<open>A frozen order with a cap drops nothing.\<close>

lemma capped_consumes_all:
  assumes p: "plan_training_order shuffle manifests seed weights expected tol gmr ga = Inr p"
    and perm: "permutes_rows shuffle" and e: "expected \<noteq> JNull" and u: "o_consumption p = Some u"
  shows "u_rows u = s_total_rows (o_selection p)"
proof -
  note pu = plan_consumption_domains [OF p perm u]
  note f = consumption_fields [OF pu(4)]
  have "s_total_rows (o_selection p) = nat (jint_of expected) div o_sequence_length p
      div (u_gmr u * u_ga u) * (u_gmr u * u_ga u)"
    using plan_cap(1) [OF p e] by (simp add: pu(3) cap_rows_def)
  then show ?thesis by (simp add: f(4,6))
qed

lemma json_weights_per_domain:
  "length w = length domain_order \<Longrightarrow>
     json_weights (per_domain JFloat w) = normalize_domain_weights (zip domain_order w)"
proof -
  assume len: "length w = length domain_order"
  have "mapM (\<lambda>d. float_of (jget (per_domain JFloat w) d)) domain_order = Inr w"
  proof -
    have "mapM (\<lambda>d. float_of (jget (per_domain JFloat w) d)) domain_order
        = Inr (map (\<lambda>d. the (map_of (zip domain_order w) d)) domain_order)"
    proof (rule mapM_Inr_map)
      fix d assume "d \<in> set domain_order"
      then obtain k where k: "k < length domain_order" "d = domain_order ! k" by (auto simp: in_set_conv_nth)
      have "map_of (zip domain_order w) d = Some (w ! k)"
        unfolding k(2) using len k(1) domain_order_distinct(1) by (intro map_of_zip_nth) simp_all
      then show "float_of (jget (per_domain JFloat w) d) = Inr (the (map_of (zip domain_order w) d))"
        using len k by (simp add: jget_per_domain float_of_def)
    qed
    also have "map (\<lambda>d. the (map_of (zip domain_order w) d)) domain_order = w"
      using len domain_order_distinct(1) by (intro nth_equalityI) (simp_all add: map_of_zip_nth)
    finally show ?thesis .
  qed
  with len show ?thesis by (simp add: json_weights_def per_domain_def)
qed

lemma order_budget_built:
  assumes p: "plan_training_order shuffle manifests seed weights expected tol gmr ga = Inr p"
    and perm: "permutes_rows shuffle" and tol: "\<not> is_jbool tol"
    and stable: "\<And>w. expected \<noteq> JNull \<Longrightarrow> o_weights p = Some w \<Longrightarrow>
       normalize_domain_weights (zip domain_order w) = Inr w"
  shows "order_budget (order_manifest expected seed np files p) = Inr ()"
proof -
  note m = order_manifest_fields and b = budget_fields [of expected p] and r = plan_rows [OF p]
  note s = surplus_rows_facts [OF p]
  let ?N = "s_total_rows (o_selection p)" and ?T = "o_sequence_length p" and ?c = "consumption_json p"
  have av: "sum_list (map (\<lambda>n. n * int ?T) (domain_ints (per_domain jnat xs))) = int (sum_list xs * ?T)"
    if "length xs = length domain_order" for xs
    using that by (simp add: per_domain_nat domain_ints_per_domain sum_list_int sum_list_mult del: map_map)
  have diff: "sum_list (o_available_rows p) - sum_list (s_rows_per_domain (o_selection p)) = sum_list (surplus_rows p)"
    using s(3) r(3) by simp
  define acc where "acc = (case o_consumption p of None \<Rightarrow> ?N * ?T | Some u \<Rightarrow> u_rows u * ?T)"
  have act: "jget (budget_json expected p) ''actual_total'' = jnat acc" by (simp only: b(5) acc_def)
  have frozen: "(jget ?c ''frozen_global_microbatch_rows'' = JNull) = (o_consumption p = None)"
    by (cases "o_consumption p") (simp_all add: consumption_unfrozen_fields consumption_frozen_fields)
  have acc: "(if o_consumption p = None then int ?N * int ?T
      else int ?N div (jint_of (jget ?c ''frozen_global_microbatch_rows'') *
             jint_of (jget ?c ''frozen_gradient_accumulation_steps'')) *
        (jint_of (jget ?c ''frozen_global_microbatch_rows'') *
             jint_of (jget ?c ''frozen_gradient_accumulation_steps'')) * int ?T) = int acc"
  proof (cases "o_consumption p")
    case (Some u)
    note f = consumption_fields [OF plan_consumption_domains(4) [OF p perm Some]]
    show ?thesis using Some by (simp add: acc_def consumption_frozen_fields [OF Some] f(4,6) zdiv_int)
  qed (simp add: acc_def consumption_unfrozen_fields)
  show ?thesis
  proof (cases "expected = JNull")
    case True
    from plan_success [OF p] True have sel: "select_all (o_available_rows p) (o_weights p) tol = Inr (o_selection p)"
      by (elim conjE) simp
    note n = select_all_budget [OF sel] select_all_facts(1) [OF sel]
    have "sum_list (surplus_rows p) = 0" using s(3) select_all_facts(3) [OF sel] by simp
    moreover from this have "sum_list (domain_ints (per_domain jnat (surplus_rows p))) = 0"
      using s(1) by (simp add: per_domain_nat domain_ints_per_domain sum_list_int)
    ultimately show ?thesis
      unfolding order_budget_def Let_def m b jint_of_jnat acc frozen order_manifest_policy
      by (cases "o_consumption p")
        (simp_all add: av [OF r(1)] av [OF s(1)] diff True n json_opt_int_def acc_def budget_fields(1))
  next
    case False
    from plan_success [OF p] have w: "(case weights of None \<Rightarrow> Inr None
        | Some w \<Rightarrow> rbind (normalize_domain_weights w) (\<lambda>v. Inr (Some v))) = Inr (o_weights p)"
      and "(if expected \<noteq> JNull
      then select_capped (o_available_rows p) ?T (o_weights p) expected tol (frozen_update_rows gmr ga)
      else select_all (o_available_rows p) (o_weights p) tol) = Inr (o_selection p)" by blast+
    with False have sel: "select_capped (o_available_rows p) ?T (o_weights p) expected tol
      (frozen_update_rows gmr ga) = Inr (o_selection p)" by simp
    from select_capped_weights [OF this] obtain v where v: "o_weights p = Some v" .
    from w obtain ws where ws: "normalize_domain_weights ws = Inr v" unfolding v by (rule plan_weights_Some)
    note f = select_capped_facts [OF sel v ws r(1)]
    note g = select_capped_strict [OF sel [unfolded v]]
    have cap: "s_capped (o_selection p)" by (rule f)
    have tolok: "nonnegative_int (s_tolerance (o_selection p))"
      using g(2-5) tol by (cases "tol = JNull") (auto simp: nonnegative_int_def int_like_def)
    have lenv: "length v = length domain_order" by (rule normalize_weights_ok(1) [OF ws])
    have e: "int (nat (jint_of expected)) = jint_of expected" "positive_int expected"
      using f(1) by (auto simp: positive_int_def)
    have accN: "acc = ?N * ?T"
      using capped_consumes_all [OF p perm False] by (cases "o_consumption p") (simp_all add: acc_def)
    have upd: "jitem ?c ''frozen_optimizer_update_rows'' = Inr (case frozen_update_rows gmr ga of
        None \<Rightarrow> JNull | Some q \<Rightarrow> jnat q)"
    proof (cases "o_consumption p")
      case None
      with plan_success [OF p] have "gmr = JNull" by (auto simp: res_simps split: if_splits)
      then show ?thesis by (simp add: frozen_update_rows_def consumption_unfrozen_fields [OF None])
    next
      case (Some u)
      note pu = plan_consumption_domains [OF p perm Some]
      show ?thesis by (simp add: pu(3) consumption_frozen_fields [OF Some] consumption_fields(3) [OF pu(4)])
    qed
    have selected: "(if (case frozen_update_rows gmr ga of None \<Rightarrow> JNull | Some q \<Rightarrow> jnat q) = JNull
        then jint_of expected div int ?T
        else jint_of expected div int ?T div int (nat \<lfloor>the (jnum (case frozen_update_rows gmr ga of
            None \<Rightarrow> JNull | Some q \<Rightarrow> jnat q))\<rfloor>) *
          int (nat \<lfloor>the (jnum (case frozen_update_rows gmr ga of None \<Rightarrow> JNull | Some q \<Rightarrow> jnat q))\<rfloor>)) = int ?N"
      unfolding f(3) int_cap_rows e(1) by (simp add: jnat_def split: option.split)
    have like: "\<not> ((case frozen_update_rows gmr ga of None \<Rightarrow> JNull | Some q \<Rightarrow> jnat q) \<noteq> JNull \<and>
        \<not> int_like (case frozen_update_rows gmr ga of None \<Rightarrow> JNull | Some q \<Rightarrow> jnat q))"
      by (simp add: int_like_def split: option.split)
    have target: "targeted_budget (order_manifest expected seed np files p) ?c (budget_json expected p) (int acc) = Inr ()"
      unfolding targeted_budget_def Let_def m b jint_of_jnat order_manifest_policy v option.case upd rbind_Inr
        selected json_weights_per_domain [OF lenv] stable [OF False v] accN
      using f(10,11) r(2)
      by (simp add: cap e(2) tolok like g(1) f(9) json_opt_int_def per_domain_nat domain_ints_per_domain
          per_domain_not_null)
    show ?thesis
      unfolding order_budget_def Let_def m b(2-4,6-11) act jint_of_jnat acc frozen order_manifest_policy
      using False by (cases "o_consumption p")
        (simp_all add: av [OF r(1)] av [OF s(1)] diff target b(1))
  qed
qed

lemma order_header_built:
  assumes p: "plan_training_order shuffle manifests seed weights expected tol gmr ga = Inr p"
    and cs: "packed_corpora manifests cs" and np: "np \<noteq> []" and seed: "0 \<le> seed"
  shows "order_header (order_manifest expected seed np files p) = Inr ()"
proof -
  obtain c docs cursor where x: "cs ! 0 = (c, docs, cursor)" by (cases "cs ! 0")
  have "cs \<noteq> []" using cs by (auto simp: packed_corpora_def domain_order_def)
  then have hd: "hd (o_inputs p) = packed_manifest c docs cursor"
    by (simp add: plan_packed(1) [OF p cs] hd_map hd_conv_nth x)
  have "0 < length domain_order" by (simp add: domain_order_def)
  then have "corpus_ok (manifests (domain_order ! 0)) (domain_order ! 0) (cs ! 0)"
    using cs unfolding packed_corpora_def by blast
  then have ok: "wf_config c" "docs_ok (c_vocab_size c) docs" "cursor_ok cursor"
    "map_of (manifests (domain_order ! 0)) = map_of (packed_dir c docs cursor)" by (simp_all add: x)
  note g = packed_load [OF ok]
  have T: "o_sequence_length p = c_sequence_length c" by (simp add: plan_packed(2) [OF p cs] x)
  have "1 \<le> s_total_rows (o_selection p)"
  proof (cases "expected = JNull")
    case True
    with plan_success [OF p] have "select_all (o_available_rows p) (o_weights p) tol = Inr (o_selection p)"
      "1 \<le> sum_list (o_available_rows p)" by (elim conjE; simp)+
    then show ?thesis using select_all_facts(3) by metis
  qed (rule plan_cap(2) [OF p])
  then show ?thesis
    using ok(1) np seed
    by (simp add: order_header_def Let_def order_manifest_fields order_manifest_policy hd g T order_numpy_def
        int_like_def nonnegative_int_def wf_config_def is_jint_jnat py_eq_refl domain_order_def)
qed

definition dataset_files_ok :: "(string \<times> string) list \<Rightarrow> bool" where
  "dataset_files_ok files \<longleftrightarrow> length files = length domain_order \<and>
     (\<forall>(path, sha)\<in>set files. path \<noteq> [] \<and> is_sha256 sha)"

lemma order_datasets_built:
  assumes "dataset_files_ok files"
  shows "order_datasets (order_manifest e seed np files p) = Inr ()"
proof -
  let ?f = "\<lambda>(path, sha). JObj [(''path'', JStr path), (''sha256'', JStr sha)]"
  have d: "jget (order_manifest e seed np files p) ''dataset_manifests'' = per_domain ?f files"
    by (simp add: order_manifest_fields per_domain_def)
  have len: "length files = length domain_order" using assms by (simp add: dataset_files_ok_def)
  have "order_dataset (order_manifest e seed np files p) (domain_order ! k) = Inr ()"
    if k: "k < length domain_order" for k
  proof -
    obtain path sha where ps: "files ! k = (path, sha)" by (cases "files ! k")
    then have "path \<noteq> []" "is_sha256 sha"
      using assms k nth_mem [of k files] by (auto simp: dataset_files_ok_def)
    then show ?thesis
      by (simp add: order_dataset_def d jget_per_domain [OF len k] ps jfield_def)
  qed
  then have "mapM (order_dataset (order_manifest e seed np files p)) domain_order = Inr (map (\<lambda>_. ()) domain_order)"
    by (intro mapM_Inr_map) (auto simp: in_set_conv_nth)
  then show ?thesis by (simp add: order_datasets_def d domain_dict_per_domain len)
qed

section \<open>Built orders load\<close>

lemma built_order_files:
  assumes "build_training_order shuffle np files manifests output seed weights expected tol gmr ga = Inr (m, out)"
  obtains p where "plan_training_order shuffle (\<lambda>domain. the (map_of manifests domain)) seed weights
      expected tol gmr ga = Inr p"
    and "m = order_manifest expected seed np files p"
    and "out = [(order_name, Bytes (order_bytes (o_references p))), (manifest_name, JsonFile m)]"
    and "set (map fst manifests) = set domain_order"
  using assms by (auto simp: build_training_order_def Let_def res_simps order_name_def order_part_name_def
      manifest_name_def)

lemma built_order_loads:
  assumes b: "build_training_order shuffle np files manifests output seed weights expected tol gmr ga = Inr (m, out)"
    and cs: "packed_corpora (\<lambda>domain. the (map_of manifests domain)) cs" and perm: "permutes_rows shuffle"
    and np: "np \<noteq> []" and files: "dataset_files_ok files" and seed: "0 \<le> seed" and tol: "\<not> is_jbool tol"
    and stable: "\<And>ws w. expected \<noteq> JNull \<Longrightarrow> weights = Some ws \<Longrightarrow> normalize_domain_weights ws = Inr w \<Longrightarrow>
       normalize_domain_weights (zip domain_order w) = Inr w"
  shows "\<exists>p. plan_training_order shuffle (\<lambda>domain. the (map_of manifests domain)) seed weights
      expected tol gmr ga = Inr p \<and> load_order_manifest verify out = Inr (m, order_bytes (o_references p)) \<and>
     map_order (order_bytes (o_references p)) = o_references p"
proof -
  from b obtain p where p: "plan_training_order shuffle (\<lambda>domain. the (map_of manifests domain)) seed weights
      expected tol gmr ga = Inr p" and m: "m = order_manifest expected seed np files p"
    and out: "out = [(order_name, Bytes (order_bytes (o_references p))), (manifest_name, JsonFile m)]"
    by (rule built_order_files)
  have stable': "normalize_domain_weights (zip domain_order w) = Inr w"
    if e: "expected \<noteq> JNull" and v: "o_weights p = Some w" for w
  proof -
    from plan_success [OF p] have "(case weights of None \<Rightarrow> Inr None
        | Some w \<Rightarrow> rbind (normalize_domain_weights w) (\<lambda>v. Inr (Some v))) = Inr (o_weights p)" by blast
    then obtain ws where "weights = Some ws" "normalize_domain_weights ws = Inr w"
      unfolding v by (rule plan_weights_Some)
    with stable e show ?thesis by blast
  qed
  have "load_json out manifest_name = Inr m"
    by (simp add: load_json_def out m order_manifest_fields order_name_def manifest_name_def)
  moreover have "order_payload verify out m = Inr (order_bytes (o_references p))"
  proof -
    have "file_bytes out order_name = order_bytes (o_references p)"
      "sized_file out order_name (8 * s_total_rows (o_selection p))"
      using plan_references_length [OF p perm] by (simp_all add: out file_bytes_def sized_file_def)
    then show ?thesis
      using plan_references_length [OF p perm]
      by (simp add: order_payload_def Let_def m order_manifest_fields jfield_def is_sha256_sha256)
        (simp add: order_name_def)
  qed
  ultimately have "load_order_manifest verify out = Inr (m, order_bytes (o_references p))"
    by (simp add: load_order_manifest_def m order_header_built [OF p cs np seed] order_rows_built [OF p]
        order_datasets_built [OF files] order_supervised_built [OF p cs perm]
        order_consumption_built [OF p cs perm] order_budget_built [OF p perm tol stable'])
  with p map_order_bytes show ?thesis by blast
qed

end
