(* ===== verification/Sampler.thy ===== *)
theory Sampler
  imports OrderTrip
begin

text \<open>
  \<^verbatim>\<open>DistributedBatchSampler\<close> of \<^verbatim>\<open>pretrain/data.py\<close> and the geometries read off an order
  manifest. A sampler is built from what \<^verbatim>\<open>_load_order_manifest\<close> returned; the digest of the
  manifest file comes from outside, as the directory model keeps parsed JSON and not its bytes.
  A generator that is iterated to its end is the list of its batches.
\<close>

section \<open>Geometry\<close>

text \<open>An integer the loader has compared with one (\<^verbatim>\<open>==\<close>, so an integral float passes).\<close>

definition jnum_nat :: "json \<Rightarrow> nat" where
  "jnum_nat v = (case jnum v of None \<Rightarrow> 0 | Some r \<Rightarrow> nat \<lfloor>r\<rfloor>)"

definition geometry_keys :: "(string \<times> string) list" where
  "geometry_keys = [(''global_microbatch_rows'', ''frozen_global_microbatch_rows''),
     (''gradient_accumulation_steps'', ''frozen_gradient_accumulation_steps''),
     (''optimizer_update_rows'', ''frozen_optimizer_update_rows''),
     (''optimizer_updates'', ''optimizer_updates''),
     (''consumed_global_microbatches'', ''consumed_global_microbatches'')]"

definition geometry_tail :: "(string \<times> string) list" where
  "geometry_tail = [(''consumed_rows'', ''consumed_rows''), (''dropped_rows'', ''dropped_tail_rows''),
     (''consumed_input_tokens'', ''consumed_input_tokens''),
     (''dropped_input_tokens'', ''dropped_input_tokens''),
     (''consumed_supervised_tokens'', ''consumed_supervised_tokens''),
     (''dropped_supervised_tokens'', ''dropped_supervised_tokens''),
     (''consumed_input_tokens_per_domain'', ''consumed_input_tokens_per_domain''),
     (''consumed_supervised_tokens_per_domain'', ''consumed_supervised_tokens_per_domain'')]"

definition frozen_training_geometry :: "json \<Rightarrow> json res" where
  "frozen_training_geometry m =
     (let c = jget m ''training_consumption''; item = map (\<lambda>(k, f). (k, jget c f)) in
      if jget c ''frozen_global_microbatch_rows'' = JNull \<or> jget c ''frozen_gradient_accumulation_steps'' = JNull
      then Inl (ValueError ''Training order has no frozen optimizer-update geometry'')
      else Inr (JObj (item geometry_keys @ [(''sequence_length'', jget m ''sequence_length'')] @
             item geometry_tail)))"

definition evaluation_order_geometry :: "json \<Rightarrow> json \<Rightarrow> json res" where
  "evaluation_order_geometry m global_microbatch_rows =
     (let rows = jint_of (jget m ''rows''); T = jint_of (jget m ''sequence_length'');
          gmr = jint_of global_microbatch_rows; batches = rows div gmr; consumed = batches * gmr in
      if \<not> positive_int global_microbatch_rows
      then Inl (ValueError ''global_microbatch_rows must be a positive integer'')
      else if jget m ''split'' \<notin> {JStr ''validation'', JStr ''test''}
      then Inl (ValueError ''Evaluation order must identify validation or test split'')
      else if jget (jget m ''training_consumption'') ''frozen_global_microbatch_rows'' \<noteq> JNull
      then Inl (ValueError ''Held-out evaluation order unexpectedly freezes optimizer geometry'')
      else if batches < 1
      then Inl (ValueError ''Evaluation order is smaller than one global microbatch'')
      else Inr (JObj [
        (''split'', jget m ''split''), (''global_microbatch_rows'', global_microbatch_rows),
        (''available_rows'', JInt rows), (''consumed_rows'', JInt consumed),
        (''dropped_tail_rows'', JInt (rows - consumed)), (''available_global_microbatches'', JInt batches),
        (''sequence_length'', JInt T), (''consumed_input_tokens'', JInt (consumed * T)),
        (''dropped_input_tokens'', JInt ((rows - consumed) * T)), (''vocab_size'', jget m ''vocab_size''),
        (''tokenizer_manifest_sha256'', jget m ''tokenizer_manifest_sha256'')]))"

section \<open>State\<close>

record sampler =
  sm_order :: "64 word list"
  sm_rows :: nat
  sm_sequence_length :: int
  sm_gmr :: nat
  sm_ga :: nat
  sm_rank :: nat
  sm_world :: nat
  sm_start :: nat
  sm_geometry :: "json option"
  sm_update_rows :: nat
  sm_local_batch :: nat
  sm_total_updates :: nat
  sm_total_microbatches :: nat
  sm_trainable_rows :: nat
  sm_dropped_rows :: int
  sm_manifest_sha256 :: string
  sm_payload_sha256 :: json
  sm_dataset_sha256 :: json
  sm_tokenizer_sha256 :: json
  sm_iteration_started :: bool

section \<open>The resume cursor\<close>

definition state_keys :: "string list" where
  "state_keys = [''format'', ''format_version'', ''order_manifest_sha256'', ''order_payload_sha256'',
     ''dataset_manifest_sha256'', ''tokenizer_manifest_sha256'', ''completed_global_microbatches'',
     ''completed_optimizer_updates'', ''next_order_row'', ''consumed_input_tokens'',
     ''global_microbatch_rows'', ''gradient_accumulation_steps'', ''optimizer_update_rows'',
     ''world_size'', ''sequence_length'', ''total_global_microbatches'', ''total_optimizer_updates'',
     ''trainable_rows'', ''dropped_rows'']"

definition state_integers :: "string list" where
  "state_integers = [''format_version'', ''completed_global_microbatches'',
     ''completed_optimizer_updates'', ''next_order_row'', ''consumed_input_tokens'',
     ''global_microbatch_rows'', ''gradient_accumulation_steps'', ''optimizer_update_rows'',
     ''world_size'', ''sequence_length'', ''total_global_microbatches'', ''total_optimizer_updates'',
     ''trainable_rows'', ''dropped_rows'']"

text \<open>What a sampler of the same run must agree on.\<close>

definition static_state :: "sampler \<Rightarrow> (string \<times> json) list" where
  "static_state s = [
     (''format'', JStr ''distributed-packed-batch-sampler-state''), (''format_version'', JInt 2),
     (''order_manifest_sha256'', JStr (sm_manifest_sha256 s)),
     (''order_payload_sha256'', sm_payload_sha256 s),
     (''dataset_manifest_sha256'', sm_dataset_sha256 s),
     (''tokenizer_manifest_sha256'', sm_tokenizer_sha256 s),
     (''global_microbatch_rows'', jnat (sm_gmr s)), (''gradient_accumulation_steps'', jnat (sm_ga s)),
     (''optimizer_update_rows'', jnat (sm_update_rows s)), (''world_size'', jnat (sm_world s)),
     (''sequence_length'', JInt (sm_sequence_length s)),
     (''total_global_microbatches'', jnat (sm_total_microbatches s)),
     (''total_optimizer_updates'', jnat (sm_total_updates s)),
     (''trainable_rows'', jnat (sm_trainable_rows s)), (''dropped_rows'', JInt (sm_dropped_rows s))]"

definition cursor_state :: "sampler \<Rightarrow> nat \<Rightarrow> (string \<times> json) list" where
  "cursor_state s completed = [
     (''completed_global_microbatches'', jnat completed),
     (''completed_optimizer_updates'', jnat (completed div sm_ga s)),
     (''next_order_row'', jnat (completed * sm_gmr s)),
     (''consumed_input_tokens'', JInt (int (completed * sm_gmr s) * sm_sequence_length s))]"

definition state_dict :: "sampler \<Rightarrow> json \<Rightarrow> json res" where
  "state_dict s completed =
     (let c = jint_of completed in
      if \<not> is_jint completed \<or> c < int (sm_start s) \<or> int (sm_total_microbatches s) < c
      then Inl (ValueError ''completed_global_microbatches is out of range'')
      else if c mod int (sm_ga s) \<noteq> 0
      then Inl (ValueError ''completed_global_microbatches must be an optimizer-update boundary'')
      else Inr (JObj (take 6 (static_state s) @ cursor_state s (nat c) @ drop 6 (static_state s))))"

definition load_state_dict :: "json \<Rightarrow> sampler \<Rightarrow> sampler res" where
  "load_state_dict state s =
     (let completed = jget state ''completed_global_microbatches''; c = jint_of completed;
          next_row = c * int (sm_gmr s) in
      if sm_iteration_started s
      then Inl (RuntimeError ''Cannot change sampler resume state after iteration started'')
      else if \<not> is_jobj state then Inl (TypeError ''Sampler resume state must be a mapping'')
      else if set (jkeys state) \<noteq> set state_keys
      then Inl (ValueError ''Sampler resume state schema mismatch'')
      else if \<not> list_all (\<lambda>k. is_jint (jget state k)) state_integers
      then Inl (ValueError ''Sampler resume integer fields must be plain integers'')
      else if \<not> is_jobj (jget state ''dataset_manifest_sha256'')
      then Inl (ValueError ''Sampler resume dataset identity must be a plain dictionary'')
      else if \<not> list_all (\<lambda>k. is_jstr (jget state k))
          [''format'', ''order_manifest_sha256'', ''order_payload_sha256'', ''tokenizer_manifest_sha256'']
      then Inl (ValueError ''Sampler resume identity must be a string'')
      else if list_ex (\<lambda>(k, v). \<not> py_eq (jget state k) v) (static_state s)
      then Inl (ValueError ''Sampler resume identity mismatch'')
      else if \<not> is_jint completed \<or> \<not> (0 \<le> c \<and> c \<le> int (sm_total_microbatches s))
      then Inl (ValueError ''Sampler resume completed_global_microbatches is out of range'')
      else if c mod int (sm_ga s) \<noteq> 0
      then Inl (ValueError ''Sampler resume cursor is not an optimizer-update boundary'')
      else if \<not> eq_int (jget state ''completed_optimizer_updates'') (c div int (sm_ga s))
      then Inl (ValueError ''Sampler resume completed_optimizer_updates does not match the cursor'')
      else if \<not> eq_int (jget state ''next_order_row'') next_row
      then Inl (ValueError ''Sampler resume next_order_row does not match the completed batch cursor'')
      else if \<not> eq_int (jget state ''consumed_input_tokens'') (next_row * sm_sequence_length s)
      then Inl (ValueError ''Sampler resume consumed_input_tokens does not match the order cursor'')
      else Inr (s\<lparr>sm_start := nat c\<rparr>))"

section \<open>Construction and iteration\<close>

record sampler_args =
  sa_gmr :: json
  sa_ga :: json
  sa_rank :: json
  sa_world :: json
  sa_start :: json
  sa_resume :: "json option"

definition sampler_arguments :: "sampler_args \<Rightarrow> json list" where
  "sampler_arguments a = [sa_gmr a, sa_ga a, sa_rank a, sa_world a, sa_start a]"

text \<open>The argument checks, and those against a frozen geometry.\<close>

definition check_sampler_args :: "json \<Rightarrow> sampler_args \<Rightarrow> unit res" where
  "check_sampler_args m a =
     (let gmr = jint_of (sa_gmr a); ga = jint_of (sa_ga a); rank = jint_of (sa_rank a);
          world = jint_of (sa_world a); start = jint_of (sa_start a);
          c = jget m ''training_consumption'' in
      if \<not> list_all is_jint (sampler_arguments a) then Inl (TypeError ''must be an integer'')
      else if sa_resume a \<noteq> None \<and> start \<noteq> 0
      then Inl (ValueError ''resume_state and a nonzero start_global_microbatch are mutually exclusive'')
      else if gmr < 1 then Inl (ValueError ''global_microbatch_rows must be positive'')
      else if ga < 1 then Inl (ValueError ''gradient_accumulation_steps must be positive'')
      else if world < 1 \<or> \<not> (0 \<le> rank \<and> rank < world) then Inl (ValueError ''Invalid distributed rank/world_size'')
      else if gmr mod world \<noteq> 0
      then Inl (ValueError ''global_microbatch_rows must be divisible by world_size'')
      else if start < 0 then Inl (ValueError ''start_global_microbatch must be non-negative'')
      else rbind (jitem c ''frozen_global_microbatch_rows'') (\<lambda>fg.
      rbind (jitem c ''frozen_gradient_accumulation_steps'') (\<lambda>fa.
      if fg \<noteq> JNull \<and> \<not> eq_int fg gmr
      then Inl (ValueError ''global_microbatch_rows differs from the immutable order'')
      else if fa \<noteq> JNull \<and> \<not> eq_int fa ga
      then Inl (ValueError ''gradient_accumulation_steps differs from the immutable order'')
      else Inr ())))"

definition fresh_sampler :: "json \<Rightarrow> byte list \<Rightarrow> string \<Rightarrow> sampler_args \<Rightarrow> sampler" where
  "fresh_sampler m payload manifest_sha256 a =
     (let gmr = nat (jint_of (sa_gmr a)); ga = nat (jint_of (sa_ga a)); world = nat (jint_of (sa_world a));
          rows = nat (jint_of (jget m ''rows'')); c = jget m ''training_consumption'';
          frozen = (jget c ''frozen_global_microbatch_rows'' \<noteq> JNull);
          updates = (if frozen then jnum_nat (jget c ''optimizer_updates'') else rows div (gmr * ga));
          trainable = (if frozen then jnum_nat (jget c ''consumed_rows'') else updates * (gmr * ga)) in
      \<lparr>sm_order = map_order payload, sm_rows = rows,
       sm_sequence_length = jint_of (jget m ''sequence_length''), sm_gmr = gmr, sm_ga = ga,
       sm_rank = nat (jint_of (sa_rank a)), sm_world = world, sm_start = nat (jint_of (sa_start a)),
       sm_geometry = (if frozen then (case frozen_training_geometry m of Inr g \<Rightarrow> Some g | Inl _ \<Rightarrow> None)
                      else None),
       sm_update_rows = gmr * ga, sm_local_batch = gmr div world, sm_total_updates = updates,
       sm_total_microbatches = (if frozen then jnum_nat (jget c ''consumed_global_microbatches'')
                                else updates * ga),
       sm_trainable_rows = trainable, sm_dropped_rows = int rows - int trainable,
       sm_manifest_sha256 = manifest_sha256, sm_payload_sha256 = jget (jget m ''order'') ''sha256'',
       sm_dataset_sha256 = JObj (map (\<lambda>d. (d, jget (jget (jget m ''dataset_manifests'') d) ''sha256''))
         domain_order),
       sm_tokenizer_sha256 = jget m ''tokenizer_manifest_sha256'', sm_iteration_started = False\<rparr>)"

definition new_sampler :: "json \<Rightarrow> byte list \<Rightarrow> string \<Rightarrow> sampler_args \<Rightarrow> sampler res" where
  "new_sampler m payload manifest_sha256 a =
     rbind (check_sampler_args m a) (\<lambda>_.
     let s = fresh_sampler m payload manifest_sha256 a in
     if sm_total_microbatches s < sm_start s
     then Inl (ValueError ''start_global_microbatch is beyond the end of the order'')
     else if sm_start s mod sm_ga s \<noteq> 0
     then Inl (ValueError ''start_global_microbatch must be aligned to an optimizer-update boundary'')
     else case sa_resume a of None \<Rightarrow> Inr s | Some state \<Rightarrow> load_state_dict state s)"

definition sampler_len :: "sampler \<Rightarrow> nat" where
  "sampler_len s = sm_total_microbatches s - sm_start s"

text \<open>One rank's share of one global microbatch.\<close>

definition local_batch :: "sampler \<Rightarrow> nat \<Rightarrow> 64 word list" where
  "local_batch s g =
     (let local_begin = sm_rank s * sm_local_batch s;
          global_references = take (sm_gmr s) (drop (g * sm_gmr s) (sm_order s)) in
      take (sm_local_batch s) (drop local_begin global_references))"

definition iterate :: "sampler \<Rightarrow> 64 word list list \<times> sampler" where
  "iterate s = (map (local_batch s) [sm_start s..<sm_total_microbatches s], s\<lparr>sm_iteration_started := True\<rparr>)"

end
