(* ===== verification/SamplerFacts.thy ===== *)
theory SamplerFacts
  imports Sampler
begin

text \<open>
  The sampler over a loaded order: ranks partition every global microbatch, the microbatches cover
  exactly the trainable prefix, a resume cursor round-trips to any rank of the same run, resuming
  continues with the suffix of the interrupted iteration, and a cursor is accepted only when it
  is one \<^verbatim>\<open>state_dict\<close> writes.
\<close>

section \<open>Invariant\<close>

definition sampler_ok :: "sampler \<Rightarrow> bool" where
  "sampler_ok s \<longleftrightarrow> 0 < sm_gmr s \<and> 0 < sm_ga s \<and> sm_rank s < sm_world s \<and> sm_world s dvd sm_gmr s \<and>
     sm_local_batch s * sm_world s = sm_gmr s \<and> sm_total_microbatches s = sm_total_updates s * sm_ga s \<and>
     sm_total_updates s = length (sm_order s) div (sm_gmr s * sm_ga s) \<and>
     sm_trainable_rows s = sm_total_microbatches s * sm_gmr s \<and>
     sm_trainable_rows s \<le> length (sm_order s) \<and> length (sm_order s) = sm_rows s \<and>
     sm_start s \<le> sm_total_microbatches s \<and> sm_ga s dvd sm_start s \<and>
     is_jstr (sm_payload_sha256 s) \<and> is_jstr (sm_tokenizer_sha256 s) \<and>
     is_jobj (sm_dataset_sha256 s) \<and> json_wf (sm_dataset_sha256 s)"

lemma sampler_ok_start:
  "sampler_ok s \<Longrightarrow> n \<le> sm_total_microbatches s \<Longrightarrow> sm_ga s dvd n \<Longrightarrow> sampler_ok (s\<lparr>sm_start := n\<rparr>)"
  by (cases s) (auto simp: sampler_ok_def)

lemma eq_int_jnum: "eq_int v i \<Longrightarrow> jnum v = Some (of_int i)"
  by (cases v) (auto simp: eq_int_def of_bool_def split: if_splits)

lemma eq_int_nat: "eq_int v i \<Longrightarrow> jnum_nat v = nat i"
  by (simp add: eq_int_jnum jnum_nat_def)

lemma load_order_checks:
  assumes "load_order_manifest verify d = Inr (m, payload)"
  shows "order_header m = Inr ()" "order_rows m = Inr ()" "order_datasets m = Inr ()"
    "order_supervised m = Inr ()" "order_consumption m = Inr ()" "order_budget m = Inr ()"
    "order_payload verify d m = Inr payload"
  using assms by (auto simp: load_order_manifest_def res_simps)

lemma order_payload_facts:
  assumes "order_payload verify d m = Inr payload"
  shows "length payload = 8 * nat (jint_of (jget m ''rows''))" "is_jstr (jget (jget m ''order'') ''sha256'')"
  using assms
  by (auto simp: order_payload_def Let_def res_simps sized_file_def file_bytes_def split: option.splits content.splits)

lemma order_header_facts:
  assumes "order_header m = Inr ()"
  shows "positive_int (jget m ''rows'')" "is_jstr (jget m ''tokenizer_manifest_sha256'')"
  using assms by (auto simp: order_header_def Let_def res_simps)

lemma order_datasets_facts:
  assumes "order_datasets m = Inr ()" and "d \<in> set domain_order"
  shows "is_jstr (jget (jget (jget m ''dataset_manifests'') d) ''sha256'')"
proof -
  from assms(1) obtain us where "mapM (order_dataset m) domain_order = Inr us"
    by (auto simp: order_datasets_def res_simps)
  then have "\<exists>u. order_dataset m d = Inr u"
    using assms(2) by (auto simp: mapM_eq_Inr list_all2_conv_all_nth in_set_conv_nth)
  then show ?thesis by (auto simp: order_dataset_def Let_def res_simps)
qed

text \<open>A frozen manifest's counters are those of whole updates.\<close>

lemma order_frozen_facts:
  assumes "order_consumption m = Inr ()"
  defines "c \<equiv> jget m ''training_consumption''" and "rows \<equiv> nat (jint_of (jget m ''rows''))"
  assumes frozen: "jget c ''frozen_global_microbatch_rows'' \<noteq> JNull"
  defines "gmr \<equiv> jint_of (jget c ''frozen_global_microbatch_rows'')"
    and "ga \<equiv> jint_of (jget c ''frozen_gradient_accumulation_steps'')"
  assumes pos: "positive_int (jget m ''rows'')"
  shows "positive_int (jget c ''frozen_global_microbatch_rows'')"
    "positive_int (jget c ''frozen_gradient_accumulation_steps'')"
    "jnum_nat (jget c ''optimizer_updates'') = rows div (nat gmr * nat ga)"
    "jnum_nat (jget c ''consumed_global_microbatches'') = rows div (nat gmr * nat ga) * nat ga"
    "jnum_nat (jget c ''consumed_rows'') = rows div (nat gmr * nat ga) * (nat gmr * nat ga)"
proof -
  from assms(1) frozen have fr: "order_frozen m c = Inr ()"
    by (auto simp: order_consumption_def Let_def c_def res_simps)
  then have p: "positive_int (jget c ''frozen_global_microbatch_rows'')"
      "positive_int (jget c ''frozen_gradient_accumulation_steps'')"
    and sc: "\<not> list_ex (\<lambda>(k, v). \<not> eq_int (jget c k) v)
      (frozen_scalars (jint_of (jget m ''rows'')) (jint_of (jget m ''sequence_length'')) gmr ga)"
    unfolding order_frozen_def Let_def check_eq_Inr gmr_def ga_def by blast+
  show "positive_int (jget c ''frozen_global_microbatch_rows'')"
    "positive_int (jget c ''frozen_gradient_accumulation_steps'')" by (rule p)+
  from p have g: "gmr = int (nat gmr)" "ga = int (nat ga)" by (simp_all add: gmr_def ga_def positive_int_def)
  have r: "jint_of (jget m ''rows'') = int rows" using pos by (simp add: rows_def positive_int_def)
  from sc have s: "eq_int (jget c ''optimizer_updates'') (int rows div (gmr * ga))"
    "eq_int (jget c ''consumed_global_microbatches'') (int rows div (gmr * ga) * ga)"
    "eq_int (jget c ''consumed_rows'') (int rows div (gmr * ga) * (gmr * ga))"
    by (simp_all add: frozen_scalars_def Let_def r)
  have q: "int rows div (gmr * ga) = int (rows div (nat gmr * nat ga))" by (subst g(1), subst g(2)) (simp add: zdiv_int)
  show "jnum_nat (jget c ''optimizer_updates'') = rows div (nat gmr * nat ga)"
    using eq_int_nat [OF s(1)] by (simp add: q)
  show "jnum_nat (jget c ''consumed_global_microbatches'') = rows div (nat gmr * nat ga) * nat ga"
    using eq_int_nat [OF s(2)] unfolding q by (subst (asm) g(2)) (simp only: nat_int flip: of_nat_mult)
  show "jnum_nat (jget c ''consumed_rows'') = rows div (nat gmr * nat ga) * (nat gmr * nat ga)"
    using eq_int_nat [OF s(3)] unfolding q by (subst (asm) (2) g(1), subst (asm) (2) g(2)) (simp only: nat_int flip: of_nat_mult)
qed

lemma load_state_dict_fields:
  assumes "load_state_dict state s = Inr s'"
  shows "\<not> sm_iteration_started s"
    "s' = s\<lparr>sm_start := nat (jint_of (jget state ''completed_global_microbatches''))\<rparr>"
    "0 \<le> jint_of (jget state ''completed_global_microbatches'')"
    "jint_of (jget state ''completed_global_microbatches'') \<le> int (sm_total_microbatches s)"
    "jint_of (jget state ''completed_global_microbatches'') mod int (sm_ga s) = 0"
  using assms by (auto simp: load_state_dict_def Let_def res_simps)

lemma check_sampler_args_facts:
  assumes "check_sampler_args m a = Inr ()"
  shows "1 \<le> jint_of (sa_gmr a)" "1 \<le> jint_of (sa_ga a)" "0 \<le> jint_of (sa_rank a)"
    "jint_of (sa_rank a) < jint_of (sa_world a)" "jint_of (sa_gmr a) mod jint_of (sa_world a) = 0"
    "0 \<le> jint_of (sa_start a)"
    "jget (jget m ''training_consumption'') ''frozen_global_microbatch_rows'' \<noteq> JNull \<Longrightarrow>
       eq_int (jget (jget m ''training_consumption'') ''frozen_global_microbatch_rows'') (jint_of (sa_gmr a))"
    "jget (jget m ''training_consumption'') ''frozen_gradient_accumulation_steps'' \<noteq> JNull \<Longrightarrow>
       eq_int (jget (jget m ''training_consumption'') ''frozen_gradient_accumulation_steps'') (jint_of (sa_ga a))"
  using assms by (auto simp: check_sampler_args_def Let_def res_simps jitem_def)

lemma eq_int_positive: "positive_int v \<Longrightarrow> eq_int v i \<Longrightarrow> jint_of v = i"
  by (cases v) (simp_all add: positive_int_def)

lemma nat_dvd_nat: "0 \<le> x \<Longrightarrow> 0 \<le> y \<Longrightarrow> y mod x = 0 \<Longrightarrow> nat x dvd nat y"
  unfolding nat_dvd_iff by (simp add: dvd_eq_mod_eq_0)

lemma fresh_sampler_counts:
  defines "c m \<equiv> jget m ''training_consumption''"
  shows "sm_total_updates (fresh_sampler m payload sha a) =
      (if jget (c m) ''frozen_global_microbatch_rows'' \<noteq> JNull then jnum_nat (jget (c m) ''optimizer_updates'')
       else nat (jint_of (jget m ''rows'')) div (nat (jint_of (sa_gmr a)) * nat (jint_of (sa_ga a))))"
    and "sm_total_microbatches (fresh_sampler m payload sha a) =
      (if jget (c m) ''frozen_global_microbatch_rows'' \<noteq> JNull
       then jnum_nat (jget (c m) ''consumed_global_microbatches'')
       else sm_total_updates (fresh_sampler m payload sha a) * nat (jint_of (sa_ga a)))"
    and "sm_trainable_rows (fresh_sampler m payload sha a) =
      (if jget (c m) ''frozen_global_microbatch_rows'' \<noteq> JNull then jnum_nat (jget (c m) ''consumed_rows'')
       else sm_total_updates (fresh_sampler m payload sha a) *
         (nat (jint_of (sa_gmr a)) * nat (jint_of (sa_ga a))))"
  by (simp_all only: fresh_sampler_def Let_def sampler.simps c_def if_False simp_thms cong: if_cong)

lemma fresh_sampler_ok:
  assumes load: "load_order_manifest verify d = Inr (m, payload)"
    and a: "check_sampler_args m a = Inr ()"
    and "sm_start (fresh_sampler m payload sha a) \<le> sm_total_microbatches (fresh_sampler m payload sha a)"
    and "sm_start (fresh_sampler m payload sha a) mod sm_ga (fresh_sampler m payload sha a) = 0"
  shows "sampler_ok (fresh_sampler m payload sha a)"
proof -
  let ?s = "fresh_sampler m payload sha a" and ?c = "jget m ''training_consumption''"
  note ch = load_order_checks [OF load]
  note f = check_sampler_args_facts [OF a] and h = order_header_facts [OF ch(1)] and pl = order_payload_facts [OF ch(7)]
  let ?g = "nat (jint_of (sa_gmr a))" and ?k = "nat (jint_of (sa_ga a))" and ?w = "nat (jint_of (sa_world a))"
  let ?rows = "nat (jint_of (jget m ''rows''))"
  have order: "length (sm_order ?s) = ?rows" "sm_rows ?s = ?rows"
    by (simp_all add: fresh_sampler_def Let_def map_order_def pl(1))
  have dvd: "?w dvd ?g" using f(1,3,4,5) by (intro nat_dvd_nat) linarith+
  then have lb: "sm_local_batch ?s * sm_world ?s = sm_gmr ?s" by (simp add: fresh_sampler_def Let_def)
  have "sm_total_updates ?s = ?rows div (?g * ?k) \<and> sm_total_microbatches ?s = sm_total_updates ?s * ?k \<and>
    sm_trainable_rows ?s = sm_total_updates ?s * (?g * ?k)"
  proof (cases "jget ?c ''frozen_global_microbatch_rows'' = JNull")
    case False
    note ff = order_frozen_facts [OF ch(5) False h(1)]
    have "jget ?c ''frozen_gradient_accumulation_steps'' \<noteq> JNull"
      using ff(2) by (auto simp: positive_int_def)
    from eq_int_positive [OF ff(1) f(7) [OF False]] eq_int_positive [OF ff(2) f(8) [OF this]]
    have gk: "jint_of (jget ?c ''frozen_global_microbatch_rows'') = jint_of (sa_gmr a)"
      "jint_of (jget ?c ''frozen_gradient_accumulation_steps'') = jint_of (sa_ga a)" .
    show ?thesis unfolding fresh_sampler_counts if_P [OF False] ff(3-5) gk by (intro conjI refl)
  qed (simp only: fresh_sampler_counts simp_thms if_False)
  then have counts: "sm_total_updates ?s = ?rows div (?g * ?k)" "sm_total_microbatches ?s = sm_total_updates ?s * ?k"
    "sm_trainable_rows ?s = sm_total_updates ?s * (?g * ?k)" by blast+
  have ds: "json_wf (sm_dataset_sha256 ?s)" "is_jobj (sm_dataset_sha256 ?s)"
  proof -
    have "json_wf (jget (jget (jget m ''dataset_manifests'') e) ''sha256'')" if "e \<in> set domain_order" for e
      using order_datasets_facts [OF ch(3) that] by (cases "jget (jget (jget m ''dataset_manifests'') e) ''sha256''") simp_all
    then show "json_wf (sm_dataset_sha256 ?s)" "is_jobj (sm_dataset_sha256 ?s)"
      using domain_order_distinct(1) by (simp_all add: fresh_sampler_def Let_def list_all_iff o_def)
  qed
  have fields: "sm_gmr ?s = ?g" "sm_ga ?s = ?k" "sm_rank ?s = nat (jint_of (sa_rank a))" "sm_world ?s = ?w"
    "sm_payload_sha256 ?s = jget (jget m ''order'') ''sha256''"
    "sm_tokenizer_sha256 ?s = jget m ''tokenizer_manifest_sha256''"
    by (simp_all add: fresh_sampler_def Let_def)
  have le: "?rows div (?g * ?k) * (?g * ?k) \<le> ?rows" by (rule div_times_less_eq_dividend)
  have "0 < ?g" "0 < ?k" "nat (jint_of (sa_rank a)) < ?w" using f(1-4) by linarith+
  with dvd have "0 < sm_gmr ?s \<and> 0 < sm_ga ?s \<and> sm_rank ?s < sm_world ?s \<and> sm_world ?s dvd sm_gmr ?s"
    unfolding fields by blast
  moreover have "sm_total_microbatches ?s = sm_total_updates ?s * sm_ga ?s"
    "sm_trainable_rows ?s = sm_total_microbatches ?s * sm_gmr ?s"
    unfolding counts(2,3) fields by (simp_all only: mult.assoc mult.commute [of ?k])
  moreover have "sm_trainable_rows ?s \<le> length (sm_order ?s)"
    unfolding counts(3,1) order(1) by (rule le)
  moreover have "is_jstr (sm_payload_sha256 ?s)" "is_jstr (sm_tokenizer_sha256 ?s)"
    unfolding fields by (rule pl(2), rule h(2))
  moreover have "length (sm_order ?s) = sm_rows ?s" using order by simp
  moreover have "sm_total_updates ?s = length (sm_order ?s) div (sm_gmr ?s * sm_ga ?s)"
    unfolding counts(1) order(1) fields by (rule refl)
  moreover have "sm_ga ?s dvd sm_start ?s" using assms(4) by (simp only: dvd_eq_mod_eq_0)
  ultimately show ?thesis
    unfolding sampler_ok_def using lb ds assms(3) by blast
qed

lemma new_sampler_ok:
  assumes "load_order_manifest verify d = Inr (m, payload)" and "new_sampler m payload sha a = Inr s"
  shows "sampler_ok s"
proof -
  let ?f = "fresh_sampler m payload sha a"
  from assms(2) have a: "check_sampler_args m a = Inr ()"
    and b: "sm_start ?f \<le> sm_total_microbatches ?f" "sm_start ?f mod sm_ga ?f = 0"
    and r: "(case sa_resume a of None \<Rightarrow> Inr ?f | Some state \<Rightarrow> load_state_dict state ?f) = Inr s"
    by (auto simp: new_sampler_def Let_def res_simps)
  note ok = fresh_sampler_ok [OF assms(1) a b]
  show ?thesis
  proof (cases "sa_resume a")
    case None
    with r ok show ?thesis by simp
  next
    case (Some state)
    with r have l: "load_state_dict state ?f = Inr s" by simp
    note lf = load_state_dict_fields [OF l]
    have "sm_ga ?f dvd nat (jint_of (jget state ''completed_global_microbatches''))"
      using nat_dvd_nat [OF _ lf(3,5)] by simp
    moreover have "nat (jint_of (jget state ''completed_global_microbatches'')) \<le> sm_total_microbatches ?f"
      using lf(4) by linarith
    ultimately show ?thesis unfolding lf(2) by (intro sampler_ok_start [OF ok])
  qed
qed

section \<open>Ownership\<close>

lemma concat_slices: "concat (map (\<lambda>r. take b (drop (r * b) xs)) [0..<w]) = take (w * b) xs"
proof (induction w)
  case (Suc w)
  have "take (w * b + b) xs = take (w * b) xs @ take b (drop (w * b) xs)" by (rule take_add)
  with Suc show ?case by (simp add: add.commute)
qed simp

text \<open>The ranks' shares of one global microbatch, in rank order, are the microbatch.\<close>

lemma ranks_partition:
  assumes "sampler_ok s"
  shows "concat (map (\<lambda>r. local_batch (s\<lparr>sm_rank := r\<rparr>) g) [0..<sm_world s])
       = take (sm_gmr s) (drop (g * sm_gmr s) (sm_order s))"
proof -
  have "sm_world s * sm_local_batch s = sm_gmr s" using assms by (simp add: sampler_ok_def mult.commute)
  with concat_slices [of "sm_local_batch s" "take (sm_gmr s) (drop (g * sm_gmr s) (sm_order s))" "sm_world s"]
  show ?thesis by (simp add: local_batch_def Let_def)
qed

lemma concat_slices_from:
  assumes "a \<le> n"
  shows "concat (map (\<lambda>g. take b (drop (g * b) xs)) [a..<n]) = take ((n - a) * b) (drop (a * b) xs)"
proof -
  have "[a..<n] = map (\<lambda>k. k + a) [0..<n - a]" using assms by (simp only: map_add_upt le_add_diff_inverse2)
  then have "concat (map (\<lambda>g. take b (drop (g * b) xs)) [a..<n])
      = concat (map (\<lambda>g. take b (drop (g * b) (drop (a * b) xs))) [0..<n - a])"
    by (simp add: o_def algebra_simps)
  then show ?thesis by (simp only: concat_slices)
qed

text \<open>Over a whole run every rank's batches together are the trainable prefix from the cursor on.\<close>

lemma run_covers_prefix:
  assumes "sampler_ok s"
  shows "concat (map (\<lambda>g. concat (map (\<lambda>r. local_batch (s\<lparr>sm_rank := r\<rparr>) g) [0..<sm_world s]))
       [sm_start s..<sm_total_microbatches s])
     = drop (sm_start s * sm_gmr s) (take (sm_trainable_rows s) (sm_order s))"
proof -
  have le: "sm_start s \<le> sm_total_microbatches s" and tr: "sm_trainable_rows s = sm_total_microbatches s * sm_gmr s"
    using assms unfolding sampler_ok_def by blast+
  show ?thesis
    unfolding ranks_partition [OF assms] concat_slices_from [OF le] tr drop_take diff_mult_distrib ..
qed

lemma length_local_batch:
  assumes "sampler_ok s" and "g < sm_total_microbatches s"
  shows "length (local_batch s g) = sm_local_batch s"
proof -
  let ?b = "sm_local_batch s"
  have o: "sm_trainable_rows s \<le> length (sm_order s)" "sm_trainable_rows s = sm_total_microbatches s * sm_gmr s"
    "sm_rank s < sm_world s" "?b * sm_world s = sm_gmr s"
    using assms(1) unfolding sampler_ok_def by blast+
  have "Suc g * sm_gmr s \<le> sm_total_microbatches s * sm_gmr s" using assms(2) by (intro mult_le_mono1) simp
  then have "sm_gmr s \<le> length (sm_order s) - g * sm_gmr s" using o(1,2) by simp
  moreover have "Suc (sm_rank s) * ?b \<le> sm_world s * ?b" using o(3) by (intro mult_le_mono1) simp
  ultimately show ?thesis using o(4) by (simp add: local_batch_def Let_def mult.commute min_def) linarith
qed

section \<open>The cursor\<close>

text \<open>Samplers of the same run: everything but rank, position and the iteration flag.\<close>

definition same_run :: "sampler \<Rightarrow> sampler \<Rightarrow> bool" where
  "same_run s t \<longleftrightarrow> static_state s = static_state t \<and> sm_gmr s = sm_gmr t \<and> sm_ga s = sm_ga t \<and>
     sm_sequence_length s = sm_sequence_length t \<and> sm_total_microbatches s = sm_total_microbatches t"

lemma state_dict_Inr:
  assumes "state_dict s completed = Inr state"
  obtains c where "completed = JInt (int c)" "sm_start s \<le> c" "c \<le> sm_total_microbatches s" "c mod sm_ga s = 0"
    "state = JObj (take 6 (static_state s) @ cursor_state s c @ drop 6 (static_state s))"
proof -
  from assms have i: "is_jint completed" "\<not> jint_of completed < int (sm_start s)"
    "\<not> int (sm_total_microbatches s) < jint_of completed" "jint_of completed mod int (sm_ga s) = 0"
    "state = JObj (take 6 (static_state s) @ cursor_state s (nat (jint_of completed)) @ drop 6 (static_state s))"
    by (auto simp: state_dict_def Let_def res_simps)
  let ?c = "nat (jint_of completed)"
  have c: "jint_of completed = int ?c" using i(2) by linarith
  show thesis
  proof (rule that [of ?c])
    show "completed = JInt (int ?c)" using i(1) c by (cases completed) simp_all
    show "sm_start s \<le> ?c" "?c \<le> sm_total_microbatches s" using i(2,3) c by linarith+
    have "int (?c mod sm_ga s) = 0" unfolding zmod_int c [symmetric] by (rule i(4))
    then show "?c mod sm_ga s = 0" by simp
    show "state = JObj (take 6 (static_state s) @ cursor_state s ?c @ drop 6 (static_state s))" by (rule i(5))
  qed
qed

lemma state_fields:
  defines "st s c \<equiv> JObj (take 6 (static_state s) @ cursor_state s c @ drop 6 (static_state s))"
  shows "jkeys (st s c) = state_keys"
    and "jget (st s c) ''completed_global_microbatches'' = jnat c"
    and "jget (st s c) ''completed_optimizer_updates'' = jnat (c div sm_ga s)"
    and "jget (st s c) ''next_order_row'' = jnat (c * sm_gmr s)"
    and "jget (st s c) ''consumed_input_tokens'' = JInt (int (c * sm_gmr s) * sm_sequence_length s)"
    and "list_all (\<lambda>(k, v). jget (st s c) k = v) (static_state s)"
    and "list_all (\<lambda>k. is_jint (jget (st s c) k)) state_integers"
    and "jget (st s c) ''dataset_manifest_sha256'' = sm_dataset_sha256 s"
    and "jget (st s c) ''format'' = JStr ''distributed-packed-batch-sampler-state''"
    and "jget (st s c) ''order_manifest_sha256'' = JStr (sm_manifest_sha256 s)"
    and "jget (st s c) ''order_payload_sha256'' = sm_payload_sha256 s"
    and "jget (st s c) ''tokenizer_manifest_sha256'' = sm_tokenizer_sha256 s"
  by (simp_all add: st_def static_state_def cursor_state_def jfield_def state_keys_def state_integers_def
      take_Cons' drop_Cons')

lemma static_state_wf:
  assumes "sampler_ok s" and "(k, v) \<in> set (static_state s)"
  shows "py_eq v v"
proof (rule py_eq_refl)
  have j: "is_jstr x \<Longrightarrow> json_wf x" for x by (cases x) simp_all
  from assms(1) have "json_wf (sm_payload_sha256 s)" "json_wf (sm_tokenizer_sha256 s)" "json_wf (sm_dataset_sha256 s)"
    by (auto simp: sampler_ok_def intro: j)
  with assms(2) show "json_wf v" by (auto simp: static_state_def jnat_def)
qed

text \<open>A cursor written by one rank loads on every rank of the run.\<close>

lemma cursor_round_trip:
  assumes s: "sampler_ok s" and t: "sampler_ok t" and run: "same_run s t" and new: "\<not> sm_iteration_started t"
    and st: "state_dict s completed = Inr state"
  shows "load_state_dict state t = Inr (t\<lparr>sm_start := nat (jint_of completed)\<rparr>)"
proof -
  from st obtain c where c: "completed = JInt (int c)" "c \<le> sm_total_microbatches s" "c mod sm_ga s = 0"
    and state: "state = JObj (take 6 (static_state s) @ cursor_state s c @ drop 6 (static_state s))"
    by (rule state_dict_Inr)
  note f = state_fields [of s c, folded state]
  note r = run [unfolded same_run_def]
  have "\<not> list_ex (\<lambda>(k, v). \<not> py_eq (jget state k) v) (static_state t)"
  proof -
    have "py_eq (jget state k) v" if "(k, v) \<in> set (static_state s)" for k v
      using f(6) static_state_wf [OF s that] that by (auto simp: list_all_iff)
    then show ?thesis using r by (auto simp: list_ex_iff)
  qed
  moreover have "is_jobj (sm_dataset_sha256 s)" "is_jstr (sm_payload_sha256 s)" "is_jstr (sm_tokenizer_sha256 s)"
    using s by (simp_all add: sampler_ok_def)
  moreover have "is_jobj state" by (simp add: state)
  moreover have "int c mod int (sm_ga s) = 0" using c(3) unfolding zmod_int [symmetric] by simp
  ultimately show ?thesis
    using new c(2) r f(1,7)
    by (simp add: load_state_dict_def Let_def f(2-5,8-12) c(1) zdiv_int)
qed

text \<open>Resuming continues where the interrupted rank was.\<close>

lemma resumed_batches:
  assumes "same_run s t" and "sm_order s = sm_order t" and "sm_rank s = sm_rank t"
    and "sm_local_batch s = sm_local_batch t" and "sm_start s \<le> c"
  shows "fst (iterate (t\<lparr>sm_start := c\<rparr>)) = drop (c - sm_start s) (fst (iterate s))"
proof -
  have "local_batch (t\<lparr>sm_start := c\<rparr>) = local_batch s"
    using assms(1-4) by (intro ext) (simp add: local_batch_def Let_def same_run_def)
  with assms(1,5) show ?thesis
    by (simp add: iterate_def same_run_def drop_map drop_upt)
qed

text \<open>Fail closed: an accepted cursor agrees with the sampler in every static field and is exactly
  the one \<^verbatim>\<open>state_dict\<close> writes for its microbatch count.\<close>

lemma py_eq_string: "py_eq v w \<Longrightarrow> is_jstr w \<Longrightarrow> v = w"
  by (cases w) simp_all

lemma py_eq_number: "py_eq v w \<Longrightarrow> is_jint v \<Longrightarrow> is_jint w \<Longrightarrow> v = w"
  by (cases v; cases w) auto

lemma static_state_kinds:
  assumes "is_jstr (sm_payload_sha256 s)" "is_jstr (sm_tokenizer_sha256 s)"
  shows "list_all (\<lambda>(k, v). k = ''dataset_manifest_sha256'' \<or> is_jstr v \<or>
    (is_jint v \<and> k \<in> set state_integers)) (static_state s)"
  using assms by (simp add: static_state_def state_integers_def jnat_def)

lemma accepted_cursor:
  assumes s: "sampler_ok s" and l: "load_state_dict state s = Inr s'"
  defines "c \<equiv> nat (jint_of (jget state ''completed_global_microbatches''))"
  shows "sampler_ok s'" "sm_start s' = c" "c \<le> sm_total_microbatches s" "sm_ga s dvd c"
    and "set (jkeys state) = set state_keys"
    and "list_all (\<lambda>(k, v). k = ''dataset_manifest_sha256'' \<or> jget state k = v)
       (static_state s @ cursor_state s c)"
    and "py_eq (jget state ''dataset_manifest_sha256'') (sm_dataset_sha256 s)"
proof -
  note f = load_state_dict_fields [OF l]
  from f(4) show ct: "c \<le> sm_total_microbatches s" unfolding c_def by linarith
  show dv: "sm_ga s dvd c" using nat_dvd_nat [OF _ f(3,5)] by (simp add: c_def)
  show "sm_start s' = c" by (simp add: f(2) c_def)
  show "sampler_ok s'" unfolding f(2) c_def [symmetric] by (rule sampler_ok_start [OF s ct dv])
  from l have keys: "set (jkeys state) = set state_keys"
    and ints: "list_all (\<lambda>k. is_jint (jget state k)) state_integers"
    and stat: "\<not> list_ex (\<lambda>(k, v). \<not> py_eq (jget state k) v) (static_state s)"
    and e: "eq_int (jget state ''completed_optimizer_updates'')
        (jint_of (jget state ''completed_global_microbatches'') div int (sm_ga s))"
      "eq_int (jget state ''next_order_row'') (jint_of (jget state ''completed_global_microbatches'') * int (sm_gmr s))"
      "eq_int (jget state ''consumed_input_tokens'')
        (jint_of (jget state ''completed_global_microbatches'') * int (sm_gmr s) * sm_sequence_length s)"
    unfolding load_state_dict_def Let_def check_eq_Inr by blast+
  show "set (jkeys state) = set state_keys" by (rule keys)
  have eqs: "py_eq (jget state k) v" if "(k, v) \<in> set (static_state s)" for k v
    using stat that by (auto simp: list_ex_iff)
  show "py_eq (jget state ''dataset_manifest_sha256'') (sm_dataset_sha256 s)"
    by (rule eqs) (simp add: static_state_def)
  have "is_jstr (sm_payload_sha256 s)" "is_jstr (sm_tokenizer_sha256 s)"
    using s by (simp_all add: sampler_ok_def)
  note kinds = static_state_kinds [OF this]
  have one: "jget state k = v" if kv: "(k, v) \<in> set (static_state s)" "k \<noteq> ''dataset_manifest_sha256''" for k v
  proof -
    from kinds kv have "is_jstr v \<or> (is_jint v \<and> k \<in> set state_integers)"
      unfolding list_all_iff by fast
    moreover from ints have "k \<in> set state_integers \<Longrightarrow> is_jint (jget state k)"
      unfolding list_all_iff by blast
    ultimately show ?thesis using py_eq_string py_eq_number eqs [OF kv(1)] by blast
  qed
  have jc: "jint_of (jget state ''completed_global_microbatches'') = int c" using f(3) by (simp add: c_def)
  have "is_jint (jget state ''completed_global_microbatches'')" "is_jint (jget state ''completed_optimizer_updates'')"
    "is_jint (jget state ''next_order_row'')" "is_jint (jget state ''consumed_input_tokens'')"
    using ints by (simp_all add: state_integers_def)
  then have num: "jget state ''completed_global_microbatches'' = JInt (int c)"
    "eq_int (jget state ''completed_optimizer_updates'') i \<Longrightarrow> jget state ''completed_optimizer_updates'' = JInt i"
    "eq_int (jget state ''next_order_row'') i \<Longrightarrow> jget state ''next_order_row'' = JInt i"
    "eq_int (jget state ''consumed_input_tokens'') i \<Longrightarrow> jget state ''consumed_input_tokens'' = JInt i" for i
    using jc py_eq_number [of _ "JInt i"] unfolding eq_int_def
    by (cases "jget state ''completed_global_microbatches''"; simp)+
  have cur: "jget state ''completed_optimizer_updates'' = JInt (int (c div sm_ga s))"
    "jget state ''next_order_row'' = JInt (int (c * sm_gmr s))"
    "jget state ''consumed_input_tokens'' = JInt (int (c * sm_gmr s) * sm_sequence_length s)"
    using num(2) [OF e(1)] num(3) [OF e(2)] num(4) [OF e(3)] unfolding jc by (simp_all add: zdiv_int)
  show "list_all (\<lambda>(k, v). k = ''dataset_manifest_sha256'' \<or> jget state k = v)
       (static_state s @ cursor_state s c)"
  proof (unfold list_all_append, intro conjI)
    show "list_all (\<lambda>(k, v). k = ''dataset_manifest_sha256'' \<or> jget state k = v) (static_state s)"
      unfolding list_all_iff using one by blast
    show "list_all (\<lambda>(k, v). k = ''dataset_manifest_sha256'' \<or> jget state k = v) (cursor_state s c)"
      by (simp add: cursor_state_def cur num(1) jnat_def)
  qed
qed

text \<open>Accepted states are the states a sampler of the run that starts at microbatch 0 saves.\<close>

definition saved_state :: "sampler \<Rightarrow> nat \<Rightarrow> json" where
  "saved_state s c = JObj (take 6 (static_state s) @ cursor_state s c @ drop 6 (static_state s))"

lemmas saved_fields = state_fields [folded saved_state_def]

lemma state_key_fields:
  assumes "k \<in> set state_keys"
  shows "\<exists>v. (k, v) \<in> set (static_state s @ cursor_state s c) \<and> jget (saved_state s c) k = v"
proof -
  have keys: "set (map fst (static_state s @ cursor_state s c)) = set state_keys"
    by (auto simp: static_state_def cursor_state_def state_keys_def)
  have "jget (saved_state s c) k' = v" if "(k', v) \<in> set (cursor_state s c)" for k' v
    using that saved_fields(2-5) [of s c] by (auto simp: cursor_state_def)
  moreover have "jget (saved_state s c) k' = v" if "(k', v) \<in> set (static_state s)" for k' v
    using that saved_fields(6) [of s c] by (auto simp: list_all_iff)
  ultimately show ?thesis using keys assms by fastforce
qed

lemma accepted_is_saved:
  assumes s: "sampler_ok s" and l: "load_state_dict state s = Inr s'"
  shows "\<not> sm_iteration_started s \<and> is_jobj state \<and> set (jkeys state) = set state_keys \<and>
     (\<exists>c saved. state_dict (s\<lparr>sm_start := 0\<rparr>) (JInt (int c)) = Inr saved \<and> s' = s\<lparr>sm_start := c\<rparr> \<and>
        (\<forall>k\<in>set state_keys. if k = ''dataset_manifest_sha256''
           then is_jobj (jget state k) \<and> py_eq (jget state k) (jget saved k) else jget state k = jget saved k))"
proof -
  define c where "c = nat (jint_of (jget state ''completed_global_microbatches''))"
  note a = accepted_cursor [OF s l, folded c_def] and f = load_state_dict_fields [OF l, folded c_def]
  from l have o: "is_jobj state" "is_jobj (jget state ''dataset_manifest_sha256'')"
    unfolding load_state_dict_def Let_def check_eq_Inr by blast+
  have "int c mod int (sm_ga s) = 0" using a(4) by (simp add: zmod_int [symmetric])
  then have sd: "state_dict (s\<lparr>sm_start := 0\<rparr>) (JInt (int c)) = Inr (saved_state s c)"
    using a(3) by (simp add: state_dict_def saved_state_def static_state_def cursor_state_def)
  have "if k = ''dataset_manifest_sha256'' then is_jobj (jget state k) \<and> py_eq (jget state k) (jget (saved_state s c) k)
      else jget state k = jget (saved_state s c) k" if k: "k \<in> set state_keys" for k
  proof (cases "k = ''dataset_manifest_sha256''")
    case True
    with o(2) a(7) saved_fields(8) [of s c] show ?thesis by simp
  next
    case False
    obtain v where "(k, v) \<in> set (static_state s @ cursor_state s c)" "jget (saved_state s c) k = v"
      using state_key_fields [OF k] by blast
    with a(6) False show ?thesis unfolding list_all_iff by fastforce
  qed
  with sd f(1,2) o(1) a(5) show ?thesis by blast
qed

lemma saved_is_accepted:
  assumes s: "sampler_ok s" and st: "state_dict (s\<lparr>sm_start := 0\<rparr>) (JInt (int c)) = Inr saved"
    and new: "\<not> sm_iteration_started s" and state: "is_jobj state" "set (jkeys state) = set state_keys"
    and eq: "\<forall>k\<in>set state_keys. if k = ''dataset_manifest_sha256''
       then is_jobj (jget state k) \<and> py_eq (jget state k) (jget saved k) else jget state k = jget saved k"
  shows "load_state_dict state s = Inr (s\<lparr>sm_start := c\<rparr>)"
proof -
  from st have c: "c \<le> sm_total_microbatches s" "int c mod int (sm_ga s) = 0" and sv: "saved = saved_state s c"
    by (auto simp: state_dict_def Let_def saved_state_def static_state_def cursor_state_def split: if_splits)
  note f = saved_fields [of s c, folded sv]
  have e: "jget state k = jget saved k" if "k \<in> set state_keys" "k \<noteq> ''dataset_manifest_sha256''" for k
    using eq that by auto
  have d: "is_jobj (jget state ''dataset_manifest_sha256'')" "py_eq (jget state ''dataset_manifest_sha256'') (sm_dataset_sha256 s)"
    using eq f(8) by (auto simp: state_keys_def)
  have "set state_integers \<subseteq> set state_keys" "''dataset_manifest_sha256'' \<notin> set state_integers"
    by (simp_all add: state_integers_def state_keys_def)
  then have ints: "list_all (\<lambda>k. is_jint (jget state k)) state_integers"
    using f(7) e by (fastforce simp: list_all_iff)
  have stat: "\<not> list_ex (\<lambda>(k, v). \<not> py_eq (jget state k) v) (static_state s)"
  proof -
    have "py_eq (jget state k) v" if kv: "(k, v) \<in> set (static_state s)" for k v
    proof (cases "k = ''dataset_manifest_sha256''")
      case True
      with kv have "v = sm_dataset_sha256 s" by (simp add: static_state_def)
      with True d(2) show ?thesis by simp
    next
      case False
      have "k \<in> set state_keys" using kv by (auto simp: static_state_def state_keys_def)
      from e [OF this False] f(6) kv have "jget state k = v" by (auto simp: list_all_iff)
      with static_state_wf [OF s kv] show ?thesis by simp
    qed
    then show ?thesis by (auto simp: list_ex_iff)
  qed
  have get: "jget state ''completed_global_microbatches'' = jnat c"
    "jget state ''completed_optimizer_updates'' = jnat (c div sm_ga s)" "jget state ''next_order_row'' = jnat (c * sm_gmr s)"
    "jget state ''consumed_input_tokens'' = JInt (int (c * sm_gmr s) * sm_sequence_length s)"
    "jget state ''format'' = JStr ''distributed-packed-batch-sampler-state''"
    "jget state ''order_manifest_sha256'' = JStr (sm_manifest_sha256 s)"
    "jget state ''order_payload_sha256'' = sm_payload_sha256 s" "jget state ''tokenizer_manifest_sha256'' = sm_tokenizer_sha256 s"
    using e f(2-5,9-12) by (simp_all add: state_keys_def)
  have "is_jstr (sm_payload_sha256 s)" "is_jstr (sm_tokenizer_sha256 s)" using s by (simp_all add: sampler_ok_def)
  then show ?thesis
    using new state ints d(1) stat c by (simp add: load_state_dict_def Let_def get zdiv_int jnat_def)
qed

end
