(* ===== verification/OrderValidate.thy ===== *)
theory OrderValidate
  imports SamplerFacts
begin

text \<open>
  \<^verbatim>\<open>validate_training_order\<close> and \<^verbatim>\<open>_resolve_order_manifests\<close> of \<^verbatim>\<open>pretrain/data.py\<close>.
  \<open>locate path\<close> stands for the file system outside the order directory: the packed directory
  whose manifest the relative path names and the digest of that file, or nothing when there is no
  such file.
\<close>

section \<open>The packed directories behind an order\<close>

type_synonym locator = "string \<Rightarrow> (dir \<times> string) option"

definition resolve_manifest :: "locator \<Rightarrow> json \<Rightarrow> string \<Rightarrow> (string \<times> dir) res" where
  "resolve_manifest locate m domain =
     (let payload = jget (jget m ''dataset_manifests'') domain; relative = jstr_of (jget payload ''path'') in
      if take 1 relative = ''/''
      then Inl (ValueError ''Packed dataset manifest path must be relative'')
      else case locate relative of
        None \<Rightarrow> Inl (FileNotFoundError ''packed manifest'')
      | Some (d, digest) \<Rightarrow>
        if \<not> py_eq (jget payload ''sha256'') (JStr digest)
        then Inl (IOError ''Packed dataset manifest changed after order creation'')
        else rbind (load_json d manifest_name) (\<lambda>pm.
          rbind (parse_packed_manifest pm) (\<lambda>_.
          if \<not> py_eq (jget pm ''tokenizer_manifest_sha256'') (jget m ''tokenizer_manifest_sha256'')
          then Inl (ValueError ''Packed dataset tokenizer manifest differs from the training order'')
          else Inr (domain, d))))"

definition resolve_order_manifests :: "locator \<Rightarrow> dir \<Rightarrow> (string \<times> dir) list res" where
  "resolve_order_manifests locate d =
     rbind (load_order_manifest False d) (\<lambda>(m, _). mapM (resolve_manifest locate m) domain_order)"

section \<open>Weights and budget\<close>

text \<open>Every domain's value of \<open>v\<close>, read with \<^verbatim>\<open>float\<close>, is within 1e-15 of the expected one.\<close>

definition close_domains :: "string \<Rightarrow> json \<Rightarrow> rat list \<Rightarrow> unit res" where
  "close_domains message v expected =
     rbind (mapM (\<lambda>(d, e). rbind (float_of (jget v d)) (\<lambda>w.
        if \<not> is_close w e then Inl (ValueError message) else Inr ())) (zip domain_order expected)) (\<lambda>_. Inr ())"

definition validate_weights :: "json \<Rightarrow> rat list option res" where
  "validate_weights m =
     (let counts = jget m ''rows_per_domain''; weights = jget m ''expected_input_token_weights'' in
      if set (jkeys counts) \<noteq> set domain_order
      then Inl (ValueError ''Order manifest has an invalid rows_per_domain mapping'')
      else if list_ex (\<lambda>d. \<not> int_like (jget counts d) \<or> jint_of (jget counts d) < 0) domain_order
      then Inl (ValueError ''Order manifest has invalid per-domain row counts'')
      else if sum_list (domain_ints counts) \<noteq> jint_of (jget m ''rows'')
      then Inl (ValueError ''Order per-domain row counts do not sum to total rows'')
      else if weights = JNull then Inr None
      else rbind (json_weights weights) (\<lambda>normalized.
        rbind (close_domains ''Expected input-token weights are not normalized'' weights normalized) (\<lambda>_.
        rbind (validate_row_mixture (map nat (domain_ints counts)) normalized) (\<lambda>_. Inr (Some normalized)))))"

definition validate_input_tokens :: "json \<Rightarrow> unit res" where
  "validate_input_tokens m =
     (let T = jint_of (jget m ''sequence_length''); available = jint_of (jget m ''rows'') * T;
          per_domain_tokens = map (\<lambda>n. n * T) (domain_ints (jget m ''rows_per_domain''));
          realized = jget m ''realized_input_token_weights'' in
      if \<not> int_like (jget m ''sequence_length'') \<or> T < 2
      then Inl (ValueError ''Order manifest has an invalid sequence length'')
      else if \<not> eq_domains (jget m ''input_tokens_per_domain'') per_domain_tokens
      then Inl (ValueError ''Order input_tokens_per_domain is inconsistent'')
      else if set (jkeys realized) \<noteq> set domain_order
      then Inl (ValueError ''Order realized input-token weights are inconsistent'')
      else close_domains ''Order realized input-token weights are inconsistent'' realized
        (map (\<lambda>n. py_div (of_int n) (of_int available)) per_domain_tokens))"

definition validate_targeted :: "json \<Rightarrow> json \<Rightarrow> json \<Rightarrow> rat list option \<Rightarrow> int \<Rightarrow> unit res" where
  "validate_targeted m c budget weights accounted =
     (let target = jint_of (jget budget ''expected_total''); tolerance = jget budget ''tolerance'';
          delta = accounted - target; T = jint_of (jget m ''sequence_length'') in
      if \<not> int_like (jget budget ''expected_total'') \<or> target < 1
      then Inl (ValueError ''Order expected input-token budget is invalid'')
      else if \<not> int_like tolerance \<or> jint_of tolerance < 0
      then Inl (ValueError ''Order input-token tolerance is invalid'')
      else if \<not> eq_int (jget budget ''delta'') delta \<or> 0 < delta \<or> delta < - jint_of tolerance
      then Inl (ValueError ''Order input-token budget delta is invalid'')
      else if \<not> py_eq (jget m ''row_selection'') (JStr ''strict-weighted-token-cap'')
      then Inl (ValueError ''Targeted order has an invalid row-selection policy'')
      else case weights of
        None \<Rightarrow> Inl (ValueError ''Targeted order is missing strict input-token weights'')
      | Some normalized \<Rightarrow>
        rbind (jitem c ''frozen_optimizer_update_rows'') (\<lambda>u.
        let maximum_rows = target div T;
            selected = (if u = JNull then maximum_rows else maximum_rows div jint_of u * jint_of u) in
        if jint_of (jget m ''rows'') \<noteq> selected
        then Inl (ValueError ''Targeted order does not contain the largest permitted row prefix'')
        else rbind (strict_weighted_row_counts selected normalized) (\<lambda>counts.
          if \<not> eq_domains (jget m ''rows_per_domain'') (map int counts)
          then Inl (ValueError ''Targeted order does not use the strict weighted allocation'')
          else Inr ())))"

definition validate_budget :: "json \<Rightarrow> rat list option \<Rightarrow> unit res" where
  "validate_budget m weights =
     (let budget = jget m ''input_token_budget''; c = jget m ''training_consumption'';
          available = jint_of (jget m ''rows'') * jint_of (jget m ''sequence_length'') in
      if \<not> is_jobj budget \<or> \<not> py_eq (jget budget ''policy'')
          (JStr ''packed_model_inputs_including_eos_excluding_lookahead_duplicates'')
      then Inl (ValueError ''Order input-token budget policy is invalid'')
      else if \<not> py_eq (jget budget ''direction'') (JStr ''at_or_below'')
      then Inl (ValueError ''Order input-token budget direction is invalid'')
      else if \<not> eq_int (jget budget ''available_total'') available
      then Inl (ValueError ''Order available input-token budget is inconsistent'')
      else if \<not> py_eq (jget budget ''packed_available_total'') (jget m ''packed_available_input_tokens'')
      then Inl (ValueError ''Order packed-available input-token budget is inconsistent'')
      else if \<not> py_eq (jget budget ''packed_surplus_total'') (jget m ''packed_surplus_input_tokens'')
      then Inl (ValueError ''Order packed-surplus input-token budget is inconsistent'')
      else rbind (jitem c ''frozen_global_microbatch_rows'') (\<lambda>g.
      if \<not> py_eq (jget budget ''accounting'') (JStr (if g = JNull then ''available-order-inputs''
               else ''consumed-complete-optimizer-update-inputs''))
      then Inl (ValueError ''Order input-token budget accounting is invalid'')
      else rbind (if g = JNull then Inr (JInt available) else jitem c ''consumed_input_tokens'') (\<lambda>accounted.
      if \<not> py_eq (jget budget ''actual_total'') accounted
      then Inl (ValueError ''Order actual input-token budget is inconsistent'')
      else if jget budget ''expected_total'' = JNull
      then if jget budget ''delta'' \<noteq> JNull \<or> jget budget ''tolerance'' \<noteq> JNull
           then Inl (ValueError ''Untargeted order has invalid budget delta/tolerance'')
           else if \<not> py_eq (jget m ''row_selection'') (JStr ''all-packed-rows'')
           then Inl (ValueError ''Untargeted order must select every packed row'')
           else if \<not> eq_int (jget m ''packed_surplus_rows'') 0
               \<or> \<not> py_eq (jget m ''packed_available_rows'') (jget m ''rows'')
           then Inl (ValueError ''Untargeted order has an unexpected packed surplus'')
           else Inr ()
      else validate_targeted m c budget weights (\<lfloor>the (jnum accounted)\<rfloor>))))"

definition validate_supervised :: "json \<Rightarrow> unit res" where
  "validate_supervised m =
     (let valid = jget m ''valid_loss_tokens_per_domain''; realized = jget m ''realized_valid_loss_token_weights'';
          total = sum_list (domain_ints valid) in
      if set (jkeys valid) \<noteq> set domain_order
          \<or> list_ex (\<lambda>d. \<not> int_like (jget valid d) \<or> jint_of (jget valid d) < 0) domain_order
      then Inl (ValueError ''Order valid-loss-token counts are invalid'')
      else if set (jkeys realized) \<noteq> set domain_order
      then Inl (ValueError ''Order realized valid-loss-token weights are inconsistent'')
      else close_domains ''Order realized valid-loss-token weights are inconsistent'' realized
        (map (\<lambda>n. if total = 0 then 0 else py_div (of_int n) (of_int total)) (domain_ints valid)))"

section \<open>Every selected row occurs once\<close>

text \<open>The selected rows of one domain in one chunk, against the domain's array of seen rows.\<close>

definition mark_rows :: "bool list \<Rightarrow> nat list \<Rightarrow> bool list" where
  "mark_rows seen rs = fold (\<lambda>r s. s[r := True]) rs seen"

definition validate_selected :: "bool list \<Rightarrow> nat list \<Rightarrow> bool list res" where
  "validate_selected seen selected =
     (if selected = [] then Inr seen
      else if list_ex (\<lambda>r. length seen \<le> r) selected
      then Inl (ValueError ''Order row ID is out of range'')
      else if \<not> distinct selected \<or> list_ex (\<lambda>r. seen ! r) selected
      then Inl (ValueError ''Order contains a duplicate row'')
      else Inr (mark_rows seen selected))"

definition rows_of_domain :: "64 word list \<Rightarrow> nat \<Rightarrow> nat list" where
  "rows_of_domain ws k = map snd (filter (\<lambda>(d, r). d = k) (map decode_reference ws))"

definition validate_order_chunk :: "bool list list \<Rightarrow> 64 word list \<Rightarrow> bool list list res" where
  "validate_order_chunk seen chunk =
     (if list_ex (\<lambda>w. length domain_order \<le> fst (decode_reference w)) chunk
      then Inl (ValueError ''Order contains an invalid domain ID'')
      else mapM (\<lambda>k. validate_selected (seen ! k) (rows_of_domain chunk k)) [0..<length domain_order])"

definition order_chunk_rows :: nat where "order_chunk_rows = 1000000"

definition observe_chunk :: "nat option \<Rightarrow> nat \<Rightarrow> 64 word list \<Rightarrow> nat list \<Rightarrow> nat list" where
  "observe_chunk consumed_rows begin_row chunk observed =
     (case consumed_rows of None \<Rightarrow> observed
      | Some consumed \<Rightarrow> if begin_row < consumed
          then map (\<lambda>k. observed ! k + length (filter (\<lambda>w. fst (decode_reference w) = k)
                 (take (min (length chunk) (consumed - begin_row)) chunk))) [0..<length domain_order]
          else observed)"

definition order_chunk_step ::
  "nat option \<Rightarrow> nat \<times> bool list list \<times> nat list \<Rightarrow> 64 word list \<Rightarrow> (nat \<times> bool list list \<times> nat list) res" where
  "order_chunk_step consumed_rows state chunk =
     (let (begin_row, seen, observed) = state in
      rbind (validate_order_chunk seen chunk) (\<lambda>seen'.
        Inr (begin_row + order_chunk_rows, seen', observe_chunk consumed_rows begin_row chunk observed)))"

definition scan_order :: "nat list \<Rightarrow> nat option \<Rightarrow> 64 word list \<Rightarrow> (bool list list \<times> nat list) res" where
  "scan_order available consumed_rows order =
     rbind (foldM (order_chunk_step consumed_rows)
              (0, map (\<lambda>n. replicate n False) available, replicate (length domain_order) 0)
              (chunks_of order_chunk_rows order)) (\<lambda>(_, seen, observed). Inr (seen, observed))"

section \<open>The accounting recomputed from the packed rows\<close>

definition validate_packed_fields :: "json \<Rightarrow> string \<Rightarrow> dir \<Rightarrow> unit res" where
  "validate_packed_fields m domain d =
     rbind (load_json d manifest_name) (\<lambda>pm. rbind (parse_packed_manifest pm) (\<lambda>_.
     if list_ex (\<lambda>(field, expected). \<not> py_eq (jget pm field) expected)
         [(''domain'', JStr domain),
          (''rows'', jget (jget m ''packed_available_rows_per_domain'') domain),
          (''input_tokens'', jget (jget m ''packed_available_input_tokens_per_domain'') domain),
          (''valid_loss_tokens'', jget (jget m ''packed_available_supervised_tokens_per_domain'') domain),
          (''split'', jget m ''split''), (''sequence_length'', jget m ''sequence_length''),
          (''vocab_size'', jget m ''vocab_size''), (''eos_token_id'', jget m ''eos_token_id''),
          (''tokenizer_manifest_sha256'', jget m ''tokenizer_manifest_sha256'')]
     then Inl (ValueError ''Order field differs from packed manifest'') else Inr ()))"

text \<open>\<^verbatim>\<open>np.flatnonzero(~seen)\<close> of every domain, encoded.\<close>

definition unseen_references :: "bool list list \<Rightarrow> 64 word list" where
  "unseen_references seen = concat (map (\<lambda>k. encoded_domain_references k
     (map word_of_nat (filter (\<lambda>r. \<not> seen ! k ! r) [0..<length (seen ! k)]))) [0..<length domain_order])"

definition validate_accounting ::
  "locator \<Rightarrow> dir \<Rightarrow> json \<Rightarrow> 64 word list \<Rightarrow> json \<Rightarrow> bool list list \<Rightarrow> unit res" where
  "validate_accounting locate d m order consumed_rows seen =
     (let T = nat (jint_of (jget m ''sequence_length'')); c = jget m ''training_consumption'';
          available = domain_ints (jget m ''packed_available_supervised_tokens_per_domain'') in
      rbind (resolve_order_manifests locate d) (\<lambda>resolved.
      let manifests = (\<lambda>domain. the (map_of resolved domain)) in
      rbind (if consumed_rows = JNull then Inr ()
             else rbind (count_supervised manifests T (drop (jnum_nat consumed_rows) order)) (\<lambda>dropped.
               rbind (jitem c ''dropped_supervised_tokens_per_domain'') (\<lambda>expected.
               if \<not> eq_domains expected (map int dropped)
               then Inl (ValueError ''Training-consumption supervised counts differ from the frozen order suffix'')
               else Inr ()))) (\<lambda>_.
      rbind (mapM (\<lambda>domain. validate_packed_fields m domain (manifests domain)) domain_order) (\<lambda>_.
      rbind (if jnum_nat (jget m ''packed_surplus_rows'') \<le> jnum_nat (jget m ''rows'')
             then rbind (count_supervised manifests T (unseen_references seen)) (\<lambda>surplus.
               Inr (sub_lists available (map int surplus), map int surplus))
             else rbind (count_supervised manifests T order) (\<lambda>selected.
               Inr (map int selected, sub_lists available (map int selected)))) (\<lambda>(selected, surplus).
      if \<not> eq_domains (jget m ''valid_loss_tokens_per_domain'') selected
      then Inl (ValueError ''Order selected supervised-token counts differ from source rows'')
      else if \<not> eq_domains (jget m ''packed_surplus_supervised_tokens_per_domain'') surplus
      then Inl (ValueError ''Order packed-surplus supervised-token counts differ from source rows'')
      else Inr ())))))"

section \<open>The whole validation\<close>

definition validate_training_order :: "locator \<Rightarrow> bool \<Rightarrow> dir \<Rightarrow> json res" where
  "validate_training_order locate verify_dataset_manifest_hashes d =
     rbind (load_order_manifest True d) (\<lambda>(m, payload).
     rbind (validate_weights m) (\<lambda>weights.
     rbind (validate_input_tokens m) (\<lambda>_.
     rbind (validate_budget m weights) (\<lambda>_.
     rbind (validate_supervised m) (\<lambda>_.
     let c = jget m ''training_consumption''; order = map_order payload in
     rbind (jitem c ''consumed_rows'') (\<lambda>consumed_rows.
     rbind (scan_order (map nat (domain_ints (jget m ''packed_available_rows_per_domain'')))
              (if consumed_rows = JNull then None else Some (jnum_nat consumed_rows)) order)
       (\<lambda>(seen, observed).
     if list_ex (\<lambda>(s, n). int (length (filter (\<lambda>b. b) s)) \<noteq> n)
         (zip seen (domain_ints (jget m ''rows_per_domain'')))
     then Inl (ValueError ''Order selected-row count differs'')
     else rbind (if consumed_rows = JNull then Inr () else
           rbind (jitem c ''consumed_rows_per_domain'') (\<lambda>expected.
             if \<not> eq_domains expected (map int observed)
             then Inl (ValueError ''Training-consumption per-domain counts differ from the frozen order prefix'')
             else Inr ())) (\<lambda>_.
     rbind (if verify_dataset_manifest_hashes then validate_accounting locate d m order consumed_rows seen
            else Inr ()) (\<lambda>_. Inr m)))))))))"

end
