(* ===== verification/OrderValidateFacts.thy ===== *)
theory OrderValidateFacts
  imports OrderValidate
begin

text \<open>
  What validation proves of an order: the chunked scan with one array of seen rows per domain
  accepts exactly the orders in which every reference is addressable and none repeats; and the
  orders the builder writes over packed directories are accepted.
\<close>

section \<open>One domain of one chunk\<close>

definition seen_rows :: "nat \<Rightarrow> nat list \<Rightarrow> bool list" where
  "seen_rows n rs = map (\<lambda>r. r \<in> set rs) [0..<n]"

lemma length_seen_rows [simp]: "length (seen_rows n rs) = n"
  by (simp add: seen_rows_def)

lemma nth_seen_rows [simp]: "r < n \<Longrightarrow> seen_rows n rs ! r \<longleftrightarrow> r \<in> set rs"
  by (simp add: seen_rows_def)

lemma mark_rows_seen: "\<forall>r\<in>set sel. r < n \<Longrightarrow> mark_rows (seen_rows n rs) sel = seen_rows n (rs @ sel)"
proof (induction sel arbitrary: rs)
  case Nil
  then show ?case by (simp add: mark_rows_def)
next
  case (Cons r sel)
  have "(seen_rows n rs)[r := True] = seen_rows n (rs @ [r])"
    using Cons.prems by (intro nth_equalityI) (auto simp: nth_list_update)
  then have "mark_rows (seen_rows n rs) (r # sel) = mark_rows (seen_rows n (rs @ [r])) sel"
    by (simp add: mark_rows_def)
  with Cons show ?case by simp
qed

lemma validate_selected_iff:
  "validate_selected (seen_rows n rs) sel = Inr s \<longleftrightarrow>
     (\<forall>r\<in>set sel. r < n) \<and> distinct sel \<and> set sel \<inter> set rs = {} \<and> s = seen_rows n (rs @ sel)"
proof (cases "\<forall>r\<in>set sel. r < n")
  case False
  then have "sel \<noteq> []" "list_ex (\<lambda>r. length (seen_rows n rs) \<le> r) sel"
    by (auto simp: list_ex_iff not_less)
  with False show ?thesis by (simp add: validate_selected_def)
next
  case True
  then have "list_ex (\<lambda>r. seen_rows n rs ! r) sel \<longleftrightarrow> set sel \<inter> set rs \<noteq> {}"
    by (auto simp: list_ex_iff)
  moreover from True have "\<not> list_ex (\<lambda>r. length (seen_rows n rs) \<le> r) sel" by (auto simp: list_ex_iff)
  ultimately show ?thesis
    using True by (auto simp: validate_selected_def mark_rows_seen)
qed

section \<open>The whole scan\<close>

definition seen_of :: "nat list \<Rightarrow> 64 word list \<Rightarrow> bool list list" where
  "seen_of available ws = map (\<lambda>k. seen_rows (available ! k) (rows_of_domain ws k)) [0..<length domain_order]"

text \<open>Every reference is addressable and none repeats.\<close>

definition order_ok :: "nat list \<Rightarrow> 64 word list \<Rightarrow> bool" where
  "order_ok available ws \<longleftrightarrow> (\<forall>w\<in>set ws. fst (decode_reference w) < length domain_order) \<and>
     (\<forall>k < length domain_order. (\<forall>r\<in>set (rows_of_domain ws k). r < available ! k) \<and>
        distinct (rows_of_domain ws k))"

lemma rows_of_domain_append [simp]: "rows_of_domain (xs @ ys) k = rows_of_domain xs k @ rows_of_domain ys k"
  by (simp add: rows_of_domain_def)

lemma list_all2_map_upt:
  "list_all2 P [0..<n] ys \<longleftrightarrow> length ys = n \<and> (\<forall>k<n. P k (ys ! k))"
  by (auto simp: list_all2_conv_all_nth)

lemma validate_order_chunk_iff:
  assumes "order_ok available ws"
  shows "validate_order_chunk (seen_of available ws) chunk = Inr s \<longleftrightarrow>
     order_ok available (ws @ chunk) \<and> s = seen_of available (ws @ chunk)"
proof (cases "\<forall>w\<in>set chunk. fst (decode_reference w) < length domain_order")
  case False
  then show ?thesis by (auto simp: validate_order_chunk_def list_ex_iff order_ok_def not_less)
next
  case True
  let ?n = "length domain_order"
  have e: "validate_order_chunk (seen_of available ws) chunk = Inr s \<longleftrightarrow> length s = ?n \<and>
      (\<forall>k < ?n. validate_selected (seen_rows (available ! k) (rows_of_domain ws k)) (rows_of_domain chunk k)
         = Inr (s ! k))"
    using True by (auto simp: validate_order_chunk_def list_ex_iff not_less mapM_eq_Inr list_all2_map_upt
        seen_of_def)
  have s: "s = seen_of available (ws @ chunk) \<longleftrightarrow> length s = ?n \<and>
      (\<forall>k < ?n. s ! k = seen_rows (available ! k) (rows_of_domain (ws @ chunk) k))"
    unfolding seen_of_def by (auto intro!: nth_equalityI)
  show ?thesis
    unfolding e s validate_selected_iff using assms True
    by (auto simp: order_ok_def Int_commute)
qed

lemma order_ok_prefix: "order_ok available (xs @ ys) \<Longrightarrow> order_ok available xs"
  by (auto simp: order_ok_def)

definition observed_counts :: "nat option \<Rightarrow> 64 word list \<Rightarrow> nat list" where
  "observed_counts consumed ws = map (\<lambda>k. case consumed of None \<Rightarrow> 0
     | Some c \<Rightarrow> length (filter (\<lambda>w. fst (decode_reference w) = k) (take c ws))) [0..<length domain_order]"

lemma observe_chunk_counts:
  "observe_chunk consumed (length ws) chunk (observed_counts consumed ws) = observed_counts consumed (ws @ chunk)"
proof (cases consumed)
  case (Some c)
  have "take (min (length chunk) (c - length ws)) chunk = take (c - length ws) chunk" by (simp add: min_def)
  then show ?thesis by (simp add: Some observe_chunk_def observed_counts_def)
qed (simp add: observe_chunk_def observed_counts_def)

lemma order_scan_steps:
  "order_ok available ws \<Longrightarrow>
     (\<exists>n. foldM (order_chunk_step consumed) (length ws, seen_of available ws, observed_counts consumed ws)
        (chunks_of order_chunk_rows xs) = Inr (n, s, obs)) \<longleftrightarrow>
     order_ok available (ws @ xs) \<and> s = seen_of available (ws @ xs) \<and> obs = observed_counts consumed (ws @ xs)"
proof (induction xs arbitrary: ws rule: length_induct)
  case (1 xs)
  let ?N = order_chunk_rows
  let ?step = "order_chunk_step consumed"
  have N: "0 < ?N" by (simp add: order_chunk_rows_def)
  show ?case
  proof (cases "xs = []")
    case True
    with 1(2) show ?thesis by auto
  next
    case False
    let ?c = "take ?N xs" and ?r = "drop ?N xs"
    let ?st = "\<lambda>n. (n, seen_of available (ws @ ?c), observed_counts consumed (ws @ ?c))"
    have ch: "chunks_of ?N xs = ?c # chunks_of ?N ?r" using N False by (rule chunks_of_step)
    have step: "?step (length ws, seen_of available ws, observed_counts consumed ws) ?c = Inr t \<longleftrightarrow>
        order_ok available (ws @ ?c) \<and> t = ?st (length ws + ?N)" for t
      using validate_order_chunk_iff [OF 1(2), of ?c]
      by (auto simp: order_chunk_step_def rbind_eq_Inr observe_chunk_counts)
    have "(\<exists>n. foldM ?step (?st (length ws + ?N)) (chunks_of ?N ?r) = Inr (n, s, obs)) \<longleftrightarrow>
        (\<exists>n. foldM ?step (?st (length (ws @ ?c))) (chunks_of ?N ?r) = Inr (n, s, obs))"
      by (cases "?r = []") auto
    moreover have "order_ok available (ws @ ?c) \<Longrightarrow>
        (\<exists>n. foldM ?step (?st (length (ws @ ?c))) (chunks_of ?N ?r) = Inr (n, s, obs)) \<longleftrightarrow>
        order_ok available (ws @ xs) \<and> s = seen_of available (ws @ xs) \<and> obs = observed_counts consumed (ws @ xs)"
      using 1(1) [rule_format, of ?r "ws @ ?c"] False N by simp
    moreover have "order_ok available (ws @ xs) \<Longrightarrow> order_ok available (ws @ ?c)"
      using order_ok_prefix [of available "ws @ ?c" ?r] by simp
    ultimately show ?thesis unfolding ch foldM.simps rbind_eq_Inr step by blast
  qed
qed

theorem scan_order_iff:
  assumes len: "length available = length domain_order"
  shows "scan_order available consumed order = Inr (seen, observed) \<longleftrightarrow>
     order_ok available order \<and> seen = seen_of available order \<and> observed = observed_counts consumed order"
proof -
  have 0: "map (\<lambda>n. replicate n False) available = seen_of available []"
    by (rule nth_equalityI) (simp_all add: len seen_of_def seen_rows_def rows_of_domain_def map_replicate_const)
  have 1: "replicate (length domain_order) 0 = observed_counts consumed []"
    by (rule nth_equalityI) (simp_all add: observed_counts_def split: option.splits)
  have "order_ok available []" by (simp add: order_ok_def rows_of_domain_def)
  from order_scan_steps [OF this, of consumed order seen observed] show ?thesis
    unfolding scan_order_def 0 1 rbind_eq_Inr by auto
qed

section \<open>What an accepted order is\<close>

lemma decode_reference_inj: "decode_reference v = decode_reference w \<Longrightarrow> v = w"
proof -
  assume "decode_reference v = decode_reference w"
  then have "drop_bit row_bits v = drop_bit row_bits w" "take_bit row_bits v = take_bit row_bits w"
    unfolding decode_reference_def prod.inject by (auto dest!: unsigned_word_eqI)
  then show "v = w" by (metis bits_ident)
qed

lemma rows_of_domain_count:
  "length (rows_of_domain ws k) = length (filter (\<lambda>w. fst (decode_reference w) = k) ws)"
  by (induction ws) (auto simp: rows_of_domain_def split: prod.splits)

lemma set_rows_of_domain: "r \<in> set (rows_of_domain ws k) \<longleftrightarrow> (\<exists>w\<in>set ws. decode_reference w = (k, r))"
  unfolding rows_of_domain_def by (induction ws) (auto split: prod.splits)

lemma domain_rows_bound:
  assumes "\<forall>w\<in>set ws. fst (decode_reference w) < n"
  shows "(\<forall>k < n. \<forall>r\<in>set (rows_of_domain ws k). r < available ! k) \<longleftrightarrow>
     (\<forall>w\<in>set ws. snd (decode_reference w) < available ! fst (decode_reference w))"
proof
  assume l: "\<forall>k < n. \<forall>r\<in>set (rows_of_domain ws k). r < available ! k"
  have "snd (decode_reference w) \<in> set (rows_of_domain ws (fst (decode_reference w)))" if "w \<in> set ws" for w
    unfolding set_rows_of_domain using that by (intro bexI [of _ w]) simp_all
  with l assms show "\<forall>w\<in>set ws. snd (decode_reference w) < available ! fst (decode_reference w)" by blast
next
  assume "\<forall>w\<in>set ws. snd (decode_reference w) < available ! fst (decode_reference w)"
  then show "\<forall>k < n. \<forall>r\<in>set (rows_of_domain ws k). r < available ! k"
    by (metis fst_conv snd_conv set_rows_of_domain)
qed

lemma order_ok_iff:
  "order_ok available ws \<longleftrightarrow> distinct ws \<and>
     (\<forall>w\<in>set ws. fst (decode_reference w) < length domain_order \<and>
        snd (decode_reference w) < available ! fst (decode_reference w))"
proof -
  have d: "\<forall>w\<in>set ws. fst (decode_reference w) < n \<Longrightarrow>
      (\<forall>k < n. distinct (rows_of_domain ws k)) \<longleftrightarrow> distinct ws" for n
  proof (induction ws)
    case (Cons w ws)
    obtain d r where w: "decode_reference w = (d, r)" by (cases "decode_reference w")
    have "rows_of_domain (w # ws) k = (if k = d then [r] else []) @ rows_of_domain ws k" for k
      by (simp add: rows_of_domain_def w)
    moreover have "r \<in> set (rows_of_domain ws d) \<longleftrightarrow> w \<in> set ws"
      unfolding set_rows_of_domain using w decode_reference_inj by metis
    moreover have "d < n" using Cons.prems w by simp
    ultimately show ?case using Cons by (auto split: if_splits)
  qed (simp add: rows_of_domain_def)
  show ?thesis
    unfolding order_ok_def using d [of "length domain_order"] domain_rows_bound [of ws "length domain_order" available]
    by blast
qed

lemma filter_seen_rows:
  assumes "distinct rs" and "\<forall>r\<in>set rs. r < n"
  shows "length (filter (\<lambda>b. b) (seen_rows n rs)) = length rs"
proof -
  have "length (filter (\<lambda>b. b) (seen_rows n rs)) = card ({r. r < n \<and> r \<in> set rs})"
    by (simp add: seen_rows_def filter_map o_def length_filter_conv_card) (auto intro!: arg_cong [where f = card])
  also have "{r. r < n \<and> r \<in> set rs} = set rs" using assms(2) by auto
  finally show ?thesis using assms(1) by (simp add: distinct_card)
qed

lemma length_domain_ints [simp]: "length (domain_ints v) = length domain_order"
  by (simp add: domain_ints_def)

theorem validated_order:
  assumes "validate_training_order locate verify d = Inr m"
  obtains payload where "load_order_manifest True d = Inr (m, payload)"
    and "order_ok (map nat (domain_ints (jget m ''packed_available_rows_per_domain''))) (map_order payload)"
    and "\<And>k. k < length domain_order \<Longrightarrow>
      int (length (filter (\<lambda>w. fst (decode_reference w) = k) (map_order payload)))
        = domain_ints (jget m ''rows_per_domain'') ! k"
    and "jget (jget m ''training_consumption'') ''consumed_rows'' = JNull \<or>
      eq_domains (jget (jget m ''training_consumption'') ''consumed_rows_per_domain'')
        (map int (observed_counts (Some (jnum_nat (jget (jget m ''training_consumption'') ''consumed_rows'')))
          (map_order payload)))"
proof -
  let ?c = "jget m ''training_consumption''"
  let ?av = "map nat (domain_ints (jget m ''packed_available_rows_per_domain''))"
  from assms obtain payload consumed seen observed where
    l: "load_order_manifest True d = Inr (m, payload)"
    and c: "jitem ?c ''consumed_rows'' = Inr consumed"
    and s: "scan_order ?av (if consumed = JNull then None else Some (jnum_nat consumed)) (map_order payload)
       = Inr (seen, observed)"
    and n: "\<not> list_ex (\<lambda>(s, n). int (length (filter (\<lambda>b. b) s)) \<noteq> n)
       (zip seen (domain_ints (jget m ''rows_per_domain'')))"
    and e: "(if consumed = JNull then Inr () else rbind (jitem ?c ''consumed_rows_per_domain'') (\<lambda>expected.
       if \<not> eq_domains expected (map int observed)
       then Inl (ValueError ''Training-consumption per-domain counts differ from the frozen order prefix'')
       else Inr ())) = Inr ()"
    unfolding validate_training_order_def Let_def rbind_eq_Inr by (auto simp: res_simps)
  from s have ok: "order_ok ?av (map_order payload)"
    and se: "seen = seen_of ?av (map_order payload)"
    and ob: "observed = observed_counts (if consumed = JNull then None else Some (jnum_nat consumed)) (map_order payload)"
    by (simp_all add: scan_order_iff)
  have cj: "consumed = jget ?c ''consumed_rows''" using c by (auto simp: jitem_def split: if_splits)
  have count: "int (length (filter (\<lambda>w. fst (decode_reference w) = k) (map_order payload)))
      = domain_ints (jget m ''rows_per_domain'') ! k" if k: "k < length domain_order" for k
  proof -
    have "(seen ! k, domain_ints (jget m ''rows_per_domain'') ! k)
        \<in> set (zip seen (domain_ints (jget m ''rows_per_domain'')))"
      using k nth_mem [of k "zip seen (domain_ints (jget m ''rows_per_domain''))"] by (simp add: se seen_of_def)
    with n have "int (length (filter (\<lambda>b. b) (seen ! k))) = domain_ints (jget m ''rows_per_domain'') ! k"
      unfolding list_ex_iff by auto
    moreover have "length (filter (\<lambda>b. b) (seen ! k)) = length (rows_of_domain (map_order payload) k)"
      using ok k by (simp add: se seen_of_def order_ok_def filter_seen_rows)
    ultimately show ?thesis by (simp add: rows_of_domain_count)
  qed
  have "jget ?c ''consumed_rows'' = JNull \<or> eq_domains (jget ?c ''consumed_rows_per_domain'')
      (map int (observed_counts (Some (jnum_nat (jget ?c ''consumed_rows''))) (map_order payload)))"
    using e unfolding ob cj by (auto simp: res_simps jitem_def split: if_splits)
  from that [OF l ok count this] show thesis .
qed

end
