(* ===== verification/OrderValidateBuilt.thy ===== *)
theory OrderValidateBuilt
  imports OrderValidateFacts
begin

text \<open>
  The builder's orders validate: every check of \<^verbatim>\<open>validate_training_order\<close>, the scan of the
  references and the recount of supervised tokens included, passes on the directory
  \<^verbatim>\<open>build_training_order\<close> leaves over packed directories.
\<close>

section \<open>Checks the reader has made already\<close>

lemma eq_int_py_eq: "eq_int a i \<Longrightarrow> eq_int b i \<Longrightarrow> py_eq a b"
  by (cases a; cases b) (auto simp: eq_int_def)

lemma eq_int_floor: "eq_int v i \<Longrightarrow> \<lfloor>the (jnum v)\<rfloor> = i"
  by (simp add: eq_int_jnum)

lemma eq_int_refl [simp]: "eq_int (JInt i) i"
  by (simp add: eq_int_def)

lemma positive_int_eq: "positive_int v \<Longrightarrow> v = JInt (jint_of v)"
  by (cases v) (simp_all add: positive_int_def)

lemma frozen_consumed_tokens:
  assumes "order_consumption m = Inr ()"
    and g: "jget (jget m ''training_consumption'') ''frozen_global_microbatch_rows'' \<noteq> JNull"
  defines "c \<equiv> jget m ''training_consumption''"
  defines "u \<equiv> jint_of (jget c ''frozen_global_microbatch_rows'') * jint_of (jget c ''frozen_gradient_accumulation_steps'')"
  shows "eq_int (jget c ''consumed_input_tokens'')
      (jint_of (jget m ''rows'') div u * u * jint_of (jget m ''sequence_length''))"
proof -
  from assms(1) g have "order_frozen m c = Inr ()"
    by (auto simp: order_consumption_def Let_def c_def res_simps)
  then have "\<not> list_ex (\<lambda>(k, v). \<not> eq_int (jget c k) v)
      (frozen_scalars (jint_of (jget m ''rows'')) (jint_of (jget m ''sequence_length''))
        (jint_of (jget c ''frozen_global_microbatch_rows'')) (jint_of (jget c ''frozen_gradient_accumulation_steps'')))"
    unfolding order_frozen_def Let_def check_eq_Inr by blast
  then show ?thesis by (simp add: frozen_scalars_def Let_def u_def)
qed

lemma floor_jnum: "int_like u \<Longrightarrow> 0 \<le> jint_of u \<Longrightarrow> int (nat \<lfloor>the (jnum u)\<rfloor>) = jint_of u"
  by (cases u) (auto simp: int_like_def)

text \<open>The targeted budget: the reader's check and the validator's agree.\<close>

lemma validate_targeted_loaded:
  assumes "targeted_budget m c budget accounted = Inr ()"
    and w: "json_weights (jget m ''expected_input_token_weights'') = Inr normalized"
    and counts: "jget m ''rows_per_domain'' = per_domain JInt xs" "length xs = length domain_order"
    and upd: "jget c ''frozen_optimizer_update_rows'' = JNull \<or> 0 \<le> jint_of (jget c ''frozen_optimizer_update_rows'')"
  shows "validate_targeted m c budget (Some normalized) accounted = Inr ()"
proof -
  let ?T = "jint_of (jget m ''sequence_length'')"
  let ?q = "jint_of (jget budget ''expected_total'') div ?T"
  from assms(1) obtain u cs where f: "positive_int (jget budget ''expected_total'')"
      "nonnegative_int (jget budget ''tolerance'')" "py_eq (jget m ''row_selection'') (JStr ''strict-weighted-token-cap'')"
    and u: "jitem c ''frozen_optimizer_update_rows'' = Inr u"
    and rows: "jint_of (jget m ''rows'') = (if u = JNull then ?q
       else ?q div int (nat \<lfloor>the (jnum u)\<rfloor>) * int (nat \<lfloor>the (jnum u)\<rfloor>))"
    and like: "\<not> (u \<noteq> JNull \<and> \<not> int_like u)"
    and cs': "strict_weighted_row_counts (if u = JNull then ?q
       else ?q div int (nat \<lfloor>the (jnum u)\<rfloor>) * int (nat \<lfloor>the (jnum u)\<rfloor>)) normalized = Inr cs"
    and cs2: "domain_ints (jget m ''rows_per_domain'') = map int cs"
    and d: "eq_int (jget budget ''delta'') (accounted - jint_of (jget budget ''expected_total''))"
      "\<not> 0 < accounted - jint_of (jget budget ''expected_total'')"
      "\<not> accounted - jint_of (jget budget ''expected_total'') < - jint_of (jget budget ''tolerance'')"
    unfolding targeted_budget_def Let_def w rbind_Inr rbind_eq_Inr check_eq_Inr not_not de_Morgan_disj
    by (elim conjE exE) (rule that; assumption)
  note cs = cs' [folded rows] cs2
  have "u = jget c ''frozen_optimizer_update_rows''" using u by (simp add: jitem_def split: if_splits)
  with upd like have "u \<noteq> JNull \<Longrightarrow> int (nat \<lfloor>the (jnum u)\<rfloor>) = jint_of u"
    using floor_jnum by blast
  with rows have r: "jint_of (jget m ''rows'') = (if u = JNull then ?q else ?q div jint_of u * jint_of u)" by simp
  have xs: "xs = map int cs" using cs(2) counts by (simp add: domain_ints_per_domain)
  have lc: "length cs = length domain_order" using counts(2) by (simp add: xs)
  from f(1,2) have like': "int_like (jget budget ''expected_total'')" "int_like (jget budget ''tolerance'')"
    "1 \<le> jint_of (jget budget ''expected_total'')" "0 \<le> jint_of (jget budget ''tolerance'')"
    by (simp_all add: positive_int_def nonnegative_int_def int_like_def)
  show ?thesis
    unfolding validate_targeted_def Let_def option.case u rbind_Inr r [symmetric] counts(1) xs cs(1)
    using like' f(3) d lc by (simp add: eq_domains_per_domain)
qed

lemma validate_budget_loaded:
  assumes rows: "order_rows m = Inr ()" and cons: "order_consumption m = Inr ()" and b: "order_budget m = Inr ()"
    and pos: "positive_int (jget m ''rows'')"
    and w: "jget (jget m ''input_token_budget'') ''expected_total'' \<noteq> JNull \<Longrightarrow>
       \<exists>n. weights = Some n \<and> json_weights (jget m ''expected_input_token_weights'') = Inr n"
    and counts: "jget m ''rows_per_domain'' = per_domain JInt xs" "length xs = length domain_order"
    and upd: "jget (jget m ''training_consumption'') ''frozen_optimizer_update_rows'' = JNull \<or>
       0 \<le> jint_of (jget (jget m ''training_consumption'') ''frozen_optimizer_update_rows'')"
    and keys: "''frozen_global_microbatch_rows'' \<in> set (jkeys (jget m ''training_consumption''))"
      "''consumed_input_tokens'' \<in> set (jkeys (jget m ''training_consumption''))"
  shows "validate_budget m weights = Inr ()"
proof -
  define c where "c = jget m ''training_consumption''"
  define budget where "budget = jget m ''input_token_budget''"
  define g where "g = jget c ''frozen_global_microbatch_rows''"
  let ?R = "jint_of (jget m ''rows'')" and ?T = "jint_of (jget m ''sequence_length'')"
  let ?av = "domain_ints (jget m ''packed_available_rows_per_domain'')"
    and ?su = "domain_ints (jget m ''packed_surplus_rows_per_domain'')"
  let ?u = "jint_of g * jint_of (jget c ''frozen_gradient_accumulation_steps'')"
  define acc where "acc = (if g = JNull then ?R * ?T else ?R div ?u * ?u * ?T)"
  from b have f: "is_jobj budget" "py_eq (jget budget ''policy'')
        (JStr ''packed_model_inputs_including_eos_excluding_lookahead_duplicates'')"
      "py_eq (jget budget ''direction'') (JStr ''at_or_below'')" "eq_int (jget budget ''available_total'') (?R * ?T)"
      "eq_int (jget budget ''packed_available_total'') (sum_list (map (\<lambda>n. n * ?T) ?av))"
      "eq_int (jget budget ''packed_surplus_total'') (sum_list (map (\<lambda>n. n * ?T) ?su))"
      "py_eq (jget budget ''accounting'') (JStr (if g = JNull then ''available-order-inputs''
               else ''consumed-complete-optimizer-update-inputs''))"
      "eq_int (jget budget ''actual_total'') acc"
    and last: "(if jget budget ''expected_total'' = JNull
      then if \<not> py_eq (jget m ''row_selection'') (JStr ''all-packed-rows'')
              \<or> jget budget ''delta'' \<noteq> JNull \<or> jget budget ''tolerance'' \<noteq> JNull \<or> sum_list ?su \<noteq> 0
           then Inl (ValueError ''Untargeted order selection/budget is invalid'') else Inr ()
      else targeted_budget m c budget acc) = Inr ()"
    unfolding order_budget_def Let_def c_def [symmetric] budget_def [symmetric] g_def [symmetric]
      acc_def [symmetric] check_eq_Inr de_Morgan_disj not_not by blast+
  from rows have r: "eq_int (jget m ''packed_available_rows'') (sum_list ?av)"
      "eq_int (jget m ''packed_surplus_rows'') (sum_list ?su)" "sum_list ?av = ?R + sum_list ?su"
      "eq_int (jget m ''packed_available_input_tokens'') (sum_list (map (\<lambda>n. n * ?T) ?av))"
      "eq_int (jget m ''packed_surplus_input_tokens'') (sum_list (map (\<lambda>n. n * ?T) ?su))"
    unfolding order_rows_def Let_def check_eq_Inr de_Morgan_disj not_not by blast+
  have item: "jitem c ''frozen_global_microbatch_rows'' = Inr g"
      "jitem c ''consumed_input_tokens'' = Inr (jget c ''consumed_input_tokens'')"
    using keys by (simp_all add: jitem_def c_def g_def)
  define a where "a = (if g = JNull then JInt (?R * ?T) else jget c ''consumed_input_tokens'')"
  have ea: "eq_int a acc"
    using frozen_consumed_tokens [OF cons] by (simp add: a_def acc_def g_def c_def)
  have acc_item: "(if g = JNull then Inr (JInt (?R * ?T)) else jitem c ''consumed_input_tokens'') = Inr a"
    by (simp add: a_def item(2))
  have pe: "py_eq (jget budget ''packed_available_total'') (jget m ''packed_available_input_tokens'')"
    "py_eq (jget budget ''packed_surplus_total'') (jget m ''packed_surplus_input_tokens'')"
    "py_eq (jget budget ''actual_total'') a"
    by (rule eq_int_py_eq [OF f(5) r(4)] eq_int_py_eq [OF f(6) r(5)] eq_int_py_eq [OF f(8) ea])+
  have fin: "(if jget budget ''expected_total'' = JNull
      then if jget budget ''delta'' \<noteq> JNull \<or> jget budget ''tolerance'' \<noteq> JNull
           then Inl (ValueError ''Untargeted order has invalid budget delta/tolerance'')
           else if \<not> py_eq (jget m ''row_selection'') (JStr ''all-packed-rows'')
           then Inl (ValueError ''Untargeted order must select every packed row'')
           else if \<not> eq_int (jget m ''packed_surplus_rows'') 0
               \<or> \<not> py_eq (jget m ''packed_available_rows'') (jget m ''rows'')
           then Inl (ValueError ''Untargeted order has an unexpected packed surplus'')
           else Inr ()
      else validate_targeted m c budget weights (\<lfloor>the (jnum a)\<rfloor>)) = Inr ()"
  proof (cases "jget budget ''expected_total'' = JNull")
    case True
    with last have z: "sum_list ?su = 0" "jget budget ''delta'' = JNull" "jget budget ''tolerance'' = JNull"
      "py_eq (jget m ''row_selection'') (JStr ''all-packed-rows'')" by (auto simp: res_simps)
    have "py_eq (jget m ''packed_available_rows'') (jget m ''rows'')"
      using r(1,3) positive_int_eq [OF pos] by (simp add: z(1) eq_int_def)
    with True z r(2) show ?thesis by simp
  next
    case False
    from w False obtain n where n: "weights = Some n"
      "json_weights (jget m ''expected_input_token_weights'') = Inr n" by (auto simp: budget_def)
    from last False have t: "targeted_budget m c budget acc = Inr ()" by simp
    show ?thesis
      using False validate_targeted_loaded [OF t n(2) counts upd [folded c_def]]
      by (simp add: n(1) eq_int_floor [OF ea])
  qed
  show ?thesis
    unfolding validate_budget_def Let_def c_def [symmetric] budget_def [symmetric] item(1) rbind_Inr acc_item fin
    using f pe by simp
qed

section \<open>Realised weights\<close>

lemma close_domains_built:
  assumes "length xs = length domain_order"
    and "\<And>k. k < length domain_order \<Longrightarrow> float_of (f (xs ! k)) = Inr (g (xs ! k))"
  shows "close_domains message (per_domain f xs) (map g xs) = Inr ()"
proof -
  have "mapM (\<lambda>(d, e). rbind (float_of (jget (per_domain f xs) d)) (\<lambda>w.
      if \<not> is_close w e then Inl (ValueError message) else Inr ())) (zip domain_order (map g xs))
    = Inr (map (\<lambda>_. ()) (zip domain_order (map g xs)))"
  proof (rule mapM_Inr_map, clarify)
    fix d e assume "(d, e) \<in> set (zip domain_order (map g xs))"
    then obtain k where k: "k < length domain_order" "d = domain_order ! k" "e = g (xs ! k)"
      using assms(1) by (auto simp: in_set_zip)
    then show "rbind (float_of (jget (per_domain f xs) d)) (\<lambda>w.
        if \<not> is_close w e then Inl (ValueError message) else Inr ()) = Inr ()"
      using assms by (simp add: jget_per_domain)
  qed
  then show ?thesis by (simp add: close_domains_def)
qed

lemma jkeys_per_domain: "length xs = length domain_order \<Longrightarrow> set (jkeys (per_domain f xs)) = set domain_order"
  by (simp add: per_domain_def)

lemma py_div_scaled: "0 < T \<Longrightarrow> py_div (of_int (int n * int T)) (of_int (int N * int T)) = py_div (of_int (int n)) (of_int (int N))"
  by (simp add: py_div_def)

lemma validate_input_built:
  assumes len: "length xs = length domain_order" and T: "2 \<le> T" and N: "0 < N"
    and m: "jget m ''sequence_length'' = jnat T" "jget m ''rows'' = jnat N"
      "jget m ''rows_per_domain'' = per_domain jnat xs"
      "jget m ''input_tokens_per_domain'' = per_domain (\<lambda>n. jnat (n * T)) xs"
      "jget m ''realized_input_token_weights'' = per_domain (\<lambda>n. ratio_json (int N) (int n)) xs"
  shows "validate_input_tokens m = Inr ()"
proof -
  have e: "map (\<lambda>n. py_div (of_int n) (of_int (int N * int T))) (map (\<lambda>n. n * int T) (map int xs))
      = map (\<lambda>n. py_div (of_int (int n)) (of_int (int N))) xs"
    using T py_div_scaled by simp
  have "close_domains msg (per_domain (\<lambda>n. ratio_json (int N) (int n)) xs)
      (map (\<lambda>n. py_div (of_int (int n)) (of_int (int N))) xs) = Inr ()" for msg
    using N by (intro close_domains_built [OF len]) (simp add: ratio_float)
  then show ?thesis
    unfolding validate_input_tokens_def Let_def m jint_of_jnat per_domain_nat(1)
    using T len e
    by (simp add: int_like_def domain_ints_per_domain per_domain_nat(2) eq_domains_per_domain jkeys_per_domain
        del: map_map)
qed

lemma validate_supervised_built:
  assumes len: "length xs = length domain_order" and pos: "\<forall>x\<in>set xs. 0 \<le> x"
    and m: "jget m ''valid_loss_tokens_per_domain'' = per_domain JInt xs"
      "jget m ''realized_valid_loss_token_weights'' = per_domain (ratio_json (sum_list xs)) xs"
  shows "validate_supervised m = Inr ()"
proof -
  have "\<not> list_ex (\<lambda>d. \<not> int_like (jget (per_domain JInt xs) d) \<or> jint_of (jget (per_domain JInt xs) d) < 0) domain_order"
    using len pos nth_mem [of _ xs] unfolding list_ex_iff
    by (auto simp: in_set_conv_nth jget_per_domain int_like_def not_less)
  moreover have "close_domains msg (per_domain (ratio_json (sum_list xs)) xs)
      (map (\<lambda>n. if sum_list xs = 0 then 0 else py_div (of_int n) (of_int (sum_list xs))) xs) = Inr ()" for msg
    by (rule close_domains_built [OF len]) (simp add: ratio_float)
  ultimately show ?thesis
    using len unfolding validate_supervised_def Let_def m domain_ints_per_domain [OF len]
    by (simp add: jkeys_per_domain)
qed

lemma validate_weights_built:
  assumes len: "length xs = length domain_order" and N: "sum_list xs = N"
    and m: "jget m ''rows'' = jnat N" "jget m ''rows_per_domain'' = per_domain jnat xs"
      "jget m ''expected_input_token_weights'' = (case ws of None \<Rightarrow> JNull | Some w \<Rightarrow> per_domain JFloat w)"
    and ws: "\<And>w. ws = Some w \<Longrightarrow> length w = length domain_order \<and>
      normalize_domain_weights (zip domain_order w) = Inr w \<and> validate_row_mixture xs w = Inr ()"
  shows "validate_weights m = Inr ws"
proof -
  have d: "\<not> list_ex (\<lambda>d. \<not> int_like (jget (per_domain jnat xs) d) \<or> jint_of (jget (per_domain jnat xs) d) < 0) domain_order"
    using len unfolding list_ex_iff by (auto simp: in_set_conv_nth jget_per_domain int_like_def)
  have s: "domain_ints (per_domain jnat xs) = map int xs" "map nat (map int xs) = xs" "sum_list (map int xs) = int N"
    using len N by (simp_all add: per_domain_nat(1) domain_ints_per_domain sum_list_int o_def)
  show ?thesis
  proof (cases ws)
    case None
    with d s show ?thesis
      by (simp add: validate_weights_def Let_def m jkeys_per_domain [OF len])
  next
    case (Some w)
    from ws [OF Some] have w: "length w = length domain_order"
      "normalize_domain_weights (zip domain_order w) = Inr w" "validate_row_mixture xs w = Inr ()" by auto
    have "close_domains msg (per_domain JFloat w) (map (\<lambda>x. x) w) = Inr ()" for msg
      by (rule close_domains_built [OF w(1)]) (simp add: float_of_def)
    with d s w show ?thesis
      by (simp add: validate_weights_def Let_def m Some jkeys_per_domain [OF len] json_weights_per_domain
          del: map_map)
  qed
qed

section \<open>The references of a built order\<close>

lemma plan_order_ok:
  assumes p: "plan_training_order shuffle manifests seed weights expected tol gmr ga = Inr p"
    and perm: "permutes_rows shuffle"
  shows "order_ok (o_available_rows p) (o_references p)"
  using plan_every_row(2) [OF p perm] plan_reference_domains [OF p perm]
  by (auto simp: order_ok_iff list_all_iff)

lemma filter_mset_complement:
  assumes "mset xs + mset ys = mset zs" and "distinct (xs @ ys)"
  shows "mset (filter (\<lambda>z. z \<notin> set xs) zs) = mset ys"
proof -
  have "mset (filter (\<lambda>z. z \<notin> set xs) zs) = filter_mset (\<lambda>z. z \<notin> set xs) (mset xs + mset ys)"
    by (simp add: assms(1))
  also have "\<dots> = filter_mset (\<lambda>z. z \<notin> set xs) (mset ys)" by (simp add: filter_mset_eq_conv)
  also have "\<dots> = mset ys" using assms(2) by (auto simp: filter_mset_eq_conv)
  finally show ?thesis .
qed

text \<open>The rows the scan has not seen are the surplus of the builder.\<close>

lemma unseen_surplus:
  assumes p: "plan_training_order shuffle manifests seed weights expected tol gmr ga = Inr p"
    and perm: "permutes_rows shuffle"
  shows "mset (unseen_references (seen_of (o_available_rows p) (o_references p))) = mset (o_surplus p)"
proof -
  let ?av = "o_available_rows p" and ?refs = "o_references p"
  have mem: "r \<in> set (rows_of_domain ?refs k) \<longleftrightarrow> reference_of k r \<in> set ?refs"
    if k: "k < length domain_order" and r: "r < ?av ! k" for k r
  proof -
    have d: "decode_reference (reference_of k r) = (k, r)"
      using k r plan_rows(5) [OF p] by (intro decode_reference_of) (force simp: domain_order_def)+
    show ?thesis unfolding set_rows_of_domain using d decode_reference_inj by metis
  qed
  have "unseen_references (seen_of ?av ?refs)
      = concat (map (\<lambda>k. map (reference_of k) (filter (\<lambda>r. reference_of k r \<notin> set ?refs) [0..<?av ! k]))
          [0..<length domain_order])"
    unfolding unseen_references_def encoded_references
    by (intro arg_cong [where f = concat] map_cong refl) (auto simp: seen_of_def mem intro!: filter_cong)
  also have "\<dots> = filter (\<lambda>w. w \<notin> set ?refs) (every_row ?av)"
    by (simp add: every_row_def filter_concat filter_map o_def)
  finally show ?thesis
    using filter_mset_complement plan_every_row [OF p perm] by simp
qed

lemma row_in_mset: "mset xs = mset ys \<Longrightarrow> list_all (row_in cs) ys \<Longrightarrow> list_all (row_in cs) xs"
  unfolding list_all_iff using mset_eq_setD by blast

lemma supervised_total:
  assumes p: "plan_training_order shuffle manifests seed weights expected tol gmr ga = Inr p"
    and cs: "packed_corpora manifests cs" and perm: "permutes_rows shuffle" and k: "k < length domain_order"
  shows "supervised_in cs (o_references p) k + supervised_in cs (o_surplus p) k = corpus_valid (cs ! k)"
proof -
  have "mset (o_references p @ o_surplus p) = mset (every_row (map corpus_rows cs))"
    using plan_every_row(1) [OF p perm] by (simp add: plan_packed(3) [OF p cs])
  from supervised_in_mset [OF this, of cs k] supervised_every_row [OF cs k] show ?thesis by simp
qed

section \<open>The packed directories are found again\<close>

definition located :: "locator \<Rightarrow> (string \<times> string) list \<Rightarrow> (string \<Rightarrow> dir) \<Rightarrow> bool" where
  "located locate files manifests \<longleftrightarrow> (\<forall>k < length domain_order.
     take 1 (fst (files ! k)) \<noteq> ''/'' \<and>
     locate (fst (files ! k)) = Some (manifests (domain_order ! k), snd (files ! k)))"

lemma corpus_facts:
  assumes cs: "packed_corpora manifests cs" and k: "k < length domain_order"
  obtains c docs cursor where "cs ! k = (c, docs, cursor)" "wf_config c" "docs_ok (c_vocab_size c) docs"
    "cursor_ok cursor" "map_of (manifests (domain_order ! k)) = map_of (packed_dir c docs cursor)"
    "c_domain c = domain_order ! k" "same_format c (corpus_cfg (cs ! 0))"
proof -
  obtain c docs cursor where x: "cs ! k = (c, docs, cursor)" by (cases "cs ! k")
  from cs k have "corpus_ok (manifests (domain_order ! k)) (domain_order ! k) (cs ! k)"
    "same_format (corpus_cfg (cs ! k)) (corpus_cfg (cs ! 0))" unfolding packed_corpora_def by blast+
  with x that show thesis by simp
qed

lemma hd_inputs_fields:
  assumes p: "plan_training_order shuffle manifests seed weights expected tol gmr ga = Inr p"
    and cs: "packed_corpora manifests cs"
  defines "c \<equiv> corpus_cfg (cs ! 0)"
  shows "jget (hd (o_inputs p)) ''split'' = JStr (c_split c)"
    "jget (hd (o_inputs p)) ''vocab_size'' = JInt (int (c_vocab_size c))"
    "jget (hd (o_inputs p)) ''eos_token_id'' = JInt (int (c_eos_token_id c))"
    "jget (hd (o_inputs p)) ''tokenizer_manifest_sha256'' = JStr (c_tokenizer_manifest_sha256 c)"
    "o_sequence_length p = c_sequence_length c" "2 \<le> c_sequence_length c"
proof -
  have z: "0 < length domain_order" by (simp add: domain_order_def)
  from corpus_facts [OF cs z] obtain d docs cursor where x: "cs ! 0 = (d, docs, cursor)"
    and ok: "wf_config d" "docs_ok (c_vocab_size d) docs" "cursor_ok cursor"
      "map_of (manifests (domain_order ! 0)) = map_of (packed_dir d docs cursor)" by metis
  have "cs \<noteq> []" using cs by (auto simp: packed_corpora_def domain_order_def)
  then have "hd (o_inputs p) = packed_manifest d docs cursor"
    by (simp add: plan_packed(1) [OF p cs] hd_map hd_conv_nth x)
  with packed_load [OF ok] ok(1) x
  show "jget (hd (o_inputs p)) ''split'' = JStr (c_split c)"
    "jget (hd (o_inputs p)) ''vocab_size'' = JInt (int (c_vocab_size c))"
    "jget (hd (o_inputs p)) ''eos_token_id'' = JInt (int (c_eos_token_id c))"
    "jget (hd (o_inputs p)) ''tokenizer_manifest_sha256'' = JStr (c_tokenizer_manifest_sha256 c)"
    "2 \<le> c_sequence_length c" by (simp_all add: c_def wf_config_def)
  show "o_sequence_length p = c_sequence_length c" using plan_packed(2) [OF p cs] by (simp add: c_def)
qed

lemma dataset_payload:
  assumes files: "dataset_files_ok files" and k: "k < length domain_order"
  shows "jget (jget (order_manifest e seed np files p) ''dataset_manifests'') (domain_order ! k)
     = JObj [(''path'', JStr (fst (files ! k))), (''sha256'', JStr (snd (files ! k)))]"
proof -
  let ?f = "\<lambda>(path, sha). JObj [(''path'', JStr path), (''sha256'', JStr sha)]"
  have d: "jget (order_manifest e seed np files p) ''dataset_manifests'' = per_domain ?f files"
    by (simp add: order_manifest_fields per_domain_def)
  have "length files = length domain_order" using files by (simp add: dataset_files_ok_def)
  from jget_per_domain [OF this k, of ?f] show ?thesis unfolding d by (simp add: case_prod_unfold)
qed

lemma resolve_manifest_built:
  assumes p: "plan_training_order shuffle manifests seed weights expected tol gmr ga = Inr p"
    and cs: "packed_corpora manifests cs" and files: "dataset_files_ok files"
    and loc: "located locate files manifests" and k: "k < length domain_order"
  shows "resolve_manifest locate (order_manifest e seed np files p) (domain_order ! k)
     = Inr (domain_order ! k, manifests (domain_order ! k))"
proof -
  from corpus_facts [OF cs k] obtain c docs cursor where ok: "wf_config c" "docs_ok (c_vocab_size c) docs"
    "cursor_ok cursor" "map_of (manifests (domain_order ! k)) = map_of (packed_dir c docs cursor)"
    "same_format c (corpus_cfg (cs ! 0))" by metis
  note f = packed_load [OF ok(1-4)]
  from f(2) obtain shards where s: "parse_packed_manifest (packed_manifest c docs cursor) = Inr shards" ..
  from loc k have l: "take 1 (fst (files ! k)) \<noteq> ''/''"
    "locate (fst (files ! k)) = Some (manifests (domain_order ! k), snd (files ! k))"
    by (auto simp: located_def)
  have t: "jget (order_manifest e seed np files p) ''tokenizer_manifest_sha256'' = JStr (c_tokenizer_manifest_sha256 c)"
    using hd_inputs_fields(4) [OF p cs] ok(5) by (simp add: order_manifest_fields same_format_def)
  show ?thesis
    unfolding resolve_manifest_def Let_def dataset_payload [OF files k] t
    using l by (simp add: jfield_def f(1,8) s)
qed

lemma validate_packed_fields_built:
  assumes p: "plan_training_order shuffle manifests seed weights expected tol gmr ga = Inr p"
    and cs: "packed_corpora manifests cs" and k: "k < length domain_order"
  shows "validate_packed_fields (order_manifest e seed np files p) (domain_order ! k)
     (manifests (domain_order ! k)) = Inr ()"
proof -
  from corpus_facts [OF cs k] obtain c docs cursor where x: "cs ! k = (c, docs, cursor)"
    and ok: "wf_config c" "docs_ok (c_vocab_size c) docs"
    "cursor_ok cursor" "map_of (manifests (domain_order ! k)) = map_of (packed_dir c docs cursor)"
    "c_domain c = domain_order ! k" "same_format c (corpus_cfg (cs ! 0))" by metis
  note f = packed_load [OF ok(1-4)] and h = hd_inputs_fields [OF p cs]
  from f(2) obtain shards where s: "parse_packed_manifest (packed_manifest c docs cursor) = Inr shards" ..
  have len: "length cs = length domain_order" using cs by (simp add: packed_corpora_def)
  have "w_rows (packed_state c docs cursor) = packed_rows c (stream_tokens (c_eos_token_id c) docs)"
    by (simp add: packed_state_def Let_def)
  then have inp: "jget (packed_manifest c docs cursor) ''input_tokens''
      = JInt (int (packed_rows c (stream_tokens (c_eos_token_id c) docs) * c_sequence_length c))"
    by (simp add: packed_manifest_def manifest_fields packed_state_counts(1) [OF ok(1,2), of cursor])
  have T: "o_sequence_length p = c_sequence_length c" using h(5) ok(6) by (simp add: same_format_def)
  show ?thesis
    unfolding validate_packed_fields_def f(1) rbind_Inr s order_manifest_fields
    using len k ok(6)
    by (simp add: f(3-10) ok(5) h(1-4) T jget_per_domain plan_packed(3,4) [OF p cs] x inp same_format_def jnat_def)
qed

lemma packed_corpora_cong:
  "packed_corpora manifests cs \<Longrightarrow> (\<And>k. k < length domain_order \<Longrightarrow> f (domain_order ! k) = manifests (domain_order ! k)) \<Longrightarrow>
     packed_corpora f cs"
  unfolding packed_corpora_def by simp

lemma resolve_order_built:
  assumes p: "plan_training_order shuffle manifests seed weights expected tol gmr ga = Inr p"
    and cs: "packed_corpora manifests cs" and files: "dataset_files_ok files" and loc: "located locate files manifests"
    and load: "load_order_manifest False d = Inr (order_manifest e seed np files p, payload)"
  shows "resolve_order_manifests locate d = Inr (map (\<lambda>domain. (domain, manifests domain)) domain_order)"
proof -
  have "mapM (resolve_manifest locate (order_manifest e seed np files p)) domain_order
      = Inr (map (\<lambda>domain. (domain, manifests domain)) domain_order)"
    using resolve_manifest_built [OF p cs files loc] by (intro mapM_Inr_map) (auto simp: in_set_conv_nth)
  then show ?thesis by (simp add: resolve_order_manifests_def load)
qed

lemma consumption_items:
  "jitem (consumption_json p) ''consumed_rows'' = Inr (jget (consumption_json p) ''consumed_rows'')"
  "jitem (consumption_json p) ''consumed_rows_per_domain''
     = Inr (jget (consumption_json p) ''consumed_rows_per_domain'')"
  "jitem (consumption_json p) ''dropped_supervised_tokens_per_domain''
     = Inr (jget (consumption_json p) ''dropped_supervised_tokens_per_domain'')"
  "''frozen_global_microbatch_rows'' \<in> set (jkeys (consumption_json p))"
  "''consumed_input_tokens'' \<in> set (jkeys (consumption_json p))"
  by (simp_all add: jitem_def consumption_json_def Let_def)

lemma consumed_rows_field:
  "jget (consumption_json p) ''consumed_rows''
     = (case o_consumption p of None \<Rightarrow> JNull | Some u \<Rightarrow> jnat (u_rows u))"
  by (simp add: consumption_json_def Let_def jfield_def split: option.split)

lemma jnum_nat_jnat [simp]: "jnum_nat (jnat n) = n"
  by (simp add: jnum_nat_def jnat_def)

text \<open>The recount of supervised tokens.\<close>

lemma validate_accounting_built:
  assumes p: "plan_training_order shuffle manifests seed weights expected tol gmr ga = Inr p"
    and cs: "packed_corpora manifests cs" and perm: "permutes_rows shuffle"
    and files: "dataset_files_ok files" and loc: "located locate files manifests"
    and load: "load_order_manifest False d = Inr (order_manifest e seed np files p, payload)"
  shows "validate_accounting locate d (order_manifest e seed np files p) (o_references p)
     (jget (consumption_json p) ''consumed_rows'') (seen_of (o_available_rows p) (o_references p)) = Inr ()"
proof -
  let ?n = "length domain_order" and ?T = "o_sequence_length p" and ?m = "order_manifest e seed np files p"
  let ?unseen = "unseen_references (seen_of (o_available_rows p) (o_references p))"
  define resolved where "resolved = map (\<lambda>domain. (domain, manifests domain)) domain_order"
  define f where "f = (\<lambda>domain. the (map_of resolved domain))"
  have f: "f (domain_order ! k) = manifests (domain_order ! k)" if "k < ?n" for k
    using that by (simp add: f_def resolved_def map_of_map_restrict)
  have csf: "packed_corpora f cs" by (rule packed_corpora_cong [OF cs f])
  note cnt = count_supervised_rows [OF csf _ plan_packed(2) [OF p cs]]
  note rin = plan_rows_in [OF p cs perm]
  have av: "domain_ints (jget ?m ''packed_available_supervised_tokens_per_domain'') = map int (map corpus_valid cs)"
    using cs by (simp add: order_manifest_fields domain_ints_per_domain plan_packed(4) [OF p cs] packed_corpora_def)
  have lens: "length cs = ?n" "length (o_supervised p) = ?n"
    using cs by (simp_all add: packed_corpora_def plan_supervised_direct(1) [OF p cs perm])
  have sel: "o_supervised p = map int (map (supervised_in cs (o_references p)) [0..<?n])"
    using plan_supervised_direct(1) [OF p cs perm] by (simp add: o_def)
  have "list_all (row_in cs) ?unseen"
    using rin by (intro row_in_mset [OF unseen_surplus [OF p perm]]) simp
  from cnt [OF this] have un: "count_supervised f ?T ?unseen = Inr (map (supervised_in cs (o_surplus p)) [0..<?n])"
    using supervised_in_mset [OF unseen_surplus [OF p perm]] by simp
  have "list_all (row_in cs) (o_references p)" using rin by simp
  note se = cnt [OF this]
  have split1: "sub_lists (map int (map corpus_valid cs)) (map int (map (supervised_in cs (o_surplus p)) [0..<?n]))
      = o_supervised p"
    using supervised_total [OF p cs perm] lens unfolding sel
    by (intro nth_equalityI) (simp_all add: nth_sub_lists flip: supervised_total [OF p cs perm])
  have split2: "sub_lists (map int (map corpus_valid cs)) (o_supervised p)
      = map int (map (supervised_in cs (o_surplus p)) [0..<?n])"
    using lens unfolding sel
    by (intro nth_equalityI) (simp_all add: nth_sub_lists flip: supervised_total [OF p cs perm])
  have dropped: "(if jget (consumption_json p) ''consumed_rows'' = JNull then Inr ()
      else rbind (count_supervised f ?T (drop (jnum_nat (jget (consumption_json p) ''consumed_rows'')) (o_references p)))
        (\<lambda>dropped. rbind (jitem (consumption_json p) ''dropped_supervised_tokens_per_domain'') (\<lambda>expected.
          if \<not> eq_domains expected (map int dropped)
          then Inl (ValueError ''Training-consumption supervised counts differ from the frozen order suffix'')
          else Inr ()))) = Inr ()"
  proof (cases "o_consumption p")
    case (Some u)
    note c = consumption_fields [OF plan_consumption_domains(4) [OF p perm Some]]
    have "list_all (row_in cs) (drop (u_rows u) (o_references p))"
      using rin by (auto simp: list_all_iff dest: in_set_dropD)
    note d = count_supervised_rows [OF cs this plan_packed(2) [OF p cs]] cnt [OF this]
    from c(14) d(1) have "u_dropped_supervised_per_domain u
        = map int (map (supervised_in cs (drop (u_rows u) (o_references p))) [0..<?n])" by auto
    then show ?thesis
      unfolding consumption_items consumption_frozen_fields [OF Some] jnum_nat_jnat d(2) rbind_Inr
      by (simp add: eq_domains_per_domain)
  qed (simp add: consumed_rows_field)
  have fields: "mapM (\<lambda>domain. validate_packed_fields ?m domain (f domain)) domain_order
      = Inr (map (\<lambda>_. ()) domain_order)"
    using validate_packed_fields_built [OF p cs] f by (intro mapM_Inr_map) (auto simp: in_set_conv_nth)
  have T: "nat (jint_of (jget ?m ''sequence_length'')) = ?T" by (simp add: order_manifest_fields)
  have "rbind (if jnum_nat (jget ?m ''packed_surplus_rows'') \<le> jnum_nat (jget ?m ''rows'')
             then rbind (count_supervised f ?T ?unseen) (\<lambda>surplus.
               Inr (sub_lists (map int (map corpus_valid cs)) (map int surplus), map int surplus))
             else rbind (count_supervised f ?T (o_references p)) (\<lambda>selected.
               Inr (map int selected, sub_lists (map int (map corpus_valid cs)) (map int selected))))
      (\<lambda>(selected, surplus). if \<not> eq_domains (jget ?m ''valid_loss_tokens_per_domain'') selected
      then Inl (ValueError ''Order selected supervised-token counts differ from source rows'')
      else if \<not> eq_domains (jget ?m ''packed_surplus_supervised_tokens_per_domain'') surplus
      then Inl (ValueError ''Order packed-surplus supervised-token counts differ from source rows'')
      else Inr ()) = Inr ()"
    unfolding un se rbind_Inr split1 sel [symmetric] split2 order_manifest_fields plan_packed(4) [OF p cs]
    using lens by (simp add: eq_domains_per_domain split2 [unfolded sel] flip: sel)
  moreover have "jget ?m ''training_consumption'' = consumption_json p" by (rule order_manifest_fields)
  moreover have "the (map_of resolved domain) = f domain" for domain by (simp add: f_def)
  ultimately show ?thesis
    unfolding validate_accounting_def Let_def resolve_order_built [OF p cs files loc load]
      rbind_Inr resolved_def [symmetric] T av
    by (simp only: dropped fields rbind_Inr)
qed

section \<open>Built orders validate\<close>

lemma plan_mixture:
  assumes p: "plan_training_order shuffle manifests seed weights expected tol gmr ga = Inr p"
    and w: "o_weights p = Some w"
  shows "validate_row_mixture (s_rows_per_domain (o_selection p)) w = Inr ()"
    and "length w = length domain_order"
proof -
  from plan_success [OF p] have ws: "(case weights of None \<Rightarrow> Inr None
      | Some w \<Rightarrow> rbind (normalize_domain_weights w) (\<lambda>v. Inr (Some v))) = Inr (Some w)"
    and sel: "(if expected \<noteq> JNull
      then select_capped (o_available_rows p) (o_sequence_length p) (Some w) expected tol (frozen_update_rows gmr ga)
      else select_all (o_available_rows p) (Some w) tol) = Inr (o_selection p)" unfolding w by blast+
  from ws obtain v where "normalize_domain_weights v = Inr w" by (rule plan_weights_Some)
  then show "length w = length domain_order" by (rule normalize_weights_ok(1))
  show "validate_row_mixture (s_rows_per_domain (o_selection p)) w = Inr ()"
  proof (cases "expected = JNull")
    case True
    with sel have s: "select_all (o_available_rows p) (Some w) tol = Inr (o_selection p)" by simp
    then have "validate_row_mixture (o_available_rows p) w = Inr ()" by (auto simp: select_all_def res_simps)
    then show ?thesis by (simp only: select_all_facts(2) [OF s])
  next
    case False
    with sel have "select_capped (o_available_rows p) (o_sequence_length p) (Some w) expected tol
        (frozen_update_rows gmr ga) = Inr (o_selection p)" by simp
    from select_capped_strict(1) [OF this] show ?thesis
      by (auto simp: strict_weighted_row_counts_def Let_def res_simps)
  qed
qed

lemma order_realised_fields:
  "jget (order_manifest e seed np files p) ''input_tokens_per_domain''
     = per_domain (\<lambda>n. jnat (n * o_sequence_length p)) (s_rows_per_domain (o_selection p))"
  "jget (order_manifest e seed np files p) ''realized_input_token_weights''
     = per_domain (\<lambda>n. ratio_json (int (s_total_rows (o_selection p))) (int n)) (s_rows_per_domain (o_selection p))"
  "jget (order_manifest e seed np files p) ''realized_valid_loss_token_weights''
     = per_domain (ratio_json (sum_list (o_supervised p))) (o_supervised p)"
  by (simp_all add: order_manifest_def Let_def jfield_def)

theorem built_order_validates:
  assumes b: "build_training_order shuffle np files manifests output seed weights expected tol gmr ga = Inr (m, out)"
    and cs: "packed_corpora (\<lambda>domain. the (map_of manifests domain)) cs" and perm: "permutes_rows shuffle"
    and np: "np \<noteq> []" and files: "dataset_files_ok files" and seed: "0 \<le> seed" and tol: "\<not> is_jbool tol"
    and loc: "located locate files (\<lambda>domain. the (map_of manifests domain))"
    and stable: "\<And>ws w. weights = Some ws \<Longrightarrow> normalize_domain_weights ws = Inr w \<Longrightarrow>
       normalize_domain_weights (zip domain_order w) = Inr w"
  shows "validate_training_order locate verify_hashes out = Inr m"
proof -
  let ?ms = "\<lambda>domain. the (map_of manifests domain)"
  from b obtain p where p: "plan_training_order shuffle ?ms seed weights expected tol gmr ga = Inr p"
    and m: "m = order_manifest expected seed np files p" by (rule built_order_files)
  have l: "load_order_manifest verify out = Inr (m, order_bytes (o_references p))" for verify
    using built_order_loads [OF b cs perm np files seed tol stable, where verify = verify] p by auto
  note lc = load_order_checks [OF l] and f = order_manifest_fields and r = plan_rows [OF p]
  note h = hd_inputs_fields(5,6) [OF p cs]
  let ?c = "consumption_json p" and ?refs = "o_references p" and ?av = "o_available_rows p"
  let ?R = "s_rows_per_domain (o_selection p)" and ?N = "s_total_rows (o_selection p)"
  have N: "1 \<le> ?N" using order_header_facts(1) [OF lc(1)] by (simp add: m f)
  have stable': "normalize_domain_weights (zip domain_order w) = Inr w" if v: "o_weights p = Some w" for w
  proof -
    from plan_success [OF p] have "(case weights of None \<Rightarrow> Inr None
        | Some w \<Rightarrow> rbind (normalize_domain_weights w) (\<lambda>v. Inr (Some v))) = Inr (o_weights p)" by blast
    then obtain ws where "weights = Some ws" "normalize_domain_weights ws = Inr w"
      unfolding v by (rule plan_weights_Some)
    with stable show ?thesis by blast
  qed
  have vw: "validate_weights m = Inr (o_weights p)"
    unfolding m by (rule validate_weights_built [OF r(2,3)]) (use stable' plan_mixture [OF p] in \<open>auto simp: f\<close>)
  have vi: "validate_input_tokens m = Inr ()"
    unfolding m by (rule validate_input_built [OF r(2), where T = "o_sequence_length p" and N = ?N])
      (use N h in \<open>simp_all add: f order_realised_fields\<close>)
  have sup: "length (o_supervised p) = length domain_order" "\<forall>x\<in>set (o_supervised p). 0 \<le> x"
    by (simp_all add: plan_supervised_direct(1) [OF p cs perm])
  have vs: "validate_supervised m = Inr ()"
    unfolding m by (rule validate_supervised_built [OF sup]) (simp_all add: f order_realised_fields)
  have vb: "validate_budget m (o_weights p) = Inr ()"
  proof (rule validate_budget_loaded [OF lc(2,5,6), where xs = "map int ?R"])
    show "positive_int (jget m ''rows'')" using N by (simp add: m f)
    show "jget m ''rows_per_domain'' = per_domain JInt (map int ?R)" by (simp add: m f per_domain_nat(1))
    show "length (map int ?R) = length domain_order" using r(2) by simp
    show "jget (jget m ''training_consumption'') ''frozen_optimizer_update_rows'' = JNull \<or>
        0 \<le> jint_of (jget (jget m ''training_consumption'') ''frozen_optimizer_update_rows'')"
      by (cases "o_consumption p") (simp_all add: m f consumption_unfrozen_fields consumption_frozen_fields)
    show "''frozen_global_microbatch_rows'' \<in> set (jkeys (jget m ''training_consumption''))"
      "''consumed_input_tokens'' \<in> set (jkeys (jget m ''training_consumption''))"
      by (simp_all only: m f consumption_items)
    assume "jget (jget m ''input_token_budget'') ''expected_total'' \<noteq> JNull"
    then have "expected \<noteq> JNull" by (simp add: m f budget_fields)
    with plan_cap(5) [OF p] obtain w where w: "o_weights p = Some w" by blast
    show "\<exists>n. o_weights p = Some n \<and> json_weights (jget m ''expected_input_token_weights'') = Inr n"
      using w plan_mixture(2) [OF p w] stable' [OF w] by (simp add: m f json_weights_per_domain)
  qed
  define cr where "cr = jget ?c ''consumed_rows''"
  let ?obs = "observed_counts (if cr = JNull then None else Some (jnum_nat cr)) ?refs"
  have av: "map nat (domain_ints (jget m ''packed_available_rows_per_domain'')) = ?av"
    using r(1) by (simp add: m f per_domain_nat(1) domain_ints_per_domain o_def)
  have scan: "scan_order ?av (if cr = JNull then None else Some (jnum_nat cr)) ?refs = Inr (seen_of ?av ?refs, ?obs)"
    using scan_order_iff [OF r(1)] plan_order_ok [OF p perm] by blast
  have ok: "order_ok ?av ?refs" by (rule plan_order_ok [OF p perm])
  have count: "\<not> list_ex (\<lambda>(s, n). int (length (filter (\<lambda>b. b) s)) \<noteq> n)
      (zip (seen_of ?av ?refs) (domain_ints (jget m ''rows_per_domain'')))"
  proof -
    have "length (filter (\<lambda>b. b) (seen_of ?av ?refs ! k)) = ?R ! k" if k: "k < length domain_order" for k
      using ok k plan_domain_counts [OF p perm k]
      by (simp add: seen_of_def order_ok_def filter_seen_rows rows_of_domain_count)
    then show ?thesis
      using r(2) by (auto simp: list_ex_iff in_set_zip m f per_domain_nat(1) domain_ints_per_domain seen_of_def)
  qed
  have prefix: "(if cr = JNull then Inr () else rbind (jitem ?c ''consumed_rows_per_domain'') (\<lambda>expected.
      if \<not> eq_domains expected (map int ?obs)
      then Inl (ValueError ''Training-consumption per-domain counts differ from the frozen order prefix'')
      else Inr ())) = Inr ()"
  proof (cases "o_consumption p")
    case (Some u)
    have "u_rows_per_domain u = observed_counts (Some (u_rows u)) ?refs"
      using consumption_fields(12) [OF plan_consumption_domains(4) [OF p perm Some]]
      by (simp add: observed_counts_def)
    then show ?thesis
      unfolding consumption_items
      by (simp add: cr_def consumed_rows_field Some consumption_frozen_fields [OF Some] per_domain_nat(1)
          eq_domains_per_domain observed_counts_def)
  qed (simp add: cr_def consumed_rows_field)
  have acc: "validate_accounting locate out m ?refs cr (seen_of ?av ?refs) = Inr ()"
    unfolding m cr_def by (rule validate_accounting_built [OF p cs perm files loc l [unfolded m]])
  have c: "jget m ''training_consumption'' = ?c" unfolding m by (rule f)
  show ?thesis
    unfolding validate_training_order_def l rbind_Inr Let_def prod.case vw vi vb vs c consumption_items(1)
      cr_def [symmetric] av map_order_bytes scan prefix acc
    using count by simp
qed

end
