(* ===== verification/Loader.thy ===== *)
theory Loader
  imports OrderValidateBuilt
begin

text \<open>
  \<^verbatim>\<open>create_training_dataloader\<close> and \<^verbatim>\<open>load_diagnostic_order_prefix\<close> of
  \<^verbatim>\<open>pretrain/data.py\<close>: order, sampler, packed directories, mixture and collator put
  together. PyTorch's \<^verbatim>\<open>DataLoader\<close> with a batch sampler is, whatever its worker processes,
  the documented map: for each index list of the sampler, the dataset's items, collated.
\<close>

section \<open>The collator of a mixture\<close>

definition mixture_collator :: "dataset list \<Rightarrow> collator res" where
  "mixture_collator datasets =
     (let first = ds_manifest (datasets ! 0) in
      make_collator (jget first ''sequence_length'') (jget first ''vocab_size'') (jget first ''eos_token_id''))"

definition load_batch :: "dataset list \<Rightarrow> collator \<Rightarrow> 64 word list \<Rightarrow> batch res" where
  "load_batch datasets k references =
     rbind (mapM (get_reference datasets) references) (\<lambda>samples. collate k samples)"

section \<open>A diagnostic prefix\<close>

definition load_diagnostic_order_prefix ::
  "locator \<Rightarrow> bool \<Rightarrow> json \<Rightarrow> dir \<Rightarrow> batch res" where
  "load_diagnostic_order_prefix locate verify_payload_checksums rows d =
     (if \<not> positive_int rows then Inl (ValueError ''rows must be a positive integer'')
      else rbind (load_order_manifest True d) (\<lambda>(m, payload).
      rbind (jitem (jget m ''training_consumption'') ''consumed_rows'') (\<lambda>consumed.
      let trainable = (if consumed = JNull then jnum_nat (jget m ''rows'') else jnum_nat consumed) in
      if int trainable < jint_of rows then Inl (ValueError ''Diagnostic prefix requests too many rows'')
      else rbind (resolve_order_manifests locate d) (\<lambda>manifests.
      rbind (open_mixture verify_payload_checksums manifests) (\<lambda>datasets.
      rbind (mapM (get_reference datasets) (take (nat (jint_of rows)) (map_order payload))) (\<lambda>samples.
      rbind (mixture_collator datasets) (\<lambda>k. collate k samples)))))))"

section \<open>The training loader\<close>

record loader_args =
  la_sampler :: sampler_args
  la_num_workers :: json
  la_pin_memory :: json
  la_prefetch_factor :: json
  la_persistent_workers :: json
  la_context :: json
  la_verify_order :: bool
  la_verify_payload :: bool

definition check_loader_args :: "loader_args \<Rightarrow> unit res" where
  "check_loader_args a =
     (if \<not> is_jint (la_num_workers a) then Inl (TypeError ''num_workers must be an integer'')
      else if jint_of (la_num_workers a) < 0 then Inl (ValueError ''num_workers must be non-negative'')
      else if 0 < jint_of (la_num_workers a) \<and> \<not> is_jint (la_prefetch_factor a)
      then Inl (TypeError ''prefetch_factor must be an integer'')
      else if 0 < jint_of (la_num_workers a) \<and> jint_of (la_prefetch_factor a) < 1
      then Inl (ValueError ''prefetch_factor must be positive when workers are enabled'')
      else if \<not> is_jbool (la_pin_memory a) then Inl (TypeError ''pin_memory must be boolean'')
      else if \<not> is_jbool (la_persistent_workers a)
      then Inl (TypeError ''persistent_workers must be boolean'')
      else Inr ())"

record training_loader =
  tl_datasets :: "dataset list"
  tl_collator :: collator
  tl_sampler :: sampler
  tl_num_workers :: nat
  tl_pin_memory :: bool
  tl_persistent_workers :: bool
  tl_prefetch_factor :: "nat option"
  tl_context :: json

definition create_training_dataloader ::
  "locator \<Rightarrow> string \<Rightarrow> loader_args \<Rightarrow> dir \<Rightarrow> training_loader res" where
  "create_training_dataloader locate manifest_sha256 a d =
     rbind (check_loader_args a) (\<lambda>_.
     rbind (load_order_manifest (la_verify_order a) d) (\<lambda>(m, payload).
     rbind (new_sampler m payload manifest_sha256 (la_sampler a)) (\<lambda>s.
     rbind (resolve_order_manifests locate d) (\<lambda>manifests.
     rbind (open_mixture (la_verify_payload a) manifests) (\<lambda>datasets.
     rbind (mixture_collator datasets) (\<lambda>k.
     let workers = nat (jint_of (la_num_workers a)) in
     Inr \<lparr>tl_datasets = datasets, tl_collator = k, tl_sampler = s, tl_num_workers = workers,
          tl_pin_memory = (la_pin_memory a = JBool True),
          tl_persistent_workers = (0 < workers \<and> la_persistent_workers a = JBool True),
          tl_prefetch_factor = (if 0 < workers then Some (nat (jint_of (la_prefetch_factor a))) else None),
          tl_context = (if 0 < workers then la_context a else JNull)\<rparr>))))))"

text \<open>The batches a rank receives.\<close>

definition loader_batches :: "training_loader \<Rightarrow> batch res list" where
  "loader_batches l = map (load_batch (tl_datasets l) (tl_collator l)) (fst (iterate (tl_sampler l)))"

section \<open>A mixture of packed directories\<close>

definition corpus_dataset :: "corpus \<Rightarrow> dir \<Rightarrow> dataset" where
  "corpus_dataset = (\<lambda>(c, docs, cursor) d. packed_dataset c docs cursor d)"

definition corpus_stored :: "corpus \<Rightarrow> nat \<Rightarrow> stored" where
  "corpus_stored = (\<lambda>(c, docs, cursor) r. (stream_tokens (c_eos_token_id c) docs, stream_starts docs, r))"

text \<open>What a reference names.\<close>

definition stored_of :: "corpus list \<Rightarrow> 64 word \<Rightarrow> stored" where
  "stored_of cs w = corpus_stored (cs ! fst (decode_reference w)) (snd (decode_reference w))"

definition packed_mixture :: "corpus list \<Rightarrow> (string \<Rightarrow> dir) \<Rightarrow> dataset list" where
  "packed_mixture cs manifests =
     map (\<lambda>k. corpus_dataset (cs ! k) (manifests (domain_order ! k))) [0..<length domain_order]"

end
