(* ===== verification/LoaderFacts.thy ===== *)
theory LoaderFacts
  imports Loader
begin

text \<open>
  The loader delivers the corpus: over packed directories every batch of the training loader is
  built without error and carries exactly the stream rows its references name.
\<close>

section \<open>The mixture opens\<close>

lemma first_corpus_wf:
  assumes "packed_corpora f cs"
  shows "wf_config (corpus_cfg (cs ! 0))"
proof -
  have z: "0 < length domain_order" by (simp add: domain_order_def)
  obtain d docs cursor where "cs ! 0 = (d, docs, cursor)" "wf_config d" by (rule corpus_facts [OF assms z])
  then show ?thesis by simp
qed

lemma corpus_dataset_manifest: "ds_manifest (corpus_dataset x d) = corpus_manifest x"
  by (cases x) (simp add: corpus_dataset_def packed_dataset_def Let_def)

lemma packed_tokens_per_row:
  assumes "wf_config c" "docs_ok (c_vocab_size c) docs"
  shows "jget (packed_manifest c docs cursor) ''tokens_per_row'' = JInt (int (c_sequence_length c + 1))"
  by (simp add: packed_manifest_def manifest_fields packed_state_counts(1) [OF assms, of cursor] c_tokens_per_row_def)

lemma mixture_fields:
  assumes cs: "packed_corpora f cs" and k: "k < length domain_order"
  defines "m \<equiv> corpus_manifest (cs ! k)" and "c \<equiv> corpus_cfg (cs ! 0)"
  shows "jget m ''domain'' = JStr (domain_order ! k)" "jget m ''split'' = JStr (c_split c)"
    "jget m ''sequence_length'' = JInt (int (c_sequence_length c))"
    "jget m ''tokens_per_row'' = JInt (int (c_sequence_length c + 1))"
    "jget m ''vocab_size'' = JInt (int (c_vocab_size c))"
    "jget m ''eos_token_id'' = JInt (int (c_eos_token_id c))"
    "jget m ''tokenizer_manifest_sha256'' = JStr (c_tokenizer_manifest_sha256 c)"
proof -
  from corpus_facts [OF cs k] obtain d docs cursor where x: "cs ! k = (d, docs, cursor)"
    and ok: "wf_config d" "docs_ok (c_vocab_size d) docs"
    "cursor_ok cursor" "map_of (f (domain_order ! k)) = map_of (packed_dir d docs cursor)"
    "c_domain d = domain_order ! k" "same_format d (corpus_cfg (cs ! 0))" by metis
  note g = packed_load(3-8) [OF ok(1-4)] packed_tokens_per_row [OF ok(1,2), of cursor]
  show "jget m ''domain'' = JStr (domain_order ! k)" "jget m ''split'' = JStr (c_split c)"
    "jget m ''sequence_length'' = JInt (int (c_sequence_length c))"
    "jget m ''tokens_per_row'' = JInt (int (c_sequence_length c + 1))"
    "jget m ''vocab_size'' = JInt (int (c_vocab_size c))"
    "jget m ''eos_token_id'' = JInt (int (c_eos_token_id c))"
    "jget m ''tokenizer_manifest_sha256'' = JStr (c_tokenizer_manifest_sha256 c)"
    using ok(5,6) by (simp_all add: m_def c_def x g same_format_def)
qed

lemma open_mixture_packed:
  assumes cs: "packed_corpora f cs"
  shows "open_mixture verify (map (\<lambda>d. (d, f d)) domain_order) = Inr (packed_mixture cs f)"
proof -
  let ?n = "length domain_order" and ?ms = "map (\<lambda>d. (d, f d)) domain_order"
  have look: "the (map_of ?ms d) = f d" if "d \<in> set domain_order" for d
    using that by (simp add: map_of_map_restrict)
  have op: "open_dataset verify (f (domain_order ! k)) = Inr (corpus_dataset (cs ! k) (f (domain_order ! k)))"
    if k: "k < ?n" for k
  proof -
    from corpus_facts [OF cs k] obtain c docs cursor where x: "cs ! k = (c, docs, cursor)"
      and ok: "wf_config c" "docs_ok (c_vocab_size c) docs" "cursor_ok cursor"
      "map_of (f (domain_order ! k)) = map_of (packed_dir c docs cursor)" by metis
    show ?thesis unfolding x corpus_dataset_def prod.case by (rule open_packed_dataset [OF ok])
  qed
  have dirs: "mapM (\<lambda>d. open_dataset verify (the (map_of ?ms d))) domain_order = Inr (packed_mixture cs f)"
    unfolding mapM_eq_Inr packed_mixture_def list_all2_conv_all_nth using op look by simp
  have z: "0 < ?n" by (simp add: domain_order_def)
  have man: "ds_manifest (packed_mixture cs f ! k) = corpus_manifest (cs ! k)" if "k < ?n" for k
    using that by (simp add: packed_mixture_def corpus_dataset_manifest)
  have "(if \<not> py_eq (jget (ds_manifest ds) ''domain'') (JStr name)
         then Inl (ValueError ''Manifest declares another domain'')
         else if \<not> list_all (\<lambda>k. py_eq (jget (ds_manifest ds) k)
               (jget (ds_manifest (packed_mixture cs f ! 0)) k)) mixture_keys
         then Inl (ValueError ''All domain manifests must agree'')
         else Inr ()) = Inr ()" if "(ds, name) \<in> set (zip (packed_mixture cs f) domain_order)" for ds name
  proof -
    from that obtain k where k: "k < ?n" "ds = packed_mixture cs f ! k" "name = domain_order ! k"
      by (auto simp: in_set_zip packed_mixture_def)
    show ?thesis
      unfolding k(2,3) man [OF k(1)] man [OF z]
      by (simp add: mixture_keys_def mixture_fields [OF cs k(1)] mixture_fields [OF cs z])
  qed
  then have "mapM (\<lambda>(ds, name).
        if \<not> py_eq (jget (ds_manifest ds) ''domain'') (JStr name)
        then Inl (ValueError ''Manifest declares another domain'')
        else if \<not> list_all (\<lambda>k. py_eq (jget (ds_manifest ds) k)
               (jget (ds_manifest (packed_mixture cs f ! 0)) k)) mixture_keys
        then Inl (ValueError ''All domain manifests must agree'')
        else Inr ()) (zip (packed_mixture cs f) domain_order)
      = Inr (map (\<lambda>_. ()) (zip (packed_mixture cs f) domain_order))"
    by (intro mapM_Inr_map) auto
  moreover have "set (map fst ?ms) = set domain_order" by simp
  ultimately show ?thesis
    unfolding open_mixture_def dirs rbind_Inr Let_def by (simp only: if_False simp_thms rbind_Inr)
qed

lemma mixture_collator_packed:
  assumes cs: "packed_corpora f cs"
  defines "c \<equiv> corpus_cfg (cs ! 0)"
  shows "mixture_collator (packed_mixture cs f)
     = Inr (collator_for (c_sequence_length c) (c_vocab_size c) (c_eos_token_id c))"
proof -
  have z: "0 < length domain_order" by (simp add: domain_order_def)
  have wf: "wf_config c" unfolding c_def by (rule first_corpus_wf [OF cs])
  have "ds_manifest (packed_mixture cs f ! 0) = corpus_manifest (cs ! 0)"
    using z by (simp add: packed_mixture_def corpus_dataset_manifest)
  with wf show ?thesis
    by (simp add: mixture_collator_def mixture_fields [OF cs z] c_def make_collator_def wf_config_def
        json_int_opt_def collator_for_def)
qed

section \<open>Batches\<close>

lemma get_reference_packed:
  assumes cs: "packed_corpora f cs" and w: "row_in cs w"
  defines "c \<equiv> corpus_cfg (cs ! 0)"
  shows "\<exists>row. get_reference (packed_mixture cs f) w = Inr row \<and> r_reference row = w \<and>
     carries_stored (c_sequence_length c) (c_vocab_size c) (c_eos_token_id c) row (stored_of cs w)"
proof -
  obtain k r where kr: "decode_reference w = (k, r)" by (cases "decode_reference w")
  from w have k: "k < length domain_order" and r: "r < corpus_rows (cs ! k)" by (simp_all add: row_in_def kr)
  from corpus_facts [OF cs k] obtain d docs cursor where x: "cs ! k = (d, docs, cursor)"
    and ok: "wf_config d" "docs_ok (c_vocab_size d) docs" "cursor_ok cursor"
      "map_of (f (domain_order ! k)) = map_of (packed_dir d docs cursor)" "same_format d (corpus_cfg (cs ! 0))"
    by metis
  let ?S = "stream_tokens (c_eos_token_id d) docs" and ?B = "stream_starts docs" and ?T = "c_sequence_length d"
  have sf: "c_sequence_length c = ?T" "c_vocab_size c = c_vocab_size d" "c_eos_token_id c = c_eos_token_id d"
    using ok(5) by (simp_all add: same_format_def c_def)
  have r': "r < packed_rows d ?S" using r by (simp add: x)
  have "c_eos_token_id d < c_vocab_size d" using ok(1) by (simp add: wf_config_def)
  from eos_stream_docs [OF ok(2) this] have st: "eos_stream (c_vocab_size d) (c_eos_token_id d) ?S ?B" .
  have inb: "r * ?T + ?T < length ?S" using packed_row_bound [OF ok(1)] r' by blast
  have ds: "packed_mixture cs f ! k = packed_dataset d docs cursor (f (domain_order ! k))"
    "length (packed_mixture cs f) = length domain_order"
    using k by (simp_all add: packed_mixture_def corpus_dataset_def x)
  note row = get_row_packed [OF ok(1-4) r']
  show ?thesis
    using k st inb
    by (simp add: get_reference_def kr ds row carries_stored_def carries_def stored_of_def corpus_stored_def x sf)
qed

lemma load_batch_packed:
  assumes cs: "packed_corpora f cs" and ws: "list_all (row_in cs) ws" and ne: "ws \<noteq> []"
  defines "c \<equiv> corpus_cfg (cs ! 0)"
  defines "T \<equiv> c_sequence_length c"
  shows "\<exists>b. load_batch (packed_mixture cs f) (collator_for T (c_vocab_size c) (c_eos_token_id c)) ws = Inr b \<and>
     b_references b = ws \<and>
     b_input_ids b = map (\<lambda>(S, B, r). map int (segment (r * T) T S)) (map (stored_of cs) ws) \<and>
     b_labels b = map (\<lambda>(S, B, r). stream_labels T S B r) (map (stored_of cs) ws) \<and>
     b_position_ids b = map (\<lambda>(S, B, r). row_positions (take T (row_starts T B r))) (map (stored_of cs) ws) \<and>
     b_document_ids b = map (\<lambda>(S, B, r). row_document_ids (take T (row_starts T B r))) (map (stored_of cs) ws)"
proof -
  let ?P = "\<lambda>w row. r_reference row = w \<and> carries_stored T (c_vocab_size c) (c_eos_token_id c) row (stored_of cs w)"
  have "\<exists>rows. mapM (get_reference (packed_mixture cs f)) ws = Inr rows \<and> list_all2 ?P ws rows"
    using ws
  proof (induction ws)
    case (Cons w ws)
    with get_reference_packed [OF cs, of w] show ?case by (fastforce simp: c_def T_def)
  qed simp
  then obtain rows where rows: "mapM (get_reference (packed_mixture cs f)) ws = Inr rows" "list_all2 ?P ws rows"
    by blast
  from rows(2) have l2: "list_all2 (carries_stored T (c_vocab_size c) (c_eos_token_id c)) rows (map (stored_of cs) ws)"
    and refs: "map r_reference rows = ws"
    by (induction ws rows rule: list_all2_induct) auto
  have rne: "rows \<noteq> []" using rows(2) ne by auto
  have "wf_config c" unfolding c_def by (rule first_corpus_wf [OF cs])
  then have T: "0 < T" by (simp add: T_def wf_config_def)
  from collate_stored [OF T rne l2] show ?thesis
    by (simp add: load_batch_def rows(1) refs) blast
qed

end
