(* ===== verification/Epoch.thy ===== *)
theory Epoch
  imports LoaderFacts
begin

text \<open>
  From packed directories to batches: the order the builder writes, read back by the samplers of
  all ranks, delivers every trainable row exactly once, and every batch carries the rows of the
  corpus its references name.
\<close>

section \<open>Samplers of one run\<close>

definition sampler_start :: "sampler_args \<Rightarrow> nat" where
  "sampler_start a = (case sa_resume a of None \<Rightarrow> nat (jint_of (sa_start a))
     | Some state \<Rightarrow> nat (jint_of (jget state ''completed_global_microbatches'')))"

lemma sampler_start_eq: "s\<lparr>sm_start := sm_start s\<rparr> = s"
  by simp

lemma new_sampler_shape:
  assumes "new_sampler m payload sha a = Inr s"
  shows "s = (fresh_sampler m payload sha a)\<lparr>sm_start := sampler_start a\<rparr>"
proof -
  from assms have r: "(case sa_resume a of None \<Rightarrow> Inr (fresh_sampler m payload sha a)
      | Some state \<Rightarrow> load_state_dict state (fresh_sampler m payload sha a)) = Inr s"
    by (auto simp: new_sampler_def Let_def res_simps)
  show ?thesis
  proof (cases "sa_resume a")
    case None
    then have "sm_start (fresh_sampler m payload sha a) = sampler_start a"
      by (simp add: fresh_sampler_def Let_def sampler_start_def)
    with None r show ?thesis by (metis Inr_inject option.simps(4) sampler_start_eq)
  next
    case (Some state)
    with r have "load_state_dict state (fresh_sampler m payload sha a) = Inr s" by simp
    from load_state_dict_fields(2) [OF this] Some show ?thesis by (simp add: sampler_start_def)
  qed
qed

definition with_rank :: "sampler_args \<Rightarrow> nat \<Rightarrow> sampler_args" where
  "with_rank a r = a\<lparr>sa_rank := JInt (int r)\<rparr>"

lemma fresh_sampler_rank:
  "fresh_sampler m payload sha (with_rank a r) = (fresh_sampler m payload sha a)\<lparr>sm_rank := r\<rparr>"
  by (simp add: fresh_sampler_def Let_def with_rank_def)

lemma new_sampler_ranks:
  assumes "new_sampler m payload sha (with_rank a r) = Inr s" and "new_sampler m payload sha (with_rank a q) = Inr t"
  shows "s = t\<lparr>sm_rank := r\<rparr>"
proof -
  have "sampler_start (with_rank a r) = sampler_start (with_rank a q)" 
    by (simp add: sampler_start_def with_rank_def split: option.split)
  with new_sampler_shape [OF assms(1)] new_sampler_shape [OF assms(2)] show ?thesis
    by (simp add: fresh_sampler_rank)
qed

lemma sampler_ok_rank: "sampler_ok s \<Longrightarrow> r < sm_world s \<Longrightarrow> sampler_ok (s\<lparr>sm_rank := r\<rparr>)"
  by (cases s) (simp add: sampler_ok_def)

text \<open>The loader exists exactly when its arguments and its sampler are accepted.\<close>

lemma create_loader_built:
  assumes load: "\<And>verify. load_order_manifest verify d = Inr (order_manifest e seed np files p, payload)"
    and p: "plan_training_order shuffle manifests seed weights e tol gmr ga = Inr p"
    and cs: "packed_corpora manifests cs" and files: "dataset_files_ok files" and loc: "located locate files manifests"
  defines "c \<equiv> corpus_cfg (cs ! 0)"
  shows "create_training_dataloader locate sha a d = Inr l \<longleftrightarrow> check_loader_args a = Inr () \<and>
     (\<exists>s. new_sampler (order_manifest e seed np files p) payload sha (la_sampler a) = Inr s \<and>
        tl_sampler l = s \<and> tl_datasets l = packed_mixture cs manifests \<and>
        tl_collator l = collator_for (c_sequence_length c) (c_vocab_size c) (c_eos_token_id c) \<and>
        tl_num_workers l = nat (jint_of (la_num_workers a)) \<and> tl_pin_memory l = (la_pin_memory a = JBool True) \<and>
        tl_persistent_workers l = (0 < nat (jint_of (la_num_workers a)) \<and> la_persistent_workers a = JBool True) \<and>
        tl_prefetch_factor l = (if 0 < nat (jint_of (la_num_workers a))
          then Some (nat (jint_of (la_prefetch_factor a))) else None) \<and>
        tl_context l = (if 0 < nat (jint_of (la_num_workers a)) then la_context a else JNull))"
  unfolding create_training_dataloader_def load rbind_Inr prod.case
    resolve_order_built [OF p cs files loc load [of False]] open_mixture_packed [OF cs]
    mixture_collator_packed [OF cs, folded c_def] Let_def rbind_eq_Inr
  by (cases l) auto

section \<open>One pass over the corpus\<close>

text \<open>Normalising the normalised weights again changes nothing. Float division makes this fail for
  some weights; then the readers, which normalise what the builder normalised, may refuse its order.\<close>

definition stable_weights :: "(string \<times> rat) list option \<Rightarrow> bool" where
  "stable_weights weights = (case weights of None \<Rightarrow> True
     | Some ws \<Rightarrow> (case normalize_domain_weights ws of Inl _ \<Rightarrow> True
         | Inr w \<Rightarrow> normalize_domain_weights (zip domain_order w) = Inr w))"

lemma stable_weightsD:
  "stable_weights weights \<Longrightarrow> weights = Some ws \<Longrightarrow> normalize_domain_weights ws = Inr w \<Longrightarrow>
     normalize_domain_weights (zip domain_order w) = Inr w"
  by (simp add: stable_weights_def)

lemma concat_map_map: "concat (map f (map g xs)) = concat (map (\<lambda>x. f (g x)) xs)"
  by (simp add: o_def)

theorem training_epoch:
  assumes b: "build_training_order shuffle np files manifests output seed weights expected tol gmr ga = Inr (m, out)"
    and cs: "packed_corpora (\<lambda>domain. the (map_of manifests domain)) cs" and perm: "permutes_rows shuffle"
    and np: "np \<noteq> []" and files: "dataset_files_ok files" and seed: "0 \<le> seed" and tol: "\<not> is_jbool tol"
    and loc: "located locate files (\<lambda>domain. the (map_of manifests domain))"
    and stable: "expected = JNull \<or> stable_weights weights"
    and world: "nat (jint_of (sa_world (la_sampler a))) = n" "0 < n"
    and l: "\<forall>r<n. create_training_dataloader locate sha
       (a\<lparr>la_sampler := with_rank (la_sampler a) r\<rparr>) out = Inr (l r)"
  shows "\<exists>p s. plan_training_order shuffle (\<lambda>domain. the (map_of manifests domain)) seed weights
      expected tol gmr ga = Inr p \<and> sampler_ok s \<and> sm_order s = o_references p \<and> sm_world s = n \<and>
     sm_gmr s = nat (jint_of (sa_gmr (la_sampler a))) \<and> sm_ga s = nat (jint_of (sa_ga (la_sampler a))) \<and>
     sm_start s = sampler_start (la_sampler a) \<and> list_all (row_in cs) (o_references p) \<and>
     (\<forall>r<n. tl_sampler (l r) = s\<lparr>sm_rank := r\<rparr> \<and>
        tl_datasets (l r) = packed_mixture cs (\<lambda>domain. the (map_of manifests domain)) \<and>
        tl_collator (l r) = collator_for (o_sequence_length p)
          (c_vocab_size (corpus_cfg (cs ! 0))) (c_eos_token_id (corpus_cfg (cs ! 0))))"
proof -
  let ?ms = "\<lambda>domain. the (map_of manifests domain)"
  from b obtain p where p: "plan_training_order shuffle ?ms seed weights expected tol gmr ga = Inr p"
    and m: "m = order_manifest expected seed np files p" by (rule built_order_files)
  have ld: "load_order_manifest verify out = Inr (order_manifest expected seed np files p, order_bytes (o_references p))"
    for verify
    using built_order_loads [OF b cs perm np files seed tol, of verify] stable stable_weightsD p m by auto
  note cr = create_loader_built [OF ld p cs files loc]
  let ?new = "\<lambda>r. new_sampler (order_manifest expected seed np files p) (order_bytes (o_references p)) sha
    (with_rank (la_sampler a) r)"
  have new: "?new r = Inr (tl_sampler (l r))" "tl_datasets (l r) = packed_mixture cs ?ms"
    "tl_collator (l r) = collator_for (o_sequence_length p)
       (c_vocab_size (corpus_cfg (cs ! 0))) (c_eos_token_id (corpus_cfg (cs ! 0)))" if "r < n" for r
    using l [rule_format, OF that] unfolding cr by (auto simp: plan_packed(2) [OF p cs])
  define s where "s = tl_sampler (l 0)"
  have ok: "sampler_ok s" unfolding s_def by (rule new_sampler_ok [OF ld new(1) [OF world(2)]])
  have shape: "s = (fresh_sampler (order_manifest expected seed np files p) (order_bytes (o_references p)) sha
      (with_rank (la_sampler a) 0))\<lparr>sm_start := sampler_start (with_rank (la_sampler a) 0)\<rparr>"
    unfolding s_def by (rule new_sampler_shape [OF new(1) [OF world(2)]])
  have "sm_order s = o_references p" "sm_world s = n" "sm_gmr s = nat (jint_of (sa_gmr (la_sampler a)))"
    "sm_ga s = nat (jint_of (sa_ga (la_sampler a)))" "sm_start s = sampler_start (la_sampler a)"
    using world by (simp_all add: shape fresh_sampler_def Let_def map_order_bytes with_rank_def sampler_start_def
      split: option.split)
  moreover have "tl_sampler (l r) = s\<lparr>sm_rank := r\<rparr>" if "r < n" for r
    unfolding s_def by (rule new_sampler_ranks [OF new(1) [OF that] new(1) [OF world(2)]])
  moreover have "list_all (row_in cs) (o_references p)" using plan_rows_in [OF p cs perm] by simp
  ultimately show ?thesis using p ok new(2,3) by blast
qed

text \<open>What the batch of rank \<open>r\<close> in global microbatch \<open>g\<close> must be.\<close>

definition corpus_batch :: "corpus list \<Rightarrow> nat \<Rightarrow> 64 word list \<Rightarrow> batch \<Rightarrow> bool" where
  "corpus_batch cs T ws b \<longleftrightarrow> b_references b = ws \<and>
     b_input_ids b = map (\<lambda>(S, B, r). map int (segment (r * T) T S)) (map (stored_of cs) ws) \<and>
     b_labels b = map (\<lambda>(S, B, r). stream_labels T S B r) (map (stored_of cs) ws) \<and>
     b_position_ids b = map (\<lambda>(S, B, r). row_positions (take T (row_starts T B r))) (map (stored_of cs) ws) \<and>
     b_document_ids b = map (\<lambda>(S, B, r). row_document_ids (take T (row_starts T B r))) (map (stored_of cs) ws)"

lemma loader_batch_ok:
  assumes s: "sampler_ok s" "sm_order s = o_references p" and cs: "packed_corpora f cs"
    and rows: "list_all (row_in cs) (o_references p)" and T: "T = c_sequence_length (corpus_cfg (cs ! 0))"
    and l: "tl_sampler l = s" "tl_datasets l = packed_mixture cs f"
      "tl_collator l = collator_for T (c_vocab_size (corpus_cfg (cs ! 0))) (c_eos_token_id (corpus_cfg (cs ! 0)))"
  shows "\<exists>batch. loader_batches l = map (\<lambda>g. Inr (batch g)) [sm_start s..<sm_total_microbatches s] \<and>
     (\<forall>g \<in> {sm_start s..<sm_total_microbatches s}. corpus_batch cs T (local_batch s g) (batch g))"
proof -
  have "\<exists>b. load_batch (tl_datasets l) (tl_collator l) (local_batch s g) = Inr b \<and> corpus_batch cs T (local_batch s g) b"
    if g: "g < sm_total_microbatches s" for g
  proof -
    have "0 < sm_local_batch s" using s(1) by (auto simp: sampler_ok_def intro: Nat.gr0I)
    with length_local_batch [OF s(1) g] have ne: "local_batch s g \<noteq> []" by auto
    have "set (local_batch s g) \<subseteq> set (sm_order s)"
      unfolding local_batch_def Let_def by (meson set_drop_subset set_take_subset subset_trans)
    with rows s(2) have "list_all (row_in cs) (local_batch s g)" by (auto simp: list_all_iff)
    from load_batch_packed [OF cs this ne] show ?thesis
      unfolding l T corpus_batch_def by blast
  qed
  then obtain batch where "\<And>g. g < sm_total_microbatches s \<Longrightarrow>
      load_batch (tl_datasets l) (tl_collator l) (local_batch s g) = Inr (batch g) \<and>
      corpus_batch cs T (local_batch s g) (batch g)" by metis
  then show ?thesis
    by (intro exI [of _ batch]) (simp add: loader_batches_def iterate_def l(1))
qed

theorem epoch_batches:
  assumes b: "build_training_order shuffle np files manifests output seed weights expected tol gmr ga = Inr (m, out)"
    and cs: "packed_corpora (\<lambda>domain. the (map_of manifests domain)) cs" and perm: "permutes_rows shuffle"
    and np: "np \<noteq> []" and files: "dataset_files_ok files" and seed: "0 \<le> seed" and tol: "\<not> is_jbool tol"
    and loc: "located locate files (\<lambda>domain. the (map_of manifests domain))"
    and stable: "expected = JNull \<or> stable_weights weights"
    and world: "nat (jint_of (sa_world (la_sampler a))) = n" "0 < n"
    and l: "\<forall>r<n. create_training_dataloader locate sha
       (a\<lparr>la_sampler := with_rank (la_sampler a) r\<rparr>) out = Inr (l r)"
  defines "g \<equiv> nat (jint_of (sa_gmr (la_sampler a)))" and "k \<equiv> nat (jint_of (sa_ga (la_sampler a)))"
    and "start \<equiv> sampler_start (la_sampler a)"
  shows "\<exists>p batch. plan_training_order shuffle (\<lambda>domain. the (map_of manifests domain)) seed weights
      expected tol gmr ga = Inr p \<and> distinct (o_references p) \<and>
     (let total = length (o_references p) div (g * k) * k in
      (\<forall>r<n. loader_batches (l r) = map (\<lambda>i. Inr (batch r i)) [start..<total]) \<and>
      (\<forall>r<n. \<forall>i\<in>{start..<total}. corpus_batch cs (o_sequence_length p) (b_references (batch r i)) (batch r i)) \<and>
      concat (map (\<lambda>i. concat (map (\<lambda>r. b_references (batch r i)) [0..<n])) [start..<total])
        = drop (start * g) (take (total * g) (o_references p)))"
proof -
  from training_epoch [OF assms(1-12)] obtain p s where
    p: "plan_training_order shuffle (\<lambda>domain. the (map_of manifests domain)) seed weights
      expected tol gmr ga = Inr p"
    and s: "sampler_ok s" "sm_order s = o_references p" "sm_world s = n"
      "sm_gmr s = g" "sm_ga s = k" "sm_start s = start"
    and rows: "list_all (row_in cs) (o_references p)"
    and lr: "\<forall>r<n. tl_sampler (l r) = s\<lparr>sm_rank := r\<rparr> \<and>
        tl_datasets (l r) = packed_mixture cs (\<lambda>domain. the (map_of manifests domain)) \<and>
        tl_collator (l r) = collator_for (o_sequence_length p)
          (c_vocab_size (corpus_cfg (cs ! 0))) (c_eos_token_id (corpus_cfg (cs ! 0)))"
    unfolding g_def k_def start_def by blast
  let ?st = "sm_start s" and ?tot = "sm_total_microbatches s" and ?T = "o_sequence_length p"
  have "\<exists>batch. loader_batches (l r) = map (\<lambda>g. Inr (batch g)) [?st..<?tot] \<and>
      (\<forall>g \<in> {?st..<?tot}. corpus_batch cs ?T (local_batch (s\<lparr>sm_rank := r\<rparr>) g) (batch g))" if r: "r < n" for r
  proof -
    have ok: "sampler_ok (s\<lparr>sm_rank := r\<rparr>)" by (rule sampler_ok_rank [OF s(1)]) (simp add: s(3) r)
    from lr r have e: "tl_sampler (l r) = s\<lparr>sm_rank := r\<rparr>"
      "tl_datasets (l r) = packed_mixture cs (\<lambda>domain. the (map_of manifests domain))"
      "tl_collator (l r) = collator_for ?T (c_vocab_size (corpus_cfg (cs ! 0))) (c_eos_token_id (corpus_cfg (cs ! 0)))"
      by blast+
    from loader_batch_ok [OF ok _ cs rows plan_packed(2) [OF p cs] e] s(2) show ?thesis by simp
  qed
  then have "\<forall>r. \<exists>batch. r < n \<longrightarrow> loader_batches (l r) = map (\<lambda>g. Inr (batch g)) [?st..<?tot] \<and>
      (\<forall>g \<in> {?st..<?tot}. corpus_batch cs ?T (local_batch (s\<lparr>sm_rank := r\<rparr>) g) (batch g))" by blast
  from choice [OF this] obtain batch where
    b: "\<And>r. r < n \<Longrightarrow> loader_batches (l r) = map (\<lambda>g. Inr (batch r g)) [?st..<?tot]"
      "\<And>r g. r < n \<Longrightarrow> g \<in> {?st..<?tot} \<Longrightarrow> corpus_batch cs ?T (local_batch (s\<lparr>sm_rank := r\<rparr>) g) (batch r g)"
    by blast
  have refs: "b_references (batch r g) = local_batch (s\<lparr>sm_rank := r\<rparr>) g" if "r < n" "g \<in> {?st..<?tot}" for r g
    using b(2) [OF that] by (simp add: corpus_batch_def)
  have tr: "sm_trainable_rows s = ?tot * sm_gmr s" "sm_trainable_rows s \<le> length (sm_order s)"
    using s(1) unfolding sampler_ok_def by blast+
  have "concat (map (\<lambda>g. concat (map (\<lambda>r. b_references (batch r g)) [0..<n])) [?st..<?tot])
      = concat (map (\<lambda>g. concat (map (\<lambda>r. local_batch (s\<lparr>sm_rank := r\<rparr>) g) [0..<sm_world s])) [?st..<?tot])"
    using refs by (intro arg_cong [where f = concat] map_cong refl) (simp_all add: s(3))
  then have "concat (map (\<lambda>g. concat (map (\<lambda>r. b_references (batch r g)) [0..<n])) [?st..<?tot])
      = drop (?st * sm_gmr s) (take (?tot * sm_gmr s) (o_references p))"
    by (simp only: run_covers_prefix [OF s(1)] tr(1) s(2))
  moreover have "distinct (o_references p)" using plan_every_row(2) [OF p perm] by simp
  moreover have "\<forall>r<n. \<forall>g\<in>{?st..<?tot}. corpus_batch cs ?T (b_references (batch r g)) (batch r g)"
    using b(2) refs by simp
  moreover note b(1)
  moreover have tot: "?tot = length (o_references p) div (g * k) * k"
    using s(1) unfolding sampler_ok_def s(2,4,5) by simp
  ultimately show ?thesis
    using p unfolding Let_def s(4,6) tot by (intro exI [of _ p] exI [of _ batch] conjI) blast+
qed

end
