(* ===== verification/Demo.thy ===== *)
theory Demo
  imports Epoch
begin

text \<open>
  Concrete inputs on which the properties are instantiated: one packed directory per domain, the
  order of their seven rows frozen to microbatches of two, and the loaders of two ranks.
\<close>

definition demo_config :: wconfig where
  "demo_config = \<lparr>c_domain = ''python'', c_split = ''train'', c_sequence_length = 2,
     c_vocab_size = 16, c_eos_token_id = 0, c_rows_per_shard = 2,
     c_tokenizer_manifest_sha256 = replicate 64 (CHR ''a''), c_construction_seed = Some 7,
     c_curation_policy_sha256 = None, c_selection_manifest_sha256 = None\<rparr>"

definition demo_items :: "(nat list \<times> json option) list" where
  "demo_items = [([5, 6, 7], Some (JObj [(''next'', JInt 1)])), ([8], None), ([9, 10], None)]"

lemma demo_ok:
  "wf_config demo_config" "docs_ok (c_vocab_size demo_config) (map fst demo_items)"
  "\<forall>(d, cursor)\<in>set demo_items. cursor_ok cursor"
  by (simp_all add: demo_config_def demo_items_def wf_config_def domain_order_def is_sha256_def
      lower_hex_def list_all_iff docs_ok_def cursor_ok_def)

definition demo_corpus :: "string \<Rightarrow> nat list list \<Rightarrow> corpus" where
  "demo_corpus domain docs = (demo_config\<lparr>c_domain := domain\<rparr>, docs, None)"

definition demo_corpora :: "corpus list" where
  "demo_corpora = [demo_corpus (domain_order ! 0) [[5, 6, 7], [8], [9, 10]],
     demo_corpus (domain_order ! 1) [[3, 4]], demo_corpus (domain_order ! 2) [[11], [12, 13]]]"

definition demo_manifests :: "(string \<times> dir) list" where
  "demo_manifests = map (\<lambda>(c, docs, cursor). (c_domain c, packed_dir c docs cursor)) demo_corpora"

abbreviation demo_dirs :: "string \<Rightarrow> dir" where
  "demo_dirs \<equiv> \<lambda>domain. the (map_of demo_manifests domain)"

abbreviation demo_shuffle :: shuffler where
  "demo_shuffle \<equiv> \<lambda>_. rev"

lemma demo_rows: "map corpus_rows demo_corpora = [4, 1, 2]"
  by (simp add: demo_corpora_def demo_corpus_def demo_config_def packed_rows_def stream_tokens_def)

lemma demo_packed: "packed_corpora demo_dirs demo_corpora"
proof -
  have "corpus_ok (demo_dirs (domain_order ! k)) (domain_order ! k) (demo_corpora ! k) \<and>
      same_format (corpus_cfg (demo_corpora ! k)) (corpus_cfg (demo_corpora ! 0))" if "k < 3" for k
    using that
    by (auto simp: less_Suc_eq numeral_3_eq_3 demo_manifests_def demo_corpora_def demo_corpus_def
        demo_config_def same_format_def domain_order_def wf_config_def docs_ok_def is_sha256_def
        lower_hex_def list_all_iff cursor_ok_def packed_rows_def row_bits_def stream_tokens_def)
  then show ?thesis by (simp add: packed_corpora_def demo_corpora_def domain_order_def)
qed

lemma demo_permutes: "permutes_rows demo_shuffle"
  by (simp add: permutes_rows_def)

definition demo_files :: "(string \<times> string) list" where
  "demo_files = [(''../python/manifest.json'', replicate 64 CHR ''1''),
     (''../other/manifest.json'', replicate 64 CHR ''2''), (''../english/manifest.json'', replicate 64 CHR ''3'')]"

definition demo_locate :: locator where
  "demo_locate path = map_of (zip (map fst demo_files)
     (map (\<lambda>k. (demo_dirs (domain_order ! k), snd (demo_files ! k))) [0..<3])) path"

lemma demo_files_ok: "dataset_files_ok demo_files"
  by (simp add: dataset_files_ok_def demo_files_def domain_order_def is_sha256_def lower_hex_def list_all_iff)

lemma demo_located: "located demo_locate demo_files demo_dirs"
proof -
  have "[0..<3] = [0, 1, 2 :: nat]" by (simp add: upt_rec)
  then show ?thesis
    by (auto simp: located_def demo_locate_def demo_files_def domain_order_def less_Suc_eq numeral_3_eq_3)
qed

text \<open>The order of all seven rows, frozen to global microbatches of two rows.\<close>

lemma demo_plan:
  obtains p u where "plan_training_order demo_shuffle demo_dirs 7 None JNull JNull (JInt 2) (JInt 1) = Inr p"
    "s_total_rows (o_selection p) = 7" "o_consumption p = Some u" "u_gmr u = 2" "u_ga u = 1"
proof -
  have "\<exists>p. plan_training_order demo_shuffle demo_dirs 7 None JNull JNull (JInt 2) (JInt 1) = Inr p \<and>
      o_references p = all_references demo_shuffle 7 (map corpus_rows demo_corpora) \<and>
      s_total_rows (o_selection p) = sum_list (map corpus_rows demo_corpora) \<and>
      (o_consumption p = None) = (JInt 2 = JNull)"
    by (rule plan_all_rows [OF demo_packed demo_permutes]) (simp_all add: demo_rows positive_int_def)
  then obtain p where p: "plan_training_order demo_shuffle demo_dirs 7 None JNull JNull (JInt 2) (JInt 1) = Inr p"
    and n: "s_total_rows (o_selection p) = 7" and c: "o_consumption p \<noteq> None" by (auto simp: demo_rows)
  from c obtain u where u: "o_consumption p = Some u" by blast
  from plan_success [OF p] u have c: "consumption_of demo_dirs (o_sequence_length p) (o_selection p)
      (o_references p) (o_supervised p) 2 1 = Inr u" by (auto simp: res_simps)
  have "u_gmr u = 2" "u_ga u = 1" by (rule consumption_fields [OF c])+
  with that p n u show thesis by blast
qed

lemma demo_order_length:
  assumes "plan_training_order demo_shuffle demo_dirs 7 None JNull JNull (JInt 2) (JInt 1) = Inr p"
  shows "length (o_references p) = 7"
proof -
  obtain q where "plan_training_order demo_shuffle demo_dirs 7 None JNull JNull (JInt 2) (JInt 1) = Inr q"
    "s_total_rows (o_selection q) = 7" by (rule demo_plan)
  with assms plan_references_length [OF assms demo_permutes] show ?thesis by simp
qed

lemma demo_built:
  obtains p u m out where
    "plan_training_order demo_shuffle demo_dirs 7 None JNull JNull (JInt 2) (JInt 1) = Inr p"
    "s_total_rows (o_selection p) = 7" "o_consumption p = Some u" "u_gmr u = 2" "u_ga u = 1"
    "m = order_manifest JNull 7 ''2.0'' demo_files p"
    "build_training_order demo_shuffle ''2.0'' demo_files demo_manifests [] 7 None JNull JNull (JInt 2) (JInt 1)
       = Inr (m, out)"
proof -
  obtain p u where p: "plan_training_order demo_shuffle demo_dirs 7 None JNull JNull (JInt 2) (JInt 1) = Inr p"
    "s_total_rows (o_selection p) = 7" "o_consumption p = Some u" "u_gmr u = 2" "u_ga u = 1" by (rule demo_plan)
  have "set (map fst demo_manifests) = set domain_order"
    by (simp add: demo_manifests_def demo_corpora_def demo_corpus_def domain_order_def)
  then have "\<exists>out. build_training_order demo_shuffle ''2.0'' demo_files demo_manifests [] 7 None JNull JNull
      (JInt 2) (JInt 1) = Inr (order_manifest JNull 7 ''2.0'' demo_files p, out)"
    by (simp add: build_training_order_def p(1) Let_def)
  with that p show thesis by blast
qed

definition demo_sampler_args :: sampler_args where
  "demo_sampler_args = \<lparr>sa_gmr = JInt 2, sa_ga = JInt 1, sa_rank = JInt 0, sa_world = JInt 2,
     sa_start = JInt 0, sa_resume = None\<rparr>"

definition demo_args :: loader_args where
  "demo_args = \<lparr>la_sampler = demo_sampler_args, la_num_workers = JInt 0, la_pin_memory = JBool True,
     la_prefetch_factor = JInt 2, la_persistent_workers = JBool True, la_context = JNull,
     la_verify_order = True, la_verify_payload = True\<rparr>"

lemma demo_new_sampler:
  assumes "o_consumption p = Some u" "u_gmr u = 2" "u_ga u = 1" and r: "r < 2"
  shows "\<exists>s. new_sampler (order_manifest JNull 7 ''2.0'' demo_files p) payload sha
     (with_rank demo_sampler_args r) = Inr s"
proof -
  have "jitem (consumption_json p) ''frozen_global_microbatch_rows'' = Inr (jnat 2)"
    "jitem (consumption_json p) ''frozen_gradient_accumulation_steps'' = Inr (jnat 1)"
    using assms by (simp_all add: jitem_def consumption_json_def Let_def jfield_def)
  moreover have "jget (order_manifest JNull 7 ''2.0'' demo_files p) ''training_consumption'' = consumption_json p"
    by (rule order_manifest_fields)
  ultimately have "check_sampler_args (order_manifest JNull 7 ''2.0'' demo_files p)
      (with_rank demo_sampler_args r) = Inr ()"
    using r by (simp add: check_sampler_args_def Let_def with_rank_def demo_sampler_args_def
        sampler_arguments_def)
  then show ?thesis
    by (simp add: new_sampler_def Let_def fresh_sampler_def with_rank_def demo_sampler_args_def)
qed

lemma demo_stable: "stable_weights None"
  by (simp add: stable_weights_def)

text \<open>The loaders of both ranks.\<close>

lemma demo_loaders:
  obtains m out l where
    "build_training_order demo_shuffle ''2.0'' demo_files demo_manifests [] 7 None JNull JNull (JInt 2) (JInt 1)
       = Inr (m, out)"
    "\<forall>r<2. create_training_dataloader demo_locate [] (demo_args\<lparr>la_sampler := with_rank (la_sampler demo_args) r\<rparr>)
       out = Inr (l r)"
proof -
  obtain p u m out where p: "plan_training_order demo_shuffle demo_dirs 7 None JNull JNull (JInt 2) (JInt 1) = Inr p"
    and u: "o_consumption p = Some u" "u_gmr u = 2" "u_ga u = 1"
    and m: "m = order_manifest JNull 7 ''2.0'' demo_files p"
    and b: "build_training_order demo_shuffle ''2.0'' demo_files demo_manifests [] 7 None JNull JNull (JInt 2) (JInt 1)
       = Inr (m, out)" by (rule demo_built)
  have ld: "load_order_manifest verify out
      = Inr (order_manifest JNull 7 ''2.0'' demo_files p, order_bytes (o_references p))" for verify
    using built_order_loads [OF b demo_packed demo_permutes _ demo_files_ok, of verify] p m by simp
  note cr = create_loader_built [OF ld p demo_packed demo_files_ok demo_located]
  have "\<exists>l. create_training_dataloader demo_locate [] (demo_args\<lparr>la_sampler := with_rank (la_sampler demo_args) r\<rparr>)
      out = Inr l" if r: "r < 2" for r
  proof -
    obtain s where s: "new_sampler (order_manifest JNull 7 ''2.0'' demo_files p) (order_bytes (o_references p)) []
        (with_rank demo_sampler_args r) = Inr s" using demo_new_sampler [OF u r] by blast
    have "check_loader_args (demo_args\<lparr>la_sampler := with_rank (la_sampler demo_args) r\<rparr>) = Inr ()"
      by (simp add: check_loader_args_def demo_args_def)
    with s show ?thesis
      unfolding create_training_dataloader_def ld rbind_Inr prod.case
        resolve_order_built [OF p demo_packed demo_files_ok demo_located ld [of False]]
        open_mixture_packed [OF demo_packed] mixture_collator_packed [OF demo_packed] Let_def
      by (simp add: demo_args_def ld)
  qed
  then obtain l where "\<forall>r<2. create_training_dataloader demo_locate []
      (demo_args\<lparr>la_sampler := with_rank (la_sampler demo_args) r\<rparr>) out = Inr (l r)" by metis
  with b show thesis by (rule that)
qed

end
