(* ===== verification/OrderCapped.thy ===== *)
theory OrderCapped
  imports Demo
begin

text \<open>
  A capped order is built whenever its row selection is accepted: nothing after the allocation of
  rows to domains can fail over packed directories.
\<close>

lemma every_row_in:
  assumes "packed_corpora manifests cs"
  shows "list_all (row_in cs) (every_row (map corpus_rows cs))"
proof -
  have len: "length cs = length domain_order" using assms by (simp add: packed_corpora_def)
  have "map corpus_rows cs ! k < 2 ^ row_bits" if "k < length domain_order" for k
    using assms that len corpus_ok_rows [of "manifests (domain_order ! k)" "domain_order ! k" "cs ! k"]
    by (simp add: packed_corpora_def)
  then have bound: "\<forall>k < length domain_order. map corpus_rows cs ! k < 2 ^ row_bits" by blast
  have "fst d < length domain_order \<and> snd d < corpus_rows (cs ! fst d)"
    if "d \<in> set (map decode_reference (every_row (map corpus_rows cs)))" for d
    using that len unfolding every_row_decoded [OF every_row_bound [OF bound]] by auto
  then show ?thesis by (auto simp: list_all_iff row_in_def)
qed

lemma supervised_complement:
  assumes cs: "packed_corpora manifests cs" and m: "mset refs + mset surplus = mset (every_row (map corpus_rows cs))"
    and k: "k < length domain_order"
  shows "supervised_in cs refs k + supervised_in cs surplus k = corpus_valid (cs ! k)"
proof -
  from m have "mset (refs @ surplus) = mset (every_row (map corpus_rows cs))" by simp
  from supervised_in_mset [OF this, of cs k] supervised_every_row [OF cs k] show ?thesis by simp
qed

lemma selected_supervised_capped:
  assumes cs: "packed_corpora manifests cs" and m: "mset refs + mset surplus = mset (every_row (map corpus_rows cs))"
    and sel: "s_capped sel" and T: "T = c_sequence_length (corpus_cfg (cs ! 0))"
  shows "selected_supervised manifests T sel (map corpus_rows cs) (map corpus_valid cs) refs surplus
     = Inr (map (\<lambda>k. int (supervised_in cs refs k)) [0..<length domain_order])"
proof -
  have len: "length cs = length domain_order" using cs by (simp add: packed_corpora_def)
  have "list_all (row_in cs) (refs @ surplus)"
    by (rule row_in_mset [OF _ every_row_in [OF cs]]) (simp add: m)
  then have r: "list_all (row_in cs) refs" "list_all (row_in cs) surplus" by auto
  note cnt = count_supervised_rows [OF cs _ T]
  note tot = supervised_complement [OF cs m]
  have a: "sub_lists (map int (map corpus_valid cs)) (map int (map (supervised_in cs surplus) [0..<length domain_order]))
      = map (\<lambda>k. int (supervised_in cs refs k)) [0..<length domain_order]"
    using len by (intro nth_equality_upt) (simp_all add: nth_sub_lists flip: tot)
  have b: "\<not> list_ex (\<lambda>v. v < 0) (sub_lists (map int (map corpus_valid cs))
      (map (\<lambda>k. int (supervised_in cs refs k)) [0..<length domain_order]))"
    using len by (auto simp: list_ex_length nth_sub_lists simp flip: tot)
  have c: "map int (map (supervised_in cs refs) [0..<length domain_order])
      = map (\<lambda>k. int (supervised_in cs refs k)) [0..<length domain_order]" by simp
  show ?thesis
    using sel b unfolding selected_supervised_def Let_def cnt [OF r(1)] cnt [OF r(2)] rbind_Inr a c by simp
qed

theorem plan_capped:
  assumes cs: "packed_corpora manifests cs" and perm: "permutes_rows shuffle"
    and e: "expected \<noteq> JNull" and w: "normalize_domain_weights ws = Inr w"
    and frozen: "gmr = JNull \<and> ga = JNull \<or> positive_int gmr \<and> positive_int ga"
    and sel: "select_capped (map corpus_rows cs) (c_sequence_length (corpus_cfg (cs ! 0))) (Some w) expected tol
       (frozen_update_rows gmr ga) = Inr sel"
  shows "\<exists>p. plan_training_order shuffle manifests seed (Some ws) expected tol gmr ga = Inr p \<and>
     o_selection p = sel \<and> o_weights p = Some w"
proof -
  let ?T = "c_sequence_length (corpus_cfg (cs ! 0))" and ?av = "map corpus_rows cs"
  have len: "length cs = length domain_order" using cs by (simp add: packed_corpora_def)
  have ok: "corpus_ok (manifests (domain_order ! k)) (domain_order ! k) (cs ! k)" if "k < length cs" for k
    using cs that by (simp add: packed_corpora_def)
  have ne: "cs \<noteq> []" using len by (auto simp: domain_order_def)
  have T: "manifest_num ''sequence_length'' (hd (map corpus_manifest cs)) = ?T"
    using ne corpus_numbers(3) [OF ok, of 0] by (simp add: hd_map hd_conv_nth)
  have rows: "map (manifest_num ''rows'') (map corpus_manifest cs) = ?av"
    and valid: "map (manifest_num ''valid_loss_tokens'') (map corpus_manifest cs) = map corpus_valid cs"
    by (rule nth_equalityI; simp add: corpus_numbers [OF ok])+
  have bound: "\<forall>k < length domain_order. ?av ! k < 2 ^ row_bits"
    using corpus_ok_rows [OF ok] len by simp
  then have big: "\<not> list_ex (\<lambda>n. 2 ^ row_bits - 1 < n) ?av"
    using len by (fastforce simp: list_ex_length)
  have lav: "length ?av = length domain_order" using len by simp
  note f = select_capped_facts [OF sel refl w lav]
  have some: "1 \<le> sum_list ?av"
  proof -
    have "sum_list (s_rows_per_domain sel) \<le> sum_list ?av"
      using f(6,8) lav by (simp add: sum_list_sum_nth atLeast0LessThan) (auto intro!: sum_mono)
    with f(4,7) show ?thesis by simp
  qed
  obtain refs surplus where rs: "capped_references shuffle seed ?av (s_rows_per_domain sel) = (refs, surplus)"
    by (cases "capped_references shuffle seed ?av (s_rows_per_domain sel)")
  note m = capped_every_row [OF rs perm every_row_bound [OF bound]]
  let ?sup = "map (\<lambda>k. int (supervised_in cs refs k)) [0..<length domain_order]"
  have sup: "selected_supervised manifests ?T sel ?av (map corpus_valid cs) refs surplus = Inr ?sup"
    by (rule selected_supervised_capped [OF cs m f(2) refl])
  have "list_all (row_in cs) (refs @ surplus)"
    by (rule row_in_mset [OF _ every_row_in [OF cs]]) (simp add: m)
  then have "list_all (row_in cs) (drop n refs)" for n by (auto simp: list_all_iff dest: in_set_dropD)
  from count_supervised_rows [OF cs this refl]
  have cons: "\<exists>u. consumption_of manifests ?T sel refs ?sup g a = Inr u" if "1 \<le> s_total_rows sel div (g * a)" for g a
    using that by (simp add: consumption_of_def Let_def not_less)
  have whole: "1 \<le> s_total_rows sel div (nat (jint_of gmr) * nat (jint_of ga))" if "gmr \<noteq> JNull"
  proof -
    let ?u = "nat (jint_of gmr) * nat (jint_of ga)" and ?q = "nat (jint_of expected) div ?T"
    have N: "s_total_rows sel = ?q div ?u * ?u" using f(3) that by (simp add: frozen_update_rows_def cap_rows_def)
    with f(4) have "0 < ?u" by (metis mult_0_right neq0_conv not_one_le_zero)
    with N f(4) show ?thesis by (metis div_mult_self_is_m less_one linorder_not_less mult_0)
  qed
  have "\<exists>u. (if gmr = JNull then Inr None
      else rbind (consumption_of manifests ?T sel refs ?sup (nat (jint_of gmr)) (nat (jint_of ga)))
        (\<lambda>u. Inr (Some u))) = Inr u"
    using cons [OF whole] by (cases "gmr = JNull") fastforce+
  then obtain u where u: "(if gmr = JNull then Inr None
      else rbind (consumption_of manifests ?T sel refs ?sup (nat (jint_of gmr)) (nat (jint_of ga)))
        (\<lambda>u. Inr (Some u))) = Inr u" by blast
  have fr: "((gmr = JNull) \<noteq> (ga = JNull)) = False" "(frozen_value_ok gmr \<and> frozen_value_ok ga) = True"
    using frozen by (auto simp: frozen_value_ok_def positive_int_def)
  have ur: "(if gmr = JNull then None else Some (nat (jint_of gmr) * nat (jint_of ga))) = frozen_update_rows gmr ga"
    by (simp add: frozen_update_rows_def)
  have n1: "\<not> sum_list ?av < 1" using some by (simp only: not_less)
  have "plan_training_order shuffle manifests seed (Some ws) expected tol gmr ga = Inr
     \<lparr>o_inputs = map corpus_manifest cs, o_sequence_length = ?T, o_available_rows = ?av,
      o_available_supervised = map corpus_valid cs, o_weights = Some w, o_selection = sel,
      o_references = refs, o_surplus = surplus, o_supervised = ?sup, o_consumption = u\<rparr>"
    unfolding plan_training_order_def load_order_inputs_packed [OF cs] rbind_Inr Let_def T rows valid ur
    by (simp only: fr n1 big e if_False if_True not_True_eq_False not_False_eq_True simp_thms option.case w
        rbind_Inr sel f(2) rs prod.case sup u) (use fr(1) in simp)
  then show ?thesis by simp
qed

section \<open>A capped demo order\<close>

definition demo_weights :: "(string \<times> rat) list" where
  "demo_weights = [(''python'', 1), (''other_code'', 0), (''english'', 0)]"

lemma fl_1: "fl 1 = 1"
  by (simp add: fl_def Let_def exponent2_def quotient_of_number ilog2.simps pow2_def round_half_even_def)

lemma demo_normalized: "normalize_domain_weights demo_weights = Inr [1, 0, 0]"
  by (simp add: normalize_domain_weights_def demo_weights_def domain_order_def py_sum_def csum_step_def
      py_add_def py_sub_def py_div_def fl_1 Let_def)

lemma repr_0: "repr_fraction 0 = 0"
  by (simp add: repr_fraction_def)

lemma repr_1: "repr_fraction 1 = 1"
proof -
  have "decimal_round 1 1 = 1"
    by (simp add: decimal_round_def exponent10_def ilog10.simps pow10_def round_half_even_def Let_def)
  moreover have "[1..<18] = 1 # [2..<18 :: nat]" by (simp add: upt_conv_Cons numeral_2_eq_2)
  ultimately show ?thesis by (simp add: repr_fraction_def fl_1)
qed

lemma demo_allocation: "strict_weighted_row_counts 2 [1, 0, 0] = Inr [2, 0, 0]"
proof -
  have fl2: "fl 2 = 2"
    by (simp add: fl_def Let_def exponent2_def quotient_of_number ilog2.simps pow2_def round_half_even_def)
  have "allocate_rows 2 [1, 0, 0] = [2, 0, 0]"
    by (simp add: allocate_rows_def exact_shares_def Let_def upt_rec)
  then show ?thesis
    by (simp add: strict_weighted_row_counts_def repr_1 repr_0 validate_row_mixture_def py_sub_def py_mul_def fl2 Let_def)
qed

lemma demo_capped:
  obtains p where "plan_training_order demo_shuffle demo_dirs 7 (Some demo_weights) (JInt 5) JNull JNull JNull = Inr p"
    "o_weights p = Some [1, 0, 0]"
proof -
  have T: "c_sequence_length (corpus_cfg (demo_corpora ! 0)) = 2"
    by (simp add: demo_corpora_def demo_corpus_def demo_config_def)
  have "select_capped (map corpus_rows demo_corpora) (c_sequence_length (corpus_cfg (demo_corpora ! 0)))
      (Some [1, 0, 0]) (JInt 5) JNull (frozen_update_rows JNull JNull)
    = Inr \<lparr>s_capped = True, s_rows_per_domain = [2, 0, 0], s_total_rows = 2, s_delta = Some (- 1),
        s_tolerance = JInt 1\<rparr>"
    by (simp add: T demo_rows select_capped_def frozen_update_rows_def demo_allocation positive_int_def Let_def)
  from plan_capped [OF demo_packed demo_permutes _ demo_normalized _ this, of 7] that show thesis by auto
qed

end
