(* ===== verification/DataProps.thy ===== *)
theory DataProps
  imports OrderCapped
begin

text \<open>
  Properties of the single components of the data path: readers and collator, orders, samplers.
\<close>

section \<open>Packed rows\<close>

text \<open>C16: Reading back what was packed. The directory of any finished writer opens; row \<open>r\<close> is the
  window of the token stream that starts at \<open>r\<close> times the sequence length, one token of lookahead
  included, with its start bits; a negative index counts from the end; every other index is an
  \<^verbatim>\<open>IndexError\<close>.\<close>

theorem stored_rows_are_stream_rows:
  assumes "wf_config c" and "docs_ok (c_vocab_size c) (map fst items)"
    and "\<forall>(d, cursor)\<in>set items. cursor_ok cursor" and "pack_documents c items = Inr (m, w)"
  shows "\<exists>ds. open_dataset verify (w_dir w) = Inr ds \<and>
     (let S = stream_tokens (c_eos_token_id c) (map fst items); B = stream_starts (map fst items);
          T = c_sequence_length c; R = (length S - 1) div T in
      ds_len ds = int R \<and>
      (\<forall>r<R. let row = Inr \<lparr>r_tokens = map int (row_tokens T S r),
             r_starts = map uint (packbits (row_starts T B r)), r_row_id = r\<rparr> in
         get_row ds (int r) = row \<and> get_row ds (int r - int R) = row) \<and>
      (\<forall>i. i < - int R \<or> int R \<le> i \<longrightarrow> get_row ds i = Inl (IndexError ''row_id'')))"
proof -
  let ?cur = "last_cursor None items" and ?docs = "map fst items"
  let ?S = "stream_tokens (c_eos_token_id c) ?docs"
  from pack_documents_correct [OF assms(1-3)] assms(4)
  have d: "map_of (w_dir w) = map_of (packed_dir c ?docs ?cur)" by auto
  have "cursor_ok (last_cursor a items)" if "cursor_ok a" for a
    using that assms(3)
    by (induction a items rule: last_cursor.induct)
      (auto simp: cursor_ok_def is_jobj_sort_keys split: option.splits)
  then have cur: "cursor_ok ?cur" by (simp add: cursor_ok_def)
  let ?ds = "packed_dataset c ?docs ?cur (w_dir w)"
  have op: "open_dataset verify (w_dir w) = Inr ?ds" by (rule open_packed_dataset [OF assms(1,2) cur d])
  have len: "ds_len ?ds = int (packed_rows c ?S)"
    using packed_load(9) [OF assms(1,2) cur d] by (simp add: ds_len_def packed_dataset_def Let_def)
  note row = get_row_packed [OF assms(1,2) cur d]
  have neg: "get_row ?ds (int r - int (packed_rows c ?S)) = get_row ?ds (int r)" if "r < packed_rows c ?S" for r
    using that by (simp add: get_row_def len)
  have out: "get_row ?ds i = Inl (IndexError ''row_id'')"
    if "i < - int (packed_rows c ?S) \<or> int (packed_rows c ?S) \<le> i" for i
    using that by (auto simp: get_row_def len Let_def)
  show ?thesis
    unfolding Let_def packed_rows_def [symmetric]
    using op len row neg out by (intro exI [of _ ?ds] conjI allI impI) simp_all
qed

theorem stored_rows_are_stream_rows_witness:
  "\<exists>m w ds. pack_documents demo_config demo_items = Inr (m, w) \<and> open_dataset True (w_dir w) = Inr ds \<and>
     get_row ds (- 1) = Inr \<lparr>r_tokens = [9, 10, 0], r_starts = [1], r_row_id = 3\<rparr>"
proof -
  from pack_documents_correct [OF demo_ok] obtain m w where w: "pack_documents demo_config demo_items = Inr (m, w)"
    by blast
  have s: "stream_tokens 0 (map fst demo_items) = [5, 6, 7, 0, 8, 0, 9, 10, 0]"
    "stream_starts (map fst demo_items) = [True, False, False, False, True, False, True, False, False]"
    by (simp_all add: demo_items_def stream_tokens_def stream_starts_def)
  have c: "c_eos_token_id demo_config = 0" "c_sequence_length demo_config = 2" by (simp_all add: demo_config_def)
  have "packbits (row_starts 2 (stream_starts (map fst demo_items)) 3) = [1]"
    by (simp add: s row_starts_def segment_def byte_of_bits_def horner_sum_simps)
  moreover have "row_tokens 2 (stream_tokens 0 (map fst demo_items)) 3 = [9, 10, 0]"
    by (simp add: s row_tokens_def segment_def)
  moreover from stored_rows_are_stream_rows [OF demo_ok w, of True] obtain ds where
    "open_dataset True (w_dir w) = Inr ds"
    "\<forall>r<4. get_row ds (int r - 4) = Inr \<lparr>r_tokens = map int (row_tokens 2 (stream_tokens 0 (map fst demo_items)) r),
       r_starts = map uint (packbits (row_starts 2 (stream_starts (map fst demo_items)) r)), r_row_id = r\<rparr>"
    by (auto simp: Let_def c s)
  moreover from this(2) [rule_format, of 3] calculation(1,2) have "get_row ds (- 1)
      = Inr \<lparr>r_tokens = [9, 10, 0], r_starts = [1], r_row_id = 3\<rparr>" by simp
  ultimately show ?thesis using w by blast
qed

section \<open>Batches\<close>

text \<open>C22: Attention isolation. Within a row two positions carry the same document id exactly when
  no document starts after the first and up to the second; ids never decrease, so the mask built
  from equality of ids never lets a document see another.\<close>

theorem document_ids_isolate_documents:
  assumes "i \<le> j" and "j < length flags"
  shows "row_document_ids flags ! i \<le> row_document_ids flags ! j \<and>
     (row_document_ids flags ! i = row_document_ids flags ! j \<longleftrightarrow> (\<forall>k. i < k \<longrightarrow> k \<le> j \<longrightarrow> \<not> flags ! k))"
  using row_document_ids_spec [OF assms] starts_in_0 [OF assms(2), of i] by auto

theorem document_ids_isolate_documents_witness:
  "row_document_ids [True, False, True, False] = [0, 0, 1, 1] \<and>
     row_document_ids [True, False, True, False] ! 1 \<noteq> row_document_ids [True, False, True, False] ! 2"
  using document_ids_isolate_documents [of 1 2 "[True, False, True, False]"]
  by (auto simp: row_document_ids_def)

text \<open>Position ids restart with every document: a position is its distance to the last start at
  or before it, in any row that begins a segment, as every packed row does.\<close>

theorem positions_restart_with_documents:
  assumes "i < length flags" and "flags ! 0"
  shows "\<exists>l\<le>i. flags ! l \<and> (\<forall>j. l < j \<longrightarrow> j \<le> i \<longrightarrow> \<not> flags ! j) \<and> row_positions flags ! i = int (i - l)"
  by (rule row_positions_spec [OF assms])

theorem positions_restart_with_documents_witness:
  "\<exists>l\<le>3. [True, False, True, False] ! l \<and> row_positions [True, False, True, False] ! 3 = int (3 - l)"
  using positions_restart_with_documents [of 3 "[True, False, True, False]"] by auto

section \<open>Orders\<close>

text \<open>C17: What validation proves. When \<^verbatim>\<open>validate_training_order\<close> accepts a directory, its order
  holds no reference twice, every reference names a row its domain has, and the references of each
  domain are as many as the manifest says. The directory may come from anywhere.\<close>

theorem accepted_order_visits_rows_once:
  assumes "validate_training_order locate verify_hashes d = Inr m"
  shows "\<exists>payload. load_order_manifest True d = Inr (m, payload) \<and> distinct (map_order payload) \<and>
     (\<forall>w\<in>set (map_order payload). fst (decode_reference w) < length domain_order \<and>
        int (snd (decode_reference w))
          < domain_ints (jget m ''packed_available_rows_per_domain'') ! fst (decode_reference w)) \<and>
     (\<forall>k < length domain_order. int (length (filter (\<lambda>w. fst (decode_reference w) = k) (map_order payload)))
        = domain_ints (jget m ''rows_per_domain'') ! k)"
proof (rule validated_order [OF assms])
  fix payload assume "load_order_manifest True d = Inr (m, payload)"
    and "order_ok (map nat (domain_ints (jget m ''packed_available_rows_per_domain''))) (map_order payload)"
    and "\<And>k. k < length domain_order \<Longrightarrow>
      int (length (filter (\<lambda>w. fst (decode_reference w) = k) (map_order payload)))
        = domain_ints (jget m ''rows_per_domain'') ! k"
  then show ?thesis by (auto simp: order_ok_iff)
qed

theorem accepted_order_visits_rows_once_witness:
  "\<exists>m out payload. build_training_order demo_shuffle ''2.0'' demo_files demo_manifests [] 7 None JNull JNull
      (JInt 2) (JInt 1) = Inr (m, out) \<and> validate_training_order demo_locate True out = Inr m \<and>
     load_order_manifest True out = Inr (m, payload) \<and> distinct (map_order payload)"
proof -
  obtain m out where b: "build_training_order demo_shuffle ''2.0'' demo_files demo_manifests [] 7 None JNull JNull
      (JInt 2) (JInt 1) = Inr (m, out)" by (rule demo_built)
  have v: "validate_training_order demo_locate True out = Inr m"
    by (rule built_order_validates [OF b demo_packed demo_permutes _ demo_files_ok _ _ demo_located]) simp_all
  from accepted_order_visits_rows_once [OF v] b v show ?thesis by blast
qed

text \<open>C27: The chunked scan with one array of seen rows per domain is equivalent to the plain
  statement: it accepts exactly the duplicate-free lists of addressable references, and then returns
  the rows seen and the per-domain counts of the consumed prefix.\<close>

theorem chunked_scan_is_exact:
  assumes "length available = length domain_order"
  shows "scan_order available consumed order = Inr (seen, observed) \<longleftrightarrow>
     distinct order \<and> (\<forall>w\<in>set order. fst (decode_reference w) < length domain_order \<and>
        snd (decode_reference w) < available ! fst (decode_reference w)) \<and>
     seen = seen_of available order \<and> observed = observed_counts consumed order"
  using scan_order_iff [OF assms] by (simp add: order_ok_iff)

theorem chunked_scan_is_exact_witness:
  "(\<exists>seen observed. scan_order [2, 1, 1] None [reference_of 0 1, reference_of 2 0] = Inr (seen, observed)) \<and>
   (\<nexists>seen observed. scan_order [2, 1, 1] None [reference_of 0 1, reference_of 2 0, reference_of 0 1] = Inr (seen, observed))"
proof -
  have n: "length [2, 1, 1 :: nat] = length domain_order" by (simp add: domain_order_def)
  have d: "decode_reference (reference_of 0 1) = (0, 1)" "decode_reference (reference_of 2 0) = (2, 0)"
    by (rule decode_reference_of; simp add: row_bits_def)+
  then have "reference_of 0 1 \<noteq> reference_of 2 0" by auto
  then show ?thesis
    using chunked_scan_is_exact [OF n, of None] d by (auto simp: domain_order_def nth_Cons')
qed

text \<open>C20: An order and its surplus are together every available row exactly once, an order without a
  token cap has no surplus and is itself a rearrangement of every row, and each domain contributes
  exactly the rows allocated to it, whatever permutation the generator produces.\<close>

theorem order_selects_every_row_once:
  assumes "plan_training_order shuffle manifests seed weights expected tol gmr ga = Inr p"
    and "permutes_rows shuffle"
  shows "mset (o_references p @ o_surplus p) = mset (every_row (o_available_rows p)) \<and>
     distinct (o_references p @ o_surplus p) \<and>
     (expected = JNull \<longrightarrow> o_surplus p = [] \<and> mset (o_references p) = mset (every_row (o_available_rows p)) \<and>
        s_rows_per_domain (o_selection p) = o_available_rows p) \<and>
     (\<forall>k < length domain_order. length (filter (\<lambda>w. fst (decode_reference w) = k) (o_references p))
        = s_rows_per_domain (o_selection p) ! k)"
proof -
  have "o_surplus p = [] \<and> s_rows_per_domain (o_selection p) = o_available_rows p" if "expected = JNull"
    using plan_uncapped assms(1) unfolding that by blast
  then show ?thesis using plan_every_row [OF assms] plan_domain_counts [OF assms] by auto
qed

theorem order_selects_every_row_once_witness:
  "\<exists>p. plan_training_order demo_shuffle demo_dirs 7 None JNull JNull (JInt 2) (JInt 1) = Inr p \<and>
     distinct (o_references p @ o_surplus p) \<and> mset (o_references p) = mset (every_row (o_available_rows p))"
proof -
  obtain p where p: "plan_training_order demo_shuffle demo_dirs 7 None JNull JNull (JInt 2) (JInt 1) = Inr p"
    by (rule demo_plan)
  from order_selects_every_row_once [OF p demo_permutes] p show ?thesis by blast
qed

text \<open>C21: Counting supervised tokens on the smaller of selection and surplus, and consumed tokens as
  the difference to the dropped suffix, equals counting the selected and the consumed rows directly.\<close>

theorem complement_accounting_is_direct:
  assumes "plan_training_order shuffle manifests seed weights expected tol gmr ga = Inr p"
    and "packed_corpora manifests cs" and "permutes_rows shuffle"
  shows "count_supervised manifests (o_sequence_length p) (o_references p) = Inr (map nat (o_supervised p)) \<and>
     (\<forall>x\<in>set (o_supervised p). 0 \<le> x) \<and>
     (\<forall>u. o_consumption p = Some u \<longrightarrow>
        count_supervised manifests (o_sequence_length p) (take (u_rows u) (o_references p))
          = Inr (map nat (u_supervised_per_domain u)) \<and> (\<forall>x\<in>set (u_supervised_per_domain u). 0 \<le> x))"
  using plan_supervised_direct [OF assms] plan_consumed_direct [OF assms] by (auto simp: o_def)

theorem complement_accounting_is_direct_witness:
  "\<exists>p u. plan_training_order demo_shuffle demo_dirs 7 None JNull JNull (JInt 2) (JInt 1) = Inr p \<and>
     o_consumption p = Some u \<and> count_supervised demo_dirs (o_sequence_length p) (take (u_rows u) (o_references p))
          = Inr (map nat (u_supervised_per_domain u))"
proof -
  obtain p u where p: "plan_training_order demo_shuffle demo_dirs 7 None JNull JNull (JInt 2) (JInt 1) = Inr p"
    "o_consumption p = Some u" by (rule demo_plan)
  from complement_accounting_is_direct [OF p(1) demo_packed demo_permutes] p show ?thesis by blast
qed

text \<open>C23: The largest-remainder allocation hands out exactly the rows asked for, and every domain
  gets its exact share rounded down or up. The weights are any non-negative fractions with a
  positive sum.\<close>

theorem allocation_meets_quota:
  assumes "weights_ok fs"
  shows "sum_list (allocate_rows n fs) = n \<and> length (allocate_rows n fs) = length fs \<and>
     (\<forall>i < length fs. \<bar>of_nat (allocate_rows n fs ! i) - of_nat n * fs ! i / sum_list fs\<bar> < 1 \<and>
        (allocate_rows n fs ! i = nat \<lfloor>of_nat n * fs ! i / sum_list fs\<rfloor> \<or>
         allocate_rows n fs ! i = nat \<lceil>of_nat n * fs ! i / sum_list fs\<rceil>))"
  using sum_allocate_rows [OF assms] allocate_rows_quota [OF assms]
  by (simp add: exact_shares_def)

theorem allocation_meets_quota_witness:
  "sum_list (allocate_rows 11 [1, 6, 15]) = 11 \<and> allocate_rows 11 [1, 6, 15] ! 2 \<in> {7, 8}"
proof -
  have ok: "weights_ok [1, 6, 15]" by (simp add: weights_ok_def)
  have "allocate_rows 11 [1, 6, 15] ! 2 = nat \<lfloor>(15 / 2 :: rat)\<rfloor> \<or> allocate_rows 11 [1, 6, 15] ! 2 = nat \<lceil>(15 / 2 :: rat)\<rceil>"
    using allocation_meets_quota [OF ok, of 11, THEN conjunct2, THEN conjunct2, rule_format, of 2] by simp
  moreover have "\<lfloor>(15 / 2 :: rat)\<rfloor> = 7" "\<lceil>(15 / 2 :: rat)\<rceil> = 8" by (simp_all add: floor_eq_iff ceiling_eq_iff)
  ultimately show ?thesis using allocation_meets_quota [OF ok, of 11] by auto
qed

text \<open>Who gets the extra rows: a domain rounded up has a larger fractional part than one rounded
  down, or the same and comes earlier in domain order.\<close>

theorem extra_rows_go_to_largest_remainders:
  assumes "i < length fs" and "j < length fs"
    and "allocate_rows n fs ! i = share_floor n fs i + 1" and "allocate_rows n fs ! j = share_floor n fs j"
  shows "share_rest n fs j < share_rest n fs i \<or> share_rest n fs j = share_rest n fs i \<and> i < j"
proof (rule bumped_before)
  show "i \<in> bumped n fs" using nth_allocate_rows [OF assms(1), of n] assms(3)
    unfolding bumped_def by (metis add_left_cancel zero_neq_one)
  show "j \<notin> bumped n fs" using nth_allocate_rows [OF assms(2), of n] assms(4)
    unfolding bumped_def by (metis add_cancel_right_right zero_neq_one)
qed (rule assms)

theorem extra_rows_go_to_largest_remainders_witness:
  "share_rest 4 [1, 1, 1] 2 < share_rest 4 [1, 1, 1] 0 \<or> share_rest 4 [1, 1, 1] 2 = share_rest 4 [1, 1, 1] 0 \<and> (0 :: nat) < 2"
proof (rule extra_rows_go_to_largest_remainders)
  have f: "\<lfloor>(4 / 3 :: rat)\<rfloor> = 1" by (simp add: floor_eq_iff)
  show "allocate_rows 4 [1, 1, 1] ! 0 = share_floor 4 [1, 1, 1] 0 + 1"
    "allocate_rows 4 [1, 1, 1] ! 2 = share_floor 4 [1, 1, 1] 2"
    by (simp_all add: allocate_rows_def exact_shares_def share_floor_def Let_def f upt_rec insort_key.simps less_eq_prod_def)
qed simp_all

text \<open>C24: A token cap selects the largest whole number of rows, or of optimizer updates, at or below
  the target: what is selected fits, and nothing larger does.\<close>

theorem cap_selects_the_largest_prefix:
  assumes "plan_training_order shuffle manifests seed weights expected tol gmr ga = Inr p"
    and "expected \<noteq> JNull"
  shows "(let n = s_total_rows (o_selection p); T = o_sequence_length p; target = nat (jint_of expected);
       u = nat (jint_of gmr) * nat (jint_of ga) in
     n * T \<le> target \<and> 1 \<le> n \<and> (gmr \<noteq> JNull \<longrightarrow> u dvd n) \<and>
     (\<forall>m. 0 < T \<longrightarrow> m * T \<le> target \<longrightarrow> (gmr \<noteq> JNull \<longrightarrow> u dvd m) \<longrightarrow> m \<le> n) \<and>
     sum_list (s_rows_per_domain (o_selection p)) = n)"
proof -
  note c = plan_cap(1,2) [OF assms]
  let ?u = "frozen_update_rows gmr ga" and ?t = "nat (jint_of expected)" and ?T = "o_sequence_length p"
  have d: "gmr \<noteq> JNull \<longrightarrow> nat (jint_of gmr) * nat (jint_of ga) dvd cap_rows ?t ?T ?u"
    by (simp add: frozen_update_rows_def cap_rows_def)
  have g: "m \<le> cap_rows ?t ?T ?u" if "0 < ?T" "m * ?T \<le> ?t" "gmr \<noteq> JNull \<longrightarrow> nat (jint_of gmr) * nat (jint_of ga) dvd m" for m
    using that by (intro cap_rows_greatest) (auto simp: frozen_update_rows_def)
  show ?thesis
    using c(2) cap_rows_le [of ?t ?T ?u] d g plan_rows(3) [OF assms(1)] by (simp add: Let_def c(1))
qed

theorem cap_selects_the_largest_prefix_witness:
  "\<exists>p. plan_training_order demo_shuffle demo_dirs 7 (Some demo_weights) (JInt 5) JNull JNull JNull = Inr p \<and>
     s_total_rows (o_selection p) * o_sequence_length p \<le> 5 \<and> sum_list (s_rows_per_domain (o_selection p)) \<ge> 1"
proof -
  obtain p where p: "plan_training_order demo_shuffle demo_dirs 7 (Some demo_weights) (JInt 5) JNull JNull JNull = Inr p"
    by (rule demo_capped)
  from cap_selects_the_largest_prefix [OF p] p show ?thesis by (auto simp: Let_def)
qed

text \<open>The frozen consumption is whole updates: consumed and dropped rows add up, fewer than one
  update is dropped, the dropped rows are whole microbatches and one partial one, and the per-domain
  counts are those of the consumed prefix.\<close>

theorem frozen_consumption_is_whole_updates:
  assumes "plan_training_order shuffle manifests seed weights expected tol gmr ga = Inr p"
    and "permutes_rows shuffle" and "o_consumption p = Some u"
  shows "u_rows u = u_updates u * (u_gmr u * u_ga u) \<and> 1 \<le> u_updates u \<and>
     u_rows u + u_dropped_rows u = s_total_rows (o_selection p) \<and> u_dropped_rows u < u_gmr u * u_ga u \<and>
     int (u_dropped_rows u) = u_dropped_microbatches u * int (u_gmr u) + int (u_dropped_partial_rows u) \<and>
     0 \<le> u_dropped_microbatches u \<and> u_dropped_microbatches u < int (u_ga u) \<and>
     sum_list (u_rows_per_domain u) = u_rows u \<and>
     (\<forall>k < length domain_order. u_dropped_rows_per_domain u ! k =
        int (length (filter (\<lambda>w. fst (decode_reference w) = k) (drop (u_rows u) (o_references p)))))"
proof -
  note d = plan_consumption_domains [OF assms]
  show ?thesis using consumption_geometry [OF d(4,1,2)] consumption_fields(5,6) [OF d(4)] d(5,6) by simp
qed

theorem frozen_consumption_is_whole_updates_witness:
  "\<exists>p u. plan_training_order demo_shuffle demo_dirs 7 None JNull JNull (JInt 2) (JInt 1) = Inr p \<and>
     o_consumption p = Some u \<and> u_rows u = 6 \<and> u_dropped_rows u = 1"
proof -
  obtain p u where p: "plan_training_order demo_shuffle demo_dirs 7 None JNull JNull (JInt 2) (JInt 1) = Inr p"
    "s_total_rows (o_selection p) = 7" "o_consumption p = Some u" "u_gmr u = 2" "u_ga u = 1" by (rule demo_plan)
  from frozen_consumption_is_whole_updates [OF p(1) demo_permutes p(3)] p(2,4,5)
  have "u_rows u = u_updates u * 2" "u_rows u + u_dropped_rows u = 7" "u_dropped_rows u < 2" by simp_all
  then have "u_rows u = 6 \<and> u_dropped_rows u = 1" by presburger
  with p(1,3) show ?thesis by blast
qed

text \<open>C25: Building an order over all rows, frozen or not, always succeeds over packed directories with
  at least one row (and at least one update of rows when frozen).\<close>

theorem all_rows_order_is_always_built:
  assumes "packed_corpora manifests cs" and "permutes_rows shuffle" and "0 \<le> seed"
    and "1 \<le> sum_list (map corpus_rows cs)"
    and "gmr = JNull \<and> ga = JNull \<or> positive_int gmr \<and> positive_int ga \<and>
      nat (jint_of gmr) * nat (jint_of ga) \<le> sum_list (map corpus_rows cs)"
  shows "\<exists>p. plan_training_order shuffle manifests seed None JNull JNull gmr ga = Inr p \<and>
     length (o_references p) = sum_list (map corpus_rows cs)"
proof -
  from plan_all_rows [OF assms] obtain p where
    p: "plan_training_order shuffle manifests seed None JNull JNull gmr ga = Inr p"
    "s_total_rows (o_selection p) = sum_list (map corpus_rows cs)" by blast
  from plan_references_length [OF p(1) assms(2)] p show ?thesis by auto
qed

theorem all_rows_order_is_always_built_witness:
  "\<exists>p. plan_training_order demo_shuffle demo_dirs 7 None JNull JNull (JInt 2) (JInt 1) = Inr p \<and>
     length (o_references p) = 7"
  using all_rows_order_is_always_built [OF demo_packed demo_permutes, of 7 "JInt 2" "JInt 1"]
  by (simp add: demo_rows positive_int_def)

text \<open>C26: The order file round-trips: every directory \<^verbatim>\<open>build_training_order\<close> leaves over packed
  directories is accepted by the reader, with or without checksums, which returns the builder's
  manifest and, through the memory map, the planned references. With a token target the weights
  must be stable under renormalisation.\<close>

theorem built_order_reads_back:
  assumes "build_training_order shuffle np files manifests output seed weights expected tol gmr ga = Inr (m, out)"
    and "packed_corpora (\<lambda>domain. the (map_of manifests domain)) cs" and "permutes_rows shuffle"
    and "np \<noteq> []" and "dataset_files_ok files" and "0 \<le> seed" and "\<not> is_jbool tol"
    and "expected = JNull \<or> stable_weights weights"
  shows "\<exists>p payload. plan_training_order shuffle (\<lambda>domain. the (map_of manifests domain)) seed weights
      expected tol gmr ga = Inr p \<and> load_order_manifest verify out = Inr (m, payload) \<and>
     map_order payload = o_references p"
proof -
  have "\<exists>p. plan_training_order shuffle (\<lambda>domain. the (map_of manifests domain)) seed weights
      expected tol gmr ga = Inr p \<and> load_order_manifest verify out = Inr (m, order_bytes (o_references p)) \<and>
     map_order (order_bytes (o_references p)) = o_references p"
    by (rule built_order_loads [OF assms(1-7)]) (use assms(8) stable_weightsD in blast)
  then show ?thesis by blast
qed

theorem built_order_reads_back_witness:
  "\<exists>m out payload. build_training_order demo_shuffle ''2.0'' demo_files demo_manifests [] 7 None JNull JNull
      (JInt 2) (JInt 1) = Inr (m, out) \<and> load_order_manifest True out = Inr (m, payload)"
proof -
  obtain m out where b: "build_training_order demo_shuffle ''2.0'' demo_files demo_manifests [] 7 None JNull JNull
      (JInt 2) (JInt 1) = Inr (m, out)" by (rule demo_built)
  from built_order_reads_back [OF b demo_packed demo_permutes _ demo_files_ok, of True] b show ?thesis by auto
qed

text \<open>Sample references round-trip: encoding accepts exactly 8-bit domains and 56-bit rows, and
  decoding gives them back.\<close>

theorem reference_round_trip:
  shows "(0 \<le> d \<and> d < 256 \<and> 0 \<le> r \<and> r < 2 ^ 56 \<and>
       (\<exists>w. encode_reference d r = Inr w \<and> decode_reference w = (nat d, nat r))) \<or>
     (\<not> (0 \<le> d \<and> d < 256 \<and> 0 \<le> r \<and> r < 2 ^ 56) \<and> (\<exists>e. encode_reference d r = Inl e))"
proof (cases "0 \<le> d \<and> d < 256 \<and> 0 \<le> r \<and> r < 2 ^ 56")
  case True
  then have "nat d < 256" "nat r < 2 ^ row_bits" by (simp_all add: row_bits_def nat_less_iff)
  from encode_decode [OF this] True show ?thesis by auto
next
  case False
  then show ?thesis by (auto simp: encode_reference_def row_bits_def)
qed

theorem reference_round_trip_witness:
  "\<exists>w. encode_reference 2 (2 ^ 56 - 1) = Inr w \<and> decode_reference w = (2, 2 ^ 56 - 1)"
  using reference_round_trip [of 2 "2 ^ 56 - 1"] by (simp add: nat_diff_distrib)

text \<open>Bisection over the shard ends equals counting: it returns how many ends are at or below the
  row, on any sorted list.\<close>

theorem bisect_counts:
  assumes "sorted xs"
  shows "bisect_right xs x = length (filter (\<lambda>y. y \<le> x) xs)"
proof -
  let ?Q = "\<lambda>i. xs ! i \<le> x"
  have at: "antitone_test ?Q (length xs)"
    by unfold_locales (use assms in \<open>auto simp: sorted_iff_nth_mono intro: order_trans\<close>)
  let ?k = "first_false ?Q 0 (length xs)"
  note f = antitone_test.first_false_correct [OF at]
  have "filter (\<lambda>y. y \<le> x) (take ?k xs) = take ?k xs"
    using f(1,2) by (intro filter_True) (auto simp: in_set_conv_nth)
  moreover have "filter (\<lambda>y. y \<le> x) (drop ?k xs) = []"
    using f(1) f(3) [of "?k + _"] by (intro filter_False) (auto simp: in_set_conv_nth)
  ultimately have "filter (\<lambda>y. y \<le> x) xs = take ?k xs"
    by (metis append_Nil2 append_take_drop_id filter_append)
  with f(1) show ?thesis by (simp add: bisect_right_def)
qed

theorem bisect_counts_witness: "bisect_right [2, 4, 4, 9] 4 = 3"
  using bisect_counts [of "[2, 4, 4, 9]" 4] by simp

section \<open>Samplers\<close>

definition demo_sampler :: sampler where
  "demo_sampler = \<lparr>sm_order = map (reference_of 0) [0..<7], sm_rows = 7, sm_sequence_length = 2, sm_gmr = 2,
     sm_ga = 1, sm_rank = 0, sm_world = 2, sm_start = 0, sm_geometry = None, sm_update_rows = 2,
     sm_local_batch = 1, sm_total_updates = 3, sm_total_microbatches = 3, sm_trainable_rows = 6,
     sm_dropped_rows = 1, sm_manifest_sha256 = ''m'', sm_payload_sha256 = JStr ''p'',
     sm_dataset_sha256 = JObj [(''python'', JStr ''d'')], sm_tokenizer_sha256 = JStr ''t'',
     sm_iteration_started = False\<rparr>"

lemma demo_sampler_ok: "sampler_ok demo_sampler"
  by (simp add: sampler_ok_def demo_sampler_def)

text \<open>C28: The sampler's invariant. Every sampler built on an order the reader accepts, with or without
  a resume state, has positive geometry, a rank inside its world, equal local batches, whole updates
  of trainable rows inside the order, and a start at an update boundary.\<close>

theorem sampler_is_well_formed:
  assumes "load_order_manifest verify d = Inr (m, payload)" and "new_sampler m payload sha a = Inr s"
  shows "0 < sm_gmr s \<and> 0 < sm_ga s \<and> sm_rank s < sm_world s \<and> sm_local_batch s * sm_world s = sm_gmr s \<and>
     sm_total_microbatches s = sm_total_updates s * sm_ga s \<and>
     sm_total_updates s = length (sm_order s) div (sm_gmr s * sm_ga s) \<and>
     sm_trainable_rows s = sm_total_microbatches s * sm_gmr s \<and> sm_trainable_rows s \<le> length (sm_order s) \<and>
     sm_start s \<le> sm_total_microbatches s \<and> sm_ga s dvd sm_start s"
  using new_sampler_ok [OF assms] unfolding sampler_ok_def by blast

theorem sampler_is_well_formed_witness:
  "\<exists>m out payload s. load_order_manifest True out = Inr (m, payload) \<and>
     new_sampler m payload ''sha'' (with_rank demo_sampler_args 1) = Inr s \<and> sm_rank s < sm_world s"
proof -
  obtain p u m out where p: "plan_training_order demo_shuffle demo_dirs 7 None JNull JNull (JInt 2) (JInt 1) = Inr p"
    and u: "o_consumption p = Some u" "u_gmr u = 2" "u_ga u = 1"
    and m: "m = order_manifest JNull 7 ''2.0'' demo_files p"
    and b: "build_training_order demo_shuffle ''2.0'' demo_files demo_manifests [] 7 None JNull JNull (JInt 2) (JInt 1)
       = Inr (m, out)" by (rule demo_built)
  have l: "load_order_manifest True out = Inr (m, order_bytes (o_references p))"
    using built_order_loads [OF b demo_packed demo_permutes _ demo_files_ok, of True] p by simp
  obtain s where s: "new_sampler m (order_bytes (o_references p)) ''sha'' (with_rank demo_sampler_args 1) = Inr s"
    using demo_new_sampler [OF u, of 1] m by fastforce
  from sampler_is_well_formed [OF l s] l s show ?thesis by blast
qed

text \<open>C29: The ranks partition the run: in every global microbatch the local batches of all ranks are
  the microbatch's rows in order, each rank gets the same number, and over the run they are the
  trainable prefix from the start on.\<close>

theorem ranks_partition_the_run:
  assumes "sampler_ok s"
  shows "(\<forall>g. concat (map (\<lambda>r. local_batch (s\<lparr>sm_rank := r\<rparr>) g) [0..<sm_world s])
       = take (sm_gmr s) (drop (g * sm_gmr s) (sm_order s))) \<and>
     (\<forall>g < sm_total_microbatches s. length (local_batch s g) = sm_local_batch s) \<and>
     concat (map (\<lambda>g. concat (map (\<lambda>r. local_batch (s\<lparr>sm_rank := r\<rparr>) g) [0..<sm_world s]))
       [sm_start s..<sm_total_microbatches s])
     = drop (sm_start s * sm_gmr s) (take (sm_trainable_rows s) (sm_order s))"
  using ranks_partition [OF assms] length_local_batch [OF assms] run_covers_prefix [OF assms] by blast

theorem ranks_partition_the_run_witness:
  "local_batch demo_sampler 2 @ local_batch (demo_sampler\<lparr>sm_rank := 1\<rparr>) 2 = [reference_of 0 4, reference_of 0 5]"
proof -
  have "[0..<2] = [0, 1 :: nat]" "[0..<7] = [0, 1, 2, 3, 4, 5, 6 :: nat]" by (simp_all add: upt_rec)
  moreover have "demo_sampler\<lparr>sm_rank := 0\<rparr> = demo_sampler" by (simp add: demo_sampler_def)
  ultimately show ?thesis
    using ranks_partition_the_run [OF demo_sampler_ok] by (auto simp: demo_sampler_def dest: spec [of _ 2])
qed

text \<open>C18: Exactly-once resume. The state a sampler writes at an update boundary loads on a fresh
  sampler of the same run on any rank, and the batches from there on are those the interrupted
  sampler had not delivered: with what was delivered before they are the uninterrupted run.\<close>

theorem resume_continues_the_run:
  assumes "sampler_ok s" and "sampler_ok t" and "same_run s t" and "\<not> sm_iteration_started t"
    and "sm_order s = sm_order t" and "sm_rank s = sm_rank t" and "sm_local_batch s = sm_local_batch t"
    and "state_dict s completed = Inr state"
  shows "\<exists>t'. load_state_dict state t = Inr t' \<and>
     take (nat (jint_of completed) - sm_start s) (fst (iterate s)) @ fst (iterate t') = fst (iterate s)"
proof -
  from assms(8) obtain c where c: "completed = JInt (int c)" "sm_start s \<le> c" by (rule state_dict_Inr)
  show ?thesis
    using cursor_round_trip [OF assms(1-4,8)] resumed_batches [OF assms(3,5-7) c(2)] by (simp add: c(1))
qed

theorem resume_continues_the_run_witness:
  "\<exists>state t'. state_dict demo_sampler (JInt 2) = Inr state \<and> load_state_dict state demo_sampler = Inr t' \<and>
     take 2 (fst (iterate demo_sampler)) @ fst (iterate t') = fst (iterate demo_sampler)"
proof -
  have "\<exists>state. state_dict demo_sampler (JInt 2) = Inr state"
    by (simp add: state_dict_def demo_sampler_def Let_def)
  then obtain state where s: "state_dict demo_sampler (JInt 2) = Inr state" ..
  have "same_run demo_sampler demo_sampler" by (simp add: same_run_def)
  from resume_continues_the_run [OF demo_sampler_ok demo_sampler_ok this _ refl refl refl s]
  have "\<exists>t'. load_state_dict state demo_sampler = Inr t' \<and>
      take 2 (fst (iterate demo_sampler)) @ fst (iterate t') = fst (iterate demo_sampler)"
    by (simp add: demo_sampler_def)
  with s show ?thesis by blast
qed

text \<open>C19: Resume fails closed, and on nothing else. A sampler that has not started iterating accepts a
  state precisely when, key for key, it is the state that a sampler of the run which starts at
  microbatch 0 saves at some update boundary inside the run; it then stands at that microbatch, with
  nothing else changed. (The dataset identity, a dictionary, is compared as Python compares
  dictionaries.)\<close>

theorem accepted_state_is_exact:
  assumes "sampler_ok s"
  shows "load_state_dict state s = Inr s' \<longleftrightarrow>
     \<not> sm_iteration_started s \<and> is_jobj state \<and> set (jkeys state) = set state_keys \<and>
     (\<exists>c saved. state_dict (s\<lparr>sm_start := 0\<rparr>) (JInt (int c)) = Inr saved \<and> s' = s\<lparr>sm_start := c\<rparr> \<and>
        (\<forall>k\<in>set state_keys. if k = ''dataset_manifest_sha256''
           then is_jobj (jget state k) \<and> py_eq (jget state k) (jget saved k) else jget state k = jget saved k))"
  using accepted_is_saved [OF assms] saved_is_accepted [OF assms] by blast

theorem accepted_state_is_exact_witness:
  "\<exists>state t c saved. load_state_dict state demo_sampler = Inr t \<and>
     state_dict (demo_sampler\<lparr>sm_start := 0\<rparr>) (JInt (int c)) = Inr saved \<and> t = demo_sampler\<lparr>sm_start := c\<rparr> \<and>
     set (jkeys state) = set state_keys \<and> jget state ''world_size'' = jget saved ''world_size''"
proof -
  have "\<exists>state. state_dict demo_sampler (JInt 2) = Inr state"
    by (simp add: state_dict_def demo_sampler_def Let_def)
  then obtain state where s: "state_dict demo_sampler (JInt 2) = Inr state" ..
  have "same_run demo_sampler demo_sampler" by (simp add: same_run_def)
  from cursor_round_trip [OF demo_sampler_ok demo_sampler_ok this _ s] obtain t where
    l: "load_state_dict state demo_sampler = Inr t" by (auto simp: demo_sampler_def)
  have "''world_size'' \<in> set state_keys" by (simp add: state_keys_def)
  with l accepted_state_is_exact [OF demo_sampler_ok, THEN iffD1, OF l] show ?thesis by fastforce
qed

end
