(* ===== verification/BenchmarkGuard.thy ===== *)
theory BenchmarkGuard
  imports PyFloat
begin

text \<open>
  The benchmark denylist of \<^verbatim>\<open>scripts/benchmark_guard.py\<close>: normalised lines and their
  digests, the manifest built from the benchmark's items, and the guard that finds benchmark
  material in a text. The string operations of the Python library the code calls come first.
\<close>

section \<open>Python text\<close>

definition char_LF :: char where "char_LF = CHR 0x0A"
definition char_CR :: char where "char_CR = CHR 0x0D"

text \<open>\<^verbatim>\<open>\w\<close> of a Unicode pattern.\<close>

definition is_word_char :: "char \<Rightarrow> bool" where
  "is_word_char c \<longleftrightarrow> (let n = of_char c :: nat in
     48 \<le> n \<and> n \<le> 57 \<or> 65 \<le> n \<and> n \<le> 90 \<or> n = 95 \<or> 97 \<le> n \<and> n \<le> 122 \<or>
     n \<in> {170, 178, 179, 181, 185, 186, 188, 189, 190} \<or> 192 \<le> n \<and> n \<noteq> 215 \<and> n \<noteq> 247)"

text \<open>\<^verbatim>\<open>[A-Za-z_]\<close>\<close>

definition is_name_start :: "char \<Rightarrow> bool" where
  "is_name_start c \<longleftrightarrow> (let n = of_char c :: nat in 65 \<le> n \<and> n \<le> 90 \<or> n = 95 \<or> 97 \<le> n \<and> n \<le> 122)"

definition py_lower :: "string \<Rightarrow> string" where
  "py_lower s = map (\<lambda>c. let n = of_char c :: nat in
     if 65 \<le> n \<and> n \<le> 90 \<or> 192 \<le> n \<and> n \<le> 222 \<and> n \<noteq> 215 then char_of (n + 32) else c) s"

fun split_by :: "(char \<Rightarrow> bool) \<Rightarrow> string \<Rightarrow> string list" where
  "split_by P [] = [[]]"
| "split_by P (c # s) = (if P c then [] # split_by P s
     else (case split_by P s of [] \<Rightarrow> [[c]] | w # ws \<Rightarrow> (c # w) # ws))"

text \<open>\<^verbatim>\<open>s.split()\<close>\<close>

definition py_split :: "string \<Rightarrow> string list" where
  "py_split s = filter (\<lambda>w. w \<noteq> []) (split_by is_py_space s)"

fun join_with :: "string \<Rightarrow> string list \<Rightarrow> string" where
  "join_with sep [] = []"
| "join_with sep [w] = w"
| "join_with sep (w # ws) = w @ sep @ join_with sep ws"

text \<open>\<^verbatim>\<open>sub in s\<close>\<close>

fun contains :: "string \<Rightarrow> string \<Rightarrow> bool" where
  "contains sub [] = (sub = [])"
| "contains sub (c # s) = (take (length sub) (c # s) = sub \<or> contains sub s)"

text \<open>\<^verbatim>\<open>re.search(r"\bword\b", s)\<close> for a word of word characters.\<close>

fun search_word :: "string \<Rightarrow> bool \<Rightarrow> string \<Rightarrow> bool" where
  "search_word w after_word [] = False"
| "search_word w after_word (c # s) =
     (let rest = drop (length w) (c # s) in
      \<not> after_word \<and> take (length w) (c # s) = w \<and> (rest = [] \<or> \<not> is_word_char (hd rest)) \<or>
      search_word w (is_word_char c) s)"

fun replace_crlf :: "string \<Rightarrow> string" where
  "replace_crlf (a # b # s) =
     (if a = char_CR \<and> b = char_LF then char_LF # replace_crlf s else a # replace_crlf (b # s))"
| "replace_crlf s = s"

definition strip_prefix :: "string \<Rightarrow> string \<Rightarrow> string option" where
  "strip_prefix p s = (if take (length p) s = p then Some (drop (length p) s) else None)"

text \<open>Truth of a value, \<^verbatim>\<open>v or w\<close>, iteration, and \<^verbatim>\<open>int(v)\<close>.\<close>

fun py_true :: "json \<Rightarrow> bool" where
  "py_true JNull = False"
| "py_true (JBool b) = b"
| "py_true (JInt i) = (i \<noteq> 0)"
| "py_true (JFloat r) = (r \<noteq> 0)"
| "py_true (JStr s) = (s \<noteq> [])"
| "py_true (JList xs) = (xs \<noteq> [])"
| "py_true (JObj m) = (m \<noteq> [])"

definition py_or :: "json \<Rightarrow> json \<Rightarrow> json" where
  "py_or v w = (if py_true v then v else w)"

fun py_iter :: "json \<Rightarrow> json list res" where
  "py_iter (JList xs) = Inr xs"
| "py_iter (JStr s) = Inr (map (\<lambda>c. JStr [c]) s)"
| "py_iter (JObj m) = Inr (map (\<lambda>(k, v). JStr k) m)"
| "py_iter _ = Inl (TypeError ''object is not iterable'')"

text \<open>\<^verbatim>\<open>set(values)\<close>: lists and dictionaries are not hashable.\<close>

definition py_set :: "json list \<Rightarrow> json list res" where
  "py_set xs = (if list_ex (\<lambda>v. is_jlist v \<or> is_jobj v) xs then Inl (TypeError ''unhashable type'') else Inr xs)"

fun py_int :: "json \<Rightarrow> int res" where
  "py_int (JInt i) = Inr i"
| "py_int (JBool b) = Inr (of_bool b)"
| "py_int (JFloat r) = Inr (if 0 \<le> r then \<lfloor>r\<rfloor> else \<lceil>r\<rceil>)"
| "py_int (JStr s) =
     (let (neg, t) = scan_sign (py_strip s); (v, n, r) = scan_digits 0 0 t in
      if 0 < n \<and> r = [] then Inr (if neg then - int v else int v)
      else Inl (ValueError ''invalid literal for int() with base 10''))"
| "py_int _ = Inl (TypeError ''int() argument must be a string or a real number'')"

section \<open>Fingerprints\<close>

definition normalized_lines :: "string \<Rightarrow> string list" where
  "normalized_lines s =
     map (\<lambda>line. join_with '' '' (py_split line))
       (filter (\<lambda>line. py_strip line \<noteq> [])
         (split_by (\<lambda>c. c = char_LF) (map (\<lambda>c. if c = char_CR then char_LF else c) (replace_crlf s))))"

definition digest_text :: "string \<Rightarrow> string" where
  "digest_text s = sha256 (utf8 s)"

definition normalized_code_digest :: "string \<Rightarrow> string" where
  "normalized_code_digest s = digest_text (join_with [char_LF] (normalized_lines s))"

definition pair_digests :: "string list \<Rightarrow> string list" where
  "pair_digests lines = map (\<lambda>(left, right). digest_text (left @ [char_LF] @ right))
     (filter (\<lambda>(left, right). 40 \<le> length left + length right) (zip lines (tl lines)))"

definition code_pair_digests :: "string \<Rightarrow> string list" where
  "code_pair_digests s = pair_digests (normalized_lines s)"

definition strong_line_digests :: "string \<Rightarrow> string list" where
  "strong_line_digests s = map digest_text (filter (\<lambda>line. 32 \<le> length line) (normalized_lines s))"

text \<open>\<^verbatim>\<open>FUNCTION_RE\<close> at one line start: the function's name and what follows the parenthesis. White
  space and names cannot overlap with what follows them, so the greedy reading is the only one.\<close>

definition match_def :: "string \<Rightarrow> (string \<times> string) option" where
  "match_def s =
     (let s1 = dropWhile is_py_space s;
          s2 = (case strip_prefix ''async'' s1 of None \<Rightarrow> s1
                | Some r \<Rightarrow> if r \<noteq> [] \<and> is_py_space (hd r) then dropWhile is_py_space r else s1) in
      case strip_prefix ''def'' s2 of None \<Rightarrow> None
      | Some s3 \<Rightarrow>
          (let s4 = dropWhile is_py_space s3; s5 = dropWhile is_word_char s4; s6 = dropWhile is_py_space s5 in
           if s3 \<noteq> [] \<and> is_py_space (hd s3) \<and> s4 \<noteq> [] \<and> is_name_start (hd s4) \<and> s6 \<noteq> [] \<and> hd s6 = CHR ''(''
           then Some (takeWhile is_word_char s4, tl s6) else None))"

lemma length_dropWhile_le': "length (dropWhile P xs) \<le> length xs"
  by (induction xs) auto

lemma match_def_shorter:
  assumes "match_def s = Some (name, rest)"
  shows "length rest < length s"
proof -
  have p: "strip_prefix p x = Some y \<Longrightarrow> length y \<le> length x" for p x y
    by (auto simp: strip_prefix_def split: if_splits)
  define s1 where "s1 = dropWhile is_py_space s"
  define s2 where "s2 = (case strip_prefix ''async'' s1 of None \<Rightarrow> s1
    | Some r \<Rightarrow> if r \<noteq> [] \<and> is_py_space (hd r) then dropWhile is_py_space r else s1)"
  have s1: "length s1 \<le> length s" by (simp add: s1_def length_dropWhile_le')
  have "length s2 \<le> length s1"
    using p [of "''async''" s1] le_trans [OF length_dropWhile_le' [of is_py_space]]
    by (auto simp: s2_def split: option.splits)
  moreover from assms obtain s3 where s3: "strip_prefix ''def'' s2 = Some s3"
    and r: "rest = tl (dropWhile is_py_space (dropWhile is_word_char (dropWhile is_py_space s3)))" and "s3 \<noteq> []"
    unfolding match_def_def Let_def s1_def s2_def by (auto split: option.splits if_splits)
  moreover have "length (dropWhile is_py_space (dropWhile is_word_char (dropWhile is_py_space s3))) \<le> length s3"
    by (meson le_trans length_dropWhile_le')
  ultimately show ?thesis using s1 p [OF s3] by (cases s3) auto
qed

text \<open>\<^verbatim>\<open>FUNCTION_RE.findall(s)\<close>; the flag says that the position is a line start.\<close>

function find_functions :: "bool \<Rightarrow> string \<Rightarrow> string list" where
  "find_functions line_start [] = []"
| "find_functions line_start (c # s) =
     (case (if line_start then match_def (c # s) else None) of
        Some (name, rest) \<Rightarrow> name # find_functions False rest
      | None \<Rightarrow> find_functions (c = char_LF) s)"
  by pat_completeness auto
termination
  by (relation "measure (\<lambda>(b, s). length s)") (auto dest: match_def_shorter split: if_splits)

section \<open>The denylist\<close>

record denylist =
  dl_exact_codes :: "string list"
  dl_code_pairs :: "string list"
  dl_strong_lines :: "string list"
  dl_function_names :: "string list"
  dl_count :: nat

text \<open>\<^verbatim>\<open>str(v)\<close>; the representation of values that are no strings is a parameter.\<close>

definition text_of :: "(json \<Rightarrow> string) \<Rightarrow> json \<Rightarrow> string" where
  "text_of py_str v = (case v of JStr s \<Rightarrow> s | _ \<Rightarrow> py_str v)"

definition add_item :: "(json \<Rightarrow> string) \<Rightarrow> denylist \<Rightarrow> json \<Rightarrow> denylist res" where
  "add_item py_str d row =
     (let code = text_of py_str (py_or (jget row ''code'') (JStr []));
          problem = text_of py_str (py_or (jget row ''text'') (JStr []));
          d1 = d\<lparr>dl_count := Suc (dl_count d)\<rparr>;
          d2 = (if code = [] then d1 else d1\<lparr>
                dl_exact_codes := dl_exact_codes d1 @ [normalized_code_digest code],
                dl_code_pairs := dl_code_pairs d1 @ code_pair_digests code,
                dl_function_names := dl_function_names d1 @ find_functions True code\<rparr>);
          d3 = d2\<lparr>dl_strong_lines := dl_strong_lines d2 @ strong_line_digests problem\<rparr> in
      if \<not> is_jobj row then Inl (AttributeError ''object has no attribute get'')
      else rbind (mapM (\<lambda>field. py_iter (py_or (jget row field) (JList []))) [''test_list'', ''challenge_test_list''])
        (\<lambda>tests. Inr (d3\<lparr>dl_strong_lines := dl_strong_lines d3 @
           concat (map (\<lambda>test. strong_line_digests (text_of py_str test)) (concat tests))\<rparr>)))"

text \<open>\<^verbatim>\<open>sorted(set(values))\<close>\<close>

definition sorted_set :: "string list \<Rightarrow> json" where
  "sorted_set xs = JList (map JStr (sort (remdups xs)))"

definition empty_denylist :: denylist where
  "empty_denylist = \<lparr>dl_exact_codes = [], dl_code_pairs = [], dl_strong_lines = [], dl_function_names = [],
     dl_count = 0\<rparr>"

definition build_mbpp_manifest :: "(json \<Rightarrow> string) \<Rightarrow> json list \<Rightarrow> string \<Rightarrow> string \<Rightarrow> json res" where
  "build_mbpp_manifest py_str rows source_sha256 source_url =
     rbind (foldM (add_item py_str) empty_denylist rows) (\<lambda>d.
     Inr (JObj [
       (''manifest_version'', JInt 1), (''benchmark'', JStr ''MBPP''),
       (''source_url'', JStr source_url), (''source_sha256'', JStr source_sha256),
       (''items'', JInt (int (dl_count d))),
       (''exact_code_sha256'', sorted_set (dl_exact_codes d)),
       (''code_line_pair_sha256'', sorted_set (dl_code_pairs d)),
       (''strong_line_sha256'', sorted_set (dl_strong_lines d)),
       (''function_names'', sorted_set (dl_function_names d))]))"

section \<open>The guard\<close>

record guard =
  g_manifest_sha256 :: string
  g_exact_codes :: "json list"
  g_code_pairs :: "json list"
  g_strong_lines :: "json list"
  g_function_names :: "json list"

definition guard_set :: "json \<Rightarrow> string \<Rightarrow> json list res" where
  "guard_set payload key = rbind (py_iter (py_or (jget payload key) (JList []))) py_set"

text \<open>The digest of the file's bytes comes from outside, as its parsed content does.\<close>

definition new_guard :: "string \<Rightarrow> json \<Rightarrow> guard res" where
  "new_guard manifest_sha256 payload =
     (if \<not> is_jobj payload then Inl (AttributeError ''object has no attribute get'')
      else if \<not> py_eq (jget payload ''manifest_version'') (JInt 1) \<or> jget payload ''benchmark'' \<noteq> JStr ''MBPP''
      then Inl (ValueError ''Unsupported benchmark denylist'')
      else rbind (if ''items'' \<in> set (jkeys payload) then py_int (jget payload ''items'') else Inr 0) (\<lambda>items.
      if items \<noteq> 974 then Inl (ValueError ''Expected 974 canonical MBPP items'')
      else rbind (guard_set payload ''exact_code_sha256'') (\<lambda>exact.
      rbind (guard_set payload ''code_line_pair_sha256'') (\<lambda>pairs.
      rbind (guard_set payload ''strong_line_sha256'') (\<lambda>strong.
      rbind (guard_set payload ''function_names'') (\<lambda>names.
      if exact = [] \<or> pairs = [] \<or> strong = [] then Inl (ValueError ''Incomplete benchmark denylist'')
      else Inr \<lparr>g_manifest_sha256 = manifest_sha256, g_exact_codes = exact, g_code_pairs = pairs,
             g_strong_lines = strong, g_function_names = names\<rparr>))))))"

definition marker :: "string \<Rightarrow> string" where
  "marker name = [CHR 0x22] @ name @ [CHR 0x22]"

definition contamination_reason :: "guard \<Rightarrow> string \<Rightarrow> string \<Rightarrow> string option" where
  "contamination_reason g language content =
     (let lowered = py_lower content; lines = normalized_lines content;
          matches = remdups (filter (\<lambda>d. JStr d \<in> set (g_code_pairs g)) (pair_digests lines));
          defined = filter (\<lambda>n. JStr n \<in> set (g_function_names g)) (find_functions True content) in
      if language \<noteq> ''Python'' \<and> language \<noteq> ''English'' then None
      else if contains ''mostly basic python problems'' lowered \<or> search_word ''mbpp'' False lowered
      then Some ''mbpp-marker''
      else if list_all (\<lambda>m. contains (marker m) lowered) [''task_id'', ''test_list'', ''challenge_test_list'']
      then Some ''mbpp-json-shape''
      else if JStr (digest_text (join_with [char_LF] lines)) \<in> set (g_exact_codes g)
      then Some ''mbpp-exact-code''
      else if list_ex (\<lambda>line. 32 \<le> length line \<and> JStr (digest_text line) \<in> set (g_strong_lines g)) lines
      then Some ''mbpp-problem-or-test''
      else if 2 \<le> length matches \<or> 1 \<le> length matches \<and> defined \<noteq> []
      then Some ''mbpp-embedded-code''
      else None)"

section \<open>What the guard catches\<close>

lemma py_iter_sorted_set: "guard_set (JObj m) k = Inr xs" if "jfield m k = sorted_set ys" "xs = map JStr (sort (remdups ys))"
proof -
  have "sort (remdups ys) = [] \<Longrightarrow> ys = []" by (metis set_empty set_remdups set_sort)
  then have "py_true (sorted_set ys) \<or> ys = []" by (auto simp: sorted_set_def)
  then show ?thesis
    using that by (auto simp: guard_set_def py_or_def sorted_set_def py_set_def list_ex_iff)
qed

lemma normalized_lines_empty: "normalized_lines [] = []"
  by (simp add: normalized_lines_def py_strip_def)

lemma add_item_facts:
  assumes "add_item py_str d row = Inr d'"
  shows "dl_count d' = Suc (dl_count d)" "set (dl_exact_codes d) \<subseteq> set (dl_exact_codes d')"
    "set (dl_strong_lines d) \<subseteq> set (dl_strong_lines d')"
    "jget row ''code'' = JStr code \<Longrightarrow> code \<noteq> [] \<Longrightarrow> normalized_code_digest code \<in> set (dl_exact_codes d')"
    "jget row ''text'' = JStr problem \<Longrightarrow> set (strong_line_digests problem) \<subseteq> set (dl_strong_lines d')"
    "field \<in> {''test_list'', ''challenge_test_list''} \<Longrightarrow> jget row field = JList tests \<Longrightarrow> JStr test \<in> set tests \<Longrightarrow>
       set (strong_line_digests test) \<subseteq> set (dl_strong_lines d')"
    "set (dl_code_pairs d) \<subseteq> set (dl_code_pairs d')" "set (dl_function_names d) \<subseteq> set (dl_function_names d')"
    "jget row ''code'' = JStr code \<Longrightarrow> set (code_pair_digests code) \<subseteq> set (dl_code_pairs d')"
    "jget row ''code'' = JStr code \<Longrightarrow> set (find_functions True code) \<subseteq> set (dl_function_names d')"
proof -
  from assms obtain tests where t: "mapM (\<lambda>field. py_iter (py_or (jget row field) (JList [])))
      [''test_list'', ''challenge_test_list''] = Inr tests"
    and d': "d' = (let code = text_of py_str (py_or (jget row ''code'') (JStr []));
          problem = text_of py_str (py_or (jget row ''text'') (JStr []));
          d1 = d\<lparr>dl_count := Suc (dl_count d)\<rparr>;
          d2 = (if code = [] then d1 else d1\<lparr>
                dl_exact_codes := dl_exact_codes d1 @ [normalized_code_digest code],
                dl_code_pairs := dl_code_pairs d1 @ code_pair_digests code,
                dl_function_names := dl_function_names d1 @ find_functions True code\<rparr>);
          d3 = d2\<lparr>dl_strong_lines := dl_strong_lines d2 @ strong_line_digests problem\<rparr> in
        d3\<lparr>dl_strong_lines := dl_strong_lines d3 @
           concat (map (\<lambda>test. strong_line_digests (text_of py_str test)) (concat tests))\<rparr>)"
    unfolding add_item_def Let_def check_eq_Inr rbind_eq_Inr by auto
  show "dl_count d' = Suc (dl_count d)" "set (dl_exact_codes d) \<subseteq> set (dl_exact_codes d')"
    "set (dl_strong_lines d) \<subseteq> set (dl_strong_lines d')"
    "jget row ''code'' = JStr code \<Longrightarrow> code \<noteq> [] \<Longrightarrow> normalized_code_digest code \<in> set (dl_exact_codes d')"
    "jget row ''text'' = JStr problem \<Longrightarrow> set (strong_line_digests problem) \<subseteq> set (dl_strong_lines d')"
    "set (dl_code_pairs d) \<subseteq> set (dl_code_pairs d')" "set (dl_function_names d) \<subseteq> set (dl_function_names d')"
    "jget row ''code'' = JStr code \<Longrightarrow> set (code_pair_digests code) \<subseteq> set (dl_code_pairs d')"
    "jget row ''code'' = JStr code \<Longrightarrow> set (find_functions True code) \<subseteq> set (dl_function_names d')"
    unfolding d' by (auto simp: Let_def py_or_def text_of_def code_pair_digests_def pair_digests_def normalized_lines_empty)
  show "set (strong_line_digests test) \<subseteq> set (dl_strong_lines d')"
    if l: "field \<in> {''test_list'', ''challenge_test_list''}" "jget row field = JList ts" "JStr test \<in> set ts" for ts
  proof -
    have "py_true (JList ts)" using l(3) by auto
    with t l(1,2) have "ts \<in> set tests" by (auto simp: rbind_eq_Inr py_or_def)
    with l(3) have "set (strong_line_digests test)
        \<subseteq> set (concat (map (\<lambda>test. strong_line_digests (text_of py_str test)) (concat tests)))"
      by (force simp: text_of_def)
    then show ?thesis unfolding d' by (auto simp: Let_def)
  qed
qed

text \<open>What one item put into a denylist stays there.\<close>

definition denies :: "denylist \<Rightarrow> denylist \<Rightarrow> bool" where
  "denies d d' \<longleftrightarrow> set (dl_exact_codes d) \<subseteq> set (dl_exact_codes d') \<and> set (dl_code_pairs d) \<subseteq> set (dl_code_pairs d') \<and>
     set (dl_strong_lines d) \<subseteq> set (dl_strong_lines d') \<and> set (dl_function_names d) \<subseteq> set (dl_function_names d')"

lemma denies_refl: "denies d d"
  by (simp add: denies_def)

lemma denies_trans: "denies a b \<Longrightarrow> denies b c \<Longrightarrow> denies a c"
  by (auto simp: denies_def)

lemma add_item_denies: "add_item py_str d row = Inr d' \<Longrightarrow> denies d d'"
  by (simp add: denies_def add_item_facts(2,3,7,8))

lemma build_items:
  assumes "foldM (add_item py_str) d rows = Inr d'"
  shows "dl_count d' = dl_count d + length rows" "denies d d'"
    "row \<in> set rows \<Longrightarrow> \<exists>a b. add_item py_str a row = Inr b \<and> denies b d'"
proof -
  have "dl_count d' = dl_count d + length rows \<and> denies d d' \<and>
      (row \<in> set rows \<longrightarrow> (\<exists>a b. add_item py_str a row = Inr b \<and> denies b d'))"
    using assms
  proof (induction rows arbitrary: d)
    case (Cons r rows)
    then obtain e where e: "add_item py_str d r = Inr e" "foldM (add_item py_str) e rows = Inr d'"
      by (auto simp: rbind_eq_Inr)
    from Cons.IH [OF e(2)] show ?case
      using add_item_facts(1) [OF e(1)] denies_trans [OF add_item_denies [OF e(1)]] e(1) by auto
  qed (simp add: denies_refl)
  then show "dl_count d' = dl_count d + length rows" "denies d d'"
    "row \<in> set rows \<Longrightarrow> \<exists>a b. add_item py_str a row = Inr b \<and> denies b d'" by blast+
qed

text \<open>A guard loaded from the manifest of some items knows their solutions and their strong lines.\<close>

theorem guard_knows_items:
  assumes m: "build_mbpp_manifest py_str rows src url = Inr manifest" and g: "new_guard sha manifest = Inr g"
    and row: "row \<in> set rows"
  shows "jget row ''code'' = JStr code \<Longrightarrow> code \<noteq> [] \<Longrightarrow> JStr (normalized_code_digest code) \<in> set (g_exact_codes g)"
    "jget row ''text'' = JStr problem \<Longrightarrow> JStr ` set (strong_line_digests problem) \<subseteq> set (g_strong_lines g)"
    "field \<in> {''test_list'', ''challenge_test_list''} \<Longrightarrow> jget row field = JList tests \<Longrightarrow> JStr test \<in> set tests \<Longrightarrow>
       JStr ` set (strong_line_digests test) \<subseteq> set (g_strong_lines g)"
    "jget row ''code'' = JStr code \<Longrightarrow> JStr ` set (code_pair_digests code) \<subseteq> set (g_code_pairs g)"
    "jget row ''code'' = JStr code \<Longrightarrow> JStr ` set (find_functions True code) \<subseteq> set (g_function_names g)"
proof -
  from m obtain d where d: "foldM (add_item py_str) empty_denylist rows = Inr d"
    and manifest: "manifest = JObj [
       (''manifest_version'', JInt 1), (''benchmark'', JStr ''MBPP''),
       (''source_url'', JStr url), (''source_sha256'', JStr src),
       (''items'', JInt (int (dl_count d))),
       (''exact_code_sha256'', sorted_set (dl_exact_codes d)),
       (''code_line_pair_sha256'', sorted_set (dl_code_pairs d)),
       (''strong_line_sha256'', sorted_set (dl_strong_lines d)),
       (''function_names'', sorted_set (dl_function_names d))]"
    by (auto simp: build_mbpp_manifest_def rbind_eq_Inr)
  have s: "guard_set manifest ''exact_code_sha256'' = Inr (map JStr (sort (remdups (dl_exact_codes d))))"
    "guard_set manifest ''code_line_pair_sha256'' = Inr (map JStr (sort (remdups (dl_code_pairs d))))"
    "guard_set manifest ''strong_line_sha256'' = Inr (map JStr (sort (remdups (dl_strong_lines d))))"
    "guard_set manifest ''function_names'' = Inr (map JStr (sort (remdups (dl_function_names d))))"
    unfolding manifest by (rule py_iter_sorted_set; simp add: jfield_def)+
  from g have sets: "set (g_exact_codes g) = JStr ` set (dl_exact_codes d)"
    "set (g_code_pairs g) = JStr ` set (dl_code_pairs d)" "set (g_strong_lines g) = JStr ` set (dl_strong_lines d)"
    "set (g_function_names g) = JStr ` set (dl_function_names d)"
    unfolding new_guard_def s rbind_eq_Inr check_eq_Inr by auto
  obtain a b where ab: "add_item py_str a row = Inr b" "denies b d" using build_items(3) [OF d row] by blast
  note f = add_item_facts(4-6,9,10) [OF ab(1)] and dn = ab(2) [unfolded denies_def]
  show "JStr (normalized_code_digest code) \<in> set (g_exact_codes g)"
    if "jget row ''code'' = JStr code" "code \<noteq> []" using f(1) [OF that] dn sets(1) by auto
  show "JStr ` set (strong_line_digests problem) \<subseteq> set (g_strong_lines g)"
    if "jget row ''text'' = JStr problem" using f(2) [OF that] dn sets(3) by auto
  show "JStr ` set (strong_line_digests test) \<subseteq> set (g_strong_lines g)"
    if "field \<in> {''test_list'', ''challenge_test_list''}" "jget row field = JList tests" "JStr test \<in> set tests"
    using f(3) [OF that] dn sets(3) by auto
  show "JStr ` set (code_pair_digests code) \<subseteq> set (g_code_pairs g)"
    if "jget row ''code'' = JStr code" using f(4) [OF that] dn sets(2) by auto
  show "JStr ` set (find_functions True code) \<subseteq> set (g_function_names g)"
    if "jget row ''code'' = JStr code" using f(5) [OF that] dn sets(4) by auto
qed

lemma contamination_of_exact_code:
  assumes "JStr (normalized_code_digest code) \<in> set (g_exact_codes g)" and "language \<in> {''Python'', ''English''}"
    and "normalized_lines content = normalized_lines code"
  shows "contamination_reason g language content \<noteq> None"
  using assms by (auto simp: contamination_reason_def Let_def normalized_code_digest_def)

lemma contamination_of_strong_line:
  assumes "JStr ` set (strong_line_digests s) \<subseteq> set (g_strong_lines g)" and "language \<in> {''Python'', ''English''}"
    and "line \<in> set (normalized_lines s)" and "32 \<le> length line" and "line \<in> set (normalized_lines content)"
  shows "contamination_reason g language content \<noteq> None"
proof -
  have "JStr (digest_text line) \<in> set (g_strong_lines g)" using assms(1,3,4) by (auto simp: strong_line_digests_def)
  with assms(4,5) have "list_ex (\<lambda>line. 32 \<le> length line \<and> JStr (digest_text line) \<in> set (g_strong_lines g))
      (normalized_lines content)" by (auto simp: list_ex_iff)
  with assms(2) show ?thesis by (auto simp: contamination_reason_def Let_def)
qed

text \<open>Adjacent line pairs shared with a solution: two of them, or one beside a function it defines.\<close>

lemma contamination_of_embedded_code:
  assumes "JStr ` set (code_pair_digests code) \<subseteq> set (g_code_pairs g)"
    and "JStr ` set (find_functions True code) \<subseteq> set (g_function_names g)" and "language \<in> {''Python'', ''English''}"
    and "shared = set (code_pair_digests content) \<inter> set (code_pair_digests code)"
    and "2 \<le> card shared \<or> shared \<noteq> {} \<and> set (find_functions True content) \<inter> set (find_functions True code) \<noteq> {}"
  shows "contamination_reason g language content \<noteq> None"
proof -
  let ?matches = "remdups (filter (\<lambda>d. JStr d \<in> set (g_code_pairs g)) (pair_digests (normalized_lines content)))"
  let ?defined = "filter (\<lambda>n. JStr n \<in> set (g_function_names g)) (find_functions True content)"
  have sub: "shared \<subseteq> set ?matches" using assms(1,4) by (auto simp: code_pair_digests_def)
  have len: "length ?matches = card (set ?matches)" by (rule distinct_card [symmetric]) simp
  have "card shared \<le> length ?matches" unfolding len by (rule card_mono [OF _ sub]) simp
  moreover have "shared \<noteq> {} \<Longrightarrow> 1 \<le> length ?matches" using sub by (cases ?matches) auto
  moreover have "set (find_functions True content) \<inter> set (find_functions True code) \<noteq> {} \<Longrightarrow> ?defined \<noteq> []"
    using assms(2) by (auto simp: filter_empty_conv)
  ultimately have "2 \<le> length ?matches \<or> 1 \<le> length ?matches \<and> ?defined \<noteq> []" using assms(5) by auto
  then show ?thesis using assms(3) by (auto simp: contamination_reason_def Let_def)
qed

end
