(* ===== verification/ChatFormat.thy ===== *)
theory ChatFormat
  imports Json
begin

text \<open>
  The frozen chat format of \<^verbatim>\<open>posttrain/prime/chat_format.py\<close>: conversation validation, the
  segmented rendering with its parallel metadata, the per-message counters and spans, and response
  parsing. The tokenizer is a parameter: a record of its \<^verbatim>\<open>encode\<close> and \<^verbatim>\<open>decode\<close> calls, which may
  return any value or raise. Messages are the JSON values a caller passes.
\<close>

section \<open>The tokenizer surface\<close>

text \<open>\<^verbatim>\<open>encode\<close> returns ids or an object with an \<^verbatim>\<open>ids\<close> member.\<close>

datatype encoding = IdsObject json | IdsValue json

text \<open>The three ways \<^verbatim>\<open>decode\<close> is called, in the order tried.\<close>

datatype decode_call = KeepSpecialNoCleanup | KeepSpecial | PlainDecode

record tokenizer =
  tk_encode_kw :: "string \<Rightarrow> encoding res"
  tk_encode :: "string \<Rightarrow> encoding res"
  tk_decode :: "decode_call \<Rightarrow> nat list \<Rightarrow> json res"
  tk_eos :: "json option"

definition chat_eos :: nat where "chat_eos = 0"

definition role_openers :: "(string \<times> string) list" where
  "role_openers = [(''system'', ''<|system|>'' @ [CHR 0x0A]), (''user'', ''<|user|>'' @ [CHR 0x0A]),
     (''assistant'', ''<|assistant|>'' @ [CHR 0x0A])]"

definition message_separator :: string where "message_separator = [CHR 0x0A]"

fun raw_ids :: "encoding \<Rightarrow> json" where
  "raw_ids (IdsObject v) = v"
| "raw_ids (IdsValue v) = v"

definition normalise_id :: "json \<Rightarrow> nat res" where
  "normalise_id v =
     (if \<not> is_jint v then Inl (ChatFormatError ''tokenizer returned non-integer ID'')
      else if jint_of v < 0 then Inl (ChatFormatError ''tokenizer returned negative ID'')
      else Inr (nat (jint_of v)))"

definition normalise_ids :: "encoding \<Rightarrow> nat list res" where
  "normalise_ids encoded =
     (if \<not> is_jlist (raw_ids encoded)
      then Inl (ChatFormatError ''tokenizer.encode returned an unsupported value'')
      else rbind (mapM normalise_id (jlist_of (raw_ids encoded))) (\<lambda>ids.
        if chat_eos \<in> set ids then Inl (ChatFormatError ''encoded to reserved EOS ID'') else Inr ids))"

definition encode_text :: "tokenizer \<Rightarrow> string \<Rightarrow> nat list res" where
  "encode_text tk text =
     (if text = [] then Inr []
      else rbind (case tk_encode_kw tk text of Inl (TypeError _) \<Rightarrow> tk_encode tk text | r \<Rightarrow> r) normalise_ids)"

fun decode_variants :: "tokenizer \<Rightarrow> decode_call list \<Rightarrow> nat list \<Rightarrow> string res" where
  "decode_variants tk [] ids = Inl (ChatFormatError ''tokenizer.decode rejected all supported call forms'')"
| "decode_variants tk (c # cs) ids = (case tk_decode tk c ids of
     Inl (TypeError _) \<Rightarrow> decode_variants tk cs ids
   | Inl e \<Rightarrow> Inl e
   | Inr v \<Rightarrow> if is_jstr v then Inr (jstr_of v) else Inl (ChatFormatError ''tokenizer.decode returned no str''))"

definition decode_ids :: "tokenizer \<Rightarrow> nat list \<Rightarrow> string res" where
  "decode_ids tk ids = decode_variants tk [KeepSpecialNoCleanup, KeepSpecial, PlainDecode] ids"

section \<open>Conversations\<close>

text \<open>One message: the normalised pairs so far, whether the conversation began, the role expected next.\<close>

definition message_step ::
    "(string \<times> string) list \<times> bool \<times> string \<Rightarrow> json \<Rightarrow> ((string \<times> string) list \<times> bool \<times> string) res" where
  "message_step st message = (case st of (normalised, saw_conversation, expected_role) \<Rightarrow>
     (let role = jget message ''role''; content = jget message ''content'';
          r = jstr_of role; c = jstr_of content in
      if \<not> is_jobj message then Inl (ChatFormatError ''must be a mapping'')
      else if is_jlist role \<or> is_jobj role then Inl (TypeError ''unhashable type'')
      else if \<not> is_jstr role \<or> r \<notin> set (map fst role_openers) then Inl (ChatFormatError ''role must be one of'')
      else if \<not> is_jstr content then Inl (ChatFormatError ''content must be a plain string'')
      else if c = [] then Inl (ChatFormatError ''content must not be empty'')
      else if r = ''system'' then
        (if saw_conversation then Inl (ChatFormatError ''system messages are allowed only at the beginning'')
         else Inr (normalised @ [(r, c)], saw_conversation, expected_role))
      else if r \<noteq> expected_role then Inl (ChatFormatError ''must have role'')
      else Inr (normalised @ [(r, c)], True, if r = ''user'' then ''assistant'' else ''user'')))"

definition validate_messages :: "json \<Rightarrow> (string \<times> string) list res" where
  "validate_messages messages =
     (if \<not> is_jlist messages then Inl (ChatFormatError ''messages must be a non-empty sequence of mappings'')
      else if jlist_of messages = [] then Inl (ChatFormatError ''messages must not be empty'')
      else rbind (foldM message_step ([], False, ''user'') (jlist_of messages)) (\<lambda>(normalised, saw_conversation, _).
        if \<not> saw_conversation then Inl (ChatFormatError ''at least one user message is required'')
        else Inr normalised))"

section \<open>Rendered conversations\<close>

record rendered =
  rc_token_ids :: "nat list"
  rc_message_indices :: "int list"
  rc_sampled_mask :: "bool list"
  rc_is_content :: "bool list"
  rc_message_roles :: "string list"
  rc_message_tool_names :: "string option list"

definition check_rendered :: "rendered \<Rightarrow> rendered res" where
  "check_rendered r =
     (let n = length (rc_token_ids r) in
      if length (rc_message_indices r) \<noteq> n \<or> length (rc_sampled_mask r) \<noteq> n \<or> length (rc_is_content r) \<noteq> n
      then Inl (ChatFormatError ''render metadata must match token IDs'')
      else if length (rc_message_tool_names r) \<noteq> length (rc_message_roles r)
      then Inl (ChatFormatError ''message_tool_names must be parallel to message_roles'')
      else Inr r)"

text \<open>\<^verbatim>\<open>n_messages\<close> is \<^verbatim>\<open>None\<close> or any integer; it is clamped to the messages there are.\<close>

definition count_token :: "bool \<Rightarrow> nat list \<Rightarrow> int \<times> bool \<Rightarrow> nat list" where
  "count_token sampled_only result token = (case token of (i, sampled) \<Rightarrow>
     if \<not> (0 \<le> i \<and> i < int (length result)) then result
     else if sampled_only \<and> \<not> sampled then result
     else result[nat i := Suc (result ! nat i)])"

definition tokens_per_message :: "int option \<Rightarrow> bool \<Rightarrow> rendered \<Rightarrow> nat list" where
  "tokens_per_message n_messages sampled_only r =
     (let roles = length (rc_message_roles r);
          count = nat (min (max (case n_messages of None \<Rightarrow> int roles | Some n \<Rightarrow> n) 0) (int roles)) in
      foldl (count_token sampled_only) (replicate count 0) (zip (rc_message_indices r) (rc_sampled_mask r)))"

text \<open>The first and last offset of every message; \<^verbatim>\<open>-1\<close> while none was seen.\<close>

definition span_step :: "int list \<times> int list \<Rightarrow> nat \<times> int \<Rightarrow> int list \<times> int list" where
  "span_step fl oi = (case fl of (begins, ends) \<Rightarrow> (case oi of (offset, i) \<Rightarrow>
     if \<not> (0 \<le> i \<and> i < int (length begins)) then (begins, ends)
     else (if begins ! nat i = -1 then begins[nat i := int offset] else begins, ends[nat i := int offset])))"

definition message_token_spans :: "rendered \<Rightarrow> (nat \<times> nat) option list" where
  "message_token_spans r =
     (let n = length (rc_message_roles r);
          (begins, ends) = foldl span_step (replicate n (-1), replicate n (-1))
            (List.enumerate 0 (rc_message_indices r)) in
      map (\<lambda>(start, finish_at). if start = -1 then None else Some (nat start, nat (finish_at + 1))) (zip begins ends))"

section \<open>The format\<close>

record chat_format =
  cf_tokenizer :: tokenizer
  cf_separator_ids :: "nat list"
  cf_opener_ids :: "(string \<times> nat list) list"

definition new_chat_format :: "tokenizer \<Rightarrow> chat_format res" where
  "new_chat_format tk =
     (if (case tk_eos tk of None \<Rightarrow> False | Some v \<Rightarrow> v \<noteq> JNull \<and> \<not> py_eq v (JInt (int chat_eos)))
      then Inl (ChatFormatError ''tokenizer eos_token_id must be 0'')
      else rbind (encode_text tk message_separator) (\<lambda>separator.
      rbind (mapM (\<lambda>(role, text). rbind (encode_text tk text) (\<lambda>ids. Inr (role, ids))) role_openers) (\<lambda>openers.
      if map_of openers ''assistant'' = Some []
      then Inl (ChatFormatError ''assistant opener must encode to at least one token'')
      else Inr \<lparr>cf_tokenizer = tk, cf_separator_ids = separator, cf_opener_ids = openers\<rparr>)))"

definition opener_ids :: "chat_format \<Rightarrow> string \<Rightarrow> nat list" where
  "opener_ids f role = (case map_of (cf_opener_ids f) role of None \<Rightarrow> [] | Some ids \<Rightarrow> ids)"

definition generation_prompt_ids :: "chat_format \<Rightarrow> nat list" where
  "generation_prompt_ids f = opener_ids f ''assistant''"

definition emit :: "nat list \<Rightarrow> int \<Rightarrow> bool \<Rightarrow> bool \<Rightarrow> rendered \<Rightarrow> rendered" where
  "emit ids message_index is_sampled is_content r = r\<lparr>
     rc_token_ids := rc_token_ids r @ ids,
     rc_message_indices := rc_message_indices r @ replicate (length ids) message_index,
     rc_sampled_mask := rc_sampled_mask r @ replicate (length ids) is_sampled,
     rc_is_content := rc_is_content r @ replicate (length ids) is_content\<rparr>"

definition render_message :: "chat_format \<Rightarrow> rendered \<Rightarrow> nat \<times> string \<times> string \<Rightarrow> rendered res" where
  "render_message f r message = (case message of (index, role, content) \<Rightarrow>
     (let r1 = (if index \<noteq> 0 then emit (cf_separator_ids f) (-1) False False r else r);
          r2 = emit (opener_ids f role) (int index) False False r1 in
      rbind (encode_text (cf_tokenizer f) content) (\<lambda>body.
      let assistant = (role = ''assistant''); r3 = emit body (int index) assistant True r2 in
      Inr (if assistant then emit [chat_eos] (int index) True True r3 else r3))))"

definition empty_rendered :: rendered where
  "empty_rendered = \<lparr>rc_token_ids = [], rc_message_indices = [], rc_sampled_mask = [], rc_is_content = [],
     rc_message_roles = [], rc_message_tool_names = []\<rparr>"

definition render :: "chat_format \<Rightarrow> json \<Rightarrow> bool \<Rightarrow> rendered res" where
  "render f messages add_generation_prompt =
     rbind (validate_messages messages) (\<lambda>normalised.
     if add_generation_prompt \<and> fst (last normalised) \<noteq> ''user''
     then Inl (ChatFormatError ''add_generation_prompt requires a conversation ending in user'')
     else rbind (foldM (render_message f) empty_rendered (List.enumerate 0 normalised)) (\<lambda>r.
     let r' = (if add_generation_prompt
               then emit (opener_ids f ''assistant'') (-1) False False (emit (cf_separator_ids f) (-1) False False r)
               else r);
         roles = map fst normalised in
     check_rendered (r'\<lparr>rc_message_roles := roles, rc_message_tool_names := replicate (length roles) None\<rparr>)))"

definition render_ids :: "chat_format \<Rightarrow> json \<Rightarrow> bool \<Rightarrow> nat list res" where
  "render_ids f messages add_generation_prompt =
     rbind (render f messages add_generation_prompt) (\<lambda>r. Inr (rc_token_ids r))"

definition rendered_length :: "chat_format \<Rightarrow> json \<Rightarrow> bool \<Rightarrow> nat res" where
  "rendered_length f messages add_generation_prompt =
     rbind (render_ids f messages add_generation_prompt) (\<lambda>ids. Inr (length ids))"

definition chat_message :: "string \<Rightarrow> json \<Rightarrow> json" where
  "chat_message role content = JObj [(''role'', JStr role), (''content'', content)]"

definition training_messages :: "json \<Rightarrow> json \<Rightarrow> json" where
  "training_messages prompt completion =
     JList [chat_message ''user'' prompt, chat_message ''assistant'' completion]"

definition rendered_training_length :: "chat_format \<Rightarrow> json \<Rightarrow> json \<Rightarrow> nat res" where
  "rendered_training_length f prompt completion =
     rendered_length f (training_messages prompt completion) False"

definition render_training_text :: "json \<Rightarrow> json \<Rightarrow> string res" where
  "render_training_text prompt completion =
     rbind (validate_messages (training_messages prompt completion)) (\<lambda>_.
     Inr (the (map_of role_openers ''user'') @ jstr_of prompt @ message_separator @
          the (map_of role_openers ''assistant'') @ jstr_of completion))"

text \<open>The ids of a response up to the first EOS; what follows it is not looked at.\<close>

fun response_ids :: "json list \<Rightarrow> nat list res" where
  "response_ids [] = Inr []"
| "response_ids (v # vs) =
     (if \<not> is_jint v \<or> jint_of v < 0
      then Inl (ChatFormatError ''response token_ids must be a non-negative integer'')
      else if jint_of v = int chat_eos then Inr []
      else rbind (response_ids vs) (\<lambda>ids. Inr (nat (jint_of v) # ids)))"

definition parse_response :: "chat_format \<Rightarrow> json list \<Rightarrow> string res" where
  "parse_response f token_ids = rbind (response_ids token_ids) (decode_ids (cf_tokenizer f))"

end
