(* ===== verification/SftData.thy ===== *)
theory SftData
  imports BenchmarkGuard ChatFormat
begin

text \<open>
  The curation decisions of \<^verbatim>\<open>posttrain/sft_data.py\<close>: policies, prompt groups and their
  split, the secret signatures, and the decision on one raw row. The Unicode tables, \<^verbatim>\<open>json.loads\<close>
  on a metadata column and \<^verbatim>\<open>str\<close> of a value that is no string are parameters; the renderer is one
  too, and the chat format is one instance of it.
\<close>

section \<open>Parameters\<close>

record text_library =
  tl_nfkc :: "string \<Rightarrow> string"
  tl_casefold :: "string \<Rightarrow> string"
  tl_json_loads :: "string \<Rightarrow> json option"
  tl_str :: "json \<Rightarrow> string"

record text_renderer =
  rn_format_id :: string
  rn_eos :: nat
  rn_length :: "json \<Rightarrow> nat res"

section \<open>Policies\<close>

record split_policy =
  sp_seed :: string
  sp_validation :: int

definition make_split_policy :: "string \<Rightarrow> int \<Rightarrow> split_policy res" where
  "make_split_policy seed validation_per_million =
     (if seed = [] then Inl (ValueError ''split seed must not be empty'')
      else if \<not> (0 < validation_per_million \<and> validation_per_million < 1000000)
      then Inl (ValueError ''validation_per_million must be between 1 and 999999'')
      else Inr \<lparr>sp_seed = seed, sp_validation = validation_per_million\<rparr>)"

record filter_policy =
  fp_max_prompt_bytes :: int
  fp_max_completion_bytes :: int
  fp_min_score :: rat
  fp_require_metadata :: bool
  fp_reject_secrets :: bool

definition check_filter_policy :: "filter_policy \<Rightarrow> filter_policy res" where
  "check_filter_policy p =
     (if fp_max_prompt_bytes p \<le> 0 \<or> fp_max_completion_bytes p \<le> 0
      then Inl (ValueError ''text byte limits must be positive'')
      else if \<not> (0 \<le> fp_min_score p \<and> fp_min_score p \<le> 1)
      then Inl (ValueError ''min_average_test_score must be in [0, 1]'')
      else Inr p)"

section \<open>Decisions\<close>

record curated_example =
  ce_id :: string
  ce_group :: string
  ce_split :: string
  ce_messages :: json
  ce_domain :: string
  ce_algorithm :: string
  ce_score :: rat
  ce_tokens :: nat
  ce_shard :: string
  ce_row :: nat

record sft_decision =
  de_example :: "curated_example option"
  de_reason :: "string option"
  de_id :: string
  de_group :: "string option"
  de_tokens :: "nat option"

definition make_decision :: "sft_decision \<Rightarrow> sft_decision res" where
  "make_decision d =
     (if (de_example d = None) = (de_reason d = None)
      then Inl (ValueError ''decision must be accepted or have exactly one rejection reason'')
      else Inr d)"

definition reject :: "string \<Rightarrow> string \<Rightarrow> string option \<Rightarrow> nat option \<Rightarrow> sft_decision res" where
  "reject example_id reason group_id tokens = make_decision
     \<lparr>de_example = None, de_reason = Some reason, de_id = example_id, de_group = group_id, de_tokens = tokens\<rparr>"

section \<open>Prompt groups\<close>

text \<open>\<^verbatim>\<open>WHITESPACE_RE.sub(" ", s)\<close>; the flag says that the last character was white space.\<close>

fun squeeze :: "bool \<Rightarrow> string \<Rightarrow> string" where
  "squeeze in_space [] = []"
| "squeeze in_space (c # s) =
     (if is_py_space c then (if in_space then squeeze True s else CHR '' '' # squeeze True s)
      else c # squeeze False s)"

definition normalize_for_group :: "text_library \<Rightarrow> string \<Rightarrow> string" where
  "normalize_for_group lib s = tl_casefold lib (py_strip (squeeze False (tl_nfkc lib s)))"

definition group_prefix :: string where "group_prefix = ''prompt-sha256:''"

definition prompt_group_id :: "text_library \<Rightarrow> string \<Rightarrow> string" where
  "prompt_group_id lib prompt = group_prefix @ sha256 (utf8 (normalize_for_group lib prompt))"

definition split_for_group :: "split_policy \<Rightarrow> string \<Rightarrow> string" where
  "split_for_group policy group_id =
     (let value = sha256_digest (utf8 (sp_seed policy @ [CHR 0x00] @ group_id));
          bucket = int_from_bytes (take 8 value) mod 1000000 in
      if int bucket < sp_validation policy then ''validation'' else ''train'')"

section \<open>Secrets\<close>

definition is_ascii_alnum :: "char \<Rightarrow> bool" where
  "is_ascii_alnum c \<longleftrightarrow> (let n = of_char c :: nat in
     48 \<le> n \<and> n \<le> 57 \<or> 65 \<le> n \<and> n \<le> 90 \<or> 97 \<le> n \<and> n \<le> 122)"

definition is_upper_digit :: "char \<Rightarrow> bool" where
  "is_upper_digit c \<longleftrightarrow> (let n = of_char c :: nat in 48 \<le> n \<and> n \<le> 57 \<or> 65 \<le> n \<and> n \<le> 90)"

text \<open>\<^verbatim>\<open>\b\<close> between the characters before and after a position.\<close>

definition ends_word :: "string \<Rightarrow> bool" where
  "ends_word rest \<longleftrightarrow> rest = [] \<or> \<not> is_word_char (hd rest)"

text \<open>A search for a pattern that starts with a word boundary and a word character.\<close>

fun search_at :: "(string \<Rightarrow> bool) \<Rightarrow> bool \<Rightarrow> string \<Rightarrow> bool" where
  "search_at P after_word [] = False"
| "search_at P after_word (c # s) = (\<not> after_word \<and> P (c # s) \<or> search_at P (is_word_char c) s)"

definition match_aws :: "string \<Rightarrow> bool" where
  "match_aws s \<longleftrightarrow> (take 4 s = ''AKIA'' \<or> take 4 s = ''ASIA'') \<and>
     length (take 16 (drop 4 s)) = 16 \<and> list_all is_upper_digit (take 16 (drop 4 s)) \<and> ends_word (drop 20 s)"

definition match_github :: "string \<Rightarrow> bool" where
  "match_github s \<longleftrightarrow>
     (let run = takeWhile is_ascii_alnum (drop 4 s) in
      list_ex (\<lambda>c. take 4 s = ''gh'' @ [c] @ ''_'') ''pousr'' \<and>
      36 \<le> length run \<and> length run \<le> 255 \<and> ends_word (dropWhile is_ascii_alnum (drop 4 s)))"

definition match_slack :: "string \<Rightarrow> bool" where
  "match_slack s \<longleftrightarrow>
     (let body = drop 5 s; run = takeWhile (\<lambda>c. is_ascii_alnum c \<or> c = CHR ''-'') body in
      list_ex (\<lambda>c. take 5 s = ''xox'' @ [c] @ ''-'') ''baprs'' \<and>
      list_ex (\<lambda>n. is_word_char (run ! (n - 1)) = ends_word (drop n body)) [20..<Suc (length run)])"

definition secret_patterns :: "(string \<times> (string \<Rightarrow> bool)) list" where
  "secret_patterns =
     [(''private-key'', \<lambda>s. list_ex (\<lambda>kind. contains (''-----BEGIN '' @ kind @ ''PRIVATE KEY-----'') s)
         [[], ''RSA '', ''EC '', ''OPENSSH '', ''DSA '']),
      (''aws-access-key'', search_at match_aws False),
      (''github-token'', search_at match_github False),
      (''slack-token'', search_at match_slack False)]"

definition high_confidence_secret_reason :: "string \<Rightarrow> string option" where
  "high_confidence_secret_reason s = (case filter (\<lambda>(name, search). search s) secret_patterns of
       [] \<Rightarrow> None | (name, search) # _ \<Rightarrow> Some (''secret:'' @ name))"

section \<open>One row\<close>

definition tokenizer_eos_id :: nat where "tokenizer_eos_id = 0"

definition rendered_token_count :: "text_renderer \<Rightarrow> string \<Rightarrow> string \<Rightarrow> nat res" where
  "rendered_token_count renderer prompt completion =
     (if rn_eos renderer \<noteq> tokenizer_eos_id then Inl (ValueError ''renderer EOS does not match frozen tokenizer EOS'')
      else rn_length renderer (training_messages (JStr prompt) (JStr completion)))"

definition string_field :: "json \<Rightarrow> string \<Rightarrow> string option" where
  "string_field row name = (case jget row name of JStr s \<Rightarrow> Some s | _ \<Rightarrow> None)"

definition parse_json_list :: "text_library \<Rightarrow> string \<Rightarrow> json list option" where
  "parse_json_list lib value = (case tl_json_loads lib value of Some (JList xs) \<Rightarrow> Some xs | _ \<Rightarrow> None)"

definition parse_json_object :: "text_library \<Rightarrow> string \<Rightarrow> (string \<times> json) list option" where
  "parse_json_object lib value = (case tl_json_loads lib value of Some (JObj m) \<Rightarrow> Some m | _ \<Rightarrow> None)"

definition is_hex_id :: "string \<Rightarrow> bool" where
  "is_hex_id s \<longleftrightarrow> length s = 32 \<and> list_all (\<lambda>c. c \<in> set lower_hex) s"

definition utf8_length :: "string \<Rightarrow> int" where
  "utf8_length s = int (length (utf8 s))"

text \<open>The text fields: the rejection, or the prompt and the completion.\<close>

definition decide_text :: "filter_policy \<Rightarrow> json \<Rightarrow> string + string \<times> string" where
  "decide_text policy row =
     (case (string_field row ''input'', string_field row ''output'') of
        (None, _) \<Rightarrow> Inl ''schema:input''
      | (Some prompt, None) \<Rightarrow> Inl ''schema:output''
      | (Some prompt, Some completion) \<Rightarrow>
          if py_strip prompt = [] then Inl ''quality:empty-prompt''
          else if py_strip completion = [] then Inl ''quality:empty-completion''
          else if CHR 0x00 \<in> set prompt \<or> CHR 0x00 \<in> set completion then Inl ''quality:nul-byte''
          else if fp_max_prompt_bytes policy < utf8_length prompt then Inl ''quality:prompt-bytes''
          else if fp_max_completion_bytes policy < utf8_length completion then Inl ''quality:completion-bytes''
          else Inr (prompt, completion))"

definition decide_labels :: "filter_policy \<Rightarrow> json \<Rightarrow> string + string \<times> string \<times> rat" where
  "decide_labels policy row =
     (let domain = string_field row ''domain''; algorithm = string_field row ''generation_algorithm'' in
      if domain \<notin> {Some ''generic'', Some ''algorithmic''} then Inl ''schema:domain''
      else if algorithm \<notin> {Some ''self-instruct'', Some ''evol-instruct''} then Inl ''schema:generation-algorithm''
      else case float_of (jget row ''average_test_score'') of
        Inl _ \<Rightarrow> Inl ''schema:average-test-score''
      | Inr score \<Rightarrow>
          if \<not> (0 \<le> score \<and> score \<le> 1) then Inl ''schema:average-test-score''
          else if score < fp_min_score policy then Inl ''quality:test-score''
          else Inr (the domain, the algorithm, score))"

text \<open>The metadata columns, when they are looked at: the unit tests and their parsed list.\<close>

definition decide_metadata ::
    "text_library \<Rightarrow> filter_policy \<Rightarrow> bool \<Rightarrow> json \<Rightarrow> string + string \<times> json list option" where
  "decide_metadata lib policy scan row =
     (if \<not> (fp_require_metadata policy \<or> scan) then Inr ([], None)
      else case (string_field row ''llm_judgement'', string_field row ''unit_tests'',
                 string_field row ''tests_execution_status'') of
        (Some judgement, Some unit_tests, Some statuses) \<Rightarrow>
          if \<not> fp_require_metadata policy then Inr (unit_tests, None)
          else if parse_json_object lib judgement = None then Inl ''schema:llm-judgement-json''
          else (case (parse_json_list lib unit_tests, parse_json_list lib statuses) of
              (None, _) \<Rightarrow> Inl ''schema:unit-tests-json''
            | (Some tests, None) \<Rightarrow> Inl ''schema:test-status-json''
            | (Some tests, Some states) \<Rightarrow>
                if length tests \<noteq> length states then Inl ''schema:test-count-mismatch''
                else Inr (unit_tests, Some tests))
      | _ \<Rightarrow> Inl ''schema:metadata'')"

definition join_tests :: "text_library \<Rightarrow> json list \<Rightarrow> string" where
  "join_tests lib tests = join_with [char_LF] (map (text_of (tl_str lib)) tests)"

definition contamination_text ::
    "text_library \<Rightarrow> string \<Rightarrow> string \<Rightarrow> string \<Rightarrow> json list option \<Rightarrow> string" where
  "contamination_text lib prompt completion unit_tests tests_value =
     (let tests = (case tests_value of None \<Rightarrow> parse_json_list lib unit_tests | Some ts \<Rightarrow> Some ts) in
      join_with [char_LF, char_LF] [prompt, completion,
        case tests of Some ts \<Rightarrow> join_tests lib ts | None \<Rightarrow> unit_tests])"

record row_context =
  rx_library :: text_library
  rx_renderer :: text_renderer
  rx_split :: split_policy
  rx_filter :: filter_policy
  rx_max_sequence_length :: int
  rx_contamination :: "(string \<Rightarrow> string option) option"
  rx_contaminated_groups :: "string list"

text \<open>What follows the metadata: groups, benchmarks, secrets, length, split.\<close>

definition decide_content ::
    "row_context \<Rightarrow> string \<Rightarrow> nat \<Rightarrow> string \<Rightarrow> string \<times> string \<Rightarrow> string \<times> string \<times> rat \<Rightarrow> string \<times> json list option \<Rightarrow>
     sft_decision res" where
  "decide_content rx source_shard source_row example_id texts labels metadata =
     (case (texts, labels, metadata) of ((prompt, completion), (domain, algorithm, score), (unit_tests, tests_value)) \<Rightarrow>
     (let lib = rx_library rx; group_id = prompt_group_id lib prompt;
          benchmark = (case rx_contamination rx of None \<Rightarrow> None
            | Some reason \<Rightarrow> reason (contamination_text lib prompt completion unit_tests tests_value));
          secret = (if fp_reject_secrets (rx_filter rx)
            then high_confidence_secret_reason (prompt @ [char_LF] @ completion) else None) in
      if group_id \<in> set (rx_contaminated_groups rx) then reject example_id ''benchmark:group-propagated'' (Some group_id) None
      else case benchmark of Some b \<Rightarrow> reject example_id (''benchmark:'' @ b) (Some group_id) None | None \<Rightarrow>
      (case secret of Some reason \<Rightarrow> reject example_id reason (Some group_id) None | None \<Rightarrow>
      (case rendered_token_count (rx_renderer rx) prompt completion of
         Inl (TypeError _) \<Rightarrow> reject example_id ''quality:rendering'' (Some group_id) None
       | Inl (ValueError _) \<Rightarrow> reject example_id ''quality:rendering'' (Some group_id) None
       | Inl (ChatFormatError _) \<Rightarrow> reject example_id ''quality:rendering'' (Some group_id) None
       | Inl e \<Rightarrow> Inl e
       | Inr tokens \<Rightarrow>
           if rx_max_sequence_length rx < int tokens - 1
           then reject example_id ''length:over-context'' (Some group_id) (Some tokens)
           else if tokens < 2 then reject example_id ''length:no-target'' (Some group_id) (Some tokens)
           else make_decision \<lparr>
             de_example = Some \<lparr>ce_id = example_id, ce_group = group_id, ce_split = split_for_group (rx_split rx) group_id,
               ce_messages = training_messages (JStr prompt) (JStr completion), ce_domain = domain,
               ce_algorithm = algorithm, ce_score = score, ce_tokens = tokens, ce_shard = source_shard,
               ce_row = source_row\<rparr>,
             de_reason = None, de_id = example_id, de_group = Some group_id, de_tokens = Some tokens\<rparr>))))"

definition decide_row :: "row_context \<Rightarrow> string \<Rightarrow> nat \<Rightarrow> json \<Rightarrow> sft_decision res" where
  "decide_row rx source_shard source_row row =
     (let example_id = (case string_field row ''id'' of Some s \<Rightarrow> s | None \<Rightarrow> []) in
      if \<not> is_hex_id example_id then reject example_id ''schema:id'' None None
      else case decide_text (rx_filter rx) row of Inl reason \<Rightarrow> reject example_id reason None None
      | Inr texts \<Rightarrow> (case decide_labels (rx_filter rx) row of Inl reason \<Rightarrow> reject example_id reason None None
      | Inr labels \<Rightarrow> (case decide_metadata (rx_library rx) (rx_filter rx) (rx_contamination rx \<noteq> None) row of
            Inl reason \<Rightarrow> reject example_id reason None None
          | Inr metadata \<Rightarrow> decide_content rx source_shard source_row example_id texts labels metadata)))"

text \<open>The renderer bound to a tokenizer: the chat format.\<close>

definition chat_renderer :: "chat_format \<Rightarrow> text_renderer" where
  "chat_renderer f = \<lparr>rn_format_id = ''starcoder2-coding-chat-v1'', rn_eos = chat_eos,
     rn_length = (\<lambda>messages. rendered_length f messages False)\<rparr>"

section \<open>The record and the policy file\<close>

definition source_revision :: string where
  "source_revision = ''8f3ba5bafe4d6e8db46082cf7ae6741bc370604d''"

definition as_record :: "curated_example \<Rightarrow> json" where
  "as_record e = JObj [
     (''id'', JStr (ce_id e)), (''group_id'', JStr (ce_group e)), (''messages'', ce_messages e),
     (''domain'', JStr (ce_domain e)), (''generation_algorithm'', JStr (ce_algorithm e)),
     (''average_test_score'', JFloat (ce_score e)), (''rendered_tokens'', JInt (int (ce_tokens e))),
     (''source_revision'', JStr source_revision), (''source_shard'', JStr (ce_shard e)),
     (''source_row'', JInt (int (ce_row e)))]"

definition required_policy :: "(string \<times> json) list" where
  "required_policy = [
     (''policy_version'', JInt 1), (''source_repo_id'', JStr ''nvidia/OpenCodeInstruct''),
     (''source_revision'', JStr source_revision), (''source_license'', JStr ''CC-BY-4.0''),
     (''tokenizer_repo_id'', JStr ''bigcode/starcoder2-tokenizer''),
     (''tokenizer_revision'', JStr ''9cfe60e28fd01cc1391ecd2146a34cda7534efeb''),
     (''tokenizer_vocab_size'', JInt 49152), (''tokenizer_eos_id'', JInt 0),
     (''chat_format_id'', JStr ''starcoder2-coding-chat-v1'')]"

definition validate_policy_payload :: "json \<Rightarrow> unit res" where
  "validate_policy_payload payload =
     (if list_ex (\<lambda>(field, expected). \<not> py_eq (jget payload field) expected) required_policy
      then Inl (ValueError ''policy field must equal'')
      else if \<not> py_eq (jget payload ''max_sequence_length'') (JInt 4096)
      then Inl (ValueError ''policy max_sequence_length must equal 4096'')
      else if jget payload ''overlength_policy'' \<noteq> JStr ''drop-complete-conversation''
      then Inl (ValueError ''only drop-complete-conversation is supported'')
      else if \<not> is_jlist (jget payload ''benchmark_denylists'') \<or> jlist_of (jget payload ''benchmark_denylists'') = []
      then Inl (ValueError ''at least one frozen benchmark denylist is required'')
      else Inr ())"

end
