(* ===== verification/SftPrepare.thy ===== *)
theory SftPrepare
  imports SftData
begin

text \<open>
  The two passes of \<^verbatim>\<open>scripts/prepare_prime_sft.py\<close> over the source shards: the contamination
  scan that collects every prompt group a benchmark touched, and the projection of each shard into
  train, validation and rejected rows through buffered sinks. Worker processes finish in any order
  and leave a sidecar each in the work directory; a later run of the same identity loads the sidecars
  that pass their checks and runs the other shards again. Parquet files are the row lists they hold,
  and a digest stands for what it digests; fsync, file locks and the process pool are outside the model.
\<close>

section \<open>Reading columns\<close>

text \<open>\<^verbatim>\<open>iter_batches(columns=...)\<close>: the named columns of a row, a missing value being null.\<close>

definition read_columns :: "string list \<Rightarrow> json \<Rightarrow> json" where
  "read_columns columns row = JObj (map (\<lambda>k. (k, jget row k)) columns)"

definition scan_columns :: "string list" where
  "scan_columns = [''input'', ''output'', ''unit_tests'']"

definition decision_columns :: "string list" where
  "decision_columns = [''id'', ''input'', ''output'', ''domain'', ''generation_algorithm'', ''average_test_score'']"

section \<open>The contamination scan\<close>

definition str_or_empty :: "json \<Rightarrow> string" where
  "str_or_empty v = (case v of JStr s \<Rightarrow> s | _ \<Rightarrow> [])"

definition content_for_benchmark_scan :: "text_library \<Rightarrow> json \<Rightarrow> json \<Rightarrow> json \<Rightarrow> string" where
  "content_for_benchmark_scan lib prompt completion raw_tests =
     join_with [char_LF, char_LF] ([str_or_empty prompt, str_or_empty completion] @
       (case raw_tests of JStr s \<Rightarrow>
          [case parse_json_list lib s of Some tests \<Rightarrow> join_tests lib tests | None \<Rightarrow> s] | _ \<Rightarrow> []))"

text \<open>The first guard that matches names the denylist and the reason.\<close>

fun guards_reason :: "guard list \<Rightarrow> string \<Rightarrow> string option" where
  "guards_reason [] content = None"
| "guards_reason (g # gs) content = (case contamination_reason g ''Python'' content of
     Some reason \<Rightarrow> Some (take 12 (g_manifest_sha256 g) @ '':'' @ reason)
   | None \<Rightarrow> guards_reason gs content)"

text \<open>\<^verbatim>\<open>counter[key] += n\<close>\<close>

fun bump :: "string \<Rightarrow> nat \<Rightarrow> (string \<times> nat) list \<Rightarrow> (string \<times> nat) list" where
  "bump k n [] = [(k, n)]"
| "bump k n ((j, m) # c) = (if j = k then (j, m + n) # c else (j, m) # bump k n c)"

definition counted :: "(string \<times> nat) list \<Rightarrow> string \<Rightarrow> nat" where
  "counted c k = (case map_of c k of None \<Rightarrow> 0 | Some n \<Rightarrow> n)"

definition sorted_items :: "(string \<times> nat) list \<Rightarrow> (string \<times> nat) list" where
  "sorted_items c = sort_key fst c"

record preflight =
  pf_rows :: nat
  pf_matched :: nat
  pf_reasons :: "(string \<times> nat) list"
  pf_groups :: "string list"

definition scan_row ::
    "text_library \<Rightarrow> (string \<Rightarrow> string option) \<Rightarrow> string list \<times> (string \<times> nat) list \<times> nat \<Rightarrow> json \<Rightarrow>
     string list \<times> (string \<times> nat) list \<times> nat" where
  "scan_row lib reason st row = (case st of (groups, reasons, rows) \<Rightarrow>
     (case reason (content_for_benchmark_scan lib (jget row ''input'') (jget row ''output'') (jget row ''unit_tests'')) of
        None \<Rightarrow> (groups, reasons, Suc rows)
      | Some r \<Rightarrow>
          ((case jget row ''input'' of JStr prompt \<Rightarrow>
              if py_strip prompt \<noteq> [] then List.insert (prompt_group_id lib prompt) groups else groups
            | _ \<Rightarrow> groups), bump r 1 reasons, Suc rows)))"

text \<open>A source shard: the recorded row count and the rows read.\<close>

record source_shard =
  ss_path :: string
  ss_expected_rows :: nat
  ss_rows :: "json list"

definition scan_contamination_shard ::
    "text_library \<Rightarrow> (string \<Rightarrow> string option) \<Rightarrow> source_shard \<Rightarrow> preflight res" where
  "scan_contamination_shard lib reason shard =
     (let (groups, reasons, rows) = foldl (scan_row lib reason) ([], [], 0)
          (map (read_columns scan_columns) (ss_rows shard)) in
      if rows \<noteq> ss_expected_rows shard then Inl (SFTPreparationError ''row count changed'')
      else Inr \<lparr>pf_rows = rows, pf_matched = sum_list (map snd reasons), pf_reasons = sorted_items reasons,
             pf_groups = sort groups\<rparr>)"

section \<open>Sinks\<close>

text \<open>Rows wait in a buffer; a full buffer is written as one row group.\<close>

record 'a sink =
  sk_rows :: "'a list"
  sk_written :: "'a list list"
  sk_count :: nat

definition new_sink :: "'a sink" where
  "new_sink = \<lparr>sk_rows = [], sk_written = [], sk_count = 0\<rparr>"

definition sink_flush :: "'a sink \<Rightarrow> 'a sink" where
  "sink_flush s = (if sk_rows s = [] then s
     else \<lparr>sk_rows = [], sk_written = sk_written s @ [sk_rows s], sk_count = sk_count s + length (sk_rows s)\<rparr>)"

definition sink_append :: "nat \<Rightarrow> 'a \<Rightarrow> 'a sink \<Rightarrow> 'a sink" where
  "sink_append flush_rows row s =
     (let s' = s\<lparr>sk_rows := sk_rows s @ [row]\<rparr> in if flush_rows \<le> length (sk_rows s') then sink_flush s' else s')"

text \<open>An empty sink leaves no file; otherwise the file's row groups and the recorded row count.\<close>

definition sink_finish :: "'a sink \<Rightarrow> ('a list list \<times> nat) option" where
  "sink_finish s = (let s' = sink_flush s in if sk_count s' = 0 then None else Some (sk_written s', sk_count s'))"

section \<open>The projection of a shard\<close>

record rejected_row =
  rj_id :: string
  rj_group :: "string option"
  rj_reason :: string
  rj_tokens :: "nat option"
  rj_shard :: string
  rj_row :: nat

record process_state =
  ps_train :: "curated_example sink"
  ps_validation :: "curated_example sink"
  ps_rejected :: "rejected_row sink"
  ps_counts :: "(string \<times> nat) list"
  ps_tokens :: "(string \<times> nat) list"
  ps_domains :: "(string \<times> nat) list"
  ps_source_row :: nat

definition process_row :: "row_context \<Rightarrow> nat \<Rightarrow> string \<Rightarrow> process_state \<Rightarrow> json \<Rightarrow> process_state res" where
  "process_row rx flush_rows path s row =
     rbind (decide_row rx path (ps_source_row s) row) (\<lambda>d.
     (case de_example d of
        Some e \<Rightarrow>
          (let s1 = s\<lparr>ps_counts := bump (ce_split e) 1 (ps_counts s),
                      ps_tokens := bump (ce_split e) (ce_tokens e - 1) (ps_tokens s),
                      ps_domains := bump (ce_split e @ '':'' @ ce_domain e) 1 (ps_domains s),
                      ps_source_row := Suc (ps_source_row s)\<rparr> in
           if ce_split e = ''train'' then Inr (s1\<lparr>ps_train := sink_append flush_rows e (ps_train s)\<rparr>)
           else if ce_split e = ''validation'' then Inr (s1\<lparr>ps_validation := sink_append flush_rows e (ps_validation s)\<rparr>)
           else Inl (KeyError (ce_split e)))
      | None \<Rightarrow> (case de_reason d of
          None \<Rightarrow> Inl (AssertionError [])
        | Some reason \<Rightarrow>
            Inr (s\<lparr>ps_rejected := sink_append flush_rows
                     \<lparr>rj_id = de_id d, rj_group = de_group d, rj_reason = reason, rj_tokens = de_tokens d,
                      rj_shard = path, rj_row = ps_source_row s\<rparr> (ps_rejected s),
                   ps_counts := bump (''rejected:'' @ reason) 1 (ps_counts s),
                   ps_source_row := Suc (ps_source_row s)\<rparr>))))"

record shard_result =
  sr_counts :: "(string \<times> nat) list"
  sr_tokens :: "(string \<times> nat) list"
  sr_domains :: "(string \<times> nat) list"
  sr_train :: "(curated_example list list \<times> nat) option"
  sr_validation :: "(curated_example list list \<times> nat) option"
  sr_rejected :: "(rejected_row list list \<times> nat) option"

definition rejected_key :: "string \<Rightarrow> bool" where
  "rejected_key k = (take 9 k = ''rejected:'')"

definition decided_rows :: "(string \<times> nat) list \<Rightarrow> nat" where
  "decided_rows counts = counted counts ''train'' + counted counts ''validation'' +
     sum_list (map snd (filter (\<lambda>(k, n). rejected_key k) counts))"

definition empty_process_state :: process_state where
  "empty_process_state = \<lparr>ps_train = new_sink, ps_validation = new_sink, ps_rejected = new_sink,
     ps_counts = [], ps_tokens = [], ps_domains = [], ps_source_row = 0\<rparr>"

definition process_shard :: "row_context \<Rightarrow> nat \<Rightarrow> source_shard \<Rightarrow> shard_result res" where
  "process_shard rx flush_rows shard =
     rbind (foldM (process_row rx flush_rows (ss_path shard)) empty_process_state
         (map (read_columns decision_columns) (ss_rows shard))) (\<lambda>s.
     if ps_source_row s \<noteq> ss_expected_rows shard then Inl (SFTPreparationError ''Processed row count mismatch'')
     else if decided_rows (ps_counts s) \<noteq> ps_source_row s then Inl (SFTPreparationError ''Decision accounting mismatch'')
     else Inr \<lparr>sr_counts = sorted_items (ps_counts s), sr_tokens = sorted_items (ps_tokens s),
            sr_domains = sorted_items (ps_domains s), sr_train = sink_finish (ps_train s),
            sr_validation = sink_finish (ps_validation s), sr_rejected = sink_finish (ps_rejected s)\<rparr>)"

section \<open>Sidecars\<close>

text \<open>What a sidecar records beside its result. \<open>pc_intact\<close> and \<open>rc_intact\<close> say that the file is a
  regular file of this version whose own digest is right and, for a result, that the output files are
  exactly those recorded, byte for byte.\<close>

record preflight_sidecar =
  pc_intact :: bool
  pc_identity :: string
  pc_index :: nat
  pc_source :: "string \<times> nat \<times> json list"
  pc_result :: preflight

text \<open>The contamination authority of a run: the groups and the preflights they come from.\<close>

record contamination_authority =
  au_identity :: string
  au_matched :: nat
  au_groups :: "string list"
  au_sidecars :: "preflight list"

record result_sidecar =
  rc_intact :: bool
  rc_identity :: string
  rc_authority :: contamination_authority
  rc_index :: nat
  rc_source :: "string \<times> nat \<times> json list"
  rc_result :: shard_result

text \<open>The recorded source: path, row count, and the digest of the shard's bytes.\<close>

definition source_of :: "source_shard \<Rightarrow> string \<times> nat \<times> json list" where
  "source_of shard = (ss_path shard, ss_expected_rows shard, ss_rows shard)"

definition valid_group_id :: "string \<Rightarrow> bool" where
  "valid_group_id g \<longleftrightarrow> take (length group_prefix) g = group_prefix \<and> length g = length group_prefix + 64 \<and>
     list_all (\<lambda>c. c \<in> set lower_hex) (drop (length group_prefix) g)"

definition load_valid_preflight ::
    "string \<Rightarrow> nat \<Rightarrow> source_shard \<Rightarrow> preflight_sidecar option \<Rightarrow> preflight option" where
  "load_valid_preflight identity index shard sidecar = (case sidecar of None \<Rightarrow> None
   | Some c \<Rightarrow>
       let p = pc_result c in
       if \<not> pc_intact c then None
       else if pc_identity c \<noteq> identity \<or> pc_index c \<noteq> index \<or> pf_rows p \<noteq> ss_expected_rows shard then None
       else if pc_source c \<noteq> source_of shard then None
       else if pf_groups p \<noteq> sort (remdups (pf_groups p)) \<or> \<not> list_all valid_group_id (pf_groups p) then None
       else if list_ex (\<lambda>(k, n). k = []) (pf_reasons p) then None
       else if ss_expected_rows shard < pf_matched p \<or> sum_list (map snd (pf_reasons p)) \<noteq> pf_matched p then None
       else Some p)"

text \<open>The record of one output file against the rows the counters promise.\<close>

definition file_record_ok :: "nat \<Rightarrow> ('a list list \<times> nat) option \<Rightarrow> bool" where
  "file_record_ok expected f = (case f of None \<Rightarrow> expected = 0
     | Some (groups, n) \<Rightarrow> n = expected \<and> length (concat groups) = n)"

definition load_valid_result ::
    "string \<Rightarrow> contamination_authority \<Rightarrow> nat \<Rightarrow> source_shard \<Rightarrow> result_sidecar option \<Rightarrow> shard_result option" where
  "load_valid_result identity authority index shard sidecar = (case sidecar of None \<Rightarrow> None
   | Some c \<Rightarrow>
       let r = rc_result c; counts = sr_counts r;
           rejected = sum_list (map snd (filter (\<lambda>(k, n). rejected_key k) counts)) in
       if \<not> rc_intact c then None
       else if rc_index c \<noteq> index \<or> rc_identity c \<noteq> identity \<or> rc_authority c \<noteq> authority then None
       else if rc_source c \<noteq> source_of shard then None
       else if list_ex (\<lambda>(k, n). k \<noteq> ''train'' \<and> k \<noteq> ''validation'' \<and> \<not> rejected_key k) counts then None
       else if counted counts ''train'' + counted counts ''validation'' + rejected \<noteq> ss_expected_rows shard then None
       else if \<not> file_record_ok (counted counts ''train'') (sr_train r) \<or>
           \<not> file_record_ok (counted counts ''validation'') (sr_validation r) \<or>
           \<not> file_record_ok rejected (sr_rejected r) then None
       else Some r)"

section \<open>The work directory\<close>

record work_dir =
  wd_identity :: "string option"
  wd_preflights :: "nat \<Rightarrow> preflight_sidecar option"
  wd_results :: "nat \<Rightarrow> result_sidecar option"

definition empty_work :: work_dir where
  "empty_work = \<lparr>wd_identity = None, wd_preflights = (\<lambda>i. None), wd_results = (\<lambda>i. None)\<rparr>"

text \<open>A work directory belongs to one curation identity, the digest of implementation, source,
  tokenizer and policy; batch and row-group sizes are not part of it.\<close>

definition enter_work :: "string \<Rightarrow> work_dir \<Rightarrow> work_dir res" where
  "enter_work identity w = (case wd_identity w of
     Some found \<Rightarrow> if found \<noteq> identity
       then Inl (SFTPreparationError ''Existing work directory belongs to a different curation identity'') else Inr w
   | None \<Rightarrow> Inr (w\<lparr>wd_identity := Some identity\<rparr>))"

text \<open>What a worker process does for one shard: its result, and its sidecar in the directory.\<close>

definition scan_worker ::
    "string \<Rightarrow> text_library \<Rightarrow> (string \<Rightarrow> string option) \<Rightarrow> source_shard list \<Rightarrow> nat \<Rightarrow> work_dir \<Rightarrow>
     (preflight \<times> work_dir) res" where
  "scan_worker identity lib reason shards i w =
     rbind (scan_contamination_shard lib reason (shards ! i)) (\<lambda>p.
     Inr (p, w\<lparr>wd_preflights := (wd_preflights w)(i := Some \<lparr>pc_intact = True, pc_identity = identity,
            pc_index = i, pc_source = source_of (shards ! i), pc_result = p\<rparr>)\<rparr>))"

definition process_worker ::
    "string \<Rightarrow> contamination_authority \<Rightarrow> row_context \<Rightarrow> nat \<Rightarrow> source_shard list \<Rightarrow> nat \<Rightarrow> work_dir \<Rightarrow>
     (shard_result \<times> work_dir) res" where
  "process_worker identity authority rx flush_rows shards i w =
     rbind (process_shard (rx\<lparr>rx_contamination := None, rx_contaminated_groups := au_groups authority\<rparr>)
         flush_rows (shards ! i)) (\<lambda>r.
     Inr (r, w\<lparr>wd_results := (wd_results w)(i := Some \<lparr>rc_intact = True, rc_identity = identity,
            rc_authority = authority, rc_index = i, rc_source = source_of (shards ! i), rc_result = r\<rparr>)\<rparr>))"

section \<open>Both passes\<close>

text \<open>Results arrive in the order the workers finish and are kept by shard index; the first worker that
  failed raises.\<close>

definition collect ::
    "(nat \<Rightarrow> work_dir \<Rightarrow> ('r \<times> work_dir) res) \<Rightarrow> (nat \<Rightarrow> 'r option) \<Rightarrow> nat list \<Rightarrow> work_dir \<Rightarrow>
     ((nat \<Rightarrow> 'r option) \<times> work_dir) res" where
  "collect worker cached completions w =
     foldM (\<lambda>(results, w) i. rbind (worker i w) (\<lambda>(r, w'). Inr (results(i := Some r), w'))) (cached, w) completions"

definition pending :: "(nat \<Rightarrow> 'r option) \<Rightarrow> nat \<Rightarrow> nat list" where
  "pending cached n = filter (\<lambda>i. cached i = None) [0..<n]"

text \<open>Invalid sidecars are removed, and their shards run again; \<open>order\<close> is the order of completion.\<close>

definition first_pass ::
    "string \<Rightarrow> row_context \<Rightarrow> (string \<Rightarrow> string option) \<Rightarrow> source_shard list \<Rightarrow> (nat list \<Rightarrow> nat list) \<Rightarrow> work_dir \<Rightarrow>
     ((nat \<Rightarrow> preflight option) \<times> work_dir) res" where
  "first_pass identity rx reason shards order w =
     (let cached = (\<lambda>i. if i < length shards
            then load_valid_preflight identity i (shards ! i) (wd_preflights w i) else None);
          tasks = pending cached (length shards) in
      collect (scan_worker identity (rx_library rx) reason shards) cached (order tasks)
        (w\<lparr>wd_preflights := (\<lambda>i. if i \<in> set tasks then None else wd_preflights w i)\<rparr>))"

definition contaminated_groups :: "(nat \<Rightarrow> preflight option) \<Rightarrow> nat \<Rightarrow> string list" where
  "contaminated_groups preflights n =
     sort (remdups (concat (map (\<lambda>i. case preflights i of Some p \<Rightarrow> pf_groups p | None \<Rightarrow> []) [0..<n])))"

definition authority_of :: "string \<Rightarrow> (nat \<Rightarrow> preflight option) \<Rightarrow> nat \<Rightarrow> contamination_authority" where
  "authority_of identity preflights n = \<lparr>au_identity = identity,
     au_matched = sum_list (map (\<lambda>i. pf_matched (the (preflights i))) [0..<n]),
     au_groups = contaminated_groups preflights n,
     au_sidecars = map (\<lambda>i. the (preflights i)) [0..<n]\<rparr>"

definition project_pass ::
    "string \<Rightarrow> contamination_authority \<Rightarrow> row_context \<Rightarrow> nat \<Rightarrow> source_shard list \<Rightarrow> (nat list \<Rightarrow> nat list) \<Rightarrow>
     work_dir \<Rightarrow> ((nat \<Rightarrow> shard_result option) \<times> work_dir) res" where
  "project_pass identity authority rx flush_rows shards order w =
     (let cached = (\<lambda>i. if i < length shards
            then load_valid_result identity authority i (shards ! i) (wd_results w i) else None);
          tasks = pending cached (length shards) in
      collect (process_worker identity authority rx flush_rows shards) cached (order tasks)
        (w\<lparr>wd_results := (\<lambda>i. if i \<in> set tasks then None else wd_results w i)\<rparr>))"

definition prepare_dataset ::
    "string \<Rightarrow> row_context \<Rightarrow> (string \<Rightarrow> string option) \<Rightarrow> nat \<Rightarrow> source_shard list \<Rightarrow>
     (nat list \<Rightarrow> nat list) \<Rightarrow> (nat list \<Rightarrow> nat list) \<Rightarrow> work_dir \<Rightarrow> (shard_result list \<times> work_dir) res" where
  "prepare_dataset identity rx reason flush_rows shards scan_order process_order w =
     rbind (enter_work identity w) (\<lambda>w0.
     rbind (first_pass identity rx reason shards scan_order w0) (\<lambda>(preflights, w1).
     rbind (project_pass identity (authority_of identity preflights (length shards)) rx flush_rows shards
         process_order w1) (\<lambda>(results, w2).
     Inr (map (\<lambda>i. the (results i)) [0..<length shards], w2))))"

section \<open>Totals\<close>

definition expected_source_rows :: nat where "expected_source_rows = 5000000"

definition add_counts :: "(string \<times> nat) list \<Rightarrow> (string \<times> nat) list \<Rightarrow> (string \<times> nat) list" where
  "add_counts c d = foldl (\<lambda>c (k, n). bump k n c) c d"

record sft_totals =
  to_counts :: "(string \<times> nat) list"
  to_tokens :: "(string \<times> nat) list"
  to_domains :: "(string \<times> nat) list"
  to_train :: "(curated_example list list \<times> nat) list"
  to_validation :: "(curated_example list list \<times> nat) list"
  to_rejected :: "(rejected_row list list \<times> nat) list"

definition aggregate_results :: "shard_result list \<Rightarrow> sft_totals res" where
  "aggregate_results results =
     (let counts = foldl add_counts [] (map sr_counts results);
          tokens = foldl add_counts [] (map sr_tokens results);
          domains = foldl add_counts [] (map sr_domains results) in
      if decided_rows counts \<noteq> expected_source_rows then Inl (SFTPreparationError ''Global decision accounting'')
      else Inr \<lparr>to_counts = sorted_items counts, to_tokens = sorted_items tokens, to_domains = sorted_items domains,
             to_train = List.map_filter sr_train results, to_validation = List.map_filter sr_validation results,
             to_rejected = List.map_filter sr_rejected results\<rparr>)"

end
