(* ===== verification/ChatFacts.thy ===== *)
theory ChatFacts
  imports ChatFormat
begin

text \<open>
  What the chat format promises: which conversations are accepted, the rendering as one token list
  in which every token carries its message and its masks, the counters and spans over that list,
  and the texts a response parses back to.
\<close>

section \<open>Conversations\<close>

text \<open>A message the format accepts, and the roles of a conversation: system messages first, then
  user and assistant in turn.\<close>

definition plain_message :: "json \<Rightarrow> bool" where
  "plain_message m \<longleftrightarrow> is_jobj m \<and> is_jstr (jget m ''role'') \<and> is_jstr (jget m ''content'') \<and>
     jstr_of (jget m ''role'') \<in> {''system'', ''user'', ''assistant''} \<and> jstr_of (jget m ''content'') \<noteq> []"

definition message_pair :: "json \<Rightarrow> string \<times> string" where
  "message_pair m = (jstr_of (jget m ''role''), jstr_of (jget m ''content''))"

definition other_role :: "string \<Rightarrow> string" where
  "other_role role = (if role = ''user'' then ''assistant'' else ''user'')"

fun alternating :: "string \<Rightarrow> string list \<Rightarrow> bool" where
  "alternating role [] = True"
| "alternating role (x # xs) = (x = role \<and> alternating (other_role role) xs)"

definition conversation_roles :: "string list \<Rightarrow> bool" where
  "conversation_roles roles \<longleftrightarrow> (\<exists>n conv. roles = replicate n ''system'' @ conv \<and> conv \<noteq> [] \<and>
     alternating ''user'' conv)"

lemma role_openers_fst: "set (map fst role_openers) = {''system'', ''user'', ''assistant''}"
  by (auto simp: role_openers_def)

lemma message_step_iff:
  "message_step (acc, saw, role) m = Inr st \<longleftrightarrow> plain_message m \<and>
     (if fst (message_pair m) = ''system'' then \<not> saw \<and> st = (acc @ [message_pair m], saw, role)
      else fst (message_pair m) = role \<and> st = (acc @ [message_pair m], True, other_role role))"
  unfolding message_step_def prod.case Let_def role_openers_fst
  by (cases "jget m ''role''") (auto simp: plain_message_def message_pair_def other_role_def split: if_splits)

lemma alternating_no_system:
  "role \<noteq> ''system'' \<Longrightarrow> alternating role xs \<Longrightarrow> ''system'' \<notin> set xs"
  by (induction role xs rule: alternating.induct) (auto simp: other_role_def)

lemma conversation_fold_started:
  assumes "role \<noteq> ''system''"
  shows "foldM message_step (acc, True, role) ms = Inr (xs, saw, last_role) \<Longrightarrow>
     saw \<and> list_all plain_message ms \<and> xs = acc @ map message_pair ms \<and>
     alternating role (map (fst \<circ> message_pair) ms)"
  using assms
proof (induction ms arbitrary: acc role)
  case (Cons m ms)
  from Cons.prems(1) obtain st where st: "message_step (acc, True, role) m = Inr st"
    and rest: "foldM message_step st ms = Inr (xs, saw, last_role)" by (auto simp: rbind_eq_Inr)
  from st [unfolded message_step_iff] Cons.prems(2)
  have m: "plain_message m" "fst (message_pair m) = role" "st = (acc @ [message_pair m], True, other_role role)"
    by (auto split: if_splits)
  have "other_role role \<noteq> ''system''" by (simp add: other_role_def)
  from Cons.IH [OF rest [unfolded m(3)] this] m(1,2) show ?case by simp
qed simp

lemma conversation_fold_run:
  assumes "list_all plain_message ms" and "alternating role (map (fst \<circ> message_pair) ms)" and "role \<noteq> ''system''"
  shows "\<exists>last_role. foldM message_step (acc, True, role) ms = Inr (acc @ map message_pair ms, True, last_role)"
  using assms
proof (induction ms arbitrary: acc role)
  case (Cons m ms)
  then have s: "message_step (acc, True, role) m = Inr (acc @ [message_pair m], True, other_role role)"
    unfolding message_step_iff by auto
  have "other_role role \<noteq> ''system''" by (simp add: other_role_def)
  from Cons.IH [OF _ _ this, of "acc @ [message_pair m]"] Cons.prems show ?case by (simp add: s)
qed simp

lemma conversation_fold_iff:
  "(\<exists>last_role. foldM message_step (acc, False, ''user'') ms = Inr (xs, True, last_role)) \<longleftrightarrow>
     list_all plain_message ms \<and> xs = acc @ map message_pair ms \<and>
     conversation_roles (map (fst \<circ> message_pair) ms)"
proof (induction ms arbitrary: acc)
  case Nil
  show ?case by (simp add: conversation_roles_def)
next
  case (Cons m ms)
  let ?p = "message_pair m"
  consider "fst ?p = ''system''" | "fst ?p \<noteq> ''system''" by blast
  then show ?case
  proof cases
    case 1
    have roles: "conversation_roles (''system'' # rs) \<longleftrightarrow> conversation_roles rs" for rs
    proof
      assume "conversation_roles (''system'' # rs)"
      then obtain n conv where e: "''system'' # rs = replicate n ''system'' @ conv" "conv \<noteq> []" "alternating ''user'' conv"
        by (auto simp: conversation_roles_def)
      then have "rs = replicate (n - 1) ''system'' @ conv" by (cases n; cases conv) auto
      with e(2,3) show "conversation_roles rs" unfolding conversation_roles_def by blast
    next
      assume "conversation_roles rs"
      then obtain n conv where "rs = replicate n ''system'' @ conv" "conv \<noteq> []" "alternating ''user'' conv"
        by (auto simp: conversation_roles_def)
      then show "conversation_roles (''system'' # rs)"
        unfolding conversation_roles_def by (intro exI [of _ "Suc n"] exI [of _ conv]) simp
    qed
    have s: "message_step (acc, False, ''user'') m = Inr st \<longleftrightarrow>
        plain_message m \<and> st = (acc @ [?p], False, ''user'')" for st
      unfolding message_step_iff using 1 by simp
    have "(\<exists>last_role. foldM message_step (acc, False, ''user'') (m # ms) = Inr (xs, True, last_role)) \<longleftrightarrow>
        plain_message m \<and> (\<exists>last_role. foldM message_step (acc @ [?p], False, ''user'') ms = Inr (xs, True, last_role))"
      unfolding foldM.simps rbind_eq_Inr s by blast
    with 1 roles show ?thesis unfolding Cons.IH by (simp add: comp_def)
  next
    case 2
    have roles: "conversation_roles (fst ?p # rs) \<longleftrightarrow> fst ?p = ''user'' \<and> alternating ''assistant'' rs" for rs
    proof
      assume "conversation_roles (fst ?p # rs)"
      then obtain n conv where "fst ?p # rs = replicate n ''system'' @ conv" "conv \<noteq> []" "alternating ''user'' conv"
        by (auto simp: conversation_roles_def)
      with 2 show "fst ?p = ''user'' \<and> alternating ''assistant'' rs"
        by (cases n; cases conv) (auto simp: other_role_def)
    next
      assume "fst ?p = ''user'' \<and> alternating ''assistant'' rs"
      then show "conversation_roles (fst ?p # rs)"
        unfolding conversation_roles_def
        by (intro exI [of _ 0] exI [of _ "fst ?p # rs"]) (simp add: other_role_def)
    qed
    have cr: "conversation_roles (map (fst \<circ> message_pair) (m # ms)) \<longleftrightarrow>
        fst ?p = ''user'' \<and> alternating ''assistant'' (map (fst \<circ> message_pair) ms)"
      by (simp only: list.map comp_apply roles)
    have s: "message_step (acc, False, ''user'') m = Inr st \<longleftrightarrow>
        plain_message m \<and> fst ?p = ''user'' \<and> st = (acc @ [?p], True, ''assistant'')" for st
      unfolding message_step_iff using 2 by (auto simp: other_role_def)
    show ?thesis
    proof
      assume "\<exists>last_role. foldM message_step (acc, False, ''user'') (m # ms) = Inr (xs, True, last_role)"
      then obtain last_role where "plain_message m" "fst ?p = ''user''"
        "foldM message_step (acc @ [?p], True, ''assistant'') ms = Inr (xs, True, last_role)"
        unfolding foldM.simps rbind_eq_Inr s by blast
      with conversation_fold_started [OF _ this(3)] show "list_all plain_message (m # ms) \<and>
          xs = acc @ map message_pair (m # ms) \<and> conversation_roles (map (fst \<circ> message_pair) (m # ms))"
        unfolding cr by simp
    next
      assume a: "list_all plain_message (m # ms) \<and> xs = acc @ map message_pair (m # ms) \<and>
        conversation_roles (map (fst \<circ> message_pair) (m # ms))"
      then have "alternating ''assistant'' (map (fst \<circ> message_pair) ms)" "fst ?p = ''user''"
        unfolding cr by simp_all
      with a conversation_fold_run [of ms "''assistant''" "acc @ [?p]"]
      show "\<exists>last_role. foldM message_step (acc, False, ''user'') (m # ms) = Inr (xs, True, last_role)"
        unfolding foldM.simps rbind_eq_Inr s by auto
    qed
  qed
qed

theorem validate_messages_iff:
  "validate_messages messages = Inr xs \<longleftrightarrow> is_jlist messages \<and> list_all plain_message (jlist_of messages) \<and>
     xs = map message_pair (jlist_of messages) \<and>
     conversation_roles (map (fst \<circ> message_pair) (jlist_of messages))"
proof -
  let ?ms = "jlist_of messages"
  have "validate_messages messages = Inr xs \<longleftrightarrow> is_jlist messages \<and> ?ms \<noteq> [] \<and>
      (\<exists>last_role. foldM message_step ([], False, ''user'') ?ms = Inr (xs, True, last_role))"
    by (auto simp: validate_messages_def rbind_eq_Inr)
  also have "\<dots> \<longleftrightarrow> is_jlist messages \<and> ?ms \<noteq> [] \<and> list_all plain_message ?ms \<and>
      xs = map message_pair ?ms \<and> conversation_roles (map (fst \<circ> message_pair) ?ms)"
    unfolding conversation_fold_iff by simp
  also have "\<dots> \<longleftrightarrow> is_jlist messages \<and> list_all plain_message ?ms \<and>
      xs = map message_pair ?ms \<and> conversation_roles (map (fst \<circ> message_pair) ?ms)"
    by (auto simp: conversation_roles_def)
  finally show ?thesis .
qed

section \<open>Rendering as one token list\<close>

text \<open>A token with the message it belongs to (\<open>-1\<close> for scaffold between messages) and its two masks.\<close>

type_synonym chat_token = "nat \<times> int \<times> bool \<times> bool"

definition of_tokens :: "chat_token list \<Rightarrow> string list \<Rightarrow> rendered" where
  "of_tokens ts roles = \<lparr>rc_token_ids = map fst ts, rc_message_indices = map (\<lambda>t. fst (snd t)) ts,
     rc_sampled_mask = map (\<lambda>t. fst (snd (snd t))) ts, rc_is_content = map (\<lambda>t. snd (snd (snd t))) ts,
     rc_message_roles = roles, rc_message_tool_names = replicate (length roles) None\<rparr>"

definition tag :: "int \<Rightarrow> bool \<Rightarrow> bool \<Rightarrow> nat list \<Rightarrow> chat_token list" where
  "tag i sampled content ids = map (\<lambda>t. (t, i, sampled, content)) ids"

definition message_tokens :: "chat_format \<Rightarrow> nat \<Rightarrow> string \<Rightarrow> nat list \<Rightarrow> chat_token list" where
  "message_tokens f k role body =
     (if k \<noteq> 0 then tag (-1) False False (cf_separator_ids f) else []) @
     tag (int k) False False (opener_ids f role) @ tag (int k) (role = ''assistant'') True body @
     (if role = ''assistant'' then tag (int k) True True [chat_eos] else [])"

fun conversation_tokens :: "chat_format \<Rightarrow> nat \<Rightarrow> (string \<times> nat list) list \<Rightarrow> chat_token list" where
  "conversation_tokens f k [] = []"
| "conversation_tokens f k ((role, body) # ms) = message_tokens f k role body @ conversation_tokens f (Suc k) ms"

definition generation_tokens :: "chat_format \<Rightarrow> chat_token list" where
  "generation_tokens f = tag (-1) False False (cf_separator_ids f) @ tag (-1) False False (generation_prompt_ids f)"

lemma emit_of_tokens: "emit ids i s c (of_tokens ts []) = of_tokens (ts @ tag i s c ids) []"
  by (simp add: emit_def of_tokens_def tag_def o_def map_replicate_const)

lemma render_message_of_tokens:
  "render_message f (of_tokens ts []) (k, role, content) =
     rbind (encode_text (cf_tokenizer f) content) (\<lambda>body. Inr (of_tokens (ts @ message_tokens f k role body) []))"
  by (simp add: render_message_def Let_def emit_of_tokens message_tokens_def cong: rbind_cong)

definition encoded_bodies :: "chat_format \<Rightarrow> (string \<times> string) list \<Rightarrow> nat list list \<Rightarrow> bool" where
  "encoded_bodies f = list_all2 (\<lambda>m body. encode_text (cf_tokenizer f) (snd m) = Inr body)"

lemma encoded_bodies_Cons:
  "(\<exists>bodies. encoded_bodies f ((role, content) # xs) bodies \<and> P bodies) \<longleftrightarrow>
     (\<exists>body bodies. encode_text (cf_tokenizer f) content = Inr body \<and> encoded_bodies f xs bodies \<and>
        P (body # bodies))"
  by (auto simp: encoded_bodies_def list_all2_Cons1)

lemma render_messages_iff:
  "foldM (render_message f) (of_tokens ts []) (List.enumerate k xs) = Inr r \<longleftrightarrow>
     (\<exists>bodies. encoded_bodies f xs bodies \<and>
        r = of_tokens (ts @ conversation_tokens f k (zip (map fst xs) bodies)) [])"
proof (induction xs arbitrary: ts k r)
  case Nil
  then show ?case by (auto simp: encoded_bodies_def)
next
  case (Cons x xs)
  obtain role content where x: "x = (role, content)" by (cases x)
  have "foldM (render_message f) (of_tokens ts []) (List.enumerate k (x # xs)) = Inr r \<longleftrightarrow>
      (\<exists>body bodies. encode_text (cf_tokenizer f) content = Inr body \<and> encoded_bodies f xs bodies \<and>
         r = of_tokens (ts @ conversation_tokens f k (zip (map fst (x # xs)) (body # bodies))) [])"
    unfolding x enumerate_simps foldM.simps render_message_of_tokens rbind_eq_Inr by (auto simp: Cons.IH)
  also have "\<dots> \<longleftrightarrow> (\<exists>bodies. encoded_bodies f (x # xs) bodies \<and>
      r = of_tokens (ts @ conversation_tokens f k (zip (map fst (x # xs)) bodies)) [])"
    unfolding x by (rule encoded_bodies_Cons [symmetric])
  finally show ?case .
qed

theorem render_iff:
  "render f messages gen = Inr r \<longleftrightarrow> (\<exists>xs bodies. validate_messages messages = Inr xs \<and>
     (gen \<longrightarrow> fst (last xs) = ''user'') \<and> encoded_bodies f xs bodies \<and>
     r = of_tokens (conversation_tokens f 0 (zip (map fst xs) bodies) @ (if gen then generation_tokens f else []))
       (map fst xs))"
proof -
  have pull: "(\<exists>x. (\<exists>b. E b \<and> x = F b) \<and> P x) \<longleftrightarrow> (\<exists>b. E b \<and> P (F b))"
    for E F and P :: "rendered \<Rightarrow> bool" by blast
  have empty: "empty_rendered = of_tokens [] []" by (simp add: empty_rendered_def of_tokens_def)
  have roles: "n = length rs \<Longrightarrow>
      (of_tokens ts [])\<lparr>rc_message_roles := rs, rc_message_tool_names := replicate n None\<rparr> = of_tokens ts rs"
    for ts rs n by (simp add: of_tokens_def)
  have check: "check_rendered (of_tokens ts rs) = Inr (of_tokens ts rs)" for ts rs
    by (simp add: check_rendered_def of_tokens_def)
  show ?thesis
    unfolding render_def rbind_eq_Inr check_eq_Inr empty render_messages_iff Let_def pull
    by (cases gen)
      (auto simp: emit_of_tokens roles check generation_tokens_def generation_prompt_ids_def)
qed

section \<open>Attribution\<close>

definition owned_ids :: "chat_format \<Rightarrow> string \<Rightarrow> nat list \<Rightarrow> nat list" where
  "owned_ids f role body = opener_ids f role @ body @ (if role = ''assistant'' then [chat_eos] else [])"

definition sampled_ids :: "string \<Rightarrow> nat list \<Rightarrow> nat list" where
  "sampled_ids role body = (if role = ''assistant'' then body @ [chat_eos] else [])"

definition owned_tokens :: "chat_format \<Rightarrow> nat \<Rightarrow> string \<times> nat list \<Rightarrow> chat_token list" where
  "owned_tokens f k m = tag (int k) False False (opener_ids f (fst m)) @
     tag (int k) (fst m = ''assistant'') True (snd m) @
     (if fst m = ''assistant'' then tag (int k) True True [chat_eos] else [])"

definition token_message :: "chat_token \<Rightarrow> int" where "token_message t = fst (snd t)"
definition token_sampled :: "chat_token \<Rightarrow> bool" where "token_sampled t = fst (snd (snd t))"

lemma tag_fst: "map fst (tag i s c ids) = ids"
  by (simp add: tag_def o_def)

lemma tag_messages: "t \<in> set (tag i s c ids) \<Longrightarrow> token_message t = i \<and> token_sampled t = s"
  by (auto simp: tag_def token_message_def token_sampled_def)

lemma filter_tag_sampled: "filter token_sampled (tag i s c ids) = (if s then tag i s c ids else [])"
  by (simp add: tag_def token_sampled_def filter_map o_def)

lemma owned_tokens_fst: "map fst (owned_tokens f k m) = owned_ids f (fst m) (snd m)"
  by (simp add: owned_tokens_def owned_ids_def tag_fst)

lemma owned_tokens_messages: "t \<in> set (owned_tokens f k m) \<Longrightarrow> token_message t = int k"
  by (auto simp: owned_tokens_def dest: tag_messages split: if_splits)

lemma owned_tokens_sampled:
  "map fst (filter token_sampled (owned_tokens f k m)) = sampled_ids (fst m) (snd m)"
  by (simp add: owned_tokens_def sampled_ids_def filter_tag_sampled tag_fst)

lemma message_tokens_split:
  "message_tokens f k role body = (if k \<noteq> 0 then tag (-1) False False (cf_separator_ids f) else []) @
     owned_tokens f k (role, body)"
  by (simp add: message_tokens_def owned_tokens_def)

lemma conversation_tokens_append:
  "conversation_tokens f k (ms @ ns) = conversation_tokens f k ms @ conversation_tokens f (k + length ms) ns"
  by (induction f k ms rule: conversation_tokens.induct) simp_all

lemma conversation_tokens_messages:
  "t \<in> set (conversation_tokens f k ms) \<Longrightarrow>
     token_message t = -1 \<or> int k \<le> token_message t \<and> token_message t < int (k + length ms)"
proof (induction f k ms rule: conversation_tokens.induct)
  case (2 f k role body ms)
  then show ?case
    by (auto simp: message_tokens_split dest!: owned_tokens_messages tag_messages split: if_splits)
qed simp

text \<open>The tokens of message \<open>j\<close> are one block, and no other token belongs to it.\<close>

lemma conversation_block:
  assumes "j < length ms"
  obtains pre post where "conversation_tokens f 0 ms = pre @ owned_tokens f j (ms ! j) @ post"
    "\<forall>t\<in>set pre \<union> set post. token_message t \<noteq> int j"
proof -
  let ?sep = "if j \<noteq> 0 then tag (-1) False False (cf_separator_ids f) else []"
  obtain role body where m: "ms ! j = (role, body)" by (cases "ms ! j")
  have "ms = take j ms @ (role, body) # drop (Suc j) ms" using assms by (simp add: id_take_nth_drop flip: m)
  then have "conversation_tokens f 0 ms = conversation_tokens f 0 (take j ms @ (role, body) # drop (Suc j) ms)"
    by simp
  also have "\<dots> = (conversation_tokens f 0 (take j ms) @ ?sep) @ owned_tokens f j (ms ! j) @
      conversation_tokens f (Suc j) (drop (Suc j) ms)"
    using assms by (simp add: conversation_tokens_append message_tokens_split m min_def)
  finally have e: "conversation_tokens f 0 ms = (conversation_tokens f 0 (take j ms) @ ?sep) @
      owned_tokens f j (ms ! j) @ conversation_tokens f (Suc j) (drop (Suc j) ms)" .
  have "token_message t \<noteq> int j" if "t \<in> set (conversation_tokens f 0 (take j ms)) \<or> t \<in> set ?sep" for t
    using that conversation_tokens_messages [of t f 0 "take j ms"] by (auto dest: tag_messages split: if_splits)
  moreover have "token_message t \<noteq> int j" if "t \<in> set (conversation_tokens f (Suc j) (drop (Suc j) ms))" for t
    using conversation_tokens_messages [OF that] by auto
  ultimately show thesis by (intro that [OF e]) auto
qed

section \<open>Reserved token\<close>

lemma normalise_ids_no_eos: "normalise_ids e = Inr ids \<Longrightarrow> chat_eos \<notin> set ids"
  by (auto simp: normalise_ids_def res_simps)

lemma encode_text_no_eos: "encode_text tk text = Inr ids \<Longrightarrow> chat_eos \<notin> set ids"
  by (auto simp: encode_text_def rbind_eq_Inr normalise_ids_no_eos split: if_splits)

lemma new_chat_format_facts:
  assumes "new_chat_format tk = Inr f"
  shows "cf_tokenizer f = tk" "chat_eos \<notin> set (cf_separator_ids f)" "chat_eos \<notin> set (opener_ids f role)"
    "generation_prompt_ids f \<noteq> []"
proof -
  from assms obtain sep openers where s: "encode_text tk message_separator = Inr sep"
    and o: "mapM (\<lambda>(role, text). rbind (encode_text tk text) (\<lambda>ids. Inr (role, ids))) role_openers = Inr openers"
    and a: "map_of openers ''assistant'' \<noteq> Some []"
    and f: "f = \<lparr>cf_tokenizer = tk, cf_separator_ids = sep, cf_opener_ids = openers\<rparr>"
    unfolding new_chat_format_def rbind_eq_Inr check_eq_Inr by blast
  from o obtain i1 i2 i3 where op: "openers = [(''system'', i1), (''user'', i2), (''assistant'', i3)]"
    and ids: "\<forall>i\<in>{i1, i2, i3}. chat_eos \<notin> set i"
    by (auto simp: role_openers_def rbind_eq_Inr dest!: encode_text_no_eos)
  show "cf_tokenizer f = tk" by (simp add: f)
  show "chat_eos \<notin> set (cf_separator_ids f)" using encode_text_no_eos [OF s] by (simp add: f)
  show "chat_eos \<notin> set (opener_ids f role)" using ids by (simp add: opener_ids_def f op)
  show "generation_prompt_ids f \<noteq> []" using a by (simp add: generation_prompt_ids_def opener_ids_def f op)
qed

lemma eos_in_tag: "filter (\<lambda>t. fst t = chat_eos) (tag i s c ids) = []" if "chat_eos \<notin> set ids"
  using that by (auto simp: tag_def filter_empty_conv)

text \<open>Exactly one EOS per assistant message.\<close>

lemma conversation_eos:
  assumes f: "new_chat_format tk = Inr f" and "\<forall>m\<in>set ms. chat_eos \<notin> set (snd m)"
  shows "length (filter (\<lambda>t. fst t = chat_eos) (conversation_tokens f k ms))
       = length (filter (\<lambda>m. fst m = ''assistant'') ms)"
  using assms(2)
proof (induction ms arbitrary: k)
  case (Cons m ms)
  note ff = new_chat_format_facts(2,3) [OF f]
  have "length (filter (\<lambda>t. fst t = chat_eos) (owned_tokens f k m)) = (if fst m = ''assistant'' then 1 else 0)"
    using Cons.prems by (simp add: owned_tokens_def eos_in_tag ff) (simp add: tag_def)
  with Cons show ?case by (cases m) (simp add: message_tokens_split eos_in_tag ff)
qed simp

section \<open>Counters and spans\<close>

lemma length_count_fold: "length (foldl (count_token only) xs is) = length xs"
  by (induction "is" arbitrary: xs) (auto simp: count_token_def split: prod.splits)

lemma count_token_nth:
  "k < length xs \<Longrightarrow> count_token only xs (i, s) ! k = xs ! k + (if i = int k \<and> (only \<longrightarrow> s) then 1 else 0)"
  by (auto simp: count_token_def nth_list_update)

lemma count_fold:
  assumes "k < c"
  shows "foldl (count_token only) (replicate c 0) is ! k
    = length (filter (\<lambda>(i, s). i = int k \<and> (only \<longrightarrow> s)) is)"
proof (induction "is" rule: rev_induct)
  case (snoc x xs)
  obtain i s where x: "x = (i, s)" by (cases x)
  have "k < length (foldl (count_token only) (replicate c 0) xs)" by (simp add: length_count_fold assms)
  with snoc show ?case by (simp add: x count_token_nth)
qed (simp add: assms)

lemma tokens_per_message_count:
  assumes "k < length (rc_message_roles r)"
  shows "tokens_per_message None only r ! k = length (filter (\<lambda>(i, s). i = int k \<and> (only \<longrightarrow> s))
    (zip (rc_message_indices r) (rc_sampled_mask r)))"
    and "length (tokens_per_message None only r) = length (rc_message_roles r)"
  using count_fold [OF assms] by (simp_all add: tokens_per_message_def Let_def length_count_fold)

lemma span_step_lengths:
  "length (fst (foldl span_step (b, e) ois)) = length b \<and> length (snd (foldl span_step (b, e) ois)) = length e"
proof (induction ois arbitrary: b e)
  case (Cons x xs)
  obtain b' e' where s: "span_step (b, e) x = (b', e')" by (cases "span_step (b, e) x")
  then have "length b' = length b" "length e' = length e"
    by (auto simp: span_step_def split: prod.splits if_splits)
  with Cons show ?case by (simp add: s)
qed simp

lemma span_fold:
  assumes "k < n"
  shows "case foldl span_step (replicate n (-1), replicate n (-1)) (List.enumerate 0 is) of (b, e) \<Rightarrow>
     (if int k \<in> set is then \<exists>p q. b ! k = int p \<and> e ! k = int q \<and> p \<le> q \<and> q < length is \<and>
          is ! p = int k \<and> is ! q = int k \<and> (\<forall>j < length is. is ! j = int k \<longrightarrow> p \<le> j \<and> j \<le> q)
      else b ! k = -1 \<and> e ! k = -1)"
proof (induction "is" rule: rev_induct)
  case Nil
  with assms show ?case by simp
next
  case (snoc i xs)
  let ?fold = "foldl span_step (replicate n (-1), replicate n (-1)) (List.enumerate 0 xs)"
  obtain b e where f: "?fold = (b, e)" by (cases ?fold)
  have len: "length b = n" "length e = n"
    using span_step_lengths [of "replicate n (-1)" "replicate n (-1)" "List.enumerate 0 xs"] by (simp_all add: f)
  have step: "foldl span_step (replicate n (-1), replicate n (-1)) (List.enumerate 0 (xs @ [i]))
      = span_step (b, e) (length xs, i)" by (simp add: enumerate_append_eq f)
  show ?case
  proof (cases "i = int k")
    case i: True
    show ?thesis
    proof (cases "int k \<in> set xs")
      case True
      with snoc f obtain p q where "b ! k = int p" "e ! k = int q" "p \<le> q" "q < length xs" "xs ! p = int k"
        "\<forall>j < length xs. xs ! j = int k \<longrightarrow> p \<le> j \<and> j \<le> q" by auto
      with i assms len show ?thesis unfolding step
        by (auto simp: span_step_def nth_append less_Suc_eq intro!: exI [of _ p] exI [of _ "length xs"])
    next
      case False
      with snoc f have "b ! k = -1" by simp
      moreover have "xs ! j \<noteq> int k" if "j < length xs" for j using that False by (metis nth_mem)
      ultimately show ?thesis using i assms len unfolding step
        by (auto simp: span_step_def nth_append less_Suc_eq)
    qed
  next
    case False
    then have o: "fst (span_step (b, e) (length xs, i)) ! k = b ! k" "snd (span_step (b, e) (length xs, i)) ! k = e ! k"
      using assms by (auto simp: span_step_def nth_list_update split: if_splits)
    obtain b' e' where s: "span_step (b, e) (length xs, i) = (b', e')" by (cases "span_step (b, e) (length xs, i)")
    from o have be: "b' ! k = b ! k" "e' ! k = e ! k" by (simp_all add: s)
    show ?thesis
    proof (cases "int k \<in> set xs")
      case True
      with snoc f obtain p q where "b ! k = int p" "e ! k = int q" "p \<le> q" "q < length xs" "xs ! p = int k" "xs ! q = int k"
        "\<forall>j < length xs. xs ! j = int k \<longrightarrow> p \<le> j \<and> j \<le> q" by auto
      with False True show ?thesis unfolding step s
        by (auto simp: be nth_append less_Suc_eq intro!: exI [of _ p] exI [of _ q])
    next
      case no: False
      with snoc f have "b ! k = -1" "e ! k = -1" by simp_all
      with False no show ?thesis unfolding step s by (simp add: be)
    qed
  qed
qed

lemma message_token_spans_nth:
  assumes "k < length (rc_message_roles r)"
  shows "(int k \<notin> set (rc_message_indices r) \<and> message_token_spans r ! k = None) \<or>
     (\<exists>p q. message_token_spans r ! k = Some (p, Suc q) \<and> p \<le> q \<and> q < length (rc_message_indices r) \<and>
        rc_message_indices r ! p = int k \<and> rc_message_indices r ! q = int k \<and>
        (\<forall>j < length (rc_message_indices r). rc_message_indices r ! j = int k \<longrightarrow> p \<le> j \<and> j \<le> q))"
proof -
  let ?n = "length (rc_message_roles r)" and ?is = "rc_message_indices r"
  let ?fold = "foldl span_step (replicate ?n (-1), replicate ?n (-1)) (List.enumerate 0 ?is)"
  obtain b e where f: "?fold = (b, e)" by (cases ?fold)
  have len: "length b = ?n" "length e = ?n"
    using span_step_lengths [of "replicate ?n (-1)" "replicate ?n (-1)" "List.enumerate 0 ?is"] by (simp_all add: f)
  have s: "message_token_spans r ! k = (if b ! k = -1 then None else Some (nat (b ! k), nat (e ! k + 1)))"
    using assms len by (simp add: message_token_spans_def Let_def f)
  show ?thesis
  proof (cases "int k \<in> set ?is")
    case True
    with span_fold [OF assms, of ?is] f obtain p q where "b ! k = int p" "e ! k = int q" "p \<le> q" "q < length ?is"
      "?is ! p = int k" "?is ! q = int k" "\<forall>j < length ?is. ?is ! j = int k \<longrightarrow> p \<le> j \<and> j \<le> q" by auto
    then show ?thesis unfolding s by (auto intro!: disjI2 exI [of _ p] exI [of _ q])
  next
    case False
    with span_fold [OF assms, of ?is] f show ?thesis unfolding s by simp
  qed
qed

section \<open>Rendered conversations\<close>

lemma encoded_bodies_nth:
  assumes "encoded_bodies f xs bodies" and "k < length xs"
  shows "encode_text (cf_tokenizer f) (snd (xs ! k)) = Inr (bodies ! k)" "length bodies = length xs"
  using assms by (simp_all add: encoded_bodies_def list_all2_conv_all_nth)

lemma generation_tokens_messages: "t \<in> set (generation_tokens f) \<Longrightarrow> token_message t = -1"
  by (auto simp: generation_tokens_def dest: tag_messages)

lemma rendered_block:
  assumes r: "render f messages gen = Inr r" and v: "validate_messages messages = Inr xs" and k: "k < length xs"
  obtains body pre post where "encode_text (cf_tokenizer f) (snd (xs ! k)) = Inr body"
    "r = of_tokens (pre @ owned_tokens f k (fst (xs ! k), body) @ post) (map fst xs)"
    "\<forall>t\<in>set pre \<union> set post. token_message t \<noteq> int k"
proof -
  from r v obtain bodies where b: "encoded_bodies f xs bodies"
    and e: "r = of_tokens (conversation_tokens f 0 (zip (map fst xs) bodies) @
      (if gen then generation_tokens f else [])) (map fst xs)"
    unfolding render_iff by auto
  note n = encoded_bodies_nth [OF b k]
  obtain pre post where s: "conversation_tokens f 0 (zip (map fst xs) bodies)
      = pre @ owned_tokens f k (zip (map fst xs) bodies ! k) @ post"
    "\<forall>t\<in>set pre \<union> set post. token_message t \<noteq> int k"
    by (rule conversation_block [of k "zip (map fst xs) bodies"]) (use k n(2) in simp_all)
  have m: "zip (map fst xs) bodies ! k = (fst (xs ! k), bodies ! k)" using k n(2) by simp
  show thesis
  proof (rule that [OF n(1)])
    show "r = of_tokens (pre @ owned_tokens f k (fst (xs ! k), bodies ! k) @
        (post @ (if gen then generation_tokens f else []))) (map fst xs)"
      unfolding e s(1) m by simp
    show "\<forall>t\<in>set pre \<union> set (post @ (if gen then generation_tokens f else [])). token_message t \<noteq> int k"
      using s(2) by (auto dest: generation_tokens_messages)
  qed
qed

lemma of_tokens_zip:
  "zip (rc_token_ids (of_tokens ts rs)) (zip (rc_message_indices (of_tokens ts rs))
     (rc_sampled_mask (of_tokens ts rs))) = map (\<lambda>t. (fst t, token_message t, token_sampled t)) ts"
  by (simp add: of_tokens_def token_message_def token_sampled_def zip_map_map zip_same_conv_map)

lemma filter_block:
  assumes "\<forall>t\<in>set pre \<union> set post. token_message t \<noteq> int k"
  shows "filter (\<lambda>t. token_message t = int k) (pre @ owned_tokens f k m @ post) = owned_tokens f k m"
proof -
  have "filter (\<lambda>t. token_message t = int k) pre = []" "filter (\<lambda>t. token_message t = int k) post = []"
    using assms by (auto simp: filter_empty_conv)
  moreover have "filter (\<lambda>t. token_message t = int k) (owned_tokens f k m) = owned_tokens f k m"
    by (simp add: filter_id_conv owned_tokens_messages)
  ultimately show ?thesis by simp
qed

lemma block_sampled:
  assumes "\<forall>t\<in>set pre \<union> set post. token_message t \<noteq> int k"
    and r: "r = of_tokens (pre @ owned_tokens f k m @ post) rs"
  shows "map fst (filter (\<lambda>(t, i, s). i = int k \<and> s)
     (zip (rc_token_ids r) (zip (rc_message_indices r) (rc_sampled_mask r)))) = sampled_ids (fst m) (snd m)"
proof -
  let ?ts = "pre @ owned_tokens f k m @ post"
  have "filter (\<lambda>t. token_message t = int k \<and> token_sampled t) ?ts
      = filter token_sampled (filter (\<lambda>t. token_message t = int k) ?ts)" by (simp add: conj_commute)
  then show ?thesis
    unfolding r of_tokens_zip filter_map o_def prod.case map_map filter_block [OF assms(1)]
    using owned_tokens_sampled [of f k m] by (simp add: o_def)
qed

text \<open>The span of a block is the block.\<close>

lemma span_of_block:
  assumes o: "\<forall>t\<in>set pre \<union> set post. token_message t \<noteq> int k" and k: "k < length rs"
    and ne: "owned_tokens f k m \<noteq> []"
  shows "message_token_spans (of_tokens (pre @ owned_tokens f k m @ post) rs) ! k
       = Some (length pre, length pre + length (owned_tokens f k m))"
proof -
  let ?b = "owned_tokens f k m" and ?ts = "pre @ owned_tokens f k m @ post"
  let ?r = "of_tokens ?ts rs"
  have inds: "rc_message_indices ?r = map token_message ?ts" by (simp add: of_tokens_def token_message_def)
  have own: "token_message (?ts ! j) = int k \<longleftrightarrow> length pre \<le> j \<and> j < length pre + length ?b"
    if j: "j < length ?ts" for j
  proof -
    consider "j < length pre" | "length pre \<le> j \<and> j < length pre + length ?b" | "length pre + length ?b \<le> j" by linarith
    then show ?thesis
    proof cases
      case 1
      then have "?ts ! j \<in> set pre" by (simp add: nth_append)
      with o 1 show ?thesis by auto
    next
      case 2
      then have "?ts ! j = ?b ! (j - length pre)" by (simp add: nth_append less_diff_conv2)
      then have "?ts ! j \<in> set ?b" using 2 by (simp add: less_diff_conv2)
      with 2 owned_tokens_messages show ?thesis by auto
    next
      case 3
      then have "?ts ! j = post ! (j - length pre - length ?b)" by (auto simp: nth_append)
      then have "?ts ! j \<in> set post" using 3 j by (auto simp: less_diff_conv2)
      with o 3 show ?thesis by auto
    qed
  qed
  have pos: "0 < length ?b" using ne by simp
  have k': "k < length (rc_message_roles ?r)" using k by (simp add: of_tokens_def)
  have "int k \<in> set (rc_message_indices ?r)"
    unfolding inds using own [of "length pre"] pos by (metis (no_types, lifting) add_less_cancel_left
      append_assoc image_eqI le_add_same_cancel1 length_append less_add_same_cancel1 list.set_map nth_mem
      order_refl trans_less_add1)
  with message_token_spans_nth [OF k'] obtain p q where s: "message_token_spans ?r ! k = Some (p, Suc q)"
    and pq: "p \<le> q" "q < length ?ts" "token_message (?ts ! p) = int k" "token_message (?ts ! q) = int k"
      "\<forall>j < length ?ts. token_message (?ts ! j) = int k \<longrightarrow> p \<le> j \<and> j \<le> q"
    unfolding inds length_map by (auto simp del: map_append)
  have "length pre \<le> p" "q < length pre + length ?b" using own [of p] own [of q] pq by auto
  moreover have "p \<le> j \<and> j \<le> q" if "length pre \<le> j" "j < length pre + length ?b" for j
    using pq(5) own [of j] that by simp
  from this [of "length pre"] this [of "length pre + length ?b - 1"]
  have "p \<le> length pre" "length pre + length ?b - 1 \<le> q" using pos by linarith+
  ultimately have "p = length pre" "Suc q = length pre + length ?b" using pos by linarith+
  with s show ?thesis by simp
qed

section \<open>Prompts\<close>

lemma alternating_snoc:
  "alternating role (xs @ [y]) \<longleftrightarrow> alternating role xs \<and> y = (if xs = [] then role else other_role (last xs))"
  by (induction role xs rule: alternating.induct) auto

lemma conversation_roles_snoc:
  assumes "y \<noteq> ''system''"
  shows "conversation_roles (rs @ [y]) \<longleftrightarrow>
    (if list_all (\<lambda>r. r = ''system'') rs then y = ''user'' else conversation_roles rs \<and> y = other_role (last rs))"
proof
  assume "conversation_roles (rs @ [y])"
  then obtain n conv where e: "rs @ [y] = replicate n ''system'' @ conv" "conv \<noteq> []" "alternating ''user'' conv"
    by (auto simp: conversation_roles_def)
  then obtain c z where c: "conv = c @ [z]" by (metis append_butlast_last_id)
  with e(1) have r: "rs = replicate n ''system'' @ c" "z = y" by simp_all
  show "if list_all (\<lambda>r. r = ''system'') rs then y = ''user'' else conversation_roles rs \<and> y = other_role (last rs)"
  proof (cases "c = []")
    case True
    with e(3) show ?thesis by (simp add: c r list_all_iff)
  next
    case False
    with e(3) have a: "alternating ''user'' c" "y = other_role (last c)" by (simp_all add: c r alternating_snoc)
    have "hd c \<in> set rs" "hd c \<noteq> ''system''" using False a(1) by (cases c; simp add: r)+
    then have "\<not> list_all (\<lambda>r. r = ''system'') rs" by (auto simp: list_all_iff)
    moreover have "conversation_roles rs" using a(1) False r(1) unfolding conversation_roles_def by blast
    moreover have "last rs = last c" using False by (simp add: r(1))
    ultimately show ?thesis using a(2) by simp
  qed
next
  assume a: "if list_all (\<lambda>r. r = ''system'') rs then y = ''user'' else conversation_roles rs \<and> y = other_role (last rs)"
  show "conversation_roles (rs @ [y])"
  proof (cases "list_all (\<lambda>r. r = ''system'') rs")
    case True
    then have "rs = replicate (length rs) ''system''" by (simp add: list_all_iff replicate_length_same)
    with True a show ?thesis unfolding conversation_roles_def
      by (intro exI [of _ "length rs"] exI [of _ "[y]"]) simp
  next
    case False
    with a obtain n conv where e: "rs = replicate n ''system'' @ conv" "conv \<noteq> []" "alternating ''user'' conv"
      by (auto simp: conversation_roles_def)
    with a False show ?thesis unfolding conversation_roles_def
      by (intro exI [of _ n] exI [of _ "conv @ [y]"]) (simp add: alternating_snoc)
  qed
qed

lemma conversation_roles_facts:
  assumes "conversation_roles rs"
  shows "rs \<noteq> []" "\<not> list_all (\<lambda>r. r = ''system'') rs"
proof -
  from assms obtain n conv where e: "rs = replicate n ''system'' @ conv" "conv \<noteq> []" "alternating ''user'' conv"
    by (auto simp: conversation_roles_def)
  then have "hd conv = ''user''" by (cases conv) simp_all
  moreover have "hd conv \<in> set rs" using e(1,2) by simp
  ultimately have u: "''user'' \<in> set rs" by simp
  then show "rs \<noteq> []" by auto
  show "\<not> list_all (\<lambda>r. r = ''system'') rs"
  proof
    assume "list_all (\<lambda>r. r = ''system'') rs"
    from this [unfolded list_all_iff] u have "''user'' = ''system''" by (rule bspec)
    then show False by simp
  qed
qed

text \<open>An assistant message can follow exactly where a generation prompt can be asked for.\<close>

lemma validate_assistant_snoc:
  "validate_messages (JList (ms @ [chat_message ''assistant'' (JStr a)])) = Inr ys \<longleftrightarrow> a \<noteq> [] \<and>
     (\<exists>xs. validate_messages (JList ms) = Inr xs \<and> fst (last xs) = ''user'' \<and> ys = xs @ [(''assistant'', a)])"
proof -
  let ?m = "chat_message ''assistant'' (JStr a)"
  let ?rs = "map (fst \<circ> message_pair) ms"
  have m: "plain_message ?m \<longleftrightarrow> a \<noteq> []" "message_pair ?m = (''assistant'', a)"
    by (auto simp: plain_message_def message_pair_def chat_message_def jfield_def)
  have c: "conversation_roles (?rs @ [''assistant'']) \<longleftrightarrow> conversation_roles ?rs \<and> last ?rs = ''user''"
    using conversation_roles_facts [of ?rs] unfolding conversation_roles_snoc [of "''assistant''", simplified]
    by (auto simp: other_role_def)
  have l: "conversation_roles ?rs \<Longrightarrow> last ?rs = fst (last (map message_pair ms))"
    using conversation_roles_facts(1) [of ?rs] by (simp add: last_map)
  have "validate_messages (JList (ms @ [?m])) = Inr ys \<longleftrightarrow> list_all plain_message ms \<and> a \<noteq> [] \<and>
      ys = map message_pair ms @ [(''assistant'', a)] \<and> conversation_roles (?rs @ [''assistant''])"
    unfolding validate_messages_iff by (auto simp: m)
  also have "\<dots> \<longleftrightarrow> a \<noteq> [] \<and> (\<exists>xs. validate_messages (JList ms) = Inr xs \<and> fst (last xs) = ''user'' \<and>
      ys = xs @ [(''assistant'', a)])"
    unfolding validate_messages_iff c using l by auto
  finally show ?thesis .
qed

lemma render_ids_iff:
  "render_ids f messages gen = Inr t \<longleftrightarrow> (\<exists>xs bodies. validate_messages messages = Inr xs \<and>
     (gen \<longrightarrow> fst (last xs) = ''user'') \<and> encoded_bodies f xs bodies \<and>
     t = map fst (conversation_tokens f 0 (zip (map fst xs) bodies) @ (if gen then generation_tokens f else [])))"
proof -
  have ids: "rc_token_ids (of_tokens ts rs) = map fst ts" for ts rs by (simp add: of_tokens_def)
  show ?thesis unfolding render_ids_def rbind_eq_Inr render_iff by (simp add: ids) (metis ids map_append)
qed

lemma encoded_bodies_snoc:
  "encoded_bodies f (xs @ [(role, content)]) bodies \<longleftrightarrow> (\<exists>bs b. bodies = bs @ [b] \<and> encoded_bodies f xs bs \<and>
     encode_text (cf_tokenizer f) content = Inr b)"
  unfolding encoded_bodies_def list_all2_append1 list_all2_Cons1 by (auto simp: list_all2_lengthD)

lemma assistant_snoc_tokens:
  assumes "length bs = length xs" and "xs \<noteq> []"
  shows "map fst (conversation_tokens f 0 (zip (map fst (xs @ [(''assistant'', a)])) (bs @ [b])))
       = map fst (conversation_tokens f 0 (zip (map fst xs) bs) @ generation_tokens f) @ b @ [chat_eos]"
  using assms by (simp add: conversation_tokens_append message_tokens_def generation_tokens_def
      generation_prompt_ids_def tag_fst)

theorem assistant_turn_extends_prompt:
  assumes "new_chat_format tk = Inr f"
  shows "render_ids f (JList (ms @ [chat_message ''assistant'' (JStr a)])) False = Inr t \<longleftrightarrow> a \<noteq> [] \<and>
     (\<exists>p body. render_ids f (JList ms) True = Inr p \<and> encode_text tk a = Inr body \<and> t = p @ body @ [chat_eos])"
proof -
  note tk = new_chat_format_facts(1) [OF assms]
  have ne: "validate_messages (JList ms) = Inr xs \<Longrightarrow> xs \<noteq> []" for xs
    unfolding validate_messages_iff using conversation_roles_facts(1) by auto
  have len: "encoded_bodies f xs bs \<Longrightarrow> length bs = length xs" for xs bs
    by (simp add: encoded_bodies_def list_all2_lengthD)
  show ?thesis
  proof
    assume "render_ids f (JList (ms @ [chat_message ''assistant'' (JStr a)])) False = Inr t"
    then obtain xs bs b where v: "a \<noteq> []" "validate_messages (JList ms) = Inr xs" "fst (last xs) = ''user''"
      and e: "encoded_bodies f xs bs" "encode_text tk a = Inr b"
      and t: "t = map fst (conversation_tokens f 0 (zip (map fst (xs @ [(''assistant'', a)])) (bs @ [b])))"
      unfolding render_ids_iff validate_assistant_snoc by (auto simp: encoded_bodies_snoc tk)
    from v(2,3) e(1) have "render_ids f (JList ms) True
        = Inr (map fst (conversation_tokens f 0 (zip (map fst xs) bs) @ generation_tokens f))"
      unfolding render_ids_iff by auto
    with v(1) e(2) assistant_snoc_tokens [OF len [OF e(1)] ne [OF v(2)]] t
    show "a \<noteq> [] \<and> (\<exists>p body. render_ids f (JList ms) True = Inr p \<and> encode_text tk a = Inr body \<and>
        t = p @ body @ [chat_eos])" by auto
  next
    assume "a \<noteq> [] \<and> (\<exists>p body. render_ids f (JList ms) True = Inr p \<and> encode_text tk a = Inr body \<and>
        t = p @ body @ [chat_eos])"
    then obtain xs bs b where v: "a \<noteq> []" "validate_messages (JList ms) = Inr xs" "fst (last xs) = ''user''"
      and e: "encoded_bodies f xs bs" "encode_text tk a = Inr b"
      and t: "t = map fst (conversation_tokens f 0 (zip (map fst xs) bs) @ generation_tokens f) @ b @ [chat_eos]"
      unfolding render_ids_iff by auto
    have "validate_messages (JList (ms @ [chat_message ''assistant'' (JStr a)])) = Inr (xs @ [(''assistant'', a)])"
      unfolding validate_assistant_snoc using v by blast
    moreover have "encoded_bodies f (xs @ [(''assistant'', a)]) (bs @ [b])"
      unfolding encoded_bodies_snoc tk using e by blast
    moreover have "t = map fst (conversation_tokens f 0 (zip (map fst (xs @ [(''assistant'', a)])) (bs @ [b])))"
      unfolding t by (rule assistant_snoc_tokens [OF len [OF e(1)] ne [OF v(2)], symmetric])
    ultimately show "render_ids f (JList (ms @ [chat_message ''assistant'' (JStr a)])) False = Inr t"
      unfolding render_ids_iff if_False append_Nil2 by blast
  qed
qed

section \<open>Responses\<close>

text \<open>Documented behaviour of a lossless tokenizer: decoding what was encoded gives the text back.\<close>

definition lossless :: "tokenizer \<Rightarrow> bool" where
  "lossless tk \<longleftrightarrow> (\<forall>s ids. encode_text tk s = Inr ids \<longrightarrow> decode_ids tk ids = Inr s)"

lemma response_ids_stop:
  assumes "chat_eos \<notin> set ids"
  shows "response_ids (map (\<lambda>t. JInt (int t)) (ids @ [chat_eos]) @ vs) = Inr ids"
  using assms by (induction ids) auto

lemma parse_response_body:
  assumes "new_chat_format tk = Inr f" and "lossless tk" and "encode_text tk content = Inr body"
  shows "parse_response f (map (\<lambda>t. JInt (int t)) (body @ [chat_eos]) @ vs) = Inr content"
  using assms response_ids_stop [OF encode_text_no_eos [OF assms(3)], of vs]
  by (simp add: parse_response_def new_chat_format_facts(1) [OF assms(1)] lossless_def)

lemma rendered_eos:
  assumes "new_chat_format tk = Inr f" and "validate_messages messages = Inr xs"
    and "render f messages gen = Inr r"
  shows "length (filter (\<lambda>t. t = chat_eos) (rc_token_ids r)) = length (filter (\<lambda>m. fst m = ''assistant'') xs)"
proof -
  from assms(2,3) obtain bodies where b: "encoded_bodies f xs bodies"
    and r: "r = of_tokens (conversation_tokens f 0 (zip (map fst xs) bodies) @
      (if gen then generation_tokens f else [])) (map fst xs)" unfolding render_iff by auto
  let ?ms = "zip (map fst xs) bodies"
  have len: "length bodies = length xs" using b by (simp add: encoded_bodies_def list_all2_lengthD)
  have "chat_eos \<notin> set x" if "x \<in> set bodies" for x
    using that encoded_bodies_nth(1) [OF b] encode_text_no_eos by (metis in_set_conv_nth len)
  then have "\<forall>m\<in>set ?ms. chat_eos \<notin> set (snd m)" by (auto dest: set_zip_rightD)
  note c = conversation_eos [OF assms(1) this, of 0]
  note ff = new_chat_format_facts(2,3) [OF assms(1)]
  have g: "filter (\<lambda>t. fst t = chat_eos) (generation_tokens f) = []"
    by (simp add: generation_tokens_def generation_prompt_ids_def eos_in_tag ff)
  have "filter (\<lambda>t. t = chat_eos) (map fst ts) = map fst (filter (\<lambda>t. fst t = chat_eos) ts)" for ts :: "chat_token list"
    by (simp add: filter_map o_def)
  then have "length (filter (\<lambda>t. t = chat_eos) (rc_token_ids r))
      = length (filter (\<lambda>m. fst m = ''assistant'') ?ms)" using c g by (simp add: r of_tokens_def)
  also have "\<dots> = length (filter (\<lambda>r. r = ''assistant'') (map fst ?ms))" by (simp add: filter_map o_def)
  also have "map fst ?ms = map fst xs" using len by simp
  finally show ?thesis by (simp add: filter_map o_def)
qed

text \<open>A rendered training pair ends in its only EOS.\<close>

lemma training_pair_ids:
  assumes f: "new_chat_format tk = Inr f" and r: "render_ids f (training_messages prompt (JStr a)) False = Inr t"
  obtains p body where "render_ids f (JList [chat_message ''user'' prompt]) True = Inr p" "encode_text tk a = Inr body"
    "t = p @ body @ [chat_eos]" "chat_eos \<notin> set (p @ body)"
proof -
  have m: "training_messages prompt (JStr a)
      = JList ([chat_message ''user'' prompt] @ [chat_message ''assistant'' (JStr a)])"
    by (simp add: training_messages_def)
  from r [unfolded m assistant_turn_extends_prompt [OF f]] obtain p body where
    p: "render_ids f (JList [chat_message ''user'' prompt]) True = Inr p" "encode_text tk a = Inr body"
    and t: "t = p @ body @ [chat_eos]" by blast
  from r obtain rr where rr: "render f (training_messages prompt (JStr a)) False = Inr rr" "t = rc_token_ids rr"
    by (auto simp: render_ids_def rbind_eq_Inr)
  from rr(1) obtain xs where v: "validate_messages (training_messages prompt (JStr a)) = Inr xs"
    unfolding render_iff by blast
  from v have "xs = map message_pair [chat_message ''user'' prompt, chat_message ''assistant'' (JStr a)]"
    unfolding validate_messages_iff by (simp add: training_messages_def)
  then have "length (filter (\<lambda>m. fst m = ''assistant'') xs) = 1"
    by (simp add: message_pair_def chat_message_def jfield_def)
  with rendered_eos [OF f v rr(1)] have "length (filter (\<lambda>t. t = chat_eos) t) = 1" by (simp add: rr(2))
  then have "filter (\<lambda>t. t = chat_eos) (p @ body) = []" by (simp add: t)
  then have "chat_eos \<notin> set (p @ body)" by (simp add: filter_empty_conv) blast
  with p t show thesis by (rule that)
qed

end
