(* ===== verification/SftFacts.thy ===== *)
theory SftFacts
  imports SftPrepare ChatFacts
begin

text \<open>
  What the curation does: when a row is accepted, what a shard's files hold whatever the buffer
  sizes, that the order in which workers finish is irrelevant, and which prompt groups survive.
\<close>

section \<open>Decisions\<close>

lemma make_decision_Inr: "make_decision d = Inr d' \<longleftrightarrow> d' = d \<and> (de_example d = None) \<noteq> (de_reason d = None)"
  by (auto simp: make_decision_def)

lemma reject_Inr: "reject i r g t = Inr d \<longleftrightarrow>
    d = \<lparr>de_example = None, de_reason = Some r, de_id = i, de_group = g, de_tokens = t\<rparr>"
  by (auto simp: reject_def make_decision_Inr)

lemma decide_text_Inr:
  "decide_text policy row = Inr (prompt, completion) \<longleftrightarrow>
     jget row ''input'' = JStr prompt \<and> jget row ''output'' = JStr completion \<and>
     py_strip prompt \<noteq> [] \<and> py_strip completion \<noteq> [] \<and> CHR 0x00 \<notin> set prompt \<and> CHR 0x00 \<notin> set completion \<and>
     utf8_length prompt \<le> fp_max_prompt_bytes policy \<and> utf8_length completion \<le> fp_max_completion_bytes policy"
  by (cases "jget row ''input''"; cases "jget row ''output''")
    (auto simp: decide_text_def string_field_def split: if_splits)

lemma decide_labels_Inr:
  "decide_labels policy row = Inr (domain, algorithm, score) \<longleftrightarrow>
     jget row ''domain'' = JStr domain \<and> domain \<in> {''generic'', ''algorithmic''} \<and>
     jget row ''generation_algorithm'' = JStr algorithm \<and> algorithm \<in> {''self-instruct'', ''evol-instruct''} \<and>
     float_of (jget row ''average_test_score'') = Inr score \<and> 0 \<le> score \<and> score \<le> 1 \<and> fp_min_score policy \<le> score"
  by (cases "jget row ''domain''"; cases "jget row ''generation_algorithm''";
      cases "float_of (jget row ''average_test_score'')")
    (auto simp: decide_labels_def string_field_def Let_def)

definition accepted_content :: "row_context \<Rightarrow> string \<Rightarrow> string \<Rightarrow> string \<times> json list option \<Rightarrow> nat \<Rightarrow> bool" where
  "accepted_content rx prompt completion metadata tokens \<longleftrightarrow>
     prompt_group_id (rx_library rx) prompt \<notin> set (rx_contaminated_groups rx) \<and>
     (\<forall>reason. rx_contamination rx = Some reason \<longrightarrow>
        reason (contamination_text (rx_library rx) prompt completion (fst metadata) (snd metadata)) = None) \<and>
     (fp_reject_secrets (rx_filter rx) \<longrightarrow> high_confidence_secret_reason (prompt @ [char_LF] @ completion) = None) \<and>
     rendered_token_count (rx_renderer rx) prompt completion = Inr tokens \<and>
     2 \<le> tokens \<and> int tokens - 1 \<le> rx_max_sequence_length rx"

definition accepted_example ::
    "row_context \<Rightarrow> string \<Rightarrow> nat \<Rightarrow> string \<Rightarrow> string \<Rightarrow> string \<Rightarrow> string \<times> string \<times> rat \<Rightarrow> nat \<Rightarrow> curated_example" where
  "accepted_example rx path i ident prompt completion labels tokens =
     (let g = prompt_group_id (rx_library rx) prompt in
      \<lparr>ce_id = ident, ce_group = g, ce_split = split_for_group (rx_split rx) g,
       ce_messages = training_messages (JStr prompt) (JStr completion), ce_domain = fst labels,
       ce_algorithm = fst (snd labels), ce_score = snd (snd labels), ce_tokens = tokens, ce_shard = path,
       ce_row = i\<rparr>)"

lemma decide_content_accepts:
  "(\<exists>d. decide_content rx path i ident (prompt, completion) labels metadata = Inr d \<and> de_example d = Some e) \<longleftrightarrow>
     (\<exists>tokens. accepted_content rx prompt completion metadata tokens \<and>
        e = accepted_example rx path i ident prompt completion labels tokens)"
proof -
  obtain domain algorithm score where l: "labels = (domain, algorithm, score)" by (cases labels)
  obtain ut tv where m: "metadata = (ut, tv)" by (cases metadata)
  define n where "n = rendered_token_count (rx_renderer rx) prompt completion"
  define g where "g = prompt_group_id (rx_library rx) prompt"
  define b where "b = (case rx_contamination rx of None \<Rightarrow> None
     | Some reason \<Rightarrow> reason (contamination_text (rx_library rx) prompt completion ut tv))"
  define s where "s = (if fp_reject_secrets (rx_filter rx)
     then high_confidence_secret_reason (prompt @ [char_LF] @ completion) else None)"
  define ex where "ex = accepted_example rx path i ident prompt completion labels"
  have acc: "accepted_content rx prompt completion metadata tokens \<longleftrightarrow>
      g \<notin> set (rx_contaminated_groups rx) \<and> b = None \<and> s = None \<and> n = Inr tokens \<and> 2 \<le> tokens \<and>
      int tokens - 1 \<le> rx_max_sequence_length rx" for tokens
    by (simp add: accepted_content_def m b_def s_def g_def n_def split: option.split)
  have d: "decide_content rx path i ident (prompt, completion) labels metadata =
      (if g \<in> set (rx_contaminated_groups rx) then reject ident ''benchmark:group-propagated'' (Some g) None
       else case b of Some b \<Rightarrow> reject ident (''benchmark:'' @ b) (Some g) None | None \<Rightarrow>
       (case s of Some reason \<Rightarrow> reject ident reason (Some g) None | None \<Rightarrow>
       (case n of
           Inl (TypeError _) \<Rightarrow> reject ident ''quality:rendering'' (Some g) None
         | Inl (ValueError _) \<Rightarrow> reject ident ''quality:rendering'' (Some g) None
         | Inl (ChatFormatError _) \<Rightarrow> reject ident ''quality:rendering'' (Some g) None
         | Inl e \<Rightarrow> Inl e
         | Inr tokens \<Rightarrow>
             if rx_max_sequence_length rx < int tokens - 1
             then reject ident ''length:over-context'' (Some g) (Some tokens)
             else if tokens < 2 then reject ident ''length:no-target'' (Some g) (Some tokens)
             else make_decision \<lparr>de_example = Some (ex tokens), de_reason = None, de_id = ident,
               de_group = Some g, de_tokens = Some tokens\<rparr>)))"
    unfolding decide_content_def l m Let_def prod.case g_def b_def s_def n_def ex_def accepted_example_def
      fst_conv snd_conv by (rule refl)
  have "(\<exists>d. decide_content rx path i ident (prompt, completion) labels metadata = Inr d \<and> de_example d = Some e) \<longleftrightarrow>
      (\<exists>tokens. (g \<notin> set (rx_contaminated_groups rx) \<and> b = None \<and> s = None \<and> n = Inr tokens \<and> 2 \<le> tokens \<and>
      int tokens - 1 \<le> rx_max_sequence_length rx) \<and> e = ex tokens)"
  proof (cases "g \<in> set (rx_contaminated_groups rx) \<or> b \<noteq> None \<or> s \<noteq> None")
    case True
    then show ?thesis unfolding d by (auto simp: reject_Inr split: option.splits)
  next
    case False
    then have f: "g \<notin> set (rx_contaminated_groups rx)" "b = None" "s = None" by simp_all
    show ?thesis
    proof (cases n)
      case (Inl x)
      with f show ?thesis unfolding d by (cases x) (simp_all add: reject_Inr)
    next
      case (Inr tokens)
      with f show ?thesis unfolding d by (auto simp: reject_Inr make_decision_Inr)
    qed
  qed
  then show ?thesis unfolding acc ex_def .
qed

theorem decide_row_accepts:
  "(\<exists>d. decide_row rx path i row = Inr d \<and> de_example d = Some e) \<longleftrightarrow>
     (\<exists>ident prompt completion labels metadata tokens. jget row ''id'' = JStr ident \<and> is_hex_id ident \<and>
        decide_text (rx_filter rx) row = Inr (prompt, completion) \<and> decide_labels (rx_filter rx) row = Inr labels \<and>
        decide_metadata (rx_library rx) (rx_filter rx) (rx_contamination rx \<noteq> None) row = Inr metadata \<and>
        accepted_content rx prompt completion metadata tokens \<and>
        e = accepted_example rx path i ident prompt completion labels tokens)"
proof -
  let ?id = "case string_field row ''id'' of Some s \<Rightarrow> s | None \<Rightarrow> []"
  have hex: "is_hex_id ?id \<longleftrightarrow> (\<exists>ident. jget row ''id'' = JStr ident \<and> is_hex_id ident)"
    by (cases "jget row ''id''") (simp_all add: string_field_def is_hex_id_def)
  have id: "jget row ''id'' = JStr s \<Longrightarrow> ?id = s" for s by (simp add: string_field_def)
  show ?thesis
  proof (cases "is_hex_id ?id")
    case False
    with hex show ?thesis by (auto simp: decide_row_def Let_def reject_Inr)
  next
    case True
    then obtain ident where i: "jget row ''id'' = JStr ident" "is_hex_id ident" using hex by blast
    have d: "decide_row rx path i row = (case decide_text (rx_filter rx) row of
        Inl reason \<Rightarrow> reject ident reason None None
      | Inr texts \<Rightarrow> (case decide_labels (rx_filter rx) row of Inl reason \<Rightarrow> reject ident reason None None
        | Inr labels \<Rightarrow> (case decide_metadata (rx_library rx) (rx_filter rx) (rx_contamination rx \<noteq> None) row of
            Inl reason \<Rightarrow> reject ident reason None None
          | Inr metadata \<Rightarrow> decide_content rx path i ident texts labels metadata)))"
      unfolding decide_row_def Let_def id [OF i(1)] by (simp only: i(2) not_True_eq_False if_False)
    show ?thesis
    proof (cases "decide_text (rx_filter rx) row")
      case (Inl r)
      then show ?thesis unfolding d by (auto simp: reject_Inr)
    next
      case t: (Inr texts)
      obtain prompt completion where tx: "texts = (prompt, completion)" by (cases texts)
      show ?thesis
      proof (cases "decide_labels (rx_filter rx) row")
        case (Inl r)
        then show ?thesis unfolding d t by (auto simp: reject_Inr)
      next
        case l: (Inr labels)
        show ?thesis
        proof (cases "decide_metadata (rx_library rx) (rx_filter rx) (rx_contamination rx \<noteq> None) row")
          case (Inl r)
          then show ?thesis unfolding d t l by (auto simp: reject_Inr)
        next
          case m: (Inr metadata)
          show ?thesis unfolding d t l m sum.case tx decide_content_accepts using i by auto
        qed
      qed
    qed
  qed
qed

text \<open>What an accepted row has, in the terms of its columns.\<close>

lemma accepted_row_fields:
  assumes "decide_row rx path i row = Inr d" and "de_example d = Some e"
  obtains prompt completion tokens where "jget row ''input'' = JStr prompt" "jget row ''output'' = JStr completion"
    "ce_group e = prompt_group_id (rx_library rx) prompt" "ce_group e \<notin> set (rx_contaminated_groups rx)"
    "ce_split e = split_for_group (rx_split rx) (ce_group e)"
    "ce_messages e = training_messages (JStr prompt) (JStr completion)"
    "rendered_token_count (rx_renderer rx) prompt completion = Inr (ce_tokens e)"
    "2 \<le> ce_tokens e" "int (ce_tokens e) - 1 \<le> rx_max_sequence_length rx" "ce_shard e = path" "ce_row e = i"
    "py_strip prompt \<noteq> []"
proof -
  from assms decide_row_accepts [of rx path i row e] obtain ident prompt completion labels metadata tokens where
    "decide_text (rx_filter rx) row = Inr (prompt, completion)"
    "accepted_content rx prompt completion metadata tokens"
    "e = accepted_example rx path i ident prompt completion labels tokens" by blast
  then show thesis
    by (intro that [of prompt completion])
      (simp_all add: decide_text_Inr accepted_content_def accepted_example_def Let_def)
qed

lemma decision_total:
  assumes "decide_row rx path i row = Inr d"
  shows "(de_example d = None) \<noteq> (de_reason d = None)"
proof -
  have "make_decision x = Inr d \<Longrightarrow> (de_example d = None) \<noteq> (de_reason d = None)" for x
    by (auto simp: make_decision_Inr)
  with assms show ?thesis
    by (auto simp: decide_row_def decide_content_def Let_def reject_def
        split: if_splits sum.splits prod.splits option.splits exn.splits)
qed

lemma accepted_split: "split_for_group policy g \<in> {''train'', ''validation''}"
  by (simp add: split_for_group_def Let_def)

section \<open>Sinks\<close>

definition sink_ok :: "'a sink \<Rightarrow> bool" where
  "sink_ok s \<longleftrightarrow> sk_count s = length (concat (sk_written s)) \<and> [] \<notin> set (sk_written s)"

definition sink_contents :: "'a sink \<Rightarrow> 'a list" where
  "sink_contents s = concat (sk_written s) @ sk_rows s"

lemma new_sink_ok [simp]: "sink_ok new_sink" "sink_contents new_sink = []"
  by (simp_all add: new_sink_def sink_ok_def sink_contents_def)

lemma sink_flush_ok: "sink_ok s \<Longrightarrow> sink_ok (sink_flush s) \<and> sink_contents (sink_flush s) = sink_contents s \<and>
    sk_rows (sink_flush s) = []"
  by (auto simp: sink_flush_def sink_ok_def sink_contents_def)

lemma sink_append_ok:
  assumes "sink_ok s"
  shows "sink_ok (sink_append n row s) \<and> sink_contents (sink_append n row s) = sink_contents s @ [row]"
proof -
  let ?s = "s\<lparr>sk_rows := sk_rows s @ [row]\<rparr>"
  have "sink_ok ?s" "sink_contents ?s = sink_contents s @ [row]"
    using assms by (simp_all add: sink_ok_def sink_contents_def)
  then show ?thesis using sink_flush_ok [of ?s] by (simp add: sink_append_def Let_def)
qed

definition file_rows :: "('a list list \<times> nat) option \<Rightarrow> 'a list" where
  "file_rows f = (case f of None \<Rightarrow> [] | Some (groups, n) \<Rightarrow> concat groups)"

text \<open>No file exactly when there is no row; otherwise the recorded count is the file's.\<close>

definition file_ok :: "('a list list \<times> nat) option \<Rightarrow> bool" where
  "file_ok f = (case f of None \<Rightarrow> True | Some (groups, n) \<Rightarrow> n = length (concat groups) \<and> 0 < n \<and> [] \<notin> set groups)"

lemma sink_finish_rows:
  assumes "sink_ok s"
  shows "file_rows (sink_finish s) = sink_contents s" "file_ok (sink_finish s)"
    "(sink_finish s = None) = (sink_contents s = [])"
proof -
  let ?f = "sink_flush s"
  from sink_flush_ok [OF assms] have f: "sink_contents s = concat (sk_written ?f)"
    "sk_count ?f = length (concat (sk_written ?f))" "[] \<notin> set (sk_written ?f)"
    by (auto simp: sink_contents_def sink_ok_def)
  then show "file_rows (sink_finish s) = sink_contents s" "file_ok (sink_finish s)"
    "(sink_finish s = None) = (sink_contents s = [])"
    by (auto simp: sink_finish_def Let_def file_rows_def file_ok_def simp del: length_concat)
qed

section \<open>Counters\<close>

lemma counted_bump: "counted (bump k n c) j = counted c j + (if j = k then n else 0)"
  by (induction k n c rule: bump.induct) (auto simp: counted_def)

lemma sum_bump: "sum_list (map snd (bump k n c)) = sum_list (map snd c) + n"
  by (induction k n c rule: bump.induct) auto

lemma sum_filter_bump:
  "sum_list (map snd (filter (\<lambda>(k, n). P k) (bump j n c)))
     = sum_list (map snd (filter (\<lambda>(k, n). P k) c)) + (if P j then n else 0)"
  by (induction j n c rule: bump.induct) auto

lemma rejected_key_iff: "rejected_key (''rejected:'' @ r)" "\<not> rejected_key ''train''" "\<not> rejected_key ''validation''"
  by (simp_all add: rejected_key_def)

lemma decided_bump:
  "decided_rows (bump ''train'' (Suc 0) c) = Suc (decided_rows c)"
  "decided_rows (bump ''validation'' (Suc 0) c) = Suc (decided_rows c)"
  "decided_rows (bump (''rejected:'' @ r) (Suc 0) c) = Suc (decided_rows c)"
  by (simp_all add: decided_rows_def counted_bump sum_filter_bump rejected_key_iff)
    (simp_all add: rejected_key_def)

section \<open>The projection of a shard\<close>

definition reject_row :: "string \<Rightarrow> nat \<Rightarrow> sft_decision \<Rightarrow> rejected_row" where
  "reject_row path i d = \<lparr>rj_id = de_id d, rj_group = de_group d, rj_reason = the (de_reason d),
     rj_tokens = de_tokens d, rj_shard = path, rj_row = i\<rparr>"

definition accepted_in :: "string \<Rightarrow> sft_decision list \<Rightarrow> curated_example list" where
  "accepted_in split ds = filter (\<lambda>e. ce_split e = split) (List.map_filter de_example ds)"

definition rejected_in :: "string \<Rightarrow> nat \<Rightarrow> sft_decision list \<Rightarrow> rejected_row list" where
  "rejected_in path k ds = map (\<lambda>(i, d). reject_row path i d) (filter (\<lambda>(i, d). de_example d = None) (List.enumerate k ds))"

definition row_decisions :: "row_context \<Rightarrow> string \<Rightarrow> nat \<Rightarrow> json list \<Rightarrow> sft_decision list res" where
  "row_decisions rx path k rows = mapM (\<lambda>(i, row). decide_row rx path i row) (List.enumerate k rows)"

lemma row_decisions_simps [simp]:
  "row_decisions rx path k [] = Inr []"
  "row_decisions rx path k (row # rows) = rbind (decide_row rx path k row) (\<lambda>d.
     rbind (row_decisions rx path (Suc k) rows) (\<lambda>ds. Inr (d # ds)))"
  by (simp_all add: row_decisions_def)

definition process_ok :: "process_state \<Rightarrow> bool" where
  "process_ok s \<longleftrightarrow> sink_ok (ps_train s) \<and> sink_ok (ps_validation s) \<and> sink_ok (ps_rejected s) \<and>
     decided_rows (ps_counts s) = ps_source_row s"

definition processed :: "string \<Rightarrow> process_state \<Rightarrow> sft_decision list \<Rightarrow> process_state \<Rightarrow> bool" where
  "processed path s ds s' \<longleftrightarrow>
     sink_contents (ps_train s') = sink_contents (ps_train s) @ accepted_in ''train'' ds \<and>
     sink_contents (ps_validation s') = sink_contents (ps_validation s) @ accepted_in ''validation'' ds \<and>
     sink_contents (ps_rejected s') = sink_contents (ps_rejected s) @ rejected_in path (ps_source_row s) ds \<and>
     ps_source_row s' = ps_source_row s + length ds"

lemma process_row_step:
  assumes ok: "process_ok s" and d: "decide_row rx path (ps_source_row s) row = Inr d"
  shows "\<exists>s'. process_row rx n path s row = Inr s' \<and> process_ok s' \<and> processed path s [d] s'"
proof (cases "de_example d")
  case (Some e)
  obtain prompt where "ce_split e = split_for_group (rx_split rx) (ce_group e)"
    by (rule accepted_row_fields [OF d Some])
  with accepted_split [of "rx_split rx" "ce_group e"] consider "ce_split e = ''train''" | "ce_split e = ''validation''"
    by auto
  then show ?thesis
    using ok sink_append_ok [of "ps_train s" n e] sink_append_ok [of "ps_validation s" n e]
    by cases (simp_all add: process_row_def d Some Let_def process_ok_def processed_def decided_bump accepted_in_def
        rejected_in_def map_filter_simps)
next
  case None
  with decision_total [OF d] obtain reason where r: "de_reason d = Some reason" by auto
  show ?thesis
    using ok sink_append_ok [of "ps_rejected s" n "reject_row path (ps_source_row s) d"]
    by (simp add: process_row_def d None r process_ok_def processed_def decided_bump(3) [simplified] accepted_in_def rejected_in_def
        map_filter_simps reject_row_def)
qed

lemma rejected_in_append:
  "rejected_in path k (xs @ ys) = rejected_in path k xs @ rejected_in path (k + length xs) ys"
  by (simp add: rejected_in_def enumerate_append_eq)

lemma accepted_in_append: "accepted_in split (xs @ ys) = accepted_in split xs @ accepted_in split ys"
  by (simp add: accepted_in_def map_filter_def)

lemma processed_trans:
  "processed path s xs t \<Longrightarrow> processed path t ys u \<Longrightarrow> processed path s (xs @ ys) u"
  by (simp add: processed_def accepted_in_append rejected_in_append)

lemma process_rows:
  assumes "process_ok s"
  shows "case row_decisions rx path (ps_source_row s) rows of
       Inl e \<Rightarrow> foldM (process_row rx n path) s rows = Inl e
     | Inr ds \<Rightarrow> \<exists>s'. foldM (process_row rx n path) s rows = Inr s' \<and> process_ok s' \<and> processed path s ds s'"
  using assms
proof (induction rows arbitrary: s)
  case Nil
  then show ?case by (simp add: processed_def accepted_in_def rejected_in_def map_filter_def)
next
  case (Cons row rows)
  show ?case
  proof (cases "decide_row rx path (ps_source_row s) row")
    case (Inl e)
    then show ?thesis by (simp add: process_row_def)
  next
    case (Inr d)
    from process_row_step [OF Cons.prems this] obtain t where t: "process_row rx n path s row = Inr t"
      "process_ok t" "processed path s [d] t" by blast
    from t(3) have k: "ps_source_row t = Suc (ps_source_row s)" by (simp add: processed_def)
    from Cons.IH [OF t(2)] show ?thesis
      using processed_trans [OF t(3)] by (auto simp: Inr t(1) k split: sum.splits)
  qed
qed

lemma jget_read_columns [simp]: "k \<in> set columns \<Longrightarrow> jget (read_columns columns row) k = jget row k"
  by (simp add: read_columns_def jfield_def map_of_map_restrict restrict_map_def)

text \<open>The rows the second pass decides on.\<close>

definition decided_from :: "source_shard \<Rightarrow> json list" where
  "decided_from shard = map (read_columns decision_columns) (ss_rows shard)"

lemma length_decided_from [simp]: "length (decided_from shard) = length (ss_rows shard)"
  by (simp add: decided_from_def)

text \<open>The files of a shard, and its failure, are those of its decisions; the accounting check never
  fires.\<close>

theorem process_shard_rows:
  "case row_decisions rx (ss_path shard) 0 (decided_from shard) of
     Inl e \<Rightarrow> process_shard rx n shard = Inl e
   | Inr ds \<Rightarrow>
       (if length (ss_rows shard) \<noteq> ss_expected_rows shard
        then process_shard rx n shard = Inl (SFTPreparationError ''Processed row count mismatch'')
        else \<exists>r. process_shard rx n shard = Inr r \<and>
          file_rows (sr_train r) = accepted_in ''train'' ds \<and> file_ok (sr_train r) \<and>
          file_rows (sr_validation r) = accepted_in ''validation'' ds \<and> file_ok (sr_validation r) \<and>
          file_rows (sr_rejected r) = rejected_in (ss_path shard) 0 ds \<and> file_ok (sr_rejected r))"
proof -
  have e: "process_ok empty_process_state" "ps_source_row empty_process_state = 0"
    "sink_contents (ps_train empty_process_state) = []" "sink_contents (ps_validation empty_process_state) = []"
    "sink_contents (ps_rejected empty_process_state) = []"
    by (simp_all add: process_ok_def empty_process_state_def decided_rows_def counted_def)
  note p = process_rows [OF e(1), unfolded e(2), where rx = rx and path = "ss_path shard" and rows = "decided_from shard" and n = n]
  show ?thesis
  proof (cases "row_decisions rx (ss_path shard) 0 (decided_from shard)")
    case (Inl x)
    with p show ?thesis by (simp add: process_shard_def decided_from_def)
  next
    case (Inr ds)
    with p obtain s where s: "foldM (process_row rx n (ss_path shard)) empty_process_state (decided_from shard) = Inr s"
      "process_ok s" "processed (ss_path shard) empty_process_state ds s" by auto
    from Inr have "length ds = length (decided_from shard)"
      by (auto simp: row_decisions_def mapM_eq_Inr dest: list_all2_lengthD)
    with s(3) have c: "ps_source_row s = length (ss_rows shard)" "sink_contents (ps_train s) = accepted_in ''train'' ds"
      "sink_contents (ps_validation s) = accepted_in ''validation'' ds"
      "sink_contents (ps_rejected s) = rejected_in (ss_path shard) 0 ds"
      by (simp_all add: processed_def e)
    from s(2) have ok: "sink_ok (ps_train s)" "sink_ok (ps_validation s)" "sink_ok (ps_rejected s)"
      "decided_rows (ps_counts s) = ps_source_row s" by (simp_all add: process_ok_def)
    show ?thesis
      using sink_finish_rows(1,2) [OF ok(1)] sink_finish_rows(1,2) [OF ok(2)] sink_finish_rows(1,2) [OF ok(3)] c ok(4)
      by (simp add: Inr process_shard_def decided_from_def [symmetric] s(1))
  qed
qed

section \<open>Workers in any order\<close>

text \<open>A worker whose result does not depend on the directory, and which adds its sidecar to it. What holds
  of the cached results and of what the workers compute holds of all that is collected.\<close>

locale sidecar_worker =
  fixes worker :: "nat \<Rightarrow> work_dir \<Rightarrow> ('r \<times> work_dir) res" and result :: "nat \<Rightarrow> 'r res"
    and add_sidecar :: "nat \<Rightarrow> 'r \<Rightarrow> work_dir \<Rightarrow> work_dir"
  assumes worker: "worker i w = rbind (result i) (\<lambda>r. Inr (r, add_sidecar i r w))"
begin

lemma collect_Nil: "collect worker cached [] w = Inr (cached, w)"
  by (simp add: collect_def)

lemma collect_Cons:
  "collect worker cached (i # is) w =
     rbind (result i) (\<lambda>r. collect worker (cached(i := Some r)) is (add_sidecar i r w))"
  by (cases "result i") (simp_all add: collect_def worker)

lemma collect_Inr:
  assumes "collect worker cached is w = Inr (m, w')" and "\<And>i r. cached i = Some r \<Longrightarrow> good i r"
    and "\<And>i r. result i = Inr r \<Longrightarrow> good i r"
  shows "(\<forall>i r. m i = Some r \<longrightarrow> good i r) \<and> (\<forall>i. m i = None \<longleftrightarrow> cached i = None \<and> i \<notin> set is)"
  using assms(1,2)
proof (induction "is" arbitrary: cached w)
  case Nil
  then show ?case by (simp add: collect_Nil)
next
  case (Cons i js)
  from Cons.prems(1) obtain r where r: "result i = Inr r"
    "collect worker (cached(i := Some r)) js (add_sidecar i r w) = Inr (m, w')"
    by (auto simp: collect_Cons rbind_eq_Inr)
  have "good k x" if "(cached(i := Some r)) k = Some x" for k x
    using that Cons.prems(2) assms(3) [OF r(1)] by (auto split: if_splits)
  from Cons.IH [OF r(2) this] show ?case by (auto split: if_splits)
qed

lemma collect_keeps:
  assumes "collect worker cached is w = Inr (m, w')" and "keep w"
    and "\<And>i r w. result i = Inr r \<Longrightarrow> keep w \<Longrightarrow> keep (add_sidecar i r w)"
  shows "keep w'"
  using assms(1,2)
proof (induction "is" arbitrary: cached w)
  case Nil
  then show ?case by (simp add: collect_Nil)
next
  case (Cons i js)
  then show ?case using assms(3) by (auto simp: collect_Cons rbind_eq_Inr)
qed

lemma collect_succeeds: "(\<exists>x. collect worker cached is w = Inr x) \<longleftrightarrow> (\<forall>i\<in>set is. \<exists>r. result i = Inr r)"
proof (induction "is" arbitrary: cached w)
  case Nil
  then show ?case by (simp add: collect_Nil)
next
  case (Cons i js)
  then show ?case by (cases "result i") (simp_all add: collect_Cons)
qed

end

interpretation scan: sidecar_worker "scan_worker identity lib reason shards"
    "\<lambda>i. scan_contamination_shard lib reason (shards ! i)"
    "\<lambda>i p w. w\<lparr>wd_preflights := (wd_preflights w)(i := Some \<lparr>pc_intact = True, pc_identity = identity,
       pc_index = i, pc_source = source_of (shards ! i), pc_result = p\<rparr>)\<rparr>" for identity lib reason shards
  by unfold_locales (simp add: scan_worker_def)

text \<open>The context of the second pass.\<close>

definition second_pass :: "row_context \<Rightarrow> string list \<Rightarrow> row_context" where
  "second_pass rx groups = rx\<lparr>rx_contamination := None, rx_contaminated_groups := groups\<rparr>"

interpretation project: sidecar_worker "process_worker identity authority rx n shards"
    "\<lambda>i. process_shard (second_pass rx (au_groups authority)) n (shards ! i)"
    "\<lambda>i r w. w\<lparr>wd_results := (wd_results w)(i := Some \<lparr>rc_intact = True, rc_identity = identity,
       rc_authority = authority, rc_index = i, rc_source = source_of (shards ! i), rc_result = r\<rparr>)\<rparr>"
    for identity authority rx n shards
  by unfold_locales (simp add: process_worker_def second_pass_def)

section \<open>The contamination scan\<close>

definition scan_hit :: "text_library \<Rightarrow> (string \<Rightarrow> string option) \<Rightarrow> json \<Rightarrow> bool" where
  "scan_hit lib reason row \<longleftrightarrow> reason (content_for_benchmark_scan lib (jget row ''input'') (jget row ''output'')
     (jget row ''unit_tests'')) \<noteq> None"

lemma scan_rows:
  "case foldl (scan_row lib reason) (groups, reasons, k) rows of (groups', reasons', k') \<Rightarrow>
     k' = k + length rows \<and>
     sum_list (map snd reasons') = sum_list (map snd reasons) + length (filter (scan_hit lib reason) rows) \<and>
     set groups' = set groups \<union> {prompt_group_id lib prompt | prompt row.
       row \<in> set rows \<and> scan_hit lib reason row \<and> jget row ''input'' = JStr prompt \<and> py_strip prompt \<noteq> []}"
proof (induction rows arbitrary: groups reasons k)
  case Nil
  then show ?case by simp
next
  case (Cons row rows)
  obtain g1 r1 k1 where s1: "scan_row lib reason (groups, reasons, k) row = (g1, r1, k1)" by (rule prod_cases3)
  then have k1: "k1 = Suc k" by (auto simp: scan_row_def split: option.splits)
  note s = s1 [unfolded k1]
  have g1: "set g1 = set groups \<union> {prompt_group_id lib prompt | prompt.
      scan_hit lib reason row \<and> jget row ''input'' = JStr prompt \<and> py_strip prompt \<noteq> []}"
    and r1: "sum_list (map snd r1) = sum_list (map snd reasons) + (if scan_hit lib reason row then 1 else 0)"
    using s by (auto simp: scan_row_def scan_hit_def sum_bump split: option.splits json.splits if_splits)
  obtain g2 r2 k2 where f: "foldl (scan_row lib reason) (g1, r1, Suc k) rows = (g2, r2, k2)"
    by (cases "foldl (scan_row lib reason) (g1, r1, Suc k) rows")
  from Cons.IH [where groups = g1 and reasons = r1 and k = "Suc k"] have ih: "k2 = Suc k + length rows"
    "sum_list (map snd r2) = sum_list (map snd r1) + length (filter (scan_hit lib reason) rows)"
    "set g2 = set g1 \<union> {prompt_group_id lib prompt | prompt row.
       row \<in> set rows \<and> scan_hit lib reason row \<and> jget row ''input'' = JStr prompt \<and> py_strip prompt \<noteq> []}"
    by (simp_all add: f)
  have "set g2 = set groups \<union> {prompt_group_id lib prompt | prompt row'.
      row' \<in> set (row # rows) \<and> scan_hit lib reason row' \<and> jget row' ''input'' = JStr prompt \<and> py_strip prompt \<noteq> []}"
    unfolding ih(3) g1 by auto
  then show ?case by (simp add: s f ih(1,2) r1)
qed

lemma scan_shard_Inr:
  assumes "scan_contamination_shard lib reason shard = Inr p"
  shows "length (ss_rows shard) = ss_expected_rows shard" "pf_rows p = ss_expected_rows shard"
    "pf_matched p = length (filter (scan_hit lib reason) (ss_rows shard))"
    "set (pf_groups p) = {prompt_group_id lib prompt | prompt row. row \<in> set (ss_rows shard) \<and>
       scan_hit lib reason row \<and> jget row ''input'' = JStr prompt \<and> py_strip prompt \<noteq> []}"
proof -
  let ?rows = "map (read_columns scan_columns) (ss_rows shard)"
  obtain g r k where f: "foldl (scan_row lib reason) ([], [], 0) ?rows = (g, r, k)"
    by (cases "foldl (scan_row lib reason) ([], [], 0) ?rows")
  have c: "''input'' \<in> set scan_columns" "''output'' \<in> set scan_columns" "''unit_tests'' \<in> set scan_columns"
    by (simp_all add: scan_columns_def)
  then have h: "scan_hit lib reason (read_columns scan_columns row) = scan_hit lib reason row" for row
    by (simp add: scan_hit_def)
  have hits: "length (filter (scan_hit lib reason) ?rows) = length (filter (scan_hit lib reason) (ss_rows shard))"
    by (simp add: filter_map o_def h)
  from assms f have p: "k = ss_expected_rows shard" "p = \<lparr>pf_rows = k, pf_matched = sum_list (map snd r),
      pf_reasons = sorted_items r, pf_groups = sort g\<rparr>"
    by (auto simp: scan_contamination_shard_def split: if_splits)
  from scan_rows [where lib = lib and reason = reason and groups = "[]" and reasons = "[]" and k = 0 and
      rows = ?rows] f p c h hits show
    "length (ss_rows shard) = ss_expected_rows shard" "pf_rows p = ss_expected_rows shard"
    "pf_matched p = length (filter (scan_hit lib reason) (ss_rows shard))"
    "set (pf_groups p) = {prompt_group_id lib prompt | prompt row. row \<in> set (ss_rows shard) \<and>
       scan_hit lib reason row \<and> jget row ''input'' = JStr prompt \<and> py_strip prompt \<noteq> []}" by (simp_all add: Bex_def)
qed

section \<open>The contaminated groups\<close>

text \<open>The prompt groups some benchmark hit touched, in any shard.\<close>

definition hit_groups :: "text_library \<Rightarrow> (string \<Rightarrow> string option) \<Rightarrow> source_shard list \<Rightarrow> string set" where
  "hit_groups lib reason shards = {prompt_group_id lib prompt | prompt row shard. shard \<in> set shards \<and>
     row \<in> set (ss_rows shard) \<and> scan_hit lib reason row \<and> jget row ''input'' = JStr prompt \<and> py_strip prompt \<noteq> []}"

lemma set_contaminated_groups:
  assumes "\<forall>i < length shards. pf i \<noteq> None \<and> scan_contamination_shard lib reason (shards ! i) = Inr (the (pf i))"
  shows "set (contaminated_groups pf (length shards)) = hit_groups lib reason shards"
proof -
  have "map (\<lambda>i. case pf i of Some p \<Rightarrow> pf_groups p | None \<Rightarrow> []) [0..<length shards]
      = map (\<lambda>i. pf_groups (the (pf i))) [0..<length shards]"
    using assms by (intro map_cong refl) (auto split: option.split)
  then have "set (contaminated_groups pf (length shards)) = (\<Union>i < length shards. set (pf_groups (the (pf i))))"
    by (simp add: contaminated_groups_def atLeast0LessThan)
  also have "\<dots> = (\<Union>i < length shards. {prompt_group_id lib prompt | prompt row. row \<in> set (ss_rows (shards ! i)) \<and>
       scan_hit lib reason row \<and> jget row ''input'' = JStr prompt \<and> py_strip prompt \<noteq> []})"
    using assms scan_shard_Inr(4) by (intro SUP_cong) auto
  also have "\<dots> = hit_groups lib reason shards"
    unfolding hit_groups_def set_conv_nth [of shards] by blast
  finally show ?thesis .
qed

end
