(* ===== verification/SftResume.thy ===== *)
theory SftResume
  imports SftFacts "HOL-Library.Multiset"
begin

text \<open>
  Curation that is killed and started again: what a shard publishes does not depend on its row-group
  size, a worker's sidecar passes its checks, every state a work directory can reach holds sidecars of
  this very curation only, and a run from any such directory computes what a run from an empty one does.
\<close>

section \<open>What a shard publishes\<close>

text \<open>Its counters and the rows of its files, apart from their grouping.\<close>

definition published where
  "published r = (sr_counts r, sr_tokens r, sr_domains r, file_rows (sr_train r), file_rows (sr_validation r),
     file_rows (sr_rejected r))"

definition same_sink :: "'a sink \<Rightarrow> 'a sink \<Rightarrow> bool" where
  "same_sink s s' \<longleftrightarrow> sink_ok s \<and> sink_ok s' \<and> sink_contents s = sink_contents s'"

lemma same_sink_append: "same_sink s s' \<Longrightarrow> same_sink (sink_append n x s) (sink_append n' x s')"
  by (simp add: same_sink_def sink_append_ok)

lemma same_sink_finish: "same_sink s s' \<Longrightarrow> file_rows (sink_finish s) = file_rows (sink_finish s')"
  by (simp add: same_sink_def sink_finish_rows(1))

definition same_progress :: "process_state \<Rightarrow> process_state \<Rightarrow> bool" where
  "same_progress s s' \<longleftrightarrow> same_sink (ps_train s) (ps_train s') \<and> same_sink (ps_validation s) (ps_validation s') \<and>
     same_sink (ps_rejected s) (ps_rejected s') \<and> ps_counts s = ps_counts s' \<and> ps_tokens s = ps_tokens s' \<and>
     ps_domains s = ps_domains s' \<and> ps_source_row s = ps_source_row s'"

lemma process_row_any_size:
  assumes s: "same_progress s s'" and p: "process_row rx n path s row = Inr t"
  shows "\<exists>t'. process_row rx n' path s' row = Inr t' \<and> same_progress t t'"
proof -
  from s have e: "ps_source_row s' = ps_source_row s" "ps_counts s' = ps_counts s" "ps_tokens s' = ps_tokens s"
    "ps_domains s' = ps_domains s" by (simp_all add: same_progress_def)
  from p obtain d where d: "decide_row rx path (ps_source_row s) row = Inr d"
    by (auto simp: process_row_def rbind_eq_Inr)
  show ?thesis
  proof (cases "de_example d")
    case (Some x)
    with p d s show ?thesis
      by (auto simp: process_row_def e Let_def same_progress_def intro!: same_sink_append split: if_splits)
  next
    case None
    with p d s show ?thesis
      by (auto simp: process_row_def e same_progress_def intro!: same_sink_append split: option.splits)
  qed
qed

lemma process_rows_any_size:
  "foldM (process_row rx n path) s rows = Inr t \<Longrightarrow> same_progress s s' \<Longrightarrow>
     \<exists>t'. foldM (process_row rx n' path) s' rows = Inr t' \<and> same_progress t t'"
proof (induction rows arbitrary: s s')
  case Nil
  then show ?case by simp
next
  case (Cons row rows)
  from Cons.prems(1) obtain u where u: "process_row rx n path s row = Inr u" "foldM (process_row rx n path) u rows = Inr t"
    by (auto simp: rbind_eq_Inr)
  from process_row_any_size [OF Cons.prems(2) u(1)] obtain u' where
    "process_row rx n' path s' row = Inr u'" "same_progress u u'" by blast
  with Cons.IH [OF u(2)] show ?case by auto
qed

lemma empty_progress: "same_progress empty_process_state empty_process_state"
  by (simp add: same_progress_def same_sink_def empty_process_state_def)

theorem process_shard_any_size:
  assumes "process_shard rx n shard = Inr r"
  shows "\<exists>r'. process_shard rx n' shard = Inr r' \<and> published r' = published r"
proof -
  from assms obtain t where t: "foldM (process_row rx n (ss_path shard)) empty_process_state (decided_from shard) = Inr t"
    "ps_source_row t = ss_expected_rows shard" "decided_rows (ps_counts t) = ps_source_row t"
    "r = \<lparr>sr_counts = sorted_items (ps_counts t), sr_tokens = sorted_items (ps_tokens t),
            sr_domains = sorted_items (ps_domains t), sr_train = sink_finish (ps_train t),
            sr_validation = sink_finish (ps_validation t), sr_rejected = sink_finish (ps_rejected t)\<rparr>"
    by (auto simp: process_shard_def decided_from_def rbind_eq_Inr split: if_splits)
  from process_rows_any_size [OF t(1) empty_progress] obtain t' where
    t': "foldM (process_row rx n' (ss_path shard)) empty_process_state (decided_from shard) = Inr t'"
    and s: "same_progress t t'" by blast
  have "ps_counts t' = ps_counts t" "ps_source_row t' = ps_source_row t" "ps_tokens t' = ps_tokens t"
    "ps_domains t' = ps_domains t" using s by (simp_all add: same_progress_def)
  moreover have "file_rows (sink_finish (ps_train t')) = file_rows (sink_finish (ps_train t))"
    "file_rows (sink_finish (ps_validation t')) = file_rows (sink_finish (ps_validation t))"
    "file_rows (sink_finish (ps_rejected t')) = file_rows (sink_finish (ps_rejected t))"
    using s same_sink_finish by (metis same_progress_def)+
  ultimately show ?thesis
    using t t' by (simp add: process_shard_def decided_from_def [symmetric] published_def)
qed

section \<open>A worker's sidecar is valid\<close>

lemma keys_bump: "set (map fst (bump k n c)) = insert k (set (map fst c))"
  by (induction k n c rule: bump.induct) auto

lemma distinct_bump: "distinct (map fst c) \<Longrightarrow> distinct (map fst (bump k n c))"
proof (induction k n c rule: bump.induct)
  case (2 k n j m c)
  then show ?case using keys_bump [of k n c] by auto
qed simp

lemma counted_sorted_items: "distinct (map fst c) \<Longrightarrow> counted (sorted_items c) k = counted c k"
proof -
  assume d: "distinct (map fst c)"
  have "mset (map fst (sorted_items c)) = mset (map fst c)" by (simp add: sorted_items_def multiset.map_comp)
  with d have "distinct (map fst (sorted_items c))" using mset_eq_imp_distinct_iff by blast
  with d have "map_of (sorted_items c) = map_of c" by (simp add: map_of_inject_set sorted_items_def)
  then show ?thesis by (simp add: counted_def)
qed

lemma sum_sorted_items:
  "sum_list (map snd (filter P (sorted_items c))) = sum_list (map snd (filter P c))"
proof -
  have "mset (filter P (sorted_items c)) = mset (filter P c)" by (simp add: sorted_items_def)
  then have "mset (map snd (filter P (sorted_items c))) = mset (map snd (filter P c))" by (metis mset_map)
  then show ?thesis by (metis sum_mset_sum_list)
qed

definition rejected_total :: "(string \<times> nat) list \<Rightarrow> nat" where
  "rejected_total c = sum_list (map snd (filter (\<lambda>(k, n). rejected_key k) c))"

definition counts_match :: "process_state \<Rightarrow> bool" where
  "counts_match s \<longleftrightarrow> distinct (map fst (ps_counts s)) \<and>
     (\<forall>k\<in>set (map fst (ps_counts s)). k = ''train'' \<or> k = ''validation'' \<or> rejected_key k) \<and>
     counted (ps_counts s) ''train'' = length (sink_contents (ps_train s)) \<and>
     counted (ps_counts s) ''validation'' = length (sink_contents (ps_validation s)) \<and>
     rejected_total (ps_counts s) = length (sink_contents (ps_rejected s)) \<and>
     sink_ok (ps_train s) \<and> sink_ok (ps_validation s) \<and> sink_ok (ps_rejected s)"

lemma rejected_total_bump: "rejected_total (bump k n c) = rejected_total c + (if rejected_key k then n else 0)"
  by (simp add: rejected_total_def sum_filter_bump)

lemma rejected_not_split: "''rejected:'' @ r \<noteq> ''train''" "''rejected:'' @ r \<noteq> ''validation''"
    "''train'' \<noteq> ''rejected:'' @ r" "''validation'' \<noteq> ''rejected:'' @ r"
  by simp_all

lemma rejected_total_sorted: "rejected_total (sorted_items c) = rejected_total c"
  by (simp add: rejected_total_def sum_sorted_items)

lemma process_row_counts:
  assumes m: "counts_match s" and p: "process_row rx n path s row = Inr t"
  shows "counts_match t"
proof -
  from p obtain d where d: "decide_row rx path (ps_source_row s) row = Inr d"
    by (auto simp: process_row_def rbind_eq_Inr)
  note k = keys_bump distinct_bump counted_bump rejected_total_bump rejected_key_iff rejected_not_split sink_append_ok
  show ?thesis
  proof (cases "de_example d")
    case (Some x)
    with p d consider "ce_split x = ''train''" "t = s\<lparr>ps_counts := bump ''train'' 1 (ps_counts s),
          ps_tokens := bump ''train'' (ce_tokens x - 1) (ps_tokens s),
          ps_domains := bump (''train'' @ '':'' @ ce_domain x) 1 (ps_domains s),
          ps_source_row := Suc (ps_source_row s), ps_train := sink_append n x (ps_train s)\<rparr>"
      | "ce_split x = ''validation''" "t = s\<lparr>ps_counts := bump ''validation'' 1 (ps_counts s),
          ps_tokens := bump ''validation'' (ce_tokens x - 1) (ps_tokens s),
          ps_domains := bump (''validation'' @ '':'' @ ce_domain x) 1 (ps_domains s),
          ps_source_row := Suc (ps_source_row s), ps_validation := sink_append n x (ps_validation s)\<rparr>"
      by (auto simp: process_row_def Let_def split: if_splits)
    then show ?thesis
      using m by cases (simp_all add: counts_match_def k del: set_map)
  next
    case None
    with p d obtain reason where "t = s\<lparr>ps_rejected := sink_append n
         \<lparr>rj_id = de_id d, rj_group = de_group d, rj_reason = reason, rj_tokens = de_tokens d,
          rj_shard = path, rj_row = ps_source_row s\<rparr> (ps_rejected s),
         ps_counts := bump (''rejected:'' @ reason) 1 (ps_counts s), ps_source_row := Suc (ps_source_row s)\<rparr>"
      by (auto simp: process_row_def split: option.splits)
    with m show ?thesis by (simp add: counts_match_def k del: set_map append_Cons append_Nil)
  qed
qed

lemma process_rows_counts:
  "foldM (process_row rx n path) s rows = Inr t \<Longrightarrow> counts_match s \<Longrightarrow> counts_match t"
  by (induction rows arbitrary: s) (auto simp: rbind_eq_Inr dest: process_row_counts)

lemma finished_record: "sink_ok s \<Longrightarrow> file_record_ok (length (sink_contents s)) (sink_finish s)"
  using sink_finish_rows [of s] by (auto simp: file_record_ok_def file_rows_def file_ok_def split: option.splits)

theorem worker_sidecar_valid:
  assumes "process_worker identity authority rx n shards i w = Inr (r, w')"
  shows "load_valid_result identity authority i (shards ! i) (wd_results w' i) = Some r"
proof -
  from assms have p: "process_shard (second_pass rx (au_groups authority)) n (shards ! i) = Inr r"
    and w': "wd_results w' i = Some \<lparr>rc_intact = True, rc_identity = identity, rc_authority = authority,
      rc_index = i, rc_source = source_of (shards ! i), rc_result = r\<rparr>"
    by (auto simp: project.worker rbind_eq_Inr)
  let ?shard = "shards ! i"
  from p obtain t where t: "foldM (process_row (second_pass rx (au_groups authority)) n (ss_path ?shard))
      empty_process_state (decided_from ?shard) = Inr t"
    "ps_source_row t = ss_expected_rows ?shard" "decided_rows (ps_counts t) = ps_source_row t"
    "r = \<lparr>sr_counts = sorted_items (ps_counts t), sr_tokens = sorted_items (ps_tokens t),
            sr_domains = sorted_items (ps_domains t), sr_train = sink_finish (ps_train t),
            sr_validation = sink_finish (ps_validation t), sr_rejected = sink_finish (ps_rejected t)\<rparr>"
    by (auto simp: process_shard_def decided_from_def rbind_eq_Inr split: if_splits)
  have "counts_match empty_process_state"
    by (simp add: counts_match_def empty_process_state_def counted_def rejected_total_def)
  from process_rows_counts [OF t(1) this] have m: "distinct (map fst (ps_counts t))"
    "\<forall>k\<in>set (map fst (ps_counts t)). k = ''train'' \<or> k = ''validation'' \<or> rejected_key k"
    "counted (ps_counts t) ''train'' = length (sink_contents (ps_train t))"
    "counted (ps_counts t) ''validation'' = length (sink_contents (ps_validation t))"
    "rejected_total (ps_counts t) = length (sink_contents (ps_rejected t))"
    "sink_ok (ps_train t)" "sink_ok (ps_validation t)" "sink_ok (ps_rejected t)" by (simp_all add: counts_match_def)
  have keys: "\<not> list_ex (\<lambda>(k, n). k \<noteq> ''train'' \<and> k \<noteq> ''validation'' \<and> \<not> rejected_key k) (sorted_items (ps_counts t))"
    using m(2) by (force simp: list_ex_iff sorted_items_def)
  have total: "length (sink_contents (ps_train t)) + length (sink_contents (ps_validation t)) +
      length (sink_contents (ps_rejected t)) = ss_expected_rows ?shard"
    using t(2,3) m(3-5) by (simp add: decided_rows_def rejected_total_def)
  show ?thesis
    using keys total finished_record [OF m(6)] finished_record [OF m(7)] finished_record [OF m(8)]
    by (simp add: load_valid_result_def w' Let_def t(4) counted_sorted_items [OF m(1)] m(3,4)
        rejected_total_def [symmetric] rejected_total_sorted m(5))
qed

section \<open>The states of a work directory\<close>

text \<open>Sidecars may be lost or damaged at any time; whatever is there instead fails its own digest.\<close>

definition damaged :: "work_dir \<Rightarrow> work_dir \<Rightarrow> bool" where
  "damaged w w' \<longleftrightarrow> wd_identity w' = wd_identity w \<and>
     (\<forall>i. wd_preflights w' i = wd_preflights w i \<or> (\<forall>c. wd_preflights w' i = Some c \<longrightarrow> \<not> pc_intact c)) \<and>
     (\<forall>i. wd_results w' i = wd_results w i \<or> (\<forall>c. wd_results w' i = Some c \<longrightarrow> \<not> rc_intact c))"

definition any_order :: "(nat list \<Rightarrow> nat list) \<Rightarrow> bool" where
  "any_order order \<longleftrightarrow> (\<forall>xs. mset (order xs) = mset xs)"

text \<open>The runs of one curation on its directory: in memory, the preflights once the first pass is over; on
  disk, what the workers have written. A run may be killed after any worker, and each run has a
  row-group size of its own.\<close>

inductive curation_state ::
    "string \<Rightarrow> row_context \<Rightarrow> (string \<Rightarrow> string option) \<Rightarrow> source_shard list \<Rightarrow>
     (nat \<Rightarrow> preflight option) option \<Rightarrow> work_dir \<Rightarrow> bool"
  for identity rx reason shards where
  curation_fresh: "curation_state identity rx reason shards None empty_work"
| curation_killed: "curation_state identity rx reason shards m w \<Longrightarrow> curation_state identity rx reason shards None w"
| curation_damaged: "curation_state identity rx reason shards m w \<Longrightarrow> damaged w w' \<Longrightarrow>
     curation_state identity rx reason shards m w'"
| curation_entered: "curation_state identity rx reason shards None w \<Longrightarrow> enter_work identity w = Inr w' \<Longrightarrow>
     curation_state identity rx reason shards None w'"
| curation_scanned: "curation_state identity rx reason shards None w \<Longrightarrow> i < length shards \<Longrightarrow>
     scan_worker identity (rx_library rx) reason shards i w = Inr (p, w') \<Longrightarrow>
     curation_state identity rx reason shards None w'"
| curation_preflighted: "curation_state identity rx reason shards None w \<Longrightarrow> any_order order \<Longrightarrow>
     first_pass identity rx reason shards order w = Inr (pf, w') \<Longrightarrow>
     curation_state identity rx reason shards (Some pf) w'"
| curation_projected: "curation_state identity rx reason shards (Some pf) w \<Longrightarrow> i < length shards \<Longrightarrow>
     process_worker identity (authority_of identity pf (length shards)) rx n shards i w = Inr (r, w') \<Longrightarrow>
     curation_state identity rx reason shards (Some pf) w'"

text \<open>An intact sidecar holds what its worker computed, at some row-group size.\<close>

definition work_ok ::
    "string \<Rightarrow> row_context \<Rightarrow> (string \<Rightarrow> string option) \<Rightarrow> source_shard list \<Rightarrow> work_dir \<Rightarrow> bool" where
  "work_ok identity rx reason shards w \<longleftrightarrow> wd_identity w \<in> {None, Some identity} \<and>
     (\<forall>i c. wd_preflights w i = Some c \<longrightarrow> pc_intact c \<longrightarrow>
        scan_contamination_shard (rx_library rx) reason (shards ! i) = Inr (pc_result c)) \<and>
     (\<forall>i c. wd_results w i = Some c \<longrightarrow> rc_intact c \<longrightarrow>
        (\<exists>n. process_shard (second_pass rx (au_groups (rc_authority c))) n (shards ! i) = Inr (rc_result c)))"

lemma work_ok_empty: "work_ok identity rx reason shards empty_work"
  by (simp add: work_ok_def empty_work_def)

lemma work_ok_damaged: "work_ok identity rx reason shards w \<Longrightarrow> damaged w w' \<Longrightarrow> work_ok identity rx reason shards w'"
  unfolding work_ok_def damaged_def by metis

lemma enter_work_ok:
  "work_ok identity rx reason shards w \<Longrightarrow> \<exists>w'. enter_work identity w = Inr w' \<and> work_ok identity rx reason shards w' \<and>
     wd_preflights w' = wd_preflights w \<and> wd_results w' = wd_results w"
  by (auto simp: work_ok_def enter_work_def split: option.split)

lemma work_ok_scan_sidecar:
  assumes "work_ok identity rx reason shards w" and "scan_contamination_shard (rx_library rx) reason (shards ! i) = Inr p"
  shows "work_ok identity rx reason shards (w\<lparr>wd_preflights := (wd_preflights w)(i := Some
      \<lparr>pc_intact = True, pc_identity = identity, pc_index = i, pc_source = source_of (shards ! i), pc_result = p\<rparr>)\<rparr>)"
  using assms by (auto simp: work_ok_def split: if_splits)

lemma work_ok_result_sidecar:
  assumes "work_ok identity rx reason shards w"
    and "process_shard (second_pass rx (au_groups authority)) n (shards ! i) = Inr r"
  shows "work_ok identity rx reason shards (w\<lparr>wd_results := (wd_results w)(i := Some
      \<lparr>rc_intact = True, rc_identity = identity, rc_authority = authority, rc_index = i,
       rc_source = source_of (shards ! i), rc_result = r\<rparr>)\<rparr>)"
  using assms by (auto simp: work_ok_def split: if_splits)

lemma work_ok_scanned:
  "work_ok identity rx reason shards w \<Longrightarrow> scan_worker identity (rx_library rx) reason shards i w = Inr (p, w') \<Longrightarrow>
     work_ok identity rx reason shards w'"
  by (auto simp: scan.worker rbind_eq_Inr intro: work_ok_scan_sidecar)

lemma work_ok_projected:
  "work_ok identity rx reason shards w \<Longrightarrow> process_worker identity authority rx n shards i w = Inr (r, w') \<Longrightarrow>
     work_ok identity rx reason shards w'"
  by (auto simp: project.worker rbind_eq_Inr intro: work_ok_result_sidecar)

lemma loaded_preflight:
  "load_valid_preflight identity i shard sidecar = Some p \<Longrightarrow> \<exists>c. sidecar = Some c \<and> pc_intact c \<and> pc_result c = p"
  by (auto simp: load_valid_preflight_def Let_def split: option.splits if_splits)

lemma loaded_result:
  "load_valid_result identity authority i shard sidecar = Some r \<Longrightarrow>
     \<exists>c. sidecar = Some c \<and> rc_intact c \<and> rc_authority c = authority \<and> rc_result c = r"
  by (auto simp: load_valid_result_def Let_def split: option.splits if_splits)

lemma set_any_order: "any_order order \<Longrightarrow> set (order xs) = set xs"
  unfolding any_order_def by (metis set_mset_mset)

lemma set_pending: "set (pending cached n) = {i. i < n \<and> cached i = None}"
  by (auto simp: pending_def)

section \<open>The passes of a resumed run\<close>

lemma first_pass_Inr:
  assumes w: "work_ok identity rx reason shards w" and order: "any_order order"
    and p: "first_pass identity rx reason shards order w = Inr (pf, w')"
  shows "(\<forall>i < length shards. pf i \<noteq> None \<and> scan_contamination_shard (rx_library rx) reason (shards ! i) = Inr (the (pf i))) \<and>
     work_ok identity rx reason shards w' \<and> wd_results w' = wd_results w"
proof -
  define cached where "cached = (\<lambda>i. if i < length shards
      then load_valid_preflight identity i (shards ! i) (wd_preflights w i) else None)"
  let ?good = "\<lambda>i p. scan_contamination_shard (rx_library rx) reason (shards ! i) = Inr p"
  let ?tasks = "pending cached (length shards)"
  let ?w = "w\<lparr>wd_preflights := (\<lambda>i. if i \<in> set ?tasks then None else wd_preflights w i)\<rparr>"
  have c: "collect (scan_worker identity (rx_library rx) reason shards) cached (order ?tasks) ?w = Inr (pf, w')"
    using p by (simp add: first_pass_def cached_def [symmetric] Let_def)
  have "?good i p" if "cached i = Some p" for i p
    using that w loaded_preflight by (fastforce simp: cached_def work_ok_def split: if_splits)
  from scan.collect_Inr [where good = ?good, OF c this]
  have "(\<forall>i r. pf i = Some r \<longrightarrow> ?good i r) \<and> (\<forall>i. pf i = None \<longleftrightarrow> cached i = None \<and> i \<notin> set (order ?tasks))" by simp
  then have "\<forall>i < length shards. pf i \<noteq> None \<and> ?good i (the (pf i))" by (auto simp: set_any_order [OF order] set_pending)
  moreover have "work_ok identity rx reason shards ?w" using w by (simp add: work_ok_def)
  then have "work_ok identity rx reason shards ?w \<and> wd_results ?w = wd_results w" by simp
  from scan.collect_keeps [where keep = "\<lambda>v. work_ok identity rx reason shards v \<and> wd_results v = wd_results w", OF c this]
  have "work_ok identity rx reason shards w' \<and> wd_results w' = wd_results w"
    by (simp add: work_ok_scan_sidecar)
  ultimately show ?thesis by blast
qed

lemma first_pass_succeeds:
  assumes "\<And>i. i < length shards \<Longrightarrow> \<exists>p. scan_contamination_shard (rx_library rx) reason (shards ! i) = Inr p"
    and "any_order order"
  shows "\<exists>pf w'. first_pass identity rx reason shards order w = Inr (pf, w')"
proof -
  have "\<exists>x. collect (scan_worker identity (rx_library rx) reason shards) cached (order (pending cached (length shards))) v = Inr x"
    for cached and v :: work_dir
    unfolding scan.collect_succeeds using assms by (simp add: set_any_order set_pending)
  then show ?thesis by (simp add: first_pass_def Let_def)
qed

lemma project_pass_Inr:
  assumes w: "work_ok identity rx reason shards w" and order: "any_order order"
    and p: "project_pass identity authority rx n shards order w = Inr (rs, w')"
  shows "\<forall>i < length shards. \<exists>n. process_shard (second_pass rx (au_groups authority)) n (shards ! i) = Inr (the (rs i))"
proof -
  define cached where "cached = (\<lambda>i. if i < length shards
      then load_valid_result identity authority i (shards ! i) (wd_results w i) else None)"
  let ?good = "\<lambda>i r. \<exists>n. process_shard (second_pass rx (au_groups authority)) n (shards ! i) = Inr r"
  have c: "collect (process_worker identity authority rx n shards) cached (order (pending cached (length shards)))
      (w\<lparr>wd_results := (\<lambda>i. if i \<in> set (pending cached (length shards)) then None else wd_results w i)\<rparr>) = Inr (rs, w')"
    using p by (simp add: project_pass_def cached_def [symmetric] Let_def)
  have "?good i r" if "cached i = Some r" for i r
    using that w loaded_result by (fastforce simp: cached_def work_ok_def split: if_splits)
  from project.collect_Inr [where good = ?good, OF c this]
  have "(\<forall>i r. rs i = Some r \<longrightarrow> ?good i r) \<and>
      (\<forall>i. rs i = None \<longleftrightarrow> cached i = None \<and> i \<notin> set (order (pending cached (length shards))))" by blast
  then have "rs i \<noteq> None" "\<forall>r. rs i = Some r \<longrightarrow> ?good i r" if "i < length shards" for i
    using that by (auto simp: set_any_order [OF order] set_pending)
  then show ?thesis by auto
qed

lemma project_pass_succeeds:
  assumes "\<And>i. i < length shards \<Longrightarrow> \<exists>r. process_shard (second_pass rx (au_groups authority)) n (shards ! i) = Inr r"
    and "any_order order"
  shows "\<exists>rs w'. project_pass identity authority rx n shards order w = Inr (rs, w')"
proof -
  have "\<exists>x. collect (process_worker identity authority rx n shards) cached (order (pending cached (length shards))) v = Inr x"
    for cached and v :: work_dir
    unfolding project.collect_succeeds using assms by (simp add: set_any_order set_pending)
  then show ?thesis by (simp add: project_pass_def Let_def)
qed

theorem curation_state_ok: "curation_state identity rx reason shards m w \<Longrightarrow> work_ok identity rx reason shards w"
proof (induction rule: curation_state.induct)
  case curation_fresh
  then show ?case by (rule work_ok_empty)
next
  case (curation_killed m w)
  then show ?case by simp
next
  case (curation_damaged m w w')
  then show ?case by (blast intro: work_ok_damaged)
next
  case (curation_entered w w')
  then show ?case using enter_work_ok by fastforce
next
  case (curation_scanned w i p w')
  then show ?case by (blast intro: work_ok_scanned)
next
  case (curation_preflighted w order pf w')
  then show ?case using first_pass_Inr by blast
next
  case (curation_projected pf w i n r w')
  then show ?case by (blast intro: work_ok_projected)
qed

section \<open>The whole run\<close>

text \<open>The contaminated groups are a function of the source.\<close>

definition all_groups :: "row_context \<Rightarrow> (string \<Rightarrow> string option) \<Rightarrow> source_shard list \<Rightarrow> string list" where
  "all_groups rx reason shards = sorted_list_of_set (hit_groups (rx_library rx) reason shards)"

lemma contaminated_groups_all:
  assumes "\<forall>i < length shards. pf i \<noteq> None \<and> scan_contamination_shard (rx_library rx) reason (shards ! i) = Inr (the (pf i))"
  shows "contaminated_groups pf (length shards) = all_groups rx reason shards"
    and "set (all_groups rx reason shards) = hit_groups (rx_library rx) reason shards"
proof -
  let ?g = "contaminated_groups pf (length shards)"
  have s: "set ?g = hit_groups (rx_library rx) reason shards" by (rule set_contaminated_groups [OF assms])
  have "sorted ?g" "distinct ?g" by (simp_all add: contaminated_groups_def)
  then have "?g = sorted_list_of_set (set ?g)" by (simp add: sorted_list_of_set.idem_if_sorted_distinct)
  then show g: "?g = all_groups rx reason shards" by (simp add: all_groups_def s)
  show "set (all_groups rx reason shards) = hit_groups (rx_library rx) reason shards" by (simp add: s flip: g)
qed

theorem prepare_dataset_Inr:
  assumes w: "work_ok identity rx reason shards w" and order: "any_order so" "any_order po"
    and run: "prepare_dataset identity rx reason n shards so po w = Inr (rs, w')"
  shows "length rs = length shards \<and> set (all_groups rx reason shards) = hit_groups (rx_library rx) reason shards \<and>
     (\<forall>i < length shards. \<exists>p. scan_contamination_shard (rx_library rx) reason (shards ! i) = Inr p) \<and>
     (\<forall>i < length shards. \<exists>n. process_shard (second_pass rx (all_groups rx reason shards)) n (shards ! i) = Inr (rs ! i))"
proof -
  from enter_work_ok [OF w] obtain w0 where w0: "enter_work identity w = Inr w0" "work_ok identity rx reason shards w0" by blast
  with run obtain pf w1 m where pf: "first_pass identity rx reason shards so w0 = Inr (pf, w1)"
    and m: "project_pass identity (authority_of identity pf (length shards)) rx n shards po w1 = Inr (m, w')"
    and rs: "rs = map (\<lambda>i. the (m i)) [0..<length shards]"
    by (auto simp: prepare_dataset_def rbind_eq_Inr)
  note f = first_pass_Inr [OF w0(2) order(1) pf]
  note g = contaminated_groups_all [OF f [THEN conjunct1]]
  have "au_groups (authority_of identity pf (length shards)) = all_groups rx reason shards"
    by (simp add: authority_of_def g(1))
  with project_pass_Inr [OF _ order(2) m] f g(2) show ?thesis by (auto simp: rs)
qed

theorem prepare_dataset_succeeds:
  assumes w: "work_ok identity rx reason shards w" and order: "any_order so" "any_order po"
    and scans: "\<And>i. i < length shards \<Longrightarrow> \<exists>p. scan_contamination_shard (rx_library rx) reason (shards ! i) = Inr p"
    and rows: "\<And>i. i < length shards \<Longrightarrow>
      \<exists>r. process_shard (second_pass rx (all_groups rx reason shards)) n (shards ! i) = Inr r"
  shows "\<exists>rs w'. prepare_dataset identity rx reason n shards so po w = Inr (rs, w')"
proof -
  from enter_work_ok [OF w] obtain w0 where w0: "enter_work identity w = Inr w0" "work_ok identity rx reason shards w0" by blast
  from first_pass_succeeds [OF scans order(1)] obtain pf w1 where
    pf: "first_pass identity rx reason shards so w0 = Inr (pf, w1)" by blast
  note f = first_pass_Inr [OF w0(2) order(1) pf]
  have "au_groups (authority_of identity pf (length shards)) = all_groups rx reason shards"
    by (simp add: authority_of_def contaminated_groups_all(1) [OF f [THEN conjunct1]])
  with rows project_pass_succeeds [OF _ order(2), where authority = "authority_of identity pf (length shards)"]
  obtain m w2 where "project_pass identity (authority_of identity pf (length shards)) rx n shards po w1 = Inr (m, w2)"
    by metis
  with w0(1) pf show ?thesis by (simp add: prepare_dataset_def)
qed

end
