(* ===== verification/ChatProps.thy ===== *)
theory ChatProps
  imports ChatFacts
begin

text \<open>
  Properties of the chat format: accepted conversations, attribution of every rendered token,
  agreement of the training rendering with the generation prompt, and parsing of responses.
\<close>

section \<open>A tokenizer the witnesses use\<close>

text \<open>One id per character, shifted by one so that the EOS id is never produced.\<close>

definition demo_tokenizer :: tokenizer where
  "demo_tokenizer =
     \<lparr>tk_encode_kw = (\<lambda>text. Inr (IdsValue (JList (map (\<lambda>c. JInt (int (of_char c) + 1)) text)))),
      tk_encode = (\<lambda>text. Inl (TypeError ''unused'')),
      tk_decode = (\<lambda>call ids. Inr (JStr (map (\<lambda>n. char_of (n - 1)) ids))), tk_eos = None\<rparr>"

definition demo_ids :: "string \<Rightarrow> nat list" where
  "demo_ids text = map (\<lambda>c. Suc (of_char c)) text"

lemma demo_encode: "encode_text demo_tokenizer s = Inr (demo_ids s)"
proof -
  have "mapM normalise_id (map (\<lambda>c. JInt (int (of_char c) + 1)) s) = Inr (demo_ids s)"
    by (induction s) (simp_all add: normalise_id_def demo_ids_def nat_add_distrib)
  then show ?thesis
    by (auto simp: encode_text_def demo_tokenizer_def normalise_ids_def demo_ids_def chat_eos_def)
qed

definition demo_format :: chat_format where
  "demo_format = \<lparr>cf_tokenizer = demo_tokenizer, cf_separator_ids = demo_ids message_separator,
     cf_opener_ids = map (\<lambda>(role, text). (role, demo_ids text)) role_openers\<rparr>"

lemma demo_new_format: "new_chat_format demo_tokenizer = Inr demo_format"
  by (simp add: new_chat_format_def demo_encode demo_format_def role_openers_def)
    (simp add: demo_tokenizer_def demo_ids_def)

definition demo_chat :: json where
  "demo_chat = JList [chat_message ''system'' (JStr ''s''), chat_message ''user'' (JStr ''hi''),
     chat_message ''assistant'' (JStr ''ok'')]"

definition demo_pairs :: "(string \<times> string) list" where
  "demo_pairs = [(''system'', ''s''), (''user'', ''hi''), (''assistant'', ''ok'')]"

lemma demo_validate: "validate_messages demo_chat = Inr demo_pairs"
  by (simp add: demo_chat_def demo_pairs_def validate_messages_def message_step_def chat_message_def
      jfield_def role_openers_def)

lemma demo_render: "\<exists>r. render demo_format demo_chat False = Inr r"
  unfolding render_iff demo_validate encoded_bodies_def
  by (rule exI, rule exI [of _ demo_pairs], rule exI [of _ "map (demo_ids \<circ> snd) demo_pairs"])
    (simp add: list_all2_map2 list_all2_same demo_format_def demo_encode)

section \<open>Properties\<close>

text \<open>C30: Conversations are validated exactly. A value is accepted precisely when it is a list of
  mappings with a known role and non-empty text content whose roles are any number of system messages
  followed by a non-empty strict alternation that starts with the user; the result is the pairs of
  role and content.\<close>

theorem conversations_are_validated_exactly:
  "validate_messages messages = Inr xs \<longleftrightarrow> is_jlist messages \<and> list_all plain_message (jlist_of messages) \<and>
     xs = map message_pair (jlist_of messages) \<and>
     conversation_roles (map (fst \<circ> message_pair) (jlist_of messages))"
  by (rule validate_messages_iff)

text \<open>C31: Every token is attributed. In a rendered conversation the tokens of message \<open>k\<close> are its
  role opener, its separately encoded body and, for the assistant, one EOS; they are one span, the one
  \<^verbatim>\<open>message_token_spans\<close> reports and \<^verbatim>\<open>tokens_per_message\<close> counts; and the sampled
  ones among them are the assistant's body and EOS, or none.\<close>

theorem tokens_are_attributed:
  assumes "new_chat_format tk = Inr f" and "validate_messages messages = Inr xs"
    and "render f messages gen = Inr r" and "k < length xs"
  shows "\<exists>body a. encode_text tk (snd (xs ! k)) = Inr body \<and>
     (let owned = owned_ids f (fst (xs ! k)) body;
          tokens = zip (rc_token_ids r) (zip (rc_message_indices r) (rc_sampled_mask r)) in
      map fst (filter (\<lambda>(t, i, s). i = int k) tokens) = owned \<and>
      map fst (filter (\<lambda>(t, i, s). i = int k \<and> s) tokens) = sampled_ids (fst (xs ! k)) body \<and>
      tokens_per_message None False r ! k = length owned \<and>
      tokens_per_message None True r ! k = length (sampled_ids (fst (xs ! k)) body) \<and>
      message_token_spans r ! k = (if owned = [] then None else Some (a, a + length owned)) \<and>
      take (length owned) (drop a (rc_token_ids r)) = owned)"
proof -
  obtain body pre post where b: "encode_text (cf_tokenizer f) (snd (xs ! k)) = Inr body"
    and r: "r = of_tokens (pre @ owned_tokens f k (fst (xs ! k), body) @ post) (map fst xs)"
    and o: "\<forall>t\<in>set pre \<union> set post. token_message t \<noteq> int k"
    by (rule rendered_block [OF assms(3,2,4)])
  let ?m = "(fst (xs ! k), body)" and ?ts = "pre @ owned_tokens f k (fst (xs ! k), body) @ post"
  let ?owned = "owned_ids f (fst (xs ! k)) body"
  let ?toks = "zip (rc_token_ids r) (zip (rc_message_indices r) (rc_sampled_mask r))"
  note blk = filter_block [OF o, of f ?m]
  have fst_owned: "map fst (owned_tokens f k ?m) = ?owned" by (simp add: owned_tokens_fst)
  then have len: "length (owned_tokens f k ?m) = length ?owned" by (metis length_map)
  have toks: "?toks = map (\<lambda>t. (fst t, token_message t, token_sampled t)) ?ts"
    unfolding r by (rule of_tokens_zip)
  have all: "map fst (filter (\<lambda>(t, i, s). i = int k) ?toks) = ?owned"
    unfolding toks filter_map o_def prod.case map_map blk using fst_owned by (simp add: o_def)
  have smp: "map fst (filter (\<lambda>(t, i, s). i = int k \<and> s) ?toks) = sampled_ids (fst (xs ! k)) body"
    unfolding block_sampled [OF o r] by simp
  have zi: "zip (rc_message_indices r) (rc_sampled_mask r) = map snd ?toks"
    by (simp add: r of_tokens_def)
  have kr: "k < length (rc_message_roles r)" using assms(4) by (simp add: r of_tokens_def)
  have per: "tokens_per_message None only r ! k
      = length (map fst (filter (\<lambda>(t, i, s). i = int k \<and> (only \<longrightarrow> s)) ?toks))" for only
  proof -
    have "tokens_per_message None only r ! k = length (filter (\<lambda>(i, s). i = int k \<and> (only \<longrightarrow> s)) (map snd ?toks))"
      by (subst zi [symmetric]) (rule tokens_per_message_count(1) [OF kr])
    also have "\<dots> = length (filter (\<lambda>(t, i, s). i = int k \<and> (only \<longrightarrow> s)) ?toks)"
      unfolding filter_map length_map by (intro arg_cong [where f = length] filter_cong) auto
    finally show ?thesis by (simp only: length_map)
  qed
  have cnt: "tokens_per_message None False r ! k = length ?owned"
    "tokens_per_message None True r ! k = length (sampled_ids (fst (xs ! k)) body)"
    using per [of False] per [of True] by (simp_all only: simp_thms all smp)
  have span: "message_token_spans r ! k = (if ?owned = [] then None else Some (length pre, length pre + length ?owned))"
  proof (cases "owned_tokens f k ?m = []")
    case True
    then have "set (rc_message_indices r) = token_message ` (set pre \<union> set post)"
      by (auto simp: r of_tokens_def token_message_def)
    with o have "int k \<notin> set (rc_message_indices r)" by auto
    with message_token_spans_nth [OF kr] have "message_token_spans r ! k = None"
      by (metis le_less_trans nth_mem)
    with True fst_owned show ?thesis by simp
  next
    case False
    from span_of_block [OF o _ this, of "map fst xs"] assms(4) have
      "message_token_spans r ! k = Some (length pre, length pre + length ?owned)" by (simp add: r len)
    with False fst_owned show ?thesis by auto
  qed
  have "take (length ?owned) (drop (length pre) (rc_token_ids r)) = ?owned"
    unfolding r of_tokens_def by (simp add: fst_owned)
  with all smp cnt span b new_chat_format_facts(1) [OF assms(1)] show ?thesis
    unfolding Let_def by (intro exI [of _ body] exI [of _ "length pre"]) simp
qed

theorem tokens_are_attributed_witness:
  "\<exists>r. render demo_format demo_chat False = Inr r \<and>
     map fst (filter (\<lambda>(t, i, s). i = 2 \<and> s) (zip (rc_token_ids r) (zip (rc_message_indices r) (rc_sampled_mask r))))
       = demo_ids ''ok'' @ [0]"
proof -
  obtain r where r: "render demo_format demo_chat False = Inr r" using demo_render ..
  have k: "2 < length demo_pairs" "demo_pairs ! 2 = (''assistant'', ''ok'')" by (simp_all add: demo_pairs_def)
  from tokens_are_attributed [OF demo_new_format demo_validate r k(1)] r show ?thesis
    by (auto simp: k(2) demo_encode sampled_ids_def chat_eos_def Let_def)
qed

text \<open>C32: EOS closes assistant turns and nothing else: a rendered conversation holds the reserved token
  exactly once per assistant message.\<close>

theorem eos_once_per_assistant_turn:
  assumes "new_chat_format tk = Inr f" and "validate_messages messages = Inr xs"
    and "render f messages gen = Inr r"
  shows "length (filter (\<lambda>t. t = chat_eos) (rc_token_ids r)) = length (filter (\<lambda>m. fst m = ''assistant'') xs)"
  by (rule rendered_eos [OF assms])

theorem eos_once_per_assistant_turn_witness:
  "\<exists>r. render demo_format demo_chat False = Inr r \<and> length (filter (\<lambda>t. t = chat_eos) (rc_token_ids r)) = 1"
proof -
  obtain r where r: "render demo_format demo_chat False = Inr r" using demo_render ..
  with eos_once_per_assistant_turn [OF demo_new_format demo_validate r] show ?thesis
    by (simp add: demo_pairs_def)
qed

text \<open>C33: Training text extends the prompt the model is asked with. Rendering a conversation with one
  more assistant message succeeds exactly when the message is non-empty and encodable and the
  conversation accepts a generation prompt; the rendered ids are then those of the generation prompt
  followed by the message's ids and one EOS. So what is trained on and what is sampled from never
  differ at the boundary.\<close>

theorem training_extends_generation_prompt:
  assumes "new_chat_format tk = Inr f"
  shows "render_ids f (JList (ms @ [chat_message ''assistant'' (JStr a)])) False = Inr t \<longleftrightarrow> a \<noteq> [] \<and>
     (\<exists>p body. render_ids f (JList ms) True = Inr p \<and> encode_text tk a = Inr body \<and> t = p @ body @ [chat_eos])"
  by (rule assistant_turn_extends_prompt [OF assms])

theorem training_extends_generation_prompt_witness:
  "\<exists>p t. render_ids demo_format (JList [chat_message ''user'' (JStr ''hi'')]) True = Inr p \<and>
     render_ids demo_format (JList [chat_message ''user'' (JStr ''hi''), chat_message ''assistant'' (JStr ''ok'')]) False
       = Inr t \<and> t = p @ demo_ids ''ok'' @ [0]"
proof -
  have v: "validate_messages (JList [chat_message ''user'' (JStr ''hi'')]) = Inr [(''user'', ''hi'')]"
    by (simp add: validate_messages_def message_step_def chat_message_def jfield_def role_openers_def)
  then have "\<exists>p. render_ids demo_format (JList [chat_message ''user'' (JStr ''hi'')]) True = Inr p"
    unfolding render_ids_iff by (auto simp: encoded_bodies_def list_all2_Cons1 demo_format_def demo_encode)
  then obtain p where p: "render_ids demo_format (JList [chat_message ''user'' (JStr ''hi'')]) True = Inr p" ..
  with training_extends_generation_prompt [OF demo_new_format, of "[chat_message ''user'' (JStr ''hi'')]" "''ok''"]
  have "render_ids demo_format (JList ([chat_message ''user'' (JStr ''hi'')] @ [chat_message ''assistant'' (JStr ''ok'')]))
      False = Inr (p @ demo_ids ''ok'' @ [chat_eos])" by (auto simp: demo_encode)
  with p show ?thesis by (auto simp: chat_eos_def)
qed

text \<open>C34: What the model is trained to emit parses back. With a tokenizer that decodes what it encoded,
  the ids of an assistant message with its EOS, whatever a server appends after them, parse to the
  content of the message.\<close>

theorem responses_parse_back:
  assumes "new_chat_format tk = Inr f" and "lossless tk" and "validate_messages messages = Inr xs"
    and "render f messages gen = Inr r" and "k < length xs" and "fst (xs ! k) = ''assistant''"
  shows "parse_response f (map (\<lambda>t. JInt (int t)) (map fst (filter (\<lambda>(t, i, s). i = int k \<and> s)
     (zip (rc_token_ids r) (zip (rc_message_indices r) (rc_sampled_mask r))))) @ vs) = Inr (snd (xs ! k))"
proof -
  obtain body pre post where b: "encode_text (cf_tokenizer f) (snd (xs ! k)) = Inr body"
    and r: "r = of_tokens (pre @ owned_tokens f k (fst (xs ! k), body) @ post) (map fst xs)"
    and o: "\<forall>t\<in>set pre \<union> set post. token_message t \<noteq> int k"
    by (rule rendered_block [OF assms(4,3,5)])
  have "map fst (filter (\<lambda>(t, i, s). i = int k \<and> s)
      (zip (rc_token_ids r) (zip (rc_message_indices r) (rc_sampled_mask r)))) = body @ [chat_eos]"
    unfolding block_sampled [OF o r] assms(6) by (simp add: sampled_ids_def)
  with parse_response_body [OF assms(1,2)] b new_chat_format_facts(1) [OF assms(1)] show ?thesis by simp
qed

lemma demo_lossless: "lossless demo_tokenizer"
proof -
  have "map (\<lambda>n. char_of (n - 1)) (demo_ids s) = s" for s by (induction s) (simp_all add: demo_ids_def)
  then show ?thesis
    by (auto simp: lossless_def demo_encode decode_ids_def) (simp add: demo_tokenizer_def)
qed

theorem responses_parse_back_witness:
  "\<exists>r. render demo_format demo_chat False = Inr r \<and>
     parse_response demo_format (map (\<lambda>t. JInt (int t)) (map fst (filter (\<lambda>(t, i, s). i = int 2 \<and> s)
     (zip (rc_token_ids r) (zip (rc_message_indices r) (rc_sampled_mask r))))) @ [JStr ''tail'']) = Inr ''ok''"
proof -
  obtain r where r: "render demo_format demo_chat False = Inr r" using demo_render ..
  have k: "2 < length demo_pairs" "demo_pairs ! 2 = (''assistant'', ''ok'')" by (simp_all add: demo_pairs_def)
  from responses_parse_back [OF demo_new_format demo_lossless demo_validate r k(1), of "[JStr ''tail'']"] r
  show ?thesis by (simp add: k(2))
qed

end
