(* ===== verification/SftProps.thy ===== *)
theory SftProps
  imports SftResume ChatProps
begin

text \<open>
  Properties of the instruction-data curation: which rows are accepted, that benchmark material and
  its prompt groups stay out of both splits, that the output depends on the source alone, that
  every row is accounted for once, and that what is accepted renders as it was measured.
\<close>

section \<open>A run the witnesses use\<close>

definition demo_library :: text_library where
  "demo_library = \<lparr>tl_nfkc = \<lambda>s. s, tl_casefold = py_lower, tl_json_loads = \<lambda>s. None, tl_str = \<lambda>v. []\<rparr>"

definition demo_context :: row_context where
  "demo_context = \<lparr>rx_library = demo_library, rx_renderer = chat_renderer demo_format,
     rx_split = \<lparr>sp_seed = ''seed'', sp_validation = 2000\<rparr>,
     rx_filter = \<lparr>fp_max_prompt_bytes = 1000, fp_max_completion_bytes = 1000, fp_min_score = 0,
       fp_require_metadata = False, fp_reject_secrets = True\<rparr>,
     rx_max_sequence_length = 4096, rx_contamination = None, rx_contaminated_groups = []\<rparr>"

definition demo_row :: json where
  "demo_row = JObj [(''id'', JStr (replicate 32 (CHR ''a''))), (''input'', JStr ''hi''), (''output'', JStr ''ok''),
     (''domain'', JStr ''generic''), (''generation_algorithm'', JStr ''self-instruct''),
     (''average_test_score'', JFloat 1)]"

text \<open>Two shards; the second row of the first is a benchmark's.\<close>

definition demo_shards :: "source_shard list" where
  "demo_shards = [\<lparr>ss_path = ''a.parquet'', ss_expected_rows = 2,
     ss_rows = [demo_row, JObj [(''id'', JStr ''bad''), (''output'', JStr ''mbpp'')]]\<rparr>,
     \<lparr>ss_path = ''b.parquet'', ss_expected_rows = 1, ss_rows = [demo_row]\<rparr>]"

definition demo_reason :: "string \<Rightarrow> string option" where
  "demo_reason content = (if search_word ''mbpp'' False content then Some ''marker'' else None)"

lemma demo_row_fields:
  "jget demo_row ''id'' = JStr (replicate 32 (CHR ''a''))" "jget demo_row ''input'' = JStr ''hi''"
  "jget demo_row ''output'' = JStr ''ok''" "jget demo_row ''domain'' = JStr ''generic''"
  "jget demo_row ''generation_algorithm'' = JStr ''self-instruct''" "jget demo_row ''average_test_score'' = JFloat 1"
  by (simp_all add: demo_row_def jfield_def)

lemma demo_training_render: "\<exists>n. rendered_training_length demo_format (JStr ''hi'') (JStr ''ok'') = Inr n \<and> 2 \<le> n \<and> n \<le> 100"
proof -
  have v: "validate_messages (training_messages (JStr ''hi'') (JStr ''ok'')) = Inr [(''user'', ''hi''), (''assistant'', ''ok'')]"
    by (simp add: training_messages_def validate_messages_def message_step_def chat_message_def jfield_def role_openers_def)
  have e: "encoded_bodies demo_format [(''user'', ''hi''), (''assistant'', ''ok'')] [demo_ids ''hi'', demo_ids ''ok'']"
    by (simp add: encoded_bodies_def demo_format_def demo_encode)
  have "render_ids demo_format (training_messages (JStr ''hi'') (JStr ''ok'')) False
      = Inr (map fst (conversation_tokens demo_format 0 [(''user'', demo_ids ''hi''), (''assistant'', demo_ids ''ok'')]))"
    unfolding render_ids_iff
    by (rule exI [of _ "[(''user'', ''hi''), (''assistant'', ''ok'')]"], rule exI [of _ "[demo_ids ''hi'', demo_ids ''ok'']"]) (use v e in simp)
  then show ?thesis
    by (simp add: rendered_training_length_def rendered_length_def message_tokens_def tag_fst demo_format_def
        opener_ids_def role_openers_def demo_ids_def message_separator_def)
qed

lemma demo_decision_row:
  "jget (read_columns decision_columns demo_row) k = (if k \<in> set decision_columns then jget demo_row k else JNull)"
  by (simp add: read_columns_def jfield_def map_of_map_restrict restrict_map_def)

lemma demo_accepts:
  assumes "rx = demo_context\<lparr>rx_contaminated_groups := groups\<rparr>" and "prompt_group_id demo_library ''hi'' \<notin> set groups"
    and fields: "\<forall>k\<in>set decision_columns. jget row k = jget demo_row k"
  shows "\<exists>d e. decide_row rx path i row = Inr d \<and> de_example d = Some e"
proof -
  have row: "jget row ''id'' = JStr (replicate 32 (CHR ''a''))" "jget row ''input'' = JStr ''hi''"
    "jget row ''output'' = JStr ''ok''" "jget row ''domain'' = JStr ''generic''"
    "jget row ''generation_algorithm'' = JStr ''self-instruct''" "jget row ''average_test_score'' = JFloat 1"
    using fields unfolding decision_columns_def by (simp_all add: demo_row_fields)
  obtain n where n: "rendered_training_length demo_format (JStr ''hi'') (JStr ''ok'') = Inr n" "2 \<le> n" "n \<le> 100"
    using demo_training_render by blast
  have t: "decide_text (rx_filter rx) row = Inr (''hi'', ''ok'')"
    unfolding decide_text_Inr row
    by (simp add: assms(1) demo_context_def py_strip_def is_py_space_def Let_def utf8_length_def utf8_def utf8_char_def)
  have l: "decide_labels (rx_filter rx) row = Inr (''generic'', ''self-instruct'', 1)"
    unfolding decide_labels_Inr row by (simp add: assms(1) demo_context_def float_of_def)
  have m: "decide_metadata (rx_library rx) (rx_filter rx) (rx_contamination rx \<noteq> None) row = Inr ([], None)"
    by (simp add: decide_metadata_def assms(1) demo_context_def)
  have s: "high_confidence_secret_reason (''hi'' @ [char_LF] @ ''ok'') = None"
    by (simp add: high_confidence_secret_reason_def secret_patterns_def match_aws_def match_github_def match_slack_def
        char_LF_def Let_def)
  have "accepted_content rx ''hi'' ''ok'' ([], None) n"
    using n assms(2) s
    by (simp add: accepted_content_def assms(1) demo_context_def rendered_token_count_def chat_renderer_def
        rendered_training_length_def tokenizer_eos_id_def chat_eos_def)
  moreover have "is_hex_id (replicate 32 (CHR ''a''))" by (simp add: is_hex_id_def lower_hex_def list_all_iff)
  ultimately show ?thesis
    using decide_row_accepts [of rx path i row] t l m row(1) by blast
qed

lemma demo_context_groups: "demo_context = demo_context\<lparr>rx_contaminated_groups := []\<rparr>"
  "second_pass demo_context [] = demo_context" by (simp_all add: second_pass_def demo_context_def)

lemma demo_decides:
  "\<exists>d. decide_row demo_context path i (read_columns decision_columns demo_row) = Inr d"
  "\<exists>d. decide_row demo_context path i
     (read_columns decision_columns (JObj [(''id'', JStr ''bad''), (''output'', JStr ''mbpp'')])) = Inr d"
proof -
  show "\<exists>d. decide_row demo_context path i (read_columns decision_columns demo_row) = Inr d"
    using demo_accepts [OF demo_context_groups(1), of "read_columns decision_columns demo_row" path i] by auto
  have "jget (read_columns decision_columns (JObj [(''id'', JStr ''bad''), (''output'', JStr ''mbpp'')])) ''id'' = JStr ''bad''"
    by (simp add: decision_columns_def jfield_def)
  then show "\<exists>d. decide_row demo_context path i
     (read_columns decision_columns (JObj [(''id'', JStr ''bad''), (''output'', JStr ''mbpp'')])) = Inr d"
    by (simp add: decide_row_def string_field_def is_hex_id_def Let_def reject_def make_decision_def)
qed

lemma demo_process:
  assumes "i < length demo_shards"
  shows "\<exists>r. process_shard demo_context n (demo_shards ! i) = Inr r"
proof -
  let ?shard = "demo_shards ! i"
  have "i = 0 \<or> i = 1" using assms by (auto simp: demo_shards_def)
  then consider "i = 0" | "i = 1" by blast
  then have "\<exists>ds. row_decisions demo_context (ss_path ?shard) 0 (decided_from ?shard) = Inr ds"
  proof cases
    case 1
    obtain d where d: "decide_row demo_context ''a.parquet'' 0 (read_columns decision_columns demo_row) = Inr d"
      using demo_decides(1) ..
    obtain d' where "decide_row demo_context ''a.parquet'' (Suc 0)
        (read_columns decision_columns (JObj [(''id'', JStr ''bad''), (''output'', JStr ''mbpp'')])) = Inr d'"
      using demo_decides(2) ..
    with d show ?thesis by (simp add: 1 demo_shards_def decided_from_def)
  next
    case 2
    obtain d where "decide_row demo_context ''b.parquet'' 0 (read_columns decision_columns demo_row) = Inr d"
      using demo_decides(1) ..
    then show ?thesis by (simp add: 2 demo_shards_def decided_from_def)
  qed
  moreover have "length (ss_rows ?shard) = ss_expected_rows ?shard" using assms by (auto simp: demo_shards_def less_Suc_eq)
  ultimately show ?thesis
    using process_shard_rows [where rx = demo_context and shard = ?shard and n = n] by auto
qed

lemma demo_scan:
  assumes "i < length demo_shards"
  shows "\<exists>p. scan_contamination_shard demo_library demo_reason (demo_shards ! i) = Inr p"
proof -
  let ?shard = "demo_shards ! i"
  have "length (ss_rows ?shard) = ss_expected_rows ?shard" using assms by (auto simp: demo_shards_def less_Suc_eq)
  then show ?thesis
    using scan_rows [where lib = demo_library and reason = demo_reason and groups = "[]" and reasons = "[]"
        and k = 0 and rows = "map (read_columns scan_columns) (ss_rows ?shard)"]
    by (auto simp: scan_contamination_shard_def split: prod.splits)
qed

lemma demo_groups: "all_groups demo_context demo_reason demo_shards = []"
proof -
  have "\<not> scan_hit demo_library demo_reason demo_row"
    by (simp add: scan_hit_def demo_row_fields content_for_benchmark_scan_def str_or_empty_def demo_reason_def
        char_LF_def) (simp add: demo_row_def jfield_def)
  then have "hit_groups demo_library demo_reason demo_shards = {}"
    by (auto simp: hit_groups_def demo_shards_def jfield_def)
  then show ?thesis by (simp add: all_groups_def demo_context_def)
qed

lemma rev_order: "any_order rev" "any_order (\<lambda>xs. xs)"
  by (simp_all add: any_order_def)

lemma demo_prepare:
  assumes "curation_state ''id'' demo_context demo_reason demo_shards m w" and "any_order so" and "any_order po"
  shows "\<exists>rs w'. prepare_dataset ''id'' demo_context demo_reason n demo_shards so po w = Inr (rs, w')"
proof (rule prepare_dataset_succeeds [OF curation_state_ok [OF assms(1)] assms(2,3)])
  show "\<exists>p. scan_contamination_shard (rx_library demo_context) demo_reason (demo_shards ! i) = Inr p"
    if "i < length demo_shards" for i using demo_scan [OF that] by (simp add: demo_context_def)
  show "\<exists>r. process_shard (second_pass demo_context (all_groups demo_context demo_reason demo_shards)) n (demo_shards ! i) = Inr r"
    if "i < length demo_shards" for i using demo_process [OF that] by (simp add: demo_groups demo_context_groups(2))
qed


section \<open>Properties\<close>

text \<open>What a finished run has computed, from whatever its work directory held.\<close>

lemma finished_run:
  assumes "curation_state identity rx reason shards m w" and "any_order so" and "any_order po"
    and "prepare_dataset identity rx reason n shards so po w = Inr (rs, w')"
  obtains groups where "groups = all_groups rx reason shards" "set groups = hit_groups (rx_library rx) reason shards"
    "length rs = length shards"
    "\<forall>i < length shards. \<exists>n. process_shard (second_pass rx groups) n (shards ! i) = Inr (rs ! i)"
  using prepare_dataset_Inr [OF curation_state_ok [OF assms(1)] assms(2-4)] that by blast

lemma processed_examples:
  assumes "process_shard rx n shard = Inr r"
  obtains ds where "row_decisions rx (ss_path shard) 0 (decided_from shard) = Inr ds"
    "file_rows (sr_train r) = accepted_in ''train'' ds" "file_ok (sr_train r)"
    "file_rows (sr_validation r) = accepted_in ''validation'' ds" "file_ok (sr_validation r)"
    "file_rows (sr_rejected r) = rejected_in (ss_path shard) 0 ds" "file_ok (sr_rejected r)"
    "length (ss_rows shard) = ss_expected_rows shard"
  using process_shard_rows [where rx = rx and shard = shard and n = n] assms by (auto split: sum.splits if_splits)

lemma accepted_in_row:
  assumes "row_decisions rx path k rows = Inr ds" and "e \<in> set (accepted_in split ds)"
  obtains i row d where "i < length rows" "row = rows ! i" "decide_row rx path (k + i) row = Inr d" "de_example d = Some e"
    "ce_split e = split"
proof -
  from assms(2) obtain d where d: "d \<in> set ds" "de_example d = Some e" "ce_split e = split"
    by (auto simp: accepted_in_def map_filter_def)
  then obtain i where i: "i < length ds" "d = ds ! i" by (auto simp: in_set_conv_nth)
  from assms(1) have l: "list_all2 (\<lambda>(i, row) d. decide_row rx path i row = Inr d) (List.enumerate k rows) ds"
    by (auto simp: row_decisions_def mapM_eq_Inr elim!: list_all2_mono)
  then have "length ds = length rows" by (auto dest: list_all2_lengthD)
  with l i show thesis using d by (intro that [of i "rows ! i" d]) (auto simp: list_all2_conv_all_nth nth_enumerate_eq)
qed

text \<open>C35: Nothing leaks. In a finished curation run, started on whatever work directory earlier runs of
  the curation left, no prompt group that any benchmark hit touched, in any shard, has an example in any
  train or validation file; and no prompt group has examples in both splits.\<close>

theorem curation_leaks_nothing:
  assumes "curation_state identity rx reason shards m w" and "any_order so" and "any_order po"
    and "prepare_dataset identity rx reason n shards so po w = Inr (rs, w')"
  shows "(\<forall>r\<in>set rs. \<forall>e\<in>set (file_rows (sr_train r)) \<union> set (file_rows (sr_validation r)).
       ce_group e \<notin> hit_groups (rx_library rx) reason shards) \<and>
     (\<forall>r\<in>set rs. \<forall>r'\<in>set rs. \<forall>e\<in>set (file_rows (sr_train r)). \<forall>e'\<in>set (file_rows (sr_validation r')).
       ce_group e \<noteq> ce_group e')"
proof -
  obtain groups where g: "set groups = hit_groups (rx_library rx) reason shards" and len: "length rs = length shards"
    and p: "\<forall>i < length shards. \<exists>n. process_shard (second_pass rx groups) n (shards ! i) = Inr (rs ! i)"
    by (rule finished_run [OF assms])
  have row: "ce_group e \<notin> set groups \<and> ce_split e = split_for_group (rx_split rx) (ce_group e) \<and>
      (e \<in> set (file_rows (sr_train r)) \<longrightarrow> ce_split e = ''train'') \<and>
      (e \<in> set (file_rows (sr_validation r)) \<longrightarrow> ce_split e = ''validation'')"
    if r: "r \<in> set rs" and e: "e \<in> set (file_rows (sr_train r)) \<union> set (file_rows (sr_validation r))" for r e
  proof -
    from r len p obtain shard k where "process_shard (second_pass rx groups) k shard = Inr r"
      by (metis in_set_conv_nth)
    then obtain ds where ds: "row_decisions (second_pass rx groups) (ss_path shard) 0 (decided_from shard) = Inr ds"
      "file_rows (sr_train r) = accepted_in ''train'' ds" "file_rows (sr_validation r) = accepted_in ''validation'' ds"
      by (rule processed_examples)
    from e ds(2,3) obtain split where "e \<in> set (accepted_in split ds)" by auto
    then obtain i row d where "decide_row (second_pass rx groups) (ss_path shard) (0 + i) row = Inr d" "de_example d = Some e"
      by (rule accepted_in_row [OF ds(1)])
    then have "ce_group e \<notin> set groups" "ce_split e = split_for_group (rx_split rx) (ce_group e)"
      by (rule accepted_row_fields, simp add: second_pass_def)+
    then show ?thesis unfolding ds(2,3) by (auto simp: accepted_in_def)
  qed
  have "ce_group e \<noteq> ce_group e'" if "r \<in> set rs" "r' \<in> set rs" "e \<in> set (file_rows (sr_train r))"
    "e' \<in> set (file_rows (sr_validation r'))" for r r' e e'
  proof
    assume "ce_group e = ce_group e'"
    with row [of r e] row [of r' e'] that have "''train'' = ''validation''" by (metis UnI1 UnI2)
    then show False by simp
  qed
  with row g show ?thesis by blast
qed

theorem curation_leaks_nothing_witness:
  "\<exists>rs w'. prepare_dataset ''id'' demo_context demo_reason 3 demo_shards rev (\<lambda>xs. xs) empty_work = Inr (rs, w') \<and>
     (\<forall>r\<in>set rs. \<forall>e\<in>set (file_rows (sr_train r)). ce_group e \<notin> hit_groups demo_library demo_reason demo_shards)"
proof -
  note fresh = curation_fresh [of "''id''" demo_context demo_reason demo_shards]
  obtain rs w' where r: "prepare_dataset ''id'' demo_context demo_reason 3 demo_shards rev (\<lambda>xs. xs) empty_work = Inr (rs, w')"
    using demo_prepare [OF fresh rev_order] by blast
  from curation_leaks_nothing [OF fresh rev_order r] r show ?thesis by (auto simp: demo_context_def)
qed

text \<open>C36: Acceptance is exact. A row becomes an example precisely when its id is 32 hexadecimal
  digits, both texts are non-blank, free of NUL and within their byte limits, the domain and the
  algorithm are known, the score is in range and high enough, the metadata passes when it is looked
  at, its prompt group is not contaminated, no benchmark or secret is found, and it renders to at
  least two tokens that fit the context; the example then carries exactly those columns, the group of
  its prompt, and the split of that group.\<close>

theorem acceptance_is_exact:
  "(\<exists>d. decide_row rx path i row = Inr d \<and> de_example d = Some e) \<longleftrightarrow>
     (\<exists>ident prompt completion domain algorithm score metadata tokens.
        jget row ''id'' = JStr ident \<and> is_hex_id ident \<and>
        jget row ''input'' = JStr prompt \<and> jget row ''output'' = JStr completion \<and>
        py_strip prompt \<noteq> [] \<and> py_strip completion \<noteq> [] \<and>
        CHR 0x00 \<notin> set prompt \<and> CHR 0x00 \<notin> set completion \<and>
        utf8_length prompt \<le> fp_max_prompt_bytes (rx_filter rx) \<and>
        utf8_length completion \<le> fp_max_completion_bytes (rx_filter rx) \<and>
        jget row ''domain'' = JStr domain \<and> domain \<in> {''generic'', ''algorithmic''} \<and>
        jget row ''generation_algorithm'' = JStr algorithm \<and> algorithm \<in> {''self-instruct'', ''evol-instruct''} \<and>
        float_of (jget row ''average_test_score'') = Inr score \<and> 0 \<le> score \<and> score \<le> 1 \<and>
        fp_min_score (rx_filter rx) \<le> score \<and>
        decide_metadata (rx_library rx) (rx_filter rx) (rx_contamination rx \<noteq> None) row = Inr metadata \<and>
        accepted_content rx prompt completion metadata tokens \<and>
        e = accepted_example rx path i ident prompt completion (domain, algorithm, score) tokens)"
proof -
  have "(\<exists>labels. decide_labels (rx_filter rx) row = Inr labels \<and> P labels) \<longleftrightarrow>
      (\<exists>domain algorithm score. decide_labels (rx_filter rx) row = Inr (domain, algorithm, score) \<and>
        P (domain, algorithm, score))" for P by auto
  then show ?thesis
    unfolding decide_row_accepts decide_text_Inr decide_labels_Inr by (auto simp: decide_labels_Inr)
qed



lemma decided_once:
  assumes "row_decisions rx path k rows = Inr ds"
  shows "mset (map ce_row (accepted_in ''train'' ds)) + mset (map ce_row (accepted_in ''validation'' ds)) +
     mset (map rj_row (rejected_in path k ds)) = mset [k..<k + length rows]"
  using assms
proof (induction rows arbitrary: k ds)
  case Nil
  then show ?case by (simp add: accepted_in_def rejected_in_def map_filter_def)
next
  case (Cons row rows)
  from Cons.prems obtain d es where d: "decide_row rx path k row = Inr d" "row_decisions rx path (Suc k) rows = Inr es"
    and ds: "ds = d # es" by (auto simp: rbind_eq_Inr)
  note ih = Cons.IH [OF d(2)]
  have upt: "mset [k..<k + length (row # rows)] = add_mset k (mset [Suc k..<Suc k + length rows])"
  proof -
    have "[k..<k + length (row # rows)] = k # [Suc k..<Suc k + length rows]" by (subst upt_conv_Cons) simp_all
    then show ?thesis by (simp only: mset.simps)
  qed
  show ?case
  proof (cases "de_example d")
    case (Some e)
    obtain prompt where r: "ce_row e = k" "ce_split e = split_for_group (rx_split rx) (ce_group e)"
      by (rule accepted_row_fields [OF d(1) Some])
    with accepted_split [of "rx_split rx" "ce_group e"] consider "ce_split e = ''train''" | "ce_split e = ''validation''"
      by auto
    then show ?thesis unfolding upt ih [symmetric]
      by cases (simp_all add: ds accepted_in_def rejected_in_def map_filter_simps Some r(1))
  next
    case None
    then show ?thesis unfolding upt ih [symmetric]
      by (simp add: ds accepted_in_def rejected_in_def map_filter_simps reject_row_def)
  qed
qed

text \<open>C38: Every row is decided once. A processed shard's train, validation and rejected files together
  hold each source row number exactly once, and every file that exists is non-empty and records
  the number of rows it holds.\<close>

theorem every_row_is_decided_once:
  assumes "process_shard rx n shard = Inr r"
  shows "mset (map ce_row (file_rows (sr_train r))) + mset (map ce_row (file_rows (sr_validation r))) +
       mset (map rj_row (file_rows (sr_rejected r))) = mset [0..<ss_expected_rows shard] \<and>
     file_ok (sr_train r) \<and> file_ok (sr_validation r) \<and> file_ok (sr_rejected r)"
proof -
  obtain ds where d: "row_decisions rx (ss_path shard) 0 (decided_from shard) = Inr ds"
    and f: "file_rows (sr_train r) = accepted_in ''train'' ds" "file_ok (sr_train r)"
      "file_rows (sr_validation r) = accepted_in ''validation'' ds" "file_ok (sr_validation r)"
      "file_rows (sr_rejected r) = rejected_in (ss_path shard) 0 ds" "file_ok (sr_rejected r)"
    and len: "length (ss_rows shard) = ss_expected_rows shard" by (rule processed_examples [OF assms])
  from decided_once [OF d] f len show ?thesis by simp
qed

theorem every_row_is_decided_once_witness:
  "\<exists>r. process_shard demo_context 5 (demo_shards ! 0) = Inr r \<and>
     mset (map ce_row (file_rows (sr_train r))) + mset (map ce_row (file_rows (sr_validation r))) +
       mset (map rj_row (file_rows (sr_rejected r))) = {#0, 1#}"
proof -
  obtain r where p: "process_shard demo_context 5 (demo_shards ! 0) = Inr r" using demo_process [of 0 5]
    by (auto simp: demo_shards_def)
  have "ss_expected_rows (demo_shards ! 0) = 2" by (simp add: demo_shards_def)
  with every_row_is_decided_once [OF p] p show ?thesis by (auto simp: upt_rec numeral_2_eq_2)
qed

text \<open>C39: What is accepted is what is trained on. With the chat format as renderer, the messages of an
  accepted example render, to exactly the recorded number of tokens; the ids end in their only EOS,
  and without the shifted-out position they fit the context.\<close>

theorem accepted_examples_render:
  assumes "new_chat_format tk = Inr f" and "rx_renderer rx = chat_renderer f"
    and "decide_row rx path i row = Inr d" and "de_example d = Some e"
  shows "\<exists>ids. render_ids f (ce_messages e) False = Inr (ids @ [chat_eos]) \<and> chat_eos \<notin> set ids \<and>
     Suc (length ids) = ce_tokens e \<and> int (length ids) \<le> rx_max_sequence_length rx"
proof -
  obtain prompt completion where m: "ce_messages e = training_messages (JStr prompt) (JStr completion)"
    and t: "rendered_token_count (rx_renderer rx) prompt completion = Inr (ce_tokens e)"
    and le: "int (ce_tokens e) - 1 \<le> rx_max_sequence_length rx" by (rule accepted_row_fields [OF assms(3,4)])
  from t obtain ids where ids: "render_ids f (ce_messages e) False = Inr ids" "length ids = ce_tokens e"
    by (auto simp: rendered_token_count_def assms(2) chat_renderer_def rendered_length_def rbind_eq_Inr m split: if_splits)
  obtain p body where "ids = p @ body @ [chat_eos]" "chat_eos \<notin> set (p @ body)"
    by (rule training_pair_ids [OF assms(1) ids(1) [unfolded m]])
  with ids le show ?thesis by (intro exI [of _ "p @ body"]) auto
qed

theorem accepted_examples_render_witness:
  "\<exists>d e ids. decide_row demo_context ''a.parquet'' 0 demo_row = Inr d \<and> de_example d = Some e \<and>
     render_ids demo_format (ce_messages e) False = Inr (ids @ [chat_eos]) \<and> int (length ids) \<le> 4096"
proof -
  have rx: "demo_context = demo_context\<lparr>rx_contaminated_groups := []\<rparr>" by (simp add: demo_context_def)
  obtain d e where d: "decide_row demo_context ''a.parquet'' 0 demo_row = Inr d" "de_example d = Some e"
    using demo_accepts [OF rx, of demo_row "''a.parquet''" 0] by auto
  have "rx_renderer demo_context = chat_renderer demo_format" "rx_max_sequence_length demo_context = 4096"
    by (simp_all add: demo_context_def)
  with accepted_examples_render [OF demo_new_format _ d] d show ?thesis by auto
qed

end
