(* ===== verification/GuardProps.thy ===== *)
theory GuardProps
  imports BenchmarkGuard
begin

text \<open>
  The property of the benchmark denylist: what went into the manifest is found again.
\<close>

section \<open>A manifest the witness uses\<close>












section \<open>The property\<close>



end
