(* ===== verification/TrainState.thy ===== *)
theory TrainState
  imports Sampler
begin

text \<open>
  The settings and the progress of a training run, from \<^verbatim>\<open>pretrain/train.py\<close>:
  \<^verbatim>\<open>TrainConfig\<close> with the checks of its constructor, the learning-rate schedule,
  \<^verbatim>\<open>TrainState\<close> and its dictionary form, and the canonical training geometry. A float is
  \<^verbatim>\<open>None\<close> when it is not finite; \<^verbatim>\<open>math.cos\<close> is a parameter.
\<close>

type_synonym pyfloat = "rat option"

section \<open>TrainConfig\<close>

record train_config =
  tc_max_steps :: int
  tc_gmr :: int
  tc_ga :: int
  tc_learning_rate :: pyfloat
  tc_min_learning_rate :: pyfloat
  tc_warmup_steps :: int
  tc_weight_decay :: pyfloat
  tc_beta1 :: pyfloat
  tc_beta2 :: pyfloat
  tc_adam_eps :: pyfloat
  tc_max_grad_norm :: pyfloat
  tc_precision :: string
  tc_seed :: int
  tc_deterministic :: bool
  tc_compile_model :: bool
  tc_log_every :: int
  tc_checkpoint_every :: int
  tc_eval_every :: int
  tc_eval_at_start :: json
  tc_fused_adamw :: "bool option"

definition finite_fields :: "train_config \<Rightarrow> pyfloat list" where
  "finite_fields c = [tc_learning_rate c, tc_min_learning_rate c, tc_weight_decay c, tc_beta1 c, tc_beta2 c,
     tc_adam_eps c, tc_max_grad_norm c]"

definition check_train_config :: "train_config \<Rightarrow> unit res" where
  "check_train_config c =
     (if list_ex (\<lambda>v. v = None) (finite_fields c)
      then Inl (ValueError ''Optimizer hyperparameters must be finite'')
      else let lr = the (tc_learning_rate c); mlr = the (tc_min_learning_rate c);
               b1 = the (tc_beta1 c); b2 = the (tc_beta2 c) in
      if tc_max_steps c < 1 then Inl (ValueError ''max_steps must be positive'')
      else if tc_gmr c < 1 then Inl (ValueError ''global_microbatch_rows must be positive'')
      else if tc_ga c < 1 then Inl (ValueError ''gradient_accumulation_steps must be positive'')
      else if lr \<le> 0 then Inl (ValueError ''learning_rate must be positive'')
      else if \<not> (0 \<le> mlr \<and> mlr \<le> lr)
      then Inl (ValueError ''min_learning_rate must be in [0, learning_rate]'')
      else if \<not> (0 \<le> tc_warmup_steps c \<and> tc_warmup_steps c \<le> tc_max_steps c)
      then Inl (ValueError ''warmup_steps must be in [0, max_steps]'')
      else if the (tc_weight_decay c) < 0 then Inl (ValueError ''weight_decay must be non-negative'')
      else if \<not> (0 \<le> b1 \<and> b1 < 1) \<or> \<not> (0 \<le> b2 \<and> b2 < 1)
      then Inl (ValueError ''Adam betas must be in [0, 1)'')
      else if the (tc_adam_eps c) \<le> 0 \<or> the (tc_max_grad_norm c) \<le> 0
      then Inl (ValueError ''adam_eps and max_grad_norm must be positive'')
      else if tc_precision c \<notin> {''float32'', ''bfloat16''} then Inl (ValueError ''Unsupported precision'')
      else if tc_seed c < 0 then Inl (ValueError ''seed must be non-negative'')
      else if tc_log_every c < 1 then Inl (ValueError ''log_every must be positive'')
      else if tc_checkpoint_every c < 0 then Inl (ValueError ''checkpoint_every must be non-negative'')
      else if tc_eval_every c < 0 then Inl (ValueError ''eval_every must be non-negative'')
      else if \<not> is_jbool (tc_eval_at_start c) then Inl (TypeError ''eval_at_start must be boolean'')
      else Inr ())"

text \<open>The fields that decide the parameters, as the checkpoint records them.\<close>

definition jfloat :: "pyfloat \<Rightarrow> json" where
  "jfloat v = (case v of None \<Rightarrow> JNull | Some r \<Rightarrow> JFloat r)"

definition trajectory_dict :: "train_config \<Rightarrow> json" where
  "trajectory_dict c = JObj [
     (''max_steps'', JInt (tc_max_steps c)), (''global_microbatch_rows'', JInt (tc_gmr c)),
     (''gradient_accumulation_steps'', JInt (tc_ga c)), (''learning_rate'', jfloat (tc_learning_rate c)),
     (''min_learning_rate'', jfloat (tc_min_learning_rate c)), (''warmup_steps'', JInt (tc_warmup_steps c)),
     (''weight_decay'', jfloat (tc_weight_decay c)), (''beta1'', jfloat (tc_beta1 c)),
     (''beta2'', jfloat (tc_beta2 c)), (''adam_eps'', jfloat (tc_adam_eps c)),
     (''max_grad_norm'', jfloat (tc_max_grad_norm c)), (''precision'', JStr (tc_precision c)),
     (''seed'', JInt (tc_seed c)), (''deterministic'', JBool (tc_deterministic c)),
     (''compile_model'', JBool (tc_compile_model c)),
     (''fused_adamw'', (case tc_fused_adamw c of None \<Rightarrow> JNull | Some b \<Rightarrow> JBool b))]"

section \<open>The learning rate\<close>

text \<open>\<^verbatim>\<open>math.pi\<close>, the double next to \<open>\<pi>\<close>.\<close>

definition py_pi :: rat where "py_pi = 884279719003555 / 281474976710656"

definition learning_rate_for_step :: "(rat \<Rightarrow> rat) \<Rightarrow> train_config \<Rightarrow> int \<Rightarrow> rat res" where
  "learning_rate_for_step py_cos c step =
     (let lr = the (tc_learning_rate c); mlr = the (tc_min_learning_rate c); warmup = tc_warmup_steps c in
      if \<not> (0 \<le> step \<and> step < tc_max_steps c)
      then Inl (ValueError ''step is outside the configured schedule'')
      else if warmup \<noteq> 0 \<and> step < warmup
      then Inr (py_div (py_mul lr (of_int (step + 1))) (of_int warmup))
      else let decay_steps = tc_max_steps c - warmup in
      if decay_steps \<le> 1 then Inr mlr
      else let progress = min (max (py_div (of_int (step - warmup)) (of_int (decay_steps - 1))) 0) 1;
               cosine = py_mul (1 / 2) (py_add 1 (py_cos (py_mul py_pi progress))) in
      Inr (py_add mlr (py_mul cosine (py_sub lr mlr))))"

section \<open>TrainState\<close>

record train_state =
  ts_steps :: int
  ts_microbatches :: int
  ts_rows :: int
  ts_input_tokens :: int
  ts_supervised_tokens :: int
  ts_last_validated :: int
  ts_rows_pd :: "int list"
  ts_input_tokens_pd :: "int list"
  ts_supervised_tokens_pd :: "int list"

definition initial_train_state :: train_state where
  "initial_train_state = \<lparr>ts_steps = 0, ts_microbatches = 0, ts_rows = 0, ts_input_tokens = 0,
     ts_supervised_tokens = 0, ts_last_validated = 0, ts_rows_pd = [0, 0, 0], ts_input_tokens_pd = [0, 0, 0],
     ts_supervised_tokens_pd = [0, 0, 0]\<rparr>"

definition scalar_fields :: "string list" where
  "scalar_fields = [''completed_steps'', ''completed_microbatches'', ''consumed_rows'', ''consumed_input_tokens'',
     ''consumed_supervised_tokens'', ''last_validated_step'']"

definition domain_fields :: "string list" where
  "domain_fields = [''consumed_rows_per_domain'', ''consumed_input_tokens_per_domain'',
     ''consumed_supervised_tokens_per_domain'']"

text \<open>\<^verbatim>\<open>dataclasses.asdict(self.state)\<close>.\<close>

definition state_json :: "train_state \<Rightarrow> json" where
  "state_json s = JObj (
     zip scalar_fields (map JInt [ts_steps s, ts_microbatches s, ts_rows s, ts_input_tokens s,
       ts_supervised_tokens s, ts_last_validated s]) @
     zip domain_fields (map (per_domain JInt) [ts_rows_pd s, ts_input_tokens_pd s, ts_supervised_tokens_pd s]))"

definition state_from_dict :: "json \<Rightarrow> train_state res" where
  "state_from_dict payload =
     (let num = (\<lambda>k. jint_of (jget payload k)) in
      if \<not> is_jobj payload \<and> \<not> is_jlist payload \<and> \<not> is_jstr payload
      then Inl (TypeError ''object is not iterable'')
      else if set (jkeys payload) \<noteq> set (scalar_fields @ domain_fields)
      then Inl (ValueError ''Invalid train-state keys'')
      else if list_ex (\<lambda>k. \<not> is_jint (jget payload k)) scalar_fields
      then Inl (ValueError ''Train-state scalar counters must be plain integers'')
      else if list_ex (\<lambda>k. num k < 0) scalar_fields
      then Inl (ValueError ''Train-state counters must be non-negative'')
      else if num ''completed_steps'' < num ''last_validated_step''
      then Inl (ValueError ''Train-state validation step exceeds training progress'')
      else if list_ex (\<lambda>k. \<not> domain_counts (jget payload k)) domain_fields
      then Inl (ValueError ''Invalid train-state per-domain counter'')
      else Inr \<lparr>ts_steps = num ''completed_steps'', ts_microbatches = num ''completed_microbatches'',
        ts_rows = num ''consumed_rows'', ts_input_tokens = num ''consumed_input_tokens'',
        ts_supervised_tokens = num ''consumed_supervised_tokens'', ts_last_validated = num ''last_validated_step'',
        ts_rows_pd = domain_ints (jget payload ''consumed_rows_per_domain''),
        ts_input_tokens_pd = domain_ints (jget payload ''consumed_input_tokens_per_domain''),
        ts_supervised_tokens_pd = domain_ints (jget payload ''consumed_supervised_tokens_per_domain'')\<rparr>)"

section \<open>The training geometry\<close>

definition geometry_fields :: "string list" where
  "geometry_fields = [''global_microbatch_rows'', ''gradient_accumulation_steps'', ''optimizer_update_rows'',
     ''optimizer_updates'', ''consumed_global_microbatches'', ''sequence_length'', ''consumed_rows'',
     ''dropped_rows'', ''consumed_input_tokens'', ''dropped_input_tokens'', ''consumed_supervised_tokens'',
     ''dropped_supervised_tokens'', ''consumed_input_tokens_per_domain'',
     ''consumed_supervised_tokens_per_domain'']"

definition geometry_positive :: "string list" where
  "geometry_positive = [''global_microbatch_rows'', ''gradient_accumulation_steps'', ''optimizer_update_rows'',
     ''optimizer_updates'', ''consumed_global_microbatches'', ''sequence_length'', ''consumed_rows'',
     ''consumed_input_tokens'']"

definition geometry_nonnegative :: "string list" where
  "geometry_nonnegative = [''dropped_rows'', ''dropped_input_tokens'', ''consumed_supervised_tokens'',
     ''dropped_supervised_tokens'']"

definition check_geometry_domain :: "json \<Rightarrow> string \<Rightarrow> unit res" where
  "check_geometry_domain g domain =
     (let input = jint_of (jget (jget g ''consumed_input_tokens_per_domain'') domain);
          supervised = jint_of (jget (jget g ''consumed_supervised_tokens_per_domain'') domain) in
      if input mod jint_of (jget g ''sequence_length'') \<noteq> 0
      then Inl (ValueError ''Training geometry per-domain input tokens are not whole packed rows'')
      else if input < supervised
      then Inl (ValueError ''Training geometry per-domain supervised tokens exceed inputs'')
      else Inr ())"

definition canonical_training_geometry :: "json \<Rightarrow> json res" where
  "canonical_training_geometry geometry =
     (let g = sort_keys geometry; num = (\<lambda>k. jint_of (jget g k));
          inconsistent = (\<lambda>k t. \<not> domain_counts (jget g k) \<or> sum_list (domain_ints (jget g k)) \<noteq> num t) in
      if geometry = JNull then Inr JNull
      else if set (jkeys geometry) \<noteq> set geometry_fields
      then Inl (ValueError ''Training geometry schema mismatch'')
      else if list_ex (\<lambda>k. \<not> positive_int (jget g k)) geometry_positive
      then Inl (ValueError ''Training geometry positive counters must be positive integers'')
      else if list_ex (\<lambda>k. \<not> nonnegative_int (jget g k)) geometry_nonnegative
      then Inl (ValueError ''Training geometry token/tail counters must be non-negative integers'')
      else if num ''optimizer_update_rows'' \<noteq> num ''global_microbatch_rows'' * num ''gradient_accumulation_steps''
      then Inl (ValueError ''Training geometry optimizer_update_rows is inconsistent'')
      else if num ''consumed_global_microbatches'' \<noteq> num ''optimizer_updates'' * num ''gradient_accumulation_steps''
      then Inl (ValueError ''Training geometry consumed microbatches are inconsistent'')
      else if num ''consumed_rows'' \<noteq> num ''optimizer_updates'' * num ''optimizer_update_rows''
      then Inl (ValueError ''Training geometry consumed rows are inconsistent'')
      else if num ''consumed_input_tokens'' \<noteq> num ''consumed_rows'' * num ''sequence_length''
      then Inl (ValueError ''Training geometry consumed input tokens are inconsistent'')
      else if num ''dropped_input_tokens'' \<noteq> num ''dropped_rows'' * num ''sequence_length''
      then Inl (ValueError ''Training geometry dropped input tokens are inconsistent'')
      else if num ''consumed_input_tokens'' < num ''consumed_supervised_tokens''
      then Inl (ValueError ''Training geometry consumes more supervised than input tokens'')
      else if num ''dropped_input_tokens'' < num ''dropped_supervised_tokens''
      then Inl (ValueError ''Training geometry drops more supervised than input tokens'')
      else if inconsistent ''consumed_input_tokens_per_domain'' ''consumed_input_tokens''
      then Inl (ValueError ''Training geometry consumed_input_tokens_per_domain is inconsistent'')
      else if inconsistent ''consumed_supervised_tokens_per_domain'' ''consumed_supervised_tokens''
      then Inl (ValueError ''Training geometry consumed_supervised_tokens_per_domain is inconsistent'')
      else rbind (mapM (check_geometry_domain g) domain_order) (\<lambda>_. Inr g))"

end
