(* ===== verification/TrainBatch.thy ===== *)
theory TrainBatch
  imports TrainState
begin

text \<open>
  What one optimizer window and one validation pass measure, from \<^verbatim>\<open>pretrain/train.py\<close>:
  the checks on a batch, the per-domain counters, the reduction over the ranks, and
  \<^verbatim>\<open>ValidationRunner\<close>.

  PyTorch is a parameter, the record of the calls the trainer makes: a forward pass in training or
  evaluation mode on a rank with its random state, the backward pass into the rank's gradients, the
  optimizer update from the gradients of all ranks, the draw of a loader's base seed and the sum of
  a float tensor. A job is all its ranks in lockstep, so an \<^verbatim>\<open>all_reduce\<close> sees the list of the
  ranks' values; counters go through a float tensor there, which is exact below \<open>2 ^ 53\<close>. The
  tensors of a batch are int64 and on the CPU. Clocks and device memory are outside the model.
\<close>

record raw_batch =
  rb_input_ids :: "int list list"
  rb_position_ids :: "int list list"
  rb_document_ids :: "int list list"
  rb_labels :: "int list list"
  rb_num_loss_tokens :: "int option"
  rb_domain_ids :: "int list option"

text \<open>\<^verbatim>\<open>CausalLMOutput\<close> as the trainer reads it; a token counter is the list of its elements.\<close>

record model_output =
  mo_loss_sum :: "pyfloat option"
  mo_num_loss_tokens :: "int list option"
  mo_tokens_int64 :: bool
  mo_row_losses :: "pyfloat list option"

record ('m, 'r, 'g) torch_ops =
  op_forward :: "'m \<Rightarrow> 'r \<Rightarrow> raw_batch \<Rightarrow> model_output \<times> 'r"
  op_backward :: "'m \<Rightarrow> 'r \<Rightarrow> raw_batch \<Rightarrow> 'g option \<Rightarrow> 'g"
  op_evaluate :: "'m \<Rightarrow> 'r \<Rightarrow> raw_batch \<Rightarrow> model_output \<times> 'r"
  op_update :: "rat \<Rightarrow> rat \<Rightarrow> rat \<Rightarrow> 'g option list \<Rightarrow> 'm \<Rightarrow> 'm res"
  op_base_seed :: "'r \<Rightarrow> 'r"
  op_sum :: "pyfloat list \<Rightarrow> pyfloat"
  op_cos :: "rat \<Rightarrow> rat"

definition float_add :: "pyfloat \<Rightarrow> pyfloat \<Rightarrow> pyfloat" where
  "float_add a b = (case (a, b) of (Some x, Some y) \<Rightarrow> Some (py_add x y) | _ \<Rightarrow> None)"

section \<open>A batch\<close>

definition supervised_labels :: "int list \<Rightarrow> int" where
  "supervised_labels labels = int (length (filter (\<lambda>l. l \<noteq> ignore_index) labels))"

definition counted_loss_tokens :: "raw_batch \<Rightarrow> int" where
  "counted_loss_tokens b = sum_list (map supervised_labels (rb_labels b))"

definition batch_numel :: "raw_batch \<Rightarrow> int" where
  "batch_numel b = sum_list (map (int \<circ> length) (rb_input_ids b))"

definition move_batch_to_device :: "int \<Rightarrow> raw_batch \<Rightarrow> (raw_batch \<times> int) res" where
  "move_batch_to_device local_batch_size b =
     (let counted = counted_loss_tokens b; shape = (\<lambda>x. map length x) in
      if rb_num_loss_tokens b \<noteq> None \<and> rb_num_loss_tokens b \<noteq> Some counted
      then Inl (ValueError ''Batch num_loss_tokens disagrees with labels'')
      else if list_ex (\<lambda>x. shape x \<noteq> shape (rb_input_ids b)) [rb_position_ids b, rb_document_ids b, rb_labels b]
      then Inl (ValueError ''All four packed tensors must have identical [B, T] shape'')
      else if int (length (rb_input_ids b)) \<noteq> local_batch_size
      then Inl (ValueError ''Local packed-row batch differs from configured microbatch/world size'')
      else case rb_domain_ids b of
        None \<Rightarrow> Inr (b, counted)
      | Some ds \<Rightarrow>
          if int (length ds) \<noteq> local_batch_size
          then Inl (ValueError ''domain_ids must be one int64 CPU value per packed row'')
          else if list_ex (\<lambda>d. d < 0 \<or> int (length domain_order) \<le> d) ds
          then Inl (ValueError ''domain_ids contains an unknown domain'')
          else Inr (b, counted))"

section \<open>Per-domain counters\<close>

record window =
  lw_loss_sum :: pyfloat
  lw_loss_tokens :: int
  lw_model_tokens :: int
  lw_input_tokens :: int
  lw_rows :: int
  lw_domain_losses :: "pyfloat list"
  lw_domain_tokens :: "int list"
  lw_domain_inputs :: "int list"
  lw_domain_rows :: "int list"
  lw_domains :: bool

definition empty_window :: window where
  "empty_window = \<lparr>lw_loss_sum = Some 0, lw_loss_tokens = 0, lw_model_tokens = 0, lw_input_tokens = 0,
     lw_rows = 0, lw_domain_losses = [Some 0, Some 0, Some 0], lw_domain_tokens = [0, 0, 0],
     lw_domain_inputs = [0, 0, 0], lw_domain_rows = [0, 0, 0], lw_domains = True\<rparr>"

text \<open>The values of the rows of one domain.\<close>

definition selected_rows :: "int list \<Rightarrow> int \<Rightarrow> 'a list \<Rightarrow> 'a list" where
  "selected_rows domain_ids d xs = map snd (filter (\<lambda>(e, _). e = d) (zip domain_ids xs))"

definition add_selected :: "int list \<Rightarrow> int list \<Rightarrow> int list \<Rightarrow> int list" where
  "add_selected domain_ids xs acc =
     map (\<lambda>(k, a). a + sum_list (selected_rows domain_ids (int k) xs)) (List.enumerate 0 acc)"

definition accumulate_domain_metrics ::
    "(pyfloat list \<Rightarrow> pyfloat) \<Rightarrow> int list \<Rightarrow> pyfloat list \<Rightarrow> int list \<Rightarrow> int list \<Rightarrow> window \<Rightarrow> window res" where
  "accumulate_domain_metrics tensor_sum domain_ids row_losses token_counts input_counts w =
     (if length row_losses \<noteq> length domain_ids \<or> length token_counts \<noteq> length domain_ids \<or>
         length input_counts \<noteq> length domain_ids
      then Inl (ValueError ''Per-domain metric inputs must be aligned rank-one tensors'')
      else Inr (w\<lparr>
        lw_domain_losses := map (\<lambda>(k, a). float_add a (tensor_sum (selected_rows domain_ids (int k) row_losses)))
          (List.enumerate 0 (lw_domain_losses w)),
        lw_domain_tokens := add_selected domain_ids token_counts (lw_domain_tokens w),
        lw_domain_inputs := add_selected domain_ids input_counts (lw_domain_inputs w),
        lw_domain_rows := add_selected domain_ids (map (\<lambda>_. 1) domain_ids) (lw_domain_rows w)\<rparr>))"

text \<open>\<^verbatim>\<open>labels.ne(-100).sum(dim=1)\<close> and \<^verbatim>\<open>full_like(.., input_ids.shape[1])\<close>.\<close>

definition batch_domain_metrics ::
    "(pyfloat list \<Rightarrow> pyfloat) \<Rightarrow> raw_batch \<Rightarrow> int list \<Rightarrow> pyfloat list \<Rightarrow> window \<Rightarrow> window res" where
  "batch_domain_metrics tensor_sum b domain_ids row_losses w =
     accumulate_domain_metrics tensor_sum domain_ids row_losses (map supervised_labels (rb_labels b))
       (map (int \<circ> length) (rb_input_ids b)) w"

text \<open>The scalar counters of one microbatch.\<close>

definition add_counters :: "raw_batch \<Rightarrow> int \<Rightarrow> pyfloat \<Rightarrow> int \<Rightarrow> window \<Rightarrow> window" where
  "add_counters b token_count loss_sum model_tokens w = w\<lparr>
     lw_loss_sum := float_add (lw_loss_sum w) loss_sum,
     lw_loss_tokens := lw_loss_tokens w + token_count,
     lw_model_tokens := lw_model_tokens w + model_tokens,
     lw_input_tokens := lw_input_tokens w + batch_numel b,
     lw_rows := lw_rows w + int (length (rb_input_ids b))\<rparr>"

section \<open>One training microbatch\<close>

text \<open>The body of the accumulation loop after the forward pass: the checks on its output, then the
  counters. \<open>frozen\<close> says that the run has a frozen geometry.\<close>

definition observe_microbatch ::
    "(pyfloat list \<Rightarrow> pyfloat) \<Rightarrow> bool \<Rightarrow> raw_batch \<Rightarrow> int \<Rightarrow> model_output \<Rightarrow> window \<Rightarrow> window res" where
  "observe_microbatch tensor_sum frozen b token_count out w =
     (case (mo_loss_sum out, mo_num_loss_tokens out) of
        (Some loss_sum, Some tokens) \<Rightarrow>
          if token_count < 1 then Inl (ValueError ''Microbatch contains no supervised tokens'')
          else if \<not> mo_tokens_int64 out \<or> length tokens \<noteq> 1
          then Inl (ValueError ''Model supervised-token counter must be one int64 scalar'')
          else let w1 = add_counters b token_count loss_sum (hd tokens) w in
          (case rb_domain_ids b of
             None \<Rightarrow> if frozen then Inl (ValueError ''Production packed batches must include domain_ids'')
                     else Inr (w1\<lparr>lw_domains := False\<rparr>)
           | Some ds \<Rightarrow> (case mo_row_losses out of
                None \<Rightarrow> Inl (RuntimeError ''Model did not return per-row loss statistics'')
              | Some losses \<Rightarrow> batch_domain_metrics tensor_sum b ds losses w1))
      | _ \<Rightarrow> Inl (RuntimeError ''Model did not return training loss statistics''))"

section \<open>The reduction over the ranks\<close>

text \<open>Per domain: loss sums, supervised tokens, input tokens and rows.\<close>

record domain_stats =
  ds_loss_sums :: "pyfloat list"
  ds_loss_tokens :: "int list"
  ds_input_tokens :: "int list"
  ds_rows :: "int list"

definition sum_columns :: "int list list \<Rightarrow> int list" where
  "sum_columns xss = map (\<lambda>k. sum_list (map (\<lambda>xs. xs ! k) xss)) [0..<length domain_order]"

text \<open>A single process does not reduce.\<close>

definition reduce_floats :: "(pyfloat list \<Rightarrow> pyfloat) \<Rightarrow> pyfloat list \<Rightarrow> pyfloat" where
  "reduce_floats tensor_sum xs = (case xs of [x] \<Rightarrow> x | _ \<Rightarrow> tensor_sum xs)"

definition reduce_domain_stats :: "(pyfloat list \<Rightarrow> pyfloat) \<Rightarrow> window list \<Rightarrow> domain_stats" where
  "reduce_domain_stats tensor_sum ws = \<lparr>
     ds_loss_sums = map (\<lambda>k. reduce_floats tensor_sum (map (\<lambda>w. lw_domain_losses w ! k) ws))
       [0..<length domain_order],
     ds_loss_tokens = sum_columns (map lw_domain_tokens ws),
     ds_input_tokens = sum_columns (map lw_domain_inputs ws),
     ds_rows = sum_columns (map lw_domain_rows ws)\<rparr>"

text \<open>Ranks that disagree on the presence of domain counters reduce tensors of different shapes.\<close>

definition reduce_window_stats ::
    "(pyfloat list \<Rightarrow> pyfloat) \<Rightarrow> window list \<Rightarrow> (pyfloat \<times> int \<times> int \<times> domain_stats option) res" where
  "reduce_window_stats tensor_sum ws =
     (let loss_tokens = sum_list (map lw_loss_tokens ws) in
      if \<not> list_all lw_domains ws \<and> list_ex lw_domains ws
      then Inl (RuntimeError ''all_reduce of tensors of different shapes'')
      else if sum_list (map lw_model_tokens ws) \<noteq> loss_tokens
      then Inl (ValueError ''Model supervised-token counter disagrees with packed batches'')
      else Inr (reduce_floats tensor_sum (map lw_loss_sum ws), loss_tokens,
             sum_list (map lw_input_tokens ws),
             if list_all lw_domains ws then Some (reduce_domain_stats tensor_sum ws) else None))"

text \<open>\<^verbatim>\<open>math.fsum\<close>, the exact sum rounded once, and \<^verbatim>\<open>math.isclose\<close> with both tolerances.\<close>

definition py_fsum :: "pyfloat list \<Rightarrow> pyfloat" where
  "py_fsum xs = (if list_ex (\<lambda>x. x = None) xs then None else Some (fl (sum_list (map the xs))))"

definition is_close_tol :: "rat \<Rightarrow> rat \<Rightarrow> rat \<Rightarrow> rat \<Rightarrow> bool" where
  "is_close_tol rel_tol abs_tol a b \<longleftrightarrow> a = b \<or> (let diff = \<bar>py_sub b a\<bar> in
     diff \<le> \<bar>py_mul rel_tol b\<bar> \<or> diff \<le> \<bar>py_mul rel_tol a\<bar> \<or> diff \<le> abs_tol)"

definition losses_agree :: "pyfloat list \<Rightarrow> rat \<Rightarrow> bool" where
  "losses_agree domain_losses loss_sum = (case py_fsum domain_losses of None \<Rightarrow> False
     | Some t \<Rightarrow> is_close_tol (fl (1 / 10 ^ 5)) (fl (1 / 10 ^ 6)) t loss_sum)"

text \<open>The checks on a window's totals, in the order of the code.\<close>

definition check_window :: "int \<Rightarrow> pyfloat \<times> int \<times> int \<times> domain_stats option \<Rightarrow> unit res" where
  "check_window update_rows totals = (case totals of (loss_sum, loss_tokens, input_tokens, stats) \<Rightarrow>
     (if loss_tokens < 1 then Inl (ValueError ''Accumulation window contains no supervised tokens'')
      else case loss_sum of None \<Rightarrow> Inl (FloatingPointError ''Non-finite training loss'')
      | Some total_loss \<Rightarrow> (case stats of None \<Rightarrow> Inr ()
        | Some ds \<Rightarrow>
            if sum_list (ds_rows ds) \<noteq> update_rows \<or> sum_list (ds_input_tokens ds) \<noteq> input_tokens \<or>
               sum_list (ds_loss_tokens ds) \<noteq> loss_tokens
            then Inl (ValueError ''Per-domain optimizer-window counters do not match global totals'')
            else if \<not> losses_agree (ds_loss_sums ds) total_loss
            then Inl (ValueError ''Per-domain optimizer-window loss sums do not match global loss'')
            else Inr ())))"

section \<open>ValidationRunner\<close>

text \<open>\<^verbatim>\<open>sampler.data_identity\<close>, which \<^verbatim>\<open>_order_data_identity\<close> writes the same way.\<close>

definition order_data_identity :: "string \<Rightarrow> string \<Rightarrow> string" where
  "order_data_identity manifest_sha256 payload_sha256 =
     ''order-manifest-sha256:'' @ manifest_sha256 @ '';order-payload-sha256:'' @ payload_sha256"

definition sampler_data_identity :: "sampler \<Rightarrow> string" where
  "sampler_data_identity s = order_data_identity (sm_manifest_sha256 s) (jstr_of (sm_payload_sha256 s))"

record validation_runner =
  vr_batches :: "raw_batch res list list"
  vr_max_batches :: int
  vr_gmr :: int
  vr_sequence_length :: int
  vr_local_batch :: int
  vr_precision :: string
  vr_world :: nat
  vr_configuration :: "(string \<times> json) list"

text \<open>Over the manifest and the sampler of the loader's order; the batches are given per rank.\<close>

definition new_validation_runner ::
    "json \<Rightarrow> sampler \<Rightarrow> nat \<Rightarrow> nat \<Rightarrow> string \<Rightarrow> int \<Rightarrow> raw_batch res list list \<Rightarrow> validation_runner res" where
  "new_validation_runner m s rank world precision max_batches batches =
     (if max_batches < 1 then Inl (ValueError ''Validation max_batches must be positive'')
      else if jget m ''split'' \<noteq> JStr ''validation''
      then Inl (ValueError ''Validation runner requires the reserved validation split'')
      else if sm_start s \<noteq> 0
      then Inl (ValueError ''Validation must always begin at the immutable order start'')
      else if int (sm_total_microbatches s) < max_batches
      then Inl (ValueError ''Validation max_batches exceeds the complete frozen validation order'')
      else if sm_rank s \<noteq> rank \<or> sm_world s \<noteq> world
      then Inl (ValueError ''Validation sampler rank/world size differs from runtime'')
      else Inr \<lparr>vr_batches = batches, vr_max_batches = max_batches, vr_gmr = int (sm_gmr s),
        vr_sequence_length = sm_sequence_length s, vr_local_batch = int (sm_local_batch s),
        vr_precision = precision, vr_world = world,
        vr_configuration = [
          (''data_identity'', JStr (sampler_data_identity s)), (''max_batches'', JInt max_batches),
          (''global_microbatch_rows'', jnat (sm_gmr s)), (''world_size'', jnat world),
          (''sequence_length'', jget m ''sequence_length''), (''vocab_size'', jget m ''vocab_size''),
          (''tokenizer_manifest_sha256'', jget m ''tokenizer_manifest_sha256'')]\<rparr>)"

text \<open>One batch of a rank.\<close>

definition evaluate_batch ::
    "('m, 'r, 'g) torch_ops \<Rightarrow> int \<Rightarrow> 'm \<Rightarrow> 'r \<times> window \<Rightarrow> raw_batch res \<Rightarrow> ('r \<times> window) res" where
  "evaluate_batch ops local_rows m acc raw = (case acc of (rng, w) \<Rightarrow>
     rbind raw (\<lambda>b0.
     rbind (move_batch_to_device local_rows b0) (\<lambda>(b, token_count).
     let (out, rng') = op_evaluate ops m rng b in
     (case (mo_loss_sum out, mo_num_loss_tokens out) of
        (Some loss_sum, Some tokens) \<Rightarrow>
          if token_count < 1 then Inl (ValueError ''Validation microbatch has no supervised tokens'')
          else if \<not> mo_tokens_int64 out \<or> length tokens \<noteq> 1
          then Inl (ValueError ''Model validation-token counter must be one int64 scalar'')
          else (case (rb_domain_ids b, mo_row_losses out) of
             (Some ds, Some losses) \<Rightarrow>
               rbind (batch_domain_metrics (op_sum ops) b ds losses w) (\<lambda>w1.
               Inr (rng', add_counters b token_count loss_sum (hd tokens) w1))
           | _ \<Rightarrow> Inl (ValueError ''Validation batches require domain IDs and per-row losses''))
      | _ \<Rightarrow> Inl (RuntimeError ''Model did not return validation loss statistics'')))))"

definition evaluate_rank ::
    "('m, 'r, 'g) torch_ops \<Rightarrow> validation_runner \<Rightarrow> 'm \<Rightarrow> 'r \<times> raw_batch res list \<Rightarrow> ('r \<times> window) res" where
  "evaluate_rank ops v m rank = (case rank of (rng, batches) \<Rightarrow>
     (let n = nat (vr_max_batches v) in
      rbind (foldM (evaluate_batch ops (vr_local_batch v) m) (rng, empty_window) (take n batches)) (\<lambda>r.
      if length batches < n
      then Inl (RuntimeError ''Validation order ended before the configured batch count'') else Inr r)))"

record validation_metrics =
  vm_step :: int
  vm_loss :: rat
  vm_loss_sum :: rat
  vm_rows :: int
  vm_input_tokens :: int
  vm_supervised_tokens :: int
  vm_domains :: domain_stats

definition check_validation ::
    "validation_runner \<Rightarrow> pyfloat \<Rightarrow> int \<Rightarrow> int \<Rightarrow> int \<Rightarrow> int \<Rightarrow> domain_stats \<Rightarrow> unit res" where
  "check_validation v loss_sum loss_tokens input_tokens rows model_tokens ds =
     (let T = vr_sequence_length v; expected_rows = vr_max_batches v * vr_gmr v;
          counters = ds_loss_tokens ds @ ds_input_tokens ds @ ds_rows ds in
      if list_ex (\<lambda>n. n < 0) [loss_tokens, input_tokens, rows, model_tokens]
      then Inl (ValueError ''Validation reduced counters must be finite non-negative integers'')
      else if loss_tokens < 1
      then Inl (RuntimeError ''Validation did not produce the configured complete sample'')
      else if rows \<noteq> expected_rows \<or> input_tokens \<noteq> expected_rows * T
      then Inl (ValueError ''Validation global row/input-token accounting disagrees'')
      else if input_tokens < loss_tokens
      then Inl (ValueError ''Validation supervised tokens exceed input tokens'')
      else if model_tokens \<noteq> loss_tokens
      then Inl (ValueError ''Model validation-token counter disagrees with packed batches'')
      else case loss_sum of None \<Rightarrow> Inl (FloatingPointError ''Non-finite validation loss'')
      | Some total_loss \<Rightarrow>
      if list_ex (\<lambda>n. n < 0) counters
      then Inl (ValueError ''Validation per-domain counters must be finite non-negative integers'')
      else if list_ex (\<lambda>x. x = None) (ds_loss_sums ds)
      then Inl (FloatingPointError ''Non-finite validation per-domain loss'')
      else if sum_list (ds_rows ds) \<noteq> rows \<or> sum_list (ds_input_tokens ds) \<noteq> input_tokens \<or>
          sum_list (ds_loss_tokens ds) \<noteq> loss_tokens \<or>
          list_ex (\<lambda>(i, r). i \<noteq> r * T) (zip (ds_input_tokens ds) (ds_rows ds)) \<or>
          list_ex (\<lambda>(l, i). i < l) (zip (ds_loss_tokens ds) (ds_input_tokens ds))
      then Inl (ValueError ''Validation per-domain counters do not match global totals'')
      else if \<not> losses_agree (ds_loss_sums ds) total_loss
      then Inl (ValueError ''Validation per-domain loss sums do not match the global loss sum'')
      else Inr ())"

text \<open>\<^verbatim>\<open>evaluate\<close>: inside \<^verbatim>\<open>preserve_all_rng_state\<close>, so every rank leaves with the random state
  it came with; the loader's iterator draws a base seed that is taken back before the first batch.\<close>

definition evaluate_validation_order ::
    "('m, 'r, 'g) torch_ops \<Rightarrow> validation_runner \<Rightarrow> 'm \<Rightarrow> 'r list \<Rightarrow> int \<Rightarrow> (validation_metrics \<times> 'r list) res" where
  "evaluate_validation_order ops v m rngs step =
     (let saved = rngs; iterator_state = saved; drawn = map (op_base_seed ops) iterator_state;
          restored = map fst (zip iterator_state drawn) in
      rbind (mapM (evaluate_rank ops v m) (zip restored (vr_batches v))) (\<lambda>ranks.
      let ws = map snd ranks; loss_sum = reduce_floats (op_sum ops) (map lw_loss_sum ws);
          total = (\<lambda>f. sum_list (map f ws)); ds = reduce_domain_stats (op_sum ops) ws;
          tokens = total lw_loss_tokens in
      rbind (check_validation v loss_sum tokens (total lw_input_tokens) (total lw_rows)
        (total lw_model_tokens) ds) (\<lambda>_.
      Inr (\<lparr>vm_step = step, vm_loss = py_div (the loss_sum) (of_int tokens), vm_loss_sum = the loss_sum,
             vm_rows = total lw_rows, vm_input_tokens = total lw_input_tokens, vm_supervised_tokens = tokens,
             vm_domains = ds\<rparr>, saved))))"

end
