(* ===== verification/StopControl.thy ===== *)
theory StopControl
  imports PyFloat
begin

text \<open>
  \<^verbatim>\<open>GracefulStopController\<close> of \<^verbatim>\<open>pretrain/train.py\<close>: signals and a supervisor's request
  file become one integer that the training loop polls at safe boundaries. A signal that arrives is
  a call of the installed handler; the file named by the environment is what reading it gives.
\<close>

section \<open>Signals\<close>

text \<open>The POSIX numbers of Linux, in the order of \<^verbatim>\<open>install\<close>: SIGINT, SIGTERM, SIGHUP, SIGUSR1.\<close>

definition handled_signals :: "int list" where
  "handled_signals = [2, 15, 1, 10]"

text \<open>The handler of a signal: the controller's own or another one.\<close>

datatype handler = Controller | Handler string

record stop_controller =
  sc_requested :: int
  sc_previous :: "(int \<times> handler) list"

definition new_stop_controller :: stop_controller where
  "new_stop_controller = \<lparr>sc_requested = 0, sc_previous = []\<rparr>"

definition request_stop :: "int \<Rightarrow> stop_controller \<Rightarrow> stop_controller res" where
  "request_stop value s =
     (if value < 1 then Inl (ValueError ''Stop signal must be positive'')
      else Inr (if sc_requested s = 0 then s\<lparr>sc_requested := value\<rparr> else s))"

definition install_handlers ::
    "(int \<Rightarrow> handler) \<Rightarrow> stop_controller \<Rightarrow> ((int \<Rightarrow> handler) \<times> stop_controller) res" where
  "install_handlers table s =
     (if sc_previous s \<noteq> [] then Inl (RuntimeError ''Graceful stop handlers are already installed'')
      else Inr (foldl (\<lambda>(t, s) n. (t(n := Controller), s\<lparr>sc_previous := sc_previous s @ [(n, t n)]\<rparr>))
             (table, s) handled_signals))"

definition restore_handlers ::
    "(int \<Rightarrow> handler) \<Rightarrow> stop_controller \<Rightarrow> (int \<Rightarrow> handler) \<times> stop_controller" where
  "restore_handlers table s = (foldl (\<lambda>t (n, h). t(n := h)) table (sc_previous s), s\<lparr>sc_previous := []\<rparr>)"

text \<open>A signal reaches the process: only the controller's handler changes its state.\<close>

definition deliver_signal :: "(int \<Rightarrow> handler) \<Rightarrow> stop_controller \<Rightarrow> int \<Rightarrow> stop_controller res" where
  "deliver_signal table s signum = (if table signum = Controller then request_stop signum s else Inr s)"

section \<open>The request file\<close>

text \<open>\<^verbatim>\<open>int(text)\<close>.\<close>

definition python_int :: "string \<Rightarrow> int option" where
  "python_int s =
     (let (neg, t) = scan_sign (py_strip s); (v, n, r) = scan_digits 0 0 t in
      if 0 < n \<and> r = [] then Some (if neg then - int v else int v) else None)"

datatype stop_file = NoStopFile | MissingFile | UnreadableFile | StopFile string

definition poll_external_request :: "stop_file \<Rightarrow> stop_controller \<Rightarrow> stop_controller res" where
  "poll_external_request f s =
     (if sc_requested s \<noteq> 0 then Inr s
      else case f of
        NoStopFile \<Rightarrow> Inr s
      | MissingFile \<Rightarrow> Inr s
      | UnreadableFile \<Rightarrow> Inl (RuntimeError ''Cannot read external stop request'')
      | StopFile content \<Rightarrow> (case python_int (py_strip content) of
            None \<Rightarrow> Inl (RuntimeError ''External stop request is not an integer signal'')
          | Some requested \<Rightarrow>
              if requested \<notin> set handled_signals
              then Inl (RuntimeError ''External stop request has unsupported signal'')
              else request_stop requested s))"

text \<open>What happened to one process since the last poll: the signals delivered, and the file now.\<close>

type_synonym stop_input = "int list \<times> stop_file"

definition poll_controller :: "stop_input \<times> stop_controller \<Rightarrow> stop_controller res" where
  "poll_controller p = (case p of ((signals, f), s) \<Rightarrow>
     rbind (foldM (\<lambda>s n. request_stop n s) s signals) (poll_external_request f))"

text \<open>\<^verbatim>\<open>_distributed_stop_signal\<close> over all ranks; without controllers nothing is requested.\<close>

definition distributed_stop_signal ::
    "stop_input list \<Rightarrow> stop_controller list \<Rightarrow> (int \<times> stop_controller list) res" where
  "distributed_stop_signal inputs controllers =
     rbind (mapM poll_controller (zip inputs controllers)) (\<lambda>polled.
     let controllers' = polled @ drop (length polled) controllers in
     Inr (foldr max (map sc_requested controllers') 0, controllers'))"

end
