(* ===== verification/CheckpointFiles.thy ===== *)
theory CheckpointFiles
  imports Prelude
begin

text \<open>
  The checkpoint generations of a run, from \<^verbatim>\<open>pretrain/train.py\<close>: the names of a lineage,
  \<^verbatim>\<open>_atomic_torch_save\<close> as the sequence of its directory operations, so that a crash is a
  prefix of it, \<^verbatim>\<open>reconcile_checkpoint_temporaries\<close> and \<^verbatim>\<open>CheckpointLease\<close>.

  A directory is an association list from names to entries; an entry is a complete payload, a file
  still being written, or a directory. Symbolic links are outside the model. A directory operation is durable
  once it has happened. Names are those of one directory, without the characters \<^verbatim>\<open>glob\<close>
  interprets.
\<close>

datatype 'p entry = Complete 'p | Unfinished | NotAFile

type_synonym 'p ckpt_dir = "(string \<times> 'p entry) list"

section \<open>Names\<close>

text \<open>\<^verbatim>\<open>Path.suffix\<close> and \<^verbatim>\<open>Path.stem\<close> of a name.\<close>

definition path_suffix :: "string \<Rightarrow> string" where
  "path_suffix name =
     (let ext = rev (takeWhile (\<lambda>c. c \<noteq> CHR ''.'') (rev name)); dot = length name - length ext - 1 in
      if length ext < length name \<and> 0 < dot \<and> ext \<noteq> [] then CHR ''.'' # ext else [])"

definition path_stem :: "string \<Rightarrow> string" where
  "path_stem name = take (length name - length (path_suffix name)) name"

definition previous_name :: "string \<Rightarrow> string" where
  "previous_name name = path_stem name @ ''.previous'' @ path_suffix name"

definition lease_name :: "string \<Rightarrow> string" where
  "lease_name name = ''.'' @ name @ ''.lock''"

definition part_prefix :: "string \<Rightarrow> string" where
  "part_prefix name = ''.'' @ name @ ''.checkpoint-part-''"

definition link_prefix :: "string \<Rightarrow> string" where
  "link_prefix name = ''.'' @ previous_name name @ ''.previous-link-''"

definition starts_with :: "string \<Rightarrow> string \<Rightarrow> bool" where
  "starts_with p s \<longleftrightarrow> take (length p) s = p"

text \<open>A name that does not exist yet, as \<^verbatim>\<open>mkstemp\<close> and the process id with the clock give.\<close>

definition fresh_name :: "string \<Rightarrow> 'p ckpt_dir \<Rightarrow> string" where
  "fresh_name p d = p @ replicate (Suc (foldr max (map (length \<circ> fst) d) 0)) (CHR ''x'')"

section \<open>Publishing a generation\<close>

datatype 'p fs_op =
    CreateFile string
  | WriteFile string 'p
  | Link string string
  | Rename string string
  | SyncDir
  | Unlink string

definition remove_name :: "string \<Rightarrow> 'p ckpt_dir \<Rightarrow> 'p ckpt_dir" where
  "remove_name n d = filter (\<lambda>(m, _). m \<noteq> n) d"

fun apply_op :: "'p fs_op \<Rightarrow> 'p ckpt_dir \<Rightarrow> 'p ckpt_dir" where
  "apply_op (CreateFile n) d = (n, Unfinished) # remove_name n d"
| "apply_op (WriteFile n p) d = (n, Complete p) # remove_name n d"
| "apply_op (Link a b) d = (case map_of d a of None \<Rightarrow> d | Some e \<Rightarrow> (b, e) # remove_name b d)"
| "apply_op (Rename a b) d =
     (case map_of d a of None \<Rightarrow> d | Some e \<Rightarrow> (b, e) # remove_name b (remove_name a d))"
| "apply_op SyncDir d = d"
| "apply_op (Unlink n) d = remove_name n d"

definition run_ops :: "'p fs_op list \<Rightarrow> 'p ckpt_dir \<Rightarrow> 'p ckpt_dir" where
  "run_ops ops d = foldl (\<lambda>d op. apply_op op d) d ops"

text \<open>\<^verbatim>\<open>path.exists() and not preserve_previous\<close>: then the old generation is kept by a hard link.\<close>

definition keeps_previous :: "bool \<Rightarrow> string \<Rightarrow> 'p ckpt_dir \<Rightarrow> bool" where
  "keeps_previous preserve name d \<longleftrightarrow> map_of d name \<noteq> None \<and> \<not> preserve"

definition save_ops :: "bool \<Rightarrow> string \<Rightarrow> 'p \<Rightarrow> 'p ckpt_dir \<Rightarrow> 'p fs_op list" where
  "save_ops preserve name p d =
     (let part = fresh_name (part_prefix name) d; link = fresh_name (link_prefix name) d;
          keep = keeps_previous preserve name d in
      [CreateFile part, WriteFile part p] @
      (if keep then [Link name link] else []) @
      [Rename part name, SyncDir] @
      (if keep then [Rename link (previous_name name)] else []) @
      [SyncDir])"

definition atomic_torch_save :: "bool \<Rightarrow> string \<Rightarrow> 'p \<Rightarrow> 'p ckpt_dir \<Rightarrow> 'p ckpt_dir res" where
  "atomic_torch_save preserve name p d =
     (if map_of d name = Some NotAFile
      then Inl (IOError (if preserve then ''Is a directory'' else ''Checkpoint destination is not a file''))
      else if keeps_previous preserve name d \<and> map_of d (previous_name name) = Some NotAFile
      then Inl (IOError ''Is a directory'')
      else Inr (run_ops (save_ops preserve name p d) d))"

text \<open>The machine stops after \<open>k\<close> operations; or the \<open>k\<close>-th operation raises and the temporaries
  are unlinked.\<close>

definition crashed_save :: "nat \<Rightarrow> bool \<Rightarrow> string \<Rightarrow> 'p \<Rightarrow> 'p ckpt_dir \<Rightarrow> 'p ckpt_dir" where
  "crashed_save k preserve name p d = run_ops (take k (save_ops preserve name p d)) d"

definition failed_save :: "nat \<Rightarrow> bool \<Rightarrow> string \<Rightarrow> 'p \<Rightarrow> 'p ckpt_dir \<Rightarrow> 'p ckpt_dir" where
  "failed_save k preserve name p d =
     run_ops [Unlink (fresh_name (part_prefix name) d), Unlink (fresh_name (link_prefix name) d)]
       (crashed_save k preserve name p d)"

section \<open>Removing what a crash left\<close>

text \<open>One pattern; \<^verbatim>\<open>glob\<close> lists the directory before the first candidate is unlinked.\<close>

definition reconcile_candidate ::
    "string \<Rightarrow> string list \<times> 'p ckpt_dir \<Rightarrow> string \<times> 'p entry \<Rightarrow> (string list \<times> 'p ckpt_dir) res" where
  "reconcile_candidate name acc candidate = (case (acc, candidate) of ((removed, d), (n, e)) \<Rightarrow>
     if n \<in> {name, previous_name name, lease_name name} then Inr (removed, d)
     else case e of NotAFile \<Rightarrow> Inl (IOError ''Unsafe unknown checkpoint temporary candidate'')
       | _ \<Rightarrow> Inr (removed @ [n], remove_name n d))"

definition reconcile_pattern ::
    "string \<Rightarrow> string list \<times> 'p ckpt_dir \<Rightarrow> string \<Rightarrow> (string list \<times> 'p ckpt_dir) res" where
  "reconcile_pattern name acc prefix =
     foldM (reconcile_candidate name) acc (filter (\<lambda>(n, _). starts_with prefix n) (snd acc))"

definition reconcile_temporaries :: "string \<Rightarrow> 'p ckpt_dir \<Rightarrow> (string list \<times> 'p ckpt_dir) res" where
  "reconcile_temporaries name d =
     foldM (reconcile_pattern name) ([], d) [part_prefix name, link_prefix name]"

section \<open>The lease\<close>

text \<open>The advisory locks the kernel holds, by lock file, and whether this object has an open handle.\<close>

type_synonym lock_table = "string \<rightharpoonup> nat"

definition acquire_lease :: "nat \<Rightarrow> string \<Rightarrow> bool \<times> lock_table \<Rightarrow> (bool \<times> lock_table) res" where
  "acquire_lease owner name st = (case st of (held, locks) \<Rightarrow>
     if held then Inl (RuntimeError ''Checkpoint lease is already held'')
     else if locks (lease_name name) \<noteq> None
     then Inl (RuntimeError ''Another trainer holds checkpoint lease'')
     else Inr (True, locks(lease_name name \<mapsto> owner)))"

definition release_lease :: "string \<Rightarrow> bool \<times> lock_table \<Rightarrow> bool \<times> lock_table" where
  "release_lease name st = (case st of (held, locks) \<Rightarrow>
     if held then (False, locks(lease_name name := None)) else (False, locks))"

end
