(* ===== verification/RandomState.thy ===== *)
theory RandomState
  imports Json
begin

text \<open>
  The random states of a rank, from \<^verbatim>\<open>capture_rng_state\<close> and \<^verbatim>\<open>restore_rng_state\<close> of
  \<^verbatim>\<open>pretrain/train.py\<close>: the generators of Python, NumPy and PyTorch on the CPU, and the one of the
  rank's current CUDA device where there is one. The state of a single generator is opaque; setting
  a generator to a state that was read from it is what the libraries document.
\<close>

record 'r rank_rng =
  rr_python :: 'r
  rr_numpy :: 'r
  rr_torch :: 'r
  rr_cuda :: "(int \<times> 'r) option"

text \<open>The index of the current device; \<^verbatim>\<open>None\<close> when CUDA is not available.\<close>

definition rng_device :: "'r rank_rng \<Rightarrow> int option" where
  "rng_device r = map_option fst (rr_cuda r)"

text \<open>The dictionary a checkpoint holds for a rank. A host generator refuses what is not its state.\<close>

datatype 'r cuda_value = DeviceIndex json | CudaGenerator 'r | NoTensor

datatype 'r rng_value = HostGenerator 'r | NoCuda | CudaState "(string \<times> 'r cuda_value) list" | NoGenerator

type_synonym 'r rng_payload = "(string \<times> 'r rng_value) list"

definition capture_rng_state :: "'r rank_rng \<Rightarrow> 'r rng_payload" where
  "capture_rng_state r = [
     (''python'', HostGenerator (rr_python r)), (''numpy'', HostGenerator (rr_numpy r)),
     (''torch_cpu'', HostGenerator (rr_torch r)),
     (''torch_cuda'', case rr_cuda r of None \<Rightarrow> NoCuda
        | Some (index, g) \<Rightarrow> CudaState [(''device_index'', DeviceIndex (JInt index)), (''state'', CudaGenerator g)])]"

definition set_host :: "'r rng_payload \<Rightarrow> string \<Rightarrow> 'r res" where
  "set_host state k = (case map_of state k of
     Some (HostGenerator g) \<Rightarrow> Inr g | _ \<Rightarrow> Inl (TypeError ''not the state of this generator''))"

definition restore_cuda :: "(string \<times> 'r cuda_value) list \<Rightarrow> 'r rank_rng \<Rightarrow> 'r rank_rng res" where
  "restore_cuda m r =
     (if set (map fst m) \<noteq> {''device_index'', ''state''}
      then Inl (ValueError ''Checkpoint CUDA RNG state has an invalid schema'')
      else case rr_cuda r of
        None \<Rightarrow> Inl (RuntimeError ''CUDA RNG state cannot be restored without CUDA'')
      | Some (current, _) \<Rightarrow>
          (case map_of m ''device_index'' of
             Some (DeviceIndex (JInt saved)) \<Rightarrow>
               if saved \<noteq> current
               then Inl (RuntimeError ''Rank-local CUDA device changed across exact resume'')
               else (case map_of m ''state'' of
                   Some (CudaGenerator g) \<Rightarrow> Inr (r\<lparr>rr_cuda := Some (current, g)\<rparr>)
                 | _ \<Rightarrow> Inl (ValueError ''Checkpoint CUDA RNG state must be a tensor''))
           | _ \<Rightarrow> Inl (ValueError ''Checkpoint CUDA RNG device index must be an integer'')))"

definition restore_rng_state :: "'r rng_payload \<Rightarrow> 'r rank_rng \<Rightarrow> 'r rank_rng res" where
  "restore_rng_state state r =
     (if set (map fst state) \<noteq> {''python'', ''numpy'', ''torch_cpu'', ''torch_cuda''}
      then Inl (ValueError ''Checkpoint RNG state must contain exactly the four generators'')
      else rbind (set_host state ''python'') (\<lambda>python.
        rbind (set_host state ''numpy'') (\<lambda>numpy.
        rbind (set_host state ''torch_cpu'') (\<lambda>torch.
        let host = r\<lparr>rr_python := python, rr_numpy := numpy, rr_torch := torch\<rparr> in
        (case map_of state ''torch_cuda'' of
           Some NoCuda \<Rightarrow> Inr host
         | Some (CudaState m) \<Rightarrow> restore_cuda m host
         | _ \<Rightarrow> Inl (ValueError ''Checkpoint CUDA RNG state has an invalid schema''))))))"

section \<open>Restoring what was captured\<close>

text \<open>A captured state is restored exactly on the device it was captured on, and refused by a rank
  without that device; one captured without CUDA leaves the CUDA generator of the rank alone.\<close>

lemma restore_captured:
  "restore_rng_state (capture_rng_state s) r = (case rr_cuda s of
     None \<Rightarrow> Inr (s\<lparr>rr_cuda := rr_cuda r\<rparr>)
   | Some (saved, g) \<Rightarrow> (case rr_cuda r of
       None \<Rightarrow> Inl (RuntimeError ''CUDA RNG state cannot be restored without CUDA'')
     | Some (current, _) \<Rightarrow> if saved \<noteq> current
         then Inl (RuntimeError ''Rank-local CUDA device changed across exact resume'') else Inr s))"
proof -
  have "set (map fst (capture_rng_state s)) = {''python'', ''numpy'', ''torch_cpu'', ''torch_cuda''}"
    by (simp add: capture_rng_state_def)
  then have host: "restore_rng_state (capture_rng_state s) r =
      (let host = r\<lparr>rr_python := rr_python s, rr_numpy := rr_numpy s, rr_torch := rr_torch s\<rparr> in
       case rr_cuda s of None \<Rightarrow> Inr host
       | Some (index, g) \<Rightarrow>
           restore_cuda [(''device_index'', DeviceIndex (JInt index)), (''state'', CudaGenerator g)] host)"
    by (simp add: restore_rng_state_def capture_rng_state_def set_host_def Let_def split: option.split)
  show ?thesis
  proof (cases "rr_cuda s")
    case None
    then show ?thesis unfolding host by (cases s; cases r) simp
  next
    case (Some sg)
    obtain saved g where "sg = (saved, g)" by (cases sg)
    with Some show ?thesis unfolding host
      by (cases "rr_cuda r"; cases s; cases r) (simp_all add: restore_cuda_def Let_def insert_commute split: prod.split)
  qed
qed

definition restore_ranks :: "'r rng_payload list \<Rightarrow> 'r rank_rng list \<Rightarrow> 'r rank_rng list res" where
  "restore_ranks states rngs = mapM (\<lambda>(state, r). restore_rng_state state r) (zip states rngs)"

lemma restore_ranks_Cons:
  "restore_ranks (state # states) (r # rngs) =
     rbind (restore_rng_state state r) (\<lambda>x. rbind (restore_ranks states rngs) (\<lambda>xs. Inr (x # xs)))"
  by (simp add: restore_ranks_def)

lemma restore_same_devices:
  "map rng_device rngs = map rng_device saved \<Longrightarrow> restore_ranks (map capture_rng_state saved) rngs = Inr saved"
proof (induction saved arbitrary: rngs)
  case Nil
  then show ?case by (simp add: restore_ranks_def)
next
  case (Cons s saved)
  then obtain r rs where r: "rngs = r # rs" "rng_device r = rng_device s" "map rng_device rs = map rng_device saved"
    by (cases rngs) auto
  have "restore_rng_state (capture_rng_state s) r = Inr s"
    using r(2) by (cases s; cases r) (auto simp: restore_captured rng_device_def split: option.split)
  with Cons.IH [OF r(3)] show ?case by (simp add: r(1) restore_ranks_Cons)
qed

text \<open>A rank that has a CUDA device where the captured one had none.\<close>

definition no_new_device :: "'r rank_rng \<Rightarrow> 'r rank_rng \<Rightarrow> bool" where
  "no_new_device saved r \<longleftrightarrow> rr_cuda saved = None \<longrightarrow> rr_cuda r = None"

lemma restored_devices:
  "restore_ranks (map capture_rng_state saved) rngs = Inr rngs' \<Longrightarrow> list_all2 no_new_device saved rngs \<Longrightarrow>
     map rng_device rngs = map rng_device saved"
proof (induction saved arbitrary: rngs rngs')
  case Nil
  then show ?case by simp
next
  case (Cons s saved)
  from Cons.prems(2) obtain r rs where r: "rngs = r # rs" "no_new_device s r" "list_all2 no_new_device saved rs"
    by (auto simp: list_all2_Cons1)
  from Cons.prems(1) obtain x xs where x: "restore_rng_state (capture_rng_state s) r = Inr x"
    "restore_ranks (map capture_rng_state saved) rs = Inr xs" by (auto simp: r(1) restore_ranks_Cons rbind_eq_Inr)
  have "rng_device r = rng_device s"
    using x(1) r(2) by (auto simp: restore_captured rng_device_def no_new_device_def split: option.splits if_splits)
  with Cons.IH [OF x(2) r(3)] show ?case by (simp add: r(1))
qed

lemma restore_refused:
  "k < length saved \<Longrightarrow> length rngs = length saved \<Longrightarrow> rng_device (saved ! k) \<noteq> None \<Longrightarrow>
     rng_device (rngs ! k) \<noteq> rng_device (saved ! k) \<Longrightarrow>
     \<exists>e. restore_ranks (map capture_rng_state saved) rngs = Inl (RuntimeError e)"
proof (induction saved arbitrary: rngs k)
  case Nil
  then show ?case by simp
next
  case (Cons s saved)
  from Cons.prems(2) obtain r rs where r: "rngs = r # rs" "length rs = length saved" by (cases rngs) auto
  have one: "(\<exists>x. restore_rng_state (capture_rng_state s) r = Inr x) \<or>
      (\<exists>e. restore_rng_state (capture_rng_state s) r = Inl (RuntimeError e))"
    by (auto simp: restore_captured split: option.split)
  show ?case
  proof (cases k)
    case 0
    with Cons.prems(3,4) have "\<exists>e. restore_rng_state (capture_rng_state s) r = Inl (RuntimeError e)"
      by (auto simp: r(1) restore_captured rng_device_def split: option.splits)
    then show ?thesis by (auto simp: r(1) restore_ranks_Cons)
  next
    case (Suc j)
    with Cons.prems r obtain e where "restore_ranks (map capture_rng_state saved) rs = Inl (RuntimeError e)"
      using Cons.IH [of j rs] by auto
    with one show ?thesis by (auto simp: r(1) restore_ranks_Cons)
  qed
qed

end
