(* ===== verification/Trainer.thy ===== *)
theory Trainer
  imports TrainBatch StopControl CheckpointFiles RandomState
begin

text \<open>
  \<^verbatim>\<open>Trainer\<close> of \<^verbatim>\<open>pretrain/train.py\<close>: construction, checkpoints, the optimizer window,
  validation, graceful stops and the training loop. The state is that of the whole job: its ranks
  run in lockstep, share the counters and the replicated model, and have a random state, gradients
  and a stop controller each. Model and optimizer are one opaque value: a checkpoint holds a copy of
  it, as \<^verbatim>\<open>state_dict\<close> and \<^verbatim>\<open>load_state_dict\<close> make and set one. An exception ends the job. The metrics a step returns are reduced to
  the event the logger would see.
\<close>

section \<open>State\<close>

record 'm checkpoint_payload =
  ck_fields :: json
  ck_model :: 'm

record ('m, 'r) full_checkpoint = "'m checkpoint_payload" +
  ck_rngs :: "'r rng_payload list"

datatype event =
    Updated int rat rat
  | Validated int
  | Saved int
  | Stopped int int

record ('m, 'r, 'g) trainer =
  tr_config :: train_config
  tr_world :: nat
  tr_runtime :: "(string \<times> json) list"
  tr_data_identity :: string
  tr_tokenizer :: "(string \<times> string) option"
  tr_geometry :: json
  tr_validation :: "validation_runner option"
  tr_path :: "string option"
  tr_metadata :: "(string \<times> json) list"
  tr_model :: 'm
  tr_rngs :: "'r rank_rng list"
  tr_grads :: "'g option list"
  tr_state :: train_state
  tr_controllers :: "stop_controller list"
  tr_stop_signal :: int
  tr_preserve :: bool
  tr_last_checkpoint :: "(string \<times> int) option"
  tr_disk :: "('m, 'r) full_checkpoint ckpt_dir"
  tr_inputs :: "stop_input list list"
  tr_log :: "event list"

definition at_start_key :: string where
  "at_start_key = ''validation_at_start_completed''"

section \<open>Construction\<close>

definition eval_at_start :: "train_config \<Rightarrow> bool" where
  "eval_at_start c = (tc_eval_at_start c = JBool True)"

definition validate_at_start_metadata ::
    "validation_runner option \<Rightarrow> train_config \<Rightarrow> (string \<times> json) list \<Rightarrow> unit res" where
  "validate_at_start_metadata v c metadata =
     (let completed = (case map_of metadata at_start_key of None \<Rightarrow> JBool False | Some x \<Rightarrow> x) in
      if \<not> is_jbool completed
      then Inl (ValueError ''Checkpoint validation-at-start completion marker must be boolean'')
      else if completed = JBool True \<and> (v = None \<or> \<not> eval_at_start c)
      then Inl (ValueError ''Checkpoint records validation-at-start without matching runtime authority'')
      else Inr ())"

text \<open>What the caller passes; \<open>ta_seeded\<close> is the random state of each rank after
  \<^verbatim>\<open>seed_everything(config.seed + rank)\<close>, \<open>ta_runtime\<close> the recorded facts about the
  process: versions, implementation digests, model configuration, dtypes and optimizer class.\<close>

record ('m, 'r) trainer_args =
  ta_config :: train_config
  ta_world :: nat
  ta_compiled :: bool
  ta_runtime :: "(string \<times> json) list"
  ta_data_identity :: string
  ta_tokenizer_manifest :: json
  ta_tokenizer_vocabulary :: json
  ta_geometry :: json
  ta_validation :: "validation_runner option"
  ta_path :: "string option"
  ta_metadata :: "(string \<times> json) list"
  ta_model :: 'm
  ta_seeded :: "'r rank_rng list"
  ta_controllers :: "stop_controller list"

definition check_trainer_validation :: "train_config \<Rightarrow> nat \<Rightarrow> validation_runner option \<Rightarrow> unit res" where
  "check_trainer_validation c world v =
     (if (0 < tc_eval_every c \<or> eval_at_start c) \<noteq> (v \<noteq> None)
      then Inl (ValueError ''Validation runner presence must match eval_every/eval_at_start'')
      else case v of None \<Rightarrow> Inr ()
      | Some r \<Rightarrow> if vr_world r \<noteq> world then Inl (ValueError ''Validation world_size mismatch'')
          else if vr_precision r \<noteq> tc_precision c then Inl (ValueError ''Validation precision mismatch'')
          else if vr_gmr r \<noteq> tc_gmr c
          then Inl (ValueError ''Validation global_microbatch_rows mismatch'') else Inr ())"

definition check_trainer_geometry :: "train_config \<Rightarrow> json \<Rightarrow> unit res" where
  "check_trainer_geometry c geometry =
     (if geometry \<noteq> JNull \<and> list_ex (\<lambda>(k, v). jint_of (jget geometry k) \<noteq> v)
         [(''global_microbatch_rows'', tc_gmr c), (''gradient_accumulation_steps'', tc_ga c),
          (''optimizer_updates'', tc_max_steps c)]
      then Inl (ValueError ''TrainConfig differs from frozen order geometry'') else Inr ())"

definition new_trainer ::
    "('m, 'r) trainer_args \<Rightarrow> ('m, 'r) full_checkpoint ckpt_dir \<Rightarrow> stop_input list list \<Rightarrow> ('m, 'r, 'g) trainer res" where
  "new_trainer a disk inputs =
     (let c = ta_config a; tm = ta_tokenizer_manifest a; tv = ta_tokenizer_vocabulary a in
      if ta_data_identity a = [] then Inl (ValueError ''data_identity must not be empty'')
      else if (tm = JNull) \<noteq> (tv = JNull)
      then Inl (ValueError ''tokenizer manifest and vocabulary SHA-256 values must be supplied together'')
      else rbind (optional_sha256 tm) (\<lambda>tm'. rbind (optional_sha256 tv) (\<lambda>tv'.
      if tm' = None \<and> (ta_path a \<noteq> None \<or> 0 < tc_checkpoint_every c)
      then Inl (ValueError ''Checkpointing requires tokenizer manifest and vocabulary SHA-256 identities'')
      else rbind (canonical_training_geometry (ta_geometry a)) (\<lambda>geometry.
      if ta_compiled a \<noteq> tc_compile_model c
      then Inl (ValueError ''TrainConfig.compile_model disagrees with the model wrapper'')
      else if tc_gmr c mod int (ta_world a) \<noteq> 0
      then Inl (ValueError ''global_microbatch_rows must be divisible by world_size'')
      else rbind (check_trainer_validation c (ta_world a) (ta_validation a)) (\<lambda>_.
      rbind (check_trainer_geometry c geometry) (\<lambda>_.
      rbind (validate_at_start_metadata (ta_validation a) c (ta_metadata a)) (\<lambda>_.
      Inr \<lparr>tr_config = c, tr_world = ta_world a, tr_runtime = ta_runtime a,
        tr_data_identity = ta_data_identity a,
        tr_tokenizer = (case (tm', tv') of (Some m, Some v) \<Rightarrow> Some (m, v) | _ \<Rightarrow> None),
        tr_geometry = geometry, tr_validation = ta_validation a, tr_path = ta_path a,
        tr_metadata = ta_metadata a, tr_model = ta_model a, tr_rngs = ta_seeded a,
        tr_grads = replicate (ta_world a) None, tr_state = initial_train_state,
        tr_controllers = ta_controllers a, tr_stop_signal = 0, tr_preserve = False,
        tr_last_checkpoint = None, tr_disk = disk, tr_inputs = inputs, tr_log = []\<rparr>)))))))"

definition local_rows :: "train_config \<Rightarrow> nat \<Rightarrow> int" where
  "local_rows c world = tc_gmr c div int world"

section \<open>Checkpoints\<close>

definition validation_configuration :: "('m, 'r, 'g) trainer \<Rightarrow> json" where
  "validation_configuration t = (case tr_validation t of None \<Rightarrow> JNull
     | Some v \<Rightarrow> JObj (vr_configuration v @ [(''eval_every'', JInt (tc_eval_every (tr_config t))),
          (''eval_at_start'', tc_eval_at_start (tr_config t))]))"

definition jstring :: "string option \<Rightarrow> json" where
  "jstring s = (case s of None \<Rightarrow> JNull | Some x \<Rightarrow> JStr x)"

text \<open>The identities \<^verbatim>\<open>load_checkpoint\<close> compares, by their names in the payload. The record
  \<open>tr_runtime\<close> holds \<^verbatim>\<open>torch_version\<close>, \<^verbatim>\<open>runtime_signature\<close>, \<^verbatim>\<open>implementation_signature\<close>,
  \<^verbatim>\<open>model_config\<close>, \<^verbatim>\<open>parameter_dtypes\<close> and \<^verbatim>\<open>optimizer_class\<close>.\<close>

definition runtime_fact :: "('m, 'r, 'g) trainer \<Rightarrow> string \<Rightarrow> string \<times> json" where
  "runtime_fact t k = (k, jfield (tr_runtime t) k)"

definition checkpoint_identity :: "('m, 'r, 'g) trainer \<Rightarrow> (string \<times> json) list" where
  "checkpoint_identity t = [
     runtime_fact t ''torch_version'', (''world_size'', jnat (tr_world t)),
     runtime_fact t ''runtime_signature'', runtime_fact t ''implementation_signature'',
     (''data_identity'', JStr (tr_data_identity t)),
     (''tokenizer_manifest_sha256'', jstring (map_option fst (tr_tokenizer t))),
     (''tokenizer_vocabulary_sha256'', jstring (map_option snd (tr_tokenizer t))),
     (''training_geometry'', tr_geometry t), (''validation_configuration'', validation_configuration t),
     runtime_fact t ''model_config'', runtime_fact t ''parameter_dtypes'', runtime_fact t ''optimizer_class'',
     (''train_trajectory_config'', trajectory_dict (tr_config t))]"

definition checkpoint_of :: "('m, 'r, 'g) trainer \<Rightarrow> ('m, 'r) full_checkpoint" where
  "checkpoint_of t = \<lparr>
     ck_fields = JObj ([(''format'', JStr ''native-pytorch-pretrain''), (''format_version'', JInt 5)] @
       checkpoint_identity t @ [(''train_state'', state_json (tr_state t)), (''metadata'', JObj (tr_metadata t))]),
     ck_model = tr_model t, ck_rngs = map capture_rng_state (tr_rngs t)\<rparr>"

definition save_checkpoint :: "string option \<Rightarrow> ('m, 'r, 'g) trainer \<Rightarrow> ('m, 'r, 'g) trainer res" where
  "save_checkpoint path t =
     (case (case path of None \<Rightarrow> tr_path t | Some p \<Rightarrow> Some p) of
        None \<Rightarrow> Inl (ValueError ''No checkpoint path was configured'')
      | Some destination \<Rightarrow>
          let key = (destination, ts_steps (tr_state t));
              preserve = (tr_preserve t \<and> tr_path t = Some destination) in
          if tr_tokenizer t = None then Inl (RuntimeError ''Refusing to create an unbound checkpoint'')
          else if tr_last_checkpoint t = Some key then Inr t
          else if list_ex (\<lambda>g. g \<noteq> None) (tr_grads t)
          then Inl (RuntimeError ''Checkpoints are only valid at clean optimizer-step boundaries'')
          else rbind (atomic_torch_save preserve destination (checkpoint_of t) (tr_disk t)) (\<lambda>disk.
            Inr (t\<lparr>tr_disk := disk, tr_preserve := (tr_preserve t \<and> \<not> preserve),
                 tr_last_checkpoint := Some key, tr_log := tr_log t @ [Saved (snd key)]\<rparr>)))"

text \<open>The checks on a candidate state, before and inside the frozen geometry.\<close>

definition check_resumed_validation :: "('m, 'r, 'g) trainer \<Rightarrow> train_state \<Rightarrow> unit res" where
  "check_resumed_validation t s =
     (let c = tr_config t; v = ts_last_validated s in
      if tr_validation t = None
      then if v \<noteq> 0 then Inl (ValueError ''Checkpoint declares validation progress without validation authority'')
           else Inr ()
      else if v \<notin> {0, tc_max_steps c} \<and> (tc_eval_every c = 0 \<or> v mod tc_eval_every c \<noteq> 0)
      then Inl (ValueError ''Checkpoint last_validated_step is not on the configured schedule'')
      else Inr ())"

definition check_resumed_counters :: "train_config \<Rightarrow> train_state \<Rightarrow> unit res" where
  "check_resumed_counters c s =
     (if ts_microbatches s \<noteq> ts_steps s * tc_ga c
      then Inl (ValueError ''Checkpoint was not saved at an accumulation boundary'')
      else if ts_rows s \<noteq> ts_microbatches s * tc_gmr c
      then Inl (ValueError ''Checkpoint consumed_rows does not match completed microbatches'')
      else if ts_input_tokens s < ts_supervised_tokens s
      then Inl (ValueError ''Checkpoint supervised tokens exceed input tokens'')
      else if ts_steps s = 0 \<and> (ts_input_tokens s \<noteq> 0 \<or> ts_supervised_tokens s \<noteq> 0)
      then Inl (ValueError ''Zero-step checkpoint has nonzero token counters'')
      else Inr ())"

definition check_resumed_geometry :: "train_config \<Rightarrow> json \<Rightarrow> train_state \<Rightarrow> unit res" where
  "check_resumed_geometry c g s =
     (let T = jint_of (jget g ''sequence_length''); supervised = jint_of (jget g ''consumed_supervised_tokens'');
          final = (ts_steps s = tc_max_steps c) in
      if g = JNull then Inr ()
      else if ts_input_tokens s \<noteq> ts_microbatches s * tc_gmr c * T
      then Inl (ValueError ''Checkpoint consumed_input_tokens does not match frozen geometry'')
      else if sum_list (ts_rows_pd s) \<noteq> ts_rows s \<or> sum_list (ts_input_tokens_pd s) \<noteq> ts_input_tokens s \<or>
          sum_list (ts_supervised_tokens_pd s) \<noteq> ts_supervised_tokens s
      then Inl (ValueError ''Checkpoint per-domain counters do not sum to global progress'')
      else if list_ex (\<lambda>(r, i, l). i \<noteq> r * T \<or> i < l)
          (zip (ts_rows_pd s) (zip (ts_input_tokens_pd s) (ts_supervised_tokens_pd s)))
      then Inl (ValueError ''Checkpoint per-domain counters are inconsistent'')
      else if supervised < ts_supervised_tokens s
      then Inl (ValueError ''Checkpoint consumed supervised tokens exceed frozen authority'')
      else if final \<and> ts_supervised_tokens s \<noteq> supervised
      then Inl (ValueError ''Final checkpoint supervised tokens differ from frozen authority'')
      else if final \<and> \<not> eq_domains (jget g ''consumed_input_tokens_per_domain'') (ts_input_tokens_pd s)
      then Inl (ValueError ''Final checkpoint consumed_input_tokens_per_domain differs from frozen authority'')
      else if final \<and> \<not> eq_domains (jget g ''consumed_supervised_tokens_per_domain'') (ts_supervised_tokens_pd s)
      then Inl (ValueError ''Final checkpoint consumed_supervised_tokens_per_domain differs from frozen authority'')
      else Inr ())"

definition load_checkpoint :: "string \<Rightarrow> ('m, 'r, 'g) trainer \<Rightarrow> ('m, 'r, 'g) trainer res" where
  "load_checkpoint path t =
     (case map_of (tr_disk t) path of
        None \<Rightarrow> Inl (FileNotFoundError path)
      | Some NotAFile \<Rightarrow> Inl (IOError ''Is a directory'')
      | Some Unfinished \<Rightarrow> Inl (RuntimeError ''PytorchStreamReader failed reading zip archive'')
      | Some (Complete ck) \<Rightarrow>
          let p = ck_fields ck in
          if \<not> is_jobj p then Inl (ValueError ''Checkpoint root must be a dictionary'')
          else if jget p ''format'' \<noteq> JStr ''native-pytorch-pretrain''
          then Inl (ValueError ''Unsupported checkpoint format'')
          else if \<not> eq_int (jget p ''format_version'') 5 then Inl (ValueError ''Unsupported checkpoint version'')
          else if list_ex (\<lambda>(k, v). \<not> py_eq (jget p k) v) (checkpoint_identity t)
          then Inl (ValueError ''Checkpoint identity mismatch'')
          else rbind (jitem p ''train_state'') (\<lambda>payload.
          rbind (state_from_dict payload) (\<lambda>s.
          let metadata = (if ''metadata'' \<in> set (jkeys p) then jget p ''metadata'' else JObj []) in
          if \<not> is_jobj metadata
          then Inl (ValueError ''Checkpoint metadata must be a string-keyed dictionary'')
          else let entries = map (\<lambda>k. (k, jget metadata k)) (jkeys metadata) in
          rbind (validate_at_start_metadata (tr_validation t) (tr_config t) entries) (\<lambda>_.
          if tc_max_steps (tr_config t) < ts_steps s then Inl (ValueError ''Checkpoint is beyond max_steps'')
          else rbind (check_resumed_validation t s) (\<lambda>_.
          rbind (check_resumed_counters (tr_config t) s) (\<lambda>_.
          rbind (check_resumed_geometry (tr_config t) (tr_geometry t) s) (\<lambda>_.
          if length (ck_rngs ck) \<noteq> tr_world t
          then Inl (ValueError ''Checkpoint does not contain one RNG state per rank'')
          else rbind (restore_ranks (ck_rngs ck) (tr_rngs t)) (\<lambda>rngs.
          Inr (t\<lparr>tr_model := ck_model ck, tr_grads := replicate (tr_world t) None, tr_state := s,
                 tr_metadata := entries, tr_rngs := rngs,
                 tr_preserve := (case tr_path t of None \<Rightarrow> tr_preserve t | Some q \<Rightarrow> path = previous_name q),
                 tr_last_checkpoint := Some (path, ts_steps s)\<rparr>)))))))))"

section \<open>One optimizer update\<close>

text \<open>The accumulation loop of a rank: its remaining batches, random state, gradients and counters,
  and how many microbatches the window has consumed.\<close>

definition train_microbatch ::
    "('m, 'r, 'g) torch_ops \<Rightarrow> bool \<Rightarrow> int \<Rightarrow> 'm \<Rightarrow>
     raw_batch res list \<times> 'r \<times> 'g option \<times> window \<times> nat \<Rightarrow>
     (raw_batch res list \<times> 'r \<times> 'g option \<times> window \<times> nat) res" where
  "train_microbatch ops frozen local m acc = (case acc of (batches, rng, grad, w, consumed) \<Rightarrow>
     (case batches of
        [] \<Rightarrow> Inl (RuntimeError (if consumed = 0
            then ''Data iterator ended before max_steps at an accumulation boundary''
            else ''Data iterator ended in the middle of a gradient-accumulation window''))
      | raw # rest \<Rightarrow>
          rbind raw (\<lambda>b0.
          rbind (move_batch_to_device local b0) (\<lambda>(b, token_count).
          let (out, rng') = op_forward ops m rng b in
          rbind (observe_microbatch (op_sum ops) frozen b token_count out w) (\<lambda>w'.
          Inr (rest, rng', Some (op_backward ops m rng b grad), w', Suc consumed))))))"

definition train_window ::
    "('m, 'r, 'g) torch_ops \<Rightarrow> bool \<Rightarrow> int \<Rightarrow> nat \<Rightarrow> 'm \<Rightarrow> raw_batch res list \<times> 'r \<times> 'g option \<Rightarrow>
     (raw_batch res list \<times> 'r \<times> 'g option \<times> window) res" where
  "train_window ops frozen local ga m rank = (case rank of (batches, rng, grad) \<Rightarrow>
     rbind (foldM (\<lambda>acc _. train_microbatch ops frozen local m acc) (batches, rng, grad, empty_window, 0) [0..<ga])
       (\<lambda>(rest, rng', grad', w, _). Inr (rest, rng', grad', w)))"

text \<open>The frozen accounting of the update.\<close>

definition check_projected :: "train_config \<Rightarrow> json \<Rightarrow> train_state \<Rightarrow> int \<Rightarrow> int \<Rightarrow> unit res" where
  "check_projected c g s input_tokens loss_tokens =
     (let update_rows = tc_gmr c * tc_ga c; num = (\<lambda>k. jint_of (jget g k));
          input = ts_input_tokens s + input_tokens; supervised = ts_supervised_tokens s + loss_tokens in
      if g = JNull then Inr ()
      else if input_tokens \<noteq> update_rows * num ''sequence_length''
      then Inl (ValueError ''Optimizer update input-token count differs from frozen geometry'')
      else if num ''consumed_input_tokens'' < input \<or> num ''consumed_supervised_tokens'' < supervised
      then Inl (RuntimeError ''Optimizer update would exceed the frozen order authority'')
      else if ts_steps s + 1 = tc_max_steps c \<and>
          (input \<noteq> num ''consumed_input_tokens'' \<or> supervised \<noteq> num ''consumed_supervised_tokens'')
      then Inl (RuntimeError ''Final optimizer update counters differ from frozen order authority'')
      else Inr ())"

definition add_lists :: "int list \<Rightarrow> int list \<Rightarrow> int list" where
  "add_lists xs ys = map (\<lambda>(x, y). x + y) (zip xs ys)"

definition advance_state :: "train_config \<Rightarrow> int \<Rightarrow> int \<Rightarrow> domain_stats option \<Rightarrow> train_state \<Rightarrow> train_state" where
  "advance_state c input_tokens loss_tokens stats s =
     (let s1 = s\<lparr>ts_steps := ts_steps s + 1, ts_microbatches := ts_microbatches s + tc_ga c,
            ts_rows := ts_rows s + tc_gmr c * tc_ga c, ts_input_tokens := ts_input_tokens s + input_tokens,
            ts_supervised_tokens := ts_supervised_tokens s + loss_tokens\<rparr> in
      case stats of None \<Rightarrow> s1
      | Some ds \<Rightarrow> s1\<lparr>ts_rows_pd := add_lists (ts_rows_pd s) (ds_rows ds),
          ts_input_tokens_pd := add_lists (ts_input_tokens_pd s) (ds_input_tokens ds),
          ts_supervised_tokens_pd := add_lists (ts_supervised_tokens_pd s) (ds_loss_tokens ds)\<rparr>)"

text \<open>The body of the step loop up to the counters: model, random states and progress of the job.\<close>

definition optimizer_update ::
    "('m, 'r, 'g) torch_ops \<Rightarrow> train_config \<Rightarrow> nat \<Rightarrow> json \<Rightarrow> 'm \<times> 'r list \<times> train_state \<Rightarrow>
     'g option list \<Rightarrow> raw_batch res list list \<Rightarrow>
     (('m \<times> 'r list \<times> train_state) \<times> raw_batch res list list \<times> rat \<times> rat) res" where
  "optimizer_update ops c world geometry core grads iterators = (case core of (m, rngs, s) \<Rightarrow>
     rbind (learning_rate_for_step (op_cos ops) c (ts_steps s)) (\<lambda>lr.
     rbind (mapM (train_window ops (geometry \<noteq> JNull) (local_rows c world) (nat (tc_ga c)) m)
         (zip iterators (zip rngs grads))) (\<lambda>ranks.
     rbind (reduce_window_stats (op_sum ops) (map (snd \<circ> snd \<circ> snd) ranks)) (\<lambda>totals.
     rbind (check_window (tc_gmr c * tc_ga c) totals) (\<lambda>_.
     case totals of (loss_sum, loss_tokens, input_tokens, stats) \<Rightarrow>
     rbind (check_projected c geometry s input_tokens loss_tokens) (\<lambda>_.
     rbind (op_update ops lr (py_div (of_nat world) (of_int loss_tokens)) (the (tc_max_grad_norm c))
         (map (fst \<circ> snd \<circ> snd) ranks) m) (\<lambda>m'.
     Inr ((m', map (fst \<circ> snd) ranks, advance_state c input_tokens loss_tokens stats s),
          map fst ranks, lr, py_div (the loss_sum) (of_int loss_tokens)))))))))"

section \<open>Stops and validation\<close>

definition poll_stop :: "('m, 'r, 'g) trainer \<Rightarrow> (int \<times> ('m, 'r, 'g) trainer) res" where
  "poll_stop t =
     (let (now, later) = (case tr_inputs t of [] \<Rightarrow> ([], []) | i # r \<Rightarrow> (i, r)) in
      rbind (distributed_stop_signal now (tr_controllers t)) (\<lambda>(requested, controllers).
      Inr (requested, t\<lparr>tr_controllers := controllers, tr_inputs := later\<rparr>)))"

definition honor_stop_request ::
    "bool \<Rightarrow> int \<Rightarrow> ('m, 'r, 'g) trainer \<Rightarrow> (bool \<times> ('m, 'r, 'g) trainer) res" where
  "honor_stop_request already_saved requested t =
     (if requested = 0 then Inr (False, t)
      else if tr_path t = None
      then Inl (RuntimeError ''A graceful stop was requested but no checkpoint path is configured'')
      else let reported = (tr_stop_signal t \<noteq> 0); t1 = t\<lparr>tr_stop_signal := requested\<rparr> in
      rbind (if already_saved then Inr t1 else save_checkpoint None t1) (\<lambda>t2.
      Inr (True, if reported then t2
                 else t2\<lparr>tr_log := tr_log t2 @ [Stopped (ts_steps (tr_state t2)) requested]\<rparr>)))"

definition stop_point :: "('m, 'r, 'g) trainer \<Rightarrow> (bool \<times> ('m, 'r, 'g) trainer) res" where
  "stop_point t = rbind (poll_stop t) (\<lambda>(requested, t1). honor_stop_request False requested t1)"

definition validation_at_start_due :: "('m, 'r, 'g) trainer \<Rightarrow> bool" where
  "validation_at_start_due t \<longleftrightarrow> tr_validation t \<noteq> None \<and> eval_at_start (tr_config t) \<and>
     ts_steps (tr_state t) = 0 \<and> map_of (tr_metadata t) at_start_key \<noteq> Some (JBool True)"

definition validation_due :: "('m, 'r, 'g) trainer \<Rightarrow> bool" where
  "validation_due t = (let step = ts_steps (tr_state t); c = tr_config t in
     tr_validation t \<noteq> None \<and> \<not> (step \<le> ts_last_validated (tr_state t) \<or> step = 0) \<and>
     (step = tc_max_steps c \<or> 0 < tc_eval_every c \<and> step mod tc_eval_every c = 0))"

definition evaluate_validation :: "('m, 'r rank_rng, 'g) torch_ops \<Rightarrow> ('m, 'r, 'g) trainer \<Rightarrow> ('m, 'r, 'g) trainer res" where
  "evaluate_validation ops t = (case tr_validation t of
     None \<Rightarrow> Inl (RuntimeError ''No validation runner is configured'')
   | Some v \<Rightarrow>
       let s = tr_state t in
       rbind (evaluate_validation_order ops v (tr_model t) (tr_rngs t) (ts_steps s)) (\<lambda>(_, rngs).
       let t1 = t\<lparr>tr_rngs := rngs, tr_log := tr_log t @ [Validated (ts_steps s)]\<rparr> in
       Inr (if ts_steps s = 0 \<and> eval_at_start (tr_config t)
            then if map_of (tr_metadata t) at_start_key = Some (JBool True) then t1
                 else t1\<lparr>tr_metadata := AList.update at_start_key (JBool True) (tr_metadata t),
                        tr_last_checkpoint := None\<rparr>
            else if ts_last_validated s < ts_steps s
            then t1\<lparr>tr_state := s\<lparr>ts_last_validated := ts_steps s\<rparr>, tr_last_checkpoint := None\<rparr>
            else t1)))"

section \<open>The training loop\<close>

text \<open>What follows the counters of a step: the stop point, a due validation, a scheduled checkpoint,
  and a second stop point.\<close>

definition after_update :: "('m, 'r rank_rng, 'g) torch_ops \<Rightarrow> ('m, 'r, 'g) trainer \<Rightarrow> (bool \<times> ('m, 'r, 'g) trainer) res" where
  "after_update ops t =
     rbind (stop_point t) (\<lambda>(stopped, t1).
     if stopped then Inr (True, t1)
     else rbind (if validation_due t1 then evaluate_validation ops t1 else Inr t1) (\<lambda>t2.
     rbind (if tr_path t2 \<noteq> None \<and> tc_checkpoint_every (tr_config t2) \<noteq> 0 \<and>
              ts_steps (tr_state t2) mod tc_checkpoint_every (tr_config t2) = 0
            then save_checkpoint None t2 else Inr t2) stop_point))"

definition train_step ::
    "('m, 'r rank_rng, 'g) torch_ops \<Rightarrow> ('m, 'r, 'g) trainer \<Rightarrow> raw_batch res list list \<Rightarrow>
     (('m, 'r, 'g) trainer \<times> raw_batch res list list) res" where
  "train_step ops t iterators =
     rbind (optimizer_update ops (tr_config t) (tr_world t) (tr_geometry t)
         (tr_model t, tr_rngs t, tr_state t) (tr_grads t) iterators)
       (\<lambda>((m, rngs, s), rest, lr, loss).
     Inr (t\<lparr>tr_model := m, tr_rngs := rngs, tr_state := s, tr_grads := replicate (tr_world t) None,
          tr_log := (if ts_steps s mod tc_log_every (tr_config t) = 0
                     then tr_log t @ [Updated (ts_steps s) loss lr] else tr_log t)\<rparr>, rest))"

fun train_steps ::
    "('m, 'r rank_rng, 'g) torch_ops \<Rightarrow> nat \<Rightarrow> ('m, 'r, 'g) trainer \<Rightarrow> raw_batch res list list \<Rightarrow>
     ('m, 'r, 'g) trainer res" where
  "train_steps ops 0 t iterators = Inr t"
| "train_steps ops (Suc n) t iterators =
     rbind (train_step ops t iterators) (\<lambda>(t1, rest).
     rbind (after_update ops t1) (\<lambda>(stopped, t2).
     if stopped then Inr t2 else train_steps ops n t2 rest))"

text \<open>The loader of a frozen run, seen through its sampler.\<close>

definition validate_batch_source :: "('m, 'r, 'g) trainer \<Rightarrow> sampler option \<Rightarrow> unit res" where
  "validate_batch_source t source =
     (if tr_geometry t = JNull then Inr ()
      else case source of
        None \<Rightarrow> Inl (ValueError ''Frozen-order training requires a DistributedBatchSampler-backed DataLoader'')
      | Some sm \<Rightarrow>
          if sampler_data_identity sm \<noteq> tr_data_identity t
          then Inl (ValueError ''Training loader data_identity mismatch'')
          else if \<not> py_eq (case sm_geometry sm of None \<Rightarrow> JNull | Some g \<Rightarrow> g) (tr_geometry t)
          then Inl (ValueError ''Training loader training_geometry mismatch'')
          else if int (sm_gmr sm) \<noteq> tc_gmr (tr_config t) \<or> int (sm_ga sm) \<noteq> tc_ga (tr_config t) \<or>
              int (sm_update_rows sm) \<noteq> jint_of (jget (tr_geometry t) ''optimizer_update_rows'') \<or>
              int (sm_total_updates sm) \<noteq> tc_max_steps (tr_config t)
          then Inl (ValueError ''Training loader geometry mismatch'')
          else if int (sm_start sm) \<noteq> ts_microbatches (tr_state t)
          then Inl (ValueError ''Training loader resume_global_microbatch mismatch'')
          else Inr ())"

definition final_checks :: "('m, 'r, 'g) trainer \<Rightarrow> unit res" where
  "final_checks t =
     (let g = tr_geometry t; s = tr_state t; num = (\<lambda>k. jint_of (jget g k)) in
      if g = JNull \<or> ts_steps s \<noteq> tc_max_steps (tr_config t) then Inr ()
      else if ts_rows s \<noteq> num ''consumed_rows''
      then Inl (RuntimeError ''Final trainer consumed_rows differs from frozen order authority'')
      else if ts_input_tokens s \<noteq> num ''consumed_input_tokens''
      then Inl (RuntimeError ''Final trainer consumed_input_tokens differs from frozen order authority'')
      else if ts_supervised_tokens s \<noteq> num ''consumed_supervised_tokens''
      then Inl (RuntimeError ''Final trainer consumed_supervised_tokens differs from frozen order authority'')
      else if \<not> eq_domains (jget g ''consumed_input_tokens_per_domain'') (ts_input_tokens_pd s)
      then Inl (RuntimeError ''Final trainer consumed_input_tokens_per_domain differs from frozen order authority'')
      else if \<not> eq_domains (jget g ''consumed_supervised_tokens_per_domain'') (ts_supervised_tokens_pd s)
      then Inl (RuntimeError ''Final trainer consumed_supervised_tokens_per_domain differs from frozen order authority'')
      else Inr ())"

text \<open>The phases before the first update, each of which may end the call.\<close>

definition start_validation ::
    "('m, 'r rank_rng, 'g) torch_ops \<Rightarrow> ('m, 'r, 'g) trainer \<Rightarrow> (bool \<times> ('m, 'r, 'g) trainer) res" where
  "start_validation ops t =
     (if validation_at_start_due t then rbind (evaluate_validation ops t) stop_point else Inr (False, t))"

definition catch_up_validation ::
    "('m, 'r rank_rng, 'g) torch_ops \<Rightarrow> ('m, 'r, 'g) trainer \<Rightarrow> (bool \<times> ('m, 'r, 'g) trainer) res" where
  "catch_up_validation ops t =
     (if validation_due t
      then rbind (evaluate_validation ops t) (\<lambda>t1.
        rbind (if tr_path t1 \<noteq> None then save_checkpoint None t1 else Inr t1) stop_point)
      else Inr (False, t))"

definition train ::
    "('m, 'r rank_rng, 'g) torch_ops \<Rightarrow> int option \<Rightarrow> sampler option \<Rightarrow> raw_batch res list list \<Rightarrow> ('m, 'r, 'g) trainer \<Rightarrow>
     ('m, 'r, 'g) trainer res" where
  "train ops until_step source iterators t =
     (let target = (case until_step of None \<Rightarrow> tc_max_steps (tr_config t) | Some n \<Rightarrow> n) in
      if \<not> (ts_steps (tr_state t) \<le> target \<and> target \<le> tc_max_steps (tr_config t))
      then Inl (ValueError ''until_step must be between current progress and max_steps'')
      else rbind (stop_point t) (\<lambda>(stopped, t1). if stopped then Inr t1
      else rbind (start_validation ops t1) (\<lambda>(stopped, t2). if stopped then Inr t2
      else rbind (catch_up_validation ops t2) (\<lambda>(stopped, t3). if stopped then Inr t3
      else if target = ts_steps (tr_state t3) then Inr t3
      else rbind (validate_batch_source t3 source) (\<lambda>_.
      let drawn = map (op_base_seed ops) (tr_rngs t3); restored = map fst (zip (tr_rngs t3) drawn) in
      rbind (train_steps ops (nat (target - ts_steps (tr_state t3))) (t3\<lparr>tr_rngs := restored\<rparr>) iterators) (\<lambda>t4.
      rbind (final_checks t4) (\<lambda>_. Inr t4)))))))"

text \<open>\<^verbatim>\<open>_finalize_training_run\<close>: the exit code of the process.\<close>

definition finalize_training_run :: "('m, 'r, 'g) trainer \<Rightarrow> (int \<times> ('m, 'r, 'g) trainer) res" where
  "finalize_training_run t =
     rbind (save_checkpoint None t) (\<lambda>t1.
     rbind (poll_stop t1) (\<lambda>(requested, t2).
     rbind (honor_stop_request True requested t2) (\<lambda>(stopped, t3).
     Inr (if stopped then (128 + requested, t3) else (0, t3)))))"

end
