(* ===== verification/TrainFacts.thy ===== *)
theory TrainFacts
  imports Trainer
begin

text \<open>
  Facts about the training job: the dictionary form of its progress, what a window counts, the
  invariant of the counters, and the run as a sequence of optimizer updates.
\<close>

section \<open>The dictionary form of the progress\<close>

definition counters_ok :: "train_state \<Rightarrow> bool" where
  "counters_ok s \<longleftrightarrow> 0 \<le> ts_microbatches s \<and> 0 \<le> ts_rows s \<and> 0 \<le> ts_input_tokens s \<and>
     0 \<le> ts_supervised_tokens s \<and> 0 \<le> ts_last_validated s \<and> ts_last_validated s \<le> ts_steps s \<and>
     (\<forall>xs \<in> {ts_rows_pd s, ts_input_tokens_pd s, ts_supervised_tokens_pd s}.
        length xs = length domain_order \<and> (\<forall>x\<in>set xs. 0 \<le> x))"

lemma state_fields_json:
  "jkeys (state_json s) = scalar_fields @ domain_fields"
  "jget (state_json s) ''completed_steps'' = JInt (ts_steps s)"
  "jget (state_json s) ''completed_microbatches'' = JInt (ts_microbatches s)"
  "jget (state_json s) ''consumed_rows'' = JInt (ts_rows s)"
  "jget (state_json s) ''consumed_input_tokens'' = JInt (ts_input_tokens s)"
  "jget (state_json s) ''consumed_supervised_tokens'' = JInt (ts_supervised_tokens s)"
  "jget (state_json s) ''last_validated_step'' = JInt (ts_last_validated s)"
  "jget (state_json s) ''consumed_rows_per_domain'' = per_domain JInt (ts_rows_pd s)"
  "jget (state_json s) ''consumed_input_tokens_per_domain'' = per_domain JInt (ts_input_tokens_pd s)"
  "jget (state_json s) ''consumed_supervised_tokens_per_domain'' = per_domain JInt (ts_supervised_tokens_pd s)"
  by (simp_all add: state_json_def scalar_fields_def domain_fields_def jfield_def)

lemma state_json_trip: "counters_ok s \<Longrightarrow> state_from_dict (state_json s) = Inr s"
  unfolding state_from_dict_def Let_def state_fields_json scalar_fields_def domain_fields_def
  by (simp add: state_fields_json counters_ok_def domain_counts_per_domain domain_ints_per_domain) (simp add: state_json_def)

section \<open>What a window counts\<close>

lemma sum_selected_le:
  "list_all2 (\<le>) xs ys \<Longrightarrow> length ds = length xs \<Longrightarrow>
     sum_list (selected_rows ds d xs) \<le> (sum_list (selected_rows ds d ys) :: int)"
proof (induction xs ys arbitrary: ds rule: list_all2_induct)
  case (Cons x xs y ys)
  then obtain e es where "ds = e # es" "length es = length xs" by (cases ds) auto
  with Cons show ?case by (auto simp: selected_rows_def intro: add_mono)
qed (simp add: selected_rows_def)

lemma sum_selected_nonneg: "\<forall>x\<in>set xs. 0 \<le> x \<Longrightarrow> 0 \<le> sum_list (selected_rows ds d (xs :: int list))"
  by (rule sum_list_nonneg) (auto simp: selected_rows_def dest: set_zip_rightD)

lemma sum_selected_const:
  "\<forall>x\<in>set xs. x = T \<Longrightarrow> length xs = length ds \<Longrightarrow>
     sum_list (selected_rows ds d xs) = sum_list (selected_rows ds d (map (\<lambda>_. 1) ds)) * (T :: int)"
proof (induction ds arbitrary: xs)
  case (Cons e es)
  then obtain y ys where "xs = y # ys" by (cases xs) auto
  with Cons show ?case by (auto simp: selected_rows_def algebra_simps)
qed (simp add: selected_rows_def)

lemma length_add_selected [simp]: "length (add_selected ds xs acc) = length acc"
  by (simp add: add_selected_def)

lemma nth_add_selected: "k < length acc \<Longrightarrow>
    add_selected ds xs acc ! k = acc ! k + sum_list (selected_rows ds (int k) xs)"
  by (simp add: add_selected_def nth_enumerate_eq)

text \<open>The counters of a window. With a row length \<open>T\<close> a domain's input tokens are whole rows.\<close>

definition domains_ok :: "int option \<Rightarrow> int list \<Rightarrow> int list \<Rightarrow> int list \<Rightarrow> bool" where
  "domains_ok T rows inputs tokens \<longleftrightarrow>
     length rows = length domain_order \<and> length inputs = length domain_order \<and> length tokens = length domain_order \<and>
     (\<forall>k < length domain_order. 0 \<le> rows ! k \<and> 0 \<le> tokens ! k \<and> tokens ! k \<le> inputs ! k \<and>
        (T \<noteq> None \<longrightarrow> inputs ! k = rows ! k * the T))"

definition window_ok :: "int option \<Rightarrow> window \<Rightarrow> bool" where
  "window_ok T w \<longleftrightarrow> 0 \<le> lw_loss_tokens w \<and> lw_loss_tokens w \<le> lw_input_tokens w \<and>
     domains_ok T (lw_domain_rows w) (lw_domain_inputs w) (lw_domain_tokens w)"

lemma window_ok_empty: "window_ok T empty_window"
proof -
  have "k < 3 \<Longrightarrow> [0, 0, 0 :: int] ! k = 0" for k by (auto simp: less_Suc_eq numeral_3_eq_3)
  then show ?thesis by (simp add: window_ok_def domains_ok_def empty_window_def domain_order_distinct)
qed

text \<open>All rows of a batch have length \<open>T\<close>.\<close>

definition rows_of_length :: "int \<Rightarrow> raw_batch \<Rightarrow> bool" where
  "rows_of_length T b \<longleftrightarrow> (\<forall>row\<in>set (rb_input_ids b). int (length row) = T)"

lemma supervised_labels_bounds: "0 \<le> supervised_labels l \<and> supervised_labels l \<le> int (length l)"
  by (simp add: supervised_labels_def)

lemma list_all2_supervised:
  "map length ls = map length xs \<Longrightarrow> list_all2 (\<le>) (map supervised_labels ls) (map (int \<circ> length) xs)"
proof (induction ls arbitrary: xs)
  case (Cons l ls)
  then obtain y ys where "xs = y # ys" "length l = length y" "map length ls = map length ys"
    by (cases xs) auto
  with Cons show ?case using supervised_labels_bounds [of l] by simp
qed simp

lemma sum_list_all2_le: "list_all2 (\<le>) xs ys \<Longrightarrow> sum_list xs \<le> (sum_list ys :: int)"
  by (induction xs ys rule: list_all2_induct) auto

lemma moved_batch:
  assumes "move_batch_to_device n b0 = Inr (b, cnt)"
  shows "b = b0 \<and> cnt = counted_loss_tokens b0 \<and> 0 \<le> cnt \<and> cnt \<le> batch_numel b \<and>
     map length (rb_labels b) = map length (rb_input_ids b) \<and> int (length (rb_input_ids b)) = n"
proof -
  from assms have e: "b = b0" "cnt = counted_loss_tokens b0" "map length (rb_labels b) = map length (rb_input_ids b)"
    "int (length (rb_input_ids b)) = n"
    by (auto simp: move_batch_to_device_def Let_def split: if_splits option.splits)
  moreover have "0 \<le> cnt" unfolding e(2) counted_loss_tokens_def
    by (rule sum_list_nonneg) (auto simp: supervised_labels_def)
  moreover have "cnt \<le> batch_numel b"
    unfolding e(2) counted_loss_tokens_def batch_numel_def e(1) [symmetric]
    by (rule sum_list_all2_le [OF list_all2_supervised [OF e(3)]])
  ultimately show ?thesis by simp
qed

lemma domain_metrics_ok:
  assumes m: "batch_domain_metrics ts b ds losses w = Inr w'" and w: "window_ok T w"
    and shape: "map length (rb_labels b) = map length (rb_input_ids b)"
    and T: "T \<noteq> None \<Longrightarrow> rows_of_length (the T) b"
  shows "window_ok T w' \<and> lw_domains w' = lw_domains w"
proof -
  let ?I = "map (int \<circ> length) (rb_input_ids b)" and ?L = "map supervised_labels (rb_labels b)"
  let ?add = "add_selected ds"
  from m have len: "length ?I = length ds" "length ?L = length ds"
    and w': "lw_domain_tokens w' = ?add ?L (lw_domain_tokens w)" "lw_domain_inputs w' = ?add ?I (lw_domain_inputs w)"
      "lw_domain_rows w' = ?add (map (\<lambda>_. 1) ds) (lw_domain_rows w)" "lw_loss_tokens w' = lw_loss_tokens w"
      "lw_input_tokens w' = lw_input_tokens w" "lw_domains w' = lw_domains w"
    unfolding batch_domain_metrics_def accumulate_domain_metrics_def by (auto split: if_splits)
  have le: "sum_list (selected_rows ds d ?L) \<le> sum_list (selected_rows ds d ?I)" for d
    using len by (intro sum_selected_le list_all2_supervised [OF shape]) simp
  have pos: "0 \<le> sum_list (selected_rows ds d ?L)" "0 \<le> sum_list (selected_rows ds d (map (\<lambda>_. 1 :: int) ds))" for d
    by (auto intro!: sum_selected_nonneg simp: supervised_labels_def)
  have eq: "sum_list (selected_rows ds d ?I) = sum_list (selected_rows ds d (map (\<lambda>_. 1) ds)) * the T"
    if "T \<noteq> None" for d
    using T [OF that] len by (intro sum_selected_const) (auto simp: rows_of_length_def)
  show ?thesis
    using w le pos eq by (auto simp: window_ok_def domains_ok_def w' nth_add_selected algebra_simps intro: add_mono)
qed

lemma observed_ok:
  assumes o: "observe_microbatch ts frozen b cnt out w = Inr w'" and w: "window_ok T w"
    and shape: "map length (rb_labels b) = map length (rb_input_ids b)" "0 \<le> cnt" "cnt \<le> batch_numel b"
    and T: "T \<noteq> None \<Longrightarrow> rows_of_length (the T) b"
  shows "window_ok T w' \<and> (frozen \<longrightarrow> lw_domains w' = lw_domains w)"
proof -
  from o obtain l tk where out: "mo_loss_sum out = Some l" "mo_num_loss_tokens out = Some tk"
    by (auto simp: observe_microbatch_def split: option.splits)
  define w1 where "w1 = add_counters b cnt l (hd tk) w"
  have w1: "window_ok T w1" "lw_domains w1 = lw_domains w"
    using w shape by (simp_all add: w1_def window_ok_def add_counters_def)
  show ?thesis
  proof (cases "rb_domain_ids b")
    case None
    with o out have "\<not> frozen" "w' = w1\<lparr>lw_domains := False\<rparr>"
      by (auto simp: observe_microbatch_def Let_def w1_def split: if_splits)
    with w1 show ?thesis by (simp add: window_ok_def)
  next
    case (Some ds)
    with o out obtain losses where "batch_domain_metrics ts b ds losses w1 = Inr w'"
      by (auto simp: observe_microbatch_def Let_def w1_def split: if_splits option.splits)
    from domain_metrics_ok [OF this w1(1) shape(1) T] w1(2) show ?thesis by simp
  qed
qed

text \<open>The batches still to come, of all ranks: with a row length, every row has it.\<close>

definition batches_ok :: "int option \<Rightarrow> raw_batch res list list \<Rightarrow> bool" where
  "batches_ok T iterators \<longleftrightarrow>
     (T \<noteq> None \<longrightarrow> (\<forall>batches\<in>set iterators. \<forall>b. Inr b \<in> set batches \<longrightarrow> rows_of_length (the T) b))"

lemma batches_ok_drop: "batches_ok T its \<Longrightarrow> batches_ok T (map (drop n) its)"
  by (auto simp: batches_ok_def dest: in_set_dropD)

lemma train_microbatch_ok:
  assumes m: "train_microbatch ops frozen local m (batches, rng, grad, w, n) = Inr (batches', rng', grad', w', n')"
    and w: "window_ok T w" and T: "\<And>b. T \<noteq> None \<Longrightarrow> Inr b \<in> set batches \<Longrightarrow> rows_of_length (the T) b"
  shows "window_ok T w' \<and> (frozen \<longrightarrow> lw_domains w' = lw_domains w) \<and> batches \<noteq> [] \<and> batches' = tl batches \<and>
     n' = Suc n \<and> (\<exists>g. grad' = Some g)"
proof -
  from m obtain raw where bs: "batches = raw # batches'" 
    by (cases batches) (auto simp: train_microbatch_def Let_def res_simps case_prod_beta)
  from m [unfolded bs train_microbatch_def prod.case list.case rbind_eq_Inr] obtain b0 b cnt where
    b: "raw = Inr b0" "move_batch_to_device local b0 = Inr (b, cnt)"
    and o: "observe_microbatch (op_sum ops) frozen b cnt (fst (op_forward ops m rng b)) w = Inr w'"
    and n': "n' = Suc n" "\<exists>g. grad' = Some g"
    by (auto simp: Let_def res_simps case_prod_beta)
  from moved_batch [OF b(2)] have mv: "b = b0" "0 \<le> cnt" "cnt \<le> batch_numel b"
    "map length (rb_labels b) = map length (rb_input_ids b)" by auto
  have "T \<noteq> None \<Longrightarrow> rows_of_length (the T) b" using T [of b] b(1) mv(1) bs by simp
  from observed_ok [OF o w mv(4,2,3) this] n' bs show ?thesis by simp
qed

lemma train_window_ok:
  assumes "train_window ops frozen local ga m (batches, rng, grad) = Inr (rest, rng', grad', w)"
    and T: "\<And>b. T \<noteq> None \<Longrightarrow> Inr b \<in> set batches \<Longrightarrow> rows_of_length (the T) b"
  shows "window_ok T w \<and> (frozen \<longrightarrow> lw_domains w) \<and> rest = drop ga batches \<and> ga \<le> length batches"
proof -
  have "window_ok T w' \<and> (frozen \<longrightarrow> lw_domains w' = lw_domains w0) \<and> rest' = drop (length xs) bs \<and>
      length xs \<le> length bs"
    if "foldM (\<lambda>acc _. train_microbatch ops frozen local m acc) (bs, r0, g0, w0, n0) xs = Inr (rest', r', g', w', n')"
      and "window_ok T w0" and "\<And>b. T \<noteq> None \<Longrightarrow> Inr b \<in> set bs \<Longrightarrow> rows_of_length (the T) b"
    for xs :: "nat list" and bs r0 g0 w0 n0 rest' r' g' w' n'
    using that
  proof (induction xs arbitrary: bs r0 g0 w0 n0)
    case (Cons x xs)
    from Cons.prems(1) obtain b1 r1 g1 w1 n1 where
      s: "train_microbatch ops frozen local m (bs, r0, g0, w0, n0) = Inr (b1, r1, g1, w1, n1)"
      and f: "foldM (\<lambda>acc _. train_microbatch ops frozen local m acc) (b1, r1, g1, w1, n1) xs = Inr (rest', r', g', w', n')"
      by (auto simp: rbind_eq_Inr)
    note t = train_microbatch_ok [OF s Cons.prems(2,3)]
    have "\<And>b. T \<noteq> None \<Longrightarrow> Inr b \<in> set b1 \<Longrightarrow> rows_of_length (the T) b"
      using Cons.prems(3) t by (metis list.set_sel(2))
    from Cons.IH [OF f _ this] t show ?case by (cases bs) auto
  qed simp
  from this [of batches rng grad empty_window 0 "[0..<ga]"] assms window_ok_empty show ?thesis
    by (auto simp: train_window_def rbind_eq_Inr empty_window_def)
qed

section \<open>The invariant of the counters\<close>

definition row_length :: "json \<Rightarrow> int option" where
  "row_length g = (if g = JNull then None else Some (jint_of (jget g ''sequence_length'')))"

text \<open>What \<^verbatim>\<open>load_checkpoint\<close> demands of a state; \<open>validated\<close> says that there is a runner.\<close>

definition progress_ok :: "train_config \<Rightarrow> json \<Rightarrow> bool \<Rightarrow> train_state \<Rightarrow> bool" where
  "progress_ok c g validated s \<longleftrightarrow> counters_ok s \<and> ts_steps s \<le> tc_max_steps c \<and>
     ts_microbatches s = ts_steps s * tc_ga c \<and> ts_rows s = ts_microbatches s * tc_gmr c \<and>
     ts_supervised_tokens s \<le> ts_input_tokens s \<and>
     (ts_steps s = 0 \<longrightarrow> ts_input_tokens s = 0 \<and> ts_supervised_tokens s = 0) \<and>
     (ts_last_validated s = 0 \<or> validated \<and> (ts_last_validated s = tc_max_steps c \<or>
        0 < tc_eval_every c \<and> ts_last_validated s mod tc_eval_every c = 0)) \<and>
     domains_ok (row_length g) (ts_rows_pd s) (ts_input_tokens_pd s) (ts_supervised_tokens_pd s) \<and>
     (g \<noteq> JNull \<longrightarrow> ts_input_tokens s = ts_rows s * jint_of (jget g ''sequence_length'') \<and>
        sum_list (ts_rows_pd s) = ts_rows s \<and> sum_list (ts_input_tokens_pd s) = ts_input_tokens s \<and>
        sum_list (ts_supervised_tokens_pd s) = ts_supervised_tokens s \<and>
        ts_supervised_tokens s \<le> jint_of (jget g ''consumed_supervised_tokens'') \<and>
        (ts_steps s = tc_max_steps c \<longrightarrow>
           ts_supervised_tokens s = jint_of (jget g ''consumed_supervised_tokens'')))"

lemma sum_list_times: "sum_list (map (\<lambda>x. f x * (T :: int)) xs) = sum_list (map f xs) * T"
  by (induction xs) (simp_all add: distrib_right)

lemma sum_list_map_le: "(\<And>x. x \<in> set xs \<Longrightarrow> f x \<le> (g x :: int)) \<Longrightarrow> sum_list (map f xs) \<le> sum_list (map g xs)"
  by (induction xs) (simp_all add: add_mono)

lemma length_sum_columns [simp]: "length (sum_columns xss) = length domain_order"
  by (simp add: sum_columns_def)

lemma nth_sum_columns: "k < length domain_order \<Longrightarrow> sum_columns xss ! k = sum_list (map (\<lambda>xs. xs ! k) xss)"
  by (simp add: sum_columns_def)

lemma reduced_domains_ok:
  assumes w: "\<forall>w\<in>set ws. window_ok T w"
  shows "domains_ok T (ds_rows (reduce_domain_stats ts ws)) (ds_input_tokens (reduce_domain_stats ts ws))
     (ds_loss_tokens (reduce_domain_stats ts ws))"
proof -
  have e: "sum_columns (map f ws) ! k = sum_list (map (\<lambda>w. f w ! k) ws)" if "k < length domain_order"
    for k and f :: "window \<Rightarrow> int list"
    using that by (simp add: nth_sum_columns o_def)
  have d: "\<forall>w\<in>set ws. domains_ok T (lw_domain_rows w) (lw_domain_inputs w) (lw_domain_tokens w)"
    using w by (simp add: window_ok_def)
  have "0 \<le> sum_list (map (\<lambda>w. lw_domain_rows w ! k) ws) \<and> 0 \<le> sum_list (map (\<lambda>w. lw_domain_tokens w ! k) ws) \<and>
      sum_list (map (\<lambda>w. lw_domain_tokens w ! k) ws) \<le> sum_list (map (\<lambda>w. lw_domain_inputs w ! k) ws)"
    if "k < length domain_order" for k
    using d that by (auto simp: domains_ok_def intro!: sum_list_nonneg sum_list_map_le)
  moreover have "sum_list (map (\<lambda>w. lw_domain_inputs w ! k) ws) = sum_list (map (\<lambda>w. lw_domain_rows w ! k) ws) * the T"
    if "k < length domain_order" "T \<noteq> None" for k
  proof -
    have "map (\<lambda>w. lw_domain_inputs w ! k) ws = map (\<lambda>w. lw_domain_rows w ! k * the T) ws"
      using d that by (simp add: domains_ok_def)
    then show ?thesis by (simp only: sum_list_times)
  qed
  ultimately show ?thesis by (simp add: domains_ok_def reduce_domain_stats_def e)
qed

lemma add_lists_simps: "length xs = length ys \<Longrightarrow> length (add_lists xs ys) = length ys"
  "k < length xs \<Longrightarrow> k < length ys \<Longrightarrow> add_lists xs ys ! k = xs ! k + ys ! k"
  by (simp_all add: add_lists_def)

lemma sum_add_lists: "length xs = length ys \<Longrightarrow> sum_list (add_lists xs ys) = sum_list xs + (sum_list ys :: int)"
  by (induction xs ys rule: list_induct2) (simp_all add: add_lists_def)

lemma domains_ok_add:
  "domains_ok T r i l \<Longrightarrow> domains_ok T r' i' l' \<Longrightarrow> domains_ok T (add_lists r r') (add_lists i i') (add_lists l l')"
  by (auto simp: domains_ok_def add_lists_simps distrib_right intro: add_mono)

lemma domains_ok_nonneg:
  "domains_ok T r i l \<Longrightarrow> \<forall>xs\<in>{r, i, l}. length xs = length domain_order \<and> (\<forall>x\<in>set xs. 0 \<le> x)"
proof -
  assume d: "domains_ok T r i l"
  then have "k < length domain_order \<Longrightarrow> 0 \<le> i ! k" for k
    using order_trans [of 0 "l ! k" "i ! k"] by (auto simp: domains_ok_def)
  with d show ?thesis by (auto simp: domains_ok_def in_set_conv_nth)
qed

lemma domains_ok_zeros: "domains_ok T [0, 0, 0] [0, 0, 0] [0, 0, 0]"
  using window_ok_empty [of T] by (simp add: window_ok_def empty_window_def)

lemma initial_progress: "check_train_config c = Inr () \<Longrightarrow>
   g \<noteq> JNull \<longrightarrow> 0 \<le> jint_of (jget g ''consumed_supervised_tokens'') \<Longrightarrow> progress_ok c g v initial_train_state"
  by (auto simp: progress_ok_def initial_train_state_def counters_ok_def domains_ok_zeros domain_order_distinct
    check_train_config_def Let_def split: if_splits)

text \<open>The windows of all ranks.\<close>

lemma train_windows_ok:
  assumes "mapM (train_window ops frozen local ga m) (zip its (zip rngs grads)) = Inr ranks"
    and T: "batches_ok T its" and len: "length rngs = length its" "length grads = length its"
  shows "length ranks = length its \<and> map fst ranks = map (drop ga) its \<and>
     (\<forall>w\<in>set (map (snd \<circ> snd \<circ> snd) ranks). window_ok T w \<and> (frozen \<longrightarrow> lw_domains w)) \<and>
     (\<forall>batches\<in>set its. ga \<le> length batches)"
proof -
  from assms(1) have l2: "list_all2 (\<lambda>x y. train_window ops frozen local ga m x = Inr y) (zip its (zip rngs grads)) ranks"
    by (simp add: mapM_eq_Inr)
  then have n: "length ranks = length its" using len by (auto dest: list_all2_lengthD)
  have k: "window_ok T (snd (snd (snd (ranks ! i)))) \<and> (frozen \<longrightarrow> lw_domains (snd (snd (snd (ranks ! i))))) \<and>
      fst (ranks ! i) = drop ga (its ! i) \<and> ga \<le> length (its ! i)" if "i < length its" for i
  proof -
    obtain rest r g w where y: "ranks ! i = (rest, r, g, w)" by (cases "ranks ! i") auto
    from list_all2_nthD2 [OF l2, of i] that n len y
    have "train_window ops frozen local ga m (its ! i, rngs ! i, grads ! i) = Inr (rest, r, g, w)" by simp
    moreover have "\<And>b. T \<noteq> None \<Longrightarrow> Inr b \<in> set (its ! i) \<Longrightarrow> rows_of_length (the T) b"
      using T that by (auto simp: batches_ok_def)
    ultimately show ?thesis using train_window_ok y by fastforce
  qed
  have "map fst ranks = map (drop ga) its" by (rule nth_equalityI) (simp_all add: n k)
  moreover have "\<forall>w\<in>set (map (snd \<circ> snd \<circ> snd) ranks). window_ok T w \<and> (frozen \<longrightarrow> lw_domains w)"
    unfolding all_set_conv_all_nth using k n by simp
  moreover have "\<forall>batches\<in>set its. ga \<le> length batches" unfolding all_set_conv_all_nth using k by simp
  ultimately show ?thesis using n by simp
qed

lemma optimizer_update_facts:
  assumes u: "optimizer_update ops c world g (m, rngs, s) grads its = Inr ((m', rngs', s'), rest, lr, loss)"
  obtains ranks loss_sum loss_tokens input_tokens stats where
    "mapM (train_window ops (g \<noteq> JNull) (local_rows c world) (nat (tc_ga c)) m) (zip its (zip rngs grads)) = Inr ranks"
    "reduce_window_stats (op_sum ops) (map (snd \<circ> snd \<circ> snd) ranks) = Inr (loss_sum, loss_tokens, input_tokens, stats)"
    "check_window (tc_gmr c * tc_ga c) (loss_sum, loss_tokens, input_tokens, stats) = Inr ()"
    "check_projected c g s input_tokens loss_tokens = Inr ()"
    "rngs' = map (fst \<circ> snd) ranks" "s' = advance_state c input_tokens loss_tokens stats s"
    "rest = map fst ranks" "0 \<le> ts_steps s \<and> ts_steps s < tc_max_steps c"
    "learning_rate_for_step (op_cos ops) c (ts_steps s) = Inr lr"
proof -
  from u obtain ranks loss_sum loss_tokens input_tokens stats where r:
    "learning_rate_for_step (op_cos ops) c (ts_steps s) = Inr lr"
    "mapM (train_window ops (g \<noteq> JNull) (local_rows c world) (nat (tc_ga c)) m) (zip its (zip rngs grads)) = Inr ranks"
    "reduce_window_stats (op_sum ops) (map (snd \<circ> snd \<circ> snd) ranks) = Inr (loss_sum, loss_tokens, input_tokens, stats)"
    "check_window (tc_gmr c * tc_ga c) (loss_sum, loss_tokens, input_tokens, stats) = Inr ()"
    "check_projected c g s input_tokens loss_tokens = Inr ()"
    "rngs' = map (fst \<circ> snd) ranks" "s' = advance_state c input_tokens loss_tokens stats s" "rest = map fst ranks"
    unfolding optimizer_update_def prod.case rbind_eq_Inr by (auto simp: rbind_eq_Inr)
  moreover from r(1) have "0 \<le> ts_steps s \<and> ts_steps s < tc_max_steps c"
    by (auto simp: learning_rate_for_step_def Let_def split: if_splits)
  ultimately show ?thesis using that by blast
qed

lemma reduced_totals:
  assumes "reduce_window_stats ts ws = Inr (loss_sum, loss_tokens, input_tokens, stats)" and w: "\<forall>w\<in>set ws. window_ok T w"
  shows "0 \<le> loss_tokens \<and> loss_tokens \<le> input_tokens \<and>
     (stats \<noteq> None \<longleftrightarrow> list_all lw_domains ws) \<and>
     (\<forall>ds. stats = Some ds \<longrightarrow> domains_ok T (ds_rows ds) (ds_input_tokens ds) (ds_loss_tokens ds))"
proof -
  from assms(1) have e: "loss_tokens = sum_list (map lw_loss_tokens ws)" "input_tokens = sum_list (map lw_input_tokens ws)"
    "stats = (if list_all lw_domains ws then Some (reduce_domain_stats ts ws) else None)"
    by (auto simp: reduce_window_stats_def Let_def split: if_splits)
  have "0 \<le> loss_tokens" "loss_tokens \<le> input_tokens"
    unfolding e using w by (auto simp: window_ok_def intro!: sum_list_nonneg sum_list_map_le)
  with reduced_domains_ok [OF w, of ts] show ?thesis unfolding e(3) by auto
qed

lemma optimizer_update_ok:
  assumes u: "optimizer_update ops c world g (m, rngs, s) grads its = Inr ((m', rngs', s'), rest, lr, loss)"
    and p: "progress_ok c g v s" and c: "check_train_config c = Inr ()" and T: "batches_ok (row_length g) its"
    and len: "length its = world" "length rngs = world" "length grads = world"
  shows "progress_ok c g v s' \<and> ts_steps s' = ts_steps s + 1 \<and> ts_last_validated s' = ts_last_validated s \<and>
     rest = map (drop (nat (tc_ga c))) its \<and> length rngs' = world \<and> length rest = world"
proof -
  from u obtain ranks loss_sum loss_tokens input_tokens stats where
    r: "mapM (train_window ops (g \<noteq> JNull) (local_rows c world) (nat (tc_ga c)) m) (zip its (zip rngs grads)) = Inr ranks"
      "reduce_window_stats (op_sum ops) (map (snd \<circ> snd \<circ> snd) ranks) = Inr (loss_sum, loss_tokens, input_tokens, stats)"
      "check_window (tc_gmr c * tc_ga c) (loss_sum, loss_tokens, input_tokens, stats) = Inr ()"
      "check_projected c g s input_tokens loss_tokens = Inr ()"
    and e: "rngs' = map (fst \<circ> snd) ranks" "s' = advance_state c input_tokens loss_tokens stats s" "rest = map fst ranks"
    and st: "0 \<le> ts_steps s \<and> ts_steps s < tc_max_steps c"
    by (rule optimizer_update_facts)
  from train_windows_ok [OF r(1) T] len have w: "length ranks = world" "rest = map (drop (nat (tc_ga c))) its"
    "\<forall>w\<in>set (map (snd \<circ> snd \<circ> snd) ranks). window_ok (row_length g) w"
    "g \<noteq> JNull \<longrightarrow> list_all lw_domains (map (snd \<circ> snd \<circ> snd) ranks)" by (auto simp: e list_all_iff)
  note tot = reduced_totals [OF r(2) w(3)]
  have frozen: "\<exists>ds. stats = Some ds" if "g \<noteq> JNull" using tot w(4) that by auto
  have cfg: "1 \<le> tc_ga c" "1 \<le> tc_gmr c" using c by (auto simp: check_train_config_def Let_def split: if_splits)
  have adv: "ts_steps s' = ts_steps s + 1" "ts_microbatches s' = ts_microbatches s + tc_ga c"
    "ts_rows s' = ts_rows s + tc_gmr c * tc_ga c" "ts_input_tokens s' = ts_input_tokens s + input_tokens"
    "ts_supervised_tokens s' = ts_supervised_tokens s + loss_tokens" "ts_last_validated s' = ts_last_validated s"
    by (simp_all add: e advance_state_def Let_def split: option.split)
  have dom: "domains_ok (row_length g) (ts_rows_pd s') (ts_input_tokens_pd s') (ts_supervised_tokens_pd s')"
    using p tot by (cases stats) (auto simp: e advance_state_def Let_def progress_ok_def intro: domains_ok_add)
  have cnt: "counters_ok s'"
    using p adv tot cfg domains_ok_nonneg [OF dom] by (auto simp: counters_ok_def progress_ok_def)
  have geo: "ts_input_tokens s' = ts_rows s' * jint_of (jget g ''sequence_length'') \<and>
        sum_list (ts_rows_pd s') = ts_rows s' \<and> sum_list (ts_input_tokens_pd s') = ts_input_tokens s' \<and>
        sum_list (ts_supervised_tokens_pd s') = ts_supervised_tokens s' \<and>
        ts_supervised_tokens s' \<le> jint_of (jget g ''consumed_supervised_tokens'') \<and>
        (ts_steps s' = tc_max_steps c \<longrightarrow> ts_supervised_tokens s' = jint_of (jget g ''consumed_supervised_tokens''))"
    if g: "g \<noteq> JNull"
  proof -
    from frozen [OF g] obtain ds where ds: "stats = Some ds" ..
    from r(3) ds have sums: "sum_list (ds_rows ds) = tc_gmr c * tc_ga c" "sum_list (ds_input_tokens ds) = input_tokens"
      "sum_list (ds_loss_tokens ds) = loss_tokens" by (auto simp: check_window_def split: if_splits option.splits)
    from tot ds have d: "domains_ok (row_length g) (ds_rows ds) (ds_input_tokens ds) (ds_loss_tokens ds)" by simp
    from p have ps: "domains_ok (row_length g) (ts_rows_pd s) (ts_input_tokens_pd s) (ts_supervised_tokens_pd s)"
      by (simp add: progress_ok_def)
    have "sum_list (ts_rows_pd s') = sum_list (ts_rows_pd s) + sum_list (ds_rows ds)"
      "sum_list (ts_input_tokens_pd s') = sum_list (ts_input_tokens_pd s) + sum_list (ds_input_tokens ds)"
      "sum_list (ts_supervised_tokens_pd s') = sum_list (ts_supervised_tokens_pd s) + sum_list (ds_loss_tokens ds)"
      using d ps by (simp_all add: e ds advance_state_def Let_def sum_add_lists domains_ok_def)
    with p g sums r(4) show ?thesis
      by (auto simp: progress_ok_def check_projected_def Let_def adv algebra_simps split: if_splits)
  qed
  show ?thesis
    using p cnt geo dom adv st tot cfg w(1,2) len(1)
    by (auto simp: progress_ok_def e(1) algebra_simps)
qed

end
