(* ===== verification/CheckpointFacts.thy ===== *)
theory CheckpointFacts
  imports CheckpointFiles
begin

text \<open>
  What publishing a generation does to a directory, operation by operation, and what recovery
  removes: a finished save, a save that stops anywhere, and the reconciliation after it.
\<close>

section \<open>Directories\<close>

lemma map_of_remove_name [simp]: "map_of (remove_name n d) m = (if m = n then None else map_of d m)"
  by (induction d) (auto simp: remove_name_def)

lemma map_of_apply_op:
  "map_of (apply_op (CreateFile n) d) = (map_of d)(n \<mapsto> Unfinished)"
  "map_of (apply_op (WriteFile n p) d) = (map_of d)(n \<mapsto> Complete p)"
  "map_of (apply_op (Link a b) d) = (case map_of d a of None \<Rightarrow> map_of d | Some e \<Rightarrow> (map_of d)(b \<mapsto> e))"
  "map_of (apply_op (Rename a b) d) =
     (case map_of d a of None \<Rightarrow> map_of d | Some e \<Rightarrow> (map_of d)(a := None, b \<mapsto> e))"
  "map_of (apply_op SyncDir d) = map_of d"
  "map_of (apply_op (Unlink n) d) = (map_of d)(n := None)"
  by (auto split: option.split)

lemma run_ops_simps [simp]: "run_ops [] d = d" "run_ops (op # ops) d = run_ops ops (apply_op op d)"
  by (simp_all add: run_ops_def)

lemma run_ops_append [simp]: "run_ops (xs @ ys) d = run_ops ys (run_ops xs d)"
  by (simp add: run_ops_def)

section \<open>Names\<close>

lemma length_path_suffix: "length (path_suffix name) \<le> length name"
proof -
  have "length (takeWhile (\<lambda>c. c \<noteq> CHR ''.'') (rev name)) \<le> length name"
    by (metis length_rev length_takeWhile_le)
  then show ?thesis by (auto simp: path_suffix_def Let_def)
qed

lemma length_previous_name: "length (previous_name name) = length name + 9"
  using length_path_suffix [of name] by (simp add: previous_name_def path_stem_def)

lemma starts_with_append [simp]: "starts_with p (p @ s)"
  by (simp add: starts_with_def)

lemma starts_with_longer: "starts_with p s \<Longrightarrow> length p \<le> length s"
  by (auto simp: starts_with_def min_def split: if_splits) (metis length_take min_def nle_le)

text \<open>No name of the lineage matches a temporary pattern: each pattern is longer than it.\<close>

lemma lineage_not_temporary:
  "n \<in> {name, previous_name name, lease_name name} \<Longrightarrow> p \<in> {part_prefix name, link_prefix name} \<Longrightarrow> \<not> starts_with p n"
proof -
  assume "n \<in> {name, previous_name name, lease_name name}" "p \<in> {part_prefix name, link_prefix name}"
  then have "length n < length p"
    by (auto simp: part_prefix_def link_prefix_def lease_name_def length_previous_name)
  then show ?thesis using starts_with_longer [of p n] by linarith
qed

lemma fresh_name_unused: "map_of d (fresh_name p d) = None"
proof -
  have "length n \<le> foldr max (map (length \<circ> fst) d) 0" if "n \<in> fst ` set d" for n
    using that by (induction d) (auto simp: le_max_iff_disj)
  then have "fresh_name p d \<notin> fst ` set d" unfolding fresh_name_def by fastforce
  then show ?thesis by (simp add: map_of_eq_None_iff)
qed

lemma starts_with_fresh: "starts_with p (fresh_name p d)"
  by (simp add: fresh_name_def)

lemma part_link_distinct: "fresh_name (part_prefix name) d \<noteq> fresh_name (link_prefix name) d"
proof
  assume "fresh_name (part_prefix name) d = fresh_name (link_prefix name) d"
  then have "length (part_prefix name) = length (link_prefix name)" by (simp add: fresh_name_def)
  then show False by (simp add: part_prefix_def link_prefix_def length_previous_name)
qed

section \<open>A save, stopped anywhere\<close>

text \<open>The names a save touches.\<close>

lemma save_names:
  fixes d :: "'p ckpt_dir" and name :: string
  defines "part \<equiv> fresh_name (part_prefix name) d" and "link \<equiv> fresh_name (link_prefix name) d"
  shows "part \<noteq> link \<and> part \<notin> {name, previous_name name, lease_name name} \<and>
    link \<notin> {name, previous_name name, lease_name name} \<and> name \<noteq> previous_name name \<and>
    map_of d part = None \<and> map_of d link = None"
proof (intro conjI)
  show "part \<noteq> link" unfolding part_def link_def by (rule part_link_distinct)
  show "part \<notin> {name, previous_name name, lease_name name}"
    using lineage_not_temporary [of part name "part_prefix name"] starts_with_fresh unfolding part_def by blast
  show "link \<notin> {name, previous_name name, lease_name name}"
    using lineage_not_temporary [of link name "link_prefix name"] starts_with_fresh unfolding link_def by blast
  show "name \<noteq> previous_name name" using length_previous_name [of name] by (metis add_eq_self_zero zero_neq_numeral)
  show "map_of d part = None" "map_of d link = None" unfolding part_def link_def by (rule fresh_name_unused)+
qed

lemma atomic_save_disk:
  assumes "atomic_torch_save preserve name p d = Inr d'"
  shows "map_of d' name = Some (Complete p)"
    and "map_of d' (previous_name name) = (if keeps_previous preserve name d then map_of d name
       else map_of d (previous_name name))"
    and "n \<notin> {name, previous_name name} \<Longrightarrow> map_of d' n = map_of d n"
proof -
  define part link where "part = fresh_name (part_prefix name) d" and "link = fresh_name (link_prefix name) d"
  from save_names [of name d] have nm: "part \<noteq> link" "part \<noteq> name" "part \<noteq> previous_name name" "link \<noteq> name"
    "link \<noteq> previous_name name" "name \<noteq> previous_name name" and un: "map_of d part = None" "map_of d link = None"
    by (auto simp: part_def link_def)
  from assms have d': "d' = run_ops (save_ops preserve name p d) d"
    by (auto simp: atomic_torch_save_def split: if_splits)
  have m: "map_of d' = (map_of d)(name \<mapsto> Complete p, previous_name name := (if keeps_previous preserve name d
      then map_of d name else map_of d (previous_name name)))"
  proof (cases "keeps_previous preserve name d")
    case True
    then obtain e where e: "map_of d name = Some e" by (auto simp: keeps_previous_def)
    have "map_of d' x = ((map_of d)(name \<mapsto> Complete p, previous_name name \<mapsto> e)) x" for x
      unfolding d' save_ops_def Let_def part_def [symmetric] link_def [symmetric]
      by (simp add: True e nm nm [symmetric] un map_of_apply_op del: apply_op.simps)
    with True e show ?thesis by (auto simp: fun_eq_iff)
  next
    case False
    have "map_of d' x = ((map_of d)(name \<mapsto> Complete p)) x" for x
      unfolding d' save_ops_def Let_def part_def [symmetric] link_def [symmetric]
      by (simp add: False nm nm [symmetric] un map_of_apply_op del: apply_op.simps)
    with False nm(6) show ?thesis by (auto simp: fun_eq_iff)
  qed
  show "map_of d' name = Some (Complete p)"
    and "map_of d' (previous_name name) = (if keeps_previous preserve name d then map_of d name
       else map_of d (previous_name name))"
    and "n \<notin> {name, previous_name name} \<Longrightarrow> map_of d' n = map_of d n"
    using nm(6) by (simp_all add: m)
qed

text \<open>The states a save can stop in.\<close>

lemma crashed_save_entries:
  fixes d :: "'p ckpt_dir" and name :: string
  defines "part \<equiv> fresh_name (part_prefix name) d" and "link \<equiv> fresh_name (link_prefix name) d"
  assumes n: "n \<notin> {part, link}"
  shows "map_of (crashed_save k preserve name p d) n = map_of d n \<or>
     n = name \<and> map_of (crashed_save k preserve name p d) n = Some (Complete p) \<or>
     n = previous_name name \<and> map_of d name \<noteq> None \<and>
       map_of (crashed_save k preserve name p d) n = map_of d name \<and>
       map_of (crashed_save k preserve name p d) name = Some (Complete p)"
proof -
  from save_names [of name d] have nm: "part \<noteq> link" "part \<noteq> name" "part \<noteq> previous_name name" "link \<noteq> name"
    "link \<noteq> previous_name name" "name \<noteq> previous_name name" and un: "map_of d part = None" "map_of d link = None"
    by (auto simp: part_def link_def)
  from n have n': "n \<noteq> part" "n \<noteq> link" by auto
  note rules = nm nm [symmetric] n' un map_of_apply_op fun_upd_apply
  have k: "k = 0 \<or> k = 1 \<or> k = 2 \<or> k = 3 \<or> k = 4 \<or> k = 5 \<or> k = 6 \<or> 7 \<le> k" by linarith
  show ?thesis
  proof (cases "keeps_previous preserve name d")
    case True
    then obtain e where e: "map_of d name = Some e" by (auto simp: keeps_previous_def)
    from k show ?thesis unfolding crashed_save_def save_ops_def Let_def part_def [symmetric] link_def [symmetric]
      by (elim disjE) (simp_all add: True e rules del: apply_op.simps)
  next
    case False
    from k show ?thesis unfolding crashed_save_def save_ops_def Let_def part_def [symmetric] link_def [symmetric]
      by (elim disjE) (simp_all add: False rules del: apply_op.simps)
  qed
qed

section \<open>Recovery\<close>

definition temporary :: "string \<Rightarrow> string \<Rightarrow> bool" where
  "temporary name n \<longleftrightarrow> starts_with (part_prefix name) n \<or> starts_with (link_prefix name) n"

text \<open>No directory hides behind a temporary name.\<close>

definition removable :: "string \<Rightarrow> 'p ckpt_dir \<Rightarrow> bool" where
  "removable name d \<longleftrightarrow> (\<forall>(n, e)\<in>set d. temporary name n \<longrightarrow> e \<noteq> NotAFile)"

lemma lineage_permanent: "n \<in> {name, previous_name name, lease_name name} \<Longrightarrow> \<not> temporary name n"
  using lineage_not_temporary [of n name] by (auto simp: temporary_def)

lemma set_remove_name: "set (remove_name n d) = {(m, e) \<in> set d. m \<noteq> n}"
  by (auto simp: remove_name_def)

lemma reconcile_pattern_removes:
  assumes p: "p \<in> {part_prefix name, link_prefix name}" and r: "removable name d"
  shows "\<exists>names d'. reconcile_pattern name (removed, d) p = Inr (removed @ names, d') \<and> removable name d' \<and>
     set names = {n \<in> fst ` set d. starts_with p n} \<and>
     (\<forall>n. map_of d' n = (if starts_with p n then None else map_of d n))"
proof -
  have "\<exists>d'. foldM (reconcile_candidate name) (rm, d0) cs = Inr (rm @ map fst cs, d') \<and> removable name d' \<and>
      (\<forall>n. map_of d' n = (if n \<in> fst ` set cs then None else map_of d0 n))"
    if "\<forall>(n, e)\<in>set cs. starts_with p n \<and> e \<noteq> NotAFile" and "removable name d0" for cs rm d0
    using that
  proof (induction cs arbitrary: rm d0)
    case (Cons c cs)
    obtain n e where c: "c = (n, e)" by force
    with Cons.prems(1) have n: "starts_with p n" "e \<noteq> NotAFile" by auto
    then have "n \<notin> {name, previous_name name, lease_name name}" using lineage_not_temporary [OF _ p] by blast
    then have "reconcile_candidate name (rm, d0) c = Inr (rm @ [n], remove_name n d0)"
      using n(2) by (auto simp: reconcile_candidate_def c split: entry.split)
    moreover have "removable name (remove_name n d0)" using Cons.prems(2) by (auto simp: removable_def set_remove_name)
    moreover have "\<forall>(n, e)\<in>set cs. starts_with p n \<and> e \<noteq> NotAFile" using Cons.prems(1) by simp
    ultimately show ?case
      using Cons.IH [of "remove_name n d0" "rm @ [n]"] by (auto simp: c)
  qed simp
  from this [of "filter (\<lambda>(n, _). starts_with p n) d" d removed] r p obtain d' where
    d': "foldM (reconcile_candidate name) (removed, d) (filter (\<lambda>(n, _). starts_with p n) d)
       = Inr (removed @ map fst (filter (\<lambda>(n, _). starts_with p n) d), d')" "removable name d'"
      "\<forall>n. map_of d' n = (if n \<in> fst ` set (filter (\<lambda>(n, _). starts_with p n) d) then None else map_of d n)"
    by (auto simp: removable_def temporary_def)
  have "map_of d' n = (if starts_with p n then None else map_of d n)" for n
    using d'(3) by (auto simp: image_iff map_of_eq_None_iff)
  moreover have "set (map fst (filter (\<lambda>(n, _). starts_with p n) d)) = {n \<in> fst ` set d. starts_with p n}" by auto
  ultimately show ?thesis using d'(1,2) by (auto simp: reconcile_pattern_def)
qed

lemma reconcile_removes:
  assumes "removable name d"
  shows "\<exists>removed d'. reconcile_temporaries name d = Inr (removed, d') \<and>
     (\<forall>n. map_of d' n = (if temporary name n then None else map_of d n)) \<and>
     set removed \<subseteq> {n \<in> fst ` set d. temporary name n}"
proof -
  from reconcile_pattern_removes [OF _ assms, of "part_prefix name" "[]"] obtain ns d1 where
    1: "reconcile_pattern name ([], d) (part_prefix name) = Inr (ns, d1)" "removable name d1"
      "set ns = {n \<in> fst ` set d. starts_with (part_prefix name) n}"
      "\<forall>n. map_of d1 n = (if starts_with (part_prefix name) n then None else map_of d n)" by auto
  from reconcile_pattern_removes [OF _ 1(2), of "link_prefix name" ns] obtain ms d2 where
    2: "reconcile_pattern name (ns, d1) (link_prefix name) = Inr (ns @ ms, d2)"
      "set ms = {n \<in> fst ` set d1. starts_with (link_prefix name) n}"
      "\<forall>n. map_of d2 n = (if starts_with (link_prefix name) n then None else map_of d1 n)" by auto
  have "fst ` set d1 \<subseteq> fst ` set d"
  proof
    fix n assume "n \<in> fst ` set d1"
    then have "map_of d1 n \<noteq> None" by (simp add: map_of_eq_None_iff)
    with 1(4) have "map_of d n \<noteq> None" by (auto split: if_splits)
    then show "n \<in> fst ` set d" by (simp add: map_of_eq_None_iff)
  qed
  with 1 2 show ?thesis by (auto simp: reconcile_temporaries_def temporary_def)
qed

text \<open>Every operation of a save keeps the directory removable.\<close>

lemma apply_op_removable:
  assumes "removable name d" and "map_of d name \<noteq> Some NotAFile"
    and "case op of Link a b \<Rightarrow> a = name \<and> b \<noteq> name | Rename a b \<Rightarrow> temporary name a \<and> \<not> temporary name b | Unlink n \<Rightarrow> temporary name n
      | CreateFile n \<Rightarrow> temporary name n | WriteFile n p \<Rightarrow> temporary name n | SyncDir \<Rightarrow> True"
  shows "removable name (apply_op op d) \<and> map_of (apply_op op d) name \<noteq> Some NotAFile"
proof -
  have r: "removable name ((n, e) # remove_name n d')" if "removable name d'" "temporary name n \<Longrightarrow> e \<noteq> NotAFile" for n e and d' :: "'a ckpt_dir"
    using that by (auto simp: removable_def set_remove_name)
  have rm: "removable name (remove_name n d)" for n using assms(1) by (auto simp: removable_def set_remove_name)
  have e: "map_of d a \<noteq> Some NotAFile" if "temporary name a" for a
    using assms(1) that by (auto simp: removable_def dest!: map_of_SomeD)
  have nm: "\<not> temporary name name" by (rule lineage_permanent) simp
  show ?thesis
    using assms nm e by (cases op) (auto intro!: r rm split: option.split)
qed

lemma crashed_save_removable:
  assumes "removable name d" and "map_of d name \<noteq> Some NotAFile"
  shows "removable name (crashed_save k preserve name p d)"
proof -
  define part link where "part = fresh_name (part_prefix name) d" and "link = fresh_name (link_prefix name) d"
  have t: "temporary name part" "temporary name link"
    by (simp_all add: part_def link_def temporary_def starts_with_fresh)
  have p: "\<not> temporary name name" "\<not> temporary name (previous_name name)" by (rule lineage_permanent, simp)+
  have "removable name (run_ops ops d') \<and> map_of (run_ops ops d') name \<noteq> Some NotAFile"
    if "removable name d'" "map_of d' name \<noteq> Some NotAFile" "set ops \<subseteq> set (save_ops preserve name p d)" for ops d'
    using that
  proof (induction ops arbitrary: d')
    case (Cons op ops)
    have "case op of Link a b \<Rightarrow> a = name \<and> b \<noteq> name | Rename a b \<Rightarrow> temporary name a \<and> \<not> temporary name b | Unlink n \<Rightarrow> temporary name n
      | CreateFile n \<Rightarrow> temporary name n | WriteFile n p \<Rightarrow> temporary name n | SyncDir \<Rightarrow> True"
      using Cons.prems(3) t p by (auto simp: save_ops_def Let_def part_def link_def split: if_splits)
    from apply_op_removable [OF Cons.prems(1,2) this] Cons show ?case by auto
  qed simp
  from this [OF assms, of "take k (save_ops preserve name p d)"] show ?thesis
    unfolding crashed_save_def by (simp add: set_take_subset)
qed

text \<open>A crash anywhere, then recovery: the published generations survive and no temporary stays.\<close>

lemma crash_and_reconcile:
  assumes "removable name d" and "map_of d name \<noteq> Some NotAFile"
  shows "\<exists>removed d'. reconcile_temporaries name (crashed_save k preserve name p d) = Inr (removed, d') \<and>
     (\<forall>n. temporary name n \<longrightarrow> map_of d' n = None) \<and>
     (\<forall>n. \<not> temporary name n \<and> n \<notin> {name, previous_name name} \<longrightarrow> map_of d' n = map_of d n) \<and>
     map_of d' name \<in> {map_of d name, Some (Complete p)} \<and>
     (map_of d' (previous_name name) = map_of d (previous_name name) \<or>
      map_of d name \<noteq> None \<and> map_of d' (previous_name name) = map_of d name \<and> map_of d' name = Some (Complete p))"
proof -
  let ?c = "crashed_save k preserve name p d"
  from reconcile_removes [OF crashed_save_removable [OF assms, of k preserve p]] obtain removed d' where
    d': "reconcile_temporaries name ?c = Inr (removed, d')"
      "\<forall>n. map_of d' n = (if temporary name n then None else map_of ?c n)" by blast
  have perm: "\<not> temporary name name" "\<not> temporary name (previous_name name)" by (rule lineage_permanent, simp)+
  have c: "map_of ?c n = map_of d n \<or> n = name \<and> map_of ?c n = Some (Complete p) \<or>
     n = previous_name name \<and> map_of d name \<noteq> None \<and> map_of ?c n = map_of d name \<and>
       map_of ?c name = Some (Complete p)" if "\<not> temporary name n" for n
    by (rule crashed_save_entries) (use that in \<open>auto simp: temporary_def starts_with_fresh\<close>)
  have "name \<noteq> previous_name name" using save_names [of name d] by blast
  with c [OF perm(1)] c [OF perm(2)] have "map_of d' name \<in> {map_of d name, Some (Complete p)} \<and>
     (map_of d' (previous_name name) = map_of d (previous_name name) \<or>
      map_of d name \<noteq> None \<and> map_of d' (previous_name name) = map_of d name \<and> map_of d' name = Some (Complete p))"
    using d'(2) perm by auto
  moreover have "\<forall>n. \<not> temporary name n \<and> n \<notin> {name, previous_name name} \<longrightarrow> map_of d' n = map_of d n"
    using c d'(2) by auto
  ultimately show ?thesis using d' by auto
qed

end
