(* ===== verification/TrainRun.thy ===== *)
theory TrainRun
  imports TrainFacts CheckpointFacts
begin

text \<open>
  A run as the code's own checkpoints see it: the persistent state of a job (model and optimizer,
  random states, progress, metadata), the specification of training as settling due validations
  and applying optimizer updates, and the proof that the loop, with its polls, checkpoints and
  early returns, follows that specification.
\<close>

section \<open>The specification\<close>

type_synonym ('m, 'r) job_state = "'m \<times> 'r rank_rng list \<times> train_state \<times> (string \<times> json) list"

definition persistent :: "('m, 'r, 'g) trainer \<Rightarrow> ('m, 'r) job_state" where
  "persistent t = (tr_model t, tr_rngs t, tr_state t, tr_metadata t)"

definition run_due :: "validation_runner option \<Rightarrow> train_config \<Rightarrow> train_state \<Rightarrow> (string \<times> json) list \<Rightarrow> bool" where
  "run_due v c s metadata \<longleftrightarrow> v \<noteq> None \<and>
     (if ts_steps s = 0 then eval_at_start c \<and> map_of metadata at_start_key \<noteq> Some (JBool True)
      else ts_last_validated s < ts_steps s \<and>
        (ts_steps s = tc_max_steps c \<or> 0 < tc_eval_every c \<and> ts_steps s mod tc_eval_every c = 0))"

text \<open>A due validation is made up for; it changes the record of validations only.\<close>

definition settle ::
    "('m, 'r rank_rng, 'g) torch_ops \<Rightarrow> validation_runner option \<Rightarrow> train_config \<Rightarrow> ('m, 'r) job_state \<Rightarrow> ('m, 'r) job_state res" where
  "settle ops v c P = (case P of (m, rngs, s, metadata) \<Rightarrow>
     if run_due v c s metadata
     then rbind (evaluate_validation_order ops (the v) m rngs (ts_steps s)) (\<lambda>_.
       Inr (if ts_steps s = 0 then (m, rngs, s, AList.update at_start_key (JBool True) metadata)
            else (m, rngs, s\<lparr>ts_last_validated := ts_steps s\<rparr>, metadata)))
     else Inr P)"

text \<open>\<open>n\<close> optimizer updates, each after what is due.\<close>

fun run_updates ::
    "('m, 'r rank_rng, 'g) torch_ops \<Rightarrow> validation_runner option \<Rightarrow> train_config \<Rightarrow> nat \<Rightarrow> json \<Rightarrow> nat \<Rightarrow>
     ('m, 'r) job_state \<Rightarrow> raw_batch res list list \<Rightarrow> (('m, 'r) job_state \<times> raw_batch res list list) res" where
  "run_updates ops v c world g 0 P its = Inr (P, its)"
| "run_updates ops v c world g (Suc n) P its =
     rbind (settle ops v c P) (\<lambda>(m, rngs, s, metadata).
     rbind (optimizer_update ops c world g (m, rngs, s) (replicate world None) its) (\<lambda>((m', rngs', s'), rest, _).
     run_updates ops v c world g n (m', rngs', s', metadata) rest))"

lemma run_updates_append:
  "run_updates ops v c world g (a + b) P its =
     rbind (run_updates ops v c world g a P its) (\<lambda>(Q, rest). run_updates ops v c world g b Q rest)"
proof (induction a arbitrary: P its)
  case (Suc a)
  show ?case by (cases "settle ops v c P") (auto simp: Suc.IH rbind_def split: sum.split prod.split)
qed simp

lemma validation_restores_rngs:
  "evaluate_validation_order ops v m rngs step = Inr (metrics, rngs') \<Longrightarrow> rngs' = rngs"
  by (auto simp: evaluate_validation_order_def Let_def res_simps)

lemma settle_idem: "settle ops v c P = Inr Q \<Longrightarrow> settle ops v c Q = Inr Q"
proof -
  assume s: "settle ops v c P = Inr Q"
  obtain m rngs st md where P: "P = (m, rngs, st, md)" by (cases P) auto
  show ?thesis
  proof (cases "run_due v c st md")
    case True
    with s P have "Q = (if ts_steps st = 0 then (m, rngs, st, AList.update at_start_key (JBool True) md)
        else (m, rngs, st\<lparr>ts_last_validated := ts_steps st\<rparr>, md))"
      by (auto simp: settle_def rbind_eq_Inr)
    then show ?thesis by (auto simp: settle_def run_due_def update_conv)
  next
    case False
    with s P have "Q = (m, rngs, st, md)" by (simp add: settle_def)
    with False show ?thesis by (simp add: settle_def)
  qed
qed

lemma run_updates_settled:
  "settle ops v c P = Inr Q \<Longrightarrow> run_updates ops v c world g (Suc n) P its = run_updates ops v c world g (Suc n) Q its"
  using settle_idem [of ops v c P Q] by simp

section \<open>One job, one run\<close>

definition same_job :: "('m, 'r, 'g) trainer \<Rightarrow> ('m, 'r, 'g) trainer \<Rightarrow> bool" where
  "same_job t u \<longleftrightarrow> tr_config t = tr_config u \<and> tr_world t = tr_world u \<and> tr_runtime t = tr_runtime u \<and>
     tr_data_identity t = tr_data_identity u \<and> tr_tokenizer t = tr_tokenizer u \<and>
     tr_geometry t = tr_geometry u \<and> tr_validation t = tr_validation u \<and> tr_path t = tr_path u"

lemma same_job_refl [simp]: "same_job t t"
  by (simp add: same_job_def)

lemma same_job_sym: "same_job t u \<Longrightarrow> same_job u t"
  by (simp add: same_job_def)

lemma same_job_trans: "same_job t u \<Longrightarrow> same_job u w \<Longrightarrow> same_job t w"
  by (simp add: same_job_def)

lemma same_job_identity: "same_job t u \<Longrightarrow> checkpoint_identity t = checkpoint_identity u"
  by (auto simp: same_job_def checkpoint_identity_def runtime_fact_def validation_configuration_def split: option.split)

lemma final_checks_persistent:
  "same_job t u \<Longrightarrow> tr_state t = tr_state u \<Longrightarrow> final_checks t = final_checks u"
  by (simp add: same_job_def final_checks_def)

text \<open>A checkpoint restores a job when loading it in any job of the run comes down to restoring the
  random states rank by rank, and what remains is the job's state. A finished state that fails the
  final checks is refused.\<close>

definition restores :: "('m, 'r) full_checkpoint \<Rightarrow> ('m, 'r, 'g) trainer \<Rightarrow> bool" where
  "restores ck t \<longleftrightarrow> (final_checks t = Inr () \<longrightarrow> (\<forall>(u :: ('m, 'r, 'g) trainer) p.
     same_job u t \<and> map_of (tr_disk u) p = Some (Complete ck) \<longrightarrow>
     (\<exists>u'. load_checkpoint p u = rbind (restore_ranks (map capture_rng_state (tr_rngs t)) (tr_rngs u))
          (\<lambda>rngs. Inr (u'\<lparr>tr_rngs := rngs\<rparr>)) \<and>
        persistent (u'\<lparr>tr_rngs := tr_rngs t\<rparr>) = persistent t \<and> same_job u' u \<and> tr_disk u' = tr_disk u \<and>
        tr_inputs u' = tr_inputs u \<and> tr_controllers u' = tr_controllers u \<and>
        tr_grads u' = replicate (tr_world t) None \<and> tr_last_checkpoint u' = Some (p, ts_steps (tr_state t)))))"

definition stored_checkpoint :: "('m, 'r, 'g) trainer \<Rightarrow> bool" where
  "stored_checkpoint t \<longleftrightarrow> (\<exists>p ck. tr_path t = Some p \<and> map_of (tr_disk t) p = Some (Complete ck) \<and> restores ck t)"

text \<open>The invariant of a job at a step boundary.\<close>

definition job_ok :: "('m, 'r, 'g) trainer \<Rightarrow> bool" where
  "job_ok t \<longleftrightarrow> check_train_config (tr_config t) = Inr () \<and> length (tr_rngs t) = tr_world t \<and>
     tr_grads t = replicate (tr_world t) None \<and>
     progress_ok (tr_config t) (tr_geometry t) (tr_validation t \<noteq> None) (tr_state t) \<and>
     distinct (map fst (tr_metadata t)) \<and>
     validate_at_start_metadata (tr_validation t) (tr_config t) (tr_metadata t) = Inr () \<and>
     json_wf (JObj (checkpoint_identity t)) \<and>
     (\<forall>q n. tr_last_checkpoint t = Some (q, n) \<longrightarrow> n \<le> ts_steps (tr_state t)) \<and>
     (\<forall>p. tr_path t = Some p \<and> tr_last_checkpoint t = Some (p, ts_steps (tr_state t)) \<longrightarrow> stored_checkpoint t)"

section \<open>A checkpoint restores what was saved\<close>

lemma checkpoint_fields:
  "jget (ck_fields (checkpoint_of t)) ''format'' = JStr ''native-pytorch-pretrain''"
  "jget (ck_fields (checkpoint_of t)) ''format_version'' = JInt 5"
  "jget (ck_fields (checkpoint_of t)) ''train_state'' = state_json (tr_state t)"
  "jget (ck_fields (checkpoint_of t)) ''metadata'' = JObj (tr_metadata t)"
  "''train_state'' \<in> set (jkeys (ck_fields (checkpoint_of t)))"
  "''metadata'' \<in> set (jkeys (ck_fields (checkpoint_of t)))"
  "is_jobj (ck_fields (checkpoint_of t))"
  by (simp_all add: checkpoint_of_def checkpoint_identity_def runtime_fact_def jfield_def)

lemma checkpoint_parts: "ck_model (checkpoint_of t) = tr_model t" "ck_rngs (checkpoint_of t) = map capture_rng_state (tr_rngs t)"
  by (simp_all add: checkpoint_of_def)

lemma checkpoint_identity_fields:
  "(k, v) \<in> set (checkpoint_identity t) \<Longrightarrow> jget (ck_fields (checkpoint_of t)) k = v"
proof -
  define fields where "fields = [(''format'', JStr ''native-pytorch-pretrain''), (''format_version'', JInt 5)] @
    checkpoint_identity t @ [(''train_state'', state_json (tr_state t)), (''metadata'', JObj (tr_metadata t))]"
  assume "(k, v) \<in> set (checkpoint_identity t)"
  then have "(k, v) \<in> set fields" by (simp add: fields_def)
  moreover have "map fst (checkpoint_identity t) = [''torch_version'', ''world_size'', ''runtime_signature'',
      ''implementation_signature'', ''data_identity'', ''tokenizer_manifest_sha256'', ''tokenizer_vocabulary_sha256'',
      ''training_geometry'', ''validation_configuration'', ''model_config'', ''parameter_dtypes'', ''optimizer_class'',
      ''train_trajectory_config'']"
    by (simp add: checkpoint_identity_def runtime_fact_def)
  then have "distinct (map fst fields)" unfolding fields_def map_append by simp
  ultimately have "map_of fields k = Some v" by simp
  then show ?thesis by (simp add: checkpoint_of_def fields_def [symmetric] jfield_def del: append_Cons append_Nil map_of_append)
qed

lemma entries_of_metadata:
  "distinct (map fst md) \<Longrightarrow> map ((\<lambda>k. (k, jfield md k)) \<circ> fst) md = md"
proof -
  assume d: "distinct (map fst md)"
  have "(k, jfield md k) = (k, v)" if "(k, v) \<in> set md" for k v
    using that d by (simp add: jfield_def)
  then show ?thesis by (auto simp: o_def intro!: map_idI)
qed

lemma list_ex_zip3_domains:
  "domains_ok (Some T) r i l \<Longrightarrow> \<not> list_ex (\<lambda>(r, i, l). i \<noteq> r * T \<or> i < l) (zip r (zip i l))"
proof -
  assume "domains_ok (Some T) r i l"
  then have "i ! n = r ! n * T \<and> l ! n \<le> i ! n" if "n < length domain_order" for n
    using that unfolding domains_ok_def by (metis option.distinct(1) option.sel)
  with \<open>domains_ok (Some T) r i l\<close> show ?thesis by (fastforce simp: domains_ok_def list_ex_iff in_set_zip)
qed

lemma checkpoint_restores:
  assumes t: "job_ok t" shows "restores (checkpoint_of t) t"
  unfolding restores_def
proof (intro impI allI, elim conjE)
  fix u :: "('a, 'b, 'c) trainer" and p
  assume fin: "final_checks t = Inr ()" and r: "same_job u t" and d: "map_of (tr_disk u) p = Some (Complete (checkpoint_of t))"
  let ?p = "ck_fields (checkpoint_of t)" and ?s = "tr_state t"
  let ?c = "tr_config t" and ?g = "tr_geometry t"
  from t have po: "progress_ok ?c ?g (tr_validation t \<noteq> None) ?s" and md: "distinct (map fst (tr_metadata t))"
    and vm: "validate_at_start_metadata (tr_validation t) ?c (tr_metadata t) = Inr ()"
    and wf: "json_wf (JObj (checkpoint_identity t))" and len: "length (tr_rngs t) = tr_world t"
    by (auto simp: job_ok_def)
  from r have e: "tr_config u = ?c" "tr_geometry u = ?g" "tr_validation u = tr_validation t" "tr_world u = tr_world t"
    by (auto simp: same_job_def)
  have id: "\<not> list_ex (\<lambda>(k, v). \<not> py_eq (jget ?p k) v) (checkpoint_identity u)"
    using wf py_eq_refl by (fastforce simp: same_job_identity [OF r] list_ex_iff list_all_iff checkpoint_identity_fields)
  have st: "state_from_dict (state_json ?s) = Inr ?s"
    using po by (intro state_json_trip) (simp add: progress_ok_def)
  have val: "check_resumed_validation u ?s = Inr ()"
    using po by (auto simp: check_resumed_validation_def Let_def e progress_ok_def)
  have cnt: "check_resumed_counters ?c ?s = Inr ()"
    using po by (auto simp: check_resumed_counters_def progress_ok_def)
  have geo: "check_resumed_geometry ?c ?g ?s = Inr ()"
  proof (cases "?g = JNull")
    case True
    then show ?thesis by (simp add: check_resumed_geometry_def)
  next
    case False
    with po have "domains_ok (Some (jint_of (jget ?g ''sequence_length''))) (ts_rows_pd ?s) (ts_input_tokens_pd ?s)
        (ts_supervised_tokens_pd ?s)" by (simp add: progress_ok_def row_length_def)
    note list_ex_zip3_domains [OF this]
    moreover have "ts_steps ?s = tc_max_steps ?c \<Longrightarrow>
        eq_domains (jget ?g ''consumed_input_tokens_per_domain'') (ts_input_tokens_pd ?s) \<and>
        eq_domains (jget ?g ''consumed_supervised_tokens_per_domain'') (ts_supervised_tokens_pd ?s)"
      using fin False by (auto simp: final_checks_def Let_def split: if_splits)
    ultimately show ?thesis using po False
      by (auto simp: check_resumed_geometry_def Let_def progress_ok_def)
  qed
  have "ts_steps ?s \<le> tc_max_steps ?c" using po by (simp add: progress_ok_def)
  then have "load_checkpoint p u = rbind (restore_ranks (map capture_rng_state (tr_rngs t)) (tr_rngs u))
      (\<lambda>rngs. Inr (u\<lparr>tr_model := tr_model t, tr_grads := replicate (tr_world t) None,
      tr_state := ?s, tr_metadata := tr_metadata t, tr_rngs := rngs,
      tr_preserve := (case tr_path u of None \<Rightarrow> tr_preserve u | Some q \<Rightarrow> p = previous_name q),
      tr_last_checkpoint := Some (p, ts_steps ?s)\<rparr>))"
      (is "_ = rbind _ (\<lambda>rngs. Inr (?loaded rngs))")
    unfolding load_checkpoint_def d option.case entry.case Let_def checkpoint_fields jitem_def
    by (simp add: checkpoint_fields id st val cnt geo entries_of_metadata [OF md] vm e len checkpoint_parts eq_int_def)
  moreover have "w\<lparr>tr_rngs := rngs, tr_preserve := b, tr_last_checkpoint := l\<rparr>
      = w\<lparr>tr_preserve := b, tr_last_checkpoint := l, tr_rngs := rngs\<rparr>" for w :: "('a, 'b, 'c) trainer" and rngs b l
    by (cases w) simp
  ultimately show "\<exists>u'. load_checkpoint p u = rbind (restore_ranks (map capture_rng_state (tr_rngs t)) (tr_rngs u))
          (\<lambda>rngs. Inr (u'\<lparr>tr_rngs := rngs\<rparr>)) \<and>
        persistent (u'\<lparr>tr_rngs := tr_rngs t\<rparr>) = persistent t \<and> same_job u' u \<and> tr_disk u' = tr_disk u \<and>
        tr_inputs u' = tr_inputs u \<and> tr_controllers u' = tr_controllers u \<and>
        tr_grads u' = replicate (tr_world t) None \<and> tr_last_checkpoint u' = Some (p, ts_steps ?s)"
    by (intro exI [of _ "?loaded (tr_rngs u)"]) (simp add: persistent_def same_job_def)
qed

section \<open>The operations on a job\<close>

lemma restores_cong:
  assumes r: "same_job t' t" and p: "persistent t' = persistent t"
  shows "restores ck t' \<longleftrightarrow> restores ck t"
proof -
  from p have "tr_state t' = tr_state t" by (simp add: persistent_def)
  moreover have "same_job u t' \<longleftrightarrow> same_job u t" for u :: "('a, 'b, 'c) trainer"
    using r same_job_sym same_job_trans by blast
  moreover have "tr_world t' = tr_world t" using r by (simp add: same_job_def)
  moreover have "tr_rngs t' = tr_rngs t" using p by (simp add: persistent_def)
  ultimately show ?thesis unfolding restores_def final_checks_persistent [OF r \<open>tr_state t' = tr_state t\<close>] p by simp
qed

lemma stored_checkpoint_cong:
  "same_job t' t \<Longrightarrow> persistent t' = persistent t \<Longrightarrow> tr_disk t' = tr_disk t \<Longrightarrow>
     stored_checkpoint t' \<longleftrightarrow> stored_checkpoint t"
  using restores_cong [of t' t] by (auto simp: stored_checkpoint_def same_job_def)

text \<open>What a step of the loop outside the optimizer may do: no change of the persistent state.\<close>

definition continues :: "('m, 'r, 'g) trainer \<Rightarrow> ('m, 'r, 'g) trainer \<Rightarrow> bool" where
  "continues t t' \<longleftrightarrow> job_ok t' \<and> same_job t' t \<and> persistent t' = persistent t"

lemma continues_refl: "job_ok t \<Longrightarrow> continues t t"
  by (simp add: continues_def)

lemma continues_trans: "continues t u \<Longrightarrow> continues u w \<Longrightarrow> continues t w"
  by (auto simp: continues_def intro: same_job_trans)

lemma job_ok_bookkeeping:
  assumes "job_ok t" and "same_job t' t" "persistent t' = persistent t" "tr_grads t' = tr_grads t"
    "tr_last_checkpoint t' = tr_last_checkpoint t" "tr_disk t' = tr_disk t"
  shows "continues t t'"
  using assms stored_checkpoint_cong [OF assms(2,3,6)] same_job_identity [OF assms(2)]
  by (auto simp: continues_def job_ok_def persistent_def same_job_def)

lemma save_continues:
  assumes j: "job_ok t" and s: "save_checkpoint None t = Inr t'"
  shows "continues t t' \<and> stored_checkpoint t' \<and> tr_inputs t' = tr_inputs t \<and> tr_controllers t' = tr_controllers t \<and>
     tr_stop_signal t' = tr_stop_signal t"
proof -
  from s obtain p where p: "tr_path t = Some p" by (cases "tr_path t") (auto simp: save_checkpoint_def)
  show ?thesis
  proof (cases "tr_last_checkpoint t = Some (p, ts_steps (tr_state t))")
    case True
    with s p have "t' = t" by (auto simp: save_checkpoint_def Let_def split: if_splits)
    with True p j show ?thesis by (simp add: continues_refl) (simp add: job_ok_def)
  next
    case False
    with s p obtain disk preserve where
      a: "atomic_torch_save preserve p (checkpoint_of t) (tr_disk t) = Inr disk"
      and t': "same_job t' t" "persistent t' = persistent t" "tr_grads t' = tr_grads t" "tr_disk t' = disk"
        "tr_last_checkpoint t' = Some (p, ts_steps (tr_state t))" "tr_inputs t' = tr_inputs t"
        "tr_controllers t' = tr_controllers t" "tr_stop_signal t' = tr_stop_signal t"
      by (auto simp: save_checkpoint_def Let_def res_simps persistent_def same_job_def split: if_splits)
    have "restores (checkpoint_of t) t'"
      using checkpoint_restores [OF j] restores_cong [OF t'(1,2)] by simp
    with atomic_save_disk(1) [OF a] p t'(1,4) have st: "stored_checkpoint t'"
      by (auto simp: stored_checkpoint_def same_job_def)
    have "job_ok t'"
      using j st t' same_job_identity [OF t'(1)] by (auto simp: job_ok_def persistent_def same_job_def)
    with st t' show ?thesis by (simp add: continues_def)
  qed
qed

lemma poll_continues:
  assumes "job_ok t" and "poll_stop t = Inr (requested, t')"
  shows "continues t t' \<and> tr_disk t' = tr_disk t \<and> tr_stop_signal t' = tr_stop_signal t"
proof -
  from assms(2) have "same_job t' t" "persistent t' = persistent t" "tr_grads t' = tr_grads t" "tr_disk t' = tr_disk t"
    "tr_last_checkpoint t' = tr_last_checkpoint t" "tr_stop_signal t' = tr_stop_signal t"
    by (auto simp: poll_stop_def Let_def res_simps persistent_def same_job_def split: prod.splits list.splits)
  with job_ok_bookkeeping [OF assms(1)] show ?thesis by simp
qed

lemma honor_continues:
  assumes j: "job_ok t" and h: "honor_stop_request saved requested t = Inr (stopped, t')"
  shows "continues t t' \<and> (stopped \<longleftrightarrow> requested \<noteq> 0) \<and> (stopped \<longrightarrow> tr_stop_signal t' = requested) \<and>
     (\<not> stopped \<longrightarrow> t' = t) \<and> (saved \<longrightarrow> tr_disk t' = tr_disk t) \<and> (stopped \<longrightarrow> \<not> saved \<longrightarrow> stored_checkpoint t')"
proof (cases "requested = 0")
  case True
  with h j show ?thesis by (auto simp: honor_stop_request_def continues_refl)
next
  case False
  define t1 where "t1 = t\<lparr>tr_stop_signal := requested\<rparr>"
  have c1: "continues t t1" "tr_disk t1 = tr_disk t" "tr_stop_signal t1 = requested"
    using job_ok_bookkeeping [OF j, of t1] by (simp_all add: t1_def persistent_def same_job_def)
  then have j1: "job_ok t1" by (simp add: continues_def)
  from h False obtain t2 where t2: "(if saved then Inr t1 else save_checkpoint None t1) = Inr t2"
    and t': "stopped" "t' = t2 \<or> (\<exists>l. t' = t2\<lparr>tr_log := l\<rparr>)"
    by (auto simp: honor_stop_request_def Let_def res_simps t1_def split: if_splits)
  from t2 save_continues [OF j1, of t2] have c2: "continues t1 t2 \<and> tr_stop_signal t2 = requested \<and>
      (saved \<longrightarrow> tr_disk t2 = tr_disk t) \<and> (\<not> saved \<longrightarrow> stored_checkpoint t2)"
    using c1 continues_refl [OF j1] by (auto split: if_splits)
  have e: "same_job t' t2" "persistent t' = persistent t2" "tr_grads t' = tr_grads t2" "tr_disk t' = tr_disk t2"
    "tr_last_checkpoint t' = tr_last_checkpoint t2" "tr_stop_signal t' = tr_stop_signal t2"
    using t'(2) by (auto simp: persistent_def same_job_def)
  have "job_ok t2" using c2 by (simp add: continues_def)
  from job_ok_bookkeeping [OF this e(1-3,5,4)] have c3: "continues t2 t'" .
  have "stored_checkpoint t' \<longleftrightarrow> stored_checkpoint t2" by (rule stored_checkpoint_cong [OF e(1,2,4)])
  with c1 c2 c3 t'(1) e False show ?thesis by (auto intro: continues_trans)
qed

lemma stop_point_continues:
  assumes j: "job_ok t" and s: "stop_point t = Inr (stopped, t')"
  shows "continues t t' \<and> (stopped \<longrightarrow> tr_stop_signal t' \<noteq> 0 \<and> stored_checkpoint t') \<and>
     (\<not> stopped \<longrightarrow> tr_stop_signal t' = tr_stop_signal t)"
proof -
  from s obtain requested t1 where p: "poll_stop t = Inr (requested, t1)"
    and h: "honor_stop_request False requested t1 = Inr (stopped, t')"
    by (auto simp: stop_point_def res_simps)
  note c = poll_continues [OF j p]
  then have "job_ok t1" by (simp add: continues_def)
  from honor_continues [OF this h] c show ?thesis by (auto intro: continues_trans)
qed

lemma run_due_iff:
  "run_due (tr_validation t) (tr_config t) (tr_state t) (tr_metadata t) \<longleftrightarrow> validation_at_start_due t \<or> validation_due t"
  by (auto simp: run_due_def validation_at_start_due_def validation_due_def Let_def)

text \<open>A due validation settles the persistent state and leaves the rest.\<close>

lemma evaluate_settles:
  assumes due: "validation_at_start_due t \<or> validation_due t"
  shows "evaluate_validation ops t =
     rbind (settle ops (tr_validation t) (tr_config t) (persistent t)) (\<lambda>(m, rngs, s, md).
       Inr (t\<lparr>tr_rngs := rngs, tr_state := s, tr_metadata := md, tr_last_checkpoint := None,
         tr_log := tr_log t @ [Validated (ts_steps (tr_state t))]\<rparr>))"
proof -
  from due obtain v where v: "tr_validation t = Some v" by (auto simp: validation_at_start_due_def validation_due_def Let_def)
  have d: "run_due (Some v) (tr_config t) (tr_state t) (tr_metadata t)" using due by (simp add: run_due_iff v [symmetric])
  show ?thesis
  proof (cases "evaluate_validation_order ops v (tr_model t) (tr_rngs t) (ts_steps (tr_state t))")
    case (Inl e)
    then show ?thesis by (simp add: evaluate_validation_def v settle_def persistent_def d Let_def)
  next
    case (Inr r)
    then obtain metrics where r: "evaluate_validation_order ops v (tr_model t) (tr_rngs t) (ts_steps (tr_state t))
        = Inr (metrics, tr_rngs t)"
      using validation_restores_rngs by (metis surj_pair)
    show ?thesis
    proof (cases "ts_steps (tr_state t) = 0")
      case True
      with d have "eval_at_start (tr_config t)" "map_of (tr_metadata t) at_start_key \<noteq> Some (JBool True)"
        by (simp_all add: run_due_def)
      with True r show ?thesis
        by (simp add: evaluate_validation_def v settle_def persistent_def d Let_def)
    next
      case False
      with d have "ts_last_validated (tr_state t) < ts_steps (tr_state t)" by (simp add: run_due_def)
      with False show ?thesis by (simp add: evaluate_validation_def v r settle_def persistent_def d Let_def)
    qed
  qed
qed

definition settles :: "('m, 'r rank_rng, 'g) torch_ops \<Rightarrow> ('m, 'r, 'g) trainer \<Rightarrow> ('m, 'r, 'g) trainer \<Rightarrow> bool" where
  "settles ops t t' \<longleftrightarrow> job_ok t' \<and> same_job t' t \<and>
     settle ops (tr_validation t) (tr_config t) (persistent t) = Inr (persistent t')"

lemma settles_continues: "settles ops t u \<Longrightarrow> continues u w \<Longrightarrow> settles ops t w"
  by (auto simp: settles_def continues_def intro: same_job_trans)

lemma continues_settles: "continues t u \<Longrightarrow> settles ops u w \<Longrightarrow> settles ops t w"
  by (auto simp: settles_def continues_def same_job_def)

lemma not_due_settles:
  "job_ok t \<Longrightarrow> \<not> validation_at_start_due t \<Longrightarrow> \<not> validation_due t \<Longrightarrow> settles ops t t"
  by (simp add: settles_def settle_def persistent_def run_due_iff)

lemma settles_state:
  "settles ops t t' \<Longrightarrow> tr_state t' = tr_state t \<or> tr_state t' = tr_state t\<lparr>ts_last_validated := ts_steps (tr_state t)\<rparr>"
  by (auto simp: settles_def settle_def persistent_def res_simps split: if_splits)

lemma settles_steps: "settles ops t t' \<Longrightarrow> ts_steps (tr_state t') = ts_steps (tr_state t)"
  using settles_state [of ops t t'] by auto

lemma evaluate_continues:
  assumes j: "job_ok t" and due: "validation_at_start_due t \<or> validation_due t" and e: "evaluate_validation ops t = Inr t'"
  shows "settles ops t t' \<and> tr_stop_signal t' = tr_stop_signal t"
proof -
  let ?S = "settle ops (tr_validation t) (tr_config t) (persistent t)" and ?s = "tr_state t" and ?c = "tr_config t"
  have d: "run_due (tr_validation t) ?c ?s (tr_metadata t)" using due by (simp add: run_due_iff)
  from e obtain m rngs s md where S: "?S = Inr (m, rngs, s, md)"
    and t': "t' = t\<lparr>tr_rngs := rngs, tr_state := s, tr_metadata := md, tr_last_checkpoint := None,
         tr_log := tr_log t @ [Validated (ts_steps ?s)]\<rparr>"
    by (auto simp: evaluate_settles [OF due] res_simps)
  from S d have m: "m = tr_model t" "rngs = tr_rngs t"
    and s: "s = (if ts_steps ?s = 0 then ?s else ?s\<lparr>ts_last_validated := ts_steps ?s\<rparr>)"
    and md: "md = (if ts_steps ?s = 0 then AList.update at_start_key (JBool True) (tr_metadata t) else tr_metadata t)"
    by (auto simp: settle_def persistent_def res_simps split: if_splits)
  have r: "same_job t' t" by (simp add: t' same_job_def)
  have p: "?S = Inr (persistent t')" using S m by (simp add: t' persistent_def)
  have "progress_ok ?c (tr_geometry t) (tr_validation t \<noteq> None) s"
    using j d by (auto simp: job_ok_def s progress_ok_def counters_ok_def run_due_def split: if_splits)
  moreover have "distinct (map fst md)" using j by (simp add: job_ok_def md distinct_update)
  moreover have "validate_at_start_metadata (tr_validation t) ?c md = Inr ()"
  proof (cases "ts_steps ?s = 0")
    case True
    with d show ?thesis by (simp add: md validate_at_start_metadata_def Let_def update_conv run_due_def)
  next
    case False
    with j show ?thesis by (simp add: job_ok_def md)
  qed
  moreover have "tr_path t' = tr_path t" by (simp add: t')
  ultimately have "job_ok t'"
    using j m(2) same_job_identity [OF r] by (simp add: job_ok_def t')
  with r p show ?thesis by (simp add: settles_def t')
qed

lemma train_step_facts:
  assumes j: "job_ok t" and s: "train_step ops t its = Inr (t', rest)"
    and T: "batches_ok (row_length (tr_geometry t)) its" and len: "length its = tr_world t"
  shows "job_ok t' \<and> same_job t' t \<and> tr_stop_signal t' = tr_stop_signal t \<and>
     ts_steps (tr_state t') = ts_steps (tr_state t) + 1 \<and> 0 \<le> ts_steps (tr_state t) \<and>
     rest = map (drop (nat (tc_ga (tr_config t)))) its \<and>
     (\<exists>x. optimizer_update ops (tr_config t) (tr_world t) (tr_geometry t) (tr_model t, tr_rngs t, tr_state t)
        (replicate (tr_world t) None) its = Inr ((tr_model t', tr_rngs t', tr_state t'), rest, x) \<and>
      tr_metadata t' = tr_metadata t)"
proof -
  have g: "tr_grads t = replicate (tr_world t) None" using j by (simp add: job_ok_def)
  from s obtain m rngs st lr loss where
    u: "optimizer_update ops (tr_config t) (tr_world t) (tr_geometry t) (tr_model t, tr_rngs t, tr_state t)
        (replicate (tr_world t) None) its = Inr ((m, rngs, st), rest, lr, loss)"
    and e: "t' = t\<lparr>tr_model := m, tr_rngs := rngs, tr_state := st, tr_grads := replicate (tr_world t) None,
      tr_log := (if ts_steps st mod tc_log_every (tr_config t) = 0
                     then tr_log t @ [Updated (ts_steps st) loss lr] else tr_log t)\<rparr>"
    unfolding train_step_def rbind_eq_Inr g by auto
  obtain l where t': "t' = t\<lparr>tr_model := m, tr_rngs := rngs, tr_state := st,
      tr_grads := replicate (tr_world t) None, tr_log := l\<rparr>" using e by blast
  from j have ok: "progress_ok (tr_config t) (tr_geometry t) (tr_validation t \<noteq> None) (tr_state t)"
    "check_train_config (tr_config t) = Inr ()" "length (tr_rngs t) = tr_world t" by (auto simp: job_ok_def)
  from optimizer_update_ok [OF u ok(1,2) T len ok(3)] have f:
    "progress_ok (tr_config t) (tr_geometry t) (tr_validation t \<noteq> None) st" "ts_steps st = ts_steps (tr_state t) + 1"
    "rest = map (drop (nat (tc_ga (tr_config t)))) its" "length rngs = tr_world t" by auto
  have r: "same_job t' t" using t' by (auto simp: same_job_def)
  from ok(1) have pos: "0 \<le> ts_steps (tr_state t)" by (simp add: progress_ok_def counters_ok_def)
  from j have last: "tr_last_checkpoint t = Some (q, n) \<Longrightarrow> n \<le> ts_steps (tr_state t)" for q n
    by (simp add: job_ok_def)
  have "job_ok t'"
    using j f t' same_job_identity [OF r] last by (fastforce simp: job_ok_def)
  with r f u t' pos show ?thesis by auto
qed

lemma after_update_continues:
  assumes j: "job_ok t" and steps: "ts_steps (tr_state t) \<noteq> 0" and a: "after_update ops t = Inr (stopped, t')"
  shows "(stopped \<longrightarrow> continues t t' \<or> settles ops t t') \<and> (stopped \<longrightarrow> tr_stop_signal t' \<noteq> 0 \<and> stored_checkpoint t') \<and>
     (\<not> stopped \<longrightarrow> settles ops t t' \<and> tr_stop_signal t' = tr_stop_signal t)"
proof -
  from a obtain b t1 where s1: "stop_point t = Inr (b, t1)"
    and rest: "(if b then Inr (True, t1)
     else rbind (if validation_due t1 then evaluate_validation ops t1 else Inr t1) (\<lambda>t2.
     rbind (if tr_path t2 \<noteq> None \<and> tc_checkpoint_every (tr_config t2) \<noteq> 0 \<and>
              ts_steps (tr_state t2) mod tc_checkpoint_every (tr_config t2) = 0
            then save_checkpoint None t2 else Inr t2) stop_point)) = Inr (stopped, t')"
    unfolding after_update_def rbind_eq_Inr by auto
  note c1 = stop_point_continues [OF j s1]
  then have j1: "job_ok t1" by (simp add: continues_def)
  show ?thesis
  proof (cases b)
    case True
    with rest c1 show ?thesis by auto
  next
    case False
    from rest False obtain t2 t3 where
      t2: "(if validation_due t1 then evaluate_validation ops t1 else Inr t1) = Inr t2"
      and t3: "(if tr_path t2 \<noteq> None \<and> tc_checkpoint_every (tr_config t2) \<noteq> 0 \<and>
              ts_steps (tr_state t2) mod tc_checkpoint_every (tr_config t2) = 0
            then save_checkpoint None t2 else Inr t2) = Inr t3"
      and s2: "stop_point t3 = Inr (stopped, t')"
      by (auto simp: rbind_eq_Inr)
    have "ts_steps (tr_state t1) \<noteq> 0" using c1 steps by (auto simp: continues_def persistent_def)
    then have "\<not> validation_at_start_due t1" by (simp add: validation_at_start_due_def)
    with t2 evaluate_continues [OF j1, of ops t2] not_due_settles [OF j1, of ops]
    have c2: "settles ops t1 t2 \<and> tr_stop_signal t2 = tr_stop_signal t1" by (auto split: if_splits)
    then have j2: "job_ok t2" by (simp add: settles_def)
    from t3 save_continues [OF j2, of t3] continues_refl [OF j2]
    have c3: "continues t2 t3 \<and> tr_stop_signal t3 = tr_stop_signal t2" by (auto split: if_splits)
    then have j3: "job_ok t3" by (simp add: continues_def)
    note c4 = stop_point_continues [OF j3 s2]
    have "settles ops t t'"
      using c1 c2 c3 c4 by (blast intro: settles_continues continues_settles continues_trans)
    with c1 c2 c3 c4 False show ?thesis by auto
  qed
qed

section \<open>The loop follows the specification\<close>

text \<open>After \<open>k\<close> updates, with or without the validation then due; each update has taken one
  accumulation window from every rank's batches.\<close>

definition reaches ::
    "('m, 'r rank_rng, 'g) torch_ops \<Rightarrow> ('m, 'r, 'g) trainer \<Rightarrow> raw_batch res list list \<Rightarrow> nat \<Rightarrow> ('m, 'r, 'g) trainer \<Rightarrow>
     ('m, 'r) job_state \<Rightarrow> bool" where
  "reaches ops t its k t' Q \<longleftrightarrow> job_ok t' \<and> same_job t' t \<and> ts_steps (tr_state t') = ts_steps (tr_state t) + int k \<and>
     run_updates ops (tr_validation t) (tr_config t) (tr_world t) (tr_geometry t) k (persistent t) its
       = Inr (Q, map (drop (k * nat (tc_ga (tr_config t)))) its) \<and>
     (persistent t' = Q \<or> settle ops (tr_validation t) (tr_config t) Q = Inr (persistent t'))"

lemma continues_state: "continues t t' \<Longrightarrow> tr_state t' = tr_state t"
  by (simp add: continues_def persistent_def)

lemma reaches_now:
  "continues t t' \<or> settles ops t t' \<Longrightarrow> reaches ops t its 0 t' (persistent t)"
  using settles_steps [of ops t t'] continues_state [of t t']
  by (auto simp: reaches_def continues_def settles_def)

lemma train_steps_follow:
  assumes "job_ok t" and "settles ops t t" and "batches_ok (row_length (tr_geometry t)) its" and "length its = tr_world t"
    and "train_steps ops n t its = Inr t'"
  shows "\<exists>k\<le>n. \<exists>Q. reaches ops t its k t' Q \<and>
     (tr_stop_signal t' \<noteq> 0 \<and> stored_checkpoint t' \<or>
      k = n \<and> settle ops (tr_validation t) (tr_config t) Q = Inr (persistent t') \<and> tr_stop_signal t' = tr_stop_signal t)"
  using assms
proof (induction n arbitrary: t its)
  case 0
  then have "t' = t" "reaches ops t its 0 t (persistent t)" using reaches_now [of t t ops its] by simp_all
  with 0(2) show ?case by (intro exI [of _ 0] conjI exI [of _ "persistent t"]) (auto simp: settles_def)
next
  case (Suc n)
  let ?v = "tr_validation t" and ?c = "tr_config t" and ?w = "tr_world t" and ?g = "tr_geometry t"
  from Suc.prems(5) obtain t1 rest b t2 where st: "train_step ops t its = Inr (t1, rest)"
    and au: "after_update ops t1 = Inr (b, t2)" and rec: "(if b then Inr t2 else train_steps ops n t2 rest) = Inr t'"
    by (auto simp: rbind_eq_Inr)
  from train_step_facts [OF Suc.prems(1) st Suc.prems(3,4)] obtain x where
    t1: "job_ok t1" "same_job t1 t" "tr_stop_signal t1 = tr_stop_signal t" "ts_steps (tr_state t1) = ts_steps (tr_state t) + 1"
      "0 \<le> ts_steps (tr_state t)" "rest = map (drop (nat (tc_ga ?c))) its"
    and u: "optimizer_update ops ?c ?w ?g (tr_model t, tr_rngs t, tr_state t) (replicate ?w None) its
        = Inr ((tr_model t1, tr_rngs t1, tr_state t1), rest, x)" "tr_metadata t1 = tr_metadata t" by blast
  have one: "run_updates ops ?v ?c ?w ?g (Suc k) (persistent t) its = run_updates ops ?v ?c ?w ?g k (persistent t1) rest" for k
  proof -
    have "settle ops ?v ?c (persistent t) = Inr (persistent t)" using Suc.prems(2) by (simp add: settles_def)
    then show ?thesis using u by (simp add: persistent_def)
  qed
  have e: "tr_validation t1 = ?v" "tr_config t1 = ?c" "tr_world t1 = ?w" "tr_geometry t1 = ?g"
    using t1(2) by (simp_all add: same_job_def)
  from t1(4,5) have "ts_steps (tr_state t1) \<noteq> 0" by simp
  note af = after_update_continues [OF t1(1) this au]
  show ?case
  proof (cases b)
    case True
    with rec have t': "t' = t2" by simp
    from af True have "continues t1 t2 \<or> settles ops t1 t2" by simp
    then have r: "reaches ops t1 rest 0 t2 (persistent t1)" by (rule reaches_now)
    then have "reaches ops t its 1 t2 (persistent t1)"
      using one [of 0] t1(2,4,6) e by (auto simp: reaches_def intro: same_job_trans)
    with af True t' show ?thesis by (intro exI [of _ 1] conjI exI [of _ "persistent t1"]) simp_all
  next
    case False
    with rec af have s2: "settles ops t1 t2" "tr_stop_signal t2 = tr_stop_signal t1" "train_steps ops n t2 rest = Inr t'"
      by auto
    from s2(1) have j2: "job_ok t2" and sr2: "same_job t2 t1" and S1: "settle ops ?v ?c (persistent t1) = Inr (persistent t2)"
      using e by (auto simp: settles_def)
    have e2: "tr_validation t2 = ?v" "tr_config t2 = ?c" "tr_world t2 = ?w" "tr_geometry t2 = ?g"
      using sr2 e by (simp_all add: same_job_def)
    have set2: "settles ops t2 t2" using j2 settle_idem [OF S1] by (simp add: settles_def e2)
    have "batches_ok (row_length (tr_geometry t2)) rest" "length rest = tr_world t2"
      using Suc.prems(3,4) by (auto simp: e2 t1(6) intro: batches_ok_drop)
    from Suc.IH [OF j2 set2 this s2(3)] obtain k Q where k: "k \<le> n" and r: "reaches ops t2 rest k t' Q"
      and out: "tr_stop_signal t' \<noteq> 0 \<and> stored_checkpoint t' \<or>
        k = n \<and> settle ops ?v ?c Q = Inr (persistent t') \<and> tr_stop_signal t' = tr_stop_signal t2" unfolding e2 by blast
    have steps: "ts_steps (tr_state t2) = ts_steps (tr_state t) + 1" using settles_steps [OF s2(1)] t1(4) by simp
    have sr: "same_job t' t" using r sr2 t1(2) by (auto simp: reaches_def intro: same_job_trans)
    have "\<exists>Q'. reaches ops t its (Suc k) t' Q' \<and> (settle ops ?v ?c Q = Inr (persistent t') \<longrightarrow>
        settle ops ?v ?c Q' = Inr (persistent t'))"
    proof (cases k)
      case 0
      then have Q: "Q = persistent t2" using r by (simp add: reaches_def)
      with r e2 have "settle ops ?v ?c (persistent t1) = Inr (persistent t')"
        using settle_idem [OF S1] S1 by (auto simp: reaches_def)
      moreover have "run_updates ops ?v ?c ?w ?g (Suc k) (persistent t) its = Inr (persistent t1, rest)"
        using one [of k] 0 by simp
      ultimately show ?thesis using 0 r sr steps t1(6) by (intro exI [of _ "persistent t1"]) (auto simp: reaches_def)
    next
      case (Suc k')
      have "run_updates ops ?v ?c ?w ?g (Suc k) (persistent t) its = run_updates ops ?v ?c ?w ?g k (persistent t2) rest"
        unfolding one Suc by (rule run_updates_settled [OF S1])
      with r sr steps e2 show ?thesis
        by (intro exI [of _ Q]) (auto simp: reaches_def t1(6) add.commute)
    qed
    then obtain Q' where "reaches ops t its (Suc k) t' Q'"
      "settle ops ?v ?c Q = Inr (persistent t') \<Longrightarrow> settle ops ?v ?c Q' = Inr (persistent t')" by blast
    with out k s2(2) t1(3) show ?thesis by (intro exI [of _ "Suc k"] exI [of _ Q'] conjI) auto
  qed
qed

text \<open>The phases before the first update.\<close>

lemma start_validation_continues:
  assumes j: "job_ok t" and s: "start_validation ops t = Inr (stopped, t')"
  shows "(stopped \<longrightarrow> settles ops t t' \<and> tr_stop_signal t' \<noteq> 0 \<and> stored_checkpoint t') \<and>
     (\<not> stopped \<longrightarrow> tr_stop_signal t' = tr_stop_signal t \<and>
        (validation_at_start_due t \<and> settles ops t t' \<or> \<not> validation_at_start_due t \<and> t' = t))"
proof (cases "validation_at_start_due t")
  case True
  with s obtain t1 where e: "evaluate_validation ops t = Inr t1" and p: "stop_point t1 = Inr (stopped, t')"
    by (auto simp: start_validation_def rbind_eq_Inr)
  from evaluate_continues [OF j _ e] True have c: "settles ops t t1" "tr_stop_signal t1 = tr_stop_signal t" by auto
  then have "job_ok t1" by (simp add: settles_def)
  from stop_point_continues [OF this p] c True show ?thesis by (auto intro: settles_continues)
next
  case False
  with s show ?thesis by (simp add: start_validation_def)
qed

lemma catch_up_continues:
  assumes j: "job_ok t" and s: "catch_up_validation ops t = Inr (stopped, t')"
  shows "(stopped \<longrightarrow> settles ops t t' \<and> tr_stop_signal t' \<noteq> 0 \<and> stored_checkpoint t') \<and>
     (\<not> stopped \<longrightarrow> tr_stop_signal t' = tr_stop_signal t \<and>
        (validation_due t \<and> settles ops t t' \<or> \<not> validation_due t \<and> t' = t))"
proof (cases "validation_due t")
  case True
  with s obtain t1 t2 where e: "evaluate_validation ops t = Inr t1"
    and sv: "(if tr_path t1 \<noteq> None then save_checkpoint None t1 else Inr t1) = Inr t2"
    and p: "stop_point t2 = Inr (stopped, t')"
    by (auto simp: catch_up_validation_def rbind_eq_Inr)
  from evaluate_continues [OF j _ e] True have c: "settles ops t t1" "tr_stop_signal t1 = tr_stop_signal t" by auto
  then have j1: "job_ok t1" by (simp add: settles_def)
  from sv save_continues [OF j1, of t2] continues_refl [OF j1]
  have c2: "continues t1 t2" "tr_stop_signal t2 = tr_stop_signal t1" by (auto split: if_splits)
  then have "job_ok t2" by (simp add: continues_def)
  from stop_point_continues [OF this p] c c2 True show ?thesis by (auto intro: settles_continues)
next
  case False
  with s show ?thesis by (simp add: catch_up_validation_def)
qed

lemma final_checks_settles: "settles ops t t' \<Longrightarrow> final_checks t' = final_checks t"
proof -
  assume s: "settles ops t t'"
  have "tr_config t' = tr_config t" "tr_geometry t' = tr_geometry t" using s by (simp_all add: settles_def same_job_def)
  with settles_state [OF s] show ?thesis by (elim disjE) (simp_all add: final_checks_def Let_def)
qed

lemma final_checks_continues: "continues t t' \<Longrightarrow> final_checks t' = final_checks t"
  by (rule final_checks_persistent) (auto simp: continues_def persistent_def)

theorem train_follows:
  assumes j: "job_ok t" and fin: "final_checks t = Inr ()" and T: "batches_ok (row_length (tr_geometry t)) its"
    and len: "length its = tr_world t" and tr: "train ops until source its t = Inr t'"
  defines "target \<equiv> (case until of None \<Rightarrow> tc_max_steps (tr_config t) | Some n \<Rightarrow> n)"
  shows "\<exists>k Q. reaches ops t its k t' Q \<and> final_checks t' = Inr () \<and> ts_steps (tr_state t') \<le> target \<and>
     (tr_stop_signal t' \<noteq> 0 \<and> stored_checkpoint t' \<or>
      ts_steps (tr_state t') = target \<and> settle ops (tr_validation t) (tr_config t) Q = Inr (persistent t') \<and>
      tr_stop_signal t' = tr_stop_signal t)"
proof -
  from tr have bound: "ts_steps (tr_state t) \<le> target"
    by (auto simp: train_def target_def Let_def split: if_splits)
  have now: ?thesis if "tr_stop_signal t' \<noteq> 0" "stored_checkpoint t'" "continues t t' \<or> settles ops t t'"
  proof -
    have "final_checks t' = Inr ()"
      using that(3) fin final_checks_settles [of ops t t'] final_checks_continues [of t t'] by auto
    moreover have "reaches ops t its 0 t' (persistent t)" by (rule reaches_now [OF that(3)])
    moreover from this bound have "ts_steps (tr_state t') \<le> target" by (simp add: reaches_def)
    ultimately show ?thesis using that(1,2) by blast
  qed
  from tr obtain b1 t1 where s1: "stop_point t = Inr (b1, t1)"
    and r1: "(if b1 then Inr t1
      else rbind (start_validation ops t1) (\<lambda>(stopped, t2). if stopped then Inr t2
      else rbind (catch_up_validation ops t2) (\<lambda>(stopped, t3). if stopped then Inr t3
      else if target = ts_steps (tr_state t3) then Inr t3
      else rbind (validate_batch_source t3 source) (\<lambda>_.
      let drawn = map (op_base_seed ops) (tr_rngs t3); restored = map fst (zip (tr_rngs t3) drawn) in
      rbind (train_steps ops (nat (target - ts_steps (tr_state t3))) (t3\<lparr>tr_rngs := restored\<rparr>) its) (\<lambda>t4.
      rbind (final_checks t4) (\<lambda>_. Inr t4)))))) = Inr t'"
    unfolding train_def target_def [symmetric] Let_def rbind_eq_Inr check_eq_Inr by auto
  note c1 = stop_point_continues [OF j s1]
  then have j1: "job_ok t1" by (simp add: continues_def)
  show ?thesis
  proof (cases b1)
    case True
    with r1 c1 now show ?thesis by auto
  next
    case b1: False
    from r1 b1 obtain b2 t2 where s2: "start_validation ops t1 = Inr (b2, t2)"
      and r2: "(if b2 then Inr t2
        else rbind (catch_up_validation ops t2) (\<lambda>(stopped, t3). if stopped then Inr t3
        else if target = ts_steps (tr_state t3) then Inr t3
        else rbind (validate_batch_source t3 source) (\<lambda>_.
        let drawn = map (op_base_seed ops) (tr_rngs t3); restored = map fst (zip (tr_rngs t3) drawn) in
        rbind (train_steps ops (nat (target - ts_steps (tr_state t3))) (t3\<lparr>tr_rngs := restored\<rparr>) its) (\<lambda>t4.
        rbind (final_checks t4) (\<lambda>_. Inr t4))))) = Inr t'"
      by (auto simp: rbind_eq_Inr)
    note c2 = start_validation_continues [OF j1 s2]
    show ?thesis
    proof (cases b2)
      case True
      with r2 c1 c2 now b1 show ?thesis by (auto intro: continues_settles)
    next
      case b2: False
      have j2: "job_ok t2" using c2 b2 j1 by (auto simp: settles_def)
      from r2 b2 obtain b3 t3 where s3: "catch_up_validation ops t2 = Inr (b3, t3)"
        and r3: "(if b3 then Inr t3 else if target = ts_steps (tr_state t3) then Inr t3
          else rbind (validate_batch_source t3 source) (\<lambda>_.
          let drawn = map (op_base_seed ops) (tr_rngs t3); restored = map fst (zip (tr_rngs t3) drawn) in
          rbind (train_steps ops (nat (target - ts_steps (tr_state t3))) (t3\<lparr>tr_rngs := restored\<rparr>) its) (\<lambda>t4.
          rbind (final_checks t4) (\<lambda>_. Inr t4)))) = Inr t'"
        by (auto simp: rbind_eq_Inr)
      note c3 = catch_up_continues [OF j2 s3]
      have st2: "settles ops t1 t2 \<and> \<not> validation_due t2" if "validation_at_start_due t1"
      proof -
        from c2 b2 that have "settles ops t1 t2" by simp
        moreover from that have "ts_steps (tr_state t1) = 0" by (simp add: validation_at_start_due_def)
        ultimately show ?thesis using settles_steps by (fastforce simp: validation_due_def Let_def)
      qed
      have t3: "settles ops t1 t3"
      proof (cases "validation_at_start_due t1")
        case True
        with st2 have "settles ops t1 t2" "\<not> validation_due t2" by auto
        moreover from this s3 have "t3 = t2" by (simp add: catch_up_validation_def)
        ultimately show ?thesis by simp
      next
        case False
        with c2 b2 have "t2 = t1" by auto
        with False c3 not_due_settles [OF j1 False] show ?thesis by (cases b3) auto
      qed
      from t3 c1 have t03: "settles ops t t3" by (auto intro: continues_settles)
      show ?thesis
      proof (cases b3)
        case True
        with r3 c3 now t03 show ?thesis by auto
      next
        case b3: False
        have sig: "tr_stop_signal t3 = tr_stop_signal t" using c1 c2 c3 b1 b2 b3 by auto
        show ?thesis
        proof (cases "target = ts_steps (tr_state t3)")
          case True
          with r3 b3 have "t' = t3" by simp
          with t03 True sig reaches_now [of t t3 ops its] final_checks_settles [OF t03] fin show ?thesis
            by (intro exI [of _ 0] exI [of _ "persistent t"]) (auto simp: settles_def)
        next
          case False
          have "map fst (zip (tr_rngs t3) (map (op_base_seed ops) (tr_rngs t3))) = tr_rngs t3" by simp
          with r3 b3 False have ts: "train_steps ops (nat (target - ts_steps (tr_state t3))) t3 its = Inr t'"
            and fc: "final_checks t' = Inr ()" by (auto simp: Let_def rbind_eq_Inr)
          have e: "tr_validation t3 = tr_validation t" "tr_config t3 = tr_config t" "tr_world t3 = tr_world t"
            "tr_geometry t3 = tr_geometry t" using t03 by (auto simp: settles_def same_job_def)
          have j3: "job_ok t3" using t03 by (simp add: settles_def)
          from t03 have S: "settle ops (tr_validation t) (tr_config t) (persistent t) = Inr (persistent t3)"
            by (simp add: settles_def)
          have s33: "settles ops t3 t3" using j3 settle_idem [OF S] by (simp add: settles_def e)
          from T len have "batches_ok (row_length (tr_geometry t3)) its" "length its = tr_world t3" by (simp_all add: e)
          from train_steps_follow [OF j3 s33 this ts] obtain k Q where
            k: "k \<le> nat (target - ts_steps (tr_state t3))" and r: "reaches ops t3 its k t' Q"
            and out: "tr_stop_signal t' \<noteq> 0 \<and> stored_checkpoint t' \<or> k = nat (target - ts_steps (tr_state t3)) \<and>
              settle ops (tr_validation t) (tr_config t) Q = Inr (persistent t') \<and> tr_stop_signal t' = tr_stop_signal t3"
            unfolding e by blast
          have steps: "ts_steps (tr_state t3) = ts_steps (tr_state t)" by (rule settles_steps [OF t03])
          have sr: "same_job t' t" using r t03 by (auto simp: reaches_def settles_def intro: same_job_trans)
          have "\<exists>Q'. reaches ops t its k t' Q' \<and> (settle ops (tr_validation t) (tr_config t) Q = Inr (persistent t') \<longrightarrow>
              settle ops (tr_validation t) (tr_config t) Q' = Inr (persistent t'))"
          proof (cases k)
            case 0
            then have Q: "Q = persistent t3" using r by (simp add: reaches_def)
            with r S e settle_idem [OF S] have "settle ops (tr_validation t) (tr_config t) (persistent t) = Inr (persistent t')"
              by (auto simp: reaches_def)
            with 0 r sr steps show ?thesis by (intro exI [of _ "persistent t"]) (auto simp: reaches_def)
          next
            case (Suc k')
            with r sr steps e run_updates_settled [OF S, of "tr_world t" "tr_geometry t" k' its] show ?thesis
              by (intro exI [of _ Q]) (auto simp: reaches_def)
          qed
          then obtain Q' where Q': "reaches ops t its k t' Q'" "settle ops (tr_validation t) (tr_config t) Q = Inr (persistent t') \<Longrightarrow>
              settle ops (tr_validation t) (tr_config t) Q' = Inr (persistent t')" by blast
          moreover have "ts_steps (tr_state t') \<le> target"
            "k = nat (target - ts_steps (tr_state t3)) \<Longrightarrow> ts_steps (tr_state t') = target"
            using Q'(1) bound steps k by (simp_all add: reaches_def)
          ultimately show ?thesis using out fc sig by (intro exI [of _ k] exI [of _ Q'] conjI) auto
        qed
      qed
    qed
  qed
qed

end
