(* ===== verification/TrainResume.thy ===== *)
theory TrainResume
  imports TrainRun
begin

text \<open>
  Runs that nothing disturbs: no stop is requested and the checkpoint directory is writable. Such a
  run ends whenever its updates and validations do, so that a job stopped at any boundary and
  resumed from the checkpoint it left ends where the uninterrupted one does.
\<close>

section \<open>A quiet run\<close>

definition quiet :: "('m, 'r, 'g) trainer \<Rightarrow> bool" where
  "quiet t \<longleftrightarrow> tr_inputs t = [] \<and> list_all (\<lambda>s. sc_requested s = 0) (tr_controllers t)"

definition writable :: "('m, 'r, 'g) trainer \<Rightarrow> bool" where
  "writable t \<longleftrightarrow> tr_tokenizer t \<noteq> None \<and> (case tr_path t of None \<Rightarrow> False | Some p \<Rightarrow>
     map_of (tr_disk t) p \<noteq> Some NotAFile \<and> map_of (tr_disk t) (previous_name p) \<noteq> Some NotAFile)"

definition undisturbed :: "('m, 'r, 'g) trainer \<Rightarrow> bool" where
  "undisturbed t \<longleftrightarrow> job_ok t \<and> quiet t \<and> writable t"

text \<open>What every phase of such a run keeps.\<close>

definition keeps :: "('m, 'r, 'g) trainer \<Rightarrow> ('m, 'r, 'g) trainer \<Rightarrow> bool" where
  "keeps t t' \<longleftrightarrow> tr_inputs t' = tr_inputs t \<and> tr_controllers t' = tr_controllers t \<and>
     tr_stop_signal t' = tr_stop_signal t \<and> (writable t \<longrightarrow> writable t')"

lemma keeps_refl: "keeps t t"
  by (simp add: keeps_def)

lemma keeps_trans: "keeps t u \<Longrightarrow> keeps u w \<Longrightarrow> keeps t w"
  by (simp add: keeps_def)

lemma keeps_undisturbed: "keeps t t' \<Longrightarrow> undisturbed t \<Longrightarrow> job_ok t' \<Longrightarrow> undisturbed t'"
  by (simp add: keeps_def undisturbed_def quiet_def)

lemma writable_cong:
  "tr_tokenizer t' = tr_tokenizer t \<Longrightarrow> tr_path t' = tr_path t \<Longrightarrow> tr_disk t' = tr_disk t \<Longrightarrow> writable t' = writable t"
  by (simp add: writable_def split: option.split)

lemma none_requested: "list_all (\<lambda>s. sc_requested s = 0) cs \<Longrightarrow> foldr max (map sc_requested cs) 0 = 0"
  by (induction cs) auto

lemma stop_point_quiet: "quiet t \<Longrightarrow> stop_point t = Inr (False, t)"
proof -
  assume q: "quiet t"
  then have "foldr max (map sc_requested (tr_controllers t)) 0 = 0"
    by (simp add: quiet_def none_requested)
  with q show ?thesis
    by (simp add: stop_point_def poll_stop_def quiet_def distributed_stop_signal_def honor_stop_request_def)
qed

lemma save_quiet:
  assumes u: "undisturbed t"
  shows "\<exists>t'. save_checkpoint None t = Inr t' \<and> continues t t' \<and> keeps t t'"
proof -
  from u obtain p where p: "tr_path t = Some p" "map_of (tr_disk t) p \<noteq> Some NotAFile"
    "map_of (tr_disk t) (previous_name p) \<noteq> Some NotAFile" "tr_tokenizer t \<noteq> None"
    by (auto simp: undisturbed_def writable_def split: option.splits)
  from u have j: "job_ok t" and g: "tr_grads t = replicate (tr_world t) None" by (auto simp: undisturbed_def job_ok_def)
  show ?thesis
  proof (cases "tr_last_checkpoint t = Some (p, ts_steps (tr_state t))")
    case True
    with p j show ?thesis by (simp add: save_checkpoint_def Let_def continues_refl keeps_refl)
  next
    case False
    let ?preserve = "tr_preserve t \<and> tr_path t = Some p"
    have "atomic_torch_save ?preserve p (checkpoint_of t) (tr_disk t)
        = Inr (run_ops (save_ops ?preserve p (checkpoint_of t) (tr_disk t)) (tr_disk t))"
      using p by (simp add: atomic_torch_save_def)
    then obtain disk where a: "atomic_torch_save ?preserve p (checkpoint_of t) (tr_disk t) = Inr disk" by simp
    have "\<not> list_ex (\<lambda>g. g \<noteq> None) (tr_grads t)" by (simp add: g list_ex_iff)
    with False p a obtain t' where s: "save_checkpoint None t = Inr t'" and t': "tr_disk t' = disk"
      "tr_path t' = tr_path t" "tr_tokenizer t' = tr_tokenizer t"
      by (simp add: save_checkpoint_def Let_def)
    have "writable t'"
      using p atomic_save_disk(1,2) [OF a] by (simp add: writable_def t')
    with save_continues [OF j s] s show ?thesis by (auto simp: keeps_def)
  qed
qed

lemma evaluate_quiet:
  assumes j: "job_ok t" and due: "validation_at_start_due t \<or> validation_due t"
    and S: "settle ops (tr_validation t) (tr_config t) (persistent t) = Inr P"
  shows "\<exists>t'. evaluate_validation ops t = Inr t' \<and> settles ops t t' \<and> keeps t t'"
proof -
  obtain m rngs s md where P: "P = (m, rngs, s, md)" by (cases P) auto
  define t' where "t' = t\<lparr>tr_rngs := rngs, tr_state := s, tr_metadata := md, tr_last_checkpoint := None,
      tr_log := tr_log t @ [Validated (ts_steps (tr_state t))]\<rparr>"
  from S have e: "evaluate_validation ops t = Inr t'" by (simp add: evaluate_settles [OF due] P t'_def)
  moreover have "writable t' = writable t" by (rule writable_cong) (simp_all add: t'_def)
  then have "keeps t t'" by (simp add: keeps_def t'_def)
  ultimately show ?thesis using evaluate_continues [OF j due e] by blast
qed

lemma after_update_quiet:
  assumes u: "undisturbed t" and steps: "ts_steps (tr_state t) \<noteq> 0"
    and S: "settle ops (tr_validation t) (tr_config t) (persistent t) = Inr P"
  shows "\<exists>t'. after_update ops t = Inr (False, t') \<and> settles ops t t' \<and> keeps t t'"
proof -
  have j: "job_ok t" and q: "quiet t" using u by (auto simp: undisturbed_def)
  have nd: "\<not> validation_at_start_due t" using steps by (simp add: validation_at_start_due_def)
  have "\<exists>t1. (if validation_due t then evaluate_validation ops t else Inr t) = Inr t1 \<and> settles ops t t1 \<and> keeps t t1"
    using evaluate_quiet [OF j _ S] not_due_settles [OF j nd] by (auto simp: keeps_refl)
  then obtain t1 where t1: "(if validation_due t then evaluate_validation ops t else Inr t) = Inr t1"
    "settles ops t t1" "keeps t t1" by blast
  then have "job_ok t1" by (simp add: settles_def)
  with t1(3) u have u1: "undisturbed t1" by (simp add: keeps_undisturbed)
  let ?save = "tr_path t1 \<noteq> None \<and> tc_checkpoint_every (tr_config t1) \<noteq> 0 \<and>
     ts_steps (tr_state t1) mod tc_checkpoint_every (tr_config t1) = 0"
  have "\<exists>t2. (if ?save then save_checkpoint None t1 else Inr t1) = Inr t2 \<and> continues t1 t2 \<and> keeps t1 t2"
    using save_quiet [OF u1] \<open>job_ok t1\<close> by (auto simp: continues_refl keeps_refl)
  then obtain t2 where t2: "(if ?save then save_checkpoint None t1 else Inr t1) = Inr t2" "continues t1 t2" "keeps t1 t2"
    by blast
  then have "quiet t2" using u1 by (simp add: keeps_def undisturbed_def quiet_def)
  with t1 t2 stop_point_quiet [OF q] stop_point_quiet [of t2] have "after_update ops t = Inr (False, t2)"
    by (simp add: after_update_def)
  with t1 t2 show ?thesis by (blast intro: settles_continues keeps_trans)
qed

section \<open>The loop of a quiet run\<close>

lemma train_step_quiet:
  assumes u: "undisturbed t" and o: "optimizer_update ops (tr_config t) (tr_world t) (tr_geometry t)
      (tr_model t, tr_rngs t, tr_state t) (replicate (tr_world t) None) its = Inr ((m, rngs, s), rest, x)"
  shows "\<exists>t'. train_step ops t its = Inr (t', rest) \<and> persistent t' = (m, rngs, s, tr_metadata t) \<and> keeps t t'"
proof -
  have g: "tr_grads t = replicate (tr_world t) None" using u by (simp add: undisturbed_def job_ok_def)
  obtain lr loss where x: "x = (lr, loss)" by force
  define l where "l = (if ts_steps s mod tc_log_every (tr_config t) = 0
      then tr_log t @ [Updated (ts_steps s) loss lr] else tr_log t)"
  define t' where "t' = t\<lparr>tr_model := m, tr_rngs := rngs, tr_state := s, tr_grads := replicate (tr_world t) None, tr_log := l\<rparr>"
  have "train_step ops t its = Inr (t', rest)" using o by (simp add: train_step_def g x l_def t'_def)
  moreover have "writable t' = writable t" by (rule writable_cong) (simp_all add: t'_def)
  ultimately show ?thesis by (intro exI [of _ t'] conjI) (simp_all add: persistent_def keeps_def t'_def)
qed

lemma train_steps_quiet:
  assumes "undisturbed t" and "settles ops t t" and "batches_ok (row_length (tr_geometry t)) its" and "length its = tr_world t"
    and "run_updates ops (tr_validation t) (tr_config t) (tr_world t) (tr_geometry t) n (persistent t) its = Inr (Q, left)"
    and "settle ops (tr_validation t) (tr_config t) Q = Inr R"
  shows "\<exists>t'. train_steps ops n t its = Inr t' \<and> persistent t' = R \<and> same_job t' t \<and> keeps t t'"
  using assms
proof (induction n arbitrary: t its Q)
  case 0
  then show ?case by (auto simp: settles_def keeps_refl)
next
  case (Suc n)
  let ?v = "tr_validation t" and ?c = "tr_config t" and ?w = "tr_world t" and ?g = "tr_geometry t"
  have S0: "settle ops ?v ?c (persistent t) = Inr (persistent t)" using Suc.prems(2) by (simp add: settles_def)
  from Suc.prems(5) S0 obtain m rngs s rest x where
    o: "optimizer_update ops ?c ?w ?g (tr_model t, tr_rngs t, tr_state t) (replicate ?w None) its = Inr ((m, rngs, s), rest, x)"
    and r: "run_updates ops ?v ?c ?w ?g n (m, rngs, s, tr_metadata t) rest = Inr (Q, left)"
    by (auto simp: persistent_def rbind_eq_Inr)
  from train_step_quiet [OF Suc.prems(1) o] obtain t1 where
    st: "train_step ops t its = Inr (t1, rest)" and p1: "persistent t1 = (m, rngs, s, tr_metadata t)" and k1: "keeps t t1" by blast
  have j: "job_ok t" using Suc.prems(1) by (simp add: undisturbed_def)
  from train_step_facts [OF j st Suc.prems(3,4)] have t1: "job_ok t1" "same_job t1 t"
    "ts_steps (tr_state t1) = ts_steps (tr_state t) + 1" "0 \<le> ts_steps (tr_state t)" "rest = map (drop (nat (tc_ga ?c))) its"
    by auto
  have e: "tr_validation t1 = ?v" "tr_config t1 = ?c" "tr_world t1 = ?w" "tr_geometry t1 = ?g"
    using t1(2) by (simp_all add: same_job_def)
  have "\<exists>P. settle ops ?v ?c (persistent t1) = Inr P"
  proof (cases n)
    case 0
    with r p1 Suc.prems(6) show ?thesis by (intro exI [of _ R]) simp
  next
    case (Suc k)
    with r p1 show ?thesis by (cases "settle ops ?v ?c (persistent t1)") auto
  qed
  then obtain P where P: "settle ops ?v ?c (persistent t1) = Inr P" by blast
  have u1: "undisturbed t1" by (rule keeps_undisturbed [OF k1 Suc.prems(1) t1(1)])
  have "ts_steps (tr_state t1) \<noteq> 0" using t1 by simp
  from after_update_quiet [OF u1 this, of ops P] P e obtain t2 where
    au: "after_update ops t1 = Inr (False, t2)" and s2: "settles ops t1 t2" and k2: "keeps t1 t2" by auto
  have S1: "settle ops ?v ?c (persistent t1) = Inr (persistent t2)" and r2: "same_job t2 t1" and j2: "job_ok t2"
    using s2 e by (simp_all add: settles_def)
  have e2: "tr_validation t2 = ?v" "tr_config t2 = ?c" "tr_world t2 = ?w" "tr_geometry t2 = ?g"
    using r2 e by (simp_all add: same_job_def)
  have s22: "settles ops t2 t2" using j2 settle_idem [OF S1] by (simp add: settles_def e2)
  have u2: "undisturbed t2" by (rule keeps_undisturbed [OF k2 u1 j2])
  have "\<exists>Q'. run_updates ops ?v ?c ?w ?g n (persistent t2) rest = Inr (Q', left) \<and> settle ops ?v ?c Q' = Inr R"
  proof (cases n)
    case 0
    with r p1 Suc.prems(6) S1 have "R = persistent t2" "left = rest" by auto
    with 0 settle_idem [OF S1] show ?thesis by simp
  next
    case (Suc k)
    with r p1 Suc.prems(6) run_updates_settled [OF S1, of ?w ?g k rest] show ?thesis
      by (intro exI [of _ Q]) (simp del: run_updates.simps)
  qed
  then obtain Q' where Q': "run_updates ops ?v ?c ?w ?g n (persistent t2) rest = Inr (Q', left)" "settle ops ?v ?c Q' = Inr R" by blast
  have "batches_ok (row_length (tr_geometry t2)) rest" "length rest = tr_world t2"
    using Suc.prems(3,4) by (auto simp: e2 t1(5) intro: batches_ok_drop)
  from Suc.IH [OF u2 s22 this] Q' obtain t' where
    "train_steps ops n t2 rest = Inr t'" "persistent t' = R" "same_job t' t2" "keeps t2 t'" unfolding e2 by blast
  with st au t1(2) r2 k1 k2 show ?case by (auto intro: same_job_trans keeps_trans)
qed

section \<open>The whole call\<close>

lemma start_quiet:
  assumes u: "undisturbed t" and S: "settle ops (tr_validation t) (tr_config t) (persistent t) = Inr P"
  shows "\<exists>t2 t3. start_validation ops t = Inr (False, t2) \<and> catch_up_validation ops t2 = Inr (False, t3) \<and>
    settles ops t t3 \<and> keeps t t3"
proof (cases "validation_at_start_due t")
  case True
  from u have j: "job_ok t" by (simp add: undisturbed_def)
  from evaluate_quiet [OF j _ S] True obtain t2 where t2: "evaluate_validation ops t = Inr t2" "settles ops t t2" "keeps t t2" by blast
  then have "undisturbed t2" using u by (auto simp: settles_def intro: keeps_undisturbed)
  then have "stop_point t2 = Inr (False, t2)" by (simp add: undisturbed_def stop_point_quiet)
  moreover have "\<not> validation_due t2"
    using True settles_steps [OF t2(2)] by (simp add: validation_at_start_due_def validation_due_def Let_def)
  ultimately show ?thesis using True t2 by (simp add: start_validation_def catch_up_validation_def)
next
  case False
  from u have j: "job_ok t" by (simp add: undisturbed_def)
  show ?thesis
  proof (cases "validation_due t")
    case True
    from evaluate_quiet [OF j _ S] True obtain t1 where t1: "evaluate_validation ops t = Inr t1" "settles ops t t1" "keeps t t1" by blast
    then have u1: "undisturbed t1" using u by (auto simp: settles_def intro: keeps_undisturbed)
    then have "\<exists>t2. (if tr_path t1 \<noteq> None then save_checkpoint None t1 else Inr t1) = Inr t2 \<and> continues t1 t2 \<and> keeps t1 t2"
      using save_quiet [OF u1] continues_refl [of t1] by (auto simp: keeps_refl undisturbed_def)
    then obtain t2 where t2: "(if tr_path t1 \<noteq> None then save_checkpoint None t1 else Inr t1) = Inr t2"
      "continues t1 t2" "keeps t1 t2" by blast
    then have "undisturbed t2" using u1 by (auto simp: continues_def intro: keeps_undisturbed)
    then have "stop_point t2 = Inr (False, t2)" by (simp add: undisturbed_def stop_point_quiet)
    with t1 t2 True False show ?thesis
      by (auto simp: start_validation_def catch_up_validation_def intro: settles_continues keeps_trans)
  next
    case nd: False
    with False not_due_settles [OF j False nd] show ?thesis
      by (simp add: start_validation_def catch_up_validation_def keeps_refl)
  qed
qed

lemma validate_batch_source_settles:
  "settles ops t t' \<Longrightarrow> validate_batch_source t' source = validate_batch_source t source"
proof -
  assume s: "settles ops t t'"
  then have "tr_geometry t' = tr_geometry t" "tr_data_identity t' = tr_data_identity t" "tr_config t' = tr_config t"
    by (simp_all add: settles_def same_job_def)
  moreover have "ts_microbatches (tr_state t') = ts_microbatches (tr_state t)" using settles_state [OF s] by auto
  ultimately show ?thesis by (simp add: validate_batch_source_def split: option.split)
qed

theorem train_quiet:
  fixes until :: "int option"
  assumes u: "undisturbed t" and src: "validate_batch_source t source = Inr ()"
    and T: "batches_ok (row_length (tr_geometry t)) its" and len: "length its = tr_world t"
  defines "target \<equiv> (case until of None \<Rightarrow> tc_max_steps (tr_config t) | Some n \<Rightarrow> n)"
  assumes bound: "ts_steps (tr_state t) \<le> target" "target \<le> tc_max_steps (tr_config t)"
    and U: "run_updates ops (tr_validation t) (tr_config t) (tr_world t) (tr_geometry t) (nat (target - ts_steps (tr_state t)))
        (persistent t) its = Inr (Q, left)"
    and S: "settle ops (tr_validation t) (tr_config t) Q = Inr R"
    and fin: "\<And>t'. same_job t' t \<Longrightarrow> persistent t' = R \<Longrightarrow> final_checks t' = Inr ()"
  shows "\<exists>t'. train ops until source its t = Inr t' \<and> persistent t' = R \<and> tr_stop_signal t' = tr_stop_signal t"
proof -
  let ?v = "tr_validation t" and ?c = "tr_config t" and ?w = "tr_world t" and ?g = "tr_geometry t"
  let ?n = "nat (target - ts_steps (tr_state t))"
  have q: "stop_point t = Inr (False, t)" using u by (simp add: undisturbed_def stop_point_quiet)
  have "\<exists>P. settle ops ?v ?c (persistent t) = Inr P"
  proof (cases ?n)
    case 0
    with U S show ?thesis by (intro exI [of _ R]) simp
  next
    case (Suc k)
    with U show ?thesis by (cases "settle ops ?v ?c (persistent t)") auto
  qed
  then obtain P where "settle ops ?v ?c (persistent t) = Inr P" by blast
  from start_quiet [OF u this] obtain t2 t3 where t2: "start_validation ops t = Inr (False, t2)"
    and t3: "catch_up_validation ops t2 = Inr (False, t3)" and s: "settles ops t t3" and k: "keeps t t3" by blast
  have e: "tr_validation t3 = ?v" "tr_config t3 = ?c" "tr_world t3 = ?w" "tr_geometry t3 = ?g" and r3: "same_job t3 t"
    and S3: "settle ops ?v ?c (persistent t) = Inr (persistent t3)" and j3: "job_ok t3"
    using s by (auto simp: settles_def same_job_def)
  have s33: "settles ops t3 t3" using j3 settle_idem [OF S3] by (simp add: settles_def e)
  have u3: "undisturbed t3" by (rule keeps_undisturbed [OF k u j3])
  note n3 = settles_steps [OF s]
  have "\<exists>Q'. run_updates ops ?v ?c ?w ?g ?n (persistent t3) its = Inr (Q', left) \<and> settle ops ?v ?c Q' = Inr R"
  proof (cases ?n)
    case 0
    with U S S3 have "R = persistent t3" "left = its" by auto
    with 0 settle_idem [OF S3] show ?thesis by simp
  next
    case (Suc k)
    with U S run_updates_settled [OF S3, of ?w ?g k its] show ?thesis
      by (intro exI [of _ Q]) (simp del: run_updates.simps)
  qed
  then obtain Q' where Q': "run_updates ops ?v ?c ?w ?g ?n (persistent t3) its = Inr (Q', left)" "settle ops ?v ?c Q' = Inr R" by blast
  from T len have "batches_ok (row_length (tr_geometry t3)) its" "length its = tr_world t3" by (simp_all add: e)
  from train_steps_quiet [where ops = ops, OF u3 s33 this] Q' obtain t' where
    t': "train_steps ops ?n t3 its = Inr t'" "persistent t' = R" "same_job t' t3" "keeps t3 t'" unfolding e by blast
  have fc: "final_checks t' = Inr ()" by (rule fin [OF same_job_trans [OF t'(3) r3] t'(2)])
  have "map fst (zip (tr_rngs t3) (map (op_base_seed ops) (tr_rngs t3))) = tr_rngs t3" by simp
  then have "train ops until source its t = Inr t'"
    using bound q t2 t3 t'(1) fc validate_batch_source_settles [OF s] src n3
    by (auto simp: train_def target_def [symmetric] Let_def)
  with t' k show ?thesis by (auto simp: keeps_def)
qed

section \<open>Stop and resume\<close>

lemma loaded_job:
  assumes j: "job_ok t" and st: "map_of (tr_disk u') p = Some (Complete ck)" "restores ck t"
    and u': "persistent u' = persistent t" "same_job u' t" "tr_grads u' = replicate (tr_world t) None"
      "tr_last_checkpoint u' = Some (p, ts_steps (tr_state t))"
  shows "job_ok u'"
proof -
  have "restores ck u'" using st(2) restores_cong [OF u'(2,1)] by simp
  with st(1) have "tr_path u' = Some p \<longrightarrow> stored_checkpoint u'" by (auto simp: stored_checkpoint_def)
  with j u' same_job_identity [OF u'(2)] show ?thesis by (auto simp: job_ok_def persistent_def same_job_def)
qed

lemma load_keeps:
  "load_checkpoint p u = Inr u' \<Longrightarrow> tr_tokenizer u' = tr_tokenizer u \<and> tr_stop_signal u' = tr_stop_signal u"
  by (auto simp: load_checkpoint_def Let_def rbind_eq_Inr split: option.splits entry.splits if_splits)

text \<open>One call continues where another left off.\<close>

lemma reaches_trans:
  assumes a: "reaches ops t its k t1 Q1"
    and b: "reaches ops t1 (map (drop (k * nat (tc_ga (tr_config t)))) its) k2 t2 Q2"
  shows "\<exists>Q. reaches ops t its (k + k2) t2 Q \<and>
     (settle ops (tr_validation t) (tr_config t) Q2 = Inr (persistent t2) \<longrightarrow>
      settle ops (tr_validation t) (tr_config t) Q = Inr (persistent t2))"
proof -
  let ?v = "tr_validation t" and ?c = "tr_config t" and ?w = "tr_world t" and ?g = "tr_geometry t"
  let ?rest = "map (drop (k * nat (tc_ga ?c))) its" and ?left = "map (drop ((k + k2) * nat (tc_ga ?c))) its"
  from a have e: "tr_validation t1 = ?v" "tr_config t1 = ?c" "tr_world t1 = ?w" "tr_geometry t1 = ?g"
    by (simp_all add: reaches_def same_job_def)
  have left: "map (drop (k2 * nat (tc_ga ?c))) ?rest = ?left" by (simp add: algebra_simps)
  from a have A: "run_updates ops ?v ?c ?w ?g k (persistent t) its = Inr (Q1, ?rest)"
    "persistent t1 = Q1 \<or> settle ops ?v ?c Q1 = Inr (persistent t1)" by (simp_all add: reaches_def)
  from b have B: "run_updates ops ?v ?c ?w ?g k2 (persistent t1) ?rest = Inr (Q2, ?left)"
    "persistent t2 = Q2 \<or> settle ops ?v ?c Q2 = Inr (persistent t2)" unfolding reaches_def e left by simp_all
  have s: "job_ok t2" "same_job t2 t" "ts_steps (tr_state t2) = ts_steps (tr_state t) + int (k + k2)"
    using a b by (auto simp: reaches_def intro: same_job_trans)
  have R: "run_updates ops ?v ?c ?w ?g (k + k2) (persistent t) its = run_updates ops ?v ?c ?w ?g k2 Q1 ?rest"
    using A(1) by (simp add: run_updates_append)
  show ?thesis
  proof (cases "persistent t1 = Q1")
    case True
    with R B s show ?thesis by (intro exI [of _ Q2]) (simp add: reaches_def)
  next
    case False
    with A(2) have S: "settle ops ?v ?c Q1 = Inr (persistent t1)" by simp
    show ?thesis
    proof (cases k2)
      case 0
      with B have "Q2 = persistent t1" by simp
      with B(2) settle_idem [OF S] have "settle ops ?v ?c Q1 = Inr (persistent t2)" using S by auto
      with A(1) s 0 show ?thesis by (intro exI [of _ Q1]) (simp add: reaches_def)
    next
      case (Suc n)
      have "run_updates ops ?v ?c ?w ?g k2 Q1 ?rest = Inr (Q2, ?left)"
        using B(1) run_updates_settled [OF S, of ?w ?g n ?rest] unfolding Suc by simp
      with R B(2) s show ?thesis by (intro exI [of _ Q2]) (simp add: reaches_def)
    qed
  qed
qed

lemma reaches_cong:
  assumes "reaches ops t its k t1 Q" and "job_ok t2" "same_job t2 t1" "persistent t2 = persistent t1"
  shows "reaches ops t its k t2 Q"
  using assms by (auto simp: reaches_def persistent_def intro: same_job_trans)

text \<open>The updates still to do after \<open>tB\<close> lead where the uninterrupted call \<open>tA\<close> ends.\<close>

lemma resumed_reaches:
  assumes a: "reaches ops t its ka tA QA" "settle ops (tr_validation t) (tr_config t) QA = Inr (persistent tA)"
      "ts_steps (tr_state tA) = target"
    and b: "reaches ops s its kb tB QB" "same_job s t" "persistent s = persistent t" and kb: "kb \<le> ka"
  shows "\<exists>Q left. run_updates ops (tr_validation t) (tr_config t) (tr_world t) (tr_geometry t)
      (nat (target - ts_steps (tr_state tB))) (persistent tB) (map (drop (kb * nat (tc_ga (tr_config t)))) its) = Inr (Q, left) \<and>
      settle ops (tr_validation t) (tr_config t) Q = Inr (persistent tA)"
proof -
  let ?v = "tr_validation t" and ?c = "tr_config t" and ?w = "tr_world t" and ?g = "tr_geometry t"
  let ?rest = "map (drop (kb * nat (tc_ga ?c))) its"
  have e: "tr_validation s = ?v" "tr_config s = ?c" "tr_world s = ?w" "tr_geometry s = ?g"
    using b(2) by (simp_all add: same_job_def)
  have st: "tr_state s = tr_state t" using b(3) by (simp add: persistent_def)
  from b have B: "run_updates ops ?v ?c ?w ?g kb (persistent t) its = Inr (QB, ?rest)"
    "persistent tB = QB \<or> settle ops ?v ?c QB = Inr (persistent tB)" "ts_steps (tr_state tB) = ts_steps (tr_state t) + int kb"
    by (simp_all add: reaches_def e st)
  from a have A: "run_updates ops ?v ?c ?w ?g ka (persistent t) its = Inr (QA, map (drop (ka * nat (tc_ga ?c))) its)"
    "ts_steps (tr_state tA) = ts_steps (tr_state t) + int ka" by (simp_all add: reaches_def)
  have n: "nat (target - ts_steps (tr_state tB)) = ka - kb" using a(3) A(2) B(3) kb by simp
  have R: "run_updates ops ?v ?c ?w ?g (ka - kb) QB ?rest = Inr (QA, map (drop (ka * nat (tc_ga ?c))) its)"
    using A(1) run_updates_append [of ops ?v ?c ?w ?g kb "ka - kb" "persistent t" its] B(1) kb by simp
  show ?thesis
  proof (cases "persistent tB = QB")
    case True
    with R n a(2) show ?thesis by (intro exI conjI) simp_all
  next
    case False
    with B(2) have S: "settle ops ?v ?c QB = Inr (persistent tB)" by simp
    show ?thesis
    proof (cases "ka - kb")
      case 0
      with R S a(2) have "persistent tA = persistent tB" by simp
      with 0 n settle_idem [OF S] show ?thesis by auto
    next
      case (Suc k)
      have "run_updates ops ?v ?c ?w ?g (ka - kb) (persistent tB) ?rest = Inr (QA, map (drop (ka * nat (tc_ga ?c))) its)"
        using R run_updates_settled [OF S, of ?w ?g k ?rest] unfolding Suc by simp
      with n a(2) show ?thesis by auto
    qed
  qed
qed

text \<open>A stopped call leaves a checkpoint that a process of the run loads when each rank is on the device
  it was on; a rank that lost its device refuses it.\<close>

lemma stopped_job_checkpoint:
  assumes st: "stored_checkpoint t" and fin: "final_checks t = Inr ()" and u: "same_job u t" "tr_disk u = tr_disk t"
  obtains p ck u' where "tr_path t = Some p" "map_of (tr_disk t) p = Some (Complete ck)" "restores ck t"
    "load_checkpoint p u = rbind (restore_ranks (map capture_rng_state (tr_rngs t)) (tr_rngs u))
       (\<lambda>rngs. Inr (u'\<lparr>tr_rngs := rngs\<rparr>))"
    "persistent (u'\<lparr>tr_rngs := tr_rngs t\<rparr>) = persistent t" "same_job u' u" "tr_disk u' = tr_disk u"
    "tr_inputs u' = tr_inputs u" "tr_controllers u' = tr_controllers u" "tr_grads u' = replicate (tr_world t) None"
    "tr_last_checkpoint u' = Some (p, ts_steps (tr_state t))"
proof -
  from st obtain p ck where p: "tr_path t = Some p" "map_of (tr_disk t) p = Some (Complete ck)" "restores ck t"
    by (auto simp: stored_checkpoint_def)
  from p(3) [unfolded restores_def, rule_format, OF fin, of u p] u p(2) show thesis using that [OF p] by auto
qed

lemma stopped_job_loads:
  assumes st: "stored_checkpoint t" and j: "job_ok t" and fin: "final_checks t = Inr ()"
    and u: "same_job u t" "tr_disk u = tr_disk t" and dev: "map rng_device (tr_rngs u) = map rng_device (tr_rngs t)"
  shows "\<exists>p u'. tr_path t = Some p \<and> load_checkpoint p u = Inr u' \<and> persistent u' = persistent t \<and> same_job u' t \<and>
     job_ok u' \<and> tr_disk u' = tr_disk u \<and> tr_inputs u' = tr_inputs u \<and> tr_controllers u' = tr_controllers u"
proof -
  obtain p ck v where p: "tr_path t = Some p" "map_of (tr_disk t) p = Some (Complete ck)" "restores ck t"
    and l: "load_checkpoint p u = rbind (restore_ranks (map capture_rng_state (tr_rngs t)) (tr_rngs u))
       (\<lambda>rngs. Inr (v\<lparr>tr_rngs := rngs\<rparr>))"
    and v: "persistent (v\<lparr>tr_rngs := tr_rngs t\<rparr>) = persistent t" "same_job v u" "tr_disk v = tr_disk u"
      "tr_inputs v = tr_inputs u" "tr_controllers v = tr_controllers u" "tr_grads v = replicate (tr_world t) None"
      "tr_last_checkpoint v = Some (p, ts_steps (tr_state t))" by (rule stopped_job_checkpoint [OF st fin u])
  define u' where "u' = v\<lparr>tr_rngs := tr_rngs t\<rparr>"
  have e: "tr_disk u' = tr_disk u" "tr_inputs u' = tr_inputs u" "tr_controllers u' = tr_controllers u"
    "tr_grads u' = replicate (tr_world t) None" "tr_last_checkpoint u' = Some (p, ts_steps (tr_state t))"
    "persistent u' = persistent t" using v by (simp_all add: u'_def)
  have "same_job u' v" by (simp add: u'_def same_job_def)
  then have r: "same_job u' t" using v(2) u(1) same_job_trans by blast
  have "load_checkpoint p u = Inr u'" by (simp add: l restore_same_devices [OF dev] u'_def)
  moreover have "map_of (tr_disk u') p = Some (Complete ck)" using e(1) u(2) p(2) by simp
  from loaded_job [OF j this p(3) e(6) r _ e(5)] e(4) r have "job_ok u'" by (simp add: same_job_def)
  ultimately show ?thesis using e p(1) r by blast
qed

text \<open>A load that succeeds found every rank on its device, if no device appeared.\<close>

lemma loaded_devices:
  assumes st: "stored_checkpoint t" and fin: "final_checks t = Inr ()" and u: "same_job u t" "tr_disk u = tr_disk t"
    and l: "tr_path t = Some p" "load_checkpoint p u = Inr u'" and dev: "list_all2 no_new_device (tr_rngs t) (tr_rngs u)"
  shows "map rng_device (tr_rngs u) = map rng_device (tr_rngs t)"
proof -
  obtain v where "load_checkpoint p u = rbind (restore_ranks (map capture_rng_state (tr_rngs t)) (tr_rngs u))
       (\<lambda>rngs. Inr (v\<lparr>tr_rngs := rngs\<rparr>))"
    by (rule stopped_job_checkpoint [OF st fin u]) (use l(1) in simp)
  with l(2) restored_devices [OF _ dev] show ?thesis by (auto simp: rbind_eq_Inr)
qed

lemma lost_device_refused:
  assumes st: "stored_checkpoint t" and fin: "final_checks t = Inr ()" and u: "same_job u t" "tr_disk u = tr_disk t"
    and p: "tr_path t = Some p" and len: "length (tr_rngs u) = length (tr_rngs t)"
    and k: "k < length (tr_rngs t)" "rng_device (tr_rngs t ! k) \<noteq> None"
      "rng_device (tr_rngs u ! k) \<noteq> rng_device (tr_rngs t ! k)"
  shows "\<exists>e. load_checkpoint p u = Inl (RuntimeError e)"
proof -
  obtain v where l: "load_checkpoint p u = rbind (restore_ranks (map capture_rng_state (tr_rngs t)) (tr_rngs u))
       (\<lambda>rngs. Inr (v\<lparr>tr_rngs := rngs\<rparr>))"
    by (rule stopped_job_checkpoint [OF st fin u]) (use p in simp)
  from restore_refused [OF k(1) len k(2,3)] show ?thesis by (auto simp: l)
qed

lemma microbatches_between:
  assumes r: "reaches ops t its k t1 Q" and j: "job_ok t"
  shows "nat (ts_microbatches (tr_state t1) - ts_microbatches (tr_state t)) = k * nat (tc_ga (tr_config t))"
proof -
  have "ts_microbatches (tr_state t1) = ts_steps (tr_state t1) * tc_ga (tr_config t)"
    using r by (simp add: reaches_def job_ok_def progress_ok_def same_job_def)
  moreover have "ts_microbatches (tr_state t) = ts_steps (tr_state t) * tc_ga (tr_config t)"
    using j by (simp add: job_ok_def progress_ok_def)
  ultimately have "ts_microbatches (tr_state t1) - ts_microbatches (tr_state t) = int k * tc_ga (tr_config t)"
    using r by (simp add: reaches_def algebra_simps)
  then show ?thesis by (simp add: nat_mult_distrib)
qed

section \<open>A new trainer is a job\<close>

lemma json_wf_sort_keys: "json_wf v \<Longrightarrow> json_wf (sort_keys v)"
proof (induction v rule: json_wf.induct)
  case (1 m)
  let ?m = "map (\<lambda>(k, v). (k, sort_keys v)) m"
  have "map fst ?m = map fst m" by (auto simp: case_prod_beta)
  moreover have "mset (map fst (sort_key fst ?m)) = mset (map fst ?m)" by (simp add: multiset.map_comp)
  ultimately have "distinct (map fst (sort_key fst ?m))" using 1(2) mset_eq_imp_distinct_iff by (metis json_wf.simps(1))
  moreover have "json_wf (sort_keys v)" if "(k, v) \<in> set m" for k v
    using 1(1) [OF that refl] 1(2) that by (auto simp: list_all_iff)
  ultimately show ?case by (auto simp: list_all_iff)
qed (auto simp: list_all_iff)

definition args_ok :: "('m, 'r) trainer_args \<Rightarrow> bool" where
  "args_ok a \<longleftrightarrow> check_train_config (ta_config a) = Inr () \<and> length (ta_seeded a) = ta_world a \<and>
     distinct (map fst (ta_metadata a)) \<and> json_wf (JObj (ta_runtime a)) \<and> json_wf (ta_geometry a) \<and>
     (case ta_validation a of None \<Rightarrow> True | Some v \<Rightarrow> json_wf (JObj (vr_configuration v)) \<and>
        ''eval_every'' \<notin> set (map fst (vr_configuration v)) \<and> ''eval_at_start'' \<notin> set (map fst (vr_configuration v)))"

definition initial_job :: "('m, 'r) trainer_args \<Rightarrow> ('m, 'r) job_state" where
  "initial_job a = (ta_model a, ta_seeded a, initial_train_state, ta_metadata a)"

lemma new_trainer_fields:
  assumes "new_trainer a d i = Inr t"
  shows "tr_config t = ta_config a \<and> tr_world t = ta_world a \<and> tr_path t = ta_path a \<and> tr_validation t = ta_validation a \<and>
     persistent t = initial_job a \<and> tr_stop_signal t = 0 \<and> tr_inputs t = i \<and> tr_disk t = d \<and>
     tr_controllers t = ta_controllers a \<and> tr_grads t = replicate (ta_world a) None \<and> tr_last_checkpoint t = None \<and>
     tr_runtime t = ta_runtime a \<and> canonical_training_geometry (ta_geometry a) = Inr (tr_geometry t) \<and>
     validate_at_start_metadata (ta_validation a) (ta_config a) (ta_metadata a) = Inr ()"
  using assms by (auto simp: new_trainer_def Let_def rbind_eq_Inr persistent_def initial_job_def split: if_splits)

text \<open>Another process of the job: its freshly seeded generators may sit on other devices.\<close>

lemma new_trainer_same:
  assumes "new_trainer a d i = Inr t" and "new_trainer (a\<lparr>ta_seeded := rs\<rparr>) d' i' = Inr u"
  shows "same_job u t \<and> tr_tokenizer u = tr_tokenizer t \<and> tr_rngs u = rs"
  using assms by (auto simp: new_trainer_def Let_def rbind_eq_Inr same_job_def split: if_splits)

lemma json_wf_field: "json_wf (JObj m) \<Longrightarrow> json_wf (jfield m k)"
  by (auto simp: jfield_def list_all_iff dest!: map_of_SomeD split: option.split)

lemma canonical_geometry_facts:
  assumes "canonical_training_geometry v = Inr g" and "json_wf v"
  shows "json_wf g \<and> (g \<noteq> JNull \<longrightarrow> 0 \<le> jint_of (jget g ''consumed_supervised_tokens''))"
  using assms json_wf_sort_keys [of v]
  by (auto simp: canonical_training_geometry_def Let_def rbind_eq_Inr geometry_nonnegative_def nonnegative_int_def
      split: if_splits)

lemma json_wf_trajectory: "json_wf (trajectory_dict c)"
  by (simp add: trajectory_dict_def jfloat_def split: option.split)

theorem new_trainer_job:
  assumes a: "args_ok a" and n: "new_trainer a d i = Inr t"
  shows "job_ok t \<and> final_checks t = Inr ()"
proof -
  note f = new_trainer_fields [OF n]
  from f a have g: "json_wf (tr_geometry t)" "tr_geometry t \<noteq> JNull \<longrightarrow> 0 \<le> jint_of (jget (tr_geometry t) ''consumed_supervised_tokens'')"
    using canonical_geometry_facts [of "ta_geometry a" "tr_geometry t"] by (auto simp: args_ok_def)
  from f have p: "tr_model t = ta_model a" "tr_rngs t = ta_seeded a" "tr_state t = initial_train_state" "tr_metadata t = ta_metadata a"
    by (auto simp: persistent_def initial_job_def)
  have c: "check_train_config (ta_config a) = Inr ()" using a by (simp add: args_ok_def)
  have b: "is_jbool (tc_eval_at_start (ta_config a))" and m: "1 \<le> tc_max_steps (ta_config a)"
    using c by (auto simp: check_train_config_def Let_def split: if_splits)
  have "json_wf (validation_configuration t)"
    using a b f by (cases "tc_eval_at_start (ta_config a)") (auto simp: validation_configuration_def args_ok_def split: option.splits)
  moreover have "json_wf (jfield (tr_runtime t) k)" for k using a f json_wf_field by (simp add: args_ok_def)
  ultimately have w: "json_wf (JObj (checkpoint_identity t))"
    using g(1) json_wf_trajectory by (simp add: checkpoint_identity_def runtime_fact_def jstring_def jnat_def split: option.split)
  have "progress_ok (ta_config a) (tr_geometry t) v initial_train_state" for v
    using initial_progress [OF c] g(2) by blast
  then have "job_ok t" using a f p w c by (simp add: job_ok_def args_ok_def)
  moreover have "final_checks t = Inr ()" using m f p by (simp add: final_checks_def Let_def initial_train_state_def)
  ultimately show ?thesis by simp
qed

end
