(* ===== verification/TrainProps.thy ===== *)
theory TrainProps
  imports TrainResume
begin

text \<open>
  The properties of training: what a call computes, what a stop leaves behind, where a chain of
  stopped and resumed processes ends, and what a crash of a checkpoint write can do.
\<close>

section \<open>Chains of processes\<close>

text \<open>A training job that was stopped any number of times: the trainer of the process that runs now,
  loaded from the checkpoint of the one before it, and the batches still to come. The generators of
  a new process are its own until the load; a load that succeeds has found every rank on the CUDA
  device it was on, and a rank that had none has not gained one.\<close>

inductive preempted ::
    "('m, 'r rank_rng, 'g) torch_ops \<Rightarrow> ('m, 'r) trainer_args \<Rightarrow> int option \<Rightarrow> raw_batch res list list \<Rightarrow>
     ('m, 'r, 'g) trainer \<Rightarrow> raw_batch res list list \<Rightarrow> bool"
  for ops a until its where
  preempted_start: "new_trainer a d i = Inr t \<Longrightarrow> preempted ops a until its t its"
| preempted_resume: "preempted ops a until its t rest \<Longrightarrow> train ops until source rest t = Inr stopped \<Longrightarrow>
     tr_stop_signal stopped \<noteq> 0 \<Longrightarrow> new_trainer (a\<lparr>ta_seeded := rs\<rparr>) (tr_disk stopped) i = Inr u \<Longrightarrow>
     list_all2 no_new_device (tr_rngs stopped) rs \<Longrightarrow> ta_path a = Some p \<Longrightarrow> load_checkpoint p u = Inr u' \<Longrightarrow>
     preempted ops a until its u'
       (map (drop (nat (ts_microbatches (tr_state u') - ts_microbatches (tr_state t)))) rest)"

text \<open>Where such a process stands in the uninterrupted job.\<close>

lemma preempted_reaches:
  assumes "preempted ops a until its t rest"
    and a: "args_ok a" and n: "new_trainer a d i = Inr t0"
    and T: "batches_ok (row_length (tr_geometry t0)) its" "length its = ta_world a"
  shows "\<exists>k Q. reaches ops t0 its k t Q \<and> rest = map (drop (k * nat (tc_ga (ta_config a)))) its \<and>
     tr_stop_signal t = 0 \<and> final_checks t = Inr () \<and> tr_tokenizer t = tr_tokenizer t0 \<and>
     ts_steps (tr_state t) \<le> max 0 (case until of None \<Rightarrow> tc_max_steps (ta_config a) | Some n \<Rightarrow> n)"
  using assms(1)
proof induction
  case (preempted_start d' i' t)
  from new_trainer_same [where rs = "ta_seeded a", OF n, simplified, OF preempted_start] new_trainer_fields [OF preempted_start] new_trainer_fields [OF n]
    new_trainer_job [OF a preempted_start]
  have "continues t0 t" "tr_tokenizer t = tr_tokenizer t0" "tr_stop_signal t = 0" "final_checks t = Inr ()"
    and s: "persistent t = initial_job a" by (auto simp: continues_def)
  moreover have "reaches ops t0 its 0 t (persistent t0)" using \<open>continues t0 t\<close> by (auto intro: reaches_now)
  moreover have "ts_steps (tr_state t) = 0" using s by (simp add: persistent_def initial_job_def initial_train_state_def)
  ultimately show ?case by (intro exI [of _ 0] exI [of _ "persistent t0"] conjI) auto
next
  case (preempted_resume t rest source stopped rs i' u p u')
  let ?target = "case until of None \<Rightarrow> tc_max_steps (ta_config a) | Some n \<Rightarrow> n"
  note f0 = new_trainer_fields [OF n]
  from preempted_resume.IH obtain k Q where r: "reaches ops t0 its k t Q" and rest: "rest = map (drop (k * nat (tc_ga (tr_config t0)))) its"
    and sig: "tr_stop_signal t = 0" and fin: "final_checks t = Inr ()" using f0 by auto
  have j: "job_ok t" and rt: "same_job t t0" using r by (auto simp: reaches_def)
  have e: "tr_config t = tr_config t0" "tr_geometry t = tr_geometry t0" "tr_world t = tr_world t0" "tr_config t0 = ta_config a"
    "tr_world t0 = ta_world a" using rt f0 by (simp_all add: same_job_def)
  have T': "batches_ok (row_length (tr_geometry t)) rest" "length rest = tr_world t"
    using T by (simp_all add: rest e batches_ok_drop)
  from train_follows [OF j fin T' preempted_resume.hyps(2)] preempted_resume.hyps(3) sig obtain k2 Q2 where
    r2: "reaches ops t rest k2 stopped Q2" and fs: "final_checks stopped = Inr ()" and st: "stored_checkpoint stopped"
    and bs: "ts_steps (tr_state stopped) \<le> ?target" unfolding e by metis
  have js: "job_ok stopped" and rst: "same_job stopped t0" using r2 rt by (auto simp: reaches_def intro: same_job_trans)
  note fu = new_trainer_fields [OF preempted_resume.hyps(4)]
  note su = new_trainer_same [OF n preempted_resume.hyps(4)]
  have ru: "same_job u stopped" using su rst same_job_sym same_job_trans by blast
  have du: "tr_disk u = tr_disk stopped" and path: "tr_path stopped = Some p"
    using fu f0 rst preempted_resume.hyps(6) by (simp_all add: same_job_def)
  have dev: "map rng_device (tr_rngs u) = map rng_device (tr_rngs stopped)"
    using loaded_devices [OF st fs ru du path preempted_resume.hyps(7)] su preempted_resume.hyps(5) by simp
  from stopped_job_loads [OF st js fs ru du dev] path preempted_resume.hyps(7) have l: "persistent u' = persistent stopped"
    "same_job u' stopped" "job_ok u'" by auto
  from load_keeps [OF preempted_resume.hyps(7)] fu su have tok: "tr_stop_signal u' = 0" "tr_tokenizer u' = tr_tokenizer t0" by auto
  have r3: "reaches ops t rest k2 u' Q2" by (rule reaches_cong [OF r2 l(3,2,1)])
  from reaches_trans [OF r] r3 obtain Q3 where r4: "reaches ops t0 its (k + k2) u' Q3" unfolding rest by blast
  have "map (drop (nat (ts_microbatches (tr_state u') - ts_microbatches (tr_state t)))) rest
      = map (drop ((k + k2) * nat (tc_ga (ta_config a)))) its"
    unfolding microbatches_between [OF r3 j] rest e by (simp add: algebra_simps)
  moreover have su': "tr_state u' = tr_state stopped" using l(1) by (simp add: persistent_def)
  moreover have "final_checks u' = Inr ()" using final_checks_persistent [OF l(2) su'] fs by simp
  ultimately show ?case using r4 tok bs by (intro exI [of _ "k + k2"] exI [of _ Q3] conjI) simp_all
qed

lemma train_bound: "train ops until source its t = Inr t' \<Longrightarrow>
    ts_steps (tr_state t) \<le> (case until of None \<Rightarrow> tc_max_steps (tr_config t) | Some n \<Rightarrow> n) \<and>
    (case until of None \<Rightarrow> tc_max_steps (tr_config t) | Some n \<Rightarrow> n) \<le> tc_max_steps (tr_config t)"
  by (auto simp: train_def Let_def split: if_splits)

text \<open>One call of such a process.\<close>

lemma preempted_train:
  assumes p: "preempted ops a until its t rest" and a: "args_ok a" and n: "new_trainer a d i = Inr t0"
    and T: "batches_ok (row_length (tr_geometry t0)) its" "length its = ta_world a"
    and tr: "train ops until source rest t = Inr t'"
  shows "\<exists>k Q. reaches ops t0 its k t' Q \<and> final_checks t' = Inr () \<and>
     (tr_stop_signal t' \<noteq> 0 \<and> stored_checkpoint t' \<or>
      tr_stop_signal t' = 0 \<and> ts_steps (tr_state t') = (case until of None \<Rightarrow> tc_max_steps (ta_config a) | Some n \<Rightarrow> n) \<and>
      settle ops (ta_validation a) (ta_config a) Q = Inr (persistent t'))"
proof -
  note f0 = new_trainer_fields [OF n]
  from preempted_reaches [OF p a n T] obtain k Q where r: "reaches ops t0 its k t Q"
    and rest: "rest = map (drop (k * nat (tc_ga (tr_config t0)))) its" and sig: "tr_stop_signal t = 0"
    and fin: "final_checks t = Inr ()" using f0 by auto
  have j: "job_ok t" and rt: "same_job t t0" using r by (auto simp: reaches_def)
  have e: "tr_config t = tr_config t0" "tr_geometry t = tr_geometry t0" "tr_world t = tr_world t0" "tr_config t0 = ta_config a"
    "tr_world t0 = ta_world a" "tr_validation t = tr_validation t0" "tr_validation t0 = ta_validation a"
    using rt f0 by (simp_all add: same_job_def)
  have T': "batches_ok (row_length (tr_geometry t)) rest" "length rest = tr_world t"
    using T by (simp_all add: rest e batches_ok_drop)
  from train_follows [OF j fin T' tr] sig obtain k2 Q2 where r2: "reaches ops t rest k2 t' Q2" and fc: "final_checks t' = Inr ()"
    and out: "tr_stop_signal t' \<noteq> 0 \<and> stored_checkpoint t' \<or> tr_stop_signal t' = 0 \<and>
      ts_steps (tr_state t') = (case until of None \<Rightarrow> tc_max_steps (ta_config a) | Some n \<Rightarrow> n) \<and>
      settle ops (ta_validation a) (ta_config a) Q2 = Inr (persistent t')" unfolding e by metis
  from reaches_trans [OF r] r2 obtain Q3 where "reaches ops t0 its (k + k2) t' Q3"
    "settle ops (ta_validation a) (ta_config a) Q2 = Inr (persistent t') \<longrightarrow>
     settle ops (ta_validation a) (ta_config a) Q3 = Inr (persistent t')" unfolding rest e by blast
  with fc out show ?thesis by (intro exI [of _ "k + k2"] exI [of _ Q3] conjI) auto
qed

section \<open>A small run\<close>

text \<open>One rank, two updates of one row each; the second process runs after SIGTERM between them.\<close>

definition small_rng :: "int \<Rightarrow> nat \<Rightarrow> nat rank_rng" where
  "small_rng device n = \<lparr>rr_python = 1, rr_numpy = 2, rr_torch = n, rr_cuda = Some (device, n)\<rparr>"

definition small_draw :: "nat rank_rng \<Rightarrow> nat rank_rng" where
  "small_draw r = r\<lparr>rr_torch := Suc (rr_torch r), rr_cuda := map_option (\<lambda>(i, n). (i, 2 * n)) (rr_cuda r)\<rparr>"

definition small_ops :: "(int, nat rank_rng, unit) torch_ops" where
  "small_ops = \<lparr>
     op_forward = (\<lambda>m r b. (\<lparr>mo_loss_sum = Some (Some 1), mo_num_loss_tokens = Some [1], mo_tokens_int64 = True,
        mo_row_losses = None\<rparr>, small_draw r)),
     op_backward = (\<lambda>m r b g. ()),
     op_evaluate = (\<lambda>m r b. (\<lparr>mo_loss_sum = None, mo_num_loss_tokens = None, mo_tokens_int64 = True,
        mo_row_losses = None\<rparr>, r)),
     op_update = (\<lambda>lr scale norm gs m. Inr (2 * m + 1)), op_base_seed = small_draw, op_sum = (\<lambda>xs. None), op_cos = (\<lambda>x. 1)\<rparr>"

definition small_config :: train_config where
  "small_config = \<lparr>tc_max_steps = 2, tc_gmr = 1, tc_ga = 1, tc_learning_rate = Some 1, tc_min_learning_rate = Some 0,
     tc_warmup_steps = 1, tc_weight_decay = Some 0, tc_beta1 = Some 0, tc_beta2 = Some 0, tc_adam_eps = Some 1,
     tc_max_grad_norm = Some 1, tc_precision = ''float32'', tc_seed = 0, tc_deterministic = False,
     tc_compile_model = False, tc_log_every = 1, tc_checkpoint_every = 2, tc_eval_every = 0,
     tc_eval_at_start = JBool False, tc_fused_adamw = None\<rparr>"

definition small_sha :: json where
  "small_sha = JStr (replicate 64 CHR ''a'')"

definition small_args :: "(int, nat) trainer_args" where
  "small_args = \<lparr>ta_config = small_config, ta_world = 1, ta_compiled = False, ta_runtime = [], ta_data_identity = ''toy'',
     ta_tokenizer_manifest = small_sha, ta_tokenizer_vocabulary = small_sha, ta_geometry = JNull, ta_validation = None,
     ta_path = Some ''last.pt'', ta_metadata = [], ta_model = 5, ta_seeded = [small_rng 0 7],
     ta_controllers = [new_stop_controller]\<rparr>"

definition small_batch :: "raw_batch res" where
  "small_batch = Inr \<lparr>rb_input_ids = [[3]], rb_position_ids = [[0]], rb_document_ids = [[0]], rb_labels = [[4]],
     rb_num_loss_tokens = Some 1, rb_domain_ids = None\<rparr>"

definition small_batches :: "raw_batch res list list" where
  "small_batches = [[small_batch, small_batch]]"

text \<open>The second poll, after the first update, sees the signal.\<close>

definition small_start :: "stop_input list list \<Rightarrow> (int, nat) full_checkpoint ckpt_dir \<Rightarrow> (int, nat, unit) trainer" where
  "small_start inputs d = projr (new_trainer small_args d inputs)"

definition small_stopped :: "(int, nat, unit) trainer" where
  "small_stopped = projr (train small_ops None None small_batches (small_start [[([], NoStopFile)], [([15], NoStopFile)]] []))"

text \<open>A process of the same job, seeded again, on some device.\<close>

definition small_again :: "int \<Rightarrow> (int, nat, unit) trainer" where
  "small_again device = projr (new_trainer (small_args\<lparr>ta_seeded := [small_rng device 3]\<rparr>) (tr_disk small_stopped) [])"

definition small_resumed :: "(int, nat, unit) trainer" where
  "small_resumed = projr (load_checkpoint ''last.pt'' (small_again 0))"

lemma small_new:
  "new_trainer small_args d i = Inr (small_start i d)"
  "new_trainer (small_args\<lparr>ta_seeded := [small_rng device 3]\<rparr>) (tr_disk small_stopped) [] = Inr (small_again device)"
proof -
  have "canonical_training_geometry JNull = Inr JNull" by (simp add: canonical_training_geometry_def Let_def)
  moreover have "optional_sha256 small_sha = Inr (Some (replicate 64 CHR ''a''))" by code_simp
  moreover have "small_sha \<noteq> JNull" by (simp add: small_sha_def)
  ultimately show "new_trainer small_args d i = Inr (small_start i d)"
    "new_trainer (small_args\<lparr>ta_seeded := [small_rng device 3]\<rparr>) (tr_disk small_stopped) [] = Inr (small_again device)"
    unfolding small_start_def small_again_def
    by (simp_all add: new_trainer_def small_args_def small_config_def Let_def check_trainer_validation_def eval_at_start_def
        check_trainer_geometry_def validate_at_start_metadata_def at_start_key_def)
qed

lemma small_train_stopped:
  "train small_ops None None small_batches (small_start [[([], NoStopFile)], [([15], NoStopFile)]] []) = Inr small_stopped \<and>
   tr_stop_signal small_stopped = 15"
  by code_simp

lemma small_load:
  "load_checkpoint ''last.pt'' (small_again 0) = Inr small_resumed \<and>
   persistent small_resumed = persistent small_stopped \<and> ts_steps (tr_state small_resumed) = 1 \<and>
   ts_microbatches (tr_state small_resumed) = 1"
  by code_simp

lemma small_devices: "map rng_device (tr_rngs small_stopped) = [Some 0]"
  by code_simp

lemma small_quiet: "quiet small_resumed \<and> writable small_resumed"
  by code_simp

lemma small_args_ok: "args_ok small_args"
  by code_simp

lemma small_train_whole:
  "train small_ops None None small_batches (small_start [] []) = Inr (projr (train small_ops None None small_batches (small_start [] []))) \<and>
   tr_stop_signal (projr (train small_ops None None small_batches (small_start [] []))) = 0"
  by code_simp

lemma small_preempted: "preempted small_ops small_args None small_batches small_resumed (map (drop 1) small_batches)"
proof -
  let ?t = "small_start [[([], NoStopFile)], [([15], NoStopFile)]] []"
  have p: "preempted small_ops small_args None small_batches ?t small_batches"
    by (rule preempted_start) (rule small_new(1))
  have "ts_microbatches (tr_state ?t) = 0"
    using new_trainer_fields [OF small_new(1)] by (simp add: persistent_def initial_job_def initial_train_state_def)
  with small_load have d: "nat (ts_microbatches (tr_state small_resumed) - ts_microbatches (tr_state ?t)) = 1" by simp
  have stop: "tr_stop_signal small_stopped \<noteq> 0" using small_train_stopped by simp
  have path: "ta_path small_args = Some ''last.pt''" by (simp add: small_args_def)
  have dev: "list_all2 no_new_device (tr_rngs small_stopped) [small_rng 0 3]"
    using small_devices by (cases "tr_rngs small_stopped") (auto simp: no_new_device_def rng_device_def)
  from preempted_resume [OF p small_train_stopped [THEN conjunct1] stop small_new(2) dev path small_load [THEN conjunct1]]
  show ?thesis unfolding d .
qed

lemma small_geometry: "tr_geometry (small_start i d) = JNull"
proof -
  have "canonical_training_geometry JNull = Inr JNull" by (simp add: canonical_training_geometry_def Let_def)
  with new_trainer_fields [OF small_new(1) [of d i]] show ?thesis by (simp add: small_args_def)
qed

lemma small_batches_ok:
  "batches_ok (row_length (tr_geometry (small_start i d))) small_batches \<and> length small_batches = ta_world small_args"
  by (simp add: small_geometry batches_ok_def row_length_def small_batches_def small_args_def)

section \<open>Properties\<close>

text \<open>C8: A job that was stopped any number of times, at any of the points where the loop polls, and
  resumed each time by a new process that loads the checkpoint left on disk, none of whose ranks has a
  CUDA device it did not have before, ends where an uninterrupted run ends: if the uninterrupted call returns, so does the last process, when nothing stops it and
  its directory is writable, and with the same model, random states, progress and metadata.\<close>

theorem preempted_job_ends_where_the_uninterrupted_one_does:
  assumes a: "args_ok a" and n: "new_trainer a d i = Inr t0"
    and T: "batches_ok (row_length (tr_geometry t0)) its" "length its = ta_world a"
    and whole: "train ops until source its t0 = Inr tA" "tr_stop_signal tA = 0"
    and p: "preempted ops a until its t rest"
    and q: "quiet t" "writable t" "validate_batch_source t source' = Inr ()"
  shows "\<exists>tC. train ops until source' rest t = Inr tC \<and> persistent tC = persistent tA \<and> tr_stop_signal tC = 0"
proof -
  let ?target = "case until of None \<Rightarrow> tc_max_steps (ta_config a) | Some n \<Rightarrow> n"
  let ?v = "tr_validation t0" and ?c = "tr_config t0" and ?w = "tr_world t0" and ?g = "tr_geometry t0"
  note f0 = new_trainer_fields [OF n]
  have c0: "?c = ta_config a" "?v = ta_validation a" "ts_steps (tr_state t0) = 0"
    using f0 by (auto simp: persistent_def initial_job_def initial_train_state_def)
  from preempted_train [OF preempted_start [OF n] a n T whole(1)] whole(2) obtain ka QA where
    A: "reaches ops t0 its ka tA QA" "final_checks tA = Inr ()" "ts_steps (tr_state tA) = ?target"
      "settle ops ?v ?c QA = Inr (persistent tA)" unfolding c0 by blast
  from preempted_reaches [OF p a n T] obtain k Q where r: "reaches ops t0 its k t Q"
    and rest: "rest = map (drop (k * nat (tc_ga ?c))) its" and sig: "tr_stop_signal t = 0"
    and le: "ts_steps (tr_state t) \<le> max 0 ?target" unfolding c0 by blast
  have rt: "same_job t t0" and j: "job_ok t" using r by (auto simp: reaches_def)
  have e: "tr_validation t = ?v" "tr_config t = ?c" "tr_world t = ?w" "tr_geometry t = ?g"
    using rt by (simp_all add: same_job_def)
  have bound: "?target \<le> tc_max_steps (ta_config a)" "0 \<le> ?target" using train_bound [OF whole(1)] unfolding c0 by simp_all
  have le': "ts_steps (tr_state t) \<le> ?target" using le bound by simp
  have "k \<le> ka" using r A(1,3) le' by (simp add: reaches_def)
  from resumed_reaches [OF A(1,4,3) r _ _ this] obtain Q' left where
    U: "run_updates ops ?v ?c ?w ?g (nat (?target - ts_steps (tr_state t))) (persistent t) rest = Inr (Q', left)"
    and S: "settle ops ?v ?c Q' = Inr (persistent tA)" unfolding rest by auto
  have fin: "final_checks t' = Inr ()" if "same_job t' t" "persistent t' = persistent tA" for t' :: "('a, 'b, 'c) trainer"
  proof -
    have "same_job t' tA" using that(1) rt A(1) same_job_sym same_job_trans unfolding reaches_def by blast
    with final_checks_persistent [OF this] that(2) A(2) show ?thesis by (simp add: persistent_def)
  qed
  have T': "batches_ok (row_length (tr_geometry t)) rest" "length rest = tr_world t"
    using T f0 by (simp_all add: rest e batches_ok_drop)
  have und: "undisturbed t" using q(1,2) j by (simp add: undisturbed_def)
  from train_quiet [where until = until and ops = ops, OF und q(3) T', unfolded e c0, OF le' bound(1) U [unfolded c0] S [unfolded c0] fin]
  show ?thesis using sig by auto
qed

lemma preempted_job_ends_where_the_uninterrupted_one_does_witness:
  "\<exists>tC. train small_ops None None (map (drop 1) small_batches) small_resumed = Inr tC \<and>
     persistent tC = persistent (projr (train small_ops None None small_batches (small_start [] []))) \<and> tr_stop_signal tC = 0"
proof -
  have "validate_batch_source small_resumed None = Inr ()" by code_simp
  with small_quiet small_train_whole show ?thesis
    by (intro preempted_job_ends_where_the_uninterrupted_one_does
        [OF small_args_ok small_new(1) small_batches_ok [THEN conjunct1] small_batches_ok [THEN conjunct2] _ _ small_preempted])
      simp_all
qed

text \<open>C9: A call that ends because of a stop request, however often the job had been stopped before,
  leaves a checkpoint at the configured path. A new process of the same arguments whose ranks are on
  the CUDA devices they were on always accepts it, and loading it restores exactly the state the call
  ended in: model, random states of every rank, progress and metadata. A process one of whose ranks
  is not on the device it was on, or has no CUDA any more, is refused.\<close>

theorem stopped_job_leaves_a_loadable_checkpoint:
  fixes ops :: "('m, 'r rank_rng, 'g) torch_ops" and t0 u :: "('m, 'r, 'g) trainer"
  assumes a: "args_ok a" and n: "new_trainer a d i = Inr t0"
    and T: "batches_ok (row_length (tr_geometry t0)) its" "length its = ta_world a"
    and p: "preempted ops a until its t rest"
    and tr: "train ops until source rest t = Inr stopped" "tr_stop_signal stopped \<noteq> 0"
    and u: "new_trainer (a\<lparr>ta_seeded := rs\<rparr>) (tr_disk stopped) i' = Inr u" "length rs = ta_world a"
  shows "\<exists>p. ta_path a = Some p \<and>
     (map rng_device rs = map rng_device (tr_rngs stopped) \<longrightarrow>
        (\<exists>u'. load_checkpoint p u = Inr u' \<and> persistent u' = persistent stopped)) \<and>
     (\<forall>k < ta_world a. rng_device (tr_rngs stopped ! k) \<noteq> None \<longrightarrow>
        rng_device (rs ! k) \<noteq> rng_device (tr_rngs stopped ! k) \<longrightarrow>
        (\<exists>e. load_checkpoint p u = Inl (RuntimeError e)))"
proof -
  from preempted_train [OF p a n T tr(1)] tr(2) obtain k Q where r: "reaches ops t0 its k stopped Q"
    and f: "final_checks stopped = Inr ()" "stored_checkpoint stopped" by blast
  have j: "job_ok stopped" and rst: "same_job stopped t0" using r by (auto simp: reaches_def)
  have s: "same_job u stopped" "tr_rngs u = rs" using new_trainer_same [OF n u(1)] rst same_job_sym same_job_trans by blast+
  have disk: "tr_disk u = tr_disk stopped" using new_trainer_fields [OF u(1)] by simp
  have w: "length (tr_rngs stopped) = ta_world a" and "tr_path stopped = ta_path a"
    using j rst new_trainer_fields [OF n] by (simp_all add: job_ok_def same_job_def)
  moreover obtain p where path: "tr_path stopped = Some p" using f(2) by (auto simp: stored_checkpoint_def)
  moreover have "\<exists>u'. load_checkpoint p u = Inr u' \<and> persistent u' = persistent stopped"
    if "map rng_device rs = map rng_device (tr_rngs stopped)"
    using stopped_job_loads [OF f(2) j f(1) s(1) disk] that s(2) path by auto
  moreover have "\<exists>e. load_checkpoint p u = Inl (RuntimeError e)"
    if "k < ta_world a" "rng_device (tr_rngs stopped ! k) \<noteq> None" "rng_device (rs ! k) \<noteq> rng_device (tr_rngs stopped ! k)" for k
    by (rule lost_device_refused [OF f(2,1) s(1) disk path, of k]) (use that s(2) u(2) w in auto)
  ultimately show ?thesis by metis
qed

lemma stopped_job_leaves_a_loadable_checkpoint_witness:
  "tr_stop_signal small_stopped = 15 \<and>
   (\<exists>u'. load_checkpoint ''last.pt'' (small_again 0) = Inr u' \<and> persistent u' = persistent small_stopped) \<and>
   (\<exists>e. load_checkpoint ''last.pt'' (small_again 1) = Inl (RuntimeError e))"
proof -
  let ?i = "[[([], NoStopFile)], [([15], NoStopFile)]]"
  have "preempted small_ops small_args None small_batches (small_start ?i []) small_batches"
    by (rule preempted_start) (rule small_new(1))
  note c = stopped_job_leaves_a_loadable_checkpoint [OF small_args_ok small_new(1) small_batches_ok [THEN conjunct1]
      small_batches_ok [THEN conjunct2] this small_train_stopped [THEN conjunct1] _ small_new(2)]
  have d: "tr_rngs small_stopped \<noteq> []" "rng_device (tr_rngs small_stopped ! 0) = Some 0"
    "rng_device (small_rng i n) = Some i" for i n
    using small_devices by (cases "tr_rngs small_stopped"; simp add: small_rng_def rng_device_def)+
  have "ta_path small_args = Some ''last.pt''" "ta_world small_args = 1" by (simp_all add: small_args_def)
  with c [of 0] c [of 1] small_train_stopped small_devices d show ?thesis by simp
qed

text \<open>C10: What training computes. When a job, stopped and resumed any number of times, ends without a
  stop request, its state is the result of the plain specification: from the arguments' model, random
  states and metadata, exactly as many optimizer updates as the target says, over consecutive
  accumulation windows of every rank's batches, each after the validation then due, and the validation
  due at the end. Polls, checkpoints, log cadence and early returns leave no trace in it.\<close>

theorem training_computes_the_update_sequence:
  fixes ops :: "('m, 'r rank_rng, 'g) torch_ops" and t0 :: "('m, 'r, 'g) trainer"
  assumes a: "args_ok a" and n: "new_trainer a d i = Inr t0"
    and T: "batches_ok (row_length (tr_geometry t0)) its" "length its = ta_world a"
    and p: "preempted ops a until its t rest"
    and tr: "train ops until source rest t = Inr t'" "tr_stop_signal t' = 0"
  defines "target \<equiv> (case until of None \<Rightarrow> tc_max_steps (ta_config a) | Some n \<Rightarrow> n)"
  shows "ts_steps (tr_state t') = target \<and>
    rbind (run_updates ops (ta_validation a) (ta_config a) (ta_world a) (tr_geometry t0) (nat target) (initial_job a) its)
      (\<lambda>(Q, rest). settle ops (ta_validation a) (ta_config a) Q) = Inr (persistent t')"
proof -
  from preempted_train [OF p a n T tr(1)] tr(2) obtain k Q where r: "reaches ops t0 its k t' Q"
    and out: "ts_steps (tr_state t') = target" "settle ops (ta_validation a) (ta_config a) Q = Inr (persistent t')"
    unfolding target_def by blast
  note f0 = new_trainer_fields [OF n]
  have z: "ts_steps (tr_state t0) = 0" using f0 by (simp add: persistent_def initial_job_def initial_train_state_def)
  then have "nat target = k" using r out(1) by (simp add: reaches_def)
  with r f0 out show ?thesis by (simp add: reaches_def)
qed

lemma training_computes_the_update_sequence_witness:
  "ts_steps (tr_state (projr (train small_ops None None small_batches (small_start [] [])))) = 2 \<and>
   rbind (run_updates small_ops None small_config 1 JNull 2 (5, [small_rng 0 7], initial_train_state, []) small_batches)
     (\<lambda>(Q, rest). settle small_ops None small_config Q) =
     Inr (persistent (projr (train small_ops None None small_batches (small_start [] []))))"
proof -
  have p: "preempted small_ops small_args None small_batches (small_start [] []) small_batches"
    by (rule preempted_start) (rule small_new(1))
  have e: "ta_validation small_args = None" "ta_config small_args = small_config" "ta_world small_args = 1"
    "initial_job small_args = (5, [small_rng 0 7], initial_train_state, [])" "tc_max_steps small_config = 2"
    by (simp_all add: small_args_def small_config_def initial_job_def)
  from training_computes_the_update_sequence [OF small_args_ok small_new(1) [of "[]" "[]"] small_batches_ok [THEN conjunct1]
      small_batches_ok [THEN conjunct2] p small_train_whole [THEN conjunct1] small_train_whole [THEN conjunct2]]
  show ?thesis by (simp add: e small_geometry)
qed

text \<open>C11: The progress counters of every call that returns, stopped or not, however often the job had
  been resumed: microbatches and rows are what the completed updates consume, supervised tokens are a
  part of the input tokens, and under a frozen geometry the input tokens are whole rows, the
  per-domain counters sum to the global ones and never exceed the authority, which the last update
  meets exactly, domain by domain.\<close>

theorem progress_counters_are_exact:
  fixes ops :: "('m, 'r rank_rng, 'g) torch_ops" and t0 :: "('m, 'r, 'g) trainer"
  assumes a: "args_ok a" and n: "new_trainer a d i = Inr t0"
    and T: "batches_ok (row_length (tr_geometry t0)) its" "length its = ta_world a"
    and p: "preempted ops a until its t rest"
    and tr: "train ops until source rest t = Inr t'"
  defines "s \<equiv> tr_state t'" and "g \<equiv> tr_geometry t0" and "c \<equiv> ta_config a"
  shows "0 \<le> ts_steps s \<and> ts_steps s \<le> tc_max_steps c \<and> ts_microbatches s = ts_steps s * tc_ga c \<and>
    ts_rows s = ts_microbatches s * tc_gmr c \<and> 0 \<le> ts_supervised_tokens s \<and>
    ts_supervised_tokens s \<le> ts_input_tokens s \<and> ts_last_validated s \<le> ts_steps s \<and>
    (g = JNull \<or> ts_input_tokens s = ts_rows s * jint_of (jget g ''sequence_length'') \<and>
       sum_list (ts_rows_pd s) = ts_rows s \<and> sum_list (ts_input_tokens_pd s) = ts_input_tokens s \<and>
       sum_list (ts_supervised_tokens_pd s) = ts_supervised_tokens s \<and>
       ts_supervised_tokens s \<le> jint_of (jget g ''consumed_supervised_tokens'')) \<and>
    (g = JNull \<or> ts_steps s \<noteq> tc_max_steps c \<or> ts_rows s = jint_of (jget g ''consumed_rows'') \<and>
       ts_input_tokens s = jint_of (jget g ''consumed_input_tokens'') \<and>
       ts_supervised_tokens s = jint_of (jget g ''consumed_supervised_tokens'') \<and>
       eq_domains (jget g ''consumed_input_tokens_per_domain'') (ts_input_tokens_pd s) \<and>
       eq_domains (jget g ''consumed_supervised_tokens_per_domain'') (ts_supervised_tokens_pd s))"
proof -
  from preempted_train [OF p a n T tr] obtain k Q where r: "reaches ops t0 its k t' Q" and f: "final_checks t' = Inr ()" by blast
  have e: "tr_config t' = c" "tr_geometry t' = g"
    using r new_trainer_fields [OF n] by (simp_all add: reaches_def same_job_def c_def g_def)
  have po: "progress_ok c g (tr_validation t' \<noteq> None) s" using r unfolding reaches_def job_ok_def e s_def by blast
  then have k: "counters_ok s" by (simp add: progress_ok_def)
  have "g = JNull \<or> ts_input_tokens s = ts_rows s * jint_of (jget g ''sequence_length'') \<and>
       sum_list (ts_rows_pd s) = ts_rows s \<and> sum_list (ts_input_tokens_pd s) = ts_input_tokens s \<and>
       sum_list (ts_supervised_tokens_pd s) = ts_supervised_tokens s \<and>
       ts_supervised_tokens s \<le> jint_of (jget g ''consumed_supervised_tokens'')"
    using po by (cases "g = JNull") (simp_all add: progress_ok_def)
  moreover have "g = JNull \<or> ts_steps s \<noteq> tc_max_steps c \<or> ts_rows s = jint_of (jget g ''consumed_rows'') \<and>
       ts_input_tokens s = jint_of (jget g ''consumed_input_tokens'') \<and>
       ts_supervised_tokens s = jint_of (jget g ''consumed_supervised_tokens'') \<and>
       eq_domains (jget g ''consumed_input_tokens_per_domain'') (ts_input_tokens_pd s) \<and>
       eq_domains (jget g ''consumed_supervised_tokens_per_domain'') (ts_supervised_tokens_pd s)"
    using f by (cases "g = JNull \<or> ts_steps s \<noteq> tc_max_steps c")
      (blast, simp add: final_checks_def Let_def e s_def [symmetric] split: if_splits)
  moreover have "ts_steps s \<le> tc_max_steps c" "ts_microbatches s = ts_steps s * tc_ga c" "ts_rows s = ts_microbatches s * tc_gmr c"
    "ts_supervised_tokens s \<le> ts_input_tokens s" using po by (simp_all add: progress_ok_def)
  moreover have "0 \<le> ts_steps s" "0 \<le> ts_supervised_tokens s" "ts_last_validated s \<le> ts_steps s"
    using k by (simp_all add: counters_ok_def)
  ultimately show ?thesis by blast
qed

lemma progress_counters_are_exact_witness:
  "ts_rows (tr_state small_stopped) = 1 \<and> ts_microbatches (tr_state small_stopped) = 1 \<and>
   ts_supervised_tokens (tr_state small_stopped) \<le> ts_input_tokens (tr_state small_stopped)"
proof -
  let ?i = "[[([], NoStopFile)], [([15], NoStopFile)]]"
  have p: "preempted small_ops small_args None small_batches (small_start ?i []) small_batches"
    by (rule preempted_start) (rule small_new(1))
  have "ts_steps (tr_state small_stopped) = 1" using small_load by (auto simp: persistent_def)
  with progress_counters_are_exact [OF small_args_ok small_new(1) small_batches_ok [THEN conjunct1]
      small_batches_ok [THEN conjunct2] p small_train_stopped [THEN conjunct1]]
  show ?thesis by (simp add: small_args_def small_config_def)
qed

text \<open>C12: A crash while a checkpoint generation is written, at any of its directory operations, with or
  without the old generation being kept, followed by the reconciliation of the next start: the
  reconciliation succeeds and removes every temporary; the checkpoint is complete, the old generation
  or the new one; the previous generation is the one it was, or the old checkpoint once the new one
  is published; no other file changes.\<close>

theorem crashed_save_loses_no_generation:
  assumes "removable name d" and "map_of d name \<noteq> Some NotAFile"
  shows "\<exists>removed d'. reconcile_temporaries name (crashed_save k preserve name p d) = Inr (removed, d') \<and>
     (\<forall>n. temporary name n \<longrightarrow> map_of d' n = None) \<and>
     (\<forall>n. \<not> temporary name n \<and> n \<notin> {name, previous_name name} \<longrightarrow> map_of d' n = map_of d n) \<and>
     map_of d' name \<in> {map_of d name, Some (Complete p)} \<and>
     (map_of d' (previous_name name) = map_of d (previous_name name) \<or>
      map_of d name \<noteq> None \<and> map_of d' (previous_name name) = map_of d name \<and> map_of d' name = Some (Complete p))"
  using assms by (rule crash_and_reconcile)

lemma crashed_save_loses_no_generation_witness:
  fixes d :: "nat ckpt_dir"
  defines "d \<equiv> [(''last.pt'', Complete 4), (''last.previous.pt'', Complete 3)]"
  shows "\<exists>removed d'. reconcile_temporaries ''last.pt'' (crashed_save 5 False ''last.pt'' 5 d) = Inr (removed, d') \<and>
     map_of d' ''last.pt'' \<in> {Some (Complete 4), Some (Complete 5)}"
proof -
  have "removable ''last.pt'' d" by (simp add: removable_def d_def)
  moreover have "map_of d ''last.pt'' = Some (Complete 4)" by (simp add: d_def)
  ultimately show ?thesis using crashed_save_loses_no_generation [of "''last.pt''" d 5 False 5] by fastforce
qed

end
