(* ===== verification/CurateStore.thy ===== *)
theory CurateStore
  imports Json "HOL-Library.AList"
begin

text \<open>
  The durable store of \<^verbatim>\<open>scripts/curate_corpus.py\<close>: the tables of its SQLite database, its
  transactions, and the resumable subphases with their cursors.

  A table is the list of its rows; a query is the list of its result rows, in the order its
  \<^verbatim>\<open>ORDER BY\<close> asks for. A BLOB is a byte list, compared byte by byte, a prefix being
  smaller, as SQLite compares BLOBs. A process may be killed at any time: a job runs with a budget
  of transactions, and is killed at the commit that exceeds it. The measurements of the file
  system (free space, journal sizes), the copies of the progress beside the database and the write-ahead log are not modelled.
\<close>

section \<open>Tables\<close>

type_synonym blob = "byte list"

record cur_doc =
  d_id :: blob
  d_bucket :: string
  d_archive :: string
  d_index :: nat
  d_member :: string
  d_tokens :: int
  d_content :: blob
  d_normalized :: blob
  d_cluster :: blob
  d_group :: blob
  d_rank :: blob
  d_selection :: blob

record tables =
  t_documents :: "cur_doc list"
  t_reasons :: "(blob \<times> string) list"
  t_near_map :: "(blob \<times> blob) list"
  t_benchmark_content :: "blob list"
  t_benchmark_final :: "blob list"
  t_exact_choice :: "(blob \<times> blob \<times> blob) list"
  t_final_choice :: "(blob \<times> blob \<times> blob) list"
  t_canonical_map :: "(blob \<times> blob) list"
  t_groups :: "(blob \<times> string) list"
  t_selected :: "(blob \<times> string \<times> int) list"

text \<open>The cursors of a subphase: a key, a position in a total order, or a number of input rows.\<close>

datatype cursor =
    KeyCursor blob
  | RankCursor blob blob
  | RowCursor nat

record subphase =
  sp_complete :: bool
  sp_cursor :: cursor
  sp_rows :: nat
  sp_tokens :: int
  sp_batches :: nat
  sp_details :: json

record counts =
  n_archives :: nat
  n_documents :: nat
  n_selected :: nat

record cur_db =
  db_phase :: string
  db_tables :: tables
  db_progress :: "(string \<times> subphase) list"
  db_counts :: counts
  db_events :: "(string \<times> json) list"

section \<open>Jobs\<close>

text \<open>
  What a call does with a budget of commits and a database: it returns, raises, or is killed; the
  database is the one its last commit left.
\<close>

datatype 'a outcome = Returned 'a | Raised exn | Killed

type_synonym 'a job = "nat \<Rightarrow> cur_db \<Rightarrow> 'a outcome \<times> nat \<times> cur_db"

definition give :: "'a \<Rightarrow> 'a job" where
  "give x n db = (Returned x, n, db)"

definition throw :: "exn \<Rightarrow> 'a job" where
  "throw e n db = (Raised e, n, db)"

definition jbind :: "'a job \<Rightarrow> ('a \<Rightarrow> 'b job) \<Rightarrow> 'b job" where
  "jbind job f n db = (case job n db of
       (Returned x, m, db') \<Rightarrow> f x m db'
     | (Raised e, m, db') \<Rightarrow> (Raised e, m, db')
     | (Killed, m, db') \<Rightarrow> (Killed, m, db'))"

text \<open>A read outside a transaction, and one that may raise.\<close>

definition fetch :: "(cur_db \<Rightarrow> 'a) \<Rightarrow> 'a job" where
  "fetch f n db = (Returned (f db), n, db)"

definition check :: "(cur_db \<Rightarrow> 'a res) \<Rightarrow> 'a job" where
  "check f n db = (case f db of Inl e \<Rightarrow> (Raised e, n, db) | Inr x \<Rightarrow> (Returned x, n, db))"

text \<open>
  \<^verbatim>\<open>BEGIN IMMEDIATE\<close> \dots \<^verbatim>\<open>commit()\<close>, with \<^verbatim>\<open>rollback()\<close> when the body raises.
\<close>

definition transaction :: "(cur_db \<Rightarrow> ('a \<times> cur_db) res) \<Rightarrow> 'a job" where
  "transaction body n db = (case body db of
       Inl e \<Rightarrow> (Raised e, n, db)
     | Inr (x, db') \<Rightarrow> (case n of 0 \<Rightarrow> (Killed, 0, db) | Suc m \<Rightarrow> (Returned x, m, db')))"

lemma transaction_spends:
  "transaction body n db = (Returned x, m, db') \<Longrightarrow> n = Suc m"
  by (auto simp: transaction_def split: sum.splits nat.splits)

section \<open>Subphases\<close>

definition progress :: "string \<Rightarrow> cur_db \<Rightarrow> subphase option" where
  "progress name db = map_of (db_progress db) name"

definition set_progress :: "string \<Rightarrow> subphase \<Rightarrow> cur_db \<Rightarrow> cur_db" where
  "set_progress name sp db = db\<lparr>db_progress := AList.update name sp (db_progress db)\<rparr>"

definition new_subphase :: "cursor \<Rightarrow> json \<Rightarrow> subphase" where
  "new_subphase cursor details = \<lparr>sp_complete = False, sp_cursor = cursor, sp_rows = 0,
     sp_tokens = 0, sp_batches = 0, sp_details = details\<rparr>"

definition start_subphase :: "string \<Rightarrow> cursor \<Rightarrow> json \<Rightarrow> subphase job" where
  "start_subphase name cursor details n db = (case progress name db of
       Some sp \<Rightarrow> (Returned sp, n, db)
     | None \<Rightarrow> transaction (\<lambda>db. let sp = new_subphase cursor details in
         Inr (sp, set_progress name sp db)) n db)"

text \<open>
  The update of \<^verbatim>\<open>_commit_bounded_batch\<close>, run inside the transaction that writes the rows:
  progress and rows are committed together.
\<close>

definition record_transaction :: "nat \<Rightarrow> nat \<Rightarrow> unit res" where
  "record_transaction batch_size rows =
     (if batch_size < rows then Inl (CurationError ''Unbounded curation transaction'') else Inr ())"

definition commit_bounded_batch ::
    "nat \<Rightarrow> string \<Rightarrow> cursor \<Rightarrow> nat \<Rightarrow> int \<Rightarrow> json option \<Rightarrow> cur_db \<Rightarrow> (subphase \<times> cur_db) res" where
  "commit_bounded_batch batch_size name cursor rows tokens details db = (case progress name db of
       None \<Rightarrow> Inl (CurationError ''Cannot commit inactive subphase'')
     | Some sp \<Rightarrow>
         if sp_complete sp then Inl (CurationError ''Cannot commit inactive subphase'')
         else if rows < 1 \<or> tokens < 0 then Inl (CurationError ''Invalid bounded batch counters'')
         else rbind (record_transaction batch_size rows) (\<lambda>_.
           let sp' = sp\<lparr>sp_cursor := cursor, sp_rows := sp_rows sp + rows,
                 sp_tokens := sp_tokens sp + tokens, sp_batches := sp_batches sp + 1,
                 sp_details := (case details of None \<Rightarrow> sp_details sp | Some d \<Rightarrow> d)\<rparr> in
           Inr (sp', set_progress name sp' db)))"

definition complete_subphase :: "nat \<Rightarrow> string \<Rightarrow> json \<Rightarrow> subphase job" where
  "complete_subphase batch_size name details n db = (case progress name db of
       None \<Rightarrow> (Raised (CurationError ''Unknown subphase''), n, db)
     | Some sp \<Rightarrow>
         if sp_complete sp
         then if sp_details sp \<noteq> details
           then (Raised (CurationError ''Completed subphase evidence changed''), n, db)
           else (Returned sp, n, db)
         else transaction (\<lambda>db. rbind (record_transaction batch_size 0) (\<lambda>_.
           let sp' = sp\<lparr>sp_complete := True, sp_details := details\<rparr> in
           Inr (sp', set_progress name sp' db))) n db)"

section \<open>Statements over keys\<close>

text \<open>
  The rows the keyset queries return and the statements bind: a key, and what goes with it.
\<close>

datatype key_row =
    Key blob
  | KeyText blob string
  | KeyBlob blob blob
  | KeyRank blob blob blob

fun row_key :: "key_row \<Rightarrow> blob" where
  "row_key (Key k) = k"
| "row_key (KeyText k _) = k"
| "row_key (KeyBlob k _) = k"
| "row_key (KeyRank k _ _) = k"

text \<open>\<^verbatim>\<open>... WHERE key>? ... ORDER BY key LIMIT ?\<close> over rows in key order.\<close>

definition page :: "blob \<Rightarrow> nat \<Rightarrow> key_row list \<Rightarrow> key_row list" where
  "page cursor limit rows = take limit (filter (\<lambda>r. cursor < row_key r) rows)"

text \<open>\<^verbatim>\<open>GROUP BY key\<close>: the keys, each once, in order.\<close>

definition group_keys :: "blob list \<Rightarrow> blob list" where
  "group_keys ks = sort (remdups ks)"

text \<open>\<^verbatim>\<open>NOT EXISTS (SELECT 1 FROM reasons AS r WHERE r.doc_id=d.doc_id)\<close>.\<close>

definition reason_free :: "tables \<Rightarrow> cur_doc \<Rightarrow> bool" where
  "reason_free T d = list_all (\<lambda>(i, r). i \<noteq> d_id d) (t_reasons T)"

text \<open>A statement executed for each row of a batch; a primary key admits a key once.\<close>

definition executemany :: "(tables \<Rightarrow> key_row \<Rightarrow> tables res) \<Rightarrow> key_row list \<Rightarrow> tables \<Rightarrow> tables res" where
  "executemany statement rows T = foldM statement T rows"

definition insert_unique :: "('a \<Rightarrow> blob) \<Rightarrow> 'a \<Rightarrow> 'a list \<Rightarrow> 'a list res" where
  "insert_unique key row rows =
     (if key row \<in> set (map key rows) then Inl (IntegrityError ''UNIQUE constraint failed'')
      else Inr (rows @ [row]))"

definition insert_reason :: "tables \<Rightarrow> key_row \<Rightarrow> tables res" where
  "insert_reason T row = (case row of
       KeyText i reason \<Rightarrow>
         if i \<notin> set (map d_id (t_documents T))
         then Inl (IntegrityError ''FOREIGN KEY constraint failed'')
         else Inr (T\<lparr>t_reasons := List.insert (i, reason) (t_reasons T)\<rparr>)
     | _ \<Rightarrow> Inl (TypeError ''Incorrect number of bindings supplied''))"

section \<open>Keyset subphases\<close>

text \<open>
  One resumable subphase: its name, its initial details, the rows of its query in key order (a
  \<open>page\<close> of which is read after the cursor), and the statement its rows are written with. \<open>ks_monotonic\<close> says whether the loop compares the key of
  the last row with the cursor.
\<close>

record keyset =
  ks_name :: string
  ks_details :: json
  ks_error :: string
  ks_monotonic :: bool
  ks_query :: "tables \<Rightarrow> key_row list"
  ks_write :: "tables \<Rightarrow> key_row \<Rightarrow> tables res"

definition key_of_cursor :: "string \<Rightarrow> cursor \<Rightarrow> blob res" where
  "key_of_cursor error cursor = (case cursor of
       KeyCursor key \<Rightarrow> if key = [] \<or> length key = 32 then Inr key else Inl (CurationError error)
     | _ \<Rightarrow> Inl (CurationError error))"

definition keyset_batch :: "nat \<Rightarrow> keyset \<Rightarrow> key_row list \<Rightarrow> subphase job" where
  "keyset_batch batch_size ks rows = transaction (\<lambda>db.
     rbind (executemany (ks_write ks) rows (db_tables db)) (\<lambda>T.
       commit_bounded_batch batch_size (ks_name ks) (KeyCursor (row_key (last rows))) (length rows) 0 None
         (db\<lparr>db_tables := T\<rparr>)))"

text \<open>The \<^verbatim>\<open>while True\<close> loop; every iteration that finds rows spends one commit.\<close>

function keyset_loop :: "nat \<Rightarrow> keyset \<Rightarrow> subphase \<Rightarrow> subphase job" where
  "keyset_loop batch_size ks sp n db = (case key_of_cursor (ks_error ks) (sp_cursor sp) of
       Inl e \<Rightarrow> (Raised e, n, db)
     | Inr cursor \<Rightarrow>
         let rows = page cursor batch_size (ks_query ks (db_tables db)) in
         if rows = [] then (Returned sp, n, db)
         else if ks_monotonic ks \<and> row_key (last rows) \<le> cursor
         then (Raised (CurationError ''Non-monotonic keyset cursor''), n, db)
         else case keyset_batch batch_size ks rows n db of
           (Returned sp', m, db') \<Rightarrow> keyset_loop batch_size ks sp' m db'
         | (Raised e, m, db') \<Rightarrow> (Raised e, m, db')
         | (Killed, m, db') \<Rightarrow> (Killed, m, db'))"
  by pat_completeness auto
termination
  by (relation "measure (\<lambda>(b, ks, sp, n, db). n)")
    (auto simp: keyset_batch_def dest!: transaction_spends [OF sym])

declare keyset_loop.simps [simp del]

definition run_keyset_write_subphase :: "nat \<Rightarrow> keyset \<Rightarrow> subphase job" where
  "run_keyset_write_subphase batch_size ks =
     jbind (start_subphase (ks_name ks) (KeyCursor []) (ks_details ks)) (\<lambda>sp.
       if sp_complete sp then give sp else keyset_loop batch_size ks sp)"

end
