(* ===== verification/CurateCanon.thy ===== *)
theory CurateCanon
  imports CurateStore "HOL-Library.Sublist"
begin

text \<open>
  Global canonicalization of \<^verbatim>\<open>scripts/curate_corpus.py\<close>: the nine keyset subphases that
  spread benchmark contamination over clusters, choose one canonical document per content and per
  final cluster and reject the others, the validation of the result, and the English near-duplicate
  map that may redefine clusters before.
\<close>

section \<open>Settings\<close>

record curate_config =
  cc_batch_size :: nat
  cc_fast :: bool
  cc_near :: "json list option"
  cc_near_records :: nat
  cc_near_sha :: string
  cc_allow_missing_near :: bool
  cc_seed :: string
  cc_quotas :: "((string \<times> string) \<times> int) list"
  cc_handoff :: bool

definition english_buckets :: "string list" where
  "english_buckets = [''fineweb_edu'', ''wikipedia'']"

definition code_buckets :: "string list" where
  "code_buckets = [''python'', ''other_code'']"

text \<open>\<^verbatim>\<open>stable_digest\<close>: a SHA-256 under a namespace.\<close>

definition stable_digest :: "string \<Rightarrow> byte list \<Rightarrow> blob" where
  "stable_digest namespace raw = sha256_digest (utf8 namespace @ [0] @ raw)"

definition hex_digit :: "char \<Rightarrow> nat" where
  "hex_digit c = (if CHR ''a'' \<le> c then of_char c - 87 else of_char c - 48)"

fun bytes_fromhex :: "string \<Rightarrow> blob" where
  "bytes_fromhex (a # b # s) = of_nat (16 * hex_digit a + hex_digit b) # bytes_fromhex s"
| "bytes_fromhex _ = []"

definition parse_hex_digest :: "json \<Rightarrow> blob res" where
  "parse_hex_digest v = (case v of
       JStr s \<Rightarrow> if length s \<noteq> 64 \<or> \<not> set s \<subseteq> set lower_hex
         then Inl (CurationError ''must be a lowercase SHA-256'') else Inr (bytes_fromhex s)
     | _ \<Rightarrow> Inl (CurationError ''must be a lowercase SHA-256''))"

section \<open>Lookups\<close>

definition docs_by_id :: "tables \<Rightarrow> cur_doc list" where
  "docs_by_id T = sort_key d_id (t_documents T)"

definition find_doc :: "tables \<Rightarrow> blob \<Rightarrow> cur_doc option" where
  "find_doc T i = List.find (\<lambda>d. d_id d = i) (t_documents T)"

text \<open>\<^verbatim>\<open>substr(rank, 9, 32)\<close>: the document a canonical rank ends in.\<close>

definition rank_document :: "blob \<Rightarrow> blob" where
  "rank_document rank = take 32 (drop 8 rank)"

definition least_rank :: "cur_doc list \<Rightarrow> blob" where
  "least_rank ds = Min (set (map d_rank ds))"

text \<open>
  The join with \<^verbatim>\<open>exact_choice\<close> on content and canonical document, and the canonical document
  a document reaches through the canonical document of its content.
\<close>

definition exact_canonical :: "tables \<Rightarrow> cur_doc \<Rightarrow> bool" where
  "exact_canonical T d = (case map_of (t_exact_choice T) (d_content d) of
       None \<Rightarrow> False | Some (_, e) \<Rightarrow> e = d_id d)"

definition final_via :: "tables \<Rightarrow> cur_doc \<Rightarrow> blob option" where
  "final_via T d = (case map_of (t_exact_choice T) (d_content d) of
       None \<Rightarrow> None
     | Some (_, e) \<Rightarrow> (case find_doc T e of
         None \<Rightarrow> None
       | Some x \<Rightarrow> map_option snd (map_of (t_final_choice T) (d_cluster x))))"

section \<open>The queries\<close>

text \<open>
  One definition per query, its rows in key order; a join on a primary key is a lookup.
\<close>

definition doc_rows :: "(cur_doc \<Rightarrow> bool) \<Rightarrow> (cur_doc \<Rightarrow> key_row) \<Rightarrow> tables \<Rightarrow> key_row list" where
  "doc_rows P f T = map f (filter P (docs_by_id T))"

definition benchmark_hits :: "tables \<Rightarrow> cur_doc list" where
  "benchmark_hits T = [d. (i, reason) \<leftarrow> t_reasons T, prefix ''benchmark:'' reason,
     d \<leftarrow> t_documents T, d_id d = i]"

definition benchmark_content_rows :: "tables \<Rightarrow> key_row list" where
  "benchmark_content_rows T = map Key (group_keys (map d_content (benchmark_hits T)))"

definition benchmark_final_rows :: "tables \<Rightarrow> key_row list" where
  "benchmark_final_rows T = map Key (group_keys (map d_cluster (benchmark_hits T)))"

definition contamination :: string where
  "contamination = ''benchmark_cluster_contamination''"

definition content_contaminated_rows :: "tables \<Rightarrow> key_row list" where
  "content_contaminated_rows T =
     doc_rows (\<lambda>d. d_content d \<in> set (t_benchmark_content T)) (\<lambda>d. KeyText (d_id d) contamination) T"

definition final_contaminated_rows :: "tables \<Rightarrow> key_row list" where
  "final_contaminated_rows T =
     doc_rows (\<lambda>d. d_cluster d \<in> set (t_benchmark_final T)) (\<lambda>d. KeyText (d_id d) contamination) T"

definition choice_rows :: "(cur_doc \<Rightarrow> blob) \<Rightarrow> cur_doc list \<Rightarrow> key_row list" where
  "choice_rows key ds = map (\<lambda>k. let rank = least_rank (filter (\<lambda>d. key d = k) ds) in
     KeyRank k rank (rank_document rank)) (group_keys (map key ds))"

definition exact_choice_rows :: "tables \<Rightarrow> key_row list" where
  "exact_choice_rows T = choice_rows d_content (filter (reason_free T) (t_documents T))"

definition final_choice_rows :: "tables \<Rightarrow> key_row list" where
  "final_choice_rows T =
     choice_rows d_cluster (filter (\<lambda>d. exact_canonical T d \<and> reason_free T d) (t_documents T))"

definition canonical_map_rows :: "tables \<Rightarrow> key_row list" where
  "canonical_map_rows T = doc_rows (\<lambda>d. final_via T d \<noteq> None \<and> reason_free T d)
     (\<lambda>d. KeyBlob (d_id d) (the (final_via T d))) T"

definition residual_exact_rows :: "tables \<Rightarrow> key_row list" where
  "residual_exact_rows T = doc_rows
     (\<lambda>d. map_of (t_exact_choice T) (d_content d) \<noteq> None \<and> \<not> exact_canonical T d \<and>
        d_id d \<in> set (map fst (t_canonical_map T)))
     (\<lambda>d. KeyText (d_id d) ''residual_exact_duplicate'') T"

definition english_duplicate_reason :: "bool \<Rightarrow> string" where
  "english_duplicate_reason fast =
     (if fast then ''english_normalized_duplicate'' else ''english_near_duplicate'')"

definition residual_reason :: "bool \<Rightarrow> cur_doc \<Rightarrow> string" where
  "residual_reason fast d = (if d_bucket d \<in> set code_buckets then ''residual_normalized_duplicate''
     else english_duplicate_reason fast)"

definition residual_final_rows :: "bool \<Rightarrow> tables \<Rightarrow> key_row list" where
  "residual_final_rows fast T = doc_rows
     (\<lambda>d. exact_canonical T d \<and> (case map_of (t_final_choice T) (d_cluster d) of
        None \<Rightarrow> False | Some (_, f) \<Rightarrow> d_id d \<noteq> f))
     (\<lambda>d. KeyText (d_id d) (residual_reason fast d)) T"

section \<open>The statements\<close>

definition arity_error :: exn where
  "arity_error = TypeError ''Incorrect number of bindings supplied''"

definition insert_benchmark_content :: "tables \<Rightarrow> key_row \<Rightarrow> tables res" where
  "insert_benchmark_content T row = (case row of
       Key k \<Rightarrow> rbind (insert_unique id k (t_benchmark_content T)) (\<lambda>rows. Inr (T\<lparr>t_benchmark_content := rows\<rparr>))
     | _ \<Rightarrow> Inl arity_error)"

definition insert_benchmark_final :: "tables \<Rightarrow> key_row \<Rightarrow> tables res" where
  "insert_benchmark_final T row = (case row of
       Key k \<Rightarrow> rbind (insert_unique id k (t_benchmark_final T)) (\<lambda>rows. Inr (T\<lparr>t_benchmark_final := rows\<rparr>))
     | _ \<Rightarrow> Inl arity_error)"

definition insert_exact_choice :: "tables \<Rightarrow> key_row \<Rightarrow> tables res" where
  "insert_exact_choice T row = (case row of
       KeyRank k rank i \<Rightarrow> rbind (insert_unique fst (k, rank, i) (t_exact_choice T))
         (\<lambda>rows. Inr (T\<lparr>t_exact_choice := rows\<rparr>))
     | _ \<Rightarrow> Inl arity_error)"

definition insert_final_choice :: "tables \<Rightarrow> key_row \<Rightarrow> tables res" where
  "insert_final_choice T row = (case row of
       KeyRank k rank i \<Rightarrow> rbind (insert_unique fst (k, rank, i) (t_final_choice T))
         (\<lambda>rows. Inr (T\<lparr>t_final_choice := rows\<rparr>))
     | _ \<Rightarrow> Inl arity_error)"

definition insert_canonical_map :: "tables \<Rightarrow> key_row \<Rightarrow> tables res" where
  "insert_canonical_map T row = (case row of
       KeyBlob i c \<Rightarrow> rbind (insert_unique fst (i, c) (t_canonical_map T))
         (\<lambda>rows. Inr (T\<lparr>t_canonical_map := rows\<rparr>))
     | _ \<Rightarrow> Inl arity_error)"

section \<open>The nine subphases\<close>

definition canonical_keyset ::
    "nat \<Rightarrow> string \<Rightarrow> (tables \<Rightarrow> key_row list) \<Rightarrow> (tables \<Rightarrow> key_row \<Rightarrow> tables res) \<Rightarrow> keyset" where
  "canonical_keyset batch_size name query write =
     \<lparr>ks_name = ''canonicalize.'' @ name, ks_details = JObj [(''batch_size'', JInt (int batch_size))],
      ks_error = ''Invalid keyset cursor'', ks_monotonic = True, ks_query = query, ks_write = write\<rparr>"

definition canonical_phases :: "nat \<Rightarrow> bool \<Rightarrow> keyset list" where
  "canonical_phases batch_size fast =
     [canonical_keyset batch_size ''benchmark_content_clusters'' benchmark_content_rows insert_benchmark_content,
      canonical_keyset batch_size ''benchmark_final_clusters'' benchmark_final_rows insert_benchmark_final,
      canonical_keyset batch_size ''benchmark_exact'' content_contaminated_rows insert_reason,
      canonical_keyset batch_size ''benchmark_final'' final_contaminated_rows insert_reason,
      canonical_keyset batch_size ''exact_choice'' exact_choice_rows insert_exact_choice,
      canonical_keyset batch_size ''final_choice'' final_choice_rows insert_final_choice,
      canonical_keyset batch_size ''canonical_map'' canonical_map_rows insert_canonical_map,
      canonical_keyset batch_size ''residual_exact'' residual_exact_rows insert_reason,
      canonical_keyset batch_size ''residual_final'' (residual_final_rows fast) insert_reason]"

definition run_phase :: "nat \<Rightarrow> keyset \<Rightarrow> unit job" where
  "run_phase batch_size ks = jbind (run_keyset_write_subphase batch_size ks) (\<lambda>sp.
     if sp_complete sp then give ()
     else jbind (complete_subphase batch_size (ks_name ks)
       (JObj [(''processed_rows'', JInt (int (sp_rows sp))),
              (''committed_batches'', JInt (int (sp_batches sp)))])) (\<lambda>_. give ()))"

fun run_phases :: "nat \<Rightarrow> keyset list \<Rightarrow> unit job" where
  "run_phases batch_size [] = give ()"
| "run_phases batch_size (ks # phases) =
     jbind (run_phase batch_size ks) (\<lambda>_. run_phases batch_size phases)"

section \<open>Validation of the result\<close>

text \<open>\<^verbatim>\<open>SELECT COUNT(*) FROM ... WHERE ...\<close>.\<close>

definition select_count :: "('a \<Rightarrow> bool) \<Rightarrow> 'a list \<Rightarrow> nat" where
  "select_count P rows = length (filter P rows)"

definition residual_reasons :: "bool \<Rightarrow> string list" where
  "residual_reasons fast =
     [''residual_exact_duplicate'', ''residual_normalized_duplicate'', english_duplicate_reason fast]"

definition eligible_row :: "bool \<Rightarrow> tables \<Rightarrow> cur_doc \<Rightarrow> bool" where
  "eligible_row fast T d =
     list_all (\<lambda>(i, r). i = d_id d \<longrightarrow> r \<in> set (residual_reasons fast)) (t_reasons T)"

definition has_reason :: "tables \<Rightarrow> cur_doc \<Rightarrow> string \<Rightarrow> bool" where
  "has_reason T d r = ((d_id d, r) \<in> set (t_reasons T))"

text \<open>A choice that is not the least rank of the documents it chooses among.\<close>

definition wrong_choice :: "(cur_doc \<Rightarrow> blob) \<Rightarrow> cur_doc list \<Rightarrow> blob \<times> blob \<times> blob \<Rightarrow> bool" where
  "wrong_choice key ds choice = (case choice of (k, rank, i) \<Rightarrow>
     let same = filter (\<lambda>d. key d = k) ds in
     same = [] \<or> rank \<noteq> least_rank same \<or> i \<noteq> rank_document (least_rank same))"

definition wrong_map :: "tables \<Rightarrow> cur_doc \<Rightarrow> bool" where
  "wrong_map T d = (case map_of (t_canonical_map T) (d_id d) of
       None \<Rightarrow> True
     | Some c \<Rightarrow> (case final_via T d of None \<Rightarrow> False | Some f \<Rightarrow> c \<noteq> f))"

text \<open>
  An eligible document with a canonical map entry and both choices, whose residual reasons are not
  the ones its position asks for.
\<close>

definition wrong_residual :: "bool \<Rightarrow> tables \<Rightarrow> cur_doc \<Rightarrow> bool" where
  "wrong_residual fast T d = (case (map_of (t_canonical_map T) (d_id d), final_via T d) of
       (Some c, Some f) \<Rightarrow>
         let n = select_count (\<lambda>(i, r). i = d_id d \<and> r \<in> set (residual_reasons fast)) (t_reasons T);
             exact = exact_canonical T d in
         n \<noteq> (if \<not> exact then 1 else if d_id d \<noteq> f then 1 else 0) \<or>
         (\<not> exact \<and> \<not> has_reason T d ''residual_exact_duplicate'') \<or>
         (exact \<and> d_id d \<noteq> f \<and> \<not> has_reason T d (residual_reason fast d))
     | _ \<Rightarrow> False)"

record accounting =
  ac_eligible :: nat
  ac_exact :: nat
  ac_final :: nat
  ac_map :: nat
  ac_accepted :: nat

definition in_benchmark_cluster :: "tables \<Rightarrow> cur_doc \<Rightarrow> bool" where
  "in_benchmark_cluster T d = (d_content d \<in> set (t_benchmark_content T) \<or>
     d_cluster d \<in> set (t_benchmark_final T))"

definition validate_canonicalization :: "bool \<Rightarrow> tables \<Rightarrow> accounting res" where
  "validate_canonicalization fast T =
     (let docs = t_documents T;
          eligible_docs = filter (eligible_row fast T) docs;
          eligible = length eligible_docs;
          exact_expected = length (remdups (map d_content eligible_docs));
          exact_actual = length (t_exact_choice T);
          final_actual = length (t_final_choice T);
          canonical_rows = length (t_canonical_map T);
          exact_docs = filter (exact_canonical T) docs;
          final_expected = length (remdups (map d_cluster exact_docs));
          invalid_choice = select_count (wrong_choice d_content eligible_docs) (t_exact_choice T);
          invalid_final_choice = select_count (wrong_choice d_cluster exact_docs) (t_final_choice T);
          invalid_map = select_count (wrong_map T) eligible_docs;
          invalid_residual = select_count (wrong_residual fast T) eligible_docs;
          benchmark_missing = select_count
            (\<lambda>d. in_benchmark_cluster T d \<and> \<not> has_reason T d contamination) docs;
          benchmark_extra = length [d. (i, r) \<leftarrow> t_reasons T, r = contamination, d \<leftarrow> docs, d_id d = i,
            \<not> in_benchmark_cluster T d];
          accepted = select_count (reason_free T) docs in
      if exact_actual \<noteq> exact_expected \<or> final_actual \<noteq> final_expected \<or> canonical_rows \<noteq> eligible \<or>
         accepted \<noteq> final_actual \<or> invalid_choice \<noteq> 0 \<or> invalid_final_choice \<noteq> 0 \<or> invalid_map \<noteq> 0 \<or>
         invalid_residual \<noteq> 0 \<or> benchmark_missing \<noteq> 0 \<or> benchmark_extra \<noteq> 0
      then Inl (CurationError ''Canonicalization coverage/accounting validation failed'')
      else Inr \<lparr>ac_eligible = eligible, ac_exact = exact_actual, ac_final = final_actual,
        ac_map = canonical_rows, ac_accepted = accepted\<rparr>)"

section \<open>The English near-duplicate map\<close>

text \<open>
  Rows of an input stream, skipped up to the committed row, parsed, and written a batch at a time.
\<close>

fun stream_loop ::
    "nat \<Rightarrow> (nat \<Rightarrow> json \<Rightarrow> 'x res) \<Rightarrow> ('x list \<Rightarrow> nat \<Rightarrow> unit job) \<Rightarrow> nat \<Rightarrow> nat \<Rightarrow> 'x list \<Rightarrow> json list \<Rightarrow> unit job" where
  "stream_loop batch_size parse flush skip i batch [] =
     (if batch = [] then give () else flush batch i)"
| "stream_loop batch_size parse flush skip i batch (row # rows) =
     (if i < skip then stream_loop batch_size parse flush skip (i + 1) batch rows
      else jbind (check (\<lambda>_. parse i row)) (\<lambda>x.
        let batch' = batch @ [x] in
        if batch_size \<le> length batch'
        then jbind (flush batch' (i + 1)) (\<lambda>_. stream_loop batch_size parse flush skip (i + 1) [] rows)
        else stream_loop batch_size parse flush skip (i + 1) batch' rows))"

definition near_load_name :: string where "near_load_name = ''canonicalize.near_map_load''"
definition near_apply_name :: string where "near_apply_name = ''canonicalize.near_map_apply''"

definition parse_near_row :: "nat \<Rightarrow> json \<Rightarrow> (blob \<times> blob) res" where
  "parse_near_row i row = rbind (parse_hex_digest (jget row ''doc_id'')) (\<lambda>doc_id.
     case jget row ''cluster_id'' of
       JStr cluster \<Rightarrow> if cluster = [] then Inl (CurationError ''near-map cluster_id must be a non-empty string'')
         else Inr (doc_id, stable_digest ''english-near-cluster'' (utf8 cluster))
     | _ \<Rightarrow> Inl (CurationError ''near-map cluster_id must be a non-empty string''))"

definition flush_mapping :: "nat \<Rightarrow> (blob \<times> blob) list \<Rightarrow> nat \<Rightarrow> unit job" where
  "flush_mapping batch_size batch input_rows = jbind (transaction (\<lambda>db.
     rbind (foldM (\<lambda>rows row. insert_unique fst row rows) (t_near_map (db_tables db)) batch) (\<lambda>rows.
       commit_bounded_batch batch_size near_load_name (RowCursor input_rows) (length batch) 0 None
         (db\<lparr>db_tables := (db_tables db)\<lparr>t_near_map := rows\<rparr>\<rparr>)))) (\<lambda>_. give ())"

definition is_english :: "cur_doc \<Rightarrow> bool" where
  "is_english d = (d_bucket d \<in> set english_buckets)"

definition near_apply_rows :: "tables \<Rightarrow> key_row list" where
  "near_apply_rows T = doc_rows (\<lambda>d. is_english d \<and> map_of (t_near_map T) (d_id d) \<noteq> None)
     (\<lambda>d. KeyBlob (d_id d) (the (map_of (t_near_map T) (d_id d)))) T"

definition update_final_cluster :: "tables \<Rightarrow> key_row \<Rightarrow> tables res" where
  "update_final_cluster T row = (case row of
       KeyBlob i c \<Rightarrow> Inr (T\<lparr>t_documents :=
         map (\<lambda>d. if d_id d = i then d\<lparr>d_cluster := c\<rparr> else d) (t_documents T)\<rparr>)
     | _ \<Rightarrow> Inl arity_error)"

definition near_apply :: "nat \<Rightarrow> keyset" where
  "near_apply english_documents =
     \<lparr>ks_name = near_apply_name, ks_details = JObj [(''expected_rows'', JInt (int english_documents))],
      ks_error = ''Invalid English near-map apply cursor'', ks_monotonic = False,
      ks_query = near_apply_rows, ks_write = update_final_cluster\<rparr>"

definition near_mismatched :: "tables \<Rightarrow> nat" where
  "near_mismatched T = select_count (\<lambda>d. is_english d \<and>
     (case map_of (t_near_map T) (d_id d) of None \<Rightarrow> True | Some c \<Rightarrow> d_cluster d \<noteq> c)) (t_documents T)"

definition check_near_map :: "curate_config \<Rightarrow> nat \<Rightarrow> tables \<Rightarrow> nat res" where
  "check_near_map c english_documents T =
     (let mapped = length (t_near_map T);
          unknown = select_count (\<lambda>(i, _). case find_doc T i of None \<Rightarrow> True | Some d \<Rightarrow> \<not> is_english d)
            (t_near_map T);
          coverage = select_count (\<lambda>d. is_english d \<and> d_id d \<in> set (map fst (t_near_map T)))
            (t_documents T) in
      if unknown \<noteq> 0 \<or> mapped \<noteq> cc_near_records c \<or> coverage \<noteq> english_documents
      then Inl (CurationError ''English near-map coverage/accounting failed'') else Inr mapped)"

definition load_near_map :: "curate_config \<Rightarrow> nat \<Rightarrow> json list \<Rightarrow> unit job" where
  "load_near_map c english_documents mapping =
     jbind (start_subphase near_load_name (RowCursor 0)
       (JObj [(''mapping_sha256'', JStr (cc_near_sha c)), (''expected_rows'', JInt (int (cc_near_records c)))])) (\<lambda>sp.
     case sp_cursor sp of
       RowCursor input_rows \<Rightarrow>
         if input_rows \<noteq> sp_rows sp then throw (CurationError ''English near-map cursor/counter mismatch'')
         else if sp_complete sp
         then check (\<lambda>db. if length (t_near_map (db_tables db)) \<noteq> cc_near_records c
           then Inl (CurationError ''Completed English near-map table changed'') else Inr ())
         else jbind (stream_loop (cc_batch_size c) parse_near_row (flush_mapping (cc_batch_size c))
             (sp_rows sp) 0 [] mapping) (\<lambda>_.
           if length mapping \<noteq> cc_near_records c
           then throw (CurationError ''English near-map has the wrong number of rows'')
           else jbind (check (\<lambda>db. check_near_map c english_documents (db_tables db))) (\<lambda>mapped.
             jbind (complete_subphase (cc_batch_size c) near_load_name
               (JObj [(''mapping_sha256'', JStr (cc_near_sha c)),
                      (''expected_rows'', JInt (int (cc_near_records c))),
                      (''mapped_rows'', JInt (int mapped)), (''unknown_rows'', JInt 0)]))
               (\<lambda>_. give ())))
     | _ \<Rightarrow> throw (CurationError ''Invalid English near-map input cursor''))"

definition apply_near_map :: "curate_config \<Rightarrow> nat \<Rightarrow> unit job" where
  "apply_near_map c english_documents =
     jbind (run_keyset_write_subphase (cc_batch_size c) (near_apply english_documents)) (\<lambda>sp.
     jbind (fetch (\<lambda>db. near_mismatched (db_tables db))) (\<lambda>mismatched.
       if sp_complete sp
       then if mismatched \<noteq> 0 then throw (CurationError ''Completed English near-map application changed'')
         else give ()
       else if mismatched \<noteq> 0 \<or> sp_rows sp \<noteq> english_documents
       then throw (CurationError ''English near-map application is incomplete'')
       else jbind (complete_subphase (cc_batch_size c) near_apply_name
         (JObj [(''expected_rows'', JInt (int english_documents)), (''mismatched_rows'', JInt 0)]))
         (\<lambda>_. give ())))"

definition near_clusters :: "curate_config \<Rightarrow> nat \<Rightarrow> bool job" where
  "near_clusters c english_documents =
    (if cc_fast c
     then if cc_near c \<noteq> None
       then throw (CurationError ''Fast canonical profile unexpectedly acquired a near artifact'')
       else give False
     else if english_documents = 0 then give True
     else case cc_near c of
       None \<Rightarrow> if \<not> cc_allow_missing_near c
         then throw (CurationError ''English documents require a complete cross-source near-cluster mapping'')
         else give False
     | Some mapping \<Rightarrow>
         if cc_near_records c \<noteq> english_documents
         then throw (CurationError ''English near-map manifest/document inventory count mismatch'')
         else jbind (load_near_map c english_documents mapping) (\<lambda>_.
              jbind (apply_near_map c english_documents) (\<lambda>_. give True)))"

definition load_near_clusters :: "curate_config \<Rightarrow> bool job" where
  "load_near_clusters c =
     jbind (fetch (\<lambda>db. select_count is_english (t_documents (db_tables db)))) (near_clusters c)"

section \<open>Canonicalization\<close>

definition accounting_json :: "accounting \<Rightarrow> bool \<Rightarrow> json" where
  "accounting_json a near = JObj
     [(''eligible_documents'', JInt (int (ac_eligible a))), (''exact_choices'', JInt (int (ac_exact a))),
      (''final_choices'', JInt (int (ac_final a))), (''canonical_map_rows'', JInt (int (ac_map a))),
      (''accepted_canonical_documents'', JInt (int (ac_accepted a))), (''english_near_complete'', JBool near)]"

text \<open>The last transaction of a phase: its name and its event.\<close>

definition advance_phase :: "nat \<Rightarrow> string \<Rightarrow> string \<Rightarrow> string \<Rightarrow> json \<Rightarrow> unit job" where
  "advance_phase batch_size expected new error payload = transaction (\<lambda>db.
     rbind (record_transaction batch_size 0) (\<lambda>_.
     if db_phase db \<noteq> expected then Inl (CurationError error)
     else Inr ((), db\<lparr>db_phase := new, db_events := db_events db @ [(new, payload)]\<rparr>)))"

definition canonicalize :: "curate_config \<Rightarrow> unit job" where
  "canonicalize c = jbind (fetch db_phase) (\<lambda>phase.
     if phase \<noteq> ''inventory_complete'' then give ()
     else jbind (load_near_clusters c) (\<lambda>near_complete.
          jbind (run_phases (cc_batch_size c) (canonical_phases (cc_batch_size c) (cc_fast c))) (\<lambda>_.
          jbind (check (\<lambda>db. validate_canonicalization (cc_fast c) (db_tables db))) (\<lambda>accounting.
          advance_phase (cc_batch_size c) ''inventory_complete'' ''canonicalized''
            ''Canonicalization phase authority changed'' (accounting_json accounting near_complete)))))"

end
