(* ===== verification/CurateRun.thy ===== *)
theory CurateRun
  imports CurateCanon
begin

text \<open>
  Reasoning about jobs that may be killed: triples with a budget, a postcondition and an invariant
  of the durable states in between; the keyset loop as an interface of its query and its
  statement; and a chain of keyset subphases.
\<close>

section \<open>Triples\<close>

text \<open>
  From any database with \<open>P\<close>, the job returns with \<open>Q\<close>, raises with \<open>E\<close>, or is killed in a state with
  \<open>I\<close>; it spends at most \<open>cost\<close> commits, so it is not killed when its budget is that large.
\<close>

definition runs :: "(cur_db \<Rightarrow> bool) \<Rightarrow> 'a job \<Rightarrow> nat \<Rightarrow> ('a \<Rightarrow> cur_db \<Rightarrow> bool) \<Rightarrow> (cur_db \<Rightarrow> bool) \<Rightarrow>
    (exn \<Rightarrow> cur_db \<Rightarrow> bool) \<Rightarrow> bool" where
  "runs P job cost Q I E \<longleftrightarrow> (\<forall>n db. P db \<longrightarrow> (case job n db of
       (Returned x, m, db') \<Rightarrow> Q x db' \<and> n \<le> m + cost
     | (Raised e, m, db') \<Rightarrow> E e db'
     | (Killed, m, db') \<Rightarrow> I db' \<and> n < cost))"

lemma runs_give: "(\<And>db. P db \<Longrightarrow> Q x db) \<Longrightarrow> runs P (give x) 0 Q I E"
  by (simp add: runs_def give_def)

lemma runs_throw: "(\<And>db. P db \<Longrightarrow> E e db) \<Longrightarrow> runs P (throw e) 0 Q I E"
  by (simp add: runs_def throw_def)

lemma runs_fetch: "(\<And>db. P db \<Longrightarrow> Q (f db) db) \<Longrightarrow> runs P (fetch f) 0 Q I E"
  by (simp add: runs_def fetch_def)

lemma runs_check:
  "(\<And>db x. P db \<Longrightarrow> f db = Inr x \<Longrightarrow> Q x db) \<Longrightarrow> (\<And>db e. P db \<Longrightarrow> f db = Inl e \<Longrightarrow> E e db) \<Longrightarrow>
   runs P (check f) 0 Q I E"
  by (simp add: runs_def check_def split: sum.split)

lemma runs_transaction:
  "(\<And>db x db'. P db \<Longrightarrow> body db = Inr (x, db') \<Longrightarrow> Q x db') \<Longrightarrow> (\<And>db. P db \<Longrightarrow> I db) \<Longrightarrow>
   (\<And>db e. P db \<Longrightarrow> body db = Inl e \<Longrightarrow> E e db) \<Longrightarrow> runs P (transaction body) 1 Q I E"
  by (auto simp: runs_def transaction_def split: sum.split nat.split)

lemma runs_bind:
  assumes j: "runs P job c Q I E" and f: "\<And>x. runs (Q x) (f x) d R I E"
  shows "runs P (jbind job f) (c + d) R I E"
  unfolding runs_def
proof (intro allI impI)
  fix n db assume P: "P db"
  obtain r m db' where r: "job n db = (r, m, db')" by (cases "job n db")
  note jr = j [unfolded runs_def, rule_format, OF P, of n, unfolded r]
  show "case jbind job f n db of (Returned x, m, db') \<Rightarrow> R x db' \<and> n \<le> m + (c + d)
      | (Raised e, m, db') \<Rightarrow> E e db' | (Killed, m, db') \<Rightarrow> I db' \<and> n < c + d"
  proof (cases r)
    case (Returned x)
    with jr have Q: "Q x db'" "n \<le> m + c" by auto
    obtain s k db'' where s: "f x m db' = (s, k, db'')" by (cases "f x m db'")
    note fr = f [unfolded runs_def, rule_format, OF Q(1), of m, unfolded s]
    show ?thesis using fr Q(2) by (cases s) (auto simp: jbind_def r Returned s)
  qed (use jr in \<open>auto simp: jbind_def r\<close>)
qed

lemma runs_conseq:
  assumes "runs P job c Q I E" and "\<And>db. P' db \<Longrightarrow> P db" and "c \<le> c'"
    and "\<And>x db. Q x db \<Longrightarrow> Q' x db" and "\<And>db. I db \<Longrightarrow> I' db" and "\<And>e db. E e db \<Longrightarrow> E' e db"
  shows "runs P' job c' Q' I' E'"
  unfolding runs_def
proof (intro allI impI)
  fix n db assume P: "P' db"
  obtain r m db' where r: "job n db = (r, m, db')" by (cases "job n db")
  note jr = assms(1) [unfolded runs_def, rule_format, OF assms(2) [OF P], of n, unfolded r]
  show "case job n db of (Returned x, m, db') \<Rightarrow> Q' x db' \<and> n \<le> m + c'
      | (Raised e, m, db') \<Rightarrow> E' e db' | (Killed, m, db') \<Rightarrow> I' db' \<and> n < c'"
    using jr assms(3-6) by (cases r) (auto simp: r)
qed

text \<open>A triple may be proved for each database with the precondition.\<close>

lemma runs_pointwise: "(\<And>db. P db \<Longrightarrow> runs (\<lambda>d. d = db) job c Q I E) \<Longrightarrow> runs P job c Q I E"
  by (simp add: runs_def)

lemma runs_cases:
  "runs P job c Q I E \<Longrightarrow> runs P' job c Q I E \<Longrightarrow> runs (\<lambda>db. P db \<or> P' db) job c Q I E"
  by (auto simp: runs_def)

lemma runs_pure: "(b \<Longrightarrow> runs P job c Q I E) \<Longrightarrow> runs (\<lambda>db. b \<and> P db) job c Q I E"
  by (auto simp: runs_def)

lemma runs_exI: "(\<And>x. runs (P x) job c Q I E) \<Longrightarrow> runs (\<lambda>db. \<exists>x. P x db) job c Q I E"
  by (rule runs_pointwise) (auto intro: runs_conseq)

lemma runs_result:
  assumes "runs P job c Q I E" and "P db"
  obtains x m db' where "job n db = (Returned x, m, db')" and "Q x db'" and "n \<le> m + c"
  | e m db' where "job n db = (Raised e, m, db')" and "E e db'"
  | m db' where "job n db = (Killed, m, db')" and "I db'" and "n < c"
proof -
  obtain r m db' where r: "job n db = (r, m, db')" by (cases "job n db")
  note jr = assms(1) [unfolded runs_def, rule_format, OF assms(2), of n, unfolded r]
  then show thesis using that r by (cases r) auto
qed

section \<open>Processes that are killed\<close>

text \<open>The databases a sequence of killed processes of one job leaves.\<close>

inductive lives :: "'a job \<Rightarrow> cur_db \<Rightarrow> cur_db \<Rightarrow> bool" for job where
  unborn: "lives job db db"
| killed: "lives job db db' \<Longrightarrow> job n db' = (Killed, m, db'') \<Longrightarrow> lives job db db''"

lemma lives_invariant: "lives job db db' \<Longrightarrow> runs I job c Q I E \<Longrightarrow> I db \<Longrightarrow> I db'"
proof (induction rule: lives.induct)
  case (killed db db' n m db'')
  then have "I db'" by simp
  from killed.prems(1) [unfolded runs_def, rule_format, OF this, of n] killed.hyps(2) show ?case by simp
qed

section \<open>Progress rows\<close>

text \<open>All of the database but its tables and the progress of the named subphases.\<close>

definition frame :: "string set \<Rightarrow> cur_db \<Rightarrow> cur_db \<Rightarrow> bool" where
  "frame names db db' \<longleftrightarrow> db_phase db' = db_phase db \<and> db_counts db' = db_counts db \<and>
     db_events db' = db_events db \<and> (\<forall>name. name \<notin> names \<longrightarrow> progress name db' = progress name db)"

lemma frame_refl [simp]: "frame N db db"
  by (simp add: frame_def)

lemma frame_trans: "frame N a b \<Longrightarrow> frame M b c \<Longrightarrow> N \<union> M \<subseteq> K \<Longrightarrow> frame K a c"
  by (simp add: frame_def) (metis UnCI subsetD)

lemma frame_progress: "frame N a b \<Longrightarrow> name \<notin> N \<Longrightarrow> progress name b = progress name a"
  by (simp add: frame_def)

lemma progress_set_progress [simp]:
  "progress name (set_progress name' sp db) = (if name = name' then Some sp else progress name db)"
  by (simp add: progress_def set_progress_def update_conv')

lemma db_set_progress [simp]:
  "db_tables (set_progress name sp db) = db_tables db" "db_phase (set_progress name sp db) = db_phase db"
  "db_counts (set_progress name sp db) = db_counts db" "db_events (set_progress name sp db) = db_events db"
  by (simp_all add: set_progress_def)

lemma progress_tables [simp]: "progress name (db\<lparr>db_tables := T\<rparr>) = progress name db"
  by (simp add: progress_def)

lemma frame_set_progress: "frame {name} db (set_progress name sp (db\<lparr>db_tables := T\<rparr>))"
  by (simp add: frame_def)

section \<open>Pages of rows in key order\<close>

lemma nil_less [simp]: "[] < (k :: blob) \<longleftrightarrow> k \<noteq> []"
  by (cases k) auto

definition cursor_at :: "key_row list \<Rightarrow> nat \<Rightarrow> blob" where
  "cursor_at rows k = (if k = 0 then [] else row_key (rows ! (k - 1)))"

lemma filter_after_sorted:
  assumes "sorted_wrt (<) (map row_key rows)" and "k < length rows"
  shows "filter (\<lambda>r. row_key (rows ! k) < row_key r) rows = drop (Suc k) rows"
proof -
  have s: "\<And>i j. i < j \<Longrightarrow> j < length rows \<Longrightarrow> row_key (rows ! i) < row_key (rows ! j)"
    using assms(1) by (auto simp: sorted_wrt_iff_nth_less)
  have a: "filter (\<lambda>r. row_key (rows ! k) < row_key r) (take (Suc k) rows) = []"
    using assms(2) s by (auto simp: filter_empty_conv in_set_conv_nth)
      (metis linorder_not_less less_Suc_eq less_imp_le_nat nat_less_le order.asym)
  have b: "filter (\<lambda>r. row_key (rows ! k) < row_key r) (drop (Suc k) rows) = drop (Suc k) rows"
    using assms(2) s by (auto simp: filter_id_conv in_set_conv_nth)
  show ?thesis using a b by (metis append_take_drop_id filter_append append_Nil)
qed

lemma page_at:
  assumes "sorted_wrt (<) (map row_key rows)" and "\<forall>r\<in>set rows. length (row_key r) = 32"
    and "k \<le> length rows"
  shows "page (cursor_at rows k) b rows = take b (drop k rows)"
proof (cases k)
  case 0
  have "row_key r \<noteq> []" if "r \<in> set rows" for r using assms(2) that by fastforce
  then have "filter (\<lambda>r. [] < row_key r) rows = rows"
    by (auto simp: filter_id_conv)
  then show ?thesis by (simp add: page_def cursor_at_def 0)
next
  case (Suc j)
  with assms show ?thesis
    by (simp add: page_def cursor_at_def filter_after_sorted)
qed

lemma cursor_at_append:
  assumes "sorted_wrt (<) (map row_key rows)" and "\<forall>r\<in>set rows. length (row_key r) = 32"
    and "k < j" and "j \<le> length rows"
  shows "cursor_at rows k < cursor_at rows j"
proof (cases k)
  case 0
  have "rows ! (j - 1) \<in> set rows" using assms(3,4) by simp
  then have "row_key (rows ! (j - 1)) \<noteq> []" using assms(2) by fastforce
  then show ?thesis using assms(3) by (simp add: cursor_at_def 0)
next
  case (Suc i)
  then show ?thesis using assms by (auto simp: cursor_at_def sorted_wrt_iff_nth_less)
qed

lemma key_of_cursor_at:
  assumes "\<forall>r\<in>set rows. length (row_key r) = 32" and "k \<le> length rows"
  shows "key_of_cursor e (KeyCursor (cursor_at rows k)) = Inr (cursor_at rows k)"
  using assms by (auto simp: key_of_cursor_def cursor_at_def dest!: bspec [OF _ nth_mem])

lemma last_page:
  assumes "k < length rows" and "0 < b"
  shows "row_key (last (take b (drop k rows))) = cursor_at rows (min (length rows) (k + b))"
proof -
  have "take b (drop k rows) \<noteq> []" using assms by simp
  then show ?thesis using assms by (auto simp: last_conv_nth cursor_at_def min_def)
qed

section \<open>The keyset loop\<close>

text \<open>
  Writing all rows of a subphase to the tables \<open>T\<close> gives \<open>T'\<close>, and the query returns the same rows
  whatever part of them has been written.
\<close>

definition writes_to :: "keyset \<Rightarrow> tables \<Rightarrow> key_row list \<Rightarrow> tables \<Rightarrow> bool" where
  "writes_to ks T rows T' \<longleftrightarrow> executemany (ks_write ks) rows T = Inr T' \<and>
     sorted_wrt (<) (map row_key rows) \<and> (\<forall>r\<in>set rows. length (row_key r) = 32) \<and>
     (\<forall>k T1. executemany (ks_write ks) (take k rows) T = Inr T1 \<longrightarrow> ks_query ks T1 = rows)"

definition at_row :: "key_row list \<Rightarrow> nat \<Rightarrow> subphase \<Rightarrow> bool" where
  "at_row rows k sp \<longleftrightarrow> \<not> sp_complete sp \<and> sp_cursor sp = KeyCursor (cursor_at rows k) \<and> sp_rows sp = k"

text \<open>The durable states of a running subphase: the first \<open>k\<close> rows are written.\<close>

definition partly :: "keyset \<Rightarrow> tables \<Rightarrow> key_row list \<Rightarrow> cur_db \<Rightarrow> nat \<Rightarrow> cur_db \<Rightarrow> bool" where
  "partly ks T rows db0 k db \<longleftrightarrow> k \<le> length rows \<and>
     executemany (ks_write ks) (take k rows) T = Inr (db_tables db) \<and> frame {ks_name ks} db0 db \<and>
     (\<exists>sp. progress (ks_name ks) db = Some sp \<and> at_row rows k sp)"

lemma executemany_append:
  "executemany w (xs @ ys) T = rbind (executemany w xs T) (executemany w ys)"
  by (cases "foldM w T xs") (simp_all add: executemany_def foldM_append)

lemma batch_commits:
  assumes w: "writes_to ks T rows T'" and p: "partly ks T rows db0 k db" and k: "k < length rows"
    and b: "0 < b" and sp: "progress (ks_name ks) db = Some sp"
  defines "j \<equiv> min (length rows) (k + b)"
  shows "\<exists>sp' db'. partly ks T rows db0 j db' \<and> progress (ks_name ks) db' = Some sp' \<and>
    (\<forall>n. keyset_batch b ks (take b (drop k rows)) n db =
      (case n of 0 \<Rightarrow> (Killed, 0, db) | Suc m \<Rightarrow> (Returned sp', m, db')))"
proof -
  let ?new = "take b (drop k rows)"
  have j: "take j rows = take k rows @ ?new" using k by (simp add: j_def take_add [symmetric] min_def)
  have full: "executemany (ks_write ks) (take j rows @ drop j rows) T = Inr T'"
    using w by (simp add: writes_to_def)
  then obtain T1 where T1: "executemany (ks_write ks) (take j rows) T = Inr T1"
    by (auto simp only: executemany_append rbind_eq_Inr)
  have e: "executemany (ks_write ks) ?new (db_tables db) = Inr T1"
    using T1 p unfolding j by (simp add: executemany_append partly_def)
  have at: "at_row rows k sp" using p sp by (auto simp: partly_def)
  define sp' where "sp' = sp\<lparr>sp_cursor := KeyCursor (cursor_at rows j), sp_rows := k + length ?new,
    sp_tokens := sp_tokens sp + 0, sp_batches := sp_batches sp + 1, sp_details := sp_details sp\<rparr>"
  define db' where "db' = set_progress (ks_name ks) sp' (db\<lparr>db_tables := T1\<rparr>)"
  have body: "rbind (executemany (ks_write ks) ?new (db_tables db)) (\<lambda>T.
      commit_bounded_batch b (ks_name ks) (KeyCursor (row_key (last ?new))) (length ?new) 0 None
        (db\<lparr>db_tables := T\<rparr>)) = Inr (sp', db')"
    using at k b sp by (simp add: e commit_bounded_batch_def record_transaction_def last_page [OF k b, folded j_def]
        at_row_def sp'_def db'_def Let_def)
  have len: "k + length ?new = j" using k by (simp add: j_def)
  have "partly ks T rows db0 j db'"
    using p at T1 len frame_trans [of "{ks_name ks}" db0 db "{ks_name ks}" db' "{ks_name ks}"]
    by (auto simp: partly_def db'_def frame_set_progress at_row_def sp'_def j_def)
  moreover have "progress (ks_name ks) db' = Some sp'" by (simp add: db'_def)
  moreover have "keyset_batch b ks ?new n db =
      (case n of 0 \<Rightarrow> (Killed, 0, db) | Suc m \<Rightarrow> (Returned sp', m, db'))" for n
    by (unfold keyset_batch_def transaction_def body) simp
  ultimately show ?thesis by blast
qed

lemma keyset_loop_runs:
  assumes w: "writes_to ks T rows T'" and b: "0 < b"
  shows "runs (\<lambda>db. progress (ks_name ks) db = Some sp \<and> partly ks T rows db0 k db)
    (keyset_loop b ks sp) (length rows - k)
    (\<lambda>sp' db. progress (ks_name ks) db = Some sp' \<and> partly ks T rows db0 (length rows) db)
    (\<lambda>db. \<exists>k. partly ks T rows db0 k db) E"
proof (induction "length rows - k" arbitrary: k sp rule: less_induct)
  case less
  show ?case unfolding runs_def
  proof (intro allI impI, elim conjE)
    fix n db assume sp: "progress (ks_name ks) db = Some sp" and p: "partly ks T rows db0 k db"
    have q: "ks_query ks (db_tables db) = rows" using w p by (auto simp: writes_to_def partly_def)
    have s: "sorted_wrt (<) (map row_key rows)" "\<forall>r\<in>set rows. length (row_key r) = 32"
      using w by (auto simp: writes_to_def)
    have k: "k \<le> length rows" and at: "at_row rows k sp" using p sp by (auto simp: partly_def)
    have c: "key_of_cursor (ks_error ks) (sp_cursor sp) = Inr (cursor_at rows k)"
      using at k by (simp add: at_row_def key_of_cursor_at [OF s(2)])
    have loop: "keyset_loop b ks sp n db = (let new = take b (drop k rows) in
        if new = [] then (Returned sp, n, db)
        else if ks_monotonic ks \<and> row_key (last new) \<le> cursor_at rows k
        then (Raised (CurationError ''Non-monotonic keyset cursor''), n, db)
        else case keyset_batch b ks new n db of
          (Returned sp', m, db') \<Rightarrow> keyset_loop b ks sp' m db'
        | (Raised e, m, db') \<Rightarrow> (Raised e, m, db') | (Killed, m, db') \<Rightarrow> (Killed, m, db'))"
      by (subst keyset_loop.simps) (simp add: c q page_at [OF s k])
    show "case keyset_loop b ks sp n db of
        (Returned sp', m, db') \<Rightarrow> (progress (ks_name ks) db' = Some sp' \<and> partly ks T rows db0 (length rows) db') \<and>
          n \<le> m + (length rows - k)
      | (Raised e, m, db') \<Rightarrow> E e db'
      | (Killed, m, db') \<Rightarrow> (\<exists>k. partly ks T rows db0 k db') \<and> n < length rows - k"
    proof (cases "k = length rows")
      case True
      with sp p show ?thesis by (simp add: loop)
    next
      case False
      with k have k': "k < length rows" by simp
      let ?j = "min (length rows) (k + b)"
      obtain sp' db' where p': "partly ks T rows db0 ?j db'" and sp': "progress (ks_name ks) db' = Some sp'"
        and batch: "keyset_batch b ks (take b (drop k rows)) n db =
          (case n of 0 \<Rightarrow> (Killed, 0, db) | Suc m \<Rightarrow> (Returned sp', m, db'))"
        using batch_commits [OF w p k' b sp] by blast
      have kj: "k < ?j" using k' b by simp
      have mono: "\<not> cursor_at rows ?j \<le> cursor_at rows k"
        using cursor_at_append [OF s kj] by simp
      have ne: "take b (drop k rows) \<noteq> []" using k' b by simp
      have step: "keyset_loop b ks sp n db = (case n of 0 \<Rightarrow> (Killed, 0, db) | Suc m \<Rightarrow> keyset_loop b ks sp' m db')"
        using ne mono by (simp add: loop batch last_page [OF k' b] split: nat.split)
      show ?thesis
      proof (cases n)
        case 0
        then show ?thesis using step p k' by auto
      next
        case (Suc m)
        have "length rows - ?j < length rows - k" using k' kj by linarith
        note ih = less [OF this, of sp', unfolded runs_def, rule_format, OF conjI, OF sp' p', of m]
        have st: "keyset_loop b ks sp n db = keyset_loop b ks sp' m db'" using step by (simp add: Suc)
        show ?thesis unfolding st
          using ih k' kj by (auto simp: Suc split: prod.splits outcome.splits)
      qed
    qed
  qed
qed

text \<open>
  What a query promises to the loop and a statement to the query: the rows come in strict key
  order, keys are digests, a fresh row can be written, and writing it changes neither the query
  nor the freshness of other rows.
\<close>

locale keyset_write =
  fixes query :: "tables \<Rightarrow> key_row list"
    and statement :: "tables \<Rightarrow> key_row \<Rightarrow> tables res"
    and ready :: "tables \<Rightarrow> bool"
    and fresh :: "tables \<Rightarrow> blob \<Rightarrow> bool"
  assumes ordered: "ready T \<Longrightarrow> sorted_wrt (<) (map row_key (query T))"
    and digests: "ready T \<Longrightarrow> r \<in> set (query T) \<Longrightarrow> length (row_key r) = 32"
    and writable: "ready T \<Longrightarrow> r \<in> set (query T) \<Longrightarrow> fresh T (row_key r) \<Longrightarrow>
      \<exists>T'. statement T r = Inr T' \<and> ready T' \<and> query T' = query T \<and>
        (\<forall>k. k \<noteq> row_key r \<longrightarrow> fresh T k \<longrightarrow> fresh T' k)"
begin

lemma writes_rows:
  assumes "ready T" and "set rows \<subseteq> set (query T)" and "distinct (map row_key rows)"
    and "\<forall>r\<in>set rows. fresh T (row_key r)"
  shows "\<exists>T'. executemany statement rows T = Inr T' \<and> ready T' \<and> query T' = query T"
  using assms
proof (induction rows arbitrary: T)
  case Nil
  then show ?case by (simp add: executemany_def)
next
  case (Cons r rows)
  obtain T1 where T1: "statement T r = Inr T1" "ready T1" "query T1 = query T"
    and f: "\<forall>k. k \<noteq> row_key r \<longrightarrow> fresh T k \<longrightarrow> fresh T1 k"
    using writable [of T r] Cons.prems by auto
  have "\<exists>T'. executemany statement rows T1 = Inr T' \<and> ready T' \<and> query T' = query T1"
    using Cons.prems T1 f by (intro Cons.IH) (auto simp: image_iff)
  then show ?case using T1 by (auto simp: executemany_def)
qed

lemma writes_all:
  assumes r: "ready T" and f: "\<forall>r\<in>set (query T). fresh T (row_key r)"
    and ks: "ks_query ks = query" "ks_write ks = statement"
  shows "\<exists>T'. writes_to ks T (query T) T' \<and> ready T'"
proof -
  have d: "distinct (map row_key (query T))"
    using ordered [OF r] by (simp add: strict_sorted_iff)
  have part: "\<exists>T'. executemany statement (take k (query T)) T = Inr T' \<and> ready T' \<and> query T' = query T" for k
    using r f d by (intro writes_rows) (auto simp: take_map [symmetric] dest: in_set_takeD)
  have q: "ks_query ks T1 = query T" if "executemany (ks_write ks) (take k (query T)) T = Inr T1" for k T1
    using part [of k] that ks by auto
  obtain T' where T': "executemany statement (query T) T = Inr T'" "ready T'"
    using part [of "length (query T)"] by auto
  have "writes_to ks T (query T) T'"
    unfolding writes_to_def using T'(1) ks(2) ordered [OF r] digests [OF r] q by blast
  with T'(2) show ?thesis by blast
qed

end

section \<open>One phase\<close>

text \<open>Not finished: not started, or some rows are written. Finished: all are, and marked complete.\<close>

definition phase_open :: "keyset \<Rightarrow> tables \<Rightarrow> key_row list \<Rightarrow> cur_db \<Rightarrow> cur_db \<Rightarrow> bool" where
  "phase_open ks T rows db0 db \<longleftrightarrow>
     (progress (ks_name ks) db = None \<and> db_tables db = T \<and> frame {ks_name ks} db0 db) \<or>
     (\<exists>k. partly ks T rows db0 k db)"

definition phase_closed :: "keyset \<Rightarrow> tables \<Rightarrow> cur_db \<Rightarrow> cur_db \<Rightarrow> bool" where
  "phase_closed ks T' db0 db \<longleftrightarrow> db_tables db = T' \<and> frame {ks_name ks} db0 db \<and>
     (\<exists>sp. progress (ks_name ks) db = Some sp \<and> sp_complete sp)"

lemma phase_open_frame: "phase_open ks T rows db0 db \<Longrightarrow> frame {ks_name ks} db0 db"
  by (auto simp: phase_open_def partly_def)

lemma start_runs:
  "runs (phase_open ks T rows db0) (start_subphase (ks_name ks) (KeyCursor []) d) 1
     (\<lambda>sp db. progress (ks_name ks) db = Some sp \<and> (\<exists>k. partly ks T rows db0 k db))
     (phase_open ks T rows db0) E"
  unfolding runs_def
proof (intro allI impI)
  fix n db assume o: "phase_open ks T rows db0 db"
  show "case start_subphase (ks_name ks) (KeyCursor []) d n db of
      (Returned sp, m, db') \<Rightarrow> (progress (ks_name ks) db' = Some sp \<and> (\<exists>k. partly ks T rows db0 k db')) \<and> n \<le> m + 1
    | (Raised e, m, db') \<Rightarrow> E e db' | (Killed, m, db') \<Rightarrow> phase_open ks T rows db0 db' \<and> n < 1"
  proof (cases "progress (ks_name ks) db")
    case None
    with o have t: "db_tables db = T" and f: "frame {ks_name ks} db0 db"
      by (auto simp: phase_open_def partly_def)
    let ?sp = "new_subphase (KeyCursor []) d"
    have "partly ks T rows db0 0 (set_progress (ks_name ks) ?sp db)"
      using t f by (auto simp: partly_def at_row_def new_subphase_def cursor_at_def executemany_def frame_def)
    then show ?thesis using o None
      by (auto simp: start_subphase_def transaction_def Let_def split: nat.split)
  next
    case (Some sp)
    with o show ?thesis by (auto simp: start_subphase_def phase_open_def)
  qed
qed

lemma complete_runs:
  assumes "writes_to ks T rows T'"
  shows "runs (\<lambda>db. progress (ks_name ks) db = Some sp \<and> partly ks T rows db0 (length rows) db)
    (complete_subphase b (ks_name ks) d) 1 (\<lambda>_. phase_closed ks T' db0) (phase_open ks T rows db0) E"
  unfolding runs_def
proof (intro allI impI, elim conjE)
  fix n db assume sp: "progress (ks_name ks) db = Some sp" and p: "partly ks T rows db0 (length rows) db"
  have nc: "\<not> sp_complete sp" using sp p by (auto simp: partly_def at_row_def)
  let ?sp = "sp\<lparr>sp_complete := True, sp_details := d\<rparr>"
  have "phase_closed ks T' db0 (set_progress (ks_name ks) ?sp db)"
    using p assms by (auto simp: phase_closed_def partly_def writes_to_def frame_def)
  moreover have "phase_open ks T rows db0 db" using p by (auto simp: phase_open_def)
  ultimately show "case complete_subphase b (ks_name ks) d n db of
      (Returned sp, m, db') \<Rightarrow> phase_closed ks T' db0 db' \<and> n \<le> m + 1
    | (Raised e, m, db') \<Rightarrow> E e db' | (Killed, m, db') \<Rightarrow> phase_open ks T rows db0 db' \<and> n < 1"
    using sp nc by (auto simp: complete_subphase_def transaction_def record_transaction_def Let_def split: nat.split)
qed

lemma keyset_subphase_runs:
  assumes w: "writes_to ks T rows T'" and b: "0 < b"
  shows "runs (phase_open ks T rows db0) (run_keyset_write_subphase b ks) (length rows + 1)
    (\<lambda>sp db. \<not> sp_complete sp \<and> sp_rows sp = length rows \<and> progress (ks_name ks) db = Some sp \<and>
       partly ks T rows db0 (length rows) db) (phase_open ks T rows db0) E"
proof -
  have "runs (\<lambda>db. progress (ks_name ks) db = Some sp \<and> (\<exists>k. partly ks T rows db0 k db))
      (if sp_complete sp then give sp else keyset_loop b ks sp) (length rows)
      (\<lambda>sp db. \<not> sp_complete sp \<and> sp_rows sp = length rows \<and> progress (ks_name ks) db = Some sp \<and>
         partly ks T rows db0 (length rows) db) (phase_open ks T rows db0) E" for sp
  proof (cases "sp_complete sp")
    case True
    then show ?thesis by (auto simp: runs_def partly_def at_row_def)
  next
    case False
    have "runs (\<lambda>db. \<exists>k. progress (ks_name ks) db = Some sp \<and> partly ks T rows db0 k db) (keyset_loop b ks sp)
        (length rows) (\<lambda>sp db. \<not> sp_complete sp \<and> sp_rows sp = length rows \<and> progress (ks_name ks) db = Some sp \<and>
         partly ks T rows db0 (length rows) db) (phase_open ks T rows db0) E"
      by (rule runs_exI, rule runs_conseq [OF keyset_loop_runs [OF w b]])
        (auto simp: phase_open_def partly_def at_row_def)
    with False show ?thesis by (auto intro: runs_conseq)
  qed
  from runs_bind [OF start_runs this] show ?thesis
    by (simp add: run_keyset_write_subphase_def add.commute)
qed

lemma run_phase_runs:
  assumes w: "writes_to ks T rows T'" and b: "0 < b"
  shows "runs (phase_open ks T rows db0) (run_phase b ks) (length rows + 2)
    (\<lambda>_. phase_closed ks T' db0) (phase_open ks T rows db0) E"
proof -
  have "runs (\<lambda>db. \<not> sp_complete sp \<and> sp_rows sp = length rows \<and> progress (ks_name ks) db = Some sp \<and>
       partly ks T rows db0 (length rows) db)
      (if sp_complete sp then give () else jbind (complete_subphase b (ks_name ks) (d sp)) (\<lambda>_. give ())) 1
      (\<lambda>_. phase_closed ks T' db0) (phase_open ks T rows db0) E" for sp d
  proof (cases "sp_complete sp")
    case False
    have "runs (\<lambda>db. progress (ks_name ks) db = Some sp \<and> partly ks T rows db0 (length rows) db)
        (jbind (complete_subphase b (ks_name ks) (d sp)) (\<lambda>_. give ())) (1 + 0)
        (\<lambda>_. phase_closed ks T' db0) (phase_open ks T rows db0) E"
      by (rule runs_bind [OF complete_runs [OF w]]) (simp add: runs_give)
    then show ?thesis using False by (auto intro: runs_conseq)
  qed (simp add: runs_def)
  from runs_bind [OF keyset_subphase_runs [OF w b] this]
  show ?thesis by (simp add: run_phase_def)
qed

lemma closed_phase_runs:
  "runs (phase_closed ks T' db0) (run_phase b ks) 0 (\<lambda>_. phase_closed ks T' db0) I E"
  by (auto simp: runs_def run_phase_def run_keyset_write_subphase_def start_subphase_def jbind_def give_def
      phase_closed_def)

section \<open>A chain of phases\<close>

type_synonym plan = "(keyset \<times> key_row list) list"

abbreviation plan_names :: "plan \<Rightarrow> string set" where
  "plan_names plan \<equiv> set (map (\<lambda>(ks, _). ks_name ks) plan)"

fun chain :: "plan \<Rightarrow> tables \<Rightarrow> tables \<Rightarrow> bool" where
  "chain [] T T' = (T = T')"
| "chain ((ks, rows) # plan) T T' = (\<exists>T1. writes_to ks T rows T1 \<and> chain plan T1 T')"

text \<open>The durable states while a chain runs: some phases are closed, one may be open, the rest untouched.\<close>

fun midway :: "plan \<Rightarrow> tables \<Rightarrow> cur_db \<Rightarrow> bool" where
  "midway [] T db = (db_tables db = T)"
| "midway ((ks, rows) # plan) T db =
     ((\<exists>T1. writes_to ks T rows T1 \<and> (\<exists>sp. progress (ks_name ks) db = Some sp \<and> sp_complete sp) \<and>
         midway plan T1 db) \<or>
      (phase_open ks T rows db db \<and> (\<forall>name\<in>plan_names plan. progress name db = None)))"

fun plan_cost :: "plan \<Rightarrow> nat" where
  "plan_cost [] = 0"
| "plan_cost ((ks, rows) # plan) = length rows + 2 + plan_cost plan"

lemma midway_untouched:
  assumes "\<forall>name\<in>plan_names plan. progress name db = None" and "db_tables db = T"
  shows "midway plan T db"
  using assms by (cases plan) (auto simp: phase_open_def)

lemma phase_open_rebase:
  assumes "phase_open ks T rows db0 db" shows "phase_open ks T rows db db"
  using assms by (auto simp: phase_open_def partly_def)

lemma writes_to_unique: "writes_to ks T rows T1 \<Longrightarrow> writes_to ks T rows T2 \<Longrightarrow> T1 = T2"
  by (simp add: writes_to_def)

theorem run_phases_runs:
  assumes "chain plan T T'" and "distinct (map (\<lambda>(ks, _). ks_name ks) plan)" and b: "0 < b"
  shows "runs (\<lambda>db. midway plan T db \<and> frame (plan_names plan) db0 db) (run_phases b (map fst plan)) (plan_cost plan)
    (\<lambda>_ db. midway plan T db \<and> frame (plan_names plan) db0 db \<and> db_tables db = T')
    (\<lambda>db. midway plan T db \<and> frame (plan_names plan) db0 db) E"
  using assms(1,2)
proof (induction plan arbitrary: T db0)
  case Nil
  then show ?case by (simp add: runs_def give_def)
next
  case (Cons p plan)
  obtain ks rows where p: "p = (ks, rows)" by (cases p)
  from Cons.prems(1) obtain T1 where w: "writes_to ks T rows T1" and c: "chain plan T1 T'" by (auto simp: p)
  have d: "distinct (map (\<lambda>(ks, _). ks_name ks) plan)" and notin: "ks_name ks \<notin> plan_names plan"
    using Cons.prems(2) by (auto simp: p)
  let ?N = "plan_names (p # plan)"
  let ?I = "\<lambda>db. midway (p # plan) T db \<and> frame ?N db0 db"
  let ?closed = "\<lambda>db. phase_closed ks (db_tables db) db db \<and> midway plan T1 db \<and> frame ?N db0 db"
  have first: "runs ?I (run_phase b ks) (length rows + 2) (\<lambda>_. ?closed) ?I E"
  proof (rule runs_pointwise)
    fix db assume I: "?I db"
    then consider "phase_closed ks (db_tables db) db db" "midway plan T1 db"
      | "phase_open ks T rows db db" "\<forall>name\<in>plan_names plan. progress name db = None"
      using writes_to_unique [OF w] by (auto simp: p phase_closed_def)
    then show "runs (\<lambda>d. d = db) (run_phase b ks) (length rows + 2) (\<lambda>_. ?closed) ?I E"
    proof cases
      case 1
      then show ?thesis using I
        by (auto simp: runs_def run_phase_def run_keyset_write_subphase_def start_subphase_def jbind_def
            give_def phase_closed_def)
    next
      case 2
      have all: "frame ?N db0 db'" if "frame {ks_name ks} db db'" for db'
        using frame_trans [OF _ that, of ?N db0 ?N] I by (simp add: p)
      have others: "\<forall>name\<in>plan_names plan. progress name db' = None" if "frame {ks_name ks} db db'" for db'
      proof
        fix name assume n: "name \<in> plan_names plan"
        with notin have "name \<notin> {ks_name ks}" by (metis singletonD)
        with frame_progress [OF that this] 2(2) n show "progress name db' = None" by metis
      qed
      show ?thesis
      proof (rule runs_conseq [OF run_phase_runs [OF w b, of db]])
        fix d assume "d = db"
        then show "phase_open ks T rows db d" using 2 by simp
      next
        fix db' assume cl: "phase_closed ks T1 db db'"
        then have f: "frame {ks_name ks} db db'" by (simp add: phase_closed_def)
        show "?closed db'"
          using cl others [OF f] all [OF f] by (auto simp: phase_closed_def intro!: midway_untouched)
      next
        fix db' assume o: "phase_open ks T rows db db'"
        note f = phase_open_frame [OF o]
        show "?I db'" using phase_open_rebase [OF o] others [OF f] all [OF f] by (simp add: p)
      qed simp_all
    qed
  qed
  have rest: "runs ?closed (run_phases b (map fst plan)) (plan_cost plan)
      (\<lambda>_ db. ?I db \<and> db_tables db = T') ?I E"
  proof (rule runs_pointwise)
    fix db assume cl: "?closed db"
    have keep: "?I db'" if "midway plan T1 db'" "frame (plan_names plan) db db'" for db'
      using that cl w frame_progress [OF that(2) notin] frame_trans [OF _ that(2), of ?N db0 ?N]
      by (auto simp: p phase_closed_def)
    show "runs (\<lambda>d. d = db) (run_phases b (map fst plan)) (plan_cost plan) (\<lambda>_ db. ?I db \<and> db_tables db = T') ?I E"
      by (rule runs_conseq [OF Cons.IH [OF c d, of db]]) (use cl keep in auto)
  qed
  from runs_bind [OF first rest] show ?case by (simp add: p)
qed

end
