(* ===== verification/CurateFacts.thy ===== *)
theory CurateFacts
  imports CurateRun
begin

text \<open>
  The queries and statements of canonicalization as instances of the keyset interface, the tables
  the nine subphases leave, and what they hold: one canonical document per content and per final
  cluster of the candidates, and the reason every other document is rejected for.
\<close>

section \<open>Documents\<close>

text \<open>Digests of 32 bytes, distinct identities, and canonical ranks that end in the identity.\<close>

definition rows_ok :: "cur_doc list \<Rightarrow> bool" where
  "rows_ok docs \<longleftrightarrow> distinct (map d_id docs) \<and> list_all (\<lambda>d. length (d_id d) = 32 \<and>
     length (d_content d) = 32 \<and> length (d_cluster d) = 32 \<and> length (d_group d) = 32 \<and>
     length (d_selection d) = 32 \<and> rank_document (d_rank d) = d_id d) docs"

lemma rows_okD:
  assumes "rows_ok docs" and "d \<in> set docs"
  shows "length (d_id d) = 32" "length (d_content d) = 32" "length (d_cluster d) = 32"
    "length (d_group d) = 32" "length (d_selection d) = 32" "rank_document (d_rank d) = d_id d"
  using assms by (auto simp: rows_ok_def list_all_iff)

lemma rows_ok_inj: "rows_ok docs \<Longrightarrow> d \<in> set docs \<Longrightarrow> e \<in> set docs \<Longrightarrow> d_id d = d_id e \<Longrightarrow> d = e"
  by (auto simp: rows_ok_def distinct_map dest: inj_onD)

lemma rows_ok_rank: "rows_ok docs \<Longrightarrow> d \<in> set docs \<Longrightarrow> e \<in> set docs \<Longrightarrow> d_rank d = d_rank e \<Longrightarrow> d = e"
  by (metis rows_okD(6) rows_ok_inj)

lemma set_docs_by_id [simp]: "set (docs_by_id T) = set (t_documents T)"
  by (simp add: docs_by_id_def)

lemma doc_rows_ordered:
  assumes "rows_ok (t_documents T)" and "\<And>d. row_key (f d) = d_id d"
  shows "sorted_wrt (<) (map row_key (doc_rows P f T))"
proof -
  have "sorted (map d_id (docs_by_id T))" "distinct (map d_id (docs_by_id T))"
    using assms(1) by (auto simp: docs_by_id_def rows_ok_def distinct_map)
  then have "sorted_wrt (<) (map d_id (docs_by_id T))" by (simp add: strict_sorted_iff)
  then have "sorted_wrt (<) (map d_id (filter P (docs_by_id T)))"
    by (simp add: sorted_wrt_map sorted_wrt_filter)
  moreover have "map row_key (doc_rows P f T) = map d_id (filter P (docs_by_id T))"
    using assms(2) by (simp add: doc_rows_def)
  ultimately show ?thesis by simp
qed

lemma set_doc_rows: "r \<in> set (doc_rows P f T) \<longleftrightarrow> (\<exists>d\<in>set (t_documents T). P d \<and> r = f d)"
  by (auto simp: doc_rows_def)

lemma doc_rows_keys:
  assumes "rows_ok (t_documents T)" and "\<And>d. row_key (f d) = d_id d" and "r \<in> set (doc_rows P f T)"
  shows "length (row_key r) = 32" "row_key r \<in> d_id ` set (t_documents T)"
  using assms by (auto simp: set_doc_rows rows_okD)

lemma group_keys_ordered: "sorted_wrt (<) (group_keys ks)"
  by (simp add: group_keys_def strict_sorted_iff)

lemma set_group_keys [simp]: "set (group_keys ks) = set ks"
  by (simp add: group_keys_def)

lemma choice_rows_keys [simp]: "map row_key (choice_rows key ds) = group_keys (map key ds)"
  by (simp add: choice_rows_def Let_def o_def)

lemma choice_row_key: "r \<in> set (choice_rows key ds) \<Longrightarrow> row_key r \<in> key ` set ds"
  using choice_rows_keys [of key ds] by (metis image_eqI list.set_map set_group_keys)

lemma choice_row_shape:
  "r \<in> set (choice_rows key ds) \<Longrightarrow> \<exists>k rank. r = KeyRank k rank (rank_document rank) \<and> k \<in> key ` set ds"
  by (auto simp: choice_rows_def Let_def)

lemma benchmark_hits_docs: "set (benchmark_hits T) \<subseteq> set (t_documents T)"
  by (auto simp: benchmark_hits_def)

section \<open>The interface, phase by phase\<close>

abbreviation ready :: "tables \<Rightarrow> bool" where
  "ready T \<equiv> rows_ok (t_documents T)"

lemma insert_unique_fresh: "key row \<notin> key ` set rows \<Longrightarrow> insert_unique key row rows = Inr (rows @ [row])"
  by (simp add: insert_unique_def)

text \<open>Queries read only some tables.\<close>

lemma reason_free_update [simp]:
  "reason_free (T\<lparr>t_benchmark_content := a\<rparr>) = reason_free T"
  "reason_free (T\<lparr>t_benchmark_final := a\<rparr>) = reason_free T"
  "reason_free (T\<lparr>t_exact_choice := c\<rparr>) = reason_free T"
  "reason_free (T\<lparr>t_final_choice := c\<rparr>) = reason_free T"
  "reason_free (T\<lparr>t_canonical_map := m\<rparr>) = reason_free T"
  by (simp_all add: reason_free_def fun_eq_iff)

lemma exact_canonical_update [simp]:
  "exact_canonical (T\<lparr>t_reasons := r\<rparr>) = exact_canonical T"
  "exact_canonical (T\<lparr>t_final_choice := c\<rparr>) = exact_canonical T"
  "exact_canonical (T\<lparr>t_canonical_map := m\<rparr>) = exact_canonical T"
  by (simp_all add: exact_canonical_def fun_eq_iff)

lemma find_doc_update [simp]:
  "find_doc (T\<lparr>t_reasons := r\<rparr>) = find_doc T"
  "find_doc (T\<lparr>t_final_choice := c\<rparr>) = find_doc T"
  "find_doc (T\<lparr>t_canonical_map := m\<rparr>) = find_doc T"
  by (simp_all add: find_doc_def fun_eq_iff)

lemma final_via_update [simp]:
  "final_via (T\<lparr>t_reasons := r\<rparr>) = final_via T"
  "final_via (T\<lparr>t_canonical_map := m\<rparr>) = final_via T"
  by (simp_all add: final_via_def fun_eq_iff cong: option.case_cong prod.case_cong)

lemma docs_by_id_update [simp]:
  "docs_by_id (T\<lparr>t_reasons := r\<rparr>) = docs_by_id T"
  "docs_by_id (T\<lparr>t_canonical_map := m\<rparr>) = docs_by_id T"
  by (simp_all add: docs_by_id_def)

lemma doc_rows_update [simp]:
  "doc_rows P f (T\<lparr>t_reasons := r\<rparr>) = doc_rows P f T"
  "doc_rows P f (T\<lparr>t_canonical_map := m\<rparr>) = doc_rows P f T"
  by (simp_all add: doc_rows_def)

lemma benchmark_hits_update [simp]:
  "benchmark_hits (T\<lparr>t_benchmark_content := a\<rparr>) = benchmark_hits T"
  "benchmark_hits (T\<lparr>t_benchmark_final := a\<rparr>) = benchmark_hits T"
  by (simp_all add: benchmark_hits_def cong: if_cong)

lemma benchmark_hits_ready: "ready T \<Longrightarrow> d \<in> set (benchmark_hits T) \<Longrightarrow> length (d_content d) = 32 \<and> length (d_cluster d) = 32"
  using benchmark_hits_docs rows_okD by blast

interpretation bench_content: keyset_write benchmark_content_rows insert_benchmark_content ready
  "\<lambda>T k. k \<notin> set (t_benchmark_content T)"
  by unfold_locales
    (auto simp: benchmark_content_rows_def group_keys_ordered o_def insert_benchmark_content_def
      insert_unique_fresh dest: benchmark_hits_ready)

interpretation bench_final: keyset_write benchmark_final_rows insert_benchmark_final ready
  "\<lambda>T k. k \<notin> set (t_benchmark_final T)"
  by unfold_locales
    (auto simp: benchmark_final_rows_def group_keys_ordered o_def insert_benchmark_final_def
      insert_unique_fresh dest: benchmark_hits_ready)

lemma insert_reason_known:
  "i \<in> d_id ` set (t_documents T) \<Longrightarrow>
   insert_reason T (KeyText i r) = Inr (T\<lparr>t_reasons := List.insert (i, r) (t_reasons T)\<rparr>)"
  by (simp add: insert_reason_def)

interpretation content_hits: keyset_write content_contaminated_rows insert_reason ready "\<lambda>_ _. True"
  by unfold_locales (auto simp: content_contaminated_rows_def doc_rows_ordered rows_okD
      set_doc_rows insert_reason_known)

interpretation final_hits: keyset_write final_contaminated_rows insert_reason ready "\<lambda>_ _. True"
  by unfold_locales (auto simp: final_contaminated_rows_def doc_rows_ordered rows_okD
      set_doc_rows insert_reason_known)

interpretation exact_pick: keyset_write exact_choice_rows insert_exact_choice ready
  "\<lambda>T k. k \<notin> fst ` set (t_exact_choice T)"
  by unfold_locales
    (auto simp: exact_choice_rows_def group_keys_ordered insert_exact_choice_def insert_unique_fresh rows_okD
      dest!: choice_row_shape)

interpretation final_pick: keyset_write final_choice_rows insert_final_choice ready
  "\<lambda>T k. k \<notin> fst ` set (t_final_choice T)"
  by unfold_locales
    (auto simp: final_choice_rows_def group_keys_ordered insert_final_choice_def insert_unique_fresh rows_okD
      dest!: choice_row_shape)

interpretation map_rows: keyset_write canonical_map_rows insert_canonical_map ready
  "\<lambda>T k. k \<notin> fst ` set (t_canonical_map T)"
  by unfold_locales
    (auto simp: canonical_map_rows_def doc_rows_ordered insert_canonical_map_def insert_unique_fresh rows_okD
      set_doc_rows)

interpretation residual_content: keyset_write residual_exact_rows insert_reason ready "\<lambda>_ _. True"
  by unfold_locales (auto simp: residual_exact_rows_def doc_rows_ordered rows_okD
      set_doc_rows insert_reason_known)

interpretation residual_cluster: keyset_write "residual_final_rows fast" insert_reason ready "\<lambda>_ _. True" for fast
  by unfold_locales (auto simp: residual_final_rows_def doc_rows_ordered rows_okD
      set_doc_rows insert_reason_known)

lemma sort_key_map: "(\<And>x. k (g x) = k x) \<Longrightarrow> sort_key k (map g xs) = map g (sort_key k xs)"
proof (induction xs)
  case (Cons x xs)
  have "insort_key k (g x) (map g ys) = map g (insort_key k x ys)" for ys
    using Cons.prems by (induction ys) auto
  with Cons show ?case by simp
qed simp

abbreviation near_ready :: "tables \<Rightarrow> bool" where
  "near_ready T \<equiv> ready T \<and> (\<forall>(i, c)\<in>set (t_near_map T). length c = 32)"

lemma near_apply_rows_update:
  "near_apply_rows (T\<lparr>t_documents := map (\<lambda>d. if d_id d = i then d\<lparr>d_cluster := c\<rparr> else d) (t_documents T)\<rparr>) =
   near_apply_rows T"
  by (simp add: near_apply_rows_def doc_rows_def docs_by_id_def sort_key_map filter_map o_def is_english_def
      if_distrib [of d_id] if_distrib [of d_bucket] cong: if_cong)

lemma rows_ok_recluster:
  assumes "rows_ok docs" and "length c = 32"
  shows "rows_ok (map (\<lambda>d. if d_id d = i then d\<lparr>d_cluster := c\<rparr> else d) docs)"
proof -
  have "map d_id (map (\<lambda>d. if d_id d = i then d\<lparr>d_cluster := c\<rparr> else d) docs) = map d_id docs" by simp
  then have "distinct (map d_id (map (\<lambda>d. if d_id d = i then d\<lparr>d_cluster := c\<rparr> else d) docs))"
    using assms(1) unfolding rows_ok_def by argo
  with assms show ?thesis unfolding rows_ok_def by (auto simp: list_all_iff)
qed

interpretation recluster: keyset_write near_apply_rows update_final_cluster near_ready "\<lambda>_ _. True"
proof
  fix T assume r: "near_ready T"
  show "sorted_wrt (<) (map row_key (near_apply_rows T))"
    using r by (simp add: near_apply_rows_def doc_rows_ordered)
  fix r assume m: "r \<in> set (near_apply_rows T)"
  show "length (row_key r) = 32" using r m by (auto simp: near_apply_rows_def set_doc_rows rows_okD)
  from m obtain d :: cur_doc where "map_of (t_near_map T) (d_id d) \<noteq> None"
    and d: "r = KeyBlob (d_id d) (the (map_of (t_near_map T) (d_id d)))"
    unfolding near_apply_rows_def set_doc_rows by blast
  then obtain c where c: "map_of (t_near_map T) (d_id d) = Some c" "r = KeyBlob (d_id d) c" by auto
  then have "length c = 32" using r by (auto dest!: map_of_SomeD)
  then show "\<exists>T'. update_final_cluster T r = Inr T' \<and> near_ready T' \<and> near_apply_rows T' = near_apply_rows T \<and>
      (\<forall>k. k \<noteq> row_key r \<longrightarrow> True \<longrightarrow> True)"
    using r by (simp add: c(2) update_final_cluster_def near_apply_rows_update rows_ok_recluster)
qed

section \<open>The tables each subphase leaves\<close>

fun add_reason :: "key_row \<Rightarrow> (blob \<times> string) list \<Rightarrow> (blob \<times> string) list" where
  "add_reason (KeyText i r) rs = List.insert (i, r) rs"
| "add_reason _ rs = rs"

fun choice_of :: "key_row \<Rightarrow> blob \<times> blob \<times> blob" where
  "choice_of (KeyRank k rank i) = (k, rank, i)"
| "choice_of row = (row_key row, [], [])"

fun map_entry :: "key_row \<Rightarrow> blob \<times> blob" where
  "map_entry (KeyBlob i c) = (i, c)"
| "map_entry row = (row_key row, [])"

definition benchmark_marked :: "tables \<Rightarrow> tables" where
  "benchmark_marked T = T\<lparr>t_benchmark_content := group_keys (map d_content (benchmark_hits T)),
     t_benchmark_final := group_keys (map d_cluster (benchmark_hits T))\<rparr>"

definition contaminated :: "tables \<Rightarrow> tables" where
  "contaminated T = T\<lparr>t_reasons := fold add_reason (final_contaminated_rows T)
     (fold add_reason (content_contaminated_rows T) (t_reasons T))\<rparr>"

definition exact_chosen :: "tables \<Rightarrow> tables" where
  "exact_chosen T = T\<lparr>t_exact_choice := map choice_of (exact_choice_rows T)\<rparr>"

definition final_chosen :: "tables \<Rightarrow> tables" where
  "final_chosen T = T\<lparr>t_final_choice := map choice_of (final_choice_rows T)\<rparr>"

definition mapped :: "tables \<Rightarrow> tables" where
  "mapped T = T\<lparr>t_canonical_map := map map_entry (canonical_map_rows T)\<rparr>"

definition rejected :: "bool \<Rightarrow> tables \<Rightarrow> tables" where
  "rejected fast T = T\<lparr>t_reasons := fold add_reason (residual_final_rows fast T)
     (fold add_reason (residual_exact_rows T) (t_reasons T))\<rparr>"

definition canonical_tables :: "bool \<Rightarrow> tables \<Rightarrow> tables" where
  "canonical_tables fast T =
     rejected fast (mapped (final_chosen (exact_chosen (contaminated (benchmark_marked T)))))"

lemma executemany_insert_reason:
  "executemany insert_reason rows T = Inr T' \<Longrightarrow> T' = T\<lparr>t_reasons := fold add_reason rows (t_reasons T)\<rparr>"
proof (induction rows arbitrary: T)
  case (Cons r rows)
  then obtain T1 where T1: "insert_reason T r = Inr T1" "executemany insert_reason rows T1 = Inr T'"
    by (auto simp: executemany_def rbind_eq_Inr)
  then have "T1 = T\<lparr>t_reasons := add_reason r (t_reasons T)\<rparr>"
    by (cases r) (auto simp: insert_reason_def split: if_splits)
  with Cons.IH [OF T1(2)] show ?case by simp
qed (simp add: executemany_def)

lemma executemany_insert:
  assumes "\<And>T row T'. statement T row = Inr T' \<Longrightarrow> T' = put (get T @ [entry row]) T"
    and "\<And>a b T. put a (put b T) = put a T" and "\<And>a T. get (put a T) = a" and "\<And>T. put (get T) T = T"
  shows "executemany statement rows T = Inr T' \<Longrightarrow> T' = put (get T @ map entry rows) T"
proof (induction rows arbitrary: T)
  case (Cons r rows)
  then obtain T1 where T1: "statement T r = Inr T1" "executemany statement rows T1 = Inr T'"
    by (auto simp: executemany_def rbind_eq_Inr)
  with Cons.IH [OF T1(2)] assms(1) [OF T1(1)] assms(2,3) show ?case by simp
qed (simp add: executemany_def assms(4))

lemma executemany_inserts:
  "executemany insert_benchmark_content rows T = Inr T' \<Longrightarrow>
     T' = T\<lparr>t_benchmark_content := t_benchmark_content T @ map row_key rows\<rparr>"
  "executemany insert_benchmark_final rows T = Inr T' \<Longrightarrow>
     T' = T\<lparr>t_benchmark_final := t_benchmark_final T @ map row_key rows\<rparr>"
  "executemany insert_exact_choice rows T = Inr T' \<Longrightarrow>
     T' = T\<lparr>t_exact_choice := t_exact_choice T @ map choice_of rows\<rparr>"
  "executemany insert_final_choice rows T = Inr T' \<Longrightarrow>
     T' = T\<lparr>t_final_choice := t_final_choice T @ map choice_of rows\<rparr>"
  "executemany insert_canonical_map rows T = Inr T' \<Longrightarrow>
     T' = T\<lparr>t_canonical_map := t_canonical_map T @ map map_entry rows\<rparr>"
  subgoal by (rule executemany_insert [where put = "\<lambda>a. t_benchmark_content_update (\<lambda>_. a)"],
      auto simp: insert_benchmark_content_def insert_unique_def res_simps arity_error_def split: key_row.splits if_splits)
  subgoal by (rule executemany_insert [where put = "\<lambda>a. t_benchmark_final_update (\<lambda>_. a)"],
      auto simp: insert_benchmark_final_def insert_unique_def res_simps arity_error_def split: key_row.splits if_splits)
  subgoal by (rule executemany_insert [where put = "\<lambda>a. t_exact_choice_update (\<lambda>_. a)"],
      auto simp: insert_exact_choice_def insert_unique_def res_simps arity_error_def split: key_row.splits if_splits)
  subgoal by (rule executemany_insert [where put = "\<lambda>a. t_final_choice_update (\<lambda>_. a)"],
      auto simp: insert_final_choice_def insert_unique_def res_simps arity_error_def split: key_row.splits if_splits)
  subgoal by (rule executemany_insert [where put = "\<lambda>a. t_canonical_map_update (\<lambda>_. a)"],
      auto simp: insert_canonical_map_def insert_unique_def res_simps arity_error_def split: key_row.splits if_splits)
  done

lemma writes_toI:
  "\<exists>T'. writes_to ks T rows T' \<and> P T' \<Longrightarrow>
   (\<And>T'. executemany (ks_write ks) rows T = Inr T' \<Longrightarrow> T' = X) \<Longrightarrow> writes_to ks T rows X"
  by (auto simp: writes_to_def)

definition untouched :: "tables \<Rightarrow> bool" where
  "untouched T \<longleftrightarrow> t_benchmark_content T = [] \<and> t_benchmark_final T = [] \<and> t_exact_choice T = [] \<and>
     t_final_choice T = [] \<and> t_canonical_map T = []"

text \<open>The nine phases with the rows each of them writes.\<close>

definition canonical_plan :: "nat \<Rightarrow> bool \<Rightarrow> tables \<Rightarrow> plan" where
  "canonical_plan b fast T = (let M = benchmark_marked T; C = contaminated M; X = exact_chosen C;
     F = final_chosen X; P = mapped F in
     zip (canonical_phases b fast)
       [benchmark_content_rows T, benchmark_final_rows T, content_contaminated_rows M, final_contaminated_rows M,
        exact_choice_rows C, final_choice_rows X, canonical_map_rows F, residual_exact_rows P,
        residual_final_rows fast P])"

lemma stage_simps [simp]:
  "t_documents (benchmark_marked T) = t_documents T" "t_documents (contaminated T) = t_documents T"
  "t_documents (exact_chosen T) = t_documents T" "t_documents (final_chosen T) = t_documents T"
  "t_documents (mapped T) = t_documents T" "t_documents (rejected fast T) = t_documents T"
  "t_documents (canonical_tables fast T) = t_documents T"
  by (simp_all add: benchmark_marked_def contaminated_def exact_chosen_def final_chosen_def mapped_def
      rejected_def canonical_tables_def)

lemma benchmark_marked_chain:
  assumes "ready T" and "untouched T"
  shows "chain [(canonical_keyset b n1 benchmark_content_rows insert_benchmark_content, benchmark_content_rows T),
    (canonical_keyset b n2 benchmark_final_rows insert_benchmark_final, benchmark_final_rows T)] T (benchmark_marked T)"
proof -
  let ?T1 = "T\<lparr>t_benchmark_content := group_keys (map d_content (benchmark_hits T))\<rparr>"
  have "writes_to (canonical_keyset b n1 benchmark_content_rows insert_benchmark_content) T (benchmark_content_rows T) ?T1"
    by (rule writes_toI [OF bench_content.writes_all])
      (use assms in \<open>auto simp: canonical_keyset_def untouched_def benchmark_content_rows_def o_def
        dest!: executemany_inserts(1)\<close>)
  moreover have r: "benchmark_final_rows ?T1 = benchmark_final_rows T" by (simp add: benchmark_final_rows_def)
  have "writes_to (canonical_keyset b n2 benchmark_final_rows insert_benchmark_final) ?T1
      (benchmark_final_rows ?T1) (benchmark_marked T)"
    by (rule writes_toI [OF bench_final.writes_all])
      (use assms in \<open>auto simp: canonical_keyset_def untouched_def benchmark_final_rows_def o_def benchmark_marked_def
        dest!: executemany_inserts(2)\<close>)
  ultimately show ?thesis unfolding r by auto
qed

lemma contaminated_chain:
  assumes "ready T"
  shows "chain [(canonical_keyset b n1 content_contaminated_rows insert_reason, content_contaminated_rows T),
    (canonical_keyset b n2 final_contaminated_rows insert_reason, final_contaminated_rows T)] T (contaminated T)"
proof -
  let ?T1 = "T\<lparr>t_reasons := fold add_reason (content_contaminated_rows T) (t_reasons T)\<rparr>"
  have "writes_to (canonical_keyset b n1 content_contaminated_rows insert_reason) T (content_contaminated_rows T) ?T1"
    by (rule writes_toI [OF content_hits.writes_all])
      (use assms in \<open>auto simp: canonical_keyset_def dest!: executemany_insert_reason\<close>)
  moreover have r: "final_contaminated_rows ?T1 = final_contaminated_rows T" by (simp add: final_contaminated_rows_def)
  have "writes_to (canonical_keyset b n2 final_contaminated_rows insert_reason) ?T1
      (final_contaminated_rows ?T1) (contaminated T)"
    by (rule writes_toI [OF final_hits.writes_all])
      (use assms r in \<open>auto simp: canonical_keyset_def contaminated_def dest!: executemany_insert_reason\<close>)
  ultimately show ?thesis unfolding r by auto
qed

lemma rejected_chain:
  assumes "ready T"
  shows "chain [(canonical_keyset b n1 residual_exact_rows insert_reason, residual_exact_rows T),
    (canonical_keyset b n2 (residual_final_rows fast) insert_reason, residual_final_rows fast T)] T (rejected fast T)"
proof -
  let ?T1 = "T\<lparr>t_reasons := fold add_reason (residual_exact_rows T) (t_reasons T)\<rparr>"
  have "writes_to (canonical_keyset b n1 residual_exact_rows insert_reason) T (residual_exact_rows T) ?T1"
    by (rule writes_toI [OF residual_content.writes_all])
      (use assms in \<open>auto simp: canonical_keyset_def dest!: executemany_insert_reason\<close>)
  moreover have r: "residual_final_rows fast ?T1 = residual_final_rows fast T" by (simp add: residual_final_rows_def)
  have "writes_to (canonical_keyset b n2 (residual_final_rows fast) insert_reason) ?T1
      (residual_final_rows fast ?T1) (rejected fast T)"
    by (rule writes_toI [OF residual_cluster.writes_all])
      (use assms r in \<open>auto simp: canonical_keyset_def rejected_def dest!: executemany_insert_reason\<close>)
  ultimately show ?thesis unfolding r by auto
qed

lemma chosen_chain:
  assumes "ready T" and "t_exact_choice T = []" and "t_final_choice T = []" and "t_canonical_map T = []"
  shows "chain [(canonical_keyset b n1 exact_choice_rows insert_exact_choice, exact_choice_rows T),
    (canonical_keyset b n2 final_choice_rows insert_final_choice, final_choice_rows (exact_chosen T)),
    (canonical_keyset b n3 canonical_map_rows insert_canonical_map, canonical_map_rows (final_chosen (exact_chosen T)))]
    T (mapped (final_chosen (exact_chosen T)))"
proof -
  have "writes_to (canonical_keyset b n1 exact_choice_rows insert_exact_choice) T (exact_choice_rows T) (exact_chosen T)"
    by (rule writes_toI [OF exact_pick.writes_all])
      (use assms in \<open>auto simp: canonical_keyset_def exact_chosen_def dest!: executemany_inserts(3)\<close>)
  moreover have "writes_to (canonical_keyset b n2 final_choice_rows insert_final_choice) (exact_chosen T)
      (final_choice_rows (exact_chosen T)) (final_chosen (exact_chosen T))"
    by (rule writes_toI [OF final_pick.writes_all])
      (use assms in \<open>auto simp: canonical_keyset_def exact_chosen_def final_chosen_def dest!: executemany_inserts(4)\<close>)
  moreover have "writes_to (canonical_keyset b n3 canonical_map_rows insert_canonical_map) (final_chosen (exact_chosen T))
      (canonical_map_rows (final_chosen (exact_chosen T))) (mapped (final_chosen (exact_chosen T)))"
    by (rule writes_toI [OF map_rows.writes_all])
      (use assms in \<open>auto simp: canonical_keyset_def exact_chosen_def final_chosen_def mapped_def dest!: executemany_inserts(5)\<close>)
  ultimately show ?thesis by auto
qed

lemma chain_append: "chain (p @ q) T T' \<longleftrightarrow> (\<exists>T1. chain p T T1 \<and> chain q T1 T')"
  by (induction p arbitrary: T) (auto, blast+)

lemma canonical_chain:
  assumes "ready T" and "untouched T"
  shows "chain (canonical_plan b fast T) T (canonical_tables fast T)"
proof -
  let ?M = "benchmark_marked T" and ?C = "contaminated (benchmark_marked T)"
  have "t_exact_choice ?C = []" "t_final_choice ?C = []" "t_canonical_map ?C = []"
    using assms(2) by (simp_all add: contaminated_def benchmark_marked_def untouched_def)
  note parts = benchmark_marked_chain [OF assms] contaminated_chain [of ?M] chosen_chain [of ?C, OF _ this]
    rejected_chain [of "mapped (final_chosen (exact_chosen ?C))"]
  have split: "canonical_plan b fast T =
      take 2 (canonical_plan b fast T) @ take 2 (drop 2 (canonical_plan b fast T)) @
      take 3 (drop 4 (canonical_plan b fast T)) @ drop 7 (canonical_plan b fast T)"
    by (simp add: canonical_plan_def canonical_phases_def Let_def)
  show ?thesis
    by (subst split, unfold chain_append)
      (use parts assms(1) in \<open>simp add: canonical_plan_def canonical_phases_def Let_def canonical_tables_def del: chain.simps, blast\<close>)
qed

end
