(* ===== verification/CurateSpec.thy ===== *)
theory CurateSpec
  imports CurateFacts
begin

text \<open>
  What canonicalization means: which documents are candidates, which of them is the canonical one
  of its content and of its cluster, and that the tables the subphases leave say exactly that; and
  that the code's own validation accepts them.
\<close>

section \<open>The specification\<close>

text \<open>A benchmark document has the content or the cluster.\<close>

definition benchmarked :: "tables \<Rightarrow> cur_doc \<Rightarrow> bool" where
  "benchmarked T d = list_ex (\<lambda>h. (d_content h = d_content d \<or> d_cluster h = d_cluster d) \<and>
     list_ex (\<lambda>(i, r). i = d_id h \<and> prefix ''benchmark:'' r) (t_reasons T)) (t_documents T)"

definition candidate :: "tables \<Rightarrow> cur_doc \<Rightarrow> bool" where
  "candidate T d = (reason_free T d \<and> \<not> benchmarked T d)"

text \<open>The document of least canonical rank among those with its key.\<close>

definition chosen :: "(cur_doc \<Rightarrow> blob) \<Rightarrow> cur_doc list \<Rightarrow> cur_doc \<Rightarrow> bool" where
  "chosen key ds d = (d \<in> set ds \<and> list_all (\<lambda>e. key e = key d \<longrightarrow> d_rank d \<le> d_rank e) ds)"

definition content_canonical :: "tables \<Rightarrow> cur_doc \<Rightarrow> bool" where
  "content_canonical T d = chosen d_content (filter (candidate T) (t_documents T)) d"

definition cluster_canonical :: "tables \<Rightarrow> cur_doc \<Rightarrow> bool" where
  "cluster_canonical T d = chosen d_cluster (filter (content_canonical T) (t_documents T)) d"

text \<open>What the inventory leaves: known documents, and only its own reasons, each once.\<close>

definition inventory_reason :: "string \<Rightarrow> bool" where
  "inventory_reason r = (r \<in> {''missing_code_repo_id'', ''missing_english_source_identity''} \<or>
     prefix ''quality:'' r \<or> prefix ''benchmark:'' r)"

definition reasons_ok :: "tables \<Rightarrow> bool" where
  "reasons_ok T \<longleftrightarrow> distinct (t_reasons T) \<and>
     list_all (\<lambda>(i, r). i \<in> d_id ` set (t_documents T) \<and> inventory_reason r) (t_reasons T)"

lemma inventory_reason_new:
  "\<not> inventory_reason contamination" "\<not> inventory_reason ''residual_exact_duplicate''"
  "\<not> inventory_reason (residual_reason fast d)"
  by (simp_all add: inventory_reason_def contamination_def residual_reason_def english_duplicate_reason_def)

section \<open>Choices\<close>

lemma least_rank_in:
  assumes "ds \<noteq> []"
  obtains x where "x \<in> set ds" and "d_rank x = least_rank ds" and "\<And>e. e \<in> set ds \<Longrightarrow> d_rank x \<le> d_rank e"
proof -
  have "least_rank ds \<in> set (map d_rank ds)" unfolding least_rank_def using assms by (intro Min_in) auto
  then obtain x where "x \<in> set ds" "d_rank x = least_rank ds" by auto
  moreover have "least_rank ds \<le> d_rank e" if "e \<in> set ds" for e
    unfolding least_rank_def using that by (intro Min_le) auto
  ultimately show thesis using that by metis
qed

lemma map_of_choice_rows:
  "map_of (map choice_of (choice_rows key ds)) k = (if k \<in> key ` set ds
     then let m = least_rank (filter (\<lambda>d. key d = k) ds) in Some (m, rank_document m) else None)"
proof -
  have "map choice_of (choice_rows key ds) =
      map (\<lambda>k. (k, let m = least_rank (filter (\<lambda>d. key d = k) ds) in (m, rank_document m))) (group_keys (map key ds))"
    by (simp add: choice_rows_def Let_def o_def)
  then show ?thesis by (simp add: map_of_map_restrict restrict_map_def Let_def)
qed

lemma choice_of_candidate:
  assumes ok: "rows_ok docs" and sub: "set ds \<subseteq> set docs" and d: "d \<in> set ds"
  obtains x where "chosen key ds x" and "key x = key d"
    and "map_of (map choice_of (choice_rows key ds)) (key d) = Some (d_rank x, d_id x)"
proof -
  have ne: "filter (\<lambda>e. key e = key d) ds \<noteq> []" using d by (auto simp: filter_empty_conv)
  obtain x where x: "x \<in> set (filter (\<lambda>e. key e = key d) ds)"
    "d_rank x = least_rank (filter (\<lambda>e. key e = key d) ds)"
    "\<And>e. e \<in> set (filter (\<lambda>e. key e = key d) ds) \<Longrightarrow> d_rank x \<le> d_rank e"
    using least_rank_in [OF ne] by blast
  have "rank_document (d_rank x) = d_id x" using rows_okD(6) [OF ok] sub x(1) by auto
  with x d have "map_of (map choice_of (choice_rows key ds)) (key d) = Some (d_rank x, d_id x)"
    by (simp add: map_of_choice_rows Let_def)
  moreover have "chosen key ds x" using x by (auto simp: chosen_def list_all_iff)
  ultimately show thesis using that x(1) by simp
qed

lemma chosen_unique:
  "rows_ok docs \<Longrightarrow> set ds \<subseteq> set docs \<Longrightarrow> chosen key ds x \<Longrightarrow> chosen key ds y \<Longrightarrow> key x = key y \<Longrightarrow> x = y"
  by (rule rows_ok_rank [of docs]) (auto simp: chosen_def list_all_iff intro: order_antisym)

lemma choice_is_chosen:
  assumes ok: "rows_ok docs" and sub: "set ds \<subseteq> set docs" and d: "d \<in> set docs"
  shows "(case map_of (map choice_of (choice_rows key ds)) (key d) of None \<Rightarrow> False | Some (_, e) \<Rightarrow> e = d_id d)
    \<longleftrightarrow> chosen key ds d"
proof (cases "key d \<in> key ` set ds")
  case True
  then obtain e where e: "e \<in> set ds" "key e = key d" by auto
  obtain x where x: "chosen key ds x" "key x = key e"
    "map_of (map choice_of (choice_rows key ds)) (key e) = Some (d_rank x, d_id x)"
    by (rule choice_of_candidate [OF ok sub e(1)])
  have xd: "x \<in> set docs" using x(1) sub by (auto simp: chosen_def)
  have "d_id x = d_id d \<longleftrightarrow> chosen key ds d"
    using rows_ok_inj [OF ok xd d] chosen_unique [OF ok sub x(1), of d] x e by auto
  then show ?thesis using x(3) e(2) by simp
next
  case False
  then show ?thesis by (auto simp: map_of_choice_rows chosen_def)
qed

section \<open>Contamination\<close>

lemma set_fold_add_reason:
  "set (fold add_reason rows rs) = set rs \<union> {(i, r). KeyText i r \<in> set rows}"
proof (induction rows arbitrary: rs)
  case (Cons row rows)
  then show ?case by (cases row) auto
qed simp

lemma distinct_fold_add_reason: "distinct rs \<Longrightarrow> distinct (fold add_reason rows rs)"
proof (induction rows arbitrary: rs)
  case (Cons row rows)
  then show ?case by (cases row) auto
qed simp

lemma benchmark_hits_set:
  "h \<in> set (benchmark_hits T) \<longleftrightarrow> h \<in> set (t_documents T) \<and> (\<exists>r. (d_id h, r) \<in> set (t_reasons T) \<and> prefix ''benchmark:'' r)"
  by (auto simp: benchmark_hits_def)

lemma benchmarked_hits:
  "benchmarked T d \<longleftrightarrow> d_content d \<in> d_content ` set (benchmark_hits T) \<or> d_cluster d \<in> d_cluster ` set (benchmark_hits T)"
proof -
  have e: "list_ex (\<lambda>(i, r). i = d_id h \<and> prefix ''benchmark:'' r) (t_reasons T) \<longleftrightarrow>
      (\<exists>r. (d_id h, r) \<in> set (t_reasons T) \<and> prefix ''benchmark:'' r)" for h
    by (auto simp: list_ex_iff)
  have "benchmarked T d \<longleftrightarrow> (\<exists>h\<in>set (benchmark_hits T). d_content h = d_content d \<or> d_cluster h = d_cluster d)"
    unfolding benchmarked_def Bex_def benchmark_hits_set e list_ex_iff [of _ "t_documents T"] by blast
  then show ?thesis by (auto simp: image_iff eq_commute)
qed

lemma marked_in_cluster: "in_benchmark_cluster (benchmark_marked T) d \<longleftrightarrow> benchmarked T d"
  by (simp add: in_benchmark_cluster_def benchmark_marked_def benchmarked_hits)

lemma contaminated_reasons:
  "(i, r) \<in> set (t_reasons (contaminated (benchmark_marked T))) \<longleftrightarrow> (i, r) \<in> set (t_reasons T) \<or>
     (r = contamination \<and> (\<exists>d\<in>set (t_documents T). d_id d = i \<and> benchmarked T d))"
  by (auto simp: contaminated_def set_fold_add_reason content_contaminated_rows_def final_contaminated_rows_def
      set_doc_rows benchmark_marked_def benchmarked_hits)

lemma reason_free_iff: "reason_free T d \<longleftrightarrow> (\<forall>r. (d_id d, r) \<notin> set (t_reasons T))"
  by (auto simp: reason_free_def list_all_iff)

lemma contaminated_free:
  assumes "ready T" and "d \<in> set (t_documents T)"
  shows "reason_free (contaminated (benchmark_marked T)) d \<longleftrightarrow> candidate T d"
  using assms(2) rows_ok_inj [OF assms(1) _ assms(2)]
  by (auto simp: reason_free_iff candidate_def contaminated_reasons)

section \<open>The chosen documents\<close>

abbreviation marked :: "tables \<Rightarrow> tables" where
  "marked T \<equiv> contaminated (benchmark_marked T)"

lemma candidates_of_marked:
  "ready T \<Longrightarrow> filter (reason_free (marked T)) (t_documents T) = filter (candidate T) (t_documents T)"
  by (rule filter_cong) (simp_all add: contaminated_free)

lemma exact_choice_lookup:
  "ready T \<Longrightarrow> t_exact_choice (exact_chosen (marked T)) =
     map choice_of (choice_rows d_content (filter (candidate T) (t_documents T)))"
  by (simp add: exact_chosen_def exact_choice_rows_def candidates_of_marked)

lemma exact_canonical_iff:
  assumes "ready T" and "d \<in> set (t_documents T)"
  shows "exact_canonical (exact_chosen (marked T)) d \<longleftrightarrow> content_canonical T d"
  using choice_is_chosen [OF assms(1) _ assms(2), of "filter (candidate T) (t_documents T)" d_content]
  by (simp add: exact_canonical_def exact_choice_lookup [OF assms(1)] content_canonical_def)

lemma content_canonicals:
  assumes "ready T"
  shows "filter (\<lambda>d. exact_canonical (exact_chosen (marked T)) d \<and> reason_free (exact_chosen (marked T)) d) (t_documents T)
    = filter (content_canonical T) (t_documents T)"
proof (rule filter_cong)
  fix d assume d: "d \<in> set (t_documents T)"
  have "content_canonical T d \<Longrightarrow> candidate T d" by (simp add: content_canonical_def chosen_def)
  moreover have "reason_free (exact_chosen (marked T)) d \<longleftrightarrow> candidate T d"
    using contaminated_free [OF assms d] by (simp add: exact_chosen_def)
  ultimately show "(exact_canonical (exact_chosen (marked T)) d \<and> reason_free (exact_chosen (marked T)) d) =
      content_canonical T d"
    using exact_canonical_iff [OF assms d] by blast
qed simp

lemma final_choice_lookup:
  "ready T \<Longrightarrow> t_final_choice (final_chosen (exact_chosen (marked T))) =
     map choice_of (choice_rows d_cluster (filter (content_canonical T) (t_documents T)))"
  by (simp add: final_chosen_def final_choice_rows_def content_canonicals)

lemma find_distinct_key: "distinct (map k xs) \<Longrightarrow> x \<in> set xs \<Longrightarrow> List.find (\<lambda>y. k y = k x) xs = Some x"
  by (induction xs) (auto simp: image_iff)

lemma find_doc_known: "ready T \<Longrightarrow> d \<in> set (t_documents T) \<Longrightarrow> find_doc T (d_id d) = Some d"
  by (simp add: find_doc_def find_distinct_key rows_ok_def)

text \<open>The canonical document of a candidate's content, and that of its cluster.\<close>

definition canonical_for :: "tables \<Rightarrow> cur_doc \<Rightarrow> cur_doc \<Rightarrow> cur_doc \<Rightarrow> bool" where
  "canonical_for T d x y \<longleftrightarrow> content_canonical T x \<and> d_content x = d_content d \<and>
     cluster_canonical T y \<and> d_cluster y = d_cluster x"

lemma candidate_has_canonical:
  assumes ok: "ready T" and d: "d \<in> set (t_documents T)" and c: "candidate T d"
  obtains x y where "canonical_for T d x y"
    and "map_of (t_exact_choice (exact_chosen (marked T))) (d_content d) = Some (d_rank x, d_id x)"
    and "map_of (t_final_choice (final_chosen (exact_chosen (marked T)))) (d_cluster x) = Some (d_rank y, d_id y)"
proof -
  have "d \<in> set (filter (candidate T) (t_documents T))" using d c by simp
  from choice_of_candidate [OF ok _ this, of d_content]
  obtain x where x: "content_canonical T x" "d_content x = d_content d"
    "map_of (t_exact_choice (exact_chosen (marked T))) (d_content d) = Some (d_rank x, d_id x)"
    by (auto simp: content_canonical_def exact_choice_lookup [OF ok])
  then have "x \<in> set (filter (content_canonical T) (t_documents T))"
    by (simp add: content_canonical_def chosen_def)
  from choice_of_candidate [OF ok _ this, of d_cluster]
  obtain y where "cluster_canonical T y" "d_cluster y = d_cluster x"
    "map_of (t_final_choice (final_chosen (exact_chosen (marked T)))) (d_cluster x) = Some (d_rank y, d_id y)"
    by (auto simp: cluster_canonical_def final_choice_lookup [OF ok])
  with x that show thesis by (auto simp: canonical_for_def)
qed

lemma canonical_for_unique:
  assumes ok: "ready T" and "canonical_for T d x y" and "canonical_for T d x' y'"
  shows "x' = x \<and> y' = y"
proof -
  have x: "x' = x"
    using assms(2,3) by (intro chosen_unique [OF ok, of "filter (candidate T) (t_documents T)" d_content])
      (auto simp: canonical_for_def content_canonical_def)
  then have "y' = y"
    using assms(2,3) by (intro chosen_unique [OF ok, of "filter (content_canonical T) (t_documents T)" d_cluster])
      (auto simp: canonical_for_def cluster_canonical_def)
  with x show ?thesis by simp
qed

lemma canonical_for_known:
  "canonical_for T d x y \<Longrightarrow> x \<in> set (t_documents T) \<and> candidate T x \<and> y \<in> set (t_documents T) \<and>
     content_canonical T y \<and> candidate T y"
  by (auto simp: canonical_for_def content_canonical_def cluster_canonical_def chosen_def)

abbreviation chosen_tables :: "tables \<Rightarrow> tables" where
  "chosen_tables T \<equiv> final_chosen (exact_chosen (marked T))"

lemma final_via_candidate:
  assumes ok: "ready T" and d: "d \<in> set (t_documents T)" and c: "canonical_for T d x y"
    and "candidate T d"
  shows "final_via (chosen_tables T) d = Some (d_id y)"
proof -
  obtain x' y' where xy: "canonical_for T d x' y'"
    "map_of (t_exact_choice (exact_chosen (marked T))) (d_content d) = Some (d_rank x', d_id x')"
    "map_of (t_final_choice (chosen_tables T)) (d_cluster x') = Some (d_rank y', d_id y')"
    by (rule candidate_has_canonical [OF ok d assms(4)])
  have e: "x' = x" "y' = y" using canonical_for_unique [OF ok c xy(1)] by auto
  have "t_exact_choice (chosen_tables T) = t_exact_choice (exact_chosen (marked T))"
    by (simp add: final_chosen_def)
  moreover have "find_doc (chosen_tables T) (d_id x) = Some x"
    using canonical_for_known [OF c] ok by (intro find_doc_known) auto
  ultimately show ?thesis using xy unfolding e by (simp add: final_via_def)
qed

section \<open>The canonical map and the reasons\<close>

lemma map_of_doc_rows:
  assumes "rows_ok (t_documents T)" and "d \<in> set (t_documents T)"
  shows "map_of (map map_entry (doc_rows P (\<lambda>d. KeyBlob (d_id d) (g d)) T)) (d_id d) = (if P d then Some (g d) else None)"
proof -
  have "map_of (map (\<lambda>d. (d_id d, g d)) ds) (d_id d) = (if d \<in> set ds then Some (g d) else None)"
    if "set ds \<subseteq> set (t_documents T)" for ds
    using that by (induction ds) (auto dest: rows_ok_inj [OF assms(1) _ assms(2)])
  from this [of "filter P (docs_by_id T)"] show ?thesis
    using assms(2) by (auto simp: doc_rows_def o_def)
qed

lemma KeyText_doc_rows:
  assumes "rows_ok (t_documents T)" and "d \<in> set (t_documents T)"
  shows "KeyText (d_id d) r \<in> set (doc_rows P (\<lambda>d. KeyText (d_id d) (g d)) T) \<longleftrightarrow> P d \<and> r = g d"
proof
  assume "KeyText (d_id d) r \<in> set (doc_rows P (\<lambda>d. KeyText (d_id d) (g d)) T)"
  then obtain e where e: "e \<in> set (t_documents T)" "P e" "d_id d = d_id e" "r = g e"
    by (auto simp: set_doc_rows)
  have "e = d" by (rule rows_ok_inj [OF assms(1) e(1) assms(2) e(3) [symmetric]])
  with e show "P d \<and> r = g d" by simp
next
  assume "P d \<and> r = g d"
  with assms(2) show "KeyText (d_id d) r \<in> set (doc_rows P (\<lambda>d. KeyText (d_id d) (g d)) T)"
    by (auto simp: set_doc_rows)
qed

lemma marked_free_chosen: "reason_free (chosen_tables T) = reason_free (marked T)"
  by (simp add: final_chosen_def exact_chosen_def)

theorem canonical_map_entry:
  assumes ok: "ready T" and d: "d \<in> set (t_documents T)"
  shows "map_of (t_canonical_map (canonical_tables fast T)) (d_id d) =
    (if candidate T d then final_via (chosen_tables T) d else None)"
proof -
  have f: "reason_free (chosen_tables T) d \<longleftrightarrow> candidate T d"
    using contaminated_free [OF ok d] by (simp add: marked_free_chosen)
  have "candidate T d \<Longrightarrow> \<exists>c. final_via (chosen_tables T) d = Some c"
    using candidate_has_canonical [OF ok d] final_via_candidate [OF ok d] by metis
  moreover have "t_canonical_map (canonical_tables fast T) = map map_entry (canonical_map_rows (chosen_tables T))"
    by (simp add: canonical_tables_def rejected_def mapped_def)
  ultimately show ?thesis
    using map_of_doc_rows [of "chosen_tables T" d] ok d f by (auto simp: canonical_map_rows_def)
qed

lemma canonical_map_keys:
  assumes ok: "ready T"
  shows "set (map fst (t_canonical_map (mapped (chosen_tables T)))) = d_id ` {d \<in> set (t_documents T). candidate T d}"
proof -
  have "i \<in> set (map fst (t_canonical_map (mapped (chosen_tables T)))) \<longleftrightarrow>
      (\<exists>d\<in>set (t_documents T). final_via (chosen_tables T) d \<noteq> None \<and> reason_free (chosen_tables T) d \<and> i = d_id d)" for i
    by (force simp: mapped_def canonical_map_rows_def doc_rows_def)
  moreover have "final_via (chosen_tables T) d \<noteq> None \<and> reason_free (chosen_tables T) d \<longleftrightarrow> candidate T d"
    if d: "d \<in> set (t_documents T)" for d
    using candidate_has_canonical [OF ok d] final_via_candidate [OF ok d] contaminated_free [OF ok d]
    by (metis marked_free_chosen option.distinct(1))
  ultimately show ?thesis by blast
qed

theorem canonical_reasons:
  assumes ok: "ready T" and d: "d \<in> set (t_documents T)"
  shows "(d_id d, r) \<in> set (t_reasons (canonical_tables fast T)) \<longleftrightarrow>
    (d_id d, r) \<in> set (t_reasons T) \<or> (benchmarked T d \<and> r = contamination) \<or>
    (candidate T d \<and> \<not> content_canonical T d \<and> r = ''residual_exact_duplicate'') \<or>
    (content_canonical T d \<and> \<not> cluster_canonical T d \<and> r = residual_reason fast d)"
proof -
  let ?P = "mapped (chosen_tables T)"
  have same: "e = d" if "e \<in> set (t_documents T)" "d_id e = d_id d" for e
    using rows_ok_inj [OF ok that(1) d that(2)] .
  have ex: "exact_canonical ?P d \<longleftrightarrow> content_canonical T d"
    using exact_canonical_iff [OF ok d] by (simp add: mapped_def final_chosen_def)
  have t: "t_exact_choice ?P = t_exact_choice (exact_chosen (marked T))"
    "t_final_choice ?P = t_final_choice (chosen_tables T)"
    by (simp_all add: mapped_def final_chosen_def)
  have a: "KeyText (d_id d) r \<in> set (residual_exact_rows ?P) \<longleftrightarrow>
      candidate T d \<and> \<not> content_canonical T d \<and> r = ''residual_exact_duplicate''"
  proof -
    have "candidate T d \<longrightarrow> map_of (t_exact_choice ?P) (d_content d) \<noteq> None"
      using candidate_has_canonical [OF ok d] t(1) by (metis option.distinct(1))
    moreover have "d_id d \<in> set (map fst (t_canonical_map ?P)) \<longleftrightarrow> candidate T d"
      unfolding canonical_map_keys [OF ok] image_iff using same d by (metis (no_types, lifting) mem_Collect_eq)
    moreover have "KeyText (d_id d) r \<in> set (residual_exact_rows ?P) \<longleftrightarrow>
        (map_of (t_exact_choice ?P) (d_content d) \<noteq> None \<and> \<not> exact_canonical ?P d \<and>
         d_id d \<in> set (map fst (t_canonical_map ?P))) \<and> r = ''residual_exact_duplicate''"
      unfolding residual_exact_rows_def using ok d by (intro KeyText_doc_rows) simp_all
    ultimately show ?thesis using ex by argo
  qed
  have b: "KeyText (d_id d) r \<in> set (residual_final_rows fast ?P) \<longleftrightarrow>
      content_canonical T d \<and> \<not> cluster_canonical T d \<and> r = residual_reason fast d"
  proof -
    have "(case map_of (t_final_choice ?P) (d_cluster d) of None \<Rightarrow> False | Some (_, f) \<Rightarrow> d_id d \<noteq> f)
        \<longleftrightarrow> \<not> cluster_canonical T d" if "content_canonical T d"
    proof -
      have m: "d \<in> set (filter (content_canonical T) (t_documents T))" using that d by simp
      then have "d_cluster d \<in> d_cluster ` set (filter (content_canonical T) (t_documents T))" by blast
      then show ?thesis
        using choice_is_chosen [OF ok _ d, of "filter (content_canonical T) (t_documents T)" d_cluster]
        by (auto simp: t(2) final_choice_lookup [OF ok] cluster_canonical_def map_of_choice_rows Let_def)
    qed
    moreover have "KeyText (d_id d) r \<in> set (residual_final_rows fast ?P) \<longleftrightarrow>
        (exact_canonical ?P d \<and> (case map_of (t_final_choice ?P) (d_cluster d) of
           None \<Rightarrow> False | Some (_, f) \<Rightarrow> d_id d \<noteq> f)) \<and> r = residual_reason fast d"
      unfolding residual_final_rows_def using ok d by (intro KeyText_doc_rows) simp_all
    ultimately show ?thesis using ex by blast
  qed
  have "t_reasons ?P = t_reasons (marked T)"
    by (simp add: mapped_def final_chosen_def exact_chosen_def)
  then show ?thesis
    using a b same d by (auto simp: canonical_tables_def rejected_def set_fold_add_reason contaminated_reasons)
qed

text \<open>The documents left without a reason are the canonical ones of their clusters.\<close>

corollary canonical_accepts:
  assumes ok: "ready T" and d: "d \<in> set (t_documents T)"
  shows "reason_free (canonical_tables fast T) d \<longleftrightarrow> cluster_canonical T d"
proof -
  have "content_canonical T d \<Longrightarrow> candidate T d" "cluster_canonical T d \<Longrightarrow> content_canonical T d"
    by (auto simp: content_canonical_def cluster_canonical_def chosen_def)
  then show ?thesis
    unfolding reason_free_iff [of "canonical_tables fast T"] canonical_reasons [OF ok d]
    unfolding candidate_def reason_free_iff by blast
qed

end
