(* ===== verification/CurateValid.thy ===== *)
theory CurateValid
  imports CurateSpec
begin

text \<open>
  \<^verbatim>\<open>_validate_canonicalization\<close> accepts the tables the nine subphases leave: each of its ten
  conditions, from the meaning of the tables.
\<close>

section \<open>Eligible documents and lookups\<close>

lemma canonical_tables_fields:
  assumes "ready T"
  shows "t_exact_choice (canonical_tables fast T) =
      map choice_of (choice_rows d_content (filter (candidate T) (t_documents T)))"
    and "t_final_choice (canonical_tables fast T) =
      map choice_of (choice_rows d_cluster (filter (content_canonical T) (t_documents T)))"
    and "t_canonical_map (canonical_tables fast T) = map map_entry (canonical_map_rows (chosen_tables T))"
    and "t_benchmark_content (canonical_tables fast T) = t_benchmark_content (benchmark_marked T)"
    and "t_benchmark_final (canonical_tables fast T) = t_benchmark_final (benchmark_marked T)"
  using exact_choice_lookup [OF assms] final_choice_lookup [OF assms]
  by (simp_all add: canonical_tables_def rejected_def mapped_def final_chosen_def exact_chosen_def contaminated_def)

lemma residual_not_inventory: "r \<in> set (residual_reasons fast) \<Longrightarrow> \<not> inventory_reason r"
  by (auto simp: residual_reasons_def inventory_reason_def english_duplicate_reason_def split: if_splits)

lemma contamination_not_residual: "contamination \<notin> set (residual_reasons fast)"
  by (simp add: residual_reasons_def contamination_def english_duplicate_reason_def)

lemma residual_reason_in: "residual_reason fast d \<in> set (residual_reasons fast)"
  by (simp add: residual_reasons_def residual_reason_def)

lemma residual_reason_not_exact: "residual_reason fast d \<noteq> ''residual_exact_duplicate''"
  by (simp add: residual_reason_def english_duplicate_reason_def)

lemma initial_reason: "reasons_ok T \<Longrightarrow> (i, r) \<in> set (t_reasons T) \<Longrightarrow> inventory_reason r"
  by (auto simp: reasons_ok_def list_all_iff)

lemma eligible_row_iff: "eligible_row fast K d \<longleftrightarrow> (\<forall>r. (d_id d, r) \<in> set (t_reasons K) \<longrightarrow> r \<in> set (residual_reasons fast))"
  by (auto simp: eligible_row_def list_all_iff)

lemma eligible_is_candidate:
  assumes ok: "ready T" and r: "reasons_ok T" and d: "d \<in> set (t_documents T)"
  shows "eligible_row fast (canonical_tables fast T) d \<longleftrightarrow> candidate T d"
proof -
  have "r \<notin> set (residual_reasons fast)" if "(d_id d, r) \<in> set (t_reasons T)" for r
    using residual_not_inventory initial_reason [OF assms(2) that] by blast
  moreover have "''residual_exact_duplicate'' \<in> set (residual_reasons fast)" by (simp add: residual_reasons_def)
  ultimately show ?thesis
    unfolding eligible_row_iff canonical_reasons [OF ok d] candidate_def reason_free_iff
    using contamination_not_residual [of fast] residual_reason_in [of fast d] by metis
qed

lemma final_exact_canonical:
  assumes "ready T" and "d \<in> set (t_documents T)"
  shows "exact_canonical (canonical_tables fast T) d \<longleftrightarrow> content_canonical T d"
  using exact_canonical_iff [OF assms]
  by (simp add: canonical_tables_def rejected_def mapped_def final_chosen_def)

lemma final_via_final: "final_via (canonical_tables fast T) = final_via (chosen_tables T)"
  by (simp add: canonical_tables_def rejected_def mapped_def)

lemma residual_of_canonical:
  assumes ok: "ready T" and r: "reasons_ok T" and d: "d \<in> set (t_documents T)"
  shows "(d_id d, s) \<in> set (t_reasons (canonical_tables fast T)) \<and> s \<in> set (residual_reasons fast) \<longleftrightarrow>
    (candidate T d \<and> \<not> content_canonical T d \<and> s = ''residual_exact_duplicate'') \<or>
    (content_canonical T d \<and> \<not> cluster_canonical T d \<and> s = residual_reason fast d)"
proof -
  have "s \<notin> set (residual_reasons fast)" if "(d_id d, s) \<in> set (t_reasons T)"
    using residual_not_inventory initial_reason [OF assms(2) that] by blast
  moreover have "''residual_exact_duplicate'' \<in> set (residual_reasons fast)" by (simp add: residual_reasons_def)
  ultimately show ?thesis
    unfolding canonical_reasons [OF ok d]
    using contamination_not_residual [of fast] residual_reason_in [of fast d] by blast
qed

section \<open>Counts\<close>

lemma length_group_keys [simp]: "length (group_keys ks) = length (remdups ks)"
  by (simp add: group_keys_def)

lemma length_choice_rows [simp]: "length (choice_rows key ds) = length (remdups (map key ds))"
  by (simp add: choice_rows_def)

lemma choices_right: "c \<in> set (map choice_of (choice_rows key ds)) \<Longrightarrow> \<not> wrong_choice key ds c"
  by (auto simp: choice_rows_def Let_def wrong_choice_def filter_empty_conv)

lemma length_canonical_map:
  assumes ok: "ready T"
  shows "length (canonical_map_rows (chosen_tables T)) = length (filter (candidate T) (t_documents T))"
proof -
  have "final_via (chosen_tables T) d \<noteq> None \<and> reason_free (chosen_tables T) d \<longleftrightarrow> candidate T d"
    if d: "d \<in> set (t_documents T)" for d
    using candidate_has_canonical [OF ok d] final_via_candidate [OF ok d] contaminated_free [OF ok d]
    by (metis marked_free_chosen option.distinct(1))
  then have "filter (\<lambda>d. final_via (chosen_tables T) d \<noteq> None \<and> reason_free (chosen_tables T) d) (docs_by_id (chosen_tables T))
      = filter (candidate T) (docs_by_id (chosen_tables T))"
    by (intro filter_cong) simp_all
  then show ?thesis
    by (simp add: canonical_map_rows_def doc_rows_def docs_by_id_def filter_sort)
qed

lemma cluster_canonical_exists:
  assumes ok: "ready T" and d: "content_canonical T d"
  obtains y where "cluster_canonical T y" and "d_cluster y = d_cluster d"
proof -
  have "d \<in> set (filter (content_canonical T) (t_documents T))"
    using d by (simp add: content_canonical_def chosen_def)
  from choice_of_candidate [OF ok _ this, of d_cluster] that show thesis
    by (auto simp: cluster_canonical_def)
qed

lemma cluster_canonical_unique:
  assumes ok: "ready T" and "cluster_canonical T x" and "cluster_canonical T y" and "d_cluster x = d_cluster y"
  shows "x = y"
  by (rule chosen_unique [OF ok, of "filter (content_canonical T) (t_documents T)" d_cluster])
    (use assms in \<open>auto simp: cluster_canonical_def\<close>)

lemma accepted_count:
  assumes ok: "ready T"
  shows "length (filter (cluster_canonical T) (t_documents T)) =
    length (remdups (map d_cluster (filter (content_canonical T) (t_documents T))))"
proof -
  let ?A = "set (filter (cluster_canonical T) (t_documents T))"
  have known: "cluster_canonical T d \<Longrightarrow> content_canonical T d \<and> d \<in> set (t_documents T)" for d
    by (auto simp: cluster_canonical_def chosen_def)
  have "distinct (t_documents T)" using ok by (auto simp: rows_ok_def distinct_map)
  then have "length (filter (cluster_canonical T) (t_documents T)) = card ?A"
    by (metis distinct_card distinct_filter)
  moreover have "inj_on d_cluster ?A"
    using cluster_canonical_unique [OF ok] by (auto intro!: inj_onI)
  then have "card ?A = card (d_cluster ` ?A)" by (simp add: card_image)
  moreover have "d_cluster ` ?A = d_cluster ` set (filter (content_canonical T) (t_documents T))"
  proof (intro equalityI subsetI)
    fix c assume "c \<in> d_cluster ` set (filter (content_canonical T) (t_documents T))"
    then obtain d where "content_canonical T d" "c = d_cluster d" by auto
    then obtain y where "cluster_canonical T y" "d_cluster y = c" using cluster_canonical_exists [OF ok] by metis
    then show "c \<in> d_cluster ` ?A" using known [of y] by force
  qed (use known in auto)
  ultimately show ?thesis by (simp add: length_remdups_card_conv)
qed

section \<open>The validation passes\<close>

lemma select_count_0: "select_count P rows = 0 \<longleftrightarrow> (\<forall>x\<in>set rows. \<not> P x)"
  by (auto simp: select_count_def filter_empty_conv)

lemma no_wrong_map:
  assumes ok: "ready T" and d: "d \<in> set (t_documents T)" and "candidate T d"
  shows "\<not> wrong_map (canonical_tables fast T) d"
proof -
  obtain x y where "canonical_for T d x y" by (rule candidate_has_canonical [OF ok d assms(3)])
  from final_via_candidate [OF ok d this assms(3)] assms(3) show ?thesis
    by (simp add: wrong_map_def canonical_map_entry [OF ok d] final_via_final)
qed

lemma count_pairs:
  assumes "distinct rs"
  shows "select_count (\<lambda>(i, r). i = k \<and> r \<in> S) rs = card {r. (k, r) \<in> set rs \<and> r \<in> S}"
proof -
  let ?P = "\<lambda>(i, r). i = k \<and> r \<in> S"
  have "select_count ?P rs = card (set (filter ?P rs))"
    unfolding select_count_def using assms by (metis distinct_card distinct_filter)
  also have "set (filter ?P rs) = Pair k ` {r. (k, r) \<in> set rs \<and> r \<in> S}" by auto
  also have "card \<dots> = card {r. (k, r) \<in> set rs \<and> r \<in> S}" by (simp add: card_image inj_on_def)
  finally show ?thesis .
qed

lemma no_wrong_residual:
  assumes ok: "ready T" and r: "reasons_ok T" and d: "d \<in> set (t_documents T)" and c: "candidate T d"
  shows "\<not> wrong_residual fast (canonical_tables fast T) d"
proof -
  let ?K = "canonical_tables fast T"
  obtain x y where xy: "canonical_for T d x y" by (rule candidate_has_canonical [OF ok d c])
  have f: "final_via ?K d = Some (d_id y)"
    using final_via_candidate [OF ok d xy c] by (simp add: final_via_final)
  have y: "d_id d = d_id y \<longleftrightarrow> cluster_canonical T d" if "content_canonical T d"
  proof -
    have "x = d"
      by (rule chosen_unique [OF ok, of "filter (candidate T) (t_documents T)" d_content])
        (use xy that in \<open>auto simp: canonical_for_def content_canonical_def\<close>)
    then have cl: "d_cluster y = d_cluster d" "cluster_canonical T y" using xy by (auto simp: canonical_for_def)
    show ?thesis
    proof
      assume "d_id d = d_id y"
      then have "d = y" using rows_ok_inj [OF ok d] canonical_for_known [OF xy] by blast
      then show "cluster_canonical T d" using cl by simp
    next
      assume "cluster_canonical T d"
      from cluster_canonical_unique [OF ok this cl(2)] cl(1) show "d_id d = d_id y" by simp
    qed
  qed
  have "distinct (t_reasons ?K)"
    using r by (simp add: canonical_tables_def rejected_def mapped_def final_chosen_def exact_chosen_def
        contaminated_def benchmark_marked_def reasons_ok_def distinct_fold_add_reason)
  from count_pairs [OF this, of "d_id d" "set (residual_reasons fast)"]
  have n: "select_count (\<lambda>(i, s). i = d_id d \<and> s \<in> set (residual_reasons fast)) (t_reasons ?K) =
      card {s. (candidate T d \<and> \<not> content_canonical T d \<and> s = ''residual_exact_duplicate'') \<or>
        (content_canonical T d \<and> \<not> cluster_canonical T d \<and> s = residual_reason fast d)}"
    unfolding residual_of_canonical [OF ok r d] .
  have ex: "exact_canonical ?K d \<longleftrightarrow> content_canonical T d" by (rule final_exact_canonical [OF ok d])
  show ?thesis
  proof (cases "content_canonical T d")
    case True
    then show ?thesis
      using n ex y [OF True] f c
      by (auto simp: wrong_residual_def canonical_map_entry [OF ok d] final_via_final has_reason_def
          canonical_reasons [OF ok d] Let_def)
  next
    case False
    then have "has_reason ?K d ''residual_exact_duplicate''"
      using c by (simp add: has_reason_def canonical_reasons [OF ok d])
    then show ?thesis
      using n ex False f c by (auto simp: wrong_residual_def canonical_map_entry [OF ok d] final_via_final Let_def)
  qed
qed

lemma contamination_exact:
  assumes ok: "ready T" and r: "reasons_ok T" and d: "d \<in> set (t_documents T)"
  shows "has_reason (canonical_tables fast T) d contamination \<longleftrightarrow> benchmarked T d"
proof -
  have "(d_id d, contamination) \<notin> set (t_reasons T)"
    using initial_reason [OF r] inventory_reason_new(1) by blast
  moreover have "contamination \<noteq> ''residual_exact_duplicate''" "contamination \<noteq> residual_reason fast d"
    by (simp_all add: contamination_def residual_reason_def english_duplicate_reason_def)
  ultimately show ?thesis by (auto simp: has_reason_def canonical_reasons [OF ok d])
qed

lemma in_cluster_iff:
  assumes "ready T"
  shows "in_benchmark_cluster (canonical_tables fast T) d \<longleftrightarrow> benchmarked T d"
  using marked_in_cluster [of T d] canonical_tables_fields(4,5) [OF assms]
  by (simp add: in_benchmark_cluster_def)

definition final_accounting :: "tables \<Rightarrow> accounting" where
  "final_accounting T = (let candidates = filter (candidate T) (t_documents T);
     canonicals = filter (cluster_canonical T) (t_documents T) in
     \<lparr>ac_eligible = length candidates, ac_exact = length (filter (content_canonical T) (t_documents T)),
      ac_final = length canonicals, ac_map = length candidates, ac_accepted = length canonicals\<rparr>)"

lemma content_count:
  assumes ok: "ready T"
  shows "length (filter (content_canonical T) (t_documents T)) =
    length (remdups (map d_content (filter (candidate T) (t_documents T))))"
proof -
  let ?A = "set (filter (content_canonical T) (t_documents T))"
  have known: "content_canonical T d \<Longrightarrow> candidate T d \<and> d \<in> set (t_documents T)" for d
    by (auto simp: content_canonical_def chosen_def)
  have "distinct (t_documents T)" using ok by (auto simp: rows_ok_def distinct_map)
  then have "length (filter (content_canonical T) (t_documents T)) = card ?A"
    by (metis distinct_card distinct_filter)
  moreover have "inj_on d_content ?A"
    using chosen_unique [OF ok, of "filter (candidate T) (t_documents T)" d_content]
    by (auto simp: content_canonical_def intro!: inj_onI)
  then have "card ?A = card (d_content ` ?A)" by (simp add: card_image)
  moreover have "d_content ` ?A = d_content ` set (filter (candidate T) (t_documents T))"
  proof (intro equalityI subsetI)
    fix c assume "c \<in> d_content ` set (filter (candidate T) (t_documents T))"
    then obtain d where "d \<in> set (t_documents T)" "candidate T d" "c = d_content d" by auto
    then obtain x y where "canonical_for T d x y" "c = d_content d" using candidate_has_canonical [OF ok] by metis
    then have "content_canonical T x" "d_content x = c" by (auto simp: canonical_for_def)
    then show "c \<in> d_content ` ?A" using known [of x] by force
  qed (use known in auto)
  ultimately show ?thesis by (simp add: length_remdups_card_conv)
qed

theorem validation_passes:
  assumes ok: "ready T" and r: "reasons_ok T"
  shows "validate_canonicalization fast (canonical_tables fast T) = Inr (final_accounting T)"
proof -
  let ?K = "canonical_tables fast T" and ?D = "t_documents T"
  have el: "filter (eligible_row fast ?K) ?D = filter (candidate T) ?D"
    by (rule filter_cong) (simp_all add: eligible_is_candidate [OF ok r])
  have ex: "filter (exact_canonical ?K) ?D = filter (content_canonical T) ?D"
    by (rule filter_cong) (simp_all add: final_exact_canonical [OF ok])
  have acc: "filter (reason_free ?K) ?D = filter (cluster_canonical T) ?D"
    by (rule filter_cong) (simp_all add: canonical_accepts [OF ok])
  note fields = canonical_tables_fields [OF ok, of fast]
  have choices: "select_count (wrong_choice d_content (filter (candidate T) ?D)) (t_exact_choice ?K) = 0"
    "select_count (wrong_choice d_cluster (filter (content_canonical T) ?D)) (t_final_choice ?K) = 0"
    unfolding select_count_0 fields using choices_right by blast+
  have maps: "select_count (wrong_map ?K) (filter (candidate T) ?D) = 0"
    "select_count (wrong_residual fast ?K) (filter (candidate T) ?D) = 0"
    unfolding select_count_0 using no_wrong_map [OF ok] no_wrong_residual [OF ok r] by auto
  have missing: "select_count (\<lambda>d. in_benchmark_cluster ?K d \<and> \<not> has_reason ?K d contamination) ?D = 0"
    unfolding select_count_0 using contamination_exact [OF ok r] in_cluster_iff [OF ok] by blast
  have extra: "[d. (i, s) \<leftarrow> t_reasons ?K, s = contamination, d \<leftarrow> ?D, d_id d = i, \<not> in_benchmark_cluster ?K d] = []"
    using contamination_exact [OF ok r, of _ fast] by (auto simp: concat_eq_Nil_conv has_reason_def in_cluster_iff [OF ok])
  have lens: "length (t_exact_choice ?K) = length (filter (content_canonical T) ?D)"
    "length (t_final_choice ?K) = length (filter (cluster_canonical T) ?D)"
    "length (t_canonical_map ?K) = length (filter (candidate T) ?D)"
    using content_count [OF ok] accepted_count [OF ok] length_canonical_map [OF ok]
    by (simp_all add: fields)
  show ?thesis
    unfolding validate_canonicalization_def Let_def stage_simps el ex extra
    using choices maps missing lens content_count [OF ok] accepted_count [OF ok]
    by (simp add: select_count_def [of "reason_free ?K"] acc final_accounting_def Let_def)
qed

end
