(* ===== verification/CurateNear.thy ===== *)
theory CurateNear
  imports CurateValid
begin

text \<open>
  Streams of input rows that are resumed at the committed row, and the English near-duplicate map:
  loaded from its rows, checked, and applied to the clusters of the English documents.
\<close>

section \<open>Streams\<close>

text \<open>
  \<open>J k\<close> is the durable state with \<open>k\<close> rows committed. A flush of the rows since the last commit
  moves from one to another; a stream resumed anywhere ends with all rows committed.
\<close>

lemma stream_tail_runs:
  assumes b: "0 < b" and len: "length xs = length rows"
    and parse: "\<And>i. i < length rows \<Longrightarrow> parse i (rows ! i) = Inr (xs ! i)"
    and flush: "\<And>k i. k < i \<Longrightarrow> i \<le> length rows \<Longrightarrow> i \<le> k + b \<Longrightarrow>
      runs (J k) (flush (take (i - k) (drop k xs)) i) 1 (\<lambda>_. J i) (\<lambda>db. \<exists>k. J k db) E"
    and "skip \<le> i" and "k \<le> i" and "i \<le> length rows" and "i < k + b"
  shows "runs (J k) (stream_loop b parse flush skip i (take (i - k) (drop k xs)) (drop i rows)) (length rows - k)
    (\<lambda>_. J (length rows)) (\<lambda>db. \<exists>k. J k db) E"
  using assms(5-8)
proof (induction "length rows - i" arbitrary: i k)
  case 0
  then have i: "i = length rows" by simp
  show ?case
  proof (cases "k = i")
    case True
    then show ?thesis using i by (simp add: runs_def give_def)
  next
    case False
    with 0 have k: "k < i" by simp
    have "runs (J k) (flush (take (i - k) (drop k xs)) i) 1 (\<lambda>_. J i) (\<lambda>db. \<exists>k. J k db) E"
      by (rule flush) (use k 0 in auto)
    moreover have "take (i - k) (drop k xs) \<noteq> []" using k i len by simp
    then have "stream_loop b parse flush skip i (take (i - k) (drop k xs)) (drop i rows) =
        flush (take (i - k) (drop k xs)) i" using i by simp
    ultimately have "runs (J k) (stream_loop b parse flush skip i (take (i - k) (drop k xs)) (drop i rows)) 1
        (\<lambda>_. J i) (\<lambda>db. \<exists>k. J k db) E" by simp
    then show ?thesis by (rule runs_conseq) (use k i in auto)
  qed
next
  case (Suc n)
  then have i: "i < length rows" by simp
  have batch: "take (i - k) (drop k xs) @ [xs ! i] = take (Suc i - k) (drop k xs)"
    using i Suc.prems len by (simp add: Suc_diff_le take_Suc_conv_app_nth)
  have l: "length (take (Suc i - k) (drop k xs)) = Suc i - k" using i len Suc.prems by simp
  have drop: "drop i rows = rows ! i # drop (Suc i) rows" using i by (simp add: Cons_nth_drop_Suc)
  have step: "stream_loop b parse flush skip i (take (i - k) (drop k xs)) (drop i rows) =
      jbind (check (\<lambda>_. Inr (xs ! i))) (\<lambda>x. if b \<le> Suc i - k
        then jbind (flush (take (Suc i - k) (drop k xs)) (i + 1)) (\<lambda>_. stream_loop b parse flush skip (i + 1) [] (drop (Suc i) rows))
        else stream_loop b parse flush skip (i + 1) (take (Suc i - k) (drop k xs)) (drop (Suc i) rows))"
    using Suc.prems i l by (auto simp: drop parse jbind_def check_def batch fun_eq_iff Let_def)
  have "runs (J k) (if b \<le> Suc i - k
        then jbind (flush (take (Suc i - k) (drop k xs)) (i + 1)) (\<lambda>_. stream_loop b parse flush skip (i + 1) [] (drop (Suc i) rows))
        else stream_loop b parse flush skip (i + 1) (take (Suc i - k) (drop k xs)) (drop (Suc i) rows)) (length rows - k)
      (\<lambda>_. J (length rows)) (\<lambda>db. \<exists>k. J k db) E"
  proof (cases "b \<le> Suc i - k")
    case True
    have f: "runs (J k) (flush (take (Suc i - k) (drop k xs)) (Suc i)) 1 (\<lambda>_. J (Suc i)) (\<lambda>db. \<exists>k. J k db) E"
      by (rule flush) (use Suc.prems i in auto)
    have r: "runs (J (Suc i)) (stream_loop b parse flush skip (Suc i) [] (drop (Suc i) rows)) (length rows - Suc i)
        (\<lambda>_. J (length rows)) (\<lambda>db. \<exists>k. J k db) E"
      using Suc.hyps(1) [of "Suc i" "Suc i"] Suc.hyps(2) Suc.prems i b by simp
    from runs_bind [OF f r] True Suc.prems i show ?thesis by (auto elim!: runs_conseq)
  next
    case False
    with Suc.hyps(1) [of "Suc i" k] Suc.hyps(2) Suc.prems i show ?thesis by simp
  qed
  then show ?case unfolding step by (auto simp: runs_def jbind_def check_def)
qed

lemma stream_skip:
  assumes "i \<le> skip" and "skip \<le> length rows"
  shows "stream_loop b parse flush skip i [] (drop i rows) = stream_loop b parse flush skip skip [] (drop skip rows)"
  using assms
proof (induction "skip - i" arbitrary: i)
  case (Suc n)
  then have "i < skip" and "drop i rows = rows ! i # drop (Suc i) rows" by (simp_all add: Cons_nth_drop_Suc)
  with Suc show ?case by simp
qed simp

lemma stream_runs:
  assumes "0 < b" and "length xs = length rows"
    and "\<And>i. i < length rows \<Longrightarrow> parse i (rows ! i) = Inr (xs ! i)"
    and "\<And>k i. k < i \<Longrightarrow> i \<le> length rows \<Longrightarrow> i \<le> k + b \<Longrightarrow>
      runs (J k) (flush (take (i - k) (drop k xs)) i) 1 (\<lambda>_. J i) (\<lambda>db. \<exists>k. J k db) E"
    and "k \<le> length rows"
  shows "runs (J k) (stream_loop b parse flush k 0 [] rows) (length rows - k) (\<lambda>_. J (length rows))
    (\<lambda>db. \<exists>k. J k db) E"
proof -
  have "runs (J k) (stream_loop b parse flush k k (take (k - k) (drop k xs)) (drop k rows)) (length rows - k)
      (\<lambda>_. J (length rows)) (\<lambda>db. \<exists>k. J k db) E"
    by (rule stream_tail_runs [where J = J and parse = parse and flush = flush])
      (use assms in simp_all)
  then show ?thesis using stream_skip [of 0 k rows b parse flush] assms(5) by simp
qed

section \<open>The near-duplicate map\<close>

definition near_pairs :: "json list \<Rightarrow> (blob \<times> blob) list" where
  "near_pairs mapping = (case mapM (parse_near_row 0) mapping of Inl e \<Rightarrow> [] | Inr ps \<Rightarrow> ps)"

text \<open>
  A mapping the curation accepts: as many rows as the manifest and the inventory have, digests and
  cluster names in every row, each English document once.
\<close>

definition mapping_ok :: "curate_config \<Rightarrow> tables \<Rightarrow> json list \<Rightarrow> bool" where
  "mapping_ok c T mapping \<longleftrightarrow> cc_near_records c = select_count is_english (t_documents T) \<and>
     length mapping = cc_near_records c \<and>
     list_all (\<lambda>row. case parse_near_row 0 row of Inl e \<Rightarrow> False | Inr x \<Rightarrow> True) mapping \<and>
     distinct (map fst (near_pairs mapping)) \<and>
     fst ` set (near_pairs mapping) \<subseteq> d_id ` set (filter is_english (t_documents T))"

lemma parse_near_row_index: "parse_near_row i row = parse_near_row 0 row"
  by (simp add: parse_near_row_def)

lemma near_pairs_rows:
  assumes "mapping_ok c T mapping"
  shows "length (near_pairs mapping) = length mapping"
    and "i < length mapping \<Longrightarrow> parse_near_row i (mapping ! i) = Inr (near_pairs mapping ! i)"
proof -
  have "list_all (\<lambda>row. case parse_near_row 0 row of Inl e \<Rightarrow> False | Inr x \<Rightarrow> True) mapping"
    using assms by (simp add: mapping_ok_def)
  then have "\<exists>ps. mapM (parse_near_row 0) mapping = Inr ps"
    by (induction mapping) (auto split: sum.splits)
  then obtain ps where ps: "mapM (parse_near_row 0) mapping = Inr ps" by blast
  then have "near_pairs mapping = ps" by (simp only: near_pairs_def sum.case)
  with ps [unfolded mapM_eq_Inr] have "list_all2 (\<lambda>row p. parse_near_row 0 row = Inr p) mapping (near_pairs mapping)"
    by simp
  then show "length (near_pairs mapping) = length mapping"
    and "i < length mapping \<Longrightarrow> parse_near_row i (mapping ! i) = Inr (near_pairs mapping ! i)"
    by (auto simp: list_all2_conv_all_nth parse_near_row_index [of i])
qed

definition loading :: "(blob \<times> blob) list \<Rightarrow> tables \<Rightarrow> cur_db \<Rightarrow> nat \<Rightarrow> cur_db \<Rightarrow> bool" where
  "loading ps T db0 k db \<longleftrightarrow> k \<le> length ps \<and> db_tables db = T\<lparr>t_near_map := take k ps\<rparr> \<and>
     frame {near_load_name} db0 db \<and>
     (\<exists>sp. progress near_load_name db = Some sp \<and> \<not> sp_complete sp \<and> sp_cursor sp = RowCursor k \<and> sp_rows sp = k)"

definition load_open :: "(blob \<times> blob) list \<Rightarrow> tables \<Rightarrow> cur_db \<Rightarrow> cur_db \<Rightarrow> bool" where
  "load_open ps T db0 db \<longleftrightarrow> (progress near_load_name db = None \<and> db_tables db = T \<and> frame {near_load_name} db0 db) \<or>
     (\<exists>k. loading ps T db0 k db)"

definition load_complete :: "cur_db \<Rightarrow> bool" where
  "load_complete db \<longleftrightarrow> (\<exists>sp. progress near_load_name db = Some sp \<and> sp_complete sp \<and>
     sp_cursor sp = RowCursor (sp_rows sp))"

definition load_closed :: "(blob \<times> blob) list \<Rightarrow> tables \<Rightarrow> cur_db \<Rightarrow> cur_db \<Rightarrow> bool" where
  "load_closed ps T db0 db \<longleftrightarrow> db_tables db = T\<lparr>t_near_map := ps\<rparr> \<and> frame {near_load_name} db0 db \<and> load_complete db"

lemma insert_all_unique:
  "distinct (map key (xs @ ys)) \<Longrightarrow> foldM (\<lambda>rows row. insert_unique key row rows) xs ys = Inr (xs @ ys)"
proof (induction ys arbitrary: xs)
  case (Cons y ys)
  then have "insert_unique key y xs = Inr (xs @ [y])" by (intro insert_unique_fresh) auto
  with Cons.IH [of "xs @ [y]"] Cons.prems show ?case by simp
qed simp

lemma flush_mapping_runs:
  assumes d: "distinct (map fst ps)" and "k < i" and "i \<le> length ps" and "i \<le> k + b"
  shows "runs (loading ps T db0 k) (flush_mapping b (take (i - k) (drop k ps)) i) 1 (\<lambda>_. loading ps T db0 i)
    (\<lambda>db. \<exists>k. loading ps T db0 k db) E"
proof -
  let ?batch = "take (i - k) (drop k ps)"
  have split: "take k ps @ ?batch = take i ps"
    using assms(2) by (metis le_add_diff_inverse less_imp_le take_add)
  have "distinct (map fst (take k ps @ ?batch))"
    using d unfolding split by (simp add: take_map [symmetric])
  then have ins: "foldM (\<lambda>rows row. insert_unique fst row rows) (take k ps) ?batch = Inr (take i ps)"
    using insert_all_unique [of fst "take k ps" ?batch] split by simp
  have len: "length ?batch = i - k" using assms by simp
  show ?thesis unfolding runs_def
  proof (intro allI impI)
    fix n db assume l: "loading ps T db0 k db"
    then obtain sp where sp: "progress near_load_name db = Some sp" "\<not> sp_complete sp" "sp_rows sp = k"
      by (auto simp: loading_def)
    define sp' where "sp' = sp\<lparr>sp_cursor := RowCursor i, sp_rows := i, sp_tokens := sp_tokens sp + 0,
      sp_batches := sp_batches sp + 1, sp_details := sp_details sp\<rparr>"
    define db' where "db' = set_progress near_load_name sp' (db\<lparr>db_tables := (db_tables db)\<lparr>t_near_map := take i ps\<rparr>\<rparr>)"
    have body: "rbind (foldM (\<lambda>rows row. insert_unique fst row rows) (t_near_map (db_tables db)) ?batch) (\<lambda>rows.
        commit_bounded_batch b near_load_name (RowCursor i) (length ?batch) 0 None
         (db\<lparr>db_tables := (db_tables db)\<lparr>t_near_map := rows\<rparr>\<rparr>)) = Inr (sp', db')"
      using l sp assms by (simp add: loading_def ins len commit_bounded_batch_def record_transaction_def
          sp'_def db'_def Let_def)
    have "loading ps T db0 i db'"
      using l sp(2) assms(3) frame_trans [OF _ frame_set_progress, of "{near_load_name}" db0 db near_load_name "{near_load_name}"]
      by (auto simp: loading_def db'_def sp'_def)
    then show "case flush_mapping b ?batch i n db of
        (Returned x, m, db') \<Rightarrow> loading ps T db0 i db' \<and> n \<le> m + 1
      | (Raised e, m, db') \<Rightarrow> E e db' | (Killed, m, db') \<Rightarrow> (\<exists>k. loading ps T db0 k db') \<and> n < 1"
      unfolding flush_mapping_def jbind_def transaction_def body using l by (auto simp: give_def split: nat.split)
  qed
qed

lemma check_near_map_ok:
  assumes ok: "ready T" and m: "mapping_ok c T mapping"
  shows "check_near_map c (select_count is_english (t_documents T)) (T\<lparr>t_near_map := near_pairs mapping\<rparr>) =
    Inr (length (near_pairs mapping))"
proof -
  let ?ps = "near_pairs mapping" and ?E = "filter is_english (t_documents T)"
  have len: "length ?ps = length ?E" "length ?E = cc_near_records c"
    using m near_pairs_rows(1) [OF m] by (auto simp: mapping_ok_def select_count_def)
  have sub: "fst ` set ?ps \<subseteq> d_id ` set ?E" and d: "distinct (map fst ?ps)" using m by (auto simp: mapping_ok_def)
  have "distinct (map d_id ?E)" using ok by (simp add: rows_ok_def distinct_map_filter)
  then have "card (d_id ` set ?E) = card (fst ` set ?ps)"
    using d len by (metis distinct_card length_map list.set_map)
  then have eq: "fst ` set ?ps = d_id ` set ?E" using sub by (simp add: card_subset_eq)
  have "find_doc (T\<lparr>t_near_map := ?ps\<rparr>) = find_doc T" by (simp add: find_doc_def fun_eq_iff)
  moreover have "\<exists>d. find_doc T i = Some d \<and> is_english d" if "(i, x) \<in> set ?ps" for i x
  proof -
    have "i \<in> d_id ` set ?E" using eq that by force
    then show ?thesis using find_doc_known [OF ok] by auto
  qed
  ultimately have "select_count (\<lambda>(i, _). case find_doc (T\<lparr>t_near_map := ?ps\<rparr>) i of None \<Rightarrow> True | Some d \<Rightarrow> \<not> is_english d) ?ps = 0"
    unfolding select_count_0 by fastforce
  moreover have "filter (\<lambda>d. is_english d \<and> d_id d \<in> set (map fst ?ps)) (t_documents T) = ?E"
    using eq by (intro filter_cong) auto
  ultimately show ?thesis using len by (simp add: check_near_map_def Let_def select_count_def [of "\<lambda>d. is_english d \<and> _ d"]
      select_count_def [of is_english])
qed

lemma start_load_runs:
  assumes "t_near_map T = []"
  shows "runs (load_open ps T db0) (start_subphase near_load_name (RowCursor 0) d) 1
    (\<lambda>sp db. \<exists>k. loading ps T db0 k db \<and> \<not> sp_complete sp \<and> sp_cursor sp = RowCursor k \<and> sp_rows sp = k)
    (load_open ps T db0) E"
  unfolding runs_def
proof (intro allI impI)
  fix n db assume o: "load_open ps T db0 db"
  show "case start_subphase near_load_name (RowCursor 0) d n db of
      (Returned sp, m, db') \<Rightarrow> (\<exists>k. loading ps T db0 k db' \<and> \<not> sp_complete sp \<and> sp_cursor sp = RowCursor k \<and> sp_rows sp = k) \<and> n \<le> m + 1
    | (Raised e, m, db') \<Rightarrow> E e db' | (Killed, m, db') \<Rightarrow> load_open ps T db0 db' \<and> n < 1"
  proof (cases "progress near_load_name db")
    case None
    with o have t: "db_tables db = T" and f: "frame {near_load_name} db0 db"
      by (auto simp: load_open_def loading_def)
    have "loading ps T db0 0 (set_progress near_load_name (new_subphase (RowCursor 0) d) db)"
      using t f assms by (auto simp: loading_def new_subphase_def frame_def)
    then show ?thesis using o None
      by (auto simp: start_subphase_def transaction_def Let_def new_subphase_def split: nat.split)
  next
    case (Some sp)
    with o obtain k where "loading ps T db0 k db" by (auto simp: load_open_def)
    with Some show ?thesis by (auto simp: start_subphase_def loading_def)
  qed
qed

lemma complete_load_runs:
  "runs (loading ps T db0 (length ps)) (complete_subphase b near_load_name d) 1 (\<lambda>_. load_closed ps T db0)
     (load_open ps T db0) E"
  unfolding runs_def
proof (intro allI impI)
  fix n db assume l: "loading ps T db0 (length ps) db"
  then obtain sp where sp: "progress near_load_name db = Some sp" "\<not> sp_complete sp"
    "sp_cursor sp = RowCursor (length ps)" "sp_rows sp = length ps" by (auto simp: loading_def)
  have "load_closed ps T db0 (set_progress near_load_name (sp\<lparr>sp_complete := True, sp_details := d\<rparr>) db)"
    using l sp by (auto simp: load_closed_def loading_def load_complete_def frame_def)
  moreover have "load_open ps T db0 db" using l by (auto simp: load_open_def)
  ultimately show "case complete_subphase b near_load_name d n db of
      (Returned sp, m, db') \<Rightarrow> load_closed ps T db0 db' \<and> n \<le> m + 1
    | (Raised e, m, db') \<Rightarrow> E e db' | (Killed, m, db') \<Rightarrow> load_open ps T db0 db' \<and> n < 1"
    using sp by (auto simp: complete_subphase_def transaction_def record_transaction_def Let_def split: nat.split)
qed

lemma load_near_map_runs:
  assumes ok: "ready T" and m: "mapping_ok c T mapping" and b: "0 < cc_batch_size c" and "t_near_map T = []"
  defines "english \<equiv> select_count is_english (t_documents T)" and "ps \<equiv> near_pairs mapping"
  shows "runs (load_open ps T db0) (load_near_map c english mapping) (length ps + 2) (\<lambda>_. load_closed ps T db0)
    (load_open ps T db0) E"
proof -
  have len: "length ps = length mapping" unfolding ps_def by (rule near_pairs_rows [OF m])
  have d: "distinct (map fst ps)" using m by (simp add: mapping_ok_def ps_def)
  have records: "length mapping = cc_near_records c" using m by (simp add: mapping_ok_def)
  have stream: "runs (loading ps T db0 k) (stream_loop (cc_batch_size c) parse_near_row (flush_mapping (cc_batch_size c)) k 0 [] mapping)
      (length ps) (\<lambda>_. loading ps T db0 (length ps)) (load_open ps T db0) E" if "k \<le> length ps" for k
  proof -
    have "runs (loading ps T db0 k) (stream_loop (cc_batch_size c) parse_near_row (flush_mapping (cc_batch_size c)) k 0 [] mapping)
        (length mapping - k) (\<lambda>_. loading ps T db0 (length mapping)) (\<lambda>db. \<exists>k. loading ps T db0 k db) E"
      by (rule stream_runs [where J = "loading ps T db0" and xs = ps])
        (use b len that near_pairs_rows(2) [OF m] flush_mapping_runs [OF d] in \<open>auto simp: ps_def\<close>)
    then show ?thesis by (rule runs_conseq) (auto simp: len load_open_def)
  qed
  have tail: "runs (loading ps T db0 (length ps)) (if length mapping \<noteq> cc_near_records c
      then throw (CurationError ''English near-map has the wrong number of rows'')
      else jbind (check (\<lambda>db. check_near_map c english (db_tables db))) (\<lambda>mapped.
        jbind (complete_subphase (cc_batch_size c) near_load_name (f mapped)) (\<lambda>_. give ()))) 1
      (\<lambda>_. load_closed ps T db0) (load_open ps T db0) E" for f
  proof -
    have "runs (loading ps T db0 (length ps)) (check (\<lambda>db. check_near_map c english (db_tables db))) 0
        (\<lambda>_. loading ps T db0 (length ps)) (load_open ps T db0) E"
      by (rule runs_check) (auto simp: loading_def check_near_map_ok [OF ok m, folded english_def ps_def])
    moreover have "runs (loading ps T db0 (length ps))
        (jbind (complete_subphase (cc_batch_size c) near_load_name (f mapped)) (\<lambda>_. give ())) (1 + 0)
        (\<lambda>_. load_closed ps T db0) (load_open ps T db0) E" for mapped
      by (rule runs_bind [OF complete_load_runs]) (simp add: runs_give)
    ultimately have "runs (loading ps T db0 (length ps))
        (jbind (check (\<lambda>db. check_near_map c english (db_tables db))) (\<lambda>mapped.
          jbind (complete_subphase (cc_batch_size c) near_load_name (f mapped)) (\<lambda>_. give ()))) (0 + (1 + 0))
        (\<lambda>_. load_closed ps T db0) (load_open ps T db0) E" by (rule runs_bind)
    then show ?thesis by (simp add: records)
  qed
  have body: "runs (\<lambda>db. \<exists>k. loading ps T db0 k db \<and> \<not> sp_complete sp \<and> sp_cursor sp = RowCursor k \<and> sp_rows sp = k)
      (case sp_cursor sp of
       RowCursor input_rows \<Rightarrow>
         if input_rows \<noteq> sp_rows sp then throw (CurationError ''English near-map cursor/counter mismatch'')
         else if sp_complete sp then again
         else jbind (stream_loop (cc_batch_size c) parse_near_row (flush_mapping (cc_batch_size c))
             (sp_rows sp) 0 [] mapping) (\<lambda>_.
           if length mapping \<noteq> cc_near_records c
           then throw (CurationError ''English near-map has the wrong number of rows'')
           else jbind (check (\<lambda>db. check_near_map c english (db_tables db))) (\<lambda>mapped.
             jbind (complete_subphase (cc_batch_size c) near_load_name (f mapped)) (\<lambda>_. give ())))
     | _ \<Rightarrow> other) (length ps + 1) (\<lambda>_. load_closed ps T db0) (load_open ps T db0) E" for sp f again other
  proof (rule runs_pointwise)
    fix db assume "\<exists>k. loading ps T db0 k db \<and> \<not> sp_complete sp \<and> sp_cursor sp = RowCursor k \<and> sp_rows sp = k"
    then obtain k where k: "loading ps T db0 k db" "\<not> sp_complete sp" "sp_cursor sp = RowCursor k" "sp_rows sp = k"
      by blast
    then have le: "k \<le> length ps" by (simp add: loading_def)
    from runs_bind [OF stream [OF le] tail [of f]] k
    show "runs (\<lambda>d. d = db) (case sp_cursor sp of
       RowCursor input_rows \<Rightarrow>
         if input_rows \<noteq> sp_rows sp then throw (CurationError ''English near-map cursor/counter mismatch'')
         else if sp_complete sp then again
         else jbind (stream_loop (cc_batch_size c) parse_near_row (flush_mapping (cc_batch_size c))
             (sp_rows sp) 0 [] mapping) (\<lambda>_.
           if length mapping \<noteq> cc_near_records c
           then throw (CurationError ''English near-map has the wrong number of rows'')
           else jbind (check (\<lambda>db. check_near_map c english (db_tables db))) (\<lambda>mapped.
             jbind (complete_subphase (cc_batch_size c) near_load_name (f mapped)) (\<lambda>_. give ())))
     | _ \<Rightarrow> other) (length ps + 1) (\<lambda>_. load_closed ps T db0) (load_open ps T db0) E"
      by (auto elim!: runs_conseq)
  qed
  show ?thesis
    unfolding load_near_map_def
    by (rule runs_conseq [OF runs_bind [OF start_load_runs [OF assms(4)] body]]) simp_all
qed

text \<open>Run again after it has completed, the stage checks the table and changes nothing.\<close>

lemma load_near_map_again:
  assumes "\<And>db. P db \<Longrightarrow> load_complete db \<and> length (t_near_map (db_tables db)) = cc_near_records c"
  shows "runs P (load_near_map c english mapping) 0 (\<lambda>_. P) I E"
  unfolding runs_def
proof (intro allI impI)
  fix n db assume p: "P db"
  from assms [OF p] obtain sp where "progress near_load_name db = Some sp" "sp_complete sp"
    "sp_cursor sp = RowCursor (sp_rows sp)" "length (t_near_map (db_tables db)) = cc_near_records c"
    by (auto simp: load_complete_def)
  with p show "case load_near_map c english mapping n db of
      (Returned x, m, db') \<Rightarrow> P db' \<and> n \<le> m + 0
    | (Raised e, m, db') \<Rightarrow> E e db' | (Killed, m, db') \<Rightarrow> I db' \<and> n < 0"
    by (simp add: load_near_map_def jbind_def start_subphase_def check_def)
qed

section \<open>Applying the map\<close>

definition reclustered :: "(blob \<times> blob) list \<Rightarrow> cur_doc list \<Rightarrow> cur_doc list" where
  "reclustered ps = map (\<lambda>d. case map_of ps (d_id d) of None \<Rightarrow> d | Some c \<Rightarrow> d\<lparr>d_cluster := c\<rparr>)"

lemma executemany_recluster:
  "distinct (map fst ps) \<Longrightarrow> executemany update_final_cluster (map (\<lambda>(i, c). KeyBlob i c) ps) T =
     Inr (T\<lparr>t_documents := reclustered ps (t_documents T)\<rparr>)"
proof (induction ps arbitrary: T)
  case Nil
  then show ?case by (simp add: executemany_def reclustered_def)
next
  case (Cons p ps)
  obtain i c where p: "p = (i, c)" by (cases p)
  have "map_of ps i = None" using Cons.prems by (simp add: p map_of_eq_None_iff)
  then have "reclustered ps (map (\<lambda>d. if d_id d = i then d\<lparr>d_cluster := c\<rparr> else d) (t_documents T)) =
      reclustered (p # ps) (t_documents T)"
    by (auto simp: reclustered_def p split: option.split)
  with Cons show ?case by (simp add: executemany_def p update_final_cluster_def)
qed

lemma near_pair_digest:
  assumes m: "mapping_ok c T mapping" and "(i, x) \<in> set (near_pairs mapping)"
  shows "length x = 32"
proof -
  obtain j where j: "j < length mapping" "near_pairs mapping ! j = (i, x)"
    using assms(2) near_pairs_rows(1) [OF m] by (auto simp: in_set_conv_nth)
  then have "parse_near_row j (mapping ! j) = Inr (i, x)" using near_pairs_rows(2) [OF m j(1)] by simp
  then show ?thesis
    by (cases "jget (mapping ! j) ''cluster_id''")
      (auto simp: parse_near_row_def res_simps stable_digest_def length_sha256_digest split: if_splits)
qed

lemma mapping_covers:
  assumes ok: "ready T" and m: "mapping_ok c T mapping" and d: "d \<in> set (t_documents T)"
  shows "map_of (near_pairs mapping) (d_id d) \<noteq> None \<longleftrightarrow> is_english d"
proof -
  let ?ps = "near_pairs mapping" and ?E = "filter is_english (t_documents T)"
  have "length ?ps = length ?E" using m near_pairs_rows(1) [OF m] by (auto simp: mapping_ok_def select_count_def)
  moreover have sub: "fst ` set ?ps \<subseteq> d_id ` set ?E" and "distinct (map fst ?ps)" using m by (auto simp: mapping_ok_def)
  moreover have "distinct (map d_id ?E)" using ok by (simp add: rows_ok_def distinct_map_filter)
  ultimately have "card (d_id ` set ?E) = card (fst ` set ?ps)" by (metis distinct_card length_map list.set_map)
  then have "fst ` set ?ps = d_id ` set ?E" using sub by (simp add: card_subset_eq)
  then show ?thesis using rows_ok_inj [OF ok _ d] d by (auto simp: map_of_eq_None_iff)
qed

text \<open>The tables once the map is applied.\<close>

definition clustered :: "json list \<Rightarrow> tables \<Rightarrow> tables" where
  "clustered mapping T = T\<lparr>t_near_map := near_pairs mapping,
     t_documents := reclustered (near_pairs mapping) (t_documents T)\<rparr>"

lemma reclustered_fields:
  "map d_id (reclustered ps docs) = map d_id docs" "map d_bucket (reclustered ps docs) = map d_bucket docs"
  by (auto simp: reclustered_def split: option.split)

lemma near_apply_writes:
  assumes ok: "ready T" and m: "mapping_ok c T mapping"
  defines "loaded \<equiv> T\<lparr>t_near_map := near_pairs mapping\<rparr>"
  shows "writes_to (near_apply e) loaded (near_apply_rows loaded) (clustered mapping T)"
proof (rule writes_toI [OF recluster.writes_all])
  show "near_ready loaded" using ok near_pair_digest [OF m] by (auto simp: loaded_def)
next
  fix T' assume w: "executemany (ks_write (near_apply e)) (near_apply_rows loaded) loaded = Inr T'"
  let ?ps = "near_pairs mapping"
  let ?ds = "filter (\<lambda>d. is_english d \<and> map_of ?ps (d_id d) \<noteq> None) (docs_by_id loaded)"
  let ?qs = "map (\<lambda>d. (d_id d, the (map_of ?ps (d_id d)))) ?ds"
  have rows: "near_apply_rows loaded = map (\<lambda>(i, c). KeyBlob i c) ?qs"
    by (simp add: near_apply_rows_def doc_rows_def loaded_def o_def)
  have dd: "distinct (map d_id ?ds)"
    using ok by (intro distinct_map_filter) (auto simp: docs_by_id_def loaded_def rows_ok_def distinct_map)
  then have q: "distinct (map fst ?qs)" by (simp add: o_def)
  have "T' = loaded\<lparr>t_documents := reclustered ?qs (t_documents loaded)\<rparr>"
    using w executemany_recluster [OF q, of loaded] by (simp add: rows near_apply_def)
  moreover have "map_of ?qs (d_id d) = map_of ?ps (d_id d)" if d: "d \<in> set (t_documents T)" for d
  proof (cases "is_english d")
    case True
    then have "d \<in> set ?ds" using d mapping_covers [OF ok m d] by (auto simp: loaded_def)
    then have "(d_id d, the (map_of ?ps (d_id d))) \<in> set ?qs" by auto
    then have "map_of ?qs (d_id d) = Some (the (map_of ?ps (d_id d)))" using q by simp
    then show ?thesis using mapping_covers [OF ok m d] True by auto
  next
    case False
    have "d_id d \<notin> fst ` set ?qs"
    proof
      assume "d_id d \<in> fst ` set ?qs"
      then obtain e where "e \<in> set (t_documents T)" "is_english e" "d_id e = d_id d" by (auto simp: loaded_def)
      with rows_ok_inj [OF ok this(1) d this(3)] False show False by simp
    qed
    then have "map_of ?qs (d_id d) = None" by (simp only: map_of_eq_None_iff not_False_eq_True)
    moreover have "map_of ?ps (d_id d) = None" using False mapping_covers [OF ok m d] by blast
    ultimately show ?thesis by simp
  qed
  then have "reclustered ?qs (t_documents loaded) = reclustered ?ps (t_documents T)"
    by (auto simp: reclustered_def loaded_def)
  ultimately show "T' = clustered mapping T" by (simp add: clustered_def loaded_def)
qed (simp_all add: near_apply_def)

lemma clustered_ready:
  assumes ok: "ready T" and m: "mapping_ok c T mapping"
  shows "ready (clustered mapping T)"
proof -
  have "distinct (map d_id (reclustered (near_pairs mapping) (t_documents T)))"
    using ok unfolding reclustered_fields by (simp add: rows_ok_def)
  moreover have "list_all (\<lambda>d. length (d_id d) = 32 \<and> length (d_content d) = 32 \<and> length (d_cluster d) = 32 \<and>
      length (d_group d) = 32 \<and> length (d_selection d) = 32 \<and> rank_document (d_rank d) = d_id d)
      (reclustered (near_pairs mapping) (t_documents T))"
    using ok near_pair_digest [OF m]
    by (auto simp: rows_ok_def list_all_iff reclustered_def split: option.split dest: map_of_SomeD)
  ultimately show ?thesis by (simp add: clustered_def rows_ok_def)
qed

lemma clustered_counts:
  assumes ok: "ready T" and m: "mapping_ok c T mapping"
  shows "near_mismatched (clustered mapping T) = 0"
    and "length (near_apply_rows (T\<lparr>t_near_map := near_pairs mapping\<rparr>)) = select_count is_english (t_documents T)"
    and "select_count is_english (t_documents (clustered mapping T)) = select_count is_english (t_documents T)"
proof -
  show "near_mismatched (clustered mapping T) = 0"
    unfolding near_mismatched_def select_count_0
    using mapping_covers [OF ok m]
    by (fastforce simp: clustered_def reclustered_def is_english_def split: option.split)
  have "filter (\<lambda>d. is_english d \<and> map_of (near_pairs mapping) (d_id d) \<noteq> None) (docs_by_id T) =
      filter is_english (docs_by_id T)"
    using mapping_covers [OF ok m] by (intro filter_cong) auto
  then show "length (near_apply_rows (T\<lparr>t_near_map := near_pairs mapping\<rparr>)) = select_count is_english (t_documents T)"
    by (simp add: near_apply_rows_def doc_rows_def docs_by_id_def select_count_def filter_sort)
  have english_count: "select_count is_english xs = length (filter (\<lambda>b. b) (map is_english xs))" for xs
    by (simp add: select_count_def filter_map o_def)
  have "map is_english (reclustered ps docs) = map is_english docs" for ps docs
    by (auto simp: reclustered_def is_english_def split: option.split)
  then show "select_count is_english (t_documents (clustered mapping T)) = select_count is_english (t_documents T)"
    by (simp add: clustered_def english_count)
qed

end
