(* ===== verification/CurateResume.thy ===== *)
theory CurateResume
  imports CurateNear
begin

text \<open>
  Canonicalization as a whole: from every durable state it can be killed in, it continues to the
  same tables; with enough commits it returns.
\<close>

section \<open>The map is applied once\<close>

lemma apply_near_map_runs:
  assumes ok: "ready T" and m: "mapping_ok c T mapping" and b: "0 < cc_batch_size c"
  defines "e \<equiv> select_count is_english (t_documents T)" and "loaded \<equiv> T\<lparr>t_near_map := near_pairs mapping\<rparr>"
  shows "runs (phase_open (near_apply e) loaded (near_apply_rows loaded) db0) (apply_near_map c e) (e + 2)
    (\<lambda>_. phase_closed (near_apply e) (clustered mapping T) db0)
    (phase_open (near_apply e) loaded (near_apply_rows loaded) db0) E"
proof -
  let ?ks = "near_apply e" and ?rows = "near_apply_rows loaded"
  have w: "writes_to ?ks loaded ?rows (clustered mapping T)"
    unfolding loaded_def by (rule near_apply_writes [OF ok m])
  have len: "length ?rows = e" unfolding loaded_def e_def by (rule clustered_counts [OF ok m])
  have name: "ks_name ?ks = near_apply_name" by (simp add: near_apply_def)
  have tail: "runs (\<lambda>db. \<not> sp_complete sp \<and> sp_rows sp = length ?rows \<and> progress (ks_name ?ks) db = Some sp \<and>
      partly ?ks loaded ?rows db0 (length ?rows) db)
      (jbind (fetch (\<lambda>db. near_mismatched (db_tables db))) (\<lambda>mismatched.
       if sp_complete sp
       then if mismatched \<noteq> 0 then throw (CurationError ''Completed English near-map application changed'')
         else give ()
       else if mismatched \<noteq> 0 \<or> sp_rows sp \<noteq> e
       then throw (CurationError ''English near-map application is incomplete'')
       else jbind (complete_subphase (cc_batch_size c) near_apply_name
         (JObj [(''expected_rows'', JInt (int e)), (''mismatched_rows'', JInt 0)])) (\<lambda>_. give ()))) 1
      (\<lambda>_. phase_closed ?ks (clustered mapping T) db0) (phase_open ?ks loaded ?rows db0) E" for sp
  proof (cases "\<not> sp_complete sp \<and> sp_rows sp = e")
    case True
    have "runs (\<lambda>db. progress (ks_name ?ks) db = Some sp \<and> partly ?ks loaded ?rows db0 (length ?rows) db)
        (fetch (\<lambda>db. near_mismatched (db_tables db))) 0
        (\<lambda>x db. x = 0 \<and> progress (ks_name ?ks) db = Some sp \<and> partly ?ks loaded ?rows db0 (length ?rows) db)
        (phase_open ?ks loaded ?rows db0) E"
      using w clustered_counts(1) [OF ok m] by (intro runs_fetch) (auto simp: partly_def writes_to_def)
    moreover have "runs (\<lambda>db. x = 0 \<and> progress (ks_name ?ks) db = Some sp \<and> partly ?ks loaded ?rows db0 (length ?rows) db)
        (if x \<noteq> 0 \<or> sp_rows sp \<noteq> e
         then throw (CurationError ''English near-map application is incomplete'')
         else jbind (complete_subphase (cc_batch_size c) near_apply_name
         (JObj [(''expected_rows'', JInt (int e)), (''mismatched_rows'', JInt 0)])) (\<lambda>_. give ())) (1 + 0)
        (\<lambda>_. phase_closed ?ks (clustered mapping T) db0) (phase_open ?ks loaded ?rows db0) E" for x
    proof (rule runs_pure)
      assume "x = 0"
      have "runs (\<lambda>db. progress (ks_name ?ks) db = Some sp \<and> partly ?ks loaded ?rows db0 (length ?rows) db)
          (jbind (complete_subphase (cc_batch_size c) (ks_name ?ks)
            (JObj [(''expected_rows'', JInt (int e)), (''mismatched_rows'', JInt 0)])) (\<lambda>_. give ())) (1 + 0)
          (\<lambda>_. phase_closed ?ks (clustered mapping T) db0) (phase_open ?ks loaded ?rows db0) E"
        by (rule runs_bind [OF complete_runs [OF w]]) (simp add: runs_give)
      with \<open>x = 0\<close> True show "runs (\<lambda>db. progress (ks_name ?ks) db = Some sp \<and> partly ?ks loaded ?rows db0 (length ?rows) db)
        (if x \<noteq> 0 \<or> sp_rows sp \<noteq> e
         then throw (CurationError ''English near-map application is incomplete'')
         else jbind (complete_subphase (cc_batch_size c) near_apply_name
         (JObj [(''expected_rows'', JInt (int e)), (''mismatched_rows'', JInt 0)])) (\<lambda>_. give ())) (1 + 0)
        (\<lambda>_. phase_closed ?ks (clustered mapping T) db0) (phase_open ?ks loaded ?rows db0) E" by (simp add: name)
    qed
    ultimately have "runs (\<lambda>db. progress (ks_name ?ks) db = Some sp \<and> partly ?ks loaded ?rows db0 (length ?rows) db)
        (jbind (fetch (\<lambda>db. near_mismatched (db_tables db))) (\<lambda>x. if x \<noteq> 0 \<or> sp_rows sp \<noteq> e
         then throw (CurationError ''English near-map application is incomplete'')
         else jbind (complete_subphase (cc_batch_size c) near_apply_name
         (JObj [(''expected_rows'', JInt (int e)), (''mismatched_rows'', JInt 0)])) (\<lambda>_. give ()))) (0 + (1 + 0))
        (\<lambda>_. phase_closed ?ks (clustered mapping T) db0) (phase_open ?ks loaded ?rows db0) E" by (rule runs_bind)
    then show ?thesis using True by (auto elim!: runs_conseq)
  next
    case False
    then show ?thesis by (auto simp: runs_def len)
  qed
  show ?thesis
    unfolding apply_near_map_def
    by (rule runs_conseq [OF runs_bind [OF keyset_subphase_runs [OF w b] tail]]) (simp_all add: len)
qed

lemma apply_near_map_again:
  assumes "\<And>db. P db \<Longrightarrow> (\<exists>sp. progress near_apply_name db = Some sp \<and> sp_complete sp) \<and> near_mismatched (db_tables db) = 0"
  shows "runs P (apply_near_map c e) 0 (\<lambda>_. P) I E"
  unfolding runs_def
proof (intro allI impI)
  fix n db assume p: "P db"
  with assms [OF p] show "case apply_near_map c e n db of
      (Returned x, m, db') \<Rightarrow> P db' \<and> n \<le> m + 0
    | (Raised e, m, db') \<Rightarrow> E e db' | (Killed, m, db') \<Rightarrow> I db' \<and> n < 0"
    by (auto simp: apply_near_map_def run_keyset_write_subphase_def near_apply_def jbind_def start_subphase_def
        give_def fetch_def)
qed

section \<open>What the statements leave alone\<close>

definition keeps_fields :: "keyset \<Rightarrow> (tables \<Rightarrow> 'a) \<Rightarrow> bool" where
  "keeps_fields ks f \<longleftrightarrow> (\<forall>T r T'. ks_write ks T r = Inr T' \<longrightarrow> f T' = f T)"

lemma executemany_keeps: "keeps_fields ks f \<Longrightarrow> executemany (ks_write ks) rows T = Inr T' \<Longrightarrow> f T' = f T"
proof (induction rows arbitrary: T)
  case (Cons r rows)
  then show ?case by (auto simp: executemany_def res_simps keeps_fields_def)
qed (simp add: executemany_def)

lemma phase_open_keeps: "keeps_fields ks f \<Longrightarrow> phase_open ks T rows db0 db \<Longrightarrow> f (db_tables db) = f T"
  by (auto simp: phase_open_def partly_def dest: executemany_keeps)

lemma midway_keeps:
  assumes "\<forall>(ks, rows)\<in>set plan. keeps_fields ks f" and "midway plan T db"
  shows "f (db_tables db) = f T"
  using assms
proof (induction plan arbitrary: T)
  case (Cons p plan)
  obtain ks rows where p: "p = (ks, rows)" by (cases p)
  with Cons.prems show ?case
    using Cons.IH phase_open_keeps [of ks f T rows db db]
    by (auto simp: p writes_to_def dest: executemany_keeps)
qed simp

lemma canonical_keeps:
  assumes "ks \<in> set (canonical_phases b fast)"
  shows "keeps_fields ks (\<lambda>T. (t_documents T, t_near_map T, t_groups T, t_selected T))"
  using assms
  by (auto simp: canonical_phases_def canonical_keyset_def keeps_fields_def insert_benchmark_content_def
      insert_benchmark_final_def insert_exact_choice_def insert_final_choice_def insert_canonical_map_def
      insert_reason_def arity_error_def res_simps split: key_row.splits if_splits)

lemma canonical_plan_phases: "(ks, rows) \<in> set (canonical_plan b fast T) \<Longrightarrow> ks \<in> set (canonical_phases b fast)"
  by (auto simp: canonical_plan_def Let_def dest: set_zip_leftD)

lemma midway_canonical_keeps:
  assumes "midway (canonical_plan b fast T) T db"
  shows "t_documents (db_tables db) = t_documents T" "t_near_map (db_tables db) = t_near_map T"
    "t_groups (db_tables db) = t_groups T" "t_selected (db_tables db) = t_selected T"
proof -
  let ?f = "\<lambda>T. (t_documents T, t_near_map T, t_groups T, t_selected T)"
  have "\<forall>(ks, rows)\<in>set (canonical_plan b fast T). keeps_fields ks ?f"
    using canonical_keeps canonical_plan_phases by fast
  from midway_keeps [OF this assms]
  show "t_documents (db_tables db) = t_documents T" "t_near_map (db_tables db) = t_near_map T"
    "t_groups (db_tables db) = t_groups T" "t_selected (db_tables db) = t_selected T" by auto
qed

lemma near_apply_keeps:
  "keeps_fields (near_apply e) (\<lambda>T. (t_near_map T, map is_english (t_documents T)))"
  by (auto simp: keeps_fields_def near_apply_def update_final_cluster_def arity_error_def is_english_def
      split: key_row.splits)

section \<open>The durable states of canonicalization\<close>

definition near_used :: "curate_config \<Rightarrow> tables \<Rightarrow> bool" where
  "near_used c T \<longleftrightarrow> \<not> cc_fast c \<and> select_count is_english (t_documents T) \<noteq> 0 \<and> cc_near c \<noteq> None"

text \<open>The mapping is the one the profile asks for.\<close>

definition near_ok :: "curate_config \<Rightarrow> tables \<Rightarrow> bool" where
  "near_ok c T \<longleftrightarrow> (if cc_fast c then cc_near c = None
     else select_count is_english (t_documents T) = 0 \<or>
       (case cc_near c of None \<Rightarrow> cc_allow_missing_near c | Some mapping \<Rightarrow> mapping_ok c T mapping))"

text \<open>The inventory with the final clusters canonicalization works on.\<close>

definition with_clusters :: "curate_config \<Rightarrow> tables \<Rightarrow> tables" where
  "with_clusters c T = (if near_used c T then clustered (the (cc_near c)) T else T)"

definition canonical_names :: "string list" where
  "canonical_names = map (\<lambda>name. ''canonicalize.'' @ name) [''benchmark_content_clusters'', ''benchmark_final_clusters'',
     ''benchmark_exact'', ''benchmark_final'', ''exact_choice'', ''final_choice'', ''canonical_map'', ''residual_exact'',
     ''residual_final'']"

definition stage_names :: "string set" where
  "stage_names = {near_load_name, near_apply_name} \<union> set canonical_names"

lemma plan_names_canonical:
  "map (\<lambda>(ks, _). ks_name ks) (canonical_plan b fast T) = canonical_names"
  by (simp add: canonical_plan_def canonical_phases_def canonical_names_def canonical_keyset_def Let_def)

lemma canonical_names_distinct: "distinct canonical_names"
  "near_load_name \<notin> set canonical_names" "near_apply_name \<notin> set canonical_names" "near_load_name \<noteq> near_apply_name"
  by (simp_all add: canonical_names_def near_load_name_def near_apply_name_def)

text \<open>What a finished inventory is, as canonicalization finds it.\<close>

definition inventoried :: "curate_config \<Rightarrow> cur_db \<Rightarrow> bool" where
  "inventoried c db \<longleftrightarrow> db_phase db = ''inventory_complete'' \<and> ready (db_tables db) \<and> untouched (db_tables db) \<and>
     t_near_map (db_tables db) = [] \<and> reasons_ok (db_tables db) \<and> near_ok c (db_tables db) \<and>
     list_all (\<lambda>name. progress name db = None) ([near_load_name, near_apply_name] @ canonical_names)"

abbreviation the_plan :: "curate_config \<Rightarrow> tables \<Rightarrow> plan" where
  "the_plan c T \<equiv> canonical_plan (cc_batch_size c) (cc_fast c) (with_clusters c T)"

definition apply_complete :: "cur_db \<Rightarrow> bool" where
  "apply_complete db \<longleftrightarrow> (\<exists>sp. progress near_apply_name db = Some sp \<and> sp_complete sp)"

definition no_canonical :: "cur_db \<Rightarrow> bool" where
  "no_canonical db \<longleftrightarrow> (\<forall>name\<in>set canonical_names. progress name db = None)"

definition in_phases :: "curate_config \<Rightarrow> cur_db \<Rightarrow> cur_db \<Rightarrow> bool" where
  "in_phases c db0 db \<longleftrightarrow> frame stage_names db0 db \<and> (near_used c (db_tables db0) \<longrightarrow> load_complete db \<and> apply_complete db) \<and>
     midway (the_plan c (db_tables db0)) (with_clusters c (db_tables db0)) db"

definition in_load :: "curate_config \<Rightarrow> cur_db \<Rightarrow> cur_db \<Rightarrow> bool" where
  "in_load c db0 db \<longleftrightarrow> frame stage_names db0 db \<and> near_used c (db_tables db0) \<and>
     load_open (near_pairs (the (cc_near c))) (db_tables db0) db db \<and> progress near_apply_name db = None \<and> no_canonical db"

definition in_apply :: "curate_config \<Rightarrow> cur_db \<Rightarrow> cur_db \<Rightarrow> bool" where
  "in_apply c db0 db \<longleftrightarrow> frame stage_names db0 db \<and> near_used c (db_tables db0) \<and> load_complete db \<and> no_canonical db \<and>
     (let T = db_tables db0; loaded = T\<lparr>t_near_map := near_pairs (the (cc_near c))\<rparr> in
      phase_open (near_apply (select_count is_english (t_documents T))) loaded (near_apply_rows loaded) db db)"

definition canonicalizing :: "curate_config \<Rightarrow> cur_db \<Rightarrow> cur_db \<Rightarrow> bool" where
  "canonicalizing c db0 db \<longleftrightarrow> in_load c db0 db \<or> in_apply c db0 db \<or> in_phases c db0 db"

lemma inventoried_starts:
  assumes "inventoried c db0"
  shows "canonicalizing c db0 db0"
proof (cases "near_used c (db_tables db0)")
  case True
  then show ?thesis using assms
    by (auto simp: canonicalizing_def in_load_def inventoried_def load_open_def no_canonical_def list_all_iff)
next
  case False
  have "midway (the_plan c (db_tables db0)) (with_clusters c (db_tables db0)) db0"
    using assms False plan_names_canonical
    by (intro midway_untouched) (auto simp: inventoried_def with_clusters_def list_all_iff)
  then show ?thesis using False by (simp add: canonicalizing_def in_phases_def)
qed

lemma near_used_mapping:
  assumes "inventoried c db0" and "near_used c (db_tables db0)"
  obtains mapping where "cc_near c = Some mapping" and "mapping_ok c (db_tables db0) mapping"
  using assms by (auto simp: inventoried_def near_used_def near_ok_def)

lemma with_clusters_ok:
  assumes "inventoried c db0"
  shows "ready (with_clusters c (db_tables db0))" "untouched (with_clusters c (db_tables db0))"
    "reasons_ok (with_clusters c (db_tables db0))"
proof -
  let ?T = "db_tables db0"
  have i: "ready ?T" "untouched ?T" "reasons_ok ?T" using assms by (auto simp: inventoried_def)
  show "ready (with_clusters c ?T)"
    using i near_used_mapping [OF assms] clustered_ready [OF i(1)] by (metis option.sel with_clusters_def)
  show "untouched (with_clusters c ?T)" using i(2) by (simp add: with_clusters_def clustered_def untouched_def)
  have "d_id ` set (reclustered ps docs) = d_id ` set docs" for ps docs
    using reclustered_fields(1) [of ps docs] by (metis list.set_map)
  then show "reasons_ok (with_clusters c ?T)"
    using i(3) by (simp add: with_clusters_def clustered_def reasons_ok_def)
qed

lemma frame_rebase: "frame stage_names db0 db \<Longrightarrow> frame N db db' \<Longrightarrow> N \<subseteq> stage_names \<Longrightarrow> frame stage_names db0 db'"
  by (rule frame_trans [of stage_names db0 db N db' stage_names]) auto

lemma load_open_rebase: "load_open ps T db0 db \<Longrightarrow> load_open ps T db db"
  by (auto simp: load_open_def loading_def)

lemma load_open_frame: "load_open ps T db0 db \<Longrightarrow> frame {near_load_name} db0 db"
  by (auto simp: load_open_def loading_def)

lemma names_in_stage: "{near_load_name} \<subseteq> stage_names" "{near_apply_name} \<subseteq> stage_names" "set canonical_names \<subseteq> stage_names"
  by (auto simp: stage_names_def)

lemma no_canonical_frame:
  "no_canonical db \<Longrightarrow> frame N db db' \<Longrightarrow> N \<inter> set canonical_names = {} \<Longrightarrow> no_canonical db'"
  by (auto simp: no_canonical_def frame_def)

section \<open>Loading and applying, from any durable state\<close>

lemma english_count_same:
  "map is_english docs' = map is_english docs \<Longrightarrow> select_count is_english docs' = select_count is_english docs"
proof -
  assume m: "map is_english docs' = map is_english docs"
  have c: "select_count is_english xs = length (filter (\<lambda>b. b) (map is_english xs))" for xs
    by (simp add: select_count_def filter_map o_def)
  show ?thesis by (simp only: c m)
qed

lemma canonicalizing_english:
  assumes inv: "inventoried c db0" and "canonicalizing c db0 db"
  shows "select_count is_english (t_documents (db_tables db)) = select_count is_english (t_documents (db_tables db0))"
proof -
  let ?T = "db_tables db0"
  have ok: "ready ?T" using inv by (simp add: inventoried_def)
  consider "in_load c db0 db" | "in_apply c db0 db" | "in_phases c db0 db"
    using assms(2) by (auto simp: canonicalizing_def)
  then show ?thesis
  proof cases
    case 1
    then show ?thesis by (auto simp: in_load_def load_open_def loading_def)
  next
    case 2
    then show ?thesis
      using phase_open_keeps [OF near_apply_keeps] by (fastforce simp: in_apply_def Let_def intro: english_count_same)
  next
    case 3
    then have "midway (the_plan c ?T) (with_clusters c ?T) db" by (simp add: in_phases_def)
    then have "t_documents (db_tables db) = t_documents (with_clusters c ?T)" by (rule midway_canonical_keeps)
    then show ?thesis
      using near_used_mapping [OF inv] clustered_counts(3) [OF ok] by (metis option.sel with_clusters_def)
  qed
qed

lemma load_stage_runs:
  assumes inv: "inventoried c db0" and b: "0 < cc_batch_size c" and used: "near_used c (db_tables db0)"
    and mapping: "cc_near c = Some mapping" and m: "mapping_ok c (db_tables db0) mapping"
  defines "e \<equiv> select_count is_english (t_documents (db_tables db0))"
  shows "runs (canonicalizing c db0) (load_near_map c e mapping) (length mapping + 2)
    (\<lambda>_ db. in_apply c db0 db \<or> in_phases c db0 db) (canonicalizing c db0) E"
proof (rule runs_pointwise)
  let ?T = "db_tables db0" and ?ps = "near_pairs mapping"
  have ok: "ready ?T" and empty: "t_near_map ?T = []" using inv by (auto simp: inventoried_def)
  have len: "length ?ps = length mapping" "length mapping = cc_near_records c"
    using near_pairs_rows(1) [OF m] m by (auto simp: mapping_ok_def)
  fix db assume s: "canonicalizing c db0 db"
  show "runs (\<lambda>d. d = db) (load_near_map c e mapping) (length mapping + 2)
      (\<lambda>_ db. in_apply c db0 db \<or> in_phases c db0 db) (canonicalizing c db0) E"
  proof (cases "in_load c db0 db")
    case True
    then have f: "frame stage_names db0 db" and o: "load_open ?ps ?T db db" and a: "progress near_apply_name db = None"
      and n: "no_canonical db" by (auto simp: in_load_def mapping)
    show ?thesis
    proof (rule runs_conseq [OF load_near_map_runs [OF ok m b empty, of db, folded e_def]])
      fix d assume "d = db" then show "load_open ?ps ?T db d" using o by simp
    next
      fix db' assume c: "load_closed ?ps ?T db db'"
      then have f': "frame {near_load_name} db db'" by (simp add: load_closed_def)
      have "progress near_apply_name db' = None"
        using a frame_progress [OF f'] canonical_names_distinct(4) by auto
      moreover have "no_canonical db'"
        by (rule no_canonical_frame [OF n f']) (use canonical_names_distinct in auto)
      moreover have "frame stage_names db0 db'" by (rule frame_rebase [OF f f' names_in_stage(1)])
      ultimately show "in_apply c db0 db' \<or> in_phases c db0 db'"
        using c used by (auto simp: in_apply_def load_closed_def mapping phase_open_def near_apply_def)
    next
      fix db' assume o': "load_open ?ps ?T db db'"
      note f' = load_open_frame [OF o']
      have "progress near_apply_name db' = None"
        using a frame_progress [OF f'] canonical_names_distinct(4) by auto
      moreover have "no_canonical db'"
        by (rule no_canonical_frame [OF n f']) (use canonical_names_distinct in auto)
      moreover have "frame stage_names db0 db'" by (rule frame_rebase [OF f f' names_in_stage(1)])
      ultimately show "canonicalizing c db0 db'"
        using load_open_rebase [OF o'] used by (auto simp: canonicalizing_def in_load_def mapping)
    qed (simp_all add: len)
  next
    case False
    with s have d: "in_apply c db0 db \<or> in_phases c db0 db" by (auto simp: canonicalizing_def)
    have again: "load_complete db \<and> length (t_near_map (db_tables db)) = cc_near_records c"
    proof (cases "in_apply c db0 db")
      case True
      then have "t_near_map (db_tables db) = ?ps"
        using phase_open_keeps [OF near_apply_keeps] by (fastforce simp: in_apply_def Let_def mapping)
      then show ?thesis using True len by (simp add: in_apply_def)
    next
      case False
      with d have p: "in_phases c db0 db" by simp
      then have "midway (the_plan c ?T) (with_clusters c ?T) db" by (simp add: in_phases_def)
      then have "t_near_map (db_tables db) = t_near_map (with_clusters c ?T)" by (rule midway_canonical_keeps)
      then show ?thesis using p used len by (simp add: in_phases_def with_clusters_def mapping clustered_def)
    qed
    have "runs (\<lambda>d. d = db) (load_near_map c e mapping) 0 (\<lambda>_ d. d = db) (canonicalizing c db0) E"
      by (rule load_near_map_again) (use again in simp)
    then show ?thesis by (rule runs_conseq) (use d in auto)
  qed
qed

lemma apply_stage_runs:
  assumes inv: "inventoried c db0" and b: "0 < cc_batch_size c" and used: "near_used c (db_tables db0)"
    and mapping: "cc_near c = Some mapping" and m: "mapping_ok c (db_tables db0) mapping"
  defines "e \<equiv> select_count is_english (t_documents (db_tables db0))"
  shows "runs (\<lambda>db. in_apply c db0 db \<or> in_phases c db0 db) (apply_near_map c e) (e + 2) (\<lambda>_. in_phases c db0)
    (canonicalizing c db0) E"
proof (rule runs_pointwise)
  let ?T = "db_tables db0" and ?ps = "near_pairs mapping"
  let ?loaded = "?T\<lparr>t_near_map := ?ps\<rparr>"
  have ok: "ready ?T" using inv by (auto simp: inventoried_def)
  have name: "ks_name (near_apply e) = near_apply_name" by (simp add: near_apply_def)
  fix db assume s: "in_apply c db0 db \<or> in_phases c db0 db"
  show "runs (\<lambda>d. d = db) (apply_near_map c e) (e + 2) (\<lambda>_. in_phases c db0) (canonicalizing c db0) E"
  proof (cases "in_apply c db0 db")
    case True
    then have f: "frame stage_names db0 db" and l: "load_complete db" and n: "no_canonical db"
      and o: "phase_open (near_apply e) ?loaded (near_apply_rows ?loaded) db db"
      by (auto simp: in_apply_def mapping Let_def e_def)
    have keep: "load_complete db'" "no_canonical db'" "frame stage_names db0 db'"
      if f': "frame {near_apply_name} db db'" for db'
    proof -
      show "load_complete db'"
        using l frame_progress [OF f', of near_load_name] canonical_names_distinct(4) by (simp add: load_complete_def)
      show "no_canonical db'" by (rule no_canonical_frame [OF n f']) (use canonical_names_distinct in auto)
      show "frame stage_names db0 db'" by (rule frame_rebase [OF f f' names_in_stage(2)])
    qed
    show ?thesis
    proof (rule runs_conseq [OF apply_near_map_runs [OF ok m b, of db, folded e_def]])
      fix d assume "d = db" then show "phase_open (near_apply e) ?loaded (near_apply_rows ?loaded) db d" using o by simp
    next
      fix db' assume c: "phase_closed (near_apply e) (clustered mapping ?T) db db'"
      then have k: "load_complete db'" "no_canonical db'" "frame stage_names db0 db'"
        using keep by (auto simp: phase_closed_def name)
      have "midway (the_plan c ?T) (with_clusters c ?T) db'"
      proof (rule midway_untouched)
        show "\<forall>name\<in>plan_names (the_plan c ?T). progress name db' = None"
          using k(2) unfolding plan_names_canonical no_canonical_def .
        show "db_tables db' = with_clusters c ?T"
          using c used by (simp add: phase_closed_def with_clusters_def mapping)
      qed
      with k c show "in_phases c db0 db'" by (auto simp: in_phases_def apply_complete_def phase_closed_def name)
    next
      fix db' assume o': "phase_open (near_apply e) ?loaded (near_apply_rows ?loaded) db db'"
      have k: "load_complete db'" "no_canonical db'" "frame stage_names db0 db'"
        using keep phase_open_frame [OF o'] by (auto simp: name)
      then have "in_apply c db0 db'"
        using phase_open_rebase [OF o'] used by (auto simp: in_apply_def mapping Let_def e_def)
      then show "canonicalizing c db0 db'" by (simp add: canonicalizing_def)
    qed simp_all
  next
    case False
    with s have p: "in_phases c db0 db" by simp
    then have mid: "midway (the_plan c ?T) (with_clusters c ?T) db" by (simp add: in_phases_def)
    have "near_mismatched (db_tables db) = near_mismatched (with_clusters c ?T)"
      using midway_canonical_keeps(1,2) [OF mid] by (simp add: near_mismatched_def)
    also have "\<dots> = 0" using clustered_counts(1) [OF ok m] used by (simp add: with_clusters_def mapping)
    finally have "(\<exists>sp. progress near_apply_name db = Some sp \<and> sp_complete sp) \<and> near_mismatched (db_tables db) = 0"
      using p used by (simp add: in_phases_def apply_complete_def)
    then have "runs (\<lambda>d. d = db) (apply_near_map c e) 0 (\<lambda>_ d. d = db) (canonicalizing c db0) E"
      by (intro apply_near_map_again) simp
    then show ?thesis by (rule runs_conseq) (use p in auto)
  qed
qed

text \<open>Whether the near-duplicate evidence is complete, as the call reports it.\<close>

definition near_complete :: "curate_config \<Rightarrow> tables \<Rightarrow> bool" where
  "near_complete c T \<longleftrightarrow> \<not> cc_fast c \<and> (select_count is_english (t_documents T) = 0 \<or> cc_near c \<noteq> None)"

lemma load_near_clusters_runs:
  assumes inv: "inventoried c db0" and b: "0 < cc_batch_size c"
  defines "T \<equiv> db_tables db0"
  shows "runs (canonicalizing c db0) (load_near_clusters c)
    (length (case cc_near c of None \<Rightarrow> [] | Some mapping \<Rightarrow> mapping) + select_count is_english (t_documents T) + 4)
    (\<lambda>near db. near = near_complete c T \<and> in_phases c db0 db) (canonicalizing c db0) E"
proof -
  let ?e = "select_count is_english (t_documents T)"
  have f: "runs (canonicalizing c db0) (fetch (\<lambda>db. select_count is_english (t_documents (db_tables db)))) 0
      (\<lambda>x db. x = ?e \<and> canonicalizing c db0 db) (canonicalizing c db0) E"
    by (rule runs_fetch) (simp add: canonicalizing_english [OF inv] T_def)
  have near: "near_ok c T" using inv by (simp add: inventoried_def T_def)
  have rest: "runs (canonicalizing c db0) (near_clusters c ?e)
      (length (case cc_near c of None \<Rightarrow> [] | Some mapping \<Rightarrow> mapping) + ?e + 4)
      (\<lambda>near db. near = near_complete c T \<and> in_phases c db0 db) (canonicalizing c db0) E"
  proof (cases "near_used c T")
    case True
    then obtain mapping where mp: "cc_near c = Some mapping" "mapping_ok c T mapping"
      using near_used_mapping [OF inv] unfolding T_def by metis
    have last: "runs (in_phases c db0) (give True) 0 (\<lambda>near db. near = near_complete c T \<and> in_phases c db0 db)
        (canonicalizing c db0) E"
      by (rule runs_give) (use True in \<open>simp add: near_complete_def near_used_def\<close>)
    note parts = load_stage_runs [OF inv b True [unfolded T_def] mp(1) mp(2) [unfolded T_def], folded T_def]
      runs_bind [OF apply_stage_runs [OF inv b True [unfolded T_def] mp(1) mp(2) [unfolded T_def], folded T_def] last]
    have "near_clusters c ?e = jbind (load_near_map c ?e mapping) (\<lambda>_. jbind (apply_near_map c ?e) (\<lambda>_. give True))"
      using True mp by (simp add: near_clusters_def near_used_def mapping_ok_def)
    then show ?thesis
      by (simp only:) (rule runs_conseq [OF runs_bind [OF parts(1) parts(2)]], simp_all add: mp(1))
  next
    case False
    have s: "canonicalizing c db0 db \<Longrightarrow> in_phases c db0 db" for db
      using False by (auto simp: canonicalizing_def in_load_def in_apply_def T_def)
    have "near_clusters c ?e = give (near_complete c T)"
      using False near by (auto simp: near_clusters_def near_used_def near_ok_def near_complete_def split: option.split)
    moreover have "runs (canonicalizing c db0) (give (near_complete c T)) 0
        (\<lambda>near db. near = near_complete c T \<and> in_phases c db0 db) (canonicalizing c db0) E"
      by (rule runs_give) (use s in auto)
    ultimately show ?thesis by (auto elim: runs_conseq)
  qed
  have "runs (\<lambda>db. x = ?e \<and> canonicalizing c db0 db) (near_clusters c x)
      (length (case cc_near c of None \<Rightarrow> [] | Some mapping \<Rightarrow> mapping) + ?e + 4)
      (\<lambda>near db. near = near_complete c T \<and> in_phases c db0 db) (canonicalizing c db0) E" for x
    by (rule runs_pure) (use rest in simp)
  from runs_bind [OF f this] show ?thesis by (simp add: load_near_clusters_def)
qed

section \<open>Canonicalization, from any durable state\<close>

text \<open>The database after canonicalization: its tables, its phase and its event.\<close>

definition canonicalized :: "curate_config \<Rightarrow> cur_db \<Rightarrow> cur_db \<Rightarrow> bool" where
  "canonicalized c db0 db \<longleftrightarrow> db_phase db = ''canonicalized'' \<and>
     db_tables db = canonical_tables (cc_fast c) (with_clusters c (db_tables db0)) \<and> db_counts db = db_counts db0 \<and>
     db_events db = db_events db0 @ [(''canonicalized'', accounting_json
       (final_accounting (with_clusters c (db_tables db0))) (near_complete c (db_tables db0)))] \<and>
     (\<forall>name. name \<notin> stage_names \<longrightarrow> progress name db = progress name db0)"

definition canonical_cost :: "curate_config \<Rightarrow> tables \<Rightarrow> nat" where
  "canonical_cost c T = length (case cc_near c of None \<Rightarrow> [] | Some mapping \<Rightarrow> mapping) +
     select_count is_english (t_documents T) + 4 + plan_cost (the_plan c T) + 1"

theorem canonicalize_runs:
  assumes inv: "inventoried c db0" and b: "0 < cc_batch_size c"
  shows "runs (\<lambda>db. canonicalizing c db0 db \<or> canonicalized c db0 db) (canonicalize c) (canonical_cost c (db_tables db0))
    (\<lambda>_. canonicalized c db0) (\<lambda>db. canonicalizing c db0 db \<or> canonicalized c db0 db) E"
proof -
  let ?T = "db_tables db0" and ?I = "\<lambda>db. canonicalizing c db0 db \<or> canonicalized c db0 db"
  let ?B = "with_clusters c ?T"
  note okB = with_clusters_ok [OF inv]
  have chain: "chain (the_plan c ?T) ?B (canonical_tables (cc_fast c) ?B)"
    by (rule canonical_chain [OF okB(1,2)])
  have phases: "runs (in_phases c db0) (run_phases (cc_batch_size c) (canonical_phases (cc_batch_size c) (cc_fast c)))
      (plan_cost (the_plan c ?T))
      (\<lambda>_ db. in_phases c db0 db \<and> db_tables db = canonical_tables (cc_fast c) ?B) (in_phases c db0) E"
  proof (rule runs_pointwise)
    fix db assume p: "in_phases c db0 db"
    have phs: "map fst (the_plan c ?T) = canonical_phases (cc_batch_size c) (cc_fast c)"
      by (simp add: canonical_plan_def Let_def canonical_phases_def)
    have keep: "in_phases c db0 db'" if m: "midway (the_plan c ?T) ?B db'" and f: "frame (plan_names (the_plan c ?T)) db db'" for db'
    proof -
      have f': "frame (set canonical_names) db db'" using f unfolding plan_names_canonical .
      have "frame stage_names db0 db'"
        by (rule frame_rebase [OF _ f' names_in_stage(3)]) (use p in \<open>simp add: in_phases_def\<close>)
      moreover have "load_complete db' = load_complete db" "apply_complete db' = apply_complete db"
        using frame_progress [OF f'] canonical_names_distinct by (auto simp: load_complete_def apply_complete_def)
      ultimately show ?thesis using p m by (simp add: in_phases_def)
    qed
    from run_phases_runs [OF chain _ b, of db, unfolded phs] show "runs (\<lambda>d. d = db)
        (run_phases (cc_batch_size c) (canonical_phases (cc_batch_size c) (cc_fast c))) (plan_cost (the_plan c ?T))
        (\<lambda>_ db. in_phases c db0 db \<and> db_tables db = canonical_tables (cc_fast c) ?B) (in_phases c db0) E"
      by (rule runs_conseq) (use p keep in \<open>auto simp: in_phases_def plan_names_canonical canonical_names_distinct\<close>)
  qed
  have valid: "runs (\<lambda>db. in_phases c db0 db \<and> db_tables db = canonical_tables (cc_fast c) ?B)
      (check (\<lambda>db. validate_canonicalization (cc_fast c) (db_tables db))) 0
      (\<lambda>acc db. acc = final_accounting ?B \<and> in_phases c db0 db \<and> db_tables db = canonical_tables (cc_fast c) ?B) ?I E"
    by (rule runs_check) (use validation_passes [OF okB(1,3)] in auto)
  have advance: "runs (\<lambda>db. acc = final_accounting ?B \<and> in_phases c db0 db \<and> db_tables db = canonical_tables (cc_fast c) ?B)
      (advance_phase (cc_batch_size c) ''inventory_complete'' ''canonicalized''
        ''Canonicalization phase authority changed'' (accounting_json acc near)) 1 (\<lambda>_. canonicalized c db0) ?I E"
    if near: "near = near_complete c ?T" for acc near
    unfolding advance_phase_def
  proof (rule runs_transaction)
    fix db :: cur_db and x db'
    assume p: "acc = final_accounting ?B \<and> in_phases c db0 db \<and> db_tables db = canonical_tables (cc_fast c) ?B"
      and body: "rbind (record_transaction (cc_batch_size c) 0) (\<lambda>_. if db_phase db \<noteq> ''inventory_complete''
          then Inl (CurationError ''Canonicalization phase authority changed'')
          else Inr ((), db\<lparr>db_phase := ''canonicalized'', db_events := db_events db @ [(''canonicalized'', accounting_json acc near)]\<rparr>))
        = Inr (x, db')"
    then show "canonicalized c db0 db'"
      by (auto simp: record_transaction_def canonicalized_def in_phases_def frame_def near progress_def split: if_splits)
  next
    fix db :: cur_db and e
    assume p: "acc = final_accounting ?B \<and> in_phases c db0 db \<and> db_tables db = canonical_tables (cc_fast c) ?B"
      and body: "rbind (record_transaction (cc_batch_size c) 0) (\<lambda>_. if db_phase db \<noteq> ''inventory_complete''
          then Inl (CurationError ''Canonicalization phase authority changed'')
          else Inr ((), db\<lparr>db_phase := ''canonicalized'', db_events := db_events db @ [(''canonicalized'', accounting_json acc near)]\<rparr>))
        = Inl e"
    have "db_phase db = ''inventory_complete''"
      using p inv by (auto simp: in_phases_def frame_def inventoried_def)
    with body show "E e db" by (simp add: record_transaction_def)
  qed (auto simp: canonicalizing_def)
  have weaken: "runs (in_phases c db0) (run_phases (cc_batch_size c) (canonical_phases (cc_batch_size c) (cc_fast c)))
      (plan_cost (the_plan c ?T))
      (\<lambda>_ db. in_phases c db0 db \<and> db_tables db = canonical_tables (cc_fast c) ?B) ?I E"
    by (rule runs_conseq [OF phases]) (auto simp: canonicalizing_def)
  have rest: "runs (\<lambda>db. near = near_complete c ?T \<and> in_phases c db0 db)
      (jbind (run_phases (cc_batch_size c) (canonical_phases (cc_batch_size c) (cc_fast c))) (\<lambda>_.
       jbind (check (\<lambda>db. validate_canonicalization (cc_fast c) (db_tables db))) (\<lambda>accounting.
       advance_phase (cc_batch_size c) ''inventory_complete'' ''canonicalized''
         ''Canonicalization phase authority changed'' (accounting_json accounting near))))
      (plan_cost (the_plan c ?T) + (0 + 1)) (\<lambda>_. canonicalized c db0) ?I E" for near
    by (rule runs_pure) (rule runs_bind [OF weaken runs_bind [OF valid advance]])
  have start: "runs (canonicalizing c db0) (load_near_clusters c)
      (length (case cc_near c of None \<Rightarrow> [] | Some mapping \<Rightarrow> mapping) + select_count is_english (t_documents ?T) + 4)
      (\<lambda>near db. near = near_complete c ?T \<and> in_phases c db0 db) ?I E"
    by (rule runs_conseq [OF load_near_clusters_runs [OF inv b]]) auto
  show ?thesis
  proof (rule runs_pointwise)
    fix db assume s: "?I db"
    show "runs (\<lambda>d. d = db) (canonicalize c) (canonical_cost c ?T) (\<lambda>_. canonicalized c db0) ?I E"
    proof (cases "canonicalized c db0 db")
      case True
      then show ?thesis
        by (auto simp: runs_def canonicalize_def jbind_def fetch_def give_def canonicalized_def)
    next
      case False
      with s have z: "canonicalizing c db0 db" by simp
      then have ph: "db_phase db = ''inventory_complete''"
        using inv by (auto simp: canonicalizing_def in_load_def in_apply_def in_phases_def frame_def inventoried_def)
      from runs_bind [OF start rest] have "runs (\<lambda>d. d = db) (jbind (load_near_clusters c) (\<lambda>near_complete.
          jbind (run_phases (cc_batch_size c) (canonical_phases (cc_batch_size c) (cc_fast c))) (\<lambda>_.
          jbind (check (\<lambda>db. validate_canonicalization (cc_fast c) (db_tables db))) (\<lambda>accounting.
          advance_phase (cc_batch_size c) ''inventory_complete'' ''canonicalized''
            ''Canonicalization phase authority changed'' (accounting_json accounting near_complete)))))
          (canonical_cost c ?T) (\<lambda>_. canonicalized c db0) ?I E"
        by (rule runs_conseq) (use z in \<open>auto simp: canonical_cost_def\<close>)
      then show ?thesis using ph by (auto simp: runs_def canonicalize_def jbind_def fetch_def)
    qed
  qed
qed

end
