(* ===== verification/CurateProps.thy ===== *)
theory CurateProps
  imports CurateResume
begin

text \<open>
  Properties of corpus curation: canonicalization survives kills, decides every document for the
  stated reason, and accepts one document per cluster, none of a benchmark's.
\<close>

section \<open>A small inventory for the witnesses\<close>

definition tiny_blob :: "nat \<Rightarrow> blob" where
  "tiny_blob n = replicate 31 0 @ [of_nat n]"

definition tiny_doc :: "nat \<Rightarrow> string \<Rightarrow> nat \<Rightarrow> nat \<Rightarrow> nat \<Rightarrow> nat \<Rightarrow> cur_doc" where
  "tiny_doc i bucket content cluster source penalty = \<lparr>d_id = tiny_blob i, d_bucket = bucket,
     d_archive = ''a'', d_index = i, d_member = ''m'', d_tokens = int (10 + i),
     d_content = tiny_blob (100 + content), d_normalized = tiny_blob (150 + cluster),
     d_cluster = tiny_blob (200 + cluster), d_group = tiny_blob (50 + source),
     d_rank = replicate 7 0 @ [of_nat penalty] @ tiny_blob i, d_selection = tiny_blob (255 - i)\<rparr>"

text \<open>Two copies of one content, a third document of their cluster, a benchmark document and one of its cluster.\<close>

definition tiny_tables :: tables where
  "tiny_tables = \<lparr>t_documents = [tiny_doc 1 ''python'' 1 1 1 5, tiny_doc 2 ''python'' 1 1 2 0,
       tiny_doc 3 ''wikipedia'' 3 1 1 0, tiny_doc 4 ''other_code'' 4 4 4 0, tiny_doc 5 ''python'' 5 4 5 0],
     t_reasons = [(tiny_blob 4, ''benchmark:mbpp'')], t_near_map = [], t_benchmark_content = [],
     t_benchmark_final = [], t_exact_choice = [], t_final_choice = [], t_canonical_map = [], t_groups = [],
     t_selected = []\<rparr>"

definition tiny_db :: cur_db where
  "tiny_db = \<lparr>db_phase = ''inventory_complete'', db_tables = tiny_tables, db_progress = [],
     db_counts = \<lparr>n_archives = 1, n_documents = 5, n_selected = 0\<rparr>, db_events = []\<rparr>"

definition tiny_config :: curate_config where
  "tiny_config = \<lparr>cc_batch_size = 2, cc_fast = False, cc_near = None, cc_near_records = 0, cc_near_sha = [],
     cc_allow_missing_near = True, cc_seed = ''s'', cc_quotas = [], cc_handoff = False\<rparr>"

lemma tiny_inventoried: "inventoried tiny_config tiny_db"
  by code_simp

text \<open>A process that is killed at its seventh commit.\<close>

definition tiny_killed :: cur_db where
  "tiny_killed = snd (snd (canonicalize tiny_config 6 tiny_db))"

lemma tiny_lives: "lives (canonicalize tiny_config) tiny_db tiny_killed"
proof -
  have "fst (canonicalize tiny_config 6 tiny_db) = Killed" by code_simp
  then have "canonicalize tiny_config 6 tiny_db = (Killed, fst (snd (canonicalize tiny_config 6 tiny_db)), tiny_killed)"
    by (simp add: tiny_killed_def prod_eq_iff)
  then show ?thesis by (rule lives.killed [OF lives.unborn])
qed

section \<open>Canonicalization\<close>

text \<open>Every state a killed run leaves satisfies the invariant of \<^verbatim>\<open>canonicalize\<close>'s triple.\<close>

lemma canonicalize_after_lives:
  assumes "inventoried c db0" and "0 < cc_batch_size c" and "lives (canonicalize c) db0 db"
  shows "case canonicalize c n db of
      (Returned _, m, db') \<Rightarrow> canonicalized c db0 db'
    | (Killed, m, db') \<Rightarrow> n < canonical_cost c (db_tables db0)
    | (Raised e, m, db') \<Rightarrow> False"
proof -
  note r = canonicalize_runs [OF assms(1,2), where E = "\<lambda>_ _. False"]
  have "canonicalizing c db0 db \<or> canonicalized c db0 db"
    by (rule lives_invariant [OF assms(3) r]) (use inventoried_starts [OF assms(1)] in simp)
  from r [unfolded runs_def, rule_format, OF this, of n] show ?thesis
    by (auto split: prod.splits outcome.splits)
qed

text \<open>C13: Canonicalization survives kills. Start it on a finished inventory, kill the process any
  number of times at any commit, and call it again: it never raises; it returns whenever it has
  the stated number of commits left; and whenever it returns, the database is the one in which
  every query was evaluated once and all its rows written, whatever the batch size, the pages
  and the kills were, with the phase advanced, the accounting of the validation as its event and
  nothing else changed.\<close>

theorem canonicalization_survives_kills:
  assumes "inventoried c db0" and "0 < cc_batch_size c" and "lives (canonicalize c) db0 db"
  shows "case canonicalize c n db of
      (Returned _, m, db') \<Rightarrow> canonicalized c db0 db'
    | (Killed, m, db') \<Rightarrow> n < canonical_cost c (db_tables db0)
    | (Raised e, m, db') \<Rightarrow> False"
  by (rule canonicalize_after_lives [OF assms])

theorem canonicalization_survives_kills_witness:
  "case canonicalize tiny_config 100 tiny_killed of
      (Returned _, m, db') \<Rightarrow> canonicalized tiny_config tiny_db db'
    | (Killed, m, db') \<Rightarrow> 100 < canonical_cost tiny_config (db_tables tiny_db)
    | (Raised e, m, db') \<Rightarrow> False"
  by (rule canonicalization_survives_kills [OF tiny_inventoried _ tiny_lives]) (simp add: tiny_config_def)

text \<open>C14: Every document is decided for the stated reason. When canonicalization of an inventory
  returns, a document carries, beside the reasons of the inventory, exactly: the contamination
  reason if it has the content or the cluster of a benchmark document; the exact-duplicate reason
  if it is a candidate but not the one of least rank of its content; and the duplicate reason of
  its bucket if it is the canonical document of its content but not of its cluster. A candidate
  is mapped to the canonical document of the cluster of its content's canonical document, any
  other document to none.\<close>

theorem every_document_is_decided:
  assumes "inventoried c db0" and "0 < cc_batch_size c" and "lives (canonicalize c) db0 db"
    and "canonicalize c n db = (Returned (), m, db')"
  defines "T \<equiv> with_clusters c (db_tables db0)" and "T' \<equiv> db_tables db'"
  shows "t_documents T' = t_documents T \<and> (\<forall>d\<in>set (t_documents T).
     (\<forall>r. (d_id d, r) \<in> set (t_reasons T') \<longleftrightarrow> (d_id d, r) \<in> set (t_reasons T) \<or>
        (benchmarked T d \<and> r = ''benchmark_cluster_contamination'') \<or>
        (candidate T d \<and> \<not> content_canonical T d \<and> r = ''residual_exact_duplicate'') \<or>
        (content_canonical T d \<and> \<not> cluster_canonical T d \<and> r = residual_reason (cc_fast c) d)) \<and>
     (\<forall>i. map_of (t_canonical_map T') (d_id d) = Some i \<longleftrightarrow>
        candidate T d \<and> (\<exists>x y. canonical_for T d x y \<and> i = d_id y)))"
proof -
  have T': "T' = canonical_tables (cc_fast c) T"
    using canonicalize_after_lives [OF assms(1-3), of n] assms(4) by (simp add: T'_def T_def canonicalized_def)
  have ok: "ready T" unfolding T_def by (rule with_clusters_ok [OF assms(1)])
  have map: "map_of (t_canonical_map T') (d_id d) = Some i \<longleftrightarrow> candidate T d \<and> (\<exists>x y. canonical_for T d x y \<and> i = d_id y)"
    if d: "d \<in> set (t_documents T)" for d i
  proof (cases "candidate T d")
    case True
    obtain x y where xy: "canonical_for T d x y" by (rule candidate_has_canonical [OF ok d True])
    have "map_of (t_canonical_map T') (d_id d) = Some (d_id y)"
      using True final_via_candidate [OF ok d xy True] by (simp add: T' canonical_map_entry [OF ok d])
    then show ?thesis using True xy canonical_for_unique [OF ok xy] by (metis option.inject)
  next
    case False
    then show ?thesis by (simp add: T' canonical_map_entry [OF ok d])
  qed
  show ?thesis
    using map canonical_reasons [OF ok, of _ _ "cc_fast c"] by (simp add: T' contamination_def)
qed

theorem every_document_is_decided_witness:
  "let T = with_clusters tiny_config tiny_tables; T' = db_tables (snd (snd (canonicalize tiny_config 100 tiny_killed))) in
   t_documents T' = t_documents T \<and> (\<forall>d\<in>set (t_documents T).
     (\<forall>r. (d_id d, r) \<in> set (t_reasons T') \<longleftrightarrow> (d_id d, r) \<in> set (t_reasons T) \<or>
        (benchmarked T d \<and> r = ''benchmark_cluster_contamination'') \<or>
        (candidate T d \<and> \<not> content_canonical T d \<and> r = ''residual_exact_duplicate'') \<or>
        (content_canonical T d \<and> \<not> cluster_canonical T d \<and> r = residual_reason (cc_fast tiny_config) d)) \<and>
     (\<forall>i. map_of (t_canonical_map T') (d_id d) = Some i \<longleftrightarrow>
        candidate T d \<and> (\<exists>x y. canonical_for T d x y \<and> i = d_id y)))"
proof -
  have "fst (canonicalize tiny_config 100 tiny_killed) = Returned ()" by code_simp
  then obtain m db' where r: "canonicalize tiny_config 100 tiny_killed = (Returned (), m, db')"
    by (metis prod.collapse)
  have "0 < cc_batch_size tiny_config" by (simp add: tiny_config_def)
  from every_document_is_decided [OF tiny_inventoried this tiny_lives r] show ?thesis
    by (simp add: r Let_def tiny_db_def)
qed

text \<open>C15: What is accepted is unique and clean. When canonicalization returns, two accepted documents,
  those without a reason, differ in content and in final cluster; none has the content or
  the cluster of a document with a benchmark reason; each had no reason before; and every
  document that had no reason and is of no benchmark cluster is mapped to an accepted one.\<close>

theorem accepted_documents_are_unique:
  assumes "inventoried c db0" and "0 < cc_batch_size c" and "lives (canonicalize c) db0 db"
    and "canonicalize c n db = (Returned (), m, db')"
  defines "T \<equiv> with_clusters c (db_tables db0)" and "T' \<equiv> db_tables db'"
  shows "(\<forall>d\<in>set (t_documents T'). \<forall>e\<in>set (t_documents T'). reason_free T' d \<longrightarrow> reason_free T' e \<longrightarrow>
       d_content d = d_content e \<or> d_cluster d = d_cluster e \<longrightarrow> d = e) \<and>
     (\<forall>d\<in>set (t_documents T'). reason_free T' d \<longrightarrow> reason_free T d \<and> \<not> benchmarked T d) \<and>
     (\<forall>d\<in>set (t_documents T'). reason_free T d \<longrightarrow> \<not> benchmarked T d \<longrightarrow>
       (\<exists>y\<in>set (t_documents T'). reason_free T' y \<and> map_of (t_canonical_map T') (d_id d) = Some (d_id y)))"
proof -
  have T': "T' = canonical_tables (cc_fast c) T"
    using canonicalize_after_lives [OF assms(1-3), of n] assms(4) by (simp add: T'_def T_def canonicalized_def)
  have ok: "ready T" unfolding T_def by (rule with_clusters_ok [OF assms(1)])
  have docs: "t_documents T' = t_documents T" by (simp add: T')
  have acc: "reason_free T' d \<longleftrightarrow> cluster_canonical T d" if "d \<in> set (t_documents T)" for d
    unfolding T' by (rule canonical_accepts [OF ok that])
  have cc: "cluster_canonical T d \<Longrightarrow> content_canonical T d" "content_canonical T d \<Longrightarrow> candidate T d" for d
    by (auto simp: content_canonical_def cluster_canonical_def chosen_def)
  have same: "d = e" if "content_canonical T d" "content_canonical T e" "d_content d = d_content e" for d e
    by (rule chosen_unique [OF ok, of "filter (candidate T) (t_documents T)" d_content])
      (use that in \<open>auto simp: content_canonical_def\<close>)
  have mapped: "\<exists>y\<in>set (t_documents T). reason_free T' y \<and> map_of (t_canonical_map T') (d_id d) = Some (d_id y)"
    if d: "d \<in> set (t_documents T)" and c: "candidate T d" for d
  proof -
    obtain x y where xy: "canonical_for T d x y" by (rule candidate_has_canonical [OF ok d c])
    then have "y \<in> set (t_documents T)" "cluster_canonical T y"
      using canonical_for_known [OF xy] by (auto simp: canonical_for_def)
    moreover have "map_of (t_canonical_map T') (d_id d) = Some (d_id y)"
      using c final_via_candidate [OF ok d xy c] by (simp add: T' canonical_map_entry [OF ok d])
    ultimately show ?thesis using acc by blast
  qed
  show ?thesis
    unfolding docs using acc cc same cluster_canonical_unique [OF ok] mapped by (auto simp: candidate_def)
qed

theorem accepted_documents_are_unique_witness:
  "let T = with_clusters tiny_config tiny_tables; T' = db_tables (snd (snd (canonicalize tiny_config 100 tiny_killed))) in
   (\<forall>d\<in>set (t_documents T'). \<forall>e\<in>set (t_documents T'). reason_free T' d \<longrightarrow> reason_free T' e \<longrightarrow>
       d_content d = d_content e \<or> d_cluster d = d_cluster e \<longrightarrow> d = e) \<and>
     (\<forall>d\<in>set (t_documents T'). reason_free T' d \<longrightarrow> reason_free T d \<and> \<not> benchmarked T d) \<and>
     (\<forall>d\<in>set (t_documents T'). reason_free T d \<longrightarrow> \<not> benchmarked T d \<longrightarrow>
       (\<exists>y\<in>set (t_documents T'). reason_free T' y \<and> map_of (t_canonical_map T') (d_id d) = Some (d_id y)))"
proof -
  have "fst (canonicalize tiny_config 100 tiny_killed) = Returned ()" by code_simp
  then obtain m db' where r: "canonicalize tiny_config 100 tiny_killed = (Returned (), m, db')"
    by (metis prod.collapse)
  have "0 < cc_batch_size tiny_config" by (simp add: tiny_config_def)
  from accepted_documents_are_unique [OF tiny_inventoried this tiny_lives r] show ?thesis
    by (simp add: r Let_def tiny_db_def)
qed

end
