(* ===== verification/Spec2Isabelle.thy ===== *)
theory Spec2Isabelle
  imports DataProps SftProps GuardProps TrainProps CurateProps
begin

text \<open>
  Verification of the pre-training and instruction-tuning pipeline of a from-scratch coding
  language model.

  \<^bold>\<open>The program.\<close> Documents are tokenized and written by \<^verbatim>\<open>PackedShardWriter\<close>
  (\<^verbatim>\<open>pretrain/data.py\<close>) into directories of packed shards, one per domain and split, each with
  a manifest; a journal makes the construction resumable. \<^verbatim>\<open>build_training_order\<close> selects and
  shuffles the rows of the three domains into an order file with its own manifest.
  \<^verbatim>\<open>create_training_dataloader\<close> opens the order, checks every recorded identity again, and reads
  it through \<^verbatim>\<open>DistributedBatchSampler\<close>, \<^verbatim>\<open>DomainMixtureDataset\<close> and
  \<^verbatim>\<open>PackedBatchCollator\<close>. \<^verbatim>\<open>Trainer\<close> (\<^verbatim>\<open>pretrain/train.py\<close>) consumes these batches in
  windows of microbatches, validates, writes checkpoint generations, and stops gracefully on a
  signal or a supervisor's request; a restarted process continues from a generation. For the
  second stage \<^verbatim>\<open>scripts/prepare_prime_sft.py\<close> curates conversations with the decisions of
  \<^verbatim>\<open>posttrain/sft_data.py\<close>, the frozen chat format of \<^verbatim>\<open>posttrain/prime/chat_format.py\<close> and
  the benchmark denylist of \<^verbatim>\<open>scripts/benchmark_guard.py\<close>. Before any of it
  \<^verbatim>\<open>scripts/curate_corpus.py\<close> decides which documents of the raw corpus exist at all and in
  which split they are.

  \<^bold>\<open>Theories and the code they model.\<close>
  \<^item> Prelude, Sha256, Json, PyFloat, Search: exceptions as values (\<open>exn\<close>, \<open>res\<close>, \<open>rbind\<close>),
    bytes and bit packing, SHA-256, JSON values with Python's type tests and equality, Python's
    floats with rounding to even, binary search.
  \<^item> PackedFormat, PackedWriter, PackedResume: the writer record \<open>writer\<close> with its directory
    \<open>w_dir\<close>, \<open>add_document\<close>, \<open>drain_rows\<close>, \<open>checkpoint\<close>, \<open>finish\<close>, and \<open>open_writer\<close>
    (\<^verbatim>\<open>__init__\<close> with \<^verbatim>\<open>resume\<close>). PackedWriterInv, PackedFinish, PackedRecovery and
    PackedCrash hold the invariant against the token stream, the specification \<open>packed_dir\<close>, the
    disk steps of a crash (an inductive relation) and the refinement of a crashed and resumed
    construction to an uninterrupted one.
  \<^item> PackedManifest, PackedReader: the manifest parser and validator, dataset, mixture, collator
    and supervised-token audit. PackedValid and PackedRead: what they give on a finished directory.
  \<^item> OrderBuild, OrderLoad, OrderValidate: \<open>build_training_order\<close>, \<open>load_order_manifest\<close>,
    \<open>validate_training_order\<close>. OrderAlloc, OrderFacts, OrderPlan, OrderAudit, OrderTrip,
    OrderValidateFacts, OrderValidateBuilt, OrderCapped: the allocation of rows to domains, what an
    order selects, its accounting, and that the builder's orders read back and validate.
  \<^item> Sampler, Loader: \<^verbatim>\<open>DistributedBatchSampler\<close>, the geometries read off an order, the loader.
    SamplerFacts, LoaderFacts, Epoch: partition over ranks, resume, and the epoch as a whole.
  \<^item> RandomState, TrainState, TrainBatch, StopControl, CheckpointFiles, Trainer: the capture and the
    checked restoration of each rank's generators (\<^verbatim>\<open>capture_rng_state\<close>, \<^verbatim>\<open>restore_rng_state\<close>,
    with the CUDA device they belong to), \<^verbatim>\<open>TrainConfig\<close> and
    \<^verbatim>\<open>TrainState\<close>, window and validation measurements, \<^verbatim>\<open>GracefulStopController\<close>, the
    directory operations of \<^verbatim>\<open>_atomic_torch_save\<close>, and the trainer with its loop. TrainFacts,
    CheckpointFacts, TrainRun, TrainResume: the counters, what a save leaves wherever it stops, the
    specification of training as a sequence of updates and due validations (\<open>run_updates\<close>), and
    the refinement of a stopped and resumed job to an uninterrupted one.
  \<^item> ChatFormat, SftData, SftPrepare, BenchmarkGuard: the chat format, the row decisions, the two
    passes over the source shards, the denylist. Each pass reads its own columns of a row
    (\<open>scan_columns\<close>, \<open>decision_columns\<close>). The work directory \<open>work_dir\<close> holds the sidecars of both
    passes; \<open>load_valid_preflight\<close> and \<open>load_valid_result\<close> are the checks a sidecar passes before a
    run takes its result over. ChatFacts, SftFacts: their lemmas. SftResume: what a shard publishes
    whatever its row-group size, that a worker's sidecar passes its checks, and the invariant of the
    directories that killed runs leave (the inductive \<open>curation_state\<close>).
  \<^item> CurateStore, CurateCanon: the tables of the curation database, its transactions and resumable
    subphases, and \<^verbatim>\<open>canonicalize\<close> with the English near-duplicate map and its validation.
    CurateRun, CurateFacts, CurateSpec, CurateValid, CurateNear, CurateResume: triples for jobs that
    may be killed, the keyset interface and its ten instances, what the tables mean, and that
    canonicalization ends the same whatever kills interrupt it.
  \<^item> Demo and the theories named \<^verbatim>\<open>Props\<close>: concrete inputs and the properties of single
    components. The properties that span components are below.

  \<^bold>\<open>Conventions.\<close> Every operation is executable. A raise is a value \<open>Inl e\<close> with the constant
  part of its message, an operation that changes state returns the new state. A directory is an
  association list from names to contents; a crash is a prefix of the disk operations, or, where
  the operating system may delay writes, any state reached by disk steps. Loops are structural or
  have a measure; no theorem is conditional on fuel. Fuel appears where the code itself is bounded
  by its environment: the number of transactions a process may commit, or updates it may apply, before it is
  killed; the theorems say how much is enough.
  Integers of Python are \<open>int\<close> or \<open>nat\<close>, those of file formats words. A string is a list of
  code points below 256. A float is the rational it denotes; NaN and the infinities are separate
  values where the code tests for them.

  \<^bold>\<open>Interfaces.\<close> The locale \<open>sidecar_worker\<close> is what the passes of the curation need of a worker
  process, whose result depends on its shard alone, interpreted on the workers of both passes. The locale \<open>keyset_write\<close> is what a query and a statement of a resumable subphase
  promise to its loop, interpreted on every subphase of canonicalization. The locale \<open>hex_digest\<close> is what clients need of a digest, interpreted on the
  model of SHA-256; \<open>fixed_codec\<close> the contract of the fixed-width encodings, interpreted on the
  token and the start-bit encodings of the packed format; \<open>antitone_test\<close> the contract of binary
  search, interpreted on running totals.

  \<^bold>\<open>Parameters.\<close> Code outside the repository is an argument: NumPy's seeded shuffle (with the law
  that it permutes), the tokenizer, the Unicode tables of Python's string methods, PyTorch's model,
  optimizer and reductions over ranks (\<open>torch_ops\<close>), the cosine, and the file
  system beside the directory a function works on (\<open>locate\<close>). Where a theorem needs a law of one of
  these, it is a hypothesis, and the theorem has a witness on a concrete instance. No theorem assumes a law
  of saving and loading: the weights and the optimizer's state are together one opaque value, which a
  checkpoint stores and a load takes over unchanged, as \<^verbatim>\<open>state_dict\<close> and \<^verbatim>\<open>load_state_dict\<close>
  document; the state of a single random generator is opaque in the same way. A digest stands for what it
  digests, except where SHA-256 itself is computed.

  \<^bold>\<open>Not modelled.\<close> Symbolic links, permissions, \<^verbatim>\<open>fsync\<close> (an operation is durable when it has
  happened), telemetry, file locks and process pools.
  Of the repository, the model's tensor arithmetic, the network-bound collectors and streaming
  preprocessing, the materialization driver, GPU qualification and launch authority documents, release and
  upload tools, and reports are outside: they are I/O around third-party services, or validation
  of documents other machines wrote. PROJECT.json lists each with its reason.
\<close>

section \<open>The packed corpus\<close>

text \<open>C1: Packing is a total function of the configuration and the documents. A writer opened on
  an empty directory, fed any non-empty documents with tokens inside the vocabulary (each with an
  optional cursor) and finished never raises, returns the manifest of the specification, and
  leaves exactly the specified files: shards cut from the one token stream in which every
  document is followed by one EOS, the last shard possibly partial, and the manifest; no journal
  and no temporary file is left.\<close>

theorem packing_writes_the_specified_directory:
  assumes "wf_config c" and "docs_ok (c_vocab_size c) (map fst items)"
    and "\<forall>(d, cursor)\<in>set items. cursor_ok cursor"
  shows "\<exists>w. pack_documents c items
       = Inr (packed_manifest c (map fst items) (last_cursor None items), w) \<and>
     map_of (w_dir w) = map_of (packed_dir c (map fst items) (last_cursor None items))"
  by (rule pack_documents_correct [OF assms])

theorem packing_writes_the_specified_directory_witness:
  "\<exists>w. pack_documents demo_config demo_items
       = Inr (packed_manifest demo_config (map fst demo_items) (last_cursor None demo_items), w) \<and>
     map_of (w_dir w) = map_of (packed_dir demo_config (map fst demo_items) (last_cursor None demo_items))"
  by (rule packing_writes_the_specified_directory [OF demo_ok])

text \<open>C2: What the writer finishes, the validator accepts. For every document sequence the
  directory \<^verbatim>\<open>finish\<close> leaves passes \<^verbatim>\<open>validate_packed_manifest\<close> (schema, file set,
  sizes, checksums, vocabulary, first start bit, zero padding bits, EOS before every later start,
  and both label counters), which returns the manifest the writer returned.\<close>

theorem finished_directory_validates:
  assumes "wf_config c" and "docs_ok (c_vocab_size c) (map fst items)"
    and "\<forall>(d, cursor)\<in>set items. cursor_ok cursor"
  shows "\<exists>m w. pack_documents c items = Inr (m, w) \<and>
     validate_packed_manifest verify_checksums (w_dir w) = Inr m"
proof -
  have "cursor_ok (last_cursor a items)" if "cursor_ok a" for a
    using that assms(3)
    by (induction a items rule: last_cursor.induct)
      (auto simp: cursor_ok_def is_jobj_sort_keys split: option.splits)
  then have "cursor_ok (last_cursor None items)" by (simp add: cursor_ok_def)
  then show ?thesis
    using pack_documents_correct [OF assms] validate_packed_dir [OF assms(1,2)] by blast
qed

theorem finished_directory_validates_witness:
  "\<exists>m w. pack_documents demo_config demo_items = Inr (m, w) \<and>
     validate_packed_manifest True (w_dir w) = Inr m"
  by (rule finished_directory_validates [OF demo_ok])

text \<open>C3: A crash after a checkpoint loses nothing that was committed and keeps nothing that was
  not. Let a run create a writer, add documents, checkpoint with a cursor, and add further
  documents without one; stop it anywhere, so that the directory is any one reached by further
  disk steps of the writer (appends to open part files, torn or not, renames of part files,
  journal temporaries). Opening that directory with \<^verbatim>\<open>resume\<close> succeeds and gives the writer
  of the checkpoint, its buffer compacted, over exactly the files the checkpoint had. Shard
  indices stay below one million, the range the file-name parser accepts.\<close>

theorem resume_rolls_back_to_the_checkpoint:
  assumes "wf_config c" and "docs_ok (c_vocab_size c) (map fst items)"
    and "\<forall>(d, cursor)\<in>set items. cursor_ok cursor" and "is_jobj v"
    and "checkpointed_run c items v = Inr w"
    and "docs_ok (c_vocab_size c) lost"
    and "foldM (\<lambda>w d. add_document (as_json_tokens d) None w) w lost = Inr w1"
    and "length (w_shards w1) < 1000000"
    and "(disk_step (length (w_shards w)))\<^sup>*\<^sup>* (w_dir w1) crashed"
  shows "\<exists>d. open_writer True c crashed = Inr (rolled_back w d) \<and> map_of d = map_of (w_dir w) \<and>
     w_source_cursor w = Some (sort_keys v)"
proof -
  have fed: "fed c (map fst items) w" by (rule checkpointed_run_ok(3) [OF assms(1-5)])
  have "length (w_shards w) \<le> length (w_shards w1)"
    using add_documents_disk [OF fed assms(6,7) order_refl assms(8)] by blast
  with assms(8) have "length (w_shards w) < 1000000" by simp
  from checkpointed_run_ok(2) [OF assms(1-5) this]
  have cp: "checkpointed c (map fst items) w" and cur: "w_source_cursor w = Some (sort_keys v)" by auto
  from recovery [OF cp crash_committed [OF cp assms(6-9)]] cur show ?thesis by blast
qed

lemma demo_run:
  obtains w w1 where "checkpointed_run demo_config demo_items (JObj [(''next'', JInt 3)]) = Inr w"
    "foldM (\<lambda>w d. add_document (as_json_tokens d) None w) w [[11, 12]] = Inr w1"
    "length (w_shards w1) < 1000000"
proof -
  have v: "is_jobj (JObj [(''next'', JInt 3)])" by simp
  from checkpointed_run_ok(1) [OF demo_ok v] obtain w where
    w: "checkpointed_run demo_config demo_items (JObj [(''next'', JInt 3)]) = Inr w" by blast
  have fed: "fed demo_config (map fst demo_items) w" by (rule checkpointed_run_ok(3) [OF demo_ok v w])
  have "docs_ok (c_vocab_size demo_config) [[11, 12]]" by (simp add: docs_ok_def demo_config_def)
  from add_documents_none_fed [OF fed this] obtain w1 where
    w1: "foldM (\<lambda>w d. add_document (as_json_tokens d) None w) w [[11, 12]] = Inr w1"
    "fed demo_config (map fst demo_items @ [[11, 12]]) w1" by blast
  from fed_shards_bound [OF w1(2)] have "length (w_shards w1) < 1000000"
    by (simp add: demo_items_def stream_tokens_def)
  with w w1(1) show thesis by (rule that)
qed

theorem resume_rolls_back_to_the_checkpoint_witness:
  "\<exists>w w1 d. checkpointed_run demo_config demo_items (JObj [(''next'', JInt 3)]) = Inr w \<and>
     foldM (\<lambda>w d. add_document (as_json_tokens d) None w) w [[11, 12]] = Inr w1 \<and>
     open_writer True demo_config (AList.update ''..packing-journal.json.tmp'' (Bytes [1]) (w_dir w1))
       = Inr (rolled_back w d) \<and> map_of d = map_of (w_dir w)"
proof -
  obtain w w1 where r: "checkpointed_run demo_config demo_items (JObj [(''next'', JInt 3)]) = Inr w"
    "foldM (\<lambda>w d. add_document (as_json_tokens d) None w) w [[11, 12]] = Inr w1"
    "length (w_shards w1) < 1000000" by (rule demo_run)
  have lost: "docs_ok (c_vocab_size demo_config) [[11, 12]]" by (simp add: docs_ok_def demo_config_def)
  have v: "is_jobj (JObj [(''next'', JInt 3)])" by simp
  have "is_stale ''..packing-journal.json.tmp''"
    by (simp add: is_stale_def stale_prefix_def journal_name_def)
  then have "(disk_step (length (w_shards w)))\<^sup>*\<^sup>* (w_dir w1)
      (AList.update ''..packing-journal.json.tmp'' (Bytes [1]) (w_dir w1))"
    by (intro r_into_rtranclp disk_step.journal_temporary)
  from resume_rolls_back_to_the_checkpoint [OF demo_ok v r(1) lost r(2,3) this] r(1,2) show ?thesis by blast
qed

text \<open>C4: Exactly-once construction. After the crash of C3, a caller that reopens the writer with
  \<^verbatim>\<open>resume\<close>, feeds the documents from the committed cursor on and finishes, gets the
  directory and the manifest of a run that was never interrupted.\<close>

theorem crash_and_resume_equals_uninterrupted_run:
  assumes "wf_config c" and "docs_ok (c_vocab_size c) (map fst items)"
    and "\<forall>(d, cursor)\<in>set items. cursor_ok cursor" and "is_jobj v"
    and "checkpointed_run c items v = Inr w"
    and "docs_ok (c_vocab_size c) lost"
    and "foldM (\<lambda>w d. add_document (as_json_tokens d) None w) w lost = Inr w1"
    and "length (w_shards w1) < 1000000"
    and "(disk_step (length (w_shards w)))\<^sup>*\<^sup>* (w_dir w1) crashed"
    and "docs_ok (c_vocab_size c) (map fst rest)" and "\<forall>(d, cursor)\<in>set rest. cursor_ok cursor"
  shows "\<exists>w2 w3 w4. open_writer True c crashed = Inr w2 \<and> w_source_cursor w2 = Some (sort_keys v) \<and>
     foldM (\<lambda>w (d, cursor). add_document (as_json_tokens d) cursor w) w2 rest = Inr w3 \<and>
     finish None w3 = Inr (packed_manifest c (map fst items @ map fst rest)
       (last_cursor (Some (sort_keys v)) rest), w4) \<and>
     map_of (w_dir w4) = map_of (packed_dir c (map fst items @ map fst rest)
       (last_cursor (Some (sort_keys v)) rest))"
proof -
  have fed: "fed c (map fst items) w" by (rule checkpointed_run_ok(3) [OF assms(1-5)])
  have "length (w_shards w) \<le> length (w_shards w1)"
    using add_documents_disk [OF fed assms(6,7) order_refl assms(8)] by blast
  with assms(8) have "length (w_shards w) < 1000000" by simp
  from checkpointed_run_ok(2) [OF assms(1-5) this]
  have cp: "checkpointed c (map fst items) w" and cur: "w_source_cursor w = Some (sort_keys v)" by auto
  from resume_equals_uninterrupted [OF cp assms(6-11)] show ?thesis unfolding cur .
qed

theorem crash_and_resume_equals_uninterrupted_run_witness:
  "\<exists>w w1 w2 w3 w4 m. checkpointed_run demo_config demo_items (JObj [(''next'', JInt 3)]) = Inr w \<and>
     foldM (\<lambda>w d. add_document (as_json_tokens d) None w) w [[11, 12]] = Inr w1 \<and>
     open_writer True demo_config (w_dir w1) = Inr w2 \<and>
     add_document (as_json_tokens [13, 14]) None w2 = Inr w3 \<and> finish None w3 = Inr (m, w4) \<and>
     map_of (w_dir w4) = map_of (packed_dir demo_config (map fst demo_items @ [[13, 14]])
       (Some (sort_keys (JObj [(''next'', JInt 3)]))))"
proof -
  obtain w w1 where r: "checkpointed_run demo_config demo_items (JObj [(''next'', JInt 3)]) = Inr w"
    "foldM (\<lambda>w d. add_document (as_json_tokens d) None w) w [[11, 12]] = Inr w1"
    "length (w_shards w1) < 1000000" by (rule demo_run)
  have lost: "docs_ok (c_vocab_size demo_config) [[11, 12]]" by (simp add: docs_ok_def demo_config_def)
  have v: "is_jobj (JObj [(''next'', JInt 3)])" by simp
  have rest: "docs_ok (c_vocab_size demo_config) (map fst [([13, 14], None :: json option)])"
    "\<forall>(d, cursor)\<in>set [([13 :: nat, 14], None :: json option)]. cursor_ok cursor"
    by (simp_all add: docs_ok_def demo_config_def cursor_ok_def)
  from crash_and_resume_equals_uninterrupted_run [OF demo_ok v r(1) lost r(2,3) rtranclp.rtrancl_refl rest]
  obtain w2 w3 w4 m where "open_writer True demo_config (w_dir w1) = Inr w2"
    "add_document (as_json_tokens [13, 14]) None w2 = Inr w3" "finish None w3 = Inr (m, w4)"
    "map_of (w_dir w4) = map_of (packed_dir demo_config (map fst demo_items @ [[13, 14]])
       (Some (sort_keys (JObj [(''next'', JInt 3)]))))" by auto
  with r(1,2) show ?thesis by blast
qed

text \<open>C5: A finished directory reopens as finished. If a crash fell between the manifest and the
  removal of the journal (or left journal temporaries), opening with \<^verbatim>\<open>resume\<close> checks
  identity, shard sizes and the file set, removes the journal, and gives a writer whose
  \<^verbatim>\<open>finish\<close> returns the manifest on disk.\<close>

theorem finished_directory_reopens:
  assumes "wf_config c" and "docs_ok (c_vocab_size c) docs"
    and "case cursor of None \<Rightarrow> True | Some v \<Rightarrow> is_jobj v \<and> sort_keys v = v"
    and "\<And>p. p \<noteq> journal_name \<Longrightarrow> map_of (remove_stale d) p = map_of (packed_dir c docs cursor) p"
  shows "\<exists>w. open_writer True c d = Inr w \<and> w_finished w \<and> w_source_cursor w = cursor \<and>
     w_documents w = length docs \<and> map_of (w_dir w) = map_of (packed_dir c docs cursor) \<and>
     finish final_cursor w = Inr (packed_manifest c docs cursor, w)"
  using reopen_finished [OF assms, of final_cursor] by blast

theorem finished_directory_reopens_witness:
  "\<exists>w. open_writer True demo_config ((journal_name, JsonFile JNull) # packed_dir demo_config [[5, 6, 7]] None)
       = Inr w \<and> w_finished w \<and> \<not> file_exists (w_dir w) journal_name"
proof -
  let ?d = "(journal_name, JsonFile JNull) # packed_dir demo_config [[5, 6, 7]] None"
  have docs: "docs_ok (c_vocab_size demo_config) [[5, 6, 7]]" by (simp add: docs_ok_def demo_config_def)
  have "is_stale p \<Longrightarrow> map_of (packed_dir demo_config [[5, 6, 7]] None) p = None" for p
    by (subst packed_dir_def, simp only: Let_def) (auto intro!: map_of_concat_other)
  then have d: "map_of (remove_stale ?d) p = map_of (packed_dir demo_config [[5, 6, 7]] None) p"
    if "p \<noteq> journal_name" for p using that by (simp add: map_of_remove_stale)
  have "map_of (packed_dir demo_config [[5, 6, 7]] None) journal_name = None"
    by (subst packed_dir_def, simp only: Let_def) (auto intro!: map_of_concat_other)
  with finished_directory_reopens [OF demo_ok(1) docs, of None ?d None] d show ?thesis
    by (auto simp: file_exists_def)
qed

section \<open>From the corpus to the batches\<close>

text \<open>C6: What the order builder writes, the full validator accepts. Over three packed corpora whose
  manifests can be located again, whenever \<^verbatim>\<open>build_training_order\<close> returns a manifest, the
  directory it leaves passes \<^verbatim>\<open>validate_training_order\<close> (weights, token budget, targets,
  supervised counts, the chunked scan of every reference, packed identities and the complement
  accounting), which returns that manifest. The hypotheses name the values the loader treats
  differently from the builder: a negative seed, a boolean tolerance, weights that change when they
  are normalised a second time.\<close>

theorem built_orders_validate:
  assumes "build_training_order shuffle np files manifests output seed weights expected tol gmr ga = Inr (m, out)"
    and "packed_corpora (\<lambda>domain. the (map_of manifests domain)) cs" and "permutes_rows shuffle"
    and "np \<noteq> []" and "dataset_files_ok files" and "0 \<le> seed" and "\<not> is_jbool tol"
    and "located locate files (\<lambda>domain. the (map_of manifests domain))" and "stable_weights weights"
  shows "validate_training_order locate verify_hashes out = Inr m"
  by (rule built_order_validates [OF assms(1-8)]) (use assms(9) stable_weightsD in blast)

theorem built_orders_validate_witness:
  "\<exists>m out. build_training_order demo_shuffle ''2.0'' demo_files demo_manifests [] 7 None JNull JNull
       (JInt 2) (JInt 1) = Inr (m, out) \<and> validate_training_order demo_locate True out = Inr m"
proof -
  obtain p u m out where b: "build_training_order demo_shuffle ''2.0'' demo_files demo_manifests [] 7 None JNull JNull
      (JInt 2) (JInt 1) = Inr (m, out)" by (rule demo_built)
  have "validate_training_order demo_locate True out = Inr m"
    by (rule built_orders_validate [OF b demo_packed demo_permutes _ demo_files_ok _ _ demo_located demo_stable])
      simp_all
  with b show ?thesis by blast
qed

text \<open>C7: Training reads every trainable row exactly once. Take an order built over three packed
  corpora and one data loader per rank of a world of \<open>n\<close> ranks, all created from that order with
  the same arguments and no failure. Then every batch of every rank can be read; each batch holds
  the tokens, labels, positions and document ids of the corpus rows its references name; and the
  references of all batches, taken step by step and rank by rank, are exactly the rows of the
  order from the start of the run to its trainable end, which are pairwise distinct.\<close>

theorem training_reads_every_trainable_row_once:
  assumes "build_training_order shuffle np files manifests output seed weights expected tol gmr ga = Inr (m, out)"
    and "packed_corpora (\<lambda>domain. the (map_of manifests domain)) cs" and "permutes_rows shuffle"
    and "np \<noteq> []" and "dataset_files_ok files" and "0 \<le> seed" and "\<not> is_jbool tol"
    and "located locate files (\<lambda>domain. the (map_of manifests domain))"
    and "expected = JNull \<or> stable_weights weights"
    and "nat (jint_of (sa_world (la_sampler a))) = n" and "0 < n"
    and "\<forall>r<n. create_training_dataloader locate sha
       (a\<lparr>la_sampler := with_rank (la_sampler a) r\<rparr>) out = Inr (l r)"
  shows "\<exists>p batch. plan_training_order shuffle (\<lambda>domain. the (map_of manifests domain)) seed weights
      expected tol gmr ga = Inr p \<and> distinct (o_references p) \<and>
     (let g = nat (jint_of (sa_gmr (la_sampler a))); k = nat (jint_of (sa_ga (la_sampler a)));
          start = sampler_start (la_sampler a); total = length (o_references p) div (g * k) * k in
      (\<forall>r<n. loader_batches (l r) = map (\<lambda>i. Inr (batch r i)) [start..<total]) \<and>
      (\<forall>r<n. \<forall>i\<in>{start..<total}. corpus_batch cs (o_sequence_length p) (b_references (batch r i)) (batch r i)) \<and>
      concat (map (\<lambda>i. concat (map (\<lambda>r. b_references (batch r i)) [0..<n])) [start..<total])
        = drop (start * g) (take (total * g) (o_references p)))"
  unfolding Let_def by (rule epoch_batches [OF assms, unfolded Let_def])

theorem training_reads_every_trainable_row_once_witness:
  "\<exists>m out l p (batch :: nat \<Rightarrow> nat \<Rightarrow> batch).
     build_training_order demo_shuffle ''2.0'' demo_files demo_manifests [] 7 None JNull JNull (JInt 2) (JInt 1)
       = Inr (m, out) \<and>
     (\<forall>r<2. create_training_dataloader demo_locate [] (demo_args\<lparr>la_sampler := with_rank (la_sampler demo_args) r\<rparr>)
       out = Inr (l r)) \<and>
     plan_training_order demo_shuffle demo_dirs 7 None JNull JNull (JInt 2) (JInt 1) = Inr p \<and>
     length (o_references p) = 7 \<and> distinct (o_references p) \<and>
     concat (map (\<lambda>i. concat (map (\<lambda>r. b_references (batch r i)) [0..<2])) [0..<3]) = take 6 (o_references p)"
proof -
  obtain m out l where
    b: "build_training_order demo_shuffle ''2.0'' demo_files demo_manifests [] 7 None JNull JNull (JInt 2) (JInt 1)
       = Inr (m, out)"
    and l: "\<forall>r<2. create_training_dataloader demo_locate [] (demo_args\<lparr>la_sampler := with_rank (la_sampler demo_args) r\<rparr>)
       out = Inr (l r)" by (rule demo_loaders)
  have a: "nat (jint_of (sa_world (la_sampler demo_args))) = 2" "nat (jint_of (sa_gmr (la_sampler demo_args))) = 2"
    "nat (jint_of (sa_ga (la_sampler demo_args))) = 1" "sampler_start (la_sampler demo_args) = 0"
    by (simp_all add: demo_args_def demo_sampler_args_def sampler_start_def)
  from training_reads_every_trainable_row_once
    [OF b demo_packed demo_permutes _ demo_files_ok _ _ demo_located _ a(1) _ l, unfolded a(2-4) Let_def]
  obtain p and batch :: "nat \<Rightarrow> nat \<Rightarrow> batch" where p: "plan_training_order demo_shuffle demo_dirs 7 None JNull JNull (JInt 2) (JInt 1) = Inr p"
    and d: "distinct (o_references p)"
    and c: "concat (map (\<lambda>i. concat (map (\<lambda>r. b_references (batch r i)) [0..<2]))
      [0..<length (o_references p) div 2])
      = take (length (o_references p) div 2 * 2) (o_references p)"
    using demo_stable by simp blast
  from c have "concat (map (\<lambda>i. concat (map (\<lambda>r. b_references (batch r i)) [0..<2])) [0..<3]) = take 6 (o_references p)"
    by (simp add: demo_order_length [OF p])
  with b l p d demo_order_length [OF p] show ?thesis by blast
qed

end
